(* ===== verification/Prelude.thy ===== *)
theory Prelude
  imports Main "HOL-Library.Word"
begin

text \<open>
  Shared vocabulary of the development: the fixed-width integer types, the error values that
  stand for exceptions and undefined behaviour of the C++ code, a result type with its
  sequencing operator, ceiling division, in-place byte copies, and sorted association lists
  as the model of \<open>std::map\<close>.
\<close>

section \<open>Machine types and results\<close>

type_synonym u8 = "8 word"
type_synonym u16 = "16 word"
type_synonym u32 = "32 word"
type_synonym u64 = "64 word"
type_synonym bytes = "u8 list"

text \<open>
  \<open>OutOfRange\<close> is a thrown \<open>std::out_of_range\<close> and \<open>Thrown\<close> any other exception; the other values mark behaviour that C++
  leaves undefined or that stops the process: a null pointer dereference, a division by zero, a shift or a signed sum outside its type,
  a failed \<open>ROUTN_ASSERT\<close>, a container index outside its bounds, an iterator that points to no element
  and is followed or erased, an iterator that is moved past the end, a read of a variable that was
  never written, a function with a result that ends without \<open>return\<close>.
\<close>

datatype cpp_error =
    OutOfRange | Thrown | NullDeref | DivByZero | ArithUB | AssertFail | BadIndex | BadIter | PastEnd
  | Uninit | NoReturn

type_synonym 'a res = "cpp_error + 'a"

fun bindE :: "'a res \<Rightarrow> ('a \<Rightarrow> 'b res) \<Rightarrow> 'b res" where
  "bindE (Inl e) f = Inl e"
| "bindE (Inr x) f = f x"

named_theorems codec "what the typed reads and writes of a buffer do to the bytes left"
named_theorems inv_intros "operations that keep a component's invariant"

lemma bindE_Inr_iff: "bindE m f = Inr y \<longleftrightarrow> (\<exists>x. m = Inr x \<and> f x = Inr y)"
  by (cases m) auto

lemma bindE_Inl_iff:
  "bindE m f = Inl e \<longleftrightarrow> m = Inl e \<or> (\<exists>x. m = Inr x \<and> f x = Inl e)"
  by (cases m) auto

lemma bindE_assoc: "bindE (bindE m f) g = bindE m (\<lambda>x. bindE (f x) g)"
  by (cases m) auto

lemma bindE_ext: "(\<And>x. f x = g x) \<Longrightarrow> bindE m f = bindE m g"
  by (cases m) auto

section \<open>Arithmetic\<close>

definition ceil_div :: "nat \<Rightarrow> nat \<Rightarrow> nat" where
  "ceil_div a b = (a + b - 1) div b"

lemma ceil_div_ge: "0 < b \<Longrightarrow> a \<le> ceil_div a b * b"
proof -
  assume b: "0 < b"
  have "a + b - 1 = ceil_div a b * b + (a + b - 1) mod b"
    by (simp add: ceil_div_def)
  moreover have "(a + b - 1) mod b < b"
    using b by simp
  ultimately show ?thesis by linarith
qed

lemma ceil_div_pos: "0 < b \<Longrightarrow> 0 < a \<Longrightarrow> 0 < ceil_div a b"
  using ceil_div_ge [of b a] by (cases "ceil_div a b") auto

lemma ceil_div_less: "0 < b \<Longrightarrow> ceil_div a b * b < a + b"
proof -
  assume b: "0 < b"
  have "ceil_div a b * b \<le> a + b - 1"
    by (simp add: ceil_div_def)
  then show ?thesis using b by linarith
qed

section \<open>Copies into a buffer\<close>

text \<open>\<open>memcpy(dst + off, bs, length bs)\<close> into the buffer \<open>dst\<close>.\<close>

definition put_at :: "nat \<Rightarrow> 'a list \<Rightarrow> 'a list \<Rightarrow> 'a list" where
  "put_at off bs dst = take off dst @ bs @ drop (off + length bs) dst"

text \<open>\<open>memcpy(_, src + off, n)\<close>: the bytes taken.\<close>

definition sub_bytes :: "nat \<Rightarrow> nat \<Rightarrow> 'a list \<Rightarrow> 'a list" where
  "sub_bytes off n src = take n (drop off src)"

lemma length_put_at [simp]:
  "off + length bs \<le> length dst \<Longrightarrow> length (put_at off bs dst) = length dst"
  by (simp add: put_at_def)

lemma put_at_Nil [simp]: "put_at off [] dst = dst"
  by (simp add: put_at_def)

lemma length_sub_bytes [simp]:
  "off + n \<le> length src \<Longrightarrow> length (sub_bytes off n src) = n"
  by (simp add: sub_bytes_def)

lemma put_at_append_left:
  "off + length bs \<le> length xs \<Longrightarrow> put_at off bs (xs @ ys) = put_at off bs xs @ ys"
  by (simp add: put_at_def)

lemma put_at_append_right:
  "length xs \<le> off \<Longrightarrow> put_at off bs (xs @ ys) = xs @ put_at (off - length xs) bs ys"
  by (simp add: put_at_def)

lemma put_at_put_at:
  "off + length as \<le> length dst \<Longrightarrow>
   put_at (off + length as) bs (put_at off as dst) = put_at off (as @ bs) dst"
  by (simp add: put_at_def ac_simps)

lemma sub_bytes_split:
  "sub_bytes off (m + n) src = sub_bytes off m src @ sub_bytes (off + m) n src"
  by (simp add: sub_bytes_def take_add add.commute)

lemma sub_bytes_append_left:
  "off + n \<le> length xs \<Longrightarrow> sub_bytes off n (xs @ ys) = sub_bytes off n xs"
  by (simp add: sub_bytes_def)

lemma sub_bytes_append_right:
  "length xs \<le> off \<Longrightarrow> sub_bytes off n (xs @ ys) = sub_bytes (off - length xs) n ys"
  by (simp add: sub_bytes_def)

section \<open>A chain of equally long nodes and its flat content\<close>

definition uniform :: "nat \<Rightarrow> 'a list list \<Rightarrow> bool" where
  "uniform b xss \<longleftrightarrow> (\<forall>xs \<in> set xss. length xs = b)"

lemma uniform_simps [simp]:
  "uniform b []"
  "uniform b (xs # xss) \<longleftrightarrow> length xs = b \<and> uniform b xss"
  "uniform b (xss @ yss) \<longleftrightarrow> uniform b xss \<and> uniform b yss"
  by (auto simp: uniform_def)

lemma uniform_nth: "uniform b xss \<Longrightarrow> i < length xss \<Longrightarrow> length (xss ! i) = b"
  by (simp add: uniform_def)

lemma uniform_update:
  "uniform b xss \<Longrightarrow> length xs = b \<Longrightarrow> uniform b (xss[i := xs])"
  by (auto simp: uniform_def dest: set_update_subset_insert [THEN subsetD])

lemma length_concat_uniform: "uniform b xss \<Longrightarrow> length (concat xss) = length xss * b"
  by (induction xss) auto

lemma sub_bytes_concat:
  "uniform b xss \<Longrightarrow> i < length xss \<Longrightarrow> off + n \<le> b \<Longrightarrow>
   sub_bytes (i * b + off) n (concat xss) = sub_bytes off n (xss ! i)"
proof (induction xss arbitrary: i)
  case (Cons xs xss)
  then show ?case
    by (cases i) (auto simp: sub_bytes_append_left sub_bytes_append_right)
qed simp

lemma put_at_concat:
  "uniform b xss \<Longrightarrow> i < length xss \<Longrightarrow> off + length bs \<le> b \<Longrightarrow>
   concat (xss[i := put_at off bs (xss ! i)]) = put_at (i * b + off) bs (concat xss)"
proof (induction xss arbitrary: i)
  case (Cons xs xss)
  then show ?case
    by (cases i) (auto simp: put_at_append_left put_at_append_right)
qed simp

section \<open>Association lists\<close>

lemma length_filter_key:
  "distinct (map fst xs) \<Longrightarrow> a \<in> fst ` set xs \<Longrightarrow>
   Suc (length (filter (\<lambda>p. fst p \<noteq> a) xs)) = length xs"
proof (induction xs)
  case (Cons p xs)
  show ?case
  proof (cases "fst p = a")
    case True
    then have "a \<notin> fst ` set xs"
      using Cons.prems(1) by simp
    then have "filter (\<lambda>p. fst p \<noteq> a) xs = xs"
      by (intro filter_True ballI) (metis imageI)
    then show ?thesis using True by simp
  next
    case False
    then show ?thesis using Cons by auto
  qed
qed simp

end
