(* ===== verification/ByteArray.thy ===== *)
theory ByteArray
  imports Prelude
begin

text \<open>
  The serialisation buffer of \<open>src/ByteArray.cpp\<close>: a chain of nodes of \<open>_baseSize\<close> bytes,
  a read/write position and the current node. The chain \<open>_root\<close> is the list \<open>ba_nodes\<close>,
  \<open>_cur\<close> is an index into it, and the index one past the end is the null pointer that the code
  stores there when the last node is full. \<open>ba_mem\<close> gives the bytes a fresh node holds before
  anything is written to it (\<open>new char[s]\<close> leaves them indeterminate); every theorem is about
  an arbitrary \<open>ba_mem\<close>. Sizes are natural numbers: a buffer of 2^64 bytes is out of scope.
\<close>

section \<open>State\<close>

datatype byte_order = LittleEndian | BigEndian

record byte_array =
  ba_base :: nat
  ba_cap :: nat
  ba_pos :: nat
  ba_size :: nat
  ba_endian :: byte_order
  ba_nodes :: "bytes list"
  ba_cur :: nat
  ba_mem :: "nat \<Rightarrow> u8"

definition fresh_node :: "(nat \<Rightarrow> u8) \<Rightarrow> nat \<Rightarrow> nat \<Rightarrow> bytes" where
  "fresh_node mem base k = map (\<lambda>j. mem (k * base + j)) [0..<base]"

definition new_byte_array :: "(nat \<Rightarrow> u8) \<Rightarrow> nat \<Rightarrow> byte_array" where
  "new_byte_array mem base =
     \<lparr>ba_base = base, ba_cap = base, ba_pos = 0, ba_size = 0, ba_endian = BigEndian,
      ba_nodes = [fresh_node mem base 0], ba_cur = 0, ba_mem = mem\<rparr>"

definition isLittleEndian :: "byte_array \<Rightarrow> bool" where
  "isLittleEndian ba \<longleftrightarrow> ba_endian ba = LittleEndian"

definition setIsLittleEndian :: "bool \<Rightarrow> byte_array \<Rightarrow> byte_array" where
  "setIsLittleEndian val ba =
     ba\<lparr>ba_endian := (if val then LittleEndian else BigEndian)\<rparr>"

definition getReadSize :: "byte_array \<Rightarrow> nat" where
  "getReadSize ba = ba_size ba - ba_pos ba"

definition getCapcity :: "byte_array \<Rightarrow> nat" where
  "getCapcity ba = ba_cap ba - ba_pos ba"

text \<open>\<open>*p\<close> for a node pointer: null is the index past the end.\<close>

definition node_at :: "byte_array \<Rightarrow> nat \<Rightarrow> bytes option" where
  "node_at ba i = (if i < length (ba_nodes ba) then Some (ba_nodes ba ! i) else None)"

section \<open>Capacity\<close>

definition addCapacity :: "nat \<Rightarrow> byte_array \<Rightarrow> byte_array" where
  "addCapacity n ba =
     (if n = 0 then ba
      else if getCapcity ba > n then ba
      else let old_cap = getCapcity ba in
        if old_cap \<ge> n then ba
        else
          let count = ceil_div (n - old_cap) (ba_base ba);
              old = length (ba_nodes ba);
              added = map (fresh_node (ba_mem ba) (ba_base ba)) [old..<old + count]
          in ba\<lparr>ba_nodes := ba_nodes ba @ added,
                ba_cap := ba_cap ba + count * ba_base ba,
                ba_cur := (if old_cap = 0 then old else ba_cur ba)\<rparr>)"

definition ba_clear :: "byte_array \<Rightarrow> byte_array" where
  "ba_clear ba =
     ba\<lparr>ba_pos := 0, ba_size := 0, ba_cap := ba_base ba,
        ba_cur := 0, ba_nodes := take 1 (ba_nodes ba)\<rparr>"

section \<open>Writing and reading at the position\<close>

text \<open>
  The loops of \<open>write\<close> and \<open>read\<close>. \<open>npos\<close> is the offset in the current node, \<open>ncap\<close>
  the bytes left in it. Moving on to the next node reads its size, so a null next pointer is a
  null dereference.
\<close>

function write_loop :: "nat \<Rightarrow> nat \<Rightarrow> bytes \<Rightarrow> byte_array \<Rightarrow> byte_array res" where
  "write_loop npos ncap bs ba =
     (if bs = [] then Inr ba
      else case node_at ba (ba_cur ba) of
        None \<Rightarrow> Inl NullDeref
      | Some node \<Rightarrow>
          if length bs \<le> ncap then
            Inr (ba\<lparr>ba_nodes := (ba_nodes ba)[ba_cur ba := put_at npos bs node],
                    ba_cur := (if length node = npos + length bs then Suc (ba_cur ba) else ba_cur ba),
                    ba_pos := ba_pos ba + length bs\<rparr>)
          else
            let ba' = ba\<lparr>ba_nodes := (ba_nodes ba)[ba_cur ba := put_at npos (take ncap bs) node],
                         ba_pos := ba_pos ba + ncap,
                         ba_cur := Suc (ba_cur ba)\<rparr>
            in case node_at ba (Suc (ba_cur ba)) of
                 None \<Rightarrow> Inl NullDeref
               | Some node' \<Rightarrow> write_loop 0 (length node') (drop ncap bs) ba')"
  by pat_completeness auto
termination
  by (relation "measure (\<lambda>(npos, ncap, bs, ba). length (ba_nodes ba) - ba_cur ba)")
    (auto simp: node_at_def split: if_splits)

declare write_loop.simps [simp del]

definition ba_write :: "bytes \<Rightarrow> byte_array \<Rightarrow> byte_array res" where
  "ba_write bs ba =
     (if bs = [] then Inr ba
      else if ba_base ba = 0 then Inl DivByZero
      else
        let ba1 = addCapacity (length bs) ba;
            npos = ba_pos ba1 mod ba_base ba1
        in case node_at ba1 (ba_cur ba1) of
             None \<Rightarrow> Inl NullDeref
           | Some node \<Rightarrow>
               bindE (write_loop npos (length node - npos) bs ba1)
                 (\<lambda>ba2. Inr (if ba_pos ba2 > ba_size ba2
                             then ba2\<lparr>ba_size := ba_pos ba2\<rparr> else ba2)))"

function read_loop :: "nat \<Rightarrow> nat \<Rightarrow> nat \<Rightarrow> byte_array \<Rightarrow> (bytes \<times> byte_array) res" where
  "read_loop npos ncap n ba =
     (if n = 0 then Inr ([], ba)
      else case node_at ba (ba_cur ba) of
        None \<Rightarrow> Inl NullDeref
      | Some node \<Rightarrow>
          if n \<le> ncap then
            Inr (sub_bytes npos n node,
                 ba\<lparr>ba_cur := (if length node = npos + n then Suc (ba_cur ba) else ba_cur ba),
                    ba_pos := ba_pos ba + n\<rparr>)
          else
            let ba' = ba\<lparr>ba_pos := ba_pos ba + ncap, ba_cur := Suc (ba_cur ba)\<rparr>
            in case node_at ba (Suc (ba_cur ba)) of
                 None \<Rightarrow> Inl NullDeref
               | Some node' \<Rightarrow>
                   bindE (read_loop 0 (length node') (n - ncap) ba')
                     (\<lambda>(rest, ba''). Inr (sub_bytes npos ncap node @ rest, ba'')))"
  by pat_completeness auto
termination
  by (relation "measure (\<lambda>(npos, ncap, n, ba). length (ba_nodes ba) - ba_cur ba)")
    (auto simp: node_at_def split: if_splits)

declare read_loop.simps [simp del]

definition ba_read :: "nat \<Rightarrow> byte_array \<Rightarrow> (bytes \<times> byte_array) res" where
  "ba_read n ba =
     (if n > getReadSize ba then Inl OutOfRange
      else if ba_base ba = 0 then Inl DivByZero
      else
        let npos = ba_pos ba mod ba_base ba in
        case node_at ba (ba_cur ba) of
          None \<Rightarrow> Inl NullDeref
        | Some node \<Rightarrow> read_loop npos (length node - npos) n ba)"

text \<open>
  The const \<open>Read(buf, size, position)\<close>. Its second branch copies from \<open>_cur\<close>, not from the
  local \<open>cur\<close> that walks the chain (line 528 of the source); the model keeps that.
\<close>

function Read_loop :: "bytes \<Rightarrow> nat \<Rightarrow> nat \<Rightarrow> nat \<Rightarrow> nat \<Rightarrow> byte_array \<Rightarrow> bytes res" where
  "Read_loop cur_node cur npos ncap n ba =
     (if n = 0 then Inr []
      else case node_at ba cur of
        None \<Rightarrow> Inl NullDeref
      | Some node \<Rightarrow>
          if n \<le> ncap then Inr (sub_bytes npos n node)
          else case node_at ba (Suc cur) of
                 None \<Rightarrow> Inl NullDeref
               | Some node' \<Rightarrow>
                   bindE (Read_loop cur_node (Suc cur) 0 (length node') (n - ncap) ba)
                     (\<lambda>rest. Inr (sub_bytes npos ncap cur_node @ rest)))"
  by pat_completeness auto
termination
  by (relation "measure (\<lambda>(cn, cur, npos, ncap, n, ba). length (ba_nodes ba) - cur)")
    (auto simp: node_at_def split: if_splits)

declare Read_loop.simps [simp del]

definition ba_Read :: "nat \<Rightarrow> nat \<Rightarrow> byte_array \<Rightarrow> bytes res" where
  "ba_Read n position ba =
     (if n > getReadSize ba then Inl OutOfRange
      else if ba_base ba = 0 then Inl DivByZero
      else
        let npos = position mod ba_base ba in
        case node_at ba (ba_cur ba) of
          None \<Rightarrow> Inl NullDeref
        | Some node \<Rightarrow> Read_loop node (ba_cur ba) npos (length node - npos) n ba)"

definition ba_toString :: "byte_array \<Rightarrow> bytes res" where
  "ba_toString ba =
     (if getReadSize ba = 0 then Inr [] else ba_Read (getReadSize ba) (ba_pos ba) ba)"

section \<open>Moving the position\<close>

function seek_node :: "nat \<Rightarrow> nat \<Rightarrow> byte_array \<Rightarrow> nat res" where
  "seek_node v cur ba =
     (case node_at ba cur of
        None \<Rightarrow> Inl NullDeref
      | Some node \<Rightarrow>
          if v > length node then seek_node (v - length node) (Suc cur) ba
          else if v = length node then Inr (Suc cur)
          else Inr cur)"
  by pat_completeness auto
termination
  by (relation "measure (\<lambda>(v, cur, ba). length (ba_nodes ba) - cur)")
    (auto simp: node_at_def split: if_splits)

declare seek_node.simps [simp del]

definition setPosition :: "nat \<Rightarrow> byte_array \<Rightarrow> byte_array res" where
  "setPosition v ba =
     (if v > ba_cap ba then Inl OutOfRange
      else bindE (seek_node v 0 ba)
        (\<lambda>cur. Inr (ba\<lparr>ba_pos := v, ba_size := max (ba_size ba) v, ba_cur := cur\<rparr>)))"

section \<open>Well-formed buffers and their abstract content\<close>

text \<open>
  \<open>ba_wf\<close> is what every operation keeps: all nodes are full size, the capacity is theirs, the
  position is inside the data and the current node is the one that holds the position (null
  when the position is the capacity). \<open>ba_content\<close> is the data a buffer holds, \<open>ba_rest\<close> what is
  left to read.
\<close>

definition ba_wf :: "byte_array \<Rightarrow> bool" where
  "ba_wf ba \<longleftrightarrow> 0 < ba_base ba \<and> uniform (ba_base ba) (ba_nodes ba) \<and> ba_nodes ba \<noteq> [] \<and>
     ba_cap ba = length (ba_nodes ba) * ba_base ba \<and> ba_pos ba \<le> ba_size ba \<and>
     ba_size ba \<le> ba_cap ba \<and> ba_cur ba = ba_pos ba div ba_base ba"

definition ba_content :: "byte_array \<Rightarrow> bytes" where
  "ba_content ba = take (ba_size ba) (concat (ba_nodes ba))"

definition ba_rest :: "byte_array \<Rightarrow> bytes" where
  "ba_rest ba = drop (ba_pos ba) (ba_content ba)"

lemma length_fresh_node [simp]: "length (fresh_node mem b k) = b"
  by (simp add: fresh_node_def)

lemma uniform_fresh [simp]: "uniform b (map (fresh_node mem b) ks)"
  by (simp add: uniform_def)

lemma new_byte_array_wf: "0 < base \<Longrightarrow> ba_wf (new_byte_array mem base)"
  by (simp add: ba_wf_def new_byte_array_def)

lemma new_byte_array_empty:
  "ba_content (new_byte_array mem base) = []" "ba_pos (new_byte_array mem base) = 0"
  by (simp_all add: ba_content_def new_byte_array_def)

lemma ba_wf_flat_length: "ba_wf ba \<Longrightarrow> length (concat (ba_nodes ba)) = ba_cap ba"
  by (simp add: ba_wf_def length_concat_uniform)

lemma ba_wf_content_length: "ba_wf ba \<Longrightarrow> length (ba_content ba) = ba_size ba"
  using ba_wf_flat_length [of ba] by (simp add: ba_content_def ba_wf_def)

lemma ba_wf_rest_length: "ba_wf ba \<Longrightarrow> length (ba_rest ba) = getReadSize ba"
  by (simp add: ba_rest_def getReadSize_def ba_wf_content_length)

lemma ba_wf_node_at:
  assumes "ba_wf ba" and "ba_pos ba < ba_cap ba"
  shows "node_at ba (ba_cur ba) = Some (ba_nodes ba ! ba_cur ba)"
    and "length (ba_nodes ba ! ba_cur ba) = ba_base ba"
    and "ba_cur ba < length (ba_nodes ba)"
proof -
  have "ba_pos ba div ba_base ba < length (ba_nodes ba)"
    using assms by (simp add: ba_wf_def less_mult_imp_div_less)
  then show "ba_cur ba < length (ba_nodes ba)"
    using assms by (simp add: ba_wf_def)
  then show "node_at ba (ba_cur ba) = Some (ba_nodes ba ! ba_cur ba)"
    and "length (ba_nodes ba ! ba_cur ba) = ba_base ba"
    using assms by (auto simp: node_at_def ba_wf_def uniform_nth)
qed

lemma ba_wf_cur_null:
  "ba_wf ba \<Longrightarrow> ba_pos ba = ba_cap ba \<Longrightarrow> node_at ba (ba_cur ba) = None"
  by (simp add: ba_wf_def node_at_def)

section \<open>What the operations do to the content\<close>

lemma addCapacity_frame [simp]:
  "ba_pos (addCapacity n ba) = ba_pos ba" "ba_size (addCapacity n ba) = ba_size ba"
  "ba_base (addCapacity n ba) = ba_base ba" "ba_endian (addCapacity n ba) = ba_endian ba"
  "ba_mem (addCapacity n ba) = ba_mem ba"
  by (simp_all add: addCapacity_def Let_def)

lemma addCapacity_cases:
  assumes "ba_wf ba"
  obtains "addCapacity n ba = ba" "n \<le> getCapcity ba"
  | count where "getCapcity ba < n" "n - getCapcity ba \<le> count * ba_base ba"
      "addCapacity n ba = ba\<lparr>
         ba_nodes := ba_nodes ba @ map (fresh_node (ba_mem ba) (ba_base ba))
           [length (ba_nodes ba)..<length (ba_nodes ba) + count],
         ba_cap := ba_cap ba + count * ba_base ba\<rparr>"
proof (cases "n \<le> getCapcity ba")
  case True
  then have "addCapacity n ba = ba"
    by (simp add: addCapacity_def Let_def)
  then show ?thesis using True by (rule that(1))
next
  case False
  have "ba_pos ba = length (ba_nodes ba) * ba_base ba" if "getCapcity ba = 0"
    using assms that by (auto simp: ba_wf_def getCapcity_def)
  then have "getCapcity ba = 0 \<Longrightarrow> ba_cur ba = length (ba_nodes ba)"
    using assms by (simp add: ba_wf_def)
  with False show ?thesis
    using that(2) [of "ceil_div (n - getCapcity ba) (ba_base ba)"] assms
    by (simp add: addCapacity_def Let_def ceil_div_ge ba_wf_def)
qed

lemma addCapacity_wf [inv_intros]:
  assumes "ba_wf ba"
  shows "ba_wf (addCapacity n ba)"
  using assms
  by (cases rule: addCapacity_cases [OF assms, of n])
    (auto simp: ba_wf_def algebra_simps)

lemma addCapacity_content:
  assumes "ba_wf ba"
  shows "ba_content (addCapacity n ba) = ba_content ba"
  using assms ba_wf_flat_length [OF assms]
  by (cases rule: addCapacity_cases [OF assms, of n]) (auto simp: ba_content_def ba_wf_def)

lemma addCapacity_enough:
  assumes "ba_wf ba"
  shows "ba_pos ba + n \<le> ba_cap (addCapacity n ba)"
  using assms
  by (cases rule: addCapacity_cases [OF assms, of n]) (auto simp: ba_wf_def getCapcity_def)

lemma write_loop_ok:
  assumes "0 < b" "uniform b (ba_nodes ba)" "ba_cur ba < length (ba_nodes ba)"
    "npos < b" "ncap = b - npos" "ba_pos ba = ba_cur ba * b + npos"
    "ba_pos ba + length bs \<le> length (ba_nodes ba) * b"
  shows "\<exists>ns. write_loop npos ncap bs ba =
      Inr (ba\<lparr>ba_nodes := ns, ba_pos := ba_pos ba + length bs,
              ba_cur := (ba_pos ba + length bs) div b\<rparr>) \<and>
    uniform b ns \<and> length ns = length (ba_nodes ba) \<and>
    concat ns = put_at (ba_pos ba) bs (concat (ba_nodes ba))"
  using assms
proof (induction npos ncap bs ba rule: write_loop.induct)
  case (1 npos ncap bs ba)
  let ?node = "ba_nodes ba ! ba_cur ba"
  have node: "node_at ba (ba_cur ba) = Some ?node" "length ?node = b"
    using "1.prems" by (auto simp: node_at_def uniform_nth)
  have cur: "ba_pos ba div b = ba_cur ba"
    using "1.prems" by simp
  consider (nil) "bs = []" | (last) "bs \<noteq> []" "length bs \<le> ncap" | (more) "ncap < length bs"
    by (cases "bs = []"; cases "length bs \<le> ncap") auto
  then show ?case
  proof cases
    case nil
    then have "write_loop npos ncap bs ba =
        Inr (ba\<lparr>ba_nodes := ba_nodes ba, ba_pos := ba_pos ba + length bs,
          ba_cur := (ba_pos ba + length bs) div b\<rparr>)"
      using cur by (simp add: write_loop.simps [of npos ncap])
    then show ?thesis
      using nil "1.prems"(2) by (intro exI [of _ "ba_nodes ba"]) simp
  next
    case last
    let ?ns = "(ba_nodes ba)[ba_cur ba := put_at npos bs ?node]"
    have div_eq: "(ba_pos ba + length bs) div b =
        (if b = npos + length bs then Suc (ba_cur ba) else ba_cur ba)"
      using "1.prems" last by (auto simp: add.assoc)
    have "write_loop npos ncap bs ba = Inr (ba\<lparr>ba_nodes := ?ns,
        ba_pos := ba_pos ba + length bs, ba_cur := (ba_pos ba + length bs) div b\<rparr>)"
      unfolding div_eq using last node by (simp add: write_loop.simps [of npos ncap bs ba])
    moreover have "concat ?ns = put_at (ba_pos ba) bs (concat (ba_nodes ba))"
      using "1.prems" last node by (simp add: put_at_concat)
    moreover have "uniform b ?ns"
      using "1.prems" last node by (simp add: uniform_update)
    ultimately show ?thesis by (intro exI [of _ ?ns]) simp
  next
    case more
    let ?ba' = "ba\<lparr>ba_nodes := (ba_nodes ba)[ba_cur ba := put_at npos (take ncap bs) ?node],
      ba_pos := ba_pos ba + ncap, ba_cur := Suc (ba_cur ba)\<rparr>"
    have "Suc (ba_cur ba) * b < length (ba_nodes ba) * b"
      using "1.prems" more by simp
    then have nxt: "Suc (ba_cur ba) < length (ba_nodes ba)"
      by (simp only: mult_less_cancel2)
    let ?node' = "ba_nodes ba ! Suc (ba_cur ba)"
    have node': "node_at ba (Suc (ba_cur ba)) = Some ?node'" "length ?node' = b"
      using "1.prems" nxt by (auto simp: node_at_def uniform_nth)
    have step: "write_loop npos ncap bs ba = write_loop 0 (length ?node') (drop ncap bs) ?ba'"
      using node node' more by (auto simp: write_loop.simps [of npos ncap])
    have cat: "concat (ba_nodes ?ba') = put_at (ba_pos ba) (take ncap bs) (concat (ba_nodes ba))"
      using "1.prems" more node by (simp add: put_at_concat)
    have "ba_pos ba + ncap \<le> length (concat (ba_nodes ba))"
      using "1.prems" more by (simp add: length_concat_uniform)
    then have comp: "put_at (ba_pos ba + ncap) (drop ncap bs) (concat (ba_nodes ?ba')) =
        put_at (ba_pos ba) bs (concat (ba_nodes ba))"
      using more put_at_put_at [of "ba_pos ba" "take ncap bs" "concat (ba_nodes ba)" "drop ncap bs"]
      unfolding cat by simp
    have "\<exists>ns. write_loop 0 (length ?node') (drop ncap bs) ?ba' =
        Inr (?ba'\<lparr>ba_nodes := ns, ba_pos := ba_pos ?ba' + length (drop ncap bs),
               ba_cur := (ba_pos ?ba' + length (drop ncap bs)) div b\<rparr>) \<and>
        uniform b ns \<and> length ns = length (ba_nodes ?ba') \<and>
        concat ns = put_at (ba_pos ?ba') (drop ncap bs) (concat (ba_nodes ?ba'))"
      using more node node' nxt "1.prems"
      by (intro "1.IH") (auto simp: uniform_update)
    then show ?thesis
      using step comp more by auto
  qed
qed

lemma take_put_at:
  "p \<le> s \<Longrightarrow> s \<le> length xs \<Longrightarrow> p + length bs \<le> length xs \<Longrightarrow>
   take (max s (p + length bs)) (put_at p bs xs) = put_at p bs (take s xs)"
  by (cases "s \<le> p + length bs") (auto simp: put_at_def max_def drop_take)

lemma ba_write_ok:
  assumes wf: "ba_wf ba"
  shows "\<exists>ba'. ba_write bs ba = Inr ba' \<and> ba_wf ba' \<and>
    ba_pos ba' = ba_pos ba + length bs \<and> ba_base ba' = ba_base ba \<and>
    ba_endian ba' = ba_endian ba \<and>
    ba_content ba' = put_at (ba_pos ba) bs (ba_content ba)"
proof (cases "bs = []")
  case True
  then show ?thesis using wf by (simp add: ba_write_def)
next
  case False
  let ?n = "length bs"
  let ?ba = "addCapacity ?n ba"
  let ?b = "ba_base ba"
  let ?npos = "ba_pos ba mod ?b"
  have wf1: "ba_wf ?ba" and room: "ba_pos ba + ?n \<le> ba_cap ?ba"
    using wf by (simp_all add: addCapacity_wf addCapacity_enough)
  have "0 < ?n"
    using False by simp
  with room have lt: "ba_pos ?ba < ba_cap ?ba"
    unfolding addCapacity_frame by linarith
  note cur = ba_wf_node_at [OF wf1 lt]
  have "\<exists>ns. write_loop ?npos (?b - ?npos) bs ?ba =
      Inr (?ba\<lparr>ba_nodes := ns, ba_pos := ba_pos ?ba + ?n, ba_cur := (ba_pos ?ba + ?n) div ?b\<rparr>) \<and>
      uniform ?b ns \<and> length ns = length (ba_nodes ?ba) \<and>
      concat ns = put_at (ba_pos ?ba) bs (concat (ba_nodes ?ba))"
    using wf wf1 room cur by (intro write_loop_ok) (auto simp: ba_wf_def)
  then obtain ns where loop: "write_loop ?npos (?b - ?npos) bs ?ba =
      Inr (?ba\<lparr>ba_nodes := ns, ba_pos := ba_pos ba + ?n, ba_cur := (ba_pos ba + ?n) div ?b\<rparr>)"
    and ns: "uniform ?b ns" "length ns = length (ba_nodes ?ba)"
      "concat ns = put_at (ba_pos ba) bs (concat (ba_nodes ?ba))"
    by auto
  let ?ba' = "?ba\<lparr>ba_nodes := ns, ba_pos := ba_pos ba + ?n, ba_cur := (ba_pos ba + ?n) div ?b,
    ba_size := max (ba_size ba) (ba_pos ba + ?n)\<rparr>"
  have "ba_write bs ba = Inr ?ba'"
    using False wf cur loop by (auto simp: ba_write_def Let_def ba_wf_def max_def)
  moreover have "ba_wf ?ba'"
    using wf wf1 room ns by (auto simp: ba_wf_def)
  moreover have "ba_content ?ba' = put_at (ba_pos ba) bs (ba_content ?ba)"
    using wf1 room ns ba_wf_flat_length [OF wf1]
    by (simp add: ba_content_def take_put_at ba_wf_def)
  ultimately show ?thesis
    using wf by (intro exI [of _ ?ba']) (simp add: addCapacity_content)
qed

lemma read_loop_ok:
  assumes "0 < b" "uniform b (ba_nodes ba)" "ba_cur ba < length (ba_nodes ba)"
    "npos < b" "ncap = b - npos" "ba_pos ba = ba_cur ba * b + npos"
    "ba_pos ba + n \<le> length (ba_nodes ba) * b"
  shows "read_loop npos ncap n ba =
    Inr (sub_bytes (ba_pos ba) n (concat (ba_nodes ba)),
         ba\<lparr>ba_pos := ba_pos ba + n, ba_cur := (ba_pos ba + n) div b\<rparr>)"
  using assms
proof (induction npos ncap n ba rule: read_loop.induct)
  case (1 npos ncap n ba)
  let ?node = "ba_nodes ba ! ba_cur ba"
  have node: "node_at ba (ba_cur ba) = Some ?node" "length ?node = b"
    using "1.prems" by (auto simp: node_at_def uniform_nth)
  have here: "sub_bytes (ba_pos ba) k (concat (ba_nodes ba)) = sub_bytes npos k ?node"
    if "npos + k \<le> b" for k
    using "1.prems" that by (simp add: sub_bytes_concat)
  consider (zero) "n = 0" | (last) "0 < n" "n \<le> ncap" | (more) "ncap < n"
    by linarith
  then show ?case
  proof cases
    case zero
    have "ba_pos ba div b = ba_cur ba"
      using "1.prems" by simp
    with zero show ?thesis
      by (simp add: read_loop.simps [of npos ncap 0 ba] sub_bytes_def)
  next
    case last
    have div_eq: "(ba_pos ba + n) div b =
        (if b = npos + n then Suc (ba_cur ba) else ba_cur ba)"
      using "1.prems" last by (auto simp: add.assoc)
    have "sub_bytes (ba_pos ba) n (concat (ba_nodes ba)) = sub_bytes npos n ?node"
      using "1.prems" last by (intro here) simp
    then show ?thesis
      unfolding div_eq using last node by (simp add: read_loop.simps [of npos ncap n ba])
  next
    case more
    let ?ba' = "ba\<lparr>ba_pos := ba_pos ba + ncap, ba_cur := Suc (ba_cur ba)\<rparr>"
    have "Suc (ba_cur ba) * b < length (ba_nodes ba) * b"
      using "1.prems" more by simp
    then have nxt: "Suc (ba_cur ba) < length (ba_nodes ba)"
      by (simp only: mult_less_cancel2)
    let ?node' = "ba_nodes ba ! Suc (ba_cur ba)"
    have node': "node_at ba (Suc (ba_cur ba)) = Some ?node'" "length ?node' = b"
      using "1.prems" nxt by (auto simp: node_at_def uniform_nth)
    have IH: "read_loop 0 (length ?node') (n - ncap) ?ba' =
        Inr (sub_bytes (ba_pos ?ba') (n - ncap) (concat (ba_nodes ?ba')),
          ?ba'\<lparr>ba_pos := ba_pos ?ba' + (n - ncap), ba_cur := (ba_pos ?ba' + (n - ncap)) div b\<rparr>)"
      using more node node' nxt "1.prems" by (intro "1.IH") auto
    have "sub_bytes (ba_pos ba) n (concat (ba_nodes ba)) =
        sub_bytes npos ncap ?node @ sub_bytes (ba_pos ba + ncap) (n - ncap) (concat (ba_nodes ba))"
      using sub_bytes_split [of "ba_pos ba" ncap "n - ncap" "concat (ba_nodes ba)"]
        here [of ncap] more "1.prems" by simp
    then show ?thesis
      using more node node' IH by (simp add: read_loop.simps [of npos ncap n ba])
  qed
qed

lemma ba_read_ok:
  assumes wf: "ba_wf ba" and n: "n \<le> length (ba_rest ba)" and cur: "ba_pos ba < ba_cap ba"
  shows "ba_read n ba = Inr (take n (ba_rest ba),
    ba\<lparr>ba_pos := ba_pos ba + n, ba_cur := (ba_pos ba + n) div ba_base ba\<rparr>)"
proof -
  let ?b = "ba_base ba"
  let ?npos = "ba_pos ba mod ?b"
  note node = ba_wf_node_at [OF wf cur]
  have size: "n \<le> getReadSize ba" and room: "ba_pos ba + n \<le> ba_size ba"
    using wf n by (auto simp: ba_wf_rest_length getReadSize_def ba_wf_def)
  have "read_loop ?npos (?b - ?npos) n ba =
      Inr (sub_bytes (ba_pos ba) n (concat (ba_nodes ba)),
        ba\<lparr>ba_pos := ba_pos ba + n, ba_cur := (ba_pos ba + n) div ?b\<rparr>)"
    using wf room node by (intro read_loop_ok) (auto simp: ba_wf_def)
  moreover have "sub_bytes (ba_pos ba) n (concat (ba_nodes ba)) = take n (ba_rest ba)"
    using room by (simp add: ba_rest_def ba_content_def sub_bytes_def drop_take min_def)
  ultimately show ?thesis
    using wf size node by (simp add: ba_read_def Let_def ba_wf_def)
qed

lemma ba_read_short: "getReadSize ba < n \<Longrightarrow> ba_read n ba = Inl OutOfRange"
  by (simp add: ba_read_def)

lemma ba_read_null:
  "ba_wf ba \<Longrightarrow> ba_pos ba = ba_cap ba \<Longrightarrow> ba_read 0 ba = Inl NullDeref"
  using ba_wf_cur_null [of ba] by (simp add: ba_read_def ba_wf_def Let_def)

lemma ba_moved:
  assumes "ba_wf ba" "p \<le> ba_size ba"
  shows "ba_wf (ba\<lparr>ba_pos := p, ba_cur := p div ba_base ba\<rparr>)"
    and "ba_rest (ba\<lparr>ba_pos := p, ba_cur := p div ba_base ba\<rparr>) = drop p (ba_content ba)"
  using assms by (auto simp: ba_wf_def ba_rest_def ba_content_def)

lemma seek_node_ok:
  "0 < b \<Longrightarrow> uniform b (ba_nodes ba) \<Longrightarrow> cur < length (ba_nodes ba) \<Longrightarrow>
   cur * b + v \<le> length (ba_nodes ba) * b \<Longrightarrow> seek_node v cur ba = Inr (cur + v div b)"
proof (induction v cur ba rule: seek_node.induct)
  case (1 v cur ba)
  have node: "node_at ba cur = Some (ba_nodes ba ! cur)" "length (ba_nodes ba ! cur) = b"
    using "1.prems" by (auto simp: node_at_def uniform_nth)
  show ?case
  proof (cases "b < v")
    case True
    have "Suc cur * b < length (ba_nodes ba) * b"
      using "1.prems" True by simp
    then have "Suc cur < length (ba_nodes ba)"
      by (simp only: mult_less_cancel2)
    then have "seek_node (v - b) (Suc cur) ba = Inr (Suc cur + (v - b) div b)"
      using "1.IH" [OF node(1)] "1.prems" True node(2) by simp
    then show ?thesis
      using node True "1.prems"(1) by (simp add: seek_node.simps [of v cur ba] le_div_geq)
  next
    case False
    then show ?thesis
      using node "1.prems"(1) by (auto simp: seek_node.simps [of v cur ba])
  qed
qed

lemma setPosition_ok:
  assumes wf: "ba_wf ba" and v: "v \<le> ba_cap ba"
  shows "setPosition v ba = Inr (ba\<lparr>ba_pos := v, ba_size := max (ba_size ba) v,
    ba_cur := v div ba_base ba\<rparr>)"
  using seek_node_ok [of "ba_base ba" ba 0 v] assms by (simp add: setPosition_def ba_wf_def)

lemma setPosition_wf [inv_intros]:
  assumes wf: "ba_wf ba" and ret: "setPosition v ba = Inr ba'"
  shows "ba_wf ba'"
proof -
  have v: "v \<le> ba_cap ba"
    using ret by (auto simp: setPosition_def split: if_splits)
  then have "ba' = ba\<lparr>ba_pos := v, ba_size := max (ba_size ba) v, ba_cur := v div ba_base ba\<rparr>"
    using setPosition_ok [OF wf v] ret by simp
  then show ?thesis using wf v by (auto simp: ba_wf_def)
qed

lemma ba_clear_wf [inv_intros]: "ba_wf ba \<Longrightarrow> ba_wf (ba_clear ba)"
  by (cases "ba_nodes ba") (auto simp: ba_wf_def ba_clear_def)

lemma ba_clear_content [simp]: "ba_content (ba_clear ba) = []" "ba_pos (ba_clear ba) = 0"
  by (simp_all add: ba_content_def ba_clear_def)

end
