(* ===== verification/ByteArrayIO.thy ===== *)
theory ByteArrayIO
  imports ByteArray
begin

text \<open>
  The buffer of \<open>src/ByteArray.cpp\<close> at its borders: the \<open>iovec\<close>s it hands to \<open>readv\<close> and
  \<open>writev\<close>, the files it is saved to and loaded from, and its dumps. An \<open>iovec\<close> points
  into a node, so it is a node index, an offset and a length.
\<close>

section \<open>Vectors of slices\<close>

record iovec =
  iov_node :: nat
  iov_off :: nat
  iov_len :: nat

function iov_loop :: "nat \<Rightarrow> nat \<Rightarrow> nat \<Rightarrow> nat \<Rightarrow> byte_array \<Rightarrow> iovec list res" where
  "iov_loop cur npos ncap len ba =
     (if len = 0 then Inr []
      else if ncap \<ge> len then Inr [\<lparr>iov_node = cur, iov_off = npos, iov_len = len\<rparr>]
      else case node_at ba (Suc cur) of
             None \<Rightarrow> Inl NullDeref
           | Some node' \<Rightarrow>
               bindE (iov_loop (Suc cur) 0 (length node') (len - ncap) ba)
                 (\<lambda>iovs. Inr (\<lparr>iov_node = cur, iov_off = npos, iov_len = ncap\<rparr> # iovs)))"
  by pat_completeness auto
termination
  by (relation "measure (\<lambda>(cur, npos, ncap, len, ba). length (ba_nodes ba) - cur)")
    (auto simp: node_at_def split: if_splits)

declare iov_loop.simps [simp del]

definition getReadBuffers :: "nat \<Rightarrow> byte_array \<Rightarrow> (nat \<times> iovec list) res" where
  "getReadBuffers len ba =
     (let len = (if len > getReadSize ba then getReadSize ba else len) in
      if len = 0 then Inr (0, [])
      else if ba_base ba = 0 then Inl DivByZero
      else
        let npos = ba_pos ba mod ba_base ba in
        case node_at ba (ba_cur ba) of
          None \<Rightarrow> Inl NullDeref
        | Some node \<Rightarrow>
            bindE (iov_loop (ba_cur ba) npos (length node - npos) len ba)
              (\<lambda>iovs. Inr (len, iovs)))"

definition getReadBuffersAt :: "nat \<Rightarrow> nat \<Rightarrow> byte_array \<Rightarrow> (nat \<times> iovec list) res" where
  "getReadBuffersAt len position ba =
     (let len = (if len > getReadSize ba then getReadSize ba else len) in
      if len = 0 then Inr (0, [])
      else if ba_base ba = 0 then Inl DivByZero
      else
        let npos = position mod ba_base ba;
            cur = position div ba_base ba
        in case node_at ba cur of
             None \<Rightarrow> Inl NullDeref
           | Some node \<Rightarrow>
               bindE (iov_loop cur npos (length node - npos) len ba) (\<lambda>iovs. Inr (len, iovs)))"

definition getWriteBuffers :: "nat \<Rightarrow> byte_array \<Rightarrow> (nat \<times> iovec list \<times> byte_array) res" where
  "getWriteBuffers len ba =
     (if len = 0 then Inr (0, [], ba)
      else if ba_base ba = 0 then Inl DivByZero
      else
        let ba1 = addCapacity len ba;
            npos = ba_pos ba1 mod ba_base ba1
        in case node_at ba1 (ba_cur ba1) of
             None \<Rightarrow> Inl NullDeref
           | Some node \<Rightarrow>
               bindE (iov_loop (ba_cur ba1) npos (length node - npos) len ba1)
                 (\<lambda>iovs. Inr (len, iovs, ba1)))"

text \<open>What \<open>writev\<close> sends and where \<open>readv\<close> stores.\<close>

definition iov_bytes :: "bytes list \<Rightarrow> iovec \<Rightarrow> bytes" where
  "iov_bytes nodes v = sub_bytes (iov_off v) (iov_len v) (nodes ! iov_node v)"

definition gather :: "bytes list \<Rightarrow> iovec list \<Rightarrow> bytes" where
  "gather nodes iovs = concat (map (iov_bytes nodes) iovs)"

fun scatter :: "iovec list \<Rightarrow> bytes \<Rightarrow> bytes list \<Rightarrow> bytes list" where
  "scatter [] bs nodes = nodes"
| "scatter (v # vs) bs nodes =
     scatter vs (drop (iov_len v) bs)
       (nodes[iov_node v := put_at (iov_off v) (take (iov_len v) bs) (nodes ! iov_node v)])"

section \<open>Files\<close>

text \<open>
  \<open>writeToFile\<close> computes with signed 64-bit integers. A negative length breaks the contract
  of \<open>ostream::write\<close>; the fuel is the number of nodes that \<open>cur\<close> can still visit.
\<close>

function file_loop :: "nat \<Rightarrow> int \<Rightarrow> int \<Rightarrow> byte_array \<Rightarrow> bytes res" where
  "file_loop cur pos read_size ba =
     (if read_size > 0 then
        let diff = pos mod int (ba_base ba);
            len = (if read_size > int (ba_base ba) then int (ba_base ba) else read_size) - diff
        in case node_at ba cur of
             None \<Rightarrow> Inl NullDeref
           | Some node \<Rightarrow>
               if len < 0 then Inl BadIndex
               else bindE (file_loop (Suc cur) (pos + len) (read_size - len) ba)
                      (\<lambda>rest. Inr (sub_bytes (nat diff) (nat len) node @ rest))
      else Inr [])"
  by pat_completeness auto
termination
  by (relation "measure (\<lambda>(cur, pos, rs, ba). length (ba_nodes ba) - cur)")
    (auto simp: node_at_def split: if_splits)

declare file_loop.simps [simp del]

definition writeToFile :: "bool \<Rightarrow> byte_array \<Rightarrow> (bool \<times> bytes) res" where
  "writeToFile opened ba =
     (if \<not> opened then Inr (False, [])
      else if ba_base ba = 0 \<and> getReadSize ba > 0 then Inl DivByZero
      else bindE (file_loop (ba_cur ba) (int (ba_pos ba)) (int (getReadSize ba)) ba)
             (\<lambda>out. Inr (True, out)))"

text \<open>\<open>ifs.read\<close> fills one node-sized buffer at a time; the last, short block sets the end flag.\<close>

function read_blocks :: "nat \<Rightarrow> bytes \<Rightarrow> byte_array \<Rightarrow> byte_array res" where
  "read_blocks base content ba =
     bindE (ba_write (take base content) ba) (\<lambda>ba'.
       if base = 0 \<or> length content < base then Inr ba'
       else read_blocks base (drop base content) ba')"
  by pat_completeness auto
termination
  by (relation "measure (\<lambda>(base, content, ba). length content)") auto

declare read_blocks.simps [simp del]

definition readFrom :: "bytes option \<Rightarrow> byte_array \<Rightarrow> (bool \<times> byte_array) res" where
  "readFrom file ba =
     (case file of
        None \<Rightarrow> Inr (False, ba)
      | Some content \<Rightarrow> bindE (read_blocks (ba_base ba) content ba) (\<lambda>ba'. Inr (True, ba')))"

section \<open>Dumps\<close>

definition hex_digit :: "nat \<Rightarrow> char" where
  "hex_digit n = ''0123456789abcdef'' ! n"

definition hex_byte :: "u8 \<Rightarrow> string" where
  "hex_byte b = [hex_digit (unat b div 16), hex_digit (unat b mod 16), CHR '' '']"

definition toHexString :: "byte_array \<Rightarrow> string res" where
  "toHexString ba =
     bindE (ba_toString ba) (\<lambda>str.
       Inr (concat (map (\<lambda>i. (if i > 0 \<and> i mod 32 = 0 then [CHR 0x0A] else []) @ hex_byte (str ! i))
              [0..<length str])))"

section \<open>The slices cover the bytes\<close>

lemma iov_loop_ok:
  assumes "0 < b" "uniform b (ba_nodes ba)" "cur < length (ba_nodes ba)" "npos < b"
    "ncap = b - npos" "cur * b + npos + len \<le> length (ba_nodes ba) * b"
  shows "\<exists>iovs. iov_loop cur npos ncap len ba = Inr iovs \<and>
    sum_list (map iov_len iovs) = len \<and>
    gather (ba_nodes ba) iovs = sub_bytes (cur * b + npos) len (concat (ba_nodes ba)) \<and>
    (\<forall>bs nodes. length bs \<le> len \<and> uniform b nodes \<and> length nodes = length (ba_nodes ba) \<longrightarrow>
       uniform b (scatter iovs bs nodes) \<and>
       length (scatter iovs bs nodes) = length nodes \<and>
       concat (scatter iovs bs nodes) = put_at (cur * b + npos) bs (concat nodes))"
  using assms
proof (induction cur npos ncap len ba rule: iov_loop.induct)
  case (1 cur npos ncap len ba)
  consider (zero) "len = 0" | (last) "0 < len" "len \<le> ncap" | (more) "ncap < len"
    by linarith
  then show ?case
  proof cases
    case zero
    then show ?thesis by (simp add: iov_loop.simps [of cur] gather_def sub_bytes_def)
  next
    case last
    then show ?thesis
      using "1.prems"
      by (auto simp: iov_loop.simps [of cur] gather_def iov_bytes_def sub_bytes_concat
          put_at_concat uniform_update uniform_nth)
  next
    case more
    have "Suc cur * b < length (ba_nodes ba) * b"
      using "1.prems" more by simp
    then have nxt: "Suc cur < length (ba_nodes ba)"
      by (simp only: mult_less_cancel2)
    then have node': "node_at ba (Suc cur) = Some (ba_nodes ba ! Suc cur)"
      "length (ba_nodes ba ! Suc cur) = b"
      using "1.prems" by (auto simp: node_at_def uniform_nth)
    obtain iovs where IH: "iov_loop (Suc cur) 0 b (len - ncap) ba = Inr iovs"
      "sum_list (map iov_len iovs) = len - ncap"
      "gather (ba_nodes ba) iovs = sub_bytes (Suc cur * b + 0) (len - ncap) (concat (ba_nodes ba))"
      and sc: "\<And>bs nodes. length bs \<le> len - ncap \<Longrightarrow> uniform b nodes \<Longrightarrow>
        length nodes = length (ba_nodes ba) \<Longrightarrow>
       uniform b (scatter iovs bs nodes) \<and>
       length (scatter iovs bs nodes) = length nodes \<and>
       concat (scatter iovs bs nodes) = put_at (Suc cur * b + 0) bs (concat nodes)"
      using "1.IH" [OF _ _ node'(1)] "1.prems" more nxt node' by auto
    let ?v = "\<lparr>iov_node = cur, iov_off = npos, iov_len = ncap\<rparr>"
    have run: "iov_loop cur npos ncap len ba = Inr (?v # iovs)"
      using more node' IH(1) by (simp add: iov_loop.simps [of cur npos])
    have here: "sub_bytes npos ncap (ba_nodes ba ! cur) = sub_bytes (cur * b + npos) ncap (concat (ba_nodes ba))"
      using "1.prems" by (simp add: sub_bytes_concat)
    have "cur * b + npos + ncap = Suc cur * b + 0"
      using "1.prems" by simp
    then have "gather (ba_nodes ba) (?v # iovs) =
        sub_bytes (cur * b + npos) len (concat (ba_nodes ba))"
      using sub_bytes_split [of "cur * b + npos" ncap "len - ncap" "concat (ba_nodes ba)"]
        IH(3) more here
      by (simp add: gather_def iov_bytes_def del: mult_Suc)
    moreover have "uniform b (scatter (?v # iovs) bs nodes) \<and>
       length (scatter (?v # iovs) bs nodes) = length nodes \<and>
       concat (scatter (?v # iovs) bs nodes) = put_at (cur * b + npos) bs (concat nodes)"
      if "length bs \<le> len" "uniform b nodes" "length nodes = length (ba_nodes ba)" for bs nodes
    proof -
      let ?nodes = "nodes[cur := put_at npos (take ncap bs) (nodes ! cur)]"
      have u: "uniform b ?nodes"
        using that more "1.prems" by (intro uniform_update) (auto simp: uniform_nth)
      have c: "concat ?nodes = put_at (cur * b + npos) (take ncap bs) (concat nodes)"
        using that more "1.prems" by (intro put_at_concat) auto
      have room: "cur * b + npos + length (take ncap bs) \<le> length (concat nodes)"
        using that more "1.prems" by (simp add: length_concat_uniform)
      have "put_at (Suc cur * b + 0) (drop ncap bs) (concat ?nodes) =
          put_at (cur * b + npos) bs (concat nodes)"
      proof (cases "length bs < ncap")
        case True
        then show ?thesis using c by simp
      next
        case False
        then have eq: "Suc cur * b + 0 = cur * b + npos + length (take ncap bs)"
          using that more "1.prems" by simp
        show ?thesis
          unfolding c eq using put_at_put_at [OF room, of "drop ncap bs"] by simp
      qed
      then show ?thesis
        using sc [of "drop ncap bs" ?nodes] u that by simp
    qed
    ultimately show ?thesis using run IH(2) more by auto
  qed
qed

lemma iov_loop_at_pos:
  assumes wf: "ba_wf ba" and room: "ba_pos ba < ba_cap ba" "ba_pos ba + len \<le> ba_cap ba"
  shows "\<exists>iovs. iov_loop (ba_cur ba) (ba_pos ba mod ba_base ba)
      (length (ba_nodes ba ! ba_cur ba) - ba_pos ba mod ba_base ba) len ba = Inr iovs \<and>
    sum_list (map iov_len iovs) = len \<and>
    gather (ba_nodes ba) iovs = sub_bytes (ba_pos ba) len (concat (ba_nodes ba)) \<and>
    (\<forall>bs nodes. length bs \<le> len \<and> uniform (ba_base ba) nodes \<and> length nodes = length (ba_nodes ba) \<longrightarrow>
       uniform (ba_base ba) (scatter iovs bs nodes) \<and>
       length (scatter iovs bs nodes) = length nodes \<and>
       concat (scatter iovs bs nodes) = put_at (ba_pos ba) bs (concat nodes))"
proof -
  have "ba_pos ba div ba_base ba * ba_base ba + ba_pos ba mod ba_base ba = ba_pos ba"
    by simp
  then show ?thesis
    using iov_loop_ok [of "ba_base ba" ba "ba_cur ba" "ba_pos ba mod ba_base ba"
        "ba_base ba - ba_pos ba mod ba_base ba" len] assms ba_wf_node_at [OF wf room(1)]
    by (simp add: ba_wf_def)
qed

lemma getReadBuffers_slices:
  assumes wf: "ba_wf ba"
  shows "\<exists>iovs. getReadBuffers len ba = Inr (min len (getReadSize ba), iovs) \<and>
    sum_list (map iov_len iovs) = min len (getReadSize ba) \<and>
    gather (ba_nodes ba) iovs = take len (ba_rest ba)"
proof (cases "min len (getReadSize ba) = 0")
  case True
  then have "len = 0 \<or> getReadSize ba = 0"
    by (auto simp: min_def split: if_splits)
  then have "take len (ba_rest ba) = []"
    using ba_wf_rest_length [OF wf] by auto
  moreover have "getReadBuffers len ba = Inr (0, [])"
    using \<open>len = 0 \<or> getReadSize ba = 0\<close> by (auto simp: getReadBuffers_def)
  ultimately show ?thesis using True by (auto simp: gather_def)
next
  case False
  let ?n = "min len (getReadSize ba)"
  have room: "ba_pos ba < ba_cap ba" "ba_pos ba + ?n \<le> ba_cap ba" "ba_pos ba + ?n \<le> ba_size ba"
    using False wf by (auto simp: getReadSize_def ba_wf_def)
  obtain iovs where iovs: "iov_loop (ba_cur ba) (ba_pos ba mod ba_base ba)
      (length (ba_nodes ba ! ba_cur ba) - ba_pos ba mod ba_base ba) ?n ba = Inr iovs"
    "sum_list (map iov_len iovs) = ?n"
    "gather (ba_nodes ba) iovs = sub_bytes (ba_pos ba) ?n (concat (ba_nodes ba))"
    using iov_loop_at_pos [OF wf room(1,2)] by blast
  have n: "(if len > getReadSize ba then getReadSize ba else len) = ?n"
    by auto
  have "sub_bytes (ba_pos ba) ?n (concat (ba_nodes ba)) = take ?n (ba_rest ba)"
    using room by (simp add: sub_bytes_def ba_rest_def ba_content_def drop_take)
  also have "\<dots> = take len (ba_rest ba)"
    using ba_wf_rest_length [OF wf] by (simp add: min_def)
  finally show ?thesis
    using iovs False wf ba_wf_node_at(1) [OF wf room(1)]
    by (auto simp only: getReadBuffers_def n Let_def ba_wf_def) auto
qed

text \<open>
  How many slices: \<open>k\<close> are enough exactly when the offset in the first node and the length fit
  into \<open>k\<close> nodes.
\<close>

lemma iov_loop_count:
  assumes "0 < b" "uniform b (ba_nodes ba)" "npos < b" "ncap = b - npos" "0 < len"
    "iov_loop cur npos ncap len ba = Inr iovs"
  shows "length iovs \<le> k \<longleftrightarrow> npos + len \<le> k * b"
  using assms
proof (induction cur npos ncap len ba arbitrary: iovs k rule: iov_loop.induct)
  case (1 cur npos ncap len ba)
  show ?case
  proof (cases "len \<le> ncap")
    case True
    then have "length iovs = 1" using "1.prems" by (auto simp: iov_loop.simps [of cur])
    then show ?thesis using "1.prems" True by (cases k) auto
  next
    case False
    then obtain node vs where n: "node_at ba (Suc cur) = Some node"
      and vs: "iov_loop (Suc cur) 0 (length node) (len - ncap) ba = Inr vs" "length iovs = Suc (length vs)"
      using "1.prems" by (auto simp: iov_loop.simps [of cur] bindE_Inr_iff split: option.splits)
    have "length node = b"
      using n "1.prems" by (auto simp: node_at_def uniform_nth split: if_splits)
    then have "length vs \<le> k - 1 \<longleftrightarrow> 0 + (len - ncap) \<le> (k - 1) * b"
      using "1.IH" [OF _ False n, of vs "k - 1"] "1.prems" False vs(1) by simp
    then show ?thesis
      using vs(2) "1.prems" False by (cases k) auto
  qed
qed

lemma getReadBuffers_count:
  assumes wf: "ba_wf ba" and n: "0 < n" "n \<le> getReadSize ba" and iovs: "getReadBuffers n ba = Inr (r, iovs)"
  shows "length iovs \<le> k \<longleftrightarrow> ba_pos ba mod ba_base ba + n \<le> k * ba_base ba"
proof -
  have "ba_pos ba < ba_cap ba" using wf n by (auto simp: ba_wf_def getReadSize_def)
  note node = ba_wf_node_at [OF wf this]
  have "iov_loop (ba_cur ba) (ba_pos ba mod ba_base ba) (ba_base ba - ba_pos ba mod ba_base ba) n ba = Inr iovs"
    using iovs n node wf by (auto simp: getReadBuffers_def Let_def ba_wf_def bindE_Inr_iff)
  from iov_loop_count [OF _ _ _ _ n(1) this] show ?thesis
    using wf by (simp add: ba_wf_def)
qed

text \<open>\<open>getReadBuffers\<close> returns slices that spell exactly the next bytes of the buffer, as
  many as were asked for or are left, and their lengths add up to the number it returns.\<close>

theorem getReadBuffers_gathers:
  assumes "ba_wf ba"
  shows "\<exists>iovs. getReadBuffers len ba = Inr (min len (getReadSize ba), iovs) \<and>
    sum_list (map iov_len iovs) = min len (getReadSize ba) \<and>
    gather (ba_nodes ba) iovs = take len (ba_rest ba)"
  using assms by (rule getReadBuffers_slices)

theorem getReadBuffers_gathers_witness:
  "\<exists>iovs. getReadBuffers 3 (new_byte_array (\<lambda>_. 5) 4\<lparr>ba_size := 2\<rparr>) = Inr (2, iovs)"
proof -
  have "ba_wf (new_byte_array (\<lambda>_. 5) 4\<lparr>ba_size := 2\<rparr>)"
    by (simp add: ba_wf_def new_byte_array_def)
  from getReadBuffers_gathers [OF this, of 3] show ?thesis
    by (auto simp: getReadSize_def new_byte_array_def)
qed

lemma getWriteBuffers_slices:
  assumes wf: "ba_wf ba" and "0 < n"
  shows "\<exists>iovs ba'. getWriteBuffers n ba = Inr (n, iovs, ba') \<and>
    ba_wf ba' \<and> ba_content ba' = ba_content ba \<and> ba_pos ba' = ba_pos ba \<and>
    ba_size ba' = ba_size ba \<and> ba_base ba' = ba_base ba \<and> ba_endian ba' = ba_endian ba \<and>
    sum_list (map iov_len iovs) = n \<and> ba_pos ba + n \<le> ba_cap ba' \<and>
    (\<forall>bs. length bs \<le> n \<longrightarrow>
      uniform (ba_base ba) (scatter iovs bs (ba_nodes ba')) \<and>
      length (scatter iovs bs (ba_nodes ba')) = length (ba_nodes ba') \<and>
      concat (scatter iovs bs (ba_nodes ba')) = put_at (ba_pos ba) bs (concat (ba_nodes ba')))"
proof -
  let ?ba = "addCapacity n ba"
  have wf': "ba_wf ?ba"
    using wf by (rule addCapacity_wf)
  have cap: "ba_pos ?ba + n \<le> ba_cap ?ba"
    using addCapacity_enough [OF wf, of n] by simp
  then have room: "ba_pos ?ba < ba_cap ?ba"
    using assms(2) by simp
  obtain iovs where iovs: "iov_loop (ba_cur ?ba) (ba_pos ?ba mod ba_base ?ba)
      (length (ba_nodes ?ba ! ba_cur ?ba) - ba_pos ?ba mod ba_base ?ba) n ?ba = Inr iovs"
    "sum_list (map iov_len iovs) = n"
    "\<forall>bs. length bs \<le> n \<longrightarrow>
      uniform (ba_base ba) (scatter iovs bs (ba_nodes ?ba)) \<and>
      length (scatter iovs bs (ba_nodes ?ba)) = length (ba_nodes ?ba) \<and>
      concat (scatter iovs bs (ba_nodes ?ba)) = put_at (ba_pos ba) bs (concat (ba_nodes ?ba))"
    using iov_loop_at_pos [OF wf' room cap] wf' by (auto simp: ba_wf_def)
  have "0 < ba_base ba" using wf by (simp add: ba_wf_def)
  then have "getWriteBuffers n ba = Inr (n, iovs, ?ba)"
    using assms(2) iovs(1) ba_wf_node_at(1) [OF wf' room] by (simp add: getWriteBuffers_def Let_def)
  then show ?thesis
    using iovs wf' cap addCapacity_content [OF wf] by auto
qed

lemma getWriteBuffers_count:
  assumes wf: "ba_wf ba" and n: "0 < n" and iovs: "getWriteBuffers n ba = Inr (r, iovs, ba')"
  shows "length iovs \<le> k \<longleftrightarrow> ba_pos ba mod ba_base ba + n \<le> k * ba_base ba"
proof -
  let ?ba = "addCapacity n ba"
  have wf': "ba_wf ?ba" using wf by (rule addCapacity_wf)
  have "ba_pos ?ba < ba_cap ?ba" using addCapacity_enough [OF wf, of n] n by simp
  note node = ba_wf_node_at [OF wf' this]
  have "iov_loop (ba_cur ?ba) (ba_pos ba mod ba_base ba) (ba_base ba - ba_pos ba mod ba_base ba) n ?ba = Inr iovs"
    using iovs n node wf' by (auto simp: getWriteBuffers_def Let_def ba_wf_def bindE_Inr_iff)
  from iov_loop_count [OF _ _ _ _ n this] show ?thesis
    using wf' by (simp add: ba_wf_def)
qed

text \<open>Receiving through \<open>getWriteBuffers\<close> is the same as writing: storing \<open>bs\<close>, or fewer
  bytes than were asked for, into its slices gives nodes whose flat content is that of the grown
  buffer with \<open>bs\<close> copied at the position, and the slices have room for exactly the requested
  length.\<close>

theorem getWriteBuffers_scatters:
  assumes "ba_wf ba" and "0 < n" and "length bs \<le> n"
  shows "\<exists>iovs ba'. getWriteBuffers n ba = Inr (n, iovs, ba') \<and>
    ba_wf ba' \<and> ba_content ba' = ba_content ba \<and> ba_pos ba' = ba_pos ba \<and>
    sum_list (map iov_len iovs) = n \<and>
    concat (scatter iovs bs (ba_nodes ba')) = put_at (ba_pos ba) bs (concat (ba_nodes ba')) \<and>
    ba_pos ba + n \<le> length (concat (ba_nodes ba'))"
  using getWriteBuffers_slices [OF assms(1,2)] assms(3) ba_wf_flat_length by fastforce

theorem getWriteBuffers_scatters_witness:
  "\<exists>iovs ba'. getWriteBuffers 3 (new_byte_array (\<lambda>_. 5) 2) = Inr (3, iovs, ba') \<and>
     sum_list (map iov_len iovs) = 3"
  using getWriteBuffers_scatters [OF new_byte_array_wf [of 2 "\<lambda>_. 5"], of 3 "[1, 2]"]
  by auto

section \<open>Saving and dumping\<close>

lemma file_loop_aligned:
  assumes "0 < ba_base ba" "uniform (ba_base ba) (ba_nodes ba)"
  shows "cur * ba_base ba + n \<le> length (ba_nodes ba) * ba_base ba \<Longrightarrow>
    file_loop cur (int (cur * ba_base ba)) (int n) ba =
    Inr (sub_bytes (cur * ba_base ba) n (concat (ba_nodes ba)))"
proof (induction n arbitrary: cur rule: less_induct)
  case (less n)
  let ?b = "ba_base ba"
  show ?case
  proof (cases "n = 0")
    case True
    then show ?thesis by (simp add: file_loop.simps sub_bytes_def)
  next
    case False
    have "cur * ?b < cur * ?b + n"
      using False by simp
    then have "cur * ?b < length (ba_nodes ba) * ?b"
      using less.prems by (rule less_le_trans)
    then have cur: "cur < length (ba_nodes ba)"
      by simp
    define k where "k = min n ?b"
    have k: "(if int n > int ?b then int ?b else int n) = int k" "0 < k" "k \<le> n" "k \<le> ?b"
      using False assms(1) by (auto simp: k_def)
    have rest: "file_loop (Suc cur) (int (cur * ?b) + int k) (int n - int k) ba =
        Inr (sub_bytes (cur * ?b + k) (n - k) (concat (ba_nodes ba)))"
    proof (cases "?b < n")
      case True
      then have kb: "k = ?b" by (simp add: k_def)
      have "file_loop (Suc cur) (int (Suc cur * ?b)) (int (n - k)) ba =
          Inr (sub_bytes (Suc cur * ?b) (n - k) (concat (ba_nodes ba)))"
        using less.prems True assms(1) kb by (intro less.IH) auto
      then show ?thesis using k(3) kb by (simp add: of_nat_diff add.commute)
    next
      case False
      then have "k = n" by (simp add: k_def)
      then show ?thesis by (simp add: file_loop.simps sub_bytes_def)
    qed
    have "sub_bytes (cur * ?b + 0) k (concat (ba_nodes ba)) = sub_bytes 0 k (ba_nodes ba ! cur)"
      using assms cur k by (intro sub_bytes_concat) auto
    then have "sub_bytes (cur * ?b) n (concat (ba_nodes ba)) =
        sub_bytes 0 k (ba_nodes ba ! cur) @ sub_bytes (cur * ?b + k) (n - k) (concat (ba_nodes ba))"
      using sub_bytes_split [of "cur * ?b" k "n - k" "concat (ba_nodes ba)"] k by simp
    then show ?thesis
      using cur k rest False
      by (subst file_loop.simps) (simp add: node_at_def)
  qed
qed

lemma file_loop_first:
  assumes wf: "ba_wf ba" and big: "ba_base ba \<le> n" and room: "ba_pos ba + n \<le> ba_cap ba"
  shows "file_loop (ba_cur ba) (int (ba_pos ba)) (int n) ba =
    Inr (sub_bytes (ba_pos ba) n (concat (ba_nodes ba)))"
proof -
  let ?b = "ba_base ba" and ?d = "ba_pos ba mod ba_base ba" and ?c = "ba_cur ba"
  have b: "0 < ?b" "uniform ?b (ba_nodes ba)" "ba_cap ba = length (ba_nodes ba) * ?b"
    "?c = ba_pos ba div ?b"
    using wf by (simp_all add: ba_wf_def)
  have pos: "ba_pos ba = ?c * ?b + ?d" and d: "?d < ?b"
    using b by simp_all
  have cur: "?c < length (ba_nodes ba)" "node_at ba ?c = Some (ba_nodes ba ! ?c)"
    using ba_wf_node_at [OF wf] room big b by auto
  let ?k = "?b - ?d"
  have k: "0 < ?k" "?k \<le> n" "ba_pos ba + ?k = Suc ?c * ?b"
    using d big pos by auto
  have "Suc ?c * ?b + (n - ?k) \<le> length (ba_nodes ba) * ?b"
    using room b k by simp
  then have "file_loop (Suc ?c) (int (Suc ?c * ?b)) (int (n - ?k)) ba =
      Inr (sub_bytes (Suc ?c * ?b) (n - ?k) (concat (ba_nodes ba)))"
    by (rule file_loop_aligned [OF b(1,2)])
  moreover have "int (ba_pos ba) + (int ?b - int ?d) = int (Suc ?c * ?b)"
    "int n - (int ?b - int ?d) = int (n - ?k)"
    using k d by linarith+
  ultimately have tail: "file_loop (Suc ?c) (int (ba_pos ba) + (int ?b - int ?d))
      (int n - (int ?b - int ?d)) ba = Inr (sub_bytes (Suc ?c * ?b) (n - ?k) (concat (ba_nodes ba)))"
    by (simp only:)
  have "sub_bytes (?c * ?b + ?d) ?k (concat (ba_nodes ba)) = sub_bytes ?d ?k (ba_nodes ba ! ?c)"
    using b cur d by (intro sub_bytes_concat) auto
  then have flat: "sub_bytes (ba_pos ba) n (concat (ba_nodes ba)) =
      sub_bytes ?d ?k (ba_nodes ba ! ?c) @ sub_bytes (Suc ?c * ?b) (n - ?k) (concat (ba_nodes ba))"
    using sub_bytes_split [of "ba_pos ba" ?k "n - ?k" "concat (ba_nodes ba)"] le_add_diff_inverse [OF k(2)]
    unfolding k(3) pos [symmetric] by (simp only:)
  have len: "(if int n > int ?b then int ?b else int n) = int ?b"
    using big by auto
  have nat_k: "nat (int ?b - int ?d) = ?k" "\<not> int ?b - int ?d < 0" "int n > 0"
    using d big b(1) by linarith+
  have md: "int (ba_pos ba) mod int ?b = int ?d"
    by (simp add: zmod_int)
  show ?thesis
    by (subst file_loop.simps)
      (simp only: Let_def md len cur(2) nat_k nat_int tail flat option.simps bindE.simps if_True if_False)
qed

text \<open>\<open>writeToFile\<close> writes exactly the bytes left when the position is at the start of a node
  or a whole node is left. When fewer bytes are left than the offset in the node, the length it
  hands to \<open>ostream::write\<close> is negative.\<close>

theorem writeToFile_saves:
  assumes wf: "ba_wf ba"
  shows "(ba_pos ba mod ba_base ba = 0 \<or> ba_base ba \<le> getReadSize ba \<longrightarrow>
      writeToFile True ba = Inr (True, ba_rest ba)) \<and>
    (0 < getReadSize ba \<and> getReadSize ba < ba_pos ba mod ba_base ba \<longrightarrow>
      writeToFile True ba = Inl BadIndex)"
proof (intro conjI impI)
  let ?n = "getReadSize ba"
  have b: "0 < ba_base ba" "uniform (ba_base ba) (ba_nodes ba)"
    using wf by (simp_all add: ba_wf_def)
  have room: "ba_pos ba + ?n \<le> ba_cap ba" "ba_pos ba + ?n = ba_size ba"
    using wf by (simp_all add: ba_wf_def getReadSize_def)
  have rest: "sub_bytes (ba_pos ba) ?n (concat (ba_nodes ba)) = ba_rest ba"
    using wf by (simp add: sub_bytes_def ba_rest_def ba_content_def getReadSize_def drop_take)
  {
    assume how: "ba_pos ba mod ba_base ba = 0 \<or> ba_base ba \<le> ?n"
    have "file_loop (ba_cur ba) (int (ba_pos ba)) (int ?n) ba = Inr (ba_rest ba)"
    proof (cases "ba_base ba \<le> ?n")
      case True
      then show ?thesis using file_loop_first [OF wf True room(1)] rest by simp
    next
      case False
      then have "ba_cur ba * ba_base ba = ba_pos ba"
        using how wf by (auto simp: ba_wf_def)
      then show ?thesis
        using file_loop_aligned [OF b, of "ba_cur ba" ?n] rest room wf by (simp add: ba_wf_def)
    qed
    then show "writeToFile True ba = Inr (True, ba_rest ba)"
      using b by (simp add: writeToFile_def)
  }
  assume less: "0 < ?n \<and> ?n < ba_pos ba mod ba_base ba"
  have "ba_pos ba mod ba_base ba < ba_base ba" using b by simp
  then have "\<not> int ?n > int (ba_base ba)" "int ?n - int (ba_pos ba mod ba_base ba) < 0"
    using less by linarith+
  moreover have "ba_pos ba < ba_cap ba"
    using less room by simp
  ultimately show "writeToFile True ba = Inl BadIndex"
    using less b ba_wf_node_at(1) [OF wf]
    by (simp add: writeToFile_def file_loop.simps zmod_int Let_def)
qed

theorem writeToFile_saves_witness:
  "writeToFile True (new_byte_array (\<lambda>_. 5) 4\<lparr>ba_size := 3, ba_pos := 2\<rparr>) = Inl BadIndex"
proof -
  have "ba_wf (new_byte_array (\<lambda>_. 5) 4\<lparr>ba_size := 3, ba_pos := 2\<rparr>)"
    by (simp add: ba_wf_def new_byte_array_def)
  from writeToFile_saves [OF this] show ?thesis
    by (simp add: new_byte_array_def getReadSize_def)
qed

lemma Read_at_pos:
  assumes wf: "ba_wf ba" and room: "ba_pos ba < ba_cap ba" "ba_pos ba + n \<le> ba_size ba"
    and two: "ba_pos ba mod ba_base ba + n \<le> 2 * ba_base ba"
  shows "ba_Read n (ba_pos ba) ba = Inr (take n (ba_rest ba))"
proof -
  let ?b = "ba_base ba" and ?d = "ba_pos ba mod ba_base ba" and ?c = "ba_cur ba"
  let ?flat = "concat (ba_nodes ba)"
  have b: "0 < ?b" "uniform ?b (ba_nodes ba)" "ba_cap ba = length (ba_nodes ba) * ?b"
    "?c = ba_pos ba div ?b" "ba_size ba \<le> ba_cap ba"
    using wf by (simp_all add: ba_wf_def)
  have d: "?d < ?b" and pos: "?c * ?b + ?d = ba_pos ba"
    using b by simp_all
  note cur = ba_wf_node_at [OF wf room(1)]
  have here: "sub_bytes (ba_pos ba) k ?flat = sub_bytes ?d k (ba_nodes ba ! ?c)" if "?d + k \<le> ?b" for k
    using sub_bytes_concat [OF b(2) cur(3) that] pos by simp
  have "ba_Read n (ba_pos ba) ba = Inr (sub_bytes (ba_pos ba) n ?flat)"
  proof (cases "n \<le> ?b - ?d")
    case True
    then show ?thesis
      using b room cur d here [of n] by (auto simp: ba_Read_def Let_def Read_loop.simps getReadSize_def sub_bytes_def)
  next
    case False
    have "ba_pos ba + (?b - ?d) = Suc ?c * ?b + 0"
      using d pos by simp
    moreover have "Suc ?c * ?b < length (ba_nodes ba) * ?b"
      using False room b calculation by linarith
    then have nxt: "Suc ?c < length (ba_nodes ba)"
      by (simp only: mult_less_cancel2)
    have "sub_bytes (Suc ?c * ?b + 0) (n - (?b - ?d)) ?flat =
        sub_bytes 0 (n - (?b - ?d)) (ba_nodes ba ! Suc ?c)"
      using two d b(2) nxt by (intro sub_bytes_concat) auto
    ultimately have "sub_bytes (ba_pos ba) n ?flat = sub_bytes ?d (?b - ?d) (ba_nodes ba ! ?c) @
        sub_bytes 0 (n - (?b - ?d)) (ba_nodes ba ! Suc ?c)"
      using sub_bytes_split [of "ba_pos ba" "?b - ?d" "n - (?b - ?d)" ?flat] here [of "?b - ?d"] False d
      by simp
    moreover have "node_at ba (Suc ?c) = Some (ba_nodes ba ! Suc ?c)" "length (ba_nodes ba ! Suc ?c) = ?b"
      using nxt b by (auto simp: node_at_def uniform_nth)
    moreover have "\<not> getReadSize ba < n" "n - (?b - ?d) \<le> ?b" "0 < n" "0 < n - (?b - ?d)"
      using room two False d by (auto simp: getReadSize_def)
    ultimately show ?thesis
      using False cur b(1)
      by (simp add: ba_Read_def Let_def Read_loop.simps [of _ "?c"] Read_loop.simps [of _ "Suc ?c"])
  qed
  also have "sub_bytes (ba_pos ba) n ?flat = take n (ba_rest ba)"
    using room by (simp add: sub_bytes_def ba_rest_def ba_content_def drop_take min_def)
  finally show ?thesis .
qed

text \<open>\<open>toString\<close> returns exactly the bytes left, without moving the position, when they lie in
  at most two nodes. When they fill two nodes and part of a third, the middle node is read from
  the current node instead: its bytes come twice.\<close>

theorem toString_two_nodes:
  assumes wf: "ba_wf ba"
  shows "(ba_pos ba mod ba_base ba + getReadSize ba \<le> 2 * ba_base ba \<longrightarrow>
      ba_toString ba = Inr (ba_rest ba)) \<and>
    (ba_nodes ba = [a, b, c] \<and> ba_pos ba = 0 \<and> 2 * ba_base ba < ba_size ba \<longrightarrow>
      ba_toString ba = Inr (a @ a @ take (ba_size ba - 2 * ba_base ba) c))"
proof (intro conjI impI)
  assume two: "ba_pos ba mod ba_base ba + getReadSize ba \<le> 2 * ba_base ba"
  show "ba_toString ba = Inr (ba_rest ba)"
  proof (cases "getReadSize ba = 0")
    case True
    then show ?thesis
      using ba_wf_rest_length [OF wf] by (simp add: ba_toString_def)
  next
    case False
    then have "ba_Read (getReadSize ba) (ba_pos ba) ba = Inr (take (getReadSize ba) (ba_rest ba))"
      using wf two by (intro Read_at_pos) (auto simp: getReadSize_def ba_wf_def)
    then show ?thesis
      using False ba_wf_rest_length [OF wf] by (simp add: ba_toString_def)
  qed
next
  assume three: "ba_nodes ba = [a, b, c] \<and> ba_pos ba = 0 \<and> 2 * ba_base ba < ba_size ba"
  then have "length a = ba_base ba" "length b = ba_base ba" "length c = ba_base ba" "0 < ba_base ba"
    "ba_cur ba = 0" "ba_size ba \<le> 3 * ba_base ba"
    using wf by (auto simp: ba_wf_def)
  moreover have "ba_size ba - (ba_base ba + ba_base ba) = ba_size ba - 2 * ba_base ba"
    "ba_size ba - 2 * ba_base ba \<le> ba_base ba" "\<not> ba_size ba - ba_base ba \<le> ba_base ba"
    using three calculation by linarith+
  ultimately show "ba_toString ba = Inr (a @ a @ take (ba_size ba - 2 * ba_base ba) c)"
    using three
    by (simp add: ba_toString_def getReadSize_def ba_Read_def node_at_def Read_loop.simps
        sub_bytes_def Let_def)
qed

theorem toString_two_nodes_witness:
  "ba_toString (new_byte_array (\<lambda>_. 0) 1\<lparr>ba_nodes := [[1], [2], [3]], ba_size := 3, ba_cap := 3\<rparr>) =
   Inr [1, 1, 3]"
proof -
  have "ba_wf (new_byte_array (\<lambda>_. 0) 1\<lparr>ba_nodes := [[1], [2], [3]], ba_size := 3, ba_cap := 3\<rparr>)"
    by (simp add: ba_wf_def new_byte_array_def)
  from toString_two_nodes [OF this, of "[1]" "[2]" "[3]"] show ?thesis
    by (simp add: new_byte_array_def)
qed

end
