(* ===== verification/StreamIO.thy ===== *)
theory StreamIO
  imports ByteArrayIO
begin

text \<open>
  The byte streams of \<open>src/streams/Stream.cpp\<close> and \<open>src/streams/SocketStream.cpp\<close>. The
  operating system's \<open>recv\<close> and \<open>send\<close> are parameters: \<open>recv n s\<close> is what the call returns
  for a buffer of \<open>n\<close> bytes, the bytes it stores and the new state of the connection. So are
  \<open>recvmsg\<close>, which sees the lengths of the \<open>iovec\<close>s it is given, and \<open>sendmsg\<close>, which sees their
  bytes one by one: more than \<open>IOV_MAX\<close> of them are refused with \<open>EMSGSIZE\<close>. The
  loops of \<open>Stream\<close> count in \<open>size_t\<close>, so their counters are 64-bit words and they are
  partial functions: \<open>None\<close> is a loop that does not end.
\<close>

type_synonym 's recv = "nat \<Rightarrow> 's \<Rightarrow> int \<times> bytes \<times> 's"
type_synonym 's send = "bytes \<Rightarrow> 's \<Rightarrow> int \<times> 's"
type_synonym 's recvmsg = "nat list \<Rightarrow> 's \<Rightarrow> int \<times> bytes \<times> 's"
type_synonym 's sendmsg = "bytes list \<Rightarrow> 's \<Rightarrow> int \<times> 's"
type_synonym memory = "u64 \<Rightarrow> u8"

definition store_bytes :: "u64 \<Rightarrow> bytes \<Rightarrow> memory \<Rightarrow> memory" where
  "store_bytes a bs mem =
     (\<lambda>i. if unat (i - a) < length bs then bs ! unat (i - a) else mem i)"

definition load_bytes :: "u64 \<Rightarrow> nat \<Rightarrow> memory \<Rightarrow> bytes" where
  "load_bytes a n mem = map (\<lambda>i. mem (a + of_nat i)) [0..<n]"

section \<open>SocketStream\<close>

definition ss_read :: "'s recv \<Rightarrow> bool \<Rightarrow> nat \<Rightarrow> 's \<Rightarrow> int \<times> bytes \<times> 's" where
  "ss_read recv connected n s = (if \<not> connected then (- 1, [], s) else recv n s)"

definition ss_read_ba ::
  "'s recvmsg \<Rightarrow> bool \<Rightarrow> nat \<Rightarrow> byte_array \<times> 's \<Rightarrow> (int \<times> byte_array \<times> 's) res" where
  "ss_read_ba recvmsg connected n = (\<lambda>(ba, s).
     if \<not> connected then Inr (- 1, ba, s)
     else bindE (getWriteBuffers n ba) (\<lambda>(_, iovs, ba1).
       let (ret, bs, s') = recvmsg (map iov_len iovs) s;
           ba2 = ba1\<lparr>ba_nodes := scatter iovs bs (ba_nodes ba1)\<rparr>
       in if ret > 0
          then bindE (setPosition (ba_pos ba2 + nat ret) ba2) (\<lambda>ba3. Inr (ret, ba3, s'))
          else Inr (ret, ba2, s')))"

definition ss_write :: "'s send \<Rightarrow> bool \<Rightarrow> bytes \<Rightarrow> 's \<Rightarrow> int \<times> 's" where
  "ss_write send connected bs s = (if \<not> connected then (- 1, s) else send bs s)"

definition ss_write_ba ::
  "'s sendmsg \<Rightarrow> bool \<Rightarrow> nat \<Rightarrow> byte_array \<times> 's \<Rightarrow> (int \<times> byte_array \<times> 's) res" where
  "ss_write_ba sendmsg connected n = (\<lambda>(ba, s).
     if \<not> connected then Inr (- 1, ba, s)
     else bindE (getReadBuffers n ba) (\<lambda>(_, iovs).
       let (rt, s') = sendmsg (map (iov_bytes (ba_nodes ba)) iovs) s
       in if rt > 0
          then bindE (setPosition (ba_pos ba + nat rt) ba) (\<lambda>ba'. Inr (rt, ba', s'))
          else Inr (rt, ba, s')))"

section \<open>Fixed-size transfers\<close>

text \<open>The conversion of \<open>size_t\<close> to the returned \<open>int\<close>.\<close>

definition c_int :: "u64 \<Rightarrow> int" where
  "c_int w = sint (ucast w :: u32)"

text \<open>
  The loop shared by the four transfers: \<open>size_t len = read(...)\<close>, then \<open>len <= 0\<close> on the
  unsigned value, so only zero ends the loop early.
\<close>

partial_function (option) fix_loop ::
  "(u64 \<Rightarrow> u64 \<Rightarrow> 'x \<Rightarrow> (int \<times> 'x) res) \<Rightarrow> u64 \<Rightarrow> u64 \<Rightarrow> u64 \<Rightarrow> 'x \<Rightarrow> (int \<times> 'x) res option" where
  "fix_loop io whole offset left x =
     (if left > 0 then
        (case io offset left x of
           Inl e \<Rightarrow> Some (Inl e)
         | Inr (r, x') \<Rightarrow>
             let len = word_of_int r in
             if len \<le> 0 then Some (Inr (c_int len, x'))
             else fix_loop io whole (offset + len) (left - len) x')
      else Some (Inr (c_int whole, x)))"

definition readFixSize ::
  "'s recv \<Rightarrow> bool \<Rightarrow> u64 \<Rightarrow> memory \<times> 's \<Rightarrow> (int \<times> memory \<times> 's) res option" where
  "readFixSize recv connected whole =
     fix_loop (\<lambda>offset left (mem, s).
       let (r, bs, s') = ss_read recv connected (unat left) s
       in Inr (r, store_bytes offset bs mem, s')) whole 0 whole"

definition readFixSize_ba ::
  "'s recvmsg \<Rightarrow> bool \<Rightarrow> u64 \<Rightarrow> byte_array \<times> 's \<Rightarrow> (int \<times> byte_array \<times> 's) res option" where
  "readFixSize_ba recvmsg connected whole =
     fix_loop (\<lambda>_ left. ss_read_ba recvmsg connected (unat left)) whole 0 whole"

definition writeFixSize ::
  "'s send \<Rightarrow> bool \<Rightarrow> memory \<Rightarrow> u64 \<Rightarrow> 's \<Rightarrow> (int \<times> 's) res option" where
  "writeFixSize send connected mem whole =
     fix_loop (\<lambda>offset left s. Inr (ss_write send connected (load_bytes offset (unat left) mem) s))
       whole 0 whole"

definition writeFixSize_ba ::
  "'s sendmsg \<Rightarrow> bool \<Rightarrow> u64 \<Rightarrow> byte_array \<times> 's \<Rightarrow> (int \<times> byte_array \<times> 's) res option" where
  "writeFixSize_ba sendmsg connected whole =
     fix_loop (\<lambda>_ left. ss_write_ba sendmsg connected (unat left)) whole 0 whole"

section \<open>The transfer contract\<close>

text \<open>
  A transfer of \<open>n\<close> bytes makes progress when each step moves at least one and at most the
  missing bytes. \<open>I d x\<close> says that \<open>d\<close> bytes have been moved in the state \<open>x\<close>.
\<close>

locale progressing_io =
  fixes io :: "u64 \<Rightarrow> u64 \<Rightarrow> 'x \<Rightarrow> (int \<times> 'x) res" and n :: nat and I :: "nat \<Rightarrow> 'x \<Rightarrow> bool"
  assumes io_step: "I d x \<Longrightarrow> d < n \<Longrightarrow> n < 2 ^ 31 \<Longrightarrow>
    \<exists>k x'. io (of_nat d) (of_nat (n - d)) x = Inr (int k, x') \<and> 0 < k \<and> d + k \<le> n \<and> I (d + k) x'"
begin

lemma fix_loop_progress:
  assumes "n < 2 ^ 31"
  shows "I d x \<Longrightarrow> d \<le> n \<Longrightarrow>
    \<exists>x'. fix_loop io (of_nat n) (of_nat d) (of_nat (n - d)) x = Some (Inr (c_int (of_nat n), x')) \<and> I n x'"
proof (induction "n - d" arbitrary: d x rule: less_induct)
  case less
  show ?case
  proof (cases "d = n")
    case True
    then show ?thesis using less.prems by (simp add: fix_loop.simps)
  next
    case False
    then obtain k x' where step: "io (of_nat d) (of_nat (n - d)) x = Inr (int k, x')"
      and k: "0 < k" "d + k \<le> n" and I: "I (d + k) x'"
      using io_step [of d x] less.prems assms by auto
    have "unat (of_nat (n - d) :: u64) = n - d" "unat (of_nat k :: u64) = k"
      using assms k by (simp_all only: unat_of_nat) simp_all
    then have pos: "0 < (of_nat (n - d) :: u64)" "\<not> (word_of_int (int k) :: u64) \<le> 0"
      using k False less.prems by (simp_all add: word_less_nat_alt word_le_nat_alt)
    have ih: "\<exists>x''. fix_loop io (of_nat n) (of_nat (d + k)) (of_nat (n - (d + k))) x' =
        Some (Inr (c_int (of_nat n), x'')) \<and> I n x''"
      using less.hyps [of "d + k" x'] k I False less.prems by simp
    have "(of_nat d :: u64) + word_of_int (int k) = of_nat (d + k)" by simp
    moreover have "(of_nat (n - d) :: u64) - word_of_int (int k) = of_nat (n - (d + k))"
      using k by (simp add: of_nat_diff)
    ultimately show ?thesis
      using ih pos step by (subst fix_loop.simps) (simp only: sum.case prod.case if_True if_False Let_def)
  qed
qed

lemma c_int_whole: "n < 2 ^ 31 \<Longrightarrow> c_int (of_nat n) = int n"
  by (simp add: c_int_def signed_ucast_eq signed_take_bit_int_eq_self uint_nat unat_of_nat)

lemma fixed_transfer:
  assumes "n < 2 ^ 31" and "I 0 x"
  shows "\<exists>x'. fix_loop io (of_nat n) 0 (of_nat n) x = Some (Inr (int n, x')) \<and> I n x'"
  using fix_loop_progress [OF assms(1), of 0 x] assms by (simp add: c_int_whole)

end

section \<open>Connections that deliver\<close>

text \<open>
  What the code relies on from a healthy connection: \<open>recv\<close> returns some of the pending bytes,
  at least one and at most as many as fit; \<open>send\<close> takes some of the bytes it is given.
\<close>

definition delivers :: "'s recv \<Rightarrow> ('s \<Rightarrow> bytes) \<Rightarrow> bool" where
  "delivers recv pending \<longleftrightarrow>
     (\<forall>n s. 0 < n \<and> pending s \<noteq> [] \<longrightarrow>
       (\<exists>k s'. recv n s = (int k, take k (pending s), s') \<and> 0 < k \<and> k \<le> n \<and>
          k \<le> length (pending s) \<and> pending s' = drop k (pending s)))"

definition accepts :: "'s send \<Rightarrow> ('s \<Rightarrow> bytes) \<Rightarrow> bool" where
  "accepts send sent \<longleftrightarrow>
     (\<forall>bs s. bs \<noteq> [] \<longrightarrow>
       (\<exists>k s'. send bs s = (int k, s') \<and> 0 < k \<and> k \<le> length bs \<and> sent s' = sent s @ take k bs))"

text \<open>
  The same of \<open>recvmsg\<close> and \<open>sendmsg\<close>, for at most \<open>IOV_MAX\<close> slices (1024 on Linux); a call with
  more of them fails and moves nothing.
\<close>

definition IOV_MAX :: nat where "IOV_MAX = 1024"

definition delivers_iov :: "'s recvmsg \<Rightarrow> ('s \<Rightarrow> bytes) \<Rightarrow> bool" where
  "delivers_iov recvmsg pending \<longleftrightarrow>
     (\<forall>lens s. length lens \<le> IOV_MAX \<and> 0 < sum_list lens \<and> pending s \<noteq> [] \<longrightarrow>
       (\<exists>k s'. recvmsg lens s = (int k, take k (pending s), s') \<and> 0 < k \<and> k \<le> sum_list lens \<and>
          k \<le> length (pending s) \<and> pending s' = drop k (pending s)))"

definition accepts_iov :: "'s sendmsg \<Rightarrow> ('s \<Rightarrow> bytes) \<Rightarrow> bool" where
  "accepts_iov sendmsg sent \<longleftrightarrow>
     (\<forall>bss s. length bss \<le> IOV_MAX \<and> concat bss \<noteq> [] \<longrightarrow>
       (\<exists>k s'. sendmsg bss s = (int k, s') \<and> 0 < k \<and> k \<le> length (concat bss) \<and>
          sent s' = sent s @ take k (concat bss)))"

definition refuses_long_iov :: "'s sendmsg \<Rightarrow> bool" where
  "refuses_long_iov sendmsg \<longleftrightarrow> (\<forall>bss s. IOV_MAX < length bss \<longrightarrow> sendmsg bss s = (- 1, s))"

text \<open>The next \<open>n\<close> bytes of a buffer lie in at most \<open>IOV_MAX\<close> nodes.\<close>

definition few_nodes :: "nat \<Rightarrow> byte_array \<Rightarrow> bool" where
  "few_nodes n ba \<longleftrightarrow> ba_pos ba mod ba_base ba + n \<le> IOV_MAX * ba_base ba"

lemma few_nodes_moved:
  assumes "few_nodes n ba0" and "d \<le> n" and "ba_pos ba = ba_pos ba0 + d" "ba_base ba = ba_base ba0"
  shows "few_nodes (n - d) ba"
proof -
  have "(ba_pos ba0 + d) mod ba_base ba0 = (ba_pos ba0 mod ba_base ba0 + d) mod ba_base ba0"
    by (simp add: mod_add_left_eq)
  also have "\<dots> \<le> ba_pos ba0 mod ba_base ba0 + d" by simp
  finally show ?thesis using assms by (simp add: few_nodes_def)
qed

definition receiving ::
  "'s recvmsg \<Rightarrow> ('s \<Rightarrow> bytes) \<Rightarrow> nat \<Rightarrow> bytes \<Rightarrow> byte_array \<Rightarrow> nat \<Rightarrow> byte_array \<times> 's \<Rightarrow> bool" where
  "receiving recv pending n data ba0 d = (\<lambda>(ba, s).
     delivers_iov recv pending \<and> few_nodes n ba0 \<and> n \<le> length data \<and> ba_wf ba0 \<and> ba_wf ba \<and>
     ba_pos ba = ba_pos ba0 + d \<and> ba_content ba = put_at (ba_pos ba0) (take d data) (ba_content ba0) \<and>
     ba_base ba = ba_base ba0 \<and> ba_endian ba = ba_endian ba0 \<and> pending s = drop d data)"

lemma put_at_extend:
  assumes "p \<le> length c"
  shows "put_at (p + length as) bs (put_at p as c) = put_at p (as @ bs) c"
  using assms by (simp add: put_at_def ac_simps)

lemma ss_read_ba_step:
  assumes I: "receiving recv pending n data ba0 d (ba, s)" and d: "d < n" "n < 2 ^ 31"
  shows "\<exists>k x'. ss_read_ba recv True (n - d) (ba, s) = Inr (int k, x') \<and> 0 < k \<and> d + k \<le> n \<and>
    receiving recv pending n data ba0 (d + k) x'"
proof -
  from I have del: "delivers_iov recv pending" and few: "few_nodes n ba0" and n: "n \<le> length data" and wf0: "ba_wf ba0"
    and wf: "ba_wf ba" and pos: "ba_pos ba = ba_pos ba0 + d" and pend: "pending s = drop d data"
    and content: "ba_content ba = put_at (ba_pos ba0) (take d data) (ba_content ba0)"
    and base: "ba_base ba = ba_base ba0" "ba_endian ba = ba_endian ba0"
    by (simp_all add: receiving_def)
  have "0 < n - d" using d by simp
  from getWriteBuffers_slices [OF wf this] obtain iovs ba1 where
    gw: "getWriteBuffers (n - d) ba = Inr (n - d, iovs, ba1)" and wf1: "ba_wf ba1"
    and keep: "ba_content ba1 = ba_content ba" "ba_pos ba1 = ba_pos ba" "ba_size ba1 = ba_size ba"
      "ba_base ba1 = ba_base ba" "ba_endian ba1 = ba_endian ba"
    and len: "sum_list (map iov_len iovs) = n - d" and cap: "ba_pos ba + (n - d) \<le> ba_cap ba1"
    and sc: "\<And>bs. length bs \<le> n - d \<Longrightarrow>
      uniform (ba_base ba) (scatter iovs bs (ba_nodes ba1)) \<and>
      length (scatter iovs bs (ba_nodes ba1)) = length (ba_nodes ba1) \<and>
      concat (scatter iovs bs (ba_nodes ba1)) = put_at (ba_pos ba) bs (concat (ba_nodes ba1))"
    by blast
  have "few_nodes (n - d) ba" using few_nodes_moved [OF few _ pos base(1)] d by simp
  then have "length (map iov_len iovs) \<le> IOV_MAX"
    using getWriteBuffers_count [OF wf \<open>0 < n - d\<close> gw, of IOV_MAX] by (simp add: few_nodes_def)
  moreover have "pending s \<noteq> []" using pend n d by simp
  moreover have "0 < sum_list (map iov_len iovs)" using len d by simp
  ultimately obtain k s' where rv: "recv (map iov_len iovs) s = (int k, take k (pending s), s')"
    and k: "0 < k" "k \<le> n - d" "k \<le> length (pending s)" and pend': "pending s' = drop k (pending s)"
    using del unfolding delivers_iov_def len [symmetric] by blast
  let ?bs = "take k (pending s)"
  let ?ba2 = "ba1\<lparr>ba_nodes := scatter iovs ?bs (ba_nodes ba1)\<rparr>"
  have bs: "length ?bs = k" using k by simp
  have sc': "uniform (ba_base ba) (ba_nodes ?ba2)" "length (ba_nodes ?ba2) = length (ba_nodes ba1)"
    "concat (ba_nodes ?ba2) = put_at (ba_pos ba) ?bs (concat (ba_nodes ba1))"
    using sc [of ?bs] bs k by auto
  then have wf2: "ba_wf ?ba2"
    using wf1 keep by (auto simp: ba_wf_def)
  let ?ba3 = "?ba2\<lparr>ba_pos := ba_pos ba + k, ba_size := max (ba_size ba) (ba_pos ba + k),
      ba_cur := (ba_pos ba + k) div ba_base ba\<rparr>"
  have seek: "setPosition (ba_pos ba + k) ?ba2 = Inr ?ba3"
    using setPosition_ok [OF wf2, of "ba_pos ba + k"] cap k keep by simp
  then have wf3: "ba_wf ?ba3" by (rule setPosition_wf [OF wf2])
  have size: "ba_pos ba \<le> ba_size ba" "ba_size ba = length (ba_content ba)"
    using wf by (simp_all add: ba_wf_def ba_wf_content_length)
  have "length (concat (ba_nodes ba1)) = ba_cap ba1" "ba_size ba \<le> ba_cap ba1"
    using wf1 keep by (auto simp: ba_wf_flat_length ba_wf_def)
  then have "take (max (ba_size ba) (ba_pos ba + length ?bs)) (put_at (ba_pos ba) ?bs (concat (ba_nodes ba1))) =
      put_at (ba_pos ba) ?bs (take (ba_size ba) (concat (ba_nodes ba1)))"
    using size(1) cap k bs by (intro take_put_at) simp_all
  then have "ba_content ?ba3 = put_at (ba_pos ba) ?bs (ba_content ba1)"
    unfolding bs using sc'(3) keep by (simp add: ba_content_def)
  also have "\<dots> = put_at (ba_pos ba0) (take d data @ ?bs) (ba_content ba0)"
  proof -
    have "ba_pos ba0 \<le> length (ba_content ba0)"
      using wf0 by (simp add: ba_wf_def ba_wf_content_length)
    then show ?thesis
      using put_at_extend [of "ba_pos ba0" "ba_content ba0" "take d data" ?bs] pos content keep n d by simp
  qed
  also have "take d data @ ?bs = take (d + k) data"
    using pend by (simp add: take_add)
  finally have "receiving recv pending n data ba0 (d + k) (?ba3, s')"
    using del few n wf0 wf3 pos base keep pend pend'
    by (simp add: receiving_def add.commute)
  moreover have "ss_read_ba recv True (n - d) (ba, s) = Inr (int k, ?ba3, s')"
    using gw len rv k(1) seek keep by (simp add: ss_read_ba_def)
  ultimately show ?thesis using k by auto
qed

interpretation ba_receive:
  progressing_io "\<lambda>_ left. ss_read_ba recv True (unat left)" n "receiving recv pending n data ba0"
  for recv :: "'s recvmsg" and pending n data ba0
proof
  fix d and x :: "byte_array \<times> 's"
  assume a: "receiving recv pending n data ba0 d x" "d < n" "n < 2 ^ 31"
  moreover have "unat (of_nat (n - d) :: u64) = n - d"
    using a by (simp only: unat_of_nat) simp
  ultimately show "\<exists>k x'. ss_read_ba recv True (unat (of_nat (n - d) :: u64)) x = Inr (int k, x') \<and>
      0 < k \<and> d + k \<le> n \<and> receiving recv pending n data ba0 (d + k) x'"
    using ss_read_ba_step [of recv pending n data ba0 d "fst x" "snd x"] by simp
qed

lemma readFixSize_ba_receives:
  assumes "delivers_iov recv pending" and "ba_wf ba" and "n \<le> length (pending s)" and "n < 2 ^ 31"
    and "few_nodes n ba"
  shows "\<exists>ba' s'. readFixSize_ba recv True (of_nat n) (ba, s) = Some (Inr (int n, ba', s')) \<and>
    ba_wf ba' \<and> ba_pos ba' = ba_pos ba + n \<and>
    ba_content ba' = put_at (ba_pos ba) (take n (pending s)) (ba_content ba) \<and>
    ba_base ba' = ba_base ba \<and> ba_endian ba' = ba_endian ba \<and> pending s' = drop n (pending s)"
proof -
  have "receiving recv pending n (pending s) ba 0 (ba, s)"
    using assms by (simp add: receiving_def)
  from ba_receive.fixed_transfer [OF assms(4) this] show ?thesis
    unfolding readFixSize_ba_def by (auto simp: receiving_def)
qed

section \<open>Transfers to and from plain memory\<close>

lemma load_store:
  assumes "d + length bs < 2 ^ 64"
  shows "load_bytes 0 (d + length bs) (store_bytes (of_nat d) bs mem) = load_bytes 0 d mem @ bs"
proof (rule nth_equalityI)
  fix i assume i: "i < length (load_bytes 0 (d + length bs) (store_bytes (of_nat d) bs mem))"
  then have i_lt: "i < d + length bs"
    by (simp add: load_bytes_def)
  show "load_bytes 0 (d + length bs) (store_bytes (of_nat d) bs mem) ! i = (load_bytes 0 d mem @ bs) ! i"
  proof (cases "i < d")
    case True
    have "(of_nat i :: u64) - of_nat d = of_nat (2 ^ 64 - (d - i))"
      using True assms by (simp add: of_nat_diff)
    then have "unat ((of_nat i :: u64) - of_nat d) = 2 ^ 64 - (d - i)"
      using True assms by (simp only: unat_of_nat) simp
    then have "\<not> unat ((of_nat i :: u64) - of_nat d) < length bs"
      using True assms by linarith
    then show ?thesis
      using True i_lt by (simp add: load_bytes_def store_bytes_def nth_append)
  next
    case False
    then have "(of_nat i :: u64) - of_nat d = of_nat (i - d)"
      by (simp add: of_nat_diff)
    then have "unat ((of_nat i :: u64) - of_nat d) = i - d"
      using i_lt assms by (simp only: unat_of_nat) simp
    moreover have "i - d < length bs"
      using False i_lt by linarith
    ultimately show ?thesis
      using False i_lt by (simp add: load_bytes_def store_bytes_def nth_append)
  qed
qed (simp add: load_bytes_def)

lemma length_load_bytes [simp]: "length (load_bytes a n mem) = n"
  by (simp add: load_bytes_def)

definition filling ::
  "'s recv \<Rightarrow> ('s \<Rightarrow> bytes) \<Rightarrow> nat \<Rightarrow> bytes \<Rightarrow> nat \<Rightarrow> memory \<times> 's \<Rightarrow> bool" where
  "filling recv pending n data d = (\<lambda>(mem, s).
     delivers recv pending \<and> n \<le> length data \<and> d \<le> n \<and> load_bytes 0 d mem = take d data \<and>
     pending s = drop d data)"

interpretation mem_receive:
  progressing_io "\<lambda>offset left (mem, s).
      let (r, bs, s') = ss_read recv True (unat left) s in Inr (r, store_bytes offset bs mem, s')"
    n "filling recv pending n data"
  for recv :: "'s recv" and pending n data
proof
  fix d and x :: "memory \<times> 's"
  assume I: "filling recv pending n data d x" and d: "d < n" "n < 2 ^ 31"
  obtain mem s where x: "x = (mem, s)" by (cases x)
  have u: "unat (of_nat (n - d) :: u64) = n - d"
    using d by (simp only: unat_of_nat) simp
  have pend: "pending s = drop d data" "n \<le> length data" "delivers recv pending"
    "load_bytes 0 d mem = take d data"
    using I x by (simp_all add: filling_def)
  then have "pending s \<noteq> []" "0 < n - d" using d by simp_all
  then obtain k s' where rv: "recv (n - d) s = (int k, take k (pending s), s')" and k: "0 < k" "k \<le> n - d"
    "k \<le> length (pending s)" "pending s' = drop k (pending s)"
    using pend(3) unfolding delivers_def by metis
  let ?bs = "take k (pending s)"
  have "length ?bs = k" using k by simp
  then have "load_bytes 0 (d + k) (store_bytes (of_nat d) ?bs mem) = load_bytes 0 d mem @ ?bs"
    using load_store [of d ?bs mem] d k by simp
  also have "\<dots> = take (d + k) data"
    using pend by (simp add: take_add)
  finally have "filling recv pending n data (d + k) (store_bytes (of_nat d) ?bs mem, s')"
    using pend k d by (simp add: filling_def add.commute)
  then show "\<exists>k x'. (case x of (mem, s) \<Rightarrow>
      let (r, bs, s') = ss_read recv True (unat (of_nat (n - d) :: u64)) s
      in Inr (r, store_bytes (of_nat d) bs mem, s')) = Inr (int k, x') \<and>
      0 < k \<and> d + k \<le> n \<and> filling recv pending n data (d + k) x'"
    using rv k x u d
    by (intro exI [of _ k] exI [of _ "(store_bytes (of_nat d) ?bs mem, s')"]) (simp add: ss_read_def)
qed

lemma readFixSize_fills:
  assumes "delivers recv pending" and "n \<le> length (pending s)" and "n < 2 ^ 31"
  shows "\<exists>mem' s'. readFixSize recv True (of_nat n) (mem, s) = Some (Inr (int n, mem', s')) \<and>
    load_bytes 0 n mem' = take n (pending s) \<and> pending s' = drop n (pending s)"
proof -
  have "filling recv pending n (pending s) 0 (mem, s)"
    using assms by (simp add: filling_def load_bytes_def)
  from mem_receive.fixed_transfer [OF assms(3) this] show ?thesis
    unfolding readFixSize_def by (auto simp: filling_def)
qed

definition draining ::
  "'s send \<Rightarrow> ('s \<Rightarrow> bytes) \<Rightarrow> nat \<Rightarrow> memory \<Rightarrow> bytes \<Rightarrow> nat \<Rightarrow> 's \<Rightarrow> bool" where
  "draining send sent n mem out d = (\<lambda>s.
     accepts send sent \<and> sent s = out @ load_bytes 0 d mem)"

lemma take_load: "k \<le> n \<Longrightarrow> take k (load_bytes a n mem) = load_bytes a k mem"
  by (simp add: load_bytes_def take_map)

lemma load_append: "load_bytes 0 d mem @ load_bytes (of_nat d) k mem = load_bytes 0 (d + k) mem"
proof -
  have "map (\<lambda>i. mem (of_nat d + of_nat i)) [0..<k] = map (\<lambda>i. mem (of_nat i)) [d..<d + k]"
    by (rule nth_equalityI) simp_all
  then show ?thesis
    by (simp add: load_bytes_def upt_add_eq_append [of 0])
qed

interpretation mem_send:
  progressing_io "\<lambda>offset left s. Inr (ss_write send True (load_bytes offset (unat left) mem) s)"
    n "draining send sent n mem out"
  for send :: "'s send" and sent n mem out
proof
  fix d and x :: 's
  assume I: "draining send sent n mem out d x" and d: "d < n" "n < 2 ^ 31"
  have u: "unat (of_nat (n - d) :: u64) = n - d"
    using d by (simp only: unat_of_nat) simp
  let ?bs = "load_bytes (of_nat d) (n - d) mem"
  have "?bs \<noteq> []" using d by (simp add: load_bytes_def)
  then obtain k s' where sd: "send ?bs x = (int k, s')" "0 < k" "k \<le> length ?bs" "sent s' = sent x @ take k ?bs"
    using I unfolding draining_def accepts_def by blast
  then have "sent s' = out @ load_bytes 0 (d + k) mem"
    using I by (simp add: draining_def take_load load_append)
  then show "\<exists>k x'. Inr (ss_write send True (load_bytes (of_nat d) (unat (of_nat (n - d) :: u64)) mem) x) =
      Inr (int k, x') \<and> 0 < k \<and> d + k \<le> n \<and> draining send sent n mem out (d + k) x'"
    using sd I d unfolding u by (auto simp: ss_write_def draining_def)
qed

lemma writeFixSize_sends:
  assumes "accepts send sent" and "n < 2 ^ 31"
  shows "\<exists>s'. writeFixSize send True mem (of_nat n) s = Some (Inr (int n, s')) \<and>
    sent s' = sent s @ load_bytes 0 n mem"
proof -
  have "draining send sent n mem (sent s) 0 s"
    using assms by (simp add: draining_def load_bytes_def)
  from mem_send.fixed_transfer [OF assms(2) this] show ?thesis
    unfolding writeFixSize_def by (auto simp: draining_def)
qed

section \<open>Sending a buffer\<close>

definition sending ::
  "'s sendmsg \<Rightarrow> ('s \<Rightarrow> bytes) \<Rightarrow> nat \<Rightarrow> byte_array \<Rightarrow> bytes \<Rightarrow> nat \<Rightarrow> byte_array \<times> 's \<Rightarrow> bool" where
  "sending send sent n ba0 out d = (\<lambda>(ba, s).
     accepts_iov send sent \<and> few_nodes n ba0 \<and> n \<le> length (ba_rest ba0) \<and> ba_wf ba \<and>
     ba_base ba = ba_base ba0 \<and> ba_content ba = ba_content ba0 \<and>
     ba_pos ba = ba_pos ba0 + d \<and> sent s = out @ take d (ba_rest ba0))"

lemma ss_write_ba_step:
  assumes I: "sending send sent n ba0 out d (ba, s)" and d: "d < n"
  shows "\<exists>k x'. ss_write_ba send True (n - d) (ba, s) = Inr (int k, x') \<and> 0 < k \<and> d + k \<le> n \<and>
    sending send sent n ba0 out (d + k) x'"
proof -
  from I have acc: "accepts_iov send sent" and few: "few_nodes n ba0" and n: "n \<le> length (ba_rest ba0)"
    and wf: "ba_wf ba" and base: "ba_base ba = ba_base ba0" and content: "ba_content ba = ba_content ba0" and pos: "ba_pos ba = ba_pos ba0 + d"
    and out: "sent s = out @ take d (ba_rest ba0)"
    by (simp_all add: sending_def)
  have rest: "ba_rest ba = drop d (ba_rest ba0)"
    by (simp add: ba_rest_def content pos add.commute)
  obtain iovs where gr: "getReadBuffers (n - d) ba = Inr (min (n - d) (getReadSize ba), iovs)"
    and g: "gather (ba_nodes ba) iovs = take (n - d) (ba_rest ba)"
    using getReadBuffers_slices [OF wf, of "n - d"] by blast
  let ?bs = "take (n - d) (ba_rest ba)"
  have len: "length ?bs = n - d" using n d rest by simp
  then have "?bs \<noteq> []" using d by (metis list.size(3) not_less_iff_gr_or_eq zero_less_diff)
  moreover have concat: "concat (map (iov_bytes (ba_nodes ba)) iovs) = ?bs" using g by (simp add: gather_def)
  moreover have "few_nodes (n - d) ba" using few_nodes_moved [OF few _ pos base] d by simp
  then have "length (map (iov_bytes (ba_nodes ba)) iovs) \<le> IOV_MAX"
    using getReadBuffers_count [OF wf _ _ gr, of IOV_MAX] d len ba_wf_rest_length [OF wf]
    by (simp add: few_nodes_def)
  ultimately obtain k s' where sd: "send (map (iov_bytes (ba_nodes ba)) iovs) s = (int k, s')" "0 < k"
    "k \<le> length ?bs" "sent s' = sent s @ take k ?bs"
    using acc unfolding accepts_iov_def by metis
  have size: "ba_pos ba + k \<le> ba_size ba"
    using sd(3) ba_wf_rest_length [OF wf] wf by (auto simp: getReadSize_def ba_wf_def)
  let ?ba' = "ba\<lparr>ba_pos := ba_pos ba + k, ba_cur := (ba_pos ba + k) div ba_base ba\<rparr>"
  have "ba_pos ba + k \<le> ba_cap ba" using size wf by (simp add: ba_wf_def)
  from setPosition_ok [OF wf this] have seek: "setPosition (ba_pos ba + k) ba = Inr ?ba'"
    using size by simp
  have "sent s' = out @ take (d + k) (ba_rest ba0)"
    using sd len rest out by (simp add: take_add)
  then have "sending send sent n ba0 out (d + k) (?ba', s')"
    using acc few n base ba_moved(1) [OF wf size] content pos by (simp add: sending_def ba_content_def)
  moreover have "ss_write_ba send True (n - d) (ba, s) = Inr (int k, ?ba', s')"
    using gr sd(1,2) seek by (simp add: ss_write_ba_def)
  ultimately show ?thesis using sd(2,3) len by auto
qed

interpretation ba_send:
  progressing_io "\<lambda>_ left. ss_write_ba send True (unat left)" n "sending send sent n ba0 out"
  for send :: "'s sendmsg" and sent n ba0 out
proof
  fix d and x :: "byte_array \<times> 's"
  assume a: "sending send sent n ba0 out d x" "d < n" "n < 2 ^ 31"
  moreover have "unat (of_nat (n - d) :: u64) = n - d"
    using a by (simp only: unat_of_nat) simp
  ultimately show "\<exists>k x'. ss_write_ba send True (unat (of_nat (n - d) :: u64)) x = Inr (int k, x') \<and>
      0 < k \<and> d + k \<le> n \<and> sending send sent n ba0 out (d + k) x'"
    using ss_write_ba_step [of send sent n ba0 out d "fst x" "snd x"] by simp
qed

lemma writeFixSize_ba_sends:
  assumes "accepts_iov send sent" and "ba_wf ba" and "n \<le> length (ba_rest ba)" and "n < 2 ^ 31"
    and "few_nodes n ba"
  shows "\<exists>ba' s'. writeFixSize_ba send True (of_nat n) (ba, s) = Some (Inr (int n, ba', s')) \<and>
    ba_wf ba' \<and> ba_content ba' = ba_content ba \<and> sent s' = sent s @ take n (ba_rest ba)"
proof -
  have "sending send sent n ba (sent s) 0 (ba, s)"
    using assms by (simp add: sending_def)
  from ba_send.fixed_transfer [OF assms(4) this] show ?thesis
    unfolding writeFixSize_ba_def by (auto simp: sending_def)
qed

section \<open>A connection that is gone\<close>

lemma fix_loop_minus_one:
  assumes "\<And>offset left'. left \<le> left' \<Longrightarrow> io offset left' x = Inr (- 1, x)"
  shows "fix_loop io whole offset left x = Some (Inr (c_int whole, x))"
  using assms
proof (induction "unat (- left)" arbitrary: offset left rule: less_induct)
  case less
  show ?case
  proof (cases "left = 0")
    case True
    then show ?thesis by (simp add: fix_loop.simps)
  next
    case False
    have step: "fix_loop io whole offset left x = fix_loop io whole (offset - 1) (left + 1) x"
      using False less.prems [of left offset] by (subst fix_loop.simps) (simp add: Let_def word_gt_0)
    show ?thesis
    proof (cases "left + 1 = 0")
      case True
      then show ?thesis unfolding step by (simp add: fix_loop.simps)
    next
      case more: False
      have "- (left + 1) = - left - 1" by simp
      then have "unat (- (left + 1)) < unat (- left)"
        using False by (metis measure_unat neg_equal_0_iff_equal)
      moreover have inc: "left \<le> left + 1" using more unatSuc [of left]
        by (simp add: word_le_nat_alt add.commute)
      ultimately have "fix_loop io whole (offset - 1) (left + 1) x = Some (Inr (c_int whole, x))"
        by (intro less.hyps less.prems order.trans [OF inc])
      then show ?thesis unfolding step .
    qed
  qed
qed

text \<open>A connection whose pending bytes arrive in pieces of at most two.\<close>

definition drip :: "bytes recv" where
  "drip n s = (int (min (min n 2) (length s)), take (min n 2) s, drop (min n 2) s)"

lemma drip_delivers: "delivers drip (\<lambda>s. s)"
  unfolding delivers_def
proof (intro allI impI)
  fix n :: nat and s :: bytes
  assume "0 < n \<and> s \<noteq> []"
  then have "0 < min (min n 2) (length s)" by simp
  then show "\<exists>k s'. drip n s = (int k, take k s, s') \<and> 0 < k \<and> k \<le> n \<and> k \<le> length s \<and> s' = drop k s"
    by (intro exI [of _ "min (min n 2) (length s)"]) (auto simp: drip_def min_def)
qed

definition drip_iov :: "bytes recvmsg" where
  "drip_iov lens s = (if length lens \<le> IOV_MAX then drip (sum_list lens) s else (- 1, [], s))"

lemma drip_iov_delivers: "delivers_iov drip_iov (\<lambda>s. s)"
  using drip_delivers by (auto simp: delivers_iov_def delivers_def drip_iov_def)

text \<open>C37: on a connection that delivers, in pieces of any size, \<open>readFixSize\<close> into a buffer
  terminates, returns the requested length, appends exactly the next bytes at the position and
  leaves the later ones pending; \<open>writeFixSize\<close> of a buffer sends exactly its next bytes. Both for
  transfers that touch at most \<open>IOV_MAX\<close> nodes of the buffer: \<open>recvmsg\<close> and \<open>sendmsg\<close> refuse more
  slices, and \<open>long_buffer_not_sent\<close> says what happens then.\<close>

theorem fixed_size_transfers:
  assumes wf: "ba_wf ba" and n: "n < 2 ^ 31" and few: "few_nodes n ba"
  shows "(delivers_iov recv pending \<and> n \<le> length (pending s) \<longrightarrow>
      (\<exists>ba' s'. readFixSize_ba recv True (of_nat n) (ba, s) = Some (Inr (int n, ba', s')) \<and>
        ba_wf ba' \<and> ba_pos ba' = ba_pos ba + n \<and>
        ba_content ba' = put_at (ba_pos ba) (take n (pending s)) (ba_content ba) \<and>
        pending s' = drop n (pending s))) \<and>
    (accepts_iov send sent \<and> n \<le> length (ba_rest ba) \<longrightarrow>
      (\<exists>ba' s'. writeFixSize_ba send True (of_nat n) (ba, s) = Some (Inr (int n, ba', s')) \<and>
        ba_wf ba' \<and> ba_content ba' = ba_content ba \<and> sent s' = sent s @ take n (ba_rest ba)))"
proof (intro conjI impI)
  assume "delivers_iov recv pending \<and> n \<le> length (pending s)"
  then show "\<exists>ba' s'. readFixSize_ba recv True (of_nat n) (ba, s) = Some (Inr (int n, ba', s')) \<and>
        ba_wf ba' \<and> ba_pos ba' = ba_pos ba + n \<and>
        ba_content ba' = put_at (ba_pos ba) (take n (pending s)) (ba_content ba) \<and>
        pending s' = drop n (pending s)"
    using readFixSize_ba_receives [of recv pending ba n s] wf n few by blast
qed (use writeFixSize_ba_sends [of send sent ba n s] wf n few in blast)

theorem fixed_size_transfers_witness:
  "\<exists>ba' s'. readFixSize_ba drip_iov True 3 (new_byte_array (\<lambda>_. 0) 2, [7, 8, 9, 10]) = Some (Inr (3, ba', s')) \<and>
     ba_content ba' = [7, 8, 9] \<and> s' = [10]"
proof -
  have "ba_wf (new_byte_array (\<lambda>_. 0) 2)" by (simp add: new_byte_array_wf)
  moreover have "few_nodes 3 (new_byte_array (\<lambda>_. 0) 2)"
    by (simp add: few_nodes_def new_byte_array_def IOV_MAX_def)
  ultimately show ?thesis
    using fixed_size_transfers [of "new_byte_array (\<lambda>_. 0) 2" 3 drip_iov "\<lambda>s. s" "[7, 8, 9, 10]" "\<lambda>bs s. (0, s)" "\<lambda>s. s"]
      drip_iov_delivers
    by (auto simp: new_byte_array_empty put_at_def)
qed

lemma long_buffer_refused:
  assumes wf: "ba_wf ba" and long: "\<not> few_nodes (getReadSize ba) ba" and n: "getReadSize ba < 2 ^ 64"
    and refuses: "refuses_long_iov sendmsg"
  shows "writeFixSize_ba sendmsg True (of_nat (getReadSize ba)) (ba, s) =
    Some (Inr (c_int (of_nat (getReadSize ba)), ba, s))"
  unfolding writeFixSize_ba_def
proof (rule fix_loop_minus_one)
  fix offset left :: u64
  let ?n = "getReadSize ba"
  assume "of_nat ?n \<le> left"
  then have left: "?n \<le> unat left" using n by (simp add: word_le_nat_alt unat_of_nat)
  have pos: "0 < ?n"
  proof (rule ccontr)
    assume z: "\<not> 0 < ?n"
    have "ba_pos ba mod ba_base ba < ba_base ba" using wf by (simp add: ba_wf_def)
    then show False using long z by (simp add: few_nodes_def IOV_MAX_def)
  qed
  obtain iovs where gr: "getReadBuffers ?n ba = Inr (?n, iovs)"
    using getReadBuffers_slices [OF wf, of ?n] by auto
  then have gr': "getReadBuffers (unat left) ba = Inr (?n, iovs)"
    using left by (cases "unat left = ?n") (simp_all add: getReadBuffers_def)
  have "IOV_MAX < length iovs"
    using getReadBuffers_count [OF wf pos _ gr, of IOV_MAX] long by (simp add: few_nodes_def not_le)
  then show "ss_write_ba sendmsg True (unat left) (ba, s) = Inr (- 1, ba, s)"
    using gr' refuses by (simp add: ss_write_ba_def refuses_long_iov_def)
qed

text \<open>
  A transfer that needs more than \<open>IOV_MAX\<close> slices: \<open>sendmsg\<close> fails, the loop takes its -1 for
  a huge length and tries again with one byte more. Nothing is ever sent, and after 2^64 - \<open>n\<close> failing
  calls (so for all that matters never) the whole length is returned.
\<close>

theorem long_buffer_not_sent:
  assumes "ba_wf ba" and "\<not> few_nodes (getReadSize ba) ba" and "getReadSize ba < 2 ^ 64"
    and "refuses_long_iov sendmsg"
  shows "writeFixSize_ba sendmsg True (of_nat (getReadSize ba)) (ba, s) =
    Some (Inr (c_int (of_nat (getReadSize ba)), ba, s))"
  using assms by (rule long_buffer_refused)

theorem long_buffer_not_sent_witness:
  "let ba = new_byte_array (\<lambda>_. 0) 1\<lparr>ba_nodes := replicate 2000 [7], ba_size := 2000, ba_cap := 2000\<rparr> in
   writeFixSize_ba (\<lambda>bss s. if IOV_MAX < length bss then (-1, s) else (int (length bss), s @ concat bss)) True 2000 (ba, []) =
     Some (Inr (2000, ba, []))"
proof -
  let ?ba = "new_byte_array (\<lambda>_. 0) 1\<lparr>ba_nodes := replicate 2000 [7], ba_size := 2000, ba_cap := 2000\<rparr>"
  have "ba_wf ?ba" by (simp add: ba_wf_def new_byte_array_def uniform_def)
  moreover have "getReadSize ?ba = 2000" "\<not> few_nodes 2000 ?ba"
    by (simp_all add: getReadSize_def few_nodes_def new_byte_array_def IOV_MAX_def)
  moreover have "c_int 2000 = 2000" by (simp add: c_int_def)
  ultimately show ?thesis
    using long_buffer_not_sent [of ?ba "\<lambda>bss s. if IOV_MAX < length bss then (-1, s) else (int (length bss), s @ concat bss)" "[]"]
    by (simp add: refuses_long_iov_def Let_def)
qed

text \<open>Once the connection is gone every read and write returns -1, and the four fixed-size
  transfers, which store it in a \<open>size_t\<close> and test \<open>len <= 0\<close>, count up to 2^64 and then report
  the whole length as transferred; they never report the error.\<close>

theorem lost_connection_reads_full_length:
  "readFixSize recv False n (mem, s) = Some (Inr (c_int n, mem, s)) \<and>
   readFixSize_ba recvmsg False n (ba, s) = Some (Inr (c_int n, ba, s)) \<and>
   writeFixSize send False mem n s = Some (Inr (c_int n, s)) \<and>
   writeFixSize_ba sendmsg False n (ba, s) = Some (Inr (c_int n, ba, s))"
  unfolding readFixSize_def readFixSize_ba_def writeFixSize_def writeFixSize_ba_def
  by (intro conjI fix_loop_minus_one)
    (simp_all add: ss_read_def ss_read_ba_def ss_write_def ss_write_ba_def store_bytes_def)

end
