(* ===== verification/ByteChannel.thy ===== *)
theory ByteChannel
  imports Prelude
begin

text \<open>
  The contract between a byte buffer and the code that serialises through it. \<open>emits\<close> says
  that an action appends exactly the given bytes, \<open>consumes\<close> that an action reads exactly the
  given bytes, returns the given value and leaves the rest. The locales state what a buffer
  promises about its raw write and read; the lemmas in them are what every codec uses.
\<close>

definition emits ::
  "('s \<Rightarrow> bool) \<Rightarrow> ('s \<Rightarrow> bytes) \<Rightarrow> ('s \<Rightarrow> 's res) \<Rightarrow> bytes \<Rightarrow> bool" where
  "emits good data act bs \<longleftrightarrow>
     (\<forall>s. good s \<longrightarrow> (\<exists>s'. act s = Inr s' \<and> good s' \<and> data s' = data s @ bs))"

definition consumes ::
  "('s \<Rightarrow> bool) \<Rightarrow> ('s \<Rightarrow> bytes) \<Rightarrow> ('s \<Rightarrow> ('a \<times> 's) res) \<Rightarrow> bytes \<Rightarrow> 'a \<Rightarrow> bytes \<Rightarrow> bool" where
  "consumes good rest act bs x r \<longleftrightarrow>
     (\<forall>s. good s \<and> rest s = bs @ r \<longrightarrow> (\<exists>s'. act s = Inr (x, s') \<and> good s' \<and> rest s' = r))"

lemma emitsD:
  "emits good data act bs \<Longrightarrow> good s \<Longrightarrow> \<exists>s'. act s = Inr s' \<and> good s' \<and> data s' = data s @ bs"
  by (simp add: emits_def)

lemma consumesD:
  "consumes good rest act bs x r \<Longrightarrow> good s \<Longrightarrow> rest s = bs @ r \<Longrightarrow>
   \<exists>s'. act s = Inr (x, s') \<and> good s' \<and> rest s' = r"
  by (simp add: consumes_def)

lemma emits_return [codec]: "emits good data Inr []"
  by (simp add: emits_def)

lemma emits_seq:
  "emits good data a bs \<Longrightarrow> emits good data b cs \<Longrightarrow>
   emits good data (\<lambda>s. bindE (a s) b) (bs @ cs)"
  by (fastforce simp: emits_def)

lemma consumes_return [codec]: "consumes good rest (\<lambda>s. Inr (x, s)) [] x r"
  by (simp add: consumes_def)

lemma consumes_seq:
  "consumes good rest a bs x (cs @ r) \<Longrightarrow> consumes good rest (f x) cs y r \<Longrightarrow>
   consumes good rest (\<lambda>s. bindE (a s) (\<lambda>(x, s). f x s)) (bs @ cs) y r"
  by (fastforce simp: consumes_def)

lemma consumes_map:
  "consumes good rest a bs x r \<Longrightarrow>
   consumes good rest (\<lambda>s. bindE (a s) (\<lambda>(x, s). Inr (f x, s))) bs (f x) r"
  by (fastforce simp: consumes_def)

fun write_all :: "(bytes \<Rightarrow> 's \<Rightarrow> 's res) \<Rightarrow> bytes list \<Rightarrow> 's \<Rightarrow> 's res" where
  "write_all wr [] s = Inr s"
| "write_all wr (c # cs) s = bindE (wr c s) (write_all wr cs)"

section \<open>Interfaces\<close>

locale byte_sink =
  fixes wr :: "bytes \<Rightarrow> 's \<Rightarrow> 's res"
    and good :: "'s \<Rightarrow> bool"
    and data :: "'s \<Rightarrow> bytes"
  assumes wr_ok: "good s \<Longrightarrow> \<exists>s'. wr bs s = Inr s' \<and> good s' \<and> data s' = data s @ bs"
begin

lemma sink_raw: "emits good data (wr bs) bs"
  using wr_ok by (simp add: emits_def)

lemma sink_chunks: "emits good data (write_all wr cs) (concat cs)"
proof (induction cs)
  case Nil
  then show ?case by (simp add: emits_def)
next
  case (Cons c cs)
  have "write_all wr (c # cs) = (\<lambda>s. bindE (wr c s) (write_all wr cs))"
    by (rule ext) simp
  then show ?case
    using emits_seq [OF sink_raw Cons.IH] by simp
qed

lemma sink_prefixed:
  "emits good data len_wr enc \<Longrightarrow> emits good data (\<lambda>s. bindE (len_wr s) (wr bs)) (enc @ bs)"
  by (rule emits_seq [OF _ sink_raw])

end

locale byte_source =
  fixes rd :: "nat \<Rightarrow> 's \<Rightarrow> (bytes \<times> 's) res"
    and good :: "'s \<Rightarrow> bool"
    and rest :: "'s \<Rightarrow> bytes"
  assumes rd_ok: "good s \<Longrightarrow> rest s \<noteq> [] \<Longrightarrow> n \<le> length (rest s) \<Longrightarrow>
      \<exists>s'. rd n s = Inr (take n (rest s), s') \<and> good s' \<and> rest s' = drop n (rest s)"
    and rd_short: "good s \<Longrightarrow> length (rest s) < n \<Longrightarrow> rd n s = Inl OutOfRange"
begin

lemma source_raw:
  assumes "bs @ r \<noteq> []" and "length bs = n"
  shows "consumes good rest (rd n) bs bs r"
  unfolding consumes_def
proof (intro allI impI)
  fix s assume "good s \<and> rest s = bs @ r"
  then show "\<exists>s'. rd n s = Inr (bs, s') \<and> good s' \<and> rest s' = r"
    using rd_ok [of s n] assms by auto
qed

lemma source_prefixed:
  assumes "consumes good rest len_rd enc k (bs @ r)" and "bs @ r \<noteq> []" and "length bs = to_nat k"
  shows "consumes good rest (\<lambda>s. bindE (len_rd s) (\<lambda>(k, s). rd (to_nat k) s)) (enc @ bs) bs r"
  using assms by (intro consumes_seq) (auto intro: source_raw)

lemma source_truncated:
  assumes "consumes good rest len_rd enc k bs" and "length bs < to_nat k"
    and "good s" and "rest s = enc @ bs"
  shows "bindE (len_rd s) (\<lambda>(k, s). rd (to_nat k) s) = Inl OutOfRange"
proof -
  obtain s' where "len_rd s = Inr (k, s')" "good s'" "rest s' = bs"
    using consumesD [OF assms(1,3,4)] by blast
  then show ?thesis using rd_short [of s' "to_nat k"] assms(2) by simp
qed

end

end
