(* ===== verification/EndianWords.thy ===== *)
theory EndianWords
  imports Prelude
begin

text \<open>
  Integers as bytes in memory and the byte swaps of \<open>src/Endian.h\<close>. The host is
  little-endian (the build passes \<open>-m64\<close> and assembles x86 code), so the memory image of an
  integer lists its bytes from the lowest, \<open>ROUTN_BYTE_ORDER\<close> is little-endian and
  \<open>byteswapOnLittleEndian\<close> swaps.
\<close>

definition le_bytes :: "nat \<Rightarrow> 'a::len word \<Rightarrow> bytes" where
  "le_bytes n w = map (\<lambda>i. ucast (drop_bit (8 * i) w)) [0..<n]"

fun le_word :: "bytes \<Rightarrow> 'a::len word" where
  "le_word [] = 0"
| "le_word (b # bs) = or (ucast b) (push_bit 8 (le_word bs))"

text \<open>
  \<open>byteswap\<close>: the template picks \<open>bswap_16\<close>, \<open>bswap_32\<close> or \<open>bswap_64\<close> by the size \<open>n\<close> of
  its type, and each of them reverses the bytes.
\<close>

definition byteswap :: "nat \<Rightarrow> 'a::len word \<Rightarrow> 'a word" where
  "byteswap n w = le_word (rev (le_bytes n w))"

definition byteswapOnLittleEndian :: "nat \<Rightarrow> 'a::len word \<Rightarrow> 'a word" where
  "byteswapOnLittleEndian n w = byteswap n w"

lemma length_le_bytes [simp]: "length (le_bytes n w) = n"
  by (simp add: le_bytes_def)

lemma bit_le_word:
  "bit (le_word bs :: 'a::len word) i \<longleftrightarrow>
   i < LENGTH('a) \<and> i < 8 * length bs \<and> bit (bs ! (i div 8)) (i mod 8)"
proof (induction bs arbitrary: i)
  case (Cons b bs)
  show ?case
  proof (cases "i < 8")
    case True
    then show ?thesis by (auto simp: bit_simps)
  next
    case False
    then have "(b # bs) ! (i div 8) = bs ! ((i - 8) div 8)" "(i - 8) mod 8 = i mod 8"
      by (simp_all add: le_div_geq le_mod_geq)
    moreover have "\<not> bit b i"
      using False bit_imp_le_length [of b i] by auto
    ultimately show ?thesis
      using False Cons.IH [of "i - 8"] by (auto simp: bit_simps)
  qed
qed simp

lemma bit_le_bytes:
  "k < n \<Longrightarrow> j < 8 \<Longrightarrow> bit (le_bytes n w ! k) j \<longleftrightarrow> bit w (8 * k + j)"
  by (auto simp: le_bytes_def bit_simps)

lemma le_word_le_bytes:
  assumes "LENGTH('a) = 8 * n"
  shows "le_word (le_bytes n w) = (w :: 'a::len word)"
proof (rule bit_word_eqI)
  fix i assume "i < LENGTH('a)"
  then show "bit (le_word (le_bytes n w) :: 'a word) i \<longleftrightarrow> bit w i"
    using assms by (simp add: bit_le_word bit_le_bytes less_mult_imp_div_less mult.commute)
qed

lemma le_bytes_le_word:
  assumes "LENGTH('a) = 8 * n" and "length bs = n"
  shows "le_bytes n (le_word bs :: 'a::len word) = bs"
proof (rule nth_equalityI)
  fix k assume k: "k < length (le_bytes n (le_word bs :: 'a word))"
  show "le_bytes n (le_word bs :: 'a word) ! k = bs ! k"
  proof (rule bit_word_eqI)
    fix j assume "j < LENGTH(8)"
    then have "j < 8" by simp
    then show "bit (le_bytes n (le_word bs :: 'a word) ! k) j \<longleftrightarrow> bit (bs ! k) j"
      using assms k by (simp add: bit_le_bytes bit_le_word)
  qed
qed (use assms in simp)

lemma byteswap_byteswap:
  "LENGTH('a) = 8 * n \<Longrightarrow> byteswap n (byteswap n w) = (w :: 'a::len word)"
  by (simp add: byteswap_def le_bytes_le_word le_word_le_bytes)

lemma le_bytes_byteswap:
  "LENGTH('a) = 8 * n \<Longrightarrow> le_bytes n (byteswap n (w :: 'a::len word)) = rev (le_bytes n w)"
  by (simp add: byteswap_def le_bytes_le_word)

end
