(* ===== verification/ByteArrayCodec.thy ===== *)
theory ByteArrayCodec
  imports ByteArray ByteChannel EndianWords
begin

text \<open>
  The typed reads and writes of \<open>src/ByteArray.cpp\<close>: fixed-width integers in the buffer's
  byte order, zigzag and 7-bit variable-length integers, and length-prefixed strings. Signed
  and unsigned integers of one width share their bits, so both are words; floating-point values
  are the words their bytes spell.
\<close>

section \<open>Fixed-width integers\<close>

definition host_order :: byte_order where
  "host_order = LittleEndian"

definition write_fixed :: "nat \<Rightarrow> 'a::len word \<Rightarrow> byte_array \<Rightarrow> byte_array res" where
  "write_fixed n value ba =
     (let value = (if ba_endian ba \<noteq> host_order then byteswap n value else value)
      in ba_write (le_bytes n value) ba)"

definition read_fixed :: "nat \<Rightarrow> byte_array \<Rightarrow> ('a::len word \<times> byte_array) res" where
  "read_fixed n ba =
     bindE (ba_read n ba) (\<lambda>(bs, ba').
       let v = le_word bs
       in Inr (if ba_endian ba = host_order then v else byteswap n v, ba'))"

definition writeFint8 :: "u8 \<Rightarrow> byte_array \<Rightarrow> byte_array res" where
  "writeFint8 value = ba_write [value]"

definition writeFuint8 :: "u8 \<Rightarrow> byte_array \<Rightarrow> byte_array res" where
  "writeFuint8 value = ba_write [value]"

definition writeFint16 :: "u16 \<Rightarrow> byte_array \<Rightarrow> byte_array res" where
  "writeFint16 = write_fixed 2"

definition writeFuint16 :: "u16 \<Rightarrow> byte_array \<Rightarrow> byte_array res" where
  "writeFuint16 = write_fixed 2"

definition writeFint32 :: "u32 \<Rightarrow> byte_array \<Rightarrow> byte_array res" where
  "writeFint32 = write_fixed 4"

definition writeFuint32 :: "u32 \<Rightarrow> byte_array \<Rightarrow> byte_array res" where
  "writeFuint32 = write_fixed 4"

definition writeFint64 :: "u64 \<Rightarrow> byte_array \<Rightarrow> byte_array res" where
  "writeFint64 = write_fixed 8"

definition writeFuint64 :: "u64 \<Rightarrow> byte_array \<Rightarrow> byte_array res" where
  "writeFuint64 = write_fixed 8"

definition readFint8 :: "byte_array \<Rightarrow> (u8 \<times> byte_array) res" where
  "readFint8 ba = bindE (ba_read 1 ba) (\<lambda>(bs, ba'). Inr (hd bs, ba'))"

definition readFuint8 :: "byte_array \<Rightarrow> (u8 \<times> byte_array) res" where
  "readFuint8 ba = bindE (ba_read 1 ba) (\<lambda>(bs, ba'). Inr (hd bs, ba'))"

definition readFint16 :: "byte_array \<Rightarrow> (u16 \<times> byte_array) res" where
  "readFint16 = read_fixed 2"

definition readFuint16 :: "byte_array \<Rightarrow> (u16 \<times> byte_array) res" where
  "readFuint16 = read_fixed 2"

definition readFint32 :: "byte_array \<Rightarrow> (u32 \<times> byte_array) res" where
  "readFint32 = read_fixed 4"

definition readFuint32 :: "byte_array \<Rightarrow> (u32 \<times> byte_array) res" where
  "readFuint32 = read_fixed 4"

definition readFint64 :: "byte_array \<Rightarrow> (u64 \<times> byte_array) res" where
  "readFint64 = read_fixed 8"

definition readFuint64 :: "byte_array \<Rightarrow> (u64 \<times> byte_array) res" where
  "readFuint64 = read_fixed 8"

text \<open>\<open>float\<close> and \<open>double\<close> travel as the integer with the same bytes.\<close>

definition writeFloat :: "u32 \<Rightarrow> byte_array \<Rightarrow> byte_array res" where
  "writeFloat bits = writeFuint32 bits"

definition writeDouble :: "u64 \<Rightarrow> byte_array \<Rightarrow> byte_array res" where
  "writeDouble bits = writeFuint64 bits"

definition readFloat :: "byte_array \<Rightarrow> (u32 \<times> byte_array) res" where
  "readFloat = readFuint32"

definition readDouble :: "byte_array \<Rightarrow> (u64 \<times> byte_array) res" where
  "readDouble = readFuint64"

section \<open>Zigzag and variable-length integers\<close>

text \<open>
  \<open>EncodeZigzag32\<close> negates with two's complement wrap-around; the C++ expression \<open>-v\<close> is
  undefined for the least value only. \<open>EncodeZigzag64\<close> is declared to return \<open>uint32_t\<close>,
  so its 64-bit result is truncated.
\<close>

definition EncodeZigzag32 :: "u32 \<Rightarrow> u32" where
  "EncodeZigzag32 v = (if sint v < 0 then (- v) * 2 - 1 else v * 2)"

definition EncodeZigzag64 :: "u64 \<Rightarrow> u32" where
  "EncodeZigzag64 v = ucast (if sint v < 0 then (- v) * 2 - 1 else v * 2)"

definition DecodeZigzag32 :: "u32 \<Rightarrow> u32" where
  "DecodeZigzag32 v = xor (drop_bit 1 v) (- and v 1)"

definition DecodeZigzag64 :: "u64 \<Rightarrow> u64" where
  "DecodeZigzag64 v = xor (drop_bit 1 v) (- and v 1)"

function uvar_bytes :: "'a::len word \<Rightarrow> bytes" where
  "uvar_bytes value =
     (if unat value \<ge> 128 then or (ucast (and value 127)) 128 # uvar_bytes (drop_bit 7 value)
      else [ucast value])"
  by pat_completeness auto
termination
proof (relation "measure unat")
  fix v :: "'a word"
  assume "128 \<le> unat v"
  then have "unat v div 128 < unat v" by simp
  moreover have "unat (drop_bit 7 v) = unat v div 128"
    by (simp only: unat_drop_bit_eq) (simp add: drop_bit_eq_div)
  ultimately show "(drop_bit 7 v, v) \<in> measure unat" by simp
qed simp

declare uvar_bytes.simps [simp del]

definition writeUint32 :: "u32 \<Rightarrow> byte_array \<Rightarrow> byte_array res" where
  "writeUint32 value = ba_write (uvar_bytes value)"

definition writeInt32 :: "u32 \<Rightarrow> byte_array \<Rightarrow> byte_array res" where
  "writeInt32 value = writeUint32 (EncodeZigzag32 value)"

definition writeUint64 :: "u64 \<Rightarrow> byte_array \<Rightarrow> byte_array res" where
  "writeUint64 value = ba_write (uvar_bytes value)"

definition writeInt64 :: "u64 \<Rightarrow> byte_array \<Rightarrow> byte_array res" where
  "writeInt64 value = writeUint64 (ucast (EncodeZigzag64 value))"

text \<open>The loop \<open>for(int i = 0; i < lim; i += 7)\<close> of \<open>readUint32\<close> and \<open>readUint64\<close>.\<close>

function read_uvar :: "nat \<Rightarrow> nat \<Rightarrow> 'a::len word \<Rightarrow> byte_array \<Rightarrow> ('a word \<times> byte_array) res" where
  "read_uvar lim i result ba =
     (if i < lim then
        bindE (readFuint8 ba) (\<lambda>(b, ba').
          if b < 128 then Inr (or result (push_bit i (ucast b)), ba')
          else read_uvar lim (i + 7) (or result (push_bit i (ucast (and b 127)))) ba')
      else Inr (result, ba))"
  by pat_completeness auto
termination
  by (relation "measure (\<lambda>(lim, i, res, ba). lim - i)") auto

declare read_uvar.simps [simp del]

definition readUint32 :: "byte_array \<Rightarrow> (u32 \<times> byte_array) res" where
  "readUint32 = read_uvar 32 0 0"

definition readInt32 :: "byte_array \<Rightarrow> (u32 \<times> byte_array) res" where
  "readInt32 ba = bindE (readUint32 ba) (\<lambda>(v, ba'). Inr (DecodeZigzag32 v, ba'))"

definition readUint64 :: "byte_array \<Rightarrow> (u64 \<times> byte_array) res" where
  "readUint64 = read_uvar 64 0 0"

definition readInt64 :: "byte_array \<Rightarrow> (u64 \<times> byte_array) res" where
  "readInt64 ba = bindE (readUint64 ba) (\<lambda>(v, ba'). Inr (DecodeZigzag64 v, ba'))"

section \<open>Strings\<close>

definition writeStringF16 :: "bytes \<Rightarrow> byte_array \<Rightarrow> byte_array res" where
  "writeStringF16 value ba =
     bindE (writeFuint16 (of_nat (length value)) ba) (ba_write value)"

definition writeStringF32 :: "bytes \<Rightarrow> byte_array \<Rightarrow> byte_array res" where
  "writeStringF32 value ba =
     bindE (writeFuint32 (of_nat (length value)) ba) (ba_write value)"

definition writeStringF64 :: "bytes \<Rightarrow> byte_array \<Rightarrow> byte_array res" where
  "writeStringF64 value ba =
     bindE (writeFuint64 (of_nat (length value)) ba) (ba_write value)"

definition writeStringVint :: "bytes \<Rightarrow> byte_array \<Rightarrow> byte_array res" where
  "writeStringVint value ba =
     bindE (writeUint64 (of_nat (length value)) ba) (ba_write value)"

definition writeStringWithoutLength :: "bytes \<Rightarrow> byte_array \<Rightarrow> byte_array res" where
  "writeStringWithoutLength value = ba_write value"

definition readStringF16 :: "byte_array \<Rightarrow> (bytes \<times> byte_array) res" where
  "readStringF16 ba = bindE (readFuint16 ba) (\<lambda>(len, ba'). ba_read (unat len) ba')"

definition readStringF32 :: "byte_array \<Rightarrow> (bytes \<times> byte_array) res" where
  "readStringF32 ba = bindE (readFuint32 ba) (\<lambda>(len, ba'). ba_read (unat len) ba')"

definition readStringF64 :: "byte_array \<Rightarrow> (bytes \<times> byte_array) res" where
  "readStringF64 ba = bindE (readFuint64 ba) (\<lambda>(len, ba'). ba_read (unat len) ba')"

definition readStringVint :: "byte_array \<Rightarrow> (bytes \<times> byte_array) res" where
  "readStringVint ba = bindE (readUint64 ba) (\<lambda>(len, ba'). ba_read (unat len) ba')"

section \<open>The buffer keeps the channel contract\<close>

definition appending :: "byte_order \<Rightarrow> byte_array \<Rightarrow> bool" where
  "appending e ba \<longleftrightarrow> ba_wf ba \<and> ba_endian ba = e \<and> ba_pos ba = ba_size ba"

definition reading :: "byte_order \<Rightarrow> byte_array \<Rightarrow> bool" where
  "reading e ba \<longleftrightarrow> ba_wf ba \<and> ba_endian ba = e"

lemma ba_rest_nonempty: "ba_wf ba \<Longrightarrow> ba_rest ba \<noteq> [] \<Longrightarrow> ba_pos ba < ba_cap ba"
  using ba_wf_rest_length [of ba] length_greater_0_conv [of "ba_rest ba"]
  unfolding getReadSize_def ba_wf_def by linarith

interpretation ba_sink: byte_sink ba_write "appending e" ba_content for e
proof
  fix s :: byte_array and bs
  assume "appending e s"
  then have wf: "ba_wf s" and e: "ba_endian s = e" and pos: "ba_pos s = ba_size s"
    by (simp_all add: appending_def)
  have len: "length (ba_content s) = ba_pos s"
    using wf pos by (simp add: ba_wf_content_length)
  obtain s' where s': "ba_write bs s = Inr s'" "ba_wf s'" "ba_pos s' = ba_pos s + length bs"
    "ba_endian s' = ba_endian s" "ba_content s' = put_at (ba_pos s) bs (ba_content s)"
    using ba_write_ok [OF wf, of bs] by blast
  have "ba_content s' = ba_content s @ bs"
    using s' len by (simp add: put_at_def)
  moreover have "ba_size s' = ba_pos s'"
    using ba_wf_content_length [OF s'(2)] s'(3) len \<open>ba_content s' = ba_content s @ bs\<close> by simp
  ultimately show "\<exists>s'. ba_write bs s = Inr s' \<and> appending e s' \<and> ba_content s' = ba_content s @ bs"
    using s' e by (auto simp: appending_def)
qed

interpretation ba_source: byte_source ba_read "reading e" ba_rest for e
proof
  fix s :: byte_array and n
  assume "reading e s" and ne: "ba_rest s \<noteq> []" and n: "n \<le> length (ba_rest s)"
  then have wf: "ba_wf s" and e: "ba_endian s = e"
    by (simp_all add: reading_def)
  have size: "ba_pos s + n \<le> ba_size s"
    using wf n by (auto simp: ba_wf_rest_length getReadSize_def ba_wf_def)
  let ?s' = "s\<lparr>ba_pos := ba_pos s + n, ba_cur := (ba_pos s + n) div ba_base s\<rparr>"
  have "ba_read n s = Inr (take n (ba_rest s), ?s')"
    using wf n ba_rest_nonempty [OF wf ne] by (rule ba_read_ok)
  moreover have "ba_wf ?s'" "ba_rest ?s' = drop n (ba_rest s)"
    using ba_moved [OF wf size] by (simp_all add: ba_rest_def add.commute)
  ultimately show "\<exists>s'. ba_read n s = Inr (take n (ba_rest s), s') \<and> reading e s' \<and>
      ba_rest s' = drop n (ba_rest s)"
    using e by (auto simp: reading_def)
next
  fix s :: byte_array and n
  assume "reading e s" and "length (ba_rest s) < n"
  then show "ba_read n s = Inl OutOfRange"
    by (simp add: ba_read_short ba_wf_rest_length reading_def)
qed

section \<open>Fixed-width laws\<close>

text \<open>The bytes of an \<open>n\<close>-byte integer in byte order \<open>e\<close>.\<close>

definition fixed_bytes :: "nat \<Rightarrow> byte_order \<Rightarrow> 'a::len word \<Rightarrow> bytes" where
  "fixed_bytes n e w = (if e = host_order then le_bytes n w else rev (le_bytes n w))"

lemma length_fixed_bytes [simp]: "length (fixed_bytes n e w) = n"
  by (simp add: fixed_bytes_def)

lemma emits_write_fixed:
  assumes "LENGTH('a) = 8 * n"
  shows "emits (appending e) ba_content (write_fixed n (w :: 'a::len word)) (fixed_bytes n e w)"
proof -
  have "write_fixed n w ba = ba_write (fixed_bytes n e w) ba" if "appending e ba" for ba
    using that assms
    by (simp add: write_fixed_def fixed_bytes_def le_bytes_byteswap appending_def)
  then show ?thesis
    using ba_sink.sink_raw [of e "fixed_bytes n e w"] by (simp add: emits_def)
qed

lemma consumes_read_fixed:
  assumes n: "LENGTH('a) = 8 * n"
  shows "consumes (reading e) ba_rest (read_fixed n) (fixed_bytes n e w) (w :: 'a::len word) r"
proof -
  have "0 < n" using n by (cases n) auto
  then have raw: "consumes (reading e) ba_rest (ba_read n) (fixed_bytes n e w) (fixed_bytes n e w) r"
    by (intro ba_source.source_raw) (auto dest: arg_cong [of _ _ length])
  have val: "(if e = host_order then le_word (fixed_bytes n e w)
      else byteswap n (le_word (fixed_bytes n e w))) = w"
    using n le_bytes_byteswap [OF n, of w]
    by (auto simp: fixed_bytes_def byteswap_def le_word_le_bytes le_bytes_le_word)
  show ?thesis
    unfolding consumes_def
  proof (intro allI impI)
    fix s assume s: "reading e s \<and> ba_rest s = fixed_bytes n e w @ r"
    then obtain s' where "ba_read n s = Inr (fixed_bytes n e w, s')" "reading e s'" "ba_rest s' = r"
      using consumesD [OF raw] by blast
    then show "\<exists>s'. read_fixed n s = Inr (w, s') \<and> reading e s' \<and> ba_rest s' = r"
      using s val by (auto simp: read_fixed_def Let_def reading_def)
  qed
qed

lemma emits_fixed [codec]:
  "emits (appending e) ba_content (writeFint16 a) (fixed_bytes 2 e a)"
  "emits (appending e) ba_content (writeFuint16 a) (fixed_bytes 2 e a)"
  "emits (appending e) ba_content (writeFint32 b) (fixed_bytes 4 e b)"
  "emits (appending e) ba_content (writeFuint32 b) (fixed_bytes 4 e b)"
  "emits (appending e) ba_content (writeFint64 c) (fixed_bytes 8 e c)"
  "emits (appending e) ba_content (writeFuint64 c) (fixed_bytes 8 e c)"
  by (simp_all add: writeFint16_def writeFuint16_def writeFint32_def writeFuint32_def
      writeFint64_def writeFuint64_def emits_write_fixed)

lemma consumes_fixed [codec]:
  "consumes (reading e) ba_rest readFint16 (fixed_bytes 2 e a) a r"
  "consumes (reading e) ba_rest readFuint16 (fixed_bytes 2 e a) a r"
  "consumes (reading e) ba_rest readFint32 (fixed_bytes 4 e b) b r"
  "consumes (reading e) ba_rest readFuint32 (fixed_bytes 4 e b) b r"
  "consumes (reading e) ba_rest readFint64 (fixed_bytes 8 e c) c r"
  "consumes (reading e) ba_rest readFuint64 (fixed_bytes 8 e c) c r"
  by (simp_all add: readFint16_def readFuint16_def readFint32_def readFuint32_def
      readFint64_def readFuint64_def consumes_read_fixed)

lemma emits_byte [codec]:
  "emits (appending e) ba_content (writeFint8 b) [b]"
  "emits (appending e) ba_content (writeFuint8 b) [b]"
  by (simp_all add: writeFint8_def writeFuint8_def ba_sink.sink_raw)

lemma consumes_byte [codec]:
  "consumes (reading e) ba_rest readFint8 [b] b r"
  "consumes (reading e) ba_rest readFuint8 [b] b r"
  using consumes_map [OF ba_source.source_raw [of "[b]" r 1 e], of hd]
  by (simp_all add: readFint8_def [abs_def] readFuint8_def [abs_def])

lemma readFuint8_empty: "reading e ba \<Longrightarrow> ba_rest ba = [] \<Longrightarrow> readFuint8 ba = Inl OutOfRange"
  using ba_source.rd_short [of e ba 1] by (simp add: readFuint8_def)

section \<open>Variable-length laws\<close>

text \<open>The bytes fit the stack buffers of the writers: 5 for 32 bits, 10 for 64 bits.\<close>

lemma uvar_bytes_length:
  "unat (w :: 'a::len word) < 128 ^ k \<Longrightarrow> 0 < k \<Longrightarrow> length (uvar_bytes w) \<le> k"
proof (induction k arbitrary: w)
  case (Suc k)
  show ?case
  proof (cases "unat w \<ge> 128")
    case True
    then have "0 < k" using Suc.prems by (cases k) auto
    moreover have "unat (drop_bit 7 w) = unat w div 128"
      by (simp only: unat_drop_bit_eq) (simp add: drop_bit_eq_div)
    then have "unat (drop_bit 7 w) < 128 ^ k"
      using Suc.prems by (simp add: less_mult_imp_div_less mult.commute)
    ultimately show ?thesis
      using Suc.IH True by (simp add: uvar_bytes.simps [of w])
  next
    case False
    then show ?thesis by (simp add: uvar_bytes.simps [of w])
  qed
qed simp

lemma uvar_bytes_nonempty [simp]: "uvar_bytes w \<noteq> []"
  by (subst uvar_bytes.simps) simp

lemma uvar_step_bits:
  fixes v :: "'a::len word"
  shows "or (take_bit i v) (push_bit i (ucast (and (or (ucast (and (drop_bit i v) 127)) 128 :: u8) 127)))
    = take_bit (i + 7) v"
proof (rule bit_word_eqI)
  fix j assume j: "j < LENGTH('a)"
  have m: "bit (127 :: int) k \<longleftrightarrow> k < 7" "bit (128 :: int) k \<longleftrightarrow> k = 7" for k
  proof -
    have "(127 :: int) = mask 7" "(128 :: int) = 2 ^ 7"
      by (simp_all add: mask_eq_exp_minus_1)
    then show "bit (127 :: int) k \<longleftrightarrow> k < 7" "bit (128 :: int) k \<longleftrightarrow> k = 7"
      by (auto simp only: bit_mask_iff bit_exp_iff) auto
  qed
  show "bit (or (take_bit i v)
      (push_bit i (ucast (and (or (ucast (and (drop_bit i v) 127)) 128 :: u8) 127)))) j \<longleftrightarrow>
    bit (take_bit (i + 7) v) j"
    using j by (auto simp: bit_simps m)
qed

lemma uvar_last_bits:
  fixes v :: "'a::len word"
  assumes "unat (drop_bit i v) < 128"
  shows "or (take_bit i v) (push_bit i (ucast (ucast (drop_bit i v) :: u8))) = v"
proof (rule bit_word_eqI)
  fix j assume j: "j < LENGTH('a)"
  have "take_bit 7 (unat (drop_bit i v)) = unat (drop_bit i v)"
    using assms by (simp add: take_bit_nat_eq_self)
  then have "bit (unat (drop_bit i v)) k \<Longrightarrow> k < 7" for k
    by (metis bit_take_bit_iff)
  then have high: "bit (drop_bit i v) k \<Longrightarrow> k < 7" for k
    by (simp add: bit_unsigned_iff)
  have "i \<le> j \<Longrightarrow> bit v j \<Longrightarrow> j - i < 8"
    using high [of "j - i"] by (simp add: bit_drop_bit_eq)
  then show "bit (or (take_bit i v) (push_bit i (ucast (ucast (drop_bit i v) :: u8)))) j \<longleftrightarrow> bit v j"
    using j by (auto simp: bit_simps)
qed

lemma uvar_last_small:
  "unat (w :: 'a::len word) < 128 \<Longrightarrow> (ucast w :: u8) < 128"
  by (simp add: word_less_nat_alt unsigned_ucast_eq unsigned_take_bit_eq take_bit_nat_eq_self)

lemma uvar_more_large: "\<not> or b 128 < (128 :: u8)"
  using le_word_or2 [of 128 b] by (simp add: not_less or.commute)

lemma consumes_read_uvar:
  fixes v :: "'a::len word"
  assumes "i < LENGTH('a)"
  shows "consumes (reading e) ba_rest (read_uvar LENGTH('a) i (take_bit i v))
    (uvar_bytes (drop_bit i v)) v r"
  using assms
proof (induction "LENGTH('a) - i" arbitrary: i rule: less_induct)
  case less
  let ?w = "drop_bit i v"
  show ?case
    unfolding consumes_def
  proof (intro allI impI)
    fix s assume s: "reading e s \<and> ba_rest s = uvar_bytes ?w @ r"
    show "\<exists>s'. read_uvar LENGTH('a) i (take_bit i v) s = Inr (v, s') \<and> reading e s' \<and> ba_rest s' = r"
    proof (cases "unat ?w < 128")
      case True
      then have "uvar_bytes ?w = [ucast ?w]"
        by (simp add: uvar_bytes.simps [of ?w])
      then obtain s' where "readFuint8 s = Inr (ucast ?w, s')" "reading e s'" "ba_rest s' = r"
        using consumesD [OF consumes_byte(2), of e s "ucast ?w" r] s by auto
      then show ?thesis
        using less.prems uvar_last_small [OF True] uvar_last_bits [OF True]
        by (simp add: read_uvar.simps [of _ i])
    next
      case False
      let ?b = "or (ucast (and ?w 127)) 128 :: u8"
      let ?i = "i + 7"
      have "uvar_bytes ?w = ?b # uvar_bytes (drop_bit ?i v)"
        using False by (simp add: uvar_bytes.simps [of ?w] add.commute)
      then obtain s1 where s1: "readFuint8 s = Inr (?b, s1)" "reading e s1"
        "ba_rest s1 = uvar_bytes (drop_bit ?i v) @ r"
        using consumesD [OF consumes_byte(2), of e s ?b "uvar_bytes (drop_bit ?i v) @ r"] s by auto
      have "?i < LENGTH('a)"
      proof (rule ccontr)
        assume "\<not> ?i < LENGTH('a)"
        then have "(2::nat) ^ LENGTH('a) \<le> 2 ^ i * 128"
          using power_increasing [of "LENGTH('a)" "i + 7" "2::nat"] by (simp add: power_add)
        moreover have "unat v < 2 ^ LENGTH('a)"
          by (rule unsigned_less)
        ultimately have "unat v < 128 * 2 ^ i"
          by linarith
        then have "unat v div 2 ^ i < 128"
          by (rule less_mult_imp_div_less)
        moreover have "unat ?w = unat v div 2 ^ i"
          by (simp only: unat_drop_bit_eq) (simp add: drop_bit_eq_div)
        ultimately show False using False by simp
      qed
      then have step: "consumes (reading e) ba_rest (read_uvar LENGTH('a) ?i (take_bit ?i v))
          (uvar_bytes (drop_bit ?i v)) v r"
        using less.hyps [of ?i] less.prems by simp
      then obtain s2 where "read_uvar LENGTH('a) ?i (take_bit ?i v) s1 = Inr (v, s2)"
        "reading e s2" "ba_rest s2 = r"
        using consumesD [OF step s1(2) s1(3)] by blast
      then show ?thesis
        using s1 less.prems uvar_more_large uvar_step_bits [of i v]
        by (simp add: read_uvar.simps [of _ i])
    qed
  qed
qed

lemma emits_uvar [codec]:
  "emits (appending e) ba_content (writeUint32 a) (uvar_bytes a)"
  "emits (appending e) ba_content (writeUint64 b) (uvar_bytes b)"
  by (simp_all add: writeUint32_def writeUint64_def ba_sink.sink_raw)

lemma consumes_uvar [codec]:
  "consumes (reading e) ba_rest readUint32 (uvar_bytes a) a r"
  "consumes (reading e) ba_rest readUint64 (uvar_bytes b) b r"
  using consumes_read_uvar [of 0 e a r] consumes_read_uvar [of 0 e b r]
  by (simp_all add: readUint32_def readUint64_def)

text \<open>Zigzag decoding inverts encoding at any width, the least value included.\<close>

lemma zigzag_inverse:
  fixes v :: "'a::len word"
  assumes "1 < LENGTH('a)"
  defines "z \<equiv> if sint v < 0 then (- v) * 2 - 1 else v * 2"
  shows "xor (drop_bit 1 z) (- and z 1) = v"
proof (cases "sint v < 0")
  case True
  have "z = not (push_bit 1 v)"
    using True by (simp add: z_def not_eq_complement push_bit_eq_mult)
  moreover have "bit v (LENGTH('a) - 1)"
    using True by (simp add: bit_last_iff)
  ultimately show ?thesis
  proof (intro bit_word_eqI)
    fix j assume z: "z = not (push_bit 1 v)" and top: "bit v (LENGTH('a) - 1)"
      and j: "j < LENGTH('a)"
    have one: "and z 1 = 1"
      unfolding z
      by (rule bit_word_eqI) (auto simp only: bit_and_iff bit_not_iff bit_push_bit_iff bit_1_iff
          possible_bit_word)
    have "bit v j" if "\<not> Suc j < LENGTH('a)"
      using that j top by (metis Suc_lessI diff_Suc_1)
    moreover have "bit (not v) j \<longleftrightarrow> \<not> bit v j"
      using j by (simp add: bit_not_iff)
    moreover have "bit (drop_bit 1 z) j \<longleftrightarrow> Suc j < LENGTH('a) \<and> \<not> bit v j"
      unfolding z using j
      by (auto simp only: bit_drop_bit_eq o_apply bit_not_iff bit_push_bit_iff possible_bit_word
          plus_1_eq_Suc diff_Suc_1)
    ultimately show "bit (xor (drop_bit 1 z) (- and z 1)) j \<longleftrightarrow> bit v j"
      unfolding one using j by (auto simp only: bit_xor_iff bit_minus_1_iff possible_bit_word)
  qed
next
  case False
  have z: "z = push_bit 1 v"
    using False by (simp add: z_def push_bit_eq_mult)
  have top: "\<not> bit v (LENGTH('a) - 1)"
    using False by (simp add: bit_last_iff)
  show ?thesis
  proof (rule bit_word_eqI)
    fix j assume j: "j < LENGTH('a)"
    have zero: "and z 1 = 0"
      unfolding z by (rule bit_word_eqI) (auto simp only: bit_and_iff bit_push_bit_iff bit_1_iff bit_0_eq)
    have "\<not> bit v j" if "\<not> Suc j < LENGTH('a)"
      using that j top by (metis Suc_lessI diff_Suc_1)
    moreover have "bit (drop_bit 1 z) j \<longleftrightarrow> Suc j < LENGTH('a) \<and> bit v j"
      unfolding z using j
      by (auto simp only: bit_drop_bit_eq o_apply bit_push_bit_iff possible_bit_word
          plus_1_eq_Suc diff_Suc_1)
    moreover have "xor (drop_bit 1 z) (- and z 1) = drop_bit 1 z"
      by (simp only: zero minus_zero xor.right_neutral)
    ultimately show "bit (xor (drop_bit 1 z) (- and z 1)) j \<longleftrightarrow> bit v j"
      by auto
  qed
qed

lemma DecodeZigzag32_Encode: "DecodeZigzag32 (EncodeZigzag32 v) = v"
  using zigzag_inverse [of v] by (simp add: DecodeZigzag32_def EncodeZigzag32_def)

end
