(* ===== verification/ByteArraySpec.thy ===== *)
theory ByteArraySpec
  imports ByteArray
begin

text \<open>
  What the buffer of \<open>src/ByteArray.cpp\<close> promises: a flat file with a cursor. \<open>ba_exec\<close> runs
  one public operation of the model, \<open>file_step\<close> is the abstract file, and the two are related
  by the bytes written so far and the position.
\<close>

datatype ba_op = OpWrite bytes | OpRead nat | OpSeek nat | OpClear | OpEndian bool

fun ba_exec :: "ba_op \<Rightarrow> byte_array \<Rightarrow> (bytes \<times> byte_array) res" where
  "ba_exec (OpWrite bs) ba = bindE (ba_write bs ba) (\<lambda>ba'. Inr ([], ba'))"
| "ba_exec (OpRead n) ba = ba_read n ba"
| "ba_exec (OpSeek v) ba = bindE (setPosition v ba) (\<lambda>ba'. Inr ([], ba'))"
| "ba_exec OpClear ba = Inr ([], ba_clear ba)"
| "ba_exec (OpEndian l) ba = Inr ([], setIsLittleEndian l ba)"

fun ba_run :: "ba_op list \<Rightarrow> byte_array \<Rightarrow> (bytes \<times> byte_array) res" where
  "ba_run [] ba = Inr ([], ba)"
| "ba_run (op # ops) ba =
     bindE (ba_exec op ba) (\<lambda>(out, ba').
       bindE (ba_run ops ba') (\<lambda>(outs, ba''). Inr (out @ outs, ba'')))"

text \<open>
  The abstract file: its bytes and the cursor. A seek past the end lengthens the file with
  bytes that nobody wrote, so it leaves them open.
\<close>

inductive file_step :: "ba_op \<Rightarrow> bytes \<times> nat \<Rightarrow> bytes \<Rightarrow> bytes \<times> nat \<Rightarrow> bool" where
  file_write: "file_step (OpWrite bs) (c, p) [] (put_at p bs c, p + length bs)"
| file_read: "p + n \<le> length c \<Longrightarrow> file_step (OpRead n) (c, p) (sub_bytes p n c) (c, p + n)"
| file_seek: "take (length c) c' = c \<Longrightarrow> length c' = max (length c) v \<Longrightarrow>
     file_step (OpSeek v) (c, p) [] (c', v)"
| file_clear: "file_step OpClear (c, p) [] ([], 0)"
| file_endian: "file_step (OpEndian l) (c, p) [] (c, p)"

inductive file_run :: "ba_op list \<Rightarrow> bytes \<times> nat \<Rightarrow> bytes \<Rightarrow> bytes \<times> nat \<Rightarrow> bool" where
  file_done: "file_run [] f [] f"
| file_more: "file_step op f out f' \<Longrightarrow> file_run ops f' outs f'' \<Longrightarrow>
     file_run (op # ops) f (out @ outs) f''"

definition ba_file :: "byte_array \<Rightarrow> bytes \<times> nat" where
  "ba_file ba = (ba_content ba, ba_pos ba)"

lemma setPosition_range:
  "ba_wf ba \<Longrightarrow> setPosition v ba = Inr ba' \<longleftrightarrow> v \<le> ba_cap ba \<and>
   ba' = ba\<lparr>ba_pos := v, ba_size := max (ba_size ba) v, ba_cur := v div ba_base ba\<rparr>"
  using setPosition_ok [of ba v] by (cases "v \<le> ba_cap ba") (auto simp: setPosition_def)

lemma ba_read_range:
  assumes "ba_wf ba" and "ba_read n ba = Inr (out, ba')"
  shows "n \<le> length (ba_rest ba)" "ba_pos ba < ba_cap ba"
proof -
  show n: "n \<le> length (ba_rest ba)"
    using assms by (auto simp: ba_read_def ba_wf_rest_length split: if_splits)
  show "ba_pos ba < ba_cap ba"
  proof (rule ccontr)
    assume "\<not> ba_pos ba < ba_cap ba"
    then have "ba_pos ba = ba_cap ba" using assms by (auto simp: ba_wf_def)
    moreover have "getReadSize ba = 0"
      using assms calculation by (auto simp: getReadSize_def ba_wf_def)
    ultimately show False
      using assms ba_read_null [of ba] n by (auto simp: ba_wf_rest_length)
  qed
qed

lemma ba_exec_refines:
  assumes wf: "ba_wf ba" and run: "ba_exec op ba = Inr (out, ba')"
  shows "ba_wf ba' \<and> file_step op (ba_file ba) out (ba_file ba')"
proof (cases op)
  case (OpWrite bs)
  obtain ba1 where "ba_write bs ba = Inr ba1" "ba_wf ba1" "ba_pos ba1 = ba_pos ba + length bs"
    "ba_content ba1 = put_at (ba_pos ba) bs (ba_content ba)"
    using ba_write_ok [OF wf, of bs] by blast
  then show ?thesis
    using run OpWrite by (auto simp: ba_file_def intro: file_write)
next
  case (OpRead n)
  then have read: "ba_read n ba = Inr (out, ba')"
    using run by simp
  note range = ba_read_range [OF wf read]
  have size: "ba_pos ba + n \<le> ba_size ba"
    using range wf by (auto simp: ba_wf_rest_length getReadSize_def ba_wf_def)
  let ?ba1 = "ba\<lparr>ba_pos := ba_pos ba + n, ba_cur := (ba_pos ba + n) div ba_base ba\<rparr>"
  have eq: "out = take n (ba_rest ba)" "ba' = ?ba1"
    using ba_read_ok [OF wf range] read by auto
  have "file_step (OpRead n) (ba_content ba, ba_pos ba)
      (sub_bytes (ba_pos ba) n (ba_content ba)) (ba_content ba, ba_pos ba + n)"
    using size wf by (intro file_read) (simp add: ba_wf_content_length)
  moreover have "ba_wf ?ba1" "ba_file ?ba1 = (ba_content ba, ba_pos ba + n)"
    using ba_moved [OF wf size] by (simp_all add: ba_file_def ba_content_def)
  ultimately show ?thesis
    using eq OpRead by (simp add: ba_file_def ba_rest_def sub_bytes_def)
next
  case (OpSeek v)
  then obtain ba1 where seek: "setPosition v ba = Inr ba1" and ba': "ba' = ba1" "out = []"
    using run by (auto simp: bindE_Inr_iff)
  then have v: "v \<le> ba_cap ba"
    and ba1: "ba1 = ba\<lparr>ba_pos := v, ba_size := max (ba_size ba) v, ba_cur := v div ba_base ba\<rparr>"
    using wf by (simp_all add: setPosition_range)
  have wf1: "ba_wf ba1"
    using wf seek by (rule setPosition_wf)
  have "ba_size ba \<le> ba_cap ba"
    using wf by (simp add: ba_wf_def)
  then have "length (ba_content ba1) = max (length (ba_content ba)) v"
    "take (length (ba_content ba)) (ba_content ba1) = ba_content ba"
    using wf wf1 ba_wf_flat_length [OF wf]
    using v by (auto simp: ba_wf_content_length ba1 ba_content_def min_def max_def)
  then show ?thesis
    using OpSeek ba' wf1 file_seek [of "ba_content ba" "ba_content ba1" v "ba_pos ba"]
    by (simp add: ba_file_def ba1)
next
  case OpClear
  then show ?thesis
    using run ba_clear_wf [OF wf] by (auto simp: ba_file_def intro: file_clear)
next
  case (OpEndian l)
  then show ?thesis
    using run wf
    by (auto simp: ba_file_def setIsLittleEndian_def ba_content_def ba_wf_def intro: file_endian)
qed

text \<open>C1: a buffer that starts empty behaves as a flat file under any sequence of writes, reads,
  seeks, clears and byte-order changes that raises no error: its node chain stays well formed
  and the bytes it returns are those the abstract file returns.\<close>

theorem buffer_refines_file:
  assumes "0 < base" and "ba_run ops (new_byte_array mem base) = Inr (out, ba)"
  shows "ba_wf ba \<and> file_run ops ([], 0) out (ba_file ba)"
proof -
  have gen: "ba_wf ba0 \<Longrightarrow> ba_run ops ba0 = Inr (out, ba) \<Longrightarrow>
      ba_wf ba \<and> file_run ops (ba_file ba0) out (ba_file ba)" for ba0
  proof (induction ops arbitrary: ba0 out)
    case Nil
    then show ?case by (auto intro: file_done)
  next
    case (Cons op ops)
    then obtain o1 ba1 o2 where "ba_exec op ba0 = Inr (o1, ba1)" "ba_run ops ba1 = Inr (o2, ba)"
      "out = o1 @ o2"
      by (auto simp: bindE_Inr_iff)
    then show ?case
      using Cons.IH [of ba1 o2] ba_exec_refines [OF Cons.prems(1)] by (auto intro: file_more)
  qed
  have "ba_file (new_byte_array mem base) = ([], 0)"
    by (simp add: ba_file_def new_byte_array_empty)
  then show ?thesis
    using gen [OF new_byte_array_wf [OF assms(1)] assms(2)] by simp
qed

theorem buffer_refines_file_witness:
  "\<exists>out ba. ba_run [OpWrite [1, 2, 3], OpSeek 1, OpRead 2] (new_byte_array (\<lambda>_. 0) 2) = Inr (out, ba) \<and>
     ba_wf ba \<and> file_run [OpWrite [1, 2, 3], OpSeek 1, OpRead 2] ([], 0) out (ba_file ba)"
proof -
  have "\<exists>out ba. ba_run [OpWrite [1, 2, 3], OpSeek 1, OpRead 2] (new_byte_array (\<lambda>_. 0) 2) = Inr (out, ba)"
    by (simp add: new_byte_array_def fresh_node_def ba_write_def ba_read_def addCapacity_def
        write_loop.simps read_loop.simps setPosition_def seek_node.simps node_at_def
        getCapcity_def getReadSize_def ceil_div_def Let_def upt_conv_Cons)
  then show ?thesis
    using buffer_refines_file [of 2 _ "\<lambda>_. 0"] by fastforce
qed

text \<open>C40: on a well-formed buffer a write never fails, a read fails by \<open>out_of_range\<close> exactly
  when it asks for more than is left, and a seek fails exactly beyond the capacity. The one
  other failure is a read of zero bytes at the very end of the chain, where the current node
  pointer is null and the code dereferences it.\<close>

theorem buffer_errors:
  assumes wf: "ba_wf ba"
  shows "ba_exec op ba = Inl e \<longleftrightarrow>
    (case op of
       OpRead n \<Rightarrow> e = OutOfRange \<and> getReadSize ba < n \<or>
         e = NullDeref \<and> n = 0 \<and> ba_pos ba = ba_cap ba
     | OpSeek v \<Rightarrow> e = OutOfRange \<and> ba_cap ba < v
     | _ \<Rightarrow> False)"
proof (cases op)
  case (OpRead n)
  have "ba_pos ba \<le> ba_size ba" "ba_size ba \<le> ba_cap ba"
    using wf by (simp_all add: ba_wf_def)
  then consider "getReadSize ba < n" | "n \<le> getReadSize ba" "ba_pos ba < ba_cap ba"
    | "n = 0" "ba_pos ba = ba_cap ba"
    unfolding getReadSize_def by linarith
  then show ?thesis
  proof cases
    case 1
    then show ?thesis using OpRead by (auto simp: ba_read_short)
  next
    case 2
    then show ?thesis using OpRead ba_read_ok [OF wf, of n] wf
      by (auto simp: ba_wf_rest_length)
  next
    case 3
    then show ?thesis using OpRead ba_read_null [OF wf] by auto
  qed
next
  case (OpWrite bs)
  then show ?thesis using ba_write_ok [OF wf, of bs] by auto
next
  case (OpSeek v)
  then show ?thesis
    using setPosition_ok [OF wf, of v] by (cases "v \<le> ba_cap ba") (auto simp: setPosition_def)
qed simp_all

theorem buffer_errors_witness:
  "ba_exec (OpRead 0) (new_byte_array (\<lambda>_. 0) 1\<lparr>ba_pos := 1, ba_size := 1, ba_cur := 1\<rparr>) = Inl NullDeref"
proof -
  have "ba_wf (new_byte_array (\<lambda>_. 0) 1\<lparr>ba_pos := 1, ba_size := 1, ba_cur := 1\<rparr>)"
    by (simp add: ba_wf_def new_byte_array_def)
  then show ?thesis
    using buffer_errors [of "new_byte_array (\<lambda>_. 0) 1\<lparr>ba_pos := 1, ba_size := 1, ba_cur := 1\<rparr>"
        "OpRead 0" NullDeref]
    by (simp add: new_byte_array_def)
qed

end
