(* ===== verification/CodecRoundtrip.thy ===== *)
theory CodecRoundtrip
  imports ByteArrayCodec ByteArraySpec
begin

text \<open>
  What the typed operations of \<open>src/ByteArray.cpp\<close> promise together: any sequence of typed
  values is read back as it was written, and a truncated buffer is reported. The signed 64-bit
  variable-length integer is stated apart, because its encoder returns 32 bits.
\<close>

section \<open>String laws\<close>

lemma emits_string [codec]:
  "emits (appending e) ba_content (writeStringF16 bs) (fixed_bytes 2 e (of_nat (length bs) :: u16) @ bs)"
  "emits (appending e) ba_content (writeStringF32 bs) (fixed_bytes 4 e (of_nat (length bs) :: u32) @ bs)"
  "emits (appending e) ba_content (writeStringF64 bs) (fixed_bytes 8 e (of_nat (length bs) :: u64) @ bs)"
  "emits (appending e) ba_content (writeStringVint bs) (uvar_bytes (of_nat (length bs) :: u64) @ bs)"
  by (simp_all add: writeStringF16_def [abs_def] writeStringF32_def [abs_def]
      writeStringF64_def [abs_def] writeStringVint_def [abs_def] ba_sink.sink_prefixed codec)

lemma consumes_string:
  assumes "bs @ r \<noteq> []"
  shows "length bs < 2 ^ 16 \<Longrightarrow> consumes (reading e) ba_rest readStringF16
      (fixed_bytes 2 e (of_nat (length bs) :: u16) @ bs) bs r"
    and "length bs < 2 ^ 32 \<Longrightarrow> consumes (reading e) ba_rest readStringF32
      (fixed_bytes 4 e (of_nat (length bs) :: u32) @ bs) bs r"
    and "length bs < 2 ^ 64 \<Longrightarrow> consumes (reading e) ba_rest readStringF64
      (fixed_bytes 8 e (of_nat (length bs) :: u64) @ bs) bs r"
    and "length bs < 2 ^ 64 \<Longrightarrow> consumes (reading e) ba_rest readStringVint
      (uvar_bytes (of_nat (length bs) :: u64) @ bs) bs r"
  unfolding readStringF16_def [abs_def] readStringF32_def [abs_def]
    readStringF64_def [abs_def] readStringVint_def [abs_def]
  using assms by (auto intro!: ba_source.source_prefixed codec simp: unat_of_nat)

section \<open>Sequences of typed values\<close>

datatype item =
    I8 u8 | I16 u16 | I32 u32 | I64 u64 | VI32 u32 | VU32 u32 | VU64 u64
  | S16 bytes | S32 bytes | S64 bytes | SV bytes

fun write_item :: "item \<Rightarrow> byte_array \<Rightarrow> byte_array res" where
  "write_item (I8 a) = writeFuint8 a"
| "write_item (I16 a) = writeFuint16 a"
| "write_item (I32 a) = writeFuint32 a"
| "write_item (I64 a) = writeFuint64 a"
| "write_item (VI32 a) = writeInt32 a"
| "write_item (VU32 a) = writeUint32 a"
| "write_item (VU64 a) = writeUint64 a"
| "write_item (S16 bs) = writeStringF16 bs"
| "write_item (S32 bs) = writeStringF32 bs"
| "write_item (S64 bs) = writeStringF64 bs"
| "write_item (SV bs) = writeStringVint bs"

text \<open>The reader is told the type of each value by an item of that type.\<close>

fun read_like :: "item \<Rightarrow> byte_array \<Rightarrow> (item \<times> byte_array) res" where
  "read_like (I8 _) ba = bindE (readFuint8 ba) (\<lambda>(a, ba). Inr (I8 a, ba))"
| "read_like (I16 _) ba = bindE (readFuint16 ba) (\<lambda>(a, ba). Inr (I16 a, ba))"
| "read_like (I32 _) ba = bindE (readFuint32 ba) (\<lambda>(a, ba). Inr (I32 a, ba))"
| "read_like (I64 _) ba = bindE (readFuint64 ba) (\<lambda>(a, ba). Inr (I64 a, ba))"
| "read_like (VI32 _) ba = bindE (readInt32 ba) (\<lambda>(a, ba). Inr (VI32 a, ba))"
| "read_like (VU32 _) ba = bindE (readUint32 ba) (\<lambda>(a, ba). Inr (VU32 a, ba))"
| "read_like (VU64 _) ba = bindE (readUint64 ba) (\<lambda>(a, ba). Inr (VU64 a, ba))"
| "read_like (S16 _) ba = bindE (readStringF16 ba) (\<lambda>(a, ba). Inr (S16 a, ba))"
| "read_like (S32 _) ba = bindE (readStringF32 ba) (\<lambda>(a, ba). Inr (S32 a, ba))"
| "read_like (S64 _) ba = bindE (readStringF64 ba) (\<lambda>(a, ba). Inr (S64 a, ba))"
| "read_like (SV _) ba = bindE (readStringVint ba) (\<lambda>(a, ba). Inr (SV a, ba))"

fun write_items :: "item list \<Rightarrow> byte_array \<Rightarrow> byte_array res" where
  "write_items [] ba = Inr ba"
| "write_items (x # xs) ba = bindE (write_item x ba) (write_items xs)"

fun read_items :: "item list \<Rightarrow> byte_array \<Rightarrow> (item list \<times> byte_array) res" where
  "read_items [] ba = Inr ([], ba)"
| "read_items (x # xs) ba =
     bindE (read_like x ba) (\<lambda>(y, ba). bindE (read_items xs ba) (\<lambda>(ys, ba). Inr (y # ys, ba)))"

fun item_bytes :: "byte_order \<Rightarrow> item \<Rightarrow> bytes" where
  "item_bytes e (I8 a) = [a]"
| "item_bytes e (I16 a) = fixed_bytes 2 e a"
| "item_bytes e (I32 a) = fixed_bytes 4 e a"
| "item_bytes e (I64 a) = fixed_bytes 8 e a"
| "item_bytes e (VI32 a) = uvar_bytes (EncodeZigzag32 a)"
| "item_bytes e (VU32 a) = uvar_bytes a"
| "item_bytes e (VU64 a) = uvar_bytes a"
| "item_bytes e (S16 bs) = fixed_bytes 2 e (of_nat (length bs) :: u16) @ bs"
| "item_bytes e (S32 bs) = fixed_bytes 4 e (of_nat (length bs) :: u32) @ bs"
| "item_bytes e (S64 bs) = fixed_bytes 8 e (of_nat (length bs) :: u64) @ bs"
| "item_bytes e (SV bs) = uvar_bytes (of_nat (length bs) :: u64) @ bs"

lemma read_like_abs:
  "read_like (I8 a) = (\<lambda>ba. bindE (readFuint8 ba) (\<lambda>(a, ba). Inr (I8 a, ba)))"
  "read_like (I16 b) = (\<lambda>ba. bindE (readFuint16 ba) (\<lambda>(a, ba). Inr (I16 a, ba)))"
  "read_like (I32 c) = (\<lambda>ba. bindE (readFuint32 ba) (\<lambda>(a, ba). Inr (I32 a, ba)))"
  "read_like (I64 d) = (\<lambda>ba. bindE (readFuint64 ba) (\<lambda>(a, ba). Inr (I64 a, ba)))"
  "read_like (VI32 c) = (\<lambda>ba. bindE (readInt32 ba) (\<lambda>(a, ba). Inr (VI32 a, ba)))"
  "read_like (VU32 c) = (\<lambda>ba. bindE (readUint32 ba) (\<lambda>(a, ba). Inr (VU32 a, ba)))"
  "read_like (VU64 d) = (\<lambda>ba. bindE (readUint64 ba) (\<lambda>(a, ba). Inr (VU64 a, ba)))"
  "read_like (S16 s) = (\<lambda>ba. bindE (readStringF16 ba) (\<lambda>(a, ba). Inr (S16 a, ba)))"
  "read_like (S32 s) = (\<lambda>ba. bindE (readStringF32 ba) (\<lambda>(a, ba). Inr (S32 a, ba)))"
  "read_like (S64 s) = (\<lambda>ba. bindE (readStringF64 ba) (\<lambda>(a, ba). Inr (S64 a, ba)))"
  "read_like (SV s) = (\<lambda>ba. bindE (readStringVint ba) (\<lambda>(a, ba). Inr (SV a, ba)))"
  by (rule ext, simp)+

text \<open>A string must fit its length field.\<close>

fun item_ok :: "item \<Rightarrow> bool" where
  "item_ok (S16 bs) \<longleftrightarrow> length bs < 2 ^ 16"
| "item_ok (S32 bs) \<longleftrightarrow> length bs < 2 ^ 32"
| "item_ok (S64 bs) \<longleftrightarrow> length bs < 2 ^ 64"
| "item_ok (SV bs) \<longleftrightarrow> length bs < 2 ^ 64"
| "item_ok _ \<longleftrightarrow> True"

definition empty_string :: "item \<Rightarrow> bool" where
  "empty_string x \<longleftrightarrow> x \<in> {S16 [], S32 [], S64 [], SV []}"

lemma fixed_bytes_nonempty: "0 < n \<Longrightarrow> fixed_bytes n e w \<noteq> []"
  using length_fixed_bytes [of n e w] by (metis less_irrefl list.size(3))

lemma item_bytes_nonempty: "item_bytes e x \<noteq> []"
  by (cases x) (auto simp: fixed_bytes_nonempty)

lemma emits_item: "emits (appending e) ba_content (write_item x) (item_bytes e x)"
  by (cases x) (simp_all add: codec writeInt32_def)

lemma consumes_item:
  assumes "item_ok x" and "\<not> empty_string x \<or> r \<noteq> []"
  shows "consumes (reading e) ba_rest (read_like x) (item_bytes e x) x r"
proof (cases x)
  case (VI32 a)
  have "consumes (reading e) ba_rest readInt32 (uvar_bytes (EncodeZigzag32 a)) a r"
    using consumes_map [OF consumes_uvar(1) [of e "EncodeZigzag32 a" r], of DecodeZigzag32]
    by (simp add: readInt32_def [abs_def] DecodeZigzag32_Encode)
  from consumes_map [OF this, of VI32] show ?thesis
    by (simp add: VI32 read_like_abs)
qed (use assms in \<open>auto simp: empty_string_def read_like_abs intro!: consumes_map consumes_string codec\<close>)

lemma emits_items: "emits (appending e) ba_content (write_items xs) (concat (map (item_bytes e) xs))"
proof (induction xs)
  case Nil
  then show ?case by (simp add: emits_def)
next
  case (Cons x xs)
  have "write_items (x # xs) = (\<lambda>ba. bindE (write_item x ba) (write_items xs))"
    by (rule ext) simp
  then show ?case
    using emits_seq [OF emits_item Cons.IH] by simp
qed

lemma consumes_items:
  "list_all item_ok xs \<Longrightarrow> xs = [] \<or> \<not> empty_string (last xs) \<or> r \<noteq> [] \<Longrightarrow>
   consumes (reading e) ba_rest (read_items xs) (concat (map (item_bytes e) xs)) xs r"
proof (induction xs)
  case Nil
  then show ?case by (simp add: consumes_def)
next
  case (Cons x xs)
  have "concat (map (item_bytes e) xs) @ r \<noteq> []" if "\<not> (\<not> empty_string x)"
    using Cons.prems that item_bytes_nonempty by (cases xs) auto
  then have "consumes (reading e) ba_rest (read_like x) (item_bytes e x) x
      (concat (map (item_bytes e) xs) @ r)"
    using Cons.prems by (intro consumes_item) auto
  moreover have "consumes (reading e) ba_rest (read_items xs) (concat (map (item_bytes e) xs)) xs r"
    using Cons.prems by (intro Cons.IH) (auto split: if_splits)
  ultimately have "consumes (reading e) ba_rest
      (\<lambda>s. bindE (read_like x s) (\<lambda>(y, s). bindE (read_items xs s) (\<lambda>(ys, s). Inr (y # ys, s))))
      (item_bytes e x @ concat (map (item_bytes e) xs)) (x # xs) r"
    by (intro consumes_seq [where x = x] consumes_map)
  moreover have "read_items (x # xs) =
      (\<lambda>s. bindE (read_like x s) (\<lambda>(y, s). bindE (read_items xs s) (\<lambda>(ys, s). Inr (y # ys, s))))"
    by (rule ext) simp
  ultimately show ?case by simp
qed

section \<open>Round trips\<close>

lemma appending_fresh:
  "0 < base \<Longrightarrow> \<exists>e. appending e (setIsLittleEndian l (new_byte_array mem base)) \<and>
     ba_content (setIsLittleEndian l (new_byte_array mem base)) = []"
  by (auto simp: appending_def setIsLittleEndian_def ba_wf_def new_byte_array_def ba_content_def)

lemma rewound:
  assumes "appending e ba"
  obtains ba' where "setPosition 0 ba = Inr ba'" "reading e ba'" "ba_rest ba' = ba_content ba"
proof -
  have wf: "ba_wf ba" and e: "ba_endian ba = e"
    using assms by (simp_all add: appending_def)
  have seek: "setPosition 0 ba = Inr (ba\<lparr>ba_pos := 0, ba_cur := 0\<rparr>)"
    using setPosition_ok [OF wf, of 0] by simp
  then have "ba_wf (ba\<lparr>ba_pos := 0, ba_cur := 0\<rparr>)"
    by (rule setPosition_wf [OF wf])
  with seek e show ?thesis
    by (intro that [of "ba\<lparr>ba_pos := 0, ba_cur := 0\<rparr>"])
      (simp_all add: reading_def ba_rest_def ba_content_def)
qed

text \<open>Write, rewind and read back.\<close>

definition write_then_read ::
  "(byte_array \<Rightarrow> byte_array res) \<Rightarrow> (byte_array \<Rightarrow> ('a \<times> byte_array) res) \<Rightarrow> byte_array \<Rightarrow>
   ('a \<times> byte_array) res" where
  "write_then_read wr rd ba = bindE (wr ba) (\<lambda>ba. bindE (setPosition 0 ba) rd)"

lemma write_then_read_ok:
  assumes "emits (appending e) ba_content wr bs" and "consumes (reading e) ba_rest rd bs x []"
    and "appending e ba" and "ba_content ba = []"
  shows "\<exists>ba'. write_then_read wr rd ba = Inr (x, ba') \<and> getReadSize ba' = 0"
proof -
  obtain ba1 where w: "wr ba = Inr ba1" "appending e ba1" "ba_content ba1 = bs"
    using emitsD [OF assms(1) assms(3)] assms(4) by auto
  obtain ba2 where s: "setPosition 0 ba1 = Inr ba2" "reading e ba2" "ba_rest ba2 = bs"
    using rewound [OF w(2)] w(3) by auto
  obtain ba3 where r: "rd ba2 = Inr (x, ba3)" "reading e ba3" "ba_rest ba3 = []"
    using consumesD [OF assms(2) s(2)] s(3) by auto
  then have "getReadSize ba3 = 0"
    using ba_wf_rest_length [of ba3] by (simp add: reading_def)
  with w s r show ?thesis by (simp add: write_then_read_def)
qed



section \<open>The 64-bit zigzag encoder\<close>

definition zigzag64 :: "u64 \<Rightarrow> u64" where
  "zigzag64 v = (if sint v < 0 then (- v) * 2 - 1 else v * 2)"

lemma DecodeZigzag64_zigzag64: "DecodeZigzag64 (zigzag64 v) = v"
  using zigzag_inverse [of v] by (simp add: DecodeZigzag64_def zigzag64_def)

lemma inj_DecodeZigzag64: "inj DecodeZigzag64"
proof (rule finite_UNIV_surj_inj)
  show "finite (UNIV :: u64 set)" by simp
  show "surj DecodeZigzag64" by (rule surjI) (rule DecodeZigzag64_zigzag64)
qed

lemma uint_zigzag64: "uint (zigzag64 v) = (if sint v < 0 then - 2 * sint v - 1 else 2 * sint v)"
proof -
  have range: "- (2 ^ 63) \<le> sint v" "sint v < 2 ^ 63"
    using sint_range_size [of v] by (simp_all add: word_size)
  have "zigzag64 v = word_of_int (if sint v < 0 then - 2 * sint v - 1 else 2 * sint v)"
    by (simp add: zigzag64_def mult.commute)
  also have "uint \<dots> = (if sint v < 0 then - 2 * sint v - 1 else 2 * sint v)"
    using range by (simp add: uint_word_of_int)
  finally show ?thesis .
qed

lemma emits_Int64: "emits (appending e) ba_content (writeInt64 v) (uvar_bytes (ucast (EncodeZigzag64 v) :: u64))"
  by (simp add: writeInt64_def codec)

lemma consumes_Int64:
  "consumes (reading e) ba_rest readInt64 (uvar_bytes z) (DecodeZigzag64 z) r"
  using consumes_map [OF consumes_uvar(2) [of e z r], of DecodeZigzag64]
  by (simp add: readInt64_def [abs_def])

text \<open>A signed 64-bit value written by \<open>writeInt64\<close> is read back by \<open>readInt64\<close> as the
  decoding of a 32-bit word, and this is the value written exactly when the value lies between
  -2^31 and 2^31 - 1: \<open>EncodeZigzag64\<close> is declared to return \<open>uint32_t\<close>.\<close>

theorem int64_roundtrip_only_32_bits:
  assumes "0 < base"
  shows "\<exists>w ba'. write_then_read (writeInt64 v) readInt64
      (setIsLittleEndian l (new_byte_array mem base)) = Inr (w, ba') \<and>
    (w = v \<longleftrightarrow> - (2 ^ 31) \<le> sint v \<and> sint v < 2 ^ 31)"
proof -
  let ?z = "ucast (EncodeZigzag64 v) :: u64"
  obtain e where fresh: "appending e (setIsLittleEndian l (new_byte_array mem base))"
    "ba_content (setIsLittleEndian l (new_byte_array mem base)) = []"
    using appending_fresh [OF assms] by blast
  have run: "\<exists>ba'. write_then_read (writeInt64 v) readInt64
      (setIsLittleEndian l (new_byte_array mem base)) = Inr (DecodeZigzag64 ?z, ba') \<and> getReadSize ba' = 0"
    by (rule write_then_read_ok [OF emits_Int64 consumes_Int64 fresh])
  have trunc: "?z = take_bit 32 (zigzag64 v)"
    unfolding EncodeZigzag64_def zigzag64_def [symmetric]
    by (rule bit_word_eqI) (auto simp: bit_unsigned_iff bit_take_bit_iff)
  have "DecodeZigzag64 ?z = v \<longleftrightarrow> ?z = zigzag64 v"
    using inj_DecodeZigzag64 DecodeZigzag64_zigzag64 [of v] by (metis injD)
  also have "\<dots> \<longleftrightarrow> uint (zigzag64 v) < 2 ^ 32"
    unfolding trunc
    by (subst word_uint_eq_iff) (simp add: unsigned_take_bit_eq take_bit_int_eq_self_iff)
  also have "\<dots> \<longleftrightarrow> - (2 ^ 31) \<le> sint v \<and> sint v < 2 ^ 31"
    unfolding uint_zigzag64 by auto
  finally show ?thesis using run by blast
qed

theorem int64_roundtrip_only_32_bits_witness:
  "\<exists>w ba'. write_then_read (writeInt64 (2 ^ 31)) readInt64
      (setIsLittleEndian False (new_byte_array (\<lambda>_. 0) 4096)) = Inr (w, ba') \<and> w \<noteq> 2 ^ 31"
  using int64_roundtrip_only_32_bits [of 4096 "2 ^ 31" False "\<lambda>_. 0"] by auto

section \<open>The end of the chain\<close>

definition same_extent :: "byte_array \<Rightarrow> byte_array \<Rightarrow> bool" where
  "same_extent ba ba' \<longleftrightarrow> ba_size ba' = ba_size ba \<and> ba_cap ba' = ba_cap ba"

lemma read_loop_extent: "read_loop npos ncap n ba = Inr (bs, ba') \<Longrightarrow> same_extent ba ba'"
proof (induction npos ncap n ba arbitrary: bs ba' rule: read_loop.induct)
  case (1 npos ncap n ba)
  then show ?case
    unfolding read_loop.simps [of npos ncap n ba]
    by (fastforce simp: same_extent_def bindE_Inr_iff Let_def split: if_splits option.splits)
qed

lemma ba_read_extent: "ba_read n ba = Inr (bs, ba') \<Longrightarrow> same_extent ba ba'"
  by (auto simp: ba_read_def Let_def split: if_splits option.splits dest: read_loop_extent)

lemma read_fixed_extent: "read_fixed n ba = Inr (w, ba') \<Longrightarrow> same_extent ba ba'"
  by (auto simp: read_fixed_def bindE_Inr_iff Let_def dest: ba_read_extent)

lemma read_prefix_extent:
  "readFuint16 ba = Inr (a, ba') \<Longrightarrow> same_extent ba ba'"
  "readFuint32 ba = Inr (b, ba') \<Longrightarrow> same_extent ba ba'"
  "readFuint64 ba = Inr (c, ba') \<Longrightarrow> same_extent ba ba'"
  by (auto simp: readFuint16_def readFuint32_def readFuint64_def dest: read_fixed_extent)

lemma read_uvar_extent: "read_uvar lim i res ba = Inr (w, ba') \<Longrightarrow> same_extent ba ba'"
proof (induction lim i res ba rule: read_uvar.induct)
  case (1 lim i res ba)
  show ?case
  proof (cases "i < lim")
    case True
    then obtain b ba1 where b: "readFuint8 ba = Inr (b, ba1)"
      and rest: "b < 128 \<and> ba' = ba1 \<or>
        read_uvar lim (i + 7) (or res (push_bit i (ucast (and b 127)))) ba1 = Inr (w, ba') \<and> \<not> b < 128"
      using "1.prems" unfolding read_uvar.simps [of lim i]
      by (auto simp: bindE_Inr_iff split: if_splits)
    have "same_extent ba ba1"
      using b by (auto simp: readFuint8_def bindE_Inr_iff dest: ba_read_extent)
    moreover have "same_extent ba1 ba'"
      using rest "1.IH" [OF True, of b ba1] by (auto simp: same_extent_def)
    ultimately show ?thesis by (simp add: same_extent_def)
  next
    case False
    then show ?thesis using "1.prems" by (simp add: read_uvar.simps [of lim i] same_extent_def)
  qed
qed

lemma readUint64_extent: "readUint64 ba = Inr (c, ba') \<Longrightarrow> same_extent ba ba'"
  by (auto simp: readUint64_def dest: read_uvar_extent)

lemma read_length_at_end:
  assumes "consumes (reading e) ba_rest len_rd (item_bytes e x) k []" and "to_nat k = 0"
    and "reading e ba" and "ba_rest ba = item_bytes e x" and "ba_size ba = ba_cap ba"
    and frame: "\<And>ba1. len_rd ba = Inr (k, ba1) \<Longrightarrow> same_extent ba ba1"
  shows "bindE (len_rd ba) (\<lambda>(k, ba). ba_read (to_nat k) ba) = Inl NullDeref"
proof -
  obtain ba1 where ba1: "len_rd ba = Inr (k, ba1)" "reading e ba1" "ba_rest ba1 = []"
    using consumesD [OF assms(1,3)] assms(4) by auto
  then have "ba_size ba1 = ba_cap ba1" "getReadSize ba1 = 0" "ba_wf ba1"
    using frame assms(5) ba_wf_rest_length [of ba1] by (auto simp: same_extent_def reading_def)
  then have "ba_read 0 ba1 = Inl NullDeref"
    by (intro ba_read_null) (auto simp: getReadSize_def ba_wf_def)
  then show ?thesis using ba1 assms(2) by simp
qed

text \<open>An empty string whose length field ends exactly at the end of the node chain cannot be
  read back: after the length the current node is null and reading zero bytes dereferences it,
  for each of the four string formats.\<close>

theorem empty_string_at_chain_end:
  assumes "reading e ba" and "empty_string x" and "ba_rest ba = item_bytes e x"
    and "ba_size ba = ba_cap ba"
  shows "read_like x ba = Inl NullDeref"
proof -
  consider "x = S16 []" | "x = S32 []" | "x = S64 []" | "x = SV []"
    using assms(2) by (auto simp: empty_string_def)
  then show ?thesis
  proof cases
    case 1
    then have "readStringF16 ba = Inl NullDeref"
      unfolding readStringF16_def using assms
      by (intro read_length_at_end [of e _ x 0]) (auto intro: codec dest: read_prefix_extent)
    then show ?thesis using 1 by simp
  next
    case 2
    then have "readStringF32 ba = Inl NullDeref"
      unfolding readStringF32_def using assms
      by (intro read_length_at_end [of e _ x 0]) (auto intro: codec dest: read_prefix_extent)
    then show ?thesis using 2 by simp
  next
    case 3
    then have "readStringF64 ba = Inl NullDeref"
      unfolding readStringF64_def using assms
      by (intro read_length_at_end [of e _ x 0]) (auto intro: codec dest: read_prefix_extent)
    then show ?thesis using 3 by simp
  next
    case 4
    then have "readStringVint ba = Inl NullDeref"
      unfolding readStringVint_def using assms
      by (intro read_length_at_end [of e _ x 0]) (auto intro: codec dest: readUint64_extent)
    then show ?thesis using 4 by simp
  qed
qed

theorem empty_string_at_chain_end_witness:
  "read_like (S32 []) (new_byte_array (\<lambda>_. 0) 4\<lparr>ba_size := 4\<rparr>) = Inl NullDeref"
  by (rule empty_string_at_chain_end [of BigEndian])
    (simp_all add: reading_def ba_wf_def new_byte_array_def empty_string_def ba_rest_def
      ba_content_def fresh_node_def fixed_bytes_def host_order_def le_bytes_def upt_conv_Cons)

text \<open>The variable-length writers fill at most the 5 and 10 bytes of their stack buffers, and
  never leave the value empty.\<close>

theorem varint_fits_stack_buffer:
  "length (uvar_bytes (a :: u32)) \<le> 5 \<and> length (uvar_bytes (b :: u64)) \<le> 10 \<and>
   0 < length (uvar_bytes a) \<and> 0 < length (uvar_bytes b)"
proof -
  have "unat a < 128 ^ 5" "unat b < 128 ^ 10"
    using unsigned_less [of a, where 'a = nat] unsigned_less [of b, where 'a = nat] by simp_all
  then show ?thesis
    using uvar_bytes_length [of a 5] uvar_bytes_length [of b 10] by simp
qed

end
