(* ===== verification/Protocol.thy ===== *)
theory Protocol
  imports StreamIO CodecRoundtrip
begin

text \<open>
  The messages of \<open>src/Protocol.cpp\<close> and the framed RPC protocol of
  \<open>src/rpc/RockProtocol.cpp\<close>. The class hierarchy is a hierarchy of records: \<open>RockRequest\<close>
  is a \<open>request\<close> extended by the body of \<open>RockBody\<close>. A thrown \<open>std::out_of_range\<close> is caught
  by the handlers of the code, any other error value is not an exception and passes through.
  Parameters: \<open>recv\<close> and \<open>send\<close> of the connection, the two configured lengths, and zlib, which
  maps the bytes it is fed to the results of its two steps and the buffers it has filled. The
  \<open>try\<close> block of \<open>parseFrom\<close> matters for the payload only: \<open>recv\<close> stores at most what fits, so
  the transfers before it do not throw.
\<close>

section \<open>Messages\<close>

record request =
  req_sn :: u32
  req_cmd :: u32

record response =
  rsp_sn :: u32
  rsp_cmd :: u32
  rsp_result :: u32
  rsp_resStr :: bytes

record notify =
  ntf_notify :: u32

definition new_request :: request where
  "new_request = \<lparr>req_sn = 0, req_cmd = 0\<rparr>"

text \<open>The default answer is 404 with the text \<open>unavaliable\<close>.\<close>

definition new_response :: response where
  "new_response =
     \<lparr>rsp_sn = 0, rsp_cmd = 0, rsp_result = 404,
      rsp_resStr = [0x75, 0x6e, 0x61, 0x76, 0x61, 0x6c, 0x69, 0x61, 0x62, 0x6c, 0x65]\<rparr>"

definition new_notify :: notify where
  "new_notify = \<lparr>ntf_notify = 0\<rparr>"

definition Request_serialize :: "u8 \<Rightarrow> 'a request_scheme \<Rightarrow> byte_array \<Rightarrow> byte_array res" where
  "Request_serialize ty m ba =
     bindE (writeFuint8 ty ba) (\<lambda>ba.
     bindE (writeUint32 (req_sn m) ba) (\<lambda>ba.
       writeUint32 (req_cmd m) ba))"

definition Request_parse ::
  "'a request_scheme \<Rightarrow> byte_array \<Rightarrow> ('a request_scheme \<times> byte_array) res" where
  "Request_parse m ba =
     bindE (readUint32 ba) (\<lambda>(sn, ba).
     bindE (readUint32 ba) (\<lambda>(cmd, ba).
       Inr (m\<lparr>req_sn := sn, req_cmd := cmd\<rparr>, ba)))"

definition Response_serialize :: "u8 \<Rightarrow> 'a response_scheme \<Rightarrow> byte_array \<Rightarrow> byte_array res" where
  "Response_serialize ty m ba =
     bindE (writeFuint8 ty ba) (\<lambda>ba.
     bindE (writeUint32 (rsp_sn m) ba) (\<lambda>ba.
     bindE (writeUint32 (rsp_cmd m) ba) (\<lambda>ba.
     bindE (writeUint32 (rsp_result m) ba) (\<lambda>ba.
       writeStringVint (rsp_resStr m) ba))))"

definition Response_parse ::
  "'a response_scheme \<Rightarrow> byte_array \<Rightarrow> ('a response_scheme \<times> byte_array) res" where
  "Response_parse m ba =
     bindE (readUint32 ba) (\<lambda>(sn, ba).
     bindE (readUint32 ba) (\<lambda>(cmd, ba).
     bindE (readUint32 ba) (\<lambda>(result, ba).
     bindE (readStringVint ba) (\<lambda>(resStr, ba).
       Inr (m\<lparr>rsp_sn := sn, rsp_cmd := cmd, rsp_result := result, rsp_resStr := resStr\<rparr>, ba)))))"

definition Notify_serialize :: "u8 \<Rightarrow> 'a notify_scheme \<Rightarrow> byte_array \<Rightarrow> byte_array res" where
  "Notify_serialize ty m ba =
     bindE (writeFuint8 ty ba) (\<lambda>ba. writeUint32 (ntf_notify m) ba)"

definition Notify_parse ::
  "'a notify_scheme \<Rightarrow> byte_array \<Rightarrow> ('a notify_scheme \<times> byte_array) res" where
  "Notify_parse m ba =
     bindE (readUint32 ba) (\<lambda>(n, ba). Inr (m\<lparr>ntf_notify := n\<rparr>, ba))"

section \<open>Rock messages\<close>

record rock_request = request +
  rreq_body :: bytes

record rock_response = response +
  rrsp_body :: bytes

record rock_notify = notify +
  rntf_body :: bytes

datatype message =
    MRequest rock_request | MResponse rock_response | MNotify rock_notify

definition new_rock_request :: rock_request where
  "new_rock_request = request.extend new_request (rock_request.fields [])"

definition new_rock_response :: rock_response where
  "new_rock_response = response.extend new_response (rock_response.fields [])"

definition new_rock_notify :: rock_notify where
  "new_rock_notify = notify.extend new_notify (rock_notify.fields [])"

definition createResponse :: "rock_request \<Rightarrow> rock_response" where
  "createResponse rq = new_rock_response\<lparr>rsp_sn := req_sn rq, rsp_cmd := req_cmd rq\<rparr>"

fun getType :: "message \<Rightarrow> u8" where
  "getType (MRequest _) = 1"
| "getType (MResponse _) = 2"
| "getType (MNotify _) = 3"

definition RockBody_serialize :: "bytes \<Rightarrow> byte_array \<Rightarrow> byte_array res" where
  "RockBody_serialize body ba = writeStringF32 body ba"

definition RockBody_parse :: "byte_array \<Rightarrow> (bytes \<times> byte_array) res" where
  "RockBody_parse ba = readStringF32 ba"

text \<open>\<open>catch (...) { ... return false; }\<close>\<close>

definition catch_all :: "'a res \<Rightarrow> 'a option res" where
  "catch_all r = (case r of Inl OutOfRange \<Rightarrow> Inr None | Inl e \<Rightarrow> Inl e | Inr x \<Rightarrow> Inr (Some x))"

definition RockRequest_serialize :: "rock_request \<Rightarrow> byte_array \<Rightarrow> byte_array option res" where
  "RockRequest_serialize m ba =
     catch_all (bindE (Request_serialize 1 m ba) (RockBody_serialize (rreq_body m)))"

definition RockRequest_parse :: "rock_request \<Rightarrow> byte_array \<Rightarrow> rock_request option res" where
  "RockRequest_parse m ba =
     catch_all (bindE (Request_parse m ba) (\<lambda>(m, ba).
       bindE (RockBody_parse ba) (\<lambda>(body, _). Inr (m\<lparr>rreq_body := body\<rparr>))))"

definition RockResponse_serialize :: "rock_response \<Rightarrow> byte_array \<Rightarrow> byte_array option res" where
  "RockResponse_serialize m ba =
     catch_all (bindE (Response_serialize 2 m ba) (RockBody_serialize (rrsp_body m)))"

definition RockResponse_parse :: "rock_response \<Rightarrow> byte_array \<Rightarrow> rock_response option res" where
  "RockResponse_parse m ba =
     catch_all (bindE (Response_parse m ba) (\<lambda>(m, ba).
       bindE (RockBody_parse ba) (\<lambda>(body, _). Inr (m\<lparr>rrsp_body := body\<rparr>))))"

definition RockNotify_serialize :: "rock_notify \<Rightarrow> byte_array \<Rightarrow> byte_array option res" where
  "RockNotify_serialize m ba =
     catch_all (bindE (Notify_serialize 3 m ba) (RockBody_serialize (rntf_body m)))"

definition RockNotify_parse :: "rock_notify \<Rightarrow> byte_array \<Rightarrow> rock_notify option res" where
  "RockNotify_parse m ba =
     catch_all (bindE (Notify_parse m ba) (\<lambda>(m, ba).
       bindE (RockBody_parse ba) (\<lambda>(body, _). Inr (m\<lparr>rntf_body := body\<rparr>))))"

text \<open>The virtual calls on a message pointer.\<close>

fun Rock_serialize :: "message \<Rightarrow> byte_array \<Rightarrow> byte_array option res" where
  "Rock_serialize (MRequest m) ba = RockRequest_serialize m ba"
| "Rock_serialize (MResponse m) ba = RockResponse_serialize m ba"
| "Rock_serialize (MNotify m) ba = RockNotify_serialize m ba"

fun Rock_parse :: "message \<Rightarrow> byte_array \<Rightarrow> message option res" where
  "Rock_parse (MRequest m) ba = bindE (RockRequest_parse m ba) (\<lambda>r. Inr (map_option MRequest r))"
| "Rock_parse (MResponse m) ba = bindE (RockResponse_parse m ba) (\<lambda>r. Inr (map_option MResponse r))"
| "Rock_parse (MNotify m) ba = bindE (RockNotify_parse m ba) (\<lambda>r. Inr (map_option MNotify r))"

lemmas rock_class_defs =
  RockRequest_serialize_def RockResponse_serialize_def RockNotify_serialize_def
  RockRequest_parse_def RockResponse_parse_def RockNotify_parse_def

definition toByteArray :: "(nat \<Rightarrow> u8) \<Rightarrow> message \<Rightarrow> byte_array option res" where
  "toByteArray mem m = Rock_serialize m (new_byte_array mem 4096)"

section \<open>Frames\<close>

record rock_header =
  hd_magic :: bytes
  hd_version :: u8
  hd_flag :: u8
  hd_length :: u32

definition rock_magic :: bytes where
  "rock_magic = [0x12, 0x21]"

definition new_header :: rock_header where
  "new_header = \<lparr>hd_magic = rock_magic, hd_version = 1, hd_flag = 0, hd_length = 0\<rparr>"

text \<open>The eight bytes of the struct in memory, and the struct they spell.\<close>

definition header_bytes :: "rock_header \<Rightarrow> bytes" where
  "header_bytes h = hd_magic h @ [hd_version h, hd_flag h] @ le_bytes 4 (hd_length h)"

definition header_of :: "bytes \<Rightarrow> rock_header" where
  "header_of bs = \<lparr>hd_magic = take 2 bs, hd_version = bs ! 2, hd_flag = bs ! 3,
     hd_length = le_word (drop 4 bs)\<rparr>"

definition header_memory :: "rock_header \<Rightarrow> memory" where
  "header_memory h = store_bytes 0 (header_bytes h) (\<lambda>_. 0)"

fun bindO :: "'a res option \<Rightarrow> ('a \<Rightarrow> 'b res option) \<Rightarrow> 'b res option" where
  "bindO None f = None"
| "bindO (Some (Inl e)) f = Some (Inl e)"
| "bindO (Some (Inr x)) f = f x"

type_synonym zlib = "bytes \<Rightarrow> int \<times> int \<times> bytes list"

text \<open>\<open>ZLIBStream::write(ba, -1)\<close>, \<open>flush\<close> and \<open>getByteArray\<close>; \<open>Z_OK\<close> is 0.\<close>

definition zlib_run ::
  "zlib \<Rightarrow> (nat \<Rightarrow> u8) \<Rightarrow> byte_array \<Rightarrow> (int \<times> int \<times> byte_array) res" where
  "zlib_run z mem ba =
     bindE (getReadBuffers (2 ^ 64 - 1) ba) (\<lambda>(_, iovs).
       let (w, f, buffs) = z (gather (ba_nodes ba) iovs) in
       bindE (write_all ba_write buffs (new_byte_array mem 4096)) (\<lambda>ba'.
       bindE (setPosition 0 ba') (\<lambda>ba''. Inr (w, f, ba''))))"

definition decode_payload :: "zlib \<Rightarrow> (nat \<Rightarrow> u8) \<Rightarrow> u8 \<Rightarrow> byte_array \<Rightarrow> message option res" where
  "decode_payload gunzip mem flag ba =
     bindE (setPosition 0 ba) (\<lambda>ba.
     bindE (if and flag 1 \<noteq> 0
            then bindE (zlib_run gunzip mem ba) (\<lambda>(w, f, ba').
                   Inr (if w \<noteq> 0 then None else if f \<noteq> 0 then None else Some ba'))
            else Inr (Some ba)) (\<lambda>ba_opt.
     case ba_opt of
       None \<Rightarrow> Inr None
     | Some ba \<Rightarrow>
         bindE (readFuint8 ba) (\<lambda>(ty, ba).
           if ty = 1 then Rock_parse (MRequest new_rock_request) ba
           else if ty = 2 then Rock_parse (MResponse new_rock_response) ba
           else if ty = 3 then Rock_parse (MNotify new_rock_notify) ba
           else Inr None)))"

definition parseFrom ::
  "'s recv \<Rightarrow> 's recvmsg \<Rightarrow> bool \<Rightarrow> u32 \<Rightarrow> zlib \<Rightarrow> (nat \<Rightarrow> u8) \<Rightarrow> 's \<Rightarrow>
   (message option \<times> 's) res option" where
  "parseFrom recv recvmsg connected max_length gunzip mem s =
     bindO (readFixSize recv connected 8 (header_memory new_header, s)) (\<lambda>(rt, hmem, s1).
       if rt \<le> 0 then Some (Inr (None, s1))
       else
         let header = header_of (load_bytes 0 8 hmem) in
         if hd_magic header \<noteq> rock_magic then Some (Inr (None, s1))
         else if hd_version header \<noteq> 1 then Some (Inr (None, s1))
         else
           let len = byteswapOnLittleEndian 4 (hd_length header) in
           if len \<ge> max_length then Some (Inr (None, s1))
           else
             bindO (readFixSize_ba recvmsg connected (scast len) (new_byte_array mem 4096, s1))
               (\<lambda>(rt, ba, s2).
                 if rt \<le> 0 then Some (Inr (None, s2))
                 else
                   case catch_all (decode_payload gunzip mem (hd_flag header) ba) of
                     Inl e \<Rightarrow> Some (Inl e)
                   | Inr None \<Rightarrow> Some (Inr (None, s2))
                   | Inr (Some m) \<Rightarrow> Some (Inr (m, s2))))"

definition serializeTo ::
  "'s send \<Rightarrow> 's sendmsg \<Rightarrow> bool \<Rightarrow> u32 \<Rightarrow> zlib \<Rightarrow> (nat \<Rightarrow> u8) \<Rightarrow> message \<Rightarrow> 's \<Rightarrow>
   (int \<times> 's) res option" where
  "serializeTo send sendmsg connected gzip_min gzip mem m s =
     bindO (Some (toByteArray mem m)) (\<lambda>ba_opt.
     case ba_opt of
       None \<Rightarrow> Some (Inl NullDeref)
     | Some ba \<Rightarrow>
         bindO (Some (setPosition 0 ba)) (\<lambda>ba.
         bindO (if (of_nat (ba_size ba) :: u32) \<ge> gzip_min
                then bindO (Some (zlib_run gzip mem ba)) (\<lambda>(w, f, ba').
                       Some (Inr (if w \<noteq> 0 then Inl (- 1) else if f \<noteq> 0 then Inl (- 2)
                                  else Inr (ba', 1))))
                else Some (Inr (Inr (ba, 0)))) (\<lambda>out.
         case out of
           Inl code \<Rightarrow> Some (Inr (code, s))
         | Inr (ba, flag) \<Rightarrow>
             let header = new_header\<lparr>hd_flag := flag,
                   hd_length := byteswapOnLittleEndian 4 (of_nat (ba_size ba))\<rparr> in
             bindO (writeFixSize send connected (header_memory header) 8 s) (\<lambda>(rt, s1).
               if rt \<le> 0 then Some (Inr (- 3, s1))
               else
                 bindO (writeFixSize_ba sendmsg connected (of_nat (getReadSize ba)) (ba, s1))
                   (\<lambda>(rt, ba2, s2).
                     if rt \<le> 0 then Some (Inr (- 4, s2))
                     else Some (Inr (c_int (of_nat (8 + ba_size ba2)), s2)))))))"

end
