(* ===== verification/RockRoundtrip.thy ===== *)
theory RockRoundtrip
  imports Protocol
begin

text \<open>
  What the RPC protocol of \<open>src/rpc/RockProtocol.cpp\<close> promises: a message that
  \<open>serializeTo\<close> sends is the message that \<open>parseFrom\<close> returns, frames with a wrong header are
  refused after the header, and the messages that cannot travel are named: one with an empty body
  that ends on a node boundary, and those of more than 4 MiB, whose nodes are too many for one
  \<open>sendmsg\<close>.
\<close>

section \<open>The bytes of a message\<close>

definition body_bytes :: "bytes \<Rightarrow> bytes" where
  "body_bytes body = fixed_bytes 4 BigEndian (of_nat (length body) :: u32) @ body"

definition request_bytes :: "'a request_scheme \<Rightarrow> bytes" where
  "request_bytes m = uvar_bytes (req_sn m) @ uvar_bytes (req_cmd m)"

definition response_bytes :: "'a response_scheme \<Rightarrow> bytes" where
  "response_bytes m = uvar_bytes (rsp_sn m) @ uvar_bytes (rsp_cmd m) @ uvar_bytes (rsp_result m) @
     uvar_bytes (of_nat (length (rsp_resStr m)) :: u64) @ rsp_resStr m"

definition notify_bytes :: "'a notify_scheme \<Rightarrow> bytes" where
  "notify_bytes m = uvar_bytes (ntf_notify m)"

fun message_fields :: "message \<Rightarrow> bytes" where
  "message_fields (MRequest m) = request_bytes m"
| "message_fields (MResponse m) = response_bytes m"
| "message_fields (MNotify m) = notify_bytes m"

fun message_body :: "message \<Rightarrow> bytes" where
  "message_body (MRequest m) = rreq_body m"
| "message_body (MResponse m) = rrsp_body m"
| "message_body (MNotify m) = rntf_body m"

definition message_bytes :: "message \<Rightarrow> bytes" where
  "message_bytes m = getType m # message_fields m @ body_bytes (message_body m)"

definition rock_frame :: "message \<Rightarrow> bytes" where
  "rock_frame m = header_bytes (new_header\<lparr>hd_length :=
     byteswapOnLittleEndian 4 (of_nat (length (message_bytes m)))\<rparr>) @ message_bytes m"

section \<open>Serialising\<close>

lemma emits_fields:
  "emits (appending e) ba_content (Request_serialize ty rq) (ty # request_bytes rq)"
  "emits (appending e) ba_content (Response_serialize ty rs) (ty # response_bytes rs)"
  "emits (appending e) ba_content (Notify_serialize ty nt) (ty # notify_bytes nt)"
proof -
  have seq: "emits (appending e) ba_content (\<lambda>s. bindE (a s) b) (x # ys)"
    if "emits (appending e) ba_content a [x]" "emits (appending e) ba_content b ys" for a b x ys
    using emits_seq [OF that] by simp
  show "emits (appending e) ba_content (Request_serialize ty rq) (ty # request_bytes rq)"
    unfolding Request_serialize_def [abs_def] request_bytes_def
    by (intro seq emits_seq codec)
  show "emits (appending e) ba_content (Response_serialize ty rs) (ty # response_bytes rs)"
    unfolding Response_serialize_def [abs_def] response_bytes_def
    by (intro seq emits_seq codec)
  show "emits (appending e) ba_content (Notify_serialize ty nt) (ty # notify_bytes nt)"
    unfolding Notify_serialize_def [abs_def] notify_bytes_def
    by (intro seq emits_seq codec)
qed

lemma emits_body: "emits (appending BigEndian) ba_content (RockBody_serialize body) (body_bytes body)"
  unfolding RockBody_serialize_def [abs_def] body_bytes_def by (rule codec)

lemma catch_all_Inr: "r = Inr x \<Longrightarrow> catch_all r = Inr (Some x)"
  by (simp add: catch_all_def)

lemma Rock_serialize_appends:
  assumes "appending BigEndian ba"
  shows "\<exists>ba'. Rock_serialize m ba = Inr (Some ba') \<and> appending BigEndian ba' \<and>
    ba_content ba' = ba_content ba @ message_bytes m"
proof (cases m)
  case (MRequest r)
  with emitsD [OF emits_seq [OF emits_fields(1) [of BigEndian 1 r] emits_body [of "rreq_body r"]] assms]
  show ?thesis by (auto simp: catch_all_Inr message_bytes_def rock_class_defs)
next
  case (MResponse r)
  with emitsD [OF emits_seq [OF emits_fields(2) [of BigEndian 2 r] emits_body [of "rrsp_body r"]] assms]
  show ?thesis by (auto simp: catch_all_Inr message_bytes_def rock_class_defs)
next
  case (MNotify r)
  with emitsD [OF emits_seq [OF emits_fields(3) [of BigEndian 3 r] emits_body [of "rntf_body r"]] assms]
  show ?thesis by (auto simp: catch_all_Inr message_bytes_def rock_class_defs)
qed

lemma toByteArray_bytes:
  "\<exists>ba. toByteArray mem m = Inr (Some ba) \<and> appending BigEndian ba \<and> ba_content ba = message_bytes m"
proof -
  have "appending BigEndian (new_byte_array mem 4096)"
    by (simp add: appending_def new_byte_array_wf) (simp add: new_byte_array_def)
  from Rock_serialize_appends [OF this, of m] show ?thesis
    by (simp add: toByteArray_def new_byte_array_empty)
qed

lemma message_bytes_pos: "0 < length (message_bytes m)"
  by (simp add: message_bytes_def)

lemma length_header_bytes: "length (hd_magic h) = 2 \<Longrightarrow> length (header_bytes h) = 8"
  by (simp add: header_bytes_def)

lemma load_header: "length (hd_magic h) = 2 \<Longrightarrow> load_bytes 0 8 (header_memory h) = header_bytes h"
  using load_store [of 0 "header_bytes h" "\<lambda>_. 0"] length_header_bytes [of h]
  by (simp add: header_memory_def load_bytes_def)

text \<open>The nodes of a buffer for messages have 4096 bytes.\<close>

definition max_message :: nat where
  "max_message = IOV_MAX * 4096"

lemma few_nodes_message:
  "ba_pos ba = 0 \<Longrightarrow> ba_base ba = 4096 \<Longrightarrow> few_nodes n ba \<longleftrightarrow> n \<le> max_message"
  by (simp add: few_nodes_def max_message_def)

lemma write_loop_base: "write_loop npos ncap bs ba = Inr ba' \<Longrightarrow> ba_base ba' = ba_base ba"
proof (induction npos ncap bs ba rule: write_loop.induct)
  case (1 npos ncap bs ba)
  show ?case
    using 1 by (auto simp: write_loop.simps [of npos ncap bs ba] Let_def split: if_splits option.splits)
qed

lemma ba_write_base: "ba_write bs ba = Inr ba' \<Longrightarrow> ba_base ba' = ba_base ba"
  by (auto simp: ba_write_def Let_def bindE_Inr_iff dest!: write_loop_base split: if_splits option.splits)

lemma codec_write_base:
  "writeFuint8 b ba = Inr ba' \<Longrightarrow> ba_base ba' = ba_base ba"
  "writeUint32 w ba = Inr ba' \<Longrightarrow> ba_base ba' = ba_base ba"
  "writeStringVint bs ba = Inr ba' \<Longrightarrow> ba_base ba' = ba_base ba"
  "writeStringF32 bs ba = Inr ba' \<Longrightarrow> ba_base ba' = ba_base ba"
  by (auto simp: writeFuint8_def writeUint32_def writeStringVint_def writeStringF32_def writeUint64_def
      writeFuint32_def write_fixed_def Let_def bindE_Inr_iff dest!: ba_write_base)

lemma catch_all_Some: "catch_all r = Inr (Some x) \<longleftrightarrow> r = Inr x"
  by (auto simp: catch_all_def split: sum.splits cpp_error.splits)

lemma toByteArray_base: "toByteArray mem m = Inr (Some ba) \<Longrightarrow> ba_base ba = 4096"
proof -
  assume "toByteArray mem m = Inr (Some ba)"
  then have "ba_base ba = ba_base (new_byte_array mem 4096)"
    by (cases m)
      (auto simp: toByteArray_def rock_class_defs catch_all_Some bindE_Inr_iff Request_serialize_def
        Response_serialize_def Notify_serialize_def RockBody_serialize_def dest!: codec_write_base)
  then show ?thesis by (simp add: new_byte_array_def)
qed

lemma serializeTo_sends:
  assumes acc: "accepts send sent" and accv: "accepts_iov sendmsg sent"
    and len: "length (message_bytes m) \<le> max_message"
    and plain: "(of_nat (length (message_bytes m)) :: u32) < gzip_min"
  shows "\<exists>s'. serializeTo send sendmsg True gzip_min gzip mem m s = Some (Inr (8 + int (length (message_bytes m)), s')) \<and>
    sent s' = sent s @ rock_frame m"
proof -
  let ?n = "length (message_bytes m)"
  obtain ba where ba: "toByteArray mem m = Inr (Some ba)" "appending BigEndian ba"
    "ba_content ba = message_bytes m"
    using toByteArray_bytes by blast
  obtain ba1 where seek: "setPosition 0 ba = Inr ba1" and rd: "reading BigEndian ba1"
    and rest: "ba_rest ba1 = message_bytes m"
    using rewound [OF ba(2)] ba(3) by metis
  have wf1: "ba_wf ba1" using rd by (simp add: reading_def)
  have rs: "getReadSize ba1 = ?n"
    using ba_wf_rest_length [OF wf1] rest by simp
  have "ba_pos ba1 = 0"
    using seek ba(2) by (auto simp: appending_def setPosition_range)
  then have size: "ba_size ba1 = ?n"
    using rs by (simp add: getReadSize_def)
  have base: "ba_base ba1 = 4096"
    using toByteArray_base [OF ba(1)] seek by (auto simp: setPosition_def bindE_Inr_iff split: if_splits)
  have few: "few_nodes ?n ba1"
    using few_nodes_message [OF \<open>ba_pos ba1 = 0\<close> base] len by simp
  have short: "?n < 2 ^ 31 - 8"
    using len by (simp add: max_message_def IOV_MAX_def)
  let ?h = "new_header\<lparr>hd_flag := 0, hd_length := byteswapOnLittleEndian 4 (of_nat ?n)\<rparr>"
  have magic: "length (hd_magic ?h) = 2"
    by (simp add: new_header_def rock_magic_def)
  obtain s1 where w1: "writeFixSize send True (header_memory ?h) 8 s = Some (Inr (8, s1))"
    "sent s1 = sent s @ header_bytes ?h"
    using writeFixSize_sends [OF acc, of 8 "header_memory ?h" s] load_header [OF magic] by auto
  obtain ba2 s2 where w2: "writeFixSize_ba sendmsg True (of_nat ?n) (ba1, s1) = Some (Inr (int ?n, ba2, s2))"
    "ba_wf ba2" "ba_content ba2 = ba_content ba1" "sent s2 = sent s1 @ message_bytes m"
    using writeFixSize_ba_sends [OF accv wf1, of ?n s1] rest short few by auto
  have "ba_size ba2 = ?n"
    using ba_wf_content_length [OF w2(2)] ba_wf_content_length [OF wf1] w2(3) size by simp
  moreover have "c_int (of_nat (8 + ?n)) = 8 + int ?n"
    using short by (simp add: ba_receive.c_int_whole del: of_nat_add)
  moreover have "new_header\<lparr>hd_length := byteswapOnLittleEndian 4 (of_nat ?n)\<rparr> = ?h"
    by (simp add: new_header_def)
  ultimately show ?thesis
    using ba(1) seek size rs plain w1 w2(1,4) message_bytes_pos [of m]
    by (auto simp: serializeTo_def rock_frame_def not_le Let_def simp del: of_nat_add)
qed

section \<open>Parsing\<close>

text \<open>A buffer that is being read and whose extent is known: the reads keep it.\<close>

definition reading_at :: "byte_order \<Rightarrow> nat \<Rightarrow> nat \<Rightarrow> byte_array \<Rightarrow> bool" where
  "reading_at e sz cap ba \<longleftrightarrow> reading e ba \<and> ba_size ba = sz \<and> ba_cap ba = cap"

lemma consumes_at:
  assumes "consumes (reading e) ba_rest act bs x r"
    and "\<And>s x s'. act s = Inr (x, s') \<Longrightarrow> same_extent s s'"
  shows "consumes (reading_at e sz cap) ba_rest act bs x r"
  unfolding consumes_def
proof (intro allI impI)
  fix s assume s: "reading_at e sz cap s \<and> ba_rest s = bs @ r"
  then obtain s' where s': "act s = Inr (x, s')" "reading e s'" "ba_rest s' = r"
    using consumesD [OF assms(1), of s] by (auto simp: reading_at_def)
  moreover have "same_extent s s'" using s'(1) by (rule assms(2))
  ultimately show "\<exists>s'. act s = Inr (x, s') \<and> reading_at e sz cap s' \<and> ba_rest s' = r"
    using s by (auto simp: reading_at_def same_extent_def)
qed

lemma readUint32_extent: "readUint32 ba = Inr (v, ba') \<Longrightarrow> same_extent ba ba'"
  by (auto simp: readUint32_def dest: read_uvar_extent)

lemma readFuint8_extent: "readFuint8 ba = Inr (v, ba') \<Longrightarrow> same_extent ba ba'"
  by (auto simp: readFuint8_def bindE_Inr_iff dest: ba_read_extent)

lemma readStringVint_extent: "readStringVint ba = Inr (v, ba') \<Longrightarrow> same_extent ba ba'"
  by (auto simp: readStringVint_def bindE_Inr_iff same_extent_def
      dest!: ba_read_extent readUint64_extent)

lemma consumes_at_codec:
  "consumes (reading_at e sz cap) ba_rest readUint32 (uvar_bytes a) a r"
  "consumes (reading_at e sz cap) ba_rest readFuint8 [b] b r"
  "length bs < 2 ^ 64 \<Longrightarrow> bs @ r \<noteq> [] \<Longrightarrow>
   consumes (reading_at e sz cap) ba_rest readStringVint (uvar_bytes (of_nat (length bs) :: u64) @ bs) bs r"
  by (auto intro!: consumes_at codec consumes_string(4)
      dest: readUint32_extent readFuint8_extent readStringVint_extent)

lemma consumes_return_at:
  "consumes (reading_at e sz cap) ba_rest (\<lambda>s. Inr (x, s)) [] x r"
  by (simp add: consumes_def)

lemma consumes_fields:
  "consumes (reading_at e sz cap) ba_rest (Request_parse rq0) (request_bytes rq)
     (rq0\<lparr>req_sn := req_sn rq, req_cmd := req_cmd rq\<rparr>) r"
  "length (rsp_resStr rs) < 2 ^ 64 \<Longrightarrow> r \<noteq> [] \<Longrightarrow>
   consumes (reading_at e sz cap) ba_rest (Response_parse rs0) (response_bytes rs)
     (rs0\<lparr>rsp_sn := rsp_sn rs, rsp_cmd := rsp_cmd rs, rsp_result := rsp_result rs,
          rsp_resStr := rsp_resStr rs\<rparr>) r"
  "consumes (reading_at e sz cap) ba_rest (Notify_parse nt0) (notify_bytes nt)
     (nt0\<lparr>ntf_notify := ntf_notify nt\<rparr>) r"
proof -
  have last: "consumes good rest (\<lambda>s. bindE (a s) (\<lambda>(x, s). Inr (f x, s))) bs y r"
    if "consumes good rest a bs x r" "f x = y" for good rest a f bs x y and r :: bytes
    using consumes_map [OF that(1)] that(2) by auto
  show "consumes (reading_at e sz cap) ba_rest (Request_parse rq0) (request_bytes rq)
     (rq0\<lparr>req_sn := req_sn rq, req_cmd := req_cmd rq\<rparr>) r"
    unfolding Request_parse_def [abs_def] request_bytes_def
    by (rule consumes_seq [OF consumes_at_codec(1)], rule last [OF consumes_at_codec(1)]) simp
  show "consumes (reading_at e sz cap) ba_rest (Notify_parse nt0) (notify_bytes nt)
     (nt0\<lparr>ntf_notify := ntf_notify nt\<rparr>) r"
    unfolding Notify_parse_def [abs_def] notify_bytes_def
    by (rule last [OF consumes_at_codec(1)]) simp
  assume "length (rsp_resStr rs) < 2 ^ 64" "r \<noteq> []"
  then have str: "consumes (reading_at e sz cap) ba_rest readStringVint
      (uvar_bytes (of_nat (length (rsp_resStr rs)) :: u64) @ rsp_resStr rs) (rsp_resStr rs) r"
    by (intro consumes_at_codec) auto
  show "consumes (reading_at e sz cap) ba_rest (Response_parse rs0) (response_bytes rs)
     (rs0\<lparr>rsp_sn := rsp_sn rs, rsp_cmd := rsp_cmd rs, rsp_result := rsp_result rs,
          rsp_resStr := rsp_resStr rs\<rparr>) r"
    unfolding Response_parse_def [abs_def] response_bytes_def
    by (rule consumes_seq [OF consumes_at_codec(1)], rule consumes_seq [OF consumes_at_codec(1)],
        rule consumes_seq [OF consumes_at_codec(1)], rule last [OF str]) simp
qed

text \<open>The body is the last string of the buffer: its read fails exactly at the end of the chain.\<close>

lemma RockBody_parse_last:
  assumes at: "reading_at BigEndian sz cap ba" and rest: "ba_rest ba = body_bytes body"
    and len: "length body < 2 ^ 32"
  shows "if body = [] \<and> sz = cap then RockBody_parse ba = Inl NullDeref
    else \<exists>ba'. RockBody_parse ba = Inr (body, ba')"
proof (cases "body = []")
  case False
  then show ?thesis
    using consumesD [OF consumes_string(2) [of body "[]" BigEndian], of ba] at rest len
    by (auto simp: reading_at_def body_bytes_def RockBody_parse_def)
next
  case True
  have rd: "reading BigEndian ba" using at by (simp add: reading_at_def)
  obtain ba1 where ba1: "readFuint32 ba = Inr (0, ba1)" "reading BigEndian ba1" "ba_rest ba1 = []"
    using consumesD [OF consumes_fixed(4) [of BigEndian 0 "[]"] rd] rest True
    by (auto simp: body_bytes_def)
  have ext: "ba_size ba1 = sz" "ba_cap ba1 = cap"
    using read_prefix_extent(2) [OF ba1(1)] at by (simp_all add: same_extent_def reading_at_def)
  have wf: "ba_wf ba1" "ba_pos ba1 = ba_size ba1"
    using ba1 ba_wf_rest_length [of ba1] by (auto simp: reading_def getReadSize_def ba_wf_def)
  show ?thesis
  proof (cases "sz = cap")
    case True
    then show ?thesis
      using ba_read_null [OF wf(1)] wf(2) ext ba1(1) \<open>body = []\<close>
      by (simp add: RockBody_parse_def readStringF32_def)
  next
    case False
    then have "ba_pos ba1 < ba_cap ba1"
      using wf ext by (simp add: ba_wf_def)
    then show ?thesis
      using ba_read_ok [OF wf(1), of 0] ba1(1) \<open>body = []\<close> False
      by (simp add: RockBody_parse_def readStringF32_def)
  qed
qed

fun empty_message :: "u8 \<Rightarrow> message option" where
  "empty_message ty =
     (if ty = 1 then Some (MRequest new_rock_request)
      else if ty = 2 then Some (MResponse new_rock_response)
      else if ty = 3 then Some (MNotify new_rock_notify) else None)"

fun message_ok :: "message \<Rightarrow> bool" where
  "message_ok (MResponse m) \<longleftrightarrow> length (rsp_resStr m) < 2 ^ 64 \<and> length (rrsp_body m) < 2 ^ 32"
| "message_ok m \<longleftrightarrow> length (message_body m) < 2 ^ 32"

lemma body_bytes_nonempty: "body_bytes body \<noteq> []"
  by (simp add: body_bytes_def fixed_bytes_nonempty)

lemma Rock_parse_fields:
  assumes at: "reading_at BigEndian sz cap ba" and ok: "message_ok m"
    and rest: "ba_rest ba = message_fields m @ body_bytes (message_body m)"
  shows "\<exists>m0. empty_message (getType m) = Some m0 \<and>
    Rock_parse m0 ba = (if message_body m = [] \<and> sz = cap then Inl NullDeref else Inr (Some m))"
proof (cases m)
  case (MRequest r)
  obtain ba1 where p: "Request_parse new_rock_request ba =
      Inr (new_rock_request\<lparr>req_sn := req_sn r, req_cmd := req_cmd r\<rparr>, ba1)"
    "reading_at BigEndian sz cap ba1" "ba_rest ba1 = body_bytes (rreq_body r)"
    using consumesD [OF consumes_fields(1) [of BigEndian sz cap new_rock_request r "body_bytes (rreq_body r)"] at] rest MRequest by auto
  then show ?thesis
    using RockBody_parse_last [OF p(2,3)] ok MRequest
    by (cases "message_body m = [] \<and> sz = cap") (auto simp: catch_all_def rock_class_defs)
next
  case (MNotify r)
  obtain ba1 where p: "Notify_parse new_rock_notify ba =
      Inr (new_rock_notify\<lparr>ntf_notify := ntf_notify r\<rparr>, ba1)"
    "reading_at BigEndian sz cap ba1" "ba_rest ba1 = body_bytes (rntf_body r)"
    using consumesD [OF consumes_fields(3) [of BigEndian sz cap new_rock_notify r "body_bytes (rntf_body r)"] at] rest MNotify by auto
  then show ?thesis
    using RockBody_parse_last [OF p(2,3)] ok MNotify
    by (cases "message_body m = [] \<and> sz = cap") (auto simp: catch_all_def rock_class_defs)
next
  case (MResponse r)
  obtain ba1 where p: "Response_parse new_rock_response ba =
      Inr (new_rock_response\<lparr>rsp_sn := rsp_sn r, rsp_cmd := rsp_cmd r, rsp_result := rsp_result r,
          rsp_resStr := rsp_resStr r\<rparr>, ba1)"
    "reading_at BigEndian sz cap ba1" "ba_rest ba1 = body_bytes (rrsp_body r)"
    using consumesD [OF consumes_fields(2) [of r "body_bytes (rrsp_body r)" BigEndian sz cap new_rock_response] at]
      rest MResponse ok body_bytes_nonempty by auto
  then show ?thesis
    using RockBody_parse_last [OF p(2,3)] ok MResponse
    by (cases "message_body m = [] \<and> sz = cap") (auto simp: catch_all_def rock_class_defs)
qed

section \<open>Receiving a frame\<close>

lemma header_of_bytes: "length (hd_magic h) = 2 \<Longrightarrow> header_of (header_bytes h) = h"
  by (cases h) (auto simp: header_of_def header_bytes_def nth_append le_word_le_bytes)

lemma decode_payload_plain:
  assumes wf: "ba_wf ba" and end_: "ba_endian ba = BigEndian" and base: "ba_base ba = 4096"
    and content: "ba_content ba = message_bytes m" and pos: "ba_pos ba = length (message_bytes m)"
    and ok: "message_ok m"
    and body: "message_body m = [] \<longrightarrow> length (message_bytes m) mod 4096 \<noteq> 0"
  shows "decode_payload gunzip mem 0 ba = Inr (Some m)"
proof -
  have "appending BigEndian ba"
    using wf end_ content pos ba_wf_content_length [OF wf] by (simp add: appending_def)
  then obtain ba1 where seek: "setPosition 0 ba = Inr ba1" and rd: "reading BigEndian ba1"
    and rest: "ba_rest ba1 = message_bytes m"
    using rewound content by metis
  have cap: "ba_cap ba1 = ba_cap ba" "ba_size ba1 = ba_size ba"
    using seek wf by (auto simp: setPosition_range)
  obtain ba2 where ty: "readFuint8 ba1 = Inr (getType m, ba2)"
    and at: "reading_at BigEndian (ba_size ba) (ba_cap ba) ba2"
    and rest2: "ba_rest ba2 = message_fields m @ body_bytes (message_body m)"
    using consumesD [OF consumes_at_codec(2), of BigEndian "ba_size ba" "ba_cap ba" ba1 "getType m"]
      rd rest cap by (auto simp: reading_at_def message_bytes_def)
  have "ba_size ba = length (message_bytes m)"
    using ba_wf_content_length [OF wf] content by simp
  moreover have "ba_cap ba mod 4096 = 0"
    using wf base by (simp add: ba_wf_def)
  ultimately have "\<not> (message_body m = [] \<and> ba_size ba = ba_cap ba)"
    using body by auto
  then have "\<exists>m0. empty_message (getType m) = Some m0 \<and> Rock_parse m0 ba2 = Inr (Some m)"
    using Rock_parse_fields [OF at ok rest2] by (simp only: if_False)
  then show ?thesis
    using seek ty by (cases m) (auto simp: decode_payload_def)
qed

lemma parseFrom_frame:
  assumes del: "delivers recv pending" and delv: "delivers_iov recvmsg pending"
    and pend: "pending s = rock_frame m @ r"
    and ok: "message_ok m" and max: "length (message_bytes m) \<le> max_message"
    and short: "(of_nat (length (message_bytes m)) :: u32) < max_length"
    and body: "message_body m = [] \<longrightarrow> length (message_bytes m) mod 4096 \<noteq> 0"
  shows "\<exists>s'. parseFrom recv recvmsg True max_length gunzip mem s = Some (Inr (Some m, s')) \<and> pending s' = r"
proof -
  let ?n = "length (message_bytes m)"
  have len: "?n < 2 ^ 31" using max by (simp add: max_message_def IOV_MAX_def)
  let ?h = "new_header\<lparr>hd_length := byteswapOnLittleEndian 4 (of_nat ?n)\<rparr>"
  have magic: "length (hd_magic ?h) = 2" "hd_magic ?h = rock_magic" "hd_version ?h = 1" "hd_flag ?h = 0"
    by (simp_all add: new_header_def rock_magic_def)
  note hlen = length_header_bytes [OF magic(1)]
  have pend8: "8 \<le> length (pending s)" "take 8 (pending s) = header_bytes ?h"
    "drop 8 (pending s) = message_bytes m @ r"
    using pend hlen by (simp_all add: rock_frame_def)
  obtain hmem s1 where hd: "readFixSize recv True 8 (header_memory new_header, s) = Some (Inr (8, hmem, s1))"
    "load_bytes 0 8 hmem = header_bytes ?h" "pending s1 = message_bytes m @ r"
    using readFixSize_fills [OF del, of 8 s "header_memory new_header"] pend8 by auto
  have hdr: "header_of (load_bytes 0 8 hmem) = ?h"
    unfolding hd(2) by (rule header_of_bytes [OF magic(1)])
  have sw: "byteswapOnLittleEndian 4 (hd_length ?h) = of_nat ?n"
    using byteswap_byteswap [of 4 "of_nat ?n :: u32"] by (simp add: byteswapOnLittleEndian_def)
  have sc: "(scast (of_nat ?n :: u32) :: u64) = of_nat ?n"
  proof -
    have "sint (of_nat ?n :: u32) = int ?n"
      using len by (simp add: signed_of_nat signed_take_bit_int_eq_self)
    then show ?thesis by (simp add: scast_eq)
  qed
  let ?ba0 = "new_byte_array mem 4096"
  have few: "few_nodes ?n ?ba0"
    using few_nodes_message [of ?ba0 ?n] max by (simp add: new_byte_array_def)
  have "ba_wf ?ba0" by (simp add: new_byte_array_wf)
  then obtain ba s2 where bd: "readFixSize_ba recvmsg True (of_nat ?n) (?ba0, s1) = Some (Inr (int ?n, ba, s2))"
    "ba_wf ba" "ba_pos ba = ?n" "ba_content ba = message_bytes m" "ba_base ba = 4096"
    "ba_endian ba = BigEndian" "pending s2 = r"
    using readFixSize_ba_receives [OF delv, of ?ba0 ?n s1] hd(3) len few
    by (auto simp: new_byte_array_empty put_at_def) (auto simp: new_byte_array_def)
  have "decode_payload gunzip mem 0 ba = Inr (Some m)"
    using decode_payload_plain [OF bd(2,6,5,4,3) ok body] .
  then have "catch_all (decode_payload gunzip mem (hd_flag ?h) ba) = Inr (Some (Some m))"
    using magic(4) by (simp add: catch_all_def)
  then show ?thesis
    using hd(1) hdr sw short sc bd(1,7) magic(2,3) message_bytes_pos [of m]
    by (simp add: parseFrom_def Let_def not_le)
qed

text \<open>A peer that takes at most two bytes of each send.\<close>

definition sip :: "bytes send" where
  "sip bs s = (int (min 2 (length bs)), s @ take 2 bs)"

lemma sip_accepts: "accepts sip (\<lambda>s. s)"
  unfolding accepts_def
proof (intro allI impI)
  fix bs s :: bytes
  assume "bs \<noteq> []"
  then show "\<exists>k s'. sip bs s = (int k, s') \<and> 0 < k \<and> k \<le> length bs \<and> s' = s @ take k bs"
    by (intro exI [of _ "min 2 (length bs)"]) (auto simp: sip_def min_def)
qed

definition sip_iov :: "bytes sendmsg" where
  "sip_iov bss s = (if length bss \<le> IOV_MAX then sip (concat bss) s else (- 1, s))"

lemma sip_iov_accepts: "accepts_iov sip_iov (\<lambda>s. s)"
  using sip_accepts by (simp add: accepts_iov_def accepts_def sip_iov_def del: concat_eq_Nil_conv)

lemma sample_length:
  "length (message_bytes (MNotify \<lparr>ntf_notify = 7, rntf_body = [1]\<rparr>)) = 7"
  by (simp add: message_bytes_def notify_bytes_def body_bytes_def uvar_bytes.simps [of 7])

text \<open>C4: what \<open>serializeTo\<close> sends for a message below the compression threshold is a frame that
  \<open>parseFrom\<close>, on a connection that delivers it in pieces of any size, turns back into the same
  message, leaving the bytes after the frame. The hypotheses are the length fields of the format,
  the configured maximum, at most 4 MiB (\<open>IOV_MAX\<close> nodes of 4096 bytes: more of them are refused by
  one \<open>sendmsg\<close> or \<open>recvmsg\<close>, see \<open>large_message_not_sent\<close>), and that an empty body does not end
  exactly on a node boundary.\<close>

theorem rock_roundtrip:
  assumes "accepts send sent" "accepts_iov sendmsg sent"
    and "delivers recv pending" "delivers_iov recvmsg pending" and "message_ok m"
    and "length (message_bytes m) \<le> max_message"
    and "(of_nat (length (message_bytes m)) :: u32) < gzip_min"
    and "(of_nat (length (message_bytes m)) :: u32) < max_length"
    and "message_body m = [] \<longrightarrow> length (message_bytes m) mod 4096 \<noteq> 0"
  shows "\<exists>out s1. serializeTo send sendmsg True gzip_min gzip mem m s =
      Some (Inr (8 + int (length (message_bytes m)), s1)) \<and> sent s1 = sent s @ out \<and>
    (\<forall>t r. pending t = out @ r \<longrightarrow>
      (\<exists>t'. parseFrom recv recvmsg True max_length gunzip mem t = Some (Inr (Some m, t')) \<and> pending t' = r))"
proof -
  obtain s1 where s1: "serializeTo send sendmsg True gzip_min gzip mem m s =
      Some (Inr (8 + int (length (message_bytes m)), s1))" "sent s1 = sent s @ rock_frame m"
    using serializeTo_sends [OF assms(1,2,6,7)] by blast
  have "\<exists>t'. parseFrom recv recvmsg True max_length gunzip mem t = Some (Inr (Some m, t')) \<and> pending t' = r"
    if "pending t = rock_frame m @ r" for t r
    using parseFrom_frame [OF assms(3,4) that assms(5,6,8,9)] by blast
  with s1 show ?thesis by blast
qed

theorem rock_roundtrip_witness:
  "\<exists>out s1. serializeTo sip sip_iov True (2 ^ 26) (\<lambda>bs. (0, 0, [])) (\<lambda>_. 0)
      (MNotify \<lparr>ntf_notify = 7, rntf_body = [1]\<rparr>) [] = Some (Inr (15, s1)) \<and> s1 = out \<and>
    (\<exists>t'. parseFrom drip drip_iov True (2 ^ 26) (\<lambda>bs. (0, 0, [])) (\<lambda>_. 0) (out @ [9]) =
      Some (Inr (Some (MNotify \<lparr>ntf_notify = 7, rntf_body = [1]\<rparr>), t')) \<and> t' = [9])"
  using rock_roundtrip [OF sip_accepts sip_iov_accepts drip_delivers drip_iov_delivers,
      of "MNotify \<lparr>ntf_notify = 7, rntf_body = [1]\<rparr>"
      "2 ^ 26" "2 ^ 26" "\<lambda>bs. (0, 0, [])" "\<lambda>_. 0" "[]" "\<lambda>bs. (0, 0, [])"]
  by (auto simp: sample_length max_message_def IOV_MAX_def)

text \<open>
  A message of more than 4 MiB that is not compressed: its header goes out, nothing of the message
  does, and what \<open>serializeTo\<close> returns (after 2^64 failing calls less its length) is the size of the
  whole frame.
\<close>

theorem large_message_not_sent:
  assumes acc: "accepts send sent" and refuses: "refuses_long_iov sendmsg"
    and large: "max_message < length (message_bytes m)" and len: "length (message_bytes m) < 2 ^ 31 - 8"
    and plain: "(of_nat (length (message_bytes m)) :: u32) < gzip_min"
  shows "\<exists>s'. serializeTo send sendmsg True gzip_min gzip mem m s =
      Some (Inr (8 + int (length (message_bytes m)), s')) \<and>
    sent s' = sent s @ take 8 (rock_frame m)"
proof -
  let ?n = "length (message_bytes m)"
  obtain ba where ba: "toByteArray mem m = Inr (Some ba)" "appending BigEndian ba"
    "ba_content ba = message_bytes m"
    using toByteArray_bytes by blast
  obtain ba1 where seek: "setPosition 0 ba = Inr ba1" and rd: "reading BigEndian ba1"
    and rest: "ba_rest ba1 = message_bytes m"
    using rewound [OF ba(2)] ba(3) by metis
  have wf1: "ba_wf ba1" using rd by (simp add: reading_def)
  have rs: "getReadSize ba1 = ?n"
    using ba_wf_rest_length [OF wf1] rest by simp
  have pos: "ba_pos ba1 = 0"
    using seek ba(2) by (auto simp: appending_def setPosition_range)
  then have size: "ba_size ba1 = ?n"
    using rs by (simp add: getReadSize_def)
  have base: "ba_base ba1 = 4096"
    using toByteArray_base [OF ba(1)] seek by (auto simp: setPosition_def bindE_Inr_iff split: if_splits)
  let ?h = "new_header\<lparr>hd_flag := 0, hd_length := byteswapOnLittleEndian 4 (of_nat ?n)\<rparr>"
  have magic: "length (hd_magic ?h) = 2"
    by (simp add: new_header_def rock_magic_def)
  obtain s1 where w1: "writeFixSize send True (header_memory ?h) 8 s = Some (Inr (8, s1))"
    "sent s1 = sent s @ header_bytes ?h"
    using writeFixSize_sends [OF acc, of 8 "header_memory ?h" s] load_header [OF magic] by auto
  have "\<not> few_nodes (getReadSize ba1) ba1"
    using few_nodes_message [OF pos base] large rs by simp
  moreover have "getReadSize ba1 < 2 ^ 64" using len rs by simp
  ultimately have w2: "writeFixSize_ba sendmsg True (of_nat ?n) (ba1, s1) =
      Some (Inr (c_int (of_nat ?n), ba1, s1))"
    using long_buffer_refused [OF wf1 _ _ refuses] rs by metis
  have c: "c_int (of_nat (8 + ?n)) = 8 + int ?n" "c_int (of_nat ?n) = int ?n"
    using len by (simp_all add: ba_receive.c_int_whole del: of_nat_add)
  have "new_header\<lparr>hd_length := byteswapOnLittleEndian 4 (of_nat ?n)\<rparr> = ?h"
    by (simp add: new_header_def)
  then have "take 8 (rock_frame m) = header_bytes ?h"
    using length_header_bytes [OF magic] by (simp add: rock_frame_def)
  then show ?thesis
    using ba(1) seek size rs plain w1 w2 c message_bytes_pos [of m]
    by (auto simp: serializeTo_def not_le Let_def simp del: of_nat_add)
qed

text \<open>A frame whose magic number or version is wrong, or whose length field is not below the
  configured maximum, is refused: the decoder returns no message and has taken the eight header
  bytes only.\<close>

theorem rock_refuses_bad_header:
  assumes "delivers recv pending" and "8 \<le> length (pending s)"
    and "let h = header_of (take 8 (pending s)) in
      hd_magic h \<noteq> rock_magic \<or> hd_version h \<noteq> 1 \<or> byteswapOnLittleEndian 4 (hd_length h) \<ge> max_length"
  shows "\<exists>s'. parseFrom recv recvmsg True max_length gunzip mem s = Some (Inr (None, s')) \<and>
    pending s' = drop 8 (pending s)"
proof -
  obtain hmem s1 where "readFixSize recv True 8 (header_memory new_header, s) = Some (Inr (8, hmem, s1))"
    "load_bytes 0 8 hmem = take 8 (pending s)" "pending s1 = drop 8 (pending s)"
    using readFixSize_fills [OF assms(1), of 8 s "header_memory new_header"] assms(2) by auto
  then show ?thesis
    using assms(3) by (auto simp: parseFrom_def Let_def)
qed

theorem rock_refuses_bad_header_witness:
  "\<exists>s'. parseFrom drip drip_iov True 64 (\<lambda>bs. (0, 0, [])) (\<lambda>_. 0) [0x12, 0x22, 1, 0, 0, 0, 0, 1, 5] =
     Some (Inr (None, s')) \<and> s' = [5]"
  using rock_refuses_bad_header [OF drip_delivers, of "[0x12, 0x22, 1, 0, 0, 0, 0, 1, 5]" 64]
  by (simp add: header_of_def rock_magic_def)

end
