(* ===== verification/LruCache.thy ===== *)
theory LruCache
  imports Prelude "HOL-Library.AList"
begin

text \<open>
  The caches of \<open>src/ds/Cache.h\<close> and \<open>src/ds/LRUCache.h\<close>: counters, the least-recently-used
  cache, and its sharded form. A node of the list \<open>_keys\<close> is a triple of its address, key and
  value; \<open>_cache\<close> maps a key to the address, and following an address that is not in the list
  is \<open>BadIter\<close>. Counters are integers, the limits are of type \<open>size_t\<close> and their sum wraps. The pairs given to the prune callback are returned. The
  locks make each operation atomic and are not modelled.
\<close>

section \<open>Counters\<close>

record cache_status =
  st_get :: int
  st_set :: int
  st_del :: int
  st_timeout :: int
  st_prune :: int
  st_hit :: int

definition new_status :: cache_status where
  "new_status = \<lparr>st_get = 0, st_set = 0, st_del = 0, st_timeout = 0, st_prune = 0, st_hit = 0\<rparr>"

definition incGet :: "int \<Rightarrow> cache_status \<Rightarrow> cache_status" where
  "incGet n s = s\<lparr>st_get := st_get s + n\<rparr>"

definition incSet :: "int \<Rightarrow> cache_status \<Rightarrow> cache_status" where
  "incSet n s = s\<lparr>st_set := st_set s + n\<rparr>"

definition incDel :: "int \<Rightarrow> cache_status \<Rightarrow> cache_status" where
  "incDel n s = s\<lparr>st_del := st_del s + n\<rparr>"

definition incTimeout :: "int \<Rightarrow> cache_status \<Rightarrow> cache_status" where
  "incTimeout n s = s\<lparr>st_timeout := st_timeout s + n\<rparr>"

definition incPrune :: "int \<Rightarrow> cache_status \<Rightarrow> cache_status" where
  "incPrune n s = s\<lparr>st_prune := st_prune s + n\<rparr>"

definition incHit :: "int \<Rightarrow> cache_status \<Rightarrow> cache_status" where
  "incHit n s = s\<lparr>st_hit := st_hit s + n\<rparr>"

definition status_merge :: "cache_status \<Rightarrow> cache_status \<Rightarrow> cache_status" where
  "status_merge o2 s = s\<lparr>st_get := st_get s + st_get o2, st_set := st_set s + st_set o2,
     st_del := st_del s + st_del o2, st_prune := st_prune s + st_prune o2,
     st_timeout := st_timeout s + st_timeout o2, st_hit := st_hit s + st_hit o2\<rparr>"

section \<open>The cache\<close>

record ('k, 'v) lru_cache =
  lru_map :: "('k \<times> nat) list"
  lru_keys :: "(nat \<times> 'k \<times> 'v) list"
  lru_next :: nat
  lru_maxSize :: u64
  lru_elasticity :: u64
  lru_status :: cache_status

definition new_lru :: "u64 \<Rightarrow> u64 \<Rightarrow> cache_status \<Rightarrow> ('k, 'v) lru_cache" where
  "new_lru max_size elasticity st =
     \<lparr>lru_map = [], lru_keys = [], lru_next = 0, lru_maxSize = max_size,
      lru_elasticity = elasticity, lru_status = st\<rparr>"

definition getMaxAllowedSize :: "('k, 'v) lru_cache \<Rightarrow> u64" where
  "getMaxAllowedSize c = lru_maxSize c + lru_elasticity c"

definition lru_size :: "('k, 'v) lru_cache \<Rightarrow> nat" where
  "lru_size c = length (lru_map c)"

definition lru_empty :: "('k, 'v) lru_cache \<Rightarrow> bool" where
  "lru_empty c \<longleftrightarrow> lru_map c = []"

text \<open>\<open>_keys.splice(_keys.begin(), _keys, it)\<close>: the node keeps its address.\<close>

definition splice_front :: "nat \<Rightarrow> 'k \<times> 'v \<Rightarrow> (nat \<times> 'k \<times> 'v) list \<Rightarrow> (nat \<times> 'k \<times> 'v) list" where
  "splice_front it node keys = (it, node) # filter (\<lambda>n. fst n \<noteq> it) keys"

function lru_prune_loop ::
  "nat \<Rightarrow> ('k \<times> nat) list \<Rightarrow> (nat \<times> 'k \<times> 'v) list \<Rightarrow>
   (('k \<times> nat) list \<times> (nat \<times> 'k \<times> 'v) list \<times> ('k \<times> 'v) list) res" where
  "lru_prune_loop max_size m keys =
     (if length m > max_size then
        (if keys = [] then Inl BadIter
         else
           let back = snd (last keys) in
           bindE (lru_prune_loop max_size (AList.delete (fst back) m) (butlast keys))
             (\<lambda>(m', keys', pruned). Inr (m', keys', back # pruned)))
      else Inr (m, keys, []))"
  by pat_completeness auto
termination
  by (relation "measure (\<lambda>(n, m, keys). length keys)") auto

declare lru_prune_loop.simps [simp del]

definition lru_prune :: "('k, 'v) lru_cache \<Rightarrow> (('k \<times> 'v) list \<times> ('k, 'v) lru_cache) res" where
  "lru_prune c =
     (if lru_maxSize c = 0 \<or> lru_size c < unat (getMaxAllowedSize c) then Inr ([], c)
      else bindE (lru_prune_loop (unat (lru_maxSize c)) (lru_map c) (lru_keys c))
        (\<lambda>(m, keys, pruned).
          Inr (pruned, c\<lparr>lru_map := m, lru_keys := keys,
                         lru_status := incPrune (int (length pruned)) (lru_status c)\<rparr>)))"

definition lru_set ::
  "'k \<Rightarrow> 'v \<Rightarrow> ('k, 'v) lru_cache \<Rightarrow> (('k \<times> 'v) list \<times> ('k, 'v) lru_cache) res" where
  "lru_set k v c0 =
     (let c = c0\<lparr>lru_status := incSet 1 (lru_status c0)\<rparr> in
      case map_of (lru_map c) k of
        Some it \<Rightarrow>
          (case map_of (lru_keys c) it of
             None \<Rightarrow> Inl BadIter
           | Some (k', _) \<Rightarrow> Inr ([], c\<lparr>lru_keys := splice_front it (k', v) (lru_keys c)\<rparr>))
      | None \<Rightarrow>
          lru_prune (c\<lparr>lru_keys := (lru_next c, k, v) # lru_keys c,
                       lru_map := (k, lru_next c) # lru_map c,
                       lru_next := Suc (lru_next c)\<rparr>))"

definition lru_get :: "'k \<Rightarrow> ('k, 'v) lru_cache \<Rightarrow> ('v option \<times> ('k, 'v) lru_cache) res" where
  "lru_get k c0 =
     (let c = c0\<lparr>lru_status := incGet 1 (lru_status c0)\<rparr> in
      case map_of (lru_map c) k of
        None \<Rightarrow> Inr (None, c)
      | Some it \<Rightarrow>
          (case map_of (lru_keys c) it of
             None \<Rightarrow> Inl BadIter
           | Some (k', v) \<Rightarrow>
               Inr (Some v, c\<lparr>lru_keys := splice_front it (k', v) (lru_keys c),
                              lru_status := incHit 1 (lru_status c)\<rparr>)))"

text \<open>\<open>V get(const K& k)\<close> gives a default value for a missing key.\<close>

definition lru_get_or :: "'v \<Rightarrow> 'k \<Rightarrow> ('k, 'v) lru_cache \<Rightarrow> ('v \<times> ('k, 'v) lru_cache) res" where
  "lru_get_or dflt k c =
     bindE (lru_get k c) (\<lambda>(r, c'). Inr (case r of None \<Rightarrow> dflt | Some v \<Rightarrow> v, c'))"

definition lru_del :: "'k \<Rightarrow> ('k, 'v) lru_cache \<Rightarrow> (bool \<times> ('k, 'v) lru_cache) res" where
  "lru_del k c0 =
     (let c = c0\<lparr>lru_status := incDel 1 (lru_status c0)\<rparr> in
      case map_of (lru_map c) k of
        None \<Rightarrow> Inr (False, c)
      | Some it \<Rightarrow>
          (case map_of (lru_keys c) it of
             None \<Rightarrow> Inl BadIter
           | Some _ \<Rightarrow>
               Inr (True, c\<lparr>lru_keys := filter (\<lambda>n. fst n \<noteq> it) (lru_keys c),
                            lru_map := AList.delete k (lru_map c)\<rparr>)))"

definition lru_exists :: "'k \<Rightarrow> ('k, 'v) lru_cache \<Rightarrow> bool" where
  "lru_exists k c \<longleftrightarrow> map_of (lru_map c) k \<noteq> None"

definition lru_clear :: "('k, 'v) lru_cache \<Rightarrow> ('k, 'v) lru_cache" where
  "lru_clear c = c\<lparr>lru_map := [], lru_keys := []\<rparr>"

definition lru_setMaxSize :: "u64 \<Rightarrow> ('k, 'v) lru_cache \<Rightarrow> ('k, 'v) lru_cache" where
  "lru_setMaxSize n c = c\<lparr>lru_maxSize := n\<rparr>"

definition lru_setElasticity :: "u64 \<Rightarrow> ('k, 'v) lru_cache \<Rightarrow> ('k, 'v) lru_cache" where
  "lru_setElasticity n c = c\<lparr>lru_elasticity := n\<rparr>"

section \<open>Specification\<close>

text \<open>
  The abstract cache is the list of its pairs, the most recently used first. A new key that
  brings the size to the allowed one, the wrapped sum \<open>mx + el\<close>, cuts the list to the maximal size.
\<close>

definition touch :: "'k \<Rightarrow> 'v \<Rightarrow> ('k \<times> 'v) list \<Rightarrow> ('k \<times> 'v) list" where
  "touch k v l = (k, v) # filter (\<lambda>p. fst p \<noteq> k) l"

definition spec_set :: "u64 \<Rightarrow> u64 \<Rightarrow> 'k \<Rightarrow> 'v \<Rightarrow> ('k \<times> 'v) list \<Rightarrow> ('k \<times> 'v) list" where
  "spec_set mx el k v l =
     (if k \<in> fst ` set l \<or> mx = 0 \<or> Suc (length l) < unat (mx + el) then touch k v l
      else take (unat mx) (touch k v l))"

definition spec_get :: "'k \<Rightarrow> ('k \<times> 'v) list \<Rightarrow> 'v option \<times> ('k \<times> 'v) list" where
  "spec_get k l = (case map_of l k of None \<Rightarrow> (None, l) | Some v \<Rightarrow> (Some v, touch k v l))"

definition spec_del :: "'k \<Rightarrow> ('k \<times> 'v) list \<Rightarrow> bool \<times> ('k \<times> 'v) list" where
  "spec_del k l = (k \<in> fst ` set l, filter (\<lambda>p. fst p \<noteq> k) l)"

definition lru_abs :: "('k, 'v) lru_cache \<Rightarrow> ('k \<times> 'v) list" where
  "lru_abs c = map snd (lru_keys c)"

text \<open>The hash map points to the node of its key, for every node of the list.\<close>

definition lru_linked :: "('k \<times> nat) list \<Rightarrow> (nat \<times> 'k \<times> 'v) list \<Rightarrow> bool" where
  "lru_linked m keys \<longleftrightarrow>
     distinct (map fst m) \<and> distinct (map fst keys) \<and> distinct (map (fst \<circ> snd) keys) \<and>
     length m = length keys \<and> (\<forall>(it, k, v) \<in> set keys. map_of m k = Some it)"

definition lru_ok :: "('k, 'v) lru_cache \<Rightarrow> bool" where
  "lru_ok c \<longleftrightarrow> lru_linked (lru_map c) (lru_keys c) \<and> (\<forall>n \<in> set (lru_keys c). fst n < lru_next c)"

section \<open>Map and list agree\<close>

lemma linked_keys:
  assumes "lru_linked m keys"
  shows "fst ` set m = (fst \<circ> snd) ` set keys"
proof (rule card_subset_eq [symmetric])
  show "finite (fst ` set m)" by simp
  show "(fst \<circ> snd) ` set keys \<subseteq> fst ` set m"
  proof
    fix k assume "k \<in> (fst \<circ> snd) ` set keys"
    then obtain it v where "(it, k, v) \<in> set keys" by auto
    then have "map_of m k = Some it" using assms by (auto simp: lru_linked_def)
    then show "k \<in> fst ` set m" by (metis map_of_eq_None_iff option.discI)
  qed
  have "card (fst ` set m) = length m"
    using assms distinct_card [of "map fst m"] by (simp add: lru_linked_def)
  moreover have "card ((fst \<circ> snd) ` set keys) = length keys"
    using assms distinct_card [of "map (fst \<circ> snd) keys"] by (simp add: lru_linked_def)
  ultimately show "card ((fst \<circ> snd) ` set keys) = card (fst ` set m)"
    using assms by (simp add: lru_linked_def)
qed

lemma linked_absent:
  "lru_linked m keys \<Longrightarrow> map_of m k = None \<longleftrightarrow> k \<notin> fst ` set (map snd keys)"
  using linked_keys [of m keys] by (simp add: map_of_eq_None_iff image_comp)

lemma linked_present:
  assumes l: "lru_linked m keys" and k: "map_of m k = Some it"
  obtains v where "map_of keys it = Some (k, v)" "map_of (map snd keys) k = Some v" "(it, k, v) \<in> set keys"
proof -
  have "k \<in> fst ` set m" using k by (metis map_of_eq_None_iff option.discI)
  then obtain it' v where mem: "(it', k, v) \<in> set keys"
    using linked_keys [OF l] by auto
  then have "it' = it" using l k by (auto simp: lru_linked_def)
  with mem have "(it, k, v) \<in> set keys" by simp
  moreover from this have "map_of keys it = Some (k, v)"
    using l by (simp add: lru_linked_def)
  moreover have "map_of (map snd keys) k = Some v"
    using \<open>(it, k, v) \<in> set keys\<close> l
    by (intro map_of_is_SomeI) (force simp: lru_linked_def)+
  ultimately show ?thesis by (rule that [rotated -1])
qed

lemma linked_node_key:
  assumes l: "lru_linked m keys" and k: "map_of m k = Some it" and n: "n \<in> set keys"
  shows "fst n = it \<longleftrightarrow> fst (snd n) = k"
proof -
  obtain i k' v where n': "n = (i, k', v)" by (cases n)
  obtain w where w: "(it, k, w) \<in> set keys" using linked_present [OF l k] by blast
  have "map_of m k' = Some i" using l n n' by (auto simp: lru_linked_def)
  moreover have "i = it \<Longrightarrow> (k', v) = (k, w)"
    using l n n' w by (auto simp: lru_linked_def dest: eq_key_imp_eq_value)
  ultimately show ?thesis using k n' by auto
qed

lemma linked_filter:
  assumes "lru_linked m keys" and "map_of m k = Some it"
  shows "map snd (filter (\<lambda>n. fst n \<noteq> it) keys) = filter (\<lambda>p. fst p \<noteq> k) (map snd keys)"
  using linked_node_key [OF assms] by (simp add: filter_map o_def cong: filter_cong)

lemma linked_length_filter:
  assumes l: "lru_linked m keys" and k: "map_of m k = Some it"
  shows "Suc (length (filter (\<lambda>n. fst n \<noteq> it) keys)) = length keys"
proof -
  obtain v where mem: "(it, k, v) \<in> set keys" using linked_present [OF l k] by blast
  then show ?thesis
    using l by (intro length_filter_key) (force simp: lru_linked_def)+
qed

lemma alist_delete_filter: "AList.delete k m = filter (\<lambda>p. fst p \<noteq> k) m"
  by (auto simp: AList.delete_eq intro: filter_cong)

lemma linked_delete:
  assumes l: "lru_linked m keys" and k: "map_of m k = Some it"
  shows "lru_linked (AList.delete k m) (filter (\<lambda>n. fst n \<noteq> it) keys)"
proof -
  have d: "distinct (map fst m)" using l by (simp add: lru_linked_def)
  have "k \<in> fst ` set m" using k by (metis map_of_eq_None_iff option.discI)
  then have "Suc (length (AList.delete k m)) = length m"
    unfolding alist_delete_filter using d by (intro length_filter_key)
  then have "length (AList.delete k m) = length (filter (\<lambda>n. fst n \<noteq> it) keys)"
    using linked_length_filter [OF l k] l by (simp add: lru_linked_def)
  moreover have "map_of (AList.delete k m) k' = Some i"
    if "(i, k', v) \<in> set keys" "i \<noteq> it" for i k' v
  proof -
    have "map_of m k' = Some i" using that l by (auto simp: lru_linked_def)
    moreover from this have "k' \<noteq> k" using that k by auto
    ultimately show ?thesis by (simp add: AList.delete_conv')
  qed
  ultimately show ?thesis
    using l d by (auto simp: lru_linked_def distinct_map_filter AList.distinct_delete)
qed

lemma linked_splice:
  assumes l: "lru_linked m keys" and k: "map_of m k = Some it"
  shows "lru_linked m (splice_front it (k, v) keys)"
proof -
  have "(\<lambda>n. fst (snd n)) n \<noteq> k" if "n \<in> set keys" "fst n \<noteq> it" for n
    using linked_node_key [OF l k that(1)] that(2) by simp
  then show ?thesis
    using l k linked_length_filter [OF l k]
    by (auto simp: lru_linked_def splice_front_def distinct_map_filter)
qed

lemma linked_push:
  assumes "lru_linked m keys" and "map_of m k = None" and "it \<notin> fst ` set keys"
  shows "lru_linked ((k, it) # m) ((it, k, v) # keys)"
proof -
  have k: "k \<notin> (fst \<circ> snd) ` set keys"
    using assms(2) linked_keys [OF assms(1)] by (simp add: map_of_eq_None_iff)
  then have "k' \<noteq> k" if "(i, k', w) \<in> set keys" for i k' w
    using that by force
  then show ?thesis
    using assms k by (auto simp: lru_linked_def map_of_eq_None_iff image_comp)
qed

lemma abs_splice:
  assumes "lru_linked m keys" and "map_of m k = Some it"
  shows "map snd (splice_front it (k, v) keys) = touch k v (map snd keys)"
  using linked_filter [OF assms] by (simp add: splice_front_def touch_def)

section \<open>Pruning\<close>

lemma lru_prune_loop_ok:
  "lru_linked m keys \<Longrightarrow>
   \<exists>m'. lru_prune_loop mx m keys = Inr (m', take mx keys, map snd (rev (drop mx keys))) \<and>
     lru_linked m' (take mx keys)"
proof (induction keys arbitrary: m rule: rev_induct)
  case Nil
  then show ?case by (simp add: lru_linked_def lru_prune_loop.simps)
next
  case (snoc n keys)
  obtain it k v where n: "n = (it, k, v)" by (cases n)
  have len: "length m = Suc (length keys)"
    using snoc.prems by (simp add: lru_linked_def)
  show ?case
  proof (cases "length m > mx")
    case False
    then show ?thesis
      using snoc.prems len by (simp add: lru_prune_loop.simps)
  next
    case True
    have k: "map_of m k = Some it"
      using snoc.prems n by (auto simp: lru_linked_def)
    have "filter (\<lambda>n. fst n \<noteq> it) (keys @ [n]) = keys"
      using snoc.prems n by (auto simp: lru_linked_def filter_id_conv)
    then have "lru_linked (AList.delete k m) keys"
      using linked_delete [OF snoc.prems k] by simp
    from snoc.IH [OF this] obtain m' where
      "lru_prune_loop mx (AList.delete k m) keys = Inr (m', take mx keys, map snd (rev (drop mx keys)))"
      "lru_linked m' (take mx keys)"
      by blast
    then show ?thesis
      using True len n by (subst lru_prune_loop.simps) (simp add: Let_def)
  qed
qed

section \<open>The operations implement the specification\<close>

lemma lru_prune_ok:
  assumes "lru_ok c"
  shows "\<exists>pruned c'. lru_prune c = Inr (pruned, c') \<and> lru_ok c' \<and>
    lru_maxSize c' = lru_maxSize c \<and> lru_elasticity c' = lru_elasticity c \<and>
    (if lru_maxSize c = 0 \<or> length (lru_abs c) < unat (getMaxAllowedSize c)
     then lru_abs c' = lru_abs c \<and> pruned = []
     else lru_abs c' = take (unat (lru_maxSize c)) (lru_abs c) \<and> pruned = rev (drop (unat (lru_maxSize c)) (lru_abs c)))"
proof -
  have l: "lru_linked (lru_map c) (lru_keys c)" using assms by (simp add: lru_ok_def)
  then have size: "lru_size c = length (lru_abs c)"
    by (simp add: lru_size_def lru_abs_def lru_linked_def)
  obtain m' where loop: "lru_prune_loop (unat (lru_maxSize c)) (lru_map c) (lru_keys c) =
      Inr (m', take (unat (lru_maxSize c)) (lru_keys c), map snd (rev (drop (unat (lru_maxSize c)) (lru_keys c))))"
    and l': "lru_linked m' (take (unat (lru_maxSize c)) (lru_keys c))"
    using lru_prune_loop_ok [OF l] by blast
  have "lru_ok (c\<lparr>lru_map := m', lru_keys := take (unat (lru_maxSize c)) (lru_keys c), lru_status := st\<rparr>)" for st
    using l' assms by (auto simp: lru_ok_def dest: in_set_takeD)
  then show ?thesis
    using assms loop size
    by (auto simp: lru_prune_def lru_abs_def take_map drop_map rev_map)
qed

lemma lru_set_ok:
  assumes ok: "lru_ok c"
  shows "\<exists>pruned c'. lru_set k v c = Inr (pruned, c') \<and> lru_ok c' \<and>
    lru_maxSize c' = lru_maxSize c \<and> lru_elasticity c' = lru_elasticity c \<and>
    lru_abs c' = spec_set (lru_maxSize c) (lru_elasticity c) k v (lru_abs c)"
proof (cases "map_of (lru_map c) k")
  case (Some it)
  have l: "lru_linked (lru_map c) (lru_keys c)" using ok by (simp add: lru_ok_def)
  obtain w where w: "map_of (lru_keys c) it = Some (k, w)" "map_of (lru_abs c) k = Some w"
    "(it, k, w) \<in> set (lru_keys c)"
    using linked_present [OF l Some] by (metis lru_abs_def)
  have "k \<in> fst ` set (lru_abs c)"
    using linked_absent [OF l, of k] Some by (simp add: lru_abs_def)
  then have "spec_set (lru_maxSize c) (lru_elasticity c) k v (lru_abs c) = touch k v (lru_abs c)"
    by (simp add: spec_set_def)
  moreover have "lru_ok (c\<lparr>lru_status := st, lru_keys := splice_front it (k, v) (lru_keys c)\<rparr>)" for st
    using linked_splice [OF l Some, of v] ok w(3) by (auto simp: lru_ok_def splice_front_def)
  ultimately show ?thesis
    using Some w(1) abs_splice [OF l Some, of v] by (simp add: lru_set_def Let_def lru_abs_def)
next
  case None
  let ?c = "c\<lparr>lru_status := incSet 1 (lru_status c), lru_keys := (lru_next c, k, v) # lru_keys c,
      lru_map := (k, lru_next c) # lru_map c, lru_next := Suc (lru_next c)\<rparr>"
  have l: "lru_linked (lru_map c) (lru_keys c)" using ok by (simp add: lru_ok_def)
  have "lru_next c \<notin> fst ` set (lru_keys c)" using ok by (auto simp: lru_ok_def)
  from linked_push [OF l None this, of v] have ok': "lru_ok ?c"
    using ok by (auto simp: lru_ok_def)
  have "k \<notin> fst ` set (lru_abs c)"
    using linked_absent [OF l, of k] None by (simp add: lru_abs_def)
  then have "filter (\<lambda>p. fst p \<noteq> k) (lru_abs c) = lru_abs c"
    by (intro filter_True) (metis imageI)
  then have abs': "lru_abs ?c = touch k v (lru_abs c)" "length (lru_abs ?c) = Suc (length (lru_abs c))"
    by (simp_all add: lru_abs_def touch_def)
  have "lru_set k v c = lru_prune ?c"
    using None by (simp add: lru_set_def Let_def)
  then show ?thesis
    using lru_prune_ok [OF ok'] abs' \<open>k \<notin> fst ` set (lru_abs c)\<close>
    by (auto simp: spec_set_def getMaxAllowedSize_def split: if_splits)
qed

lemma lru_get_ok:
  assumes ok: "lru_ok c"
  shows "\<exists>c'. lru_get k c = Inr (fst (spec_get k (lru_abs c)), c') \<and> lru_ok c' \<and>
    lru_maxSize c' = lru_maxSize c \<and> lru_elasticity c' = lru_elasticity c \<and>
    lru_abs c' = snd (spec_get k (lru_abs c))"
proof (cases "map_of (lru_map c) k")
  case None
  have "map_of (lru_abs c) k = None"
    using linked_absent [of "lru_map c" "lru_keys c" k] ok None
    by (simp add: lru_ok_def lru_abs_def map_of_eq_None_iff)
  then show ?thesis
    using None ok by (simp add: lru_get_def Let_def spec_get_def lru_ok_def lru_abs_def)
next
  case (Some it)
  have l: "lru_linked (lru_map c) (lru_keys c)" using ok by (simp add: lru_ok_def)
  obtain w where w: "map_of (lru_keys c) it = Some (k, w)" "map_of (lru_abs c) k = Some w"
    "(it, k, w) \<in> set (lru_keys c)"
    using linked_present [OF l Some] by (metis lru_abs_def)
  have "lru_ok (c\<lparr>lru_status := st, lru_keys := splice_front it (k, w) (lru_keys c)\<rparr>)" for st
    using linked_splice [OF l Some, of w] ok w(3) by (auto simp: lru_ok_def splice_front_def)
  then show ?thesis
    using Some w(1,2) abs_splice [OF l Some, of w]
    by (simp add: lru_get_def Let_def lru_abs_def spec_get_def lru_ok_def)
qed

lemma lru_del_ok:
  assumes ok: "lru_ok c"
  shows "\<exists>c'. lru_del k c = Inr (fst (spec_del k (lru_abs c)), c') \<and> lru_ok c' \<and>
    lru_maxSize c' = lru_maxSize c \<and> lru_elasticity c' = lru_elasticity c \<and>
    lru_abs c' = snd (spec_del k (lru_abs c))"
proof (cases "map_of (lru_map c) k")
  case None
  then have abs: "k \<notin> fst ` set (lru_abs c)"
    using linked_absent [of "lru_map c" "lru_keys c" k] ok by (simp add: lru_ok_def lru_abs_def)
  then have "filter (\<lambda>p. fst p \<noteq> k) (lru_abs c) = lru_abs c"
    by (intro filter_True) (metis imageI)
  then show ?thesis
    using None ok abs by (simp add: lru_del_def Let_def spec_del_def lru_ok_def lru_abs_def)
next
  case (Some it)
  have l: "lru_linked (lru_map c) (lru_keys c)" using ok by (simp add: lru_ok_def)
  obtain w where w: "map_of (lru_keys c) it = Some (k, w)"
    using linked_present [OF l Some] by metis
  have "k \<in> fst ` set (lru_abs c)"
    using linked_absent [OF l, of k] Some by (simp add: lru_abs_def)
  then show ?thesis
    using Some w linked_filter [OF l Some] linked_delete [OF l Some] ok
    by (auto simp: lru_del_def Let_def lru_abs_def spec_del_def lru_ok_def)
qed

section \<open>Runs\<close>

datatype ('k, 'v) lru_op = LSet 'k 'v | LGet 'k | LDel 'k | LClear

datatype 'v lru_out = ODone | OGot "'v option" | ODel bool

fun lru_exec :: "('k, 'v) lru_op \<Rightarrow> ('k, 'v) lru_cache \<Rightarrow> ('v lru_out \<times> ('k, 'v) lru_cache) res" where
  "lru_exec (LSet k v) c = bindE (lru_set k v c) (\<lambda>(_, c'). Inr (ODone, c'))"
| "lru_exec (LGet k) c = bindE (lru_get k c) (\<lambda>(r, c'). Inr (OGot r, c'))"
| "lru_exec (LDel k) c = bindE (lru_del k c) (\<lambda>(r, c'). Inr (ODel r, c'))"
| "lru_exec LClear c = Inr (ODone, lru_clear c)"

fun lru_run :: "('k, 'v) lru_op list \<Rightarrow> ('k, 'v) lru_cache \<Rightarrow> ('v lru_out list \<times> ('k, 'v) lru_cache) res" where
  "lru_run [] c = Inr ([], c)"
| "lru_run (op # ops) c =
     bindE (lru_exec op c) (\<lambda>(r, c'). bindE (lru_run ops c') (\<lambda>(rs, c''). Inr (r # rs, c'')))"

fun spec_exec :: "u64 \<Rightarrow> u64 \<Rightarrow> ('k, 'v) lru_op \<Rightarrow> ('k \<times> 'v) list \<Rightarrow> 'v lru_out \<times> ('k \<times> 'v) list" where
  "spec_exec mx el (LSet k v) l = (ODone, spec_set mx el k v l)"
| "spec_exec mx el (LGet k) l = (OGot (fst (spec_get k l)), snd (spec_get k l))"
| "spec_exec mx el (LDel k) l = (ODel (fst (spec_del k l)), snd (spec_del k l))"
| "spec_exec mx el LClear l = (ODone, [])"

fun spec_run :: "u64 \<Rightarrow> u64 \<Rightarrow> ('k, 'v) lru_op list \<Rightarrow> ('k \<times> 'v) list \<Rightarrow> 'v lru_out list \<times> ('k \<times> 'v) list" where
  "spec_run mx el [] l = ([], l)"
| "spec_run mx el (op # ops) l =
     (let (r, l') = spec_exec mx el op l; (rs, l'') = spec_run mx el ops l' in (r # rs, l''))"

lemma lru_exec_ok:
  assumes ok: "lru_ok c"
  shows "\<exists>c'. lru_exec op c = Inr (fst (spec_exec (lru_maxSize c) (lru_elasticity c) op (lru_abs c)), c') \<and>
    lru_ok c' \<and> lru_maxSize c' = lru_maxSize c \<and> lru_elasticity c' = lru_elasticity c \<and>
    lru_abs c' = snd (spec_exec (lru_maxSize c) (lru_elasticity c) op (lru_abs c))"
proof (cases op)
  case (LSet k v)
  then show ?thesis using lru_set_ok [OF ok, of k v] by auto
next
  case (LGet k)
  then show ?thesis using lru_get_ok [OF ok, of k] by auto
next
  case (LDel k)
  then show ?thesis using lru_del_ok [OF ok, of k] by auto
next
  case LClear
  then show ?thesis by (simp add: lru_ok_def lru_clear_def lru_abs_def lru_linked_def)
qed

lemma lru_run_ok:
  assumes "lru_ok c"
  shows "\<exists>c'. lru_run ops c = Inr (fst (spec_run (lru_maxSize c) (lru_elasticity c) ops (lru_abs c)), c') \<and>
    lru_ok c' \<and> lru_abs c' = snd (spec_run (lru_maxSize c) (lru_elasticity c) ops (lru_abs c))"
  using assms
proof (induction ops arbitrary: c)
  case (Cons op ops)
  obtain c1 where c1: "lru_exec op c = Inr (fst (spec_exec (lru_maxSize c) (lru_elasticity c) op (lru_abs c)), c1)"
    "lru_ok c1" "lru_maxSize c1 = lru_maxSize c" "lru_elasticity c1 = lru_elasticity c"
    "lru_abs c1 = snd (spec_exec (lru_maxSize c) (lru_elasticity c) op (lru_abs c))"
    using lru_exec_ok [OF Cons.prems] by blast
  from Cons.IH [OF c1(2)] c1 show ?case
    by (auto simp: split_beta Let_def)
qed simp

lemma new_lru_ok [simp]: "lru_ok (new_lru mx el st)" "lru_abs (new_lru mx el st) = []"
  by (simp_all add: new_lru_def lru_ok_def lru_linked_def lru_abs_def)

lemma new_lru_limits [simp]:
  "lru_maxSize (new_lru mx el st) = mx" "lru_elasticity (new_lru mx el st) = el"
  by (simp_all add: new_lru_def)

text \<open>C22: from an empty cache no sequence of sets, gets, deletes and clears ever follows a dangling
  list iterator, and every answer is that of the specification: the list of pairs by recency that
  is cut to the maximal size when a new key brings it to the allowed one, which is the sum of
  the maximal size and the elasticity modulo 2^64.\<close>

theorem lru_implements_spec:
  "\<exists>c. lru_run ops (new_lru mx el st) = Inr (fst (spec_run mx el ops []), c) \<and>
    lru_ok c \<and> lru_abs c = snd (spec_run mx el ops [])"
  using lru_run_ok [OF new_lru_ok(1), of ops mx el st]
  by simp

lemma spec_set_bound:
  "0 < unat mx \<Longrightarrow> length l \<le> max (unat mx) (unat (mx + el) - 1) \<Longrightarrow> length (spec_set mx el k v l) \<le> max (unat mx) (unat (mx + el) - 1)"
proof (cases "k \<in> fst ` set l")
  case True
  assume a: "length l \<le> max (unat mx) (unat (mx + el) - 1)"
  from True obtain p where "p \<in> set l" "fst p = k" by auto
  then have "length (filter (\<lambda>p. fst p \<noteq> k) l) < length l"
    by (intro length_filter_less) auto
  then show ?thesis using True a by (simp add: spec_set_def touch_def)
next
  case False
  assume "0 < unat mx"
  have "length (touch k v l) \<le> Suc (length l)"
    by (simp add: touch_def)
  then show ?thesis using False \<open>0 < unat mx\<close> by (auto simp: spec_set_def)
qed

lemma spec_exec_bound:
  assumes "0 < unat mx" and "length l \<le> max (unat mx) (unat (mx + el) - 1)"
  shows "length (snd (spec_exec mx el op l)) \<le> max (unat mx) (unat (mx + el) - 1)"
proof (cases op)
  case (LSet k v)
  then show ?thesis using spec_set_bound [OF assms] by simp
next
  case (LGet k)
  show ?thesis
  proof (cases "map_of l k")
    case (Some v)
    then have "(k, v) \<in> set l" by (rule map_of_SomeD)
    then have "length (filter (\<lambda>p. fst p \<noteq> k) l) < length l"
      by (intro length_filter_less) auto
    then show ?thesis using LGet Some assms by (simp add: spec_get_def touch_def)
  qed (use LGet assms in \<open>simp add: spec_get_def\<close>)
next
  case (LDel k)
  have "length (filter (\<lambda>p. fst p \<noteq> k) l) \<le> length l" by simp
  then show ?thesis using LDel assms by (simp add: spec_del_def del: length_filter_le)
qed simp

text \<open>A cache with a maximal size never holds more than \<open>maxSize\<close> pairs, or
  the allowed size less one when that is more, after any sequence of operations.\<close>

theorem lru_size_bounded:
  assumes "0 < unat mx" and "lru_run ops (new_lru mx el st) = Inr (outs, c)"
  shows "lru_size c \<le> max (unat mx) (unat (mx + el) - 1)"
proof -
  have "length l \<le> max (unat mx) (unat (mx + el) - 1) \<Longrightarrow> length (snd (spec_run mx el ops l)) \<le> max (unat mx) (unat (mx + el) - 1)" for l
  proof (induction ops arbitrary: l)
    case (Cons op ops)
    from Cons.IH [OF spec_exec_bound [OF assms(1) Cons.prems, of op]] show ?case
      by (simp add: split_beta Let_def)
  qed simp
  moreover obtain c' where "lru_run ops (new_lru mx el st) = Inr (fst (spec_run mx el ops []), c')"
    "lru_ok c'" "lru_abs c' = snd (spec_run mx el ops [])"
    using lru_run_ok [OF new_lru_ok(1), of ops mx el st]
    by auto
  ultimately have "length (lru_abs c) \<le> max (unat mx) (unat (mx + el) - 1)" "lru_ok c"
    using assms(2) by auto
  then show ?thesis by (simp add: lru_size_def lru_abs_def lru_ok_def lru_linked_def)
qed

theorem lru_size_bounded_witness:
  "\<exists>outs c. lru_run [LSet 1 10, LSet 2 20, LSet (3::nat) (30::nat)] (new_lru 1 1 new_status) = Inr (outs, c) \<and>
     lru_size c \<le> 1"
proof -
  have "\<exists>outs c. lru_run [LSet 1 10, LSet 2 20, LSet (3::nat) (30::nat)] (new_lru 1 1 new_status) = Inr (outs, c)"
    using lru_run_ok [OF new_lru_ok(1)] by blast
  then show ?thesis using lru_size_bounded [of 1] by fastforce
qed

end
