(* ===== verification/HashLru.thy ===== *)
theory HashLru
  imports LruCache
begin

text \<open>
  \<open>HashLRU_Cache\<close> of \<open>src/ds/LRUCache.h\<close>: a vector of caches indexed by the hash of the key.
  The hash function, the conversion of a value to \<open>bool\<close> and the default value \<open>V()\<close> are
  parameters. The quotients are computed in \<open>double\<close>: exact for sizes below 2^53. All shards count in one status object, so a shard is given the status and gives it
  back.
\<close>

record ('k, 'v) hash_lru =
  hl_datas :: "('k, 'v) lru_cache list"
  hl_maxSize :: u64
  hl_elasticity :: u64
  hl_bucket :: nat
  hl_status :: cache_status

text \<open>\<open>std::ceil(n * 1.0 / bucket)\<close> as a \<open>size_t\<close>.\<close>

definition shard_size :: "u64 \<Rightarrow> nat \<Rightarrow> u64" where
  "shard_size n bucket = of_nat (ceil_div (unat n) bucket)"

definition new_hash_lru :: "nat \<Rightarrow> u64 \<Rightarrow> u64 \<Rightarrow> ('k, 'v) hash_lru res" where
  "new_hash_lru bucket max_size elasticity =
     (if bucket = 0 then Inl DivByZero
      else
        let pre_max_size = shard_size max_size bucket;
            pre_elasticity = shard_size elasticity bucket
        in Inr \<lparr>hl_datas = map (\<lambda>_. new_lru pre_max_size pre_elasticity new_status) [0..<bucket],
                hl_maxSize = pre_max_size * of_nat bucket, hl_elasticity = pre_elasticity * of_nat bucket,
                hl_bucket = bucket, hl_status = new_status\<rparr>)"

text \<open>\<open>_datas[i]->op(...)\<close> on a vector of caches.\<close>

definition at_shard :: "nat \<Rightarrow> ('c \<Rightarrow> ('a \<times> 'c) res) \<Rightarrow> 'c list \<Rightarrow> ('a \<times> 'c list) res" where
  "at_shard i op cs =
     (if i < length cs then bindE (op (cs ! i)) (\<lambda>(r, c). Inr (r, cs[i := c])) else Inl BadIndex)"

definition hl_shard ::
  "('k \<Rightarrow> nat) \<Rightarrow> 'k \<Rightarrow> (('k, 'v) lru_cache \<Rightarrow> ('a \<times> ('k, 'v) lru_cache) res) \<Rightarrow>
   ('k, 'v) hash_lru \<Rightarrow> ('a \<times> ('k, 'v) hash_lru) res" where
  "hl_shard hash k op h =
     (if hl_bucket h = 0 then Inl DivByZero
      else
        bindE (at_shard (hash k mod hl_bucket h)
                 (\<lambda>c. bindE (op (c\<lparr>lru_status := hl_status h\<rparr>)) (\<lambda>(r, c'). Inr ((r, lru_status c'), c')))
                 (hl_datas h))
          (\<lambda>((r, st), cs). Inr (r, h\<lparr>hl_datas := cs, hl_status := st\<rparr>)))"

definition hl_set where
  "hl_set hash k v = hl_shard hash k (lru_set k v)"

definition hl_get where
  "hl_get hash k = hl_shard hash k (lru_get k)"

definition hl_get_or where
  "hl_get_or hash dflt k = hl_shard hash k (lru_get_or dflt k)"

text \<open>\<open>del\<close> calls \<open>get\<close> of the shard (line 237 of the source).\<close>

definition hl_del where
  "hl_del hash to_bool dflt k h =
     bindE (hl_shard hash k (lru_get_or dflt k) h) (\<lambda>(v, h'). Inr (to_bool v, h'))"

definition hl_exists where
  "hl_exists hash k h =
     bindE (hl_shard hash k (\<lambda>c. Inr (lru_exists k c, c)) h) (\<lambda>(r, _). Inr r)"

definition hl_size :: "('k, 'v) hash_lru \<Rightarrow> nat" where
  "hl_size h = sum_list (map lru_size (hl_datas h))"

definition hl_empty :: "('k, 'v) hash_lru \<Rightarrow> bool" where
  "hl_empty h \<longleftrightarrow> list_all lru_empty (hl_datas h)"

definition hl_clear :: "('k, 'v) hash_lru \<Rightarrow> ('k, 'v) hash_lru" where
  "hl_clear h = h\<lparr>hl_datas := map lru_clear (hl_datas h)\<rparr>"

definition hl_setMaxSize :: "u64 \<Rightarrow> ('k, 'v) hash_lru \<Rightarrow> ('k, 'v) hash_lru" where
  "hl_setMaxSize v h =
     (let pre = shard_size v (hl_bucket h)
      in h\<lparr>hl_maxSize := pre * of_nat (hl_bucket h), hl_datas := map (lru_setMaxSize pre) (hl_datas h)\<rparr>)"

definition hl_setElasticity :: "u64 \<Rightarrow> ('k, 'v) hash_lru \<Rightarrow> ('k, 'v) hash_lru" where
  "hl_setElasticity v h =
     (let pre = shard_size v (hl_bucket h)
      in h\<lparr>hl_elasticity := pre * of_nat (hl_bucket h), hl_datas := map (lru_setElasticity pre) (hl_datas h)\<rparr>)"

definition hl_getMaxAllowedSize :: "('k, 'v) hash_lru \<Rightarrow> u64" where
  "hl_getMaxAllowedSize h = hl_maxSize h + hl_elasticity h"

section \<open>The contract of a keyed store\<close>

text \<open>
  What a shard promises: storing succeeds, the stored key is found, and no other key changes its
  value, though it may be dropped.
\<close>

locale keyed_store =
  fixes put :: "'k \<Rightarrow> 'v \<Rightarrow> 'c \<Rightarrow> ('a \<times> 'c) res" and lookup :: "'c \<Rightarrow> 'k \<Rightarrow> 'v option"
    and good :: "'c \<Rightarrow> bool"
  assumes put_ok: "good c \<Longrightarrow> \<exists>r c'. put k v c = Inr (r, c') \<and> good c' \<and> lookup c' k = Some v \<and>
      (\<forall>j. j \<noteq> k \<longrightarrow> lookup c' j = lookup c j \<or> lookup c' j = None)"
begin

lemma sharded_put:
  assumes "list_all good cs" and "hash k mod length cs < length cs"
  shows "\<exists>r cs'. at_shard (hash k mod length cs) (put k v) cs = Inr (r, cs') \<and>
    length cs' = length cs \<and> list_all good cs' \<and>
    lookup (cs' ! (hash k mod length cs)) k = Some v \<and>
    (\<forall>j. j \<noteq> k \<longrightarrow> lookup (cs' ! (hash j mod length cs)) j = lookup (cs ! (hash j mod length cs)) j \<or>
       lookup (cs' ! (hash j mod length cs)) j = None)"
proof -
  let ?i = "hash k mod length cs"
  have "good (cs ! ?i)" using assms by (simp add: list_all_length)
  then obtain r c' where c': "put k v (cs ! ?i) = Inr (r, c')" "good c'" "lookup c' k = Some v"
    "\<forall>j. j \<noteq> k \<longrightarrow> lookup c' j = lookup (cs ! ?i) j \<or> lookup c' j = None"
    using put_ok by blast
  have "list_all good (cs[?i := c'])"
    using assms c'(2) by (auto simp: list_all_length nth_list_update)
  then show ?thesis
    using c' assms(2) by (auto simp: at_shard_def nth_list_update)
qed

end

section \<open>The shards keep the contract\<close>

lemma map_of_touch: "map_of (touch k v l) j = (if j = k then Some v else map_of l j)"
proof -
  have "map_of (filter (\<lambda>p. fst p \<noteq> k) l) j = map_of l j" if "j \<noteq> k"
    using that by (induction l) auto
  then show ?thesis by (simp add: touch_def)
qed

lemma map_of_take: "map_of (take n l) j = map_of l j \<or> map_of (take n l) j = None"
  by (induction l arbitrary: n) (auto simp: take_Cons')

lemma map_of_spec_set:
  "map_of (spec_set mx el k v l) k = Some v"
  "j \<noteq> k \<Longrightarrow> map_of (spec_set mx el k v l) j = map_of l j \<or> map_of (spec_set mx el k v l) j = None"
proof -
  have front: "mx \<noteq> 0 \<Longrightarrow> map_of (take (unat mx) (touch k v l)) k = Some v"
    by (cases "unat mx") (simp_all add: touch_def unat_eq_0)
  then show "map_of (spec_set mx el k v l) k = Some v"
    by (simp add: spec_set_def map_of_touch)
  show "map_of (spec_set mx el k v l) j = map_of l j \<or> map_of (spec_set mx el k v l) j = None" if "j \<noteq> k"
    using map_of_take [of "unat mx" "touch k v l" j] that by (auto simp: spec_set_def map_of_touch)
qed

lemma lru_ok_status [simp]: "lru_ok (c\<lparr>lru_status := st\<rparr>) = lru_ok c"
  by (simp add: lru_ok_def)

lemma lru_abs_status [simp]: "lru_abs (c\<lparr>lru_status := st\<rparr>) = lru_abs c"
  by (simp add: lru_abs_def)

text \<open>An operation of a shard that counts in the shared status.\<close>

definition counted ::
  "cache_status \<Rightarrow> (('k, 'v) lru_cache \<Rightarrow> ('a \<times> ('k, 'v) lru_cache) res) \<Rightarrow>
   ('k, 'v) lru_cache \<Rightarrow> (('a \<times> cache_status) \<times> ('k, 'v) lru_cache) res" where
  "counted st op c = bindE (op (c\<lparr>lru_status := st\<rparr>)) (\<lambda>(r, c'). Inr ((r, lru_status c'), c'))"

interpretation lru_store: keyed_store "\<lambda>k v. counted st (lru_set k v)" "\<lambda>c. map_of (lru_abs c)" lru_ok
  for st
proof
  fix c :: "('a, 'b) lru_cache" and k v
  assume "lru_ok c"
  then have "lru_ok (c\<lparr>lru_status := st\<rparr>)" by simp
  from lru_set_ok [OF this, of k v] obtain pruned c' where
    "lru_set k v (c\<lparr>lru_status := st\<rparr>) = Inr (pruned, c')" "lru_ok c'"
    "lru_abs c' = spec_set (lru_maxSize c) (lru_elasticity c) k v (lru_abs c)"
    by auto
  then show "\<exists>r c'. counted st (lru_set k v) c = Inr (r, c') \<and> lru_ok c' \<and>
      map_of (lru_abs c') k = Some v \<and>
      (\<forall>j. j \<noteq> k \<longrightarrow> map_of (lru_abs c') j = map_of (lru_abs c) j \<or> map_of (lru_abs c') j = None)"
    using map_of_spec_set(1) [of "lru_maxSize c" "lru_elasticity c" k v "lru_abs c"]
      map_of_spec_set(2) [of _ k "lru_maxSize c" "lru_elasticity c" v "lru_abs c"]
    by (auto simp: counted_def)
qed

definition hl_ok :: "('k, 'v) hash_lru \<Rightarrow> bool" where
  "hl_ok h \<longleftrightarrow> 0 < hl_bucket h \<and> length (hl_datas h) = hl_bucket h \<and> list_all lru_ok (hl_datas h)"

definition hl_lookup :: "('k \<Rightarrow> nat) \<Rightarrow> ('k, 'v) hash_lru \<Rightarrow> 'k \<Rightarrow> 'v option" where
  "hl_lookup hash h k = map_of (lru_abs (hl_datas h ! (hash k mod hl_bucket h))) k"

lemma hl_shard_counted:
  "hl_shard hash k op h =
     (if hl_bucket h = 0 then Inl DivByZero
      else bindE (at_shard (hash k mod hl_bucket h) (counted (hl_status h) op) (hl_datas h))
        (\<lambda>((r, st), cs). Inr (r, h\<lparr>hl_datas := cs, hl_status := st\<rparr>)))"
  by (simp add: hl_shard_def counted_def [abs_def])

lemma new_hash_lru_ok: "0 < b \<Longrightarrow> new_hash_lru b m e = Inr h \<Longrightarrow> hl_ok h"
  by (auto simp: new_hash_lru_def hl_ok_def list_all_length Let_def)

lemma hl_set_ok:
  assumes ok: "hl_ok h"
  shows "\<exists>pruned h'. hl_set hash k v h = Inr (pruned, h') \<and> hl_ok h' \<and> hl_lookup hash h' k = Some v \<and>
    (\<forall>j. j \<noteq> k \<longrightarrow> hl_lookup hash h' j = hl_lookup hash h j \<or> hl_lookup hash h' j = None)"
proof -
  have len: "length (hl_datas h) = hl_bucket h" "0 < hl_bucket h" "list_all lru_ok (hl_datas h)"
    using ok by (simp_all add: hl_ok_def)
  obtain r cs where "at_shard (hash k mod hl_bucket h) (counted (hl_status h) (lru_set k v)) (hl_datas h) =
      Inr (r, cs)" "length cs = hl_bucket h" "list_all lru_ok cs"
    "map_of (lru_abs (cs ! (hash k mod hl_bucket h))) k = Some v"
    "\<forall>j. j \<noteq> k \<longrightarrow>
      map_of (lru_abs (cs ! (hash j mod hl_bucket h))) j =
        map_of (lru_abs (hl_datas h ! (hash j mod hl_bucket h))) j \<or>
      map_of (lru_abs (cs ! (hash j mod hl_bucket h))) j = None"
    using lru_store.sharded_put [OF len(3), of hash k "hl_status h" v] len by auto
  then show ?thesis
    using len by (cases r) (simp add: hl_set_def hl_shard_counted hl_ok_def hl_lookup_def)
qed

text \<open>A set on the sharded cache succeeds, finds the new value under its key afterwards,
  and changes the value of no other key in any shard, though it may prune it.\<close>

theorem hash_lru_set:
  assumes "hl_ok h"
  shows "\<exists>pruned h'. hl_set hash k v h = Inr (pruned, h') \<and> hl_ok h' \<and> hl_lookup hash h' k = Some v \<and>
    (\<forall>j. j \<noteq> k \<longrightarrow> hl_lookup hash h' j = hl_lookup hash h j \<or> hl_lookup hash h' j = None)"
  using assms by (rule hl_set_ok)

theorem hash_lru_set_witness:
  "\<exists>h pruned h'. new_hash_lru 2 4 0 = Inr h \<and> hl_set id (3::nat) (30::nat) h = Inr (pruned, h') \<and>
     hl_lookup id h' 3 = Some 30"
proof -
  obtain h :: "(nat, nat) hash_lru" where h: "new_hash_lru 2 4 0 = Inr h"
    by (simp add: new_hash_lru_def Let_def)
  then have "hl_ok h" by (intro new_hash_lru_ok [of 2 4 0]) simp_all
  from hash_lru_set [OF this, of id 3 30] h show ?thesis by auto
qed

text \<open>\<open>del\<close> on the sharded cache removes nothing: it calls \<open>get\<close> of the shard, so every key
  keeps its value and every shard its size.\<close>

theorem hash_lru_del_removes_nothing:
  assumes ok: "hl_ok h"
  shows "\<exists>b h'. hl_del hash to_bool dflt k h = Inr (b, h') \<and> hl_ok h' \<and>
    (\<forall>j. hl_lookup hash h' j = hl_lookup hash h j)"
proof -
  let ?i = "hash k mod hl_bucket h"
  let ?c = "hl_datas h ! ?i"
  have len: "length (hl_datas h) = hl_bucket h" "0 < hl_bucket h" "list_all lru_ok (hl_datas h)"
    using ok by (simp_all add: hl_ok_def)
  then have i: "?i < length (hl_datas h)" by simp
  then have "lru_ok (?c\<lparr>lru_status := hl_status h\<rparr>)"
    using len(3) by (simp add: list_all_length)
  from lru_get_ok [OF this, of k] obtain c' where c':
    "lru_get k (?c\<lparr>lru_status := hl_status h\<rparr>) = Inr (fst (spec_get k (lru_abs ?c)), c')" "lru_ok c'"
    "lru_abs c' = snd (spec_get k (lru_abs ?c))"
    by auto
  have same: "map_of (lru_abs c') j = map_of (lru_abs ?c) j" for j
    using c'(3) by (auto simp: spec_get_def map_of_touch split: option.splits)
  have "list_all lru_ok ((hl_datas h)[?i := c'])"
    using len(3) c'(2) i by (simp add: list_all_length nth_list_update del: mod_less_divisor)
  moreover have "map_of (lru_abs ((hl_datas h)[?i := c'] ! (hash j mod hl_bucket h))) j =
      map_of (lru_abs (hl_datas h ! (hash j mod hl_bucket h))) j" for j
    using same i by (simp add: nth_list_update)
  ultimately show ?thesis
    using c'(1) i len
    by (simp add: hl_del_def hl_shard_counted at_shard_def counted_def lru_get_or_def hl_ok_def hl_lookup_def)
qed

theorem hash_lru_del_removes_nothing_witness:
  "\<exists>h p h1 b h2. new_hash_lru 2 4 0 = Inr h \<and> hl_set id (3::nat) (30::nat) h = Inr (p, h1) \<and>
     hl_del id (\<lambda>v. v \<noteq> 0) 0 3 h1 = Inr (b, h2) \<and> hl_lookup id h2 3 = hl_lookup id h1 3"
proof -
  obtain h :: "(nat, nat) hash_lru" where h: "new_hash_lru 2 4 0 = Inr h"
    by (simp add: new_hash_lru_def Let_def)
  then have "hl_ok h" by (intro new_hash_lru_ok [of 2 4 0]) simp_all
  then obtain p h1 where h1: "hl_set id 3 30 h = Inr (p, h1)" "hl_ok h1"
    using hl_set_ok [of h id 3 30] by auto
  from hash_lru_del_removes_nothing [OF h1(2), of id "\<lambda>v. v \<noteq> 0" 0 3] h h1(1) show ?thesis by blast
qed

end
