(* ===== verification/TimedCache.thy ===== *)
theory TimedCache
  imports HashLru
begin

text \<open>
  The timed cache of \<open>src/ds/TimedCache.h\<close> and its sharded form. \<open>_timed\<close> is a \<open>std::set\<close>
  ordered by expiry and key: a sorted list of items, each with the address of its node. \<open>_cache\<close>
  maps a key to such an address; following an address that is not in the set is \<open>BadIter\<close>, moving
  an iterator past the end is \<open>PastEnd\<close>. The calls do not overlap: \<open>clear\<close> and \<open>checkTimeout\<close>
  change the cache under the read lock, the limits are set without a lock. The clock is an argument of the operations that read it.
\<close>

section \<open>State\<close>

record ('k, 'v) item =
  it_id :: nat
  it_key :: 'k
  it_val :: 'v
  it_ts :: u64

definition item_less :: "('k::linorder, 'v) item \<Rightarrow> ('k, 'v) item \<Rightarrow> bool" where
  "item_less a b \<longleftrightarrow> (if it_ts a \<noteq> it_ts b then it_ts a < it_ts b else it_key a < it_key b)"

record ('k, 'v) timed_cache =
  tc_maxSize :: u64
  tc_elasticity :: u64
  tc_status :: cache_status
  tc_map :: "('k \<times> nat) list"
  tc_timed :: "('k, 'v) item list"
  tc_next :: nat

text \<open>
  The constructor tests \<open>_statusOwner\<close>, which is false there, so it always allocates a status of
  its own and never uses the one it is given.
\<close>

definition new_timed :: "u64 \<Rightarrow> u64 \<Rightarrow> cache_status \<Rightarrow> ('k, 'v) timed_cache" where
  "new_timed max_size elasticity given =
     \<lparr>tc_maxSize = max_size, tc_elasticity = elasticity, tc_status = new_status,
      tc_map = [], tc_timed = [], tc_next = 0\<rparr>"

fun find_item :: "nat \<Rightarrow> ('k, 'v) item list \<Rightarrow> ('k, 'v) item option" where
  "find_item i [] = None"
| "find_item i (x # xs) = (if it_id x = i then Some x else find_item i xs)"

text \<open>\<open>std::set::emplace\<close>: an equivalent item stays, and its node is returned.\<close>

fun set_emplace ::
  "('k::linorder, 'v) item \<Rightarrow> ('k, 'v) item list \<Rightarrow> nat \<times> ('k, 'v) item list" where
  "set_emplace a [] = (it_id a, [a])"
| "set_emplace a (x # xs) =
     (if item_less a x then (it_id a, a # x # xs)
      else if item_less x a then (let (i, ys) = set_emplace a xs in (i, x # ys))
      else (it_id x, x # xs))"

definition set_erase :: "nat \<Rightarrow> ('k, 'v) item list \<Rightarrow> ('k, 'v) item list" where
  "set_erase i xs = filter (\<lambda>x. it_id x \<noteq> i) xs"

section \<open>Operations\<close>

definition tc_size :: "('k, 'v) timed_cache \<Rightarrow> nat" where
  "tc_size c = length (tc_map c)"

definition tc_getMaxAllowedSize :: "('k, 'v) timed_cache \<Rightarrow> u64" where
  "tc_getMaxAllowedSize c = tc_maxSize c + tc_elasticity c"

fun tc_prune_loop ::
  "nat \<Rightarrow> ('k \<times> nat) list \<Rightarrow> ('k, 'v) item list \<Rightarrow>
   (('k \<times> nat) list \<times> ('k, 'v) item list \<times> ('k \<times> 'v) list) res" where
  "tc_prune_loop max_size m [] =
     (if length m > max_size then Inl BadIter else Inr (m, [], []))"
| "tc_prune_loop max_size m (x # xs) =
     (if length m > max_size then
        bindE (tc_prune_loop max_size (AList.delete (it_key x) m) xs)
          (\<lambda>(m', xs', pruned). Inr (m', xs', (it_key x, it_val x) # pruned))
      else Inr (m, x # xs, []))"

definition tc_prune :: "('k, 'v) timed_cache \<Rightarrow> (('k \<times> 'v) list \<times> ('k, 'v) timed_cache) res" where
  "tc_prune c =
     (if tc_maxSize c = 0 \<or> tc_size c < unat (tc_getMaxAllowedSize c) then Inr ([], c)
      else bindE (tc_prune_loop (unat (tc_maxSize c)) (tc_map c) (tc_timed c))
        (\<lambda>(m, xs, pruned).
          Inr (pruned, c\<lparr>tc_map := m, tc_timed := xs,
                         tc_status := incPrune (int (length pruned)) (tc_status c)\<rparr>)))"

definition tc_set ::
  "'k::linorder \<Rightarrow> 'v \<Rightarrow> u64 \<Rightarrow> u64 \<Rightarrow> ('k, 'v) timed_cache \<Rightarrow>
   (('k \<times> 'v) list \<times> ('k, 'v) timed_cache) res" where
  "tc_set k v expired now c =
     (let m = (if map_of (tc_map c) k \<noteq> None then AList.delete k (tc_map c) else tc_map c);
          a = \<lparr>it_id = tc_next c, it_key = k, it_val = v, it_ts = expired + now\<rparr>;
          (i, timed) = set_emplace a (tc_timed c)
      in tc_prune (c\<lparr>tc_status := incSet 1 (tc_status c), tc_map := (k, i) # m,
                     tc_timed := timed, tc_next := Suc (tc_next c)\<rparr>))"

definition tc_get :: "'k \<Rightarrow> ('k, 'v) timed_cache \<Rightarrow> ('v option \<times> ('k, 'v) timed_cache) res" where
  "tc_get k c0 =
     (let c = c0\<lparr>tc_status := incGet 1 (tc_status c0)\<rparr> in
      case map_of (tc_map c) k of
        None \<Rightarrow> Inr (None, c)
      | Some i \<Rightarrow>
          (case find_item i (tc_timed c) of
             None \<Rightarrow> Inl BadIter
           | Some x \<Rightarrow> Inr (Some (it_val x), c\<lparr>tc_status := incHit 1 (tc_status c)\<rparr>)))"

text \<open>
  When the key is present, \<open>del\<close> erases its item and its entry and then ends without a \<open>return\<close>,
  which is undefined.
\<close>

definition tc_del :: "'k \<Rightarrow> ('k, 'v) timed_cache \<Rightarrow> (bool \<times> ('k, 'v) timed_cache) res" where
  "tc_del k c =
     (case map_of (tc_map c) k of
        None \<Rightarrow> Inr (False, c\<lparr>tc_status := incDel 1 (tc_status c)\<rparr>)
      | Some i \<Rightarrow> (case find_item i (tc_timed c) of None \<Rightarrow> Inl BadIter | Some _ \<Rightarrow> Inl NoReturn))"

text \<open>\<open>expired\<close> copies the item, erases it and inserts the unchanged copy.\<close>

definition tc_expired ::
  "'k::linorder \<Rightarrow> u64 \<Rightarrow> u64 \<Rightarrow> ('k, 'v) timed_cache \<Rightarrow> (bool \<times> ('k, 'v) timed_cache) res" where
  "tc_expired k ts now c =
     (case map_of (tc_map c) k of
        None \<Rightarrow> Inr (False, c)
      | Some i \<Rightarrow>
          (case find_item i (tc_timed c) of
             None \<Rightarrow> Inl BadIter
           | Some x \<Rightarrow>
               let tts = ts + now in
               if it_ts x = tts then Inr (True, c)
               else
                 let (j, timed) = set_emplace (x\<lparr>it_id := tc_next c\<rparr>) (set_erase i (tc_timed c))
                 in Inr (True, c\<lparr>tc_timed := timed, tc_map := AList.update k j (tc_map c),
                                 tc_next := Suc (tc_next c)\<rparr>)))"

definition tc_exists :: "'k \<Rightarrow> ('k, 'v) timed_cache \<Rightarrow> bool" where
  "tc_exists k c \<longleftrightarrow> map_of (tc_map c) k \<noteq> None"

definition tc_empty :: "('k, 'v) timed_cache \<Rightarrow> bool" where
  "tc_empty c \<longleftrightarrow> tc_map c = []"

definition tc_clear :: "('k, 'v) timed_cache \<Rightarrow> ('k, 'v) timed_cache" where
  "tc_clear c = c\<lparr>tc_timed := [], tc_map := []\<rparr>"

text \<open>
  The loop of \<open>checkTimeout\<close>: an expired item is erased with \<open>erase(it++)\<close>, and the \<open>++it\<close> of
  the \<open>for\<close> then steps over its successor, or past the end. The items stepped over stay.
\<close>

fun timeout_loop ::
  "u64 \<Rightarrow> ('k \<times> nat) list \<Rightarrow> ('k, 'v) item list \<Rightarrow>
   (('k \<times> nat) list \<times> ('k, 'v) item list \<times> ('k \<times> 'v) list) res" where
  "timeout_loop ts m [] = Inr (m, [], [])"
| "timeout_loop ts m (x # xs) =
     (if it_ts x \<le> ts then
        (case xs of
           [] \<Rightarrow> Inl PastEnd
         | y # ys \<Rightarrow>
             bindE (timeout_loop ts (AList.delete (it_key x) m) ys)
               (\<lambda>(m', ys', called). Inr (m', y # ys', (it_key x, it_val x) # called)))
      else Inr (m, x # xs, []))"

definition tc_checkTimeout ::
  "u64 \<Rightarrow> ('k, 'v) timed_cache \<Rightarrow> (nat \<times> ('k \<times> 'v) list \<times> ('k, 'v) timed_cache) res" where
  "tc_checkTimeout ts c =
     bindE (timeout_loop ts (tc_map c) (tc_timed c))
       (\<lambda>(m, xs, called). Inr (length called, called, c\<lparr>tc_map := m, tc_timed := xs\<rparr>))"

definition tc_setMaxSize :: "u64 \<Rightarrow> ('k, 'v) timed_cache \<Rightarrow> ('k, 'v) timed_cache" where
  "tc_setMaxSize n c = c\<lparr>tc_maxSize := n\<rparr>"

definition tc_setElasticity :: "u64 \<Rightarrow> ('k, 'v) timed_cache \<Rightarrow> ('k, 'v) timed_cache" where
  "tc_setElasticity n c = c\<lparr>tc_elasticity := n\<rparr>"

section \<open>No iterator dangles\<close>

definition tc_ok :: "('k::linorder, 'v) timed_cache \<Rightarrow> bool" where
  "tc_ok c \<longleftrightarrow> distinct (map it_id (tc_timed c)) \<and> (\<forall>x \<in> set (tc_timed c). it_id x < tc_next c) \<and>
     sorted_wrt item_less (tc_timed c) \<and> distinct (map fst (tc_map c)) \<and>
     (\<forall>(k, i) \<in> set (tc_map c). \<exists>x \<in> set (tc_timed c). it_id x = i \<and> it_key x = k)"

lemma new_timed_ok: "tc_ok (new_timed mx el st)"
  by (simp add: tc_ok_def new_timed_def)

lemma find_item_in:
  "distinct (map it_id xs) \<Longrightarrow> x \<in> set xs \<Longrightarrow> it_id x = i \<Longrightarrow> find_item i xs = Some x"
  by (induction xs) auto

lemma tc_ok_find:
  assumes "tc_ok c" and "map_of (tc_map c) k = Some i"
  obtains x where "find_item i (tc_timed c) = Some x" "x \<in> set (tc_timed c)" "it_key x = k" "it_id x = i"
proof -
  have "(k, i) \<in> set (tc_map c)" using assms(2) by (rule map_of_SomeD)
  then obtain x where "x \<in> set (tc_timed c)" "it_id x = i" "it_key x = k"
    using assms(1) by (fastforce simp: tc_ok_def)
  then show ?thesis
    using that [of x] assms(1) find_item_in [of "tc_timed c" x i] by (simp add: tc_ok_def)
qed

lemma set_emplace_id:
  "set_emplace a xs = (i, ys) \<Longrightarrow>
   (ys = xs \<or> set ys = insert a (set xs) \<and> i = it_id a) \<and>
   (\<exists>x \<in> set ys. it_id x = i \<and> it_key x = it_key a \<and> it_ts x = it_ts a)"
proof (induction xs arbitrary: i ys)
  case (Cons x xs)
  obtain j zs where rec: "set_emplace a xs = (j, zs)" by (cases "set_emplace a xs")
  consider "item_less a x" | "\<not> item_less a x" "item_less x a" | "\<not> item_less a x" "\<not> item_less x a"
    by blast
  then show ?case
  proof cases
    case 1
    then show ?thesis using Cons.prems by auto
  next
    case 2
    then have eq: "i = j" "ys = x # zs" using Cons.prems rec by simp_all
    have "zs = xs \<or> set zs = insert a (set xs) \<and> j = it_id a"
      and "\<exists>x \<in> set zs. it_id x = j \<and> it_key x = it_key a \<and> it_ts x = it_ts a"
      using Cons.IH [OF rec] by blast+
    then show ?thesis unfolding eq by (auto simp only: list.set)
  next
    case 3
    then have "it_ts x = it_ts a" "it_key x = it_key a"
      by (auto simp: item_less_def not_less split: if_splits)
    then show ?thesis using 3 Cons.prems by auto
  qed
qed auto

lemma item_less_trans: "item_less a b \<Longrightarrow> item_less b c \<Longrightarrow> item_less a c"
  by (auto simp: item_less_def split: if_splits)

lemma set_emplace_sorted:
  "sorted_wrt item_less xs \<Longrightarrow> set_emplace a xs = (i, ys) \<Longrightarrow> sorted_wrt item_less ys"
proof (induction xs arbitrary: i ys)
  case (Cons x xs)
  obtain j zs where rec: "set_emplace a xs = (j, zs)" by (cases "set_emplace a xs")
  then show ?case
  proof -
    have "set zs \<subseteq> insert a (set xs)" using set_emplace_id [OF rec] by auto
    then have "item_less x a \<Longrightarrow> \<forall>y \<in> set zs. item_less x y"
      using Cons.prems(1) by auto
    moreover have "item_less a x \<Longrightarrow> \<forall>y \<in> set xs. item_less a y"
      using Cons.prems(1) item_less_trans [of a x] by simp
    ultimately show ?thesis
      using Cons rec by (auto split: if_splits)
  qed
qed auto

lemma set_emplace_distinct:
  "distinct (map it_id xs) \<Longrightarrow> it_id a \<notin> it_id ` set xs \<Longrightarrow> set_emplace a xs = (i, ys) \<Longrightarrow>
   distinct (map it_id ys)"
proof (induction xs arbitrary: i ys)
  case (Cons x xs)
  obtain j zs where rec: "set_emplace a xs = (j, zs)" by (cases "set_emplace a xs")
  then show ?case
    using Cons set_emplace_id [OF rec] by (auto split: if_splits)
qed auto

lemma set_erase_ok:
  "sorted_wrt item_less xs \<Longrightarrow> sorted_wrt item_less (set_erase i xs)"
  "distinct (map it_id xs) \<Longrightarrow> distinct (map it_id (set_erase i xs))"
  by (simp_all add: set_erase_def sorted_wrt_filter distinct_map_filter)

lemma tc_prune_loop_ok:
  "distinct (map it_id xs) \<Longrightarrow> (\<forall>x \<in> set xs. it_id x < n) \<Longrightarrow> sorted_wrt item_less xs \<Longrightarrow>
   distinct (map fst m) \<Longrightarrow> (\<forall>(k, i) \<in> set m. \<exists>x \<in> set xs. it_id x = i \<and> it_key x = k) \<Longrightarrow>
   \<exists>m' xs' pruned. tc_prune_loop mx m xs = Inr (m', xs', pruned) \<and>
     distinct (map it_id xs') \<and> (\<forall>x \<in> set xs'. it_id x < n) \<and> sorted_wrt item_less xs' \<and>
     distinct (map fst m') \<and> (\<forall>(k, i) \<in> set m'. \<exists>x \<in> set xs'. it_id x = i \<and> it_key x = k) \<and>
     length m' \<le> max mx (length m) \<and> (mx < length m \<longrightarrow> length m' \<le> mx)"
proof (induction xs arbitrary: m)
  case Nil
  then have "m = []" by (cases m) auto
  then show ?case by simp
next
  case (Cons x xs)
  show ?case
  proof (cases "length m > mx")
    case False
    then show ?thesis using Cons.prems by auto
  next
    case True
    let ?m = "AList.delete (it_key x) m"
    have sub: "set ?m \<subseteq> {p \<in> set m. fst p \<noteq> it_key x}"
      by (auto simp: alist_delete_filter)
    have "\<forall>(k, i) \<in> set ?m. \<exists>y \<in> set xs. it_id y = i \<and> it_key y = k"
      using Cons.prems(5) sub by fastforce
    moreover have "distinct (map fst ?m)"
      using Cons.prems(4) by (simp add: AList.distinct_delete)
    ultimately obtain m' xs' pruned where "tc_prune_loop mx ?m xs = Inr (m', xs', pruned)"
      "distinct (map it_id xs')" "\<forall>x \<in> set xs'. it_id x < n" "sorted_wrt item_less xs'"
      "distinct (map fst m')" "\<forall>(k, i) \<in> set m'. \<exists>x \<in> set xs'. it_id x = i \<and> it_key x = k"
      "length m' \<le> max mx (length ?m)" "mx < length ?m \<longrightarrow> length m' \<le> mx"
      using Cons.IH [of ?m] Cons.prems by auto
    then show ?thesis
      using True by (auto simp: max_def split: if_splits)
  qed
qed

lemma tc_prune_ok:
  assumes "tc_ok c"
  shows "\<exists>pruned c'. tc_prune c = Inr (pruned, c') \<and> tc_ok c'"
proof -
  obtain m xs pruned where "tc_prune_loop (unat (tc_maxSize c)) (tc_map c) (tc_timed c) = Inr (m, xs, pruned)"
    "distinct (map it_id xs)" "\<forall>x \<in> set xs. it_id x < tc_next c" "sorted_wrt item_less xs"
    "distinct (map fst m)" "\<forall>(k, i) \<in> set m. \<exists>x \<in> set xs. it_id x = i \<and> it_key x = k"
    using assms tc_prune_loop_ok [of "tc_timed c" "tc_next c" "tc_map c" "unat (tc_maxSize c)"]
    unfolding tc_ok_def by blast
  then show ?thesis
    using assms by (auto simp: tc_prune_def tc_ok_def)
qed

lemma emplaced_links:
  assumes "\<forall>(k, i) \<in> set m. \<exists>x \<in> set xs. it_id x = i \<and> it_key x = k"
    and "set_emplace a xs = (j, ys)"
  shows "\<forall>(k, i) \<in> set m. \<exists>x \<in> set ys. it_id x = i \<and> it_key x = k"
proof -
  have "set xs \<subseteq> set ys" using set_emplace_id [OF assms(2)] by auto
  then show ?thesis using assms(1) by fastforce
qed

lemma tc_set_ok [inv_intros]:
  assumes ok: "tc_ok c"
  shows "\<exists>pruned c'. tc_set k v expired now c = Inr (pruned, c') \<and> tc_ok c'"
proof -
  let ?a = "\<lparr>it_id = tc_next c, it_key = k, it_val = v, it_ts = expired + now\<rparr>"
  define m where "m = (if map_of (tc_map c) k \<noteq> None then AList.delete k (tc_map c) else tc_map c)"
  obtain i ys where em: "set_emplace ?a (tc_timed c) = (i, ys)" by (cases "set_emplace ?a (tc_timed c)")
  note id = set_emplace_id [OF em]
  have "tc_next c \<notin> it_id ` set (tc_timed c)" using ok by (auto simp: tc_ok_def)
  then have "distinct (map it_id ys)"
    using ok em by (intro set_emplace_distinct [OF _ _ em]) (auto simp: tc_ok_def)
  moreover have "sorted_wrt item_less ys"
    using ok em by (intro set_emplace_sorted [OF _ em]) (simp add: tc_ok_def)
  moreover have "\<forall>x \<in> set ys. it_id x < Suc (tc_next c)"
    using id ok by (auto simp: tc_ok_def less_Suc_eq)
  moreover have m: "set m \<subseteq> set (tc_map c)" "k \<notin> fst ` set m" "distinct (map fst m)"
    using ok by (auto simp: m_def tc_ok_def alist_delete_filter map_of_eq_None_iff distinct_map_filter)
  moreover have "\<forall>(k, i) \<in> set m. \<exists>x \<in> set (tc_timed c). it_id x = i \<and> it_key x = k"
    using ok m(1) by (auto simp: tc_ok_def)
  then have "\<forall>(k, i) \<in> set m. \<exists>x \<in> set ys. it_id x = i \<and> it_key x = k"
    by (rule emplaced_links [OF _ em])
  ultimately have "tc_ok (c\<lparr>tc_status := incSet 1 (tc_status c), tc_map := (k, i) # m,
      tc_timed := ys, tc_next := Suc (tc_next c)\<rparr>)"
    using id by (auto simp: tc_ok_def)
  from tc_prune_ok [OF this] show ?thesis
    using em by (simp add: tc_set_def Let_def m_def)
qed

lemma tc_get_ok [inv_intros]: "tc_ok c \<Longrightarrow> \<exists>r c'. tc_get k c = Inr (r, c') \<and> tc_ok c'"
proof (cases "map_of (tc_map c) k")
  case (Some i)
  assume ok: "tc_ok c"
  obtain x where "find_item i (tc_timed c) = Some x"
    using tc_ok_find [OF ok Some] .
  then show ?thesis using ok Some by (simp add: tc_get_def Let_def tc_ok_def)
qed (simp add: tc_get_def Let_def tc_ok_def)

lemma tc_del_ok:
  assumes ok: "tc_ok c"
  shows "if tc_exists k c then tc_del k c = Inl NoReturn
    else \<exists>c'. tc_del k c = Inr (False, c') \<and> tc_ok c'"
proof (cases "map_of (tc_map c) k")
  case None
  then show ?thesis using ok by (simp add: tc_del_def tc_ok_def tc_exists_def)
next
  case (Some i)
  obtain x where "find_item i (tc_timed c) = Some x" using tc_ok_find [OF ok Some] .
  then show ?thesis using Some by (simp add: tc_del_def tc_exists_def)
qed

definition tc_item :: "('k, 'v) timed_cache \<Rightarrow> 'k \<Rightarrow> ('k, 'v) item option" where
  "tc_item c k = (case map_of (tc_map c) k of None \<Rightarrow> None | Some i \<Rightarrow> find_item i (tc_timed c))"

lemma update_links: "set (AList.update k j m) \<subseteq> insert (k, j) {p \<in> set m. fst p \<noteq> k} \<or> \<not> distinct (map fst m)"
  by (induction m) (auto split: if_splits, force)

lemma emplace_absent:
  "(\<forall>x \<in> set xs. it_ts x \<noteq> it_ts a \<or> it_key x \<noteq> it_key a) \<Longrightarrow> set_emplace a xs = (i, ys) \<Longrightarrow>
   i = it_id a \<and> set ys = insert a (set xs)"
proof (induction xs arbitrary: i ys)
  case (Cons x xs)
  obtain j zs where rec: "set_emplace a xs = (j, zs)" by (cases "set_emplace a xs")
  have "item_less a x \<or> item_less x a"
    using Cons.prems(1) by (auto simp: item_less_def)
  then show ?case using Cons.prems Cons.IH [OF _ rec] rec by (auto split: if_splits)
qed auto

lemma sorted_keys_unique:
  assumes "sorted_wrt item_less xs" and "x \<in> set xs" "y \<in> set xs"
    and "it_ts x = it_ts y" "it_key x = it_key y"
  shows "x = y"
  using assms by (induction xs) (auto simp: item_less_def)

lemma tc_expired_ok [inv_intros]:
  assumes ok: "tc_ok c"
  shows "\<exists>b c'. tc_expired k ts now c = Inr (b, c') \<and> tc_ok c' \<and>
    (\<forall>j. map_option it_ts (tc_item c' j) = map_option it_ts (tc_item c j))"
proof (cases "map_of (tc_map c) k")
  case None
  then show ?thesis using ok by (auto simp: tc_expired_def)
next
  case (Some i)
  obtain x where x: "find_item i (tc_timed c) = Some x" "x \<in> set (tc_timed c)" "it_key x = k" "it_id x = i"
    using tc_ok_find [OF ok Some] .
  show ?thesis
  proof (cases "it_ts x = ts + now")
    case True
    then show ?thesis using ok Some x(1) by (auto simp: tc_expired_def)
  next
    case False
    let ?a = "x\<lparr>it_id := tc_next c\<rparr>" and ?xs = "set_erase i (tc_timed c)"
    obtain j ys where em: "set_emplace ?a ?xs = (j, ys)" by (cases "set_emplace ?a ?xs")
    have uniq: "y = x" if "y \<in> set (tc_timed c)" "it_id y = i" for y
      using that x ok find_item_in [of "tc_timed c" y i] by (simp add: tc_ok_def)
    have "\<forall>y \<in> set ?xs. it_ts y \<noteq> it_ts ?a \<or> it_key y \<noteq> it_key ?a"
      using ok x sorted_keys_unique [of "tc_timed c" _ x] by (auto simp: set_erase_def tc_ok_def)
    from emplace_absent [OF this em] have ys: "j = tc_next c" "set ys = insert ?a (set ?xs)"
      by simp_all
    have fresh: "tc_next c \<notin> it_id ` set (tc_timed c)" using ok by (auto simp: tc_ok_def)
    have dist: "distinct (map it_id ys)"
      using ok fresh by (intro set_emplace_distinct [OF _ _ em] set_erase_ok) (auto simp: tc_ok_def set_erase_def)
    have sort: "sorted_wrt item_less ys"
      using ok by (intro set_emplace_sorted [OF _ em] set_erase_ok) (simp add: tc_ok_def)
    let ?c = "c\<lparr>tc_timed := ys, tc_map := AList.update k j (tc_map c), tc_next := Suc (tc_next c)\<rparr>"
    have links: "\<exists>y \<in> set ys. it_id y = i' \<and> it_key y = k'"
      if "(k', i') \<in> set (AList.update k j (tc_map c))" for k' i'
    proof (cases "k' = k")
      case True
      then have "i' = j"
        using that ok map_of_is_SomeI [of "AList.update k j (tc_map c)" k i']
        by (simp add: AList.distinct_update AList.update_conv' tc_ok_def)
      then show ?thesis using True ys x(3) by auto
    next
      case False
      then have "(k', i') \<in> set (tc_map c)"
        using that update_links [of k j "tc_map c"] ok by (auto simp: tc_ok_def)
      then obtain y where "y \<in> set (tc_timed c)" "it_id y = i'" "it_key y = k'"
        using ok by (fastforce simp: tc_ok_def)
      then show ?thesis
        using uniq [of y] x(3) False ys(2) by (auto simp: set_erase_def)
    qed
    have ok': "tc_ok ?c"
      using ok dist sort ys links
      by (auto simp: tc_ok_def AList.distinct_update set_erase_def less_Suc_eq)
    have "map_option it_ts (tc_item ?c k') = map_option it_ts (tc_item c k')" for k'
    proof (cases "k' = k")
      case True
      have "find_item j ys = Some ?a"
        using dist ys by (intro find_item_in) auto
      then show ?thesis using True Some x(1) by (simp add: tc_item_def AList.update_conv')
    next
      case False
      show ?thesis
      proof (cases "map_of (tc_map c) k'")
        case None
        then show ?thesis using False by (simp add: tc_item_def AList.update_conv')
      next
        case (Some i')
        obtain y where y: "find_item i' (tc_timed c) = Some y" "y \<in> set (tc_timed c)" "it_key y = k'" "it_id y = i'"
          using tc_ok_find [OF ok Some] .
        have "y \<in> set ys" using uniq [of y] y x(3) False ys(2) by (auto simp: set_erase_def)
        then have "find_item i' ys = Some y" using dist y(4) by (intro find_item_in)
        then show ?thesis using False Some y(1) by (simp add: tc_item_def AList.update_conv')
      qed
    qed
    then show ?thesis
      using ok' False Some x(1) em by (auto simp: tc_expired_def Let_def)
  qed
qed

section \<open>Properties\<close>

datatype ('k, 'v) timed_op =
    TSet 'k 'v u64 u64 | TGet 'k | TDel 'k | TExpired 'k u64 u64 | TClear | TCheck u64
  | TMaxSize u64 | TElasticity u64

fun timed_exec :: "('k::linorder, 'v) timed_op \<Rightarrow> ('k, 'v) timed_cache \<Rightarrow> ('k, 'v) timed_cache res" where
  "timed_exec (TSet k v e now) c = bindE (tc_set k v e now c) (\<lambda>(_, c'). Inr c')"
| "timed_exec (TGet k) c = bindE (tc_get k c) (\<lambda>(_, c'). Inr c')"
| "timed_exec (TDel k) c = bindE (tc_del k c) (\<lambda>(_, c'). Inr c')"
| "timed_exec (TExpired k ts now) c = bindE (tc_expired k ts now c) (\<lambda>(_, c'). Inr c')"
| "timed_exec TClear c = Inr (tc_clear c)"
| "timed_exec (TCheck ts) c = bindE (tc_checkTimeout ts c) (\<lambda>(_, _, c'). Inr c')"
| "timed_exec (TMaxSize n) c = Inr (tc_setMaxSize n c)"
| "timed_exec (TElasticity n) c = Inr (tc_setElasticity n c)"

fun timed_run :: "('k::linorder, 'v) timed_op list \<Rightarrow> ('k, 'v) timed_cache \<Rightarrow> ('k, 'v) timed_cache res" where
  "timed_run [] c = Inr c"
| "timed_run (op # ops) c = bindE (timed_exec op c) (timed_run ops)"

text \<open>
  The two calls that leave defined behaviour: a deletion of a key that is there, and a
  \<open>checkTimeout\<close> of an odd number of items that have all expired.
\<close>

fun timed_stop :: "('k::linorder, 'v) timed_op \<Rightarrow> ('k, 'v) timed_cache \<Rightarrow> cpp_error option" where
  "timed_stop (TDel k) c = (if tc_exists k c then Some NoReturn else None)"
| "timed_stop (TCheck ts) c =
     (if odd (length (tc_timed c)) \<and> list_all (\<lambda>x. it_ts x \<le> ts) (tc_timed c) then Some PastEnd else None)"
| "timed_stop _ c = None"

lemma sorted_ts: "sorted_wrt item_less (x # xs) \<Longrightarrow> y \<in> set xs \<Longrightarrow> it_ts x \<le> it_ts y"
  by (force simp: item_less_def split: if_splits)

lemma timeout_loop_ok:
  assumes "sorted_wrt item_less xs" "distinct (map fst m)" "distinct (map it_id xs)"
    and "\<forall>(k, i) \<in> set m. \<exists>x \<in> S \<union> set xs. it_id x = i \<and> it_key x = k"
  shows "if odd (length xs) \<and> list_all (\<lambda>x. it_ts x \<le> ts) xs then timeout_loop ts m xs = Inl PastEnd
    else \<exists>m' xs' called. timeout_loop ts m xs = Inr (m', xs', called) \<and> sorted_wrt item_less xs' \<and>
      distinct (map fst m') \<and> distinct (map it_id xs') \<and> set xs' \<subseteq> set xs \<and>
      (\<forall>(k, i) \<in> set m'. \<exists>x \<in> S \<union> set xs'. it_id x = i \<and> it_key x = k)"
  using assms
proof (induction ts m xs arbitrary: S rule: timeout_loop.induct)
  case (1 ts m)
  then show ?case by auto
next
  case (2 ts m x xs)
  show ?case
  proof (cases "it_ts x \<le> ts")
    case False
    then show ?thesis using "2.prems" by auto
  next
    case True
    show ?thesis
    proof (cases xs)
      case Nil
      then show ?thesis using True by simp
    next
      case (Cons y ys)
      let ?m = "AList.delete (it_key x) m"
      have links: "\<forall>(k, i) \<in> set ?m. \<exists>z \<in> insert y S \<union> set ys. it_id z = i \<and> it_key z = k"
        using "2.prems"(4) Cons by (fastforce simp: alist_delete_filter)
      have ih: "if odd (length ys) \<and> list_all (\<lambda>x. it_ts x \<le> ts) ys then timeout_loop ts ?m ys = Inl PastEnd
        else \<exists>m' xs' called. timeout_loop ts ?m ys = Inr (m', xs', called) \<and> sorted_wrt item_less xs' \<and>
          distinct (map fst m') \<and> distinct (map it_id xs') \<and> set xs' \<subseteq> set ys \<and>
          (\<forall>(k, i) \<in> set m'. \<exists>x \<in> insert y S \<union> set xs'. it_id x = i \<and> it_key x = k)"
        using "2.IH" [OF True Cons _ _ _ links] "2.prems" Cons by (simp add: AList.distinct_delete)
      have y: "it_ts y \<le> ts" if "ys \<noteq> []" "list_all (\<lambda>x. it_ts x \<le> ts) ys"
        using that "2.prems"(1) Cons sorted_ts [of y ys "hd ys"] by (cases ys) auto
      show ?thesis
      proof (cases "odd (length ys) \<and> list_all (\<lambda>x. it_ts x \<le> ts) ys")
        case True
        then show ?thesis using ih y Cons \<open>it_ts x \<le> ts\<close> by (cases ys) auto
      next
        case False
        then obtain m' xs' called where rec: "timeout_loop ts ?m ys = Inr (m', xs', called)" "sorted_wrt item_less xs'"
          "distinct (map fst m')" "distinct (map it_id xs')" "set xs' \<subseteq> set ys"
          "\<forall>(k, i) \<in> set m'. \<exists>x \<in> insert y S \<union> set xs'. it_id x = i \<and> it_key x = k"
          using ih by auto
        have "\<not> (odd (length (x # xs)) \<and> list_all (\<lambda>x. it_ts x \<le> ts) (x # xs))" using False Cons by auto
        moreover have "sorted_wrt item_less (y # xs')" "distinct (map it_id (y # xs'))"
          using "2.prems"(1,3) Cons rec(2,4,5) by auto
        ultimately show ?thesis using rec(1,3,5,6) True Cons by auto
      qed
    qed
  qed
qed

lemma tc_checkTimeout_ok:
  assumes ok: "tc_ok c"
  shows "if odd (length (tc_timed c)) \<and> list_all (\<lambda>x. it_ts x \<le> ts) (tc_timed c)
    then tc_checkTimeout ts c = Inl PastEnd
    else \<exists>n called c'. tc_checkTimeout ts c = Inr (n, called, c') \<and> tc_ok c'"
proof -
  have "if odd (length (tc_timed c)) \<and> list_all (\<lambda>x. it_ts x \<le> ts) (tc_timed c)
    then timeout_loop ts (tc_map c) (tc_timed c) = Inl PastEnd
    else \<exists>m' xs' called. timeout_loop ts (tc_map c) (tc_timed c) = Inr (m', xs', called) \<and> sorted_wrt item_less xs' \<and>
      distinct (map fst m') \<and> distinct (map it_id xs') \<and> set xs' \<subseteq> set (tc_timed c) \<and>
      (\<forall>(k, i) \<in> set m'. \<exists>x \<in> {} \<union> set xs'. it_id x = i \<and> it_key x = k)"
    using ok by (intro timeout_loop_ok) (auto simp: tc_ok_def)
  then show ?thesis
    using ok by (auto simp: tc_checkTimeout_def tc_ok_def subset_iff split: if_splits)
qed

lemma timed_exec_ok:
  "tc_ok c \<Longrightarrow> case timed_stop op c of
     Some e \<Rightarrow> timed_exec op c = Inl e
   | None \<Rightarrow> \<exists>c'. timed_exec op c = Inr c' \<and> tc_ok c'"
proof (cases op)
  case (TSet k v e now)
  assume "tc_ok c"
  then show ?thesis using TSet tc_set_ok [of c k v e now] by auto
next
  case (TGet k)
  assume "tc_ok c"
  then show ?thesis using TGet tc_get_ok [of c k] by auto
next
  case (TDel k)
  assume "tc_ok c"
  then show ?thesis using TDel tc_del_ok [of c k] by auto
next
  case (TExpired k ts now)
  assume "tc_ok c"
  then show ?thesis using TExpired tc_expired_ok [of c k ts now] by auto
next
  case (TCheck ts)
  assume "tc_ok c"
  then show ?thesis using TCheck tc_checkTimeout_ok [of c ts] by auto
qed (simp_all add: tc_ok_def tc_clear_def tc_setMaxSize_def tc_setElasticity_def)

lemma timed_run_ok: "tc_ok c0 \<Longrightarrow> timed_run ops c0 = Inr c \<Longrightarrow> tc_ok c"
proof (induction ops arbitrary: c0)
  case (Cons op ops)
  obtain c1 where c1: "timed_exec op c0 = Inr c1" "timed_run ops c1 = Inr c"
    using Cons.prems(2) by (auto simp: bindE_Inr_iff)
  then have "tc_ok c1" using timed_exec_ok [OF Cons.prems(1), of op] by (auto split: option.splits)
  then show ?case using Cons.IH c1(2) by blast
qed simp

text \<open>C35: whatever calls (sets, gets, deletions, expiry changes, clears, timeouts, changes of the
  limits) have brought a timed cache to its state, no two overlapping, each key of the hash map
  points to an item of that key, the set is strictly ordered by expiry and key, and the next call
  succeeds; except that the deletion of a key that is there ends without a result, and a
  \<open>checkTimeout\<close> moves its iterator past the end exactly when the items are odd in number and have
  all expired. No call follows a dangling iterator.\<close>

theorem timed_cache_never_dangles:
  assumes "timed_run ops (new_timed mx el st) = Inr c"
  shows "tc_ok c \<and> (case timed_stop op c of
     Some e \<Rightarrow> timed_exec op c = Inl e
   | None \<Rightarrow> \<exists>c'. timed_exec op c = Inr c' \<and> tc_ok c')"
proof -
  have "tc_ok c" using timed_run_ok [OF new_timed_ok assms] .
  then show ?thesis using timed_exec_ok by blast
qed

theorem timed_cache_never_dangles_witness:
  "\<exists>c. timed_run [TSet (2::nat) (10::nat) 5 100] (new_timed 0 0 new_status) = Inr c \<and>
     timed_exec (TCheck 105) c = Inl PastEnd \<and> timed_exec (TDel 2) c = Inl NoReturn"
proof -
  obtain c :: "(nat, nat) timed_cache" where c: "timed_run [TSet 2 (10::nat) 5 100] (new_timed 0 0 new_status) = Inr c"
    "odd (length (tc_timed c)) \<and> list_all (\<lambda>x. it_ts x \<le> 105) (tc_timed c)" "tc_exists 2 c"
    by (simp add: tc_set_def new_timed_def tc_prune_def tc_exists_def)
  then show ?thesis
    using timed_cache_never_dangles [OF c(1), of "TCheck 105"] timed_cache_never_dangles [OF c(1), of "TDel 2"] by auto
qed

text \<open>\<open>expired\<close>, which is to give a key a new expiry, leaves the expiry of every key as it is,
  because it inserts the unchanged copy of the item.\<close>

theorem expired_changes_no_expiry:
  assumes "tc_ok c" and "tc_expired k ts now c = Inr (b, c')"
  shows "map_option it_ts (tc_item c' j) = map_option it_ts (tc_item c j)"
  using tc_expired_ok [OF assms(1), of k ts now] assms(2) by auto

theorem expired_changes_no_expiry_witness:
  "\<exists>c b c'. timed_run [TSet (2::nat) (10::nat) 5 100] (new_timed 0 0 new_status) = Inr c \<and>
     tc_expired 2 50 100 c = Inr (b, c') \<and>
     map_option it_ts (tc_item c' 2) = map_option it_ts (tc_item c 2)"
proof -
  obtain c :: "(nat, nat) timed_cache" where c: "timed_run [TSet 2 (10::nat) 5 100] (new_timed 0 0 new_status) = Inr c" "tc_ok c"
    using timed_exec_ok [OF new_timed_ok, of "TSet (2::nat) (10::nat) 5 100" 0 0 new_status] by fastforce
  obtain b c' where "tc_expired 2 50 100 c = Inr (b, c')" using tc_expired_ok [OF c(2)] by blast
  with expired_changes_no_expiry [OF c(2) this, of 2] c(1) show ?thesis by blast
qed

text \<open>Every second element, from the second on.\<close>

fun alternate :: "'a list \<Rightarrow> 'a list" where
  "alternate (x # y # r) = y # alternate r"
| "alternate _ = []"

lemma timeout_loop_all:
  "\<forall>x \<in> set xs. it_ts x \<le> ts \<Longrightarrow>
   if odd (length xs) then timeout_loop ts m xs = Inl PastEnd
   else \<exists>m' called. timeout_loop ts m xs = Inr (m', alternate xs, called) \<and> 2 * length called = length xs"
proof (induction xs arbitrary: m rule: alternate.induct)
  case (1 x y r)
  from "1.IH" [of "AList.delete (it_key x) m"] "1.prems" show ?case
    by (cases "odd (length r)") auto
qed auto

text \<open>When every item of the timed cache has expired, \<open>checkTimeout\<close> removes only every second
  one, and for an odd number of items it moves its iterator past the end.\<close>

theorem checkTimeout_skips_every_second:
  assumes "\<forall>x \<in> set (tc_timed c). it_ts x \<le> ts"
  shows "if odd (length (tc_timed c)) then tc_checkTimeout ts c = Inl PastEnd
    else \<exists>called c'. tc_checkTimeout ts c = Inr (length (tc_timed c) div 2, called, c') \<and>
      tc_timed c' = alternate (tc_timed c)"
proof (cases "odd (length (tc_timed c))")
  case True
  then show ?thesis using timeout_loop_all [OF assms, of "tc_map c"] by (simp add: tc_checkTimeout_def)
next
  case False
  then obtain m called where "timeout_loop ts (tc_map c) (tc_timed c) = Inr (m, alternate (tc_timed c), called)"
    "2 * length called = length (tc_timed c)"
    using timeout_loop_all [OF assms, of "tc_map c"] by auto
  then show ?thesis using False by (auto simp: tc_checkTimeout_def)
qed

theorem checkTimeout_skips_every_second_witness:
  "tc_checkTimeout 9 (new_timed 0 0 new_status\<lparr>tc_timed := [\<lparr>it_id = 0, it_key = 1::nat, it_val = 1::nat, it_ts = 5\<rparr>]\<rparr>) =
   Inl PastEnd"
  using checkTimeout_skips_every_second
    [of "new_timed 0 0 new_status\<lparr>tc_timed := [\<lparr>it_id = 0, it_key = 1::nat, it_val = 1::nat, it_ts = 5\<rparr>]\<rparr>" 9]
  by simp

text \<open>A key that is set again with a later expiry is dropped at its old one: \<open>set\<close> leaves the
  old item in the set, and \<open>checkTimeout\<close> erases the key of that item from the map.\<close>

theorem refreshed_key_dropped_early:
  assumes "e1 + t1 \<le> ts" and "ts < e2 + t2"
  shows "\<exists>c'. bindE (tc_set k v1 e1 t1 (new_timed 0 0 st)) (\<lambda>(_, c).
      bindE (tc_set k v2 e2 t2 c) (\<lambda>(_, c). tc_checkTimeout ts c)) = Inr (1, [(k, v1)], c') \<and>
    \<not> tc_exists k c'"
proof -
  have "e1 + t1 < e2 + t2" using assms by (rule le_less_trans)
  then show ?thesis
    using assms
    by (auto simp: tc_set_def tc_prune_def new_timed_def item_less_def tc_checkTimeout_def tc_exists_def
        alist_delete_filter)
qed

theorem refreshed_key_dropped_early_witness:
  "\<exists>c'. bindE (tc_set (7::nat) (1::nat) 10 100 (new_timed 0 0 new_status)) (\<lambda>(_, c).
      bindE (tc_set 7 2 50 105 c) (\<lambda>(_, c). tc_checkTimeout 120 c)) = Inr (1, [(7, 1)], c') \<and>
    \<not> tc_exists 7 c'"
  by (rule refreshed_key_dropped_early) simp_all

section \<open>HashTimed\_Cache\<close>

text \<open>
  \<open>HashTimed_Cache\<close>: \<open>set\<close> takes the hash of \<open>k % _bucket\<close>, the other operations the
  remainder of the hash. \<open>kmod\<close> is the \<open>%\<close> of the key type. The shards keep statuses of their
  own, since the constructor of \<open>Timed_Cache\<close> ignores the one it is given.
\<close>

record ('k, 'v) hash_timed =
  ht_datas :: "('k, 'v) timed_cache list"
  ht_maxSize :: u64
  ht_elasticity :: u64
  ht_bucket :: nat
  ht_status :: cache_status

definition new_hash_timed :: "nat \<Rightarrow> u64 \<Rightarrow> u64 \<Rightarrow> ('k, 'v) hash_timed res" where
  "new_hash_timed bucket max_size elasticity =
     (if bucket = 0 then Inl DivByZero
      else
        let pre_max_size = shard_size max_size bucket;
            pre_elasticity = shard_size elasticity bucket
        in Inr \<lparr>ht_datas = map (\<lambda>_. new_timed pre_max_size pre_elasticity new_status) [0..<bucket],
                ht_maxSize = pre_max_size * of_nat bucket, ht_elasticity = pre_elasticity * of_nat bucket,
                ht_bucket = bucket, ht_status = new_status\<rparr>)"

definition ht_at ::
  "nat \<Rightarrow> (('k, 'v) timed_cache \<Rightarrow> ('a \<times> ('k, 'v) timed_cache) res) \<Rightarrow>
   ('k, 'v) hash_timed \<Rightarrow> ('a \<times> ('k, 'v) hash_timed) res" where
  "ht_at i op h =
     (if ht_bucket h = 0 then Inl DivByZero
      else bindE (at_shard i op (ht_datas h)) (\<lambda>(r, cs). Inr (r, h\<lparr>ht_datas := cs\<rparr>)))"

definition ht_set where
  "ht_set hash kmod k v expired now h = ht_at (hash (kmod k (ht_bucket h))) (tc_set k v expired now) h"

definition ht_expired where
  "ht_expired hash k ts now h = ht_at (hash k mod ht_bucket h) (tc_expired k ts now) h"

definition ht_get where
  "ht_get hash k h = ht_at (hash k mod ht_bucket h) (tc_get k) h"

definition ht_del where
  "ht_del hash k h = ht_at (hash k mod ht_bucket h) (tc_del k) h"

definition ht_exists where
  "ht_exists hash k h =
     bindE (ht_at (hash k mod ht_bucket h) (\<lambda>c. Inr (tc_exists k c, c)) h) (\<lambda>(r, _). Inr r)"

definition ht_size :: "('k, 'v) hash_timed \<Rightarrow> nat" where
  "ht_size h = sum_list (map tc_size (ht_datas h))"

definition ht_empty :: "('k, 'v) hash_timed \<Rightarrow> bool" where
  "ht_empty h \<longleftrightarrow> list_all tc_empty (ht_datas h)"

definition ht_clear :: "('k, 'v) hash_timed \<Rightarrow> ('k, 'v) hash_timed" where
  "ht_clear h = h\<lparr>ht_datas := map tc_clear (ht_datas h)\<rparr>"

definition ht_setMaxSize :: "u64 \<Rightarrow> ('k, 'v) hash_timed \<Rightarrow> ('k, 'v) hash_timed" where
  "ht_setMaxSize v h =
     (let pre = shard_size v (ht_bucket h)
      in h\<lparr>ht_maxSize := pre * of_nat (ht_bucket h), ht_datas := map (tc_setMaxSize pre) (ht_datas h)\<rparr>)"

definition ht_setElasticity :: "u64 \<Rightarrow> ('k, 'v) hash_timed \<Rightarrow> ('k, 'v) hash_timed" where
  "ht_setElasticity v h =
     (let pre = shard_size v (ht_bucket h)
      in h\<lparr>ht_elasticity := pre * of_nat (ht_bucket h), ht_datas := map (tc_setElasticity pre) (ht_datas h)\<rparr>)"

fun ht_timeouts ::
  "u64 \<Rightarrow> ('k, 'v) timed_cache list \<Rightarrow> (nat \<times> ('k \<times> 'v) list \<times> ('k, 'v) timed_cache list) res" where
  "ht_timeouts ts [] = Inr (0, [], [])"
| "ht_timeouts ts (c # cs) =
     bindE (tc_checkTimeout ts c) (\<lambda>(n, called, c').
     bindE (ht_timeouts ts cs) (\<lambda>(n', called', cs').
       Inr (n + n', called @ called', c' # cs')))"

definition ht_checkTimeout ::
  "u64 \<Rightarrow> ('k, 'v) hash_timed \<Rightarrow> (nat \<times> ('k \<times> 'v) list \<times> ('k, 'v) hash_timed) res" where
  "ht_checkTimeout ts h =
     bindE (ht_timeouts ts (ht_datas h)) (\<lambda>(n, called, cs). Inr (n, called, h\<lparr>ht_datas := cs\<rparr>))"

end
