(* ===== verification/StdSet.thy ===== *)
theory StdSet
  imports Prelude
begin

text \<open>
  \<open>std::set\<close> with a comparator: a list that is strictly sorted by it. The locale states what the
  standard asks of a comparator (a strict total order on the stored values, so that equivalence
  is equality) and proves what the operations then do.
\<close>

definition lower_bound :: "('a \<Rightarrow> 'a \<Rightarrow> bool) \<Rightarrow> 'a \<Rightarrow> 'a list \<Rightarrow> 'a list" where
  "lower_bound cmp x xs = dropWhile (\<lambda>y. cmp y x) xs"

definition set_find :: "('a \<Rightarrow> 'a \<Rightarrow> bool) \<Rightarrow> 'a \<Rightarrow> 'a list \<Rightarrow> 'a option" where
  "set_find cmp x xs =
     (case lower_bound cmp x xs of [] \<Rightarrow> None | y # _ \<Rightarrow> if cmp x y then None else Some y)"

definition set_insert :: "('a \<Rightarrow> 'a \<Rightarrow> bool) \<Rightarrow> 'a \<Rightarrow> 'a list \<Rightarrow> 'a list" where
  "set_insert cmp x xs =
     (if set_find cmp x xs = None then takeWhile (\<lambda>y. cmp y x) xs @ x # lower_bound cmp x xs
      else xs)"

definition set_erase_at :: "'a \<Rightarrow> 'a list \<Rightarrow> 'a list" where
  "set_erase_at y xs = filter (\<lambda>z. z \<noteq> y) xs"

lemma sorted_downward:
  assumes "sorted_wrt R xs" and "\<And>x y. x \<in> set xs \<Longrightarrow> y \<in> set xs \<Longrightarrow> R x y \<Longrightarrow> P y \<Longrightarrow> P x"
  shows "dropWhile P xs = filter (\<lambda>x. \<not> P x) xs" "takeWhile P xs = filter P xs"
proof -
  have "dropWhile P xs = filter (\<lambda>x. \<not> P x) xs \<and> takeWhile P xs = filter P xs"
    using assms
  proof (induction xs)
    case (Cons x xs)
    have "\<not> P x \<Longrightarrow> \<forall>y \<in> set xs. \<not> P y"
      using Cons.prems by auto
    moreover have "P x \<Longrightarrow> dropWhile P xs = filter (\<lambda>x. \<not> P x) xs \<and> takeWhile P xs = filter P xs"
      using Cons.prems by (intro Cons.IH) auto
    ultimately show ?case by (cases "P x") auto
  qed simp
  then show "dropWhile P xs = filter (\<lambda>x. \<not> P x) xs" "takeWhile P xs = filter P xs" by auto
qed

locale strict_comparator =
  fixes cmp :: "'a \<Rightarrow> 'a \<Rightarrow> bool"
  assumes less_irrefl: "\<not> cmp x x"
    and less_trans: "cmp x y \<Longrightarrow> cmp y z \<Longrightarrow> cmp x z"
    and less_total: "x \<noteq> y \<Longrightarrow> cmp x y \<or> cmp y x"
begin

lemma sorted_prefix:
  "sorted_wrt cmp xs \<Longrightarrow> takeWhile (\<lambda>y. cmp y x) xs = filter (\<lambda>y. cmp y x) xs"
proof (induction xs)
  case (Cons y xs)
  show ?case
  proof (cases "cmp y x")
    case True
    then show ?thesis using Cons by simp
  next
    case False
    have "\<not> cmp z x" if "z \<in> set xs" for z
      using that Cons.prems False less_trans by auto
    then show ?thesis using False by simp
  qed
qed simp

lemma sorted_suffix:
  "sorted_wrt cmp xs \<Longrightarrow> lower_bound cmp x xs = filter (\<lambda>y. \<not> cmp y x) xs"
proof (induction xs)
  case (Cons y xs)
  show ?case
  proof (cases "cmp y x")
    case True
    then show ?thesis using Cons by (simp add: lower_bound_def)
  next
    case False
    have "\<not> cmp z x" if "z \<in> set xs" for z
      using that Cons.prems False less_trans by auto
    then have "filter (\<lambda>y. \<not> cmp y x) xs = xs" by simp
    then show ?thesis using False by (simp add: lower_bound_def)
  qed
qed (simp add: lower_bound_def)

lemma sorted_distinct: "sorted_wrt cmp xs \<Longrightarrow> distinct xs"
  by (induction xs) (auto simp: less_irrefl)

lemma find_iff:
  assumes "sorted_wrt cmp xs"
  shows "set_find cmp x xs = (if x \<in> set xs then Some x else None)"
proof (cases "filter (\<lambda>y. \<not> cmp y x) xs")
  case Nil
  then have "x \<notin> set xs" using less_irrefl by (auto simp: filter_empty_conv)
  then show ?thesis using Nil by (simp add: set_find_def sorted_suffix [OF assms])
next
  case (Cons y ys)
  then have "y \<in> set (filter (\<lambda>y. \<not> cmp y x) xs)" by simp
  then have y: "y \<in> set xs" "\<not> cmp y x" by simp_all
  have "x = y" if "x \<in> set xs"
  proof (rule ccontr)
    assume "x \<noteq> y"
    then have "cmp x y" using y less_total by blast
    have "x \<in> set (y # ys)" unfolding Cons [symmetric] using that less_irrefl by simp
    moreover have "sorted_wrt cmp (y # ys)"
      unfolding Cons [symmetric] using assms by (simp add: sorted_wrt_filter)
    ultimately show False using \<open>x \<noteq> y\<close> \<open>cmp x y\<close> y(2) by auto
  qed
  moreover have "\<not> cmp x y \<Longrightarrow> x = y" using y(2) less_total by blast
  ultimately show ?thesis
    using Cons y less_irrefl by (auto simp: set_find_def sorted_suffix [OF assms])
qed

lemma insert_sorted:
  assumes "sorted_wrt cmp xs"
  shows "sorted_wrt cmp (set_insert cmp x xs)"
proof (cases "x \<in> set xs")
  case True
  then show ?thesis using assms by (simp add: set_insert_def find_iff)
next
  case False
  have "cmp x y" if "y \<in> set xs" "\<not> cmp y x" for y
    using that False less_total by metis
  moreover have "cmp y z" if "cmp y x" "\<not> cmp z x" "z \<in> set xs" for y z
    using that False less_total less_trans by metis
  ultimately show ?thesis
    using assms False
    by (auto simp: set_insert_def find_iff sorted_prefix sorted_suffix sorted_wrt_append sorted_wrt_filter)
qed

lemma set_of_insert:
  "sorted_wrt cmp xs \<Longrightarrow> set (set_insert cmp x xs) = insert x (set xs)"
  by (auto simp: set_insert_def find_iff sorted_prefix sorted_suffix)

lemma erase_sorted: "sorted_wrt cmp xs \<Longrightarrow> sorted_wrt cmp (set_erase_at y xs)"
  by (simp add: set_erase_at_def sorted_wrt_filter)

end

lemma set_of_erase [simp]: "set (set_erase_at y xs) = set xs - {y}"
  by (auto simp: set_erase_at_def)

end
