(* ===== verification/Timers.thy ===== *)
theory Timers
  imports StdSet
begin

text \<open>
  The timers of \<open>src/Timer.cpp\<close>. A timer lives at an address, a natural number; \<open>mg_store\<close> maps
  addresses to timers, \<open>mg_alloc\<close> lists the addresses in use, and \<open>_timers\<close> is the list of addresses that the comparator of the code
  keeps sorted by \<open>_next\<close> and address. A callback is a call or the wrapped call of
  \<open>addConditionTimer\<close>; an empty \<open>std::function\<close> is \<open>None\<close>. Times are 64-bit words, the clock is
  an argument of every operation that reads it, and \<open>mg_front\<close> counts the calls of the virtual
  \<open>onTimerInsertedAtFront\<close>. The lock makes each operation atomic.
\<close>

section \<open>State\<close>

datatype 'c callback = Call 'c | OnTimer nat 'c

text \<open>\<open>OnTimer\<close> calls its callback when the weak pointer is still alive.\<close>

fun run_callback :: "(nat \<Rightarrow> bool) \<Rightarrow> 'c callback \<Rightarrow> 'c option" where
  "run_callback alive (Call c) = Some c"
| "run_callback alive (OnTimer weak_cond c) = (if alive weak_cond then Some c else None)"

record 'c timer =
  tm_recurring :: bool
  tm_ms :: u64
  tm_next :: u64
  tm_callback :: "'c callback option"

record 'c manager =
  mg_store :: "nat \<Rightarrow> 'c timer"
  mg_alloc :: "nat list"
  mg_timers :: "nat list"
  mg_tickled :: bool
  mg_previousTime :: u64
  mg_front :: nat

definition timer_now :: "u64 \<Rightarrow> 'c timer" where
  "timer_now next = \<lparr>tm_recurring = False, tm_ms = 0, tm_next = next, tm_callback = None\<rparr>"

definition new_timer :: "u64 \<Rightarrow> 'c callback \<Rightarrow> bool \<Rightarrow> u64 \<Rightarrow> 'c timer" where
  "new_timer ms cb recurring now =
     \<lparr>tm_recurring = recurring, tm_ms = ms, tm_next = now + ms, tm_callback = Some cb\<rparr>"

definition new_manager :: "u64 \<Rightarrow> 'c manager" where
  "new_manager now =
     \<lparr>mg_store = (\<lambda>_. timer_now 0), mg_alloc = [], mg_timers = [], mg_tickled = False,
      mg_previousTime = now, mg_front = 0\<rparr>"

text \<open>The comparator on two pointers that are not null.\<close>

definition timer_less :: "(nat \<Rightarrow> 'c timer) \<Rightarrow> nat \<Rightarrow> nat \<Rightarrow> bool" where
  "timer_less st lhs rhs \<longleftrightarrow>
     (if tm_next (st lhs) < tm_next (st rhs) then True
      else if tm_next (st rhs) < tm_next (st lhs) then False
      else lhs < rhs)"

text \<open>The whole comparator, null pointers included.\<close>

fun timer_comparator :: "(nat \<Rightarrow> 'c timer) \<Rightarrow> nat option \<Rightarrow> nat option \<Rightarrow> bool" where
  "timer_comparator st None None \<longleftrightarrow> False"
| "timer_comparator st None (Some r) \<longleftrightarrow> True"
| "timer_comparator st (Some l) None \<longleftrightarrow> False"
| "timer_comparator st (Some l) (Some r) \<longleftrightarrow> timer_less st l r"

section \<open>Operations\<close>

definition set_timer :: "nat \<Rightarrow> 'c timer \<Rightarrow> 'c manager \<Rightarrow> 'c manager" where
  "set_timer i t m = m\<lparr>mg_store := (mg_store m)(i := t)\<rparr>"

definition timers_insert :: "nat \<Rightarrow> 'c manager \<Rightarrow> 'c manager" where
  "timers_insert i m = m\<lparr>mg_timers := set_insert (timer_less (mg_store m)) i (mg_timers m)\<rparr>"

definition timers_find :: "nat \<Rightarrow> 'c manager \<Rightarrow> nat option" where
  "timers_find i m = set_find (timer_less (mg_store m)) i (mg_timers m)"

definition timers_erase :: "nat \<Rightarrow> 'c manager \<Rightarrow> 'c manager" where
  "timers_erase i m = m\<lparr>mg_timers := set_erase_at i (mg_timers m)\<rparr>"

text \<open>\<open>addTimer(val, lock)\<close>.\<close>

definition add_locked :: "nat \<Rightarrow> 'c manager \<Rightarrow> 'c manager" where
  "add_locked i m =
     (let m1 = timers_insert i m;
          at_front = (mg_timers m1 \<noteq> [] \<and> hd (mg_timers m1) = i \<and> \<not> mg_tickled m1)
      in if at_front then m1\<lparr>mg_tickled := True, mg_front := Suc (mg_front m1)\<rparr> else m1)"

text \<open>\<open>addTimer(ms, cb, recurring)\<close>; \<open>i\<close> is the address that \<open>new Timer\<close> returns.\<close>

definition addTimer ::
  "nat \<Rightarrow> u64 \<Rightarrow> 'c callback \<Rightarrow> bool \<Rightarrow> u64 \<Rightarrow> 'c manager \<Rightarrow> 'c manager" where
  "addTimer i ms cb recurring now m =
     add_locked i ((set_timer i (new_timer ms cb recurring now) m)\<lparr>mg_alloc := i # mg_alloc m\<rparr>)"

definition addConditionTimer ::
  "nat \<Rightarrow> u64 \<Rightarrow> 'c \<Rightarrow> nat \<Rightarrow> bool \<Rightarrow> u64 \<Rightarrow> 'c manager \<Rightarrow> 'c manager" where
  "addConditionTimer i ms cb weak_cond recurring now m =
     addTimer i ms (OnTimer weak_cond cb) recurring now m"

definition tm_refresh :: "nat \<Rightarrow> u64 \<Rightarrow> 'c manager \<Rightarrow> bool \<times> 'c manager" where
  "tm_refresh i now m =
     (let t = mg_store m i in
      if tm_callback t = None then (False, m)
      else
        case timers_find i m of
          None \<Rightarrow> (False, m)
        | Some it \<Rightarrow>
            let m1 = timers_erase it m;
                m2 = set_timer i (t\<lparr>tm_next := now + tm_ms t\<rparr>) m1
            in (True, timers_insert i m2))"

text \<open>\<open>cancel\<close> erases what \<open>find\<close> returns without looking at it.\<close>

definition tm_cancel :: "nat \<Rightarrow> 'c manager \<Rightarrow> (bool \<times> 'c manager) res" where
  "tm_cancel i m =
     (let t = mg_store m i in
      if tm_callback t \<noteq> None then
        let m1 = set_timer i (t\<lparr>tm_callback := None\<rparr>) m in
        case timers_find i m1 of
          None \<Rightarrow> Inl BadIter
        | Some it \<Rightarrow> Inr (True, timers_erase it m1)
      else Inr (False, m))"

definition tm_reset :: "nat \<Rightarrow> u64 \<Rightarrow> bool \<Rightarrow> u64 \<Rightarrow> 'c manager \<Rightarrow> bool \<times> 'c manager" where
  "tm_reset i ms from_now now m =
     (let t = mg_store m i in
      if ms = tm_ms t \<and> \<not> from_now then (True, m)
      else if tm_callback t = None then (False, m)
      else
        case timers_find i m of
          None \<Rightarrow> (False, m)
        | Some it \<Rightarrow>
            let m1 = timers_erase it m;
                start = (if from_now then now else tm_next t - tm_ms t);
                m2 = set_timer i (t\<lparr>tm_ms := ms, tm_next := start + ms\<rparr>) m1
            in (True, add_locked i m2))"

definition getNextTimer :: "u64 \<Rightarrow> 'c manager \<Rightarrow> u64 \<times> 'c manager" where
  "getNextTimer now m0 =
     (let m = m0\<lparr>mg_tickled := False\<rparr> in
      case mg_timers m of
        [] \<Rightarrow> (not 0, m)
      | i # _ \<Rightarrow>
          if now \<ge> tm_next (mg_store m i) then (0, m) else (tm_next (mg_store m i) - now, m))"

definition detectClockRollover :: "u64 \<Rightarrow> 'c manager \<Rightarrow> bool \<times> 'c manager" where
  "detectClockRollover now m =
     (now < mg_previousTime m \<and> now < mg_previousTime m - 60 * 60 * 1000,
      m\<lparr>mg_previousTime := now\<rparr>)"

definition hasTimer :: "'c manager \<Rightarrow> bool" where
  "hasTimer m \<longleftrightarrow> mg_timers m \<noteq> []"

text \<open>The loop over the expired timers.\<close>

fun expire_loop :: "u64 \<Rightarrow> nat list \<Rightarrow> 'c manager \<Rightarrow> 'c callback option list \<times> 'c manager" where
  "expire_loop now [] m = ([], m)"
| "expire_loop now (i # is) m =
     (let t = mg_store m i;
          m1 = (if tm_recurring t
                then timers_insert i (set_timer i (t\<lparr>tm_next := now + tm_ms t\<rparr>) m)
                else set_timer i (t\<lparr>tm_callback := None\<rparr>) m);
          (cbs, m2) = expire_loop now is m1
      in (tm_callback t # cbs, m2))"

text \<open>
  \<open>listExpiredCb\<close>. \<open>addr\<close> is the address of the temporary \<open>now_timer\<close>, which the comparator
  uses to break ties.
\<close>

definition listExpiredCb :: "u64 \<Rightarrow> nat \<Rightarrow> 'c manager \<Rightarrow> 'c callback option list \<times> 'c manager" where
  "listExpiredCb now addr m =
     (if mg_timers m = [] then ([], m)
      else
        let (rollover, m1) = detectClockRollover now m in
        if \<not> rollover \<and> tm_next (mg_store m1 (hd (mg_timers m1))) > now then ([], m1)
        else
          let st = (mg_store m1)(addr := timer_now now);
              it = (if rollover then [] else lower_bound (timer_less st) addr (mg_timers m1));
              rest = dropWhile (\<lambda>i. tm_next (mg_store m1 i) = now) it;
              expired = take (length (mg_timers m1) - length rest) (mg_timers m1)
          in expire_loop now expired (m1\<lparr>mg_timers := rest\<rparr>))"

section \<open>The set of timers\<close>

interpretation timer_order: strict_comparator "timer_less st" for st :: "nat \<Rightarrow> 'c timer"
  by unfold_locales (auto simp: timer_less_def split: if_splits)

text \<open>A timer is in the set exactly while it has a callback.\<close>

definition mg_ok :: "'c manager \<Rightarrow> bool" where
  "mg_ok m \<longleftrightarrow> sorted_wrt (timer_less (mg_store m)) (mg_timers m) \<and>
     set (mg_timers m) \<subseteq> set (mg_alloc m) \<and>
     (\<forall>i \<in> set (mg_alloc m). tm_callback (mg_store m i) \<noteq> None \<longleftrightarrow> i \<in> set (mg_timers m))"

lemma new_manager_ok: "mg_ok (new_manager now)"
  by (simp add: mg_ok_def new_manager_def)

lemma sorted_update:
  assumes "sorted_wrt (timer_less st) xs" and "i \<notin> set xs"
  shows "sorted_wrt (timer_less (st(i := t))) xs"
proof (rule sorted_wrt_mono_rel [OF _ assms(1)])
  fix x y assume "x \<in> set xs" "y \<in> set xs" "timer_less st x y"
  moreover from this have "x \<noteq> i" "y \<noteq> i" using assms(2) by auto
  ultimately show "timer_less (st(i := t)) x y" by (auto simp: timer_less_def split: if_splits)
qed

lemma sorted_same_next:
  assumes "sorted_wrt (timer_less st) xs" and "\<And>i. tm_next (st' i) = tm_next (st i)"
  shows "sorted_wrt (timer_less st') xs"
proof (rule sorted_wrt_mono_rel [OF _ assms(1)])
  fix x y assume "timer_less st x y"
  then show "timer_less st' x y" using assms(2) by (auto simp: timer_less_def split: if_splits)
qed

lemma timers_find_iff:
  "mg_ok m \<Longrightarrow> timers_find i m = (if i \<in> set (mg_timers m) then Some i else None)"
  unfolding timers_find_def by (rule timer_order.find_iff) (simp add: mg_ok_def)

lemma erase_ok_store:
  assumes "mg_ok m"
  shows "sorted_wrt (timer_less ((mg_store m)(i := t))) (set_erase_at i (mg_timers m))"
  using assms timer_order.erase_sorted [of "mg_store m" "mg_timers m" i]
  by (intro sorted_update) (simp_all add: mg_ok_def)

text \<open>A timer that was erased, changed and inserted again.\<close>

lemma reinsert_ok:
  assumes ok: "mg_ok m" and i: "i \<in> set (mg_alloc m)" and cb: "tm_callback t \<noteq> None"
  shows "mg_ok (timers_insert i (set_timer i t (timers_erase i m)))"
    and "set (mg_timers (timers_insert i (set_timer i t (timers_erase i m)))) = insert i (set (mg_timers m))"
proof -
  let ?m = "set_timer i t (timers_erase i m)"
  have s: "sorted_wrt (timer_less (mg_store ?m)) (mg_timers ?m)"
    using erase_ok_store [OF ok] by (simp add: set_timer_def timers_erase_def)
  note ins = timer_order.insert_sorted [OF s, of i] timer_order.set_of_insert [OF s, of i]
  show "set (mg_timers (timers_insert i ?m)) = insert i (set (mg_timers m))"
    using ins(2) by (auto simp: timers_insert_def set_timer_def timers_erase_def)
  then show "mg_ok (timers_insert i ?m)"
    using ins(1) ok i cb by (auto simp: mg_ok_def timers_insert_def set_timer_def timers_erase_def)
qed

lemma add_locked_fields:
  "mg_timers (add_locked i m) = mg_timers (timers_insert i m)"
  "mg_store (add_locked i m) = mg_store m" "mg_alloc (add_locked i m) = mg_alloc m"
  by (simp_all add: add_locked_def timers_insert_def Let_def)

lemma mg_ok_cong:
  "mg_ok m \<Longrightarrow> mg_timers m' = mg_timers m \<Longrightarrow> mg_store m' = mg_store m \<Longrightarrow> mg_alloc m' = mg_alloc m \<Longrightarrow>
   mg_ok m'"
  by (simp add: mg_ok_def)

lemma addTimer_ok [inv_intros]:
  assumes ok: "mg_ok m" and i: "i \<notin> set (mg_alloc m)"
  shows "mg_ok (addTimer i ms cb recurring now m)"
    and "set (mg_timers (addTimer i ms cb recurring now m)) = insert i (set (mg_timers m))"
proof -
  let ?t = "new_timer ms cb recurring now"
  let ?m = "(set_timer i ?t m)\<lparr>mg_alloc := i # mg_alloc m\<rparr>"
  have ni: "i \<notin> set (mg_timers m)" using ok i by (auto simp: mg_ok_def)
  then have s: "sorted_wrt (timer_less (mg_store ?m)) (mg_timers ?m)"
    using ok by (simp add: set_timer_def mg_ok_def sorted_update)
  note ins = timer_order.insert_sorted [OF s, of i] timer_order.set_of_insert [OF s, of i]
  show st: "set (mg_timers (addTimer i ms cb recurring now m)) = insert i (set (mg_timers m))"
    using ins(2) by (simp add: addTimer_def add_locked_fields timers_insert_def set_timer_def)
  show "mg_ok (addTimer i ms cb recurring now m)"
    using ins ok i ni
    by (auto simp: mg_ok_def addTimer_def add_locked_fields timers_insert_def set_timer_def new_timer_def)
qed

lemma tm_refresh_ok [inv_intros]:
  assumes ok: "mg_ok m" and i: "i \<in> set (mg_alloc m)"
  shows "mg_ok (snd (tm_refresh i now m))"
  using reinsert_ok(1) [OF ok i] ok i
  by (auto simp: tm_refresh_def Let_def timers_find_iff)

lemma tm_reset_ok [inv_intros]:
  assumes ok: "mg_ok m" and i: "i \<in> set (mg_alloc m)"
  shows "mg_ok (snd (tm_reset i ms from_now now m))"
proof -
  have "mg_ok (add_locked i (set_timer i t (timers_erase i m)))" if "tm_callback t \<noteq> None" for t
    using reinsert_ok(1) [OF ok i that]
    by (rule mg_ok_cong) (simp_all add: add_locked_fields timers_insert_def)
  then show ?thesis
    using ok i by (auto simp: tm_reset_def Let_def timers_find_iff)
qed

lemma tm_cancel_ok [inv_intros]:
  assumes ok: "mg_ok m" and i: "i \<in> set (mg_alloc m)"
  shows "\<exists>m'. tm_cancel i m = Inr (tm_callback (mg_store m i) \<noteq> None, m') \<and> mg_ok m' \<and>
    mg_alloc m' = mg_alloc m \<and> tm_callback (mg_store m' i) = None \<and>
    (\<forall>j. j \<noteq> i \<longrightarrow> mg_store m' j = mg_store m j)"
proof (cases "tm_callback (mg_store m i) = None")
  case True
  then show ?thesis using ok by (simp add: tm_cancel_def)
next
  case False
  let ?t = "mg_store m i\<lparr>tm_callback := None\<rparr>"
  let ?m = "set_timer i ?t m"
  have s: "sorted_wrt (timer_less (mg_store ?m)) (mg_timers m)"
    using ok by (auto simp: mg_ok_def set_timer_def intro: sorted_same_next)
  have "i \<in> set (mg_timers m)" using ok i False by (simp add: mg_ok_def)
  then have f: "timers_find i ?m = Some i"
    using timer_order.find_iff [OF s, of i] by (simp add: timers_find_def set_timer_def)
  have "mg_ok (timers_erase i ?m)"
    using ok s timer_order.erase_sorted [OF s, of i]
    by (auto simp: mg_ok_def timers_erase_def set_timer_def)
  then show ?thesis
    using False f by (auto simp: tm_cancel_def Let_def timers_erase_def set_timer_def)
qed

section \<open>Expiry\<close>

definition due :: "u64 \<Rightarrow> 'c manager \<Rightarrow> nat list" where
  "due now m = filter (\<lambda>i. tm_next (mg_store m i) \<le> now) (mg_timers m)"

definition rolls_over :: "u64 \<Rightarrow> 'c manager \<Rightarrow> bool" where
  "rolls_over now m \<longleftrightarrow> fst (detectClockRollover now m)"

lemma expired_split:
  fixes m :: "'c manager" and now :: u64 and addr :: nat
  assumes ok: "mg_ok m" and addr: "addr \<notin> set (mg_alloc m)"
  defines "st \<equiv> (mg_store m)(addr := timer_now now)"
  defines "rest \<equiv> dropWhile (\<lambda>i. tm_next (mg_store m i) = now) (lower_bound (timer_less st) addr (mg_timers m))"
  shows "rest = filter (\<lambda>i. now < tm_next (mg_store m i)) (mg_timers m)"
    and "take (length (mg_timers m) - length rest) (mg_timers m) = due now m"
proof -
  let ?next = "\<lambda>i. tm_next (mg_store m i)"
  have sorted: "sorted_wrt (timer_less (mg_store m)) (mg_timers m)" using ok by (simp add: mg_ok_def)
  have "addr \<notin> set (mg_timers m)" using ok addr by (auto simp: mg_ok_def)
  then have "sorted_wrt (timer_less st) (mg_timers m)"
    unfolding st_def by (intro sorted_update sorted)
  then have lb: "lower_bound (timer_less st) addr (mg_timers m) =
      filter (\<lambda>y. \<not> timer_less st y addr) (mg_timers m)"
    by (rule timer_order.sorted_suffix)
  have in_lb: "now \<le> ?next y" if "y \<in> set (filter (\<lambda>y. \<not> timer_less st y addr) (mg_timers m))" for y
    using that \<open>addr \<notin> set (mg_timers m)\<close>
    by (auto simp: timer_less_def st_def timer_now_def split: if_splits)
  have "rest = filter (\<lambda>i. \<not> ?next i = now) (filter (\<lambda>y. \<not> timer_less st y addr) (mg_timers m))"
    unfolding rest_def lb
  proof (rule sorted_downward)
    show "sorted_wrt (timer_less (mg_store m)) (filter (\<lambda>y. \<not> timer_less st y addr) (mg_timers m))"
      using sorted by (simp add: sorted_wrt_filter)
    fix x y
    assume a: "x \<in> set (filter (\<lambda>y. \<not> timer_less st y addr) (mg_timers m))"
      "timer_less (mg_store m) x y" "?next y = now"
    then have "?next x \<le> now" by (auto simp: timer_less_def split: if_splits)
    then show "?next x = now" using in_lb [OF a(1)] by simp
  qed
  also have "\<dots> = filter (\<lambda>i. now < ?next i) (mg_timers m)"
  proof -
    have "i \<in> set (mg_timers m) \<Longrightarrow> (\<not> timer_less st i addr \<and> ?next i \<noteq> now) = (now < ?next i)" for i
      using \<open>addr \<notin> set (mg_timers m)\<close>
      by (auto simp: timer_less_def st_def timer_now_def)
    then show ?thesis by (auto intro: filter_cong)
  qed
  finally show rest: "rest = filter (\<lambda>i. now < ?next i) (mg_timers m)" .
  have split: "takeWhile (\<lambda>i. ?next i \<le> now) (mg_timers m) = due now m"
    "dropWhile (\<lambda>i. ?next i \<le> now) (mg_timers m) = rest"
    using sorted_downward [OF sorted, of "\<lambda>i. ?next i \<le> now"] rest
    by (auto simp: due_def timer_less_def not_le split: if_splits)
  have "mg_timers m = due now m @ rest"
    using takeWhile_dropWhile_id [of "\<lambda>i. ?next i \<le> now" "mg_timers m"] by (simp add: split)
  then show "take (length (mg_timers m) - length rest) (mg_timers m) = due now m"
    by (metis append_eq_conv_conj diff_add_inverse2 length_append)
qed

text \<open>Between the erasure of the expired timers and the loop, those timers are the exception.\<close>

definition mg_ok_but :: "nat list \<Rightarrow> 'c manager \<Rightarrow> bool" where
  "mg_ok_but is m \<longleftrightarrow> sorted_wrt (timer_less (mg_store m)) (mg_timers m) \<and>
     set (mg_timers m) \<subseteq> set (mg_alloc m) \<and> set is \<subseteq> set (mg_alloc m) \<and>
     set is \<inter> set (mg_timers m) = {} \<and> distinct is \<and>
     (\<forall>i \<in> set (mg_alloc m). tm_callback (mg_store m i) \<noteq> None \<longleftrightarrow> i \<in> set (mg_timers m) \<union> set is)"

lemma expire_loop_ok:
  "mg_ok_but is m \<Longrightarrow> \<exists>m'. expire_loop now is m = (map (\<lambda>i. tm_callback (mg_store m i)) is, m') \<and>
     mg_ok m' \<and> mg_alloc m' = mg_alloc m \<and>
     set (mg_timers m') = set (mg_timers m) \<union> {i \<in> set is. tm_recurring (mg_store m i)} \<and>
     (\<forall>i. i \<notin> set is \<longrightarrow> mg_store m' i = mg_store m i) \<and>
     (\<forall>i \<in> set is. tm_recurring (mg_store m i) \<longrightarrow> tm_next (mg_store m' i) = now + tm_ms (mg_store m i))"
proof (induction "is" arbitrary: m)
  case Nil
  then show ?case by (simp add: mg_ok_but_def mg_ok_def)
next
  case (Cons i js)
  let ?t = "mg_store m i"
  define m1 where "m1 = (if tm_recurring ?t
      then timers_insert i (set_timer i (?t\<lparr>tm_next := now + tm_ms ?t\<rparr>) m)
      else set_timer i (?t\<lparr>tm_callback := None\<rparr>) m)"
  have i: "i \<notin> set (mg_timers m)" "i \<in> set (mg_alloc m)" "i \<notin> set js" "tm_callback ?t \<noteq> None"
    using Cons.prems by (auto simp: mg_ok_but_def)
  have s: "sorted_wrt (timer_less ((mg_store m)(i := t))) (mg_timers m)" for t
    using Cons.prems i(1) by (auto simp: mg_ok_but_def intro: sorted_update)
  have timers: "set (mg_timers m1) = set (mg_timers m) \<union> (if tm_recurring ?t then {i} else {})"
    using timer_order.set_of_insert [OF s] by (auto simp: m1_def timers_insert_def set_timer_def)
  have store: "mg_store m1 j = mg_store m j" if "j \<noteq> i" for j
    using that by (simp add: m1_def timers_insert_def set_timer_def)
  have at_i: "tm_callback (mg_store m1 i) \<noteq> None \<longleftrightarrow> tm_recurring ?t"
    "tm_recurring ?t \<Longrightarrow> tm_next (mg_store m1 i) = now + tm_ms ?t"
    using i(4) by (auto simp: m1_def timers_insert_def set_timer_def)
  have alloc: "mg_alloc m1 = mg_alloc m" by (simp add: m1_def timers_insert_def set_timer_def)
  have "sorted_wrt (timer_less (mg_store m1)) (mg_timers m1)"
    using s timer_order.insert_sorted [OF s] by (simp add: m1_def timers_insert_def set_timer_def)
  moreover have "tm_callback (mg_store m1 j) \<noteq> None \<longleftrightarrow> j \<in> set (mg_timers m1) \<union> set js"
    if "j \<in> set (mg_alloc m1)" for j
    using that Cons.prems store [of j] at_i(1) timers i alloc
    by (cases "j = i") (auto simp: mg_ok_but_def)
  ultimately have "mg_ok_but js m1"
    using Cons.prems timers alloc i by (auto simp: mg_ok_but_def)
  from Cons.IH [OF this] obtain m' where IH: "expire_loop now js m1 = (map (\<lambda>i. tm_callback (mg_store m1 i)) js, m')"
    "mg_ok m'" "mg_alloc m' = mg_alloc m1"
    "set (mg_timers m') = set (mg_timers m1) \<union> {i \<in> set js. tm_recurring (mg_store m1 i)}"
    "\<forall>i. i \<notin> set js \<longrightarrow> mg_store m' i = mg_store m1 i"
    "\<forall>i \<in> set js. tm_recurring (mg_store m1 i) \<longrightarrow> tm_next (mg_store m' i) = now + tm_ms (mg_store m1 i)"
    by blast
  have same: "mg_store m1 j = mg_store m j" if "j \<in> set js" for j
    using that i(3) store by metis
  have "expire_loop now (i # js) m = (map (\<lambda>i. tm_callback (mg_store m i)) (i # js), m')"
    using IH(1) same by (simp add: m1_def [symmetric] Let_def cong: map_cong)
  moreover have "set (mg_timers m') = set (mg_timers m) \<union> {j \<in> set (i # js). tm_recurring (mg_store m j)}"
    using IH(4) timers same by auto
  moreover have "\<forall>j. j \<notin> set (i # js) \<longrightarrow> mg_store m' j = mg_store m j"
    using IH(5) store by simp
  moreover have "\<forall>j \<in> set (i # js). tm_recurring (mg_store m j) \<longrightarrow> tm_next (mg_store m' j) = now + tm_ms (mg_store m j)"
    using IH(5,6) at_i(2) same i(3) by auto
  ultimately show ?case using IH(2,3) alloc by auto
qed

lemma listExpired_ok:
  assumes ok: "mg_ok m" and addr: "addr \<notin> set (mg_alloc m)" and roll: "\<not> rolls_over now m"
  shows "\<exists>m'. listExpiredCb now addr m = (map (\<lambda>i. tm_callback (mg_store m i)) (due now m), m') \<and>
    mg_ok m' \<and> mg_alloc m' = mg_alloc m \<and>
    set (mg_timers m') = {i \<in> set (mg_timers m). now < tm_next (mg_store m i) \<or> tm_recurring (mg_store m i)} \<and>
    (\<forall>i. i \<notin> set (due now m) \<longrightarrow> mg_store m' i = mg_store m i) \<and>
    (\<forall>i \<in> set (due now m). tm_recurring (mg_store m i) \<longrightarrow>
       tm_next (mg_store m' i) = now + tm_ms (mg_store m i))"
proof (cases "mg_timers m = [] \<or> now < tm_next (mg_store m (hd (mg_timers m)))")
  case True
  have sorted: "sorted_wrt (timer_less (mg_store m)) (mg_timers m)" using ok by (simp add: mg_ok_def)
  have "now < tm_next (mg_store m i)" if "i \<in> set (mg_timers m)" for i
    using that True sorted by (cases "mg_timers m") (auto simp: timer_less_def split: if_splits)
  then have none: "due now m = []" "\<And>i. i \<in> set (mg_timers m) \<Longrightarrow> now < tm_next (mg_store m i)"
    by (auto simp: due_def filter_empty_conv not_le)
  have "detectClockRollover now m = (False, m\<lparr>mg_previousTime := now\<rparr>)"
    using roll by (simp add: rolls_over_def detectClockRollover_def)
  then have "listExpiredCb now addr m =
      ([], if mg_timers m = [] then m else m\<lparr>mg_previousTime := now\<rparr>)"
    using True by (cases "mg_timers m = []") (simp_all add: listExpiredCb_def)
  then show ?thesis using ok none by (auto simp: mg_ok_def)
next
  case False
  let ?rest = "filter (\<lambda>i. now < tm_next (mg_store m i)) (mg_timers m)"
  let ?m1 = "m\<lparr>mg_previousTime := now, mg_timers := ?rest\<rparr>"
  have "mg_ok_but (due now m) ?m1"
    using ok timer_order.sorted_distinct [of "mg_store m" "mg_timers m"]
    by (auto simp: mg_ok_but_def mg_ok_def due_def sorted_wrt_filter)
  from expire_loop_ok [OF this, of now] obtain m' where m':
    "expire_loop now (due now m) ?m1 = (map (\<lambda>i. tm_callback (mg_store m i)) (due now m), m')"
    "mg_ok m'" "mg_alloc m' = mg_alloc m"
    "set (mg_timers m') = set ?rest \<union> {i \<in> set (due now m). tm_recurring (mg_store m i)}"
    "\<forall>i. i \<notin> set (due now m) \<longrightarrow> mg_store m' i = mg_store m i"
    "\<forall>i \<in> set (due now m). tm_recurring (mg_store m i) \<longrightarrow> tm_next (mg_store m' i) = now + tm_ms (mg_store m i)"
    by auto
  have "detectClockRollover now m = (False, m\<lparr>mg_previousTime := now\<rparr>)"
    using roll by (simp add: rolls_over_def detectClockRollover_def)
  then have "listExpiredCb now addr m = expire_loop now (due now m) ?m1"
    using False expired_split [OF ok addr, of now] by (simp add: listExpiredCb_def Let_def)
  moreover have "set ?rest \<union> {i \<in> set (due now m). tm_recurring (mg_store m i)} =
      {i \<in> set (mg_timers m). now < tm_next (mg_store m i) \<or> tm_recurring (mg_store m i)}"
    by (auto simp: due_def)
  ultimately show ?thesis using m' by auto
qed

text \<open>With a clock that has jumped back by an hour every timer fires.\<close>

lemma listExpired_rollover_ok:
  assumes ok: "mg_ok m" and roll: "rolls_over now m"
  shows "\<exists>m'. listExpiredCb now addr m = (map (\<lambda>i. tm_callback (mg_store m i)) (mg_timers m), m') \<and>
    mg_ok m' \<and> mg_alloc m' = mg_alloc m \<and>
    (\<forall>i. i \<notin> set (mg_timers m) \<longrightarrow> mg_store m' i = mg_store m i)"
proof (cases "mg_timers m = []")
  case True
  then show ?thesis using ok by (simp add: listExpiredCb_def)
next
  case False
  let ?m1 = "m\<lparr>mg_previousTime := now, mg_timers := []\<rparr>"
  have "mg_ok_but (mg_timers m) ?m1"
    using ok timer_order.sorted_distinct [of "mg_store m" "mg_timers m"]
    by (auto simp: mg_ok_but_def mg_ok_def)
  from expire_loop_ok [OF this, of now] obtain m' where m':
    "expire_loop now (mg_timers m) ?m1 = (map (\<lambda>i. tm_callback (mg_store m i)) (mg_timers m), m')"
    "mg_ok m'" "mg_alloc m' = mg_alloc m"
    "\<forall>i. i \<notin> set (mg_timers m) \<longrightarrow> mg_store m' i = mg_store m i"
    by auto
  have "detectClockRollover now m = (True, m\<lparr>mg_previousTime := now\<rparr>)"
    using roll by (simp add: rolls_over_def detectClockRollover_def)
  then have "listExpiredCb now addr m = expire_loop now (mg_timers m) ?m1"
    using False by (simp add: listExpiredCb_def Let_def)
  with m' show ?thesis by auto
qed

section \<open>Reachable managers\<close>

inductive tm_step :: "'c manager \<Rightarrow> 'c manager \<Rightarrow> bool" where
  step_add: "i \<notin> set (mg_alloc m) \<Longrightarrow> tm_step m (addTimer i ms cb recurring now m)"
| step_cond: "i \<notin> set (mg_alloc m) \<Longrightarrow> tm_step m (addConditionTimer i ms c w recurring now m)"
| step_refresh: "i \<in> set (mg_alloc m) \<Longrightarrow> tm_step m (snd (tm_refresh i now m))"
| step_reset: "i \<in> set (mg_alloc m) \<Longrightarrow> tm_step m (snd (tm_reset i ms from_now now m))"
| step_cancel: "i \<in> set (mg_alloc m) \<Longrightarrow> tm_cancel i m = Inr (b, m') \<Longrightarrow> tm_step m m'"
| step_next: "tm_step m (snd (getNextTimer now m))"
| step_expire: "addr \<notin> set (mg_alloc m) \<Longrightarrow> tm_step m (snd (listExpiredCb now addr m))"

lemma tm_step_ok:
  assumes "tm_step m m'" and ok: "mg_ok m"
  shows "mg_ok m' \<and> set (mg_alloc m) \<subseteq> set (mg_alloc m') \<and>
    (\<forall>i \<in> set (mg_alloc m). tm_callback (mg_store m i) = None \<longrightarrow> tm_callback (mg_store m' i) = None)"
  using assms(1)
proof cases
  case (step_add i ms cb recurring now)
  then show ?thesis
    using addTimer_ok(1) [OF ok step_add(2)]
    by (auto simp: addTimer_def add_locked_fields set_timer_def)
next
  case (step_cond i ms c w recurring now)
  then show ?thesis
    using addTimer_ok(1) [OF ok step_cond(2)]
    by (auto simp: addConditionTimer_def addTimer_def add_locked_fields set_timer_def)
next
  case (step_refresh i now)
  then show ?thesis
    using tm_refresh_ok [OF ok step_refresh(2)]
    by (auto simp: tm_refresh_def Let_def timers_insert_def set_timer_def timers_erase_def split: option.splits)
next
  case (step_reset i ms from_now now)
  then show ?thesis
    using tm_reset_ok [OF ok step_reset(2)]
    by (auto simp: tm_reset_def Let_def add_locked_fields set_timer_def timers_erase_def split: option.splits)
next
  case (step_cancel i b)
  then have c: "mg_ok m'" "mg_alloc m' = mg_alloc m" "tm_callback (mg_store m' i) = None"
    "\<And>j. j \<noteq> i \<Longrightarrow> mg_store m' j = mg_store m j"
    using tm_cancel_ok [OF ok step_cancel(1)] by auto
  have "tm_callback (mg_store m j) = None \<Longrightarrow> tm_callback (mg_store m' j) = None" for j
    using c(3,4) by (cases "j = i") auto
  then show ?thesis using c(1,2) by simp
next
  case (step_next now)
  then have "mg_timers m' = mg_timers m" "mg_store m' = mg_store m" "mg_alloc m' = mg_alloc m"
    by (auto simp: getNextTimer_def Let_def split: list.splits)
  then show ?thesis using ok by (simp add: mg_ok_def)
next
  case (step_expire addr now)
  have none: "i \<notin> set (mg_timers m)" if "i \<in> set (mg_alloc m)" "tm_callback (mg_store m i) = None" for i
    using that ok by (auto simp: mg_ok_def)
  show ?thesis
  proof (cases "rolls_over now m")
    case True
    then show ?thesis
      using listExpired_rollover_ok [OF ok True, of addr] step_expire none by auto
  next
    case False
    have "set (due now m) \<subseteq> set (mg_timers m)" by (auto simp: due_def)
    with False show ?thesis
      using listExpired_ok [OF ok step_expire(2) False] step_expire none by fastforce
  qed
qed

inductive tm_reachable :: "'c manager \<Rightarrow> bool" where
  reach_new: "tm_reachable (new_manager now)"
| reach_step: "tm_reachable m \<Longrightarrow> tm_step m m' \<Longrightarrow> tm_reachable m'"

lemma reachable_ok: "tm_reachable m \<Longrightarrow> mg_ok m"
  by (induction rule: tm_reachable.induct) (use new_manager_ok tm_step_ok in blast)+

text \<open>C27: in every manager that the operations can reach, the set is strictly sorted by due time
  and address, a timer has a callback exactly while it is in the set, and so \<open>cancel\<close>, which
  erases what \<open>find\<close> returns without testing it, never erases past the end.\<close>

theorem reachable_timers_ok:
  assumes "tm_reachable m"
  shows "sorted_wrt (timer_less (mg_store m)) (mg_timers m) \<and>
    (\<forall>i \<in> set (mg_alloc m). (tm_callback (mg_store m i) \<noteq> None \<longleftrightarrow> i \<in> set (mg_timers m)) \<and>
       (\<exists>m'. tm_cancel i m = Inr (tm_callback (mg_store m i) \<noteq> None, m')))"
  using reachable_ok [OF assms] tm_cancel_ok [of m] by (fastforce simp: mg_ok_def)

theorem reachable_timers_ok_witness:
  "\<exists>m'. tm_cancel 7 (addTimer 7 10 (Call ()) True 100 (new_manager 0)) = Inr (True, m')"
proof -
  have "tm_reachable (addTimer 7 10 (Call ()) True 100 (new_manager 0))"
    by (rule reach_step [OF reach_new step_add]) (simp add: new_manager_def)
  from reachable_timers_ok [OF this] show ?thesis
    by (simp add: addTimer_def add_locked_fields set_timer_def new_timer_def)
qed

text \<open>C26: unless the clock has jumped back, \<open>listExpiredCb\<close> returns the callbacks of exactly the
  timers that are due, in the order of their due times; the others stay, a recurring one is due
  again a period after now, and the address of the temporary it compares with does not matter.\<close>

theorem listExpired_exact:
  assumes "tm_reachable m" and "addr \<notin> set (mg_alloc m)" and "\<not> rolls_over now m"
  shows "\<exists>m'. listExpiredCb now addr m = (map (\<lambda>i. tm_callback (mg_store m i)) (due now m), m') \<and>
    sorted_wrt (timer_less (mg_store m)) (due now m) \<and>
    set (mg_timers m') = {i \<in> set (mg_timers m). now < tm_next (mg_store m i) \<or> tm_recurring (mg_store m i)} \<and>
    (\<forall>i \<in> set (due now m). tm_callback (mg_store m i) \<noteq> None \<and>
       (tm_recurring (mg_store m i) \<longrightarrow> tm_next (mg_store m' i) = now + tm_ms (mg_store m i)))"
proof -
  have ok: "mg_ok m" using assms(1) by (rule reachable_ok)
  then have "sorted_wrt (timer_less (mg_store m)) (due now m)"
    "\<forall>i \<in> set (due now m). tm_callback (mg_store m i) \<noteq> None"
    by (auto simp: mg_ok_def due_def sorted_wrt_filter)
  then show ?thesis using listExpired_ok [OF ok assms(2,3)] by blast
qed

theorem listExpired_exact_witness:
  "\<exists>m'. listExpiredCb 110 3 (addTimer 7 10 (Call ()) True 100 (new_manager 0)) = ([Some (Call ())], m')"
proof -
  let ?m = "addTimer 7 10 (Call ()) True 100 (new_manager 0)"
  have r: "tm_reachable ?m"
    by (rule reach_step [OF reach_new step_add]) (simp add: new_manager_def)
  have "due 110 ?m = [7]" "mg_alloc ?m = [7]" "tm_callback (mg_store ?m 7) = Some (Call ())"
    "mg_previousTime ?m = 0"
    by (simp_all add: due_def addTimer_def add_locked_def timers_insert_def set_timer_def new_manager_def
        set_insert_def set_find_def lower_bound_def new_timer_def)
  then show ?thesis
    using listExpired_exact [OF r, of 3 110] by (auto simp: rolls_over_def detectClockRollover_def)
qed

text \<open>A timer that has been cancelled never fires again: whatever operations follow, it is
  among no due timers.\<close>

theorem cancelled_never_fires:
  assumes "tm_reachable m" and "i \<in> set (mg_alloc m)" and "tm_cancel i m = Inr (b, m0)"
    and "tm_step\<^sup>*\<^sup>* m0 m'"
  shows "i \<notin> set (due now m') \<and> i \<notin> set (mg_timers m')"
proof -
  have ok: "mg_ok m" using assms(1) by (rule reachable_ok)
  have "mg_ok m0" "i \<in> set (mg_alloc m0)" "tm_callback (mg_store m0 i) = None"
    using tm_cancel_ok [OF ok assms(2)] assms(2,3) by auto
  with assms(4) have "mg_ok m' \<and> i \<in> set (mg_alloc m') \<and> tm_callback (mg_store m' i) = None"
  proof (induction rule: rtranclp_induct)
    case (step m1 m2)
    then show ?case using tm_step_ok [OF step(2)] by blast
  qed simp
  then show ?thesis by (auto simp: mg_ok_def due_def)
qed

theorem cancelled_never_fires_witness:
  "\<exists>b m0. tm_cancel 7 (addTimer 7 10 (Call ()) True 100 (new_manager 0)) = Inr (b, m0) \<and>
     7 \<notin> set (due 500 (snd (getNextTimer 200 m0)))"
proof -
  let ?m = "addTimer 7 10 (Call ()) True 100 (new_manager 0)"
  have r: "tm_reachable ?m"
    by (rule reach_step [OF reach_new step_add]) (simp add: new_manager_def)
  have a: "7 \<in> set (mg_alloc ?m)" by (simp add: addTimer_def add_locked_fields set_timer_def)
  obtain b m0 where c: "tm_cancel 7 ?m = Inr (b, m0)"
    using tm_cancel_ok [OF reachable_ok [OF r] a] by auto
  have "tm_step\<^sup>*\<^sup>* m0 (snd (getNextTimer 200 m0))"
    by (rule r_into_rtranclp, rule step_next)
  from cancelled_never_fires [OF r a c this, of 500] c show ?thesis by blast
qed

text \<open>\<open>getNextTimer\<close> returns the time until the earliest due time, 0 when a timer is due, and
  the largest value when there is no timer.\<close>

theorem getNextTimer_waits:
  assumes "tm_reachable m"
  shows "(mg_timers m = [] \<longrightarrow> fst (getNextTimer now m) = not 0) \<and>
    (fst (getNextTimer now m) = 0 \<longleftrightarrow> due now m \<noteq> []) \<and>
    (mg_timers m \<noteq> [] \<and> due now m = [] \<longrightarrow>
      (\<exists>i \<in> set (mg_timers m). fst (getNextTimer now m) = tm_next (mg_store m i) - now \<and>
        (\<forall>j \<in> set (mg_timers m). tm_next (mg_store m i) \<le> tm_next (mg_store m j))))"
proof (cases "mg_timers m")
  case Nil
  then show ?thesis by (simp add: getNextTimer_def due_def)
next
  case (Cons i js)
  have sorted: "sorted_wrt (timer_less (mg_store m)) (i # js)"
    using reachable_ok [OF assms] Cons by (simp add: mg_ok_def)
  then have least: "tm_next (mg_store m i) \<le> tm_next (mg_store m j)" if "j \<in> set (i # js)" for j
    using that by (auto simp: timer_less_def split: if_splits)
  show ?thesis
  proof (cases "tm_next (mg_store m i) \<le> now")
    case True
    then show ?thesis using Cons by (simp add: getNextTimer_def due_def Let_def)
  next
    case False
    then have "\<not> tm_next (mg_store m j) \<le> now" if "j \<in> set (i # js)" for j
      using least [OF that] by simp
    then have "due now m = []" using Cons by (auto simp: due_def filter_empty_conv)
    then show ?thesis using Cons False least by (auto simp: getNextTimer_def Let_def)
  qed
qed

theorem getNextTimer_waits_witness:
  "fst (getNextTimer 200 (addTimer 7 10 (Call ()) True 100 (new_manager 0))) = 0"
proof -
  let ?m = "addTimer 7 10 (Call ()) True 100 (new_manager 0)"
  have r: "tm_reachable ?m"
    by (rule reach_step [OF reach_new step_add]) (simp add: new_manager_def)
  have "due 200 ?m \<noteq> []"
    by (simp add: due_def addTimer_def add_locked_def timers_insert_def set_timer_def new_manager_def
        set_insert_def set_find_def lower_bound_def new_timer_def)
  then show ?thesis using getNextTimer_waits [OF r, of 200] by simp
qed

end
