(* ===== verification/UtilText.thy ===== *)
theory UtilText
  imports Prelude
begin

text \<open>
  The text functions of \<open>src/Util.cpp\<close>: case, base64, URL escapes, trimming, splitting, joining
  and replacing. Strings are lists of bytes. The URL functions copy the input only when they
  meet a character that changes; \<open>ss\<close> is that copy, or \<open>None\<close> before it is made, and \<open>pre\<close> is the
  part of the input behind the cursor.
\<close>

section \<open>Characters\<close>

definition c_toupper :: "u8 \<Rightarrow> u8" where
  "c_toupper c = (if 0x61 \<le> c \<and> c \<le> 0x7A then c - 0x20 else c)"

definition c_tolower :: "u8 \<Rightarrow> u8" where
  "c_tolower c = (if 0x41 \<le> c \<and> c \<le> 0x5A then c + 0x20 else c)"

definition c_isxdigit :: "u8 \<Rightarrow> bool" where
  "c_isxdigit c \<longleftrightarrow> (0x30 \<le> c \<and> c \<le> 0x39) \<or> (0x41 \<le> c \<and> c \<le> 0x46) \<or> (0x61 \<le> c \<and> c \<le> 0x66)"

definition ToUpper :: "bytes \<Rightarrow> bytes" where
  "ToUpper name = map c_toupper name"

definition ToLower :: "bytes \<Rightarrow> bytes" where
  "ToLower name = map c_tolower name"

section \<open>URL escapes\<close>

definition uri_chars :: "nat list" where
  "uri_chars =
     replicate 32 0 @
     [0, 0, 0, 0, 0, 0, 0, 0,   0, 0, 0, 0, 0, 1, 1, 0,
      1, 1, 1, 1, 1, 1, 1, 1,   1, 1, 0, 0, 0, 1, 0, 0,
      0, 1, 1, 1, 1, 1, 1, 1,   1, 1, 1, 1, 1, 1, 1, 1,
      1, 1, 1, 1, 1, 1, 1, 1,   1, 1, 1, 0, 0, 0, 0, 1,
      0, 1, 1, 1, 1, 1, 1, 1,   1, 1, 1, 1, 1, 1, 1, 1,
      1, 1, 1, 1, 1, 1, 1, 1,   1, 1, 1, 0, 0, 0, 1, 0] @
     replicate 128 0"

definition xdigit_chars :: "u8 list" where
  "xdigit_chars =
     replicate 48 0 @
     [0, 1, 2, 3, 4, 5, 6, 7, 8, 9, 0, 0, 0, 0, 0, 0,
      0, 10, 11, 12, 13, 14, 15, 0, 0, 0, 0, 0, 0, 0, 0, 0,
      0, 0, 0, 0, 0, 0, 0, 0, 0, 0, 0, 0, 0, 0, 0, 0,
      0, 10, 11, 12, 13, 14, 15, 0, 0, 0, 0, 0, 0, 0, 0, 0] @
     replicate 144 0"

definition unreserved :: "u8 \<Rightarrow> bool" where
  "unreserved c \<longleftrightarrow> uri_chars ! unat c \<noteq> 0"

text \<open>The digits \<open>0123456789ABCDEF\<close>.\<close>

definition hexdigits :: "bytes" where
  "hexdigits = [0x30, 0x31, 0x32, 0x33, 0x34, 0x35, 0x36, 0x37, 0x38, 0x39, 0x41, 0x42, 0x43,
     0x44, 0x45, 0x46]"

fun url_encode_loop :: "bool \<Rightarrow> bytes \<Rightarrow> bytes option \<Rightarrow> bytes \<Rightarrow> bytes option" where
  "url_encode_loop space_as_plus pre ss [] = ss"
| "url_encode_loop space_as_plus pre ss (c # cs) =
     (if \<not> unreserved c then
        let s = (case ss of None \<Rightarrow> pre | Some s \<Rightarrow> s);
            s' = s @ (if c = 0x20 \<and> space_as_plus then [0x2B]
                      else [0x25, hexdigits ! unat (drop_bit 4 c), hexdigits ! unat (and c 15)])
        in url_encode_loop space_as_plus (pre @ [c]) (Some s') cs
      else url_encode_loop space_as_plus (pre @ [c]) (map_option (\<lambda>s. s @ [c]) ss) cs)"

definition UrlEncode :: "bytes \<Rightarrow> bool \<Rightarrow> bytes" where
  "UrlEncode str space_as_plus =
     (case url_encode_loop space_as_plus [] None str of None \<Rightarrow> str | Some s \<Rightarrow> s)"

function url_decode_loop :: "bool \<Rightarrow> bytes \<Rightarrow> bytes option \<Rightarrow> bytes \<Rightarrow> bytes option" where
  "url_decode_loop space_as_plus pre ss [] = ss"
| "url_decode_loop space_as_plus pre ss (c # cs) =
     (let s = (case ss of None \<Rightarrow> pre | Some s \<Rightarrow> s) in
      if c = 0x2B \<and> space_as_plus then
        url_decode_loop space_as_plus (pre @ [c]) (Some (s @ [0x20])) cs
      else if c = 0x25 \<and> 2 \<le> length cs \<and> c_isxdigit (cs ! 0) \<and> c_isxdigit (cs ! 1) then
        url_decode_loop space_as_plus (pre @ c # take 2 cs)
          (Some (s @ [or (push_bit 4 (xdigit_chars ! unat (cs ! 0))) (xdigit_chars ! unat (cs ! 1))]))
          (drop 2 cs)
      else url_decode_loop space_as_plus (pre @ [c]) (map_option (\<lambda>s. s @ [c]) ss) cs)"
  by pat_completeness auto
termination
  by (relation "measure (\<lambda>(p, pre, ss, cs). length cs)") auto

definition UrlDecode :: "bytes \<Rightarrow> bool \<Rightarrow> bytes" where
  "UrlDecode str space_as_plus =
     (case url_decode_loop space_as_plus [] None str of None \<Rightarrow> str | Some s \<Rightarrow> s)"

section \<open>Trimming\<close>

definition find_first_not_of :: "bytes \<Rightarrow> bytes \<Rightarrow> nat option" where
  "find_first_not_of delimit str =
     (let n = length (takeWhile (\<lambda>c. c \<in> set delimit) str) in if n < length str then Some n else None)"

definition find_last_not_of :: "bytes \<Rightarrow> bytes \<Rightarrow> nat option" where
  "find_last_not_of delimit str =
     (let n = length (takeWhile (\<lambda>c. c \<in> set delimit) (rev str))
      in if n < length str then Some (length str - 1 - n) else None)"

definition Trim :: "bytes \<Rightarrow> bytes \<Rightarrow> bytes" where
  "Trim str delimit =
     (case find_first_not_of delimit str of
        None \<Rightarrow> []
      | Some begin \<Rightarrow>
          (case find_last_not_of delimit str of
             None \<Rightarrow> drop begin str
           | Some end \<Rightarrow> take (end - begin + 1) (drop begin str)))"

definition TrimLeft :: "bytes \<Rightarrow> bytes \<Rightarrow> bytes" where
  "TrimLeft str delimit =
     (case find_first_not_of delimit str of None \<Rightarrow> [] | Some begin \<Rightarrow> drop begin str)"

definition TrimRight :: "bytes \<Rightarrow> bytes \<Rightarrow> bytes" where
  "TrimRight str delimit =
     (case find_last_not_of delimit str of None \<Rightarrow> [] | Some end \<Rightarrow> take end str)"

section \<open>Splitting and joining\<close>

text \<open>
  The loop shared by the two forms of \<open>split\<close>; \<open>rest\<close> is the string from \<open>last\<close> on, and
  \<open>--max == 1\<close> counts in \<open>size_t\<close>.
\<close>

function split_loop :: "(u8 \<Rightarrow> bool) \<Rightarrow> u64 \<Rightarrow> bytes \<Rightarrow> bytes list" where
  "split_loop p mx rest =
     (let n = length (takeWhile (\<lambda>c. \<not> p c) rest) in
      if n < length rest then
        let rest' = drop (Suc n) rest in
        take n rest # (if mx - 1 = 1 then [rest'] else split_loop p (mx - 1) rest')
      else [rest])"
  by pat_completeness auto
termination
  by (relation "measure (\<lambda>(p, mx, rest). length rest)") auto

declare split_loop.simps [simp del]

definition split_char :: "bytes \<Rightarrow> u8 \<Rightarrow> u64 \<Rightarrow> bytes list" where
  "split_char str delim mx = (if str = [] then [] else split_loop (\<lambda>c. c = delim) mx str)"

definition split_any :: "bytes \<Rightarrow> bytes \<Rightarrow> u64 \<Rightarrow> bytes list" where
  "split_any str delims mx = (if str = [] then [] else split_loop (\<lambda>c. c \<in> set delims) mx str)"

fun Join :: "bytes list \<Rightarrow> bytes \<Rightarrow> bytes" where
  "Join [] tag = []"
| "Join [x] tag = x"
| "Join (x # y # xs) tag = x @ tag @ Join (y # xs) tag"

section \<open>Replacing\<close>

text \<open>\<open>str.find(pat, from)\<close>: the least position from \<open>from\<close> on where \<open>pat\<close> occurs.\<close>

fun find_in :: "bytes \<Rightarrow> bytes \<Rightarrow> nat option" where
  "find_in pat [] = (if pat = [] then Some 0 else None)"
| "find_in pat (c # cs) =
     (if take (length pat) (c # cs) = pat then Some 0 else map_option Suc (find_in pat cs))"

definition str_find :: "bytes \<Rightarrow> bytes \<Rightarrow> nat \<Rightarrow> nat option" where
  "str_find str pat from = (if from \<le> length str then map_option (\<lambda>i. from + i) (find_in pat (drop from str)) else None)"

partial_function (option) replace_loop :: "bytes \<Rightarrow> bytes \<Rightarrow> nat \<Rightarrow> bytes \<Rightarrow> bytes option" where
  "replace_loop pat repl from str =
     (case str_find str pat from of
        None \<Rightarrow> Some str
      | Some index \<Rightarrow>
          replace_loop pat repl (index + length repl)
            (take index str @ repl @ drop (index + length pat) str))"

definition replace_string :: "bytes \<Rightarrow> bytes \<Rightarrow> bytes \<Rightarrow> bytes option" where
  "replace_string str1 pat repl = replace_loop pat repl 0 str1"

definition replace_char_string :: "bytes \<Rightarrow> u8 \<Rightarrow> bytes \<Rightarrow> bytes option" where
  "replace_char_string str1 c repl = replace_loop [c] repl 0 str1"

partial_function (option) replace_char_loop :: "u8 \<Rightarrow> u8 \<Rightarrow> nat \<Rightarrow> bytes \<Rightarrow> bytes option" where
  "replace_char_loop c r from str =
     (case str_find str [c] from of
        None \<Rightarrow> Some str
      | Some index \<Rightarrow> replace_char_loop c r (index + 1) (str[index := r]))"

definition replace_char :: "bytes \<Rightarrow> u8 \<Rightarrow> u8 \<Rightarrow> bytes option" where
  "replace_char str1 c r = replace_char_loop c r 0 str1"

section \<open>Base64\<close>

definition base64_common :: "bytes" where
  "base64_common = map of_nat ([65..<91] @ [97..<123] @ [48..<58])"

definition base64_table :: "bool \<Rightarrow> bytes" where
  "base64_table url = base64_common @ (if url then [0x2D, 0x5F] else [0x2B, 0x2F])"

fun base64encode :: "bool \<Rightarrow> bytes \<Rightarrow> bytes" where
  "base64encode url [] = []"
| "base64encode url (a # rest) =
     (let chunk = take 3 (a # rest);
          i = length chunk;
          padding = (if i = 2 then 1 else if i = 1 then 2 else 0);
          packed0 = foldl (\<lambda>p b. or (push_bit 8 p) (ucast b)) (0 :: u32) chunk;
          packed = ((\<lambda>p. push_bit 8 p) ^^ (3 - i)) packed0;
          digit = (\<lambda>x :: u32. base64_table url ! unat x)
      in [digit (drop_bit 18 packed), digit (and (drop_bit 12 packed) 0x3f)] @
         (if padding \<noteq> 2 then [digit (and (drop_bit 6 packed) 0x3f)] else []) @
         (if padding = 0 then [digit (and packed 0x3f)] else []) @
         replicate padding 0x3D @
         base64encode url (drop 2 rest))"

end
