(* ===== verification/UtilTextProps.thy ===== *)
theory UtilTextProps
  imports UtilText
begin

text \<open>
  What the text functions of \<open>src/Util.cpp\<close> promise: URL escapes and base64 can be undone, the
  lazily copied results are the plain character-wise ones, joining undoes splitting, and when
  the replacements end.
\<close>

section \<open>URL escapes\<close>

definition url_escape :: "bool \<Rightarrow> u8 \<Rightarrow> bytes" where
  "url_escape sap c =
     (if unreserved c then [c]
      else if c = 0x20 \<and> sap then [0x2B]
      else [0x25, hexdigits ! unat (drop_bit 4 c), hexdigits ! unat (and c 15)])"

fun url_unescape :: "bool \<Rightarrow> bytes \<Rightarrow> bytes" where
  "url_unescape sap [] = []"
| "url_unescape sap (c # cs) =
     (if c = 0x2B \<and> sap then 0x20 # url_unescape sap cs
      else case cs of
        x # y # cs' \<Rightarrow>
          if c = 0x25 \<and> c_isxdigit x \<and> c_isxdigit y
          then or (push_bit 4 (xdigit_chars ! unat x)) (xdigit_chars ! unat y) # url_unescape sap cs'
          else c # url_unescape sap cs
      | _ \<Rightarrow> c # url_unescape sap cs)"

text \<open>The string so far: the copy when there is one, else the part of the input.\<close>

definition copied :: "bytes \<Rightarrow> bytes option \<Rightarrow> bytes" where
  "copied pre ss = (case ss of None \<Rightarrow> pre | Some s \<Rightarrow> s)"

lemma copied_simps [simp]:
  "copied pre None = pre" "copied pre (Some s) = s"
  "copied (pre @ [c]) (map_option (\<lambda>s. s @ [c]) ss) = copied pre ss @ [c]"
  by (simp_all add: copied_def split: option.splits)

lemma url_encode_loop_spec:
  "copied (pre @ cs) (url_encode_loop sap pre ss cs) = copied pre ss @ concat (map (url_escape sap) cs)"
proof (induction cs arbitrary: pre ss)
  case (Cons c cs)
  show ?case
  proof (cases "unreserved c")
    case True
    then show ?thesis
      using Cons.IH [of "pre @ [c]" "map_option (\<lambda>s. s @ [c]) ss"] by (simp add: url_escape_def)
  next
    case False
    let ?s = "copied pre ss @ url_escape sap c"
    have "url_encode_loop sap pre ss (c # cs) = url_encode_loop sap (pre @ [c]) (Some ?s) cs"
      using False by (simp add: url_escape_def Let_def copied_def)
    then show ?thesis
      using Cons.IH [of "pre @ [c]" "Some ?s"] by simp
  qed
qed simp

lemma UrlEncode_spec: "UrlEncode str sap = concat (map (url_escape sap) str)"
  using url_encode_loop_spec [where sap = sap and pre = "[]" and ss = None and cs = str]
  by (simp add: UrlEncode_def copied_def)

lemma url_decode_loop_spec:
  "copied (pre @ cs) (url_decode_loop sap pre ss cs) = copied pre ss @ url_unescape sap cs"
proof (induction "length cs" arbitrary: cs pre ss rule: less_induct)
  case less
  show ?case
  proof (cases cs)
    case Nil
    then show ?thesis by simp
  next
    case (Cons c ds)
    consider (plus) "c = 0x2B \<and> sap"
      | (hex) x y es where "\<not> (c = 0x2B \<and> sap)" "c = 0x25" "ds = x # y # es" "c_isxdigit x" "c_isxdigit y"
      | (other) "\<not> (c = 0x2B \<and> sap)"
          "\<not> (c = 0x25 \<and> 2 \<le> length ds \<and> c_isxdigit (ds ! 0) \<and> c_isxdigit (ds ! 1))"
    proof (cases "c = 0x25 \<and> 2 \<le> length ds \<and> c_isxdigit (ds ! 0) \<and> c_isxdigit (ds ! 1)")
      case True
      then obtain x y es where "ds = x # y # es" by (cases ds; cases "tl ds") auto
      then show thesis using True that(1,2) by auto
    qed (use that(1,3) in blast)
    then show ?thesis
    proof cases
      case plus
      have "url_decode_loop sap pre ss cs = url_decode_loop sap (pre @ [c]) (Some (copied pre ss @ [0x20])) ds"
        using plus Cons by (simp add: copied_def)
      then show ?thesis
        using less [of ds "pre @ [c]" "Some (copied pre ss @ [0x20])"] plus Cons by simp
    next
      case hex
      let ?s = "copied pre ss @ [or (push_bit 4 (xdigit_chars ! unat x)) (xdigit_chars ! unat y)]"
      have "url_decode_loop sap pre ss cs = url_decode_loop sap (pre @ [c, x, y]) (Some ?s) es"
        using hex Cons by (simp add: copied_def)
      then show ?thesis
        using less [of es "pre @ [c, x, y]" "Some ?s"] hex Cons by simp
    next
      case other
      have "url_decode_loop sap pre ss cs = url_decode_loop sap (pre @ [c]) (map_option (\<lambda>s. s @ [c]) ss) ds"
        unfolding Cons using other by (simp only: url_decode_loop.simps Let_def if_False)
      moreover have "url_unescape sap cs = c # url_unescape sap ds"
        unfolding Cons using other by (cases ds; cases "tl ds") auto
      ultimately show ?thesis
        using less [of ds "pre @ [c]" "map_option (\<lambda>s. s @ [c]) ss"] Cons by simp
    qed
  qed
qed

lemma UrlDecode_spec: "UrlDecode str sap = url_unescape sap str"
  using url_decode_loop_spec [where sap = sap and pre = "[]" and ss = None and cs = str]
  by (simp add: UrlDecode_def copied_def)

lemma below_16:
  fixes n :: nat
  assumes "n < 16"
  shows "n \<in> {0, 1, 2, 3, 4, 5, 6, 7, 8, 9, 10, 11, 12, 13, 14, 15}"
  using assms by (simp add: numeral_eq_Suc less_Suc_eq)

lemma hexdigit_ok:
  assumes "n < 16"
  shows "c_isxdigit (hexdigits ! n) \<and> xdigit_chars ! unat (hexdigits ! n) = of_nat n"
  using below_16 [OF assms]
  by (auto simp: hexdigits_def c_isxdigit_def xdigit_chars_def nth_append)

lemma nibbles:
  fixes c :: u8
  shows "or (push_bit 4 (of_nat (unat (drop_bit 4 c)))) (of_nat (unat (and c 15))) = c"
    and "unat (drop_bit 4 c) < 16" and "unat (and c 15) < 16"
proof -
  have m: "(15 :: u8) = mask 4" by (simp add: mask_eq_exp_minus_1)
  show "or (push_bit 4 (of_nat (unat (drop_bit 4 c)))) (of_nat (unat (and c 15))) = c"
  proof -
    have "or (push_bit 4 (drop_bit 4 c)) (and c (mask 4)) = c"
      by (rule bit_word_eqI) (auto simp: bit_or_iff bit_push_bit_iff bit_drop_bit_eq bit_and_iff bit_mask_iff)
    then show ?thesis by (simp only: m of_nat_unat ucast_id)
  qed
  have "unat c < 256" using unsigned_less [of c, where 'a = nat] by simp
  then show "unat (drop_bit 4 c) < 16"
    by (simp only: unat_drop_bit_eq) (simp add: drop_bit_eq_div)
  show "unat (and c 15) < 16"
    unfolding m take_bit_eq_mask [symmetric]
    using take_bit_nat_less_exp [of 4 "unat c"] by (simp only: unsigned_take_bit_eq) simp
qed

lemma unescape_hex:
  "url_unescape sap ([0x25, hexdigits ! unat (drop_bit 4 c), hexdigits ! unat (and c 15)] @ rest) =
   c # url_unescape sap rest"
  using hexdigit_ok [OF nibbles(2) [of c]] hexdigit_ok [OF nibbles(3) [of c]] nibbles(1) [of c] by simp

lemma unreserved_special: "\<not> unreserved 0x2B" "\<not> unreserved 0x20" "\<not> unreserved 0x25"
  by (simp_all add: unreserved_def uri_chars_def nth_append)

lemma unescape_escape: "url_unescape sap (url_escape sap c @ rest) = c # url_unescape sap rest"
proof -
  consider "unreserved c" | "\<not> unreserved c" "c = 0x20 \<and> sap" | "\<not> unreserved c" "\<not> (c = 0x20 \<and> sap)"
    by blast
  then show ?thesis
  proof cases
    case 1
    then have "c \<noteq> 0x2B" "c \<noteq> 0x25" using unreserved_special by auto
    then show ?thesis using 1 by (auto simp: url_escape_def split: list.splits)
  next
    case 2
    then show ?thesis by (simp add: url_escape_def)
  next
    case 3
    then have "url_escape sap c = [0x25, hexdigits ! unat (drop_bit 4 c), hexdigits ! unat (and c 15)]"
      by (auto simp: url_escape_def)
    then show ?thesis using unescape_hex by simp
  qed
qed

lemma decode_encode: "UrlDecode (UrlEncode str space_as_plus) space_as_plus = str"
proof -
  have "url_unescape space_as_plus (concat (map (url_escape space_as_plus) str)) = str"
    by (induction str) (simp_all add: unescape_escape)
  then show ?thesis by (simp add: UrlDecode_spec UrlEncode_spec)
qed

text \<open>C38: decoding undoes encoding, for every byte string and either treatment of blanks.\<close>

theorem url_roundtrip: "UrlDecode (UrlEncode str space_as_plus) space_as_plus = str"
  by (rule decode_encode)

section \<open>Splitting\<close>

lemma split_loop_nonempty [simp]: "split_loop p mx rest \<noteq> []"
  by (subst split_loop.simps) (simp add: Let_def)

lemma Join_Cons: "xs \<noteq> [] \<Longrightarrow> Join (x # xs) tag = x @ tag @ Join xs tag"
  by (cases xs) auto

lemma split_at_takeWhile:
  assumes "n = length (takeWhile (\<lambda>c. \<not> p c) rest)" and "n < length rest"
  shows "take n rest @ rest ! n # drop (Suc n) rest = rest" and "p (rest ! n)"
    and "list_all (\<lambda>c. \<not> p c) (take n rest)"
proof -
  show "take n rest @ rest ! n # drop (Suc n) rest = rest"
    using assms(2) by (rule id_take_nth_drop [symmetric])
  show "p (rest ! n)"
    using assms nth_length_takeWhile [of "\<lambda>c. \<not> p c" rest] by simp
  have "take n rest = takeWhile (\<lambda>c. \<not> p c) rest"
    unfolding assms(1) by (rule takeWhile_eq_take [symmetric])
  then show "list_all (\<lambda>c. \<not> p c) (take n rest)"
    by (auto simp: list_all_iff dest: set_takeWhileD)
qed

lemma split_loop_Join:
  assumes "\<And>c. p c \<longleftrightarrow> c = d"
  shows "Join (split_loop p mx rest) [d] = rest"
proof (induction "length rest" arbitrary: mx rest rule: less_induct)
  case less
  let ?n = "length (takeWhile (\<lambda>c. \<not> p c) rest)"
  show ?case
  proof (cases "?n < length rest")
    case True
    note parts = split_at_takeWhile [OF refl True]
    have "rest ! ?n = d" using parts(2) assms by simp
    moreover have "Join (split_loop p (mx - 1) (drop (Suc ?n) rest)) [d] = drop (Suc ?n) rest"
      using less [of "drop (Suc ?n) rest"] True by simp
    ultimately show ?thesis
      using parts(1) True by (subst split_loop.simps) (simp add: Let_def Join_Cons)
  next
    case False
    then show ?thesis by (subst split_loop.simps) (simp add: Let_def)
  qed
qed

lemma split_loop_length:
  "2 \<le> unat mx \<Longrightarrow> length (split_loop p mx rest) \<le> unat mx"
proof (induction "length rest" arbitrary: mx rest rule: less_induct)
  case less
  let ?n = "length (takeWhile (\<lambda>c. \<not> p c) rest)"
  have mx1: "unat (mx - 1) = unat mx - 1"
    using less.prems by (intro unat_sub [THEN trans]) (auto simp: word_le_nat_alt)
  show ?case
  proof (cases "?n < length rest \<and> mx - 1 \<noteq> 1")
    case True
    then have "unat (mx - 1) \<noteq> 1" by (metis unat_1 word_unat_eq_iff)
    then have "length (split_loop p (mx - 1) (drop (Suc ?n) rest)) \<le> unat (mx - 1)"
      using True less.prems mx1 by (intro less.hyps) auto
    then show ?thesis
      using True mx1 less.prems by (subst split_loop.simps) (simp add: Let_def)
  next
    case False
    then show ?thesis using less.prems by (subst split_loop.simps) (auto simp: Let_def)
  qed
qed

text \<open>Joining the parts with the delimiter gives the string back, and a bound of at least two
  limits the number of parts.\<close>

theorem split_join:
  "Join (split_char str delim mx) [delim] = str \<and>
   (2 \<le> unat mx \<longrightarrow> length (split_char str delim mx) \<le> unat mx \<and> length (split_any str delims mx) \<le> unat mx)"
  using split_loop_Join [of "\<lambda>c. c = delim" delim mx str] split_loop_length [of mx _ str]
  by (simp add: split_char_def split_any_def)

theorem split_join_witness:
  "length (split_char [1, 44, 2, 44, 3] 44 2) \<le> 2"
  using split_join [of "[1, 44, 2, 44, 3]" 44 2] by simp

section \<open>Trimming\<close>

lemma find_last_not_of_snoc:
  "find_last_not_of d (xs @ [c]) = (if c \<in> set d then find_last_not_of d xs else Some (length xs))"
  by (auto simp: find_last_not_of_def Let_def)

lemma find_last_bound: "find_last_not_of d xs = Some n \<Longrightarrow> n < length xs"
  by (auto simp: find_last_not_of_def Let_def split: if_splits)

text \<open>What trimming on the right is to give.\<close>

definition strip_right :: "bytes \<Rightarrow> bytes \<Rightarrow> bytes" where
  "strip_right delimit str = rev (dropWhile (\<lambda>c. c \<in> set delimit) (rev str))"

lemma strip_right_find:
  "strip_right d str = (case find_last_not_of d str of None \<Rightarrow> [] | Some n \<Rightarrow> take (Suc n) str)"
proof (induction str rule: rev_induct)
  case (snoc c xs)
  show ?case
  proof (cases "c \<in> set d")
    case True
    then show ?thesis
      using snoc find_last_bound [of d xs] by (auto simp: strip_right_def find_last_not_of_snoc split: option.splits)
  next
    case False
    then show ?thesis by (simp add: strip_right_def find_last_not_of_snoc)
  qed
qed (simp add: strip_right_def find_last_not_of_def)

text \<open>\<open>TrimRight\<close> cuts one character too many: its result is the stripped string without its
  last character; a string of delimiters gives the empty string.\<close>

theorem TrimRight_drops_one_more: "TrimRight str delimit = butlast (strip_right delimit str)"
proof (cases "find_last_not_of delimit str")
  case (Some n)
  then show ?thesis
    using find_last_bound [OF Some] by (simp add: TrimRight_def strip_right_find butlast_take)
qed (simp add: TrimRight_def strip_right_find)

end
