(* ===== verification/UtilCodec.thy ===== *)
theory UtilCodec
  imports UtilTextProps
begin

text \<open>
  Base64 against a decoder in the sense of RFC 4648, and the three forms of \<open>replace\<close> against
  maps over the string, with the pattern on which \<open>replace\<close> does not return.
\<close>

unbundle bit_operations_syntax

section \<open>Base64\<close>

definition b64_value :: "bool \<Rightarrow> u8 \<Rightarrow> u32" where
  "b64_value url c = of_nat (length (takeWhile (\<lambda>d. d \<noteq> c) (base64_table url)))"

definition b64_group :: "bool \<Rightarrow> u8 \<Rightarrow> u8 \<Rightarrow> u8 \<Rightarrow> u8 \<Rightarrow> bytes" where
  "b64_group url a b c d =
     (let v = (\<lambda>x. if x = 0x3D then 0 else b64_value url x);
          n = push_bit 18 (v a) OR push_bit 12 (v b) OR push_bit 6 (v c) OR v d
      in ucast (drop_bit 16 n) #
         (if c = 0x3D then [] else ucast (drop_bit 8 n) # (if d = 0x3D then [] else [ucast n])))"

fun b64_decode :: "bool \<Rightarrow> bytes \<Rightarrow> bytes" where
  "b64_decode url (a # b # c # d # rest) = b64_group url a b c d @ b64_decode url rest"
| "b64_decode url _ = []"

lemma base64_table_distinct: "distinct (base64_table url) \<and> length (base64_table url) = 64 \<and> 0x3D \<notin> set (base64_table url)"
proof -
  have "distinct (base64_table True) \<and> length (base64_table True) = 64 \<and> 0x3D \<notin> set (base64_table True)"
    by code_simp
  moreover have "distinct (base64_table False) \<and> length (base64_table False) = 64 \<and> 0x3D \<notin> set (base64_table False)"
    by code_simp
  ultimately show ?thesis by (cases url) auto
qed

lemma b64_value_digit:
  assumes "unat x < 64"
  shows "b64_value url (base64_table url ! unat x) = x" "base64_table url ! unat x \<noteq> 0x3D"
proof -
  let ?t = "base64_table url" and ?n = "unat x"
  have d: "distinct ?t" "length ?t = 64" "0x3D \<notin> set ?t"
    using base64_table_distinct [of url] by auto
  then have "takeWhile (\<lambda>d. d \<noteq> ?t ! ?n) ?t = take ?n ?t"
    using assms by (intro takeWhile_eq_take_P_nth) (auto simp: nth_eq_iff_index_eq)
  then show "b64_value url (?t ! ?n) = x"
    using d assms by (simp add: b64_value_def)
  show "?t ! ?n \<noteq> 0x3D"
    using d assms nth_mem [of ?n ?t] by metis
qed

lemma low_six: "unat (x AND 0x3f :: u32) < 64"
  using word_and_le1 [of x "0x3f"] by (simp add: word_le_nat_alt)

lemma six_below: "x < 0x40 \<Longrightarrow> unat (x :: u32) < 64"
  by (simp add: word_less_nat_alt)

text \<open>The three lengths of the last chunk, as equations.\<close>

definition digit :: "bool \<Rightarrow> u32 \<Rightarrow> u8" where
  "digit url x = base64_table url ! unat x"

lemma base64encode_steps:
  "base64encode url [a] =
     (let p = push_bit 16 (ucast a) :: u32
      in [digit url (drop_bit 18 p), digit url (drop_bit 12 p AND 0x3f), 0x3D, 0x3D])"
  "base64encode url [a, b] =
     (let p = push_bit 8 (push_bit 8 (ucast a) OR ucast b) :: u32
      in [digit url (drop_bit 18 p), digit url (drop_bit 12 p AND 0x3f),
          digit url (drop_bit 6 p AND 0x3f), 0x3D])"
  "base64encode url (a # b # c # rest) =
     (let p = push_bit 8 (push_bit 8 (ucast a) OR ucast b) OR ucast c :: u32
      in [digit url (drop_bit 18 p), digit url (drop_bit 12 p AND 0x3f),
          digit url (drop_bit 6 p AND 0x3f), digit url (p AND 0x3f)] @ base64encode url rest)"
  by (simp_all add: digit_def Let_def numeral_2_eq_2 numeral_3_eq_3)

lemma and_3f: "x AND 0x3f = take_bit 6 (x :: u32)"
  by (simp add: take_bit_eq_mask mask_eq_exp_minus_1)

lemma digit_value [simp]:
  "b64_value url (digit url (take_bit 6 x)) = take_bit 6 x" "digit url (take_bit 6 x) \<noteq> 0x3D"
  using b64_value_digit [of "take_bit 6 x" url] low_six [of x] by (simp_all add: digit_def and_3f)

lemma byte_eqI:
  assumes "\<And>n. n \<in> {0, 1, 2, 3, 4, 5, 6, 7} \<Longrightarrow> bit x n = bit y n"
  shows "x = (y :: u8)"
proof (rule bit_word_eqI)
  fix n assume "n < LENGTH(8)"
  then have "n \<in> {0, 1, 2, 3, 4, 5, 6, 7}" by auto
  then show "bit x n = bit y n" by (rule assms)
qed

lemma top_six:
  "drop_bit 18 (push_bit 16 (ucast (a :: u8)) :: u32) = take_bit 6 (drop_bit 18 (push_bit 16 (ucast a)))"
  "drop_bit 18 (push_bit 8 (push_bit 8 (ucast (a :: u8)) OR ucast (b :: u8)) :: u32) =
     take_bit 6 (drop_bit 18 (push_bit 8 (push_bit 8 (ucast a) OR ucast b)))"
  "drop_bit 18 (push_bit 8 (push_bit 8 (ucast (a :: u8)) OR ucast (b :: u8)) OR ucast (c :: u8) :: u32) =
     take_bit 6 (drop_bit 18 (push_bit 8 (push_bit 8 (ucast a) OR ucast b) OR ucast c))"
  by (rule bit_word_eqI; auto simp: bit_simps dest: bit_imp_le_length)+

lemma regroup:
  "push_bit 18 (take_bit 6 (drop_bit 18 p)) OR push_bit 12 (take_bit 6 (drop_bit 12 p)) OR
     push_bit 6 (take_bit 6 (drop_bit 6 p)) OR take_bit 6 p = take_bit 24 (p :: u32)"
proof (rule bit_word_eqI)
  fix n assume "n < LENGTH(32)"
  consider "n < 6" | "6 \<le> n \<and> n < 12" | "12 \<le> n \<and> n < 18" | "18 \<le> n" by linarith
  then show "bit (push_bit 18 (take_bit 6 (drop_bit 18 p)) OR push_bit 12 (take_bit 6 (drop_bit 12 p)) OR
     push_bit 6 (take_bit 6 (drop_bit 6 p)) OR take_bit 6 p) n = bit (take_bit 24 p) n"
    using \<open>n < LENGTH(32)\<close> by cases (simp_all add: bit_simps, auto)
qed

lemma low_bits:
  "take_bit 6 (push_bit 8 q :: u32) = 0" "take_bit 6 (push_bit 16 q :: u32) = 0"
  "take_bit 6 (drop_bit 6 (push_bit 16 q :: u32)) = 0"
  by (rule bit_word_eqI; auto simp: bit_simps)+

lemma unpack:
  "ucast (drop_bit 16 (take_bit 24 (push_bit 16 (ucast (a :: u8)) :: u32))) = a"
  "ucast (drop_bit 16 (take_bit 24 (push_bit 8 (push_bit 8 (ucast a) OR ucast (b :: u8)) :: u32))) = a"
  "ucast (drop_bit 8 (take_bit 24 (push_bit 8 (push_bit 8 (ucast a) OR ucast (b :: u8)) :: u32))) = b"
  "ucast (drop_bit 16 (take_bit 24 (push_bit 8 (push_bit 8 (ucast a) OR ucast b) OR ucast (c :: u8) :: u32))) = a"
  "ucast (drop_bit 8 (take_bit 24 (push_bit 8 (push_bit 8 (ucast a) OR ucast b) OR ucast (c :: u8) :: u32))) = b"
  "ucast (take_bit 24 (push_bit 8 (push_bit 8 (ucast a) OR ucast b) OR ucast (c :: u8) :: u32)) = c"
  by (rule byte_eqI; elim insertE emptyE; auto simp: bit_simps dest: bit_imp_le_length)+

lemma group_digits:
  fixes p :: u32 and url :: bool
  defines "q \<equiv> take_bit 24 p"
  defines "d1 \<equiv> digit url (take_bit 6 (drop_bit 18 p))" and "d2 \<equiv> digit url (take_bit 6 (drop_bit 12 p))"
    and "d3 \<equiv> digit url (take_bit 6 (drop_bit 6 p))"
  shows "b64_group url d1 d2 d3 (digit url (take_bit 6 p)) = [ucast (drop_bit 16 q), ucast (drop_bit 8 q), ucast q]"
    and "take_bit 6 p = 0 \<Longrightarrow> b64_group url d1 d2 d3 0x3D = [ucast (drop_bit 16 q), ucast (drop_bit 8 q)]"
    and "take_bit 6 p = 0 \<Longrightarrow> take_bit 6 (drop_bit 6 p) = 0 \<Longrightarrow> b64_group url d1 d2 0x3D 0x3D = [ucast (drop_bit 16 q)]"
  using regroup [of p]
  by (simp_all only: b64_group_def Let_def digit_value if_True if_False assms regroup simp_thms push_bit_of_0)

lemma group_one:
  fixes a :: u8
  defines "p \<equiv> push_bit 16 (ucast a) :: u32"
  shows "b64_group url (digit url (drop_bit 18 p)) (digit url (drop_bit 12 p AND 0x3f)) 0x3D 0x3D = [a]"
  unfolding p_def and_3f by (subst top_six) (simp only: group_digits low_bits unpack)

lemma group_two:
  fixes a b :: u8
  defines "p \<equiv> push_bit 8 (push_bit 8 (ucast a) OR ucast b) :: u32"
  shows "b64_group url (digit url (drop_bit 18 p)) (digit url (drop_bit 12 p AND 0x3f))
     (digit url (drop_bit 6 p AND 0x3f)) 0x3D = [a, b]"
  unfolding p_def and_3f by (subst top_six) (simp only: group_digits low_bits unpack)

lemma group_three:
  fixes a b c :: u8
  defines "p \<equiv> push_bit 8 (push_bit 8 (ucast a) OR ucast b) OR ucast c :: u32"
  shows "b64_group url (digit url (drop_bit 18 p)) (digit url (drop_bit 12 p AND 0x3f))
     (digit url (drop_bit 6 p AND 0x3f)) (digit url (p AND 0x3f)) = [a, b, c]"
  unfolding p_def and_3f by (subst top_six) (simp only: group_digits low_bits unpack)

lemma base64_decode_encode: "b64_decode url (base64encode url xs) = xs"
proof (induction "length xs" arbitrary: xs rule: less_induct)
  case less
  consider "xs = []" | a where "xs = [a]" | a b where "xs = [a, b]"
    | a b c rest where "xs = a # b # c # rest"
    by (cases xs; cases "tl xs"; cases "tl (tl xs)") auto
  then show ?case
  proof cases
    case 4
    then have "b64_decode url (base64encode url rest) = rest" using less by simp
    then show ?thesis by (simp only: 4 base64encode_steps Let_def append_Cons append_Nil b64_decode.simps group_three)
  next
    case 1
    then show ?thesis by simp
  qed (simp_all only: base64encode_steps Let_def append_Nil append_Nil2 append_Cons
         b64_decode.simps group_one group_two)
qed

lemma base64_length: "length (base64encode url xs) = 4 * ((length xs + 2) div 3)"
proof (induction "length xs" arbitrary: xs rule: less_induct)
  case less
  consider "xs = []" | a where "xs = [a]" | a b where "xs = [a, b]"
    | a b c rest where "xs = a # b # c # rest"
    by (cases xs; cases "tl xs"; cases "tl (tl xs)") auto
  then show ?case
  proof cases
    case 4
    then have "length (base64encode url rest) = 4 * ((length rest + 2) div 3)" using less by simp
    then show ?thesis unfolding 4 base64encode_steps Let_def by (simp, arith)
  qed (simp_all add: base64encode_steps Let_def del: base64encode.simps(2))
qed

text \<open>C39: base64 is decodable: a decoder in the sense of RFC 4648 gives the bytes back, with either
  alphabet and any padding, and the text has four characters for every three bytes begun.\<close>

theorem base64_roundtrip:
  "b64_decode url (base64encode url data) = data \<and>
   length (base64encode url data) = 4 * ((length data + 2) div 3)"
  by (simp only: base64_decode_encode base64_length simp_thms)

section \<open>Replacing\<close>

text \<open>Replace the occurrences of \<open>pat\<close> from the left, without overlap.\<close>

function replace_all :: "bytes \<Rightarrow> bytes \<Rightarrow> bytes \<Rightarrow> bytes" where
  "replace_all pat repl [] = []"
| "replace_all pat repl (c # cs) =
     (if take (length pat) (c # cs) = pat then repl @ replace_all pat repl (drop (length pat - 1) cs)
      else c # replace_all pat repl cs)"
  by pat_completeness auto
termination by (relation "measure (\<lambda>(pat, repl, s). length s)") auto

lemma replace_all_missing: "pat \<noteq> [] \<Longrightarrow> find_in pat s = None \<Longrightarrow> replace_all pat repl s = s"
  by (induction s) (auto split: if_splits)

lemma replace_all_found:
  "pat \<noteq> [] \<Longrightarrow> find_in pat s = Some i \<Longrightarrow>
   replace_all pat repl s = take i s @ repl @ replace_all pat repl (drop (i + length pat) s)"
proof (induction s arbitrary: i)
  case (Cons c cs)
  then show ?case
    by (cases pat) (auto split: if_splits)
qed simp

lemma find_in_bound: "find_in pat s = Some i \<Longrightarrow> i + length pat \<le> length s"
proof (induction s arbitrary: i)
  case (Cons c cs)
  have "take (length pat) (c # cs) = pat \<Longrightarrow> length pat \<le> Suc (length cs)"
    by (metis length_Cons length_take min.cobounded1)
  then show ?case using Cons by (auto split: if_splits)
qed (auto split: if_splits)

lemma str_find_behind: "str_find (pre @ s) pat (length pre) = map_option (\<lambda>i. length pre + i) (find_in pat s)"
  by (simp add: str_find_def)

lemma replace_loop_all:
  assumes "pat \<noteq> []"
  shows "replace_loop pat repl (length pre) (pre @ s) = Some (pre @ replace_all pat repl s)"
proof (induction "length s" arbitrary: pre s rule: less_induct)
  case less
  show ?case
  proof (cases "find_in pat s")
    case None
    then show ?thesis
      using assms by (subst replace_loop.simps) (simp add: str_find_behind replace_all_missing)
  next
    case (Some i)
    have "i + length pat \<le> length s" by (rule find_in_bound [OF Some])
    then have step: "replace_loop pat repl (length pre) (pre @ s) =
        replace_loop pat repl (length (pre @ take i s @ repl)) ((pre @ take i s @ repl) @ drop (i + length pat) s)"
      using Some by (subst replace_loop.simps) (simp add: str_find_behind ac_simps)
    have "length (drop (i + length pat) s) < length s"
      using assms \<open>i + length pat \<le> length s\<close> by (cases pat) auto
    then show ?thesis
      unfolding step replace_all_found [OF assms Some] by (subst less) simp_all
  qed
qed

lemma replace_loop_empty:
  assumes "replace_loop pat repl pos str = Some y" "pat = []" "pos \<le> length str"
  shows False
proof -
  have e: "find_in [] t = Some 0" for t by (cases t) simp_all
  have "pat = [] \<longrightarrow> \<not> pos \<le> length str"
  proof (rule replace_loop.raw_induct [OF _ assms(1)])
    fix f pat repl pos str y
    assume ih: "\<And>pat repl pos str y. f pat repl pos str = Some y \<Longrightarrow> pat = [] \<longrightarrow> \<not> pos \<le> length (str :: bytes)"
      and step: "(case str_find str pat pos of None \<Rightarrow> Some str
           | Some index \<Rightarrow> f pat repl (index + length repl) (take index str @ repl @ drop (index + length pat) str)) = Some y"
    show "pat = [] \<longrightarrow> \<not> pos \<le> length str"
      using step ih [of "[]" repl "pos + length repl" "take pos str @ repl @ drop pos str" y]
      by (auto simp: str_find_def e)
  qed
  then show False using assms by blast
qed

lemma replace_all_char: "replace_all [c] repl s = concat (map (\<lambda>x. if x = c then repl else [x]) s)"
  by (induction s) auto

lemma replace_char_loop_all:
  "replace_char_loop c r (length pre) (pre @ s) = Some (pre @ map (\<lambda>x. if x = c then r else x) s)"
proof (induction "length s" arbitrary: pre s rule: less_induct)
  case less
  show ?case
  proof (cases "find_in [c] s")
    case None
    have "find_in [c] s = None \<Longrightarrow> map (\<lambda>x. if x = c then r else x) s = s" for s
      by (induction s) (auto split: if_splits)
    with None show ?thesis by (subst replace_char_loop.simps) (simp add: str_find_behind)
  next
    case (Some i)
    have "find_in [c] s = Some i \<Longrightarrow> i < length s \<and> s = take i s @ c # drop (Suc i) s \<and> c \<notin> set (take i s)" for s i
      by (induction s arbitrary: i) (auto split: if_splits)
    note i = this [OF Some]
    have upd: "(pre @ s)[length pre + i := r] = (pre @ take i s @ [r]) @ drop (Suc i) s"
      using i by (simp add: list_update_append upd_conv_take_nth_drop)
    have step: "replace_char_loop c r (length pre) (pre @ s) =
        replace_char_loop c r (length (pre @ take i s @ [r])) ((pre @ take i s @ [r]) @ drop (Suc i) s)"
      using i by (subst replace_char_loop.simps) (simp only: str_find_behind Some, simp add: upd)
    have "map (\<lambda>x. if x = c then r else x) (take i s @ c # drop (Suc i) s) =
        take i s @ r # map (\<lambda>x. if x = c then r else x) (drop (Suc i) s)"
      using conjunct2 [OF conjunct2 [OF i]] by (auto intro!: map_idI)
    then have "map (\<lambda>x. if x = c then r else x) s =
        take i s @ r # map (\<lambda>x. if x = c then r else x) (drop (Suc i) s)"
      using i by metis
    then show ?thesis
      unfolding step using conjunct1 [OF i] by (subst less) simp_all
  qed
qed

text \<open>A pattern that is not empty is replaced everywhere from the left, and the call returns; a
  character is replaced position by position; but with an empty pattern the loop finds the
  position it stands on for ever.\<close>

theorem replace_everywhere:
  "replace_char str1 c r = Some (map (\<lambda>x. if x = c then r else x) str1) \<and>
   replace_char_string str1 c repl = Some (concat (map (\<lambda>x. if x = c then repl else [x]) str1)) \<and>
   replace_string str1 pat repl = (if pat = [] then None else Some (replace_all pat repl str1))"
  using replace_char_loop_all [of c r "[]" str1] replace_loop_all [of "[c]" repl "[]" str1]
    replace_loop_all [of pat repl "[]" str1] replace_loop_empty [of pat repl 0 str1]
  by (cases "replace_loop pat repl 0 str1")
    (auto simp: replace_char_def replace_char_string_def replace_string_def replace_all_char)

end
