(* ===== verification/StdMap.thy ===== *)
theory StdMap
  imports StdSet "HOL-Library.List_Lexorder"
begin

text \<open>
  \<open>std::map\<close> with its default order: an association list sorted by its keys. Strings compare
  byte by byte, as \<open>std::string\<close> does. The other lemmas are about \<open>std::set\<close> with the default
  order and about loops that may fail.
\<close>

type_synonym ('k, 'v) std_map = "('k \<times> 'v) list"

abbreviation map_get :: "'k \<Rightarrow> ('k, 'v) std_map \<Rightarrow> 'v option" where
  "map_get k m \<equiv> map_of m k"

text \<open>\<open>m[k] = v\<close>\<close>

fun map_put :: "'k :: linorder \<Rightarrow> 'v \<Rightarrow> ('k, 'v) std_map \<Rightarrow> ('k, 'v) std_map" where
  "map_put k v [] = [(k, v)]"
| "map_put k v ((k', v') # m) =
     (if k < k' then (k, v) # (k', v') # m else if k = k' then (k, v) # m else (k', v') # map_put k v m)"

text \<open>\<open>m.insert({k, v})\<close> keeps the value of a key that is present.\<close>

definition map_insert :: "'k :: linorder \<Rightarrow> 'v \<Rightarrow> ('k, 'v) std_map \<Rightarrow> ('k, 'v) std_map" where
  "map_insert k v m = (if map_get k m = None then map_put k v m else m)"

definition map_erase :: "'k \<Rightarrow> ('k, 'v) std_map \<Rightarrow> ('k, 'v) std_map" where
  "map_erase k m = filter (\<lambda>p. fst p \<noteq> k) m"

definition sorted_map :: "('k :: linorder, 'v) std_map \<Rightarrow> bool" where
  "sorted_map m \<longleftrightarrow> sorted_wrt (<) (map fst m)"

lemma get_put [simp]: "map_of (map_put k v m) = (map_of m)(k \<mapsto> v)"
  by (induction m) auto

lemma get_insert [simp]: "map_of (map_insert k v m) = (if map_of m k = None then (map_of m)(k \<mapsto> v) else map_of m)"
  by (simp add: map_insert_def)

lemma get_erase [simp]: "map_of (map_erase k m) = (map_of m)(k := None)"
  by (induction m) (auto simp: map_erase_def)

lemma keys_put: "fst ` set (map_put k v m) = insert k (fst ` set m)"
  by (simp flip: dom_map_of_conv_image_fst)

lemma sorted_map_Nil [simp]: "sorted_map []"
  by (simp add: sorted_map_def)

lemma sorted_put [simp]: "sorted_map m \<Longrightarrow> sorted_map (map_put k v m)"
proof (induction m)
  case (Cons p m)
  obtain k' v' where p: "p = (k', v')" by force
  have "k' < x" if "x \<in> insert k (fst ` set m)" "\<not> k < k'" "k \<noteq> k'" for x
    using that Cons.prems p by (auto simp: sorted_map_def)
  then show ?case
    using Cons p keys_put [of k v m] by (auto simp: sorted_map_def)
qed (simp add: sorted_map_def)

lemma sorted_insert_map [simp]: "sorted_map m \<Longrightarrow> sorted_map (map_insert k v m)"
  by (simp add: map_insert_def)

lemma sorted_erase [simp]: "sorted_map m \<Longrightarrow> sorted_map (map_erase k m)"
proof -
  have "map fst (map_erase k m) = filter (\<lambda>x. x \<noteq> k) (map fst m)"
    by (induction m) (auto simp: map_erase_def)
  then show "sorted_map m \<Longrightarrow> sorted_map (map_erase k m)"
    by (simp add: sorted_map_def sorted_wrt_filter)
qed

lemma sorted_map_distinct: "sorted_map m \<Longrightarrow> distinct (map fst m)"
  by (simp add: sorted_map_def strict_sorted_iff)

lemma erase_empty: "map_erase j m = [] \<Longrightarrow> i \<noteq> j \<Longrightarrow> map_of m i = None"
  using get_erase [of j m] by (metis fun_upd_other map_of.simps(1))

lemma sorted_map_single [simp]: "sorted_map [p]"
  by (simp add: sorted_map_def)

lemma in_sorted_map: "sorted_map m \<Longrightarrow> (k, v) \<in> set m \<longleftrightarrow> map_get k m = Some v"
  using sorted_map_distinct [of m] by simp

section \<open>Sets with the default order\<close>

interpretation default_order: strict_comparator "(<) :: 'a \<Rightarrow> 'a :: linorder \<Rightarrow> bool"
  by unfold_locales auto

text \<open>\<open>m[k].insert(x)\<close> on a map of sets.\<close>

definition multi_insert :: "'k :: linorder \<Rightarrow> 'v :: linorder \<Rightarrow> ('k, 'v list) std_map \<Rightarrow> ('k, 'v list) std_map" where
  "multi_insert k x m =
     map_put k (set_insert (<) x (case map_get k m of None \<Rightarrow> [] | Some xs \<Rightarrow> xs)) m"

definition multi_mem :: "'k \<Rightarrow> 'v \<Rightarrow> ('k, 'v list) std_map \<Rightarrow> bool" where
  "multi_mem k x m \<longleftrightarrow> (case map_get k m of None \<Rightarrow> False | Some xs \<Rightarrow> x \<in> set xs)"

definition sorted_multi :: "('k, 'v :: linorder list) std_map \<Rightarrow> bool" where
  "sorted_multi m \<longleftrightarrow> (\<forall>k xs. map_get k m = Some xs \<longrightarrow> sorted_wrt (<) xs)"

lemma multi_mem_Nil [simp]: "\<not> multi_mem k x []"
  by (simp add: multi_mem_def)

lemma sorted_multi_Nil [simp]: "sorted_multi []"
  by (simp add: sorted_multi_def)

lemma sorted_multi_insert [simp]: "sorted_multi m \<Longrightarrow> sorted_multi (multi_insert k x m)"
  by (auto simp: sorted_multi_def multi_insert_def split: option.split
      intro!: default_order.insert_sorted)

lemma multi_mem_insert [simp]:
  "sorted_multi m \<Longrightarrow> multi_mem k' y (multi_insert k x m) \<longleftrightarrow> k' = k \<and> y = x \<or> multi_mem k' y m"
  by (auto simp: multi_mem_def multi_insert_def sorted_multi_def default_order.set_of_insert
      split: option.splits)

lemma sorted_map_multi_insert [simp]: "sorted_map m \<Longrightarrow> sorted_map (multi_insert k x m)"
  by (simp add: multi_insert_def)

section \<open>Loops\<close>

fun for_each :: "('a \<Rightarrow> 's \<Rightarrow> 's res) \<Rightarrow> 'a list \<Rightarrow> 's \<Rightarrow> 's res" where
  "for_each f [] s = Inr s"
| "for_each f (x # xs) s = bindE (f x s) (for_each f xs)"

lemma for_each_fold: "(\<And>x s. x \<in> set xs \<Longrightarrow> f x s = Inr (g x s)) \<Longrightarrow> for_each f xs s = Inr (fold g xs s)"
  by (induction xs arbitrary: s) auto

lemma fold_invariant_on:
  "P s \<Longrightarrow> (\<And>x s. x \<in> set xs \<Longrightarrow> P s \<Longrightarrow> P (g x s)) \<Longrightarrow> P (fold g xs s)"
  by (induction xs arbitrary: s) auto

end
