(* ===== verification/TextOut.thy ===== *)
theory TextOut
  imports Prelude
begin

text \<open>
  What the code prints to a string stream: literals as bytes and numbers in decimal.
  A printed text is the bytes appended to the stream.
\<close>

definition str :: "string \<Rightarrow> bytes" where
  "str s = map of_char s"

fun decimal :: "nat \<Rightarrow> bytes" where
  "decimal n = (if n < 10 then [of_nat (48 + n)] else decimal (n div 10) @ [of_nat (48 + n mod 10)])"

declare decimal.simps [simp del]

definition signed_decimal :: "32 word \<Rightarrow> bytes" where
  "signed_decimal w = (if sint w < 0 then 0x2D # decimal (nat (- sint w)) else decimal (nat (sint w)))"

abbreviation tab :: bytes where "tab \<equiv> [9]"
abbreviation endl :: bytes where "endl \<equiv> [10]"

fun decimal_value :: "nat \<Rightarrow> bytes \<Rightarrow> nat" where
  "decimal_value acc [] = acc"
| "decimal_value acc (c # cs) = decimal_value (10 * acc + (unat c - 48)) cs"

lemma decimal_value_append: "decimal_value acc (xs @ ys) = decimal_value (decimal_value acc xs) ys"
  by (induction acc xs rule: decimal_value.induct) auto

lemma unat_digit: "d < 10 \<Longrightarrow> unat (of_nat (48 + d) :: u8) = 48 + d"
  by (simp only: unat_of_nat) simp

text \<open>Distinct numbers print differently.\<close>

lemma decimal_value_decimal: "decimal_value 0 (decimal n) = n"
proof (induction n rule: decimal.induct)
  case (1 n)
  show ?case
  proof (cases "n < 10")
    case True
    then show ?thesis by (subst decimal.simps) (simp add: unat_digit del: of_nat_add)
  next
    case False
    then show ?thesis
      using 1 unat_digit [of "n mod 10"]
      by (subst decimal.simps) (simp add: decimal_value_append del: of_nat_add)
  qed
qed

end
