(* ===== verification/NsProtocol.thy ===== *)
theory NsProtocol
  imports StdMap TextOut
begin

text \<open>
  The name server's tables, \<open>src/ns/NameServerProtocol.cpp\<close>: nodes, the nodes of a command, the
  commands of a domain, the domains. The objects behind the shared pointers of a table are
  reached through the table only, so a table holds their values and a change made through a
  pointer that \<open>get\<close> returned is a change of the entry. \<open>inet_addr\<close>, of the system, is a
  parameter.
\<close>

unbundle bit_operations_syntax

section \<open>Nodes\<close>

record NSNode =
  node_id :: u64
  node_ip :: bytes
  node_port :: u16
  node_weight :: u32

definition GetID :: "(bytes \<Rightarrow> u32) \<Rightarrow> bytes \<Rightarrow> u16 \<Rightarrow> u64" where
  "GetID inet_addr ip port = push_bit 32 (ucast (inet_addr ip)) OR ucast port"

definition new_NSNode :: "(bytes \<Rightarrow> u32) \<Rightarrow> bytes \<Rightarrow> u16 \<Rightarrow> u32 \<Rightarrow> NSNode" where
  "new_NSNode inet_addr ip port weight =
     \<lparr>node_id = GetID inet_addr ip port, node_ip = ip, node_port = port, node_weight = weight\<rparr>"

definition Node_dump :: "NSNode \<Rightarrow> bytes \<Rightarrow> bytes" where
  "Node_dump n prefix =
     prefix @ str ''[NSNode id = '' @ decimal (unat (node_id n)) @ str '' ip = '' @ node_ip n
       @ str '' port = '' @ decimal (unat (node_port n))
       @ str '' weight = '' @ decimal (unat (node_weight n)) @ str '']''"

section \<open>The nodes of a command\<close>

record NSNodeSet =
  ns_cmd :: u32
  ns_datas :: "(u64, NSNode) std_map"

definition new_NSNodeSet :: "u32 \<Rightarrow> NSNodeSet" where
  "new_NSNodeSet cmd = \<lparr>ns_cmd = cmd, ns_datas = []\<rparr>"

definition NodeSet_add :: "NSNode \<Rightarrow> NSNodeSet \<Rightarrow> NSNodeSet" where
  "NodeSet_add info s = s\<lparr>ns_datas := map_put (node_id info) info (ns_datas s)\<rparr>"

definition NodeSet_del :: "u64 \<Rightarrow> NSNodeSet \<Rightarrow> NSNode option \<times> NSNodeSet" where
  "NodeSet_del i s =
     (case map_get i (ns_datas s) of
        None \<Rightarrow> (None, s)
      | Some n \<Rightarrow> (Some n, s\<lparr>ns_datas := map_erase i (ns_datas s)\<rparr>))"

definition NodeSet_get :: "u64 \<Rightarrow> NSNodeSet \<Rightarrow> NSNode option" where
  "NodeSet_get i s = map_get i (ns_datas s)"

definition NodeSet_listAll :: "NSNodeSet \<Rightarrow> NSNode list \<Rightarrow> NSNode list" where
  "NodeSet_listAll s infos = infos @ map snd (ns_datas s)"

definition NodeSet_dump :: "NSNodeSet \<Rightarrow> bytes \<Rightarrow> bytes" where
  "NodeSet_dump s prefix =
     prefix @ str ''[NSNodeSet cmd = '' @ decimal (unat (ns_cmd s))
       @ str '' size = '' @ decimal (length (ns_datas s)) @ str '']'' @ endl
       @ concat (map (\<lambda>(_, n). Node_dump n (prefix @ tab) @ endl) (ns_datas s))"

definition NodeSet_size :: "NSNodeSet \<Rightarrow> nat" where
  "NodeSet_size s = length (ns_datas s)"

section \<open>The commands of a domain\<close>

record NSDomain =
  dom_name :: bytes
  dom_datas :: "(u32, NSNodeSet) std_map"

definition new_NSDomain :: "bytes \<Rightarrow> NSDomain" where
  "new_NSDomain name = \<lparr>dom_name = name, dom_datas = []\<rparr>"

definition Domain_add_set :: "NSNodeSet \<Rightarrow> NSDomain \<Rightarrow> NSDomain" where
  "Domain_add_set info d = d\<lparr>dom_datas := map_put (ns_cmd info) info (dom_datas d)\<rparr>"

definition Domain_get :: "u32 \<Rightarrow> NSDomain \<Rightarrow> NSNodeSet option" where
  "Domain_get cmd d = map_get cmd (dom_datas d)"

definition Domain_add :: "u32 \<Rightarrow> NSNode \<Rightarrow> NSDomain \<Rightarrow> NSDomain" where
  "Domain_add cmd info d =
     (let ns = (case Domain_get cmd d of None \<Rightarrow> new_NSNodeSet cmd | Some ns \<Rightarrow> ns);
          d = (if Domain_get cmd d = None then Domain_add_set ns d else d)
      in d\<lparr>dom_datas := map_put cmd (NodeSet_add info ns) (dom_datas d)\<rparr>)"

definition Domain_del_cmd :: "u32 \<Rightarrow> NSDomain \<Rightarrow> NSDomain" where
  "Domain_del_cmd cmd d = d\<lparr>dom_datas := map_erase cmd (dom_datas d)\<rparr>"

definition Domain_del :: "u32 \<Rightarrow> u64 \<Rightarrow> NSDomain \<Rightarrow> NSNode option \<times> NSDomain" where
  "Domain_del cmd i d =
     (case Domain_get cmd d of
        None \<Rightarrow> (None, d)
      | Some ns \<Rightarrow>
          let (info, ns) = NodeSet_del i ns; d = d\<lparr>dom_datas := map_put cmd ns (dom_datas d)\<rparr>
          in (info, if NodeSet_size ns = 0 then Domain_del_cmd cmd d else d))"

definition Domain_listAll :: "NSDomain \<Rightarrow> NSNodeSet list \<Rightarrow> NSNodeSet list" where
  "Domain_listAll d infos = infos @ map snd (dom_datas d)"

definition Domain_dump :: "NSDomain \<Rightarrow> bytes \<Rightarrow> bytes" where
  "Domain_dump d prefix =
     prefix @ str ''[NSDomain name = '' @ dom_name d
       @ str '' cmd_size = '' @ decimal (length (dom_datas d)) @ str '']'' @ endl
       @ concat (map (\<lambda>(_, s). NodeSet_dump s (prefix @ tab) @ endl) (dom_datas d))"

definition Domain_size :: "NSDomain \<Rightarrow> nat" where
  "Domain_size d = length (dom_datas d)"

section \<open>The domains\<close>

type_synonym NSDomainSet = "(bytes, NSDomain) std_map"

definition DomainSet_add :: "NSDomain \<Rightarrow> NSDomainSet \<Rightarrow> NSDomainSet" where
  "DomainSet_add info ds = map_put (dom_name info) info ds"

definition DomainSet_del :: "bytes \<Rightarrow> NSDomainSet \<Rightarrow> NSDomainSet" where
  "DomainSet_del domain ds = map_erase domain ds"

definition DomainSet_get :: "bytes \<Rightarrow> bool \<Rightarrow> NSDomainSet \<Rightarrow> NSDomain option \<times> NSDomainSet" where
  "DomainSet_get domain auto_create ds =
     (if \<not> auto_create then (map_get domain ds, ds)
      else case map_get domain ds of
             Some d \<Rightarrow> (Some d, ds)
           | None \<Rightarrow> let d = new_NSDomain domain in (Some d, map_put domain d ds))"

text \<open>\<open>f\<close> applied to the domain object that \<open>get(domain)\<close> returned.\<close>

definition at_domain :: "bytes \<Rightarrow> (NSDomain \<Rightarrow> NSDomain) \<Rightarrow> NSDomainSet \<Rightarrow> NSDomainSet" where
  "at_domain domain f ds = (case map_get domain ds of None \<Rightarrow> ds | Some d \<Rightarrow> map_put domain (f d) ds)"

definition DomainSet_del_node :: "bytes \<Rightarrow> u32 \<Rightarrow> u64 \<Rightarrow> NSDomainSet \<Rightarrow> NSDomainSet" where
  "DomainSet_del_node domain cmd i ds =
     (case fst (DomainSet_get domain False ds) of
        None \<Rightarrow> ds
      | Some d \<Rightarrow>
          (case Domain_get cmd d of
             None \<Rightarrow> ds
           | Some ns \<Rightarrow>
               at_domain domain
                 (\<lambda>d. d\<lparr>dom_datas := map_put cmd (snd (NodeSet_del i ns)) (dom_datas d)\<rparr>) ds))"

definition DomainSet_listAll :: "NSDomainSet \<Rightarrow> NSDomain list \<Rightarrow> NSDomain list" where
  "DomainSet_listAll ds infos = infos @ map snd ds"

definition DomainSet_dump :: "NSDomainSet \<Rightarrow> bytes \<Rightarrow> bytes" where
  "DomainSet_dump ds prefix =
     prefix @ str ''[NSDomainSet domain_size='' @ decimal (length ds) @ str '']'' @ endl
       @ concat (map (\<lambda>(_, d). prefix @ Domain_dump d (prefix @ tab) @ endl) ds)"

definition DomainSet_swap :: "NSDomainSet \<Rightarrow> NSDomainSet \<Rightarrow> NSDomainSet \<times> NSDomainSet" where
  "DomainSet_swap ds1 ds2 = (ds2, ds1)"

section \<open>What a table lists\<close>

text \<open>The node listed under a domain, a command and an id.\<close>

definition listed :: "NSDomainSet \<Rightarrow> bytes \<Rightarrow> u32 \<Rightarrow> u64 \<Rightarrow> NSNode option" where
  "listed ds dm c i =
     (case map_get dm ds of
        None \<Rightarrow> None
      | Some d \<Rightarrow> (case Domain_get c d of None \<Rightarrow> None | Some s \<Rightarrow> NodeSet_get i s))"

definition listed_in :: "NSDomain \<Rightarrow> u32 \<Rightarrow> u64 \<Rightarrow> NSNode option" where
  "listed_in d c i = (case Domain_get c d of None \<Rightarrow> None | Some s \<Rightarrow> NodeSet_get i s)"

text \<open>Every entry is filed under its own name, and the maps are sorted.\<close>

definition nodeset_ok :: "u32 \<Rightarrow> NSNodeSet \<Rightarrow> bool" where
  "nodeset_ok c s \<longleftrightarrow> ns_cmd s = c \<and> sorted_map (ns_datas s) \<and>
     (\<forall>i n. NodeSet_get i s = Some n \<longrightarrow> node_id n = i)"

definition domain_ok :: "bytes \<Rightarrow> NSDomain \<Rightarrow> bool" where
  "domain_ok dm d \<longleftrightarrow> dom_name d = dm \<and> sorted_map (dom_datas d) \<and>
     (\<forall>c s. Domain_get c d = Some s \<longrightarrow> nodeset_ok c s)"

definition domains_ok :: "NSDomainSet \<Rightarrow> bool" where
  "domains_ok ds \<longleftrightarrow> sorted_map ds \<and> (\<forall>dm d. map_get dm ds = Some d \<longrightarrow> domain_ok dm d)"

lemmas ns_ops = NodeSet_add_def NodeSet_del_def NodeSet_get_def new_NSNodeSet_def new_NSDomain_def
  Domain_add_set_def Domain_get_def Domain_add_def Domain_del_cmd_def Domain_del_def

lemma listed_empty [simp]: "listed [] dm c i = None"
  by (simp add: listed_def)

lemma domains_ok_empty [simp]: "domains_ok []"
  by (simp add: domains_ok_def)

lemma listed_in_new [simp]: "listed_in (new_NSDomain dm) c i = None"
  by (simp add: listed_in_def ns_ops)

lemma domain_ok_new [simp, inv_intros]: "domain_ok dm (new_NSDomain dm)"
  by (simp add: domain_ok_def ns_ops)

lemma listed_at: "listed ds dm c i = (case map_get dm ds of None \<Rightarrow> None | Some d \<Rightarrow> listed_in d c i)"
  by (simp add: listed_def listed_in_def split: option.split)

lemma listed_in_add [simp]:
  "listed_in (Domain_add cmd n d) c i =
     (if c = cmd \<and> i = node_id n then Some n else listed_in d c i)"
  by (auto simp: listed_in_def ns_ops Let_def split: option.splits)

lemma domain_ok_add [inv_intros]: "domain_ok dm d \<Longrightarrow> domain_ok dm (Domain_add cmd n d)"
  by (auto simp: domain_ok_def nodeset_ok_def ns_ops Let_def split: option.splits if_splits)

lemma listed_in_del [simp]:
  "listed_in (snd (Domain_del cmd j d)) c i =
     (if c = cmd \<and> i = j then None else listed_in d c i)"
  by (auto simp: listed_in_def ns_ops Let_def NodeSet_size_def split: option.splits prod.splits
      dest: erase_empty)

lemma domain_ok_del [inv_intros]: "domain_ok dm d \<Longrightarrow> domain_ok dm (snd (Domain_del cmd j d))"
  by (auto simp: domain_ok_def nodeset_ok_def ns_ops Let_def NodeSet_size_def
      split: option.splits prod.splits if_splits)

lemma listed_at_domain:
  "listed (at_domain dm f ds) dm' c i =
     (if dm' = dm then (case map_get dm ds of None \<Rightarrow> None | Some d \<Rightarrow> listed_in (f d) c i)
      else listed ds dm' c i)"
  by (auto simp: listed_at at_domain_def split: option.splits)

lemma domains_ok_at [inv_intros]:
  "domains_ok ds \<Longrightarrow> (\<And>d. domain_ok dm d \<Longrightarrow> domain_ok dm (f d)) \<Longrightarrow> domains_ok (at_domain dm f ds)"
  by (auto simp: domains_ok_def at_domain_def split: option.splits)

lemma domains_ok_get: "domains_ok ds \<Longrightarrow> map_get dm ds = Some d \<Longrightarrow> domain_ok dm d"
  by (simp add: domains_ok_def)

lemma listed_id: "domains_ok ds \<Longrightarrow> listed ds dm c i = Some n \<Longrightarrow> node_id n = i"
  by (auto simp: listed_def domains_ok_def domain_ok_def nodeset_ok_def split: option.splits)

end
