(* ===== verification/NameServer.thy ===== *)
theory NameServer
  imports NsProtocol Protocol
begin

text \<open>
  The name server, \<open>src/ns/NameServerModule.cpp\<close>. A stream is known by its address, a number;
  whether it is connected is an argument of the operations that ask. The protobuf classes are
  generated from \<open>ns_protobuf.proto\<close>: their messages are the records below, a field that is not
  set is \<open>None\<close>, and the parsers and serializers are parameters. The set of domain pointers in
  \<open>handleQuery\<close> is ordered by address: the parameter \<open>by_address\<close> orders the names.
\<close>

section \<open>Messages\<close>

record PNode =
  pn_ip :: "bytes option"
  pn_port :: "u32 option"
  pn_weight :: "u32 option"

record RegisterInfo =
  ri_domain :: "bytes option"
  ri_cmds :: "u32 list"
  ri_node :: "PNode option"

record NodeInfo =
  ni_domain :: "bytes option"
  ni_cmd :: "u32 option"
  ni_nodes :: "PNode list"

record NotifyMessage =
  nm_dels :: "NodeInfo list"
  nm_updates :: "NodeInfo list"

text \<open>Reading a field that is not set gives its default.\<close>

definition get_text :: "bytes option \<Rightarrow> bytes" where
  "get_text f = (case f of None \<Rightarrow> [] | Some t \<Rightarrow> t)"

definition get_number :: "u32 option \<Rightarrow> u32" where
  "get_number f = (case f of None \<Rightarrow> 0 | Some n \<Rightarrow> n)"

definition cmd_REGISTER :: u32 where "cmd_REGISTER = 0x10001"
definition cmd_QUERY :: u32 where "cmd_QUERY = 0x10002"
definition cmd_TICK :: u32 where "cmd_TICK = 0x10005"
definition notify_NODE_CHANGE :: u32 where "notify_NODE_CHANGE = 0x10001"

section \<open>State\<close>

type_synonym cmd_map = "(bytes, u32 list) std_map"

record NSClientInfo =
  ci_node :: NSNode
  ci_domain2cmds :: cmd_map

record name_server =
  srv_domains :: NSDomainSet
  srv_sessions :: "(nat, NSClientInfo) std_map"
  srv_queryDomains :: "(nat, bytes list) std_map"
  srv_domainToSessions :: "(bytes, nat list) std_map"
  srv_request_count :: u64
  srv_on_connect :: u64
  srv_on_disconnect :: u64

definition new_name_server :: name_server where
  "new_name_server =
     \<lparr>srv_domains = [], srv_sessions = [], srv_queryDomains = [], srv_domainToSessions = [],
      srv_request_count = 0, srv_on_connect = 0, srv_on_disconnect = 0\<rparr>"

section \<open>Changing what a session has registered\<close>

definition diff_old :: "cmd_map \<Rightarrow> bytes \<times> u32 list \<Rightarrow> cmd_map \<times> cmd_map \<Rightarrow> cmd_map \<times> cmd_map" where
  "diff_old new_value i r =
     (case map_get (fst i) new_value of
        None \<Rightarrow> (map_insert (fst i) (snd i) (fst r), snd r)
      | Some cs \<Rightarrow>
          fold (\<lambda>n r. if n \<notin> set cs then (multi_insert (fst i) n (fst r), snd r)
                      else (fst r, multi_insert (fst i) n (snd r))) (snd i) r)"

definition diff_new :: "cmd_map \<Rightarrow> bytes \<times> u32 list \<Rightarrow> cmd_map \<Rightarrow> cmd_map" where
  "diff_new old_value i news =
     (case map_get (fst i) old_value of
        None \<Rightarrow> map_insert (fst i) (snd i) news
      | Some cs \<Rightarrow> fold (\<lambda>n news. if n \<notin> set cs then multi_insert (fst i) n news else news) (snd i) news)"

text \<open>\<open>(dels, news, comms)\<close>\<close>

definition ns_diff :: "cmd_map \<Rightarrow> cmd_map \<Rightarrow> cmd_map \<times> cmd_map \<times> cmd_map" where
  "ns_diff old_value new_value =
     (let (dels, comms) = fold (diff_old new_value) old_value ([], [])
      in (dels, fold (diff_new old_value) new_value [], comms))"

definition del_cmds :: "NSClientInfo option \<Rightarrow> bytes \<times> u32 list \<Rightarrow> NSDomainSet \<Rightarrow> NSDomainSet res" where
  "del_cmds old_info i ds =
     (case fst (DomainSet_get (fst i) False ds) of
        None \<Rightarrow> Inr ds
      | Some _ \<Rightarrow>
          for_each (\<lambda>c ds. case old_info of
                             None \<Rightarrow> Inl NullDeref
                           | Some old \<Rightarrow> Inr (at_domain (fst i) (\<lambda>d. snd (Domain_del c (node_id (ci_node old)) d)) ds))
            (snd i) ds)"

definition add_cmds :: "NSClientInfo option \<Rightarrow> bytes \<times> u32 list \<Rightarrow> NSDomainSet \<Rightarrow> NSDomainSet res" where
  "add_cmds info i ds =
     for_each (\<lambda>c ds. case info of
                        None \<Rightarrow> Inl NullDeref
                      | Some new \<Rightarrow> Inr (at_domain (fst i) (Domain_add c (ci_node new)) ds))
       (snd i)
       (case fst (DomainSet_get (fst i) False ds) of
          None \<Rightarrow> DomainSet_add (new_NSDomain (fst i)) ds
        | Some _ \<Rightarrow> ds)"

definition srv_get :: "nat \<Rightarrow> name_server \<Rightarrow> NSClientInfo option" where
  "srv_get rs srv = map_get rs (srv_sessions srv)"

definition domain2cmds_of :: "NSClientInfo option \<Rightarrow> cmd_map" where
  "domain2cmds_of info = (case info of None \<Rightarrow> [] | Some i \<Rightarrow> ci_domain2cmds i)"

definition update_comms ::
  "NSClientInfo option \<Rightarrow> NSClientInfo option \<Rightarrow> cmd_map \<Rightarrow> NSDomainSet \<Rightarrow> NSDomainSet res" where
  "update_comms old_info info comms ds =
     (if comms = [] then Inr ds
      else case (old_info, info) of
             (Some old, Some new) \<Rightarrow>
               if node_weight (ci_node old) \<noteq> node_weight (ci_node new)
               then for_each (add_cmds info) comms ds else Inr ds
           | _ \<Rightarrow> Inl NullDeref)"

definition srv_set :: "bool \<Rightarrow> nat \<Rightarrow> NSClientInfo option \<Rightarrow> name_server \<Rightarrow> name_server res" where
  "srv_set connected rs info srv =
     (let info = (if connected then info else None);
          old_info = srv_get rs srv;
          (dels, news, comms) = ns_diff (domain2cmds_of old_info) (domain2cmds_of info)
      in bindE (for_each (del_cmds old_info) dels (srv_domains srv)) (\<lambda>ds.
         bindE (for_each (add_cmds info) news ds) (\<lambda>ds.
         bindE (update_comms old_info info comms ds) (\<lambda>ds.
           Inr (srv\<lparr>srv_domains := ds,
                    srv_sessions := (case info of
                                       Some i \<Rightarrow> map_put rs i (srv_sessions srv)
                                     | None \<Rightarrow> map_erase rs (srv_sessions srv))\<rparr>)))))"

section \<open>Handlers\<close>

text \<open>One entry of a register request; \<open>None\<close> refuses the whole request.\<close>

definition register_info ::
  "(bytes \<Rightarrow> u32) \<Rightarrow> NSClientInfo option \<Rightarrow> RegisterInfo \<Rightarrow> NSClientInfo option \<Rightarrow> NSClientInfo option option" where
  "register_info inet_addr old_value info new_value =
     (case (ri_node info, ri_domain info) of
        (Some node, Some domain) \<Rightarrow>
          if ri_cmds info = [] then None
          else (case (pn_ip node, pn_port node, pn_weight node) of
                  (Some ip, Some port, Some weight) \<Rightarrow>
                    let n = new_NSNode inet_addr ip (ucast port) weight;
                        put = (\<lambda>v. Some (Some (v\<lparr>ci_domain2cmds :=
                                 fold (multi_insert domain) (ri_cmds info) (ci_domain2cmds v)\<rparr>)))
                    in if drop_bit 32 (node_id n) = 0 then None
                       else if (case old_value of None \<Rightarrow> False | Some old \<Rightarrow> node_id (ci_node old) \<noteq> node_id n)
                         then None
                       else (case new_value of
                               Some v \<Rightarrow> if node_id (ci_node v) \<noteq> node_id n then None else put v
                             | None \<Rightarrow> put \<lparr>ci_node = n, ci_domain2cmds = []\<rparr>)
                | _ \<Rightarrow> None)
      | _ \<Rightarrow> None)"

fun register_loop ::
  "(bytes \<Rightarrow> u32) \<Rightarrow> NSClientInfo option \<Rightarrow> RegisterInfo list \<Rightarrow> NSClientInfo option \<Rightarrow> NSClientInfo option option" where
  "register_loop inet_addr old_value [] new_value = Some new_value"
| "register_loop inet_addr old_value (i # is) new_value =
     (case register_info inet_addr old_value i new_value of
        None \<Rightarrow> None
      | Some new_value \<Rightarrow> register_loop inet_addr old_value is new_value)"

definition handleRegister ::
  "(bytes \<Rightarrow> u32) \<Rightarrow> (bytes \<Rightarrow> RegisterInfo list option) \<Rightarrow> bool \<Rightarrow> rock_request \<Rightarrow> rock_response \<Rightarrow> nat \<Rightarrow>
   name_server \<Rightarrow> (bool \<times> rock_response \<times> name_server) res" where
  "handleRegister inet_addr parse connected rq rsp stream srv =
     (case parse (rreq_body rq) of
        None \<Rightarrow> Inr (False, rsp, srv)
      | Some rr \<Rightarrow>
          (case register_loop inet_addr (srv_get stream srv) rr None of
             None \<Rightarrow> Inr (False, rsp, srv)
           | Some new_value \<Rightarrow>
               bindE (srv_set connected stream new_value srv) (\<lambda>srv.
                 Inr (True, rsp\<lparr>rsp_result := 0, rsp_resStr := str ''ok''\<rparr>, srv))))"

definition node_message :: "NSNode \<Rightarrow> PNode" where
  "node_message x =
     \<lparr>pn_ip = Some (node_ip x), pn_port = Some (ucast (node_port x)), pn_weight = Some (node_weight x)\<rparr>"

definition domain_infos :: "NSDomain \<Rightarrow> NodeInfo list" where
  "domain_infos d =
     map (\<lambda>n. \<lparr>ni_domain = Some (dom_name d), ni_cmd = Some (ns_cmd n),
               ni_nodes = map node_message (NodeSet_listAll n [])\<rparr>)
       (Domain_listAll d [])"

definition handleQuery ::
  "(bytes list \<Rightarrow> bytes list) \<Rightarrow> (bytes \<Rightarrow> bytes list option) \<Rightarrow> (NodeInfo list \<Rightarrow> bytes) \<Rightarrow>
   rock_request \<Rightarrow> rock_response \<Rightarrow> name_server \<Rightarrow> bool \<times> rock_response" where
  "handleQuery by_address parse serialize rq rsp srv =
     (case parse (rreq_body rq) of
        None \<Rightarrow> (False, rsp)
      | Some q \<Rightarrow>
          let domains = by_address (remdups (filter (\<lambda>i. fst (DomainSet_get i False (srv_domains srv)) \<noteq> None) q));
              infos = concat (map (\<lambda>i. case fst (DomainSet_get i False (srv_domains srv)) of
                                         None \<Rightarrow> [] | Some d \<Rightarrow> domain_infos d) domains)
          in (True, rsp\<lparr>rsp_result := 0, rsp_resStr := str ''ok'', rrsp_body := serialize infos\<rparr>))"

definition handleTick :: "rock_response \<Rightarrow> bool \<times> rock_response" where
  "handleTick rsp = (True, rsp)"

definition srv_handleRockRequest ::
  "(bytes \<Rightarrow> u32) \<Rightarrow> (bytes \<Rightarrow> RegisterInfo list option) \<Rightarrow> (bytes list \<Rightarrow> bytes list) \<Rightarrow>
   (bytes \<Rightarrow> bytes list option) \<Rightarrow> (NodeInfo list \<Rightarrow> bytes) \<Rightarrow> bool \<Rightarrow> rock_request \<Rightarrow> rock_response \<Rightarrow> nat \<Rightarrow>
   name_server \<Rightarrow> (bool \<times> rock_response \<times> name_server) res" where
  "srv_handleRockRequest inet_addr parse_reg by_address parse_query serialize connected rq rsp stream srv0 =
     (let srv = srv0\<lparr>srv_request_count := srv_request_count srv0 + 1\<rparr> in
      if req_cmd rq = cmd_REGISTER then handleRegister inet_addr parse_reg connected rq rsp stream srv
      else if req_cmd rq = cmd_QUERY then
        (let (ok, rsp) = handleQuery by_address parse_query serialize rq rsp srv in Inr (ok, rsp, srv))
      else if req_cmd rq = cmd_TICK then
        (let (ok, rsp) = handleTick rsp in Inr (ok, rsp, srv))
      else Inr (True, rsp, srv))"

definition srv_handleRockNotify :: "name_server \<Rightarrow> bool \<times> name_server" where
  "srv_handleRockNotify srv = (True, srv)"

text \<open>\<open>is_rock\<close>: the stream is a \<open>RockStream\<close>.\<close>

definition srv_onConnect :: "bool \<Rightarrow> name_server \<Rightarrow> bool \<times> name_server" where
  "srv_onConnect is_rock srv = (is_rock, srv\<lparr>srv_on_connect := srv_on_connect srv + 1\<rparr>)"

definition srv_onDisconnect :: "bool \<Rightarrow> bool \<Rightarrow> nat \<Rightarrow> name_server \<Rightarrow> (bool \<times> name_server) res" where
  "srv_onDisconnect is_rock connected stream srv0 =
     (let srv = srv0\<lparr>srv_on_disconnect := srv_on_disconnect srv0 + 1\<rparr> in
      if \<not> is_rock then Inr (False, srv)
      else bindE (srv_set connected stream None srv) (\<lambda>srv. Inr (True, srv)))"

definition getStreams :: "bytes \<Rightarrow> name_server \<Rightarrow> nat list" where
  "getStreams domain srv =
     (case map_get domain (srv_domainToSessions srv) of None \<Rightarrow> [] | Some ss \<Rightarrow> ss)"

text \<open>The messages \<open>doNotify\<close> sends, with their streams.\<close>

definition doNotify :: "(NotifyMessage \<Rightarrow> bytes) \<Rightarrow> bytes list \<Rightarrow> NotifyMessage \<Rightarrow> name_server \<Rightarrow> (nat \<times> rock_notify) list" where
  "doNotify serialize domains nty srv =
     (let ntf = new_rock_notify\<lparr>ntf_notify := notify_NODE_CHANGE, rntf_body := serialize nty\<rparr>
      in concat (map (\<lambda>i. map (\<lambda>n. (n, ntf)) (getStreams i srv)) domains))"

definition srv_setQueryDomain :: "nat \<Rightarrow> bytes list \<Rightarrow> name_server \<Rightarrow> name_server" where
  "srv_setQueryDomain rs ds srv = srv"

end
