(* ===== verification/NameServerProps.thy ===== *)
theory NameServerProps
  imports NameServer
begin

text \<open>
  What the name server's registry promises: \<open>set\<close> never follows a null pointer, its effect on
  what is listed, the agreement of the tables with the sessions while every node has one
  session, and what happens when two sessions register the same node.
\<close>

section \<open>The difference of two registrations\<close>

definition cmds_ok :: "cmd_map \<Rightarrow> bool" where
  "cmds_ok m \<longleftrightarrow> sorted_map m \<and> sorted_multi m"

definition entry_of :: "bytes \<Rightarrow> u32 \<Rightarrow> cmd_map \<Rightarrow> bool" where
  "entry_of dm c m \<longleftrightarrow> (\<exists>cs. (dm, cs) \<in> set m \<and> c \<in> set cs)"

lemma cmds_ok_Nil [simp]: "cmds_ok []"
  by (simp add: cmds_ok_def)

lemma cmds_ok_insert [simp]: "cmds_ok m \<Longrightarrow> cmds_ok (multi_insert k x m)"
  by (simp add: cmds_ok_def)

lemma mem_insert [simp]: "cmds_ok m \<Longrightarrow> multi_mem k' y (multi_insert k x m) \<longleftrightarrow> k' = k \<and> y = x \<or> multi_mem k' y m"
  by (simp add: cmds_ok_def)

lemma get_multi_insert [simp]: "k' \<noteq> k \<Longrightarrow> map_get k' (multi_insert k x m) = map_get k' m"
  by (simp add: multi_insert_def)

lemma entry_of_Nil [simp]: "\<not> entry_of dm c []"
  by (simp add: entry_of_def)

lemma entry_of_Cons [simp]: "entry_of dm c (i # m) \<longleftrightarrow> dm = fst i \<and> c \<in> set (snd i) \<or> entry_of dm c m"
  by (cases i) (auto simp: entry_of_def)

lemma entry_of_mem: "cmds_ok m \<Longrightarrow> entry_of dm c m \<longleftrightarrow> multi_mem dm c m"
  by (auto simp: entry_of_def multi_mem_def cmds_ok_def in_sorted_map split: option.splits)

lemma cmds_ok_map_insert:
  "cmds_ok m \<Longrightarrow> sorted_wrt (<) cs \<Longrightarrow> cmds_ok (map_insert k cs m)"
  by (auto simp: cmds_ok_def sorted_multi_def split: if_splits)

lemma mem_map_insert:
  "map_get k m = None \<Longrightarrow> multi_mem dm c (map_insert k cs m) \<longleftrightarrow> dm = k \<and> c \<in> set cs \<or> multi_mem dm c m"
  by (auto simp: multi_mem_def split: option.splits)

text \<open>The steps keep \<open>ok\<close> and add to the two results; keys other than the step's stay.\<close>

lemma diff_cmds:
  fixes r :: "cmd_map \<times> cmd_map"
  defines "step \<equiv> \<lambda>k S n r. if n \<notin> S then (multi_insert k n (fst r), snd r) else (fst r, multi_insert k n (snd r))"
  assumes "cmds_ok (fst r)" "cmds_ok (snd r)"
  shows "cmds_ok (fst (fold (step k S) ns r)) \<and> cmds_ok (snd (fold (step k S) ns r)) \<and>
    (\<forall>dm c. multi_mem dm c (fst (fold (step k S) ns r)) \<longleftrightarrow>
        multi_mem dm c (fst r) \<or> dm = k \<and> c \<in> set ns \<and> c \<notin> S) \<and>
    (\<forall>dm c. multi_mem dm c (snd (fold (step k S) ns r)) \<longleftrightarrow>
        multi_mem dm c (snd r) \<or> dm = k \<and> c \<in> set ns \<and> c \<in> S) \<and>
    (\<forall>dm. dm \<noteq> k \<longrightarrow> map_get dm (fst (fold (step k S) ns r)) = map_get dm (fst r))"
  using assms(2,3)
proof (induction ns arbitrary: r)
  case (Cons n ns)
  have "cmds_ok (fst (step k S n r))" "cmds_ok (snd (step k S n r))"
    using Cons.prems by (auto simp: step_def)
  from Cons.IH [OF this] show ?case
    using Cons.prems by (auto simp: step_def)
qed simp

lemma diff_old_fold:
  assumes "cmds_ok (fst r)" "cmds_ok (snd r)"
    and "distinct (map fst xs)" "\<forall>i \<in> set xs. map_get (fst i) (fst r) = None \<and> sorted_wrt (<) (snd i)"
  shows "cmds_ok (fst (fold (diff_old new) xs r)) \<and> cmds_ok (snd (fold (diff_old new) xs r)) \<and>
    (\<forall>dm c. multi_mem dm c (fst (fold (diff_old new) xs r)) \<longleftrightarrow>
        multi_mem dm c (fst r) \<or> entry_of dm c xs \<and> \<not> multi_mem dm c new) \<and>
    (\<forall>dm c. multi_mem dm c (snd (fold (diff_old new) xs r)) \<longleftrightarrow>
        multi_mem dm c (snd r) \<or> entry_of dm c xs \<and> multi_mem dm c new)"
  using assms
proof (induction xs arbitrary: r)
  case (Cons i xs)
  let ?r = "diff_old new i r"
  have step: "cmds_ok (fst ?r) \<and> cmds_ok (snd ?r) \<and>
    (\<forall>dm c. multi_mem dm c (fst ?r) \<longleftrightarrow> multi_mem dm c (fst r) \<or> dm = fst i \<and> c \<in> set (snd i) \<and> \<not> multi_mem dm c new) \<and>
    (\<forall>dm c. multi_mem dm c (snd ?r) \<longleftrightarrow> multi_mem dm c (snd r) \<or> dm = fst i \<and> c \<in> set (snd i) \<and> multi_mem dm c new) \<and>
    (\<forall>dm. dm \<noteq> fst i \<longrightarrow> map_get dm (fst ?r) = map_get dm (fst r))"
  proof (cases "map_get (fst i) new")
    case None
    then have "\<not> multi_mem (fst i) c new" for c by (simp add: multi_mem_def)
    with None Cons.prems show ?thesis
      by (auto simp: diff_old_def cmds_ok_map_insert mem_map_insert)
  next
    case (Some cs)
    then have "multi_mem (fst i) c new \<longleftrightarrow> c \<in> set cs" for c by (simp add: multi_mem_def)
    then show ?thesis
      using diff_cmds [where r = r and k = "fst i" and S = "set cs" and ns = "snd i"] Cons.prems Some
      by (auto simp: diff_old_def)
  qed
  have "\<forall>j \<in> set xs. map_get (fst j) (fst ?r) = None \<and> sorted_wrt (<) (snd j)"
  proof
    fix j assume "j \<in> set xs"
    then have "fst j \<in> fst ` set xs" by simp
    moreover have "fst i \<notin> fst ` set xs" using Cons.prems(3) by simp
    ultimately have "fst j \<noteq> fst i" by metis
    then show "map_get (fst j) (fst ?r) = None \<and> sorted_wrt (<) (snd j)"
      using step Cons.prems(4) \<open>j \<in> set xs\<close> by auto
  qed
  then have "cmds_ok (fst (fold (diff_old new) xs ?r)) \<and> cmds_ok (snd (fold (diff_old new) xs ?r)) \<and>
    (\<forall>dm c. multi_mem dm c (fst (fold (diff_old new) xs ?r)) \<longleftrightarrow>
        multi_mem dm c (fst ?r) \<or> entry_of dm c xs \<and> \<not> multi_mem dm c new) \<and>
    (\<forall>dm c. multi_mem dm c (snd (fold (diff_old new) xs ?r)) \<longleftrightarrow>
        multi_mem dm c (snd ?r) \<or> entry_of dm c xs \<and> multi_mem dm c new)"
    using step Cons.prems(3) by (intro Cons.IH) auto
  then show ?case using step by (auto simp del: split_paired_All)
qed simp

text \<open>\<open>diff_new\<close> is the first half of \<open>diff_old\<close> with the roles exchanged.\<close>

lemma diff_new_old: "diff_new old i (fst r) = fst (diff_old old i r)"
proof -
  have "fold (\<lambda>n news. if n \<notin> S then multi_insert k n news else news) ns (fst r) =
      fst (fold (\<lambda>n r. if n \<notin> S then (multi_insert k n (fst r), snd r) else (fst r, multi_insert k n (snd r))) ns r)"
    for S k and r :: "cmd_map \<times> cmd_map" and ns
    by (induction ns arbitrary: r) auto
  then show ?thesis by (simp add: diff_new_def diff_old_def split: option.split)
qed

lemma diff_new_fold: "fold (diff_new old) xs (fst r) = fst (fold (diff_old old) xs r)"
  by (induction xs arbitrary: r) (simp_all add: diff_new_old)

lemma cmds_ok_entries: "cmds_ok m \<Longrightarrow> distinct (map fst m) \<and> (\<forall>i \<in> set m. sorted_wrt (<) (snd i))"
  by (auto simp: cmds_ok_def sorted_multi_def in_sorted_map [symmetric] sorted_map_distinct)

lemma ns_diff_spec:
  assumes "cmds_ok old" "cmds_ok new" "ns_diff old new = (dels, news, comms)"
  shows "cmds_ok dels" "cmds_ok news" "cmds_ok comms"
    and "multi_mem dm c dels \<longleftrightarrow> multi_mem dm c old \<and> \<not> multi_mem dm c new"
    and "multi_mem dm c news \<longleftrightarrow> multi_mem dm c new \<and> \<not> multi_mem dm c old"
    and "multi_mem dm c comms \<longleftrightarrow> multi_mem dm c old \<and> multi_mem dm c new"
  using diff_old_fold [of "([], [])" old new] diff_old_fold [of "([], [])" new old] assms
    diff_new_fold [of old new "([], [])"] cmds_ok_entries [of old] cmds_ok_entries [of new]
    entry_of_mem [of old] entry_of_mem [of new]
  by (auto simp: ns_diff_def split_beta)

section \<open>The loops of \<open>set\<close> over the domains\<close>

lemma listed_del_step:
  "listed (at_domain k (\<lambda>d. snd (Domain_del c' j d)) ds) dm c i =
     (if dm = k \<and> c = c' \<and> i = j then None else listed ds dm c i)"
  by (simp only: listed_at_domain) (auto simp: listed_at split: option.splits)

lemma del_cmds_inner:
  "\<exists>ds'. for_each (\<lambda>c ds. Inr (at_domain k (\<lambda>d. snd (Domain_del c j d)) ds)) cs ds = Inr ds' \<and>
     (domains_ok ds \<longrightarrow> domains_ok ds') \<and>
     (\<forall>dm c i. listed ds' dm c i = (if dm = k \<and> c \<in> set cs \<and> i = j then None else listed ds dm c i))"
proof (induction cs arbitrary: ds)
  case (Cons c cs)
  have "domains_ok ds \<Longrightarrow> domains_ok (at_domain k (\<lambda>d. snd (Domain_del c j d)) ds)"
    by (intro inv_intros)
  with Cons [of "at_domain k (\<lambda>d. snd (Domain_del c j d)) ds"] show ?case
    by (auto simp: listed_del_step)
qed simp

lemma del_cmds_loop:
  "\<exists>ds'. for_each (del_cmds (Some old)) xs ds = Inr ds' \<and> (domains_ok ds \<longrightarrow> domains_ok ds') \<and>
     (\<forall>dm c i. listed ds' dm c i =
        (if entry_of dm c xs \<and> i = node_id (ci_node old) then None else listed ds dm c i))"
proof (induction xs arbitrary: ds)
  case (Cons x xs)
  have "\<exists>ds'. del_cmds (Some old) x ds = Inr ds' \<and> (domains_ok ds \<longrightarrow> domains_ok ds') \<and>
     (\<forall>dm c i. listed ds' dm c i =
        (if dm = fst x \<and> c \<in> set (snd x) \<and> i = node_id (ci_node old) then None else listed ds dm c i))"
  proof (cases "map_get (fst x) ds")
    case None
    then show ?thesis by (auto simp: del_cmds_def DomainSet_get_def listed_at)
  next
    case (Some d)
    then show ?thesis
      using del_cmds_inner [of "fst x" "node_id (ci_node old)" "snd x" ds]
      by (simp add: del_cmds_def DomainSet_get_def)
  qed
  then obtain ds1 where ds1: "del_cmds (Some old) x ds = Inr ds1" "domains_ok ds \<longrightarrow> domains_ok ds1"
    "\<forall>dm c i. listed ds1 dm c i =
        (if dm = fst x \<and> c \<in> set (snd x) \<and> i = node_id (ci_node old) then None else listed ds dm c i)"
    by blast
  from Cons [of ds1] ds1 show ?case by (auto simp: ds1(3))
qed simp

lemma present_at: "map_get k ds \<noteq> None \<Longrightarrow> map_get k (at_domain k' f ds) \<noteq> None"
  by (auto simp: at_domain_def split: option.splits)

lemma listed_add_step:
  "map_get k ds \<noteq> None \<Longrightarrow>
   listed (at_domain k (Domain_add c' n) ds) dm c i =
     (if dm = k \<and> c = c' \<and> i = node_id n then Some n else listed ds dm c i)"
  by (simp only: listed_at_domain) (auto simp: listed_at split: option.splits)

lemma add_cmds_inner:
  "map_get k ds \<noteq> None \<Longrightarrow>
   \<exists>ds'. for_each (\<lambda>c ds. Inr (at_domain k (Domain_add c n) ds)) cs ds = Inr ds' \<and>
     (domains_ok ds \<longrightarrow> domains_ok ds') \<and>
     (\<forall>dm c i. listed ds' dm c i =
        (if dm = k \<and> c \<in> set cs \<and> i = node_id n then Some n else listed ds dm c i))"
proof (induction cs arbitrary: ds)
  case (Cons c cs)
  have "domains_ok ds \<Longrightarrow> domains_ok (at_domain k (Domain_add c n) ds)"
    by (intro inv_intros)
  with Cons.IH [of "at_domain k (Domain_add c n) ds"] Cons.prems present_at [OF Cons.prems, of k "Domain_add c n"]
  show ?case
    by (auto simp: listed_add_step)
qed simp

lemma add_cmds_loop:
  "\<exists>ds'. for_each (add_cmds (Some new)) xs ds = Inr ds' \<and> (domains_ok ds \<longrightarrow> domains_ok ds') \<and>
     (\<forall>dm c i. listed ds' dm c i =
        (if entry_of dm c xs \<and> i = node_id (ci_node new) then Some (ci_node new) else listed ds dm c i))"
proof (induction xs arbitrary: ds)
  case (Cons x xs)
  define ds0 where "ds0 = (case map_get (fst x) ds of
     None \<Rightarrow> DomainSet_add (new_NSDomain (fst x)) ds | Some _ \<Rightarrow> ds)"
  have ds0: "map_get (fst x) ds0 \<noteq> None" "domains_ok ds \<longrightarrow> domains_ok ds0"
      "listed ds0 dm c i = listed ds dm c i" for dm c i
    by (auto simp: ds0_def DomainSet_add_def new_NSDomain_def listed_at listed_in_def Domain_get_def
        domains_ok_def domain_ok_def split: option.splits)
  have "add_cmds (Some new) x ds = for_each (\<lambda>c ds. Inr (at_domain (fst x) (Domain_add c (ci_node new)) ds)) (snd x) ds0"
    by (simp add: add_cmds_def ds0_def DomainSet_get_def)
  then obtain ds1 where ds1: "add_cmds (Some new) x ds = Inr ds1" "domains_ok ds \<longrightarrow> domains_ok ds1"
    "\<forall>dm c i. listed ds1 dm c i =
        (if dm = fst x \<and> c \<in> set (snd x) \<and> i = node_id (ci_node new) then Some (ci_node new) else listed ds dm c i)"
    using add_cmds_inner [OF ds0(1), of "ci_node new" "snd x"] ds0 by auto
  from Cons [of ds1] ds1 show ?case by (auto simp: ds1(3))
qed simp

section \<open>The effect of \<open>set\<close>\<close>

definition registers :: "NSClientInfo option \<Rightarrow> bytes \<Rightarrow> u32 \<Rightarrow> u64 \<Rightarrow> bool" where
  "registers info dm c i =
     (case info of None \<Rightarrow> False
      | Some x \<Rightarrow> multi_mem dm c (ci_domain2cmds x) \<and> i = node_id (ci_node x))"

definition node_of :: "NSClientInfo option \<Rightarrow> NSNode option" where
  "node_of info = map_option ci_node info"

definition info_ok :: "NSClientInfo \<Rightarrow> bool" where
  "info_ok x \<longleftrightarrow> cmds_ok (ci_domain2cmds x) \<and> drop_bit 32 (node_id (ci_node x)) \<noteq> 0"

definition same_node :: "NSClientInfo option \<Rightarrow> NSClientInfo option \<Rightarrow> bool" where
  "same_node a b \<longleftrightarrow>
     (case (a, b) of (Some x, Some y) \<Rightarrow> node_id (ci_node x) = node_id (ci_node y) | _ \<Rightarrow> True)"

lemma same_node_None [simp]: "same_node a None" "same_node None b"
  by (simp_all add: same_node_def split: option.split)

definition srv_ok :: "name_server \<Rightarrow> bool" where
  "srv_ok srv \<longleftrightarrow> domains_ok (srv_domains srv) \<and> sorted_map (srv_sessions srv) \<and>
     (\<forall>rs x. map_get rs (srv_sessions srv) = Some x \<longrightarrow> info_ok x)"

text \<open>What is listed after a session's registration \<open>old\<close> has become \<open>new\<close>.\<close>

definition relisted ::
  "NSClientInfo option \<Rightarrow> NSClientInfo option \<Rightarrow> bytes \<Rightarrow> u32 \<Rightarrow> u64 \<Rightarrow> NSNode option \<Rightarrow> NSNode option" where
  "relisted old new dm c i n =
     (if registers new dm c i then
        (if registers old dm c i \<and> map_option node_weight (node_of old) = map_option node_weight (node_of new)
         then n else node_of new)
      else if registers old dm c i then None else n)"

lemma ns_diff_empty:
  "ns_diff [] new = (dels, news, comms) \<Longrightarrow> dels = [] \<and> comms = []"
  "ns_diff old [] = (dels, news, comms) \<Longrightarrow> news = [] \<and> comms = []"
proof -
  have "snd (fold (diff_old []) xs r) = snd r" for xs r
    by (induction xs arbitrary: r) (auto simp: diff_old_def)
  from this [of old "([], [])"]
  show "ns_diff old [] = (dels, news, comms) \<Longrightarrow> news = [] \<and> comms = []"
    by (auto simp: ns_diff_def split_beta)
qed (auto simp: ns_diff_def)

lemma cmds_ok_of: "(\<And>x. info = Some x \<Longrightarrow> info_ok x) \<Longrightarrow> cmds_ok (domain2cmds_of info)"
  by (cases info) (auto simp: domain2cmds_of_def info_ok_def)

lemma update_comms_effect:
  assumes "comms \<noteq> [] \<Longrightarrow> old \<noteq> None \<and> new \<noteq> None"
  shows "\<exists>ds'. update_comms old new comms ds = Inr ds' \<and> (domains_ok ds \<longrightarrow> domains_ok ds') \<and>
    (\<forall>dm c i. listed ds' dm c i =
      (if entry_of dm c comms \<and> (\<exists>n. new = Some n \<and> i = node_id (ci_node n)) \<and>
          map_option node_weight (node_of old) \<noteq> map_option node_weight (node_of new)
       then node_of new else listed ds dm c i))"
proof (cases "comms = []")
  case False
  then obtain o' n where on: "old = Some o'" "new = Some n" using assms by auto
  from add_cmds_loop [of n comms ds] show ?thesis
    using False on by (auto simp: update_comms_def node_of_def)
qed (auto simp: update_comms_def)

lemma set_domains:
  fixes old new ds
  assumes ok: "\<And>x. old = Some x \<Longrightarrow> info_ok x" "\<And>x. new = Some x \<Longrightarrow> info_ok x"
    and same: "same_node old new"
    and d: "ns_diff (domain2cmds_of old) (domain2cmds_of new) = (dels, news, comms)"
  shows "\<exists>ds'. bindE (for_each (del_cmds old) dels ds) (\<lambda>ds. bindE (for_each (add_cmds new) news ds)
      (update_comms old new comms)) = Inr ds' \<and> (domains_ok ds \<longrightarrow> domains_ok ds') \<and>
    (\<forall>dm c i. listed ds' dm c i = relisted old new dm c i (listed ds dm c i))"
proof -
  note spec = ns_diff_spec [OF cmds_ok_of [OF ok(1)] cmds_ok_of [OF ok(2)] d]
  have dels: "old = None \<Longrightarrow> dels = [] \<and> comms = []"
    using ns_diff_empty(1) [of "domain2cmds_of new"] d by (simp add: domain2cmds_of_def)
  have news: "new = None \<Longrightarrow> news = [] \<and> comms = []"
    using ns_diff_empty(2) [of "domain2cmds_of old"] d by (simp add: domain2cmds_of_def)
  obtain ds1 where ds1: "for_each (del_cmds old) dels ds = Inr ds1" "domains_ok ds \<longrightarrow> domains_ok ds1"
    "\<forall>dm c i. listed ds1 dm c i =
       (if entry_of dm c dels \<and> (\<exists>x. old = Some x \<and> i = node_id (ci_node x)) then None else listed ds dm c i)"
    using del_cmds_loop [of _ dels ds] dels by (cases old) force+
  obtain ds2 where ds2: "for_each (add_cmds new) news ds1 = Inr ds2" "domains_ok ds1 \<longrightarrow> domains_ok ds2"
    "\<forall>dm c i. listed ds2 dm c i =
       (if entry_of dm c news \<and> (\<exists>x. new = Some x \<and> i = node_id (ci_node x)) then node_of new else listed ds1 dm c i)"
    using add_cmds_loop [of _ news ds1] news by (cases new) (force simp: node_of_def)+
  have "comms \<noteq> [] \<Longrightarrow> old \<noteq> None \<and> new \<noteq> None" using dels news by auto
  from update_comms_effect [where ds = ds2, OF this] obtain ds3 where
    ds3: "update_comms old new comms ds2 = Inr ds3" "domains_ok ds2 \<longrightarrow> domains_ok ds3"
    "\<forall>dm c i. listed ds3 dm c i =
      (if entry_of dm c comms \<and> (\<exists>n. new = Some n \<and> i = node_id (ci_node n)) \<and>
          map_option node_weight (node_of old) \<noteq> map_option node_weight (node_of new)
       then node_of new else listed ds2 dm c i)"
    by blast
  have e: "entry_of dm c dels \<longleftrightarrow> multi_mem dm c (domain2cmds_of old) \<and> \<not> multi_mem dm c (domain2cmds_of new)"
    "entry_of dm c news \<longleftrightarrow> multi_mem dm c (domain2cmds_of new) \<and> \<not> multi_mem dm c (domain2cmds_of old)"
    "entry_of dm c comms \<longleftrightarrow> multi_mem dm c (domain2cmds_of old) \<and> multi_mem dm c (domain2cmds_of new)" for dm c
    using spec entry_of_mem by simp_all
  have "listed ds3 dm c i = relisted old new dm c i (listed ds dm c i)" for dm c i
  proof (cases old; cases new)
    fix x y assume xy: "old = Some x" "new = Some y"
    with same have "node_id (ci_node x) = node_id (ci_node y)" by (simp add: same_node_def)
    then show ?thesis
      by (simp add: ds3(3) ds2(3) ds1(3) e xy relisted_def registers_def node_of_def domain2cmds_of_def)
  qed (simp_all add: ds3(3) ds2(3) ds1(3) e relisted_def registers_def node_of_def domain2cmds_of_def)
  then show ?thesis using ds1 ds2 ds3 by auto
qed

lemma set_effect:
  assumes ok: "srv_ok srv" and new: "\<And>x. info = Some x \<Longrightarrow> info_ok x"
    and same: "same_node (srv_get rs srv) info"
  shows "\<exists>srv'. srv_set connected rs info srv = Inr srv' \<and> srv_ok srv' \<and>
    (\<forall>rs'. srv_get rs' srv' = (if rs' = rs then (if connected then info else None) else srv_get rs' srv)) \<and>
    (\<forall>dm c i. listed (srv_domains srv') dm c i =
        relisted (srv_get rs srv) (if connected then info else None) dm c i (listed (srv_domains srv) dm c i))"
proof -
  let ?old = "srv_get rs srv" and ?new = "if connected then info else None"
  obtain dels news comms where d: "ns_diff (domain2cmds_of ?old) (domain2cmds_of ?new) = (dels, news, comms)"
    by (metis prod_cases3)
  have olds: "\<And>x. ?old = Some x \<Longrightarrow> info_ok x" using ok by (auto simp: srv_ok_def srv_get_def)
  have news: "\<And>x. ?new = Some x \<Longrightarrow> info_ok x" using new by (auto split: if_splits)
  have "same_node ?old ?new"
    using same by (auto simp: same_node_def split: option.split)
  from set_domains [OF olds news this d, of "srv_domains srv"]
  obtain ds' where ds': "bindE (for_each (del_cmds ?old) dels (srv_domains srv))
      (\<lambda>ds. bindE (for_each (add_cmds ?new) news ds) (update_comms ?old ?new comms)) = Inr ds'"
    "domains_ok (srv_domains srv) \<longrightarrow> domains_ok ds'"
    "\<forall>dm c i. listed ds' dm c i = relisted ?old ?new dm c i (listed (srv_domains srv) dm c i)"
    by blast
  define srv' where "srv' = srv\<lparr>srv_domains := ds',
     srv_sessions := (case ?new of Some i \<Rightarrow> map_put rs i (srv_sessions srv) | None \<Rightarrow> map_erase rs (srv_sessions srv))\<rparr>"
  have "srv_set connected rs info srv = bindE (bindE (for_each (del_cmds ?old) dels (srv_domains srv))
      (\<lambda>ds. bindE (for_each (add_cmds ?new) news ds) (update_comms ?old ?new comms)))
      (\<lambda>ds. Inr (srv\<lparr>srv_domains := ds,
         srv_sessions := (case ?new of Some i \<Rightarrow> map_put rs i (srv_sessions srv) | None \<Rightarrow> map_erase rs (srv_sessions srv))\<rparr>))"
    by (simp only: srv_set_def Let_def d case_prod_conv bindE_assoc)
  then have set: "srv_set connected rs info srv = Inr srv'"
    unfolding ds'(1) by (simp add: srv'_def)
  have get: "srv_get rs' srv' = (if rs' = rs then ?new else srv_get rs' srv)" for rs'
    by (simp add: srv'_def srv_get_def split: option.split)
  have "sorted_map (srv_sessions srv')" "domains_ok (srv_domains srv')"
    using ok ds'(2) by (auto simp: srv'_def srv_ok_def split: option.split)
  moreover have "info_ok x" if "srv_get rs' srv' = Some x" for rs' x
    using that [unfolded get] ok new by (auto simp: srv_ok_def srv_get_def split: if_splits)
  ultimately have "srv_ok srv'" by (auto simp: srv_ok_def srv_get_def)
  moreover have "srv_domains srv' = ds'" by (simp add: srv'_def)
  ultimately show ?thesis using set get ds'(3) by auto
qed

section \<open>Register requests\<close>

lemma cmds_ok_fold: "cmds_ok m \<Longrightarrow> cmds_ok (fold (multi_insert k) cs m)"
  by (induction cs arbitrary: m) auto

lemma register_info_ok:
  assumes "register_info inet old i new = Some r" "\<And>x. new = Some x \<Longrightarrow> info_ok x" "same_node new old"
  shows "\<exists>x. r = Some x \<and> info_ok x \<and> same_node r old"
proof -
  from assms(1) obtain node domain ip port weight where
    f: "ri_node i = Some node" "ri_domain i = Some domain" "ri_cmds i \<noteq> []"
      "pn_ip node = Some ip" "pn_port node = Some port" "pn_weight node = Some weight"
    by (auto simp: register_info_def split: option.split_asm if_split_asm)
  define n where "n = new_NSNode inet ip (ucast port) weight"
  note step = assms(1) [unfolded register_info_def f option.case prod.case Let_def n_def [symmetric], simplified f if_False]
  have n: "drop_bit 32 (node_id n) \<noteq> 0"
    using step by (auto split: if_split_asm)
  show ?thesis
  proof (cases new)
    case None
    then show ?thesis
      using step n by (cases old) (auto simp: info_ok_def cmds_ok_fold same_node_def split: if_split_asm)
  next
    case (Some x)
    then have "info_ok x" using assms(2) by blast
    with Some show ?thesis
      using step n assms(3) by (cases old) (auto simp: info_ok_def cmds_ok_fold same_node_def split: if_split_asm)
  qed
qed

lemma register_loop_ok:
  assumes "register_loop inet old is new = Some r" "\<And>x. new = Some x \<Longrightarrow> info_ok x" "same_node new old"
  shows "(\<forall>x. r = Some x \<longrightarrow> info_ok x) \<and> same_node r old"
  using assms
proof (induction "is" arbitrary: new)
  case (Cons i "is")
  then obtain r1 where r1: "register_info inet old i new = Some r1" "register_loop inet old is r1 = Some r"
    by (cases "register_info inet old i new") simp_all
  from register_info_ok [OF r1(1) Cons.prems(2,3)] obtain x where
    "r1 = Some x" "info_ok x" "same_node r1 old" by blast
  then show ?case using Cons.IH [OF r1(2)] by simp
qed auto

section \<open>The server's steps\<close>

text \<open>
  A run of the server: requests and disconnects, of any stream, with any message body. The
  parameters of the environment are fixed along the run; whether a stream is still connected
  when its request is handled is free.
\<close>

inductive ns_step ::
  "(bytes \<Rightarrow> u32) \<Rightarrow> (bytes \<Rightarrow> RegisterInfo list option) \<Rightarrow> (bytes list \<Rightarrow> bytes list) \<Rightarrow>
   (bytes \<Rightarrow> bytes list option) \<Rightarrow> (NodeInfo list \<Rightarrow> bytes) \<Rightarrow> name_server \<Rightarrow> name_server \<Rightarrow> bool"
  for inet parse by_address parse_query serialize where
  Request: "srv_handleRockRequest inet parse by_address parse_query serialize connected rq rsp stream srv =
      Inr (ok, rsp', srv') \<Longrightarrow> ns_step inet parse by_address parse_query serialize srv srv'"
| Connect: "srv_onConnect is_rock srv = (ok, srv') \<Longrightarrow> ns_step inet parse by_address parse_query serialize srv srv'"
| Disconnect: "srv_onDisconnect is_rock connected stream srv = Inr (ok, srv') \<Longrightarrow>
      ns_step inet parse by_address parse_query serialize srv srv'"

inductive_cases ns_stepE: "ns_step inet parse by_address parse_query serialize srv srv'"

text \<open>What one step does: it leaves sessions and tables alone, or it is a \<open>set\<close>.\<close>

definition same_registry :: "name_server \<Rightarrow> name_server \<Rightarrow> bool" where
  "same_registry a b \<longleftrightarrow> srv_sessions a = srv_sessions b \<and> srv_domains a = srv_domains b"

definition reset_session :: "nat \<Rightarrow> NSClientInfo option \<Rightarrow> name_server \<Rightarrow> name_server \<Rightarrow> bool" where
  "reset_session rs new srv srv' \<longleftrightarrow> srv_ok srv' \<and> same_node (srv_get rs srv) new \<and>
     (\<forall>rs'. srv_get rs' srv' = (if rs' = rs then new else srv_get rs' srv)) \<and>
     (\<forall>dm c i. listed (srv_domains srv') dm c i =
        relisted (srv_get rs srv) new dm c i (listed (srv_domains srv) dm c i))"

lemma same_registry_ok: "same_registry a b \<Longrightarrow> srv_ok a \<Longrightarrow> srv_ok b"
  by (auto simp: same_registry_def srv_ok_def)

lemma set_resets:
  assumes "srv_ok srv" "\<And>x. info = Some x \<Longrightarrow> info_ok x" "same_node (srv_get rs srv) info"
  shows "\<exists>srv' new. srv_set connected rs info srv = Inr srv' \<and> new = (if connected then info else None) \<and>
    reset_session rs new srv srv'"
  using set_effect [OF assms, of connected] assms(3)
  by (auto simp: reset_session_def same_node_def split: option.splits)

lemma reset_counter:
  "same_registry srv0 srv \<Longrightarrow> reset_session rs new srv srv' \<Longrightarrow> reset_session rs new srv0 srv'"
  by (simp add: same_registry_def reset_session_def srv_get_def)

lemma register_effect:
  assumes "srv_ok srv"
  shows "\<exists>ok rsp' srv'. handleRegister inet parse connected rq rsp stream srv = Inr (ok, rsp', srv') \<and>
     (if ok then \<exists>new. reset_session stream new srv srv' else srv' = srv \<and> rsp' = rsp)"
proof (cases "parse (rreq_body rq)")
  case (Some rr)
  show ?thesis
  proof (cases "register_loop inet (srv_get stream srv) rr None")
    case (Some new)
    have "(\<forall>x. new = Some x \<longrightarrow> info_ok x) \<and> same_node new (srv_get stream srv)"
      by (rule register_loop_ok [OF Some]) (auto simp: same_node_def)
    then have "\<And>x. new = Some x \<Longrightarrow> info_ok x" "same_node (srv_get stream srv) new"
      by (auto simp: same_node_def split: option.splits)
    from set_resets [OF assms this, of connected] obtain srv' where
      "srv_set connected stream new srv = Inr srv'" "reset_session stream (if connected then new else None) srv srv'"
      by blast
    with Some \<open>parse (rreq_body rq) = Some rr\<close> show ?thesis
      by (auto simp: handleRegister_def)
  qed (auto simp: handleRegister_def Some)
qed (auto simp: handleRegister_def)

lemma disconnect_effect:
  assumes "srv_ok srv"
  shows "\<exists>ok srv'. srv_onDisconnect is_rock connected stream srv = Inr (ok, srv') \<and>
     (if is_rock then reset_session stream None srv srv' else same_registry srv srv')"
proof (cases is_rock)
  case True
  let ?srv = "srv\<lparr>srv_on_disconnect := srv_on_disconnect srv + 1\<rparr>"
  have "same_registry srv ?srv" by (simp add: same_registry_def)
  from set_resets [OF same_registry_ok [OF this assms], of None stream connected]
  obtain srv' where "srv_set connected stream None ?srv = Inr srv'" "reset_session stream None ?srv srv'"
    by auto
  with True reset_counter [OF \<open>same_registry srv ?srv\<close>] show ?thesis
    by (auto simp: srv_onDisconnect_def Let_def)
qed (auto simp: srv_onDisconnect_def Let_def same_registry_def)

lemma request_effect:
  assumes "srv_ok srv"
  shows "\<exists>ok rsp' srv'. srv_handleRockRequest inet parse by_address parse_query serialize connected rq rsp stream srv =
       Inr (ok, rsp', srv') \<and>
     (same_registry srv srv' \<or> (\<exists>new. reset_session stream new srv srv'))"
proof -
  let ?srv = "srv\<lparr>srv_request_count := srv_request_count srv + 1\<rparr>"
  have same: "same_registry srv ?srv" by (simp add: same_registry_def)
  from register_effect [OF same_registry_ok [OF this assms], of inet parse connected rq rsp stream]
  obtain ok rsp' srv' where
    reg: "handleRegister inet parse connected rq rsp stream ?srv = Inr (ok, rsp', srv')"
      "if ok then \<exists>new. reset_session stream new ?srv srv' else srv' = ?srv \<and> rsp' = rsp"
    by blast
  have "same_registry srv srv' \<or> (\<exists>new. reset_session stream new srv srv')"
    using reg(2) reset_counter [OF same] same by (auto split: if_splits)
  then show ?thesis
    using reg(1) same
    by (cases "handleQuery by_address parse_query serialize rq rsp ?srv")
      (auto simp: srv_handleRockRequest_def Let_def handleTick_def)
qed

lemma step_effect:
  assumes "srv_ok srv" "ns_step inet parse by_address parse_query serialize srv srv'"
  shows "same_registry srv srv' \<or> (\<exists>rs new. reset_session rs new srv srv')"
  using assms(2)
proof (cases rule: ns_step.cases)
  case (Request connected rq rsp stream ok rsp')
  with request_effect [OF assms(1), of inet parse by_address parse_query serialize connected rq rsp stream]
  show ?thesis by auto
next
  case (Connect is_rock ok)
  then show ?thesis by (auto simp: srv_onConnect_def same_registry_def)
next
  case (Disconnect is_rock connected stream ok)
  with disconnect_effect [OF assms(1), of is_rock connected stream]
  show ?thesis by (auto split: if_splits)
qed

lemma new_server_ok: "srv_ok new_name_server"
  by (simp add: srv_ok_def new_name_server_def)

lemma step_keeps_ok:
  "srv_ok srv \<Longrightarrow> ns_step inet parse by_address parse_query serialize srv srv' \<Longrightarrow> srv_ok srv'"
  using step_effect same_registry_ok by (auto simp: reset_session_def) blast

definition ns_reachable where
  "ns_reachable inet parse by_address parse_query serialize =
     (ns_step inet parse by_address parse_query serialize)\<^sup>*\<^sup>* new_name_server"

lemma reachable_srv_ok: "ns_reachable inet parse by_address parse_query serialize srv \<Longrightarrow> srv_ok srv"
  unfolding ns_reachable_def
  by (induction rule: rtranclp_induct) (auto intro: new_server_ok step_keeps_ok)

section \<open>The tables agree with the sessions\<close>

definition distinct_ids :: "name_server \<Rightarrow> bool" where
  "distinct_ids srv \<longleftrightarrow>
     (\<forall>a x b y. srv_get a srv = Some x \<longrightarrow> srv_get b srv = Some y \<longrightarrow>
        node_id (ci_node x) = node_id (ci_node y) \<longrightarrow> a = b)"

definition registry_exact :: "name_server \<Rightarrow> bool" where
  "registry_exact srv \<longleftrightarrow>
     (\<forall>dm c i. case listed (srv_domains srv) dm c i of
        None \<Rightarrow> \<forall>rs. \<not> registers (srv_get rs srv) dm c i
      | Some n \<Rightarrow> node_id n = i \<and>
          (\<exists>rs x. srv_get rs srv = Some x \<and> registers (Some x) dm c i \<and> node_weight n = node_weight (ci_node x)))"

text \<open>A run in which no two sessions hold the same node at the same time.\<close>

inductive ns_run ::
  "(bytes \<Rightarrow> u32) \<Rightarrow> (bytes \<Rightarrow> RegisterInfo list option) \<Rightarrow> (bytes list \<Rightarrow> bytes list) \<Rightarrow>
   (bytes \<Rightarrow> bytes list option) \<Rightarrow> (NodeInfo list \<Rightarrow> bytes) \<Rightarrow> name_server \<Rightarrow> bool"
  for inet parse by_address parse_query serialize where
  Start: "ns_run inet parse by_address parse_query serialize new_name_server"
| Step: "ns_run inet parse by_address parse_query serialize srv \<Longrightarrow>
    ns_step inet parse by_address parse_query serialize srv srv' \<Longrightarrow> distinct_ids srv' \<Longrightarrow>
    ns_run inet parse by_address parse_query serialize srv'"

lemma registers_distinct:
  assumes "distinct_ids srv" "registers (srv_get a srv) dm c i" "registers (srv_get b srv) dm' c' i"
  shows "a = b"
  using assms by (cases "srv_get a srv"; cases "srv_get b srv") (auto simp: registers_def distinct_ids_def)

lemma reset_exact:
  assumes ex: "registry_exact srv" and di: "distinct_ids srv" and re: "reset_session rs new srv srv'"
  shows "registry_exact srv'"
  unfolding registry_exact_def
proof (intro allI)
  fix dm c i
  let ?old = "srv_get rs srv" and ?l = "listed (srv_domains srv) dm c i"
  have get: "srv_get r srv' = (if r = rs then new else srv_get r srv)" for r
    using re by (simp add: reset_session_def)
  have l: "listed (srv_domains srv') dm c i = relisted ?old new dm c i ?l"
    using re by (simp add: reset_session_def)
  have id: "listed (srv_domains srv') dm c i = Some n \<Longrightarrow> node_id n = i" for n
    using re by (auto simp: reset_session_def srv_ok_def intro: listed_id)
  have ex: "case ?l of None \<Rightarrow> \<forall>r. \<not> registers (srv_get r srv) dm c i
      | Some n \<Rightarrow> \<exists>r x. srv_get r srv = Some x \<and> registers (Some x) dm c i \<and> node_weight n = node_weight (ci_node x)"
    using ex [unfolded registry_exact_def, THEN spec, THEN spec, THEN spec, of dm c i]
    by (auto split: option.splits)
  consider (new) "registers new dm c i" | (gone) "\<not> registers new dm c i" "registers ?old dm c i"
    | (other) "\<not> registers new dm c i" "\<not> registers ?old dm c i" by blast
  then have "case listed (srv_domains srv') dm c i of None \<Rightarrow> \<forall>r. \<not> registers (srv_get r srv') dm c i
      | Some n \<Rightarrow> \<exists>r x. srv_get r srv' = Some x \<and> registers (Some x) dm c i \<and> node_weight n = node_weight (ci_node x)"
  proof cases
    case new
    then obtain y where y: "new = Some y" by (cases new) (auto simp: registers_def)
    show ?thesis
    proof (cases "registers ?old dm c i \<and> map_option node_weight (node_of ?old) = map_option node_weight (node_of new)")
      case True
      then obtain n r x where n: "?l = Some n" "srv_get r srv = Some x" "registers (Some x) dm c i"
        "node_weight n = node_weight (ci_node x)" using ex by (auto split: option.splits)
      then have "r = rs" using True registers_distinct [OF di, of r dm c i rs dm c] by simp
      then have "node_weight n = node_weight (ci_node y)" using n True y by (simp add: node_of_def)
      then show ?thesis using n(1) new True y get by (auto simp: l relisted_def)
    next
      case False
      then have "listed (srv_domains srv') dm c i = node_of new"
        using new by (simp only: l relisted_def if_True if_False)
      then have "listed (srv_domains srv') dm c i = Some (ci_node y)"
        using y by (simp add: node_of_def)
      then show ?thesis using new y get by auto
    qed
  next
    case gone
    then have "listed (srv_domains srv') dm c i = None" by (simp add: l relisted_def)
    moreover have "\<not> registers (srv_get r srv') dm c i" for r
      using gone registers_distinct [OF di, of r dm c i rs dm c] by (auto simp: get)
    ultimately show ?thesis by simp
  next
    case other
    then have "listed (srv_domains srv') dm c i = ?l" by (simp add: l relisted_def)
    then show ?thesis
      using ex other by (cases ?l) (auto simp: get, metis)
  qed
  then show "case listed (srv_domains srv') dm c i of None \<Rightarrow> \<forall>rs. \<not> registers (srv_get rs srv') dm c i
      | Some n \<Rightarrow> node_id n = i \<and> (\<exists>rs x. srv_get rs srv' = Some x \<and> registers (Some x) dm c i \<and>
          node_weight n = node_weight (ci_node x))"
    using id by (auto split: option.splits)
qed

lemma run_exact:
  "ns_run inet parse by_address parse_query serialize srv \<Longrightarrow> srv_ok srv \<and> distinct_ids srv \<and> registry_exact srv"
proof (induction rule: ns_run.induct)
  case Start
  show ?case
    by (simp add: new_server_ok)
      (simp add: distinct_ids_def registry_exact_def srv_get_def new_name_server_def registers_def)
next
  case (Step srv srv')
  then have "srv_ok srv'" using step_keeps_ok by blast
  from Step step_effect consider "same_registry srv srv'" | rs new where "reset_session rs new srv srv'" by blast
  then have "registry_exact srv'"
  proof cases
    case 1
    then have eq: "srv_get r srv' = srv_get r srv" "srv_domains srv' = srv_domains srv" for r
      by (simp_all add: same_registry_def srv_get_def)
    have "registry_exact srv" using Step.IH by simp
    then show ?thesis unfolding registry_exact_def eq .
  qed (use Step.IH reset_exact in blast)
  with \<open>srv_ok srv'\<close> Step.hyps show ?case by simp
qed

section \<open>A concrete server\<close>

text \<open>One node that registers the command 7 of the domain \<open>a\<close>, from the streams 0 and 1.\<close>

definition sample_inet :: "bytes \<Rightarrow> u32" where
  "sample_inet ip = of_nat (length ip)"

definition sample_parse :: "bytes \<Rightarrow> RegisterInfo list option" where
  "sample_parse b =
     (if b = [] then None
      else Some [\<lparr>ri_domain = Some [97], ri_cmds = [7],
                  ri_node = Some \<lparr>pn_ip = Some b, pn_port = Some 80, pn_weight = Some 5\<rparr>\<rparr>])"

definition sample_request :: "bytes \<Rightarrow> rock_request" where
  "sample_request b = new_rock_request\<lparr>req_cmd := cmd_REGISTER, rreq_body := b\<rparr>"

definition sample_next :: "bytes \<Rightarrow> nat \<Rightarrow> name_server \<Rightarrow> name_server" where
  "sample_next b stream srv =
     (case srv_handleRockRequest sample_inet sample_parse id (\<lambda>_. None) (\<lambda>_. []) True
             (sample_request b) new_rock_response stream srv of
        Inl _ \<Rightarrow> srv | Inr (_, _, srv') \<Rightarrow> srv')"

lemma sample_step: "srv_ok srv \<Longrightarrow> ns_step sample_inet sample_parse id (\<lambda>_. None) (\<lambda>_. []) srv (sample_next b stream srv)"
  using request_effect [of srv sample_inet sample_parse id "\<lambda>_. None" "\<lambda>_. []" True "sample_request b"
      new_rock_response stream]
  by (auto simp: sample_next_def intro: ns_step.Request)

definition sample_one :: name_server where "sample_one = sample_next [49] 0 new_name_server"
definition sample_two :: name_server where "sample_two = sample_next [49] 1 sample_one"

lemma sample_one_sessions: "map fst (srv_sessions sample_one) = [0]"
  by code_simp

lemma sample_run: "ns_run sample_inet sample_parse id (\<lambda>_. None) (\<lambda>_. []) sample_one"
proof (rule ns_run.Step [OF ns_run.Start])
  show "ns_step sample_inet sample_parse id (\<lambda>_. None) (\<lambda>_. []) new_name_server sample_one"
    unfolding sample_one_def by (rule sample_step [OF new_server_ok])
  have "a \<in> {0}" if "srv_get a sample_one = Some x" for a x
    using that sample_one_sessions map_of_SomeD [of "srv_sessions sample_one" a x]
    by (metis fst_conv image_eqI list.set_map list.simps(15) empty_set srv_get_def)
  then show "distinct_ids sample_one" unfolding distinct_ids_def by blast
qed

lemma sample_reachable: "ns_reachable sample_inet sample_parse id (\<lambda>_. None) (\<lambda>_. []) sample_two"
proof -
  have "srv_ok sample_one" using run_exact [OF sample_run] by blast
  then have "ns_step sample_inet sample_parse id (\<lambda>_. None) (\<lambda>_. []) sample_one sample_two"
    unfolding sample_two_def by (rule sample_step)
  moreover have "ns_step sample_inet sample_parse id (\<lambda>_. None) (\<lambda>_. []) new_name_server sample_one"
    unfolding sample_one_def by (rule sample_step [OF new_server_ok])
  ultimately show ?thesis unfolding ns_reachable_def by (meson converse_rtranclp_into_rtranclp rtranclp.rtrancl_refl)
qed

lemma sample_registers:
  "registers (srv_get 0 sample_two) [97] 7 0x100000050 \<and> registers (srv_get 1 sample_two) [97] 7 0x100000050"
  by code_simp



text \<open>No handler ever follows a null pointer: on every reachable state each request and each
  disconnect is handled, and a register request that is refused changes no session and no
  table.\<close>

theorem handlers_never_fail:
  assumes "ns_reachable inet parse by_address parse_query serialize srv"
  shows "(\<exists>ok rsp' srv'. srv_handleRockRequest inet parse by_address parse_query serialize connected rq rsp stream srv =
            Inr (ok, rsp', srv') \<and> (\<not> ok \<longrightarrow> same_registry srv srv' \<and> rsp' = rsp)) \<and>
         (\<exists>ok srv'. srv_onDisconnect is_rock connected stream srv = Inr (ok, srv') \<and> ok = is_rock)"
proof -
  note ok = reachable_srv_ok [OF assms]
  let ?srv = "srv\<lparr>srv_request_count := srv_request_count srv + 1\<rparr>"
  have same: "same_registry srv ?srv" by (simp add: same_registry_def)
  from register_effect [OF same_registry_ok [OF same ok], of inet parse connected rq rsp stream]
  have "\<exists>ok rsp' srv'. srv_handleRockRequest inet parse by_address parse_query serialize connected rq rsp stream srv =
            Inr (ok, rsp', srv') \<and> (\<not> ok \<longrightarrow> same_registry srv srv' \<and> rsp' = rsp)"
    using same
    by (cases "parse_query (rreq_body rq)")
      (auto simp: srv_handleRockRequest_def Let_def handleTick_def handleQuery_def split: if_splits)
  with disconnect_effect [OF ok, of is_rock connected stream] show ?thesis
    by (auto simp: srv_onDisconnect_def Let_def bindE_Inr_iff split: if_splits)
qed

theorem handlers_never_fail_witness:
  "\<exists>ok srv'. srv_onDisconnect True True 0 sample_two = Inr (ok, srv') \<and> ok"
  using handlers_never_fail [where is_rock = True and connected = True and stream = 0, OF sample_reachable] by auto

text \<open>But when two sessions have registered the same node, the disconnect of one removes what
  the other has registered: that session is still connected and known, the node is not listed,
  and a further register request with the same content does not bring it back.\<close>

theorem disconnect_drops_shared_node:
  assumes "ns_reachable inet parse by_address parse_query serialize srv" "s \<noteq> t"
    and "registers (srv_get s srv) dm c i" "registers (srv_get t srv) dm c i"
  shows "\<exists>srv'. srv_onDisconnect True connected t srv = Inr (True, srv') \<and>
    srv_get s srv' = srv_get s srv \<and> listed (srv_domains srv') dm c i = None \<and>
    (\<forall>rq rsp rsp' srv''. handleRegister inet parse True rq rsp s srv' = Inr (True, rsp', srv'') \<longrightarrow>
       srv_get s srv'' = srv_get s srv \<longrightarrow> listed (srv_domains srv'') dm c i = None)"
proof -
  from disconnect_effect [OF reachable_srv_ok [OF assms(1)], of True connected t] obtain srv' where
    srv': "srv_onDisconnect True connected t srv = Inr (True, srv')" "reset_session t None srv srv'"
    by (auto simp: srv_onDisconnect_def Let_def bindE_Inr_iff)
  then have same: "srv_get s srv' = srv_get s srv" and gone: "listed (srv_domains srv') dm c i = None"
    and "srv_ok srv'"
    using assms(2,4) by (auto simp: reset_session_def relisted_def registers_def)
  have "listed (srv_domains srv'') dm c i = None"
    if "handleRegister inet parse True rq rsp s srv' = Inr (True, rsp', srv'')" "srv_get s srv'' = srv_get s srv"
    for rq rsp rsp' srv''
  proof -
    from register_effect [OF \<open>srv_ok srv'\<close>, of inet parse True rq rsp s] that(1) obtain new where
      "reset_session s new srv' srv''" by auto
    then have "listed (srv_domains srv'') dm c i = relisted (srv_get s srv') (srv_get s srv'') dm c i None"
      using gone by (simp add: reset_session_def)
    then show ?thesis using that(2) same assms(3) by (simp add: relisted_def)
  qed
  with srv' same gone show ?thesis by blast
qed

theorem disconnect_drops_shared_node_witness:
  "\<exists>srv'. srv_onDisconnect True True 1 sample_two = Inr (True, srv') \<and>
     registers (srv_get 0 srv') [97] 7 0x100000050 \<and> listed (srv_domains srv') [97] 7 0x100000050 = None"
  using disconnect_drops_shared_node
    [OF sample_reachable _ conjunct1 [OF sample_registers] conjunct2 [OF sample_registers], of True]
    sample_registers by auto

end
