(* ===== verification/FiberSem.thy ===== *)
theory FiberSem
  imports Prelude
begin

text \<open>
  \<open>src/FiberSync.cpp\<close>: the semaphore of fibers. A waiting fiber is a pair of scheduler and fiber;
  \<open>Schedular::GetThis()\<close> is an argument, \<open>None\<close> off the scheduler's threads, where the code
  asserts. \<open>wait\<close> says whether the caller has to yield; \<open>notify\<close> returns the fibers it schedules.
  The count is a \<open>size_t\<close>.
\<close>

type_synonym waiter = "nat \<times> nat"

record fiber_sem =
  sem_concurrency :: u64
  sem_waiters :: "waiter list"

definition new_sem :: "u64 \<Rightarrow> fiber_sem" where
  "new_sem initial_concurrency = \<lparr>sem_concurrency = initial_concurrency, sem_waiters = []\<rparr>"

definition sem_destroy :: "fiber_sem \<Rightarrow> unit res" where
  "sem_destroy s = (if sem_waiters s = [] then Inr () else Inl AssertFail)"

text \<open>What \<open>tryWait\<close> and \<open>wait\<close> do after they have seen a permit.\<close>

definition sem_take :: "fiber_sem \<Rightarrow> fiber_sem" where
  "sem_take s = s\<lparr>sem_concurrency := sem_concurrency s - 1\<rparr>"

definition sem_tryWait :: "nat option \<Rightarrow> fiber_sem \<Rightarrow> (bool \<times> fiber_sem) res" where
  "sem_tryWait this s =
     (if this = None then Inl AssertFail
      else if 0 < sem_concurrency s then Inr (True, sem_take s)
      else Inr (False, s))"

definition sem_wait :: "nat option \<Rightarrow> nat \<Rightarrow> fiber_sem \<Rightarrow> (bool \<times> fiber_sem) res" where
  "sem_wait this fiber s =
     (case this of
        None \<Rightarrow> Inl AssertFail
      | Some sch \<Rightarrow>
          if 0 < sem_concurrency s then Inr (False, sem_take s)
          else Inr (True, s\<lparr>sem_waiters := sem_waiters s @ [(sch, fiber)]\<rparr>))"

definition sem_notify :: "fiber_sem \<Rightarrow> waiter list \<times> fiber_sem" where
  "sem_notify s =
     (case sem_waiters s of
        w # ws \<Rightarrow> ([w], s\<lparr>sem_waiters := ws\<rparr>)
      | [] \<Rightarrow> ([], s\<lparr>sem_concurrency := sem_concurrency s + 1\<rparr>))"

definition sem_notifyAll :: "fiber_sem \<Rightarrow> waiter list \<times> fiber_sem" where
  "sem_notifyAll s = (sem_waiters s, s\<lparr>sem_waiters := []\<rparr>)"

definition sem_reset :: "fiber_sem \<Rightarrow> fiber_sem" where
  "sem_reset s = s\<lparr>sem_concurrency := 0\<rparr>"

section \<open>Counting permits\<close>

text \<open>
  A history of calls from a scheduler's threads, with what became of them: the fibers that
  passed or were woken, in order, and the fibers that called \<open>wait\<close>, in order; how many were
  woken by \<open>notifyAll\<close>, which needs no permit, and how many permits \<open>reset\<close> threw away.
\<close>

datatype sem_op = Wait nat nat | TryWait nat nat | Notify | NotifyAll | Reset

record sem_history =
  h_sem :: fiber_sem
  h_calls :: "waiter list"
  h_passed :: "waiter list"
  h_notifies :: nat
  h_freed :: nat
  h_dropped :: nat

fun sem_call :: "sem_op \<Rightarrow> sem_history \<Rightarrow> sem_history" where
  "sem_call (Wait sch f) h =
     (case sem_wait (Some sch) f (h_sem h) of
        Inr (blocked, s) \<Rightarrow>
          h\<lparr>h_sem := s, h_calls := h_calls h @ [(sch, f)],
            h_passed := h_passed h @ (if blocked then [] else [(sch, f)])\<rparr>
      | Inl _ \<Rightarrow> h)"
| "sem_call (TryWait sch f) h =
     (case sem_tryWait (Some sch) (h_sem h) of
        Inr (ok, s) \<Rightarrow>
          h\<lparr>h_sem := s, h_calls := h_calls h @ (if ok then [(sch, f)] else []),
            h_passed := h_passed h @ (if ok then [(sch, f)] else [])\<rparr>
      | Inl _ \<Rightarrow> h)"
| "sem_call Notify h =
     (let (woken, s) = sem_notify (h_sem h)
      in h\<lparr>h_sem := s, h_passed := h_passed h @ woken, h_notifies := Suc (h_notifies h)\<rparr>)"
| "sem_call NotifyAll h =
     (let (woken, s) = sem_notifyAll (h_sem h)
      in h\<lparr>h_sem := s, h_passed := h_passed h @ woken, h_freed := h_freed h + length woken\<rparr>)"
| "sem_call Reset h =
     h\<lparr>h_sem := sem_reset (h_sem h), h_dropped := h_dropped h + unat (sem_concurrency (h_sem h))\<rparr>"

definition new_history :: "u64 \<Rightarrow> sem_history" where
  "new_history n =
     \<lparr>h_sem = new_sem n, h_calls = [], h_passed = [], h_notifies = 0, h_freed = 0, h_dropped = 0\<rparr>"

definition history_ok :: "u64 \<Rightarrow> sem_history \<Rightarrow> bool" where
  "history_ok n h \<longleftrightarrow>
     (sem_waiters (h_sem h) = [] \<or> sem_concurrency (h_sem h) = 0) \<and>
     h_passed h @ sem_waiters (h_sem h) = h_calls h \<and> h_freed h \<le> length (h_passed h) \<and>
     of_nat (length (h_passed h)) + sem_concurrency (h_sem h) + of_nat (h_dropped h) =
       n + of_nat (h_notifies h) + of_nat (h_freed h) \<and>
     (unat n + h_notifies h < 2 ^ 64 \<longrightarrow>
       length (h_passed h) + unat (sem_concurrency (h_sem h)) + h_dropped h = unat n + h_notifies h + h_freed h)"

lemma unat_take: "(0::u64) < c \<Longrightarrow> unat c = Suc (unat (c - 1))"
  by (metis Suc_pred' linorder_neq_iff unat_gt_0 unat_minus_one)

lemma unat_give: "unat (c::u64) + 1 < 2 ^ 64 \<Longrightarrow> unat (c + 1) = Suc (unat c)"
  by (simp add: unat_word_ariths)

lemma sem_call_ok: "history_ok n h \<Longrightarrow> history_ok n (sem_call c h)"
proof (cases c)
  case Notify
  show "history_ok n h \<Longrightarrow> history_ok n (sem_call c h)"
  proof (cases "sem_waiters (h_sem h)")
    case Nil
    assume ok: "history_ok n h"
    have "unat (sem_concurrency (h_sem h) + 1) = Suc (unat (sem_concurrency (h_sem h)))"
      if "unat n + Suc (h_notifies h) < 2 ^ 64"
      using ok that by (intro unat_give) (auto simp: history_ok_def)
    then show ?thesis using ok Notify Nil by (auto simp: history_ok_def sem_notify_def algebra_simps)
  next
    case (Cons w ws)
    assume "history_ok n h"
    then show ?thesis using Notify Cons by (auto simp: history_ok_def sem_notify_def algebra_simps)
  qed
next
  case (Wait sch f)
  assume "history_ok n h"
  then show ?thesis
    using Wait unat_take [of "sem_concurrency (h_sem h)"]
    by (auto simp: history_ok_def sem_wait_def sem_take_def algebra_simps word_gt_0)
next
  case (TryWait sch f)
  assume "history_ok n h"
  then show ?thesis
    using TryWait unat_take [of "sem_concurrency (h_sem h)"]
    by (auto simp: history_ok_def sem_tryWait_def sem_take_def algebra_simps)
next
  case NotifyAll
  assume ok: "history_ok n h"
  then have "length (h_calls h) = length (h_passed h) + length (sem_waiters (h_sem h))"
    by (metis history_ok_def length_append)
  then show ?thesis using ok NotifyAll by (auto simp: history_ok_def sem_notifyAll_def algebra_simps)
next
  case Reset
  assume "history_ok n h"
  then show ?thesis using Reset by (auto simp: history_ok_def sem_reset_def algebra_simps)
qed

lemma history_ok_fold: "history_ok n h \<Longrightarrow> history_ok n (fold sem_call cs h)"
  by (induction cs arbitrary: h) (auto intro: sem_call_ok)

text \<open>C34: after any sequence of \<open>wait\<close>, \<open>tryWait\<close>, \<open>notify\<close>, \<open>notifyAll\<close> and \<open>reset\<close>, none
  overlapping another (\<open>reset\<close> takes no lock), the fibers pass in the order of their calls, one
  waits only when no permit is left, and permits are neither lost nor made: the fibers that passed,
  the permits left and those \<open>reset\<close> threw away are the initial ones, the notifications and the
  fibers \<open>notifyAll\<close> freed. This holds modulo 2^64, and exactly while the initial permits and the
  notifications stay below 2^64.\<close>

theorem semaphore_counts:
  fixes n :: u64 and cs :: "sem_op list"
  defines "h \<equiv> fold sem_call cs (new_history n)"
  shows "of_nat (length (h_passed h)) + sem_concurrency (h_sem h) + of_nat (h_dropped h) =
      n + of_nat (h_notifies h) + of_nat (h_freed h) \<and>
    (unat n + h_notifies h < 2 ^ 64 \<longrightarrow>
      length (h_passed h) + unat (sem_concurrency (h_sem h)) + h_dropped h = unat n + h_notifies h + h_freed h) \<and>
    h_passed h @ sem_waiters (h_sem h) = h_calls h \<and>
    (sem_waiters (h_sem h) = [] \<or> sem_concurrency (h_sem h) = 0)"
  using history_ok_fold [of n "new_history n" cs]
  by (simp add: h_def history_ok_def new_history_def new_sem_def)

theorem semaphore_counts_witness:
  "length (h_passed (fold sem_call [Wait 0 5, Wait 0 6, Notify, Notify, Reset] (new_history 1))) = 2 \<and>
   h_dropped (fold sem_call [Wait 0 5, Wait 0 6, Notify, Notify, Reset] (new_history 1)) = 1"
  using semaphore_counts [of "[Wait 0 5, Wait 0 6, Notify, Notify, Reset]" 1]
  by (simp add: new_history_def new_sem_def sem_wait_def sem_take_def sem_notify_def sem_reset_def)

text \<open>A \<open>reset\<close> between the check and the decrement of a \<open>wait\<close> leaves 2^64 - 1 permits.\<close>

theorem reset_race_makes_permits: "sem_concurrency (sem_take (sem_reset s)) = - 1"
  by (simp add: sem_take_def sem_reset_def)

end
