(* ===== verification/RockRpc.thy ===== *)
theory RockRpc
  imports Protocol FiberSem TextOut
begin

text \<open>
  Requests and answers over one connection: \<open>src/streams/AsyncSocketStream.cpp\<close> and
  \<open>src/rpc/RockStream.cpp\<close>. The state is that of one stream with the heap of its request
  contexts (a context is known by its index) and the timers armed for them. What the code
  hands to others (callbacks, tasks, timers of the stream itself, fibers woken) is appended to
  \<open>st_events\<close>; the fibers resumed for a context are appended to \<open>st_resumed\<close>. What the socket
  does (messages received, results of sends, whether a reconnect works) is an argument, as is
  the answer of a registered callback.
\<close>

section \<open>State\<close>

text \<open>\<open>OK = 0, TIMEOUT = -1, IO_ERROR = -2, NOT_CONNECT = -3\<close>, stored in a \<open>uint32_t\<close>.\<close>

definition err_TIMEOUT :: u32 where "err_TIMEOUT = - 1"
definition err_IO_ERROR :: u32 where "err_IO_ERROR = - 2"
definition err_NOT_CONNECT :: u32 where "err_NOT_CONNECT = - 3"

record ctx =
  ctx_sn :: u32
  ctx_timeout :: u32
  ctx_result :: u32
  ctx_timed :: bool
  ctx_scheduler :: "nat option"
  ctx_fiber :: "nat option"
  ctx_timer :: bool
  ctx_request :: rock_request
  ctx_response :: "rock_response option"

text \<open>What is queued for sending: a message (\<open>RockSendCtx\<close>) or a context (\<open>RockCtx\<close>).\<close>

datatype send_ctx = SendMessage message | SendRequest nat

datatype event =
    EvConnectCB | EvDisconnectCB | EvHandleRequest rock_request | EvHandleNotify rock_notify
  | EvStartRead | EvStartWrite | EvStartIn nat | EvWake waiter | EvSwitchTo

record stream =
  st_connected :: bool
  st_autoConnect :: bool
  st_ctxs :: "(u32 \<times> nat) list"
  st_store :: "ctx list"
  st_queue :: "send_ctx list"
  st_sem :: fiber_sem
  st_waitSem :: fiber_sem
  st_timers :: "nat list"
  st_start_timer :: bool
  st_has_connectCB :: bool
  st_has_disconnectCB :: bool
  st_has_requestHandler :: bool
  st_has_notifyHandler :: bool
  st_resumed :: "nat list"
  st_events :: "event list"

record rock_result =
  rr_result :: int
  rr_resultStr :: bytes
  rr_used :: "32 word"
  rr_response :: "rock_response option"
  rr_request :: rock_request
  rr_server :: bytes

definition new_ctx :: ctx where
  "new_ctx = \<lparr>ctx_sn = 0, ctx_timeout = 0, ctx_result = 0, ctx_timed = False, ctx_scheduler = None,
     ctx_fiber = None, ctx_timer = False, ctx_request = new_rock_request, ctx_response = None\<rparr>"

text \<open>A \<open>RockSession\<close> does not reconnect, a \<open>RockConnection\<close> does.\<close>

definition new_stream :: "bool \<Rightarrow> stream" where
  "new_stream connected =
     \<lparr>st_connected = connected, st_autoConnect = False, st_ctxs = [], st_store = [], st_queue = [],
      st_sem = new_sem 0, st_waitSem = new_sem 2, st_timers = [], st_start_timer = False,
      st_has_connectCB = False, st_has_disconnectCB = False, st_has_requestHandler = False,
      st_has_notifyHandler = False, st_resumed = [], st_events = []\<rparr>"

definition new_RockSession :: "bool \<Rightarrow> stream" where
  "new_RockSession connected = (new_stream connected)\<lparr>st_autoConnect := False\<rparr>"

definition new_RockConnection :: stream where
  "new_RockConnection = (new_stream False)\<lparr>st_autoConnect := True\<rparr>"

definition emit :: "event \<Rightarrow> stream \<Rightarrow> stream" where
  "emit e st = st\<lparr>st_events := st_events st @ [e]\<rparr>"

definition at_ctx :: "nat \<Rightarrow> (ctx \<Rightarrow> ctx) \<Rightarrow> stream \<Rightarrow> stream" where
  "at_ctx k f st = st\<lparr>st_store := (st_store st)[k := f (st_store st ! k)]\<rparr>"

section \<open>Contexts\<close>

text \<open>
  \<open>doRsp\<close> in the parts between which another thread may run: the comparison and swap on
  \<open>scheduler\<close> lets one caller through (\<open>True\<close>), which cancels the timer if it has been assigned,
  writes TIMEOUT over the result if the timer came, and has \<open>schedule(&fiber)\<close> take the fiber out
  of the context.
\<close>

definition rsp_claim :: "nat \<Rightarrow> stream \<Rightarrow> bool \<times> stream" where
  "rsp_claim k st =
     (case ctx_scheduler (st_store st ! k) of
        None \<Rightarrow> (False, st)
      | Some t \<Rightarrow> (True, at_ctx k (\<lambda>c. c\<lparr>ctx_scheduler := None\<rparr>) st))"

definition rsp_cancel :: "nat \<Rightarrow> stream \<Rightarrow> bool \<times> stream" where
  "rsp_cancel k st =
     (let c = st_store st ! k in
      if ctx_fiber c = None then (False, st)
      else if ctx_timer c then
        (True, at_ctx k (\<lambda>c. c\<lparr>ctx_timer := False\<rparr>) (st\<lparr>st_timers := removeAll k (st_timers st)\<rparr>))
      else (True, st))"

definition rsp_settle :: "nat \<Rightarrow> stream \<Rightarrow> stream" where
  "rsp_settle k st =
     (if ctx_timed (st_store st ! k) then at_ctx k (\<lambda>c. c\<lparr>ctx_result := err_TIMEOUT\<rparr>) st else st)"

definition rsp_schedule :: "nat \<Rightarrow> stream \<Rightarrow> stream" where
  "rsp_schedule k st =
     (let st = at_ctx k (\<lambda>c. c\<lparr>ctx_fiber := None\<rparr>) st in st\<lparr>st_resumed := st_resumed st @ [k]\<rparr>)"

definition doRsp :: "nat \<Rightarrow> stream \<Rightarrow> stream" where
  "doRsp k st =
     (let (claimed, st) = rsp_claim k st in
      if \<not> claimed then st
      else let (waits, st) = rsp_cancel k st in
           if \<not> waits then st else rsp_schedule k (rsp_settle k st))"

definition getCtx :: "u32 \<Rightarrow> stream \<Rightarrow> nat option" where
  "getCtx sn st = map_of (st_ctxs st) sn"

definition erase_ctx :: "u32 \<Rightarrow> stream \<Rightarrow> stream" where
  "erase_ctx sn st = st\<lparr>st_ctxs := filter (\<lambda>p. fst p \<noteq> sn) (st_ctxs st)\<rparr>"

definition getAndDelCtx :: "u32 \<Rightarrow> stream \<Rightarrow> nat option \<times> stream" where
  "getAndDelCtx sn st =
     (case map_of (st_ctxs st) sn of None \<Rightarrow> (None, st) | Some k \<Rightarrow> (Some k, erase_ctx sn st))"

text \<open>\<open>emplace\<close> leaves the entry of a serial number that is present.\<close>

definition addCtx :: "nat \<Rightarrow> stream \<Rightarrow> stream" where
  "addCtx k st =
     (let sn = ctx_sn (st_store st ! k) in
      if map_of (st_ctxs st) sn = None then st\<lparr>st_ctxs := (sn, k) # st_ctxs st\<rparr> else st)"

definition onTimeOut_erase :: "nat \<Rightarrow> stream \<Rightarrow> stream" where
  "onTimeOut_erase k st = erase_ctx (ctx_sn (st_store st ! k)) st"

definition onTimeOut_mark :: "nat \<Rightarrow> stream \<Rightarrow> stream" where
  "onTimeOut_mark k st = at_ctx k (\<lambda>c. c\<lparr>ctx_timed := True\<rparr>) st"

definition onTimeOut :: "nat \<Rightarrow> stream \<Rightarrow> stream" where
  "onTimeOut k st = doRsp k (onTimeOut_mark k (onTimeOut_erase k st))"

section \<open>The queue\<close>

definition notify_sem :: "stream \<Rightarrow> stream" where
  "notify_sem st =
     (let (woken, s) = sem_notify (st_sem st)
      in st\<lparr>st_sem := s, st_events := st_events st @ map EvWake woken\<rparr>)"

definition notify_waitSem :: "stream \<Rightarrow> stream" where
  "notify_waitSem st =
     (let (woken, s) = sem_notify (st_waitSem st)
      in st\<lparr>st_waitSem := s, st_events := st_events st @ map EvWake woken\<rparr>)"

definition enqueue :: "send_ctx \<Rightarrow> stream \<Rightarrow> bool \<times> stream" where
  "enqueue x st =
     (let empty = (st_queue st = []); st = st\<lparr>st_queue := st_queue st @ [x]\<rparr>
      in (empty, if empty then notify_sem st else st))"

definition sendMessage :: "message \<Rightarrow> stream \<Rightarrow> int \<times> stream" where
  "sendMessage m st =
     (if st_connected st then (1, snd (enqueue (SendMessage m) st)) else (- 1, st))"

section \<open>Closing\<close>

definition fail_mark :: "nat \<Rightarrow> stream \<Rightarrow> stream" where
  "fail_mark k st = at_ctx k (\<lambda>c. c\<lparr>ctx_result := err_IO_ERROR\<rparr>) st"

definition fail_ctx :: "nat \<Rightarrow> stream \<Rightarrow> stream" where
  "fail_ctx k st = doRsp k (fail_mark k st)"

text \<open>
  \<open>on_io_thread\<close>: the caller runs on \<open>_ioMgr\<close>, as the code asserts. The first part takes the
  table of contexts, the second answers them one by one.
\<close>

definition innerClose_swap :: "bool \<Rightarrow> stream \<Rightarrow> ((u32 \<times> nat) list \<times> stream) res" where
  "innerClose_swap on_io_thread st =
     (if \<not> on_io_thread then Inl AssertFail
      else
        let st = (if st_connected st \<and> st_has_disconnectCB st then emit EvDisconnectCB st else st);
            st = notify_sem (st\<lparr>st_connected := False\<rparr>)
        in Inr (st_ctxs st, st\<lparr>st_ctxs := [], st_queue := []\<rparr>))"

definition innerClose :: "bool \<Rightarrow> stream \<Rightarrow> stream res" where
  "innerClose on_io_thread st =
     bindE (innerClose_swap on_io_thread st) (\<lambda>(ctxs, st). Inr (fold (\<lambda>i. fail_ctx (snd i)) ctxs st))"

definition async_close :: "stream \<Rightarrow> stream" where
  "async_close st =
     (let st = emit EvSwitchTo (st\<lparr>st_autoConnect := False\<rparr>)
      in st\<lparr>st_start_timer := False, st_connected := False\<rparr>)"

section \<open>Requests of this side\<close>

text \<open>
  \<open>request\<close> up to \<open>YieldToHold\<close>, in the parts between which another thread may run: the
  context with its entry, the timer, the assignment of the timer to the context, the queue. The number is the new context's.
\<close>

definition request_add :: "rock_request \<Rightarrow> u32 \<Rightarrow> nat \<Rightarrow> nat \<Rightarrow> stream \<Rightarrow> nat \<times> stream" where
  "request_add req timeout_ms scheduler fiber st =
     (let k = length (st_store st);
          c = new_ctx\<lparr>ctx_request := req, ctx_sn := req_sn req, ctx_timeout := timeout_ms,
                      ctx_scheduler := Some scheduler, ctx_fiber := Some fiber\<rparr>
      in (k, addCtx k (st\<lparr>st_store := st_store st @ [c]\<rparr>)))"

definition request_addTimer :: "nat \<Rightarrow> stream \<Rightarrow> stream" where
  "request_addTimer k st = st\<lparr>st_timers := k # st_timers st\<rparr>"

definition request_assign :: "nat \<Rightarrow> stream \<Rightarrow> stream" where
  "request_assign k st = at_ctx k (\<lambda>c. c\<lparr>ctx_timer := True\<rparr>) st"

definition request_timer :: "nat \<Rightarrow> stream \<Rightarrow> stream" where
  "request_timer k st = request_assign k (request_addTimer k st)"

definition request_enqueue :: "nat \<Rightarrow> stream \<Rightarrow> stream" where
  "request_enqueue k st = snd (enqueue (SendRequest k) st)"

text \<open>
  \<open>request\<close> from the resumption of the fiber on: the result and the response are read from the
  context, one after the other, as the reader may still be writing them.
\<close>

definition read_result :: "nat \<Rightarrow> stream \<Rightarrow> u32" where
  "read_result k st = ctx_result (st_store st ! k)"

definition read_response :: "nat \<Rightarrow> stream \<Rightarrow> rock_response option" where
  "read_response k st = ctx_response (st_store st ! k)"

definition request_finish ::
  "u32 \<Rightarrow> rock_response option \<Rightarrow> 32 word \<Rightarrow> bytes \<Rightarrow> rock_request \<Rightarrow> rock_result" where
  "request_finish result response used server req =
     \<lparr>rr_result = sint result, rr_resultStr = str ''ok'', rr_used = used,
      rr_response = response, rr_request = req, rr_server = server\<rparr>"

definition request_refused :: "rock_request \<Rightarrow> bytes \<Rightarrow> rock_result" where
  "request_refused req server =
     \<lparr>rr_result = sint err_NOT_CONNECT, rr_resultStr = str ''not_connect '' @ server, rr_used = 0,
      rr_response = None, rr_request = req, rr_server = server\<rparr>"

text \<open>\<open>Inl\<close>: not connected, and the answer; \<open>Inr\<close>: the fiber yields until its context is answered.\<close>

definition rock_request_start ::
  "rock_request \<Rightarrow> u32 \<Rightarrow> nat \<Rightarrow> nat \<Rightarrow> bytes \<Rightarrow> stream \<Rightarrow> rock_result + nat \<times> stream" where
  "rock_request_start req timeout_ms scheduler fiber server st =
     (if st_connected st then
        let (k, st) = request_add req timeout_ms scheduler fiber st
        in Inr (k, request_enqueue k (request_timer k st))
      else Inl (request_refused req server))"

section \<open>Reading and writing\<close>

text \<open>\<open>doSend\<close> of a queued item: \<open>serializeTo\<close> on its message, which must return more than 0.\<close>

definition send_message :: "stream \<Rightarrow> send_ctx \<Rightarrow> message" where
  "send_message st x =
     (case x of SendMessage m \<Rightarrow> m | SendRequest k \<Rightarrow> MRequest (ctx_request (st_store st ! k)))"

definition doSend :: "(message \<Rightarrow> int) \<Rightarrow> stream \<Rightarrow> send_ctx \<Rightarrow> bool" where
  "doSend serialize st x \<longleftrightarrow> serialize (send_message st x) > 0"

text \<open>
  The two writes of \<open>doRecv\<close> to the context of a response, after the locked \<open>getAndDelCtx\<close>; the
  reader then calls \<open>doRsp\<close> on the context that \<open>doRecv\<close> returns.
\<close>

definition recv_result :: "nat \<Rightarrow> rock_response \<Rightarrow> stream \<Rightarrow> stream" where
  "recv_result k rsp st = at_ctx k (\<lambda>c. c\<lparr>ctx_result := rsp_result rsp\<rparr>) st"

definition recv_response :: "nat \<Rightarrow> rock_response \<Rightarrow> stream \<Rightarrow> stream" where
  "recv_response k rsp st = at_ctx k (\<lambda>c. c\<lparr>ctx_response := Some rsp\<rparr>) st"

text \<open>The messages that are not responses go to the handlers, if there are any.\<close>

definition recv_other :: "message \<Rightarrow> stream \<Rightarrow> stream" where
  "recv_other msg st =
     (case msg of
        MResponse rsp \<Rightarrow> st
      | MRequest req \<Rightarrow> if st_has_requestHandler st then emit (EvHandleRequest req) st else st
      | MNotify ntf \<Rightarrow> if st_has_notifyHandler st then emit (EvHandleNotify ntf) st else st)"

definition doRecv :: "bool \<Rightarrow> message option \<Rightarrow> stream \<Rightarrow> (nat option \<times> stream) res" where
  "doRecv on_io_thread msg st =
     (case msg of
        None \<Rightarrow> bindE (innerClose on_io_thread st) (\<lambda>st. Inr (None, st))
      | Some (MResponse rsp) \<Rightarrow>
          Inr (case getAndDelCtx (rsp_sn rsp) st of
                 (None, st) \<Rightarrow> (None, st)
               | (Some k, st) \<Rightarrow> (Some k, recv_response k rsp (recv_result k rsp st)))
      | Some m \<Rightarrow> Inr (None, recv_other m st))"

text \<open>The loop of \<open>doRead\<close> over the messages that arrive, and what follows it.\<close>

fun doRead_loop :: "bool \<Rightarrow> message option list \<Rightarrow> stream \<Rightarrow> stream res" where
  "doRead_loop on_io_thread [] st = Inr st"
| "doRead_loop on_io_thread (m # ms) st =
     (if st_connected st then
        bindE (doRecv on_io_thread m st) (\<lambda>(c, st).
          doRead_loop on_io_thread ms (case c of None \<Rightarrow> st | Some k \<Rightarrow> doRsp k st))
      else Inr st)"

definition doRead_end :: "bool \<Rightarrow> stream \<Rightarrow> stream res" where
  "doRead_end on_io_thread st =
     bindE (innerClose on_io_thread st) (\<lambda>st.
       let st = notify_waitSem st
       in Inr (if st_autoConnect st then emit (EvStartIn 10) st else st))"

text \<open>One round of \<open>doWrite\<close> after \<open>_sem.wait()\<close>: the whole queue is taken.\<close>

fun send_all :: "bool \<Rightarrow> (message \<Rightarrow> int) \<Rightarrow> send_ctx list \<Rightarrow> stream \<Rightarrow> stream res" where
  "send_all on_io_thread serialize [] st = Inr st"
| "send_all on_io_thread serialize (x # xs) st =
     (if doSend serialize st x then send_all on_io_thread serialize xs st
      else innerClose on_io_thread st)"

definition doWrite_round :: "bool \<Rightarrow> (message \<Rightarrow> int) \<Rightarrow> stream \<Rightarrow> stream res" where
  "doWrite_round on_io_thread serialize st =
     send_all on_io_thread serialize (st_queue st) (st\<lparr>st_queue := []\<rparr>)"

definition doWrite_end :: "stream \<Rightarrow> stream" where
  "doWrite_end st = notify_waitSem (st\<lparr>st_queue := []\<rparr>)"

definition startRead :: "stream \<Rightarrow> stream" where
  "startRead st = emit EvStartRead st"

definition startWrite :: "stream \<Rightarrow> stream" where
  "startWrite st = emit EvStartWrite st"

text \<open>Two waits, one after the other; \<open>True\<close> when the fiber has to yield.\<close>

definition waitFiber :: "nat \<Rightarrow> nat \<Rightarrow> stream \<Rightarrow> (bool \<times> stream) res" where
  "waitFiber scheduler fiber st =
     bindE (sem_wait (Some scheduler) fiber (st_waitSem st)) (\<lambda>(blocked, s).
       if blocked then Inr (True, st\<lparr>st_waitSem := s\<rparr>)
       else bindE (sem_wait (Some scheduler) fiber s) (\<lambda>(blocked, s).
              Inr (blocked, st\<lparr>st_waitSem := s\<rparr>)))"

text \<open>\<open>start\<close> after \<open>waitFiber\<close>; \<open>reconnect\<close> and \<open>connectCB\<close> are the answers of those calls.\<close>

definition start_failed :: "bool \<Rightarrow> stream \<Rightarrow> stream res" where
  "start_failed on_io_thread st =
     bindE (innerClose on_io_thread st) (\<lambda>st.
       let st = notify_waitSem (notify_waitSem st)
       in Inr (if st_autoConnect st
               then emit (EvStartIn 2000) (st\<lparr>st_start_timer := True\<rparr>) else st))"

definition async_start :: "bool \<Rightarrow> bool \<Rightarrow> bool \<Rightarrow> stream \<Rightarrow> (bool \<times> stream) res" where
  "async_start on_io_thread reconnect connectCB st =
     (let st = st\<lparr>st_start_timer := False\<rparr> in
      if \<not> st_connected st \<and> \<not> reconnect then
        bindE (start_failed on_io_thread st) (\<lambda>st. Inr (False, st))
      else
        let st = st\<lparr>st_connected := True\<rparr>;
            st = (if st_has_connectCB st then emit EvConnectCB st else st)
        in if st_has_connectCB st \<and> \<not> connectCB then
             bindE (start_failed on_io_thread st) (\<lambda>st. Inr (False, st))
           else Inr (True, startWrite (startRead st)))"

section \<open>Requests of the other side\<close>

definition handleRequest ::
  "(rock_request \<Rightarrow> rock_response \<Rightarrow> bool \<times> rock_response) \<Rightarrow> rock_request \<Rightarrow> stream \<Rightarrow> stream" where
  "handleRequest handler req st =
     (let (ok, rsp) = handler req (createResponse req);
          st = snd (sendMessage (MResponse rsp) st)
      in if \<not> ok then async_close st else st)"

definition handleNotify :: "(rock_notify \<Rightarrow> bool) \<Rightarrow> rock_notify \<Rightarrow> stream \<Rightarrow> stream" where
  "handleNotify handler nty st = (if \<not> handler nty then async_close st else st)"

end
