(* ===== verification/RpcProps.thy ===== *)
theory RpcProps
  imports RockRpc
begin

text \<open>
  What a request over a stream gets: runs in which the reader, the timers, the close and any
  number of requests interleave at the points where the code can be interrupted, and the
  invariants of the contexts over such runs.
\<close>

section \<open>Runs\<close>

text \<open>
  A job is what one thread has left to do with a context: the rest of a request (timer, its
  assignment, queue), of a timer callback (erase, mark), of a close (mark), of the reader
  (result, response), or of \<open>doRsp\<close> (claim, cancel, settle, schedule). Executing a job is one
  uninterrupted access, which may leave another job.
\<close>

datatype job =
    JTimer nat | JAssign nat | JQueue nat
  | JErase nat | JMark nat
  | JFail nat
  | JResult nat rock_response | JResponse nat rock_response
  | JClaim nat | JCancel nat | JSettle nat | JSchedule nat

fun job_ctx :: "job \<Rightarrow> nat" where
  "job_ctx (JTimer k) = k"
| "job_ctx (JAssign k) = k"
| "job_ctx (JQueue k) = k"
| "job_ctx (JErase k) = k"
| "job_ctx (JMark k) = k"
| "job_ctx (JFail k) = k"
| "job_ctx (JResult k rsp) = k"
| "job_ctx (JResponse k rsp) = k"
| "job_ctx (JClaim k) = k"
| "job_ctx (JCancel k) = k"
| "job_ctx (JSettle k) = k"
| "job_ctx (JSchedule k) = k"

fun job_step :: "job \<Rightarrow> stream \<Rightarrow> job list \<times> stream" where
  "job_step (JTimer k) st = ([JAssign k], request_addTimer k st)"
| "job_step (JAssign k) st = ([JQueue k], request_assign k st)"
| "job_step (JQueue k) st = ([], request_enqueue k st)"
| "job_step (JErase k) st = ([JMark k], onTimeOut_erase k st)"
| "job_step (JMark k) st = ([JClaim k], onTimeOut_mark k st)"
| "job_step (JFail k) st = ([JClaim k], fail_mark k st)"
| "job_step (JResult k rsp) st = ([JResponse k rsp], recv_result k rsp st)"
| "job_step (JResponse k rsp) st = ([JClaim k], recv_response k rsp st)"
| "job_step (JClaim k) st = (let (claimed, st) = rsp_claim k st in (if claimed then [JCancel k] else [], st))"
| "job_step (JCancel k) st = (let (waits, st) = rsp_cancel k st in (if waits then [JSettle k] else [], st))"
| "job_step (JSettle k) st = ([JSchedule k], rsp_settle k st)"
| "job_step (JSchedule k) st = ([], rsp_schedule k st)"

text \<open>One job and those it leaves, run with nothing in between, are the functions of the code.\<close>

lemma doRsp_jobs:
  "doRsp k st = (case job_step (JClaim k) st of
     ([j1], st) \<Rightarrow> (case job_step j1 st of ([j2], st) \<Rightarrow> snd (job_step (JSchedule k) (snd (job_step j2 st))) | (_, st) \<Rightarrow> st)
   | (_, st) \<Rightarrow> st)"
  by (simp add: doRsp_def split: prod.split)

lemma doRecv_jobs:
  "doRecv io (Some (MResponse rsp)) st = Inr (case getAndDelCtx (rsp_sn rsp) st of
     (None, st) \<Rightarrow> (None, st)
   | (Some k, st) \<Rightarrow> (Some k, snd (job_step (JResponse k rsp) (snd (job_step (JResult k rsp) st)))))"
  by (simp add: doRecv_def split: prod.split option.split)

text \<open>
  \<open>r_taken\<close>: the response the reader took a context out of the table for; \<open>r_result\<close> and
  \<open>r_response\<close>: what the resumed fiber has read of its context. The check of \<open>isConnected\<close>
  that precedes a step may be out of date, so the steps do not ask for it; the contexts of a
  close are failed in any order.
\<close>

record rpc_run =
  r_st :: stream
  r_jobs :: "job list"
  r_taken :: "nat \<Rightarrow> rock_response option"
  r_result :: "nat \<Rightarrow> u32 option"
  r_response :: "nat \<Rightarrow> rock_response option option"

definition new_run :: "stream \<Rightarrow> rpc_run" where
  "new_run st = \<lparr>r_st = st, r_jobs = [], r_taken = (\<lambda>_. None), r_result = (\<lambda>_. None), r_response = (\<lambda>_. None)\<rparr>"

inductive rpc_step :: "rpc_run \<Rightarrow> rpc_run \<Rightarrow> bool" where
  Add: "request_add req timeout_ms sch fib (r_st r) = (k, st) \<Longrightarrow>
    rpc_step r (r\<lparr>r_st := st, r_jobs := JTimer k # r_jobs r\<rparr>)"
| Job: "j \<in> set (r_jobs r) \<Longrightarrow> job_step j (r_st r) = (js, st) \<Longrightarrow>
    rpc_step r (r\<lparr>r_st := st, r_jobs := js @ remove1 j (r_jobs r)\<rparr>)"
| Recv: "getAndDelCtx (rsp_sn rsp) (r_st r) = (Some k, st) \<Longrightarrow>
    rpc_step r (r\<lparr>r_st := st, r_jobs := JResult k rsp # r_jobs r, r_taken := (r_taken r)(k := Some rsp)\<rparr>)"
| Other: "rpc_step r (r\<lparr>r_st := recv_other m (r_st r)\<rparr>)"
| Swap: "innerClose_swap True (r_st r) = Inr (ctxs, st) \<Longrightarrow>
    rpc_step r (r\<lparr>r_st := st, r_jobs := map (JFail \<circ> snd) ctxs @ r_jobs r\<rparr>)"
| Fire: "k \<in> set (st_timers (r_st r)) \<Longrightarrow>
    rpc_step r (r\<lparr>r_st := (r_st r)\<lparr>st_timers := remove1 k (st_timers (r_st r))\<rparr>, r_jobs := JErase k # r_jobs r\<rparr>)"
| ReadResult: "k \<in> set (st_resumed (r_st r)) \<Longrightarrow> r_result r k = None \<Longrightarrow>
    rpc_step r (r\<lparr>r_result := (r_result r)(k := Some (read_result k (r_st r)))\<rparr>)"
| ReadResponse: "k \<in> set (st_resumed (r_st r)) \<Longrightarrow> r_response r k = None \<Longrightarrow>
    rpc_step r (r\<lparr>r_response := (r_response r)(k := Some (read_response k (r_st r)))\<rparr>)"
| Send: "rpc_step r (r\<lparr>r_st := snd (sendMessage m (r_st r))\<rparr>)"
| Write: "rpc_step r (r\<lparr>r_st := (r_st r)\<lparr>st_queue := []\<rparr>\<rparr>)"
| CloseStream: "rpc_step r (r\<lparr>r_st := async_close (r_st r)\<rparr>)"

definition rpc_reachable :: "rpc_run \<Rightarrow> bool" where
  "rpc_reachable r \<longleftrightarrow> (\<exists>connected. rpc_step\<^sup>*\<^sup>* (new_run (new_stream connected)) r)"

section \<open>The invariant\<close>

text \<open>A fiber waits until it has been scheduled.\<close>

definition waiting :: "stream \<Rightarrow> nat \<Rightarrow> bool" where
  "waiting st k \<longleftrightarrow> ctx_fiber (st_store st ! k) \<noteq> None"

text \<open>
  Jobs that hold a context taken out of the table, and jobs of the one caller that
  \<open>rsp_claim\<close> let through; how many of a kind there are.
\<close>

fun holds :: "job \<Rightarrow> bool" where
  "holds (JFail k) = True"
| "holds (JResult k rsp) = True"
| "holds (JResponse k rsp) = True"
| "holds _ = False"

fun answers :: "job \<Rightarrow> bool" where
  "answers (JCancel k) = True"
| "answers (JSettle k) = True"
| "answers (JSchedule k) = True"
| "answers _ = False"

definition tokens :: "(job \<Rightarrow> bool) \<Rightarrow> job list \<Rightarrow> nat" where
  "tokens P js = length (filter P js)"

text \<open>
  The response taken for a context; no response taken and no entry left to take it by; the
  results a context may be left with.
\<close>

definition took :: "rock_response option \<Rightarrow> rock_response \<Rightarrow> bool" where
  "took taken rsp \<longleftrightarrow> taken = Some rsp"

definition gone :: "nat \<Rightarrow> rock_response option \<Rightarrow> bool" where
  "gone n taken \<longleftrightarrow> n = 0 \<and> taken = None"

definition settled :: "u32 \<Rightarrow> nat \<Rightarrow> rock_response option \<Rightarrow> bool" where
  "settled v n taken \<longleftrightarrow> v = err_TIMEOUT \<or> gone n taken \<and> v = err_IO_ERROR \<or>
     (\<exists>rsp. took taken rsp \<and> v = rsp_result rsp)"

text \<open>
  One context: \<open>n\<close> entries in the table, the jobs \<open>js\<close> on it, an armed timer or not, resumed
  \<open>m\<close> times, the response taken, the result and response its fiber has read. \<open>counts_ok\<close>: it
  is held once and answered once; \<open>taken_ok\<close>: where its response comes from; \<open>result_ok\<close>:
  its result, from the moment on it is answered; \<open>silent_ok\<close>: when it is answered without a
  response; \<open>read_ok\<close>: what the fiber has read; \<open>alive_ok\<close>: who will answer it.
\<close>

definition counts_ok :: "ctx \<Rightarrow> nat \<Rightarrow> job list \<Rightarrow> nat \<Rightarrow> bool" where
  "counts_ok c n js m \<longleftrightarrow>
     n + tokens holds js \<le> 1 \<and>
     (if ctx_scheduler c = None then 0 else 1) + tokens answers js + m = 1 \<and>
     (ctx_fiber c = None \<longleftrightarrow> m > 0)"

definition taken_ok :: "nat \<Rightarrow> ctx \<Rightarrow> nat \<Rightarrow> job list \<Rightarrow> rock_response option \<Rightarrow> bool" where
  "taken_ok k c n js taken \<longleftrightarrow>
     (\<forall>rsp. JResult k rsp \<in> set js \<or> JResponse k rsp \<in> set js \<or> ctx_response c = Some rsp \<longrightarrow> took taken rsp) \<and>
     (\<forall>rsp. took taken rsp \<longrightarrow> rsp_sn rsp = ctx_sn c \<and> n = 0 \<and> JFail k \<notin> set js)"

definition result_ok :: "nat \<Rightarrow> ctx \<Rightarrow> nat \<Rightarrow> job list \<Rightarrow> nat \<Rightarrow> rock_response option \<Rightarrow> bool" where
  "result_ok k c n js m taken \<longleftrightarrow>
     ((\<exists>rsp. JResponse k rsp \<in> set js) \<or> JSchedule k \<in> set js \<or> m > 0 \<longrightarrow> settled (ctx_result c) n taken) \<and>
     (JClaim k \<in> set js \<or> JCancel k \<in> set js \<or> JSettle k \<in> set js \<longrightarrow> ctx_timed c \<or> settled (ctx_result c) n taken)"

definition silent_ok :: "nat \<Rightarrow> ctx \<Rightarrow> nat \<Rightarrow> job list \<Rightarrow> nat \<Rightarrow> rock_response option \<Rightarrow> bool" where
  "silent_ok k c n js m taken \<longleftrightarrow>
     (JClaim k \<in> set js \<or> JCancel k \<in> set js \<or> JSettle k \<in> set js \<or> JSchedule k \<in> set js \<or> m > 0 \<longrightarrow>
      ctx_response c = None \<longrightarrow> ctx_timed c \<or> gone n taken)"

definition read_ok ::
  "ctx \<Rightarrow> nat \<Rightarrow> nat \<Rightarrow> rock_response option \<Rightarrow> u32 option \<Rightarrow> rock_response option option \<Rightarrow> bool" where
  "read_ok c n m taken result response \<longleftrightarrow>
     (\<forall>v. result = Some v \<longrightarrow> m > 0 \<and> settled v n taken) \<and>
     (\<forall>rsp. response = Some (Some rsp) \<longrightarrow> m > 0 \<and> took taken rsp) \<and>
     (response = Some None \<longrightarrow> m > 0 \<and> (ctx_timed c \<or> gone n taken))"

definition alive_ok :: "nat \<Rightarrow> ctx \<Rightarrow> job list \<Rightarrow> bool \<Rightarrow> bool" where
  "alive_ok k c js armed \<longleftrightarrow>
     (ctx_scheduler c \<noteq> None \<longrightarrow>
        JTimer k \<in> set js \<or> armed \<or> JErase k \<in> set js \<or> JMark k \<in> set js \<or> JClaim k \<in> set js)"

definition ctx_ok ::
  "nat \<Rightarrow> ctx \<Rightarrow> nat \<Rightarrow> job list \<Rightarrow> bool \<Rightarrow> nat \<Rightarrow> rock_response option \<Rightarrow> u32 option \<Rightarrow>
   rock_response option option \<Rightarrow> bool" where
  "ctx_ok k c n js armed m taken result response \<longleftrightarrow>
     counts_ok c n js m \<and> taken_ok k c n js taken \<and> result_ok k c n js m taken \<and> silent_ok k c n js m taken \<and>
     read_ok c n m taken result response \<and> alive_ok k c js armed"

definition jobs_of :: "nat \<Rightarrow> job list \<Rightarrow> job list" where
  "jobs_of k js = filter (\<lambda>j. job_ctx j = k) js"

definition view_ok :: "rpc_run \<Rightarrow> nat \<Rightarrow> bool" where
  "view_ok r k \<longleftrightarrow>
     ctx_ok k (st_store (r_st r) ! k) (count_list (map snd (st_ctxs (r_st r))) k) (jobs_of k (r_jobs r))
       (k \<in> set (st_timers (r_st r))) (count_list (st_resumed (r_st r)) k)
       (r_taken r k) (r_result r k) (r_response r k)"

definition bounded :: "rpc_run \<Rightarrow> bool" where
  "bounded r \<longleftrightarrow>
     (\<forall>(sn, k) \<in> set (st_ctxs (r_st r)). k < length (st_store (r_st r)) \<and> ctx_sn (st_store (r_st r) ! k) = sn) \<and>
     job_ctx ` set (r_jobs r) \<union> set (st_timers (r_st r)) \<union> set (st_resumed (r_st r)) \<subseteq> {..<length (st_store (r_st r))} \<and>
     (\<forall>k \<ge> length (st_store (r_st r)). r_taken r k = None \<and> r_result r k = None \<and> r_response r k = None)"

definition run_ok :: "rpc_run \<Rightarrow> bool" where
  "run_ok r \<longleftrightarrow> bounded r \<and> (\<forall>k < length (st_store (r_st r)). view_ok r k)"

lemma new_run_ok: "run_ok (new_run (new_stream connected))"
  by (simp add: run_ok_def bounded_def new_run_def new_stream_def)

section \<open>One context\<close>

lemma tokens_simps [simp]:
  "tokens P [] = 0"
  "tokens P (j # js) = (if P j then Suc (tokens P js) else tokens P js)"
  by (simp_all add: tokens_def)

lemma tokens_remove1:
  "j \<in> set js \<Longrightarrow> tokens P js = (if P j then Suc (tokens P (remove1 j js)) else tokens P (remove1 j js))"
  by (induction js) auto

lemma tokens_0: "tokens P js = 0 \<longleftrightarrow> (\<forall>j \<in> set js. \<not> P j)"
  by (simp add: tokens_def filter_empty_conv)

lemma in_remove1: "x \<in> set (remove1 j js) \<Longrightarrow> x \<in> set js"
  using set_remove1_subset [of j js] by blast

lemma in_remove1_other [simp]: "x \<noteq> j \<Longrightarrow> x \<in> set (remove1 j js) \<longleftrightarrow> x \<in> set js"
  by (rule in_set_remove1)

lemma settled_cases [simp]: "settled err_TIMEOUT n tk" "gone n tk \<Longrightarrow> settled err_IO_ERROR n tk"
    "took tk rsp \<Longrightarrow> settled (rsp_result rsp) n tk"
  by (auto simp: settled_def)

lemma gone_fewer: "gone n tk \<Longrightarrow> n' \<le> n \<Longrightarrow> gone n' tk"
  by (simp add: gone_def)

lemma settled_fewer: "settled v n tk \<Longrightarrow> n' \<le> n \<Longrightarrow> settled v n' tk"
  by (auto simp: settled_def gone_def)

lemma ctx_ok_fewer:
  assumes "ctx_ok k c n js a m tk rs rp" "n' \<le> n"
  shows "ctx_ok k c n' js a m tk rs rp"
proof -
  have g: "gone n tk \<Longrightarrow> gone n' tk" and s: "settled v n tk \<Longrightarrow> settled v n' tk" for v
    using assms(2) by (auto intro: gone_fewer settled_fewer)
  have "counts_ok c n' js m" "taken_ok k c n' js tk"
    using assms by (auto simp: ctx_ok_def counts_ok_def taken_ok_def)
  moreover have "result_ok k c n' js m tk" using assms(1) s unfolding ctx_ok_def result_ok_def by blast
  moreover have "silent_ok k c n' js m tk" using assms(1) g unfolding ctx_ok_def silent_ok_def by blast
  moreover have "read_ok c n' m tk rs rp" using assms(1) g s unfolding ctx_ok_def read_ok_def by blast
  ultimately show ?thesis using assms(1) by (simp add: ctx_ok_def)
qed

text \<open>How each group changes when a job \<open>j\<close> is executed and leaves \<open>js'\<close>.\<close>

lemma counts_job:
  assumes "counts_ok c n js m" "j \<in> set js"
    and "tokens holds js' \<le> (if holds j then 1 else 0)" "tokens answers js' = (if answers j then 1 else 0)"
    and "ctx_scheduler c' = ctx_scheduler c" "ctx_fiber c' = ctx_fiber c"
  shows "counts_ok c' n (js' @ remove1 j js) m"
  using assms tokens_remove1 [OF assms(2), of holds] tokens_remove1 [OF assms(2), of answers]
  by (auto simp: counts_ok_def tokens_def split: if_splits)

lemma counts_hold:
  assumes "counts_ok c n js m" "j \<in> set js" "holds j"
  shows "n = 0"
  using assms(1) tokens_remove1 [OF assms(2), of holds] assms(3) by (simp add: counts_ok_def)

text \<open>The caller let through is the only one, and the fiber is still there.\<close>

lemma counts_answer:
  assumes "counts_ok c n js m" "j \<in> set js" "answers j"
  shows "ctx_scheduler c = None \<and> m = 0 \<and> ctx_fiber c \<noteq> None \<and> (\<forall>x \<in> set (remove1 j js). \<not> answers x)"
  using assms(1) tokens_remove1 [OF assms(2), of answers] assms(3)
  by (auto simp: counts_ok_def simp flip: tokens_0 split: if_splits)

lemmas group_defs = taken_ok_def result_ok_def silent_ok_def read_ok_def alive_ok_def

text \<open>The effect of each job on its own context.\<close>

lemma ok_timer:
  assumes "ctx_ok k c n js a m tk rs rp" "JTimer k \<in> set js"
  shows "ctx_ok k c n ([JAssign k] @ remove1 (JTimer k) js) True m tk rs rp"
  using assms counts_job [of c n js m "JTimer k" "[JAssign k]" c]
  unfolding ctx_ok_def by (intro conjI) (auto simp: group_defs)

lemma ok_assign:
  assumes "ctx_ok k c n js a m tk rs rp" "JAssign k \<in> set js"
  shows "ctx_ok k (c\<lparr>ctx_timer := True\<rparr>) n ([JQueue k] @ remove1 (JAssign k) js) a m tk rs rp"
  using assms counts_job [of c n js m "JAssign k" "[JQueue k]" "c\<lparr>ctx_timer := True\<rparr>"]
  unfolding ctx_ok_def by (intro conjI) (auto simp: group_defs)

lemma ok_queue:
  assumes "ctx_ok k c n js a m tk rs rp" "JQueue k \<in> set js"
  shows "ctx_ok k c n (remove1 (JQueue k) js) a m tk rs rp"
  using assms counts_job [of c n js m "JQueue k" "[]" c]
  unfolding ctx_ok_def by (intro conjI) (auto simp: group_defs)

lemma ok_erase:
  assumes "ctx_ok k c n js a m tk rs rp" "JErase k \<in> set js"
  shows "ctx_ok k c n ([JMark k] @ remove1 (JErase k) js) a m tk rs rp"
  using assms counts_job [of c n js m "JErase k" "[JMark k]" c]
  unfolding ctx_ok_def by (intro conjI) (auto simp: group_defs)

lemma ok_mark:
  assumes "ctx_ok k c n js a m tk rs rp" "JMark k \<in> set js"
  shows "ctx_ok k (c\<lparr>ctx_timed := True\<rparr>) n ([JClaim k] @ remove1 (JMark k) js) a m tk rs rp"
  using assms counts_job [of c n js m "JMark k" "[JClaim k]" "c\<lparr>ctx_timed := True\<rparr>"]
  unfolding ctx_ok_def by (intro conjI) (auto simp: group_defs)

lemma groups:
  assumes "ctx_ok k c n js a m tk rs rp"
  shows "counts_ok c n js m" "taken_ok k c n js tk" "result_ok k c n js m tk" "silent_ok k c n js m tk"
    "read_ok c n m tk rs rp" "alive_ok k c js a"
  using assms by (simp_all add: ctx_ok_def)

lemma ok_fail:
  assumes "ctx_ok k c n js a m tk rs rp" "JFail k \<in> set js"
  shows "ctx_ok k (c\<lparr>ctx_result := err_IO_ERROR\<rparr>) n ([JClaim k] @ remove1 (JFail k) js) a m tk rs rp"
    (is "ctx_ok k ?c n ?js a m tk rs rp")
proof -
  note g = groups [OF assms(1)]
  have n: "n = 0" using counts_hold [OF g(1) assms(2)] by simp
  have none: "\<not> took tk r" for r using assms(2) g(2) by (auto simp: taken_ok_def)
  then have gone: "gone n tk" using n by (cases tk) (auto simp: gone_def took_def)
  have "counts_ok ?c n ?js m" using counts_job [OF g(1) assms(2), of "[JClaim k]" ?c] by simp
  moreover have "taken_ok k ?c n ?js tk" using g(2) none by (auto simp: taken_ok_def)
  moreover have "result_ok k ?c n ?js m tk" using gone by (simp add: result_ok_def)
  moreover have "silent_ok k ?c n ?js m tk" using gone by (simp add: silent_ok_def)
  moreover have "read_ok ?c n m tk rs rp" using g(5) by (simp add: read_ok_def)
  moreover have "alive_ok k ?c ?js a" by (simp add: alive_ok_def)
  ultimately show ?thesis by (simp add: ctx_ok_def)
qed

lemma ok_result:
  assumes "ctx_ok k c n js a m tk rs rp" "JResult k rsp \<in> set js"
  shows "ctx_ok k (c\<lparr>ctx_result := rsp_result rsp\<rparr>) n ([JResponse k rsp] @ remove1 (JResult k rsp) js) a m tk rs rp"
    (is "ctx_ok k ?c n ?js a m tk rs rp")
proof -
  note g = groups [OF assms(1)]
  have tk: "took tk rsp" using assms(2) g(2) by (auto simp: taken_ok_def)
  have "counts_ok ?c n ?js m" using counts_job [OF g(1) assms(2), of "[JResponse k rsp]" ?c] by simp
  moreover have "taken_ok k ?c n ?js tk" using g(2) tk by (auto simp: taken_ok_def dest: in_remove1)
  moreover have "result_ok k ?c n ?js m tk" using tk by (simp add: result_ok_def)
  moreover have "silent_ok k ?c n ?js m tk" using g(4) by (simp add: silent_ok_def)
  moreover have "read_ok ?c n m tk rs rp" using g(5) by (simp add: read_ok_def)
  moreover have "alive_ok k ?c ?js a" using g(6) by (simp add: alive_ok_def)
  ultimately show ?thesis by (simp add: ctx_ok_def)
qed

lemma ok_response:
  assumes "ctx_ok k c n js a m tk rs rp" "JResponse k rsp \<in> set js"
  shows "ctx_ok k (c\<lparr>ctx_response := Some rsp\<rparr>) n ([JClaim k] @ remove1 (JResponse k rsp) js) a m tk rs rp"
    (is "ctx_ok k ?c n ?js a m tk rs rp")
proof -
  note g = groups [OF assms(1)]
  have tk: "took tk rsp" using assms(2) g(2) by (auto simp: taken_ok_def)
  have res: "settled (ctx_result c) n tk" using assms(2) g(3) by (auto simp: result_ok_def)
  have "counts_ok ?c n ?js m" using counts_job [OF g(1) assms(2), of "[JClaim k]" ?c] by simp
  moreover have "taken_ok k ?c n ?js tk" using g(2) tk by (auto simp: taken_ok_def dest: in_remove1)
  moreover have "result_ok k ?c n ?js m tk" using res by (simp add: result_ok_def)
  moreover have "silent_ok k ?c n ?js m tk" by (simp add: silent_ok_def)
  moreover have "read_ok ?c n m tk rs rp" using g(5) by (simp add: read_ok_def)
  moreover have "alive_ok k ?c ?js a" by (simp add: alive_ok_def)
  ultimately show ?thesis by (simp add: ctx_ok_def)
qed

lemma ok_claim:
  assumes "ctx_ok k c n js a m tk rs rp" "JClaim k \<in> set js" "ctx_scheduler c = Some t"
  shows "ctx_ok k (c\<lparr>ctx_scheduler := None\<rparr>) n ([JCancel k] @ remove1 (JClaim k) js) a m tk rs rp"
proof -
  have "counts_ok (c\<lparr>ctx_scheduler := None\<rparr>) n ([JCancel k] @ remove1 (JClaim k) js) m"
    using assms tokens_remove1 [OF assms(2), of holds] tokens_remove1 [OF assms(2), of answers]
    by (auto simp: ctx_ok_def counts_ok_def)
  then show ?thesis
    using assms unfolding ctx_ok_def by (intro conjI) (auto simp: group_defs dest: in_remove1)
qed

lemma ok_late:
  assumes "ctx_ok k c n js a m tk rs rp" "JClaim k \<in> set js" "ctx_scheduler c = None"
  shows "ctx_ok k c n (remove1 (JClaim k) js) a m tk rs rp"
  using assms counts_job [of c n js m "JClaim k" "[]" c]
  unfolding ctx_ok_def by (intro conjI) (auto simp: group_defs dest: in_remove1)

lemma ok_cancel:
  assumes "ctx_ok k c n js a m tk rs rp" "JCancel k \<in> set js"
  shows "ctx_fiber c \<noteq> None \<and> ctx_ok k (c\<lparr>ctx_timer := tm\<rparr>) n ([JSettle k] @ remove1 (JCancel k) js) a' m tk rs rp"
  using assms counts_job [of c n js m "JCancel k" "[JSettle k]" "c\<lparr>ctx_timer := tm\<rparr>"]
    counts_answer [of c n js m "JCancel k"]
  unfolding ctx_ok_def by (intro conjI) (auto simp: group_defs dest: in_remove1)

lemma ok_settle:
  assumes "ctx_ok k c n js a m tk rs rp" "JSettle k \<in> set js"
  shows "ctx_ok k (if ctx_timed c then c\<lparr>ctx_result := err_TIMEOUT\<rparr> else c) n
    ([JSchedule k] @ remove1 (JSettle k) js) a m tk rs rp" (is "ctx_ok k ?c n _ a m tk rs rp")
  using assms counts_job [of c n js m "JSettle k" "[JSchedule k]" ?c] counts_answer [of c n js m "JSettle k"]
  unfolding ctx_ok_def by (intro conjI) (auto simp: group_defs dest: in_remove1)

lemma ok_schedule:
  assumes "ctx_ok k c n js a m tk rs rp" "JSchedule k \<in> set js"
  shows "ctx_ok k (c\<lparr>ctx_fiber := None\<rparr>) n (remove1 (JSchedule k) js) a (Suc m) tk rs rp"
proof -
  have "counts_ok (c\<lparr>ctx_fiber := None\<rparr>) n (remove1 (JSchedule k) js) (Suc m)"
    using assms tokens_remove1 [OF assms(2), of holds] tokens_remove1 [OF assms(2), of answers]
    by (auto simp: ctx_ok_def counts_ok_def)
  then show ?thesis
    using assms counts_answer [of c n js m "JSchedule k"]
    unfolding ctx_ok_def by (intro conjI) (auto simp: group_defs dest: in_remove1)
qed

text \<open>The reader takes the context, a close takes it, its timer fires, a new context.\<close>

lemma ok_take:
  assumes "ctx_ok k c n js a m tk rs rp" "n > 0" "rsp_sn rsp = ctx_sn c"
  shows "ctx_ok k c 0 (JResult k rsp # js) a m (Some rsp) rs rp"
proof -
  have n: "n = 1" "tokens holds js = 0" and tk: "tk = None"
    using assms by (auto simp: ctx_ok_def counts_ok_def taken_ok_def took_def)
  have js: "JFail k \<notin> set js" "JResult k r \<notin> set js" "JResponse k r \<notin> set js" for r
    using n(2) by (auto simp: tokens_0)
  have tm: "settled v n tk \<Longrightarrow> settled v 0 (Some rsp)" and no: "\<not> gone n tk" "\<not> took tk r" for v r
    using n tk by (auto simp: settled_def gone_def took_def)
  have "counts_ok c 0 (JResult k rsp # js) m" using assms(1) n by (simp add: ctx_ok_def counts_ok_def)
  then show ?thesis
    using assms(1,3) js tm no unfolding ctx_ok_def
    by (intro conjI) (auto simp: group_defs took_def)
qed

lemma ok_swap:
  assumes "ctx_ok k c n js a m tk rs rp" "n > 0"
  shows "ctx_ok k c 0 (JFail k # js) a m tk rs rp"
proof -
  have n: "n = 1" "tokens holds js = 0" and tk: "\<not> took tk r" for r
    using assms by (auto simp: ctx_ok_def counts_ok_def taken_ok_def)
  have "counts_ok c 0 (JFail k # js) m" using assms(1) n by (simp add: ctx_ok_def counts_ok_def)
  then show ?thesis
    using ctx_ok_fewer [OF assms(1), of 0] tk unfolding ctx_ok_def by (intro conjI) (auto simp: group_defs)
qed

lemma ok_fire:
  assumes "ctx_ok k c n js a m tk rs rp"
  shows "ctx_ok k c n (JErase k # js) a' m tk rs rp"
  using assms unfolding ctx_ok_def by (intro conjI) (auto simp: group_defs counts_ok_def)

lemma ok_new: "ctx_fiber c \<noteq> None \<Longrightarrow> ctx_scheduler c \<noteq> None \<Longrightarrow> ctx_response c = None \<Longrightarrow> n \<le> 1 \<Longrightarrow>
   ctx_ok k c n [JTimer k] a 0 None None None"
  unfolding ctx_ok_def by (intro conjI) (auto simp: group_defs counts_ok_def took_def)

section \<open>Every step keeps the invariant\<close>

lemma notify_frame [simp]:
  "st_store (notify_sem st) = st_store st" "st_ctxs (notify_sem st) = st_ctxs st"
  "st_timers (notify_sem st) = st_timers st" "st_resumed (notify_sem st) = st_resumed st"
  by (simp_all add: notify_sem_def split: prod.split)

lemma enqueue_frame [simp]:
  "st_store (snd (enqueue x st)) = st_store st" "st_ctxs (snd (enqueue x st)) = st_ctxs st"
  "st_timers (snd (enqueue x st)) = st_timers st" "st_resumed (snd (enqueue x st)) = st_resumed st"
  by (simp_all add: enqueue_def Let_def)

lemma request_enqueue_frame [simp]:
  "st_store (request_enqueue k st) = st_store st" "st_ctxs (request_enqueue k st) = st_ctxs st"
  "st_timers (request_enqueue k st) = st_timers st" "st_resumed (request_enqueue k st) = st_resumed st"
  by (simp_all add: request_enqueue_def)

lemma send_frame [simp]:
  "st_store (snd (sendMessage m st)) = st_store st" "st_ctxs (snd (sendMessage m st)) = st_ctxs st"
  "st_timers (snd (sendMessage m st)) = st_timers st" "st_resumed (snd (sendMessage m st)) = st_resumed st"
  by (simp_all add: sendMessage_def)

lemma emit_frame [simp]:
  "st_store (emit e st) = st_store st" "st_ctxs (emit e st) = st_ctxs st"
  "st_timers (emit e st) = st_timers st" "st_resumed (emit e st) = st_resumed st"
  by (simp_all add: emit_def)

lemma other_frame [simp]:
  "st_store (recv_other m st) = st_store st" "st_ctxs (recv_other m st) = st_ctxs st"
  "st_timers (recv_other m st) = st_timers st" "st_resumed (recv_other m st) = st_resumed st"
  by (simp_all add: recv_other_def split: message.split)

lemma close_frame [simp]:
  "st_store (async_close st) = st_store st" "st_ctxs (async_close st) = st_ctxs st"
  "st_timers (async_close st) = st_timers st" "st_resumed (async_close st) = st_resumed st"
  by (simp_all add: async_close_def Let_def)

lemma erase_frame [simp]:
  "st_store (erase_ctx sn st) = st_store st" "st_timers (erase_ctx sn st) = st_timers st"
  "st_resumed (erase_ctx sn st) = st_resumed st" "st_ctxs (erase_ctx sn st) = filter (\<lambda>p. fst p \<noteq> sn) (st_ctxs st)"
  by (simp_all add: erase_ctx_def)

lemma at_ctx_frame [simp]:
  "length (st_store (at_ctx k f st)) = length (st_store st)" "st_ctxs (at_ctx k f st) = st_ctxs st"
  "st_timers (at_ctx k f st) = st_timers st" "st_resumed (at_ctx k f st) = st_resumed st"
  by (simp_all add: at_ctx_def)

lemma at_ctx_nth [simp]:
  "j < length (st_store st) \<Longrightarrow> st_store (at_ctx k f st) ! j = (if j = k then f (st_store st ! k) else st_store st ! j)"
  by (simp add: at_ctx_def nth_list_update)

lemma count_filter_le: "count_list (map f (filter P xs)) j \<le> count_list (map f xs) j"
  by (induction xs) auto

lemma run_okD:
  assumes "run_ok r" "k < length (st_store (r_st r))"
  shows "ctx_ok k (st_store (r_st r) ! k) (count_list (map snd (st_ctxs (r_st r))) k) (jobs_of k (r_jobs r))
       (k \<in> set (st_timers (r_st r))) (count_list (st_resumed (r_st r)) k) (r_taken r k) (r_result r k) (r_response r k)"
  using assms by (simp add: run_ok_def view_ok_def)

text \<open>A step that leaves every context but \<open>k\<close> alone, except for entries it erases.\<close>

lemma lift_ok:
  assumes "run_ok r" "k < length (st_store (r_st r))"
    and "length (st_store (r_st r')) = length (st_store (r_st r))"
    and "\<And>j. j < length (st_store (r_st r)) \<Longrightarrow> j \<noteq> k \<Longrightarrow> st_store (r_st r') ! j = st_store (r_st r) ! j"
    and "ctx_sn (st_store (r_st r') ! k) = ctx_sn (st_store (r_st r) ! k)"
    and "st_ctxs (r_st r') = filter P (st_ctxs (r_st r))"
    and "job_ctx ` set (r_jobs r') \<subseteq> insert k (job_ctx ` set (r_jobs r))"
    and "\<And>j. j \<noteq> k \<Longrightarrow> jobs_of j (r_jobs r') = jobs_of j (r_jobs r)"
    and "\<And>j. j \<noteq> k \<Longrightarrow> j \<in> set (st_timers (r_st r')) \<longleftrightarrow> j \<in> set (st_timers (r_st r))"
    and "\<And>j. j \<noteq> k \<Longrightarrow> count_list (st_resumed (r_st r')) j = count_list (st_resumed (r_st r)) j"
    and "\<And>j. j \<noteq> k \<Longrightarrow> r_taken r' j = r_taken r j \<and> r_result r' j = r_result r j \<and> r_response r' j = r_response r j"
    and "view_ok r' k"
  shows "run_ok r'"
proof -
  let ?n = "length (st_store (r_st r))"
  have b: "bounded r" using assms(1) by (simp add: run_ok_def)
  have "j < ?n" if "j \<in> set (st_timers (r_st r')) \<union> set (st_resumed (r_st r')) \<union> job_ctx ` set (r_jobs r')" for j
  proof (cases "j = k")
    case False
    then have "j \<in> set (st_resumed (r_st r')) \<longleftrightarrow> j \<in> set (st_resumed (r_st r))"
      using assms(10) [of j] by (metis count_list_0_iff)
    then have "j \<in> set (st_timers (r_st r)) \<union> set (st_resumed (r_st r)) \<union> job_ctx ` set (r_jobs r)"
      using that False assms(7,9) by auto
    then show ?thesis using b by (auto simp: bounded_def)
  qed (use assms(2) in simp)
  moreover have "j < ?n \<and> ctx_sn (st_store (r_st r') ! j) = sn" if "(sn, j) \<in> set (st_ctxs (r_st r'))" for sn j
  proof -
    have "j < ?n \<and> ctx_sn (st_store (r_st r) ! j) = sn" using that assms(6) b by (auto simp: bounded_def)
    then show ?thesis using assms(4,5) by (cases "j = k") auto
  qed
  moreover have "r_taken r' j = None \<and> r_result r' j = None \<and> r_response r' j = None" if "?n \<le> j" for j
    using b that assms(2) assms(11) [of j] by (auto simp: bounded_def)
  ultimately have "bounded r'" unfolding bounded_def assms(3) by blast
  moreover have "view_ok r' j" if "j < ?n" for j
  proof (cases "j = k")
    case False
    have "ctx_ok j (st_store (r_st r) ! j) (count_list (map snd (st_ctxs (r_st r'))) j) (jobs_of j (r_jobs r))
       (j \<in> set (st_timers (r_st r))) (count_list (st_resumed (r_st r)) j) (r_taken r j) (r_result r j) (r_response r j)"
      by (rule ctx_ok_fewer [OF run_okD [OF assms(1) that]]) (simp add: assms(6) count_filter_le)
    then show ?thesis using False that assms(4,8-11) by (simp add: view_ok_def)
  qed (use assms(12) in simp)
  ultimately show ?thesis by (simp add: run_ok_def assms(3))
qed

lemma jobs_of_step:
  assumes "\<forall>x \<in> set js. job_ctx x = k" "job_ctx j = k"
  shows "jobs_of k (js @ remove1 j jobs) = js @ remove1 j (jobs_of k jobs)"
    and "i \<noteq> k \<Longrightarrow> jobs_of i (js @ remove1 j jobs) = jobs_of i jobs"
proof -
  show "jobs_of k (js @ remove1 j jobs) = js @ remove1 j (jobs_of k jobs)"
    using assms by (simp add: jobs_of_def filter_remove1 filter_id_conv)
  assume "i \<noteq> k"
  then have "filter (\<lambda>x. job_ctx x = i) js = []" "j \<notin> set (filter (\<lambda>x. job_ctx x = i) jobs)"
    using assms by (auto simp: filter_empty_conv)
  then show "jobs_of i (js @ remove1 j jobs) = jobs_of i jobs"
    by (simp add: jobs_of_def filter_remove1 remove1_idem)
qed

text \<open>What a job does to the stream, whatever it is, and the context it is for.\<close>

lemma job_frame:
  assumes "job_step j st = (js, st')" "job_ctx j < length (st_store st)"
  shows "\<forall>x \<in> set js. job_ctx x = job_ctx j"
    and "length (st_store st') = length (st_store st)"
    and "i < length (st_store st) \<Longrightarrow> i \<noteq> job_ctx j \<Longrightarrow> st_store st' ! i = st_store st ! i"
    and "ctx_sn (st_store st' ! job_ctx j) = ctx_sn (st_store st ! job_ctx j)"
    and "\<exists>P. st_ctxs st' = filter P (st_ctxs st)"
    and "i \<noteq> job_ctx j \<Longrightarrow> i \<in> set (st_timers st') \<longleftrightarrow> i \<in> set (st_timers st)"
    and "i \<noteq> job_ctx j \<Longrightarrow> count_list (st_resumed st') i = count_list (st_resumed st) i"
proof -
  note defs = request_addTimer_def request_assign_def onTimeOut_erase_def onTimeOut_mark_def fail_mark_def
    recv_result_def recv_response_def rsp_claim_def rsp_cancel_def rsp_settle_def rsp_schedule_def Let_def
  show "\<forall>x \<in> set js. job_ctx x = job_ctx j"
    using assms by (cases j) (auto split: prod.splits if_splits)
  show "length (st_store st') = length (st_store st)"
    using assms by (cases j) (auto simp: defs split: option.splits if_splits)
  show "i < length (st_store st) \<Longrightarrow> i \<noteq> job_ctx j \<Longrightarrow> st_store st' ! i = st_store st ! i"
    using assms by (cases j) (auto simp: defs split: option.splits if_splits)
  show "ctx_sn (st_store st' ! job_ctx j) = ctx_sn (st_store st ! job_ctx j)"
    using assms by (cases j) (auto simp: defs split: option.splits if_splits)
  show "\<exists>P. st_ctxs st' = filter P (st_ctxs st)"
    by (rule exI [of _ "case j of JErase k \<Rightarrow> (\<lambda>p. fst p \<noteq> ctx_sn (st_store st ! k)) | _ \<Rightarrow> (\<lambda>_. True)"])
      (use assms in \<open>cases j; auto simp: defs split: option.splits if_splits\<close>)
  show "i \<noteq> job_ctx j \<Longrightarrow> i \<in> set (st_timers st') \<longleftrightarrow> i \<in> set (st_timers st)"
    using assms by (cases j) (auto simp: defs split: option.splits if_splits)
  show "i \<noteq> job_ctx j \<Longrightarrow> count_list (st_resumed st') i = count_list (st_resumed st) i"
    using assms by (cases j) (auto simp: defs split: option.splits if_splits)
qed

lemma job_view:
  assumes "run_ok r" "j \<in> set (r_jobs r)" "job_step j (r_st r) = (js, st)"
  shows "view_ok (r\<lparr>r_st := st, r_jobs := js @ remove1 j (r_jobs r)\<rparr>) (job_ctx j)"
proof -
  let ?k = "job_ctx j"
  have k: "?k < length (st_store (r_st r))" using assms(1,2) by (auto simp: run_ok_def bounded_def)
  have fewer: "\<exists>P. st_ctxs st = filter P (st_ctxs (r_st r))" by (rule job_frame(5) [OF assms(3) k])
  have le: "count_list (map snd (st_ctxs st)) i \<le> count_list (map snd (st_ctxs (r_st r))) i" for i
    using fewer by (auto simp: count_filter_le)
  have mem: "j \<in> set (jobs_of ?k (r_jobs r))" using assms(2) by (simp add: jobs_of_def)
  note ok = run_okD [OF assms(1) k]
  have jobs: "jobs_of ?k (js @ remove1 j (r_jobs r)) = js @ remove1 j (jobs_of ?k (r_jobs r))"
    by (rule jobs_of_step(1) [OF job_frame(1) [OF assms(3) k] refl])
  have "ctx_ok ?k (st_store st ! ?k) (count_list (map snd (st_ctxs (r_st r))) ?k)
      (js @ remove1 j (jobs_of ?k (r_jobs r))) (?k \<in> set (st_timers st)) (count_list (st_resumed st) ?k)
      (r_taken r ?k) (r_result r ?k) (r_response r ?k)"
  proof (cases j)
    case (JTimer i)
    then show ?thesis using assms(3) ok ok_timer [OF ok] mem by (auto simp: request_addTimer_def)
  next
    case (JAssign i)
    then show ?thesis using assms(3) ok_assign [OF ok] mem k by (auto simp: request_assign_def)
  next
    case (JQueue i)
    then show ?thesis using assms(3) ok_queue [OF ok] mem by auto
  next
    case (JErase i)
    then show ?thesis using assms(3) ok_erase [OF ok] mem by (auto simp: onTimeOut_erase_def)
  next
    case (JMark i)
    then show ?thesis using assms(3) ok_mark [OF ok] mem k by (auto simp: onTimeOut_mark_def)
  next
    case (JFail i)
    then show ?thesis using assms(3) ok_fail [OF ok] mem k by (auto simp: fail_mark_def)
  next
    case (JResult i rsp)
    then show ?thesis using assms(3) ok_result [OF ok] mem k by (auto simp: recv_result_def)
  next
    case (JResponse i rsp)
    then show ?thesis using assms(3) ok_response [OF ok] mem k by (auto simp: recv_response_def)
  next
    case (JClaim i)
    then show ?thesis
      using assms(3) ok_claim [OF ok] ok_late [OF ok] mem k
      by (cases "ctx_scheduler (st_store (r_st r) ! i)") (auto simp: rsp_claim_def)
  next
    case (JCancel i)
    then obtain f where "ctx_fiber (st_store (r_st r) ! i) = Some f"
      using ok_cancel [OF ok] mem by auto
    then show ?thesis
      using JCancel assms(3) ok_cancel [OF ok, of False False] ok_cancel [OF ok, of "ctx_timer (st_store (r_st r) ! i)"] mem k
      by (cases "ctx_timer (st_store (r_st r) ! i)") (auto simp: rsp_cancel_def Let_def)
  next
    case (JSettle i)
    then show ?thesis using assms(3) ok_settle [OF ok] mem k by (auto simp: rsp_settle_def)
  next
    case (JSchedule i)
    then show ?thesis using assms(3) ok_schedule [OF ok] mem k by (auto simp: rsp_schedule_def Let_def)
  qed
  from ctx_ok_fewer [OF this le] show ?thesis by (simp add: view_ok_def jobs)
qed

lemma job_ok:
  assumes "run_ok r" "j \<in> set (r_jobs r)" "job_step j (r_st r) = (js, st)"
  shows "run_ok (r\<lparr>r_st := st, r_jobs := js @ remove1 j (r_jobs r)\<rparr>)"
proof -
  have k: "job_ctx j < length (st_store (r_st r))" using assms(1,2) by (auto simp: run_ok_def bounded_def)
  obtain P where P: "st_ctxs st = filter P (st_ctxs (r_st r))" using job_frame(5) [OF assms(3) k] by blast
  note js = job_frame(1) [OF assms(3) k]
  have "job_ctx ` set (js @ remove1 j (r_jobs r)) \<subseteq> insert (job_ctx j) (job_ctx ` set (r_jobs r))"
    using js by (auto dest: in_remove1)
  then show ?thesis
    using job_frame(2-4,6,7) [OF assms(3) k] P job_view [OF assms] jobs_of_step(2) [OF js refl]
    by (intro lift_ok [OF assms(1) k]) simp_all
qed

text \<open>A step that leaves contexts, table, timers and resumed fibers alone.\<close>

lemma frame_ok:
  assumes "run_ok r" "st_store st = st_store (r_st r)" "st_ctxs st = st_ctxs (r_st r)"
    "st_timers st = st_timers (r_st r)" "st_resumed st = st_resumed (r_st r)"
  shows "run_ok (r\<lparr>r_st := st\<rparr>)"
  using assms by (simp add: run_ok_def bounded_def view_ok_def)

lemma add_ok:
  assumes "run_ok r" "request_add req t sch fib (r_st r) = (k, st)"
  shows "run_ok (r\<lparr>r_st := st, r_jobs := JTimer k # r_jobs r\<rparr>)" (is "run_ok ?r")
proof -
  let ?n = "length (st_store (r_st r))"
  define c where "c = new_ctx\<lparr>ctx_request := req, ctx_sn := req_sn req, ctx_timeout := t,
     ctx_scheduler := Some sch, ctx_fiber := Some fib\<rparr>"
  have k: "k = ?n" and store: "st_store st = st_store (r_st r) @ [c]" and rest: "st_timers st = st_timers (r_st r)"
      "st_resumed st = st_resumed (r_st r)"
    and ctxs: "st_ctxs st = st_ctxs (r_st r) \<or> st_ctxs st = (ctx_sn c, ?n) # st_ctxs (r_st r)"
    using assms(2) by (auto simp: request_add_def addCtx_def Let_def c_def split: if_splits)
  have b: "bounded r" using assms(1) by (simp add: run_ok_def)
  have "j < Suc ?n \<and> ctx_sn (st_store st ! j) = sn" if "(sn, j) \<in> set (st_ctxs st)" for sn j
  proof (cases "(sn, j) \<in> set (st_ctxs (r_st r))")
    case True
    then have "j < ?n \<and> ctx_sn (st_store (r_st r) ! j) = sn" using b by (auto simp: bounded_def)
    then show ?thesis by (simp add: store nth_append)
  next
    case False
    then show ?thesis using that ctxs by (auto simp: store)
  qed
  then have "bounded ?r" using b by (auto simp: bounded_def store rest k)
  moreover have "view_ok ?r j" if "j < Suc ?n" for j
  proof (cases "j = ?n")
    case True
    have "?n \<notin> snd ` set (st_ctxs (r_st r))" "\<forall>x \<in> set (r_jobs r). job_ctx x \<noteq> ?n" "?n \<notin> set (st_resumed (r_st r))"
      using b by (auto simp: bounded_def)
    then have "count_list (map snd (st_ctxs st)) ?n \<le> 1" "jobs_of ?n (r_jobs r) = []" "count_list (st_resumed (r_st r)) ?n = 0"
      using ctxs by (auto simp: count_list_0_iff jobs_of_def filter_empty_conv)
    moreover have "ctx_fiber c \<noteq> None" "ctx_scheduler c \<noteq> None" "ctx_response c = None"
      by (simp_all add: c_def new_ctx_def)
    moreover have "r_taken r ?n = None" "r_result r ?n = None" "r_response r ?n = None"
      using b by (simp_all add: bounded_def)
    ultimately show ?thesis
      using True ok_new [of c] by (simp add: view_ok_def store rest k jobs_of_def)
  next
    case False
    then have j: "j < ?n" using that by simp
    then have "count_list (map snd (st_ctxs st)) j = count_list (map snd (st_ctxs (r_st r))) j" using ctxs by auto
    then show ?thesis using run_okD [OF assms(1) j] j by (simp add: view_ok_def store rest nth_append k jobs_of_def)
  qed
  ultimately show ?thesis by (simp add: run_ok_def store)
qed

lemma recv_ok:
  assumes "run_ok r" "getAndDelCtx (rsp_sn rsp) (r_st r) = (Some k, st)"
  shows "run_ok (r\<lparr>r_st := st, r_jobs := JResult k rsp # r_jobs r, r_taken := (r_taken r)(k := Some rsp)\<rparr>)"
proof -
  have st: "st = erase_ctx (rsp_sn rsp) (r_st r)" and mem: "(rsp_sn rsp, k) \<in> set (st_ctxs (r_st r))"
    using assms(2) by (auto simp: getAndDelCtx_def split: option.splits dest: map_of_SomeD)
  have b: "bounded r" using assms(1) by (simp add: run_ok_def)
  then have k: "k < length (st_store (r_st r))" "ctx_sn (st_store (r_st r) ! k) = rsp_sn rsp"
    using mem by (auto simp: bounded_def)
  have "0 < count_list (map snd (st_ctxs (r_st r))) k"
    using mem by (metis count_list_0_iff gr0I imageI list.set_map snd_conv)
  note ok = ok_take [OF run_okD [OF assms(1) k(1)] this, of rsp]
  have "k \<notin> snd ` {p \<in> set (st_ctxs (r_st r)). fst p \<noteq> rsp_sn rsp}"
    using b k by (auto simp: bounded_def)
  then have "count_list (map snd (st_ctxs st)) k = 0" by (simp add: st count_list_0_iff)
  then show ?thesis
    using ok k by (intro lift_ok [OF assms(1) k(1)]) (auto simp: view_ok_def st jobs_of_def)
qed

text \<open>A close takes all contexts of the table at once.\<close>

lemma jobs_of_fail:
  "count_list ks k \<le> 1 \<Longrightarrow> jobs_of k (map JFail ks @ js) = (if count_list ks k = 0 then [] else [JFail k]) @ jobs_of k js"
proof -
  have "jobs_of k (map JFail ks) = replicate (count_list ks k) (JFail k)"
    by (induction ks) (auto simp: jobs_of_def)
  then show "count_list ks k \<le> 1 \<Longrightarrow> ?thesis" by (auto simp: jobs_of_def le_Suc_eq)
qed

lemma swap_ok:
  assumes "run_ok r" "innerClose_swap True (r_st r) = Inr (ctxs, st)"
  shows "run_ok (r\<lparr>r_st := st, r_jobs := map (JFail \<circ> snd) ctxs @ r_jobs r\<rparr>)" (is "run_ok ?r")
proof -
  have st: "ctxs = st_ctxs (r_st r)" "st_ctxs st = []" "st_store st = st_store (r_st r)"
    "st_timers st = st_timers (r_st r)" "st_resumed st = st_resumed (r_st r)"
    using assms(2) by (auto simp: innerClose_swap_def Let_def emit_def notify_sem_def split: prod.splits if_splits)
  have "bounded r" using assms(1) by (simp add: run_ok_def)
  then have "bounded ?r" by (fastforce simp: bounded_def st)
  moreover have "view_ok ?r k" if "k < length (st_store (r_st r))" for k
  proof -
    let ?n = "count_list (map snd (st_ctxs (r_st r))) k"
    note ok = run_okD [OF assms(1) that]
    then have "?n \<le> 1" by (simp add: ctx_ok_def counts_ok_def)
    then have "jobs_of k (map (JFail \<circ> snd) ctxs @ r_jobs r) = (if ?n = 0 then [] else [JFail k]) @ jobs_of k (r_jobs r)"
      using jobs_of_fail [of "map snd (st_ctxs (r_st r))" k "r_jobs r"] by (simp add: st)
    then show ?thesis
      using ok ok_swap [OF ok] by (cases "?n = 0") (simp_all add: view_ok_def st)
  qed
  ultimately show ?thesis by (simp add: run_ok_def st)
qed

lemma fire_ok:
  assumes "run_ok r" "k \<in> set (st_timers (r_st r))"
  shows "run_ok (r\<lparr>r_st := (r_st r)\<lparr>st_timers := remove1 k (st_timers (r_st r))\<rparr>, r_jobs := JErase k # r_jobs r\<rparr>)"
proof -
  have k: "k < length (st_store (r_st r))" using assms by (auto simp: run_ok_def bounded_def)
  have all: "st_ctxs (r_st r) = filter (\<lambda>_. True) (st_ctxs (r_st r))" by simp
  show ?thesis
    using ok_fire [OF run_okD [OF assms(1) k]] all
    by (intro lift_ok [OF assms(1) k, where P = "\<lambda>_. True"]) (auto simp: view_ok_def jobs_of_def)
qed

lemma read_result_ok:
  assumes "run_ok r" "k \<in> set (st_resumed (r_st r))"
  shows "run_ok (r\<lparr>r_result := (r_result r)(k := Some (read_result k (r_st r)))\<rparr>)"
proof -
  have k: "k < length (st_store (r_st r))" using assms by (auto simp: run_ok_def bounded_def)
  have "count_list (st_resumed (r_st r)) k > 0" using assms(2) by (metis count_list_0_iff gr0I)
  then have "view_ok (r\<lparr>r_result := (r_result r)(k := Some (read_result k (r_st r)))\<rparr>) k"
    using run_okD [OF assms(1) k] by (auto simp: view_ok_def ctx_ok_def read_ok_def result_ok_def read_result_def)
  then show ?thesis
    by (intro lift_ok [OF assms(1) k, where P = "\<lambda>_. True"]) auto
qed

lemma read_response_ok:
  assumes "run_ok r" "k \<in> set (st_resumed (r_st r))"
  shows "run_ok (r\<lparr>r_response := (r_response r)(k := Some (read_response k (r_st r)))\<rparr>)"
proof -
  have k: "k < length (st_store (r_st r))" using assms by (auto simp: run_ok_def bounded_def)
  have "count_list (st_resumed (r_st r)) k > 0" using assms(2) by (metis count_list_0_iff gr0I)
  then have "view_ok (r\<lparr>r_response := (r_response r)(k := Some (read_response k (r_st r)))\<rparr>) k"
    using run_okD [OF assms(1) k]
    by (auto simp: view_ok_def ctx_ok_def read_ok_def taken_ok_def silent_ok_def read_response_def)
  then show ?thesis
    by (intro lift_ok [OF assms(1) k, where P = "\<lambda>_. True"]) auto
qed

lemma step_ok: "rpc_step r r' \<Longrightarrow> run_ok r \<Longrightarrow> run_ok r'"
  by (induction rule: rpc_step.induct)
    (auto intro: add_ok job_ok recv_ok swap_ok fire_ok read_result_ok read_response_ok frame_ok)

lemma reachable_run_ok: "rpc_reachable r \<Longrightarrow> run_ok r"
proof -
  have "run_ok r" if "rpc_step\<^sup>*\<^sup>* (new_run (new_stream connected)) r" for connected
    using that by (induction rule: rtranclp_induct) (auto intro: new_run_ok step_ok)
  then show "rpc_reachable r \<Longrightarrow> run_ok r" by (auto simp: rpc_reachable_def)
qed

section \<open>What a request gets\<close>

lemma reachable_start: "rpc_reachable (new_run (new_stream connected))"
  by (auto simp: rpc_reachable_def)

lemma reachable_step: "rpc_reachable r \<Longrightarrow> rpc_step r r' \<Longrightarrow> rpc_reachable r'"
  by (auto simp: rpc_reachable_def intro: rtranclp.rtrancl_into_rtrancl)

lemma resumed_once: "rpc_reachable r \<Longrightarrow> count_list (st_resumed (r_st r)) k \<le> 1"
proof (cases "k < length (st_store (r_st r))")
  case True
  assume "rpc_reachable r"
  from run_okD [OF reachable_run_ok [OF this] True] show ?thesis by (simp add: ctx_ok_def counts_ok_def)
next
  case False
  assume "rpc_reachable r"
  then have "k \<notin> set (st_resumed (r_st r))" using False reachable_run_ok by (auto simp: run_ok_def bounded_def)
  then show ?thesis by (simp add: count_list_0_iff)
qed

section \<open>Concrete runs\<close>

text \<open>Runs given by what happens, one action after the other.\<close>

datatype action = AAdd rock_request nat nat | AJob job | ARecv rock_response | AFire nat | ARead nat

fun act :: "action \<Rightarrow> rpc_run \<Rightarrow> rpc_run option" where
  "act (AAdd req sch fib) r =
     (let (k, st) = request_add req 1000 sch fib (r_st r)
      in Some (r\<lparr>r_st := st, r_jobs := JTimer k # r_jobs r\<rparr>))"
| "act (AJob j) r =
     (if j \<in> set (r_jobs r) then
        let (js, st) = job_step j (r_st r) in Some (r\<lparr>r_st := st, r_jobs := js @ remove1 j (r_jobs r)\<rparr>)
      else None)"
| "act (ARecv rsp) r =
     (case getAndDelCtx (rsp_sn rsp) (r_st r) of
        (None, _) \<Rightarrow> None
      | (Some k, st) \<Rightarrow>
          Some (r\<lparr>r_st := st, r_jobs := JResult k rsp # r_jobs r, r_taken := (r_taken r)(k := Some rsp)\<rparr>))"
| "act (AFire k) r =
     (if k \<in> set (st_timers (r_st r)) then
        Some (r\<lparr>r_st := (r_st r)\<lparr>st_timers := remove1 k (st_timers (r_st r))\<rparr>, r_jobs := JErase k # r_jobs r\<rparr>)
      else None)"
| "act (ARead k) r =
     (if k \<in> set (st_resumed (r_st r)) \<and> r_result r k = None \<and> r_response r k = None then
        Some (r\<lparr>r_result := (r_result r)(k := Some (read_result k (r_st r))),
                r_response := (r_response r)(k := Some (read_response k (r_st r)))\<rparr>)
      else None)"

fun acts :: "action list \<Rightarrow> rpc_run \<Rightarrow> rpc_run option" where
  "acts [] r = Some r"
| "acts (a # as) r = (case act a r of None \<Rightarrow> None | Some r' \<Rightarrow> acts as r')"

lemma act_steps: "act a r = Some r' \<Longrightarrow> rpc_step\<^sup>*\<^sup>* r r'"
proof (cases a)
  case (AAdd req sch fib)
  assume "act a r = Some r'"
  then show ?thesis using AAdd by (auto intro!: r_into_rtranclp rpc_step.Add split: prod.splits)
next
  case (AJob j)
  assume "act a r = Some r'"
  then show ?thesis using AJob by (auto intro!: r_into_rtranclp rpc_step.Job split: prod.splits if_splits)
next
  case (ARecv rsp)
  assume "act a r = Some r'"
  then show ?thesis using ARecv by (auto intro!: r_into_rtranclp rpc_step.Recv split: prod.splits option.splits)
next
  case (AFire k)
  assume "act a r = Some r'"
  then show ?thesis using AFire by (auto intro!: r_into_rtranclp rpc_step.Fire split: if_splits)
next
  case (ARead k)
  let ?r = "r\<lparr>r_result := (r_result r)(k := Some (read_result k (r_st r)))\<rparr>"
  assume "act a r = Some r'"
  then have "rpc_step r ?r" "rpc_step ?r r'"
    using ARead rpc_step.ReadResult [of k r] rpc_step.ReadResponse [of k ?r] by (auto split: if_splits)
  then show ?thesis by (meson converse_rtranclp_into_rtranclp r_into_rtranclp)
qed

lemma acts_steps: "acts as r = Some r' \<Longrightarrow> rpc_step\<^sup>*\<^sup>* r r'"
  by (induction as arbitrary: r) (auto split: option.splits dest!: act_steps elim: rtranclp_trans)

lemma acts_reachable: "acts as (new_run (new_stream True)) = Some r \<Longrightarrow> rpc_reachable r"
  using acts_steps by (auto simp: rpc_reachable_def)

definition demo_req :: rock_request where "demo_req = new_rock_request\<lparr>req_sn := 7\<rparr>"
definition demo_rsp :: rock_response where "demo_rsp = new_rock_response\<lparr>rsp_sn := 7, rsp_result := 0\<rparr>"

definition demo_run :: "action list \<Rightarrow> rpc_run" where
  "demo_run as = the (acts as (new_run (new_stream True)))"

text \<open>The answer comes; the answer and the timer come at the same time.\<close>

definition demo_answer :: "action list" where
  "demo_answer = [AAdd demo_req 0 5, ARecv demo_rsp, AJob (JResult 0 demo_rsp), AJob (JResponse 0 demo_rsp),
     AJob (JClaim 0), AJob (JCancel 0), AJob (JSettle 0), AJob (JSchedule 0), ARead 0]"

definition demo_race :: "action list" where
  "demo_race = [AAdd demo_req 0 5, AJob (JTimer 0), AFire 0, ARecv demo_rsp, AJob (JErase 0), AJob (JMark 0),
     AJob (JClaim 0), AJob (JCancel 0), AJob (JSettle 0), AJob (JResult 0 demo_rsp), AJob (JSchedule 0), ARead 0]"

lemmas demo_defs = demo_run_def demo_req_def demo_rsp_def demo_answer_def demo_race_def new_run_def new_stream_def
  request_add_def addCtx_def new_ctx_def getAndDelCtx_def erase_ctx_def at_ctx_def
  request_addTimer_def onTimeOut_erase_def onTimeOut_mark_def recv_result_def recv_response_def
  rsp_claim_def rsp_cancel_def rsp_settle_def rsp_schedule_def read_result_def read_response_def
  new_rock_request_def new_request_def new_rock_response_def new_response_def
  request.defs response.defs rock_request.defs rock_response.defs

lemma demo_answer_runs: "acts demo_answer (new_run (new_stream True)) = Some (demo_run demo_answer)"
  by (simp add: demo_defs)

lemma demo_race_runs: "acts demo_race (new_run (new_stream True)) = Some (demo_run demo_race)"
  by (simp add: demo_defs)

text \<open>C3: however the accesses of the reader, the timers, the closes and other requests
  interleave, the fiber of a request is resumed at most once. If it then reads a response, that
  carries its own serial number, and the result it reads is the one of that response or TIMEOUT. If
  it reads no response, the result is TIMEOUT or IO_ERROR, or its timer fired while the reader was
  delivering the response taken for it, and the result is the one of that response.\<close>

theorem request_answered_once:
  assumes "rpc_reachable r"
  shows "count_list (st_resumed (r_st r)) k \<le> 1 \<and>
    (\<forall>result response. r_result r k = Some result \<longrightarrow> r_response r k = Some response \<longrightarrow>
      (let a = request_finish result response used server req; c = st_store (r_st r) ! k in
       case rr_response a of
         Some rsp \<Rightarrow> rsp_sn rsp = ctx_sn c \<and> rr_result a \<in> {sint (rsp_result rsp), - 1}
       | None \<Rightarrow> rr_result a \<in> {- 1, - 2} \<or>
           ctx_timed c \<and> (\<exists>rsp. r_taken r k = Some rsp \<and> rsp_sn rsp = ctx_sn c \<and> rr_result a = sint (rsp_result rsp))))"
proof (intro conjI allI impI)
  show "count_list (st_resumed (r_st r)) k \<le> 1" by (rule resumed_once [OF assms])
next
  fix result response
  assume read: "r_result r k = Some result" "r_response r k = Some response"
  have ok: "run_ok r" by (rule reachable_run_ok [OF assms])
  then have k: "k < length (st_store (r_st r))"
    using read by (metis bounded_def leI option.distinct(1) run_ok_def)
  note g = groups(2,5) [OF run_okD [OF ok k]]
  show "let a = request_finish result response used server req; c = st_store (r_st r) ! k in
       case rr_response a of
         Some rsp \<Rightarrow> rsp_sn rsp = ctx_sn c \<and> rr_result a \<in> {sint (rsp_result rsp), - 1}
       | None \<Rightarrow> rr_result a \<in> {- 1, - 2} \<or>
           ctx_timed c \<and> (\<exists>rsp. r_taken r k = Some rsp \<and> rsp_sn rsp = ctx_sn c \<and> rr_result a = sint (rsp_result rsp))"
    using g read
    by (cases response)
      (auto simp: request_finish_def read_ok_def settled_def gone_def took_def taken_ok_def err_TIMEOUT_def err_IO_ERROR_def)
qed

theorem request_answered_once_witness:
  "count_list (st_resumed (r_st (demo_run demo_answer))) 0 \<le> 1 \<and>
   r_result (demo_run demo_answer) 0 = Some 0 \<and> r_response (demo_run demo_answer) 0 = Some (Some demo_rsp)"
  using request_answered_once [OF acts_reachable [OF demo_answer_runs], of 0]
  by (simp add: demo_defs)

text \<open>That last case happens: the fiber gets result OK and no response.\<close>

theorem answer_without_response:
  "rpc_reachable (demo_run demo_race) \<and>
   r_result (demo_run demo_race) 0 = Some 0 \<and> r_response (demo_run demo_race) 0 = Some None"
  using acts_reachable [OF demo_race_runs] by (simp add: demo_defs)

section \<open>No request is lost\<close>

definition resumable :: "nat \<Rightarrow> rpc_run \<Rightarrow> bool" where
  "resumable k r \<longleftrightarrow> (\<exists>r'. rpc_step\<^sup>*\<^sup>* r r' \<and> k \<in> set (st_resumed (r_st r')))"

lemma resumable_step: "rpc_step r r' \<Longrightarrow> resumable k r' \<Longrightarrow> resumable k r"
  by (auto simp: resumable_def intro: converse_rtranclp_into_rtranclp)

lemma resumable_now: "k \<in> set (st_resumed (r_st r)) \<Longrightarrow> resumable k r"
  by (auto simp: resumable_def)

lemma job_bound: "run_ok r \<Longrightarrow> j \<in> set (r_jobs r) \<Longrightarrow> job_ctx j < length (st_store (r_st r))"
  by (auto simp: run_ok_def bounded_def)

lemma run_job:
  assumes "rpc_reachable r" "j \<in> set (r_jobs r)" "job_step j (r_st r) = (js, st)"
    and "\<And>r'. rpc_reachable r' \<Longrightarrow> r_st r' = st \<Longrightarrow> set js \<subseteq> set (r_jobs r') \<Longrightarrow> resumable k r'"
  shows "resumable k r"
proof -
  let ?r = "r\<lparr>r_st := st, r_jobs := js @ remove1 j (r_jobs r)\<rparr>"
  have "rpc_step r ?r" by (rule rpc_step.Job [OF assms(2,3)])
  with assms(4) [OF reachable_step [OF assms(1) this]] show ?thesis by (auto intro: resumable_step)
qed

lemma schedule_resumes:
  "rpc_reachable r \<Longrightarrow> JSchedule k \<in> set (r_jobs r) \<Longrightarrow> resumable k r"
  by (erule run_job, assumption, simp, rule resumable_now) (simp add: rsp_schedule_def Let_def)

lemma settle_resumes:
  "rpc_reachable r \<Longrightarrow> JSettle k \<in> set (r_jobs r) \<Longrightarrow> resumable k r"
  by (erule run_job, assumption, simp, erule schedule_resumes) simp

lemma cancel_resumes:
  assumes "rpc_reachable r" "JCancel k \<in> set (r_jobs r)"
  shows "resumable k r"
proof (rule run_job [OF assms])
  have ok: "run_ok r" by (rule reachable_run_ok [OF assms(1)])
  then have k: "k < length (st_store (r_st r))" using job_bound [OF _ assms(2)] by simp
  have "JCancel k \<in> set (jobs_of k (r_jobs r))" using assms(2) by (simp add: jobs_of_def)
  then have "ctx_fiber (st_store (r_st r) ! k) \<noteq> None" using ok_cancel [OF run_okD [OF ok k]] by blast
  then show "job_step (JCancel k) (r_st r) = ([JSettle k], snd (rsp_cancel k (r_st r)))"
    by (auto simp: rsp_cancel_def Let_def)
qed (auto intro: settle_resumes)

lemma answers_cases: "answers j \<Longrightarrow> j \<in> {JCancel (job_ctx j), JSettle (job_ctx j), JSchedule (job_ctx j)}"
  by (cases j) auto

lemma claimed_resumes:
  assumes "rpc_reachable r" "k < length (st_store (r_st r))" "ctx_scheduler (st_store (r_st r) ! k) = None"
  shows "resumable k r"
proof -
  have "counts_ok (st_store (r_st r) ! k) (count_list (map snd (st_ctxs (r_st r))) k) (jobs_of k (r_jobs r))
      (count_list (st_resumed (r_st r)) k)"
    using run_okD [OF reachable_run_ok [OF assms(1)] assms(2)] by (simp add: ctx_ok_def)
  then have "count_list (st_resumed (r_st r)) k \<noteq> 0 \<or> tokens answers (jobs_of k (r_jobs r)) \<noteq> 0"
    using assms(3) by (auto simp: counts_ok_def)
  then consider "k \<in> set (st_resumed (r_st r))" | j where "j \<in> set (r_jobs r)" "job_ctx j = k" "answers j"
    unfolding count_list_0_iff tokens_0 by (auto simp: jobs_of_def)
  then show ?thesis
  proof cases
    case (2 j)
    then have "j \<in> {JCancel k, JSettle k, JSchedule k}" using answers_cases [of j] by simp
    then show ?thesis
      using 2(1) cancel_resumes [OF assms(1)] settle_resumes [OF assms(1)] schedule_resumes [OF assms(1)] by blast
  qed (rule resumable_now)
qed

lemma claim_resumes:
  assumes "rpc_reachable r" "JClaim k \<in> set (r_jobs r)"
  shows "resumable k r"
proof (cases "ctx_scheduler (st_store (r_st r) ! k)")
  case None
  have "k < length (st_store (r_st r))"
    using job_bound [OF reachable_run_ok [OF assms(1)] assms(2)] by simp
  then show ?thesis by (rule claimed_resumes [OF assms(1) _ None])
next
  case (Some t)
  then have "job_step (JClaim k) (r_st r) = ([JCancel k], snd (rsp_claim k (r_st r)))" by (simp add: rsp_claim_def)
  from run_job [OF assms this] show ?thesis by (auto intro: cancel_resumes)
qed

lemma mark_resumes:
  "rpc_reachable r \<Longrightarrow> JMark k \<in> set (r_jobs r) \<Longrightarrow> resumable k r"
  by (erule run_job, assumption, simp, erule claim_resumes) simp

lemma erase_resumes:
  "rpc_reachable r \<Longrightarrow> JErase k \<in> set (r_jobs r) \<Longrightarrow> resumable k r"
  by (erule run_job, assumption, simp, erule mark_resumes) simp

lemma armed_resumes:
  assumes "rpc_reachable r" "k \<in> set (st_timers (r_st r))"
  shows "resumable k r"
  by (rule resumable_step [OF rpc_step.Fire [OF assms(2)]],
      rule erase_resumes [OF reachable_step [OF assms(1) rpc_step.Fire [OF assms(2)]]]) simp

lemma timer_resumes:
  "rpc_reachable r \<Longrightarrow> JTimer k \<in> set (r_jobs r) \<Longrightarrow> resumable k r"
  by (erule run_job, assumption, simp, erule armed_resumes) (simp add: request_addTimer_def)

definition demo_added :: rpc_run where "demo_added = demo_run [AAdd demo_req 0 5]"

lemma demo_added_runs: "acts [AAdd demo_req 0 5] (new_run (new_stream True)) = Some demo_added"
  by (simp add: demo_added_def demo_run_def split: prod.split)

lemmas demo_added_reachable = acts_reachable [OF demo_added_runs]

text \<open>C21: no request is lost: in every reachable state a fiber that waits can still be resumed,
  because its context is being answered or its own timer is armed or about to be; no message from
  the other side is needed.\<close>

theorem waiting_request_can_finish:
  assumes "rpc_reachable r" "k < length (st_store (r_st r))" "waiting (r_st r) k"
  shows "\<exists>r'. rpc_step\<^sup>*\<^sup>* r r' \<and> k \<in> set (st_resumed (r_st r'))"
proof -
  have "resumable k r"
  proof (cases "ctx_scheduler (st_store (r_st r) ! k)")
    case None
    then show ?thesis by (rule claimed_resumes [OF assms(1,2)])
  next
    case (Some t)
    have "alive_ok k (st_store (r_st r) ! k) (jobs_of k (r_jobs r)) (k \<in> set (st_timers (r_st r)))"
      using run_okD [OF reachable_run_ok [OF assms(1)] assms(2)] by (simp add: ctx_ok_def)
    then consider "JTimer k \<in> set (r_jobs r)" | "k \<in> set (st_timers (r_st r))" | "JErase k \<in> set (r_jobs r)"
      | "JMark k \<in> set (r_jobs r)" | "JClaim k \<in> set (r_jobs r)"
      using Some by (auto simp: alive_ok_def jobs_of_def)
    then show ?thesis
      by cases (fact timer_resumes [OF assms(1)] armed_resumes [OF assms(1)] erase_resumes [OF assms(1)]
          mark_resumes [OF assms(1)] claim_resumes [OF assms(1)])+
  qed
  then show ?thesis by (simp add: resumable_def)
qed

theorem waiting_request_can_finish_witness:
  "\<exists>r'. rpc_step\<^sup>*\<^sup>* demo_added r' \<and> 0 \<in> set (st_resumed (r_st r'))"
  by (rule waiting_request_can_finish [OF demo_added_reachable]) (simp_all add: demo_added_def demo_defs waiting_def)

section \<open>Two requests with one serial number\<close>

text \<open>A context that is not in the table, held by nobody, with no result but that of its timer.\<close>

definition shadowed :: "nat \<Rightarrow> rpc_run \<Rightarrow> bool" where
  "shadowed k r \<longleftrightarrow> k < length (st_store (r_st r)) \<and> k \<notin> snd ` set (st_ctxs (r_st r)) \<and>
     (\<forall>j \<in> set (r_jobs r). job_ctx j = k \<longrightarrow> \<not> holds j) \<and> r_taken r k = None \<and>
     ctx_result (st_store (r_st r) ! k) \<in> {0, err_TIMEOUT}"

lemma shadowed_add:
  assumes "shadowed k r" "request_add req t sch fib (r_st r) = (k', st)"
  shows "shadowed k (r\<lparr>r_st := st, r_jobs := JTimer k' # r_jobs r\<rparr>)"
proof -
  define c where "c = new_ctx\<lparr>ctx_request := req, ctx_sn := req_sn req, ctx_timeout := t,
     ctx_scheduler := Some sch, ctx_fiber := Some fib\<rparr>"
  have "st_store st = st_store (r_st r) @ [c]"
    "st_ctxs st = st_ctxs (r_st r) \<or> st_ctxs st = (ctx_sn c, length (st_store (r_st r))) # st_ctxs (r_st r)"
    using assms(2) by (auto simp: request_add_def addCtx_def Let_def c_def split: if_splits)
  then show ?thesis using assms(1) by (auto simp: shadowed_def nth_append)
qed

lemma shadowed_job:
  assumes "shadowed k r" "j \<in> set (r_jobs r)" "job_step j (r_st r) = (js, st)" "job_ctx j < length (st_store (r_st r))"
  shows "shadowed k (r\<lparr>r_st := st, r_jobs := js @ remove1 j (r_jobs r)\<rparr>)"
proof -
  note fr = job_frame [OF assms(3,4)]
  have k: "k < length (st_store (r_st r))" and res: "ctx_result (st_store (r_st r) ! k) \<in> {0, err_TIMEOUT}"
    and free: "x \<in> set (r_jobs r) \<Longrightarrow> job_ctx x = k \<Longrightarrow> \<not> holds x" for x
    using assms(1) by (auto simp: shadowed_def)
  have "k \<notin> snd ` set (st_ctxs st)" using fr(5) assms(1) by (auto simp: shadowed_def)
  moreover have "\<not> holds x" if "x \<in> set js" "job_ctx x = k" for x
  proof -
    have "\<not> holds j" using free assms(2) fr(1) that by auto
    then show ?thesis using assms(3) that(1) by (cases j) (auto split: prod.splits if_splits)
  qed
  moreover have "ctx_result (st_store st ! k) \<in> {0, err_TIMEOUT}"
  proof (cases "job_ctx j = k")
    case True
    then have "\<not> holds j" using free assms(2) by simp
    then show ?thesis
      using assms(3) True k res
      by (cases j) (auto simp: request_addTimer_def request_assign_def onTimeOut_erase_def onTimeOut_mark_def
          rsp_claim_def rsp_cancel_def rsp_settle_def rsp_schedule_def Let_def split: option.splits if_splits)
  qed (use fr(3) k res in simp)
  ultimately show ?thesis
    using assms(1) fr(2) by (auto simp: shadowed_def dest: in_remove1)
qed

lemma shadowed_step: "rpc_step r r' \<Longrightarrow> run_ok r \<Longrightarrow> shadowed k r \<Longrightarrow> shadowed k r'"
proof (induction rule: rpc_step.induct)
  case (Add req t sch fib r k' st)
  then show ?case by (auto intro: shadowed_add)
next
  case (Job j r js st)
  then have "job_ctx j < length (st_store (r_st r))" by (auto simp: run_ok_def bounded_def)
  then show ?case using Job by (auto intro: shadowed_job)
next
  case (Recv rsp r j st)
  then have "(rsp_sn rsp, j) \<in> set (st_ctxs (r_st r))" "st = erase_ctx (rsp_sn rsp) (r_st r)"
    by (auto simp: getAndDelCtx_def split: option.splits dest: map_of_SomeD)
  moreover from this have "j \<noteq> k" using Recv by (force simp: shadowed_def)
  ultimately show ?case using Recv by (auto simp: shadowed_def)
next
  case (Swap r ctxs st)
  then have "ctxs = st_ctxs (r_st r)" "st_ctxs st = []" "st_store st = st_store (r_st r)"
    by (auto simp: innerClose_swap_def Let_def emit_def notify_sem_def split: prod.splits if_splits)
  moreover from this have "\<forall>p \<in> set ctxs. snd p \<noteq> k" using Swap by (auto simp: shadowed_def)
  ultimately show ?case using Swap by (auto simp: shadowed_def)
qed (auto simp: shadowed_def)

text \<open>But a request whose serial number is in use is never answered: the table keeps the older
  context, so whatever arrives afterwards, the only result the second request can get is TIMEOUT.\<close>

theorem duplicate_sn_times_out:
  assumes "rpc_reachable r" "getCtx (req_sn req) (r_st r) \<noteq> None"
    and "request_add req timeout_ms sch fib (r_st r) = (k, st)"
    and "rpc_step\<^sup>*\<^sup>* (r\<lparr>r_st := st, r_jobs := JTimer k # r_jobs r\<rparr>) r'"
  shows "ctx_response (st_store (r_st r') ! k) = None \<and>
    (k \<in> set (st_resumed (r_st r')) \<longrightarrow> ctx_result (st_store (r_st r') ! k) = err_TIMEOUT)"
proof -
  have b: "bounded r" using reachable_run_ok [OF assms(1)] by (simp add: run_ok_def)
  have k: "k = length (st_store (r_st r))" using assms(3) by (simp add: request_add_def Let_def)
  have old: "k \<notin> snd ` set (st_ctxs (r_st r))" "\<forall>j \<in> set (r_jobs r). job_ctx j \<noteq> k" "r_taken r k = None"
    using b by (auto simp: bounded_def k)
  have "st_ctxs st = st_ctxs (r_st r)" "length (st_store st) = Suc k" "ctx_result (st_store st ! k) = 0"
    using assms(2,3) by (auto simp: request_add_def addCtx_def Let_def getCtx_def k new_ctx_def)
  with old have start: "shadowed k (r\<lparr>r_st := st, r_jobs := JTimer k # r_jobs r\<rparr>)" by (auto simp: shadowed_def)
  have "rpc_reachable (r\<lparr>r_st := st, r_jobs := JTimer k # r_jobs r\<rparr>)"
    by (rule reachable_step [OF assms(1) rpc_step.Add [OF assms(3)]])
  with assms(4) have "shadowed k r' \<and> rpc_reachable r'"
    by (induction rule: rtranclp_induct) (use start shadowed_step reachable_run_ok reachable_step in blast)+
  then have sh: "shadowed k r'" and ok: "run_ok r'" by (auto intro: reachable_run_ok)
  note g = groups(2,3) [OF run_okD [OF ok]]
  have kk: "k < length (st_store (r_st r'))" using sh by (simp add: shadowed_def)
  have "ctx_response (st_store (r_st r') ! k) = None"
    using sh g(1) [OF kk] by (cases "ctx_response (st_store (r_st r') ! k)") (auto simp: taken_ok_def took_def shadowed_def)
  moreover have "ctx_result (st_store (r_st r') ! k) = err_TIMEOUT" if "k \<in> set (st_resumed (r_st r'))"
  proof -
    have "count_list (st_resumed (r_st r')) k > 0" using that by (metis count_list_0_iff gr0I)
    then have "settled (ctx_result (st_store (r_st r') ! k)) (count_list (map snd (st_ctxs (r_st r'))) k) (r_taken r' k)"
      using g(2) [OF kk] by (simp add: result_ok_def)
    then show ?thesis
      using sh by (auto simp: shadowed_def settled_def took_def err_TIMEOUT_def err_IO_ERROR_def)
  qed
  ultimately show ?thesis by blast
qed

theorem duplicate_sn_times_out_witness:
  "ctx_response (st_store (snd (request_add demo_req 500 0 6 (r_st demo_added))) ! 1) = None"
  using duplicate_sn_times_out [OF demo_added_reachable, of demo_req 500 0 6 1
      "snd (request_add demo_req 500 0 6 (r_st demo_added))"]
  by (simp add: demo_added_def demo_defs getCtx_def)

end
