(* ===== verification/LoadStats.thy ===== *)
theory LoadStats
  imports TextOut
begin

text \<open>
  The counters a load balancer keeps per connection, \<open>HolderStats\<close> and \<open>HolderStatsSet\<close> of
  \<open>src/streams/LoadBalance.cpp\<close>: a ring with one slot for each of the last seconds. Counters
  are 32 bits wide and wrap. The two \<open>getWeight\<close> of floating point are not modelled here.
\<close>

section \<open>Counters\<close>

record holder_stats =
  hs_usedTime :: u32
  hs_total :: u32
  hs_doing :: u32
  hs_timeouts :: u32
  hs_oks :: u32
  hs_errs :: u32

definition hs_clear :: holder_stats where
  "hs_clear = \<lparr>hs_usedTime = 0, hs_total = 0, hs_doing = 0, hs_timeouts = 0, hs_oks = 0, hs_errs = 0\<rparr>"

definition incUsedTime :: "u32 \<Rightarrow> holder_stats \<Rightarrow> holder_stats" where
  "incUsedTime v s = s\<lparr>hs_usedTime := hs_usedTime s + v\<rparr>"

definition incTotal :: "u32 \<Rightarrow> holder_stats \<Rightarrow> holder_stats" where
  "incTotal v s = s\<lparr>hs_total := hs_total s + v\<rparr>"

definition incDoing :: "u32 \<Rightarrow> holder_stats \<Rightarrow> holder_stats" where
  "incDoing v s = s\<lparr>hs_doing := hs_doing s + v\<rparr>"

definition incTimeouts :: "u32 \<Rightarrow> holder_stats \<Rightarrow> holder_stats" where
  "incTimeouts v s = s\<lparr>hs_timeouts := hs_timeouts s + v\<rparr>"

definition incOks :: "u32 \<Rightarrow> holder_stats \<Rightarrow> holder_stats" where
  "incOks v s = s\<lparr>hs_oks := hs_oks s + v\<rparr>"

definition incErrs :: "u32 \<Rightarrow> holder_stats \<Rightarrow> holder_stats" where
  "incErrs v s = s\<lparr>hs_errs := hs_errs s + v\<rparr>"

definition decDoing :: "u32 \<Rightarrow> holder_stats \<Rightarrow> holder_stats" where
  "decDoing v s = s\<lparr>hs_doing := hs_doing s - v\<rparr>"

text \<open>\<open>a.add(b)\<close>\<close>

definition hs_add :: "holder_stats \<Rightarrow> holder_stats \<Rightarrow> holder_stats" where
  "hs_add a b =
     \<lparr>hs_usedTime = hs_usedTime a + hs_usedTime b, hs_total = hs_total a + hs_total b,
      hs_doing = hs_doing a + hs_doing b, hs_timeouts = hs_timeouts a + hs_timeouts b,
      hs_oks = hs_oks a + hs_oks b, hs_errs = hs_errs a + hs_errs b\<rparr>"

section \<open>The ring\<close>

record stats_set =
  ss_last :: u32
  ss_stats :: "holder_stats list"

definition new_stats_set :: "nat \<Rightarrow> stats_set" where
  "new_stats_set n = \<lparr>ss_last = 0, ss_stats = replicate n hs_clear\<rparr>"

function ss_init_loop :: "u32 \<Rightarrow> u32 \<Rightarrow> nat \<Rightarrow> holder_stats list \<Rightarrow> holder_stats list" where
  "ss_init_loop now t i stats =
     (if t \<le> now \<and> i < length stats
      then ss_init_loop now (t + 1) (Suc i) (stats[unat t mod length stats := hs_clear])
      else stats)"
  by pat_completeness auto
termination
  by (relation "measure (\<lambda>(now, t, i, stats). length stats - i)") auto

declare ss_init_loop.simps [simp del]

definition ss_init :: "u32 \<Rightarrow> stats_set \<Rightarrow> stats_set" where
  "ss_init now s =
     (if ss_last s < now
      then s\<lparr>ss_stats := ss_init_loop now (ss_last s + 1) 0 (ss_stats s), ss_last := now\<rparr>
      else s)"

text \<open>\<open>get(now)\<close>: the index of the slot that the reference stands for.\<close>

definition ss_get :: "u32 \<Rightarrow> stats_set \<Rightarrow> (nat \<times> stats_set) res" where
  "ss_get now s =
     (let s = ss_init now s in
      if length (ss_stats s) = 0 then Inl DivByZero
      else Inr (unat now mod length (ss_stats s), s))"

definition at_slot :: "nat \<Rightarrow> (holder_stats \<Rightarrow> holder_stats) \<Rightarrow> stats_set \<Rightarrow> stats_set" where
  "at_slot i f s = s\<lparr>ss_stats := (ss_stats s)[i := f (ss_stats s ! i)]\<rparr>"

definition ss_getTotal :: "stats_set \<Rightarrow> holder_stats" where
  "ss_getTotal s = foldl hs_add hs_clear (ss_stats s)"

section \<open>Sums of counters\<close>

lemma hs_add_simps [simp]:
  "hs_add a hs_clear = a" "hs_add hs_clear a = a"
  by (simp_all add: hs_add_def hs_clear_def)

lemma hs_add_assoc: "hs_add (hs_add a b) c = hs_add a (hs_add b c)"
  by (simp add: hs_add_def add.assoc)

lemma hs_add_commute: "hs_add a b = hs_add b a"
  by (simp add: hs_add_def add.commute)

lemma hs_add_left_commute: "hs_add a (hs_add b c) = hs_add b (hs_add a c)"
  by (simp add: hs_add_def add.left_commute)

definition hs_sum :: "holder_stats list \<Rightarrow> holder_stats" where
  "hs_sum xs = foldl hs_add hs_clear xs"

lemma foldl_hs_add: "foldl hs_add a xs = hs_add a (hs_sum xs)"
proof (induction xs arbitrary: a)
  case (Cons x xs)
  show ?case
    using Cons [of "hs_add a x"] Cons [of x] by (simp add: hs_add_assoc hs_sum_def)
qed (simp add: hs_sum_def)

lemma hs_sum_simps [simp]: "hs_sum [] = hs_clear" "hs_sum (x # xs) = hs_add x (hs_sum xs)"
  by (simp_all add: hs_sum_def [of "x # xs"] foldl_hs_add) (simp add: hs_sum_def)

lemma hs_sum_append: "hs_sum (xs @ ys) = hs_add (hs_sum xs) (hs_sum ys)"
  by (induction xs) (simp_all add: hs_add_assoc)

lemma hs_sum_update:
  "k < n \<Longrightarrow> hs_sum (map (\<lambda>j. if j = k then hs_add d (f j) else f j) [0..<n]) = hs_add d (hs_sum (map f [0..<n]))"
proof (induction n)
  case (Suc n)
  have e: "map (\<lambda>j. if j = n then hs_add d (f j) else f j) [0..<n] = map f [0..<n]" by simp
  show ?case
  proof (cases "k = n")
    case True
    then show ?thesis by (simp add: hs_sum_append e hs_add_left_commute del: map_eq_conv)
  next
    case False
    then show ?thesis using Suc by (simp add: hs_sum_append hs_add_assoc)
  qed
qed simp

text \<open>A list split by a key below \<open>n\<close>.\<close>

lemma hs_sum_split:
  "(\<And>e. e \<in> set l \<Longrightarrow> key e < n) \<Longrightarrow>
   hs_sum (map (\<lambda>j. hs_sum (map g (filter (\<lambda>e. key e = j) l))) [0..<n]) = hs_sum (map g l)"
proof (induction l)
  case Nil
  show ?case by (induction n) (simp_all add: hs_sum_append)
next
  case (Cons e l)
  have split: "map (\<lambda>j. hs_sum (map g (filter (\<lambda>e. key e = j) (e # l)))) [0..<n] =
      map (\<lambda>j. if j = key e then hs_add (g e) (hs_sum (map g (filter (\<lambda>e. key e = j) l)))
                else hs_sum (map g (filter (\<lambda>e. key e = j) l))) [0..<n]" by simp
  have "key e < n" and "hs_sum (map (\<lambda>j. hs_sum (map g (filter (\<lambda>e. key e = j) l))) [0..<n]) = hs_sum (map g l)"
    using Cons by simp_all
  then show ?case unfolding split by (simp only: hs_sum_update hs_sum_simps list.map)
qed

section \<open>The ring holds a window\<close>

text \<open>
  The log of what was counted: the second and the counters to add, in the order of the calls.
  The slot \<open>j\<close> holds the entries of the window whose second is \<open>j\<close> modulo the size.
\<close>

type_synonym log = "(nat \<times> holder_stats) list"

definition window :: "nat \<Rightarrow> nat \<Rightarrow> log \<Rightarrow> log" where
  "window n now l = filter (\<lambda>e. now < fst e + n) l"

definition ring_ok :: "log \<Rightarrow> stats_set \<Rightarrow> bool" where
  "ring_ok l s \<longleftrightarrow> 0 < length (ss_stats s) \<and> (\<forall>e \<in> set l. fst e \<le> unat (ss_last s)) \<and>
     (\<forall>j < length (ss_stats s). ss_stats s ! j =
        hs_sum (map snd (filter (\<lambda>e. fst e mod length (ss_stats s) = j)
          (window (length (ss_stats s)) (unat (ss_last s)) l))))"

lemma init_loop_effect:
  "unat now < 2 ^ 32 - 1 \<Longrightarrow> i \<le> length stats \<Longrightarrow>
   length (ss_init_loop now t i stats) = length stats \<and>
   (\<forall>j < length stats. ss_init_loop now t i stats ! j =
      (if \<exists>m. unat t + m \<le> unat now \<and> i + m < length stats \<and> (unat t + m) mod length stats = j
       then hs_clear else stats ! j))"
proof (induction now t i stats rule: ss_init_loop.induct)
  case (1 now t i stats)
  let ?n = "length stats"
  show ?case
  proof (cases "t \<le> now \<and> i < ?n")
    case False
    then show ?thesis by (subst (1 2) ss_init_loop.simps) (auto simp: word_le_nat_alt)
  next
    case True
    let ?stats = "stats[unat t mod ?n := hs_clear]"
    have "unat t \<le> unat now" using True by (simp add: word_le_nat_alt)
    then have t: "unat (t + 1) = Suc (unat t)"
      using 1(2) by (subst unat_plus_simple [THEN iffD1]) (auto simp: word_le_nat_alt unat_word_ariths)
    have ex: "(\<exists>m. unat t + m \<le> unat now \<and> i + m < ?n \<and> (unat t + m) mod ?n = j) \<longleftrightarrow>
        unat t mod ?n = j \<or> (\<exists>m. Suc (unat t) + m \<le> unat now \<and> Suc i + m < ?n \<and> (Suc (unat t) + m) mod ?n = j)"
      (is "(\<exists>m. ?P m) \<longleftrightarrow> ?Q \<or> (\<exists>m. ?R m)") for j
    proof
      assume "\<exists>m. ?P m"
      then obtain m where m: "?P m" by blast
      then show "?Q \<or> (\<exists>m. ?R m)" by (cases m) auto
    next
      assume "?Q \<or> (\<exists>m. ?R m)"
      then show "\<exists>m. ?P m"
      proof
        assume ?Q then show ?thesis using True \<open>unat t \<le> unat now\<close> by (intro exI [of _ 0]) auto
      next
        assume "\<exists>m. ?R m"
        then obtain m where "?R m" by blast
        then show ?thesis by (intro exI [of _ "Suc m"]) auto
      qed
    qed
    have ih: "length (ss_init_loop now (t + 1) (Suc i) ?stats) = ?n \<and>
      (\<forall>j < ?n. ss_init_loop now (t + 1) (Suc i) ?stats ! j =
        (if \<exists>m. Suc (unat t) + m \<le> unat now \<and> Suc i + m < ?n \<and> (Suc (unat t) + m) mod ?n = j
         then hs_clear else ?stats ! j))"
      using 1(1) [OF True] 1(2) True by (simp add: t)
    have "ss_init_loop now t i stats = ss_init_loop now (t + 1) (Suc i) ?stats"
      using True by (subst ss_init_loop.simps) simp
    then show ?thesis
      using ih by (auto simp: ex nth_list_update)
  qed
qed

lemma same_slot: "t mod n = t' mod n \<Longrightarrow> t < t' \<Longrightarrow> t' < t + n \<Longrightarrow> False"
  for t t' n :: nat
proof -
  assume a: "t mod n = t' mod n" "t < t'" "t' < t + n"
  then have "n dvd t' - t" by (metis mod_eq_dvd_iff_nat less_or_eq_imp_le)
  with a show False by (auto dest: dvd_imp_le)
qed

lemma init_ring_ok:
  assumes ok: "ring_ok l s" and now: "unat now < 2 ^ 32 - 1" "ss_last s \<le> now"
  shows "ring_ok l (ss_init now s)" "ss_last (ss_init now s) = now"
    "length (ss_stats (ss_init now s)) = length (ss_stats s)"
proof -
  let ?n = "length (ss_stats s)" and ?a = "unat (ss_last s)" and ?b = "unat now"
  show "ss_last (ss_init now s) = now" using now by (auto simp: ss_init_def)
  show len: "length (ss_stats (ss_init now s)) = ?n"
    using init_loop_effect [OF now(1), of 0 "ss_stats s"] by (simp add: ss_init_def)
  show "ring_ok l (ss_init now s)"
  proof (cases "ss_last s < now")
    case False
    then show ?thesis using ok by (simp add: ss_init_def)
  next
    case True
    then have ab: "?a < ?b" by (simp add: word_less_nat_alt)
    then have t1: "unat (ss_last s + 1) = Suc ?a"
      using now(1) by (simp add: unat_word_ariths)
    have n: "0 < ?n" and old: "\<forall>e \<in> set l. fst e \<le> ?a" using ok by (auto simp: ring_ok_def)
    have slot: "ss_stats (ss_init now s) ! j = hs_sum (map snd (filter (\<lambda>e. fst e mod ?n = j) (window ?n ?b l)))"
      if j: "j < ?n" for j
    proof -
      define P where "P \<longleftrightarrow> (\<exists>m. Suc ?a + m \<le> ?b \<and> m < ?n \<and> (Suc ?a + m) mod ?n = j)"
      have init: "ss_stats (ss_init now s) ! j = (if P then hs_clear else ss_stats s ! j)"
        using init_loop_effect [OF now(1), of 0 "ss_stats s" "ss_last s + 1"] j True
        by (simp add: ss_init_def t1 P_def)
      have "e \<in> set l \<Longrightarrow> fst e mod ?n = j \<Longrightarrow> ?b < fst e + ?n \<longleftrightarrow> \<not> P \<and> ?a < fst e + ?n" for e
      proof
        assume e: "e \<in> set l" "fst e mod ?n = j" "?b < fst e + ?n"
        have "\<not> P"
        proof
          assume P
          then obtain m where m: "Suc ?a + m \<le> ?b" "(Suc ?a + m) mod ?n = j" unfolding P_def by blast
          then show False using e old by (intro same_slot [of "fst e" ?n "Suc ?a + m"]) auto
        qed
        then show "\<not> P \<and> ?a < fst e + ?n" using e ab by simp
      next
        assume e: "e \<in> set l" "fst e mod ?n = j" and p: "\<not> P \<and> ?a < fst e + ?n"
        show "?b < fst e + ?n"
        proof (rule ccontr)
          assume "\<not> ?b < fst e + ?n"
          then have "Suc ?a + (fst e + ?n - Suc ?a) \<le> ?b" "fst e + ?n - Suc ?a < ?n"
            "(Suc ?a + (fst e + ?n - Suc ?a)) mod ?n = j"
            using p e old n by auto
          with p show False unfolding P_def by blast
        qed
      qed
      then have "filter (\<lambda>e. fst e mod ?n = j) (window ?n ?b l) =
          (if P then [] else filter (\<lambda>e. fst e mod ?n = j) (window ?n ?a l))"
        by (auto simp: window_def filter_empty_conv intro!: filter_cong)
      then show ?thesis using ok j by (auto simp: init ring_ok_def)
    qed
    have "\<forall>e \<in> set l. fst e \<le> ?b" using old ab by auto
    then show ?thesis
      using n slot len \<open>ss_last (ss_init now s) = now\<close> by (simp add: ring_ok_def)
  qed
qed

lemma ring_total: "ring_ok l s \<Longrightarrow> ss_getTotal s = hs_sum (map snd (window (length (ss_stats s)) (unat (ss_last s)) l))"
proof -
  assume ok: "ring_ok l s"
  let ?n = "length (ss_stats s)"
  have "ss_stats s = map (\<lambda>j. hs_sum (map snd (filter (\<lambda>e. fst e mod ?n = j) (window ?n (unat (ss_last s)) l)))) [0..<?n]"
    using ok by (intro nth_equalityI) (auto simp: ring_ok_def)
  then have "ss_getTotal s =
      hs_sum (map (\<lambda>j. hs_sum (map snd (filter (\<lambda>e. fst e mod ?n = j) (window ?n (unat (ss_last s)) l)))) [0..<?n])"
    unfolding ss_getTotal_def hs_sum_def by (rule arg_cong)
  also have "\<dots> = hs_sum (map snd (window ?n (unat (ss_last s)) l))"
    using ok by (intro hs_sum_split) (simp add: ring_ok_def)
  finally show ?thesis .
qed

section \<open>References that are kept\<close>

text \<open>
  What the users of the set do: \<open>Take now\<close> is \<open>get(now)\<close>, whose reference (the index of its slot)
  is kept in a list; \<open>Count h a\<close> is an increment through the \<open>h\<close>-th reference, at any time after.
\<close>

datatype increment = UsedTime u32 | Total u32 | Doing u32 | Timeouts u32 | Oks u32 | Errs u32 | UnDoing u32

fun increase :: "increment \<Rightarrow> holder_stats \<Rightarrow> holder_stats" where
  "increase (UsedTime v) = incUsedTime v"
| "increase (Total v) = incTotal v"
| "increase (Doing v) = incDoing v"
| "increase (Timeouts v) = incTimeouts v"
| "increase (Oks v) = incOks v"
| "increase (Errs v) = incErrs v"
| "increase (UnDoing v) = decDoing v"

datatype ss_use = Take u32 | Count nat increment

fun ss_step :: "ss_use \<Rightarrow> stats_set \<times> nat list \<Rightarrow> (stats_set \<times> nat list) res" where
  "ss_step (Take now) (s, hs) = bindE (ss_get now s) (\<lambda>(j, s). Inr (s, hs @ [j]))"
| "ss_step (Count h a) (s, hs) =
     (if h < length hs then Inr (at_slot (hs ! h) (increase a) s, hs) else Inl BadIndex)"

fun ss_steps :: "ss_use list \<Rightarrow> stats_set \<times> nat list \<Rightarrow> (stats_set \<times> nat list) res" where
  "ss_steps [] x = Inr x"
| "ss_steps (u # us) x = bindE (ss_step u x) (ss_steps us)"

text \<open>
  What is counted, without the ring: the latest second asked for, the second of each reference, and
  the log. A reference is to the slot of its second as long as that is one of the last \<open>n\<close>; later
  it is to the slot of the last second before now that differs from its own by a multiple of \<open>n\<close>.
\<close>

fun counted_as :: "increment \<Rightarrow> holder_stats" where
  "counted_as (UsedTime v) = hs_clear\<lparr>hs_usedTime := v\<rparr>"
| "counted_as (Total v) = hs_clear\<lparr>hs_total := v\<rparr>"
| "counted_as (Doing v) = hs_clear\<lparr>hs_doing := v\<rparr>"
| "counted_as (Timeouts v) = hs_clear\<lparr>hs_timeouts := v\<rparr>"
| "counted_as (Oks v) = hs_clear\<lparr>hs_oks := v\<rparr>"
| "counted_as (Errs v) = hs_clear\<lparr>hs_errs := v\<rparr>"
| "counted_as (UnDoing v) = hs_clear\<lparr>hs_doing := - v\<rparr>"

fun log_step :: "nat \<Rightarrow> ss_use \<Rightarrow> nat \<times> nat list \<times> log \<Rightarrow> nat \<times> nat list \<times> log" where
  "log_step n (Take now) (latest, ts, l) = (max latest (unat now), ts @ [unat now], l)"
| "log_step n (Count h a) (latest, ts, l) =
     (latest, ts, l @ [(if latest < ts ! h + n then ts ! h else latest - (latest - ts ! h) mod n, counted_as a)])"

text \<open>The times are below 2^32 - 1, and only references that were taken are used.\<close>

fun uses_ok :: "nat \<Rightarrow> ss_use list \<Rightarrow> bool" where
  "uses_ok k [] \<longleftrightarrow> True"
| "uses_ok k (Take now # us) \<longleftrightarrow> unat now < 2 ^ 32 - 1 \<and> uses_ok (Suc k) us"
| "uses_ok k (Count h a # us) \<longleftrightarrow> h < k \<and> uses_ok k us"

lemma increase_adds: "increase a x = hs_add x (counted_as a)"
  by (cases a) (simp_all add: incUsedTime_def incTotal_def incDoing_def incTimeouts_def incOks_def incErrs_def
      decDoing_def hs_add_def hs_clear_def)

lemma new_ring_ok: "0 < n \<Longrightarrow> ring_ok [] (new_stats_set n)"
  by (simp add: ring_ok_def new_stats_set_def window_def)

text \<open>The second whose slot a reference is to.\<close>

definition slot_second :: "nat \<Rightarrow> nat \<Rightarrow> nat \<Rightarrow> nat" where
  "slot_second n latest t = (if latest < t + n then t else latest - (latest - t) mod n)"

lemma slot_second_props:
  assumes "0 < n" "t \<le> latest"
  shows "slot_second n latest t mod n = t mod n" "slot_second n latest t \<le> latest" "latest < slot_second n latest t + n"
proof -
  have "(latest - (latest - t) mod n) mod n = t mod n"
  proof -
    have "latest - (latest - t) mod n = t + n * ((latest - t) div n)"
      using assms(2) mult_div_mod_eq [of n "latest - t"] by linarith
    then show ?thesis by simp
  qed
  moreover have "(latest - t) mod n < n" "(latest - t) mod n \<le> latest"
    using assms by (simp_all add: le_trans [OF mod_less_eq_dividend])
  ultimately show "slot_second n latest t mod n = t mod n" "slot_second n latest t \<le> latest"
    "latest < slot_second n latest t + n"
    using assms(2) by (auto simp: slot_second_def)
qed

definition uses_inv :: "nat \<Rightarrow> nat \<times> nat list \<times> log \<Rightarrow> stats_set \<times> nat list \<Rightarrow> bool" where
  "uses_inv n = (\<lambda>(latest, ts, l) (s, hs). ring_ok l s \<and> length (ss_stats s) = n \<and> unat (ss_last s) = latest \<and>
     hs = map (\<lambda>t. t mod n) ts \<and> (\<forall>t \<in> set ts. t \<le> latest))"

lemma take_inv:
  assumes "uses_inv n (latest, ts, l) (s, hs)" "unat now < 2 ^ 32 - 1"
  shows "\<exists>x. ss_step (Take now) (s, hs) = Inr x \<and> uses_inv n (log_step n (Take now) (latest, ts, l)) x"
proof (cases "ss_last s \<le> now")
  case True
  have ok: "ring_ok l s" using assms(1) by (simp add: uses_inv_def)
  then have "0 < length (ss_stats s)" by (simp add: ring_ok_def)
  then show ?thesis
    using assms init_ring_ok [OF ok assms(2) True] True
    by (auto simp: uses_inv_def ss_get_def Let_def word_le_nat_alt max_def)
next
  case False
  then have "ss_init now s = s" "unat now < latest"
    using assms(1) by (auto simp: ss_init_def uses_inv_def word_less_nat_alt not_le)
  moreover have "0 < length (ss_stats s)" using assms(1) by (auto simp: uses_inv_def ring_ok_def)
  ultimately show ?thesis
    using assms(1) by (auto simp: uses_inv_def ss_get_def Let_def max_def)
qed

lemma count_inv:
  assumes "uses_inv n (latest, ts, l) (s, hs)" "h < length ts"
  shows "\<exists>x. ss_step (Count h a) (s, hs) = Inr x \<and> uses_inv n (log_step n (Count h a) (latest, ts, l)) x"
proof -
  let ?u = "slot_second n latest (ts ! h)"
  have inv: "ring_ok l s" "length (ss_stats s) = n" "unat (ss_last s) = latest" "hs = map (\<lambda>t. t mod n) ts"
    "ts ! h \<le> latest" and n: "0 < n"
    using assms by (auto simp: uses_inv_def ring_ok_def)
  note u = slot_second_props [OF n inv(5)]
  have slot: "hs ! h = ?u mod n" using inv(4) assms(2) u(1) by simp
  have "ring_ok (l @ [(?u, counted_as a)]) (at_slot (hs ! h) (increase a) s)"
    using inv(1-3) u n unfolding slot ring_ok_def at_slot_def
    by (auto simp: nth_list_update window_def hs_sum_append increase_adds)
  then show ?thesis
    using assms by (auto simp: uses_inv_def at_slot_def slot_second_def)
qed

lemma uses_inv_steps:
  assumes "uses_inv n y (s, hs)" "uses_ok (length hs) us"
  shows "\<exists>x. ss_steps us (s, hs) = Inr x \<and> uses_inv n (fold (log_step n) us y) x"
  using assms
proof (induction us arbitrary: y s hs)
  case (Cons u us)
  obtain latest ts l where y: "y = (latest, ts, l)" by (cases y)
  show ?case
  proof (cases u)
    case (Take now)
    then obtain s' hs' where x: "ss_step u (s, hs) = Inr (s', hs')" "uses_inv n (log_step n u y) (s', hs')"
      using take_inv [of n latest ts l s hs now] Cons.prems y by force
    then have "length hs' = Suc (length hs)" using Take by (auto simp: bindE_Inr_iff)
    then show ?thesis using Cons.IH [OF x(2)] Cons.prems(2) Take x(1) by simp
  next
    case (Count h a)
    then have "h < length ts" using Cons.prems by (auto simp: uses_inv_def y)
    then obtain s' hs' where x: "ss_step u (s, hs) = Inr (s', hs')" "uses_inv n (log_step n u y) (s', hs')"
      using count_inv [of n latest ts l s hs h a] Cons.prems(1) y Count by force
    then have "hs' = hs" using Count by (auto split: if_splits)
    then show ?thesis using Cons.IH [OF x(2)] Cons.prems(2) Count x(1) by simp
  qed
qed auto

text \<open>C29: however references to slots are taken, kept and counted through, \<open>getTotal\<close> is the sum of
  what was counted for the last \<open>n\<close> seconds up to the latest one asked for, with \<open>n\<close> the size of the
  ring. What is counted through a reference counts for the second it was taken for, as long as
  that is one of the last \<open>n\<close>; through an older one, it counts for the second that has taken the
  slot over. The times are below 2^32 - 1; the clock may go back.\<close>

theorem stats_window:
  assumes "0 < n" "uses_ok 0 us"
  shows "\<exists>s hs. ss_steps us (new_stats_set n, []) = Inr (s, hs) \<and>
    (case fold (log_step n) us (0, [], []) of
       (latest, _, l) \<Rightarrow> ss_getTotal s = foldl hs_add hs_clear (map snd (filter (\<lambda>e. latest < fst e + n) l)))"
proof -
  have "uses_inv n (0, [], []) (new_stats_set n, [])"
    using new_ring_ok [OF assms(1)] by (simp add: uses_inv_def new_stats_set_def)
  from uses_inv_steps [OF this, of us] assms(2) obtain s hs where
    s: "ss_steps us (new_stats_set n, []) = Inr (s, hs)" "uses_inv n (fold (log_step n) us (0, [], [])) (s, hs)"
    by auto
  obtain latest ts l where y: "fold (log_step n) us (0, [], []) = (latest, ts, l)"
    by (cases "fold (log_step n) us (0, [], [])")
  show ?thesis using s ring_total [of l s] by (auto simp: y uses_inv_def hs_sum_def window_def)
qed

theorem stats_window_witness:
  "\<exists>s hs. ss_steps [Take 3, Count 0 (Total 2), Take 9, Count 1 (Total 4), Count 0 (UnDoing 1)] (new_stats_set 5, []) = Inr (s, hs) \<and>
     hs_total (ss_getTotal s) = 4 \<and> hs_doing (ss_getTotal s) = - 1"
  using stats_window [of 5 "[Take 3, Count 0 (Total 2), Take 9, Count 1 (Total 4), Count 0 (UnDoing 1)]"]
  by (auto simp: hs_add_def hs_clear_def)

end
