(* ===== verification/LoadBalance.thy ===== *)
theory LoadBalance
  imports LoadStats StdMap RockRpc
begin

text \<open>
  Load balancing, \<open>src/streams/LoadBalance.cpp\<close>: the items, the three balancers and the table of
  balancers per domain and service, with the request that goes through it
  (\<open>RockSDLoadBalance::request\<close> of \<open>src/rpc/RockStream.cpp\<close>). Items are shared objects: a heap
  maps their numbers to their values, and the balancers hold numbers. Arguments: \<open>conn\<close>, which
  streams are connected; \<open>r\<close>, what \<open>rand()\<close> gives; \<open>wprod\<close>, the floating-point product in
  \<open>HolderStats::getWeight\<close> cut to an integer; the clock. An unordered map is a list of pairs in the
  order in which it is traversed.
\<close>

section \<open>Items\<close>

record lb_item =
  it_id :: u64
  it_stream :: "nat option"
  it_weight :: "32 word"
  it_discoveryTime :: u64
  it_stats :: stats_set

type_synonym heap = "lb_item list"

definition new_item :: "u64 \<Rightarrow> lb_item" where
  "new_item now = \<lparr>it_id = 0, it_stream = None, it_weight = 0, it_discoveryTime = now, it_stats = new_stats_set 5\<rparr>"

definition isValid :: "(nat \<Rightarrow> bool) \<Rightarrow> lb_item \<Rightarrow> bool" where
  "isValid conn it = (case it_stream it of None \<Rightarrow> False | Some s \<Rightarrow> conn s)"

definition item_close :: "lb_item \<Rightarrow> nat list" where
  "item_close it = (case it_stream it of None \<Rightarrow> [] | Some s \<Rightarrow> [s])"

definition item_get :: "u32 \<Rightarrow> lb_item \<Rightarrow> (nat \<times> lb_item) res" where
  "item_get now it = bindE (ss_get now (it_stats it)) (\<lambda>(j, s). Inr (j, it\<lparr>it_stats := s\<rparr>))"

text \<open>\<open>getWeight(hs, join_time)\<close>: 100 while nothing was counted, else at most 1.\<close>

definition fair_cap :: "int \<Rightarrow> u64" where
  "fair_cap p = of_int (min 1 p)"

definition fair_weight :: "(holder_stats \<Rightarrow> holder_stats \<Rightarrow> u64 \<Rightarrow> int) \<Rightarrow> holder_stats \<Rightarrow> holder_stats \<Rightarrow> u64 \<Rightarrow> u64" where
  "fair_weight wprod s all join_time =
     (if hs_total all \<le> 0 then 100 else fair_cap (wprod s all join_time))"

section \<open>Balancers\<close>

datatype lb_type = UNKNOWN | ROUNDROBIN | WEIGHT | FAIR

record load_balance =
  lb_kind :: lb_type
  lb_datas :: "(u64 \<times> nat) list"
  lb_items :: "nat list"
  lb_weights :: "u64 list"
  lb_lastInitTime :: u64

definition new_load_balance :: "lb_type \<Rightarrow> load_balance" where
  "new_load_balance k = \<lparr>lb_kind = k, lb_datas = [], lb_items = [], lb_weights = [], lb_lastInitTime = 0\<rparr>"

text \<open>\<open>_weights[i]\<close>: the sum of the weights up to \<open>i\<close>, 64 bits wide.\<close>

fun running :: "u64 \<Rightarrow> u64 list \<Rightarrow> u64 list" where
  "running t [] = []"
| "running t (w # ws) = (t + w) # running (t + w) ws"

definition valid_items :: "(nat \<Rightarrow> bool) \<Rightarrow> heap \<Rightarrow> load_balance \<Rightarrow> nat list" where
  "valid_items conn h lb = filter (\<lambda>i. isValid conn (h ! i)) (map snd (lb_datas lb))"

definition rr_initNolock :: "(nat \<Rightarrow> bool) \<Rightarrow> heap \<Rightarrow> load_balance \<Rightarrow> load_balance" where
  "rr_initNolock conn h lb = lb\<lparr>lb_items := valid_items conn h lb\<rparr>"

definition weight_initNolock :: "(nat \<Rightarrow> bool) \<Rightarrow> heap \<Rightarrow> load_balance \<Rightarrow> load_balance" where
  "weight_initNolock conn h lb =
     (let items = valid_items conn h lb
      in lb\<lparr>lb_items := items, lb_weights := running 0 (map (\<lambda>i. scast (it_weight (h ! i))) items)\<rparr>)"

definition fair_initNolock ::
  "(nat \<Rightarrow> bool) \<Rightarrow> (holder_stats \<Rightarrow> holder_stats \<Rightarrow> u64 \<Rightarrow> int) \<Rightarrow> heap \<Rightarrow> load_balance \<Rightarrow> heap \<times> load_balance" where
  "fair_initNolock conn wprod h lb =
     (let items = valid_items conn h lb;
          stats = map (\<lambda>i. ss_getTotal (it_stats (h ! i))) items;
          total = foldl hs_add hs_clear stats;
          ws = map (\<lambda>(i, s). fair_weight wprod s total (it_discoveryTime (h ! i))) (zip items stats)
      in (fold (\<lambda>(i, w) h. h[i := (h ! i)\<lparr>it_weight := ucast w\<rparr>]) (zip items ws) h,
          lb\<lparr>lb_items := items, lb_weights := running 0 ws\<rparr>))"

text \<open>The virtual \<open>initNolock\<close>.\<close>

definition initNolock ::
  "(nat \<Rightarrow> bool) \<Rightarrow> (holder_stats \<Rightarrow> holder_stats \<Rightarrow> u64 \<Rightarrow> int) \<Rightarrow> heap \<Rightarrow> load_balance \<Rightarrow> heap \<times> load_balance" where
  "initNolock conn wprod h lb =
     (case lb_kind lb of
        FAIR \<Rightarrow> fair_initNolock conn wprod h lb
      | WEIGHT \<Rightarrow> (h, weight_initNolock conn h lb)
      | _ \<Rightarrow> (h, rr_initNolock conn h lb))"

definition put_data :: "u64 \<Rightarrow> nat \<Rightarrow> (u64 \<times> nat) list \<Rightarrow> (u64 \<times> nat) list" where
  "put_data k v m = (k, v) # filter (\<lambda>p. fst p \<noteq> k) m"

definition lb_getById :: "u64 \<Rightarrow> load_balance \<Rightarrow> nat option" where
  "lb_getById i lb = map_of (lb_datas lb) i"

definition lb_add where
  "lb_add conn wprod v h lb =
     initNolock conn wprod h (lb\<lparr>lb_datas := put_data (it_id (h ! v)) v (lb_datas lb)\<rparr>)"

definition lb_del where
  "lb_del conn wprod v h lb =
     initNolock conn wprod h (lb\<lparr>lb_datas := filter (\<lambda>p. fst p \<noteq> it_id (h ! v)) (lb_datas lb)\<rparr>)"

text \<open>\<open>update\<close> also returns \<open>dels\<close> with the items it has removed.\<close>

definition lb_update where
  "lb_update conn wprod adds dels h lb =
     (let dels' = map (\<lambda>(i, old). (i, case map_of (lb_datas lb) i of None \<Rightarrow> old | Some v \<Rightarrow> Some v)) dels;
          datas = filter (\<lambda>p. fst p \<notin> fst ` set dels) (lb_datas lb);
          datas = fold (\<lambda>(k, v). put_data k v) adds datas
      in (dels', initNolock conn wprod h (lb\<lparr>lb_datas := datas\<rparr>)))"

definition lb_set where
  "lb_set conn wprod vs h lb =
     initNolock conn wprod h
       (lb\<lparr>lb_datas := fold (\<lambda>v. put_data (it_id (h ! v)) v) vs []\<rparr>)"

definition lb_init where
  "lb_init conn wprod h lb = initNolock conn wprod h lb"

definition lb_checkInit where
  "lb_checkInit conn wprod ts h lb =
     (if ts - lb_lastInitTime lb > (500 :: u64)
      then (let (h, lb) = lb_init conn wprod h lb in (h, lb\<lparr>lb_lastInitTime := ts\<rparr>))
      else (h, lb))"

section \<open>Choosing an item\<close>

text \<open>The first valid item from the position \<open>start\<close> on, around the list.\<close>

definition scan_from :: "(nat \<Rightarrow> bool) \<Rightarrow> nat list \<Rightarrow> nat \<Rightarrow> nat option" where
  "scan_from valid items start =
     List.find valid (map (\<lambda>i. items ! ((start + i) mod length items)) [0..<length items])"

definition drawn :: "u64 \<Rightarrow> u64 \<Rightarrow> u64" where
  "drawn r v = (if v = - 1 then r else v)"

definition rr_get :: "(nat \<Rightarrow> bool) \<Rightarrow> u64 \<Rightarrow> u64 \<Rightarrow> heap \<Rightarrow> load_balance \<Rightarrow> nat option" where
  "rr_get conn r v h lb =
     (if lb_items lb = [] then None
      else
        let start = unat (ucast (drawn r v mod of_nat (length (lb_items lb))) :: u32)
        in scan_from (\<lambda>i. isValid conn (h ! i)) (lb_items lb) start)"

text \<open>
  \<open>std::upper_bound\<close>: the first position whose value is greater. It is defined on a range that
  the comparison splits in two; on any other, and there only, the model gives \<open>BadIter\<close>. The
  comparison is of unsigned numbers, since \<open>dis\<close> is.
\<close>

definition upper_bound :: "u64 \<Rightarrow> u64 list \<Rightarrow> nat res" where
  "upper_bound x ws =
     (let n = length (takeWhile (\<lambda>w. \<not> x < w) ws)
      in if list_all (\<lambda>w. x < w) (drop n ws) then Inr n else Inl BadIter)"

definition getIdx :: "u64 \<Rightarrow> u64 \<Rightarrow> load_balance \<Rightarrow> nat option res" where
  "getIdx r v lb =
     (if lb_weights lb = [] then Inr None
      else
        let total = last (lb_weights lb) in
        if total = 0 then Inl DivByZero
        else bindE (upper_bound (drawn r v mod total) (lb_weights lb)) (\<lambda>i.
               if i < length (lb_weights lb) then Inr (Some i) else Inl AssertFail))"

definition weight_get :: "(nat \<Rightarrow> bool) \<Rightarrow> u64 \<Rightarrow> u64 \<Rightarrow> heap \<Rightarrow> load_balance \<Rightarrow> nat option res" where
  "weight_get conn r v h lb =
     bindE (getIdx r v lb) (\<lambda>idx.
       case idx of
         None \<Rightarrow> Inr None
       | Some i \<Rightarrow> Inr (scan_from (\<lambda>i. isValid conn (h ! i)) (lb_items lb) i))"

text \<open>The virtual \<open>get\<close>.\<close>

definition lb_get :: "(nat \<Rightarrow> bool) \<Rightarrow> u64 \<Rightarrow> u64 \<Rightarrow> heap \<Rightarrow> load_balance \<Rightarrow> nat option res" where
  "lb_get conn r v h lb =
     (if lb_kind lb = WEIGHT \<or> lb_kind lb = FAIR then weight_get conn r v h lb
      else Inr (rr_get conn r v h lb))"

section \<open>Balancers by domain and service\<close>

record sd_balance =
  sd_datas :: "(bytes, (bytes, load_balance option) std_map) std_map"
  sd_types :: "(bytes, (bytes, lb_type) std_map) std_map"
  sd_heap :: heap
  sd_timer :: bool
  sd_isRefresh :: bool

definition sd_getType :: "bytes \<Rightarrow> bytes \<Rightarrow> sd_balance \<Rightarrow> lb_type" where
  "sd_getType domain service sd =
     (case map_get domain (sd_types sd) of
        None \<Rightarrow> UNKNOWN
      | Some m \<Rightarrow>
          (case map_get service m of
             Some t \<Rightarrow> t
           | None \<Rightarrow> (case map_get (str ''all'') m of Some t \<Rightarrow> t | None \<Rightarrow> UNKNOWN)))"

definition createLoadBalance :: "lb_type \<Rightarrow> load_balance option" where
  "createLoadBalance t = (if t = UNKNOWN then None else Some (new_load_balance t))"

definition createLoadBalanceItem :: "u64 \<Rightarrow> lb_type \<Rightarrow> lb_item option" where
  "createLoadBalanceItem now t = (if t = UNKNOWN then None else Some (new_item now))"

definition sd_find :: "bytes \<Rightarrow> bytes \<Rightarrow> sd_balance \<Rightarrow> load_balance option option" where
  "sd_find domain service sd =
     (case map_get domain (sd_datas sd) of None \<Rightarrow> None | Some m \<Rightarrow> map_get service m)"

definition sd_put :: "bytes \<Rightarrow> bytes \<Rightarrow> load_balance option \<Rightarrow> sd_balance \<Rightarrow> sd_balance" where
  "sd_put domain service lb sd =
     sd\<lparr>sd_datas := map_put domain
          (map_put service lb (case map_get domain (sd_datas sd) of None \<Rightarrow> [] | Some m \<Rightarrow> m)) (sd_datas sd)\<rparr>"

definition sd_get :: "bytes \<Rightarrow> bytes \<Rightarrow> bool \<Rightarrow> sd_balance \<Rightarrow> load_balance option \<times> sd_balance" where
  "sd_get domain service auto_create sd =
     (case sd_find domain service sd of
        Some lb \<Rightarrow> (lb, sd)
      | None \<Rightarrow>
          if \<not> auto_create then (None, sd)
          else let lb = createLoadBalance (sd_getType domain service sd)
               in (lb, sd_put domain service lb sd))"

definition conf_type :: "bytes \<Rightarrow> lb_type" where
  "conf_type s =
     (if s = str ''round_robin'' then ROUNDROBIN else if s = str ''weight'' then WEIGHT else FAIR)"

text \<open>The second result is what \<open>setQueryServer\<close> is given.\<close>

definition sd_initConf ::
  "(bytes \<times> (bytes \<times> bytes) list) list \<Rightarrow> sd_balance \<Rightarrow> sd_balance \<times> (bytes, bytes list) std_map" where
  "sd_initConf confs sd =
     (let step = (\<lambda>d n (types, q).
            (map_put d (map_put (fst n) (conf_type (snd n)) (case map_get d types of None \<Rightarrow> [] | Some m \<Rightarrow> m)) types,
             multi_insert d (fst n) q));
          (types, q) = fold (\<lambda>i. fold (step (fst i)) (snd i)) confs ([], [])
      in (sd\<lparr>sd_types := types\<rparr>, q))"

text \<open>
  \<open>callback\<close> opens a stream, or fails. The items of \<open>adds\<close> are allocated at the end of the heap.
  The last result lists the streams that are closed.
\<close>

fun add_services ::
  "('i \<Rightarrow> nat option) \<Rightarrow> u64 \<Rightarrow> (u64 \<times> 'i) list \<Rightarrow> heap \<Rightarrow> (u64 \<times> nat) list \<times> heap" where
  "add_services callback now [] h = ([], h)"
| "add_services callback now ((i, info) # is) h =
     (case callback info of
        None \<Rightarrow> add_services callback now is h
      | Some s \<Rightarrow>
          let (adds, h') = add_services callback now is (h @ [(new_item now)\<lparr>it_id := i, it_stream := Some s\<rparr>])
          in ((i, length h) # adds, h'))"

definition sd_onServiceChange ::
  "(nat \<Rightarrow> bool) \<Rightarrow> (holder_stats \<Rightarrow> holder_stats \<Rightarrow> u64 \<Rightarrow> int) \<Rightarrow> ('i \<Rightarrow> nat option) \<Rightarrow> u64 \<Rightarrow> bytes \<Rightarrow> bytes \<Rightarrow>
   (u64 \<times> 'i) list \<Rightarrow> (u64 \<times> 'i) list \<Rightarrow> sd_balance \<Rightarrow> (nat list \<times> sd_balance) res" where
  "sd_onServiceChange conn wprod callback now domain service old_value new_value sd =
     (if sd_getType domain service sd = UNKNOWN then Inr ([], sd)
      else
        let dels = map (\<lambda>i. (fst i, None)) (filter (\<lambda>i. map_of new_value (fst i) = None) old_value);
            add_vals = filter (\<lambda>i. map_of old_value (fst i) = None) new_value;
            (adds, h) = add_services callback now add_vals (sd_heap sd);
            sd = sd\<lparr>sd_heap := h\<rparr>
        in if adds = [] \<and> dels = [] then Inr ([], sd)
           else case sd_get domain service True sd of
                  (None, sd) \<Rightarrow> Inl NullDeref
                | (Some lb, sd) \<Rightarrow>
                    let (dels, h, lb) = lb_update conn wprod adds dels (sd_heap sd) lb
                    in Inr (concat (map (\<lambda>d. case snd d of None \<Rightarrow> [] | Some v \<Rightarrow> item_close (h ! v)) dels),
                            sd_put domain service (Some lb) (sd\<lparr>sd_heap := h\<rparr>)))"

definition sd_start :: "sd_balance \<Rightarrow> bool \<times> sd_balance" where
  "sd_start sd = (\<not> sd_timer sd, sd\<lparr>sd_timer := True\<rparr>)"

definition sd_stop :: "sd_balance \<Rightarrow> bool \<times> sd_balance" where
  "sd_stop sd = (sd_timer sd, sd\<lparr>sd_timer := False\<rparr>)"

fun refresh_services where
  "refresh_services conn wprod ts [] h = Inr ([], h)"
| "refresh_services conn wprod ts ((s, lb) # ss) h =
     (case lb of
        None \<Rightarrow> Inl NullDeref
      | Some lb \<Rightarrow>
          let (h, lb) = lb_checkInit conn wprod ts h lb
          in bindE (refresh_services conn wprod ts ss h) (\<lambda>(ss, h). Inr ((s, Some lb) # ss, h)))"

fun refresh_domains where
  "refresh_domains conn wprod ts [] h = Inr ([], h)"
| "refresh_domains conn wprod ts ((d, ss) # ds) h =
     bindE (refresh_services conn wprod ts ss h) (\<lambda>(ss, h).
     bindE (refresh_domains conn wprod ts ds h) (\<lambda>(ds, h). Inr ((d, ss) # ds, h)))"

definition sd_refresh where
  "sd_refresh conn wprod ts sd =
     (if sd_isRefresh sd then Inr sd
      else bindE (refresh_domains conn wprod ts (sd_datas sd) (sd_heap sd)) (\<lambda>(ds, h).
             Inr (sd\<lparr>sd_datas := ds, sd_heap := h, sd_isRefresh := False\<rparr>)))"

section \<open>A request through a balancer\<close>

definition err_NO_SERVICE :: int where "err_NO_SERVICE = - 101"
definition err_NO_CONNECTION :: int where "err_NO_CONNECTION = - 102"

definition lb_failed :: "int \<Rightarrow> string \<Rightarrow> rock_request \<Rightarrow> rock_result" where
  "lb_failed code text req =
     \<lparr>rr_result = code, rr_resultStr = str text, rr_used = 0, rr_response = None, rr_request = req, rr_server = []\<rparr>"

text \<open>
  Up to the call of the stream's \<open>request\<close>: a failure, or the chosen item and the slot the
  reference \<open>stats\<close> stands for while the fiber waits.
\<close>

definition lb_request_begin ::
  "(nat \<Rightarrow> bool) \<Rightarrow> u64 \<Rightarrow> u64 \<Rightarrow> bytes \<Rightarrow> bytes \<Rightarrow> rock_request \<Rightarrow> u64 \<Rightarrow> sd_balance \<Rightarrow>
   (rock_result + (nat \<times> nat) \<times> sd_balance) res" where
  "lb_request_begin conn r idx domain service req ts sd =
     (case fst (sd_get domain service False sd) of
        None \<Rightarrow> Inr (Inl (lb_failed err_NO_SERVICE ''no_service'' req))
      | Some lb \<Rightarrow>
          bindE (lb_get conn r idx (sd_heap sd) lb) (\<lambda>c.
            case c of
              None \<Rightarrow> Inr (Inl (lb_failed err_NO_CONNECTION ''no_connection'' req))
            | Some i \<Rightarrow>
                bindE (item_get (ucast (ts div 1000)) (sd_heap sd ! i)) (\<lambda>(j, it).
                  let it = it\<lparr>it_stats := at_slot j (\<lambda>s. incTotal 1 (incDoing 1 s)) (it_stats it)\<rparr>
                  in Inr (Inr ((i, j), sd\<lparr>sd_heap := (sd_heap sd)[i := it]\<rparr>)))))"

definition request_counts :: "int \<Rightarrow> u64 \<Rightarrow> holder_stats \<Rightarrow> holder_stats" where
  "request_counts result used s =
     decDoing 1
       (if result = 0 then incUsedTime (ucast used) (incOks 1 s)
        else if result = - 1 then incTimeouts 1 s
        else if result < 0 then incErrs 1 s else s)"

definition lb_request_end :: "nat \<times> nat \<Rightarrow> int \<Rightarrow> u64 \<Rightarrow> sd_balance \<Rightarrow> sd_balance" where
  "lb_request_end ref result used sd =
     (let it = sd_heap sd ! fst ref
      in sd\<lparr>sd_heap := (sd_heap sd)[fst ref :=
           it\<lparr>it_stats := at_slot (snd ref) (request_counts result used) (it_stats it)\<rparr>]\<rparr>)"

end
