(* ===== verification/LoadBalanceProps.thy ===== *)
theory LoadBalanceProps
  imports LoadBalance
begin

text \<open>
  What the balancers choose: the contract of \<open>get\<close>, stated as a locale and met by both ways of
  choosing, the share each weight gets, and the states in which choosing divides by zero.
\<close>

section \<open>Scanning\<close>

lemma rotation_onto: "s < n \<Longrightarrow> (\<lambda>i. (s + i) mod n) ` {..<n} = {..<n}" for s n :: nat
proof
  assume s: "s < n"
  show "{..<n} \<subseteq> (\<lambda>i. (s + i) mod n) ` {..<n}"
  proof
    fix j assume "j \<in> {..<n}"
    then have "(s + (n + j - s) mod n) mod n = j"
      using s by (simp add: mod_simps)
    moreover have "(n + j - s) mod n < n" using s by simp
    ultimately show "j \<in> (\<lambda>i. (s + i) mod n) ` {..<n}" by (metis image_eqI lessThan_iff)
  qed
qed auto

lemma rotation_any: "0 < n \<Longrightarrow> (\<lambda>i. (s + i) mod n) ` {..<n} = {..<n}" for s n :: nat
  using rotation_onto [of "s mod n" n] by (simp add: mod_simps)

lemma scan_from_spec:
  assumes "items \<noteq> []"
  shows "case scan_from P items start of
      Some i \<Rightarrow> i \<in> set items \<and> P i | None \<Rightarrow> \<forall>i \<in> set items. \<not> P i"
proof -
  let ?n = "length items"
  let ?xs = "map (\<lambda>i. items ! ((start + i) mod ?n)) [0..<?n]"
  have "set ?xs = (!) items ` (\<lambda>i. (start + i) mod ?n) ` {..<?n}"
    by (simp add: image_image atLeast0LessThan)
  also have "\<dots> = (!) items ` {..<?n}" using assms by (subst rotation_any) auto
  also have "\<dots> = set items" by (auto simp: set_conv_nth)
  finally have pos: "set ?xs = set items" .
  show ?thesis
  proof (cases "List.find P ?xs")
    case None
    then show ?thesis by (simp add: scan_from_def) (simp only: find_None_iff pos, blast)
  next
    case (Some i)
    then have "P i" and "i \<in> set ?xs" by (auto simp: find_Some_iff)
    then have "i \<in> set items" unfolding pos by simp
    with Some \<open>P i\<close> show ?thesis by (simp add: scan_from_def)
  qed
qed

section \<open>The contract of \<open>get\<close>\<close>

text \<open>A weighing balancer has one running sum per item.\<close>

definition lb_ok :: "load_balance \<Rightarrow> bool" where
  "lb_ok lb \<longleftrightarrow> (lb_kind lb \<in> {WEIGHT, FAIR} \<longrightarrow> length (lb_weights lb) = length (lb_items lb))"

locale item_chooser =
  fixes pick :: "(nat \<Rightarrow> bool) \<Rightarrow> u64 \<Rightarrow> u64 \<Rightarrow> heap \<Rightarrow> load_balance \<Rightarrow> nat option res"
    and usable :: "load_balance \<Rightarrow> bool"
  assumes pick_none: "usable lb \<Longrightarrow> lb_items lb = [] \<Longrightarrow> pick conn r v h lb = Inr None"
    and pick_scans: "usable lb \<Longrightarrow> lb_items lb \<noteq> [] \<Longrightarrow> pick conn r v h lb = Inr c \<Longrightarrow>
      \<exists>start. c = scan_from (\<lambda>i. isValid conn (h ! i)) (lb_items lb) start"
begin

lemma pick_valid:
  assumes "usable lb" "pick conn r v h lb = Inr c"
  shows "case c of
      Some i \<Rightarrow> i \<in> set (lb_items lb) \<and> isValid conn (h ! i)
    | None \<Rightarrow> \<forall>i \<in> set (lb_items lb). \<not> isValid conn (h ! i)"
proof (cases "lb_items lb = []")
  case True
  then show ?thesis using assms pick_none by auto
next
  case False
  from pick_scans [OF assms(1) False assms(2)] obtain start where
    "c = scan_from (\<lambda>i. isValid conn (h ! i)) (lb_items lb) start" by blast
  then show ?thesis using scan_from_spec [OF False] by simp
qed

end

interpretation rr: item_chooser "\<lambda>conn r v h lb. Inr (rr_get conn r v h lb)" "\<lambda>_. True"
  by unfold_locales (auto simp: rr_get_def Let_def)

interpretation weighted: item_chooser weight_get "\<lambda>lb. length (lb_weights lb) = length (lb_items lb)"
  by unfold_locales
    (auto simp: weight_get_def getIdx_def Let_def bindE_Inr_iff split: if_splits option.splits)

lemma init_ok: "lb_ok (snd (initNolock conn wprod h lb))"
proof -
  have "length (running t ws) = length ws" for t ws by (induction ws arbitrary: t) auto
  then show ?thesis
    by (auto simp: lb_ok_def initNolock_def rr_initNolock_def weight_initNolock_def fair_initNolock_def Let_def
        split: lb_type.split)
qed

text \<open>Every balancer, once its items have been set up, gives an item that is connected, or none
  when none of its items is connected any more.\<close>

theorem get_gives_connected:
  assumes "lb_get conn r v h' (snd (initNolock conn0 wprod h lb)) = Inr c"
  shows "case c of
      Some i \<Rightarrow> i \<in> set (lb_items (snd (initNolock conn0 wprod h lb))) \<and> isValid conn (h' ! i)
    | None \<Rightarrow> \<forall>i \<in> set (lb_items (snd (initNolock conn0 wprod h lb))). \<not> isValid conn (h' ! i)"
proof (cases "lb_kind (snd (initNolock conn0 wprod h lb)) \<in> {WEIGHT, FAIR}")
  case True
  then have "length (lb_weights (snd (initNolock conn0 wprod h lb))) = length (lb_items (snd (initNolock conn0 wprod h lb)))"
    using init_ok [of conn0 wprod h lb] by (auto simp: lb_ok_def)
  moreover have "weight_get conn r v h' (snd (initNolock conn0 wprod h lb)) = Inr c"
    using assms True by (auto simp: lb_get_def)
  ultimately show ?thesis by (rule weighted.pick_valid)
next
  case False
  then have "Inr (rr_get conn r v h' (snd (initNolock conn0 wprod h lb))) = (Inr c :: nat option res)"
    using assms by (simp add: lb_get_def)
  then show ?thesis by (rule rr.pick_valid [OF TrueI])
qed

definition demo_lb :: load_balance where
  "demo_lb = snd (initNolock (\<lambda>_. True) (\<lambda>_ _ _. 0) [(new_item 0)\<lparr>it_stream := Some 4\<rparr>]
     ((new_load_balance FAIR)\<lparr>lb_datas := [(1, 0)]\<rparr>))"

theorem get_gives_connected_witness: "0 \<in> set (lb_items demo_lb)"
proof -
  have "lb_get (\<lambda>_. True) 0 7 [(new_item 0)\<lparr>it_stream := Some 4\<rparr>] demo_lb = Inr (Some 0)"
    unfolding demo_lb_def by code_simp
  from get_gives_connected [OF this [unfolded demo_lb_def]] show ?thesis by (simp add: demo_lb_def)
qed

section \<open>Shares\<close>

lemma running_nth:
  "i < length ws \<Longrightarrow> running t ws ! i = t + sum_list (take (Suc i) ws)"
  by (induction ws arbitrary: t i) (auto simp: nth_Cons' add.assoc take_Cons' split: nat.split)

lemma sum_take_le: "i \<le> j \<Longrightarrow> sum_list (take i ws) \<le> sum_list (take j (ws :: nat list))"
  using sum_list_append [of "take i ws" "take (j - i) (drop i ws)"] by (simp flip: take_add)

lemma of_nat_sum_list: "sum_list (map of_nat ws) = (of_nat (sum_list ws) :: u64)"
  by (induction ws) auto

lemma takeWhile_position:
  assumes "k < length xs" "\<And>i. i < k \<Longrightarrow> P (xs ! i)" "\<not> P (xs ! k)"
  shows "length (takeWhile P xs) = k"
  using takeWhile_eq_take_P_nth [of k xs P] assms by simp

lemma getIdx_position:
  fixes ws :: "nat list" and r v :: u64
  defines "x \<equiv> unat (if v = - 1 then r else v) mod sum_list ws"
  assumes ws: "lb_weights lb = running 0 (map of_nat ws)"
    and small: "sum_list ws < 2 ^ 63" and total: "0 < sum_list ws"
    and k: "k < length ws" "sum_list (take k ws) \<le> x" "x < sum_list (take (Suc k) ws)"
  shows "getIdx r v lb = Inr (Some k)"
proof -
  let ?n = "length ws" and ?S = "\<lambda>i. sum_list (take (Suc i) ws)"
  have len: "length (running t us) = length us" for t us by (induction us arbitrary: t) auto
  have w: "lb_weights lb ! i = of_nat (?S i)" if "i < ?n" for i
    using that by (simp add: ws running_nth flip: take_map of_nat_sum_list)
  have le: "?S i \<le> sum_list ws" for i
    using sum_list_append [of "take (Suc i) ws" "drop (Suc i) ws"] by simp
  have un: "unat (of_nat (?S i) :: u64) = ?S i" for i
    using le [of i] small by (simp add: unat_of_nat)
  have ne: "ws \<noteq> []" using k by auto
  have ne2: "lb_weights lb \<noteq> []" using ne by (cases ws) (auto simp: ws)
  have lst: "last (lb_weights lb) = of_nat (sum_list ws)"
    using ne ne2 w [of "?n - 1"] len [of 0 "map of_nat ws"] by (simp add: last_conv_nth ws)
  have tot: "unat (of_nat (sum_list ws) :: u64) = sum_list ws" using small by (simp add: unat_of_nat)
  have nz: "(of_nat (sum_list ws) :: u64) \<noteq> 0" using tot total by (metis less_nat_zero_code unat_0)
  define dis where "dis = drawn r v mod of_nat (sum_list ws)"
  have dis: "unat dis = x" by (simp add: dis_def x_def drawn_def unat_mod_distrib tot)
  have gt: "dis < lb_weights lb ! i \<longleftrightarrow> x < ?S i" if "i < ?n" for i
    using that by (simp add: w word_less_nat_alt un dis)
  have mono: "i < k \<Longrightarrow> ?S i \<le> sum_list (take k ws)" for i by (rule sum_take_le) simp
  have mono2: "k \<le> i \<Longrightarrow> ?S k \<le> ?S i" for i by (rule sum_take_le) simp
  have pos_k: "length (takeWhile (\<lambda>w. \<not> dis < w) (lb_weights lb)) = k"
  proof (rule takeWhile_position)
    show "k < length (lb_weights lb)" using k(1) by (simp add: ws len)
    show "\<not> dis < lb_weights lb ! i" if "i < k" for i
      using gt [of i] mono [OF that] that k by simp
    show "\<not> \<not> dis < lb_weights lb ! k" using gt [OF k(1)] k(3) by simp
  qed
  have "list_all (\<lambda>w. dis < w) (drop k (lb_weights lb))"
  proof -
    have "x < ?S i" if "k \<le> i" for i using mono2 [OF that] k(3) by linarith
    then show ?thesis using gt by (auto simp: list_all_length len ws)
  qed
  then have "upper_bound dis (lb_weights lb) = Inr k"
    by (simp add: upper_bound_def pos_k)
  moreover have "length (lb_weights lb) = ?n" by (simp add: ws len)
  ultimately show ?thesis
    using k(1) nz ne2 by (simp add: getIdx_def lst Let_def flip: dis_def)
qed

lemma position_exists:
  "v < sum_list ws \<Longrightarrow> \<exists>k < length ws. sum_list (take k ws) \<le> v \<and> v < sum_list (take (Suc k) (ws :: nat list))"
proof (induction ws arbitrary: v)
  case (Cons w ws)
  show ?case
  proof (cases "v < w")
    case True
    then show ?thesis by (intro exI [of _ 0]) simp
  next
    case False
    then have "v - w < sum_list ws" using Cons.prems by simp
    from Cons.IH [OF this] obtain k where "k < length ws" "sum_list (take k ws) \<le> v - w" "v - w < sum_list (take (Suc k) ws)"
      by blast
    then show ?thesis using False by (intro exI [of _ "Suc k"]) auto
  qed
qed simp

text \<open>C28: whatever value is given, and whatever \<open>rand()\<close> returns when that is \<open>-1\<close>, the remainder of
  the draw by the total is what picks, and item \<open>k\<close> is picked exactly for the remainders of an
  interval as long as its weight, which follows the intervals of the items before it: the shares
  are the weights, with no remainder left over and none twice. The weights are not negative and
  their total is positive and below 2^63.\<close>

theorem weighted_share:
  fixes ws :: "nat list" and r v :: u64
  assumes "lb_weights lb = running 0 (map of_nat ws)" "0 < sum_list ws" "sum_list ws < 2 ^ 63"
    and "k < length ws"
  shows "getIdx r v lb = Inr (Some k) \<longleftrightarrow>
      unat (if v = - 1 then r else v) mod sum_list ws \<in> {sum_list (take k ws)..<sum_list (take k ws) + ws ! k}"
proof -
  define x where "x = unat (if v = - 1 then r else v) mod sum_list ws"
  have "x < sum_list ws" using assms(2) by (simp add: x_def)
  from position_exists [OF this] obtain j where
    j: "j < length ws" "sum_list (take j ws) \<le> x" "x < sum_list (take (Suc j) ws)" by blast
  have "getIdx r v lb = Inr (Some j)"
    by (rule getIdx_position [OF assms(1,3,2) j(1)]) (use j x_def in simp_all)
  moreover have "k = j" if "x \<in> {sum_list (take k ws)..<sum_list (take (Suc k) ws)}"
    using that j sum_take_le [of "Suc k" j ws] sum_take_le [of "Suc j" k ws] by (cases k j rule: linorder_cases) auto
  moreover have "sum_list (take (Suc k) ws) = sum_list (take k ws) + ws ! k"
    using assms(4) by (simp add: take_Suc_conv_app_nth)
  ultimately show ?thesis using j unfolding x_def [symmetric] by auto
qed

theorem weighted_share_witness:
  "getIdx 8 (- 1) ((new_load_balance WEIGHT)\<lparr>lb_weights := [1, 4, 6]\<rparr>) = Inr (Some 1) \<and>
   getIdx 8 11 ((new_load_balance WEIGHT)\<lparr>lb_weights := [1, 4, 6]\<rparr>) \<noteq> Inr (Some 1)"
  using weighted_share [of "(new_load_balance WEIGHT)\<lparr>lb_weights := [1, 4, 6]\<rparr>" "[1, 3, 2]" 1 8 "- 1"]
    weighted_share [of "(new_load_balance WEIGHT)\<lparr>lb_weights := [1, 4, 6]\<rparr>" "[1, 3, 2]" 1 8 11] by simp

section \<open>Balancers that cannot choose\<close>

lemma running_zero: "\<forall>w \<in> set ws. w = 0 \<Longrightarrow> running 0 ws = replicate (length ws) 0"
  by (induction ws) auto

text \<open>The type \<open>weight\<close> cannot be used: nothing gives an item of a service a weight other than the
  initial 0, so the first request after a service with a connected stream appears divides by zero.\<close>

theorem weight_service_crashes:
  assumes "sd_getType domain service sd = WEIGHT" "sd_find domain service sd = None"
    and "callback info = Some s" "conn s"
  shows "\<exists>closed sd'. sd_onServiceChange conn wprod callback now domain service [] [(i, info)] sd = Inr (closed, sd') \<and>
    lb_request_begin conn' r idx domain service req ts sd' = Inl DivByZero"
proof -
  let ?k = "length (sd_heap sd)"
  let ?it = "(new_item now)\<lparr>it_id := i, it_stream := Some s\<rparr>"
  let ?h = "sd_heap sd @ [?it]"
  define lb where "lb = (new_load_balance WEIGHT)\<lparr>lb_datas := [(i, ?k)], lb_items := [?k], lb_weights := [0]\<rparr>"
  have upd: "lb_update conn wprod [(i, ?k)] [] ?h (new_load_balance WEIGHT) = ([], ?h, lb)"
    using assms(4)
    by (simp add: lb_update_def initNolock_def weight_initNolock_def valid_items_def new_load_balance_def
        put_data_def isValid_def Let_def new_item_def lb_def)
  have find: "sd_find domain service (sd_put domain service lb' sd1) = Some lb'" for lb' sd1
    by (simp add: sd_find_def sd_put_def)
  have "sd_find domain service (sd\<lparr>sd_heap := ?h\<rparr>) = None" "sd_getType domain service (sd\<lparr>sd_heap := ?h\<rparr>) = WEIGHT"
    using assms(1,2) by (simp_all add: sd_find_def sd_getType_def)
  then have "\<exists>sd'. sd_onServiceChange conn wprod callback now domain service [] [(i, info)] sd = Inr ([], sd') \<and>
      sd_find domain service sd' = Some (Some lb)"
    using assms(1,3) upd
    by (simp add: sd_onServiceChange_def Let_def sd_get_def createLoadBalance_def find)
      (simp add: sd_put_def sd_find_def)
  then obtain sd' where sd': "sd_onServiceChange conn wprod callback now domain service [] [(i, info)] sd = Inr ([], sd')"
    "sd_find domain service sd' = Some (Some lb)" by blast
  have "lb_request_begin conn' r idx domain service req ts sd' = Inl DivByZero"
    by (simp add: lb_request_begin_def sd_get_def sd'(2) lb_get_def weight_get_def getIdx_def lb_def
        new_load_balance_def Let_def)
  with sd'(1) show ?thesis by (intro exI conjI)
qed

definition demo_sd :: sd_balance where
  "demo_sd = \<lparr>sd_datas = [], sd_types = [([97], [([98], WEIGHT)])], sd_heap = [], sd_timer = True, sd_isRefresh = False\<rparr>"

theorem weight_service_crashes_witness:
  "\<exists>closed sd'. sd_onServiceChange (\<lambda>_. True) (\<lambda>_ _ _. 0) Some 0 [97] [98] [] [(1, 4)] demo_sd = Inr (closed, sd') \<and>
     lb_request_begin (\<lambda>_. True) 0 7 [97] [98] new_rock_request 0 sd' = Inl DivByZero"
  by (rule weight_service_crashes [where s = 4])
    (simp_all add: demo_sd_def sd_getType_def sd_find_def)

section \<open>Counting a request that outlives its slot\<close>

text \<open>The slot of a request is cleared when the ring comes round to it; an answer that arrives
  after that counts its end in the cleared slot, whose number of running requests wraps to the
  greatest value.\<close>

theorem late_answer_underflows:
  assumes "item_get now it = Inr (j, it1)" "it2 = it1\<lparr>it_stats := at_slot j (\<lambda>s. incTotal 1 (incDoing 1 s)) (it_stats it1)\<rparr>"
    and "length (ss_stats (it_stats it)) = 5" "ss_last (it_stats it) \<le> now" "unat now + 6 < 2 ^ 32 - 1"
    and "item_get (now + 6) it2 = Inr (j', it3)"
  shows "j' \<noteq> j \<and> hs_doing (ss_stats (at_slot j (request_counts 0 used) (it_stats it3)) ! j) = - 1"
proof -
  have n6: "unat (now + 6) = unat now + 6"
    using assms(5) by (simp add: unat_word_ariths)
  have len1: "length (ss_stats (ss_init now (it_stats it))) = 5"
    using init_loop_effect [of now 0 "ss_stats (it_stats it)"] assms(3,5) by (simp add: ss_init_def)
  then have j: "j = unat now mod 5" and it1: "it_stats it1 = ss_init now (it_stats it)"
    using assms(1) by (auto simp: item_get_def ss_get_def Let_def bindE_Inr_iff split: if_splits)
  have last1: "ss_last (it_stats it1) = now" using assms(4) by (auto simp: it1 ss_init_def)
  let ?s = "it_stats it2"
  have s: "ss_last ?s = now" "length (ss_stats ?s) = 5"
    using assms(2) last1 len1 it1 by (simp_all add: at_slot_def)
  have lt: "now < now + 6" using n6 by (simp add: word_less_nat_alt)
  have n1: "unat (now + 1) = Suc (unat now)" using assms(5) by (simp add: unat_word_ariths)
  have len3: "length (ss_stats (ss_init (now + 6) ?s)) = 5"
    using init_loop_effect [of "now + 6" 0 "ss_stats ?s"] s assms(5) n6 by (simp add: ss_init_def)
  then have it3: "it_stats it3 = ss_init (now + 6) ?s" and j': "j' = (unat now + 6) mod 5"
    using assms(6) n6 by (auto simp: item_get_def ss_get_def Let_def bindE_Inr_iff split: if_splits)
  have "\<exists>m. Suc (unat now) + m \<le> unat now + 6 \<and> 0 + m < (5::nat) \<and> (Suc (unat now) + m) mod 5 = j"
    by (rule exI [of _ 4]) (simp add: j)
  moreover have "j < 5" by (simp add: j)
  ultimately have "ss_stats (it_stats it3) ! j = hs_clear"
    using init_loop_effect [of "now + 6" 0 "ss_stats ?s" "now + 1"] s assms(5) n6 n1 lt
    by (simp add: it3 ss_init_def)
  moreover have "j' \<noteq> j" unfolding j j' by presburger
  moreover have "j < 5" by (simp add: j)
  ultimately show ?thesis
    using len3 by (simp add: at_slot_def it3 request_counts_def decDoing_def incUsedTime_def incOks_def hs_clear_def)
qed

definition demo_item :: lb_item where
  "demo_item = (new_item 0)\<lparr>it_stats := (new_stats_set 5)\<lparr>ss_last := 3\<rparr>\<rparr>"

definition demo_counted :: lb_item where
  "demo_counted = (new_item 0)\<lparr>it_stats :=
     \<lparr>ss_last = 9, ss_stats = (replicate 5 hs_clear)[4 := incTotal 1 (incDoing 1 hs_clear)]\<rparr>\<rparr>"

lemma demo_item_get: "item_get 9 demo_item = Inr (4, (new_item 0)\<lparr>it_stats := (new_stats_set 5)\<lparr>ss_last := 9\<rparr>\<rparr>)"
  by code_simp

lemma demo_counted_get:
  "item_get 15 demo_counted = Inr (0, (new_item 0)\<lparr>it_stats := (new_stats_set 5)\<lparr>ss_last := 15\<rparr>\<rparr>)"
  by code_simp

theorem late_answer_underflows_witness:
  "hs_doing (ss_stats (at_slot 4 (request_counts 0 7)
     (it_stats ((new_item 0)\<lparr>it_stats := (new_stats_set 5)\<lparr>ss_last := 15\<rparr>\<rparr>))) ! 4) = - 1"
  using late_answer_underflows [OF demo_item_get, of demo_counted 0 _ 7] demo_counted_get
  by (simp add: demo_counted_def demo_item_def new_stats_set_def at_slot_def new_item_def)

end
