(* ===== verification/NsClient.thy ===== *)
theory NsClient
  imports NameServer
begin

text \<open>
  The client of the name server, \<open>src/ns/NameServerClient.cpp\<close>: the domains it asks for and its own
  copy of the server's tables. A request is an argument, a function from the message to the code and
  the response it ends with; the fiber waits in it, so it also says what has become of the client
  meanwhile. Timers are known by numbers; what an operation does with them and with the event loop
  is a list of effects.
\<close>

section \<open>State\<close>

datatype nc_effect =
    CancelTimer nat
  | AddTimer nat "nat" bool
  | ScheduleQuery
  | SetCallbacks bool
  | SleepSeconds nat

record ns_client =
  nc_queryDomains :: "bytes list"
  nc_domains :: NSDomainSet
  nc_sn :: u32
  nc_timer :: "nat option"

definition new_ns_client :: ns_client where
  "new_ns_client = \<lparr>nc_queryDomains = [], nc_domains = [], nc_sn = 0, nc_timer = None\<rparr>"

text \<open>The result of a request: its code and its response, which may be null.\<close>

type_synonym nc_result = "int \<times> rock_response option"
type_synonym nc_request = "rock_request \<Rightarrow> ns_client \<Rightarrow> nc_result \<times> ns_client"

definition hasQueryDomain :: "bytes \<Rightarrow> ns_client \<Rightarrow> bool" where
  "hasQueryDomain domain c \<longleftrightarrow> domain \<in> set (nc_queryDomains c)"

section \<open>Queries\<close>

definition info_node :: "(bytes \<Rightarrow> u32) \<Rightarrow> PNode \<Rightarrow> NSNode" where
  "info_node inet_addr n =
     new_NSNode inet_addr (get_text (pn_ip n)) (ucast (get_number (pn_port n))) (get_number (pn_weight n))"

text \<open>The nodes of one \<open>NodeInfo\<close>, added to the domain's object; an invalid node is skipped.\<close>

definition add_nodes :: "(bytes \<Rightarrow> u32) \<Rightarrow> NodeInfo \<Rightarrow> NSDomainSet \<Rightarrow> NSDomainSet" where
  "add_nodes inet_addr i ds =
     (let domain = get_text (ni_domain i); cmd = get_number (ni_cmd i) in
      fold (\<lambda>n ds. let node = info_node inet_addr n in
              if drop_bit 32 (node_id node) = 0 then ds
              else at_domain domain (Domain_add cmd node) ds)
        (ni_nodes i) (snd (DomainSet_get domain True ds)))"

definition query_tables :: "(bytes \<Rightarrow> u32) \<Rightarrow> ns_client \<Rightarrow> NodeInfo list \<Rightarrow> NSDomainSet" where
  "query_tables inet_addr c infos =
     fold (\<lambda>i ds. if hasQueryDomain (get_text (ni_domain i)) c then add_nodes inet_addr i ds else ds) infos []"

definition nc_query ::
  "(bytes \<Rightarrow> u32) \<Rightarrow> (bytes list \<Rightarrow> bytes) \<Rightarrow> (bytes \<Rightarrow> NodeInfo list option) \<Rightarrow> nc_request \<Rightarrow> ns_client \<Rightarrow>
   nc_result \<times> ns_client" where
  "nc_query inet_addr serialize parse request c =
     (let sn = nc_sn c + 1;
          c = c\<lparr>nc_sn := sn\<rparr>;
          req = new_rock_request\<lparr>req_sn := sn, req_cmd := cmd_QUERY\<rparr>
      in if nc_queryDomains c = [] then ((0, None), c)
         else
           let req = req\<lparr>rreq_body := serialize (nc_queryDomains c)\<rparr>;
               (rt, c) = request req c
           in case snd rt of
                None \<Rightarrow> (rt, c)
              | Some response \<Rightarrow>
                  (case parse (rrsp_body response) of
                     None \<Rightarrow> (rt, c)
                   | Some rsp \<Rightarrow> (rt, c\<lparr>nc_domains := query_tables inet_addr c rsp\<rparr>)))"

section \<open>The domains asked for\<close>

definition onQueryDomainChange where
  "onQueryDomainChange inet_addr serialize parse request connected c =
     (if connected then snd (nc_query inet_addr serialize parse request c) else c)"

definition setQueryDomains where
  "setQueryDomains inet_addr serialize parse request connected v c =
     onQueryDomainChange inet_addr serialize parse request connected (c\<lparr>nc_queryDomains := v\<rparr>)"

definition addQueryDomain where
  "addQueryDomain inet_addr serialize parse request connected domain c =
     onQueryDomainChange inet_addr serialize parse request connected
       (c\<lparr>nc_queryDomains := set_insert (<) domain (nc_queryDomains c)\<rparr>)"

definition delQueryDomain where
  "delQueryDomain inet_addr serialize parse request connected domain c =
     onQueryDomainChange inet_addr serialize parse request connected
       (c\<lparr>nc_queryDomains := filter (\<lambda>d. d \<noteq> domain) (nc_queryDomains c)\<rparr>)"

section \<open>Callbacks\<close>

definition nc_init :: "ns_client \<Rightarrow> nc_effect list \<times> ns_client" where
  "nc_init c = ([SetCallbacks True], c)"

definition cancel_timer :: "ns_client \<Rightarrow> nc_effect list" where
  "cancel_timer c = (case nc_timer c of None \<Rightarrow> [] | Some t \<Rightarrow> [CancelTimer t])"

definition nc_uninit :: "ns_client \<Rightarrow> nc_effect list \<times> ns_client" where
  "nc_uninit c = (SetCallbacks False # cancel_timer c, c)"

text \<open>\<open>t\<close> is the timer \<open>addTimer\<close> returns.\<close>

definition nc_onConnect :: "nat \<Rightarrow> ns_client \<Rightarrow> bool \<times> nc_effect list \<times> ns_client" where
  "nc_onConnect t c =
     (True, cancel_timer c @ [AddTimer t (30 * 1000) True, ScheduleQuery], c\<lparr>nc_timer := Some t\<rparr>)"

definition nc_onDisConnect :: "ns_client \<Rightarrow> bool \<times> ns_client" where
  "nc_onDisConnect c = (True, c)"

definition del_nodes :: "(bytes \<Rightarrow> u32) \<Rightarrow> ns_client \<Rightarrow> NodeInfo \<Rightarrow> NSDomainSet \<Rightarrow> NSDomainSet" where
  "del_nodes inet_addr c i ds =
     (let domain = get_text (ni_domain i); cmd = get_number (ni_cmd i) in
      if \<not> hasQueryDomain domain c then ds
      else case fst (DomainSet_get domain False ds) of
             None \<Rightarrow> ds
           | Some _ \<Rightarrow>
               fold (\<lambda>n ds. at_domain domain (\<lambda>d. snd (Domain_del cmd (node_id (info_node inet_addr n)) d)) ds)
                 (ni_nodes i) ds)"

definition update_nodes :: "(bytes \<Rightarrow> u32) \<Rightarrow> ns_client \<Rightarrow> NodeInfo \<Rightarrow> NSDomainSet \<Rightarrow> NSDomainSet" where
  "update_nodes inet_addr c i ds =
     (if hasQueryDomain (get_text (ni_domain i)) c then add_nodes inet_addr i ds else ds)"

definition nc_onNotify ::
  "(bytes \<Rightarrow> u32) \<Rightarrow> (bytes \<Rightarrow> NotifyMessage option) \<Rightarrow> rock_notify \<Rightarrow> ns_client \<Rightarrow> bool \<times> ns_client" where
  "nc_onNotify inet_addr parse nty c =
     (if ntf_notify nty = notify_NODE_CHANGE then
        (case parse (rntf_body nty) of
           None \<Rightarrow> (True, c)
         | Some nm \<Rightarrow>
             let ds = fold (del_nodes inet_addr c) (nm_dels nm) (nc_domains c);
                 ds = fold (update_nodes inet_addr c) (nm_updates nm) ds
             in (True, c\<lparr>nc_domains := ds\<rparr>))
      else (True, c))"

text \<open>The tick, the pause and the query; the pause is \<open>sleep(1000)\<close>, in seconds.\<close>

definition nc_onTimer where
  "nc_onTimer inet_addr serialize parse request c =
     (let sn = nc_sn c + 1;
          req = new_rock_request\<lparr>req_sn := sn, req_cmd := cmd_TICK\<rparr>;
          (rt, c) = request req (c\<lparr>nc_sn := sn\<rparr>)
      in ([SleepSeconds 1000], snd (nc_query inet_addr serialize parse request c)))"

end
