(* ===== verification/NsClientProps.thy ===== *)
theory NsClientProps
  imports NsClient NameServerProps
begin

text \<open>
  The client's copy of the tables: what a message leaves listed, and that a query copies exactly
  what the server lists for the domains the client asks for.
\<close>

section \<open>What messages leave listed\<close>

lemma listed_create [simp]: "listed (snd (DomainSet_get dm True ds)) dm' c i = listed ds dm' c i"
  by (auto simp: DomainSet_get_def listed_at Let_def split: option.split)

lemma created: "map_get dm (snd (DomainSet_get dm True ds)) \<noteq> None"
  by (simp add: DomainSet_get_def Let_def split: option.split)

lemma at_domain_present: "map_get dm' (at_domain dm f ds) = None \<longleftrightarrow> map_get dm' ds = None"
  by (auto simp: at_domain_def split: option.split)

definition valid_node :: "NSNode \<Rightarrow> bool" where
  "valid_node n \<longleftrightarrow> drop_bit 32 (node_id n) \<noteq> 0"

text \<open>A message offers a node under a domain, a command and an id.\<close>

definition offers :: "(bytes \<Rightarrow> u32) \<Rightarrow> NodeInfo \<Rightarrow> bytes \<Rightarrow> u32 \<Rightarrow> u64 \<Rightarrow> NSNode \<Rightarrow> bool" where
  "offers inet i dm c k n \<longleftrightarrow> get_text (ni_domain i) = dm \<and> get_number (ni_cmd i) = c \<and>
     n \<in> info_node inet ` set (ni_nodes i) \<and> valid_node n \<and> node_id n = k"

lemma add_nodes_listed:
  "listed (add_nodes inet i ds) dm c k = listed ds dm c k \<and> (\<forall>n. \<not> offers inet i dm c k n) \<or>
   (\<exists>n. offers inet i dm c k n \<and> listed (add_nodes inet i ds) dm c k = Some n)"
proof -
  let ?dm = "get_text (ni_domain i)" and ?c = "get_number (ni_cmd i)"
  define step where "step = (\<lambda>n ds. let node = info_node inet n in
      if drop_bit 32 (node_id node) = 0 then ds else at_domain ?dm (Domain_add ?c node) ds)"
  have "listed (fold step ns es) dm c k = listed es dm c k \<and>
       (\<forall>n \<in> info_node inet ` set ns. \<not> (?dm = dm \<and> ?c = c \<and> valid_node n \<and> node_id n = k)) \<or>
     (\<exists>n \<in> info_node inet ` set ns. ?dm = dm \<and> ?c = c \<and> valid_node n \<and> node_id n = k \<and>
       listed (fold step ns es) dm c k = Some n)"
    if "map_get ?dm es \<noteq> None" for ns es
    using that
  proof (induction ns arbitrary: es)
    case (Cons n ns)
    have "map_get ?dm (step n es) \<noteq> None"
      using Cons.prems by (simp add: step_def Let_def at_domain_present del: not_None_eq)
    moreover have "listed (step n es) dm c k =
       (if valid_node (info_node inet n) \<and> dm = ?dm \<and> c = ?c \<and> k = node_id (info_node inet n)
        then Some (info_node inet n) else listed es dm c k)"
      using listed_add_step [OF Cons.prems] by (simp add: step_def Let_def valid_node_def)
    ultimately show ?case using Cons.IH [of "step n es"] by (auto split: if_splits)
  qed simp
  from this [OF created, of "ni_nodes i" ds] show ?thesis
    by (auto simp: add_nodes_def step_def Let_def offers_def)
qed

definition offered :: "(bytes \<Rightarrow> u32) \<Rightarrow> ns_client \<Rightarrow> NodeInfo list \<Rightarrow> bytes \<Rightarrow> u32 \<Rightarrow> u64 \<Rightarrow> NSNode \<Rightarrow> bool" where
  "offered inet cl infos dm c k n \<longleftrightarrow> hasQueryDomain dm cl \<and> (\<exists>i \<in> set infos. offers inet i dm c k n)"

lemma update_fold_listed:
  "listed (fold (update_nodes inet cl) infos ds) dm c k = listed ds dm c k \<and> (\<forall>n. \<not> offered inet cl infos dm c k n) \<or>
   (\<exists>n. offered inet cl infos dm c k n \<and> listed (fold (update_nodes inet cl) infos ds) dm c k = Some n)"
proof (induction infos arbitrary: ds)
  case (Cons i infos)
  have step: "listed (update_nodes inet cl i ds) dm c k = listed ds dm c k \<and>
        (\<forall>n. \<not> (hasQueryDomain dm cl \<and> offers inet i dm c k n)) \<or>
      (\<exists>n. hasQueryDomain dm cl \<and> offers inet i dm c k n \<and> listed (update_nodes inet cl i ds) dm c k = Some n)"
    using add_nodes_listed [of inet i ds dm c k] by (auto simp: update_nodes_def offers_def)
  have off: "offered inet cl (i # infos) dm c k n \<longleftrightarrow>
      hasQueryDomain dm cl \<and> offers inet i dm c k n \<or> offered inet cl infos dm c k n" for n
    by (auto simp: offered_def)
  show ?case
    using Cons.IH [of "update_nodes inet cl i ds"] step by (simp add: off) metis
qed (simp add: offered_def)

lemma query_tables_fold: "query_tables inet cl infos = fold (update_nodes inet cl) infos []"
  by (simp add: query_tables_def update_nodes_def [abs_def])

section \<open>What the server answers\<close>

text \<open>A node that its own ip, port and weight determine, as every node of the server is.\<close>

definition made :: "(bytes \<Rightarrow> u32) \<Rightarrow> NSNode \<Rightarrow> bool" where
  "made inet n \<longleftrightarrow> valid_node n \<and> n = new_NSNode inet (node_ip n) (node_port n) (node_weight n)"

lemma info_node_message: "made inet n \<Longrightarrow> info_node inet (node_message n) = n"
  by (simp add: info_node_def node_message_def get_text_def get_number_def made_def) (simp add: ucast_up_ucast_id is_up)

definition sessions_made :: "(bytes \<Rightarrow> u32) \<Rightarrow> name_server \<Rightarrow> bool" where
  "sessions_made inet srv \<longleftrightarrow> (\<forall>rs x. srv_get rs srv = Some x \<longrightarrow> made inet (ci_node x))"

definition listed_made :: "(bytes \<Rightarrow> u32) \<Rightarrow> name_server \<Rightarrow> bool" where
  "listed_made inet srv \<longleftrightarrow> (\<forall>dm c i n. listed (srv_domains srv) dm c i = Some n \<longrightarrow> made inet n)"

lemma register_info_made:
  assumes "register_info inet old i new = Some r" "\<And>x. new = Some x \<Longrightarrow> made inet (ci_node x)"
  shows "\<And>x. r = Some x \<Longrightarrow> made inet (ci_node x)"
  using assms
  by (auto simp: register_info_def Let_def made_def valid_node_def new_NSNode_def
      split: option.split_asm if_split_asm)

lemma register_loop_made:
  "register_loop inet old is new = Some r \<Longrightarrow> (\<And>x. new = Some x \<Longrightarrow> made inet (ci_node x)) \<Longrightarrow>
   r = Some x \<Longrightarrow> made inet (ci_node x)"
proof (induction "is" arbitrary: new)
  case (Cons i "is")
  from Cons.prems(1) obtain r1 where
    r1: "register_info inet old i new = Some r1" "register_loop inet old is r1 = Some r"
    by (auto split: option.splits)
  show ?case using Cons.IH [OF r1(2)] register_info_made [OF r1(1) Cons.prems(2)] Cons.prems(3) by blast
qed simp

lemma set_sessions:
  "srv_set connected rs info srv = Inr srv' \<Longrightarrow> srv_get r srv' = Some x \<Longrightarrow> srv_get r srv = Some x \<or> info = Some x"
  by (auto simp: srv_set_def Let_def srv_get_def bindE_Inr_iff split: prod.split_asm option.split_asm if_split_asm)

lemma set_made:
  "srv_set connected rs info srv = Inr srv' \<Longrightarrow> sessions_made inet srv \<Longrightarrow>
   (\<And>x. info = Some x \<Longrightarrow> made inet (ci_node x)) \<Longrightarrow> sessions_made inet srv'"
  unfolding sessions_made_def using set_sessions by blast

lemma step_sessions_made:
  assumes "ns_step inet parse by_address parse_query serialize srv srv'" "sessions_made inet srv"
  shows "sessions_made inet srv'"
  using assms(1)
proof (cases rule: ns_step.cases)
  case (Request connected rq rsp stream ok rsp')
  let ?srv = "srv\<lparr>srv_request_count := srv_request_count srv + 1\<rparr>"
  have made: "sessions_made inet ?srv" using assms(2) by (simp add: sessions_made_def srv_get_def)
  have "sessions_made inet srv'" if "handleRegister inet parse connected rq rsp stream ?srv = Inr (ok, rsp', srv')"
    using that made register_loop_made [of inet _ _ None]
    by (auto simp: handleRegister_def bindE_Inr_iff split: option.split_asm intro: set_made)
  then show ?thesis
    using Request made by (auto simp: srv_handleRockRequest_def Let_def split: if_split_asm prod.split_asm)
next
  case (Connect is_rock ok)
  then show ?thesis using assms(2) by (auto simp: srv_onConnect_def sessions_made_def srv_get_def)
next
  case (Disconnect is_rock connected stream ok)
  have "sessions_made inet (srv\<lparr>srv_on_disconnect := srv_on_disconnect srv + 1\<rparr>)"
    using assms(2) by (simp add: sessions_made_def srv_get_def)
  then show ?thesis
    using Disconnect by (auto simp: srv_onDisconnect_def Let_def bindE_Inr_iff split: if_split_asm intro: set_made)
qed

lemma reset_listed_made:
  assumes "reset_session rs new srv srv'" "sessions_made inet srv'" "listed_made inet srv"
  shows "listed_made inet srv'"
proof -
  have "srv_get rs srv' = new" using assms(1) by (simp add: reset_session_def)
  then have "\<And>n. node_of new = Some n \<Longrightarrow> made inet n"
    using assms(2) by (auto simp: node_of_def sessions_made_def)
  then show ?thesis
    using assms(1,3) by (auto simp: listed_made_def reset_session_def relisted_def split: if_splits)
qed

lemma reachable_made:
  "ns_reachable inet parse by_address parse_query serialize srv \<Longrightarrow>
   srv_ok srv \<and> sessions_made inet srv \<and> listed_made inet srv"
  unfolding ns_reachable_def
proof (induction rule: rtranclp_induct)
  case base
  show ?case
    by (simp add: new_server_ok) (simp add: sessions_made_def listed_made_def srv_get_def new_name_server_def)
next
  case (step srv srv')
  then have "srv_ok srv'" "sessions_made inet srv'" using step_keeps_ok step_sessions_made by blast+
  moreover have "listed_made inet srv'"
    using step_effect [of srv inet parse by_address parse_query serialize srv'] step reset_listed_made \<open>sessions_made inet srv'\<close>
    by (auto simp: same_registry_def listed_made_def) 
  ultimately show ?case by blast
qed

lemma domain_infos_offer:
  assumes "domain_ok dm d" "\<And>c i n. listed_in d c i = Some n \<Longrightarrow> made inet n"
  shows "(\<exists>i \<in> set (domain_infos d). offers inet i dm' c k n) \<longleftrightarrow> dm' = dm \<and> listed_in d c k = Some n"
proof -
  have dist: "sorted_map (dom_datas d)" and name: "dom_name d = dm" using assms(1) by (simp_all add: domain_ok_def)
  have set_ok: "nodeset_ok c' s" if "(c', s) \<in> set (dom_datas d)" for c' s
    using that assms(1) by (simp add: domain_ok_def Domain_get_def in_sorted_map)
  have node: "info_node inet (node_message n') = n'" "node_id n' = j" "valid_node n'"
    if "(c', s) \<in> set (dom_datas d)" "(j, n') \<in> set (ns_datas s)" for c' s j n'
  proof -
    have g: "map_get j (ns_datas s) = Some n'" "Domain_get c' d = Some s"
      using that set_ok [OF that(1)] dist by (simp_all add: nodeset_ok_def Domain_get_def in_sorted_map)
    then have "made inet n'" using assms(2) [of c' j n'] by (simp add: listed_in_def NodeSet_get_def)
    then show "info_node inet (node_message n') = n'" "valid_node n'"
      by (simp_all add: info_node_message) (simp add: made_def)
    show "node_id n' = j" using set_ok [OF that(1)] g by (simp add: nodeset_ok_def NodeSet_get_def)
  qed
  have one: "offers inet \<lparr>ni_domain = Some (dom_name d), ni_cmd = Some (ns_cmd s),
        ni_nodes = map node_message (NodeSet_listAll s [])\<rparr> dm' c k n \<longleftrightarrow>
      dm' = dm \<and> ns_cmd s = c \<and> (\<exists>j. (j, n) \<in> set (ns_datas s) \<and> node_id n = k)"
    if s: "(c', s) \<in> set (dom_datas d)" for c' s
  proof -
    have "(\<lambda>p. info_node inet (node_message (snd p))) ` set (ns_datas s) = snd ` set (ns_datas s)"
      by (rule image_cong [OF refl]) (use node(1) [OF s] in auto)
    then have "n \<in> info_node inet ` set (map node_message (NodeSet_listAll s [])) \<longleftrightarrow> (\<exists>j. (j, n) \<in> set (ns_datas s))"
      by (simp add: NodeSet_listAll_def image_image) (force simp: image_iff)
    then show ?thesis using node(3) [OF s] by (auto simp: offers_def name get_text_def get_number_def)
  qed
  have "(\<exists>i \<in> set (domain_infos d). offers inet i dm' c k n) \<longleftrightarrow>
      dm' = dm \<and> (\<exists>c' s. (c', s) \<in> set (dom_datas d) \<and> ns_cmd s = c \<and> (\<exists>j. (j, n) \<in> set (ns_datas s) \<and> node_id n = k))"
  proof -
    have "(\<exists>i \<in> set (domain_infos d). offers inet i dm' c k n) \<longleftrightarrow>
        (\<exists>c' s. (c', s) \<in> set (dom_datas d) \<and> offers inet \<lparr>ni_domain = Some (dom_name d), ni_cmd = Some (ns_cmd s),
          ni_nodes = map node_message (NodeSet_listAll s [])\<rparr> dm' c k n)"
      by (force simp: domain_infos_def Domain_listAll_def)
    then show ?thesis using one by blast
  qed
  also have "\<dots> \<longleftrightarrow> dm' = dm \<and> (\<exists>s. (c, s) \<in> set (dom_datas d) \<and> (k, n) \<in> set (ns_datas s))"
    using node(2) set_ok by (auto simp: nodeset_ok_def) blast+
  also have "\<dots> \<longleftrightarrow> dm' = dm \<and> listed_in d c k = Some n"
  proof -
    have "(c, s) \<in> set (dom_datas d) \<Longrightarrow> (k, n) \<in> set (ns_datas s) \<longleftrightarrow> map_get k (ns_datas s) = Some n" for s
      using set_ok by (simp add: nodeset_ok_def in_sorted_map)
    then show ?thesis
      using dist by (auto simp: listed_in_def Domain_get_def NodeSet_get_def in_sorted_map split: option.split)
  qed
  finally show ?thesis .
qed

text \<open>The list of infos \<open>handleQuery\<close> serializes.\<close>

definition answer_infos :: "(bytes list \<Rightarrow> bytes list) \<Rightarrow> bytes list \<Rightarrow> name_server \<Rightarrow> NodeInfo list" where
  "answer_infos by_address q srv =
     concat (map (\<lambda>i. case fst (DomainSet_get i False (srv_domains srv)) of None \<Rightarrow> [] | Some d \<Rightarrow> domain_infos d)
       (by_address (remdups (filter (\<lambda>i. fst (DomainSet_get i False (srv_domains srv)) \<noteq> None) q))))"

lemma handleQuery_answer:
  "parse (rreq_body rq) = Some q \<Longrightarrow> handleQuery by_address parse serialize rq rsp srv =
     (True, rsp\<lparr>rsp_result := 0, rsp_resStr := str ''ok'', rrsp_body := serialize (answer_infos by_address q srv)\<rparr>)"
  by (simp add: handleQuery_def answer_infos_def Let_def)

lemma answer_offers:
  assumes ok: "srv_ok srv" "listed_made inet srv" and perm: "\<And>xs. set (by_address xs) = set xs"
  shows "(\<exists>i \<in> set (answer_infos by_address q srv). offers inet i dm c k n) \<longleftrightarrow>
    dm \<in> set q \<and> listed (srv_domains srv) dm c k = Some n"
proof -
  have dom: "(\<exists>i \<in> set (domain_infos d). offers inet i dm c k n) \<longleftrightarrow> dm = e \<and> listed (srv_domains srv) e c k = Some n"
    if d: "map_get e (srv_domains srv) = Some d" for e d
  proof -
    have l: "listed (srv_domains srv) e c' i = listed_in d c' i" for c' i using d by (simp add: listed_at)
    have "domain_ok e d" using ok(1) d by (auto simp: srv_ok_def intro: domains_ok_get)
    moreover have "\<And>c' i n. listed_in d c' i = Some n \<Longrightarrow> made inet n"
      using ok(2) unfolding listed_made_def l [symmetric] by blast
    ultimately show ?thesis by (simp add: domain_infos_offer l)
  qed
  have "(\<exists>i \<in> set (answer_infos by_address q srv). offers inet i dm c k n) \<longleftrightarrow>
      (\<exists>e d. e \<in> set q \<and> map_get e (srv_domains srv) = Some d \<and> (\<exists>i \<in> set (domain_infos d). offers inet i dm c k n))"
    by (force simp: answer_infos_def perm DomainSet_get_def split: option.splits)
  also have "\<dots> \<longleftrightarrow> (\<exists>e d. e \<in> set q \<and> map_get e (srv_domains srv) = Some d \<and> dm = e \<and>
      listed (srv_domains srv) e c k = Some n)"
    using dom by blast
  also have "\<dots> \<longleftrightarrow> dm \<in> set q \<and> listed (srv_domains srv) dm c k = Some n"
    by (auto simp: listed_def split: option.splits)
  finally show ?thesis .
qed

section \<open>A query copies the server's tables\<close>

text \<open>The server's side of a query: the response to the request the client sends.\<close>

definition server_answers where
  "server_answers by_address parse_query serialize srv rq cl =
     ((0 :: int, Some (snd (handleQuery by_address parse_query serialize rq (createResponse rq) srv))), cl :: ns_client)"

definition sample_client :: ns_client where
  "sample_client = new_ns_client\<lparr>nc_queryDomains := [[97]]\<rparr>"

text \<open>C7: after a query that succeeds, of a client that asks for at least one domain, the client lists,
  for each domain it asks for, exactly the nodes the server
  lists, with their weights, and nothing for any other domain, whatever it listed before. (A client
  that asks for no domain any more keeps its old nodes: \<open>last_domain_stays\<close>. So does one whose
  query fails: \<open>failed_query_keeps_nodes\<close>.) The protobuf messages are assumed to be read back as
  they were written, and the order by address to keep the elements of a set.\<close>

theorem query_mirrors_server:
  assumes "ns_reachable inet parse by_address parse_query serialize srv"
    and "parse_query (serialize_query (nc_queryDomains cl)) = Some (nc_queryDomains cl)"
    and "\<And>infos. infos = answer_infos by_address (nc_queryDomains cl) srv \<Longrightarrow> parse_infos (serialize infos) = Some infos"
    and "\<And>xs. set (by_address xs) = set xs"
    and "nc_queryDomains cl \<noteq> []"
  shows "listed (nc_domains (snd (nc_query inet serialize_query parse_infos
            (server_answers by_address parse_query serialize srv) cl))) dm c k =
         (if hasQueryDomain dm cl then listed (srv_domains srv) dm c k else None)"
proof -
  note srv = reachable_made [OF assms(1)]
  let ?infos = "answer_infos by_address (nc_queryDomains cl) srv"
  define cl1 where "cl1 = cl\<lparr>nc_sn := nc_sn cl + 1\<rparr>"
  have q: "hasQueryDomain dm cl1 = hasQueryDomain dm cl" by (simp add: cl1_def hasQueryDomain_def)
  have tables: "nc_domains (snd (nc_query inet serialize_query parse_infos
      (server_answers by_address parse_query serialize srv) cl)) = query_tables inet cl1 ?infos"
    using assms(2,3,5) by (simp add: nc_query_def Let_def server_answers_def handleQuery_answer cl1_def)
  have off: "offered inet cl1 ?infos dm c k n \<longleftrightarrow>
      hasQueryDomain dm cl \<and> listed (srv_domains srv) dm c k = Some n" for n
    using answer_offers [where inet = inet and by_address = by_address and q = "nc_queryDomains cl"] srv assms(4)
    by (auto simp: offered_def q) (simp_all add: hasQueryDomain_def)
  show ?thesis
    using update_fold_listed [of inet cl1 ?infos "[]" dm c k]
    by (cases "listed (srv_domains srv) dm c k") (auto simp: tables query_tables_fold off)
qed

lemma sample_one_step: "ns_step sample_inet sample_parse by_address parse_query serialize new_name_server sample_one"
proof -
  have "srv_handleRockRequest sample_inet sample_parse by_address parse_query serialize True
      (sample_request [49]) new_rock_response 0 new_name_server =
    srv_handleRockRequest sample_inet sample_parse id (\<lambda>_. None) (\<lambda>_. []) True
      (sample_request [49]) new_rock_response 0 new_name_server"
    by (simp add: srv_handleRockRequest_def sample_request_def)
  with request_effect [OF new_server_ok, of sample_inet sample_parse by_address parse_query serialize True
      "sample_request [49]" new_rock_response 0]
  show ?thesis by (auto simp: sample_one_def sample_next_def intro: ns_step.Request)
qed

definition sample_infos :: "NodeInfo list" where
  "sample_infos = answer_infos id [[97]] sample_one"

theorem query_mirrors_server_witness:
  "listed (nc_domains (snd (nc_query sample_inet (\<lambda>_. []) (\<lambda>_. Some sample_infos)
      (server_answers id (\<lambda>_. Some [[97]]) (\<lambda>_. [1]) sample_one) sample_client))) [97] 7 0x100000050 =
   Some \<lparr>node_id = 0x100000050, node_ip = [49], node_port = 80, node_weight = 5\<rparr>"
proof -
  have reach: "ns_reachable sample_inet sample_parse id (\<lambda>_. Some [[97]]) (\<lambda>_. [1]) sample_one"
    unfolding ns_reachable_def using sample_one_step by (rule r_into_rtranclp)
  have "listed (srv_domains sample_one) [97] 7 0x100000050 =
      Some \<lparr>node_id = 0x100000050, node_ip = [49], node_port = 80, node_weight = 5\<rparr>"
    by code_simp
  moreover have "nc_queryDomains sample_client = [[97]]" by (simp add: sample_client_def)
  ultimately show ?thesis
    using query_mirrors_server [OF reach, where serialize_query = "\<lambda>_. []" and cl = sample_client
        and parse_infos = "\<lambda>_. Some sample_infos" and dm = "[97]" and c = 7 and k = "0x100000050"]
    by (simp add: sample_infos_def hasQueryDomain_def)
qed

section \<open>What a query does not repair\<close>

text \<open>When the last domain is given up, the tables are not cleared: the query returns before it
  asks the server, and the client goes on listing the nodes of a domain it no longer asks for.\<close>

theorem last_domain_stays:
  assumes "nc_queryDomains cl = [domain]"
  shows "nc_domains (delQueryDomain inet serialize parse request connected domain cl) = nc_domains cl \<and>
    \<not> hasQueryDomain domain (delQueryDomain inet serialize parse request connected domain cl)"
  using assms
  by (simp add: delQueryDomain_def onQueryDomainChange_def nc_query_def Let_def hasQueryDomain_def)

theorem last_domain_stays_witness:
  "\<not> hasQueryDomain [97] (delQueryDomain sample_inet (\<lambda>_. []) (\<lambda>_. None) (\<lambda>_ c. ((0, None), c)) True [97] sample_client)"
  using last_domain_stays [of sample_client "[97]" sample_inet "\<lambda>_. []" "\<lambda>_. None" "\<lambda>_ c. ((0, None), c)" True]
  by (simp add: sample_client_def)

text \<open>A request that times out or an answer that is no \<open>QueryResponse\<close> leaves the tables as they were.\<close>

theorem failed_query_keeps_nodes:
  assumes "\<And>rq c. nc_domains (snd (request rq c)) = nc_domains c"
    and "\<And>rq c rsp. snd (fst (request rq c)) = Some rsp \<Longrightarrow> parse (rrsp_body rsp) = None"
  shows "nc_domains (snd (nc_query inet serialize parse request cl)) = nc_domains cl"
proof (cases "nc_queryDomains cl = []")
  case False
  define rq where "rq = new_rock_request\<lparr>req_sn := nc_sn cl + 1, req_cmd := cmd_QUERY,
    rreq_body := serialize (nc_queryDomains cl)\<rparr>"
  obtain n rsp c where r: "request rq (cl\<lparr>nc_sn := nc_sn cl + 1\<rparr>) = ((n, rsp), c)"
    by (metis prod.exhaust)
  have "nc_domains c = nc_domains cl" using assms(1) [of rq "cl\<lparr>nc_sn := nc_sn cl + 1\<rparr>"] r by simp
  moreover have "parse (rrsp_body p) = None" if "rsp = Some p" for p
    using assms(2) [of rq "cl\<lparr>nc_sn := nc_sn cl + 1\<rparr>"] r that by simp
  ultimately show ?thesis
    using False r by (auto simp: nc_query_def Let_def rq_def split: option.splits)
qed (simp add: nc_query_def Let_def)

theorem failed_query_keeps_nodes_witness:
  "nc_domains (snd (nc_query sample_inet (\<lambda>_. []) (\<lambda>_. None) (\<lambda>_ c. ((-1, None), c)) sample_client)) =
   nc_domains sample_client"
  by (rule failed_query_keeps_nodes) simp_all

text \<open>What a notification leaves listed: the updates, and of the rest what it does not delete.\<close>

lemma del_nodes_listed:
  "listed (del_nodes inet cl i ds) dm c k =
     (if hasQueryDomain dm cl \<and> get_text (ni_domain i) = dm \<and> get_number (ni_cmd i) = c \<and>
         k \<in> (\<lambda>n. node_id (info_node inet n)) ` set (ni_nodes i)
      then None else listed ds dm c k)"
proof -
  let ?dm = "get_text (ni_domain i)" and ?c = "get_number (ni_cmd i)"
  have "listed (fold (\<lambda>n ds. at_domain ?dm (\<lambda>d. snd (Domain_del ?c (node_id (info_node inet n)) d)) ds) ns es) dm c k =
      (if ?dm = dm \<and> ?c = c \<and> k \<in> (\<lambda>n. node_id (info_node inet n)) ` set ns then None else listed es dm c k)" for ns es
    by (induction ns arbitrary: es) (auto simp: listed_del_step)
  moreover have "map_get ?dm ds = None \<Longrightarrow> listed ds ?dm c k = None" by (simp add: listed_at)
  ultimately show ?thesis
    by (auto simp: del_nodes_def Let_def DomainSet_get_def split: option.split)
qed

lemma del_fold_listed:
  "listed (fold (del_nodes inet cl) infos ds) dm c k =
     (if hasQueryDomain dm cl \<and> (\<exists>i \<in> set infos. get_text (ni_domain i) = dm \<and> get_number (ni_cmd i) = c \<and>
         k \<in> (\<lambda>n. node_id (info_node inet n)) ` set (ni_nodes i))
      then None else listed ds dm c k)"
  by (induction infos arbitrary: ds) (auto simp: del_nodes_listed)

end
