(* ===== verification/CiMap.thy ===== *)
theory CiMap
  imports StdMap UtilText
begin

text \<open>
  \<open>std::map<std::string, std::string, CaseInsensitiveLess>\<close>, the maps of headers, parameters and
  cookies in \<open>src/http/HTTP.h\<close>. The comparison is \<open>strcasecmp\<close> on the C strings, so a string counts
  up to its first zero byte. A key that is already there in another case stays as it is written.
\<close>

definition c_str :: "bytes \<Rightarrow> bytes" where
  "c_str s = takeWhile (\<lambda>c. c \<noteq> 0) s"

definition fold_case :: "bytes \<Rightarrow> bytes" where
  "fold_case s = ToLower (c_str s)"

definition CaseInsensitiveLess :: "bytes \<Rightarrow> bytes \<Rightarrow> bool" where
  "CaseInsensitiveLess lhs rhs \<longleftrightarrow> fold_case lhs < fold_case rhs"

definition strcasecmp_eq :: "bytes \<Rightarrow> bytes \<Rightarrow> bool" where
  "strcasecmp_eq a b \<longleftrightarrow> fold_case a = fold_case b"

type_synonym 'v ci_map = "(bytes \<times> 'v) list"

definition ci_find :: "bytes \<Rightarrow> 'v ci_map \<Rightarrow> (bytes \<times> 'v) option" where
  "ci_find k m = List.find (\<lambda>p. \<not> CaseInsensitiveLess (fst p) k \<and> \<not> CaseInsensitiveLess k (fst p)) m"

definition ci_get :: "bytes \<Rightarrow> 'v ci_map \<Rightarrow> 'v option" where
  "ci_get k m = map_option snd (ci_find k m)"

text \<open>\<open>m[k] = v\<close>\<close>

fun ci_put :: "bytes \<Rightarrow> 'v \<Rightarrow> 'v ci_map \<Rightarrow> 'v ci_map" where
  "ci_put k v [] = [(k, v)]"
| "ci_put k v ((k', v') # m) =
     (if CaseInsensitiveLess k k' then (k, v) # (k', v') # m
      else if CaseInsensitiveLess k' k then (k', v') # ci_put k v m
      else (k', v) # m)"

definition ci_insert :: "bytes \<Rightarrow> 'v \<Rightarrow> 'v ci_map \<Rightarrow> 'v ci_map" where
  "ci_insert k v m = (if ci_find k m = None then ci_put k v m else m)"

definition ci_erase :: "bytes \<Rightarrow> 'v ci_map \<Rightarrow> 'v ci_map" where
  "ci_erase k m = filter (\<lambda>p. CaseInsensitiveLess (fst p) k \<or> CaseInsensitiveLess k (fst p)) m"

section \<open>A map of folded keys\<close>

text \<open>Such a map implements a \<open>std::map\<close> whose keys are the folded strings.\<close>

definition folded :: "'v ci_map \<Rightarrow> (bytes, 'v) std_map" where
  "folded m = map (\<lambda>p. (fold_case (fst p), snd p)) m"

definition ci_ok :: "'v ci_map \<Rightarrow> bool" where
  "ci_ok m \<longleftrightarrow> sorted_map (folded m)"

lemma folded_simps [simp]: "folded [] = []" "folded ((k, v) # m) = (fold_case k, v) # folded m"
  by (simp_all add: folded_def)

lemma equivalent_iff: "\<not> CaseInsensitiveLess a b \<and> \<not> CaseInsensitiveLess b a \<longleftrightarrow> fold_case a = fold_case b"
  by (auto simp: CaseInsensitiveLess_def)

lemma ci_get_folded: "ci_get k m = map_get (fold_case k) (folded m)"
  by (induction m) (auto simp: ci_get_def ci_find_def equivalent_iff)

lemma ci_find_None: "ci_find k m = None \<longleftrightarrow> map_get (fold_case k) (folded m) = None"
  using ci_get_folded [of k m] by (metis ci_get_def map_option_is_None)

lemma folded_put: "folded (ci_put k v m) = map_put (fold_case k) v (folded m)"
  by (induction m) (auto simp: CaseInsensitiveLess_def)

lemma folded_insert: "folded (ci_insert k v m) = map_insert (fold_case k) v (folded m)"
  by (simp add: ci_insert_def map_insert_def folded_put ci_find_None)

lemma folded_erase: "folded (ci_erase k m) = map_erase (fold_case k) (folded m)"
  by (induction m) (auto simp: ci_erase_def map_erase_def CaseInsensitiveLess_def)

lemma ci_get_put [simp]: "ci_get k' (ci_put k v m) = (if fold_case k' = fold_case k then Some v else ci_get k' m)"
  by (simp add: ci_get_folded folded_put)

lemma ci_get_insert [simp]:
  "ci_get k' (ci_insert k v m) =
     (if fold_case k' = fold_case k \<and> ci_get k m = None then Some v else ci_get k' m)"
  by (auto simp: ci_get_folded folded_insert)

lemma ci_get_erase [simp]: "ci_get k' (ci_erase k m) = (if fold_case k' = fold_case k then None else ci_get k' m)"
  by (simp add: ci_get_folded folded_erase)

lemma ci_get_Nil [simp]: "ci_get k [] = None"
  by (simp add: ci_get_def ci_find_def)

lemma ci_ok_simps [simp]: "ci_ok []" "ci_ok m \<Longrightarrow> ci_ok (ci_put k v m)" "ci_ok m \<Longrightarrow> ci_ok (ci_insert k v m)"
  "ci_ok m \<Longrightarrow> ci_ok (ci_erase k m)"
  by (simp_all add: ci_ok_def folded_put folded_insert folded_erase)

end
