(* ===== verification/HttpMessage.thy ===== *)
theory HttpMessage
  imports CiMap TextOut
begin

text \<open>
  HTTP requests and responses, \<open>src/http/HTTP.h\<close> and \<open>src/http/HTTP.cpp\<close>. A status is its number: the
  parser casts any number to \<open>HttpStatus\<close>. The member \<open>_websocket\<close> is not initialised by the
  constructors, so it may be \<open>None\<close>. Printing a time is a parameter.
\<close>

section \<open>Methods and statuses\<close>

datatype http_method =
    DELETE | GET | HEAD | POST | PUT | CONNECT | OPTIONS | TRACE | COPY | LOCK | MKCOL | MOVE
    | PROPFIND | PROPPATCH | SEARCH | UNLOCK | BIND | REBIND | UNBIND | ACL | REPORT | MKACTIVITY
    | CHECKOUT | MERGE | MSEARCH | NOTIFY | SUBSCRIBE | UNSUBSCRIBE | PATCH | PURGE | MKCALENDAR
    | LINK | UNLINK | SOURCE | INVALID_METHOD

text \<open>\<open>s_method_string\<close>, in the order of the numbers; a string is what \<open>#string\<close> makes of the macro's
  argument.\<close>

definition method_table :: "(http_method \<times> string) list" where
  "method_table =
     [(DELETE, ''DELETE''), (GET, ''GET''), (HEAD, ''HEAD''), (POST, ''POST''), (PUT, ''PUT''),
      (CONNECT, ''CONNECT''), (OPTIONS, ''OPTIONS''), (TRACE, ''TRACE''), (COPY, ''COPY''),
      (LOCK, ''LOCK''), (MKCOL, ''MKCOL''), (MOVE, ''MOVE''), (PROPFIND, ''PROPFIND''),
      (PROPPATCH, ''PROPPATCH''), (SEARCH, ''SEARCH''), (UNLOCK, ''UNLOCK''), (BIND, ''BIND''),
      (REBIND, ''REBIND''), (UNBIND, ''UNBIND''), (ACL, ''ACL''), (REPORT, ''REPORT''),
      (MKACTIVITY, ''MKACTIVITY''), (CHECKOUT, ''CHECKOUT''), (MERGE, ''MERGE''),
      (MSEARCH, ''M - SEARCH''), (NOTIFY, ''NOTIFY''), (SUBSCRIBE, ''SUBSCRIBE''),
      (UNSUBSCRIBE, ''UNSUBSCRIBE''), (PATCH, ''PATCH''), (PURGE, ''PURGE''),
      (MKCALENDAR, ''MKCALENDAR''), (LINK, ''LINK''), (UNLINK, ''UNLINK''), (SOURCE, ''SOURCE'')]"

definition StringToHttpMethod :: "bytes \<Rightarrow> http_method" where
  "StringToHttpMethod m =
     (case List.find (\<lambda>p. str (snd p) = c_str m) method_table of None \<Rightarrow> INVALID_METHOD | Some p \<Rightarrow> fst p)"

definition CharsToHttpMethod :: "bytes \<Rightarrow> http_method" where
  "CharsToHttpMethod m =
     (case List.find (\<lambda>p. str (snd p) = take (length (snd p)) m) method_table of
        None \<Rightarrow> INVALID_METHOD | Some p \<Rightarrow> fst p)"

definition HttpMethodToString :: "http_method \<Rightarrow> bytes" where
  "HttpMethodToString m = str (case map_of method_table m of None \<Rightarrow> ''<unknown>'' | Some s \<Rightarrow> s)"

definition status_table :: "(nat \<times> string) list" where
  "status_table =
     [(100, ''Continue''), (101, ''Switching Protocols''), (102, ''Processing''), (200, ''OK''),
      (201, ''Created''), (202, ''Accepted''), (203, ''Non - Authoritative Information''),
      (204, ''No Content''), (205, ''Reset Content''), (206, ''Partial Content''),
      (207, ''Multi - Status''), (208, ''Already Reported''), (226, ''IM Used''),
      (300, ''Multiple Choices''), (301, ''Moved Permanently''), (302, ''Found''), (303, ''See Other''),
      (304, ''Not Modified''), (305, ''Use Proxy''), (307, ''Temporary Redirect''),
      (308, ''Permanent Redirect''), (400, ''Bad Request''), (401, ''Unauthorized''),
      (402, ''Payment Required''), (403, ''Forbidden''), (404, ''Not Found''),
      (405, ''Method Not Allowed''), (406, ''Not Acceptable''),
      (407, ''Proxy Authentication Required''), (408, ''Request Timeout''), (409, ''Conflict''),
      (410, ''Gone''), (411, ''Length Required''), (412, ''Precondition Failed''),
      (413, ''Payload Too Large''), (414, ''URI Too Long''), (415, ''Unsupported Media Type''),
      (416, ''Range Not Satisfiable''), (417, ''Expectation Failed''), (421, ''Misdirected Request''),
      (422, ''Unprocessable Entity''), (423, ''Locked''), (424, ''Failed Dependency''),
      (426, ''Upgrade Required''), (428, ''Precondition Required''), (429, ''Too Many Requests''),
      (431, ''Request Header Fields Too Large''), (451, ''Unavailable For Legal Reasons''),
      (500, ''Internal Server Error''), (501, ''Not Implemented''), (502, ''Bad Gateway''),
      (503, ''Service Unavailable''), (504, ''Gateway Timeout''), (505, ''HTTP Version Not Supported''),
      (506, ''Variant Also Negotiates''), (507, ''Insufficient Storage''), (508, ''Loop Detected''),
      (510, ''Not Extended''), (511, ''Network Authentication Required'')]"

definition HttpStatusToString :: "nat \<Rightarrow> bytes" where
  "HttpStatusToString s = str (case map_of status_table s of None \<Rightarrow> ''<unknown-status>'' | Some m \<Rightarrow> m)"

section \<open>Requests\<close>

record http_request =
  hr_method :: http_method
  hr_version :: u8
  hr_close :: bool
  hr_websocket :: "bool option"
  hr_path :: bytes
  hr_query :: bytes
  hr_fragment :: bytes
  hr_body :: bytes
  hr_headers :: "bytes ci_map"
  hr_params :: "bytes ci_map"
  hr_cookies :: "bytes ci_map"
  hr_parserParamFlag :: u8

definition new_HttpRequest :: "u8 \<Rightarrow> bool \<Rightarrow> http_request" where
  "new_HttpRequest version close =
     \<lparr>hr_method = GET, hr_version = version, hr_close = close, hr_websocket = None, hr_path = str ''/'',
      hr_query = [], hr_fragment = [], hr_body = [], hr_headers = [], hr_params = [], hr_cookies = [],
      hr_parserParamFlag = 0\<rparr>"

definition get_or :: "bytes \<Rightarrow> bytes \<Rightarrow> bytes ci_map \<Rightarrow> bytes" where
  "get_or key def m = (case ci_get key m of None \<Rightarrow> def | Some v \<Rightarrow> v)"

definition req_getHeader :: "bytes \<Rightarrow> bytes \<Rightarrow> http_request \<Rightarrow> bytes" where
  "req_getHeader key def r = get_or key def (hr_headers r)"

definition req_init :: "http_request \<Rightarrow> http_request" where
  "req_init r =
     (let conn = req_getHeader (str ''connection'') [] r in
      if conn \<noteq> [] then r\<lparr>hr_close := \<not> strcasecmp_eq conn (str ''keep-alive'')\<rparr> else r)"

definition req_setHeader :: "bytes \<Rightarrow> bytes \<Rightarrow> http_request \<Rightarrow> http_request" where
  "req_setHeader key val r = r\<lparr>hr_headers := ci_put key val (hr_headers r)\<rparr>"

definition req_setParam :: "bytes \<Rightarrow> bytes \<Rightarrow> http_request \<Rightarrow> http_request" where
  "req_setParam key val r = r\<lparr>hr_params := ci_put key val (hr_params r)\<rparr>"

definition req_setCookie :: "bytes \<Rightarrow> bytes \<Rightarrow> http_request \<Rightarrow> http_request" where
  "req_setCookie key val r = r\<lparr>hr_cookies := ci_put key val (hr_cookies r)\<rparr>"

definition req_delHeader :: "bytes \<Rightarrow> http_request \<Rightarrow> http_request" where
  "req_delHeader key r = r\<lparr>hr_headers := ci_erase key (hr_headers r)\<rparr>"

definition req_delParam :: "bytes \<Rightarrow> http_request \<Rightarrow> http_request" where
  "req_delParam key r = r\<lparr>hr_params := ci_erase key (hr_params r)\<rparr>"

definition req_delCookie :: "bytes \<Rightarrow> http_request \<Rightarrow> http_request" where
  "req_delCookie key r = r\<lparr>hr_cookies := ci_erase key (hr_cookies r)\<rparr>"

section \<open>Parameters and cookies\<close>

text \<open>
  \<open>PARSE_PARAM\<close>: \<open>rest\<close> is the string from \<open>last\<close> on. A key runs to the next equals sign, a value
  from there to the next separator; the value is decoded, and the first value of a key stays.
\<close>

function parse_param :: "(bytes \<Rightarrow> bytes) \<Rightarrow> u8 \<Rightarrow> bytes \<Rightarrow> bytes ci_map \<Rightarrow> bytes ci_map" where
  "parse_param trim flag rest m =
     (case dropWhile (\<lambda>c. c \<noteq> 0x3D) rest of
        [] \<Rightarrow> m
      | _ # after \<Rightarrow>
          let key = takeWhile (\<lambda>c. c \<noteq> 0x3D) rest;
              m = ci_insert (trim key) (UrlDecode (takeWhile (\<lambda>c. c \<noteq> flag) after) True) m
          in case dropWhile (\<lambda>c. c \<noteq> flag) after of
               [] \<Rightarrow> m
             | _ # next \<Rightarrow> parse_param trim flag next m)"
  by pat_completeness auto

termination
proof (relation "measure (\<lambda>(trim, flag, rest, m). length rest)")
  fix trim flag rest m x after key m' y "next"
  assume "dropWhile (\<lambda>c. c \<noteq> 0x3D) (rest :: bytes) = x # after" "dropWhile (\<lambda>c. c \<noteq> flag) after = y # next"
  then have "length (x # after) \<le> length rest" "length (y # next) \<le> length after"
    by (metis length_dropWhile_le)+
  then show "((trim, flag, next, m'), (trim, flag, rest, m)) \<in> measure (\<lambda>(trim, flag, rest, m). length rest)" by simp
qed simp

declare parse_param.simps [simp del]

definition req_initQueryParam :: "http_request \<Rightarrow> http_request" where
  "req_initQueryParam r =
     (if bit (hr_parserParamFlag r) 0 then r
      else r\<lparr>hr_params := parse_param (\<lambda>k. k) 0x26 (hr_query r) (hr_params r),
             hr_parserParamFlag := or (hr_parserParamFlag r) 1\<rparr>)"

text \<open>\<open>strcasestr\<close>\<close>

fun contains_at :: "bytes \<Rightarrow> bytes \<Rightarrow> bool" where
  "contains_at needle [] = (needle = [])"
| "contains_at needle (c # cs) = (take (length needle) (c # cs) = needle \<or> contains_at needle cs)"

definition strcasestr :: "bytes \<Rightarrow> bytes \<Rightarrow> bool" where
  "strcasestr hay needle = contains_at (fold_case needle) (fold_case hay)"

definition req_initBodyParam :: "http_request \<Rightarrow> http_request" where
  "req_initBodyParam r =
     (if bit (hr_parserParamFlag r) 1 then r
      else
        let content_type = req_getHeader (str ''content-type'') [] r;
            flag = or (hr_parserParamFlag r) 2
        in if \<not> strcasestr content_type (str ''application/x-www-form-urlencoded'')
           then r\<lparr>hr_parserParamFlag := flag\<rparr>
           else r\<lparr>hr_params := parse_param (\<lambda>k. k) 0x26 (hr_body r) (hr_params r), hr_parserParamFlag := flag\<rparr>)"

definition blanks :: bytes where "blanks = [0x20, 0x09, 0x0D, 0x0A]"

definition req_initCookies :: "http_request \<Rightarrow> http_request" where
  "req_initCookies r =
     (if bit (hr_parserParamFlag r) 2 then r
      else
        let cookie = req_getHeader (str ''cookie'') [] r; flag = or (hr_parserParamFlag r) 4
        in if cookie = [] then r\<lparr>hr_parserParamFlag := flag\<rparr>
           else r\<lparr>hr_cookies := parse_param (\<lambda>k. Trim k blanks) 0x3B cookie (hr_cookies r),
                  hr_parserParamFlag := flag\<rparr>)"

definition req_initParam :: "http_request \<Rightarrow> http_request" where
  "req_initParam r = req_initCookies (req_initBodyParam (req_initQueryParam r))"

text \<open>The readers also give the request with what they have parsed.\<close>

definition req_getParam :: "bytes \<Rightarrow> bytes \<Rightarrow> http_request \<Rightarrow> bytes \<times> http_request" where
  "req_getParam key def r =
     (let r = req_initBodyParam (req_initQueryParam r) in (get_or key def (hr_params r), r))"

definition req_getCookie :: "bytes \<Rightarrow> bytes \<Rightarrow> http_request \<Rightarrow> bytes \<times> http_request" where
  "req_getCookie key def r = (let r = req_initCookies r in (get_or key def (hr_cookies r), r))"

text \<open>The tests give the value that is stored through \<open>val\<close>.\<close>

definition req_hasHeader :: "bytes \<Rightarrow> http_request \<Rightarrow> bytes option" where
  "req_hasHeader key r = ci_get key (hr_headers r)"

definition req_hasParam :: "bytes \<Rightarrow> http_request \<Rightarrow> bytes option \<times> http_request" where
  "req_hasParam key r = (let r = req_initBodyParam (req_initQueryParam r) in (ci_get key (hr_params r), r))"

definition req_hasCookie :: "bytes \<Rightarrow> http_request \<Rightarrow> bytes option \<times> http_request" where
  "req_hasCookie key r = (let r = req_initCookies r in (ci_get key (hr_cookies r), r))"

section \<open>Printing\<close>

abbreviation crlf :: bytes where "crlf \<equiv> [13, 10]"

definition version_text :: "u8 \<Rightarrow> bytes" where
  "version_text v = decimal (unat (drop_bit 4 v)) @ str ''.'' @ decimal (unat (and v 0x0F))"

definition body_text :: "bytes \<Rightarrow> bytes" where
  "body_text body =
     (if body \<noteq> [] then str ''content-length: '' @ decimal (length body) @ crlf @ crlf @ body else crlf)"

definition req_dump :: "http_request \<Rightarrow> bytes" where
  "req_dump r =
     HttpMethodToString (hr_method r) @ str '' '' @ hr_path r @ (if hr_query r = [] then [] else str ''?'') @ hr_query r
       @ (if hr_fragment r = [] then [] else str ''#'') @ hr_fragment r @ str '' HTTP/'' @ version_text (hr_version r)
       @ crlf @ concat (map (\<lambda>(k, v). k @ str '':'' @ v @ crlf) (hr_headers r)) @ body_text (hr_body r)"

section \<open>Responses\<close>

record http_response =
  hp_status :: nat
  hp_version :: u8
  hp_close :: bool
  hp_websocket :: "bool option"
  hp_body :: bytes
  hp_reason :: bytes
  hp_headers :: "bytes ci_map"
  hp_cookies :: "bytes list"

definition new_HttpResponse :: "u8 \<Rightarrow> bool \<Rightarrow> http_response" where
  "new_HttpResponse version close =
     \<lparr>hp_status = 200, hp_version = version, hp_close = close, hp_websocket = None, hp_body = [], hp_reason = [],
      hp_headers = [], hp_cookies = []\<rparr>"

definition rsp_getHeader :: "bytes \<Rightarrow> bytes \<Rightarrow> http_response \<Rightarrow> bytes" where
  "rsp_getHeader key def r = get_or key def (hp_headers r)"

definition rsp_setHeader :: "bytes \<Rightarrow> bytes \<Rightarrow> http_response \<Rightarrow> http_response" where
  "rsp_setHeader key val r = r\<lparr>hp_headers := ci_put key val (hp_headers r)\<rparr>"

definition rsp_delHeader :: "bytes \<Rightarrow> http_response \<Rightarrow> http_response" where
  "rsp_delHeader key r = r\<lparr>hp_headers := ci_erase key (hp_headers r)\<rparr>"

text \<open>\<open>format_time\<close> is \<open>TimerToString\<close> with the format of the cookie.\<close>

definition rsp_setCookie ::
  "(int \<Rightarrow> bytes) \<Rightarrow> bytes \<Rightarrow> bytes \<Rightarrow> int \<Rightarrow> bytes \<Rightarrow> bytes \<Rightarrow> bool \<Rightarrow> http_response \<Rightarrow> http_response" where
  "rsp_setCookie format_time key val expired path domain secure r =
     r\<lparr>hp_cookies := hp_cookies r @
        [key @ str ''='' @ val
           @ (if expired > 0 then str '';expires='' @ format_time expired @ str '' GMT'' else [])
           @ (if domain \<noteq> [] then str '';domain='' @ domain else [])
           @ (if path \<noteq> [] then str '';path='' @ path else [])
           @ (if secure then str '';secure'' else [])]\<rparr>"

definition rsp_dump :: "http_response \<Rightarrow> bytes" where
  "rsp_dump r =
     str ''HTTP/'' @ version_text (hp_version r) @ str '' '' @ decimal (hp_status r) @ str '' ''
       @ (if hp_reason r = [] then HttpStatusToString (hp_status r) else hp_reason r) @ crlf
       @ concat (map (\<lambda>(k, v). k @ str '': '' @ v @ crlf) (hp_headers r)) @ body_text (hp_body r)"

end
