(* ===== verification/HttpMessageProps.thy ===== *)
theory HttpMessageProps
  imports HttpMessage UtilTextProps
begin

text \<open>
  Methods are recognised from their own names, headers are found in any case, and the parameters of
  a form are what was encoded into the query and the body.
\<close>

section \<open>Methods\<close>

definition is_prefix :: "bytes \<Rightarrow> bytes \<Rightarrow> bool" where
  "is_prefix a b \<longleftrightarrow> take (length a) b = a"

lemma method_prefixes:
  "list_all (\<lambda>p. list_all (\<lambda>q. is_prefix (str (snd p)) (str (snd q)) \<longrightarrow> fst p = fst q) method_table) method_table"
  by code_simp

lemma method_names:
  "list_all (\<lambda>p. list_all (\<lambda>c. c \<noteq> 0) (str (snd p)) \<and> map_of method_table (fst p) = Some (snd p)) method_table"
  by code_simp

lemma length_str [simp]: "length (str s) = length s"
  by (simp add: str_def)

lemma prefix_comparable: "is_prefix a c \<Longrightarrow> is_prefix b c \<Longrightarrow> is_prefix a b \<or> is_prefix b a"
  unfolding is_prefix_def by (metis linear min.absorb1 min.absorb2 take_take)

lemma in_method_table: "m \<noteq> INVALID_METHOD \<Longrightarrow> \<exists>s. (m, s) \<in> set method_table"
  by (cases m) (simp_all add: method_table_def)

lemma find_unique:
  assumes "p \<in> set xs" "P p" "\<And>q. q \<in> set xs \<Longrightarrow> P q \<Longrightarrow> f q = f p"
  shows "\<exists>q. List.find P xs = Some q \<and> f q = f p"
proof (cases "List.find P xs")
  case None
  then show ?thesis using assms(1,2) by (simp add: find_None_iff)
next
  case (Some q)
  then have "q \<in> set xs" "P q" by (auto simp: find_Some_iff)
  with Some assms(3) show ?thesis by blast
qed

text \<open>Every method is read back from the name it is printed with, by both readers and whatever follows
  it in the buffer; but the name of M-SEARCH, made by the preprocessor from \<open>M - SEARCH\<close>, has
  blanks in it, so the method a client sends is refused.\<close>

theorem methods_roundtrip:
  "(m \<noteq> INVALID_METHOD \<longrightarrow> StringToHttpMethod (HttpMethodToString m) = m \<and>
      CharsToHttpMethod (HttpMethodToString m @ rest) = m) \<and>
   StringToHttpMethod (str ''M-SEARCH'') = INVALID_METHOD"
proof
  show "StringToHttpMethod (str ''M-SEARCH'') = INVALID_METHOD" by code_simp
  show "m \<noteq> INVALID_METHOD \<longrightarrow> StringToHttpMethod (HttpMethodToString m) = m \<and>
      CharsToHttpMethod (HttpMethodToString m @ rest) = m"
  proof
    assume "m \<noteq> INVALID_METHOD"
    then obtain s where s: "(m, s) \<in> set method_table" using in_method_table by blast
    then have name: "HttpMethodToString m = str s" "c_str (str s) = str s"
      using method_names by (auto simp: list_all_iff HttpMethodToString_def c_str_def)
    have eq: "fst q = m" if "q \<in> set method_table" "is_prefix (str (snd q)) (str s @ rest)" for q rest
    proof -
      have "is_prefix (str s) (str s @ rest)" by (simp add: is_prefix_def)
      from prefix_comparable [OF that(2) this] show ?thesis
        using method_prefixes that(1) s by (fastforce simp: list_all_iff)
    qed
    have "\<exists>q. List.find (\<lambda>p. str (snd p) = take (length (snd p)) (str s @ rest)) method_table = Some q \<and> fst q = fst (m, s)"
      using eq [of _ rest] by (intro find_unique s) (auto simp: is_prefix_def)
    moreover have "fst q = m" if "q \<in> set method_table" "str (snd q) = str s" for q
      using eq [OF that(1), of "[]"] that(2) by (simp add: is_prefix_def del: length_str)
    then have "\<exists>q. List.find (\<lambda>p. str (snd p) = str s) method_table = Some q \<and> fst q = fst (m, s)"
      by (intro find_unique s) auto
    ultimately show "StringToHttpMethod (HttpMethodToString m) = m \<and> CharsToHttpMethod (HttpMethodToString m @ rest) = m"
      by (auto simp: name StringToHttpMethod_def CharsToHttpMethod_def)
  qed
qed

section \<open>Headers\<close>

datatype header_op = SetHeader bytes bytes | DelHeader bytes

fun header_exec :: "header_op \<Rightarrow> http_request \<Rightarrow> http_request" where
  "header_exec (SetHeader k v) r = req_setHeader k v r"
| "header_exec (DelHeader k) r = req_delHeader k r"

text \<open>The specification: a map from folded names to values.\<close>

fun header_spec :: "header_op \<Rightarrow> (bytes \<rightharpoonup> bytes) \<Rightarrow> (bytes \<rightharpoonup> bytes)" where
  "header_spec (SetHeader k v) f = f(fold_case k \<mapsto> v)"
| "header_spec (DelHeader k) f = f(fold_case k := None)"

text \<open>After any sequence of \<open>setHeader\<close> and \<open>delHeader\<close>, a header is found under its name in any case,
  with the value it was last set to, and the names that are kept are in order and differ in more
  than case.\<close>

theorem headers_ignore_case:
  "ci_ok (hr_headers (fold header_exec ops (new_HttpRequest v c))) \<and>
   req_getHeader k def (fold header_exec ops (new_HttpRequest v c)) =
     (case fold header_spec ops Map.empty (fold_case k) of None \<Rightarrow> def | Some x \<Rightarrow> x)"
proof -
  have "ci_ok (hr_headers r) \<Longrightarrow> (\<And>k. ci_get k (hr_headers r) = f (fold_case k)) \<Longrightarrow>
      ci_ok (hr_headers (fold header_exec ops r)) \<and>
      ci_get k (hr_headers (fold header_exec ops r)) = fold header_spec ops f (fold_case k)" for r f
  proof (induction ops arbitrary: r f)
    case (Cons op ops)
    show ?case
      using Cons.prems by (cases op) (auto simp: req_setHeader_def req_delHeader_def intro!: Cons.IH)
  qed simp
  from this [of "new_HttpRequest v c" Map.empty] show ?thesis
    by (simp add: new_HttpRequest_def req_getHeader_def get_or_def)
qed

section \<open>Forms\<close>

definition form_field :: "bytes \<times> bytes \<Rightarrow> bytes" where
  "form_field p = fst p @ 0x3D # UrlEncode (snd p) True"

text \<open>A form as a client writes it: fields with encoded values, separated by ampersands.\<close>

fun form_text :: "(bytes \<times> bytes) list \<Rightarrow> bytes" where
  "form_text [] = []"
| "form_text (p # ps) = form_field p @ (if ps = [] then [] else 0x26 # form_text ps)"

lemma encoded_chars: "c \<in> set (UrlEncode s True) \<Longrightarrow> unreserved c \<or> c = 0x2B \<or> c = 0x25 \<or> c \<in> set hexdigits"
proof -
  have "length hexdigits = 16" by (simp add: hexdigits_def)
  then have hex: "unat d < 16 \<Longrightarrow> hexdigits ! unat d \<in> set hexdigits" for d :: u8
    by (simp add: nth_mem)
  have "unat (drop_bit 4 x) < 16" "unat (and x 15) < 16" for x :: u8
    by (rule nibbles)+
  then show "c \<in> set (UrlEncode s True) \<Longrightarrow> unreserved c \<or> c = 0x2B \<or> c = 0x25 \<or> c \<in> set hexdigits"
    using hex by (auto simp: UrlEncode_spec url_escape_def split: if_splits)
qed

lemma encoded_no_separator: "(0x26 :: u8) \<notin> set (UrlEncode s True)"
proof
  assume "(0x26 :: u8) \<in> set (UrlEncode s True)"
  from encoded_chars [OF this] show False by (simp add: unreserved_def uri_chars_def nth_append hexdigits_def)
qed

lemma drop_until: "x \<notin> set a \<Longrightarrow> takeWhile (\<lambda>c. c \<noteq> x) (a @ x # b) = a \<and> dropWhile (\<lambda>c. c \<noteq> x) (a @ x # b) = x # b"
  by (induction a) auto

lemma drop_all: "x \<notin> set a \<Longrightarrow> takeWhile (\<lambda>c. c \<noteq> x) a = a \<and> dropWhile (\<lambda>c. c \<noteq> x) a = []"
  by (induction a) auto

lemma parse_form:
  "\<forall>p \<in> set ps. 0x3D \<notin> set (fst p) \<Longrightarrow>
   parse_param (\<lambda>k. k) 0x26 (form_text ps) m = fold (\<lambda>p. ci_insert (fst p) (snd p)) ps m"
proof (induction ps arbitrary: m)
  case Nil
  show ?case by (simp add: parse_param.simps)
next
  case (Cons p ps)
  then have k: "0x3D \<notin> set (fst p)" by simp
  have e: "takeWhile (\<lambda>c. c \<noteq> 0x26) (UrlEncode (snd p) True) = UrlEncode (snd p) True"
    "dropWhile (\<lambda>c. c \<noteq> 0x26) (UrlEncode (snd p) True) = []"
    using drop_all [OF encoded_no_separator] by blast+
  show ?case
  proof (cases "ps = []")
    case True
    then show ?thesis
      by (subst parse_param.simps) (simp add: form_field_def decode_encode drop_until [OF k] e)
  next
    case False
    then show ?thesis
      using drop_until [OF k] drop_until [OF encoded_no_separator] Cons
      by (subst parse_param.simps) (simp add: form_field_def decode_encode)
  qed
qed

lemma fold_insert_get:
  "ci_get k (fold (\<lambda>p. ci_insert (fst p) (snd p)) ps m) =
     (case ci_get k m of
        Some v \<Rightarrow> Some v
      | None \<Rightarrow> map_of (map (\<lambda>p. (fold_case (fst p), snd p)) ps) (fold_case k))"
proof (induction ps arbitrary: m)
  case (Cons p ps)
  have "fold_case k = fold_case (fst p) \<Longrightarrow> ci_get (fst p) m = ci_get k m" by (simp add: ci_get_folded)
  then show ?case using Cons by (auto split: option.split)
qed (simp split: option.split)

text \<open>A parameter is the first value, in the query and then in the body of a form, that was encoded under
  its name in any case; names are taken as they are written, without decoding.\<close>

theorem form_params_roundtrip:
  assumes "\<forall>p \<in> set qs. 0x3D \<notin> set (fst p)" "\<forall>p \<in> set bs. 0x3D \<notin> set (fst p)"
    and "hr_query r = form_text qs" "hr_body r = form_text bs" "hr_params r = []" "hr_parserParamFlag r = 0"
  shows "fst (req_getParam k def r) =
    (case map_of (map (\<lambda>p. (fold_case (fst p), snd p))
        (qs @ (if strcasestr (req_getHeader (str ''content-type'') [] r) (str ''application/x-www-form-urlencoded'')
               then bs else []))) (fold_case k) of
       None \<Rightarrow> def | Some v \<Rightarrow> v)"
proof -
  have bit: "\<not> bit (0 :: u8) 0" "\<not> bit (1 :: u8) (Suc 0)" by (simp_all add: bit_1_iff)
  have header: "req_getHeader n d (r\<lparr>hr_params := m, hr_parserParamFlag := f\<rparr>) = req_getHeader n d r" for n d m f
    by (simp add: req_getHeader_def)
  show ?thesis
    using assms bit
    by (simp add: req_getParam_def req_initQueryParam_def req_initBodyParam_def Let_def header parse_form
        get_or_def fold_insert_get map_add_def split: option.split)
qed

theorem form_params_roundtrip_witness:
  "fst (req_getParam [65] [] ((new_HttpRequest 0x11 True)\<lparr>hr_query := form_text [([97], [38, 61]), ([98], [50])]\<rparr>)) = [38, 61]"
  using form_params_roundtrip [of "[([97], [38, 61]), ([98], [50])]" "[]"
      "(new_HttpRequest 0x11 True)\<lparr>hr_query := form_text [([97], [38, 61]), ([98], [50])]\<rparr>" "[65]" "[]"]
  by (simp add: new_HttpRequest_def fold_case_def c_str_def ToLower_def c_tolower_def del: form_text.simps(2))

section \<open>Cookies\<close>

text \<open>The cookies of a response are not printed, so they are never sent.\<close>

lemma cookies_not_printed: "rsp_dump (rsp_setCookie format_time key val expired path domain secure r) = rsp_dump r"
  by (simp add: rsp_setCookie_def rsp_dump_def)

end
