(* ===== verification/WebSocket.thy ===== *)
theory WebSocket
  imports StreamIO EndianWords
begin

text \<open>
  WebSocket frames, \<open>WSRecvMessage\<close>, \<open>WSSendMessage\<close>, \<open>WSPing\<close> and \<open>WSPong\<close> of
  \<open>src/http/WSSession.cpp\<close>. The stream they are given is the virtual \<open>Stream\<close>: its \<open>readFixSize\<close>,
  \<open>writeFixSize\<close> and \<open>close\<close> are the fields of a record; \<open>None\<close> is a call that does not return.
  The bit fields of the frame head are laid out as GCC does, the first field in the low bits.
\<close>

unbundle bit_operations_syntax

section \<open>Streams and frames\<close>

record 's stream_ops =
  so_read :: "u64 \<Rightarrow> 's \<Rightarrow> (int \<times> bytes \<times> 's) option"
  so_write :: "bytes \<Rightarrow> 's \<Rightarrow> (int \<times> 's) option"
  so_close :: "'s \<Rightarrow> 's"

record ws_head =
  wh_opcode :: "4 word"
  wh_rsv3 :: bool
  wh_rsv2 :: bool
  wh_rsv1 :: bool
  wh_fin :: bool
  wh_payload :: "7 word"
  wh_mask :: bool

definition zero_head :: ws_head where
  "zero_head = \<lparr>wh_opcode = 0, wh_rsv3 = False, wh_rsv2 = False, wh_rsv1 = False, wh_fin = False,
     wh_payload = 0, wh_mask = False\<rparr>"

definition head_bytes :: "ws_head \<Rightarrow> bytes" where
  "head_bytes h =
     [ucast (wh_opcode h) OR push_bit 4 (of_bool (wh_rsv3 h)) OR push_bit 5 (of_bool (wh_rsv2 h))
        OR push_bit 6 (of_bool (wh_rsv1 h)) OR push_bit 7 (of_bool (wh_fin h)),
      ucast (wh_payload h) OR push_bit 7 (of_bool (wh_mask h))]"

definition bytes_head :: "bytes \<Rightarrow> ws_head" where
  "bytes_head bs =
     \<lparr>wh_opcode = ucast (bs ! 0), wh_rsv3 = bit (bs ! 0) 4, wh_rsv2 = bit (bs ! 0) 5, wh_rsv1 = bit (bs ! 0) 6,
      wh_fin = bit (bs ! 0) 7, wh_payload = ucast (bs ! 1), wh_mask = bit (bs ! 1) 7\<rparr>"

definition op_CONTINUE :: "4 word" where "op_CONTINUE = 0"
definition op_TEXT_FRAME :: "4 word" where "op_TEXT_FRAME = 1"
definition op_BIN_FRAME :: "4 word" where "op_BIN_FRAME = 2"
definition op_CLOSE :: "4 word" where "op_CLOSE = 8"
definition op_PING :: "4 word" where "op_PING = 9"
definition op_PONG :: "4 word" where "op_PONG = 10"

record ws_message =
  wm_opcode :: u32
  wm_data :: bytes

section \<open>Control frames\<close>

definition ws_control :: "4 word \<Rightarrow> 's stream_ops \<Rightarrow> 's \<Rightarrow> (int \<times> 's) option" where
  "ws_control op ops s =
     Option.bind (so_write ops (head_bytes (zero_head\<lparr>wh_fin := True, wh_opcode := op\<rparr>)) s) (\<lambda>(v, s).
       Some (v, if v \<le> 0 then so_close ops s else s))"

definition WSPing :: "'s stream_ops \<Rightarrow> 's \<Rightarrow> (int \<times> 's) option" where
  "WSPing = ws_control op_PING"

definition WSPong :: "'s stream_ops \<Rightarrow> 's \<Rightarrow> (int \<times> 's) option" where
  "WSPong = ws_control op_PONG"

section \<open>Receiving\<close>

text \<open>The state of the loop: \<open>opcode\<close>, \<open>data\<close> and \<open>cur_len\<close>.\<close>

type_synonym ws_state = "u32 \<times> bytes \<times> u32"

datatype ws_step = WsBreak | WsNext ws_state | WsMessage ws_message

text \<open>The length of the payload; \<open>None\<close> breaks the loop.\<close>

definition ws_length :: "'s stream_ops \<Rightarrow> ws_head \<Rightarrow> 's \<Rightarrow> (u64 option \<times> 's) option" where
  "ws_length ops h s =
     (if wh_payload h = 126 then
        Option.bind (so_read ops 2 s) (\<lambda>(r, bs, s).
          Some (if r \<le> 0 then None else Some (ucast (byteswapOnLittleEndian 2 (le_word bs :: u16))), s))
      else if wh_payload h = 127 then
        Option.bind (so_read ops 8 s) (\<lambda>(r, bs, s).
          Some (if r \<le> 0 then None else Some (byteswapOnLittleEndian 8 (le_word bs :: u64)), s))
      else Some (Some (ucast (wh_payload h)), s))"

definition resized :: "nat \<Rightarrow> bytes \<Rightarrow> bytes" where
  "resized n d = take n d @ replicate (n - length d) 0"

definition mask_at :: "bytes \<Rightarrow> nat \<Rightarrow> nat \<Rightarrow> bytes \<Rightarrow> bytes" where
  "mask_at key p n d =
     map (\<lambda>i. if p \<le> i \<and> i < p + n then d ! i XOR key ! ((i - p) mod 4) else d ! i) [0..<length d]"

definition ws_data_frame ::
  "'s stream_ops \<Rightarrow> u32 \<Rightarrow> bool \<Rightarrow> ws_head \<Rightarrow> ws_state \<Rightarrow> 's \<Rightarrow> (ws_step \<times> 's) res option" where
  "ws_data_frame ops max_size client h = (\<lambda>(opcode, data, cur_len) s.
     if \<not> client \<and> \<not> wh_mask h then Some (Inr (WsBreak, s))
     else
       Option.bind (ws_length ops h s) (\<lambda>(l, s).
         case l of
           None \<Rightarrow> Some (Inr (WsBreak, s))
         | Some len \<Rightarrow>
             let total = scast cur_len + len in
             if total \<ge> ucast max_size then Some (Inr (WsBreak, s))
             else
               Option.bind (if wh_mask h then so_read ops 4 s else Some (1, [0, 0, 0, 0], s)) (\<lambda>(r, key, s).
                 if r \<le> 0 then Some (Inr (WsBreak, s))
                 else if unat total < unat (scast cur_len :: u64) then Some (Inl BadIndex)
                 else
                   let p = unat (scast cur_len :: u64); d = resized (unat total) data in
                   Option.bind (so_read ops len s) (\<lambda>(r, bs, s).
                     if r \<le> 0 then Some (Inr (WsBreak, s))
                     else
                       let d = take p d @ bs @ drop (p + length bs) d;
                           d = (if wh_mask h then mask_at key p (nat (c_int len)) d else d);
                           opcode = (if opcode = 0 \<and> wh_opcode h \<noteq> op_CONTINUE then ucast (wh_opcode h) else opcode)
                       in Some (Inr (if wh_fin h then WsMessage \<lparr>wm_opcode = opcode, wm_data = d\<rparr>
                                     else WsNext (opcode, d, cur_len + ucast len), s))))))"

text \<open>One round of the loop.\<close>

definition ws_round :: "'s stream_ops \<Rightarrow> u32 \<Rightarrow> bool \<Rightarrow> ws_state \<Rightarrow> 's \<Rightarrow> (ws_step \<times> 's) res option" where
  "ws_round ops max_size client st s =
     Option.bind (so_read ops 2 s) (\<lambda>(r, bs, s).
       if r \<le> 0 then Some (Inr (WsBreak, s))
       else
         let h = bytes_head bs in
         if wh_opcode h = op_PING then
           Option.bind (WSPong ops s) (\<lambda>(v, s). Some (Inr (if v \<le> 0 then WsBreak else WsNext st, s)))
         else if wh_opcode h = op_PONG then Some (Inr (WsNext st, s))
         else if wh_opcode h = op_CONTINUE \<or> wh_opcode h = op_TEXT_FRAME \<or> wh_opcode h = op_BIN_FRAME then
           ws_data_frame ops max_size client h st s
         else Some (Inr (WsNext st, s)))"

partial_function (option) ws_recv_loop ::
  "'s stream_ops \<Rightarrow> u32 \<Rightarrow> bool \<Rightarrow> ws_state \<Rightarrow> 's \<Rightarrow> (ws_message option \<times> 's) res option" where
  "ws_recv_loop ops max_size client st s =
     Option.bind (ws_round ops max_size client st s) (\<lambda>r.
       case r of
         Inl e \<Rightarrow> Some (Inl e)
       | Inr (k, s) \<Rightarrow>
           (case k of
              WsBreak \<Rightarrow> Some (Inr (None, so_close ops s))
            | WsMessage m \<Rightarrow> Some (Inr (Some m, s))
            | WsNext st \<Rightarrow> ws_recv_loop ops max_size client st s))"

definition WSRecvMessage :: "'s stream_ops \<Rightarrow> u32 \<Rightarrow> bool \<Rightarrow> 's \<Rightarrow> (ws_message option \<times> 's) res option" where
  "WSRecvMessage ops max_size client s = ws_recv_loop ops max_size client (0, [], 0) s"

section \<open>Sending\<close>

text \<open>Writes one after the other, up to the first that does not succeed.\<close>

fun ws_writes :: "'s stream_ops \<Rightarrow> bytes list \<Rightarrow> 's \<Rightarrow> (bool \<times> 's) option" where
  "ws_writes ops [] s = Some (True, s)"
| "ws_writes ops (p # ps) s =
     Option.bind (so_write ops p s) (\<lambda>(r, s). if r \<le> 0 then Some (False, s) else ws_writes ops ps s)"

definition message_head :: "ws_message \<Rightarrow> bool \<Rightarrow> bool \<Rightarrow> ws_head" where
  "message_head msg client fin =
     (let size = length (wm_data msg) in
      zero_head\<lparr>wh_fin := fin, wh_opcode := ucast (wm_opcode msg), wh_mask := client,
        wh_payload := (if size < 126 then of_nat size else if size < 65536 then 126 else 127)\<rparr>)"

text \<open>
  The message is changed in place when it is masked, so it is part of the result. \<open>rand_val\<close> is
  what \<open>rand()\<close> gave.
\<close>

definition WSSendMessage ::
  "'s stream_ops \<Rightarrow> u32 \<Rightarrow> ws_message \<Rightarrow> bool \<Rightarrow> bool \<Rightarrow> 's \<Rightarrow> (int \<times> ws_message \<times> 's) res option" where
  "WSSendMessage ops rand_val msg client fin s =
     (let h = message_head msg client fin; size = length (wm_data msg);
          fail = (\<lambda>msg s. Some (Inr (- 1, msg, so_close ops s)))
      in Option.bind (ws_writes ops [head_bytes h] s) (\<lambda>(ok, s).
           if \<not> ok then fail msg s
           else if wh_payload h = 127 then Some (Inl Uninit)
           else
             Option.bind (ws_writes ops (if wh_payload h = 126
                 then [le_bytes 2 (byteswapOnLittleEndian 2 (of_nat size :: u16))] else []) s) (\<lambda>(ok, s).
               if \<not> ok then fail msg s
               else
                 let key = le_bytes 4 rand_val;
                     msg = (if client then msg\<lparr>wm_data := mask_at key 0 size (wm_data msg)\<rparr> else msg)
                 in Option.bind (ws_writes ops ((if client then [key] else []) @ [wm_data msg]) s) (\<lambda>(ok, s).
                      if \<not> ok then fail msg s else Some (Inr (int size + 2, msg, s))))))"

section \<open>Sessions and connections\<close>

text \<open>A session is the server's side of a WebSocket, a connection the client's.\<close>

definition session_recvMessage :: "'s stream_ops \<Rightarrow> u32 \<Rightarrow> 's \<Rightarrow> (ws_message option \<times> 's) res option" where
  "session_recvMessage ops max_size s = WSRecvMessage ops max_size False s"

definition session_sendMessage ::
  "'s stream_ops \<Rightarrow> u32 \<Rightarrow> ws_message \<Rightarrow> bool \<Rightarrow> 's \<Rightarrow> (int \<times> ws_message \<times> 's) res option" where
  "session_sendMessage ops rand_val msg fin s = WSSendMessage ops rand_val msg False fin s"

definition connection_recvMessage :: "'s stream_ops \<Rightarrow> u32 \<Rightarrow> 's \<Rightarrow> (ws_message option \<times> 's) res option" where
  "connection_recvMessage ops max_size s = WSRecvMessage ops max_size True s"

definition connection_sendMessage ::
  "'s stream_ops \<Rightarrow> u32 \<Rightarrow> ws_message \<Rightarrow> bool \<Rightarrow> 's \<Rightarrow> (int \<times> ws_message \<times> 's) res option" where
  "connection_sendMessage ops rand_val msg fin s = WSSendMessage ops rand_val msg True fin s"

section \<open>Streams over a socket\<close>

text \<open>
  The operations of a \<open>SocketStream\<close> whose receiving and sending sides have the states \<open>r\<close> and \<open>w\<close>;
  \<open>mem\<close> is what the caller's buffer holds before a read, \<open>cl\<close> what \<open>close\<close> does.
\<close>

definition sock_ops :: "'r recv \<Rightarrow> 'w send \<Rightarrow> memory \<Rightarrow> ('r \<times> 'w \<Rightarrow> 'r \<times> 'w) \<Rightarrow> ('r \<times> 'w) stream_ops" where
  "sock_ops recv send mem cl =
     \<lparr>so_read = (\<lambda>n (r, w). case readFixSize recv True n (mem, r) of
          Some (Inr (v, mem', r')) \<Rightarrow> Some (v, load_bytes 0 (unat n) mem', r', w) | _ \<Rightarrow> None),
      so_write = (\<lambda>bs (r, w). case writeFixSize send True (store_bytes 0 bs mem) (of_nat (length bs)) w of
          Some (Inr (v, w')) \<Rightarrow> Some (v, r, w') | _ \<Rightarrow> None),
      so_close = cl\<rparr>"

end
