(* ===== verification/HttpServe.thy ===== *)
theory HttpServe
  imports HttpMessage WebSocket
begin

text \<open>
  Serving requests: the session of \<open>src/http/HttpSession.cpp\<close>, the callbacks of the request parser in
  \<open>src/http/Parser.cpp\<close>, the servlets of \<open>src/http/HttpServlet.cpp\<close>, the loop of \<open>src/http/HttpServer.cpp\<close>, the
  WebSocket handshake of \<open>src/http/WSSession.cpp\<close> and the loop of \<open>src/http/WSServer.cpp\<close>. The state machine
  of the parser is an argument here, for which \<open>RequestParser\<close> has the code's; so are \<open>fnmatch\<close>, \<open>sha1sum\<close>, \<open>boost::lexical_cast\<close> and the servlets.
\<close>

section \<open>Parser callbacks\<close>

text \<open>The request under construction and \<open>_error\<close>.\<close>

record request_build =
  rb_data :: http_request
  rb_error :: int

definition new_request_build :: request_build where
  "new_request_build = \<lparr>rb_data = new_HttpRequest 0x11 True, rb_error = 0\<rparr>"

definition on_request_method :: "bytes \<Rightarrow> request_build \<Rightarrow> request_build" where
  "on_request_method buf b =
     (if CharsToHttpMethod buf = INVALID_METHOD then b\<lparr>rb_error := 1000\<rparr>
      else b\<lparr>rb_data := (rb_data b)\<lparr>hr_method := CharsToHttpMethod buf\<rparr>\<rparr>)"

definition on_request_fragment :: "bytes \<Rightarrow> request_build \<Rightarrow> request_build" where
  "on_request_fragment t b = b\<lparr>rb_data := (rb_data b)\<lparr>hr_fragment := t\<rparr>\<rparr>"

definition on_request_path :: "bytes \<Rightarrow> request_build \<Rightarrow> request_build" where
  "on_request_path t b = b\<lparr>rb_data := (rb_data b)\<lparr>hr_path := t\<rparr>\<rparr>"

definition on_request_query :: "bytes \<Rightarrow> request_build \<Rightarrow> request_build" where
  "on_request_query t b = b\<lparr>rb_data := (rb_data b)\<lparr>hr_query := t\<rparr>\<rparr>"

text \<open>\<open>strncmp(at, s, length) == 0\<close>\<close>

definition strncmp_eq :: "bytes \<Rightarrow> bytes \<Rightarrow> nat \<Rightarrow> bool" where
  "strncmp_eq a b n \<longleftrightarrow> take n (c_str a @ [0]) = take n (c_str b @ [0])"

definition on_request_version :: "bytes \<Rightarrow> nat \<Rightarrow> request_build \<Rightarrow> request_build" where
  "on_request_version buf n b =
     (if strncmp_eq buf (str ''HTTP/1.1'') n then b\<lparr>rb_data := (rb_data b)\<lparr>hr_version := 0x11\<rparr>\<rparr>
      else if strncmp_eq buf (str ''HTTP/1.0'') n then b\<lparr>rb_data := (rb_data b)\<lparr>hr_version := 0x10\<rparr>\<rparr>
      else b\<lparr>rb_error := 1001\<rparr>)"

definition on_request_http_field :: "bytes \<Rightarrow> bytes \<Rightarrow> request_build \<Rightarrow> request_build" where
  "on_request_http_field field val b =
     (if length field = 0 then b else b\<lparr>rb_data := req_setHeader field val (rb_data b)\<rparr>)"

section \<open>Sessions\<close>

text \<open>The stream of a session adds the plain \<open>read\<close>.\<close>

record 's http_ops = "'s stream_ops" +
  ho_recv :: "nat \<Rightarrow> 's \<Rightarrow> int \<times> bytes \<times> 's"

text \<open>
  The generated parser with the callbacks: \<open>execute\<close> on the bytes of the buffer gives how many it has
  consumed and its next state, or fails. No function of a session catches an exception: a call that
  fails leaves \<open>recvRequest\<close> and its callers with the same error.
\<close>

record 'p request_parser =
  rp_init :: 'p
  rp_execute :: "bytes \<Rightarrow> 'p \<Rightarrow> (nat \<times> 'p) res"
  rp_finished :: "'p \<Rightarrow> bool"
  rp_has_error :: "'p \<Rightarrow> bool"
  rp_build :: "'p \<Rightarrow> request_build"

definition rp_hasError :: "'p request_parser \<Rightarrow> 'p \<Rightarrow> bool" where
  "rp_hasError pa p \<longleftrightarrow> rb_error (rp_build pa p) \<noteq> 0 \<or> rp_has_error pa p"

definition rp_getContentLength :: "(bytes \<Rightarrow> u64 option) \<Rightarrow> http_request \<Rightarrow> u64" where
  "rp_getContentLength cast r =
     (case ci_get (str ''content-length'') (hr_headers r) of
        None \<Rightarrow> 0 | Some v \<Rightarrow> (case cast v of None \<Rightarrow> 0 | Some n \<Rightarrow> n))"

text \<open>\<open>data\<close> is what the buffer holds up to \<open>offset\<close>. The result is the parser and the bytes behind the head.\<close>

partial_function (option) recv_head ::
  "('s, 'x) http_ops_scheme \<Rightarrow> 'p request_parser \<Rightarrow> nat \<Rightarrow> bytes \<Rightarrow> 'p \<Rightarrow> 's \<Rightarrow>
   (('p \<times> bytes) option \<times> 's) res option" where
  "recv_head ops pa buff_size data p s =
     (let (len, bs, s) = ho_recv ops (buff_size - length data) s in
      if len \<le> 0 then Some (Inr (None, so_close ops s))
      else
        let buf = data @ bs in
        case rp_execute pa buf p of
          Inl e \<Rightarrow> Some (Inl e)
        | Inr (nparse, p) \<Rightarrow>
            if rp_hasError pa p then Some (Inr (None, so_close ops s))
            else if length buf - nparse = buff_size then Some (Inr (None, so_close ops s))
            else if rp_finished pa p then Some (Inr (Some (p, drop nparse buf), s))
            else recv_head ops pa buff_size (drop nparse buf) p s)"

definition recv_body ::
  "('s, 'x) http_ops_scheme \<Rightarrow> int \<Rightarrow> bytes \<Rightarrow> http_request \<Rightarrow> 's \<Rightarrow> (http_request option \<times> 's) option" where
  "recv_body ops n data r s =
     (if n \<le> 0 then Some (Some r, s)
      else if n < int (length data) then Some (Some (r\<lparr>hr_body := take (nat n) data\<rparr>), s)
      else if n = int (length data) then Some (Some (r\<lparr>hr_body := data\<rparr>), s)
      else
        Option.bind (so_read ops (of_int (n - int (length data))) s) (\<lambda>(len, bs, s).
          Some (if len \<le> 0 then (None, so_close ops s) else (Some (r\<lparr>hr_body := data @ bs\<rparr>), s))))"

definition recvRequest ::
  "('s, 'x) http_ops_scheme \<Rightarrow> 'p request_parser \<Rightarrow> (bytes \<Rightarrow> u64 option) \<Rightarrow> nat \<Rightarrow> 's \<Rightarrow>
   (http_request option \<times> 's) res option" where
  "recvRequest ops pa cast buff_size s =
     Option.bind (recv_head ops pa buff_size [] (rp_init pa) s) (\<lambda>h.
       case h of
         Inl e \<Rightarrow> Some (Inl e)
       | Inr (None, s) \<Rightarrow> Some (Inr (None, s))
       | Inr (Some (p, data), s) \<Rightarrow>
           let r = rb_data (rp_build pa p) in
           Option.bind (recv_body ops (sint (rp_getContentLength cast r)) data r s) (\<lambda>(r, s).
             Some (Inr (map_option req_init r, s))))"

definition sendResponse :: "('s, 'x) stream_ops_scheme \<Rightarrow> http_response \<Rightarrow> 's \<Rightarrow> (int \<times> 's) option" where
  "sendResponse ops rsp s = so_write ops (rsp_dump rsp) s"

section \<open>Servlets\<close>

text \<open>What a servlet does with a request, a response and a session; a null pointer is \<open>None\<close>.\<close>

type_synonym 's servlet = "http_request \<times> http_response \<times> 's \<Rightarrow> http_request \<times> http_response \<times> 's"

record 'v dispatch =
  sd_exact :: "bytes \<rightharpoonup> 'v option"
  sd_globs :: "(bytes \<times> 'v option) list"
  sd_default :: "'v option"

definition new_dispatch :: "'v \<Rightarrow> 'v dispatch" where
  "new_dispatch not_found = \<lparr>sd_exact = Map.empty, sd_globs = [], sd_default = Some not_found\<rparr>"

definition addServlet :: "bytes \<Rightarrow> 'v option \<Rightarrow> 'v dispatch \<Rightarrow> 'v dispatch" where
  "addServlet uri slt d = d\<lparr>sd_exact := (sd_exact d)(uri \<mapsto> slt)\<rparr>"

text \<open>The first entry with the name goes.\<close>

fun erase_first :: "bytes \<Rightarrow> (bytes \<times> 'v) list \<Rightarrow> (bytes \<times> 'v) list" where
  "erase_first uri [] = []"
| "erase_first uri (g # gs) = (if fst g = uri then gs else g # erase_first uri gs)"

definition addGlobServlet :: "bytes \<Rightarrow> 'v option \<Rightarrow> 'v dispatch \<Rightarrow> 'v dispatch" where
  "addGlobServlet uri slt d = d\<lparr>sd_globs := erase_first uri (sd_globs d) @ [(uri, slt)]\<rparr>"

definition delServlet :: "bytes \<Rightarrow> 'v dispatch \<Rightarrow> 'v dispatch" where
  "delServlet uri d = d\<lparr>sd_exact := (sd_exact d)(uri := None)\<rparr>"

definition delGlobServlet :: "bytes \<Rightarrow> 'v dispatch \<Rightarrow> 'v dispatch" where
  "delGlobServlet uri d = d\<lparr>sd_globs := erase_first uri (sd_globs d)\<rparr>"

definition getServlet :: "bytes \<Rightarrow> 'v dispatch \<Rightarrow> 'v option" where
  "getServlet uri d = (case sd_exact d uri of None \<Rightarrow> None | Some slt \<Rightarrow> slt)"

definition getGlobServlet :: "bytes \<Rightarrow> 'v dispatch \<Rightarrow> 'v option" where
  "getGlobServlet uri d =
     (case List.find (\<lambda>g. fst g = uri) (sd_globs d) of None \<Rightarrow> None | Some g \<Rightarrow> snd g)"

text \<open>\<open>fnmatch p s\<close>: the pattern matches, the C function returns 0.\<close>

definition getMatchedServlet :: "(bytes \<Rightarrow> bytes \<Rightarrow> bool) \<Rightarrow> bytes \<Rightarrow> 'v dispatch \<Rightarrow> 'v option" where
  "getMatchedServlet fnmatch uri d =
     (case sd_exact d uri of
        Some slt \<Rightarrow> slt
      | None \<Rightarrow>
          (case List.find (\<lambda>g. fnmatch (c_str (fst g)) (c_str uri)) (sd_globs d) of
             Some g \<Rightarrow> snd g
           | None \<Rightarrow> sd_default d))"

definition dispatch_handle :: "(bytes \<Rightarrow> bytes \<Rightarrow> bool) \<Rightarrow> 's servlet dispatch \<Rightarrow> 's servlet" where
  "dispatch_handle fnmatch d = (\<lambda>(request, response, session).
     case getMatchedServlet fnmatch (hr_path request) d of
       None \<Rightarrow> (request, response, session)
     | Some slt \<Rightarrow> slt (request, response, session))"

text \<open>\<open>RSP_BODY\<close> is a static reference: the first response fixes it. \<open>rsp_body\<close> is it, once it is made.\<close>

definition not_found_body :: "http_response \<Rightarrow> bytes" where
  "not_found_body response =
     str ''<html><head><title>404 Not Found</title></head><body><center><h1>404 Not Found</h1></center><hr><center>''
       @ rsp_getHeader (str ''Server'') [] response @ str ''</center></body></html>''"

definition not_found_handle :: "bytes option \<Rightarrow> http_response \<Rightarrow> http_response \<times> bytes option" where
  "not_found_handle rsp_body response =
     (let body = (case rsp_body of Some b \<Rightarrow> b | None \<Rightarrow> not_found_body response)
      in ((rsp_setHeader (str ''Content-Type'') (str ''text/html'') (response\<lparr>hp_status := 404\<rparr>))\<lparr>hp_body := body\<rparr>,
          Some body))"

section \<open>The HTTP server\<close>

text \<open>\<open>errno_of\<close> reads \<open>errno\<close> when \<open>recvRequest\<close> has returned.\<close>

partial_function (option) http_handleClient ::
  "('s, 'x) http_ops_scheme \<Rightarrow> 'p request_parser \<Rightarrow> (bytes \<Rightarrow> u64 option) \<Rightarrow> nat \<Rightarrow> ('s \<Rightarrow> int) \<Rightarrow> 's servlet \<Rightarrow>
   bytes \<Rightarrow> bool \<Rightarrow> 's \<Rightarrow> 's res option" where
  "http_handleClient ops pa cast buff_size errno_of handle name isKeepAlive s =
     Option.bind (recvRequest ops pa cast buff_size s) (\<lambda>received.
       case received of Inl e \<Rightarrow> Some (Inl e) | Inr (req, s) \<Rightarrow>
       if errno_of s \<noteq> 0 \<and> errno_of s \<noteq> 11 then Some (Inr (so_close ops s))
       else case req of
         None \<Rightarrow> Some (Inr (so_close ops s))
       | Some req \<Rightarrow>
           let rsp = rsp_setHeader (str ''Server'') name
                 (new_HttpResponse (hr_version req) (hr_close req \<or> \<not> isKeepAlive));
               (req, rsp, s) = handle (req, rsp, s)
           in Option.bind (sendResponse ops rsp s) (\<lambda>(_, s).
                if \<not> isKeepAlive \<or> hr_close req then Some (Inr (so_close ops s))
                else http_handleClient ops pa cast buff_size errno_of handle name isKeepAlive s))"

section \<open>The WebSocket server\<close>

definition ws_guid :: bytes where
  "ws_guid = str ''258EAFA5-E914-47DA-95CA-C5AB0DC85B11''"

text \<open>\<open>cast_int\<close> is \<open>boost::lexical_cast<int>\<close>.\<close>

definition shake_accepts :: "(bytes \<Rightarrow> int option) \<Rightarrow> http_request \<Rightarrow> bool" where
  "shake_accepts cast_int req \<longleftrightarrow>
     strcasecmp_eq (req_getHeader (str ''Upgrade'') [] req) (str ''websocket'') \<and>
     contains_at (str ''Upgrade'') (req_getHeader (str ''Connection'') [] req) \<and>
     (case ci_get (str ''Sec-webSocket-Version'') (hr_headers req) of
        None \<Rightarrow> False | Some v \<Rightarrow> cast_int v = Some 13) \<and>
     req_getHeader (str ''Sec-WebSocket-key'') [] req \<noteq> []"

definition shake_response :: "(bytes \<Rightarrow> bytes) \<Rightarrow> http_request \<Rightarrow> http_response" where
  "shake_response sha1sum req =
     (let v = base64encode False (sha1sum (req_getHeader (str ''Sec-WebSocket-key'') [] req @ ws_guid));
          rsp = (new_HttpResponse (hr_version req) (hr_close req))
            \<lparr>hp_status := 101, hp_websocket := Some True, hp_reason := str ''Web Socket Protocol Handshake''\<rparr>
      in rsp_setHeader (str ''Sec-WebSocket-Version'') (str ''13'')
           (rsp_setHeader (str ''Sec-WebSocket-Accept'') v
             (rsp_setHeader (str ''Connection'') (str ''Upgrade'') (rsp_setHeader (str ''Upgrade'') (str ''websocket'') rsp))))"

definition handleShake ::
  "('s, 'x) http_ops_scheme \<Rightarrow> 'p request_parser \<Rightarrow> (bytes \<Rightarrow> u64 option) \<Rightarrow> nat \<Rightarrow> (bytes \<Rightarrow> int option) \<Rightarrow>
   (bytes \<Rightarrow> bytes) \<Rightarrow> 's \<Rightarrow> (http_request option \<times> 's) res option" where
  "handleShake ops pa cast buff_size cast_int sha1sum s =
     Option.bind (recvRequest ops pa cast buff_size s) (\<lambda>received.
       case received of
         Inl e \<Rightarrow> Some (Inl e)
       | Inr (None, s) \<Rightarrow> Some (Inr (None, s))
       | Inr (Some req, s) \<Rightarrow>
           if \<not> shake_accepts cast_int req then Some (Inr (None, s))
           else
             let req = req\<lparr>hr_websocket := Some True\<rparr> in
             Option.bind (sendResponse ops (shake_response sha1sum req) s) (\<lambda>(_, s).
               Some (Inr (Some req, s))))"

text \<open>A WebSocket servlet.\<close>

record 's ws_servlet =
  wsv_onConnect :: "http_request \<Rightarrow> 's \<Rightarrow> int \<times> 's"
  wsv_handle :: "http_request \<Rightarrow> ws_message \<Rightarrow> 's \<Rightarrow> int \<times> 's"
  wsv_onClose :: "http_request \<Rightarrow> 's \<Rightarrow> 's"

partial_function (option) ws_client_loop ::
  "'s stream_ops \<Rightarrow> u32 \<Rightarrow> 's ws_servlet \<Rightarrow> http_request \<Rightarrow> 's \<Rightarrow> 's res option" where
  "ws_client_loop ops max_size slt header s =
     Option.bind (session_recvMessage ops max_size s) (\<lambda>r.
       case r of
         Inl e \<Rightarrow> Some (Inl e)
       | Inr (None, s) \<Rightarrow> Some (Inr (so_close ops s))
       | Inr (Some msg, s) \<Rightarrow>
           (let (ret, s) = wsv_handle slt header msg s in
            if ret \<noteq> 0 then Some (Inr s) else ws_client_loop ops max_size slt header s))"

text \<open>After the handshake; \<open>servlet\<close> is what \<open>getWSServlet\<close> has found.\<close>

definition ws_serve ::
  "'s stream_ops \<Rightarrow> u32 \<Rightarrow> 's ws_servlet option \<Rightarrow> http_request \<Rightarrow> 's \<Rightarrow> 's res option" where
  "ws_serve ops max_size servlet header s =
     (case servlet of
        None \<Rightarrow> Some (Inr (so_close ops s))
      | Some slt \<Rightarrow>
          let (ret, s) = wsv_onConnect slt header s in
          if ret \<noteq> 0 then Some (Inr (so_close ops s))
          else Option.bind (ws_client_loop ops max_size slt header s) (\<lambda>r.
                 Some (bindE r (\<lambda>s. Inr (so_close ops (wsv_onClose slt header s))))))"

definition ws_handleClient ::
  "('s, 'x) http_ops_scheme \<Rightarrow> 'p request_parser \<Rightarrow> (bytes \<Rightarrow> u64 option) \<Rightarrow> nat \<Rightarrow> (bytes \<Rightarrow> int option) \<Rightarrow>
   (bytes \<Rightarrow> bytes) \<Rightarrow> u32 \<Rightarrow> (bytes \<Rightarrow> 's ws_servlet option) \<Rightarrow> 's \<Rightarrow> 's res option" where
  "ws_handleClient ops pa cast buff_size cast_int sha1sum max_size getWSServlet s =
     Option.bind (handleShake ops pa cast buff_size cast_int sha1sum s) (\<lambda>shaken.
       case shaken of
         Inl e \<Rightarrow> Some (Inl e)
       | Inr (None, s) \<Rightarrow> Some (Inr (so_close ops s))
       | Inr (Some header, s) \<Rightarrow> ws_serve (stream_ops.truncate ops) max_size (getWSServlet (hr_path header)) header s)"

end
