(* ===== verification/HttpServeProps.thy ===== *)
theory HttpServeProps
  imports HttpServe
begin

text \<open>
  What a session makes of the bytes it reads, and what the servlet table finds.
\<close>

section \<open>Requests\<close>

text \<open>The generated parser takes a head whole: on a buffer that begins with \<open>head\<close> it consumes exactly the head,
  has finished, and has built the request \<open>r\<close>.\<close>

definition parses_head :: "'p request_parser \<Rightarrow> bytes \<Rightarrow> http_request \<Rightarrow> bool" where
  "parses_head pa head r \<longleftrightarrow>
     (\<forall>data. case rp_execute pa (head @ data) (rp_init pa) of Inl e \<Rightarrow> False | Inr (n, p) \<Rightarrow>
        n = length head \<and> rp_finished pa p \<and> \<not> rp_hasError pa p \<and> rb_data (rp_build pa p) = r)"

lemma recv_head_whole:
  assumes "parses_head pa head r" "ho_recv ops buff_size s = (int (length (head @ data)), head @ data, s1)"
    and "head \<noteq> []" "length data < buff_size"
  shows "\<exists>p. recv_head ops pa buff_size [] (rp_init pa) s = Some (Inr (Some (p, data), s1)) \<and> rb_data (rp_build pa p) = r"
proof -
  have "case rp_execute pa (head @ data) (rp_init pa) of Inl e \<Rightarrow> False | Inr (n, p) \<Rightarrow>
        n = length head \<and> rp_finished pa p \<and> \<not> rp_hasError pa p \<and> rb_data (rp_build pa p) = r"
    using assms(1) unfolding parses_head_def by blast
  then obtain n p where e: "rp_execute pa (head @ data) (rp_init pa) = Inr (n, p)" and
    "n = length head" "rp_finished pa p" "\<not> rp_hasError pa p" "rb_data (rp_build pa p) = r"
    by (auto split: sum.splits)
  moreover have "\<not> int (length (head @ data)) \<le> 0" using assms(3) by (cases head) auto
  moreover have "length (head @ data) - length head = length data" by simp
  ultimately show ?thesis
    using e assms(2-4) by (subst recv_head.simps) (simp add: Let_def del: length_append)
qed

definition content_length :: "(bytes \<Rightarrow> u64 option) \<Rightarrow> http_request \<Rightarrow> int" where
  "content_length cast r = sint (rp_getContentLength cast r)"

text \<open>A request whose head arrives with the first read has the body its content length announces: what came
  with the head and as much as is missing from the stream, which is left behind the body.\<close>

theorem request_body_complete:
  assumes "parses_head pa head r" "head \<noteq> []" "length data < buff_size"
    and "ho_recv ops buff_size s = (int (length (head @ data)), head @ data, s1)"
    and "missing \<noteq> [] \<Longrightarrow> so_read ops (of_nat (length missing)) s1 = Some (int (length missing), missing, s2)"
    and "missing = [] \<Longrightarrow> s2 = s1"
    and "content_length cast r = int (length (data @ missing))" "data @ missing \<noteq> []"
  shows "recvRequest ops pa cast buff_size s = Some (Inr (Some (req_init (r\<lparr>hr_body := data @ missing\<rparr>)), s2))"
proof -
  from recv_head_whole [OF assms(1,4,2,3)] obtain p where
    p: "recv_head ops pa buff_size [] (rp_init pa) s = Some (Inr (Some (p, data), s1))" "rb_data (rp_build pa p) = r" by blast
  have "(of_int (int (length (data @ missing)) - int (length data)) :: u64) = of_nat (length missing)" by simp
  then have "recv_body ops (content_length cast r) data r s1 = Some (Some (r\<lparr>hr_body := data @ missing\<rparr>), s2)"
  proof (cases "missing = []")
    case True
    then show ?thesis unfolding assms(7) using assms(6,8) by (simp add: recv_body_def)
  next
    case False
    then have "0 < length missing" by simp
    then have "\<not> int (length data) + int (length missing) \<le> 0" by linarith
    then show ?thesis unfolding assms(7) using assms(5) [OF False] False by (simp add: recv_body_def)
  qed
  then show ?thesis using p by (simp add: recvRequest_def Let_def content_length_def)
qed

text \<open>Bytes behind the body that arrive with the first read are lost: the request and the stream are the same
  as if they had never been sent, so a second request sent in the same packet is not seen.\<close>

theorem pipelined_request_lost:
  assumes "parses_head pa head r" "head \<noteq> []" "length (body @ next_request) < buff_size"
    and "ho_recv ops buff_size s = (int (length (head @ body @ next_request)), head @ body @ next_request, s1)"
    and "ho_recv ops buff_size t = (int (length (head @ body)), head @ body, s1)"
    and "content_length cast r = int (length body)"
  shows "recvRequest ops pa cast buff_size s = recvRequest ops pa cast buff_size t \<and>
    (\<exists>r'. recvRequest ops pa cast buff_size s = Some (Inr (Some r', s1)))"
proof -
  obtain p where p: "recv_head ops pa buff_size [] (rp_init pa) s = Some (Inr (Some (p, body @ next_request), s1))"
    "rb_data (rp_build pa p) = r"
    using recv_head_whole [OF assms(1) assms(4) assms(2,3)] by blast
  have "length body < buff_size" using assms(3) by simp
  from recv_head_whole [OF assms(1) assms(5) assms(2) this] obtain q where
    q: "recv_head ops pa buff_size [] (rp_init pa) t = Some (Inr (Some (q, body), s1))" "rb_data (rp_build pa q) = r" by blast
  have "recv_body ops (content_length cast r) (body @ next_request) r s1 = recv_body ops (content_length cast r) body r s1"
    "\<exists>r'. recv_body ops (content_length cast r) body r s1 = Some (Some r', s1)"
    unfolding assms(6) by (simp_all add: recv_body_def)
  then show ?thesis using p q by (auto simp: recvRequest_def Let_def content_length_def)
qed

text \<open>A parser of one line, and a stream that gives its chunks one by one.\<close>

definition line_parser :: "bytes request_parser" where
  "line_parser =
     \<lparr>rp_init = [], rp_execute = (\<lambda>buf p. Inr (Suc (length (takeWhile (\<lambda>c. c \<noteq> 10) buf)), takeWhile (\<lambda>c. c \<noteq> 10) buf)),
      rp_finished = (\<lambda>_. True), rp_has_error = (\<lambda>_. False),
      rp_build = (\<lambda>p. new_request_build\<lparr>rb_data := req_setHeader (str ''content-length'') p (new_HttpRequest 0x11 True)\<rparr>)\<rparr>"

definition chunk_ops :: "bytes list http_ops" where
  "chunk_ops =
     \<lparr>so_read = (\<lambda>n s. case s of [] \<Rightarrow> None | c # s \<Rightarrow> Some (int (length c), c, s)), so_write = (\<lambda>bs s. Some (int (length bs), s)),
      so_close = id, ho_recv = (\<lambda>n s. case s of [] \<Rightarrow> (0, [], s) | c # s \<Rightarrow> (int (length c), c, s))\<rparr>"

lemma line_parser_head:
  "10 \<notin> set l \<Longrightarrow> parses_head line_parser (l @ [10]) (req_setHeader (str ''content-length'') l (new_HttpRequest 0x11 True))"
proof -
  assume "10 \<notin> set l"
  then have "takeWhile (\<lambda>c. c \<noteq> 10) (l @ 10 # data) = l" for data by (induction l) auto
  then show ?thesis by (simp add: parses_head_def line_parser_def rp_hasError_def new_request_build_def)
qed

lemma announced_three:
  "content_length (\<lambda>v. Some (of_nat (decimal_value 0 v))) (req_setHeader (str ''content-length'') [51] (new_HttpRequest 0x11 True)) = 3"
  by code_simp

theorem request_body_complete_witness:
  "\<exists>r'. recvRequest chunk_ops line_parser (\<lambda>v. Some (of_nat (decimal_value 0 v))) 100 [[51, 10, 7], [8, 9], [5]] =
     Some (Inr (Some r', [[5]]))"
  using request_body_complete [OF line_parser_head [of "[51]"], of "[7]" 100 chunk_ops "[[51, 10, 7], [8, 9], [5]]"
      "[[8, 9], [5]]" "[8, 9]" "[[5]]" "\<lambda>v. Some (of_nat (decimal_value 0 v))"] announced_three
  by (simp add: chunk_ops_def)

theorem pipelined_request_lost_witness:
  "recvRequest chunk_ops line_parser (\<lambda>v. Some (of_nat (decimal_value 0 v))) 100 [[51, 10, 7, 8, 9, 51, 10, 1, 2, 3]] =
   recvRequest chunk_ops line_parser (\<lambda>v. Some (of_nat (decimal_value 0 v))) 100 [[51, 10, 7, 8, 9]]"
  using pipelined_request_lost [OF line_parser_head [of "[51]"], of "[7, 8, 9]" "[51, 10, 1, 2, 3]" 100 chunk_ops
      "[[51, 10, 7, 8, 9, 51, 10, 1, 2, 3]]" "[]" "[[51, 10, 7, 8, 9]]" "\<lambda>v. Some (of_nat (decimal_value 0 v))"] announced_three
  by (simp add: chunk_ops_def)

text \<open>A call of the parser that fails leaves the session and the loop of the server by its exception.\<close>

theorem parser_exception_escapes:
  assumes "ho_recv ops buff_size s = (int (length buf), buf, s1)" "buf \<noteq> []"
    and "rp_execute pa buf (rp_init pa) = Inl e"
  shows "recvRequest ops pa cast buff_size s = Some (Inl e) \<and>
    http_handleClient ops pa cast buff_size errno_of handle name keep s = Some (Inl e)"
proof -
  have "recv_head ops pa buff_size [] (rp_init pa) s = Some (Inl e)"
    using assms by (subst recv_head.simps) simp
  then have "recvRequest ops pa cast buff_size s = Some (Inl e)" by (simp add: recvRequest_def)
  then show ?thesis by (simp add: http_handleClient.simps)
qed

theorem parser_exception_escapes_witness:
  "recvRequest chunk_ops (line_parser\<lparr>rp_execute := \<lambda>buf p. Inl Thrown\<rparr>) (\<lambda>_. None) 100 [[1]] = Some (Inl Thrown)"
  using parser_exception_escapes [of chunk_ops 100 "[[1]]" "[1]" "[]" "line_parser\<lparr>rp_execute := \<lambda>buf p. Inl Thrown\<rparr>" Thrown]
  by (simp add: chunk_ops_def)

section \<open>Servlets\<close>

datatype 'v servlet_op = AddServlet bytes "'v option" | AddGlob bytes "'v option" | DelServlet bytes | DelGlob bytes

fun servlet_exec :: "'v servlet_op \<Rightarrow> 'v dispatch \<Rightarrow> 'v dispatch" where
  "servlet_exec (AddServlet u v) = addServlet u v"
| "servlet_exec (AddGlob u v) = addGlobServlet u v"
| "servlet_exec (DelServlet u) = delServlet u"
| "servlet_exec (DelGlob u) = delGlobServlet u"

text \<open>The specification: the patterns in the order in which they are tried.\<close>

fun servlet_spec :: "'v servlet_op \<Rightarrow> (bytes \<rightharpoonup> 'v option) \<times> (bytes \<times> 'v option) list \<Rightarrow> (bytes \<rightharpoonup> 'v option) \<times> (bytes \<times> 'v option) list" where
  "servlet_spec (AddServlet u v) (e, g) = (e(u \<mapsto> v), g)"
| "servlet_spec (AddGlob u v) (e, g) = (e, filter (\<lambda>p. fst p \<noteq> u) g @ [(u, v)])"
| "servlet_spec (DelServlet u) (e, g) = (e(u := None), g)"
| "servlet_spec (DelGlob u) (e, g) = (e, filter (\<lambda>p. fst p \<noteq> u) g)"

lemma erase_first_distinct: "distinct (map fst g) \<Longrightarrow> erase_first u g = filter (\<lambda>p. fst p \<noteq> u) g"
proof (induction g)
  case (Cons p g)
  have "filter (\<lambda>q. fst q \<noteq> fst p) g = g" if "fst p \<notin> fst ` set g"
    using that by (intro filter_True) (metis image_eqI)
  then show ?case using Cons by auto
qed simp

lemma distinct_filter_keys: "distinct (map fst g) \<Longrightarrow> distinct (map fst (filter P g))"
  by (induction g) auto

lemma find_distinct: "distinct (map fst g) \<Longrightarrow> List.find (\<lambda>p. fst p = u) g = map_option (Pair u) (map_of g u)"
  by (induction g) auto

lemma servlets_refine:
  "distinct (map fst (sd_globs d)) \<Longrightarrow>
   distinct (map fst (sd_globs (fold servlet_exec ops d))) \<and>
   (sd_exact (fold servlet_exec ops d), sd_globs (fold servlet_exec ops d)) = fold servlet_spec ops (sd_exact d, sd_globs d) \<and>
   sd_default (fold servlet_exec ops d) = sd_default d"
proof (induction ops arbitrary: d)
  case (Cons op ops)
  have "distinct (map fst (sd_globs (servlet_exec op d)))"
    "(sd_exact (servlet_exec op d), sd_globs (servlet_exec op d)) = servlet_spec op (sd_exact d, sd_globs d)"
    "sd_default (servlet_exec op d) = sd_default d"
    using Cons.prems
    by (cases op; auto simp: addServlet_def addGlobServlet_def delServlet_def delGlobServlet_def
        erase_first_distinct distinct_filter_keys)+
  then show ?case using Cons.IH [of "servlet_exec op d"] by simp
qed simp

text \<open>After any sequence of additions and removals no pattern is kept twice; an exact name wins over every
  pattern, then the first pattern that matches in the order of their last additions, then the default.\<close>

theorem servlet_precedence:
  fixes ops :: "'v servlet_op list" and not_found :: 'v
  defines "d \<equiv> fold servlet_exec ops (new_dispatch not_found)" and "s \<equiv> fold servlet_spec ops (Map.empty, [])"
  shows "distinct (map fst (sd_globs d)) \<and>
    getServlet uri d = (case fst s uri of None \<Rightarrow> None | Some v \<Rightarrow> v) \<and>
    getGlobServlet uri d = (case map_of (snd s) uri of None \<Rightarrow> None | Some v \<Rightarrow> v) \<and>
    getMatchedServlet fnmatch uri d =
      (case fst s uri of
         Some v \<Rightarrow> v
       | None \<Rightarrow> (case filter (\<lambda>p. fnmatch (c_str (fst p)) (c_str uri)) (snd s) of
                   [] \<Rightarrow> Some not_found | p # _ \<Rightarrow> snd p))"
proof -
  have d: "distinct (map fst (sd_globs d))" "sd_exact d = fst s" "sd_globs d = snd s" "sd_default d = Some not_found"
    using servlets_refine [of "new_dispatch not_found" ops]
    by (auto simp: d_def s_def new_dispatch_def split: prod.splits) (metis fst_conv snd_conv)+
  have "List.find P xs = (case filter P xs of [] \<Rightarrow> None | p # _ \<Rightarrow> Some p)" for P and xs :: "(bytes \<times> 'v option) list"
    by (induction xs) auto
  then show ?thesis
    using d find_distinct [OF d(1)]
    by (auto simp: getServlet_def getGlobServlet_def getMatchedServlet_def split: option.splits list.splits)
qed

section \<open>The handshake\<close>

text \<open>The header the client checks.\<close>

lemma shake_accept_header:
  "rsp_getHeader (str ''Sec-WebSocket-Accept'') [] (shake_response sha1sum req) =
     base64encode False (sha1sum (req_getHeader (str ''Sec-WebSocket-key'') [] req @ ws_guid))"
proof -
  have "fold_case (str ''Sec-WebSocket-Accept'') \<noteq> fold_case (str ''Sec-WebSocket-Version'')" by code_simp
  then show ?thesis by (simp add: shake_response_def Let_def rsp_getHeader_def rsp_setHeader_def get_or_def)
qed

end
