(* ===== verification/WebSocketProps.thy ===== *)
theory WebSocketProps
  imports WebSocket
begin

text \<open>
  What the frames carry: the frame head and the mask are undone by the receiver, a message in
  fragments arrives as it was sent, and the frames on which the receiver goes wrong.
\<close>

section \<open>Heads, lengths and masks\<close>

lemma length_head_bytes [simp]: "length (head_bytes h) = 2"
  by (simp add: head_bytes_def)

lemma head_roundtrip [simp]: "bytes_head (head_bytes h) = h"
proof -
  have "(ucast (ucast (wh_opcode h) OR push_bit 4 (of_bool a) OR push_bit 5 (of_bool b) OR push_bit 6 (of_bool c)
      OR push_bit 7 (of_bool d) :: u8) :: 4 word) = wh_opcode h" for a b c d
    by (rule bit_word_eqI) (auto simp: bit_simps)
  moreover have "(ucast (ucast (wh_payload h) OR push_bit 7 (of_bool b) :: u8) :: 7 word) = wh_payload h" for b
    by (rule bit_word_eqI) (auto simp: bit_simps)
  moreover have "\<not> bit (wh_opcode h) n" if "4 \<le> n" for n using that bit_imp_le_length by fastforce
  moreover have "\<not> bit (wh_payload h) 7" using bit_imp_le_length by fastforce
  ultimately show ?thesis by (simp add: bytes_head_def head_bytes_def bit_simps)
qed

lemma length_mask_at [simp]: "length (mask_at k p n d) = length d"
  by (simp add: mask_at_def)

lemma mask_at_involution [simp]: "mask_at k p n (mask_at k p n d) = d"
  by (rule nth_equalityI) (auto simp: mask_at_def xor.assoc)

lemma mask_at_append: "mask_at k (length d) (length e) (d @ e) = d @ mask_at k 0 (length e) e"
  by (rule nth_equalityI) (auto simp: mask_at_def nth_append)

lemma length_bytes [simp]:
  "le_word (le_bytes 2 (byteswapOnLittleEndian 2 (w :: u16))) = byteswapOnLittleEndian 2 w"
  by (simp add: le_word_le_bytes)

lemma small_payload: "n < 126 \<Longrightarrow> (of_nat n :: 7 word) \<noteq> 126 \<and> (of_nat n :: 7 word) \<noteq> 127"
proof -
  assume n: "n < 126"
  then have "unat (of_nat n :: 7 word) = n" by (simp only: unat_of_nat) simp
  then have eq: "(of_nat n :: 7 word) = w \<Longrightarrow> unat w = n" for w by auto
  from eq [of 126] eq [of 127] n show ?thesis by auto
qed

lemma scast_small: "n < 2 ^ 31 \<Longrightarrow> (scast (of_nat n :: u32) :: u64) = of_nat n"
proof -
  assume n: "n < 2 ^ 31"
  then have "sint (of_nat n :: u32) = int n" by (simp add: signed_of_nat signed_take_bit_int_eq_self)
  then show ?thesis by (simp add: scast_eq)
qed

lemma unat_small: "n < 2 ^ 32 \<Longrightarrow> unat (of_nat n :: u64) = n"
  by (simp only: unat_of_nat) simp

lemma unat_widened [simp]: "unat (ucast (w :: u32) :: u64) = unat w"
proof -
  have "unat w < 2 ^ 32" using unsigned_less [of w] by simp
  then show ?thesis by (simp add: unsigned_ucast_eq unsigned_take_bit_eq take_bit_nat_eq_self)
qed

lemma swapped_length: "n < 65536 \<Longrightarrow>
  (ucast (byteswapOnLittleEndian 2 (le_word (le_bytes 2 (byteswapOnLittleEndian 2 (of_nat n :: u16))) :: u16)) :: u64) = of_nat n"
proof -
  assume n: "n < 65536"
  have "byteswapOnLittleEndian 2 (le_word (le_bytes 2 (byteswapOnLittleEndian 2 (of_nat n :: u16))) :: u16) = of_nat n"
    by (simp add: byteswapOnLittleEndian_def byteswap_byteswap le_word_le_bytes)
  moreover have "(ucast (of_nat n :: u16) :: u64) = of_nat n"
    using n by (simp add: unsigned_of_nat take_bit_nat_eq_self)
  ultimately show ?thesis by simp
qed

section \<open>Streams that transfer\<close>

text \<open>
  A healthy stream: a read of at most the pending bytes gets them, a write is taken whole.
  \<open>pending\<close> is what is still to be read, \<open>sent\<close> what was written, \<open>ok\<close> the states in which this holds.
\<close>

locale healthy_stream =
  fixes ops :: "'s stream_ops" and ok :: "'s \<Rightarrow> bool" and pending :: "'s \<Rightarrow> bytes" and sent :: "'s \<Rightarrow> bytes"
  assumes read_ok: "ok s \<Longrightarrow> n < 2 ^ 31 \<Longrightarrow> n \<le> length (pending s) \<Longrightarrow>
      \<exists>s'. so_read ops (of_nat n) s = Some (int n, take n (pending s), s') \<and> ok s' \<and>
        pending s' = drop n (pending s) \<and> sent s' = sent s"
    and write_ok: "ok s \<Longrightarrow> length bs < 2 ^ 31 \<Longrightarrow>
      \<exists>s'. so_write ops bs s = Some (int (length bs), s') \<and> ok s' \<and> pending s' = pending s \<and> sent s' = sent s @ bs"
begin

lemma read_bytes:
  assumes "ok s" "pending s = bs @ rest" "length bs < 2 ^ 31" "n = of_nat (length bs)"
  shows "\<exists>s'. so_read ops n s = Some (int (length bs), bs, s') \<and> ok s' \<and> pending s' = rest \<and> sent s' = sent s"
  using read_ok [OF assms(1,3)] assms(2,4) by simp

lemma writes_ok:
  "ok s \<Longrightarrow> \<forall>p \<in> set ps. p \<noteq> [] \<and> length p < 2 ^ 31 \<Longrightarrow>
   \<exists>s'. ws_writes ops ps s = Some (True, s') \<and> ok s' \<and> pending s' = pending s \<and> sent s' = sent s @ concat ps"
proof (induction ps arbitrary: s)
  case (Cons p ps)
  then obtain s1 where s1: "so_write ops p s = Some (int (length p), s1)" "ok s1" "pending s1 = pending s"
    "sent s1 = sent s @ p"
    using write_ok [of s p] by auto
  from Cons.IH [OF s1(2)] Cons.prems(2) obtain s' where
    "ws_writes ops ps s1 = Some (True, s')" "ok s'" "pending s' = pending s1" "sent s' = sent s1 @ concat ps"
    by auto
  with s1 Cons.prems(2) show ?case by simp
qed simp

end

section \<open>Frames\<close>

definition length_part :: "nat \<Rightarrow> bytes" where
  "length_part n = (if n < 126 then [] else le_bytes 2 (byteswapOnLittleEndian 2 (of_nat n :: u16)))"

definition frame_bytes :: "u32 \<Rightarrow> bool \<Rightarrow> bool \<Rightarrow> ws_message \<Rightarrow> bytes" where
  "frame_bytes rand_val client fin msg =
     (let key = le_bytes 4 rand_val; d = wm_data msg in
      head_bytes (message_head msg client fin) @ length_part (length d) @
      (if client then key @ mask_at key 0 (length d) d else d))"

definition sendable :: "bytes \<Rightarrow> bool" where
  "sendable d \<longleftrightarrow> d \<noteq> [] \<and> length d < 65536"

context healthy_stream
begin

lemma frame_sent:
  assumes "ok s" "sendable (wm_data msg)"
  shows "\<exists>msg' s'. WSSendMessage ops rand_val msg client fin s = Some (Inr (int (length (wm_data msg)) + 2, msg', s')) \<and>
    ok s' \<and> pending s' = pending s \<and> sent s' = sent s @ frame_bytes rand_val client fin msg"
proof -
  let ?h = "message_head msg client fin" and ?d = "wm_data msg" and ?key = "le_bytes 4 rand_val"
  let ?m = "if client then mask_at ?key 0 (length ?d) ?d else ?d"
  have d: "?d \<noteq> []" "length ?d < 65536" using assms(2) by (simp_all add: sendable_def)
  have p: "wh_payload ?h \<noteq> 127" "wh_payload ?h = 126 \<longleftrightarrow> \<not> length ?d < 126"
    using d(2) small_payload by (auto simp: message_head_def Let_def)
  obtain s1 where s1: "ws_writes ops [head_bytes ?h] s = Some (True, s1)" "ok s1" "pending s1 = pending s"
    "sent s1 = sent s @ head_bytes ?h"
    using writes_ok [OF assms(1), of "[head_bytes ?h]"] by (auto simp: head_bytes_def)
  let ?lp = "if wh_payload ?h = 126 then [le_bytes 2 (byteswapOnLittleEndian 2 (of_nat (length ?d) :: u16))] else []"
  have "\<forall>p \<in> set ?lp. p \<noteq> [] \<and> length p < 2 ^ 31" by (auto simp: le_bytes_def)
  from writes_ok [OF s1(2) this] obtain s2 where
    s2: "ws_writes ops ?lp s1 = Some (True, s2)" "ok s2" "pending s2 = pending s"
      "sent s2 = sent s1 @ length_part (length ?d)"
    using p(2) s1(3) by (auto simp: length_part_def)
  have "?m \<noteq> []" using d(1) length_mask_at [of ?key 0 "length ?d" ?d] by (metis length_0_conv)
  then have "\<forall>p \<in> set ((if client then [?key] else []) @ [?m]). p \<noteq> [] \<and> length p < 2 ^ 31"
    using d by (auto simp: le_bytes_def)
  from writes_ok [OF s2(2) this] obtain s3 where
    s3: "ws_writes ops ((if client then [?key] else []) @ [?m]) s2 = Some (True, s3)" "ok s3"
      "pending s3 = pending s" "sent s3 = sent s2 @ concat ((if client then [?key] else []) @ [?m])"
    using s2(3) by auto
  have "sent s3 = sent s @ frame_bytes rand_val client fin msg"
    by (cases client) (simp_all add: s3(4) s2(4) s1(4) frame_bytes_def Let_def)
  moreover have "wm_data (if client then msg\<lparr>wm_data := mask_at ?key 0 (length ?d) ?d\<rparr> else msg) = ?m" by simp
  ultimately show ?thesis
    using s1(1) s2(1) s3 p(1)
    by (cases client) (simp_all add: WSSendMessage_def Let_def del: ws_writes.simps)
qed

end

text \<open>The opcode the receiver keeps.\<close>

definition kept_opcode :: "u32 \<Rightarrow> u32 \<Rightarrow> u32" where
  "kept_opcode old new = (if old = 0 then ucast (ucast new :: 4 word) else old)"

context healthy_stream
begin

lemma recv_length:
  assumes "ok s" "pending s = length_part n @ rest" "n < 65536"
    and "wh_payload h = (if n < 126 then of_nat n else 126)"
  shows "\<exists>s'. ws_length ops h s = Some (Some (of_nat n), s') \<and> ok s' \<and> pending s' = rest \<and> sent s' = sent s"
proof (cases "n < 126")
  case True
  then have "(ucast (of_nat n :: 7 word) :: u64) = of_nat n" by (simp add: unsigned_of_nat take_bit_nat_eq_self)
  then show ?thesis using True assms small_payload by (simp add: ws_length_def length_part_def)
next
  case False
  then have p: "pending s = le_bytes 2 (byteswapOnLittleEndian 2 (of_nat n :: u16)) @ rest"
    using assms(2) by (simp add: length_part_def)
  from read_bytes [OF assms(1) p, of 2] obtain s' where
    "so_read ops 2 s = Some (2, le_bytes 2 (byteswapOnLittleEndian 2 (of_nat n :: u16)), s')"
    "ok s'" "pending s' = rest" "sent s' = sent s" by auto
  then show ?thesis using False assms(3,4) swapped_length by (simp add: ws_length_def)
qed

lemma recv_data_frame:
  fixes h msg client fin
  defines "d \<equiv> wm_data msg" and "h \<equiv> message_head msg client fin"
  assumes "ok s" "pending s = length_part (length d) @
        (if client then le_bytes 4 rand_val @ mask_at (le_bytes 4 rand_val) 0 (length d) d else d) @ rest"
    and d: "sendable d" and size: "length data + length d < unat max_size" "unat max_size \<le> 2 ^ 31"
  shows "\<exists>s'. ws_data_frame ops max_size (\<not> client) h (opcode, data, of_nat (length data)) s =
      Some (Inr (if fin then WsMessage \<lparr>wm_opcode = kept_opcode opcode (wm_opcode msg), wm_data = data @ d\<rparr>
                 else WsNext (kept_opcode opcode (wm_opcode msg), data @ d, of_nat (length (data @ d))), s')) \<and>
    ok s' \<and> pending s' = rest \<and> sent s' = sent s"
proof -
  let ?n = "length d" and ?p = "length data" and ?key = "le_bytes 4 rand_val"
  let ?e = "if client then mask_at ?key 0 ?n d else d"
  have n: "0 < ?n" "?n < 65536" using d by (simp_all add: sendable_def)
  have h: "wh_mask h = client" "wh_fin h = fin" "wh_opcode h = ucast (wm_opcode msg)"
    "wh_payload h = (if ?n < 126 then of_nat ?n else 126)"
    using n by (simp_all add: h_def message_head_def Let_def d_def)
  from recv_length [OF assms(3) assms(4) n(2) h(4)] obtain s1 where
    s1: "ws_length ops h s = Some (Some (of_nat ?n), s1)" "ok s1" "sent s1 = sent s"
      "pending s1 = (if client then ?key @ mask_at ?key 0 ?n d else d) @ rest" by blast
  have "\<exists>s2 key r. (if wh_mask h then so_read ops 4 s1 else Some (1, [0, 0, 0, 0], s1)) = Some (r, key, s2) \<and>
      0 < r \<and> ok s2 \<and> sent s2 = sent s \<and> pending s2 = ?e @ rest \<and> (client \<longrightarrow> key = ?key)"
  proof (cases client)
    case True
    then have "pending s1 = ?key @ ?e @ rest" by (simp add: s1(4))
    from read_bytes [OF s1(2) this, of 4] show ?thesis using True h(1) s1(3) by auto
  next
    case False
    then show ?thesis using h(1) s1 by auto
  qed
  then obtain s2 key r where s2: "(if wh_mask h then so_read ops 4 s1 else Some (1, [0, 0, 0, 0], s1)) = Some (r, key, s2)"
    "0 < r" "ok s2" "sent s2 = sent s" "pending s2 = ?e @ rest" "client \<longrightarrow> key = ?key" by blast
  have e: "length ?e = ?n" by simp
  from read_bytes [OF s2(3,5), of "of_nat ?n"] n e obtain s3 where
    s3: "so_read ops (of_nat ?n) s2 = Some (int ?n, ?e, s3)" "ok s3" "pending s3 = rest" "sent s3 = sent s"
    using s2(4) by auto
  have p: "?p < 2 ^ 31" "?p + ?n < 2 ^ 31" using size by simp_all
  have total: "(scast (of_nat ?p :: u32) :: u64) + of_nat ?n = of_nat (?p + ?n)"
    "unat (of_nat (?p + ?n) :: u64) = ?p + ?n" "unat (scast (of_nat ?p :: u32) :: u64) = ?p"
    using p unat_small [of "?p + ?n"] unat_small [of ?p] by (simp_all add: scast_small)
  have small: "\<not> (of_nat (?p + ?n) :: u64) \<ge> ucast max_size"
    using size total(2)
    by (simp add: word_le_nat_alt unsigned_ucast_eq unsigned_take_bit_eq take_bit_nat_eq_self del: of_nat_add)
  have "c_int (of_nat ?n) = int ?n" 
    using n(2) by (intro mem_send.c_int_whole) simp
  then have un: "(if wh_mask h then mask_at key ?p (nat (c_int (of_nat ?n))) (data @ ?e) else data @ ?e) = data @ d"
    using s2(6) h(1) mask_at_append [of ?key data "mask_at ?key 0 ?n d"] by (cases client) simp_all
  have "resized (?p + ?n) data = data @ replicate ?n 0" by (simp add: resized_def)
  then have put: "take ?p (resized (?p + ?n) data) @ ?e @ drop (?p + length ?e) (resized (?p + ?n) data) = data @ ?e"
    by (simp add: e)
  have len: "(of_nat ?p :: u32) + ucast (of_nat ?n :: u64) = of_nat (length (data @ d))"
    using n(2) by (simp add: unsigned_of_nat take_bit_nat_eq_self)
  have op: "(if opcode = 0 \<and> wh_opcode h \<noteq> op_CONTINUE then ucast (wh_opcode h) else opcode) =
      kept_opcode opcode (wm_opcode msg)"
    by (auto simp: kept_opcode_def h(3) op_CONTINUE_def)
  have "ws_data_frame ops max_size (\<not> client) h (opcode, data, of_nat ?p) s =
      Some (Inr (if fin then WsMessage \<lparr>wm_opcode = kept_opcode opcode (wm_opcode msg), wm_data = data @ d\<rparr>
                 else WsNext (kept_opcode opcode (wm_opcode msg), data @ d, of_nat (length (data @ d))), s3))"
    unfolding ws_data_frame_def prod.case s1(1) Option.bind.simps option.case Let_def total small if_False
      s2(1) s3(1) put un op len h(2)
    using h(1) s2(2) n(1) small by simp
  then show ?thesis using s3 by blast
qed

end

section \<open>Messages in fragments\<close>

text \<open>A message sent in fragments: the first frame has the opcode, the others continue it, the last ends it.
  Each fragment comes with the random number for its mask.\<close>

fun send_fragments :: "'s stream_ops \<Rightarrow> bool \<Rightarrow> u32 \<Rightarrow> (u32 \<times> bytes) list \<Rightarrow> 's \<Rightarrow> 's res option" where
  "send_fragments ops client op [] s = Some (Inr s)"
| "send_fragments ops client op ((rv, d) # ds) s =
     Option.bind (WSSendMessage ops rv \<lparr>wm_opcode = op, wm_data = d\<rparr> client (ds = []) s) (\<lambda>r.
       case r of Inl e \<Rightarrow> Some (Inl e) | Inr (_, _, s) \<Rightarrow> send_fragments ops client 0 ds s)"

fun fragments_bytes :: "bool \<Rightarrow> u32 \<Rightarrow> (u32 \<times> bytes) list \<Rightarrow> bytes" where
  "fragments_bytes client op [] = []"
| "fragments_bytes client op ((rv, d) # ds) =
     frame_bytes rv client (ds = []) \<lparr>wm_opcode = op, wm_data = d\<rparr> @ fragments_bytes client 0 ds"

definition data_opcode :: "u32 \<Rightarrow> bool" where
  "data_opcode op \<longleftrightarrow> op = 0 \<or> op = 1 \<or> op = 2"

context healthy_stream
begin

lemma send_fragments_ok:
  "ok s \<Longrightarrow> \<forall>x \<in> set ds. sendable (snd x) \<Longrightarrow>
   \<exists>s'. send_fragments ops client op ds s = Some (Inr s') \<and> ok s' \<and> pending s' = pending s \<and>
     sent s' = sent s @ fragments_bytes client op ds"
proof (induction ds arbitrary: s op)
  case (Cons x ds)
  obtain rv d where x: "x = (rv, d)" by force
  let ?m = "\<lparr>wm_opcode = op, wm_data = d\<rparr>"
  obtain m' s1 where s1: "WSSendMessage ops rv ?m client (ds = []) s = Some (Inr (int (length d) + 2, m', s1))"
    "ok s1" "pending s1 = pending s" "sent s1 = sent s @ frame_bytes rv client (ds = []) ?m"
    using frame_sent [OF Cons.prems(1), of ?m rv client "ds = []"] Cons.prems(2) x by auto
  from Cons.IH [OF s1(2)] Cons.prems(2) obtain s' where
    "send_fragments ops client 0 ds s1 = Some (Inr s')" "ok s'" "pending s' = pending s1"
    "sent s' = sent s1 @ fragments_bytes client 0 ds" by auto
  with s1 show ?case by (simp add: x)
qed simp

lemma frame_received:
  assumes "ok s" "pending s = frame_bytes rand_val client fin msg @ rest" "sendable (wm_data msg)"
    and "data_opcode (wm_opcode msg)"
    and "length data + length (wm_data msg) < unat max_size" "unat max_size \<le> 2 ^ 31"
  shows "\<exists>s'. ws_round ops max_size (\<not> client) (opcode, data, of_nat (length data)) s =
      Some (Inr (if fin then WsMessage \<lparr>wm_opcode = kept_opcode opcode (wm_opcode msg), wm_data = data @ wm_data msg\<rparr>
                 else WsNext (kept_opcode opcode (wm_opcode msg), data @ wm_data msg,
                        of_nat (length (data @ wm_data msg))), s')) \<and>
    ok s' \<and> pending s' = rest \<and> sent s' = sent s"
proof -
  let ?h = "message_head msg client fin"
  have "pending s = head_bytes ?h @ length_part (length (wm_data msg)) @
      (if client then le_bytes 4 rand_val @ mask_at (le_bytes 4 rand_val) 0 (length (wm_data msg)) (wm_data msg)
       else wm_data msg) @ rest"
    using assms(2) by (simp add: frame_bytes_def Let_def)
  from read_bytes [OF assms(1) this, of 2] obtain s1 where
    s1: "so_read ops 2 s = Some (2, head_bytes ?h, s1)" "ok s1" "sent s1 = sent s"
      "pending s1 = length_part (length (wm_data msg)) @
        (if client then le_bytes 4 rand_val @ mask_at (le_bytes 4 rand_val) 0 (length (wm_data msg)) (wm_data msg)
         else wm_data msg) @ rest" by auto
  have op: "wh_opcode ?h = op_CONTINUE \<or> wh_opcode ?h = op_TEXT_FRAME \<or> wh_opcode ?h = op_BIN_FRAME"
    "wh_opcode ?h \<noteq> op_PING" "wh_opcode ?h \<noteq> op_PONG"
    using assms(4) by (auto simp: data_opcode_def message_head_def Let_def op_CONTINUE_def op_TEXT_FRAME_def
        op_BIN_FRAME_def op_PING_def op_PONG_def)
  from recv_data_frame [OF s1(2,4) assms(3,5,6)] show ?thesis
    using op s1 by (simp add: ws_round_def Let_def)
qed

lemma recv_fragments:
  "ok s \<Longrightarrow> pending s = fragments_bytes client op ds @ rest \<Longrightarrow> ds \<noteq> [] \<Longrightarrow> \<forall>x \<in> set ds. sendable (snd x) \<Longrightarrow>
   data_opcode op \<Longrightarrow> length data + length (concat (map snd ds)) < unat max_size \<Longrightarrow> unat max_size \<le> 2 ^ 31 \<Longrightarrow>
   \<exists>s'. ws_recv_loop ops max_size (\<not> client) (opcode, data, of_nat (length data)) s =
       Some (Inr (Some \<lparr>wm_opcode = kept_opcode opcode op, wm_data = data @ concat (map snd ds)\<rparr>, s')) \<and>
     ok s' \<and> pending s' = rest \<and> sent s' = sent s"
proof (induction ds arbitrary: s op opcode data)
  case (Cons x ds)
  obtain rv d where x: "x = (rv, d)" by force
  let ?m = "\<lparr>wm_opcode = op, wm_data = d\<rparr>"
  have p: "pending s = frame_bytes rv client (ds = []) ?m @ fragments_bytes client 0 ds @ rest"
    using Cons.prems(2) by (simp add: x)
  obtain s1 where s1: "ws_round ops max_size (\<not> client) (opcode, data, of_nat (length data)) s =
      Some (Inr (if ds = [] then WsMessage \<lparr>wm_opcode = kept_opcode opcode op, wm_data = data @ d\<rparr>
                 else WsNext (kept_opcode opcode op, data @ d, of_nat (length (data @ d))), s1))"
    "ok s1" "pending s1 = fragments_bytes client 0 ds @ rest" "sent s1 = sent s"
    using frame_received [OF Cons.prems(1) p, of data max_size opcode] Cons.prems(4-7) x by auto
  show ?case
  proof (cases "ds = []")
    case True
    then show ?thesis using s1 x by (subst ws_recv_loop.simps) simp
  next
    case False
    have "kept_opcode (kept_opcode opcode op) 0 = kept_opcode opcode op" by (simp add: kept_opcode_def)
    moreover have "data_opcode 0" by (simp add: data_opcode_def)
    ultimately show ?thesis
      using False s1 x Cons.prems(4-7) Cons.IH [OF s1(2,3) False, of "data @ d" "kept_opcode opcode op"]
      by (subst ws_recv_loop.simps) simp
  qed
qed simp

end

section \<open>Over sockets\<close>

lemma sock_read:
  assumes "delivers recv rp" "n < 2 ^ 31" "n \<le> length (rp r)"
  shows "\<exists>r'. so_read (sock_ops recv send mem cl) (of_nat n) (r, w) = Some (int n, take n (rp r), (r', w)) \<and>
    rp r' = drop n (rp r)"
proof -
  from assms obtain mem' r' where
    "readFixSize recv True (of_nat n) (mem, r) = Some (Inr (int n, mem', r'))"
    "load_bytes 0 n mem' = take n (rp r)" "rp r' = drop n (rp r)"
    using readFixSize_fills [of recv rp n r mem] by auto
  then show ?thesis using assms(2) unat_small [of n] by (simp add: sock_ops_def)
qed

lemma sock_write:
  assumes "accepts send ws" "length bs < 2 ^ 31"
  shows "\<exists>w'. so_write (sock_ops recv send mem cl) bs (r, w) = Some (int (length bs), (r, w')) \<and> ws w' = ws w @ bs"
proof -
  have load: "load_bytes 0 (length bs) (store_bytes 0 bs mem) = bs"
    using load_store [of 0 bs mem] assms(2) by (simp add: load_bytes_def)
  from assms obtain w' where
    "writeFixSize send True (store_bytes 0 bs mem) (of_nat (length bs)) w = Some (Inr (int (length bs), w'))"
    "ws w' = ws w @ bs"
    using writeFixSize_sends [of send ws "length bs" "store_bytes 0 bs mem" w] load by auto
  then show ?thesis by (simp add: sock_ops_def)
qed

interpretation sock: healthy_stream "sock_ops recv send mem cl"
    "\<lambda>(r, w). delivers recv rp \<and> accepts send ws" "\<lambda>(r, w). rp r" "\<lambda>(r, w). ws w"
  for recv :: "'r recv" and send :: "'w send" and mem cl rp ws
proof
  fix s :: "'r \<times> 'w" and n
  assume "case s of (r, w) \<Rightarrow> delivers recv rp \<and> accepts send ws" "n < 2 ^ 31"
    "n \<le> length (case s of (r, w) \<Rightarrow> rp r)"
  then show "\<exists>s'. so_read (sock_ops recv send mem cl) (of_nat n) s =
      Some (int n, take n (case s of (r, w) \<Rightarrow> rp r), s') \<and> (case s' of (r, w) \<Rightarrow> delivers recv rp \<and> accepts send ws) \<and>
      (case s' of (r, w) \<Rightarrow> rp r) = drop n (case s of (r, w) \<Rightarrow> rp r) \<and>
      (case s' of (r, w) \<Rightarrow> ws w) = (case s of (r, w) \<Rightarrow> ws w)"
    using sock_read [of recv rp n "fst s" send mem cl "snd s"] by (auto split: prod.splits)
next
  fix s :: "'r \<times> 'w" and bs :: bytes
  assume "case s of (r, w) \<Rightarrow> delivers recv rp \<and> accepts send ws" "length bs < 2 ^ 31"
  then show "\<exists>s'. so_write (sock_ops recv send mem cl) bs s = Some (int (length bs), s') \<and>
      (case s' of (r, w) \<Rightarrow> delivers recv rp \<and> accepts send ws) \<and>
      (case s' of (r, w) \<Rightarrow> rp r) = (case s of (r, w) \<Rightarrow> rp r) \<and>
      (case s' of (r, w) \<Rightarrow> ws w) = (case s of (r, w) \<Rightarrow> ws w) @ bs"
    using sock_write [of send ws bs recv mem cl "fst s" "snd s"] by (auto split: prod.splits)
qed

text \<open>C10: a message sent over a socket in any number of non-empty fragments of less than 64 KiB, masked or
  not, whose total length is below the receiver's configured limit (\<open>websocket.message.max_size\<close>,
  at most 2 GiB here), is what the peer receives: the fragments joined, with the opcode of the first, and the bytes
  that follow it left in the stream.\<close>

theorem websocket_roundtrip:
  assumes "delivers recv1 rp1" "accepts send1 ws1" "delivers recv2 rp2" "accepts send2 ws2"
    and "ds \<noteq> []" "\<forall>x \<in> set ds. sendable (snd x)" "op = 1 \<or> op = 2"
    and "length (concat (map snd ds)) < unat max_size" "unat max_size \<le> 2 ^ 31"
    and "ws1 w1 = []"
  shows "\<exists>r1' w1'. send_fragments (sock_ops recv1 send1 mem1 cl1) client op ds (r1, w1) = Some (Inr (r1', w1')) \<and>
    (\<forall>r2 w2 rest. rp2 r2 = ws1 w1' @ rest \<longrightarrow>
       (\<exists>r2' w2'. WSRecvMessage (sock_ops recv2 send2 mem2 cl2) max_size (\<not> client) (r2, w2) =
            Some (Inr (Some \<lparr>wm_opcode = op, wm_data = concat (map snd ds)\<rparr>, (r2', w2'))) \<and> rp2 r2' = rest))"
proof -
  obtain r1' w1' where s1: "send_fragments (sock_ops recv1 send1 mem1 cl1) client op ds (r1, w1) = Some (Inr (r1', w1'))"
    "ws1 w1' = fragments_bytes client op ds"
    using sock.send_fragments_ok [of recv1 rp1 send1 ws1 "(r1, w1)" ds mem1 cl1 client op] assms by auto
  have "data_opcode op" using assms(7) by (auto simp: data_opcode_def)
  moreover have "kept_opcode 0 op = op" using assms(7) by (auto simp: kept_opcode_def)
  ultimately have "\<exists>r2' w2'. WSRecvMessage (sock_ops recv2 send2 mem2 cl2) max_size (\<not> client) (r2, w2) =
        Some (Inr (Some \<lparr>wm_opcode = op, wm_data = concat (map snd ds)\<rparr>, (r2', w2'))) \<and> rp2 r2' = rest"
    if "rp2 r2 = ws1 w1' @ rest" for r2 w2 rest
    using sock.recv_fragments [of recv2 rp2 send2 ws2 "(r2, w2)" client op ds rest "[]" max_size mem2 cl2 0] that s1(2) assms
    by (auto simp: WSRecvMessage_def)
  with s1(1) show ?thesis by blast
qed

text \<open>A connection that takes everything.\<close>

definition swallow :: "bytes send" where
  "swallow bs s = (int (length bs), s @ bs)"

lemma swallow_accepts: "accepts swallow (\<lambda>s. s)"
  by (auto simp: accepts_def swallow_def)

theorem websocket_roundtrip_witness:
  "\<exists>r1' w1'. send_fragments (sock_ops drip swallow (\<lambda>_. 0) id) True 1 [(7, [1, 2, 3]), (9, [4])] ([], []) = Some (Inr (r1', w1'))"
proof -
  have "\<forall>x \<in> set [(7, [1, 2, 3]), (9 :: u32, [4])]. sendable (snd x)" by (simp add: sendable_def)
  from websocket_roundtrip [OF drip_delivers swallow_accepts drip_delivers swallow_accepts _ this, of 1 1000 "[]"
      "\<lambda>_. 0" id True "[]" "\<lambda>_. 0" id]
  show ?thesis by (simp del: send_fragments.simps) blast
qed

section \<open>Frames the receiver gets wrong\<close>

lemma sock_close [simp]: "so_close (sock_ops recv send mem cl) = cl"
  by (simp add: sock_ops_def)

lemma sock_write_nothing: "so_write (sock_ops recv send mem cl) [] (r, w) = Some (0, (r, w))"
  by (simp add: sock_ops_def writeFixSize_def fix_loop.simps c_int_def)

lemma sock_read_nothing: "so_read (sock_ops recv send mem cl) 0 (r, w) = Some (0, [], (r, w))"
  by (simp add: sock_ops_def readFixSize_def fix_loop.simps c_int_def load_bytes_def)

text \<open>An empty message cannot be exchanged: sending one writes the frame head, reports failure and
  closes the stream; receiving one closes the stream without a message.\<close>

theorem empty_message_closes:
  assumes "accepts send ws" "delivers recv rp" "wm_data msg = []" "0 < max_size" "data_opcode (wm_opcode msg)"
  shows "(\<exists>w' msg'. WSSendMessage (sock_ops recv send mem cl) rand_val msg client fin (r, w) =
        Some (Inr (- 1, msg', cl (r, w'))) \<and>
      ws w' = ws w @ head_bytes (message_head msg client fin) @ (if client then le_bytes 4 rand_val else [])) \<and>
    (rp r = frame_bytes rand_val client fin msg @ rest \<longrightarrow>
      (\<exists>r'. WSRecvMessage (sock_ops recv send mem cl) max_size (\<not> client) (r, w) = Some (Inr (None, cl (r', w)))))"
proof
  let ?ops = "sock_ops recv send mem cl" and ?h = "message_head msg client fin" and ?key = "le_bytes 4 rand_val"
  have h: "wh_payload ?h = 0" "wh_mask ?h = client" "wh_opcode ?h = ucast (wm_opcode msg)"
    using assms(3) by (simp_all add: message_head_def Let_def)
  have lens: "length (head_bytes ?h) < 2 ^ 31" "length ?key < 2 ^ 31" by simp_all
  show "\<exists>w' msg'. WSSendMessage ?ops rand_val msg client fin (r, w) = Some (Inr (- 1, msg', cl (r, w'))) \<and>
      ws w' = ws w @ head_bytes ?h @ (if client then ?key else [])"
  proof -
    obtain w1 where w1: "so_write ?ops (head_bytes ?h) (r, w) = Some (2, (r, w1))" "ws w1 = ws w @ head_bytes ?h"
      using sock_write [OF assms(1) lens(1), of recv mem cl r w] by auto
    obtain w2 where w2: "so_write ?ops ?key (r, w1) = Some (4, (r, w2))" "ws w2 = ws w1 @ ?key"
      using sock_write [OF assms(1) lens(2), of recv mem cl r w1] by auto
    have "mask_at ?key 0 0 [] = []" by (simp add: mask_at_def)
    then show ?thesis
      using w1 w2 h assms(3)
      by (intro exI [of _ "if client then w2 else w1"])
        (cases client; simp add: WSSendMessage_def Let_def sock_write_nothing)
  qed
  show "rp r = frame_bytes rand_val client fin msg @ rest \<longrightarrow>
      (\<exists>r'. WSRecvMessage ?ops max_size (\<not> client) (r, w) = Some (Inr (None, cl (r', w))))"
  proof
    assume "rp r = frame_bytes rand_val client fin msg @ rest"
    then have p: "rp r = head_bytes ?h @ (if client then ?key else []) @ rest"
      using assms(3) by (simp add: frame_bytes_def Let_def length_part_def mask_at_def)
    then obtain r1 where r1: "so_read ?ops 2 (r, w) = Some (2, head_bytes ?h, (r1, w))"
      "rp r1 = (if client then ?key else []) @ rest"
      using sock_read [OF assms(2), of 2 r send mem cl w] by auto
    have "client \<Longrightarrow> \<exists>r2. so_read ?ops 4 (r1, w) = Some (4, ?key, (r2, w))"
      using sock_read [OF assms(2), of 4 r1 send mem cl w] r1(2) by auto
    then obtain r2 key k where r2: "(if wh_mask ?h then so_read ?ops 4 (r1, w) else Some (1, [0, 0, 0, 0], (r1, w))) =
        Some (k, key, (r2, w))" "0 < k"
      using h(2) by (cases client) auto
    have op: "wh_opcode ?h = op_CONTINUE \<or> wh_opcode ?h = op_TEXT_FRAME \<or> wh_opcode ?h = op_BIN_FRAME"
      "wh_opcode ?h \<noteq> op_PING" "wh_opcode ?h \<noteq> op_PONG"
      using assms(5) by (auto simp: h(3) data_opcode_def op_CONTINUE_def op_TEXT_FRAME_def
          op_BIN_FRAME_def op_PING_def op_PONG_def)
    have max: "\<not> ucast max_size \<le> (0 :: u64)"
      using assms(4) by (simp add: word_le_nat_alt unat_widened word_less_nat_alt)
    have "ws_data_frame ?ops max_size (\<not> client) ?h (0, [], 0) (r1, w) = Some (Inr (WsBreak, (r2, w)))"
      using h r2 max by (simp add: ws_data_frame_def ws_length_def sock_read_nothing Let_def)
    then have "ws_round ?ops max_size (\<not> client) (0, [], 0) (r, w) = Some (Inr (WsBreak, (r2, w)))"
      using r1(1) op by (simp add: ws_round_def Let_def)
    then show "\<exists>r'. WSRecvMessage ?ops max_size (\<not> client) (r, w) = Some (Inr (None, cl (r', w)))"
      by (subst WSRecvMessage_def, subst ws_recv_loop.simps) auto
  qed
qed

theorem empty_message_closes_witness:
  "\<exists>w' msg'. WSSendMessage (sock_ops drip swallow (\<lambda>_. 0) id) 7 \<lparr>wm_opcode = 1, wm_data = []\<rparr> False True ([], []) =
     Some (Inr (- 1, msg', ([], w')))"
proof -
  have "(0 :: u32) < 5" "data_opcode (wm_opcode \<lparr>wm_opcode = 1, wm_data = []\<rparr>)" by (simp_all add: data_opcode_def)
  from empty_message_closes [OF swallow_accepts drip_delivers _ this, of "\<lambda>_. 0" id 7 False True "[]" "[]" "[]"]
  show ?thesis by auto
qed

text \<open>The check of the size adds a length of 64 bits to what has been received, and wraps: a second
  fragment that announces almost \<open>2\<^sup>6\<^sup>4\<close> bytes passes it, the buffer is made smaller than what it holds,
  and the payload is read to an address behind its end.\<close>

theorem oversized_fragment_overruns:
  assumes "delivers recv rp" "accepts send ws" "sendable d" "data_opcode op"
    and "length d < unat max_size" "unat max_size \<le> 2 ^ 31" "2 ^ 64 - length d \<le> unat (len :: u64)" "length key = 4"
    and "rp r = frame_bytes rand_val True False \<lparr>wm_opcode = op, wm_data = d\<rparr> @
        head_bytes (zero_head\<lparr>wh_mask := True, wh_payload := 127\<rparr>) @ le_bytes 8 (byteswapOnLittleEndian 8 len) @ key @ rest"
  shows "WSRecvMessage (sock_ops recv send mem cl) max_size False (r, w) = Some (Inl BadIndex)"
proof -
  let ?ops = "sock_ops recv send mem cl" and ?h = "zero_head\<lparr>wh_mask := True, wh_payload := 127\<rparr>" and ?n = "length d"
  obtain r1 w1 where r1: "ws_round ?ops max_size False (0, [], 0) (r, w) =
      Some (Inr (WsNext (kept_opcode 0 op, d, of_nat ?n), (r1, w1)))"
    "rp r1 = head_bytes ?h @ le_bytes 8 (byteswapOnLittleEndian 8 len) @ key @ rest"
    using sock.frame_received [of recv rp send ws "(r, w)" rand_val True False "\<lparr>wm_opcode = op, wm_data = d\<rparr>" _ "[]"
        max_size mem cl 0] assms by auto
  obtain r2 where r2: "so_read ?ops 2 (r1, w1) = Some (2, head_bytes ?h, (r2, w1))"
    "rp r2 = le_bytes 8 (byteswapOnLittleEndian 8 len) @ key @ rest"
    using sock_read [OF assms(1), of 2 r1 send mem cl w1] r1(2) by auto
  obtain r3 where r3: "so_read ?ops 8 (r2, w1) = Some (8, le_bytes 8 (byteswapOnLittleEndian 8 len), (r3, w1))"
    "rp r3 = key @ rest"
    using sock_read [OF assms(1), of 8 r2 send mem cl w1] r2(2) by auto
  obtain r4 where r4: "so_read ?ops 4 (r3, w1) = Some (4, key, (r4, w1))"
    using sock_read [OF assms(1), of 4 r3 send mem cl w1] r3(2) assms(8) by auto
  have len: "byteswapOnLittleEndian 8 (le_word (le_bytes 8 (byteswapOnLittleEndian 8 len)) :: u64) = len"
    by (simp add: byteswapOnLittleEndian_def byteswap_byteswap le_word_le_bytes)
  have n: "0 < ?n" "?n < 65536" using assms(3) by (simp_all add: sendable_def)
  have len64: "unat len < 2 ^ 64" using unsigned_less [of len] by simp
  have sc: "(scast (of_nat ?n :: u32) :: u64) = of_nat ?n" using n by (intro scast_small) simp
  have "unat (of_nat ?n + len) = (?n + unat len) mod 2 ^ 64"
    using n unat_small [of ?n] by (simp add: unat_word_ariths)
  also have "\<dots> = ?n + unat len - 2 ^ 64"
    using assms(7) n len64 by (simp add: mod_if)
  finally have total: "unat (of_nat ?n + len) < ?n"
    using n len64 by linarith
  then have small: "\<not> ucast max_size \<le> of_nat ?n + len" 
    using assms(5) by (simp add: word_le_nat_alt)
  have "unat (of_nat ?n :: u64) = ?n" using n by (intro unat_small) simp
  then have "ws_data_frame ?ops max_size False ?h (kept_opcode 0 op, d, of_nat ?n) (r2, w1) = Some (Inl BadIndex)"
    using r3(1) r4 len sc total small
    by (simp add: ws_data_frame_def ws_length_def Let_def)
  then have "ws_round ?ops max_size False (kept_opcode 0 op, d, of_nat ?n) (r1, w1) = Some (Inl BadIndex)"
    using r2(1) by (simp add: ws_round_def Let_def zero_head_def op_PING_def op_PONG_def op_CONTINUE_def)
  then show ?thesis
    using r1(1) by (simp add: WSRecvMessage_def ws_recv_loop.simps)
qed

text \<open>Of a control frame only the head of two bytes is consumed: a ping is answered by a pong, any other
  is skipped, and the mask and payload that follow are read as the head of the next frame.\<close>

theorem control_frames_keep_payload:
  assumes "delivers recv rp" "accepts send ws" "\<not> data_opcode (ucast (wh_opcode h))" "rp r = head_bytes h @ rest"
  shows "\<exists>r' w'. WSRecvMessage (sock_ops recv send mem cl) max_size client (r, w) =
      WSRecvMessage (sock_ops recv send mem cl) max_size client (r', w') \<and> rp r' = rest \<and>
    ws w' = ws w @ (if wh_opcode h = op_PING then head_bytes (zero_head\<lparr>wh_fin := True, wh_opcode := op_PONG\<rparr>) else [])"
proof -
  let ?ops = "sock_ops recv send mem cl" and ?pong = "head_bytes (zero_head\<lparr>wh_fin := True, wh_opcode := op_PONG\<rparr>)"
  obtain r' where r': "so_read ?ops 2 (r, w) = Some (2, head_bytes h, (r', w))" "rp r' = rest"
    using sock_read [OF assms(1), of 2 r send mem cl w] assms(4) by auto
  obtain w' where w': "so_write ?ops ?pong (r', w) = Some (2, (r', w'))" "ws w' = ws w @ ?pong"
    using sock_write [OF assms(2), of ?pong recv mem cl r' w] by auto
  have op: "wh_opcode h \<noteq> op_CONTINUE" "wh_opcode h \<noteq> op_TEXT_FRAME" "wh_opcode h \<noteq> op_BIN_FRAME"
    using assms(3) by (auto simp: data_opcode_def op_CONTINUE_def op_TEXT_FRAME_def op_BIN_FRAME_def)
  have "ws_round ?ops max_size client (0, [], 0) (r, w) =
      Some (Inr (WsNext (0, [], 0), (r', if wh_opcode h = op_PING then w' else w)))"
    using r'(1) w'(1) op by (simp add: ws_round_def WSPong_def ws_control_def Let_def)
  then have "WSRecvMessage ?ops max_size client (r, w) =
      WSRecvMessage ?ops max_size client (r', if wh_opcode h = op_PING then w' else w)"
    by (simp add: WSRecvMessage_def ws_recv_loop.simps [of ?ops max_size client "(0, [], 0)" "(r, w)"])
  then show ?thesis using r'(2) w'(2)
    by (intro exI [of _ r'] exI [of _ "if wh_opcode h = op_PING then w' else w"]) auto
qed

theorem oversized_fragment_overruns_witness:
  "WSRecvMessage (sock_ops drip swallow (\<lambda>_. 0) id) 1000 False
     (frame_bytes 7 True False \<lparr>wm_opcode = 1, wm_data = [65, 66]\<rparr> @
        head_bytes (zero_head\<lparr>wh_mask := True, wh_payload := 127\<rparr>) @
        le_bytes 8 (byteswapOnLittleEndian 8 (- 1 :: u64)) @ [0, 0, 0, 0] @ [], []) = Some (Inl BadIndex)"
proof -
  have m: "unat (- 1 :: u64) = 2 ^ 64 - 1" by (simp add: unsigned_minus_1_eq_mask mask_eq_exp_minus_1)
  have d: "sendable [65, 66]" "data_opcode 1" by (simp_all add: sendable_def data_opcode_def)
  show ?thesis
    by (rule oversized_fragment_overruns [OF drip_delivers swallow_accepts d,
          where len = "- 1" and key = "[0, 0, 0, 0]" and rest = "[]" and rand_val = 7]) (simp_all add: m)
qed

theorem control_frames_keep_payload_witness:
  "\<exists>r' w'. WSRecvMessage (sock_ops drip swallow (\<lambda>_. 0) id) 1000 False
      (head_bytes (zero_head\<lparr>wh_opcode := op_PING, wh_mask := True\<rparr>) @ [1, 2, 3, 4], []) =
     WSRecvMessage (sock_ops drip swallow (\<lambda>_. 0) id) 1000 False (r', w') \<and> r' = [1, 2, 3, 4]"
proof -
  have "\<not> data_opcode (ucast (wh_opcode (zero_head\<lparr>wh_opcode := op_PING, wh_mask := True\<rparr>)))"
    by (simp add: data_opcode_def op_PING_def)
  from control_frames_keep_payload [OF drip_delivers swallow_accepts this, of _ "[1, 2, 3, 4]" "\<lambda>_. 0" id 1000 False "[]"]
  show ?thesis by blast
qed

end
