(* ===== verification/IoManager.thy ===== *)
theory IoManager
  imports Timers "HOL-Library.Multiset"
begin

text \<open>
  \<open>src/IoManager.cpp\<close>: the table of descriptor contexts, the registration of fibers and callbacks
  for events, and what the idle fiber does with the events that \<open>epoll_wait\<close> returns. Contexts
  live at addresses (natural numbers) that are never freed before the destructor; \<open>io_contexts\<close>
  is the vector of addresses. \<open>epoll_ctl\<close> is the argument \<open>ctl\<close>: it gets the kernel's state, the
  operation, the descriptor, the mask and the pointer, and returns the call's result and the new
  kernel state. \<open>io_scheduled\<close> logs the calls of \<open>schedule\<close>. The reader lock on the vector and the
  lock of a context are taken one after the other, so an operation has two atomic parts: looking
  the context up, and working on it.
\<close>

unbundle bit_operations_syntax

section \<open>State\<close>

datatype 'c task = TaskFiber nat | TaskCall "'c callback"

record 'c event_context =
  ec_scheduler :: "nat option"
  ec_fiber :: "nat option"
  ec_callback :: "'c callback option"

record 'c fd_context =
  fc_fd :: int
  fc_read :: "'c event_context"
  fc_write :: "'c event_context"
  fc_events :: u32

record ('c, 'k) io_manager =
  io_self :: nat
  io_heap :: "nat \<Rightarrow> 'c fd_context"
  io_next :: nat
  io_contexts :: "nat list"
  io_pending :: u64
  io_scheduled :: "(nat \<times> 'c task) list"
  io_timers :: "'c manager"
  io_kernel :: 'k

datatype ctl_op = CtlAdd | CtlMod | CtlDel

type_synonym 'k epoll_ctl = "'k \<Rightarrow> ctl_op \<Rightarrow> int \<Rightarrow> u32 \<Rightarrow> nat \<Rightarrow> int \<times> 'k"

definition READ_EV :: u32 where "READ_EV = 1"
definition WRITE_EV :: u32 where "WRITE_EV = 4"
definition EPOLLIN :: u32 where "EPOLLIN = 1"
definition EPOLLOUT :: u32 where "EPOLLOUT = 4"
definition EPOLLERR :: u32 where "EPOLLERR = 8"
definition EPOLLHUP :: u32 where "EPOLLHUP = 16"
definition EPOLLET :: u32 where "EPOLLET = 0x80000000"

lemmas event_masks = READ_EV_def WRITE_EV_def EPOLLIN_def EPOLLOUT_def EPOLLERR_def EPOLLHUP_def
  EPOLLET_def

definition empty_event :: "'c event_context" where
  "empty_event = \<lparr>ec_scheduler = None, ec_fiber = None, ec_callback = None\<rparr>"

definition new_fd_context :: "int \<Rightarrow> 'c fd_context" where
  "new_fd_context fd =
     \<lparr>fc_fd = fd, fc_read = empty_event, fc_write = empty_event, fc_events = 0\<rparr>"

section \<open>A descriptor context\<close>

definition getContext :: "u32 \<Rightarrow> 'c fd_context \<Rightarrow> 'c event_context res" where
  "getContext event c =
     (if event = READ_EV then Inr (fc_read c)
      else if event = WRITE_EV then Inr (fc_write c)
      else Inl AssertFail)"

text \<open>Writing through the reference that \<open>getContext\<close> returns.\<close>

definition setContext :: "u32 \<Rightarrow> 'c event_context \<Rightarrow> 'c fd_context \<Rightarrow> 'c fd_context" where
  "setContext event ec c =
     (if event = READ_EV then c\<lparr>fc_read := ec\<rparr> else c\<lparr>fc_write := ec\<rparr>)"

definition resetContext :: "'c event_context \<Rightarrow> 'c event_context" where
  "resetContext ec = ec\<lparr>ec_scheduler := None, ec_fiber := None, ec_callback := None\<rparr>"

text \<open>
  \<open>triggerEvent\<close>: the new context and the task handed to the scheduler of the event. \<open>schedule\<close>
  takes the callback or the fiber out of the event context, and drops an empty one.
\<close>

definition triggerEvent ::
  "u32 \<Rightarrow> 'c fd_context \<Rightarrow> ('c fd_context \<times> (nat \<times> 'c task) list) res" where
  "triggerEvent event c0 =
     (if fc_events c0 AND event = 0 then Inl AssertFail
      else
        let c = c0\<lparr>fc_events := fc_events c0 AND NOT event\<rparr> in
        bindE (getContext event c) (\<lambda>ctx.
          case ec_scheduler ctx of
            None \<Rightarrow> Inl NullDeref
          | Some sch \<Rightarrow>
              (case ec_callback ctx of
                 Some cb \<Rightarrow>
                   Inr (setContext event (ctx\<lparr>ec_callback := None, ec_scheduler := None\<rparr>) c,
                        [(sch, TaskCall cb)])
               | None \<Rightarrow>
                   Inr (setContext event (ctx\<lparr>ec_fiber := None, ec_scheduler := None\<rparr>) c,
                        case ec_fiber ctx of None \<Rightarrow> [] | Some f \<Rightarrow> [(sch, TaskFiber f)]))))"

section \<open>The vector of contexts\<close>

definition put_context ::
  "nat \<Rightarrow> 'c fd_context \<Rightarrow> ('c, 'k) io_manager \<Rightarrow> ('c, 'k) io_manager" where
  "put_context a c m = m\<lparr>io_heap := (io_heap m)(a := c)\<rparr>"

text \<open>
  \<open>contextResize\<close>: \<open>resize\<close> cuts the vector or fills it with null pointers, and the loop gives
  every null pointer a new context whose descriptor is its index.
\<close>

definition contextResize :: "nat \<Rightarrow> ('c, 'k) io_manager \<Rightarrow> ('c, 'k) io_manager" where
  "contextResize n m =
     (let old = length (io_contexts m);
          fresh = [io_next m..<io_next m + (n - old)]
      in m\<lparr>io_contexts := take n (io_contexts m) @ fresh,
           io_next := io_next m + (n - old),
           io_heap := (\<lambda>a. if io_next m \<le> a \<and> a < io_next m + (n - old)
                           then new_fd_context (int (old + (a - io_next m)))
                           else io_heap m a)\<rparr>)"

definition new_io_manager :: "nat \<Rightarrow> u64 \<Rightarrow> 'k \<Rightarrow> ('c, 'k) io_manager" where
  "new_io_manager self now k =
     contextResize 32
       \<lparr>io_self = self, io_heap = (\<lambda>_. new_fd_context 0), io_next = 0, io_contexts = [],
        io_pending = 0, io_scheduled = [], io_timers = new_manager now, io_kernel = k\<rparr>"

text \<open>
  The first part of \<open>addEvent\<close>: under the reader lock, the context at the index; \<open>None\<close> when the
  vector has to grow, which a second step does under the writer lock. The index of a negative
  descriptor is outside the vector.
\<close>

definition addEvent_lookup :: "int \<Rightarrow> ('c, 'k) io_manager \<Rightarrow> nat option res" where
  "addEvent_lookup fd m =
     (if int (length (io_contexts m)) > fd
      then if fd < 0 then Inl BadIndex else Inr (Some (io_contexts m ! nat fd))
      else Inr None)"

text \<open>\<open>fd * 1.5\<close>, cut to an integer.\<close>

definition addEvent_grow ::
  "int \<Rightarrow> ('c, 'k) io_manager \<Rightarrow> (nat \<times> ('c, 'k) io_manager) res" where
  "addEvent_grow fd m =
     (let m1 = contextResize (nat (fd * 3 div 2)) m in
      if nat fd < length (io_contexts m1) then Inr (io_contexts m1 ! nat fd, m1)
      else Inl BadIndex)"

text \<open>The first part of \<open>delEvent\<close>, whose comparison is signed.\<close>

definition delEvent_lookup :: "int \<Rightarrow> ('c, 'k) io_manager \<Rightarrow> nat option res" where
  "delEvent_lookup fd m =
     (if int (length (io_contexts m)) \<le> fd then Inr None
      else if fd < 0 then Inl BadIndex else Inr (Some (io_contexts m ! nat fd)))"

text \<open>The first part of \<open>cancelEvent\<close> and \<open>cancelAll\<close>: \<open>(size_t)fd\<close> makes a negative descriptor
  a huge one.\<close>

definition cancel_lookup :: "int \<Rightarrow> ('c, 'k) io_manager \<Rightarrow> nat option" where
  "cancel_lookup fd m =
     (if length (io_contexts m) \<le> unat (word_of_int fd :: u64) then None
      else Some (io_contexts m ! unat (word_of_int fd :: u64)))"

section \<open>Registering and removing events\<close>

text \<open>
  The second part of \<open>addEvent\<close>, under the lock of the context at \<open>a\<close>. \<open>this\<close> is the calling
  thread's scheduler, \<open>fiber\<close> its current fiber and \<open>exec\<close> tells whether that fiber's state is
  \<open>EXEC\<close>.
\<close>

definition addEvent_at ::
  "'k epoll_ctl \<Rightarrow> nat \<Rightarrow> int \<Rightarrow> u32 \<Rightarrow> 'c callback option \<Rightarrow> nat option \<Rightarrow> nat \<Rightarrow> bool
   \<Rightarrow> ('c, 'k) io_manager \<Rightarrow> (int \<times> ('c, 'k) io_manager) res" where
  "addEvent_at ctl a fd event cb this fiber exec m =
     (let c = io_heap m a in
      if fc_events c AND event \<noteq> 0 then Inl AssertFail
      else
        let op = (if fc_events c \<noteq> 0 then CtlMod else CtlAdd);
            (ret, k) = ctl (io_kernel m) op fd (EPOLLET OR fc_events c OR event) a;
            m1 = m\<lparr>io_kernel := k\<rparr>
        in if ret \<noteq> 0 then Inr (-1, m1)
           else
             let m2 = m1\<lparr>io_pending := io_pending m1 + 1\<rparr>;
                 c2 = c\<lparr>fc_events := fc_events c OR event\<rparr>
             in bindE (getContext event c2) (\<lambda>ctx.
                  if ec_scheduler ctx \<noteq> None \<or> ec_fiber ctx \<noteq> None \<or> ec_callback ctx \<noteq> None
                  then Inl AssertFail
                  else
                    case cb of
                      Some f \<Rightarrow>
                        Inr (0, put_context a
                               (setContext event
                                  (ctx\<lparr>ec_scheduler := this, ec_callback := Some f\<rparr>) c2) m2)
                    | None \<Rightarrow>
                        if exec
                        then Inr (0, put_context a
                               (setContext event
                                  (ctx\<lparr>ec_scheduler := this, ec_fiber := Some fiber\<rparr>) c2) m2)
                        else Inl AssertFail))"

text \<open>The guard \<open>(!fd_ctx->events) & event\<close>, as C++ reads it.\<close>

definition guard_unregistered :: "u32 \<Rightarrow> u32 \<Rightarrow> bool" where
  "guard_unregistered events event \<longleftrightarrow> (if events = 0 then 1 else 0) AND event \<noteq> 0"

definition delEvent_at ::
  "'k epoll_ctl \<Rightarrow> nat \<Rightarrow> int \<Rightarrow> u32 \<Rightarrow> ('c, 'k) io_manager
   \<Rightarrow> (bool \<times> ('c, 'k) io_manager) res" where
  "delEvent_at ctl a fd event m =
     (let c = io_heap m a in
      if guard_unregistered (fc_events c) event then Inr (False, m)
      else
        let new_events = fc_events c AND NOT event;
            op = (if new_events \<noteq> 0 then CtlMod else CtlDel);
            (ret, k) = ctl (io_kernel m) op fd (EPOLLET OR new_events) a;
            m1 = m\<lparr>io_kernel := k\<rparr>
        in if ret \<noteq> 0 then Inr (False, m1)
           else
             let m2 = m1\<lparr>io_pending := io_pending m1 - 1\<rparr>;
                 c2 = c\<lparr>fc_events := new_events\<rparr>
             in bindE (getContext event c2) (\<lambda>ctx.
                  Inr (True, put_context a (setContext event (resetContext ctx) c2) m2)))"

text \<open>\<open>triggerEvent\<close> on the context at \<open>a\<close>, then \<open>--_pendingEventCount\<close>.\<close>

definition trigger_at ::
  "nat \<Rightarrow> u32 \<Rightarrow> ('c, 'k) io_manager \<Rightarrow> ('c, 'k) io_manager res" where
  "trigger_at a event m =
     bindE (triggerEvent event (io_heap m a)) (\<lambda>(c, tasks).
       Inr ((put_context a c m)\<lparr>io_pending := io_pending m - 1,
                               io_scheduled := io_scheduled m @ tasks\<rparr>))"

definition cancelEvent_at ::
  "'k epoll_ctl \<Rightarrow> nat \<Rightarrow> int \<Rightarrow> u32 \<Rightarrow> ('c, 'k) io_manager
   \<Rightarrow> (bool \<times> ('c, 'k) io_manager) res" where
  "cancelEvent_at ctl a fd event m =
     (let c = io_heap m a in
      if guard_unregistered (fc_events c) event then Inr (False, m)
      else
        let new_events = fc_events c AND NOT event;
            op = (if new_events \<noteq> 0 then CtlMod else CtlDel);
            (ret, k) = ctl (io_kernel m) op fd (EPOLLET OR new_events) a;
            m1 = m\<lparr>io_kernel := k\<rparr>
        in if ret \<noteq> 0 then Inr (False, m1)
           else bindE (trigger_at a event m1) (\<lambda>m2. Inr (True, m2)))"

text \<open>A trigger guarded by \<open>if(mask & event)\<close>.\<close>

definition trigger_if ::
  "u32 \<Rightarrow> nat \<Rightarrow> u32 \<Rightarrow> ('c, 'k) io_manager \<Rightarrow> ('c, 'k) io_manager res" where
  "trigger_if mask_bits a event m = (if mask_bits AND event \<noteq> 0 then trigger_at a event m else Inr m)"

definition cancelAll_at ::
  "'k epoll_ctl \<Rightarrow> nat \<Rightarrow> int \<Rightarrow> ('c, 'k) io_manager \<Rightarrow> (bool \<times> ('c, 'k) io_manager) res" where
  "cancelAll_at ctl a fd m =
     (let c = io_heap m a in
      if fc_events c = 0 then Inr (False, m)
      else
        let (ret, k) = ctl (io_kernel m) CtlDel fd 0 a;
            m1 = m\<lparr>io_kernel := k\<rparr>
        in if ret \<noteq> 0 then Inr (False, m1)
           else
             bindE (trigger_if (fc_events (io_heap m1 a)) a READ_EV m1) (\<lambda>m2.
             bindE (trigger_if (fc_events (io_heap m2 a)) a WRITE_EV m2) (\<lambda>m3.
               if fc_events (io_heap m3 a) = 0 then Inr (True, m3) else Inl AssertFail)))"

section \<open>The calls, both parts together\<close>

text \<open>What a call does when no other thread comes between its two parts.\<close>

definition addEvent ::
  "'k epoll_ctl \<Rightarrow> int \<Rightarrow> u32 \<Rightarrow> 'c callback option \<Rightarrow> nat option \<Rightarrow> nat \<Rightarrow> bool
   \<Rightarrow> ('c, 'k) io_manager \<Rightarrow> (int \<times> ('c, 'k) io_manager) res" where
  "addEvent ctl fd event cb this fiber exec m =
     bindE (addEvent_lookup fd m) (\<lambda>found.
       case found of
         Some a \<Rightarrow> addEvent_at ctl a fd event cb this fiber exec m
       | None \<Rightarrow>
           bindE (addEvent_grow fd m) (\<lambda>(a, m1).
             addEvent_at ctl a fd event cb this fiber exec m1))"

definition delEvent ::
  "'k epoll_ctl \<Rightarrow> int \<Rightarrow> u32 \<Rightarrow> ('c, 'k) io_manager \<Rightarrow> (bool \<times> ('c, 'k) io_manager) res" where
  "delEvent ctl fd event m =
     bindE (delEvent_lookup fd m) (\<lambda>found.
       case found of None \<Rightarrow> Inr (False, m) | Some a \<Rightarrow> delEvent_at ctl a fd event m)"

definition cancelEvent ::
  "'k epoll_ctl \<Rightarrow> int \<Rightarrow> u32 \<Rightarrow> ('c, 'k) io_manager \<Rightarrow> (bool \<times> ('c, 'k) io_manager) res" where
  "cancelEvent ctl fd event m =
     (case cancel_lookup fd m of
        None \<Rightarrow> Inr (False, m) | Some a \<Rightarrow> cancelEvent_at ctl a fd event m)"

definition cancelAll ::
  "'k epoll_ctl \<Rightarrow> int \<Rightarrow> ('c, 'k) io_manager \<Rightarrow> (bool \<times> ('c, 'k) io_manager) res" where
  "cancelAll ctl fd m =
     (case cancel_lookup fd m of
        None \<Rightarrow> Inr (False, m) | Some a \<Rightarrow> cancelAll_at ctl a fd m)"

section \<open>The idle fiber\<close>

text \<open>\<open>tickle\<close>, with the number of idle threads and the result of \<open>write\<close>: whether it wrote.\<close>

definition io_tickle :: "nat \<Rightarrow> int \<Rightarrow> bool res" where
  "io_tickle idle_threads wrote =
     (if idle_threads = 0 then Inr False else if wrote = 1 then Inr True else Inl AssertFail)"

text \<open>\<open>stopping(timeout)\<close>, with the scheduler's own \<open>stopping\<close>: the answer and the timeout.\<close>

definition io_stopping ::
  "u64 \<Rightarrow> bool \<Rightarrow> ('c, 'k) io_manager \<Rightarrow> (bool \<times> u64) \<times> ('c, 'k) io_manager" where
  "io_stopping now sched_stopping m =
     (let (timeout, tms) = getNextTimer now (io_timers m)
      in ((timeout = NOT 0 \<and> io_pending m = 0 \<and> sched_stopping, timeout),
          m\<lparr>io_timers := tms\<rparr>))"

definition as_int :: "u64 \<Rightarrow> int" where
  "as_int w = sint (ucast w :: u32)"

definition clamp_timeout :: "u64 \<Rightarrow> u64" where
  "clamp_timeout t =
     (if t \<noteq> NOT 0 then if as_int t > 3000 then 3000 else t else 3000)"

text \<open>What \<open>epoll_wait\<close> may return: interrupted by a signal, another error, or ready events.\<close>

datatype ready = ReadyTickle | ReadyFd nat u32

datatype waited = Interrupted | WaitError | WaitReady "ready list"

text \<open>
  The loop around \<open>epoll_wait\<close>, over the results it gets: the timeouts that were passed and the
  events; \<open>None\<close> when the results end before the loop does.
\<close>

fun wait_loop :: "u64 \<Rightarrow> waited list \<Rightarrow> int list \<times> ready list option" where
  "wait_loop t [] = ([], None)"
| "wait_loop t (Interrupted # ws) =
     (let (ts, r) = wait_loop (clamp_timeout t) ws in (as_int (clamp_timeout t) # ts, r))"
| "wait_loop t (WaitError # ws) = ([as_int (clamp_timeout t)], Some [])"
| "wait_loop t (WaitReady evs # ws) = ([as_int (clamp_timeout t)], Some evs)"

text \<open>\<open>schedule(cbs.begin(), cbs.end())\<close>; an empty function is not queued.\<close>

definition schedule_all ::
  "'c callback option list \<Rightarrow> ('c, 'k) io_manager \<Rightarrow> ('c, 'k) io_manager" where
  "schedule_all cbs m =
     m\<lparr>io_scheduled := io_scheduled m @
        map (\<lambda>cb. (io_self m, TaskCall cb)) (map the (filter (\<lambda>cb. cb \<noteq> None) cbs))\<rparr>"

definition schedule_expired :: "nat \<Rightarrow> u64 \<Rightarrow> ('c, 'k) io_manager \<Rightarrow> ('c, 'k) io_manager" where
  "schedule_expired addr now m =
     (let (cbs, tms) = listExpiredCb now addr (io_timers m)
      in schedule_all cbs (m\<lparr>io_timers := tms\<rparr>))"

text \<open>One turn of the loop over the events, for the context at \<open>a\<close>.\<close>

definition real_events :: "u32 \<Rightarrow> u32 \<Rightarrow> u32" where
  "real_events events evs0 =
     (let evs = (if evs0 AND (EPOLLERR OR EPOLLHUP) \<noteq> 0
                 then evs0 OR ((EPOLLIN OR EPOLLOUT) AND events) else evs0)
      in (if evs AND EPOLLIN \<noteq> 0 then READ_EV else 0) OR
         (if evs AND EPOLLOUT \<noteq> 0 then WRITE_EV else 0))"

definition ready_at ::
  "'k epoll_ctl \<Rightarrow> nat \<Rightarrow> u32 \<Rightarrow> ('c, 'k) io_manager \<Rightarrow> ('c, 'k) io_manager res" where
  "ready_at ctl a evs m =
     (let c = io_heap m a;
          real = real_events (fc_events c) evs
      in if fc_events c AND real = 0 then Inr m
         else
           let left_events = fc_events c AND NOT real;
               op = (if left_events \<noteq> 0 then CtlMod else CtlDel);
               (ret, k) = ctl (io_kernel m) op (fc_fd c) (EPOLLET OR left_events) a;
               m1 = m\<lparr>io_kernel := k\<rparr>
           in if ret \<noteq> 0 then Inr m1
              else bindE (trigger_if real a READ_EV m1) (\<lambda>m2. trigger_if real a WRITE_EV m2))"

fun ready_loop ::
  "'k epoll_ctl \<Rightarrow> ready list \<Rightarrow> ('c, 'k) io_manager \<Rightarrow> ('c, 'k) io_manager res" where
  "ready_loop ctl [] m = Inr m"
| "ready_loop ctl (ReadyTickle # evs) m = ready_loop ctl evs m"
| "ready_loop ctl (ReadyFd a ev # evs) m = bindE (ready_at ctl a ev m) (ready_loop ctl evs)"

text \<open>
  One iteration of \<open>idle\<close>, up to \<open>swapOut\<close>; \<open>None\<close> when it leaves the loop, or when the results of
  \<open>epoll_wait\<close> end. \<open>now1\<close> and \<open>now2\<close> are the times at which it reads the clock.
\<close>

definition idle_iteration ::
  "'k epoll_ctl \<Rightarrow> nat \<Rightarrow> u64 \<Rightarrow> u64 \<Rightarrow> bool \<Rightarrow> waited list \<Rightarrow> ('c, 'k) io_manager
   \<Rightarrow> ('c, 'k) io_manager option res" where
  "idle_iteration ctl addr now1 now2 sched_stopping ws m0 =
     (let ((stop, timeout), m) = io_stopping now1 sched_stopping m0 in
      if stop then Inr None
      else
        case snd (wait_loop timeout ws) of
          None \<Rightarrow> Inr None
        | Some evs \<Rightarrow>
            bindE (ready_loop ctl evs (schedule_expired addr now2 m)) (\<lambda>m1. Inr (Some m1)))"

end
