(* ===== verification/IoManagerProps.thy ===== *)
theory IoManagerProps
  imports IoManager
begin

text \<open>
  Who waits for an event: the waiters of the contexts, the threads that call into the manager as a
  step relation, and its invariant, that no waiter is lost and that \<open>_pendingEventCount\<close> counts the
  waiters, except for deletions of events that are not registered.
\<close>

section \<open>Waiters\<close>

type_synonym 'c waiter = "nat option \<times> 'c task"

definition event_waiters :: "'c event_context \<Rightarrow> 'c waiter multiset" where
  "event_waiters ec =
     (case ec_callback ec of
        Some cb \<Rightarrow> {#(ec_scheduler ec, TaskCall cb)#}
      | None \<Rightarrow> (case ec_fiber ec of
                  Some f \<Rightarrow> {#(ec_scheduler ec, TaskFiber f)#}
                | None \<Rightarrow> {#}))"

definition ctx_waiters :: "'c fd_context \<Rightarrow> 'c waiter multiset" where
  "ctx_waiters c = event_waiters (fc_read c) + event_waiters (fc_write c)"

definition waiting :: "('c, 'k) io_manager \<Rightarrow> 'c waiter multiset" where
  "waiting m = (\<Sum>a \<in> {..<io_next m}. ctx_waiters (io_heap m a))"

definition scheduled :: "('c, 'k) io_manager \<Rightarrow> 'c waiter multiset" where
  "scheduled m = mset (map (apfst Some) (io_scheduled m))"

text \<open>An event context is used exactly while its event is registered.\<close>

definition event_ok :: "bool \<Rightarrow> 'c event_context \<Rightarrow> bool" where
  "event_ok registered ec \<longleftrightarrow>
     (if registered
      then (ec_fiber ec = None) \<noteq> (ec_callback ec = None)
      else ec = empty_event)"

definition ctx_ok :: "'c fd_context \<Rightarrow> bool" where
  "ctx_ok c \<longleftrightarrow> fc_events c \<in> {0, 1, 4, 5} \<and>
     event_ok (fc_events c \<in> {1, 5}) (fc_read c) \<and>
     event_ok (fc_events c \<in> {4, 5}) (fc_write c)"

definition io_ok :: "('c, 'k) io_manager \<Rightarrow> bool" where
  "io_ok m \<longleftrightarrow> (\<forall>a < io_next m. ctx_ok (io_heap m a)) \<and>
     (\<forall>a \<in> set (io_contexts m). a < io_next m)"

lemma empty_event_waiters [simp]: "event_waiters empty_event = {#}"
  by (simp add: event_waiters_def empty_event_def)

lemma new_fd_context_ok [simp]:
  "ctx_ok (new_fd_context fd)" "ctx_waiters (new_fd_context fd) = {#}"
  by (simp_all add: ctx_ok_def event_ok_def new_fd_context_def ctx_waiters_def)

lemma waiting_put:
  assumes "a < io_next m"
  shows "waiting (put_context a c m) + ctx_waiters (io_heap m a) = waiting m + ctx_waiters c"
proof -
  have "(\<Sum>x \<in> {..<io_next m} - {a}. ctx_waiters (((io_heap m)(a := c)) x)) =
        (\<Sum>x \<in> {..<io_next m} - {a}. ctx_waiters (io_heap m x))"
    by (rule sum.cong) auto
  then show ?thesis
    using assms by (simp add: waiting_def put_context_def sum.remove [of _ a] del: fun_upd_apply)
      (simp add: fun_upd_same)
qed

lemma put_context_ok: "io_ok m \<Longrightarrow> ctx_ok c \<Longrightarrow> io_ok (put_context a c m)"
  by (simp add: io_ok_def put_context_def)

lemma put_context_simps [simp]:
  "io_next (put_context a c m) = io_next m"
  "io_contexts (put_context a c m) = io_contexts m"
  "io_pending (put_context a c m) = io_pending m"
  "io_scheduled (put_context a c m) = io_scheduled m"
  "io_heap (put_context a c m) a = c"
  by (simp_all add: put_context_def)

lemma waiting_other [simp]:
  "waiting (m\<lparr>io_kernel := k\<rparr>) = waiting m"
  "waiting (m\<lparr>io_pending := p\<rparr>) = waiting m"
  "waiting (m\<lparr>io_scheduled := q\<rparr>) = waiting m"
  "waiting (m\<lparr>io_timers := tms\<rparr>) = waiting m"
  by (simp_all add: waiting_def)

lemma io_ok_other [simp]:
  "io_ok (m\<lparr>io_kernel := k\<rparr>) = io_ok m"
  "io_ok (m\<lparr>io_pending := p\<rparr>) = io_ok m"
  "io_ok (m\<lparr>io_scheduled := q\<rparr>) = io_ok m"
  "io_ok (m\<lparr>io_timers := tms\<rparr>) = io_ok m"
  by (simp_all add: io_ok_def)

lemma waiting_contextResize [simp]: "waiting (contextResize n m) = waiting m"
proof -
  let ?m = "contextResize n m"
  have split: "{..<io_next ?m} = {..<io_next m} \<union> {io_next m..<io_next ?m}"
    by (auto simp: contextResize_def Let_def)
  have "waiting ?m = (\<Sum>a \<in> {..<io_next m}. ctx_waiters (io_heap ?m a)) +
      (\<Sum>a \<in> {io_next m..<io_next ?m}. ctx_waiters (io_heap ?m a))"
    unfolding waiting_def split by (rule sum.union_disjoint) auto
  also have "(\<Sum>a \<in> {io_next m..<io_next ?m}. ctx_waiters (io_heap ?m a)) = {#}"
    by (rule sum.neutral) (auto simp: contextResize_def Let_def)
  also have "(\<Sum>a \<in> {..<io_next m}. ctx_waiters (io_heap ?m a)) = waiting m"
    unfolding waiting_def by (rule sum.cong) (auto simp: contextResize_def Let_def)
  finally show ?thesis by simp
qed

lemma contextResize_ok: "io_ok m \<Longrightarrow> io_ok (contextResize n m)"
  by (force simp: io_ok_def contextResize_def Let_def dest: in_set_takeD)

lemma contextResize_simps [simp]:
  "io_pending (contextResize n m) = io_pending m"
  "io_scheduled (contextResize n m) = io_scheduled m"
  "io_next m \<le> io_next (contextResize n m)"
  by (simp_all add: contextResize_def Let_def)

section \<open>What each operation does to the waiters\<close>

lemma ctx_ok_cases:
  assumes "ctx_ok c"
  obtains "fc_events c = 0" "fc_read c = empty_event" "fc_write c = empty_event"
  | "fc_events c = 1" "event_ok True (fc_read c)" "fc_write c = empty_event"
  | "fc_events c = 4" "fc_read c = empty_event" "event_ok True (fc_write c)"
  | "fc_events c = 5" "event_ok True (fc_read c)" "event_ok True (fc_write c)"
  using assms by (auto simp: ctx_ok_def event_ok_def)

definition the_event :: "u32 \<Rightarrow> 'c fd_context \<Rightarrow> 'c event_context" where
  "the_event event c = (if event = READ_EV then fc_read c else fc_write c)"

lemma getContext_Inr:
  "getContext event c = Inr ctx \<longleftrightarrow> (event = 1 \<or> event = 4) \<and> ctx = the_event event c"
  by (auto simp: getContext_def the_event_def event_masks)

text \<open>Adding a waiter to a context whose event is free.\<close>

lemma event_ok_empty [simp]: "event_ok False empty_event"
  by (simp add: event_ok_def)

lemma setContext_simps [simp]:
  "fc_events (setContext event ec c) = fc_events c"
  "fc_read (setContext 1 ec c) = ec" "fc_write (setContext 1 ec c) = fc_write c"
  "fc_read (setContext 4 ec c) = fc_read c" "fc_write (setContext 4 ec c) = ec"
  by (simp_all add: setContext_def READ_EV_def)

lemma the_event_simps [simp]: "the_event 1 c = fc_read c" "the_event 4 c = fc_write c"
  by (simp_all add: the_event_def READ_EV_def)

lemma set_free_event:
  assumes c: "ctx_ok c" and free: "fc_events c AND event = 0"
    and e: "event = 1 \<or> event = 4" and ec: "event_ok True ec"
  shows "ctx_ok (setContext event ec (c\<lparr>fc_events := fc_events c OR event\<rparr>)) \<and>
    ctx_waiters (setContext event ec (c\<lparr>fc_events := fc_events c OR event\<rparr>)) =
    ctx_waiters c + event_waiters ec"
  using e
proof
  assume k: "event = 1"
  show ?thesis
    using c k ec free by (cases rule: ctx_ok_cases) (simp_all add: ctx_waiters_def ctx_ok_def)
next
  assume k: "event = 4"
  show ?thesis
    using c k ec free by (cases rule: ctx_ok_cases) (simp_all add: ctx_waiters_def ctx_ok_def)
qed

text \<open>Emptying an event context whose event is registered, or is not.\<close>

lemma set_empty_event:
  assumes c: "ctx_ok c" and e: "event = 1 \<or> event = 4"
  shows "ctx_ok (setContext event empty_event (c\<lparr>fc_events := fc_events c AND NOT event\<rparr>)) \<and>
    ctx_waiters c =
      ctx_waiters (setContext event empty_event (c\<lparr>fc_events := fc_events c AND NOT event\<rparr>)) +
      event_waiters (the_event event c)"
  using e
proof
  assume k: "event = 1"
  show ?thesis
    using c k by (cases rule: ctx_ok_cases) (simp_all add: ctx_waiters_def ctx_ok_def)
next
  assume k: "event = 4"
  show ?thesis
    using c k by (cases rule: ctx_ok_cases) (simp_all add: ctx_waiters_def ctx_ok_def)
qed

lemma event_ok_size: "event_ok True ec \<Longrightarrow> size (event_waiters ec) = 1"
  by (auto simp: event_ok_def event_waiters_def split: option.splits)

lemma registered_waiters:
  assumes c: "ctx_ok c" and e: "event = 1 \<or> event = 4"
  shows "size (event_waiters (the_event event c)) = (if fc_events c AND event = 0 then 0 else 1)"
  using e
proof
  assume k: "event = 1"
  show ?thesis
    using c k by (cases rule: ctx_ok_cases) (simp_all add: event_ok_size)
next
  assume k: "event = 4"
  show ?thesis
    using c k by (cases rule: ctx_ok_cases) (simp_all add: event_ok_size)
qed

lemma registered_event_ok:
  assumes c: "ctx_ok c" and e: "event = 1 \<or> event = 4" and r: "fc_events c AND event \<noteq> 0"
  shows "event_ok True (the_event event c)"
  using e
proof
  assume k: "event = 1"
  show ?thesis
    using c k r by (cases rule: ctx_ok_cases) simp_all
next
  assume k: "event = 4"
  show ?thesis
    using c k r by (cases rule: ctx_ok_cases) simp_all
qed

lemma resetContext_empty: "resetContext ec = empty_event"
  by (simp add: resetContext_def empty_event_def)

lemma triggerEvent_Inr:
  assumes "triggerEvent event c = Inr (c', tasks)" and "ctx_ok c"
  shows "ctx_ok c' \<and> ctx_waiters c = ctx_waiters c' + mset (map (apfst Some) tasks) \<and>
    length tasks = 1 \<and> (event = 1 \<or> event = 4) \<and> fc_events c AND event \<noteq> 0 \<and>
    fc_events c' = fc_events c AND NOT event"
proof -
  let ?c = "c\<lparr>fc_events := fc_events c AND NOT event\<rparr>"
  have ev: "fc_events c AND event \<noteq> 0"
    using assms(1) by (auto simp: triggerEvent_def split: if_splits)
  then obtain ctx where g: "getContext event ?c = Inr ctx"
    using assms(1) by (auto simp: triggerEvent_def Let_def bindE_Inr_iff)
  then have e: "event = 1 \<or> event = 4" and ctx: "ctx = the_event event c"
    by (auto simp: getContext_Inr the_event_def)
  have ok: "event_ok True ctx"
    using registered_event_ok [OF assms(2) e ev] ctx by simp
  obtain sch where s: "ec_scheduler ctx = Some sch"
    using assms(1) ev g by (auto simp: triggerEvent_def Let_def split: option.splits)
  have "c' = setContext event empty_event ?c \<and> mset (map (apfst Some) tasks) = event_waiters ctx \<and>
    length tasks = 1"
  proof (cases "ec_callback ctx")
    case (Some cb)
    then have "ctx\<lparr>ec_callback := None, ec_scheduler := None\<rparr> = empty_event"
      using ok by (simp add: event_ok_def empty_event_def)
    then show ?thesis
      using assms(1) ev s Some g by (auto simp: triggerEvent_def Let_def event_waiters_def)
  next
    case None
    then obtain f where f: "ec_fiber ctx = Some f" using ok by (auto simp: event_ok_def)
    have "ctx\<lparr>ec_fiber := None, ec_scheduler := None\<rparr> = empty_event"
      using None by (simp add: empty_event_def)
    then show ?thesis
      using assms(1) ev s None f g by (auto simp: triggerEvent_def Let_def event_waiters_def)
  qed
  then show ?thesis
    using set_empty_event [OF assms(2) e] ev e ctx by simp
qed

lemma trigger_at_Inr:
  assumes "trigger_at a event m = Inr m'" and "io_ok m" and "a < io_next m"
  shows "io_ok m' \<and> waiting m' + scheduled m' = waiting m + scheduled m \<and>
    size (waiting m) = Suc (size (waiting m')) \<and> io_pending m' = io_pending m - 1 \<and>
    io_next m' = io_next m \<and> fc_events (io_heap m a) AND event \<noteq> 0 \<and>
    fc_events (io_heap m' a) = fc_events (io_heap m a) AND NOT event"
proof -
  obtain c tasks where t: "triggerEvent event (io_heap m a) = Inr (c, tasks)"
    and m': "m' = (put_context a c m)\<lparr>io_pending := io_pending m - 1,
                               io_scheduled := io_scheduled m @ tasks\<rparr>"
    using assms(1) by (auto simp: trigger_at_def bindE_Inr_iff)
  have "ctx_ok (io_heap m a)" using assms(2,3) by (simp add: io_ok_def)
  note tr = triggerEvent_Inr [OF t this]
  have w: "waiting (put_context a c m) + mset (map (apfst Some) tasks) = waiting m"
    using waiting_put [OF assms(3), of c] tr by (simp add: ac_simps)
  then have "size (waiting m) = Suc (size (waiting (put_context a c m)))"
    using tr by (metis One_nat_def add.right_neutral add_Suc_right size_union size_mset length_map)
  then show ?thesis
    using w tr assms(2) by (simp add: m' put_context_ok scheduled_def ac_simps flip: w)
qed

text \<open>By how much \<open>_pendingEventCount\<close> is below the number of waiters.\<close>

definition undercount :: "('c, 'k) io_manager \<Rightarrow> u64" where
  "undercount m = of_nat (size (waiting m)) - io_pending m"

text \<open>What a step that only hands waiters to their schedulers does.\<close>

definition hands_over :: "('c, 'k) io_manager \<Rightarrow> ('c, 'k) io_manager \<Rightarrow> bool" where
  "hands_over m m' \<longleftrightarrow> io_ok m' \<and> waiting m' + scheduled m' = waiting m + scheduled m \<and>
     undercount m' = undercount m \<and> io_next m' = io_next m"

lemma hands_over_refl [simp]:
  "io_ok m \<Longrightarrow> hands_over m m"
  "io_ok m \<Longrightarrow> hands_over m (m\<lparr>io_kernel := k\<rparr>)"
  by (simp_all add: hands_over_def undercount_def scheduled_def)

lemma hands_over_kernel [simp]: "hands_over (m\<lparr>io_kernel := k\<rparr>) m' = hands_over m m'"
  by (simp add: hands_over_def undercount_def scheduled_def)

lemma hands_over_trans: "hands_over m m1 \<Longrightarrow> hands_over m1 m2 \<Longrightarrow> hands_over m m2"
  by (simp add: hands_over_def)

lemma trigger_hands_over:
  assumes "trigger_at a event m = Inr m'" and "io_ok m" and "a < io_next m"
  shows "hands_over m m'"
  using trigger_at_Inr [OF assms] by (simp add: hands_over_def undercount_def)

lemma trigger_if_hands_over:
  assumes "trigger_if bits a event m = Inr m'" and "io_ok m" and "a < io_next m"
  shows "hands_over m m'"
  using assms trigger_hands_over by (auto simp: trigger_if_def split: if_splits)

lemma trigger_twice_hands_over:
  assumes t1: "trigger_if b1 a e1 m = Inr m2" and t2: "trigger_if b2 a e2 m2 = Inr m'"
    and m: "io_ok m" "a < io_next m"
  shows "hands_over m m'"
proof -
  have h: "hands_over m m2" by (rule trigger_if_hands_over [OF t1 m])
  then have "hands_over m2 m'"
    using trigger_if_hands_over [OF t2] m by (simp add: hands_over_def)
  with h show ?thesis by (rule hands_over_trans)
qed

lemma cancelEvent_at_hands_over:
  assumes "cancelEvent_at ctl a fd event m = Inr (ok, m')" and "io_ok m" and "a < io_next m"
  shows "hands_over m m'"
proof -
  from assms(1) consider "m' = m" | k where "m' = m\<lparr>io_kernel := k\<rparr>"
    | k where "trigger_at a event (m\<lparr>io_kernel := k\<rparr>) = Inr m'"
    by (auto simp: cancelEvent_at_def Let_def bindE_Inr_iff split: if_splits prod.splits)
  then show ?thesis
    using assms(2,3) trigger_hands_over by cases fastforce+
qed

lemma cancelAll_at_hands_over:
  assumes "cancelAll_at ctl a fd m = Inr (ok, m')" and "io_ok m" and "a < io_next m"
  shows "hands_over m m'"
proof -
  from assms(1) consider "m' = m" | k where "m' = m\<lparr>io_kernel := k\<rparr>"
    | k b1 b2 m2 where "trigger_if b1 a READ_EV (m\<lparr>io_kernel := k\<rparr>) = Inr m2"
        "trigger_if b2 a WRITE_EV m2 = Inr m'"
    by (auto simp: cancelAll_at_def Let_def bindE_Inr_iff split: if_splits prod.splits)
  then show ?thesis
  proof cases
    case 3
    then show ?thesis using trigger_twice_hands_over [OF 3] assms(2,3) by simp
  qed (use assms(2) in auto)
qed

lemma ready_at_hands_over:
  assumes "ready_at ctl a evs m = Inr m'" and "io_ok m" and "a < io_next m"
  shows "hands_over m m'"
proof -
  define real where "real = real_events (fc_events (io_heap m a)) evs"
  from assms(1) consider "m' = m" | k where "m' = m\<lparr>io_kernel := k\<rparr>"
    | k m2 where "trigger_if real a READ_EV (m\<lparr>io_kernel := k\<rparr>) = Inr m2"
        "trigger_if real a WRITE_EV m2 = Inr m'"
    unfolding ready_at_def Let_def real_def [symmetric]
    by (auto simp: bindE_Inr_iff simp del: split_paired_Ex split: if_split_asm prod.split_asm)
  then show ?thesis
  proof cases
    case 3
    then show ?thesis using trigger_twice_hands_over [OF 3] assms(2,3) by simp
  qed (use assms(2) in auto)
qed

text \<open>\<open>addEvent\<close> adds one waiter when it returns 0, and none when it returns -1.\<close>

definition new_waiter :: "'c callback option \<Rightarrow> nat option \<Rightarrow> nat \<Rightarrow> 'c waiter" where
  "new_waiter cb this fiber =
     (this, case cb of Some f \<Rightarrow> TaskCall f | None \<Rightarrow> TaskFiber fiber)"

lemma addEvent_at_Inr:
  fixes m :: "('c, 'k) io_manager" and a :: nat and event :: u32
  defines "c \<equiv> io_heap m a"
  defines "c2 \<equiv> c\<lparr>fc_events := fc_events c OR event\<rparr>"
  assumes add: "addEvent_at ctl a fd event cb this fiber exec m = Inr (ret, m')"
    and k: "ctl (io_kernel m) (if fc_events c \<noteq> 0 then CtlMod else CtlAdd) fd
      (EPOLLET OR fc_events c OR event) a = (r, k)"
  shows "(r \<noteq> 0 \<and> ret = -1 \<and> m' = m\<lparr>io_kernel := k\<rparr>) \<or>
    (\<exists>ec. r = 0 \<and> ret = 0 \<and> (event = 1 \<or> event = 4) \<and> event_ok True ec \<and>
        event_waiters ec = {#new_waiter cb this fiber#} \<and>
        m' = put_context a (setContext event ec c2)
           (m\<lparr>io_kernel := k, io_pending := io_pending m + 1\<rparr>))"
proof -
  have free: "fc_events c AND event = 0"
    using add unfolding addEvent_at_def Let_def c_def by (rule contrapos_pp) simp
  show ?thesis
  proof (cases "r = 0")
    case True
    obtain ctx where g: "getContext event c2 = Inr ctx"
      using add free k True by (auto simp: addEvent_at_def Let_def c2_def c_def bindE_Inr_iff)
    then have e: "event = 1 \<or> event = 4" by (simp add: getContext_Inr)
    have em: "ec_scheduler ctx = None \<and> ec_fiber ctx = None \<and> ec_callback ctx = None"
      using add free k True g by (auto simp: addEvent_at_def Let_def c2_def c_def split: if_splits)
    show ?thesis
    proof (cases cb)
      case None
      then show ?thesis
        using add free k True g em e
        by (intro disjI2 exI [of _ "ctx\<lparr>ec_scheduler := this, ec_fiber := Some fiber\<rparr>"])
          (simp add: addEvent_at_def Let_def c2_def c_def event_ok_def event_waiters_def new_waiter_def
            split: if_splits)
    next
      case (Some f)
      then show ?thesis
        using add free k True g em e
        by (intro disjI2 exI [of _ "ctx\<lparr>ec_scheduler := this, ec_callback := Some f\<rparr>"])
          (simp add: addEvent_at_def Let_def c2_def c_def event_ok_def event_waiters_def new_waiter_def)
    qed
  qed (use add free k in \<open>simp add: addEvent_at_def Let_def c2_def c_def\<close>)
qed

lemma addEvent_at_waiting:
  assumes "addEvent_at ctl a fd event cb this fiber exec m = Inr (ret, m')"
    and "io_ok m" and a: "a < io_next m"
  shows "io_ok m' \<and> scheduled m' = scheduled m \<and> undercount m' = undercount m \<and>
    io_next m' = io_next m \<and> (ret = 0 \<or> ret = -1) \<and>
    waiting m' = waiting m + (if ret = 0 then {#new_waiter cb this fiber#} else {#})"
proof -
  let ?c = "io_heap m a"
  let ?c2 = "?c\<lparr>fc_events := fc_events ?c OR event\<rparr>"
  have c: "ctx_ok ?c" using assms(2) a by (simp add: io_ok_def)
  have free: "fc_events ?c AND event = 0"
    using assms(1) unfolding addEvent_at_def Let_def by (rule contrapos_pp) simp
  let ?op = "if fc_events ?c \<noteq> 0 then CtlMod else CtlAdd"
  obtain r k where k: "ctl (io_kernel m) ?op fd (EPOLLET OR fc_events ?c OR event) a = (r, k)"
    by fastforce
  from addEvent_at_Inr [OF assms(1) k] consider "ret = -1" "m' = m\<lparr>io_kernel := k\<rparr>"
    | ec where "ret = 0" "event = 1 \<or> event = 4" "event_ok True ec"
        "event_waiters ec = {#new_waiter cb this fiber#}"
        "m' = put_context a (setContext event ec ?c2)
           (m\<lparr>io_kernel := k, io_pending := io_pending m + 1\<rparr>)"
    by blast
  then show ?thesis
  proof cases
    case 1
    then show ?thesis using assms(2) by (simp add: scheduled_def undercount_def)
  next
    case 2
    let ?m = "m\<lparr>io_kernel := k, io_pending := io_pending m + 1\<rparr>"
    note s = set_free_event [OF c free 2(2,3)]
    have "waiting m' + ctx_waiters ?c = waiting m + ctx_waiters (setContext event ec ?c2)"
      using waiting_put [of a ?m "setContext event ec ?c2"] a 2(5) by simp
    then have "waiting m' = waiting m + {#new_waiter cb this fiber#}"
      using s 2(4) by (simp add: ac_simps)
    moreover have "io_ok m'"
      unfolding 2(5) by (rule put_context_ok) (use assms(2) s in simp_all)
    ultimately show ?thesis
      using 2(1,5) by (simp add: scheduled_def undercount_def)
  qed
qed

text \<open>\<open>delEvent\<close> takes the waiter of the event away; when it returns true although there was none, the
  count falls behind by one.\<close>

lemma delEvent_at_waiting:
  assumes "delEvent_at ctl a fd event m = Inr (ok, m')" and "io_ok m" and a: "a < io_next m"
  defines "w \<equiv> event_waiters (the_event event (io_heap m a))"
  shows "io_ok m' \<and> scheduled m' = scheduled m \<and> io_next m' = io_next m \<and>
    (\<not> ok \<longrightarrow> waiting m' = waiting m \<and> undercount m' = undercount m) \<and>
    (ok \<longrightarrow> waiting m = waiting m' + w \<and>
      undercount m' = undercount m + (if w = {#} then 1 else 0))"
proof -
  let ?c = "io_heap m a"
  let ?c2 = "?c\<lparr>fc_events := fc_events ?c AND NOT event\<rparr>"
  have c: "ctx_ok ?c" using assms(2) a by (simp add: io_ok_def)
  from assms(1) consider "\<not> ok" "m' = m" | k where "\<not> ok" "m' = m\<lparr>io_kernel := k\<rparr>"
    | k where "ok" "event = 1 \<or> event = 4"
        "m' = put_context a (setContext event empty_event ?c2)
           (m\<lparr>io_kernel := k, io_pending := io_pending m - 1\<rparr>)"
    by (auto simp: delEvent_at_def Let_def bindE_Inr_iff getContext_Inr resetContext_empty
        split: if_splits prod.splits)
  then show ?thesis
  proof cases
    case 3
    let ?m = "m\<lparr>io_kernel := k, io_pending := io_pending m - 1\<rparr>"
    note s = set_empty_event [OF c 3(2)]
    have "waiting m' + ctx_waiters ?c = waiting m + ctx_waiters (setContext event empty_event ?c2)"
      using waiting_put [of a ?m "setContext event empty_event ?c2"] a 3(3) by simp
    then have w: "waiting m = waiting m' + w"
      using s by (simp add: ac_simps w_def)
    moreover have "size w = (if w = {#} then 0 else 1)"
      using registered_waiters [OF c 3(2)] by (auto simp: w_def split: if_splits)
    moreover have "io_ok m'"
      unfolding 3(3) by (rule put_context_ok) (use assms(2) s in simp_all)
    ultimately show ?thesis
      using 3(1,3) by (simp add: scheduled_def undercount_def split: if_splits)
  qed (use assms(2) in \<open>simp_all add: scheduled_def undercount_def\<close>)
qed


section \<open>Threads\<close>

text \<open>
  Each thread is outside the manager, about to take the writer lock, or holds the context of its
  call. \<open>sy_added\<close>, \<open>sy_removed\<close> and \<open>sy_expired\<close> are what the calls registered, what \<open>delEvent\<close>
  took away and what the timers scheduled; \<open>sy_bogus\<close> counts the calls of \<open>delEvent\<close> that return
  true for an event nobody waits for.
\<close>

datatype 'c io_call =
    AddCall u32 "'c callback option" "nat option" nat bool
  | DelCall u32
  | CancelCall u32
  | CancelAllCall

datatype 'c io_pc = Outside | Growing int "'c io_call" | Found int "'c io_call" nat

record ('c, 'k) io_system =
  sy_io :: "('c, 'k) io_manager"
  sy_pc :: "nat \<Rightarrow> 'c io_pc"
  sy_added :: "'c waiter multiset"
  sy_removed :: "'c waiter multiset"
  sy_expired :: "'c waiter multiset"
  sy_bogus :: nat

definition new_io_system :: "nat \<Rightarrow> u64 \<Rightarrow> 'k \<Rightarrow> ('c, 'k) io_system" where
  "new_io_system self now k =
     \<lparr>sy_io = new_io_manager self now k, sy_pc = (\<lambda>_. Outside), sy_added = {#}, sy_removed = {#},
      sy_expired = {#}, sy_bogus = 0\<rparr>"

fun call_lookup :: "int \<Rightarrow> 'c io_call \<Rightarrow> ('c, 'k) io_manager \<Rightarrow> nat option res" where
  "call_lookup fd (AddCall _ _ _ _ _) m = addEvent_lookup fd m"
| "call_lookup fd (DelCall _) m = delEvent_lookup fd m"
| "call_lookup fd (CancelCall _) m = Inr (cancel_lookup fd m)"
| "call_lookup fd CancelAllCall m = Inr (cancel_lookup fd m)"

text \<open>The part of a call under the context's lock, with the log of what it did.\<close>

fun run_call ::
  "'k epoll_ctl \<Rightarrow> nat \<Rightarrow> int \<Rightarrow> 'c io_call \<Rightarrow> ('c, 'k) io_system \<Rightarrow> ('c, 'k) io_system res" where
  "run_call ctl a fd (AddCall event cb this fiber exec) s =
     bindE (addEvent_at ctl a fd event cb this fiber exec (sy_io s)) (\<lambda>(ret, m).
       Inr (s\<lparr>sy_io := m,
              sy_added := sy_added s + (if ret = 0 then {#new_waiter cb this fiber#} else {#})\<rparr>))"
| "run_call ctl a fd (DelCall event) s =
     bindE (delEvent_at ctl a fd event (sy_io s)) (\<lambda>(ok, m).
       let w = event_waiters (the_event event (io_heap (sy_io s) a))
       in Inr (if ok
               then s\<lparr>sy_io := m, sy_removed := sy_removed s + w,
                      sy_bogus := sy_bogus s + (if w = {#} then 1 else 0)\<rparr>
               else s\<lparr>sy_io := m\<rparr>))"
| "run_call ctl a fd (CancelCall event) s =
     bindE (cancelEvent_at ctl a fd event (sy_io s)) (\<lambda>(ok, m). Inr (s\<lparr>sy_io := m\<rparr>))"
| "run_call ctl a fd CancelAllCall s =
     bindE (cancelAll_at ctl a fd (sy_io s)) (\<lambda>(ok, m). Inr (s\<lparr>sy_io := m\<rparr>))"

text \<open>
  The steps: a thread looks the context up, grows the vector, works on the context; the idle
  fiber handles one ready event of a context, or schedules the timers that are due; anything is
  done to the timers.
\<close>

inductive io_step ::
  "'k epoll_ctl \<Rightarrow> ('c, 'k) io_system \<Rightarrow> ('c, 'k) io_system \<Rightarrow> bool" for ctl :: "'k epoll_ctl" where
  look: "sy_pc s t = Outside \<Longrightarrow> call_lookup fd call (sy_io s) = Inr (Some a) \<Longrightarrow>
    io_step ctl s (s\<lparr>sy_pc := (sy_pc s)(t := Found fd call a)\<rparr>)"
| too_small: "sy_pc s t = Outside \<Longrightarrow> call = AddCall event cb this fiber exec \<Longrightarrow>
    call_lookup fd call (sy_io s) = Inr None \<Longrightarrow>
    io_step ctl s (s\<lparr>sy_pc := (sy_pc s)(t := Growing fd call)\<rparr>)"
| grow: "sy_pc s t = Growing fd call \<Longrightarrow> addEvent_grow fd (sy_io s) = Inr (a, m) \<Longrightarrow>
    io_step ctl s (s\<lparr>sy_io := m, sy_pc := (sy_pc s)(t := Found fd call a)\<rparr>)"
| run: "sy_pc s t = Found fd call a \<Longrightarrow> run_call ctl a fd call s = Inr s1 \<Longrightarrow>
    io_step ctl s (s1\<lparr>sy_pc := (sy_pc s)(t := Outside)\<rparr>)"
| event: "a < io_next (sy_io s) \<Longrightarrow> ready_at ctl a evs (sy_io s) = Inr m \<Longrightarrow>
    io_step ctl s (s\<lparr>sy_io := m\<rparr>)"
| expire: "listExpiredCb now addr (io_timers (sy_io s)) = (cbs, tms) \<Longrightarrow>
    io_step ctl s (s\<lparr>sy_io := schedule_expired addr now (sy_io s),
      sy_expired := sy_expired s +
        mset (map (\<lambda>cb. (Some (io_self (sy_io s)), TaskCall cb))
               (map the (filter (\<lambda>cb. cb \<noteq> None) cbs)))\<rparr>)"
| timers: "io_step ctl s (s\<lparr>sy_io := (sy_io s)\<lparr>io_timers := tms\<rparr>\<rparr>)"

definition system_ok :: "('c, 'k) io_system \<Rightarrow> bool" where
  "system_ok s \<longleftrightarrow> io_ok (sy_io s) \<and>
     (\<forall>t fd call a. sy_pc s t = Found fd call a \<longrightarrow> a < io_next (sy_io s)) \<and>
     sy_added s + sy_expired s = waiting (sy_io s) + scheduled (sy_io s) + sy_removed s \<and>
     undercount (sy_io s) = of_nat (sy_bogus s)"

lemma new_io_manager_ok: "io_ok (new_io_manager self now k)"
  unfolding new_io_manager_def by (rule contextResize_ok) (simp add: io_ok_def)

lemma new_io_system_ok: "system_ok (new_io_system self now k)"
proof -
  show ?thesis
    using new_io_manager_ok [of self now k]
    by (simp add: system_ok_def new_io_system_def new_io_manager_def undercount_def scheduled_def)
      (simp add: waiting_def)
qed

lemma lookup_allocated:
  assumes "call_lookup fd call m = Inr (Some a)" and "io_ok m"
  shows "a < io_next m"
proof -
  have "a \<in> set (io_contexts m)"
    using assms(1)
    by (cases call)
      (auto simp: addEvent_lookup_def delEvent_lookup_def cancel_lookup_def split: if_splits)
  then show ?thesis using assms(2) by (simp add: io_ok_def)
qed

lemma addEvent_grow_Inr:
  assumes "addEvent_grow fd m = Inr (a, m')" and "io_ok m"
  shows "io_ok m' \<and> a < io_next m' \<and> io_next m \<le> io_next m' \<and> waiting m' = waiting m \<and>
    scheduled m' = scheduled m \<and> undercount m' = undercount m"
proof -
  have m': "m' = contextResize (nat (fd * 3 div 2)) m" and "a \<in> set (io_contexts m')"
    using assms(1) by (auto simp: addEvent_grow_def Let_def split: if_splits)
  moreover have "io_ok m'" using m' assms(2) contextResize_ok by blast
  ultimately show ?thesis
    by (simp add: io_ok_def scheduled_def undercount_def)
qed

lemma run_call_ok:
  assumes "run_call ctl a fd call s = Inr s'" and "system_ok s" and a: "a < io_next (sy_io s)"
  shows "system_ok s' \<and> sy_pc s' = sy_pc s \<and> io_next (sy_io s') = io_next (sy_io s)"
proof -
  have io: "io_ok (sy_io s)" using assms(2) by (simp add: system_ok_def)
  show ?thesis
  proof (cases call)
    case (AddCall event cb this fiber exec)
    then obtain ret m where
      add: "addEvent_at ctl a fd event cb this fiber exec (sy_io s) = Inr (ret, m)"
      and s': "s' = s\<lparr>sy_io := m,
        sy_added := sy_added s + (if ret = 0 then {#new_waiter cb this fiber#} else {#})\<rparr>"
      using assms(1) by (auto simp: bindE_Inr_iff)
    show ?thesis
      using addEvent_at_waiting [OF add io a] assms(2) s'
      by (auto simp: system_ok_def ac_simps)
  next
    case (DelCall event)
    then obtain ok m where del: "delEvent_at ctl a fd event (sy_io s) = Inr (ok, m)"
      using assms(1) by (auto simp: bindE_Inr_iff)
    show ?thesis
      using delEvent_at_waiting [OF del io a] assms(1,2) del DelCall
      by (cases ok) (auto simp: system_ok_def Let_def ac_simps)
  next
    case (CancelCall event)
    then obtain ok m where c: "cancelEvent_at ctl a fd event (sy_io s) = Inr (ok, m)"
      and s': "s' = s\<lparr>sy_io := m\<rparr>"
      using assms(1) by (auto simp: bindE_Inr_iff)
    show ?thesis
      using cancelEvent_at_hands_over [OF c io a] assms(2) s'
      by (simp add: system_ok_def hands_over_def)
  next
    case CancelAllCall
    then obtain ok m where c: "cancelAll_at ctl a fd (sy_io s) = Inr (ok, m)"
      and s': "s' = s\<lparr>sy_io := m\<rparr>"
      using assms(1) by (auto simp: bindE_Inr_iff)
    show ?thesis
      using cancelAll_at_hands_over [OF c io a] assms(2) s'
      by (simp add: system_ok_def hands_over_def)
  qed
qed

lemma io_step_ok: "io_step ctl s s' \<Longrightarrow> system_ok s \<Longrightarrow> system_ok s'"
proof (induction rule: io_step.induct)
  case (look s t fd call a)
  then show ?case
    using lookup_allocated [of fd call "sy_io s" a] by (auto simp: system_ok_def)
next
  case (too_small s t call event cb this fiber exec fd)
  then show ?case by (auto simp: system_ok_def)
next
  case (grow s t fd call a m)
  then show ?case
    using addEvent_grow_Inr [of fd "sy_io s" a m] by (fastforce simp: system_ok_def)
next
  case (run s t fd call a s1)
  then have "a < io_next (sy_io s)" by (auto simp: system_ok_def)
  then show ?case
    using run_call_ok [of ctl a fd call s s1] run by (auto simp: system_ok_def)
next
  case (event a s evs m)
  then show ?case
    using ready_at_hands_over [of ctl a evs "sy_io s" m]
    by (auto simp: system_ok_def hands_over_def)
next
  case (expire now addr s cbs tms)
  then show ?case
    by (auto simp: system_ok_def schedule_expired_def schedule_all_def scheduled_def
        undercount_def comp_def ac_simps)
next
  case (timers s tms)
  then show ?case by (simp add: system_ok_def scheduled_def undercount_def)
qed

lemma io_reachable_ok: "(io_step ctl)\<^sup>*\<^sup>* (new_io_system self now k) s \<Longrightarrow> system_ok s"
  by (induction rule: rtranclp_induct) (auto intro: io_step_ok new_io_system_ok)

lemma reachable_pending:
  assumes "(io_step ctl)\<^sup>*\<^sup>* (new_io_system self now k) s"
  shows "io_pending (sy_io s) = of_nat (size (waiting (sy_io s))) - of_nat (sy_bogus s)"
proof -
  have "of_nat (size (waiting (sy_io s))) - io_pending (sy_io s) = of_nat (sy_bogus s)"
    using io_reachable_ok [OF assms] by (simp add: system_ok_def undercount_def)
  then show ?thesis by (simp add: algebra_simps)
qed


section \<open>Properties\<close>

text \<open>C8: whatever the threads do and in whatever order, every fiber or callback registered by
  \<open>addEvent\<close> is still waiting, was handed to its scheduler once, or was taken away by \<open>delEvent\<close>;
  \<open>_pendingEventCount\<close> is the number of waiters less the number of deletions of events that were
  not registered. Without such deletions the manager does not stop while something waits.\<close>

theorem no_waiter_lost:
  assumes "(io_step ctl)\<^sup>*\<^sup>* (new_io_system self now k) s"
  shows "sy_added s + sy_expired s = waiting (sy_io s) + scheduled (sy_io s) + sy_removed s \<and>
    io_pending (sy_io s) = of_nat (size (waiting (sy_io s))) - of_nat (sy_bogus s) \<and>
    (sy_bogus s = 0 \<longrightarrow> size (waiting (sy_io s)) < 2 ^ 64 \<longrightarrow>
     fst (fst (io_stopping now' sched (sy_io s))) \<longrightarrow> waiting (sy_io s) = {#})"
proof -
  have "waiting (sy_io s) = {#}"
    if "sy_bogus s = 0" "size (waiting (sy_io s)) < 2 ^ 64"
      "fst (fst (io_stopping now' sched (sy_io s)))"
  proof -
    have "(of_nat (size (waiting (sy_io s))) :: u64) = 0"
      using reachable_pending [OF assms] that(1,3)
      by (auto simp: io_stopping_def Let_def split: prod.splits)
    then have "unat (of_nat (size (waiting (sy_io s))) :: u64) = 0" by simp
    then show ?thesis
      using that(2) by (simp add: unsigned_of_nat take_bit_nat_eq_self)
  qed
  then show ?thesis
    using io_reachable_ok [OF assms] reachable_pending [OF assms] by (simp add: system_ok_def)
qed

lemma one_call_reaches:
  fixes call :: "'c io_call" and s :: "('c, 'k) io_system"
  assumes "sy_pc s 0 = Outside" "call_lookup fd call (sy_io s) = Inr (Some a)"
    and "run_call ctl a fd call (s\<lparr>sy_pc := (sy_pc s)(0 := Found fd call a)\<rparr>) = Inr s1"
  shows "(io_step ctl)\<^sup>*\<^sup>* s (s1\<lparr>sy_pc := ((sy_pc s)(0 := Found fd call a))(0 := Outside)\<rparr>)"
proof -
  let ?s = "s\<lparr>sy_pc := (sy_pc s)(0 := Found fd call a)\<rparr>"
  have "io_step ctl s ?s" by (rule look [OF assms(1,2)])
  moreover have "io_step ctl ?s (s1\<lparr>sy_pc := (sy_pc ?s)(0 := Outside)\<rparr>)"
    by (rule run [of ?s 0 fd call a]) (use assms(3) in simp_all)
  ultimately show ?thesis by simp
qed

lemma first_contexts [simp]:
  "i < 32 \<Longrightarrow> io_contexts (new_io_manager self now k) ! i = i"
  "length (io_contexts (new_io_manager self now k)) = 32"
  by (simp_all add: new_io_manager_def contextResize_def)

lemma first_heap [simp]:
  "a < 32 \<Longrightarrow> io_heap (new_io_manager self now k) a = new_fd_context (int a)"
  "io_next (new_io_manager self now k) = 32" "io_pending (new_io_manager self now k) = 0"
  "io_timers (new_io_manager self now k) = new_manager now"
  "io_kernel (new_io_manager self now k) = k"
  "io_scheduled (new_io_manager self now k) = []"
  by (simp_all add: new_io_manager_def contextResize_def)

abbreviation obliging :: "unit epoll_ctl" where
  "obliging \<equiv> \<lambda>k op fd evs p. (0, ())"

theorem no_waiter_lost_witness:
  "\<exists>s :: (nat, unit) io_system.
     (io_step obliging)\<^sup>*\<^sup>* (new_io_system 1 0 ()) s \<and> sy_added s = {#(Some 1, TaskFiber 9)#} \<and>
     waiting (sy_io s) + scheduled (sy_io s) + sy_removed s = {#(Some 1, TaskFiber 9)#}"
proof -
  let ?call = "AddCall 1 None (Some 1) 9 True :: nat io_call"
  let ?s0 = "new_io_system 1 0 () :: (nat, unit) io_system"
  let ?s1 = "?s0\<lparr>sy_pc := (sy_pc ?s0)(0 := Found 5 ?call 5)\<rparr>"
  obtain s2 where r: "run_call obliging 5 5 ?call ?s1 = Inr s2"
    and a: "sy_added s2 = {#(Some 1, TaskFiber 9)#}" "sy_expired s2 = {#}"
    by (simp add: new_io_system_def addEvent_at_def Let_def new_fd_context_def getContext_def
        event_masks empty_event_def new_waiter_def)
  have reach: "(io_step obliging)\<^sup>*\<^sup>* ?s0
      (s2\<lparr>sy_pc := ((sy_pc ?s0)(0 := Found 5 ?call 5))(0 := Outside)\<rparr>)"
    by (rule one_call_reaches [OF _ _ r]) (simp_all add: new_io_system_def addEvent_lookup_def)
  show ?thesis
    by (rule exI [of _ "s2\<lparr>sy_pc := ((sy_pc ?s0)(0 := Found 5 ?call 5))(0 := Outside)\<rparr>"])
      (use no_waiter_lost [OF reach, of 0 True] reach a in auto)
qed

text \<open>An event that is not registered while the other event of the descriptor is: \<open>delEvent\<close>
  returns true and lowers \<open>_pendingEventCount\<close> though no waiter went, so that the manager may stop
  with a waiter left; \<open>cancelEvent\<close> fails an assertion, and so does the idle fiber when
  \<open>epoll_wait\<close> reported both events before one of them was removed.\<close>

theorem unregistered_event_mishandled:
  fixes m :: "('c, 'k) io_manager" and fd :: int
  assumes ok: "io_ok m" "a < io_next m"
    and sched: "\<And>w. w \<in># ctx_waiters (io_heap m a) \<Longrightarrow> fst w \<noteq> None"
    and e: "(fc_events (io_heap m a), event) \<in> {(1, 4), (4, 1)}"
    and kernel: "\<And>op evs. fst (ctl (io_kernel m) op fd evs a) = 0"
      "\<And>op evs. fst (ctl (io_kernel m) op (fc_fd (io_heap m a)) evs a) = 0"
  shows "(\<exists>m'. delEvent_at ctl a fd event m = Inr (True, m') \<and> waiting m' = waiting m \<and>
      io_pending m' = io_pending m - 1 \<and>
      (io_pending m = 1 \<and> mg_timers (io_timers m) = [] \<longrightarrow>
       waiting m' \<noteq> {#} \<and> fst (fst (io_stopping now True m')))) \<and>
    cancelEvent_at ctl a fd event m = Inl AssertFail \<and>
    ready_at ctl a (EPOLLIN OR EPOLLOUT) m = Inl AssertFail"
proof -
  let ?c = "io_heap m a"
  have c: "ctx_ok ?c" using ok by (simp add: io_ok_def)
  have ev: "event = 1 \<or> event = 4" using e by auto
  have g: "\<not> guard_unregistered (fc_events ?c) event"
    using e by (auto simp: guard_unregistered_def)
  have un: "fc_events ?c AND event = 0" using e by auto
  let ?new = "fc_events ?c AND NOT event"
  obtain k where k: "ctl (io_kernel m) (if ?new \<noteq> 0 then CtlMod else CtlDel) fd
      (EPOLLET OR ?new) a = (0, k)"
    using kernel(1) by (metis prod.collapse)
  have gc: "getContext event (?c\<lparr>fc_events := ?new\<rparr>) = Inr (the_event event ?c)"
    using ev by (auto simp: getContext_def event_masks)
  obtain m' where del: "delEvent_at ctl a fd event m = Inr (True, m')"
    and p: "io_pending m' = io_pending m - 1" and t: "io_timers m' = io_timers m"
    by (simp add: delEvent_at_def Let_def g k gc put_context_def)
  have none: "event_waiters (the_event event ?c) = {#}"
    using registered_waiters [OF c ev] un by simp
  have w: "waiting m' = waiting m"
    using delEvent_at_waiting [OF del ok] none by simp
  have some: "waiting m \<noteq> {#}"
  proof -
    have "ctx_waiters ?c \<noteq> {#}"
      using c
    proof (cases rule: ctx_ok_cases)
      case 2 then show ?thesis using event_ok_size by (fastforce simp: ctx_waiters_def)
    next
      case 3 then show ?thesis using event_ok_size by (fastforce simp: ctx_waiters_def)
    qed (use e in auto)
    then show ?thesis
      using ok(2) by (simp add: waiting_def sum.remove [of "{..<io_next m}" a])
  qed
  have "cancelEvent_at ctl a fd event m = Inl AssertFail"
    by (simp add: cancelEvent_at_def Let_def g k trigger_at_def triggerEvent_def un)
  moreover have "ready_at ctl a (EPOLLIN OR EPOLLOUT) m = Inl AssertFail"
  proof -
    have r: "real_events (fc_events ?c) (EPOLLIN OR EPOLLOUT) = 5"
      by (simp add: real_events_def event_masks)
    have left: "fc_events ?c AND - 6 = 0" "fc_events ?c AND 5 \<noteq> 0" using e by auto
    obtain k2 where k2: "ctl (io_kernel m) CtlDel (fc_fd ?c) EPOLLET a = (0, k2)"
      using kernel(2) by (metis prod.collapse)
    have bits: "fc_events ?c AND READ_EV \<noteq> 0 \<longleftrightarrow> event = 4" "5 AND READ_EV \<noteq> (0 :: u32)"
      "5 AND WRITE_EV \<noteq> (0 :: u32)"
      using e by (auto simp: event_masks)
    have ready: "ready_at ctl a (EPOLLIN OR EPOLLOUT) m =
      bindE (trigger_at a READ_EV (m\<lparr>io_kernel := k2\<rparr>)) (trigger_at a WRITE_EV)"
      unfolding ready_at_def Let_def r
      by (simp add: left k2 trigger_if_def bits) (rule bindE_ext, simp add: trigger_if_def bits)
    show ?thesis
    proof (cases "event = 4")
      case False
      then show ?thesis
        using bits by (simp add: ready trigger_at_def triggerEvent_def)
    next
      case True
      then have one: "fc_events ?c = 1" using e by auto
      obtain c' tasks where tr: "triggerEvent READ_EV ?c = Inr (c', tasks)"
        "fc_events c' = 0"
      proof -
        have "event_ok True (fc_read ?c)" using c one by (cases rule: ctx_ok_cases) auto
        moreover have "\<And>w. w \<in># event_waiters (fc_read ?c) \<Longrightarrow> fst w \<noteq> None"
          using sched by (simp add: ctx_waiters_def)
        ultimately show ?thesis
          using that one
          by (auto simp: triggerEvent_def Let_def getContext_def event_masks event_ok_def
              event_waiters_def split: option.splits)
      qed
      then show ?thesis
        by (simp add: ready trigger_at_def put_context_def triggerEvent_def [of WRITE_EV])
    qed
  qed
  ultimately show ?thesis
    using del w p some t by (auto simp: io_stopping_def Let_def getNextTimer_def)
qed


theorem unregistered_event_mishandled_witness:
  "let m = new_io_manager 1 0 () :: (nat, unit) io_manager;
       c = (new_fd_context 5)\<lparr>fc_events := 1,
              fc_read := \<lparr>ec_scheduler = Some 1, ec_fiber = Some 9, ec_callback = None\<rparr>\<rparr>;
       m1 = (put_context 5 c m)\<lparr>io_pending := 1\<rparr>
   in \<exists>m'. delEvent_at obliging 5 5 4 m1 = Inr (True, m') \<and> waiting m' \<noteq> {#} \<and>
        fst (fst (io_stopping 0 True m'))"
proof -
  let ?m = "new_io_manager 1 0 () :: (nat, unit) io_manager"
  let ?c = "(new_fd_context 5)\<lparr>fc_events := 1,
              fc_read := \<lparr>ec_scheduler = Some 1, ec_fiber = Some 9, ec_callback = None\<rparr>\<rparr>
              :: nat fd_context"
  let ?m1 = "(put_context 5 ?c ?m)\<lparr>io_pending := 1\<rparr>"
  have "io_ok ?m" by (rule new_io_manager_ok)
  moreover have "ctx_ok ?c"
    by (simp add: ctx_ok_def event_ok_def new_fd_context_def)
  ultimately have ok: "io_ok ?m1" by (simp add: put_context_ok)
  have "(\<exists>m'. delEvent_at obliging 5 5 4 ?m1 = Inr (True, m') \<and> waiting m' = waiting ?m1 \<and>
      io_pending m' = io_pending ?m1 - 1 \<and>
      (io_pending ?m1 = 1 \<and> mg_timers (io_timers ?m1) = [] \<longrightarrow>
       waiting m' \<noteq> {#} \<and> fst (fst (io_stopping 0 True m')))) \<and>
    cancelEvent_at obliging 5 5 4 ?m1 = Inl AssertFail \<and>
    ready_at obliging 5 (EPOLLIN OR EPOLLOUT) ?m1 = Inl AssertFail"
    by (rule unregistered_event_mishandled [OF ok])
      (simp_all add: ctx_waiters_def event_waiters_def new_fd_context_def empty_event_def)
  moreover have "mg_timers (io_timers ?m1) = []" "io_pending ?m1 = 1"
    by (simp_all add: put_context_def new_manager_def)
  ultimately show ?thesis unfolding Let_def by blast
qed

text \<open>A thread that found the vector too small resizes it with the size it computed then: if
  another thread made the vector longer meanwhile, it is cut, and the contexts behind the cut are
  lost with their waiters: \<open>delEvent\<close>, \<open>cancelEvent\<close> and \<open>cancelAll\<close> no longer find them.\<close>

theorem resize_race_loses_contexts:
  assumes pc: "sy_pc s t = Growing fd call" and fd: "2 \<le> fd"
    and lost: "fd * 3 div 2 \<le> fd'" "fd' < int (length (io_contexts (sy_io s)))" "fd' < 2 ^ 31"
  shows "\<exists>s'. io_step ctl s s' \<and> waiting (sy_io s') = waiting (sy_io s) \<and>
    delEvent_lookup fd' (sy_io s) = Inr (Some (io_contexts (sy_io s) ! nat fd')) \<and>
    delEvent_lookup fd' (sy_io s') = Inr None \<and> cancel_lookup fd' (sy_io s') = None"
proof -
  let ?n = "nat (fd * 3 div 2)"
  let ?m = "contextResize ?n (sy_io s)"
  have len: "length (io_contexts ?m) = ?n"
    using lost by (simp add: contextResize_def Let_def)
  have "fd < fd * 3 div 2" using fd by presburger
  with len have "addEvent_grow fd (sy_io s) = Inr (io_contexts ?m ! nat fd, ?m)"
    using fd by (simp add: addEvent_grow_def Let_def)
  then have "io_step ctl s (s\<lparr>sy_io := ?m,
      sy_pc := (sy_pc s)(t := Found fd call (io_contexts ?m ! nat fd))\<rparr>)"
    by (rule grow [OF pc])
  moreover have "unat (word_of_int fd' :: u64) = nat fd'"
    using fd lost by (simp add: unsigned_of_int take_bit_int_eq_self)
  ultimately show ?thesis
    using fd lost len
    by (intro exI conjI) (assumption | simp add: delEvent_lookup_def cancel_lookup_def)+
qed

theorem resize_race_loses_contexts_witness:
  "\<exists>s s' :: (nat, unit) io_system. (io_step obliging)\<^sup>*\<^sup>* (new_io_system 1 0 ()) s \<and>
     io_step obliging s s' \<and> delEvent_lookup 100 (sy_io s) \<noteq> Inr None \<and>
     delEvent_lookup 100 (sy_io s') = Inr None"
proof -
  let ?call = "AddCall 1 None (Some 1) 9 True :: nat io_call"
  let ?s0 = "new_io_system 1 0 () :: (nat, unit) io_system"
  let ?s1 = "?s0\<lparr>sy_pc := (sy_pc ?s0)(0 := Growing 100 ?call)\<rparr>"
  let ?s2 = "?s1\<lparr>sy_pc := (sy_pc ?s1)(1 := Growing 40 ?call)\<rparr>"
  let ?m = "contextResize 150 (sy_io ?s2)"
  let ?s3 = "?s2\<lparr>sy_io := ?m, sy_pc := (sy_pc ?s2)(0 := Found 100 ?call (io_contexts ?m ! 100))\<rparr>"
  have len: "length (io_contexts ?m) = 150"
    by (simp add: contextResize_def Let_def new_io_system_def)
  have 1: "io_step obliging ?s0 ?s1"
    by (rule too_small [OF _ refl]) (simp_all add: new_io_system_def addEvent_lookup_def)
  have 2: "io_step obliging ?s1 ?s2"
    by (rule too_small [OF _ refl]) (simp_all add: new_io_system_def addEvent_lookup_def)
  have 3: "io_step obliging ?s2 ?s3"
    by (rule grow) (use len in \<open>simp_all add: addEvent_grow_def Let_def new_io_system_def\<close>)
  have reach: "(io_step obliging)\<^sup>*\<^sup>* ?s0 ?s3"
    using 1 2 3 by (meson r_into_rtranclp rtranclp_trans)
  have "\<exists>s'. io_step obliging ?s3 s' \<and> waiting (sy_io s') = waiting (sy_io ?s3) \<and>
    delEvent_lookup 100 (sy_io ?s3) = Inr (Some (io_contexts (sy_io ?s3) ! nat 100)) \<and>
    delEvent_lookup 100 (sy_io s') = Inr None \<and> cancel_lookup 100 (sy_io s') = None"
    by (rule resize_race_loses_contexts [of ?s3 1 40 ?call]) (use len in simp_all)
  then obtain s' where "io_step obliging ?s3 s'" "delEvent_lookup 100 (sy_io ?s3) \<noteq> Inr None"
    "delEvent_lookup 100 (sy_io s') = Inr None"
    by (metis sum.inject(2) option.distinct(1))
  with reach show ?thesis by blast
qed

end
