(* ===== verification/IoKernel.thy ===== *)
theory IoKernel
  imports IoManagerProps
begin

text \<open>
  The manager of \<open>src/IoManager.cpp\<close> and the kernel: when \<open>epoll_ctl\<close> does what its documentation
  says and no call comes between the parts of another, the kernel's interest list is the table
  of contexts. Calls that overlap are those of \<open>IoManagerProps\<close>, where \<open>resize_race_loses_contexts\<close>
  shows that this fails for them. The kernel takes a closed descriptor from its list by itself; the
  hooked \<open>close\<close> of \<open>src/Hook.cpp\<close> comes after \<open>cancelAll\<close>, and a descriptor that is closed
  behind the manager's back breaks the correspondence (\<open>unhooked_close_breaks\<close>).
\<close>

section \<open>The documented behaviour of \<open>epoll_ctl\<close>\<close>

text \<open>
  \<open>reg k fd\<close> is the entry of the interest list for \<open>fd\<close>: the mask and the pointer. A call may fail
  for other reasons than those named (\<open>ENOMEM\<close>, \<open>EPERM\<close>), and then changes nothing.
\<close>

definition epoll_laws ::
  "'k epoll_ctl \<Rightarrow> ('k \<Rightarrow> int \<Rightarrow> (u32 \<times> nat) option) \<Rightarrow> bool" where
  "epoll_laws ctl reg \<longleftrightarrow>
     (\<forall>k op fd evs p r k'. ctl k op fd evs p = (r, k') \<longrightarrow>
        (if r \<noteq> 0 then reg k' = reg k
         else case op of
             CtlAdd \<Rightarrow> reg k fd = None \<and> reg k' = (reg k)(fd \<mapsto> (evs, p))
           | CtlMod \<Rightarrow> reg k fd \<noteq> None \<and> reg k' = (reg k)(fd \<mapsto> (evs, p))
           | CtlDel \<Rightarrow> reg k fd \<noteq> None \<and> reg k' = (reg k)(fd := None)))"

text \<open>
  The removal of an entry that is there does not fail, and \<open>close\<close> removes the entry of its
  descriptor.
\<close>

definition close_laws ::
  "'k epoll_ctl \<Rightarrow> ('k \<Rightarrow> int \<Rightarrow> 'k) \<Rightarrow> ('k \<Rightarrow> int \<Rightarrow> (u32 \<times> nat) option) \<Rightarrow> bool" where
  "close_laws ctl close reg \<longleftrightarrow>
     (\<forall>k fd evs p. reg k fd \<noteq> None \<longrightarrow> fst (ctl k CtlDel fd evs p) = 0) \<and>
     (\<forall>k fd. reg (close k fd) = (reg k)(fd := None))"

definition entry_of :: "nat \<Rightarrow> u32 \<Rightarrow> (u32 \<times> nat) option" where
  "entry_of a events = (if events = 0 then None else Some (EPOLLET OR events, a))"

lemma epoll_fail: "epoll_laws ctl reg \<Longrightarrow> ctl k op fd evs p = (r, k') \<Longrightarrow> r \<noteq> 0 \<Longrightarrow> reg k' = reg k"
  by (simp add: epoll_laws_def)

lemma epoll_set:
  assumes "epoll_laws ctl reg" and "ctl k op fd (EPOLLET OR events) p = (0, k')"
    and "op = (if events \<noteq> 0 then CtlMod else CtlDel)"
  shows "reg k fd \<noteq> None \<and> reg k' = (reg k)(fd := entry_of p events)"
proof -
  have "(case op of
             CtlAdd \<Rightarrow> reg k fd = None \<and> reg k' = (reg k)(fd \<mapsto> (EPOLLET OR events, p))
           | CtlMod \<Rightarrow> reg k fd \<noteq> None \<and> reg k' = (reg k)(fd \<mapsto> (EPOLLET OR events, p))
           | CtlDel \<Rightarrow> reg k fd \<noteq> None \<and> reg k' = (reg k)(fd := None))"
    using assms(1,2) unfolding epoll_laws_def by (metis (full_types))
  then show ?thesis using assms(3) by (auto simp: entry_of_def split: if_splits)
qed

lemma epoll_add:
  assumes "epoll_laws ctl reg" and "ctl k op fd evs p = (0, k')"
    and "op = CtlAdd \<or> op = CtlMod"
  shows "reg k' = (reg k)(fd \<mapsto> (evs, p))"
proof -
  have "(case op of
             CtlAdd \<Rightarrow> reg k fd = None \<and> reg k' = (reg k)(fd \<mapsto> (evs, p))
           | CtlMod \<Rightarrow> reg k fd \<noteq> None \<and> reg k' = (reg k)(fd \<mapsto> (evs, p))
           | CtlDel \<Rightarrow> reg k fd \<noteq> None \<and> reg k' = (reg k)(fd := None))"
    using assms(1,2) unfolding epoll_laws_def by (metis (full_types))
  then show ?thesis using assms(3) by auto
qed

section \<open>The table of contexts and the interest list\<close>

text \<open>\<open>tfd\<close> is the descriptor of the pipe that wakes the idle threads; it has no context of its own.\<close>

definition mirrors ::
  "int \<Rightarrow> ('k \<Rightarrow> int \<Rightarrow> (u32 \<times> nat) option) \<Rightarrow> ('c, 'k) io_manager \<Rightarrow> bool" where
  "mirrors tfd reg m \<longleftrightarrow>
     distinct (io_contexts m) \<and> (\<forall>a \<in> set (io_contexts m). a < io_next m) \<and>
     32 \<le> length (io_contexts m) \<and> length (io_contexts m) \<le> 2 ^ 33 \<and>
     (\<forall>i < length (io_contexts m).
        let a = io_contexts m ! i in
        fc_fd (io_heap m a) = int i \<and>
        (int i \<noteq> tfd \<longrightarrow> reg (io_kernel m) (int i) = entry_of a (fc_events (io_heap m a)))) \<and>
     (\<forall>fd. (fd < 0 \<or> int (length (io_contexts m)) \<le> fd) \<and> fd \<noteq> tfd \<longrightarrow> reg (io_kernel m) fd = None)"

lemma mirrors_at:
  "mirrors tfd reg m \<Longrightarrow> i < length (io_contexts m) \<Longrightarrow> int i \<noteq> tfd \<Longrightarrow>
   reg (io_kernel m) (int i) = entry_of (io_contexts m ! i) (fc_events (io_heap m (io_contexts m ! i)))"
  by (simp add: mirrors_def Let_def)

text \<open>A step on one context, with its entry of the interest list.\<close>

lemma mirrors_update:
  assumes m: "mirrors tfd reg m" and i: "i < length (io_contexts m)"
    and same: "io_contexts m' = io_contexts m" "io_next m' = io_next m"
    and heap: "\<And>b. b \<noteq> io_contexts m ! i \<Longrightarrow> io_heap m' b = io_heap m b"
    and fd: "fc_fd (io_heap m' (io_contexts m ! i)) = fc_fd (io_heap m (io_contexts m ! i))"
    and reg: "reg (io_kernel m') = (reg (io_kernel m))
      (int i := entry_of (io_contexts m ! i) (fc_events (io_heap m' (io_contexts m ! i))))"
  shows "mirrors tfd reg m'"
proof -
  have d: "distinct (io_contexts m)" using m by (simp add: mirrors_def)
  have "fc_fd (io_heap m' (io_contexts m ! j)) = int j \<and>
      (int j \<noteq> tfd \<longrightarrow> reg (io_kernel m') (int j) =
        entry_of (io_contexts m ! j) (fc_events (io_heap m' (io_contexts m ! j))))"
    if "j < length (io_contexts m)" for j
  proof (cases "j = i")
    case False
    then have "io_contexts m ! j \<noteq> io_contexts m ! i"
      using d i that by (simp add: nth_eq_iff_index_eq)
    then show ?thesis using m that heap reg False by (auto simp: mirrors_def Let_def)
  qed (use m i fd reg in \<open>auto simp: mirrors_def Let_def\<close>)
  then show ?thesis
    using m i same reg by (auto simp: mirrors_def Let_def)
qed

lemma mirrors_kernel:
  "mirrors tfd reg m \<Longrightarrow> reg k = reg (io_kernel m) \<Longrightarrow> mirrors tfd reg (m\<lparr>io_kernel := k\<rparr>)"
  by (simp add: mirrors_def)

lemma mirrors_grow:
  assumes m: "mirrors tfd reg m" and "addEvent_grow fd m = Inr (a, m')"
    and fd: "int (length (io_contexts m)) \<le> fd" "fd < 2 ^ 31"
  shows "mirrors tfd reg m' \<and> nat fd < length (io_contexts m') \<and> a = io_contexts m' ! nat fd"
proof -
  let ?n = "nat (fd * 3 div 2)"
  let ?old = "length (io_contexts m)"
  have m': "m' = contextResize ?n m" and a: "nat fd < length (io_contexts m')"
      "a = io_contexts m' ! nat fd"
    using assms(2) by (auto simp: addEvent_grow_def Let_def split: if_splits)
  have "?n \<le> nat (2 ^ 33)" by (rule nat_mono) (use fd(2) in simp)
  then have n: "?old \<le> ?n" "?n \<le> 2 ^ 33" using fd(1) by simp_all
  have ctx: "io_contexts m' = io_contexts m @ [io_next m..<io_next m + (?n - ?old)]"
    using n by (simp add: m' contextResize_def Let_def)
  have "fc_fd (io_heap m' (io_contexts m' ! i)) = int i \<and>
      (int i \<noteq> tfd \<longrightarrow> reg (io_kernel m') (int i) =
        entry_of (io_contexts m' ! i) (fc_events (io_heap m' (io_contexts m' ! i))))"
    if i: "i < length (io_contexts m')" for i
  proof (cases "i < ?old")
    case True
    then have "io_contexts m ! i < io_next m" using m by (auto simp: mirrors_def)
    moreover have "io_heap m' (io_contexts m ! i) = io_heap m (io_contexts m ! i)"
      using \<open>io_contexts m ! i < io_next m\<close> by (simp add: m' contextResize_def Let_def)
    moreover have "io_contexts m' ! i = io_contexts m ! i" "io_kernel m' = io_kernel m"
      using True ctx by (simp_all add: nth_append m' contextResize_def Let_def)
    ultimately show ?thesis
      using True m by (simp add: mirrors_def Let_def)
  next
    case False
    have "reg (io_kernel m) (int i) = None" if "int i \<noteq> tfd"
      using m False that by (simp add: mirrors_def)
    moreover have "io_contexts m' ! i = io_next m + (i - ?old)"
      using False i n ctx by (simp add: nth_append)
    moreover have "io_heap m' (io_next m + (i - ?old)) = new_fd_context (int i)"
      using False i n ctx by (auto simp: m' contextResize_def Let_def)
    moreover have "io_kernel m' = io_kernel m" by (simp add: m' contextResize_def Let_def)
    ultimately show ?thesis by (simp add: new_fd_context_def entry_of_def)
  qed
  moreover have "distinct (io_contexts m') \<and> (\<forall>a \<in> set (io_contexts m'). a < io_next m')"
    using m n by (auto simp: mirrors_def m' contextResize_def Let_def)
  moreover have len: "length (io_contexts m') = ?n" using ctx n by simp
  moreover have "reg (io_kernel m') fd' = None"
    if "(fd' < 0 \<or> int (length (io_contexts m')) \<le> fd') \<and> fd' \<noteq> tfd" for fd'
  proof -
    have "io_kernel m' = io_kernel m" by (simp add: m' contextResize_def Let_def)
    moreover have "(fd' < 0 \<or> int ?old \<le> fd') \<and> fd' \<noteq> tfd" using that len n by linarith
    ultimately show ?thesis using m by (simp add: mirrors_def)
  qed
  ultimately have "mirrors tfd reg m'"
    using m n by (simp add: mirrors_def Let_def)
  then show ?thesis using a by simp
qed

section \<open>Each operation\<close>

lemma setContext_fd [simp]: "fc_fd (setContext event ec c) = fc_fd c"
  by (simp add: setContext_def)

lemma triggerEvent_fields:
  assumes "triggerEvent event c = Inr (c', tasks)"
  shows "fc_fd c' = fc_fd c \<and> fc_events c' = fc_events c AND NOT event"
proof -
  let ?c = "c\<lparr>fc_events := fc_events c AND NOT event\<rparr>"
  have ev: "fc_events c AND event \<noteq> 0"
    using assms by (auto simp: triggerEvent_def split: if_splits)
  then obtain ctx where g: "getContext event ?c = Inr ctx"
    using assms by (auto simp: triggerEvent_def Let_def bindE_Inr_iff)
  obtain sch where s: "ec_scheduler ctx = Some sch"
    using assms ev g by (auto simp: triggerEvent_def Let_def split: option.splits)
  have "\<exists>ec. c' = setContext event ec ?c"
    using assms ev g s by (cases "ec_callback ctx") (auto simp: triggerEvent_def Let_def)
  then show ?thesis by auto
qed

lemma trigger_at_fields:
  assumes "trigger_at a event m = Inr m'"
  shows "io_contexts m' = io_contexts m \<and> io_next m' = io_next m \<and> io_kernel m' = io_kernel m \<and>
    (\<forall>b. b \<noteq> a \<longrightarrow> io_heap m' b = io_heap m b) \<and>
    fc_fd (io_heap m' a) = fc_fd (io_heap m a) \<and>
    fc_events (io_heap m' a) = fc_events (io_heap m a) AND NOT event"
  using assms triggerEvent_fields [of event "io_heap m a"]
  by (auto simp: trigger_at_def bindE_Inr_iff put_context_def)

lemma trigger_if_fields:
  assumes "trigger_if bits a event m = Inr m'"
  shows "io_contexts m' = io_contexts m \<and> io_next m' = io_next m \<and> io_kernel m' = io_kernel m \<and>
    (\<forall>b. b \<noteq> a \<longrightarrow> io_heap m' b = io_heap m b) \<and>
    fc_fd (io_heap m' a) = fc_fd (io_heap m a) \<and>
    fc_events (io_heap m' a) =
      fc_events (io_heap m a) AND NOT (if bits AND event \<noteq> 0 then event else 0)"
  using assms trigger_at_fields [of a event m m'] by (auto simp: trigger_if_def split: if_splits)

lemma addEvent_at_mirrors:
  assumes laws: "epoll_laws ctl reg" and m: "mirrors tfd reg m"
    and add: "addEvent_at ctl (io_contexts m ! i) (int i) event cb this fiber exec m = Inr (r, m')"
    and i: "i < length (io_contexts m)"
  shows "mirrors tfd reg m'"
proof -
  let ?a = "io_contexts m ! i"
  let ?ev = "fc_events (io_heap m ?a)"
  let ?op = "if ?ev \<noteq> 0 then CtlMod else CtlAdd"
  obtain q k where k: "ctl (io_kernel m) ?op (int i) (EPOLLET OR ?ev OR event) ?a = (q, k)"
    by fastforce
  have free: "?ev AND event = 0"
    using add unfolding addEvent_at_def Let_def by (rule contrapos_pp) simp
  show ?thesis
  proof (cases "q = 0")
    case False
    then have "m' = m\<lparr>io_kernel := k\<rparr>" using add free k by (simp add: addEvent_at_def Let_def)
    then show ?thesis using epoll_fail [OF laws k False] m by (simp add: mirrors_kernel)
  next
    case True
    have reg: "reg k = (reg (io_kernel m))(int i \<mapsto> (EPOLLET OR ?ev OR event, ?a))"
      by (rule epoll_add [OF laws k [unfolded True]]) simp
    obtain ec where m': "m' = put_context ?a
        (setContext event ec ((io_heap m ?a)\<lparr>fc_events := ?ev OR event\<rparr>))
        (m\<lparr>io_kernel := k, io_pending := io_pending m + 1\<rparr>)"
      and e: "event = 1 \<or> event = 4"
      using addEvent_at_Inr [OF add k] True by blast
    have "?ev OR event \<noteq> 0" using e by (auto simp: or_eq_0_iff)
    then have "entry_of ?a (?ev OR event) = Some (EPOLLET OR ?ev OR event, ?a)"
      by (simp add: entry_of_def or.assoc)
    then show ?thesis
      by (intro mirrors_update [OF m i]) (simp_all add: m' reg put_context_def)
  qed
qed

text \<open>The calls that take events away change the entry in the same way.\<close>

lemma removal_mirrors:
  assumes laws: "epoll_laws ctl reg" and m: "mirrors tfd reg m" and i: "i < length (io_contexts m)"
    and k: "ctl (io_kernel m) (if new \<noteq> 0 then CtlMod else CtlDel) (int i) (EPOLLET OR new)
      (io_contexts m ! i) = (0, k)"
    and same: "io_contexts m' = io_contexts m" "io_next m' = io_next m" "io_kernel m' = k"
    and heap: "\<And>b. b \<noteq> io_contexts m ! i \<Longrightarrow> io_heap m' b = io_heap m b"
    and ctx: "fc_fd (io_heap m' (io_contexts m ! i)) = fc_fd (io_heap m (io_contexts m ! i))"
      "fc_events (io_heap m' (io_contexts m ! i)) = new"
  shows "mirrors tfd reg m'"
  by (rule mirrors_update [OF m i same(1,2) heap ctx(1)])
    (use epoll_set [OF laws k refl] same(3) ctx(2) in simp_all)

lemma delEvent_at_mirrors:
  assumes laws: "epoll_laws ctl reg" and m: "mirrors tfd reg m"
    and del: "delEvent_at ctl (io_contexts m ! i) (int i) event m = Inr (r, m')"
    and i: "i < length (io_contexts m)"
  shows "mirrors tfd reg m'"
proof (cases "guard_unregistered (fc_events (io_heap m (io_contexts m ! i))) event")
  case False
  let ?a = "io_contexts m ! i"
  let ?new = "fc_events (io_heap m ?a) AND NOT event"
  obtain q k where k: "ctl (io_kernel m) (if ?new \<noteq> 0 then CtlMod else CtlDel) (int i)
      (EPOLLET OR ?new) ?a = (q, k)"
    by fastforce
  show ?thesis
  proof (cases "q = 0")
    case True
    then obtain c where "m' = put_context ?a c (m\<lparr>io_kernel := k, io_pending := io_pending m - 1\<rparr>)"
      "fc_fd c = fc_fd (io_heap m ?a)" "fc_events c = ?new"
      using del False k
      by (auto simp: delEvent_at_def Let_def bindE_Inr_iff split: if_splits)
    then show ?thesis
      by (intro removal_mirrors [OF laws m i k [unfolded True]]) (simp_all add: put_context_def)
  next
    case q: False
    then have "m' = m\<lparr>io_kernel := k\<rparr>" using del False k by (simp add: delEvent_at_def Let_def)
    then show ?thesis using epoll_fail [OF laws k q] m by (simp add: mirrors_kernel)
  qed
qed (use del m in \<open>simp add: delEvent_at_def\<close>)

lemma cancelEvent_at_mirrors:
  assumes laws: "epoll_laws ctl reg" and m: "mirrors tfd reg m"
    and can: "cancelEvent_at ctl (io_contexts m ! i) (int i) event m = Inr (r, m')"
    and i: "i < length (io_contexts m)"
  shows "mirrors tfd reg m'"
proof (cases "guard_unregistered (fc_events (io_heap m (io_contexts m ! i))) event")
  case False
  let ?a = "io_contexts m ! i"
  let ?new = "fc_events (io_heap m ?a) AND NOT event"
  obtain q k where k: "ctl (io_kernel m) (if ?new \<noteq> 0 then CtlMod else CtlDel) (int i)
      (EPOLLET OR ?new) ?a = (q, k)"
    by fastforce
  show ?thesis
  proof (cases "q = 0")
    case True
    then have t: "trigger_at ?a event (m\<lparr>io_kernel := k\<rparr>) = Inr m'"
      using can False k by (auto simp: cancelEvent_at_def Let_def bindE_Inr_iff)
    show ?thesis
      using trigger_at_fields [OF t]
      by (intro removal_mirrors [OF laws m i k [unfolded True]]) simp_all
  next
    case q: False
    then have "m' = m\<lparr>io_kernel := k\<rparr>" using can False k by (simp add: cancelEvent_at_def Let_def)
    then show ?thesis using epoll_fail [OF laws k q] m by (simp add: mirrors_kernel)
  qed
qed (use can m in \<open>simp add: cancelEvent_at_def\<close>)

lemma epoll_del:
  assumes "epoll_laws ctl reg" and "ctl k CtlDel fd evs p = (0, k')"
  shows "reg k' = (reg k)(fd := None)"
proof -
  have "(case CtlDel of
             CtlAdd \<Rightarrow> reg k fd = None \<and> reg k' = (reg k)(fd \<mapsto> (evs, p))
           | CtlMod \<Rightarrow> reg k fd \<noteq> None \<and> reg k' = (reg k)(fd \<mapsto> (evs, p))
           | CtlDel \<Rightarrow> reg k fd \<noteq> None \<and> reg k' = (reg k)(fd := None))"
    using assms unfolding epoll_laws_def by (metis (full_types))
  then show ?thesis by simp
qed

lemma cancelAll_at_mirrors:
  assumes laws: "epoll_laws ctl reg" and m: "mirrors tfd reg m"
    and can: "cancelAll_at ctl (io_contexts m ! i) (int i) m = Inr (r, m')"
    and i: "i < length (io_contexts m)"
  shows "mirrors tfd reg m'"
proof (cases "fc_events (io_heap m (io_contexts m ! i)) = 0")
  case False
  let ?a = "io_contexts m ! i"
  obtain q k where k: "ctl (io_kernel m) CtlDel (int i) 0 ?a = (q, k)" by fastforce
  show ?thesis
  proof (cases "q = 0")
    case True
    then obtain b m2 where 1: "trigger_if b ?a READ_EV (m\<lparr>io_kernel := k\<rparr>) = Inr m2"
      and 2: "trigger_if (fc_events (io_heap m2 ?a)) ?a WRITE_EV m2 = Inr m'"
      and z: "fc_events (io_heap m' ?a) = 0"
      using can False k by (auto simp: cancelAll_at_def Let_def bindE_Inr_iff split: if_splits)
    show ?thesis
      by (rule mirrors_update [OF m i])
        (use trigger_if_fields [OF 1] trigger_if_fields [OF 2] z epoll_del [OF laws k [unfolded True]]
         in \<open>simp_all add: entry_of_def\<close>)
  next
    case q: False
    then have "m' = m\<lparr>io_kernel := k\<rparr>" using can False k by (simp add: cancelAll_at_def Let_def)
    then show ?thesis using epoll_fail [OF laws k q] m by (simp add: mirrors_kernel)
  qed
qed (use can m in \<open>simp add: cancelAll_at_def\<close>)

lemma cancelAll_at_removes:
  assumes laws: "epoll_laws ctl reg" "close_laws ctl close reg" and m: "mirrors tfd reg m"
    and can: "cancelAll_at ctl (io_contexts m ! i) (int i) m = Inr (r, m')"
    and i: "i < length (io_contexts m)" "int i \<noteq> tfd"
  shows "reg (io_kernel m') (int i) = None"
proof (cases "fc_events (io_heap m (io_contexts m ! i)) = 0")
  case True
  then show ?thesis using can mirrors_at [OF m i] by (simp add: cancelAll_at_def entry_of_def)
next
  case False
  let ?a = "io_contexts m ! i"
  obtain q k where k: "ctl (io_kernel m) CtlDel (int i) 0 ?a = (q, k)" by fastforce
  have "q = 0"
    using laws(2) mirrors_at [OF m i] False k unfolding close_laws_def entry_of_def
    by (metis fst_conv option.distinct(1))
  then obtain b m2 where 1: "trigger_if b ?a READ_EV (m\<lparr>io_kernel := k\<rparr>) = Inr m2"
    and 2: "trigger_if (fc_events (io_heap m2 ?a)) ?a WRITE_EV m2 = Inr m'"
    using can False k by (auto simp: cancelAll_at_def Let_def bindE_Inr_iff split: if_splits)
  then show ?thesis
    using trigger_if_fields [OF 1] trigger_if_fields [OF 2] epoll_del [OF laws(1)] k \<open>q = 0\<close>
    by simp
qed

lemma real_events_cases: "real_events events evs \<in> {0, 1, 4, 5}"
  by (simp add: real_events_def Let_def event_masks)

lemma ready_at_mirrors:
  assumes laws: "epoll_laws ctl reg" and m: "mirrors tfd reg m"
    and rdy: "ready_at ctl (io_contexts m ! i) evs m = Inr m'"
    and i: "i < length (io_contexts m)"
  shows "mirrors tfd reg m'"
proof -
  let ?a = "io_contexts m ! i"
  let ?ev = "fc_events (io_heap m ?a)"
  define real where "real = real_events ?ev evs"
  let ?new = "?ev AND NOT real"
  have fd: "fc_fd (io_heap m ?a) = int i" using m i by (simp add: mirrors_def Let_def)
  obtain q k where k: "ctl (io_kernel m) (if ?new \<noteq> 0 then CtlMod else CtlDel) (int i)
      (EPOLLET OR ?new) ?a = (q, k)"
    by fastforce
  have ready: "ready_at ctl ?a evs m =
    (if ?ev AND real = 0 then Inr m
     else if q \<noteq> 0 then Inr (m\<lparr>io_kernel := k\<rparr>)
     else bindE (trigger_if real ?a READ_EV (m\<lparr>io_kernel := k\<rparr>)) (trigger_if real ?a WRITE_EV))"
    unfolding ready_at_def Let_def real_def [symmetric] fd k by simp
  show ?thesis
  proof (cases "?ev AND real = 0 \<or> q \<noteq> 0")
    case True
    then have "m' = m \<or> q \<noteq> 0 \<and> m' = m\<lparr>io_kernel := k\<rparr>" using rdy ready by (auto split: if_splits)
    then show ?thesis using m epoll_fail [OF laws k] mirrors_kernel by metis
  next
    case False
    then obtain m2 where 1: "trigger_if real ?a READ_EV (m\<lparr>io_kernel := k\<rparr>) = Inr m2"
      and 2: "trigger_if real ?a WRITE_EV m2 = Inr m'"
      using rdy ready by (auto simp: bindE_Inr_iff)
    have q: "q = 0" using False by simp
    have "(?ev AND NOT (if real AND READ_EV \<noteq> 0 then READ_EV else 0)) AND
        NOT (if real AND WRITE_EV \<noteq> 0 then WRITE_EV else 0) = ?new"
      using real_events_cases [of ?ev evs] unfolding real_def [symmetric]
      by (auto simp: event_masks and.assoc)
    then have "fc_events (io_heap m' ?a) = ?new"
      using trigger_if_fields [OF 1] trigger_if_fields [OF 2] by simp
    then show ?thesis
      using trigger_if_fields [OF 1] trigger_if_fields [OF 2]
      by (intro removal_mirrors [OF laws m i k [unfolded q]]) simp_all
  qed
qed

section \<open>Sequences of calls\<close>

text \<open>
  One call after the other; descriptors are 32-bit and not the pipe's. The kernel reports only
  contexts of the table, and a timer step never touches them. The hooked \<open>close\<close> cancels all events
  of its descriptor first (\<open>src/Hook.cpp:391-394\<close>).
\<close>

inductive seq_step ::
  "int \<Rightarrow> 'k epoll_ctl \<Rightarrow> ('k \<Rightarrow> int \<Rightarrow> 'k) \<Rightarrow> ('c, 'k) io_manager \<Rightarrow> ('c, 'k) io_manager \<Rightarrow> bool"
  for tfd :: int and ctl :: "'k epoll_ctl" and close :: "'k \<Rightarrow> int \<Rightarrow> 'k" where
  seq_add: "fd \<noteq> tfd \<Longrightarrow> - (2 ^ 31) \<le> fd \<Longrightarrow> fd < 2 ^ 31 \<Longrightarrow>
    addEvent ctl fd event cb this fiber exec m = Inr (r, m') \<Longrightarrow> seq_step tfd ctl close m m'"
| seq_del: "fd \<noteq> tfd \<Longrightarrow> - (2 ^ 31) \<le> fd \<Longrightarrow> fd < 2 ^ 31 \<Longrightarrow>
    delEvent ctl fd event m = Inr (ok, m') \<Longrightarrow> seq_step tfd ctl close m m'"
| seq_cancel: "fd \<noteq> tfd \<Longrightarrow> - (2 ^ 31) \<le> fd \<Longrightarrow> fd < 2 ^ 31 \<Longrightarrow>
    cancelEvent ctl fd event m = Inr (ok, m') \<Longrightarrow> seq_step tfd ctl close m m'"
| seq_cancel_all: "fd \<noteq> tfd \<Longrightarrow> - (2 ^ 31) \<le> fd \<Longrightarrow> fd < 2 ^ 31 \<Longrightarrow>
    cancelAll ctl fd m = Inr (ok, m') \<Longrightarrow> seq_step tfd ctl close m m'"
| seq_close: "fd \<noteq> tfd \<Longrightarrow> - (2 ^ 31) \<le> fd \<Longrightarrow> fd < 2 ^ 31 \<Longrightarrow>
    cancelAll ctl fd m = Inr (ok, m') \<Longrightarrow>
    seq_step tfd ctl close m (m'\<lparr>io_kernel := close (io_kernel m') fd\<rparr>)"
| seq_ready: "a \<in> set (io_contexts m) \<Longrightarrow> ready_at ctl a evs m = Inr m' \<Longrightarrow> seq_step tfd ctl close m m'"
| seq_expire: "seq_step tfd ctl close m (schedule_expired addr now m)"

lemma cancel_lookup_index:
  assumes "cancel_lookup fd m = Some a" and "- (2 ^ 31) \<le> fd" "fd < 2 ^ 31"
    and "length (io_contexts m) \<le> 2 ^ 33"
  shows "0 \<le> fd \<and> nat fd < length (io_contexts m) \<and> a = io_contexts m ! nat fd"
proof -
  let ?u = "unat (word_of_int fd :: u64)"
  have u: "?u < length (io_contexts m)" "a = io_contexts m ! ?u"
    using assms(1) by (auto simp: cancel_lookup_def split: if_splits)
  have "?u = nat (fd mod 2 ^ 64)"
    by (simp add: unsigned_of_int take_bit_eq_mod)
  moreover have "0 \<le> fd"
  proof (rule ccontr)
    assume "\<not> 0 \<le> fd"
    then have "fd mod 2 ^ 64 = fd + 2 ^ 64"
      using assms(2) by (intro int_mod_pos_eq [of _ _ "- 1"]) auto
    then have "int ?u = fd + 2 ^ 64" using calculation assms(2) by simp
    moreover have "int ?u < int (2 ^ 33)"
      using order.strict_trans2 [OF u(1) assms(4)] by (simp only: of_nat_less_iff)
    ultimately show False using assms(2) by simp
  qed
  ultimately show ?thesis using u assms(3) by simp
qed

lemma delEvent_lookup_index:
  "delEvent_lookup fd m = Inr (Some a) \<Longrightarrow>
   0 \<le> fd \<and> nat fd < length (io_contexts m) \<and> a = io_contexts m ! nat fd"
  by (auto simp: delEvent_lookup_def split: if_splits)

lemma cancelAll_mirrors:
  assumes laws: "epoll_laws ctl reg" and m: "mirrors tfd reg m"
    and fd: "- (2 ^ 31) \<le> fd" "fd < 2 ^ 31" and can: "cancelAll ctl fd m = Inr (ok, m')"
  shows "mirrors tfd reg m'"
proof (cases "cancel_lookup fd m")
  case (Some a)
  have "length (io_contexts m) \<le> 2 ^ 33" using m by (simp add: mirrors_def)
  note idx = cancel_lookup_index [OF Some fd this]
  then show ?thesis
    using cancelAll_at_mirrors [OF laws m, of "nat fd" ok m'] can Some by (simp add: cancelAll_def)
qed (use can m in \<open>simp add: cancelAll_def\<close>)

lemma cancelAll_removes:
  assumes laws: "epoll_laws ctl reg" "close_laws ctl close reg" and m: "mirrors tfd reg m"
    and fd: "- (2 ^ 31) \<le> fd" "fd < 2 ^ 31" "fd \<noteq> tfd" and can: "cancelAll ctl fd m = Inr (ok, m')"
  shows "reg (io_kernel m') fd = None"
proof (cases "cancel_lookup fd m")
  case (Some a)
  have "length (io_contexts m) \<le> 2 ^ 33" using m by (simp add: mirrors_def)
  note idx = cancel_lookup_index [OF Some fd(1,2) this]
  then show ?thesis
    using cancelAll_at_removes [OF laws m, of "nat fd" ok m'] can Some fd(3)
    by (simp add: cancelAll_def)
next
  case None
  have "fd < 0 \<or> int (length (io_contexts m)) \<le> fd"
  proof (rule ccontr)
    assume n: "\<not> (fd < 0 \<or> int (length (io_contexts m)) \<le> fd)"
    then have "unat (word_of_int fd :: u64) = nat fd"
      using fd by (simp add: unsigned_of_int take_bit_eq_mod)
    then show False using None n by (auto simp: cancel_lookup_def split: if_splits)
  qed
  then show ?thesis using None can m fd(3) by (auto simp: cancelAll_def mirrors_def)
qed

lemma seq_step_mirrors:
  assumes laws: "epoll_laws ctl reg" and closes: "close_laws ctl close reg"
  shows "seq_step tfd ctl close m m' \<Longrightarrow> mirrors tfd reg m \<Longrightarrow> mirrors tfd reg m'"
proof (induction rule: seq_step.induct)
  case (seq_add fd event cb this fiber exec m r m')
  then obtain found where f: "addEvent_lookup fd m = Inr found"
    by (auto simp: addEvent_def bindE_Inr_iff)
  show ?case
  proof (cases found)
    case (Some a)
    then have "nat fd < length (io_contexts m) \<and> a = io_contexts m ! nat fd \<and> int (nat fd) = fd"
      using f by (auto simp: addEvent_lookup_def split: if_splits)
    then show ?thesis
      using addEvent_at_mirrors [OF laws seq_add.prems, of "nat fd" event cb this fiber exec r m']
        seq_add.hyps f Some by (simp add: addEvent_def)
  next
    case None
    then have len: "int (length (io_contexts m)) \<le> fd"
      using f by (auto simp: addEvent_lookup_def split: if_splits)
    obtain a m1 where g: "addEvent_grow fd m = Inr (a, m1)"
      and add: "addEvent_at ctl a fd event cb this fiber exec m1 = Inr (r, m')"
      using seq_add.hyps(4) f None by (auto simp: addEvent_def bindE_Inr_iff)
    note m1 = mirrors_grow [OF seq_add.prems g len seq_add.hyps(3)]
    have "int (nat fd) = fd" using len by simp
    then show ?thesis
      using addEvent_at_mirrors [OF laws, of tfd m1 "nat fd" event cb this fiber exec r m'] m1 add
      by simp
  qed
next
  case (seq_del fd event m ok m')
  show ?case
  proof (cases "delEvent_lookup fd m = Inr None")
    case False
    then obtain a where f: "delEvent_lookup fd m = Inr (Some a)"
      using seq_del.hyps(4) by (auto simp: delEvent_def bindE_Inr_iff)
    note idx = delEvent_lookup_index [OF f]
    then show ?thesis
      using delEvent_at_mirrors [OF laws seq_del.prems, of "nat fd" event ok m'] seq_del.hyps(4) f
      by (simp add: delEvent_def)
  qed (use seq_del in \<open>simp add: delEvent_def\<close>)
next
  case (seq_cancel fd event m ok m')
  show ?case
  proof (cases "cancel_lookup fd m")
    case (Some a)
    have "length (io_contexts m) \<le> 2 ^ 33" using seq_cancel.prems by (simp add: mirrors_def)
    note idx = cancel_lookup_index [OF Some seq_cancel.hyps(2,3) this]
    then show ?thesis
      using cancelEvent_at_mirrors [OF laws seq_cancel.prems, of "nat fd" event ok m']
        seq_cancel.hyps(4) Some by (simp add: cancelEvent_def)
  qed (use seq_cancel in \<open>simp add: cancelEvent_def\<close>)
next
  case (seq_cancel_all fd m ok m')
  then show ?case using cancelAll_mirrors [OF laws] by blast
next
  case (seq_close fd m ok m')
  have m': "mirrors tfd reg m'" using seq_close cancelAll_mirrors [OF laws] by blast
  have "reg (io_kernel m') fd = None"
    using seq_close cancelAll_removes [OF laws closes] by blast
  then have "reg (close (io_kernel m') fd) = reg (io_kernel m')"
    using closes by (simp add: close_laws_def fun_upd_idem)
  then show ?case by (rule mirrors_kernel [OF m'])
next
  case (seq_ready a m evs m')
  then obtain i where "i < length (io_contexts m)" "a = io_contexts m ! i"
    by (auto simp: in_set_conv_nth)
  then show ?case using ready_at_mirrors [OF laws seq_ready.prems] seq_ready.hyps by simp
next
  case (seq_expire m addr now)
  then show ?case
    by (simp add: schedule_expired_def schedule_all_def mirrors_def split: prod.splits)
qed

lemma new_io_manager_mirrors:
  fixes k :: 'k
  assumes "\<And>fd. fd \<noteq> tfd \<Longrightarrow> reg k fd = None"
  shows "mirrors tfd reg (new_io_manager self now k :: ('c, 'k) io_manager)"
proof -
  let ?m = "new_io_manager self now k :: ('c, 'k) io_manager"
  have "io_contexts ?m = [0..<32]"
    by (simp add: new_io_manager_def contextResize_def)
  then have "distinct (io_contexts ?m) \<and> (\<forall>a \<in> set (io_contexts ?m). a < 32)"
    by (simp only: distinct_upt set_upt) simp
  then show ?thesis
    using assms by (simp add: mirrors_def new_fd_context_def entry_of_def)
qed

text \<open>A descriptor with a registered event that is closed without the hook.\<close>

theorem unhooked_close_breaks:
  assumes "close_laws ctl close reg" and "mirrors tfd reg m" and "0 \<le> fd" "fd \<noteq> tfd"
    and "nat fd < length (io_contexts m)" and "fc_events (io_heap m (io_contexts m ! nat fd)) \<noteq> 0"
  shows "\<not> mirrors tfd reg (m\<lparr>io_kernel := close (io_kernel m) fd\<rparr>)"
  using assms mirrors_at [of tfd reg "m\<lparr>io_kernel := close (io_kernel m) fd\<rparr>" "nat fd"]
  by (auto simp: close_laws_def entry_of_def)


definition list_ctl :: "(int \<Rightarrow> (u32 \<times> nat) option) epoll_ctl" where
  "list_ctl k op fd evs p =
     (case op of
        CtlAdd \<Rightarrow> if k fd = None then (0, k(fd \<mapsto> (evs, p))) else (-1, k)
      | CtlMod \<Rightarrow> if k fd \<noteq> None then (0, k(fd \<mapsto> (evs, p))) else (-1, k)
      | CtlDel \<Rightarrow> if k fd \<noteq> None then (0, k(fd := None)) else (-1, k))"


end
