(* ===== verification/Fibers.thy ===== *)
theory Fibers
  imports Prelude
begin

text \<open>
  Fibers, \<open>src/Fiber.cpp\<close>, with the libco contexts that the header selects by default. A fiber lives at
  an address; the thread-local pointers (the current fiber, the thread's first fiber, and the
  scheduler and main fiber that \<open>src/Scheduler.cpp\<close> keeps) are maps from thread ids. A context
  switch is control flow, so the operations give the state at the switch.
\<close>

section \<open>State\<close>

datatype status = S_INIT | S_HOLD | S_EXEC | S_TERM | S_READY | S_EXCEPT

text \<open>What a fiber runs: a client's function, or a scheduler's loop or idle function.\<close>

datatype 'c job = Job 'c | RunJob nat | IdleJob nat

record 'c fiber =
  fb_id :: u64
  fb_stacksize :: u32
  fb_status :: status
  fb_stack :: bool
  fb_callback :: "'c job option"
  fb_use_caller :: bool

record 'c fibers =
  fs_store :: "nat \<Rightarrow> 'c fiber"
  fs_next :: nat
  fs_fiber_id :: u64
  fs_fiber_count :: u64
  fs_this :: "int \<Rightarrow> nat option"
  fs_threadFiber :: "int \<Rightarrow> nat option"
  fs_sched :: "int \<Rightarrow> nat option"
  fs_mainFiber :: "int \<Rightarrow> nat option"

abbreviation status_of :: "'c fibers \<Rightarrow> nat \<Rightarrow> status" where
  "status_of fs f \<equiv> fb_status (fs_store fs f)"

definition main_fiber :: "'c fiber" where
  "main_fiber =
     \<lparr>fb_id = 0, fb_stacksize = 0, fb_status = S_EXEC, fb_stack = False, fb_callback = None,
      fb_use_caller = False\<rparr>"

definition no_fibers :: "'c fibers" where
  "no_fibers =
     \<lparr>fs_store = (\<lambda>_. main_fiber), fs_next = 0, fs_fiber_id = 0, fs_fiber_count = 0,
      fs_this = (\<lambda>_. None), fs_threadFiber = (\<lambda>_. None), fs_sched = (\<lambda>_. None),
      fs_mainFiber = (\<lambda>_. None)\<rparr>"

definition set_fiber :: "nat \<Rightarrow> ('c fiber \<Rightarrow> 'c fiber) \<Rightarrow> 'c fibers \<Rightarrow> 'c fibers" where
  "set_fiber f g fs = fs\<lparr>fs_store := (fs_store fs)(f := g (fs_store fs f))\<rparr>"

definition set_status :: "nat \<Rightarrow> status \<Rightarrow> 'c fibers \<Rightarrow> 'c fibers" where
  "set_status f st = set_fiber f (\<lambda>c. c\<lparr>fb_status := st\<rparr>)"

definition SetThis :: "int \<Rightarrow> nat option \<Rightarrow> 'c fibers \<Rightarrow> 'c fibers" where
  "SetThis tid f fs = fs\<lparr>fs_this := (fs_this fs)(tid := f)\<rparr>"

section \<open>Construction and destruction\<close>

text \<open>The private constructor makes the fiber of a thread that runs already.\<close>

definition Fiber_main :: "int \<Rightarrow> 'c fibers \<Rightarrow> nat \<times> 'c fibers" where
  "Fiber_main tid fs =
     (fs_next fs,
      SetThis tid (Some (fs_next fs))
        (fs\<lparr>fs_store := (fs_store fs)(fs_next fs := main_fiber), fs_next := Suc (fs_next fs),
           fs_fiber_count := fs_fiber_count fs + 1\<rparr>))"

definition Fiber_new ::
  "u32 \<Rightarrow> 'c job option \<Rightarrow> u64 \<Rightarrow> bool \<Rightarrow> 'c fibers \<Rightarrow> nat \<times> 'c fibers" where
  "Fiber_new default_size cb stacksize use_caller fs =
     (fs_next fs,
      fs\<lparr>fs_store := (fs_store fs)(fs_next fs :=
            \<lparr>fb_id = fs_fiber_id fs + 1,
             fb_stacksize = (if stacksize \<noteq> 0 then ucast stacksize else default_size),
             fb_status = S_INIT, fb_stack = True, fb_callback = cb, fb_use_caller = use_caller\<rparr>),
         fs_next := Suc (fs_next fs), fs_fiber_id := fs_fiber_id fs + 1,
         fs_fiber_count := fs_fiber_count fs + 1\<rparr>)"

definition Fiber_delete :: "int \<Rightarrow> nat \<Rightarrow> 'c fibers \<Rightarrow> 'c fibers res" where
  "Fiber_delete tid f fs =
     (let c = fs_store fs f;
          fs1 = fs\<lparr>fs_fiber_count := fs_fiber_count fs - 1\<rparr>
      in if fb_stack c then
           if fb_status c \<in> {S_TERM, S_EXCEPT, S_INIT} then Inr fs1 else Inl AssertFail
         else if fb_callback c \<noteq> None then Inl AssertFail
         else if fb_status c \<noteq> S_EXEC then Inl AssertFail
         else Inr (if fs_this fs tid = Some f then SetThis tid None fs1 else fs1))"

definition Fiber_reset :: "'c job option \<Rightarrow> nat \<Rightarrow> 'c fibers \<Rightarrow> 'c fibers res" where
  "Fiber_reset cb f fs =
     (let c = fs_store fs f in
      if \<not> fb_stack c then Inl AssertFail
      else if fb_status c \<notin> {S_TERM, S_EXCEPT, S_INIT} then Inl AssertFail
      else Inr (set_fiber f (\<lambda>c. c\<lparr>fb_callback := cb, fb_status := S_INIT\<rparr>) fs))"

section \<open>Switching\<close>

definition Fiber_call :: "int \<Rightarrow> nat \<Rightarrow> 'c fibers \<Rightarrow> 'c fibers res" where
  "Fiber_call tid f fs =
     (if fs_threadFiber fs tid = None then Inl NullDeref
      else Inr (set_status f S_EXEC (SetThis tid (Some f) fs)))"

definition Fiber_back :: "int \<Rightarrow> 'c fibers \<Rightarrow> 'c fibers res" where
  "Fiber_back tid fs =
     (case fs_threadFiber fs tid of
        None \<Rightarrow> Inl NullDeref
      | Some m \<Rightarrow> Inr (SetThis tid (Some m) fs))"

definition swapIn :: "int \<Rightarrow> nat \<Rightarrow> 'c fibers \<Rightarrow> 'c fibers res" where
  "swapIn tid f fs =
     (if status_of fs f = S_EXEC then Inl AssertFail
      else if fs_mainFiber fs tid = None then Inl NullDeref
      else Inr (set_status f S_EXEC (SetThis tid (Some f) fs)))"

definition swapOut :: "int \<Rightarrow> 'c fibers \<Rightarrow> 'c fibers res" where
  "swapOut tid fs =
     (case fs_mainFiber fs tid of
        None \<Rightarrow> Inl NullDeref
      | Some m \<Rightarrow> Inr (SetThis tid (Some m) fs))"

definition GetThis :: "int \<Rightarrow> 'c fibers \<Rightarrow> nat \<times> 'c fibers" where
  "GetThis tid fs =
     (case fs_this fs tid of
        Some f \<Rightarrow> (f, fs)
      | None \<Rightarrow>
          let (m, fs1) = Fiber_main tid fs
          in (m, fs1\<lparr>fs_threadFiber := (fs_threadFiber fs1)(tid := Some m)\<rparr>))"

definition YieldToReady :: "int \<Rightarrow> 'c fibers \<Rightarrow> 'c fibers res" where
  "YieldToReady tid fs =
     (let (cur, fs1) = GetThis tid fs in swapOut tid (set_status cur S_READY fs1))"

definition YieldToHold :: "int \<Rightarrow> 'c fibers \<Rightarrow> 'c fibers res" where
  "YieldToHold tid fs =
     (let (cur, fs1) = GetThis tid fs in
      if status_of fs1 cur \<noteq> S_EXEC then Inl AssertFail else swapOut tid fs1)"

definition GetFiberId :: "int \<Rightarrow> 'c fibers \<Rightarrow> u64" where
  "GetFiberId tid fs =
     (case fs_this fs tid of Some f \<Rightarrow> fb_id (fs_store fs f) | None \<Rightarrow> 0)"

definition TotalFibers :: "'c fibers \<Rightarrow> u64" where
  "TotalFibers fs = fs_fiber_count fs"

section \<open>The end of a fiber's function\<close>

text \<open>
  The function returns or throws; calling an empty function throws \<open>std::bad_function_call\<close>. Only
  a return clears it.
\<close>

definition run_body :: "bool \<Rightarrow> nat \<Rightarrow> 'c fibers \<Rightarrow> 'c fibers" where
  "run_body throws f fs =
     (if throws \<or> fb_callback (fs_store fs f) = None then set_status f S_EXCEPT fs
      else set_fiber f (\<lambda>c. c\<lparr>fb_callback := None, fb_status := S_TERM\<rparr>) fs)"

definition MainFunc :: "int \<Rightarrow> bool \<Rightarrow> 'c fibers \<Rightarrow> 'c fibers res" where
  "MainFunc tid throws fs =
     (let (cur, fs1) = GetThis tid fs in swapOut tid (run_body throws cur fs1))"

definition MainFuncCaller :: "int \<Rightarrow> bool \<Rightarrow> 'c fibers \<Rightarrow> 'c fibers res" where
  "MainFuncCaller tid throws fs =
     (let (cur, fs1) = GetThis tid fs in Fiber_back tid (run_body throws cur fs1))"

section \<open>Basic facts\<close>

lemma set_fiber_simps [simp]:
  "fs_next (set_fiber f g fs) = fs_next fs"
  "fs_this (set_fiber f g fs) = fs_this fs"
  "fs_mainFiber (set_fiber f g fs) = fs_mainFiber fs"
  "fs_threadFiber (set_fiber f g fs) = fs_threadFiber fs"
  "fs_sched (set_fiber f g fs) = fs_sched fs"
  "fs_store (set_fiber f g fs) = (fs_store fs)(f := g (fs_store fs f))"
  by (simp_all add: set_fiber_def)

lemma SetThis_simps [simp]:
  "fs_next (SetThis tid f fs) = fs_next fs"
  "fs_this (SetThis tid f fs) = (fs_this fs)(tid := f)"
  "fs_mainFiber (SetThis tid f fs) = fs_mainFiber fs"
  "fs_threadFiber (SetThis tid f fs) = fs_threadFiber fs"
  "fs_sched (SetThis tid f fs) = fs_sched fs"
  "fs_store (SetThis tid f fs) = fs_store fs"
  by (simp_all add: SetThis_def)

lemma set_status_simps [simp]:
  "fs_next (set_status f st fs) = fs_next fs"
  "fs_this (set_status f st fs) = fs_this fs"
  "fs_mainFiber (set_status f st fs) = fs_mainFiber fs"
  "fs_threadFiber (set_status f st fs) = fs_threadFiber fs"
  "fs_sched (set_status f st fs) = fs_sched fs"
  "status_of (set_status f st fs) g = (if g = f then st else status_of fs g)"
  "fb_stack (fs_store (set_status f st fs) g) = fb_stack (fs_store fs g)"
  by (simp_all add: set_status_def)

end
