(* ===== verification/Scheduler.thy ===== *)
theory Scheduler
  imports Fibers
begin

text \<open>
  The scheduler of \<open>src/Scheduler.cpp\<close> and \<open>src/Scheduler.h\<close>: a queue of fibers and callbacks, each
  perhaps pinned to a thread, and the loop \<open>run\<close> that every thread executes. The loop is cut where
  another thread can come between: picking an entry (under the lock), entering its fiber, coming
  back and decreasing the counter, and settling the fiber's state. The thread's id is an argument;
  \<open>sc_tickles\<close> counts the calls of the virtual \<open>tickle\<close>. The counters are 64-bit words.
\<close>

section \<open>State\<close>

record 'c fiber_and_thread =
  ft_fiber :: "nat option"
  ft_callback :: "'c job option"
  ft_thread :: int

record 'c schedular =
  sc_self :: nat
  sc_fs :: "'c fibers"
  sc_queue :: "'c fiber_and_thread list"
  sc_root_fiber :: "nat option"
  sc_threads :: "int list"
  sc_thread_ids :: "int list"
  sc_thread_cnt :: u64
  sc_active :: u64
  sc_idle :: u64
  sc_stopping :: bool
  sc_autostop :: bool
  sc_root_thread :: int
  sc_tickles :: nat

text \<open>The local variables \<open>idle_fiber\<close> and \<open>cb_fiber\<close> of \<open>run\<close>.\<close>

record run_locals =
  rl_idle :: nat
  rl_cb :: "nat option"

definition on_fs :: "('c fibers \<Rightarrow> 'c fibers) \<Rightarrow> 'c schedular \<Rightarrow> 'c schedular" where
  "on_fs g s = s\<lparr>sc_fs := g (sc_fs s)\<rparr>"

definition sched_tickle :: "'c schedular \<Rightarrow> 'c schedular" where
  "sched_tickle s = s\<lparr>sc_tickles := Suc (sc_tickles s)\<rparr>"

section \<open>Scheduling\<close>

definition of_fiber :: "nat option \<Rightarrow> int \<Rightarrow> 'c fiber_and_thread" where
  "of_fiber f tid = \<lparr>ft_fiber = f, ft_callback = None, ft_thread = tid\<rparr>"

definition of_callback :: "'c job option \<Rightarrow> int \<Rightarrow> 'c fiber_and_thread" where
  "of_callback cb tid = \<lparr>ft_fiber = None, ft_callback = cb, ft_thread = tid\<rparr>"

definition scheduleNoLock :: "'c fiber_and_thread \<Rightarrow> 'c schedular \<Rightarrow> bool \<times> 'c schedular" where
  "scheduleNoLock ft s =
     (sc_queue s = [],
      if ft_fiber ft \<noteq> None \<or> ft_callback ft \<noteq> None then s\<lparr>sc_queue := sc_queue s @ [ft]\<rparr> else s)"

definition schedule_ft :: "'c fiber_and_thread \<Rightarrow> 'c schedular \<Rightarrow> 'c schedular" where
  "schedule_ft ft s =
     (let (need_tickle, s1) = scheduleNoLock ft s in if need_tickle then sched_tickle s1 else s1)"

fun schedule_loop :: "'c fiber_and_thread list \<Rightarrow> bool \<Rightarrow> 'c schedular \<Rightarrow> bool \<times> 'c schedular" where
  "schedule_loop [] need_tickle s = (need_tickle, s)"
| "schedule_loop (ft # fts) need_tickle s =
     (let (b, s1) = scheduleNoLock ft s in schedule_loop fts (b \<or> need_tickle) s1)"

definition schedule_range :: "'c fiber_and_thread list \<Rightarrow> 'c schedular \<Rightarrow> 'c schedular" where
  "schedule_range fts s =
     (let (need_tickle, s1) = schedule_loop fts False s in if need_tickle then sched_tickle s1 else s1)"

section \<open>Construction, start and stop\<close>

definition setThis :: "int \<Rightarrow> 'c schedular \<Rightarrow> 'c schedular" where
  "setThis tid s = on_fs (\<lambda>fs. fs\<lparr>fs_sched := (fs_sched fs)(tid := Some (sc_self s))\<rparr>) s"

definition set_mainFiber :: "int \<Rightarrow> nat \<Rightarrow> 'c schedular \<Rightarrow> 'c schedular" where
  "set_mainFiber tid f s = on_fs (\<lambda>fs. fs\<lparr>fs_mainFiber := (fs_mainFiber fs)(tid := Some f)\<rparr>) s"

definition Schedular_new ::
  "u32 \<Rightarrow> u64 \<Rightarrow> bool \<Rightarrow> nat \<Rightarrow> int \<Rightarrow> 'c fibers \<Rightarrow> 'c schedular res" where
  "Schedular_new default_size threads use_caller self tid fs =
     (let s = \<lparr>sc_self = self, sc_fs = fs, sc_queue = [], sc_root_fiber = None, sc_threads = [],
               sc_thread_ids = [], sc_thread_cnt = threads, sc_active = 0, sc_idle = 0,
               sc_stopping = True, sc_autostop = False, sc_root_thread = -1, sc_tickles = 0\<rparr>
      in if threads = 0 then Inl AssertFail
         else if \<not> use_caller then Inr s
         else
           let fs1 = snd (GetThis tid fs) in
           if fs_sched fs1 tid \<noteq> None then Inl AssertFail
           else
             let s1 = setThis tid (s\<lparr>sc_fs := fs1\<rparr>);
                 (root, fs2) = Fiber_new default_size (Some (RunJob self)) 0 True (sc_fs s1)
             in Inr (set_mainFiber tid root
                  (s1\<lparr>sc_fs := fs2, sc_root_fiber := Some root, sc_root_thread := tid,
                      sc_thread_ids := [tid], sc_thread_cnt := threads - 1\<rparr>)))"

definition Schedular_delete :: "int \<Rightarrow> 'c schedular \<Rightarrow> 'c schedular res" where
  "Schedular_delete tid s =
     (if \<not> sc_stopping s then Inl AssertFail
      else Inr (if fs_sched (sc_fs s) tid = Some (sc_self s)
                then on_fs (\<lambda>fs. fs\<lparr>fs_sched := (fs_sched fs)(tid := None)\<rparr>) s else s))"

text \<open>\<open>tids\<close> are the ids of the threads it creates.\<close>

definition sched_start :: "int list \<Rightarrow> 'c schedular \<Rightarrow> 'c schedular res" where
  "sched_start tids s =
     (if \<not> sc_stopping s then Inr s
      else if sc_threads s \<noteq> [] then Inl AssertFail
      else Inr (s\<lparr>sc_stopping := False, sc_threads := take (unat (sc_thread_cnt s)) tids,
                  sc_thread_ids := sc_thread_ids s @ take (unat (sc_thread_cnt s)) tids\<rparr>))"

definition sched_stopping :: "'c schedular \<Rightarrow> bool" where
  "sched_stopping s \<longleftrightarrow> sc_autostop s \<and> sc_stopping s \<and> sc_queue s = [] \<and> sc_active s = 0"

text \<open>
  \<open>stop\<close> up to the point where it is done, runs the root fiber, or waits for the threads it
  returns.
\<close>

datatype stop_next = StopDone | StopCall nat | StopJoin "int list"

definition swap_threads :: "'c schedular \<Rightarrow> stop_next \<times> 'c schedular" where
  "swap_threads s = (StopJoin (sc_threads s), s\<lparr>sc_threads := []\<rparr>)"

definition sched_stop :: "int \<Rightarrow> 'c schedular \<Rightarrow> (stop_next \<times> 'c schedular) res" where
  "sched_stop tid s0 =
     (let s = s0\<lparr>sc_autostop := True\<rparr>;
          early = (case sc_root_fiber s of
                     Some r \<Rightarrow> sc_thread_cnt s = 0 \<and> status_of (sc_fs s) r \<in> {S_TERM, S_INIT}
                   | None \<Rightarrow> False);
          s1 = (if early then s\<lparr>sc_stopping := True\<rparr> else s)
      in if early \<and> sched_stopping s1 then Inr (StopDone, s1)
         else if (sc_root_thread s1 \<noteq> -1) \<noteq> (fs_sched (sc_fs s1) tid = Some (sc_self s1))
         then Inl AssertFail
         else
           let s2 = (sched_tickle ^^ unat (sc_thread_cnt s1)) (s1\<lparr>sc_stopping := True\<rparr>) in
           case sc_root_fiber s2 of
             None \<Rightarrow> Inr (swap_threads s2)
           | Some r \<Rightarrow>
               let s3 = sched_tickle s2 in
               if sched_stopping s3 then Inr (swap_threads s3)
               else bindE (Fiber_call tid r (sc_fs s3)) (\<lambda>fs. Inr (StopCall r, s3\<lparr>sc_fs := fs\<rparr>)))"

text \<open>The base class's \<open>idle\<close>: one test of \<open>stopping\<close>, then the fiber ends or yields.\<close>

definition idle_turn :: "int \<Rightarrow> 'c schedular \<Rightarrow> (bool \<times> 'c schedular) res" where
  "idle_turn tid s =
     (if sched_stopping s then Inr (False, s)
      else bindE (YieldToHold tid (sc_fs s)) (\<lambda>fs. Inr (True, s\<lparr>sc_fs := fs\<rparr>)))"

section \<open>The loop of a thread\<close>

definition run_enter :: "u32 \<Rightarrow> int \<Rightarrow> 'c schedular \<Rightarrow> run_locals \<times> 'c schedular" where
  "run_enter default_size tid s =
     (let s1 = setThis tid s;
          s2 = (if tid \<noteq> sc_root_thread s1
                then let (m, fs) = GetThis tid (sc_fs s1) in set_mainFiber tid m (s1\<lparr>sc_fs := fs\<rparr>)
                else s1);
          (idle, fs) = Fiber_new default_size (Some (IdleJob (sc_self s2))) 0 False (sc_fs s2)
      in (\<lparr>rl_idle = idle, rl_cb = None\<rparr>, s2\<lparr>sc_fs := fs\<rparr>))"

text \<open>The search of the queue: the entry taken, the rest, and \<open>tickle_me\<close>.\<close>

fun pick ::
  "int \<Rightarrow> (nat \<Rightarrow> status) \<Rightarrow> 'c fiber_and_thread list
   \<Rightarrow> ('c fiber_and_thread option \<times> 'c fiber_and_thread list \<times> bool) res" where
  "pick tid st [] = Inr (None, [], False)"
| "pick tid st (it # q) =
     (if ft_thread it \<noteq> -1 \<and> ft_thread it \<noteq> tid then
        bindE (pick tid st q) (\<lambda>(r, q', t). Inr (r, it # q', True))
      else if ft_fiber it = None \<and> ft_callback it = None then Inl AssertFail
      else if (case ft_fiber it of Some f \<Rightarrow> st f = S_EXEC | None \<Rightarrow> False) then
        bindE (pick tid st q) (\<lambda>(r, q', t). Inr (r, it # q', t))
      else Inr (Some it, q, False))"

definition run_pick ::
  "int \<Rightarrow> 'c schedular \<Rightarrow> ('c fiber_and_thread option \<times> 'c schedular) res" where
  "run_pick tid s =
     bindE (pick tid (status_of (sc_fs s)) (sc_queue s)) (\<lambda>(r, q, tickle_me).
       let s1 = s\<lparr>sc_queue := q, sc_active := (if r = None then sc_active s else sc_active s + 1)\<rparr>
       in Inr (r, if tickle_me then sched_tickle s1 else s1))"

datatype run_kind = OfFiber | OfCallback | OfIdle

datatype next_turn = Enter run_kind nat | Again | Leave

definition enter_fiber ::
  "int \<Rightarrow> run_kind \<Rightarrow> nat \<Rightarrow> run_locals \<Rightarrow> 'c schedular \<Rightarrow> (next_turn \<times> run_locals \<times> 'c schedular) res"
where
  "enter_fiber tid kind f l s =
     bindE (swapIn tid f (sc_fs s)) (\<lambda>fs. Inr (Enter kind f, l, s\<lparr>sc_fs := fs\<rparr>))"

text \<open>A callback runs in the thread's \<open>cb_fiber\<close>.\<close>

definition dispatch_callback ::
  "u32 \<Rightarrow> int \<Rightarrow> 'c job \<Rightarrow> run_locals \<Rightarrow> 'c schedular
   \<Rightarrow> (next_turn \<times> run_locals \<times> 'c schedular) res" where
  "dispatch_callback default_size tid cb l s =
     (case rl_cb l of
        Some c \<Rightarrow>
          bindE (Fiber_reset (Some cb) c (sc_fs s)) (\<lambda>fs.
            enter_fiber tid OfCallback c l (s\<lparr>sc_fs := fs\<rparr>))
      | None \<Rightarrow>
          let (c, fs) = Fiber_new default_size (Some cb) 0 False (sc_fs s)
          in enter_fiber tid OfCallback c (l\<lparr>rl_cb := Some c\<rparr>) (s\<lparr>sc_fs := fs\<rparr>))"

definition dispatch_idle ::
  "int \<Rightarrow> run_locals \<Rightarrow> 'c schedular \<Rightarrow> (next_turn \<times> run_locals \<times> 'c schedular) res" where
  "dispatch_idle tid l s =
     (if status_of (sc_fs s) (rl_idle l) = S_TERM then Inr (Leave, l, s)
      else enter_fiber tid OfIdle (rl_idle l) l (s\<lparr>sc_idle := sc_idle s + 1\<rparr>))"

text \<open>From the entry taken to \<open>swapIn\<close>.\<close>

definition run_dispatch ::
  "u32 \<Rightarrow> int \<Rightarrow> 'c fiber_and_thread option \<Rightarrow> run_locals \<Rightarrow> 'c schedular
   \<Rightarrow> (next_turn \<times> run_locals \<times> 'c schedular) res" where
  "run_dispatch default_size tid taken l s =
     (let fiber = (case taken of Some ft \<Rightarrow> ft_fiber ft | None \<Rightarrow> None);
          callback = (case taken of Some ft \<Rightarrow> ft_callback ft | None \<Rightarrow> None);
          runnable = (case fiber of
                        Some f \<Rightarrow> status_of (sc_fs s) f \<notin> {S_TERM, S_EXCEPT} | None \<Rightarrow> False)
      in if runnable then enter_fiber tid OfFiber (the fiber) l s
         else
           case callback of
             Some cb \<Rightarrow> dispatch_callback default_size tid cb l s
           | None \<Rightarrow>
               if taken \<noteq> None then Inr (Again, l, s\<lparr>sc_active := sc_active s - 1\<rparr>)
               else dispatch_idle tid l s)"

text \<open>Back from \<open>swapIn\<close>: the counter.\<close>

definition run_return :: "run_kind \<Rightarrow> 'c schedular \<Rightarrow> 'c schedular" where
  "run_return kind s =
     (if kind = OfIdle then s\<lparr>sc_idle := sc_idle s - 1\<rparr> else s\<lparr>sc_active := sc_active s - 1\<rparr>)"

text \<open>And what becomes of the fiber.\<close>

definition run_settle ::
  "run_kind \<Rightarrow> nat \<Rightarrow> run_locals \<Rightarrow> 'c schedular \<Rightarrow> (run_locals \<times> 'c schedular) res" where
  "run_settle kind f l s =
     (let st = status_of (sc_fs s) f in
      case kind of
        OfFiber \<Rightarrow>
          Inr (l, if st = S_READY then schedule_ft (of_fiber (Some f) (-1)) s
                  else if st \<notin> {S_TERM, S_EXCEPT} then on_fs (set_status f S_HOLD) s
                  else s)
      | OfCallback \<Rightarrow>
          if st = S_READY then
            Inr (l\<lparr>rl_cb := None\<rparr>, schedule_ft (of_fiber (Some f) (-1)) s)
          else if st \<in> {S_TERM, S_EXCEPT} then
            bindE (Fiber_reset None f (sc_fs s)) (\<lambda>fs. Inr (l, s\<lparr>sc_fs := fs\<rparr>))
          else Inr (l\<lparr>rl_cb := None\<rparr>, on_fs (set_status f S_HOLD) s)
      | OfIdle \<Rightarrow>
          Inr (l, if st \<notin> {S_TERM, S_EXCEPT} then on_fs (set_status f S_HOLD) s else s))"

section \<open>Moving to another thread or scheduler\<close>

text \<open>Whether the fiber has to yield; it is queued first.\<close>

definition switchTo :: "int \<Rightarrow> int \<Rightarrow> 'c schedular \<Rightarrow> (bool \<times> 'c schedular) res" where
  "switchTo tid thread s =
     (if fs_sched (sc_fs s) tid = None then Inl AssertFail
      else if fs_sched (sc_fs s) tid = Some (sc_self s) \<and> (thread = -1 \<or> thread = tid)
      then Inr (False, s)
      else
        let (cur, fs) = GetThis tid (sc_fs s);
            s1 = schedule_ft (of_fiber (Some cur) thread) (s\<lparr>sc_fs := fs\<rparr>)
        in bindE (YieldToHold tid (sc_fs s1)) (\<lambda>fs1. Inr (True, s1\<lparr>sc_fs := fs1\<rparr>)))"

text \<open>\<open>SchedularSwitcher\<close>: its constructor for the target's scheduler, its destructor for the caller's.\<close>

definition switcher_enter ::
  "int \<Rightarrow> bool \<Rightarrow> 'c schedular \<Rightarrow> (nat option \<times> bool \<times> 'c schedular) res" where
  "switcher_enter tid has_target s =
     (let caller = fs_sched (sc_fs s) tid in
      if has_target then bindE (switchTo tid (-1) s) (\<lambda>(b, s1). Inr (caller, b, s1))
      else Inr (caller, False, s))"

definition switcher_leave ::
  "int \<Rightarrow> nat option \<Rightarrow> 'c schedular \<Rightarrow> (bool \<times> 'c schedular) res" where
  "switcher_leave tid caller s =
     (if caller = None then Inr (False, s) else switchTo tid (-1) s)"

end
