(* ===== verification/SchedulerProps.thy ===== *)
theory SchedulerProps
  imports Scheduler
begin

text \<open>
  The threads of the scheduler as a step relation: every thread is at one point of the loop \<open>run\<close>,
  or inside a fiber, which schedules, yields or ends. Which entry a thread takes, what the counter
  of active threads counts, and when no fiber is on two threads.
\<close>

section \<open>The search of the queue\<close>

definition eligible :: "int \<Rightarrow> (nat \<Rightarrow> status) \<Rightarrow> 'c fiber_and_thread \<Rightarrow> bool" where
  "eligible tid st it \<longleftrightarrow> (ft_thread it = -1 \<or> ft_thread it = tid) \<and>
     (\<forall>f. ft_fiber it = Some f \<longrightarrow> st f \<noteq> S_EXEC)"

definition nonempty :: "'c fiber_and_thread \<Rightarrow> bool" where
  "nonempty it \<longleftrightarrow> ft_fiber it \<noteq> None \<or> ft_callback it \<noteq> None"

lemma pick_Inr:
  assumes "\<forall>it \<in> set q. nonempty it"
  shows "\<exists>t. pick tid st q =
    (case dropWhile (\<lambda>it. \<not> eligible tid st it) q of
       [] \<Rightarrow> Inr (None, q, t)
     | it # post \<Rightarrow> Inr (Some it, takeWhile (\<lambda>it. \<not> eligible tid st it) q @ post, t))"
  using assms
proof (induction q)
  case (Cons it q)
  then obtain t where t: "pick tid st q =
    (case dropWhile (\<lambda>it. \<not> eligible tid st it) q of
       [] \<Rightarrow> Inr (None, q, t)
     | it # post \<Rightarrow> Inr (Some it, takeWhile (\<lambda>it. \<not> eligible tid st it) q @ post, t))"
    by auto
  show ?case
  proof (cases "eligible tid st it")
    case True
    then show ?thesis
      using Cons.prems by (auto simp: eligible_def nonempty_def split: option.splits)
  next
    case False
    have "nonempty it" using Cons.prems by simp
    then obtain u where u: "pick tid st (it # q) = bindE (pick tid st q) (\<lambda>(r, q', t). Inr (r, it # q', u t))"
    proof (cases "ft_thread it \<noteq> -1 \<and> ft_thread it \<noteq> tid")
      case True
      then show ?thesis using that [of "\<lambda>_. True"] by simp
    next
      case pin: False
      then obtain f where "ft_fiber it = Some f" "st f = S_EXEC"
        using False by (auto simp: eligible_def)
      then show ?thesis using that [of "\<lambda>t. t"] pin by simp
    qed
    show ?thesis
    proof (cases "dropWhile (\<lambda>it. \<not> eligible tid st it) q")
      case Nil
      show ?thesis unfolding u t by (simp add: Nil False del: pick.simps)
    next
      case (Cons x post)
      show ?thesis unfolding u t by (simp add: Cons False del: pick.simps)
    qed
  qed
qed (auto intro: exI [of _ False])

lemma pick_result:
  assumes "\<forall>it \<in> set q. nonempty it" and "pick tid st q = Inr (r, q', t)"
  shows "(r = None \<and> q' = q \<and> (\<forall>it \<in> set q. \<not> eligible tid st it)) \<or>
    (\<exists>it pre post. r = Some it \<and> q = pre @ it # post \<and> q' = pre @ post \<and> eligible tid st it \<and>
       (\<forall>x \<in> set pre. \<not> eligible tid st x))"
proof -
  let ?P = "\<lambda>it. \<not> eligible tid st it"
  obtain t' where t': "pick tid st q =
    (case dropWhile ?P q of
       [] \<Rightarrow> Inr (None, q, t') | it # post \<Rightarrow> Inr (Some it, takeWhile ?P q @ post, t'))"
    using pick_Inr [OF assms(1)] by blast
  show ?thesis
  proof (cases "dropWhile ?P q")
    case Nil
    then have "\<forall>it \<in> set q. ?P it" by (simp add: dropWhile_eq_Nil_conv)
    moreover have "r = None \<and> q' = q" using t' Nil assms(2) by simp
    ultimately show ?thesis by blast
  next
    case (Cons it post)
    have "q = takeWhile ?P q @ it # post"
      by (metis Cons takeWhile_dropWhile_id)
    moreover have "eligible tid st it" using hd_dropWhile [of ?P q] Cons by simp
    moreover have "r = Some it \<and> q' = takeWhile ?P q @ post" using t' Cons assms(2) by simp
    moreover have "\<forall>x \<in> set (takeWhile ?P q). ?P x" using set_takeWhileD by metis
    ultimately show ?thesis by blast
  qed
qed

section \<open>Threads\<close>

datatype 'c run_pc =
    Off
  | Looking
  | Holding "'c fiber_and_thread option"
  | Inside run_kind nat
  | Back run_kind nat
  | Settling run_kind nat
  | Gone

record 'c run_system =
  rs_sched :: "'c schedular"
  rs_pc :: "int \<Rightarrow> 'c run_pc"
  rs_locals :: "int \<Rightarrow> run_locals"

fun owns :: "'c run_pc \<Rightarrow> nat \<Rightarrow> bool" where
  "owns (Inside k f) g \<longleftrightarrow> f = g"
| "owns (Back k f) g \<longleftrightarrow> f = g"
| "owns (Settling k f) g \<longleftrightarrow> f = g"
| "owns _ g \<longleftrightarrow> False"

definition holds :: "'c run_pc \<Rightarrow> nat \<Rightarrow> bool" where
  "holds p f \<longleftrightarrow> (\<exists>ft. p = Holding (Some ft) \<and> ft_fiber ft = Some f)"

definition queued :: "'c fiber_and_thread list \<Rightarrow> nat \<Rightarrow> bool" where
  "queued q f \<longleftrightarrow> (\<exists>it \<in> set q. ft_fiber it = Some f)"

text \<open>The fibers that belong to a thread and wait in it: its idle fiber, and its \<open>cb_fiber\<close> while no
  callback runs in it.\<close>

definition parked :: "(int \<Rightarrow> 'c run_pc) \<Rightarrow> (int \<Rightarrow> run_locals) \<Rightarrow> nat \<Rightarrow> bool" where
  "parked pc loc f \<longleftrightarrow>
     (\<exists>t. pc t \<noteq> Off \<and> (rl_idle (loc t) = f \<or> (rl_cb (loc t) = Some f \<and> \<not> owns (pc t) f)))"

text \<open>When handing a fiber to the scheduler is the only way in which it is handed over.\<close>

definition fresh :: "nat \<Rightarrow> 'c run_system \<Rightarrow> bool" where
  "fresh f s \<longleftrightarrow>
     \<not> queued (sc_queue (rs_sched s)) f \<and> (\<forall>t. \<not> holds (rs_pc s t) f) \<and>
     \<not> parked (rs_pc s) (rs_locals s) f \<and>
     status_of (sc_fs (rs_sched s)) f \<notin> {S_TERM, S_EXCEPT} \<and>
     (\<forall>t. owns (rs_pc s t) f \<longrightarrow> status_of (sc_fs (rs_sched s)) f = S_EXEC)"

fun after_turn :: "next_turn \<Rightarrow> 'c run_pc" where
  "after_turn (Enter k f) = Inside k f"
| "after_turn Again = Looking"
| "after_turn Leave = Gone"

definition at_thread ::
  "int \<Rightarrow> 'c run_pc \<Rightarrow> run_locals \<Rightarrow> 'c schedular \<Rightarrow> 'c run_system \<Rightarrow> 'c run_system" where
  "at_thread t p l sch s =
     s\<lparr>rs_sched := sch, rs_pc := (rs_pc s)(t := p), rs_locals := (rs_locals s)(t := l)\<rparr>"

text \<open>
  With \<open>polite\<close>, clients keep a discipline: they schedule a fiber only when it is not handed over
  already, and a fiber that is scheduled neither yields to be scheduled again nor ends. Client
  fibers come from \<open>Fiber_new\<close>; a thread's id is not -1.
\<close>

inductive run_step :: "u32 \<Rightarrow> bool \<Rightarrow> 'c run_system \<Rightarrow> 'c run_system \<Rightarrow> bool"
  for sz :: u32 and polite :: bool where
  enter: "rs_pc s t = Off \<Longrightarrow> t \<noteq> -1 \<Longrightarrow> run_enter sz t (rs_sched s) = (l, sch) \<Longrightarrow>
    run_step sz polite s (at_thread t Looking l sch s)"
| look_up: "rs_pc s t = Looking \<Longrightarrow> run_pick t (rs_sched s) = Inr (r, sch) \<Longrightarrow>
    run_step sz polite s (at_thread t (Holding r) (rs_locals s t) sch s)"
| dispatch: "rs_pc s t = Holding r \<Longrightarrow>
    run_dispatch sz t r (rs_locals s t) (rs_sched s) = Inr (turn, l, sch) \<Longrightarrow>
    run_step sz polite s (at_thread t (after_turn turn) l sch s)"
| yield_ready: "rs_pc s t = Inside k f \<Longrightarrow>
    (polite \<longrightarrow> \<not> queued (sc_queue (rs_sched s)) f) \<Longrightarrow>
    YieldToReady t (sc_fs (rs_sched s)) = Inr fs \<Longrightarrow>
    run_step sz polite s
      (at_thread t (Back k f) (rs_locals s t) ((rs_sched s)\<lparr>sc_fs := fs\<rparr>) s)"
| yield_hold: "rs_pc s t = Inside k f \<Longrightarrow> YieldToHold t (sc_fs (rs_sched s)) = Inr fs \<Longrightarrow>
    run_step sz polite s
      (at_thread t (Back k f) (rs_locals s t) ((rs_sched s)\<lparr>sc_fs := fs\<rparr>) s)"
| finish: "rs_pc s t = Inside k f \<Longrightarrow>
    (polite \<longrightarrow> \<not> queued (sc_queue (rs_sched s)) f) \<Longrightarrow>
    MainFunc t throws (sc_fs (rs_sched s)) = Inr fs \<Longrightarrow>
    run_step sz polite s
      (at_thread t (Back k f) (rs_locals s t) ((rs_sched s)\<lparr>sc_fs := fs\<rparr>) s)"
| come_back: "rs_pc s t = Back k f \<Longrightarrow>
    run_step sz polite s
      (at_thread t (Settling k f) (rs_locals s t) (run_return k (rs_sched s)) s)"
| settle: "rs_pc s t = Settling k f \<Longrightarrow>
    run_settle k f (rs_locals s t) (rs_sched s) = Inr (l, sch) \<Longrightarrow>
    run_step sz polite s (at_thread t Looking l sch s)"
| schedule_fiber: "f < fs_next (sc_fs (rs_sched s)) \<Longrightarrow> (polite \<longrightarrow> fresh f s) \<Longrightarrow>
    run_step sz polite s (s\<lparr>rs_sched := schedule_ft (of_fiber (Some f) tid) (rs_sched s)\<rparr>)"
| schedule_callback:
    "run_step sz polite s (s\<lparr>rs_sched := schedule_ft (of_callback cb tid) (rs_sched s)\<rparr>)"
| make_fiber: "Fiber_new sz (Some (Job c)) n False (sc_fs (rs_sched s)) = (f, fs) \<Longrightarrow>
    run_step sz polite s (s\<lparr>rs_sched := (rs_sched s)\<lparr>sc_fs := fs\<rparr>\<rparr>)"

definition start_system :: "'c schedular \<Rightarrow> 'c run_system" where
  "start_system sch =
     \<lparr>rs_sched = sch, rs_pc = (\<lambda>_. Off), rs_locals = (\<lambda>_. \<lparr>rl_idle = 0, rl_cb = None\<rparr>)\<rparr>"

lemma polite_is_allowed: "run_step sz True s s' \<Longrightarrow> run_step sz False s s'"
  by (cases rule: run_step.cases) (auto intro: run_step.intros)

section \<open>No fiber on two threads\<close>

fun runs :: "'c run_pc \<Rightarrow> (run_kind \<times> nat) option" where
  "runs (Inside k f) = Some (k, f)"
| "runs (Back k f) = Some (k, f)"
| "runs (Settling k f) = Some (k, f)"
| "runs _ = None"

lemma owns_runs: "owns p f \<longleftrightarrow> (\<exists>k. runs p = Some (k, f))"
  by (cases p) auto

definition mine :: "'c run_pc \<Rightarrow> run_locals \<Rightarrow> nat \<Rightarrow> bool" where
  "mine p l f \<longleftrightarrow> owns p f \<or> (p \<noteq> Off \<and> (rl_idle l = f \<or> rl_cb l = Some f))"

text \<open>The kind of a run and the locals of its thread.\<close>

definition kind_ok :: "run_kind \<Rightarrow> nat \<Rightarrow> run_locals \<Rightarrow> bool" where
  "kind_ok k f l \<longleftrightarrow>
     (case k of
        OfFiber \<Rightarrow> rl_idle l \<noteq> f \<and> rl_cb l \<noteq> Some f
      | OfCallback \<Rightarrow> rl_idle l \<noteq> f \<and> rl_cb l = Some f
      | OfIdle \<Rightarrow> rl_idle l = f \<and> rl_cb l \<noteq> Some f)"

text \<open>What one thread's point in the loop says about the fibers.\<close>

definition thread_ok :: "int \<Rightarrow> 'c run_pc \<Rightarrow> run_locals \<Rightarrow> 'c fibers \<Rightarrow> bool" where
  "thread_ok t p l fs \<longleftrightarrow>
     (\<forall>k f. runs p = Some (k, f) \<longrightarrow> kind_ok k f l \<and> f < fs_next fs) \<and>
     (\<forall>k f. p = Inside k f \<longrightarrow> status_of fs f = S_EXEC \<and> fs_this fs t = Some f) \<and>
     (\<forall>k f. p = Back k f \<or> p = Settling k f \<longrightarrow>
        status_of fs f \<in> {S_EXEC, S_READY, S_TERM, S_EXCEPT}) \<and>
     (p \<noteq> Off \<longrightarrow>
        fs_mainFiber fs t \<noteq> None \<and> rl_idle l < fs_next fs \<and>
        (\<not> owns p (rl_idle l) \<longrightarrow> status_of fs (rl_idle l) \<noteq> S_EXEC) \<and>
        (\<forall>c. rl_cb l = Some c \<longrightarrow> c < fs_next fs \<and> c \<noteq> rl_idle l \<and> fb_stack (fs_store fs c) \<and>
           (\<not> owns p c \<longrightarrow> status_of fs c = S_INIT)))"

definition queue_ok :: "'c run_system \<Rightarrow> bool" where
  "queue_ok s \<longleftrightarrow>
     (\<forall>it \<in> set (sc_queue (rs_sched s)). nonempty it) \<and>
     distinct (filter (\<lambda>x. x \<noteq> None) (map ft_fiber (sc_queue (rs_sched s)))) \<and>
     (\<forall>f. queued (sc_queue (rs_sched s)) f \<longrightarrow>
        f < fs_next (sc_fs (rs_sched s)) \<and>
        (\<forall>t. \<not> holds (rs_pc s t) f) \<and> \<not> parked (rs_pc s) (rs_locals s) f \<and>
        status_of (sc_fs (rs_sched s)) f \<notin> {S_TERM, S_EXCEPT} \<and>
        (\<forall>t. owns (rs_pc s t) f \<longrightarrow> status_of (sc_fs (rs_sched s)) f = S_EXEC)) \<and>
     (\<forall>t f. holds (rs_pc s t) f \<longrightarrow>
        f < fs_next (sc_fs (rs_sched s)) \<and>
        status_of (sc_fs (rs_sched s)) f \<notin> {S_EXEC, S_TERM, S_EXCEPT} \<and>
        (\<forall>t'. \<not> mine (rs_pc s t') (rs_locals s t') f \<and> (holds (rs_pc s t') f \<longrightarrow> t' = t)))"

definition loop_ok :: "'c run_system \<Rightarrow> bool" where
  "loop_ok s \<longleftrightarrow>
     (\<forall>t. thread_ok t (rs_pc s t) (rs_locals s t) (sc_fs (rs_sched s))) \<and>
     (\<forall>t t' f. mine (rs_pc s t) (rs_locals s t) f \<longrightarrow> mine (rs_pc s t') (rs_locals s t') f \<longrightarrow> t = t') \<and>
     (sc_root_thread (rs_sched s) \<noteq> -1 \<longrightarrow>
        fs_mainFiber (sc_fs (rs_sched s)) (sc_root_thread (rs_sched s)) \<noteq> None) \<and>
     queue_ok s"

lemma at_thread_simps [simp]:
  "rs_sched (at_thread t p l sch s) = sch"
  "rs_pc (at_thread t p l sch s) = (rs_pc s)(t := p)"
  "rs_locals (at_thread t p l sch s) = (rs_locals s)(t := l)"
  by (simp_all add: at_thread_def)

lemma sched_simps [simp]:
  "sc_fs (schedule_ft ft s) = sc_fs s"
  "sc_queue (schedule_ft ft s) = sc_queue s @ (if nonempty ft then [ft] else [])"
  "sc_root_thread (schedule_ft ft s) = sc_root_thread s"
  "sc_active (schedule_ft ft s) = sc_active s"
  "nonempty (of_fiber (Some f) tid)" "ft_fiber (of_fiber g tid) = g"
  "ft_fiber (of_callback cb tid) = None"
  "sc_fs (run_return k s) = sc_fs s" "sc_queue (run_return k s) = sc_queue s"
  "sc_root_thread (run_return k s) = sc_root_thread s"
  "sc_fs (sched_tickle s) = sc_fs s" "sc_queue (sched_tickle s) = sc_queue s"
  "sc_root_thread (sched_tickle s) = sc_root_thread s" "sc_active (sched_tickle s) = sc_active s"
  by (auto simp: schedule_ft_def scheduleNoLock_def sched_tickle_def Let_def nonempty_def
      of_fiber_def of_callback_def run_return_def)

lemma queued_simps [simp]:
  "queued [] f \<longleftrightarrow> False"
  "queued (it # q) f \<longleftrightarrow> ft_fiber it = Some f \<or> queued q f"
  "queued (q1 @ q2) f \<longleftrightarrow> queued q1 f \<or> queued q2 f"
  by (auto simp: queued_def)

lemma holds_simps [simp]:
  "holds (Holding (Some ft)) f \<longleftrightarrow> ft_fiber ft = Some f"
  "\<not> holds (Holding None) f" "\<not> holds Off f" "\<not> holds Looking f" "\<not> holds (Inside k g) f"
  "\<not> holds (Back k g) f" "\<not> holds (Settling k g) f" "\<not> holds Gone f"
  by (auto simp: holds_def)

lemma owns_mine: "owns p f \<Longrightarrow> mine p l f"
  by (simp add: mine_def)

lemma parked_mine: "parked pc loc f \<Longrightarrow> \<exists>t. mine (pc t) (loc t) f"
  by (auto simp: parked_def mine_def)

lemma distinct_queued:
  "distinct (filter (\<lambda>x. x \<noteq> None) (map ft_fiber q)) \<and> \<not> queued q f \<Longrightarrow>
   distinct (filter (\<lambda>x. x \<noteq> None) (map ft_fiber (q @ [of_fiber (Some f) tid])))"
  by (auto simp: queued_def)

text \<open>Scheduling.\<close>

lemma schedule_fiber_ok:
  assumes ok: "loop_ok s" and f: "f < fs_next (sc_fs (rs_sched s))" "fresh f s"
  shows "loop_ok (s\<lparr>rs_sched := schedule_ft (of_fiber (Some f) tid) (rs_sched s)\<rparr>)"
proof -
  have "\<not> queued (sc_queue (rs_sched s)) f" using f by (simp add: fresh_def)
  then show ?thesis
    using ok f distinct_queued [of "sc_queue (rs_sched s)" f tid]
    unfolding loop_ok_def queue_ok_def fresh_def by auto
qed

lemma schedule_callback_ok:
  "loop_ok s \<Longrightarrow> loop_ok (s\<lparr>rs_sched := schedule_ft (of_callback cb tid) (rs_sched s)\<rparr>)"
  by (auto simp: loop_ok_def queue_ok_def)

lemma Fiber_new_simps:
  assumes "Fiber_new sz cb n uc fs = (f, fs')"
  shows "f = fs_next fs" "fs_next fs' = Suc (fs_next fs)" "fs_this fs' = fs_this fs"
    "fs_mainFiber fs' = fs_mainFiber fs" "g \<noteq> f \<Longrightarrow> fs_store fs' g = fs_store fs g"
    "status_of fs' f = S_INIT" "fb_stack (fs_store fs' f)"
  using assms by (auto simp: Fiber_new_def)

text \<open>A thread is not disturbed by changes of fibers that are not its own.\<close>

lemma thread_ok_other:
  assumes "thread_ok t p l fs" and "fs_next fs \<le> fs_next fs'"
    and "\<And>f. f < fs_next fs \<Longrightarrow> mine p l f \<Longrightarrow> fs_store fs' f = fs_store fs f"
    and "fs_this fs' t = fs_this fs t" and "fs_mainFiber fs t \<noteq> None \<Longrightarrow> fs_mainFiber fs' t \<noteq> None"
  shows "thread_ok t p l fs'"
proof (cases "p = Off")
  case False
  have same: "fs_store fs' f = fs_store fs f" if "mine p l f" for f
  proof -
    have "f < fs_next fs"
      using assms(1) that False by (auto simp: thread_ok_def mine_def owns_runs)
    then show ?thesis using assms(3) that by blast
  qed
  have i: "fs_store fs' (rl_idle l) = fs_store fs (rl_idle l)"
    using same False by (simp add: mine_def)
  have c: "\<And>c. rl_cb l = Some c \<Longrightarrow> fs_store fs' c = fs_store fs c"
    using same False by (simp add: mine_def)
  have run_same: "owns p f \<Longrightarrow> fs_store fs' f = fs_store fs f" for f
    using same by (simp add: mine_def)
  show ?thesis
    using assms(1,2,4,5) i c run_same False unfolding thread_ok_def
    by (cases p; cases "rl_cb l"; force)
qed (simp add: thread_ok_def)

text \<open>A step of one thread: the obligations.\<close>

lemma loop_ok_at:
  assumes ok: "loop_ok s"
    and t: "thread_ok t p l (sc_fs sch)"
    and next_le: "fs_next (sc_fs (rs_sched s)) \<le> fs_next (sc_fs sch)"
    and others: "\<And>f t'. f < fs_next (sc_fs (rs_sched s)) \<Longrightarrow> t' \<noteq> t \<Longrightarrow>
      mine (rs_pc s t') (rs_locals s t') f \<Longrightarrow>
      fs_store (sc_fs sch) f = fs_store (sc_fs (rs_sched s)) f"
    and tls: "\<And>t'. t' \<noteq> t \<Longrightarrow> fs_this (sc_fs sch) t' = fs_this (sc_fs (rs_sched s)) t'"
    and mf: "\<And>t'. fs_mainFiber (sc_fs (rs_sched s)) t' \<noteq> None \<Longrightarrow> fs_mainFiber (sc_fs sch) t' \<noteq> None"
    and root: "sc_root_thread sch = sc_root_thread (rs_sched s)"
    and own: "\<And>f. mine p l f \<Longrightarrow> mine (rs_pc s t) (rs_locals s t) f \<or>
      (\<forall>t'. \<not> mine (rs_pc s t') (rs_locals s t') f)"
    and q: "queue_ok (at_thread t p l sch s)"
  shows "loop_ok (at_thread t p l sch s)"
proof -
  have threads: "thread_ok t' (rs_pc s t') (rs_locals s t') (sc_fs sch)" if "t' \<noteq> t" for t'
    by (rule thread_ok_other [OF _ next_le])
      (use ok others tls mf that in \<open>auto simp: loop_ok_def\<close>)
  have uniq: "mine (rs_pc s a) (rs_locals s a) f \<Longrightarrow> mine (rs_pc s b) (rs_locals s b) f \<Longrightarrow>
      a = b" for a b f
    using ok unfolding loop_ok_def by blast
  have other: "mine p l f \<Longrightarrow> mine (rs_pc s b) (rs_locals s b) f \<Longrightarrow> t = b" for b f
    using own uniq by blast
  have mine_uniq: "a = b"
    if "mine (((rs_pc s)(t := p)) a) (((rs_locals s)(t := l)) a) f"
      "mine (((rs_pc s)(t := p)) b) (((rs_locals s)(t := l)) b) f" for a b f
  proof (cases "a = t")
    case True
    then show ?thesis using that other by (cases "b = t") auto
  next
    case a: False
    then show ?thesis using that other uniq by (cases "b = t") auto
  qed
  show ?thesis
    unfolding loop_ok_def at_thread_simps root
  proof (intro conjI allI)
    show "thread_ok t' (((rs_pc s)(t := p)) t') (((rs_locals s)(t := l)) t') (sc_fs sch)" for t'
      using t threads by (cases "t' = t") simp_all
    show "mine (((rs_pc s)(t := p)) a) (((rs_locals s)(t := l)) a) f \<longrightarrow>
      mine (((rs_pc s)(t := p)) b) (((rs_locals s)(t := l)) b) f \<longrightarrow> a = b" for a b f
      using mine_uniq by blast
    show "sc_root_thread (rs_sched s) \<noteq> -1 \<longrightarrow>
        fs_mainFiber (sc_fs sch) (sc_root_thread (rs_sched s)) \<noteq> None"
      using ok mf unfolding loop_ok_def by blast
  qed (rule q)
qed

text \<open>A step that leaves the queue alone and takes nothing from it.\<close>

lemma queue_ok_at:
  assumes ok: "loop_ok s" and q: "sc_queue sch = sc_queue (rs_sched s)"
    and p: "\<And>f. \<not> holds p f"
    and next_le: "fs_next (sc_fs (rs_sched s)) \<le> fs_next (sc_fs sch)"
    and same: "\<And>f. f < fs_next (sc_fs (rs_sched s)) \<Longrightarrow> \<not> mine p l f \<Longrightarrow>
      \<not> mine (rs_pc s t) (rs_locals s t) f \<Longrightarrow>
      fs_store (sc_fs sch) f = fs_store (sc_fs (rs_sched s)) f"
    and own: "\<And>f. mine p l f \<Longrightarrow> mine (rs_pc s t) (rs_locals s t) f \<or>
      (\<forall>t'. \<not> mine (rs_pc s t') (rs_locals s t') f \<and> (holds (rs_pc s t') f \<longrightarrow> t' = t))"
    and queued: "\<And>f. queued (sc_queue (rs_sched s)) f \<Longrightarrow>
      mine p l f \<or> mine (rs_pc s t) (rs_locals s t) f \<Longrightarrow>
      (p \<noteq> Off \<longrightarrow> rl_idle l \<noteq> f \<and> (rl_cb l = Some f \<longrightarrow> owns p f)) \<and>
      status_of (sc_fs sch) f \<notin> {S_TERM, S_EXCEPT} \<and>
      (owns p f \<longrightarrow> status_of (sc_fs sch) f = S_EXEC)"
  shows "queue_ok (at_thread t p l sch s)"
proof -
  have qok: "queue_ok s" using ok by (simp add: loop_ok_def)
  have uniq: "mine (rs_pc s a) (rs_locals s a) f \<Longrightarrow> mine (rs_pc s b) (rs_locals s b) f \<Longrightarrow>
      a = b" for a b f
    using ok unfolding loop_ok_def by blast
  have others: "mine p l f \<Longrightarrow> mine (rs_pc s b) (rs_locals s b) f \<Longrightarrow> b = t" for b f
    using own uniq by blast
  have queued_now: "f < fs_next (sc_fs sch) \<and> (\<forall>t'. \<not> holds (((rs_pc s)(t := p)) t') f) \<and>
      \<not> parked ((rs_pc s)(t := p)) ((rs_locals s)(t := l)) f \<and>
      status_of (sc_fs sch) f \<notin> {S_TERM, S_EXCEPT} \<and>
      (\<forall>t'. owns (((rs_pc s)(t := p)) t') f \<longrightarrow> status_of (sc_fs sch) f = S_EXEC)"
    if f: "queued (sc_queue (rs_sched s)) f" for f
  proof -
    have old: "f < fs_next (sc_fs (rs_sched s))" "\<forall>t'. \<not> holds (rs_pc s t') f"
      "\<not> parked (rs_pc s) (rs_locals s) f"
      "status_of (sc_fs (rs_sched s)) f \<notin> {S_TERM, S_EXCEPT}"
      "\<forall>t'. owns (rs_pc s t') f \<longrightarrow> status_of (sc_fs (rs_sched s)) f = S_EXEC"
      using qok f by (auto simp: queue_ok_def)
    have park: "\<not> parked ((rs_pc s)(t := p)) ((rs_locals s)(t := l)) f"
      using old(3) queued [OF f] by (auto simp: parked_def mine_def)
    show ?thesis
    proof (cases "mine p l f \<or> mine (rs_pc s t) (rs_locals s t) f")
      case True
      then have "t' = t" if "owns (rs_pc s t') f" for t'
        using that others uniq owns_mine by blast
      then show ?thesis
        using old next_le p park queued [OF f True] by auto
    next
      case False
      then have "fs_store (sc_fs sch) f = fs_store (sc_fs (rs_sched s)) f"
        using same old(1) by blast
      then show ?thesis
        using old next_le p park False by (auto simp: mine_def)
    qed
  qed
  have held_now: "f < fs_next (sc_fs sch) \<and> status_of (sc_fs sch) f \<notin> {S_EXEC, S_TERM, S_EXCEPT} \<and>
      (\<forall>t2. \<not> mine (((rs_pc s)(t := p)) t2) (((rs_locals s)(t := l)) t2) f \<and>
        (holds (((rs_pc s)(t := p)) t2) f \<longrightarrow> t2 = t1))"
    if h: "holds (((rs_pc s)(t := p)) t1) f" for t1 f
  proof -
    have t1: "t1 \<noteq> t" and h1: "holds (rs_pc s t1) f" using h p by (auto split: if_splits)
    have old: "f < fs_next (sc_fs (rs_sched s))"
      "status_of (sc_fs (rs_sched s)) f \<notin> {S_EXEC, S_TERM, S_EXCEPT}"
      "\<And>t2. \<not> mine (rs_pc s t2) (rs_locals s t2) f" "\<And>t2. holds (rs_pc s t2) f \<Longrightarrow> t2 = t1"
      using qok h1 unfolding queue_ok_def by blast+
    have "\<not> mine p l f" using own old(3) h1 t1 by blast
    then show ?thesis
      using old same next_le p t1 by (auto split: if_splits)
  qed
  show ?thesis
    using qok queued_now held_now unfolding queue_ok_def at_thread_simps q by blast
qed

subsection \<open>The steps\<close>

lemma GetThis_simps:
  assumes "GetThis t fs = (m, fs')"
  shows "fs_next fs \<le> fs_next fs' \<and> (\<forall>f < fs_next fs. fs_store fs' f = fs_store fs f) \<and>
    (\<forall>t'. t' \<noteq> t \<longrightarrow> fs_this fs' t' = fs_this fs t') \<and> fs_mainFiber fs' = fs_mainFiber fs \<and>
    fs_sched fs' = fs_sched fs"
  using assms by (auto simp: GetThis_def Fiber_main_def Let_def SetThis_def split: option.splits)

lemma run_enter_result:
  assumes "run_enter sz t s = (l, s')"
  defines "fs \<equiv> sc_fs s" and "fs' \<equiv> sc_fs s'"
  shows "rl_cb l = None \<and> fs_next fs \<le> rl_idle l \<and> rl_idle l < fs_next fs' \<and>
    status_of fs' (rl_idle l) = S_INIT \<and>
    (\<forall>f < fs_next fs. fs_store fs' f = fs_store fs f) \<and>
    (\<forall>t'. t' \<noteq> t \<longrightarrow> fs_this fs' t' = fs_this fs t') \<and>
    (\<forall>t'. fs_mainFiber fs t' \<noteq> None \<longrightarrow> fs_mainFiber fs' t' \<noteq> None) \<and>
    (t \<noteq> sc_root_thread s \<longrightarrow> fs_mainFiber fs' t \<noteq> None) \<and>
    sc_queue s' = sc_queue s \<and> sc_root_thread s' = sc_root_thread s \<and> sc_active s' = sc_active s"
proof -
  let ?fs1 = "sc_fs (setThis t s)"
  have 1: "fs_next ?fs1 = fs_next fs" "fs_store ?fs1 = fs_store fs" "fs_this ?fs1 = fs_this fs"
    "fs_mainFiber ?fs1 = fs_mainFiber fs"
    by (simp_all add: setThis_def on_fs_def fs_def)
  obtain m fs2 where g: "GetThis t ?fs1 = (m, fs2)" by fastforce
  show ?thesis
    using assms(1) g GetThis_simps [OF g] 1
    by (auto simp: run_enter_def Let_def Fiber_new_def set_mainFiber_def on_fs_def fs'_def setThis_def
        split: if_splits)
qed

lemma enter_ok:
  fixes s :: "'c run_system"
  assumes ok: "loop_ok s" and "rs_pc s t = Off" "t \<noteq> -1" and e: "run_enter sz t (rs_sched s) = (l, sch)"
  shows "loop_ok (at_thread t Looking l sch s)"
proof -
  note r = run_enter_result [OF e]
  have main: "fs_mainFiber (sc_fs sch) t \<noteq> None"
    using r ok assms(3) unfolding loop_ok_def by metis
  have bound: "mine (rs_pc s t') (rs_locals s t') f \<Longrightarrow> f < fs_next (sc_fs (rs_sched s))" for t' f
    using ok by (auto simp: loop_ok_def thread_ok_def mine_def owns_runs)
  have held: "holds (rs_pc s t') f \<Longrightarrow> f < fs_next (sc_fs (rs_sched s))" for t' f
    using ok unfolding loop_ok_def queue_ok_def by blast
  have fresh: "f = rl_idle l \<Longrightarrow> \<not> mine (rs_pc s t') (rs_locals s t') f \<and> \<not> holds (rs_pc s t') f" for t' f
    using bound held r by (metis leD)
  have mine: "mine (Looking :: 'c run_pc) l f \<longleftrightarrow> f = rl_idle l" for f using r by (auto simp: mine_def)
  have nomine: "\<not> mine (rs_pc s t) (rs_locals s t) f" for f using assms(2) by (simp add: mine_def)
  have q: "queued (sc_queue (rs_sched s)) f \<Longrightarrow> f < fs_next (sc_fs (rs_sched s))" for f
    using ok unfolding loop_ok_def queue_ok_def by blast
  have notq: "\<not> queued (sc_queue (rs_sched s)) (rl_idle l)"
    using q r by (metis leD)
  show ?thesis
  proof (rule loop_ok_at [OF ok])
    show "thread_ok t Looking l (sc_fs sch)" using r main by (simp add: thread_ok_def)
    show "queue_ok (at_thread t Looking l sch s)"
      by (rule queue_ok_at [OF ok]) (use r fresh in \<open>auto simp: mine nomine notq\<close>)
  qed (use r fresh in \<open>auto simp: mine nomine\<close>)
qed

lemma mine_cases: "mine (pc t) (loc t) f \<Longrightarrow> owns (pc t) f \<or> parked pc loc f"
  by (auto simp: mine_def parked_def)

lemma distinct_removed:
  assumes "distinct (filter (\<lambda>x. x \<noteq> None) (map ft_fiber (pre @ it # post)))"
  shows "distinct (filter (\<lambda>x. x \<noteq> None) (map ft_fiber (pre @ post))) \<and>
    (\<forall>f. ft_fiber it = Some f \<longrightarrow> \<not> queued (pre @ post) f)"
  using assms by (cases "ft_fiber it") (auto simp: queued_def image_iff)

lemma look_up_ok:
  fixes s :: "'c run_system"
  assumes ok: "loop_ok s" and pc: "rs_pc s t = Looking"
    and pick: "run_pick t (rs_sched s) = Inr (r, sch)"
  shows "loop_ok (at_thread t (Holding r) (rs_locals s t) sch s)"
proof -
  let ?q = "sc_queue (rs_sched s)"
  let ?st = "status_of (sc_fs (rs_sched s))"
  have qok: "queue_ok s" and tok: "thread_ok t Looking (rs_locals s t) (sc_fs (rs_sched s))"
    using ok pc unfolding loop_ok_def by metis+
  have ne: "\<forall>it \<in> set ?q. nonempty it" using qok by (simp add: queue_ok_def)
  obtain q' tick where p: "pick t ?st ?q = Inr (r, q', tick)"
    and q': "sc_queue sch = q'" and fs: "sc_fs sch = sc_fs (rs_sched s)"
    and root: "sc_root_thread sch = sc_root_thread (rs_sched s)"
    using pick by (auto simp: run_pick_def bindE_Inr_iff Let_def split: if_splits)
  have mine: "mine (Holding r :: 'c run_pc) (rs_locals s t) f \<longleftrightarrow> mine (rs_pc s t) (rs_locals s t) f" for f
    using pc by (simp add: mine_def)
  have owns: "owns (((rs_pc s)(t := Holding r)) t') f \<longleftrightarrow> owns (rs_pc s t') f" for t' f
    using pc by simp
  have off: "((rs_pc s)(t := Holding r)) t' = Off \<longleftrightarrow> rs_pc s t' = Off" for t'
    using pc by simp
  have parked: "parked ((rs_pc s)(t := Holding r)) ((rs_locals s)(t := rs_locals s t)) =
      parked (rs_pc s) (rs_locals s)"
    unfolding parked_def off owns by simp
  have mines: "mine (((rs_pc s)(t := Holding r)) t') (((rs_locals s)(t := rs_locals s t)) t') f \<longleftrightarrow>
      mine (rs_pc s t') (rs_locals s t') f" for t' f
    using mine by simp
  have new: "queue_ok (at_thread t (Holding r) (rs_locals s t) sch s)"
    using pick_result [OF ne p]
  proof
    assume "r = None \<and> q' = ?q \<and> (\<forall>it \<in> set ?q. \<not> eligible t ?st it)"
    then have r: "r = None" "q' = ?q" by simp_all
    have holds: "holds (((rs_pc s)(t := Holding r)) t') f \<longleftrightarrow> holds (rs_pc s t') f" for t' f
      using pc r(1) by simp
    show ?thesis
      using qok unfolding queue_ok_def at_thread_simps fs q' r(2) parked owns holds mines .
  next
    assume "\<exists>it pre post. r = Some it \<and> ?q = pre @ it # post \<and> q' = pre @ post \<and> eligible t ?st it \<and>
       (\<forall>x \<in> set pre. \<not> eligible t ?st x)"
    then obtain it pre post where r: "r = Some it" "?q = pre @ it # post" "q' = pre @ post"
      "eligible t ?st it" by blast
    have sub: "queued q' f \<Longrightarrow> queued ?q f" "x \<in> set q' \<Longrightarrow> x \<in> set ?q" for f x
      using r by auto
    have "distinct (filter (\<lambda>x. x \<noteq> None) (map ft_fiber ?q))"
      using qok unfolding queue_ok_def by blast
    note removed = distinct_removed [OF this [unfolded r(2)], folded r(3)]
    have dist: "distinct (filter (\<lambda>x. x \<noteq> None) (map ft_fiber q'))"
      "ft_fiber it = Some f \<Longrightarrow> \<not> queued q' f" for f
      using removed by blast+
    have holds: "holds (((rs_pc s)(t := Holding r)) t') f \<longleftrightarrow>
        (t' = t \<and> ft_fiber it = Some f) \<or> holds (rs_pc s t') f" for t' f
      using pc r(1) by auto
    have taken: "f < fs_next (sc_fs (rs_sched s)) \<and> (\<forall>t'. \<not> holds (rs_pc s t') f) \<and>
        ?st f \<notin> {S_EXEC, S_TERM, S_EXCEPT} \<and> (\<forall>t'. \<not> mine (rs_pc s t') (rs_locals s t') f)"
      if f: "ft_fiber it = Some f" for f
    proof -
      have "queued ?q f" using r(2) f by simp
      then have o: "f < fs_next (sc_fs (rs_sched s))" "\<forall>t'. \<not> holds (rs_pc s t') f"
        "\<not> parked (rs_pc s) (rs_locals s) f" "?st f \<notin> {S_TERM, S_EXCEPT}"
        "\<forall>t'. owns (rs_pc s t') f \<longrightarrow> ?st f = S_EXEC"
        using qok unfolding queue_ok_def by blast+
      moreover have "?st f \<noteq> S_EXEC" using r(4) f by (simp add: eligible_def)
      ultimately show ?thesis using mine_cases [of "rs_pc s" _ "rs_locals s" f] by auto
    qed
    show ?thesis
      unfolding queue_ok_def at_thread_simps fs q' parked owns holds mines
    proof (intro conjI)
      show "\<forall>it \<in> set q'. nonempty it" using ne sub(2) by blast
      show "distinct (filter (\<lambda>x. x \<noteq> None) (map ft_fiber q'))" by (rule dist(1))
      show "\<forall>f. queued q' f \<longrightarrow> f < fs_next (sc_fs (rs_sched s)) \<and>
        (\<forall>t'. \<not> ((t' = t \<and> ft_fiber it = Some f) \<or> holds (rs_pc s t') f)) \<and>
        \<not> parked (rs_pc s) (rs_locals s) f \<and> ?st f \<notin> {S_TERM, S_EXCEPT} \<and>
        (\<forall>t'. owns (rs_pc s t') f \<longrightarrow> ?st f = S_EXEC)"
        using qok sub(1) dist(2) unfolding queue_ok_def by metis
      show "\<forall>t' f. (t' = t \<and> ft_fiber it = Some f) \<or> holds (rs_pc s t') f \<longrightarrow>
        f < fs_next (sc_fs (rs_sched s)) \<and> ?st f \<notin> {S_EXEC, S_TERM, S_EXCEPT} \<and>
        (\<forall>t2. \<not> mine (rs_pc s t2) (rs_locals s t2) f \<and>
          ((t2 = t \<and> ft_fiber it = Some f) \<or> holds (rs_pc s t2) f \<longrightarrow> t2 = t'))"
        using qok taken unfolding queue_ok_def by metis
    qed
  qed
  have tok2: "thread_ok t (Holding r) (rs_locals s t) (sc_fs (rs_sched s))"
    using tok by (simp add: thread_ok_def)
  show ?thesis
    by (rule loop_ok_at [OF ok]) (use new tok2 fs root mine in auto)
qed

lemma loop_step_ok:
  fixes s :: "'c run_system"
  assumes ok: "loop_ok s" and t: "thread_ok t p l (sc_fs sch)"
    and q: "sc_queue sch = sc_queue (rs_sched s)" "sc_root_thread sch = sc_root_thread (rs_sched s)"
    and p: "\<And>f. \<not> holds p f"
    and next_le: "fs_next (sc_fs (rs_sched s)) \<le> fs_next (sc_fs sch)"
    and same: "\<And>f. f < fs_next (sc_fs (rs_sched s)) \<Longrightarrow> \<not> mine p l f \<Longrightarrow>
      \<not> mine (rs_pc s t) (rs_locals s t) f \<Longrightarrow>
      fs_store (sc_fs sch) f = fs_store (sc_fs (rs_sched s)) f"
    and own: "\<And>f. mine p l f \<Longrightarrow> mine (rs_pc s t) (rs_locals s t) f \<or>
      (\<forall>t'. \<not> mine (rs_pc s t') (rs_locals s t') f \<and> (holds (rs_pc s t') f \<longrightarrow> t' = t))"
    and queued: "\<And>f. queued (sc_queue (rs_sched s)) f \<Longrightarrow>
      mine p l f \<or> mine (rs_pc s t) (rs_locals s t) f \<Longrightarrow>
      (p \<noteq> Off \<longrightarrow> rl_idle l \<noteq> f \<and> (rl_cb l = Some f \<longrightarrow> owns p f)) \<and>
      status_of (sc_fs sch) f \<notin> {S_TERM, S_EXCEPT} \<and>
      (owns p f \<longrightarrow> status_of (sc_fs sch) f = S_EXEC)"
    and tls: "\<And>t'. t' \<noteq> t \<Longrightarrow> fs_this (sc_fs sch) t' = fs_this (sc_fs (rs_sched s)) t'"
    and mf: "fs_mainFiber (sc_fs sch) = fs_mainFiber (sc_fs (rs_sched s))"
  shows "loop_ok (at_thread t p l sch s)"
proof (rule loop_ok_at [OF ok t next_le _ tls])
  have uniq: "mine (rs_pc s a) (rs_locals s a) f \<Longrightarrow> mine (rs_pc s b) (rs_locals s b) f \<Longrightarrow>
      a = b" for a b f
    using ok unfolding loop_ok_def by blast
  show "fs_store (sc_fs sch) f = fs_store (sc_fs (rs_sched s)) f"
    if "f < fs_next (sc_fs (rs_sched s))" "t' \<noteq> t" "mine (rs_pc s t') (rs_locals s t') f" for f t'
    using same [OF that(1)] own [of f] uniq that(2,3) by blast
  show "queue_ok (at_thread t p l sch s)"
    by (rule queue_ok_at [OF ok q(1) p next_le same own queued])
  show "mine (rs_pc s t) (rs_locals s t) f \<or> (\<forall>t'. \<not> mine (rs_pc s t') (rs_locals s t') f)"
    if "mine p l f" for f
    using own [OF that] by blast
qed (use mf q in auto)

text \<open>Facts about a thread that is between two fibers: it owns none, and its own two are parked.\<close>

lemma idle_thread:
  assumes ok: "loop_ok s" and pc: "rs_pc s t \<noteq> Off" "runs (rs_pc s t) = None"
  shows "thread_ok t (rs_pc s t) (rs_locals s t) (sc_fs (rs_sched s)) \<and>
    (\<forall>f. queued (sc_queue (rs_sched s)) f \<longrightarrow> \<not> mine (rs_pc s t) (rs_locals s t) f)"
proof -
  have "\<not> owns (rs_pc s t) f" for f using pc by (simp add: owns_runs)
  then have "mine (rs_pc s t) (rs_locals s t) f \<Longrightarrow> parked (rs_pc s) (rs_locals s) f" for f
    using mine_cases by metis
  then show ?thesis using ok unfolding loop_ok_def queue_ok_def by blast
qed

lemma swapIn_result:
  assumes "swapIn t f fs = Inr fs'"
  shows "status_of fs f \<noteq> S_EXEC \<and> fs' = set_status f S_EXEC (SetThis t (Some f) fs)"
  using assms by (simp add: swapIn_def split: if_splits)

text \<open>Entering a fiber that belongs to no thread, or that is parked in this one.\<close>

lemma entered_ok:
  fixes s :: "'c run_system"
  assumes ok: "loop_ok s" and pc: "rs_pc s t \<noteq> Off" "runs (rs_pc s t) = None"
    and f: "f < fs_next (sc_fs sch)" and kind: "kind_ok k f l"
    and l: "rl_idle l = rl_idle (rs_locals s t)"
      "rl_cb l = rl_cb (rs_locals s t) \<or> (rl_cb (rs_locals s t) = None \<and> rl_cb l = Some f)"
    and own: "mine (rs_pc s t) (rs_locals s t) f \<or>
      (\<forall>t'. \<not> mine (rs_pc s t') (rs_locals s t') f \<and> (holds (rs_pc s t') f \<longrightarrow> t' = t))"
    and noq: "\<not> queued (sc_queue (rs_sched s)) f"
    and next_le: "fs_next (sc_fs (rs_sched s)) \<le> fs_next (sc_fs sch)"
    and store: "\<And>g. g < fs_next (sc_fs (rs_sched s)) \<Longrightarrow> g \<noteq> f \<Longrightarrow>
      fs_store (sc_fs sch) g = fs_store (sc_fs (rs_sched s)) g"
    and fst: "status_of (sc_fs sch) f = S_EXEC"
      "rl_cb l = Some f \<Longrightarrow> fb_stack (fs_store (sc_fs sch) f)"
    and cur: "fs_this (sc_fs sch) = (fs_this (sc_fs (rs_sched s)))(t := Some f)"
    and mf: "fs_mainFiber (sc_fs sch) = fs_mainFiber (sc_fs (rs_sched s))"
    and q: "sc_queue sch = sc_queue (rs_sched s)" "sc_root_thread sch = sc_root_thread (rs_sched s)"
  shows "loop_ok (at_thread t (Inside k f) l sch s)"
proof -
  note i = idle_thread [OF ok pc]
  have noown: "\<not> owns (rs_pc s t) g" for g using pc by (simp add: owns_runs)
  have mine: "mine (Inside k f :: 'c run_pc) l g \<longleftrightarrow>
      g = f \<or> mine (rs_pc s t) (rs_locals s t) g" for g
    using l pc noown kind by (auto simp: mine_def kind_ok_def split: run_kind.splits)
  have st: "mine (rs_pc s t) (rs_locals s t) g \<Longrightarrow> g \<noteq> f \<Longrightarrow>
      g < fs_next (sc_fs (rs_sched s)) \<and> fs_store (sc_fs sch) g = fs_store (sc_fs (rs_sched s)) g" for g
    using i store pc noown by (auto simp: thread_ok_def mine_def)
  have idle: "rl_idle l \<noteq> f \<Longrightarrow> rl_idle l < fs_next (sc_fs (rs_sched s)) \<and>
      fs_store (sc_fs sch) (rl_idle l) = fs_store (sc_fs (rs_sched s)) (rl_idle l)"
    using st l pc by (simp add: mine_def)
  have cb: "rl_cb l = Some c \<Longrightarrow> c \<noteq> f \<Longrightarrow> c < fs_next (sc_fs (rs_sched s)) \<and>
      fs_store (sc_fs sch) c = fs_store (sc_fs (rs_sched s)) c \<and> rl_cb (rs_locals s t) = Some c" for c
    using st l pc by (auto simp: mine_def)
  have tok: "thread_ok t (rs_pc s t) (rs_locals s t) (sc_fs (rs_sched s))" using i by blast
  have "thread_ok t (Inside k f :: 'c run_pc) l (sc_fs sch)"
    unfolding thread_ok_def
  proof (intro conjI allI impI)
    show "fs_mainFiber (sc_fs sch) t \<noteq> None" using tok pc mf by (simp add: thread_ok_def)
    show "rl_idle l < fs_next (sc_fs sch)" using idle f next_le by (cases "rl_idle l = f") auto
    show "status_of (sc_fs sch) (rl_idle l) \<noteq> S_EXEC" if "\<not> owns (Inside k f :: 'c run_pc) (rl_idle l)"
      using that idle tok pc noown l by (auto simp: thread_ok_def)
    fix c assume c: "rl_cb l = Some c"
    show "c < fs_next (sc_fs sch)" using c cb f next_le by (cases "c = f") auto
    show "c \<noteq> rl_idle l"
      using c cb kind tok pc l by (cases "c = f") (auto simp: thread_ok_def kind_ok_def split: run_kind.splits)
    show "fb_stack (fs_store (sc_fs sch) c)"
      using c cb fst tok pc by (cases "c = f") (auto simp: thread_ok_def)
    show "status_of (sc_fs sch) c = S_INIT" if "\<not> owns (Inside k f :: 'c run_pc) c"
      using that c cb tok pc noown by (auto simp: thread_ok_def)
  qed (use kind f fst cur in auto)
  then show ?thesis
  proof (rule loop_step_ok [OF ok _ q])
    fix g assume g: "queued (sc_queue (rs_sched s)) g"
      "mine (Inside k f :: 'c run_pc) l g \<or> mine (rs_pc s t) (rs_locals s t) g"
    then have "g = f \<or> mine (rs_pc s t) (rs_locals s t) g" using mine by simp
    then have False using i noq g(1) by metis
    then show "((Inside k f :: 'c run_pc) \<noteq> Off \<longrightarrow>
        rl_idle l \<noteq> g \<and> (rl_cb l = Some g \<longrightarrow> owns (Inside k f :: 'c run_pc) g)) \<and>
      status_of (sc_fs sch) g \<notin> {S_TERM, S_EXCEPT} \<and>
      (owns (Inside k f :: 'c run_pc) g \<longrightarrow> status_of (sc_fs sch) g = S_EXEC)"
      by blast
  qed (use next_le store own cur mf mine in auto)
qed

text \<open>Going on in the loop without having entered a fiber.\<close>

lemma not_entered_ok:
  fixes s :: "'c run_system"
  assumes ok: "loop_ok s" and pc: "rs_pc s t \<noteq> Off" "runs (rs_pc s t) = None"
    and p: "p = Looking \<or> p = Gone" and q: "sc_queue sch = sc_queue (rs_sched s)"
      "sc_root_thread sch = sc_root_thread (rs_sched s)" "sc_fs sch = sc_fs (rs_sched s)"
  shows "loop_ok (at_thread t p (rs_locals s t) sch s)"
proof -
  note i = idle_thread [OF ok pc]
  have mine: "mine p (rs_locals s t) f \<longleftrightarrow> mine (rs_pc s t) (rs_locals s t) f" for f
    using p pc by (auto simp: mine_def owns_runs)
  have "thread_ok t p (rs_locals s t) (sc_fs sch)"
    using i p pc q by (auto simp: thread_ok_def owns_runs)
  then show ?thesis
    by (rule loop_step_ok [OF ok _ q(1,2)]) (use p q i in \<open>auto simp: mine\<close>)
qed

lemma dispatch_ok:
  fixes s :: "'c run_system"
  assumes ok: "loop_ok s" and pc: "rs_pc s t = Holding r"
    and d: "run_dispatch sz t r (rs_locals s t) (rs_sched s) = Inr (turn, l, sch)"
  shows "loop_ok (at_thread t (after_turn turn) l sch s)"
proof -
  have p: "rs_pc s t \<noteq> Off" "runs (rs_pc s t) = None" using pc by simp_all
  note i = idle_thread [OF ok p]
  let ?l = "rs_locals s t"
  let ?fs = "sc_fs (rs_sched s)"
  have tok: "thread_ok t (rs_pc s t) ?l ?fs" using i by blast
  have qok: "queue_ok s" using ok by (simp add: loop_ok_def)
  consider
      (fiber) f where "holds (rs_pc s t) f" "enter_fiber t OfFiber f ?l (rs_sched s) = Inr (turn, l, sch)"
    | (callback) cb where "dispatch_callback sz t cb ?l (rs_sched s) = Inr (turn, l, sch)"
    | (again) "turn = Again" "l = ?l" "sch = (rs_sched s)\<lparr>sc_active := sc_active (rs_sched s) - 1\<rparr>"
    | (idle) "dispatch_idle t ?l (rs_sched s) = Inr (turn, l, sch)"
  proof (cases r)
    case None
    then show ?thesis using that(4) d by (simp add: run_dispatch_def)
  next
    case (Some ft)
    let ?runnable = "case ft_fiber ft of Some f \<Rightarrow> status_of ?fs f \<notin> {S_TERM, S_EXCEPT} | None \<Rightarrow> False"
    show ?thesis
    proof (cases ?runnable)
      case True
      then obtain f where "ft_fiber ft = Some f" by (auto split: option.splits)
      then show ?thesis using that(1) [of f] d Some True pc by (simp add: run_dispatch_def)
    next
      case False
      then show ?thesis
        using that(2,3) d Some by (cases "ft_callback ft") (simp_all add: run_dispatch_def)
    qed
  qed
  then show ?thesis
  proof cases
    case fiber
    then obtain fs where sw: "swapIn t f ?fs = Inr fs" and r: "turn = Enter OfFiber f" "l = ?l"
      "sch = (rs_sched s)\<lparr>sc_fs := fs\<rparr>"
      by (auto simp: enter_fiber_def bindE_Inr_iff)
    have h: "f < fs_next ?fs" "\<And>t'. \<not> mine (rs_pc s t') (rs_locals s t') f"
      "\<And>t'. holds (rs_pc s t') f \<Longrightarrow> t' = t"
      using qok fiber(1) unfolding queue_ok_def by blast+
    have nq: "\<not> queued (sc_queue (rs_sched s)) f"
      using qok fiber(1) unfolding queue_ok_def by blast
    have kind: "kind_ok OfFiber f ?l" using h(2) [of t] p by (auto simp: kind_ok_def mine_def)
    show ?thesis
      unfolding r after_turn.simps
      by (rule entered_ok [OF ok p])
        (use swapIn_result [OF sw] h nq kind in \<open>auto simp: kind_ok_def set_status_def\<close>)
  next
    case again
    then show ?thesis using not_entered_ok [OF ok p, of Looking] by simp
  next
    case idle
    show ?thesis
    proof (cases "status_of ?fs (rl_idle ?l) = S_TERM")
      case True
      then show ?thesis using idle not_entered_ok [OF ok p, of Gone] by (simp add: dispatch_idle_def)
    next
      case False
      then obtain fs where sw: "swapIn t (rl_idle ?l) ?fs = Inr fs"
        and r: "turn = Enter OfIdle (rl_idle ?l)" "l = ?l"
          "sch = (rs_sched s)\<lparr>sc_idle := sc_idle (rs_sched s) + 1, sc_fs := fs\<rparr>"
        using idle by (auto simp: dispatch_idle_def enter_fiber_def bindE_Inr_iff)
      have m: "mine (rs_pc s t) ?l (rl_idle ?l)" using p by (simp add: mine_def)
      have kind: "kind_ok OfIdle (rl_idle ?l) ?l" using tok p by (auto simp: kind_ok_def thread_ok_def)
      show ?thesis
        unfolding r after_turn.simps
        by (rule entered_ok [OF ok p])
          (use swapIn_result [OF sw] m i kind tok p in
            \<open>auto simp: kind_ok_def set_status_def thread_ok_def\<close>)
    qed
  next
    case callback
    show ?thesis
    proof (cases "rl_cb ?l")
      case (Some c)
      then obtain fs0 fs where rs: "Fiber_reset (Some cb) c ?fs = Inr fs0"
        and sw: "swapIn t c fs0 = Inr fs" and r: "turn = Enter OfCallback c" "l = ?l"
          "sch = (rs_sched s)\<lparr>sc_fs := fs\<rparr>"
        using callback by (auto simp: dispatch_callback_def enter_fiber_def bindE_Inr_iff)
      have fs0: "fs0 = set_fiber c (\<lambda>x. x\<lparr>fb_callback := Some cb, fb_status := S_INIT\<rparr>) ?fs"
        "fb_stack (fs_store ?fs c)"
        using rs by (auto simp: Fiber_reset_def Let_def split: if_splits)
      have m: "mine (rs_pc s t) ?l c" using p Some by (simp add: mine_def)
      have kind: "kind_ok OfCallback c ?l" using tok p Some by (auto simp: kind_ok_def thread_ok_def)
      show ?thesis
        unfolding r after_turn.simps
        by (rule entered_ok [OF ok p])
          (use swapIn_result [OF sw] m i kind tok p Some fs0 in
            \<open>auto simp: set_status_def set_fiber_def thread_ok_def\<close>)
    next
      case None
      obtain c fs0 where new: "Fiber_new sz (Some cb) 0 False ?fs = (c, fs0)" by fastforce
      then obtain fs where sw: "swapIn t c fs0 = Inr fs" and r: "turn = Enter OfCallback c"
          "l = ?l\<lparr>rl_cb := Some c\<rparr>" "sch = (rs_sched s)\<lparr>sc_fs := fs\<rparr>"
        using callback None by (auto simp: dispatch_callback_def enter_fiber_def bindE_Inr_iff)
      note n = Fiber_new_simps [OF new]
      have bound: "mine (rs_pc s t') (rs_locals s t') f \<Longrightarrow> f < fs_next ?fs" for t' f
        using ok by (auto simp: loop_ok_def thread_ok_def mine_def owns_runs)
      have bound2: "holds (rs_pc s t') f \<Longrightarrow> f < fs_next ?fs" "queued (sc_queue (rs_sched s)) f \<Longrightarrow>
          f < fs_next ?fs" for t' f
        using qok unfolding queue_ok_def by blast+
      have out: "\<not> mine (rs_pc s t') (rs_locals s t') c" "\<not> holds (rs_pc s t') c"
        "\<not> queued (sc_queue (rs_sched s)) c" for t'
        using bound bound2 n(1) by blast+
      have kind: "kind_ok OfCallback c l" using out(1) [of t] p r by (auto simp: kind_ok_def mine_def)
      show ?thesis
        unfolding r(1,3) after_turn.simps
        by (rule entered_ok [OF ok p])
          (use swapIn_result [OF sw] n out kind None r(2) in \<open>auto simp: set_status_def\<close>)
    qed
  qed
qed

text \<open>A fiber goes back to the loop; unless it waits to be held, it is not queued.\<close>

lemma left_ok:
  fixes s :: "'c run_system"
  assumes ok: "loop_ok s" and pc: "rs_pc s t = Inside k f"
    and fs: "fs_next fs = fs_next (sc_fs (rs_sched s))"
      "\<And>g. g \<noteq> f \<Longrightarrow> fs_store fs g = fs_store (sc_fs (rs_sched s)) g"
      "fb_stack (fs_store fs f) = fb_stack (fs_store (sc_fs (rs_sched s)) f)"
      "\<And>t'. t' \<noteq> t \<Longrightarrow> fs_this fs t' = fs_this (sc_fs (rs_sched s)) t'"
      "fs_mainFiber fs = fs_mainFiber (sc_fs (rs_sched s))"
    and st: "status_of fs f \<in> {S_EXEC, S_READY, S_TERM, S_EXCEPT}"
    and nq: "status_of fs f = S_EXEC \<or> \<not> queued (sc_queue (rs_sched s)) f"
  shows "loop_ok (at_thread t (Back k f) (rs_locals s t) ((rs_sched s)\<lparr>sc_fs := fs\<rparr>) s)"
proof -
  have mine: "mine (Back k f :: 'c run_pc) (rs_locals s t) g \<longleftrightarrow> mine (rs_pc s t) (rs_locals s t) g" for g
    using pc by (simp add: mine_def)
  have tok: "thread_ok t (Inside k f :: 'c run_pc) (rs_locals s t) (sc_fs (rs_sched s))"
    using ok pc unfolding loop_ok_def by metis
  have stk: "fb_stack (fs_store fs g) = fb_stack (fs_store (sc_fs (rs_sched s)) g)" for g
    using fs(2,3) by (cases "g = f") auto
  have "thread_ok t (Back k f :: 'c run_pc) (rs_locals s t) fs"
    using tok fs(1,2,5) st stk by (auto simp: thread_ok_def)
  moreover have "(rl_idle (rs_locals s t) \<noteq> g \<and> (rl_cb (rs_locals s t) = Some g \<longrightarrow> f = g)) \<and>
      status_of fs g \<notin> {S_TERM, S_EXCEPT} \<and> (f = g \<longrightarrow> status_of fs g = S_EXEC)"
    if q: "queued (sc_queue (rs_sched s)) g" for g
  proof -
    have "\<not> parked (rs_pc s) (rs_locals s) g" "status_of (sc_fs (rs_sched s)) g \<notin> {S_TERM, S_EXCEPT}"
      using ok q unfolding loop_ok_def queue_ok_def by blast+
    then have "rl_idle (rs_locals s t) \<noteq> g \<and> (rl_cb (rs_locals s t) = Some g \<longrightarrow> f = g) \<and>
        status_of (sc_fs (rs_sched s)) g \<notin> {S_TERM, S_EXCEPT}"
      using pc unfolding parked_def by (metis owns.simps(1) run_pc.distinct(5))
    then show ?thesis using nq fs(2) q by (cases "g = f") auto
  qed
  ultimately show ?thesis
    by (intro loop_step_ok [OF ok]) (use fs mine in \<open>auto simp: mine_def pc\<close>)
qed

lemma GetThis_inside:
  assumes "loop_ok s" "rs_pc s t = Inside k f"
  shows "GetThis t (sc_fs (rs_sched s)) = (f, sc_fs (rs_sched s)) \<and>
    status_of (sc_fs (rs_sched s)) f = S_EXEC"
proof -
  have "thread_ok t (Inside k f) (rs_locals s t) (sc_fs (rs_sched s))"
    using assms unfolding loop_ok_def by metis
  then show ?thesis by (simp add: thread_ok_def GetThis_def)
qed

lemma swapOut_result:
  assumes "swapOut t fs = Inr fs'"
  shows "fs_next fs' = fs_next fs \<and> fs_store fs' = fs_store fs \<and> fs_mainFiber fs' = fs_mainFiber fs \<and>
    (\<forall>t'. t' \<noteq> t \<longrightarrow> fs_this fs' t' = fs_this fs t')"
  using assms by (auto simp: swapOut_def split: option.splits)

lemma yield_ready_ok:
  assumes ok: "loop_ok s" and pc: "rs_pc s t = Inside k f"
    and "\<not> queued (sc_queue (rs_sched s)) f" "YieldToReady t (sc_fs (rs_sched s)) = Inr fs"
  shows "loop_ok (at_thread t (Back k f) (rs_locals s t) ((rs_sched s)\<lparr>sc_fs := fs\<rparr>) s)"
proof -
  have "swapOut t (set_status f S_READY (sc_fs (rs_sched s))) = Inr fs"
    using assms(4) GetThis_inside [OF ok pc] by (simp add: YieldToReady_def)
  note r = swapOut_result [OF this]
  show ?thesis
    by (rule left_ok [OF ok pc]) (use r assms(3) in \<open>auto simp: set_status_def\<close>)
qed

lemma yield_hold_ok:
  assumes ok: "loop_ok s" and pc: "rs_pc s t = Inside k f"
    and "YieldToHold t (sc_fs (rs_sched s)) = Inr fs"
  shows "loop_ok (at_thread t (Back k f) (rs_locals s t) ((rs_sched s)\<lparr>sc_fs := fs\<rparr>) s)"
proof -
  have "swapOut t (sc_fs (rs_sched s)) = Inr fs"
    using assms(3) GetThis_inside [OF ok pc] by (simp add: YieldToHold_def split: if_splits)
  note r = swapOut_result [OF this]
  show ?thesis
    by (rule left_ok [OF ok pc]) (use r GetThis_inside [OF ok pc] in auto)
qed

lemma finish_ok:
  assumes ok: "loop_ok s" and pc: "rs_pc s t = Inside k f"
    and "\<not> queued (sc_queue (rs_sched s)) f" "MainFunc t throws (sc_fs (rs_sched s)) = Inr fs"
  shows "loop_ok (at_thread t (Back k f) (rs_locals s t) ((rs_sched s)\<lparr>sc_fs := fs\<rparr>) s)"
proof -
  have "swapOut t (run_body throws f (sc_fs (rs_sched s))) = Inr fs"
    using assms(4) GetThis_inside [OF ok pc] by (simp add: MainFunc_def)
  note r = swapOut_result [OF this]
  show ?thesis
    by (rule left_ok [OF ok pc])
      (use r assms(3) in \<open>auto simp: set_status_def run_body_def split: if_splits\<close>)
qed

lemma come_back_ok:
  fixes s :: "'c run_system"
  assumes ok: "loop_ok s" and pc: "rs_pc s t = Back k f"
  shows "loop_ok (at_thread t (Settling k f) (rs_locals s t) (run_return k (rs_sched s)) s)"
proof -
  have mine: "mine (Settling k f :: 'c run_pc) (rs_locals s t) g \<longleftrightarrow> mine (rs_pc s t) (rs_locals s t) g" for g
    using pc by (simp add: mine_def)
  have tok: "thread_ok t (Back k f :: 'c run_pc) (rs_locals s t) (sc_fs (rs_sched s))"
    using ok pc unfolding loop_ok_def by metis
  then have "thread_ok t (Settling k f :: 'c run_pc) (rs_locals s t) (sc_fs (rs_sched s))"
    by (auto simp: thread_ok_def)
  moreover have "(rl_idle (rs_locals s t) \<noteq> g \<and> (rl_cb (rs_locals s t) = Some g \<longrightarrow> f = g)) \<and>
      status_of (sc_fs (rs_sched s)) g \<notin> {S_TERM, S_EXCEPT} \<and>
      (f = g \<longrightarrow> status_of (sc_fs (rs_sched s)) g = S_EXEC)"
    if q: "queued (sc_queue (rs_sched s)) g" for g
  proof -
    have "\<not> parked (rs_pc s) (rs_locals s) g" "status_of (sc_fs (rs_sched s)) g \<notin> {S_TERM, S_EXCEPT}"
      "owns (rs_pc s t) g \<longrightarrow> status_of (sc_fs (rs_sched s)) g = S_EXEC"
      using ok q unfolding loop_ok_def queue_ok_def by blast+
    then show ?thesis using pc unfolding parked_def by (metis owns.simps(2) run_pc.distinct(7))
  qed
  ultimately show ?thesis
    by (intro loop_step_ok [OF ok]) (use mine in \<open>auto simp: mine_def pc\<close>)
qed

text \<open>Leaving a fiber for good.\<close>

lemma settled_ok:
  fixes s :: "'c run_system"
  assumes ok: "loop_ok s" and pc: "rs_pc s t = Settling k f"
    and fs: "fs_next fs = fs_next (sc_fs (rs_sched s))"
      "\<And>g. g \<noteq> f \<Longrightarrow> fs_store fs g = fs_store (sc_fs (rs_sched s)) g"
      "fb_stack (fs_store fs f) = fb_stack (fs_store (sc_fs (rs_sched s)) f)"
      "fs_this fs = fs_this (sc_fs (rs_sched s))"
      "fs_mainFiber fs = fs_mainFiber (sc_fs (rs_sched s))"
    and kind: "k = OfFiber \<and> l = rs_locals s t \<or>
      k = OfCallback \<and> l = rs_locals s t\<lparr>rl_cb := None\<rparr> \<or>
      k = OfCallback \<and> l = rs_locals s t \<and> status_of fs f = S_INIT \<and>
        \<not> queued (sc_queue (rs_sched s)) f \<or>
      k = OfIdle \<and> l = rs_locals s t \<and> status_of fs f \<noteq> S_EXEC"
    and q: "queued (sc_queue (rs_sched s)) f \<Longrightarrow> status_of fs f \<notin> {S_TERM, S_EXCEPT}"
  shows "loop_ok (at_thread t Looking l ((rs_sched s)\<lparr>sc_fs := fs\<rparr>) s)"
proof -
  let ?l = "rs_locals s t"
  have tok: "thread_ok t (Settling k f :: 'c run_pc) ?l (sc_fs (rs_sched s))"
    using ok pc unfolding loop_ok_def by metis
  have ko: "kind_ok k f ?l" using tok by (simp add: thread_ok_def)
  have mine: "mine (Looking :: 'c run_pc) l g \<Longrightarrow> mine (rs_pc s t) ?l g" for g
    using kind pc by (auto simp: mine_def)
  have stk: "fb_stack (fs_store fs g) = fb_stack (fs_store (sc_fs (rs_sched s)) g)" for g
    using fs(2,3) by (cases "g = f") auto
  have "thread_ok t (Looking :: 'c run_pc) l fs"
    using kind ko
  proof (elim disjE conjE)
    assume "k = OfFiber" "l = ?l"
    then show ?thesis using tok fs(1,2,5) stk ko by (auto simp: thread_ok_def kind_ok_def)
  next
    assume "k = OfCallback" "l = ?l\<lparr>rl_cb := None\<rparr>"
    then show ?thesis using tok fs(1,2,5) ko by (auto simp: thread_ok_def kind_ok_def)
  next
    assume "k = OfCallback" "l = ?l" "status_of fs f = S_INIT"
    then show ?thesis using tok fs(1,2,5) stk ko by (auto simp: thread_ok_def kind_ok_def)
  next
    assume "k = OfIdle" "l = ?l" "status_of fs f \<noteq> S_EXEC"
    then show ?thesis using tok fs(1,2,5) stk ko by (auto simp: thread_ok_def kind_ok_def)
  qed
  moreover have "(rl_idle l \<noteq> g \<and> rl_cb l \<noteq> Some g) \<and> status_of fs g \<notin> {S_TERM, S_EXCEPT}"
    if g: "queued (sc_queue (rs_sched s)) g" for g
  proof -
    have old: "\<not> parked (rs_pc s) (rs_locals s) g"
      "status_of (sc_fs (rs_sched s)) g \<notin> {S_TERM, S_EXCEPT}"
      using ok g unfolding loop_ok_def queue_ok_def by blast+
    have "rl_idle ?l \<noteq> g" "rl_cb ?l = Some g \<Longrightarrow> g = f"
      using old(1) pc unfolding parked_def by (metis owns.simps(3) run_pc.distinct(9))+
    then have "rl_idle l \<noteq> g \<and> rl_cb l \<noteq> Some g"
      using kind ko g by (auto simp: kind_ok_def)
    then show ?thesis using q g fs(2) old(2) by (cases "g = f") auto
  qed
  ultimately show ?thesis
    by (intro loop_step_ok [OF ok]) (use fs mine in \<open>auto simp: mine_def pc\<close>)
qed

lemma settle_ok:
  fixes s :: "'c run_system"
  assumes ok: "loop_ok s" and pc: "rs_pc s t = Settling k f"
    and set: "run_settle k f (rs_locals s t) (rs_sched s) = Inr (l, sch)"
  shows "loop_ok (at_thread t Looking l sch s)"
proof -
  let ?l = "rs_locals s t"
  let ?fs = "sc_fs (rs_sched s)"
  have tok: "thread_ok t (Settling k f :: 'c run_pc) ?l ?fs"
    using ok pc unfolding loop_ok_def by metis
  then have st: "status_of ?fs f \<in> {S_EXEC, S_READY, S_TERM, S_EXCEPT}" and ko: "kind_ok k f ?l"
    and f: "f < fs_next ?fs"
    by (simp_all add: thread_ok_def)
  have q: "queued (sc_queue (rs_sched s)) f \<Longrightarrow> status_of ?fs f = S_EXEC"
    using ok pc unfolding loop_ok_def queue_ok_def by (metis owns.simps(3))
  have uniq: "mine (rs_pc s a) (rs_locals s a) f \<Longrightarrow> a = t" for a
    using ok pc unfolding loop_ok_def by (metis owns.simps(3) owns_mine)
  have noheld: "\<not> holds (rs_pc s a) f" for a
    using ok pc unfolding loop_ok_def queue_ok_def by (metis owns.simps(3) owns_mine)
  have again: "loop_ok (at_thread t Looking l (schedule_ft (of_fiber (Some f) (-1)) (rs_sched s)) s)"
    if r: "status_of ?fs f = S_READY" and l: "k = OfFiber \<and> l = ?l \<or> k = OfCallback \<and> l = ?l\<lparr>rl_cb := None\<rparr>"
  proof -
    let ?s = "at_thread t Looking l ((rs_sched s)\<lparr>sc_fs := ?fs\<rparr>) s"
    have "loop_ok ?s" by (rule settled_ok [OF ok pc]) (use l q r in auto)
    moreover have "fresh f ?s"
    proof -
      have "\<not> owns (((rs_pc s)(t := Looking)) a) f" for a
        using uniq [of a] owns_mine by (cases "a = t") auto
      moreover have "\<not> parked ((rs_pc s)(t := Looking)) ((rs_locals s)(t := l)) f"
      proof
        assume "parked ((rs_pc s)(t := Looking)) ((rs_locals s)(t := l)) f"
        then obtain a where a: "mine (((rs_pc s)(t := Looking)) a) (((rs_locals s)(t := l)) a) f"
          using parked_mine by blast
        have "a = t"
        proof (rule ccontr)
          assume "a \<noteq> t"
          then show False using uniq a by simp
        qed
        then have "mine (Looking :: 'c run_pc) l f" using a by simp
        then show False using l ko by (auto simp: mine_def kind_ok_def)
      qed
      ultimately show ?thesis using q r noheld by (auto simp: fresh_def)
    qed
    ultimately have "loop_ok (?s\<lparr>rs_sched := schedule_ft (of_fiber (Some f) (-1)) (rs_sched ?s)\<rparr>)"
      by (intro schedule_fiber_ok) (use f in auto)
    moreover have "?s\<lparr>rs_sched := schedule_ft (of_fiber (Some f) (-1)) (rs_sched ?s)\<rparr> =
        at_thread t Looking l (schedule_ft (of_fiber (Some f) (-1)) (rs_sched s)) s"
      by (cases s) (simp add: at_thread_def)
    ultimately show ?thesis by (simp only:)
  qed
  have held: "loop_ok (at_thread t Looking l (on_fs (set_status f S_HOLD) (rs_sched s)) s)"
    if "k = OfFiber \<and> l = ?l \<or> k = OfCallback \<and> l = ?l\<lparr>rl_cb := None\<rparr> \<or> k = OfIdle \<and> l = ?l"
    unfolding on_fs_def
    by (rule settled_ok [OF ok pc]) (use that in \<open>auto simp: set_status_def\<close>)
  have ended: "loop_ok (at_thread t Looking ?l (rs_sched s) s)"
    if "status_of ?fs f \<in> {S_TERM, S_EXCEPT}" "k = OfFiber \<or> k = OfIdle"
    using settled_ok [OF ok pc, of ?fs ?l] that q by auto
  show ?thesis
  proof (cases k)
    case OfFiber
    then show ?thesis
      using set again held ended st
      by (cases "status_of ?fs f") (simp_all add: run_settle_def Let_def)
  next
    case OfIdle
    then show ?thesis
      using set held ended st
      by (cases "status_of ?fs f") (simp_all add: run_settle_def Let_def)
  next
    case OfCallback
    show ?thesis
    proof (cases "status_of ?fs f \<in> {S_TERM, S_EXCEPT}")
      case False
      then show ?thesis
        using OfCallback set again held st
        by (cases "status_of ?fs f = S_READY") (simp_all add: run_settle_def Let_def)
    next
      case True
      then obtain fs where r: "Fiber_reset None f ?fs = Inr fs" and l: "l = ?l"
        "sch = (rs_sched s)\<lparr>sc_fs := fs\<rparr>"
        using set OfCallback by (auto simp: run_settle_def Let_def bindE_Inr_iff)
      have "fs = set_fiber f (\<lambda>x. x\<lparr>fb_callback := None, fb_status := S_INIT\<rparr>) ?fs"
        using r by (auto simp: Fiber_reset_def Let_def split: if_splits)
      then show ?thesis
        unfolding l by (intro settled_ok [OF ok pc]) (use OfCallback True q in auto)
    qed
  qed
qed

end
