(* ===== verification/SchedulerRuns.thy ===== *)
theory SchedulerRuns
  imports SchedulerProps
begin

text \<open>
  What the loops of \<open>src/Scheduler.cpp\<close> guarantee: in every run in which clients hand a fiber over
  only once, no fiber is on two threads and no assertion of the loop fails; the order in which
  entries are taken; the counter of active threads. And what happens when a fiber is handed over
  twice.
\<close>

section \<open>Runs\<close>

lemma make_fiber_ok:
  assumes ok: "loop_ok s" and new: "Fiber_new sz cb n False (sc_fs (rs_sched s)) = (f, fs)"
  shows "loop_ok (s\<lparr>rs_sched := (rs_sched s)\<lparr>sc_fs := fs\<rparr>\<rparr>)"
proof -
  note n = Fiber_new_simps [OF new]
  have same: "g < fs_next (sc_fs (rs_sched s)) \<Longrightarrow> fs_store fs g = fs_store (sc_fs (rs_sched s)) g" for g
    using n(1,5) by auto
  have threads: "thread_ok t (rs_pc s t) (rs_locals s t) fs" for t
    by (rule thread_ok_other [of t _ _ "sc_fs (rs_sched s)"])
      (use ok n same in \<open>auto simp: loop_ok_def\<close>)
  have uniq: "mine (rs_pc s a) (rs_locals s a) g \<Longrightarrow> mine (rs_pc s b) (rs_locals s b) g \<Longrightarrow> a = b"
    for a b g using ok unfolding loop_ok_def by blast
  have "queue_ok (s\<lparr>rs_sched := (rs_sched s)\<lparr>sc_fs := fs\<rparr>\<rparr>)"
    using ok same n(2) unfolding loop_ok_def queue_ok_def by (auto simp: less_SucI)
  then show ?thesis
    using threads uniq ok n(4) unfolding loop_ok_def by auto
qed

lemma run_step_ok: "run_step sz True s s' \<Longrightarrow> loop_ok s \<Longrightarrow> loop_ok s'"
proof (induction rule: run_step.induct)
  case (enter s t l sch)
  then show ?case by (intro enter_ok)
next
  case (look_up s t r sch)
  then show ?case by (intro look_up_ok)
next
  case (dispatch s t r turn l sch)
  then show ?case by (intro dispatch_ok)
next
  case (yield_ready s t k f fs)
  then show ?case by (intro yield_ready_ok) simp_all
next
  case (yield_hold s t k f fs)
  then show ?case by (intro yield_hold_ok)
next
  case (finish s t k f throws fs)
  then show ?case by (intro finish_ok [of s t k f throws fs]) simp_all
next
  case (come_back s t k f)
  then show ?case by (intro come_back_ok)
next
  case (settle s t k f l sch)
  then show ?case by (intro settle_ok)
next
  case (schedule_fiber f s tid)
  then show ?case by (intro schedule_fiber_ok) simp_all
next
  case (schedule_callback s cb tid)
  then show ?case by (rule schedule_callback_ok)
next
  case (make_fiber c n s f fs)
  then show ?case by (intro make_fiber_ok)
qed

text \<open>A scheduler before any thread has entered \<open>run\<close>.\<close>

definition startable :: "'c schedular \<Rightarrow> bool" where
  "startable sch \<longleftrightarrow> sc_queue sch = [] \<and> sc_active sch = 0 \<and>
     (sc_root_thread sch \<noteq> -1 \<longrightarrow> fs_mainFiber (sc_fs sch) (sc_root_thread sch) \<noteq> None)"

lemma Schedular_new_startable:
  "Schedular_new sz n use_caller self tid fs = Inr sch \<Longrightarrow> startable sch"
  by (auto simp: Schedular_new_def Let_def startable_def set_mainFiber_def on_fs_def setThis_def
      split: if_splits prod.splits)

lemma start_ok: "startable sch \<Longrightarrow> loop_ok (start_system sch)"
  by (simp add: startable_def start_system_def loop_ok_def queue_ok_def thread_ok_def mine_def)

lemma run_reachable_ok:
  assumes "startable sch" and "(run_step sz True)\<^sup>*\<^sup>* (start_system sch) s"
  shows "loop_ok s"
  using assms(2) by induction (auto intro: run_step_ok start_ok assms(1))

section \<open>The loop never fails\<close>

lemma pick_total:
  assumes "\<forall>it \<in> set q. nonempty it"
  shows "\<exists>x. pick tid st q = Inr x"
proof -
  obtain t where t: "pick tid st q =
    (case dropWhile (\<lambda>it. \<not> eligible tid st it) q of
       [] \<Rightarrow> Inr (None, q, t)
     | it # post \<Rightarrow> Inr (Some it, takeWhile (\<lambda>it. \<not> eligible tid st it) q @ post, t))"
    using pick_Inr [OF assms, of tid st] by blast
  show ?thesis
  proof (cases "dropWhile (\<lambda>it. \<not> eligible tid st it) q")
    case Nil
    show ?thesis unfolding t Nil by simp
  next
    case (Cons it post)
    show ?thesis unfolding t Cons by simp
  qed
qed

lemma look_up_total:
  assumes "loop_ok s"
  shows "\<exists>x. run_pick t (rs_sched s) = Inr x"
proof -
  have "\<forall>it \<in> set (sc_queue (rs_sched s)). nonempty it"
    using assms by (simp add: loop_ok_def queue_ok_def)
  then show ?thesis
    using pick_total [of "sc_queue (rs_sched s)" t "status_of (sc_fs (rs_sched s))"]
    by (auto simp: run_pick_def Let_def)
qed

lemma swapIn_total: "status_of fs f \<noteq> S_EXEC \<Longrightarrow> fs_mainFiber fs t \<noteq> None \<Longrightarrow> \<exists>fs'. swapIn t f fs = Inr fs'"
  by (simp add: swapIn_def)

lemma dispatch_total:
  assumes ok: "loop_ok s" and pc: "rs_pc s t = Holding r"
  shows "\<exists>x. run_dispatch sz t r (rs_locals s t) (rs_sched s) = Inr x"
proof -
  let ?l = "rs_locals s t"
  let ?fs = "sc_fs (rs_sched s)"
  have "thread_ok t (rs_pc s t) ?l ?fs" using idle_thread [OF ok, of t] pc by simp
  then have main: "fs_mainFiber ?fs t \<noteq> None" and idle: "status_of ?fs (rl_idle ?l) \<noteq> S_EXEC"
    and cb: "\<And>c. rl_cb ?l = Some c \<Longrightarrow> fb_stack (fs_store ?fs c) \<and> status_of ?fs c = S_INIT"
    using pc by (auto simp: thread_ok_def)
  have i: "\<exists>x. dispatch_idle t ?l (rs_sched s) = Inr x"
    using main idle by (auto simp: dispatch_idle_def enter_fiber_def swapIn_def)
  have c: "\<exists>x. dispatch_callback sz t job ?l (rs_sched s) = Inr x" for job
  proof (cases "rl_cb ?l")
    case None
    then show ?thesis
      using main by (simp add: dispatch_callback_def Fiber_new_def enter_fiber_def swapIn_def)
  next
    case (Some c)
    then show ?thesis
      using main cb [OF Some]
      by (simp add: dispatch_callback_def Fiber_reset_def Let_def enter_fiber_def swapIn_def)
  qed
  show ?thesis
  proof (cases r)
    case None
    then show ?thesis using i by (simp add: run_dispatch_def)
  next
    case (Some ft)
    have "\<exists>x. enter_fiber t OfFiber f ?l (rs_sched s) = Inr x" if "ft_fiber ft = Some f" for f
    proof -
      have "status_of ?fs f \<noteq> S_EXEC"
        using ok pc Some that unfolding loop_ok_def queue_ok_def
        by (metis holds_simps(1) insertCI)
      then show ?thesis using main by (simp add: enter_fiber_def swapIn_def)
    qed
    then show ?thesis
      using Some c by (cases "ft_fiber ft"; cases "ft_callback ft") (auto simp: run_dispatch_def)
  qed
qed

lemma settle_total:
  assumes ok: "loop_ok s" and pc: "rs_pc s t = Settling k f"
  shows "\<exists>x. run_settle k f (rs_locals s t) (rs_sched s) = Inr x"
proof -
  have "thread_ok t (Settling k f) (rs_locals s t) (sc_fs (rs_sched s))"
    using ok pc unfolding loop_ok_def by metis
  then have "k = OfCallback \<Longrightarrow> fb_stack (fs_store (sc_fs (rs_sched s)) f)"
    by (simp add: thread_ok_def kind_ok_def)
  then show ?thesis
    by (cases k; cases "status_of (sc_fs (rs_sched s)) f")
      (simp_all add: run_settle_def Let_def Fiber_reset_def)
qed

text \<open>C2: as long as clients schedule a fiber only when it is not handed over already (and a
  scheduled fiber neither yields to be scheduled again nor ends), no fiber is ever on two threads,
  a fiber that runs is in the state \<open>EXEC\<close>, and no assertion of the loop fails: the search of the
  queue, the entry into a fiber and the return from it always succeed.\<close>

theorem fiber_on_one_thread:
  assumes "startable sch" and "(run_step sz True)\<^sup>*\<^sup>* (start_system sch) s"
  shows "(\<forall>t t' f. owns (rs_pc s t) f \<and> owns (rs_pc s t') f \<longrightarrow> t = t') \<and>
    (\<forall>t k f. rs_pc s t = Inside k f \<longrightarrow> status_of (sc_fs (rs_sched s)) f = S_EXEC) \<and>
    (\<forall>t. rs_pc s t = Looking \<longrightarrow> (\<exists>x. run_pick t (rs_sched s) = Inr x)) \<and>
    (\<forall>t r. rs_pc s t = Holding r \<longrightarrow>
       (\<exists>x. run_dispatch sz t r (rs_locals s t) (rs_sched s) = Inr x)) \<and>
    (\<forall>t k f. rs_pc s t = Settling k f \<longrightarrow>
       (\<exists>x. run_settle k f (rs_locals s t) (rs_sched s) = Inr x))"
proof -
  have ok: "loop_ok s" by (rule run_reachable_ok [OF assms])
  then have "owns (rs_pc s t) f \<Longrightarrow> owns (rs_pc s t') f \<Longrightarrow> t = t'" for t t' f
    unfolding loop_ok_def by (metis owns_mine)
  then show ?thesis
    using ok GetThis_inside look_up_total dispatch_total settle_total by blast
qed

text \<open>A run of one thread with one fiber, for the witnesses.\<close>

definition demo_sched :: "nat schedular" where
  "demo_sched =
     \<lparr>sc_self = 1, sc_fs = no_fibers, sc_queue = [], sc_root_fiber = None, sc_threads = [],
      sc_thread_ids = [], sc_thread_cnt = 1, sc_active = 0, sc_idle = 0, sc_stopping = True,
      sc_autostop = False, sc_root_thread = -1, sc_tickles = 0\<rparr>"

lemma demo_startable: "startable demo_sched"
  by (simp add: startable_def demo_sched_def)

lemmas loop_code = run_pick_def run_dispatch_def dispatch_callback_def dispatch_idle_def
  enter_fiber_def swapIn_def schedule_ft_def scheduleNoLock_def of_fiber_def of_callback_def
  sched_tickle_def

theorem fiber_on_one_thread_witness:
  "\<exists>s f. (run_step 0 True)\<^sup>*\<^sup>* (start_system demo_sched) s \<and> rs_pc s 7 = Inside OfCallback f \<and>
     status_of (sc_fs (rs_sched s)) f = S_EXEC"
proof -
  let ?s0 = "start_system demo_sched"
  obtain l1 sch1 where e: "run_enter 0 7 demo_sched = (l1, sch1)" by fastforce
  have q1: "sc_queue sch1 = []" "rl_cb l1 = None"
    using run_enter_result [OF e] by (simp_all add: demo_sched_def)
  let ?s1 = "at_thread 7 Looking l1 sch1 ?s0"
  have 1: "run_step 0 True ?s0 ?s1"
    by (rule enter) (use e in \<open>simp_all add: start_system_def\<close>)
  let ?sch2 = "schedule_ft (of_callback (Some (Job 3)) (-1)) sch1"
  let ?s2 = "?s1\<lparr>rs_sched := ?sch2\<rparr>"
  have 2: "run_step 0 True ?s1 ?s2"
    using schedule_callback [of 0 True ?s1 "Some (Job 3)" "-1"] by simp
  obtain sch3 where p: "run_pick 7 ?sch2 = Inr (Some (of_callback (Some (Job 3)) (-1)), sch3)"
    using q1 by (simp add: loop_code)
  let ?s3 = "at_thread 7 (Holding (Some (of_callback (Some (Job 3)) (-1)))) l1 sch3 ?s2"
  have 3: "run_step 0 True ?s2 ?s3"
    using look_up [of ?s2 7 "Some (of_callback (Some (Job 3)) (-1))" sch3 0 True] p by simp
  have reach3: "(run_step 0 True)\<^sup>*\<^sup>* ?s0 ?s3"
    using 1 2 3 by (meson r_into_rtranclp rtranclp_trans)
  have "rs_pc ?s3 7 = Holding (Some (of_callback (Some (Job 3)) (-1)))" "rs_locals ?s3 7 = l1"
    "rs_sched ?s3 = sch3"
    by simp_all
  then have "\<exists>x. run_dispatch 0 7 (Some (of_callback (Some (Job 3)) (-1))) l1 sch3 = Inr x"
    using fiber_on_one_thread [OF demo_startable reach3] by metis
  then obtain turn l4 sch4 where d: "run_dispatch 0 7 (Some (of_callback (Some (Job 3)) (-1))) l1 sch3 =
      Inr (turn, l4, sch4)"
    by (metis prod_cases3)
  then obtain f where f: "turn = Enter OfCallback f"
    using q1 by (auto simp: loop_code bindE_Inr_iff Let_def split: prod.splits)
  let ?s4 = "at_thread 7 (Inside OfCallback f) l4 sch4 ?s3"
  have 4: "run_step 0 True ?s3 ?s4"
    using dispatch [of ?s3 7 _ 0 turn l4 sch4 True] d f by simp
  have reach: "(run_step 0 True)\<^sup>*\<^sup>* ?s0 ?s4" using reach3 4 by (rule rtranclp.rtrancl_into_rtrancl)
  have "rs_pc ?s4 7 = Inside OfCallback f" by simp
  moreover have "status_of (sc_fs (rs_sched ?s4)) f = S_EXEC"
    using fiber_on_one_thread [OF demo_startable reach] calculation by blast
  ultimately show ?thesis using reach by blast
qed

section \<open>Which entry is taken\<close>

text \<open>C31: a thread takes the first entry of the queue that is not pinned to another thread and
  whose fiber is not running, and leaves the others in their order; it counts itself active
  exactly when it takes one. An entry pinned to a thread is only taken by it.\<close>

theorem first_eligible_taken:
  assumes "\<forall>it \<in> set (sc_queue s). nonempty it" and "run_pick t s = Inr (r, s')"
  shows "case r of
      None \<Rightarrow> sc_queue s' = sc_queue s \<and> sc_active s' = sc_active s \<and>
        (\<forall>it \<in> set (sc_queue s). \<not> eligible t (status_of (sc_fs s)) it)
    | Some it \<Rightarrow> sc_active s' = sc_active s + 1 \<and> (ft_thread it = -1 \<or> ft_thread it = t) \<and>
        (\<forall>f. ft_fiber it = Some f \<longrightarrow> status_of (sc_fs s) f \<noteq> S_EXEC) \<and>
        (\<exists>pre post. sc_queue s = pre @ it # post \<and> sc_queue s' = pre @ post \<and>
           (\<forall>x \<in> set pre. \<not> eligible t (status_of (sc_fs s)) x))"
proof -
  obtain q' tick where p: "pick t (status_of (sc_fs s)) (sc_queue s) = Inr (r, q', tick)"
    and s': "sc_queue s' = q'" "sc_active s' = (if r = None then sc_active s else sc_active s + 1)"
    using assms(2) by (auto simp: run_pick_def bindE_Inr_iff Let_def split: if_splits)
  show ?thesis
    using pick_result [OF assms(1) p]
  proof (elim disjE exE conjE)
    fix it pre post
    assume r: "r = Some it" "sc_queue s = pre @ it # post" "q' = pre @ post"
      and e: "eligible t (status_of (sc_fs s)) it"
      and pre: "\<forall>x \<in> set pre. \<not> eligible t (status_of (sc_fs s)) x"
    have "\<exists>pre post. sc_queue s = pre @ it # post \<and> sc_queue s' = pre @ post \<and>
        (\<forall>x \<in> set pre. \<not> eligible t (status_of (sc_fs s)) x)"
      using r(2,3) s'(1) pre by blast
    then show ?thesis using e s'(2) r(1) by (simp add: eligible_def)
  qed (use s' in simp)
qed

theorem first_eligible_taken_witness:
  "\<exists>s'. run_pick 7 (demo_sched\<lparr>sc_queue := [of_callback (Some (Job 1)) 8, of_callback (Some (Job 2)) 7]\<rparr>)
     = Inr (Some (of_callback (Some (Job 2)) 7), s') \<and>
     sc_queue s' = [of_callback (Some (Job 1)) 8] \<and> sc_active s' = 1"
proof -
  let ?s = "demo_sched\<lparr>sc_queue := [of_callback (Some (Job 1)) 8, of_callback (Some (Job 2)) 7]\<rparr>"
  obtain s' where p: "run_pick 7 ?s = Inr (Some (of_callback (Some (Job 2)) 7), s')"
    by (simp add: run_pick_def of_callback_def)
  have "sc_active s' = sc_active ?s + 1 \<and> (\<exists>pre post. sc_queue ?s =
      pre @ of_callback (Some (Job 2)) 7 # post \<and> sc_queue s' = pre @ post)"
    using first_eligible_taken [OF _ p] by (auto simp: nonempty_def of_callback_def)
  then have "sc_active s' = 1" "sc_queue s' = [of_callback (Some (Job 1)) 8]"
    by (auto simp: demo_sched_def Cons_eq_append_conv of_callback_def)
  then show ?thesis using p by blast
qed

section \<open>The counter of active threads\<close>

fun busy :: "'c run_pc \<Rightarrow> bool" where
  "busy (Holding (Some ft)) \<longleftrightarrow> True"
| "busy (Inside k f) \<longleftrightarrow> k \<noteq> OfIdle"
| "busy (Back k f) \<longleftrightarrow> k \<noteq> OfIdle"
| "busy _ \<longleftrightarrow> False"

definition counted :: "'c run_system \<Rightarrow> bool" where
  "counted s \<longleftrightarrow> finite {t. rs_pc s t \<noteq> Off} \<and>
     sc_active (rs_sched s) = of_nat (card {t. busy (rs_pc s t)})"

lemma card_busy:
  assumes "finite {t. pc t \<noteq> Off}"
  shows "card {x. busy ((pc(t := p)) x)} + (if busy (pc t) then 1 else 0) =
    card {x. busy (pc x)} + (if busy p then 1 else 0)"
proof -
  let ?B = "{x. busy (pc x)} - {t}"
  have fin: "finite {x. busy (pc x)}"
    by (rule finite_subset [OF _ assms]) (auto)
  have new: "{x. busy ((pc(t := p)) x)} = (if busy p then insert t ?B else ?B)" by auto
  have old: "{x. busy (pc x)} = (if busy (pc t) then insert t ?B else ?B)" by auto
  have "card {x. busy ((pc(t := p)) x)} = card ?B + (if busy p then 1 else 0)"
  proof (cases "busy p")
    case True
    have "card (insert t ?B) = Suc (card ?B)" by (rule card_insert_disjoint) (use fin in auto)
    then show ?thesis unfolding new using True by (simp only: if_True)
  qed (simp only: new if_False)
  moreover have "card {x. busy (pc x)} = card ?B + (if busy (pc t) then 1 else 0)"
  proof (cases "busy (pc t)")
    case True
    then have "t \<in> {x. busy (pc x)}" by simp
    from card.remove [OF fin this] show ?thesis using True by simp
  qed simp
  ultimately show ?thesis by simp
qed

lemma busy_Holding: "busy (Holding r) \<longleftrightarrow> r \<noteq> None"
  by (cases r) auto

lemma counted_at:
  assumes "counted s"
    and "sc_active sch + of_nat (if busy (rs_pc s t) then 1 else 0) =
      sc_active (rs_sched s) + of_nat (if busy p then 1 else 0)"
  shows "counted (at_thread t p l sch s)"
proof -
  have fin: "finite {t. rs_pc s t \<noteq> Off}" using assms(1) by (simp add: counted_def)
  have "{x. ((rs_pc s)(t := p)) x \<noteq> Off} \<subseteq> insert t {x. rs_pc s x \<noteq> Off}" by auto
  then have fin': "finite {x. ((rs_pc s)(t := p)) x \<noteq> Off}" using fin finite_subset by blast
  have "of_nat (card {x. busy (((rs_pc s)(t := p)) x)}) +
      of_nat (if busy (rs_pc s t) then 1 else 0) =
      (of_nat (card {x. busy (rs_pc s x)}) + of_nat (if busy p then 1 else 0) :: u64)"
    using card_busy [OF fin, of t p] by (metis of_nat_add)
  moreover have "sc_active (rs_sched s) = of_nat (card {x. busy (rs_pc s x)})"
    using assms(1) by (simp add: counted_def)
  ultimately have "sc_active sch = of_nat (card {x. busy (((rs_pc s)(t := p)) x)})"
    using assms(2) by (metis add_right_cancel)
  then show ?thesis
    using fin' unfolding counted_def at_thread_simps by blast
qed

lemma enter_fiber_active:
  "enter_fiber t k f l s = Inr (turn, l', s') \<Longrightarrow> turn = Enter k f \<and> sc_active s' = sc_active s"
  by (auto simp: enter_fiber_def bindE_Inr_iff)

lemma dispatch_active:
  fixes s :: "'c schedular"
  assumes "run_dispatch sz t r l s = Inr (turn, l', s')"
  shows "sc_active s' + (if r \<noteq> None then 1 else 0) =
    sc_active s + (if busy (after_turn turn :: 'c run_pc) then 1 else 0)"
proof -
  have cb: "dispatch_callback sz t cb l s = Inr (turn, l', s') \<Longrightarrow>
      (\<exists>f. turn = Enter OfCallback f) \<and> sc_active s' = sc_active s" for cb
    by (auto simp: dispatch_callback_def bindE_Inr_iff Let_def dest: enter_fiber_active
        split: option.splits prod.splits)
  have idle: "dispatch_idle t l s = Inr (turn, l', s') \<Longrightarrow>
      (turn = Leave \<or> (\<exists>f. turn = Enter OfIdle f)) \<and> sc_active s' = sc_active s"
    by (auto simp: dispatch_idle_def dest: enter_fiber_active split: if_splits)
  show ?thesis
  proof (cases r)
    case None
    then show ?thesis using assms idle by (auto simp: run_dispatch_def)
  next
    case (Some ft)
    let ?runnable = "case ft_fiber ft of Some f \<Rightarrow> status_of (sc_fs s) f \<notin> {S_TERM, S_EXCEPT}
      | None \<Rightarrow> False"
    show ?thesis
    proof (cases ?runnable)
      case True
      then show ?thesis
        using assms Some enter_fiber_active [of t OfFiber "the (ft_fiber ft)" l s turn l' s']
        by (simp add: run_dispatch_def)
    next
      case False
      then show ?thesis
        using assms Some cb by (cases "ft_callback ft") (auto simp: run_dispatch_def dest!: cb)
    qed
  qed
qed

lemma settle_active:
  "run_settle k f l s = Inr (l', s') \<Longrightarrow> sc_active s' = sc_active s"
  by (cases k) (auto simp: run_settle_def Let_def on_fs_def bindE_Inr_iff split: if_splits)

lemma run_step_counted: "run_step sz polite s s' \<Longrightarrow> counted s \<Longrightarrow> counted s'"
proof (induction rule: run_step.induct)
  case (enter s t l sch)
  then show ?case
    by (intro counted_at) (use run_enter_result [of sz t "rs_sched s" l sch] in auto)
next
  case (look_up s t r sch)
  then have "sc_active sch = (if r = None then sc_active (rs_sched s) else sc_active (rs_sched s) + 1)"
    by (auto simp: run_pick_def bindE_Inr_iff Let_def split: if_splits)
  then show ?case
    using look_up.hyps(1) look_up.prems by (intro counted_at) (simp_all add: busy_Holding)
next
  case (dispatch s t r turn l sch)
  then show ?case
    using dispatch_active [of sz t r "rs_locals s t" "rs_sched s" turn l sch]
    by (intro counted_at) (auto simp: dispatch.hyps(1) dispatch.prems busy_Holding)
next
  case (come_back s t k f)
  then show ?case by (intro counted_at) (auto simp: run_return_def)
next
  case (settle s t k f l sch)
  then show ?case
    using settle_active [of k f "rs_locals s t" "rs_sched s" l sch] by (intro counted_at) simp_all
next
  case (yield_ready s t k f fs)
  then show ?case by (intro counted_at) simp_all
next
  case (yield_hold s t k f fs)
  then show ?case by (intro counted_at) simp_all
next
  case (finish s t k f throws fs)
  then show ?case by (intro counted_at) simp_all
qed (simp_all add: counted_def)

text \<open>C30: in every run, disciplined or not, \<open>_active_thread_cnt\<close> is the number of threads that
  hold an entry or are inside a fiber of a client; so when \<open>stopping\<close> says yes, no such thread is
  left (with fewer than 2^64 threads) and the queue is empty.\<close>

theorem active_counter_exact:
  assumes "startable sch" and "(run_step sz polite)\<^sup>*\<^sup>* (start_system sch) s"
  shows "sc_active (rs_sched s) = of_nat (card {t. busy (rs_pc s t)}) \<and>
    (sched_stopping (rs_sched s) \<longrightarrow> card {t. busy (rs_pc s t)} < 2 ^ 64 \<longrightarrow>
       (\<forall>t. \<not> busy (rs_pc s t)) \<and> sc_queue (rs_sched s) = [])"
proof -
  have "counted (start_system sch)"
    using assms(1) by (simp add: counted_def startable_def start_system_def)
  with assms(2) have c: "counted s" by induction (auto intro: run_step_counted)
  have "finite {t. busy (rs_pc s t)}"
    by (rule finite_subset [of _ "{t. rs_pc s t \<noteq> Off}"]) (use c in \<open>auto simp: counted_def\<close>)
  moreover have "card {t. busy (rs_pc s t)} = 0"
    if "sched_stopping (rs_sched s)" "card {t. busy (rs_pc s t)} < 2 ^ 64"
  proof -
    have "(of_nat (card {t. busy (rs_pc s t)}) :: u64) = 0"
      using c that(1) by (simp add: counted_def sched_stopping_def)
    then have "unat (of_nat (card {t. busy (rs_pc s t)}) :: u64) = 0" by simp
    then show ?thesis using that(2) by (simp add: unsigned_of_nat take_bit_nat_eq_self)
  qed
  ultimately have "(\<forall>t. \<not> busy (rs_pc s t))"
    if "sched_stopping (rs_sched s)" "card {t. busy (rs_pc s t)} < 2 ^ 64"
    using that by (metis card_eq_0_iff empty_Collect_eq)
  then show ?thesis
    using c unfolding counted_def sched_stopping_def by blast
qed


theorem active_counter_exact_witness:
  "\<exists>s. (run_step 0 False)\<^sup>*\<^sup>* (start_system demo_sched) s \<and> rs_pc s 7 = Looking \<and>
     sc_active (rs_sched s) = of_nat (card {t. busy (rs_pc s t)})"
proof -
  obtain l1 sch1 where e: "run_enter 0 7 demo_sched = (l1, sch1)" by fastforce
  let ?s1 = "at_thread 7 Looking l1 sch1 (start_system demo_sched)"
  have "run_step 0 False (start_system demo_sched) ?s1"
    by (rule enter) (use e in \<open>simp_all add: start_system_def\<close>)
  then have reach: "(run_step 0 False)\<^sup>*\<^sup>* (start_system demo_sched) ?s1" by blast
  show ?thesis
    using active_counter_exact [OF demo_startable reach] reach by (intro exI [of _ ?s1]) simp
qed

section \<open>What goes wrong\<close>

text \<open>Two entries with the same fiber: a second thread takes its entry after the first thread
  took the other one and before it set the fiber's state, and its \<open>swapIn\<close> fails the assertion.\<close>

theorem fiber_queued_twice_fails:
  assumes q: "sc_queue s = [of_fiber (Some f) (-1), of_fiber (Some f) (-1)]"
    and st: "status_of (sc_fs s) f \<in> {S_INIT, S_HOLD, S_READY}"
    and main: "fs_mainFiber (sc_fs s) t1 \<noteq> None"
  shows "\<exists>s1 s2 s3. run_pick t1 s = Inr (Some (of_fiber (Some f) (-1)), s1) \<and>
    run_pick t2 s1 = Inr (Some (of_fiber (Some f) (-1)), s2) \<and>
    run_dispatch sz t1 (Some (of_fiber (Some f) (-1))) l1 s2 = Inr (Enter OfFiber f, l1, s3) \<and>
    run_dispatch sz t2 (Some (of_fiber (Some f) (-1))) l2 s3 = Inl AssertFail"
  using assms by (auto simp: loop_code set_status_def)

theorem fiber_queued_twice_fails_witness:
  "\<exists>s1 s2 s3. let f = 4; it = of_fiber (Some f) (-1);
      fs = set_status f S_HOLD (no_fibers\<lparr>fs_mainFiber := (\<lambda>_. Some 0)\<rparr>);
      s = demo_sched\<lparr>sc_fs := fs, sc_queue := [it, it]\<rparr>; l = \<lparr>rl_idle = 1, rl_cb = None\<rparr>
    in run_pick 7 s = Inr (Some it, s1) \<and> run_pick 8 s1 = Inr (Some it, s2) \<and>
      run_dispatch 0 7 (Some it) l s2 = Inr (Enter OfFiber f, l, s3) \<and>
      run_dispatch 0 8 (Some it) l s3 = Inl AssertFail"
proof -
  let ?it = "of_fiber (Some 4) (-1)"
  let ?s = "demo_sched\<lparr>sc_fs := set_status 4 S_HOLD (no_fibers\<lparr>fs_mainFiber := (\<lambda>_. Some 0)\<rparr>),
    sc_queue := [?it, ?it]\<rparr>"
  let ?l = "\<lparr>rl_idle = 1, rl_cb = None\<rparr>"
  have "\<exists>s1 s2 s3. run_pick 7 ?s = Inr (Some ?it, s1) \<and> run_pick 8 s1 = Inr (Some ?it, s2) \<and>
    run_dispatch 0 7 (Some ?it) ?l s2 = Inr (Enter OfFiber 4, ?l, s3) \<and>
    run_dispatch 0 8 (Some ?it) ?l s3 = Inl AssertFail"
    by (rule fiber_queued_twice_fails) simp_all
  then show ?thesis unfolding Let_def .
qed

text \<open>Between decreasing the counter and scheduling a fiber that yielded to be ready, the
  queue is empty and no thread is active: \<open>stopping\<close> says yes although the fiber has not ended, and
  says no again a moment later.\<close>

theorem stopping_while_fiber_ready:
  assumes "sc_autostop s" "sc_stopping s" "sc_queue s = []" "sc_active s = 1"
    and "status_of (sc_fs s) f = S_READY"
  shows "\<not> sched_stopping s \<and> sched_stopping (run_return OfFiber s) \<and>
    (\<exists>s'. run_settle OfFiber f l (run_return OfFiber s) = Inr (l, s') \<and>
       sc_queue s' = [of_fiber (Some f) (-1)] \<and> \<not> sched_stopping s')"
  using assms
  by (simp add: sched_stopping_def run_return_def run_settle_def schedule_ft_def scheduleNoLock_def
      of_fiber_def sched_tickle_def)

theorem stopping_while_fiber_ready_witness:
  "sched_stopping (run_return OfFiber (demo_sched\<lparr>sc_fs := set_status 4 S_READY no_fibers,
     sc_autostop := True, sc_active := 1\<rparr>))"
  using stopping_while_fiber_ready [of "demo_sched\<lparr>sc_fs := set_status 4 S_READY no_fibers,
     sc_autostop := True, sc_active := 1\<rparr>" 4 "\<lparr>rl_idle = 1, rl_cb = None\<rparr>"]
  by (simp add: demo_sched_def)

end
