(* ===== verification/FdManager.thy ===== *)
theory FdManager
  imports Prelude
begin

text \<open>
  \<open>src/FdManager.cpp\<close>: what the framework knows of a descriptor, and the table of these contexts.
  \<open>fstat\<close> and \<open>fcntl_f\<close> are arguments: \<open>stat fd\<close> is \<open>None\<close> when \<open>fstat\<close> fails and else tells whether
  the descriptor is a socket; \<open>getfl\<close> and \<open>setfl\<close> read and write the status flags in the state \<open>'k\<close>
  of the kernel.
\<close>

unbundle bit_operations_syntax

section \<open>A descriptor\<close>

definition O_NONBLOCK :: u32 where "O_NONBLOCK = 0x800"

definition SO_RCVTIMEO :: int where "SO_RCVTIMEO = 20"
definition SO_SNDTIMEO :: int where "SO_SNDTIMEO = 21"
definition SO_RCVTIMEO_NEW :: int where "SO_RCVTIMEO_NEW = 66"
definition SO_SNDTIMEO_NEW :: int where "SO_SNDTIMEO_NEW = 67"

lemmas timeo_defs = SO_RCVTIMEO_def SO_SNDTIMEO_def SO_RCVTIMEO_NEW_def SO_SNDTIMEO_NEW_def

record fd_ctx =
  fx_isInit :: bool
  fx_isSocket :: bool
  fx_sysNonblock :: bool
  fx_userNonblock :: bool
  fx_isClosed :: bool
  fx_fd :: int
  fx_recvTimeout :: u64
  fx_sendTimeout :: u64

definition fx_setTimeout :: "int \<Rightarrow> u64 \<Rightarrow> fd_ctx \<Rightarrow> fd_ctx" where
  "fx_setTimeout type v c =
     (if type = SO_RCVTIMEO \<or> type = SO_RCVTIMEO_NEW then c\<lparr>fx_recvTimeout := v\<rparr>
      else c\<lparr>fx_sendTimeout := v\<rparr>)"

definition fx_getTimeout :: "int \<Rightarrow> fd_ctx \<Rightarrow> u64" where
  "fx_getTimeout type c =
     (if type = SO_RCVTIMEO \<or> type = SO_RCVTIMEO_NEW then fx_recvTimeout c else fx_sendTimeout c)"

type_synonym 'k getfl = "'k \<Rightarrow> int \<Rightarrow> u32"
type_synonym 'k setfl = "'k \<Rightarrow> int \<Rightarrow> u32 \<Rightarrow> int \<times> 'k"

definition FdCtx_init ::
  "(int \<Rightarrow> bool option) \<Rightarrow> 'k getfl \<Rightarrow> 'k setfl \<Rightarrow> fd_ctx \<Rightarrow> 'k \<Rightarrow> bool \<times> fd_ctx \<times> 'k" where
  "FdCtx_init stat getfl setfl c k =
     (if fx_isInit c then (True, c, k)
      else
        let c1 = c\<lparr>fx_recvTimeout := -1, fx_sendTimeout := -1\<rparr>;
            c2 = (case stat (fx_fd c) of
                    None \<Rightarrow> c1\<lparr>fx_isInit := False, fx_isSocket := False\<rparr>
                  | Some sock \<Rightarrow> c1\<lparr>fx_isInit := True, fx_isSocket := sock\<rparr>);
            (c3, k1) =
              (if fx_isSocket c2 then
                 let flags = getfl k (fx_fd c) in
                 (c2\<lparr>fx_sysNonblock := True\<rparr>,
                  if flags AND O_NONBLOCK = 0 then snd (setfl k (fx_fd c) (flags OR O_NONBLOCK)) else k)
               else (c2\<lparr>fx_sysNonblock := False\<rparr>, k));
            c4 = c3\<lparr>fx_userNonblock := False, fx_isClosed := False\<rparr>
        in (fx_isInit c4, c4, k1))"

definition FdCtx_new ::
  "(int \<Rightarrow> bool option) \<Rightarrow> 'k getfl \<Rightarrow> 'k setfl \<Rightarrow> int \<Rightarrow> 'k \<Rightarrow> fd_ctx \<times> 'k" where
  "FdCtx_new stat getfl setfl fd k =
     snd (FdCtx_init stat getfl setfl
       \<lparr>fx_isInit = False, fx_isSocket = False, fx_sysNonblock = False, fx_userNonblock = False,
        fx_isClosed = False, fx_fd = fd, fx_recvTimeout = -1, fx_sendTimeout = -1\<rparr> k)"

section \<open>The table\<close>

type_synonym fd_table = "fd_ctx option list"

definition new_fd_table :: fd_table where
  "new_fd_table = replicate 64 None"

text \<open>
  \<open>get\<close>. The first part is under the reader lock; \<open>None\<close> means that it goes on to create a context.
  An index below 0 is outside the vector.
\<close>

definition fdm_find :: "int \<Rightarrow> bool \<Rightarrow> fd_table \<Rightarrow> fd_ctx option option res" where
  "fdm_find fd auto_create ds =
     (if int (length ds) \<le> fd then Inr (if auto_create then None else Some None)
      else if fd < 0 then Inl BadIndex
      else if ds ! nat fd \<noteq> None \<or> \<not> auto_create then Inr (Some (ds ! nat fd))
      else Inr None)"

text \<open>The second part, under the writer lock: \<open>resize(fd * 1.5)\<close> fills with null pointers.\<close>

definition vec_resize :: "nat \<Rightarrow> 'a option list \<Rightarrow> 'a option list" where
  "vec_resize n ds = take n ds @ replicate (n - length ds) None"

definition fdm_create ::
  "(int \<Rightarrow> bool option) \<Rightarrow> 'k getfl \<Rightarrow> 'k setfl \<Rightarrow> int \<Rightarrow> fd_table \<Rightarrow> 'k
   \<Rightarrow> (fd_ctx \<times> fd_table \<times> 'k) res" where
  "fdm_create stat getfl setfl fd ds k =
     (let (ctx, k1) = FdCtx_new stat getfl setfl fd k;
          ds1 = (if fd \<ge> int (length ds) then vec_resize (nat (fd * 3 div 2)) ds else ds)
      in if 0 \<le> fd \<and> nat fd < length ds1 then Inr (ctx, ds1[nat fd := Some ctx], k1)
         else Inl BadIndex)"

definition fdm_get ::
  "(int \<Rightarrow> bool option) \<Rightarrow> 'k getfl \<Rightarrow> 'k setfl \<Rightarrow> int \<Rightarrow> bool \<Rightarrow> fd_table \<Rightarrow> 'k
   \<Rightarrow> (fd_ctx option \<times> fd_table \<times> 'k) res" where
  "fdm_get stat getfl setfl fd auto_create ds k =
     (if fd = -1 then Inr (None, ds, k)
      else
        bindE (fdm_find fd auto_create ds) (\<lambda>found.
          case found of
            Some r \<Rightarrow> Inr (r, ds, k)
          | None \<Rightarrow>
              bindE (fdm_create stat getfl setfl fd ds k) (\<lambda>(ctx, ds1, k1). Inr (Some ctx, ds1, k1))))"

definition fdm_del :: "int \<Rightarrow> fd_table \<Rightarrow> fd_table res" where
  "fdm_del fd ds =
     (if int (length ds) \<le> fd then Inr ds
      else if fd < 0 then Inl BadIndex
      else Inr (ds[nat fd := None]))"

text \<open>Storing a context back that was changed through its pointer.\<close>

definition fdm_put :: "int \<Rightarrow> fd_ctx \<Rightarrow> fd_table \<Rightarrow> fd_table" where
  "fdm_put fd c ds = ds[nat fd := Some c]"

section \<open>The table as a map\<close>

definition fdm_map :: "fd_table \<Rightarrow> int \<Rightarrow> fd_ctx option" where
  "fdm_map ds fd = (if 0 \<le> fd \<and> nat fd < length ds then ds ! nat fd else None)"

lemma fdm_map_new [simp]: "fdm_map new_fd_table fd = None"
  by (simp add: fdm_map_def new_fd_table_def)

lemma fdm_map_update:
  "0 \<le> fd \<Longrightarrow> nat fd < length ds \<Longrightarrow> fdm_map (ds[nat fd := x]) = (fdm_map ds)(fd := x)"
  by (auto simp: fdm_map_def fun_eq_iff nth_list_update)

lemma fdm_map_resize:
  "length ds \<le> n \<Longrightarrow> fdm_map (vec_resize n ds) = fdm_map ds"
  by (auto simp: fdm_map_def vec_resize_def fun_eq_iff nth_append)

lemma fdm_put_map:
  "fdm_map ds fd \<noteq> None \<Longrightarrow> fdm_map (fdm_put fd c ds) = (fdm_map ds)(fd \<mapsto> c)"
  by (auto simp: fdm_put_def fdm_map_update fdm_map_def split: if_splits)

lemma fdm_del_map:
  assumes "fdm_del fd ds = Inr ds'"
  shows "fdm_map ds' = (fdm_map ds)(fd := None) \<and> length ds' = length ds"
  using assms by (auto simp: fdm_del_def fdm_map_update fdm_map_def fun_eq_iff split: if_splits)

lemma fdm_get_found:
  assumes "fdm_map ds fd = Some c"
  shows "fdm_get stat getfl setfl fd auto_create ds k = Inr (Some c, ds, k)"
  using assms by (auto simp: fdm_get_def fdm_find_def fdm_map_def split: if_splits)

lemma fdm_get_lookup:
  assumes "0 \<le> fd"
  shows "fdm_get stat getfl setfl fd False ds k = Inr (fdm_map ds fd, ds, k)"
  using assms by (auto simp: fdm_get_def fdm_find_def fdm_map_def)

lemma fdm_get_create:
  assumes "fdm_map ds fd = None" and fd: "0 \<le> fd" "32 \<le> length ds"
  shows "\<exists>ds'. fdm_get stat getfl setfl fd True ds k =
      Inr (Some (fst (FdCtx_new stat getfl setfl fd k)), ds', snd (FdCtx_new stat getfl setfl fd k)) \<and>
    fdm_map ds' = (fdm_map ds)(fd \<mapsto> fst (FdCtx_new stat getfl setfl fd k)) \<and>
    length ds \<le> length ds'"
proof -
  obtain ctx k1 where new: "FdCtx_new stat getfl setfl fd k = (ctx, k1)" by fastforce
  have find: "fdm_find fd True ds = Inr None"
    using assms by (cases "int (length ds) \<le> fd") (simp_all add: fdm_find_def fdm_map_def nat_less_iff)
  show ?thesis
  proof (cases "int (length ds) \<le> fd")
    case True
    have len: "length ds \<le> nat (fd * 3 div 2)" "nat fd < nat (fd * 3 div 2)"
      using True fd by linarith+
    then have l: "length (vec_resize (nat (fd * 3 div 2)) ds) = nat (fd * 3 div 2)"
      by (simp add: vec_resize_def)
    then show ?thesis
      using find new True fd len fdm_map_resize [OF len(1)]
      by (simp add: fdm_get_def fdm_create_def fdm_map_update)
  next
    case False
    then show ?thesis
      using find new fd by (simp add: fdm_get_def fdm_create_def fdm_map_update)
  qed
qed

end
