(* ===== verification/Hook.thy ===== *)
theory Hook
  imports FdManager IoManager "HOL-Library.Signed_Division"
begin

text \<open>
  The hooked system calls of \<open>src/Hook.cpp\<close>. The original calls are arguments: a call that moves data
  is the list of the results it gives one after the other, \<open>(n, errno)\<close>; \<open>fcntl_f\<close> and \<open>ioctl_f\<close>
  work on the kernel's state \<open>'k\<close>. What a fiber does before it yields and after it is resumed are
  two definitions on the IO manager; between them other fibers and the timers run.
\<close>

section \<open>Codes\<close>

definition EINTR :: int where "EINTR = 4"
definition EBADF :: int where "EBADF = 9"
definition EAGAIN :: int where "EAGAIN = 11"
definition ETIMEDOUT :: int where "ETIMEDOUT = 110"
definition EINPROGRESS :: int where "EINPROGRESS = 115"

lemmas errno_defs = EINTR_def EBADF_def EAGAIN_def ETIMEDOUT_def EINPROGRESS_def

type_synonym call_result = "int \<times> int"

section \<open>Input and output\<close>

text \<open>What \<open>do_io\<close> does before its first call: the original call alone, an error, or the loop with a
  timeout.\<close>

datatype io_plan = CallDirect | FailWith int | Loop u64

definition do_io_plan :: "bool \<Rightarrow> fd_ctx option \<Rightarrow> int \<Rightarrow> io_plan" where
  "do_io_plan enable ctx timeout_so =
     (if \<not> enable then CallDirect
      else
        case ctx of
          None \<Rightarrow> CallDirect
        | Some c \<Rightarrow>
            if fx_isClosed c then FailWith EBADF
            else if \<not> fx_isSocket c \<or> fx_userNonblock c then CallDirect
            else Loop (fx_getTimeout timeout_so c))"

text \<open>The call, again while a signal interrupts it: its result and the results left.\<close>

fun call_retry :: "call_result list \<Rightarrow> (call_result \<times> call_result list) option" where
  "call_retry [] = None"
| "call_retry ((n, e) # rs) =
     (if n = -1 \<and> e = EINTR then call_retry rs else Some ((n, e), rs))"

text \<open>What happens to a fiber that waits: \<open>addEvent\<close> failed, leaving an error number; an event woke
  it; or the timer fired first.\<close>

datatype wake = AddFailed int | WokenUp | TimerFired

text \<open>The loop, over the results of the calls and of the waits; \<open>None\<close> when they end before it does.\<close>

fun do_io_loop :: "call_result list \<Rightarrow> wake list \<Rightarrow> call_result option" where
  "do_io_loop calls [] =
     (case call_retry calls of
        None \<Rightarrow> None
      | Some (r, rest) \<Rightarrow> if fst r = -1 \<and> snd r = EAGAIN then None else Some r)"
| "do_io_loop calls (w # ws) =
     (case call_retry calls of
        None \<Rightarrow> None
      | Some (r, rest) \<Rightarrow>
          if fst r = -1 \<and> snd r = EAGAIN then
            (case w of
               AddFailed e \<Rightarrow> Some (-1, e)
             | TimerFired \<Rightarrow> Some (-1, ETIMEDOUT)
             | WokenUp \<Rightarrow> do_io_loop rest ws)
          else Some r)"

definition do_io ::
  "bool \<Rightarrow> fd_ctx option \<Rightarrow> int \<Rightarrow> call_result list \<Rightarrow> wake list \<Rightarrow> call_result option" where
  "do_io enable ctx timeout_so calls wakes =
     (case do_io_plan enable ctx timeout_so of
        CallDirect \<Rightarrow> (case calls of [] \<Rightarrow> None | r # _ \<Rightarrow> Some r)
      | FailWith e \<Rightarrow> Some (-1, e)
      | Loop timeout \<Rightarrow> do_io_loop calls wakes)"

section \<open>Waiting on the IO manager\<close>

text \<open>
  From \<open>EAGAIN\<close> to \<open>YieldToHold\<close>: the timer at the address \<open>i\<close> with the weak pointer \<open>winfo\<close>, and the
  event. \<open>self\<close> is the calling thread's IO manager.
\<close>

definition start_timer ::
  "u64 \<Rightarrow> nat \<Rightarrow> 'c \<Rightarrow> nat \<Rightarrow> u64 \<Rightarrow> ('c, 'k) io_manager \<Rightarrow> ('c, 'k) io_manager" where
  "start_timer timeout i cb winfo now m =
     (if timeout \<noteq> -1
      then m\<lparr>io_timers := addConditionTimer i timeout cb winfo False now (io_timers m)\<rparr> else m)"

definition stop_timer :: "u64 \<Rightarrow> nat \<Rightarrow> ('c, 'k) io_manager \<Rightarrow> ('c, 'k) io_manager res" where
  "stop_timer timeout i m =
     (if timeout \<noteq> -1
      then bindE (tm_cancel i (io_timers m)) (\<lambda>(ok, tms). Inr (m\<lparr>io_timers := tms\<rparr>))
      else Inr m)"

definition do_io_wait ::
  "'k epoll_ctl \<Rightarrow> u64 \<Rightarrow> nat \<Rightarrow> 'c \<Rightarrow> nat \<Rightarrow> u64 \<Rightarrow> int \<Rightarrow> u32 \<Rightarrow> nat option \<Rightarrow> nat
   \<Rightarrow> ('c, 'k) io_manager \<Rightarrow> (bool \<times> ('c, 'k) io_manager) res" where
  "do_io_wait ctl timeout i cb winfo now fd event self fiber m =
     (if self = None then Inl NullDeref
      else
        bindE (addEvent ctl fd event None self fiber True (start_timer timeout i cb winfo now m))
          (\<lambda>(ret, m1).
             if ret \<noteq> 0 then bindE (stop_timer timeout i m1) (\<lambda>m2. Inr (False, m2))
             else Inr (True, m1)))"

text \<open>The timer's function, when the weak pointer is alive: \<open>cancelled\<close> and the manager.\<close>

definition do_io_timeout ::
  "'k epoll_ctl \<Rightarrow> int \<Rightarrow> u32 \<Rightarrow> int \<Rightarrow> ('c, 'k) io_manager \<Rightarrow> (int \<times> ('c, 'k) io_manager) res" where
  "do_io_timeout ctl fd event cancelled m =
     (if cancelled \<noteq> 0 then Inr (cancelled, m)
      else bindE (cancelEvent ctl fd event m) (\<lambda>(ok, m1). Inr (ETIMEDOUT, m1)))"

text \<open>After \<open>YieldToHold\<close>: how the wait ended.\<close>

definition do_io_resume ::
  "u64 \<Rightarrow> nat \<Rightarrow> int \<Rightarrow> ('c, 'k) io_manager \<Rightarrow> (wake \<times> ('c, 'k) io_manager) res" where
  "do_io_resume timeout i cancelled m =
     bindE (stop_timer timeout i m) (\<lambda>m1.
       Inr (if cancelled \<noteq> 0 then TimerFired else WokenUp, m1))"

section \<open>Sleeping\<close>

text \<open>The times in milliseconds, in the widths of the code.\<close>

definition sleep_ms :: "u32 \<Rightarrow> u64" where
  "sleep_ms seconds = ucast (seconds * 1000)"

definition usleep_ms :: "u32 \<Rightarrow> u64" where
  "usleep_ms usec = ucast (usec div 1000)"

definition nanosleep_ms :: "64 word \<Rightarrow> 64 word \<Rightarrow> u64" where
  "nanosleep_ms tv_sec tv_nsec =
     (let timeout_ms = (ucast (tv_sec * 1000 + word_of_int ((sint tv_nsec sdiv 1000) sdiv 1000)) :: u32)
      in scast timeout_ms)"

text \<open>A hooked \<open>sleep\<close>: the timer that schedules the fiber, before it yields.\<close>

definition hook_sleep :: "u64 \<Rightarrow> nat \<Rightarrow> 'c \<Rightarrow> u64 \<Rightarrow> ('c, 'k) io_manager \<Rightarrow> ('c, 'k) io_manager" where
  "hook_sleep ms i schedule_fiber now m =
     m\<lparr>io_timers := addTimer i ms (Call schedule_fiber) False now (io_timers m)\<rparr>"

section \<open>Connecting\<close>

datatype connect_plan = ConnectDirect | ConnectFail int | ConnectHooked

definition connect_plan_of :: "bool \<Rightarrow> fd_ctx option \<Rightarrow> connect_plan" where
  "connect_plan_of enable ctx =
     (if \<not> enable then ConnectDirect
      else
        case ctx of
          None \<Rightarrow> ConnectFail EBADF
        | Some c \<Rightarrow>
            if fx_isClosed c then ConnectFail EBADF
            else if \<not> fx_isSocket c then ConnectDirect
            else if fx_userNonblock c then ConnectDirect
            else ConnectHooked)"

text \<open>
  \<open>connect_with_timeout\<close>: \<open>first\<close> is the result of the original \<open>connect\<close>, \<open>w\<close> what became of the wait,
  and \<open>sockopt\<close> the result of \<open>getsockopt\<close> with the value of \<open>SO_ERROR\<close>.
\<close>

definition connect_end :: "int \<times> int \<Rightarrow> int \<Rightarrow> call_result" where
  "connect_end sockopt errno =
     (if fst sockopt = -1 then (-1, errno)
      else if snd sockopt = 0 then (0, errno)
      else (-1, snd sockopt))"

definition connect_with_timeout ::
  "bool \<Rightarrow> fd_ctx option \<Rightarrow> call_result \<Rightarrow> wake \<Rightarrow> int \<times> int \<Rightarrow> call_result" where
  "connect_with_timeout enable ctx first w sockopt =
     (case connect_plan_of enable ctx of
        ConnectDirect \<Rightarrow> first
      | ConnectFail e \<Rightarrow> (-1, e)
      | ConnectHooked \<Rightarrow>
          if fst first = 0 then (0, snd first)
          else if fst first \<noteq> -1 \<or> snd first \<noteq> EINPROGRESS then first
          else
            case w of
              TimerFired \<Rightarrow> (-1, ETIMEDOUT)
            | WokenUp \<Rightarrow> connect_end sockopt (snd first)
            | AddFailed e \<Rightarrow> connect_end sockopt e)"

section \<open>Descriptors\<close>

text \<open>\<open>socket\<close> and \<open>accept\<close> after the original call returned \<open>fd\<close>.\<close>

definition hook_socket ::
  "(int \<Rightarrow> bool option) \<Rightarrow> 'k getfl \<Rightarrow> 'k setfl \<Rightarrow> bool \<Rightarrow> int \<Rightarrow> fd_table \<Rightarrow> 'k
   \<Rightarrow> (int \<times> fd_table \<times> 'k) res" where
  "hook_socket stat getfl setfl enable fd ds k =
     (if \<not> enable \<or> fd = -1 then Inr (fd, ds, k)
      else bindE (fdm_get stat getfl setfl fd True ds k) (\<lambda>(ctx, ds1, k1). Inr (fd, ds1, k1)))"

definition hook_accept ::
  "(int \<Rightarrow> bool option) \<Rightarrow> 'k getfl \<Rightarrow> 'k setfl \<Rightarrow> int \<Rightarrow> fd_table \<Rightarrow> 'k
   \<Rightarrow> (int \<times> fd_table \<times> 'k) res" where
  "hook_accept stat getfl setfl fd ds k =
     (if fd \<ge> 0 then
        bindE (fdm_get stat getfl setfl fd True ds k) (\<lambda>(ctx, ds1, k1). Inr (fd, ds1, k1))
      else Inr (fd, ds, k))"

text \<open>\<open>close\<close> up to the original call; \<open>iom\<close> is the thread's IO manager, if any.\<close>

definition hook_close ::
  "'e epoll_ctl \<Rightarrow> bool \<Rightarrow> int \<Rightarrow> fd_table \<Rightarrow> ('c, 'e) io_manager option
   \<Rightarrow> (fd_table \<times> ('c, 'e) io_manager option) res" where
  "hook_close ctl enable fd ds iom =
     (if \<not> enable then Inr (ds, iom)
      else if fd = -1 then Inr (ds, iom)
      else
        bindE (fdm_find fd False ds) (\<lambda>found.
          if found = Some None \<or> found = None then Inr (ds, iom)
          else
            bindE (case iom of
                     None \<Rightarrow> Inr None
                   | Some m \<Rightarrow> bindE (cancelAll ctl fd m) (\<lambda>(ok, m1). Inr (Some m1))) (\<lambda>iom1.
            bindE (fdm_del fd ds) (\<lambda>ds1. Inr (ds1, iom1)))))"

text \<open>\<open>fcntl\<close> with \<open>F_SETFL\<close> and \<open>F_GETFL\<close>; the other commands are the original call.\<close>

definition fdm_look :: "int \<Rightarrow> fd_table \<Rightarrow> fd_ctx option res" where
  "fdm_look fd ds =
     (if fd = -1 then Inr None
      else bindE (fdm_find fd False ds) (\<lambda>r. Inr (case r of Some c \<Rightarrow> c | None \<Rightarrow> None)))"

definition fcntl_setfl ::
  "'k setfl \<Rightarrow> int \<Rightarrow> u32 \<Rightarrow> fd_table \<Rightarrow> 'k \<Rightarrow> (int \<times> fd_table \<times> 'k) res" where
  "fcntl_setfl setfl fd arg ds k =
     bindE (fdm_look fd ds) (\<lambda>ctx.
       case ctx of
         None \<Rightarrow> Inr (fst (setfl k fd arg), ds, snd (setfl k fd arg))
       | Some c \<Rightarrow>
           if fx_isClosed c \<or> \<not> fx_isSocket c
           then Inr (fst (setfl k fd arg), ds, snd (setfl k fd arg))
           else
             let c1 = c\<lparr>fx_userNonblock := (arg AND O_NONBLOCK \<noteq> 0)\<rparr>;
                 arg1 = (if fx_sysNonblock c1 then arg OR O_NONBLOCK else arg AND NOT O_NONBLOCK)
             in Inr (fst (setfl k fd arg1), fdm_put fd c1 ds, snd (setfl k fd arg1)))"

definition fcntl_getfl :: "'k getfl \<Rightarrow> int \<Rightarrow> fd_table \<Rightarrow> 'k \<Rightarrow> u32 res" where
  "fcntl_getfl getfl fd ds k =
     bindE (fdm_look fd ds) (\<lambda>ctx.
       let arg = getfl k fd in
       case ctx of
         None \<Rightarrow> Inr arg
       | Some c \<Rightarrow>
           if fx_isClosed c \<or> fx_isSocket c then Inr arg
           else Inr (if fx_userNonblock c then arg OR O_NONBLOCK else arg AND NOT O_NONBLOCK))"

text \<open>\<open>ioctl\<close> with \<open>FIONBIO\<close>; \<open>ioctl_f\<close> is the original call with that request.\<close>

definition ioctl_fionbio ::
  "('k \<Rightarrow> int \<Rightarrow> bool \<Rightarrow> int \<times> 'k) \<Rightarrow> int \<Rightarrow> bool \<Rightarrow> fd_table \<Rightarrow> 'k \<Rightarrow> (int \<times> fd_table \<times> 'k) res" where
  "ioctl_fionbio ioctl_f fd user_nonblock ds k =
     bindE (fdm_look fd ds) (\<lambda>ctx.
       let (r, k1) = ioctl_f k fd user_nonblock in
       case ctx of
         None \<Rightarrow> Inr (r, ds, k1)
       | Some c \<Rightarrow>
           if fx_isClosed c \<or> \<not> fx_isSocket c then Inr (r, ds, k1)
           else Inr (r, fdm_put fd (c\<lparr>fx_userNonblock := user_nonblock\<rparr>) ds, k1))"

text \<open>\<open>setsockopt\<close> with a time of \<open>tv_sec\<close> and \<open>tv_usec\<close>, before the original call.\<close>

definition SOL_SOCKET :: int where "SOL_SOCKET = 1"

definition hook_setsockopt ::
  "bool \<Rightarrow> int \<Rightarrow> int \<Rightarrow> int \<Rightarrow> u64 \<Rightarrow> 64 word \<Rightarrow> fd_table \<Rightarrow> fd_table res" where
  "hook_setsockopt enable fd level optname tv_sec tv_usec ds =
     (if enable \<and> level = SOL_SOCKET \<and>
         optname \<in> {SO_RCVTIMEO, SO_SNDTIMEO, SO_SNDTIMEO_NEW, SO_RCVTIMEO_NEW} then
        bindE (fdm_look fd ds) (\<lambda>ctx.
          case ctx of
            None \<Rightarrow> Inr ds
          | Some c \<Rightarrow>
              Inr (fdm_put fd (fx_setTimeout optname
                (tv_sec * 1000 + word_of_int (sint tv_usec sdiv 1000)) c) ds))
      else Inr ds)"

end
