(* ===== verification/HookProps.thy ===== *)
theory HookProps
  imports Hook IoKernel
begin

text \<open>
  What the hooks of \<open>src/Hook.cpp\<close> promise: a hooked call returns the first result that is final, a
  socket stays non-blocking for the kernel, a waiting fiber is woken once; and where they fail: a
  timer that is late, requests that pass the bookkeeping by, and times that wrap.
\<close>

section \<open>The loop of a hooked call\<close>

definition interrupted :: "call_result \<Rightarrow> bool" where
  "interrupted r \<longleftrightarrow> fst r = -1 \<and> snd r = EINTR"

definition must_wait :: "call_result \<Rightarrow> bool" where
  "must_wait r \<longleftrightarrow> fst r = -1 \<and> snd r = EAGAIN"

lemma call_retry_alt:
  "call_retry calls =
   (case dropWhile interrupted calls of [] \<Rightarrow> None | r # rest \<Rightarrow> Some (r, rest))"
  by (induction calls rule: call_retry.induct) (auto simp: interrupted_def)

lemma do_io_loop_alt:
  "do_io_loop calls [] =
   (case call_retry calls of
      None \<Rightarrow> None | Some (r, rest) \<Rightarrow> if must_wait r then None else Some r)"
  "do_io_loop calls (WokenUp # ws) =
   (case call_retry calls of
      None \<Rightarrow> None | Some (r, rest) \<Rightarrow> if must_wait r then do_io_loop rest ws else Some r)"
  by (simp_all add: must_wait_def split: option.split)

lemma not_both: "must_wait r \<Longrightarrow> \<not> interrupted r"
  by (simp add: must_wait_def interrupted_def errno_defs)

lemma find_skip:
  "find (\<lambda>r. \<not> interrupted r \<and> \<not> must_wait r) calls =
   find (\<lambda>r. \<not> interrupted r \<and> \<not> must_wait r) (dropWhile interrupted calls)"
  by (induction calls) auto

lemma filter_skip: "filter must_wait (dropWhile interrupted calls) = filter must_wait calls"
  by (induction calls) (auto dest: not_both)



section \<open>Non-blocking sockets\<close>

text \<open>The documented behaviour of \<open>fcntl\<close> with \<open>F_SETFL\<close> on an open descriptor: it sets the flag as
  asked and touches no other descriptor.\<close>

definition fcntl_laws :: "'k getfl \<Rightarrow> 'k setfl \<Rightarrow> bool" where
  "fcntl_laws getfl setfl \<longleftrightarrow>
     (\<forall>k fd arg. getfl (snd (setfl k fd arg)) fd AND O_NONBLOCK = arg AND O_NONBLOCK \<and>
        (\<forall>other. other \<noteq> fd \<longrightarrow> getfl (snd (setfl k fd arg)) other = getfl k other))"

text \<open>Hooked calls on descriptors: \<open>socket\<close> and \<open>accept\<close> return a descriptor that has no context,
  \<open>fcntl\<close>, \<open>setsockopt\<close>, and \<open>close\<close>.\<close>

inductive hook_step ::
  "(int \<Rightarrow> bool option) \<Rightarrow> 'k getfl \<Rightarrow> 'k setfl \<Rightarrow> fd_table \<times> 'k \<Rightarrow> fd_table \<times> 'k \<Rightarrow> bool"
  for stat :: "int \<Rightarrow> bool option" and getfl :: "'k getfl" and setfl :: "'k setfl" where
  hs_socket: "fdm_map ds fd = None \<Longrightarrow> hook_socket stat getfl setfl True fd ds k = Inr (r, ds', k') \<Longrightarrow>
    hook_step stat getfl setfl (ds, k) (ds', k')"
| hs_accept: "fdm_map ds fd = None \<Longrightarrow> hook_accept stat getfl setfl fd ds k = Inr (r, ds', k') \<Longrightarrow>
    hook_step stat getfl setfl (ds, k) (ds', k')"
| hs_fcntl: "fcntl_setfl setfl fd arg ds k = Inr (r, ds', k') \<Longrightarrow>
    hook_step stat getfl setfl (ds, k) (ds', k')"
| hs_sockopt: "hook_setsockopt True fd level optname s us ds = Inr ds' \<Longrightarrow>
    hook_step stat getfl setfl (ds, k) (ds', k)"
| hs_close: "hook_close ctl True fd ds (None :: (nat, unit) io_manager option) = Inr (ds', m) \<Longrightarrow>
    hook_step stat getfl setfl (ds, k) (ds', k)"

definition sockets_ok :: "'k getfl \<Rightarrow> fd_table \<times> 'k \<Rightarrow> bool" where
  "sockets_ok getfl s \<longleftrightarrow> 32 \<le> length (fst s) \<and>
     (\<forall>fd c. fdm_map (fst s) fd = Some c \<longrightarrow>
        fx_fd c = fd \<and> \<not> fx_isClosed c \<and> fx_sysNonblock c = fx_isSocket c \<and>
        (fx_isSocket c \<longrightarrow> getfl (snd s) fd AND O_NONBLOCK \<noteq> 0))"

lemma O_NONBLOCK_facts:
  "(arg OR O_NONBLOCK) AND O_NONBLOCK = O_NONBLOCK" "O_NONBLOCK \<noteq> 0"
  by (simp_all add: O_NONBLOCK_def bit.conj_disj_distrib2)

lemma FdCtx_new_ok:
  assumes laws: "fcntl_laws getfl setfl" and new: "FdCtx_new stat getfl setfl fd k = (c, k')"
  shows "fx_fd c = fd \<and> \<not> fx_isClosed c \<and> fx_sysNonblock c = fx_isSocket c \<and>
    (fx_isSocket c \<longrightarrow> getfl k' fd AND O_NONBLOCK \<noteq> 0) \<and>
    (\<forall>other. other \<noteq> fd \<longrightarrow> getfl k' other = getfl k other)"
  using laws new O_NONBLOCK_facts
  by (auto simp: FdCtx_new_def FdCtx_init_def Let_def fcntl_laws_def split: option.splits if_splits)

lemma fdm_look_map: "fdm_look fd ds = Inr ctx \<Longrightarrow> ctx = fdm_map ds fd"
  by (auto simp: fdm_look_def fdm_find_def fdm_map_def bindE_Inr_iff split: if_splits)

lemma create_ok:
  assumes laws: "fcntl_laws getfl setfl" and ok: "sockets_ok getfl (ds, k)"
    and none: "fdm_map ds fd = None" and fd: "0 \<le> fd"
    and get: "fdm_get stat getfl setfl fd True ds k = Inr (ctx, ds', k')"
  shows "sockets_ok getfl (ds', k')"
proof -
  obtain c k1 where new: "FdCtx_new stat getfl setfl fd k = (c, k1)" by fastforce
  have "32 \<le> length ds" using ok by (simp add: sockets_ok_def)
  from fdm_get_create [OF none fd this, of stat getfl setfl k]
  have "k' = k1" "fdm_map ds' = (fdm_map ds)(fd \<mapsto> c)" "length ds \<le> length ds'"
    using get new by auto
  then show ?thesis
    using ok FdCtx_new_ok [OF laws new] by (auto simp: sockets_ok_def)
qed

lemma put_ok:
  assumes ok: "sockets_ok getfl (ds, k)" and c: "fdm_map ds fd = Some c"
    and c': "fx_fd c' = fx_fd c" "fx_isClosed c' = fx_isClosed c"
      "fx_sysNonblock c' = fx_sysNonblock c" "fx_isSocket c' = fx_isSocket c"
    and k': "\<And>other. other \<noteq> fd \<Longrightarrow> getfl k' other = getfl k other"
      "fx_isSocket c \<Longrightarrow> getfl k' fd AND O_NONBLOCK \<noteq> 0"
  shows "sockets_ok getfl (fdm_put fd c' ds, k')"
proof -
  have m: "fdm_map (fdm_put fd c' ds) = (fdm_map ds)(fd \<mapsto> c')"
    by (rule fdm_put_map) (simp add: c)
  show ?thesis
    using ok c c' k' unfolding sockets_ok_def fst_conv snd_conv m
    by (auto simp: fdm_put_def)
qed

text \<open>A change of the flags of a descriptor that is no socket of the framework.\<close>

lemma unknown_ok:
  assumes ok: "sockets_ok getfl (ds, k)"
    and c: "\<And>c. fdm_map ds fd = Some c \<Longrightarrow> \<not> fx_isSocket c"
    and k': "\<And>other. other \<noteq> fd \<Longrightarrow> getfl k' other = getfl k other"
  shows "sockets_ok getfl (ds, k')"
proof -
  have "getfl k' fd' AND O_NONBLOCK \<noteq> 0" if m: "fdm_map ds fd' = Some d" "fx_isSocket d" for fd' d
  proof -
    have "fd' \<noteq> fd" using m c by auto
    then show ?thesis using k' [of fd'] ok m by (simp add: sockets_ok_def)
  qed
  then show ?thesis using ok by (simp add: sockets_ok_def)
qed

lemma hook_step_ok:
  assumes laws: "fcntl_laws getfl setfl"
  shows "hook_step stat getfl setfl s s' \<Longrightarrow> sockets_ok getfl s \<Longrightarrow> sockets_ok getfl s'"
proof (induction rule: hook_step.induct)
  case (hs_socket ds fd k r ds' k')
  then show ?case
  proof (cases "fd = -1")
    case False
    then obtain ctx where g: "fdm_get stat getfl setfl fd True ds k = Inr (ctx, ds', k')"
      using hs_socket.hyps(2) by (auto simp: hook_socket_def bindE_Inr_iff)
    have "0 \<le> fd"
      using g False by (auto simp: fdm_get_def fdm_find_def fdm_create_def Let_def bindE_Inr_iff
          split: if_splits prod.splits)
    then show ?thesis by (rule create_ok [OF laws hs_socket.prems hs_socket.hyps(1) _ g])
  qed (use hs_socket in \<open>simp add: hook_socket_def\<close>)
next
  case (hs_accept ds fd k r ds' k')
  then show ?case
  proof (cases "0 \<le> fd")
    case True
    then obtain ctx where g: "fdm_get stat getfl setfl fd True ds k = Inr (ctx, ds', k')"
      using hs_accept.hyps(2) by (auto simp: hook_accept_def bindE_Inr_iff)
    show ?thesis by (rule create_ok [OF laws hs_accept.prems hs_accept.hyps(1) True g])
  qed (use hs_accept in \<open>simp add: hook_accept_def\<close>)
next
  case (hs_fcntl fd arg ds k r ds' k')
  then obtain ctx where look: "fdm_look fd ds = Inr ctx"
    by (auto simp: fcntl_setfl_def bindE_Inr_iff)
  note ctx = fdm_look_map [OF look]
  have law: "getfl (snd (setfl k fd a)) fd AND O_NONBLOCK = a AND O_NONBLOCK"
    "other \<noteq> fd \<Longrightarrow> getfl (snd (setfl k fd a)) other = getfl k other" for a other
    using laws by (simp_all add: fcntl_laws_def)
  show ?case
  proof (cases ctx)
    case None
    then have r: "ds' = ds" "k' = snd (setfl k fd arg)"
      using hs_fcntl.hyps look by (simp_all add: fcntl_setfl_def)
    show ?thesis
      unfolding r by (rule unknown_ok [OF hs_fcntl.prems]) (use None ctx law(2) in auto)
  next
    case (Some c)
    then have c: "fdm_map ds fd = Some c" using ctx by simp
    then have old: "\<not> fx_isClosed c" "fx_sysNonblock c = fx_isSocket c"
      using hs_fcntl.prems by (auto simp: sockets_ok_def)
    show ?thesis
    proof (cases "fx_isSocket c")
      case True
      let ?c = "c\<lparr>fx_userNonblock := (arg AND O_NONBLOCK \<noteq> 0)\<rparr>"
      have r: "ds' = fdm_put fd ?c ds" "k' = snd (setfl k fd (arg OR O_NONBLOCK))"
        using hs_fcntl.hyps look Some old True by (simp_all add: fcntl_setfl_def Let_def)
      show ?thesis
        unfolding r by (rule put_ok [OF hs_fcntl.prems c]) (use law O_NONBLOCK_facts in auto)
    next
      case False
      then have r: "ds' = ds" "k' = snd (setfl k fd arg)"
        using hs_fcntl.hyps look Some by (simp_all add: fcntl_setfl_def)
      show ?thesis
        unfolding r by (rule unknown_ok [OF hs_fcntl.prems]) (use False c law(2) in auto)
    qed
  qed
next
  case (hs_sockopt fd level optname s us ds ds' k)
  then show ?case
  proof (cases "ds' = ds")
    case False
    then obtain c where look: "fdm_look fd ds = Inr (Some c)"
      and r: "ds' = fdm_put fd (fx_setTimeout optname (s * 1000 + word_of_int (sint us sdiv 1000)) c) ds"
      using hs_sockopt.hyps
      by (auto simp: hook_setsockopt_def bindE_Inr_iff split: if_splits option.splits)
    have c: "fdm_map ds fd = Some c" using fdm_look_map [OF look] by simp
    show ?thesis
      unfolding r
      by (rule put_ok [OF hs_sockopt.prems c])
        (use hs_sockopt.prems c in \<open>auto simp: fx_setTimeout_def sockets_ok_def\<close>)
  qed simp
next
  case (hs_close ctl fd ds ds' m k)
  then consider "ds' = ds" | "fdm_del fd ds = Inr ds'"
    by (auto simp: hook_close_def bindE_Inr_iff split: if_splits)
  then show ?case
  proof cases
    case 2
    note d = fdm_del_map [OF 2]
    then show ?thesis using hs_close.prems by (auto simp: sockets_ok_def)
  qed (use hs_close in simp)
qed



section \<open>A wait with a timeout\<close>

text \<open>
  The order of the end of a wait. A fiber waits to write with a timeout while the descriptor may also
  have a reader. A willing kernel changes and removes the descriptors it has in its interest list.
\<close>

definition willing :: "'k epoll_ctl \<Rightarrow> ('k \<Rightarrow> int \<Rightarrow> (u32 \<times> nat) option) \<Rightarrow> bool" where
  "willing ctl reg \<longleftrightarrow>
     (\<forall>k op fd evs p. op \<noteq> CtlAdd \<longrightarrow> reg k fd \<noteq> None \<longrightarrow> fst (ctl k op fd evs p) = 0)"

definition write_waiter ::
  "('k \<Rightarrow> int \<Rightarrow> (u32 \<times> nat) option) \<Rightarrow> nat \<Rightarrow> nat \<Rightarrow> nat \<Rightarrow> int \<Rightarrow> ('c, 'k) io_manager \<Rightarrow> bool" where
  "write_waiter reg a sch f fd m \<longleftrightarrow>
     cancel_lookup fd m = Some a \<and> fc_fd (io_heap m a) = fd \<and>
     fc_events (io_heap m a) \<in> {4, 5} \<and> reg (io_kernel m) fd \<noteq> None \<and>
     fc_write (io_heap m a) = \<lparr>ec_scheduler = Some sch, ec_fiber = Some f, ec_callback = None\<rparr>"

lemma trigger_write:
  assumes "fc_events c \<in> {4, 5}"
    "fc_write c = \<lparr>ec_scheduler = Some sch, ec_fiber = Some f, ec_callback = None\<rparr>"
  shows "triggerEvent WRITE_EV c =
    Inr (c\<lparr>fc_events := fc_events c AND NOT WRITE_EV,
           fc_write := \<lparr>ec_scheduler = None, ec_fiber = None, ec_callback = None\<rparr>\<rparr>,
         [(sch, TaskFiber f)])"
  using assms by (auto simp: triggerEvent_def Let_def getContext_def setContext_def event_masks)

definition write_done ::
  "('k \<Rightarrow> int \<Rightarrow> (u32 \<times> nat) option) \<Rightarrow> nat \<Rightarrow> nat \<Rightarrow> nat \<Rightarrow> int
   \<Rightarrow> ('c, 'k) io_manager \<Rightarrow> ('c, 'k) io_manager \<Rightarrow> bool" where
  "write_done reg a sch f fd m m' \<longleftrightarrow>
     io_scheduled m' = io_scheduled m @ [(sch, TaskFiber f)] \<and>
     fc_events (io_heap m' a) = fc_events (io_heap m a) AND NOT WRITE_EV \<and>
     io_contexts m' = io_contexts m \<and>
     reg (io_kernel m') fd = entry_of a (fc_events (io_heap m' a))"

lemma remove_write:
  assumes laws: "epoll_laws ctl reg" "willing ctl reg" and "write_waiter reg a sch f fd m"
  obtains k where
    "ctl (io_kernel m) (if fc_events (io_heap m a) AND NOT WRITE_EV \<noteq> 0 then CtlMod else CtlDel) fd
      (EPOLLET OR (fc_events (io_heap m a) AND NOT WRITE_EV)) a = (0, k)"
    "reg k fd = entry_of a (fc_events (io_heap m a) AND NOT WRITE_EV)"
proof -
  let ?ev = "fc_events (io_heap m a) AND NOT WRITE_EV"
  let ?op = "if ?ev \<noteq> 0 then CtlMod else CtlDel"
  have "reg (io_kernel m) fd \<noteq> None" "?op \<noteq> CtlAdd"
    using assms(3) by (simp_all add: write_waiter_def)
  then have "fst (ctl (io_kernel m) ?op fd (EPOLLET OR ?ev) a) = 0"
    using laws(2) unfolding willing_def by blast
  then obtain k where k: "ctl (io_kernel m) ?op fd (EPOLLET OR ?ev) a = (0, k)"
    by (metis prod.collapse)
  show thesis using that [OF k] epoll_set [OF laws(1) k refl] by simp
qed

lemma write_event_first:
  assumes laws: "epoll_laws ctl reg" "willing ctl reg" and w: "write_waiter reg a sch f fd m"
  shows "\<exists>m'. ready_at ctl a EPOLLOUT m = Inr m' \<and> write_done reg a sch f fd m m'"
proof -
  let ?c = "io_heap m a"
  have c: "fc_events ?c \<in> {4, 5}" "fc_fd ?c = fd"
    "fc_write ?c = \<lparr>ec_scheduler = Some sch, ec_fiber = Some f, ec_callback = None\<rparr>"
    using w by (auto simp: write_waiter_def)
  have r: "real_events (fc_events ?c) EPOLLOUT = WRITE_EV"
    by (simp add: real_events_def event_masks)
  have un: "fc_events ?c AND WRITE_EV \<noteq> 0" "WRITE_EV AND READ_EV = 0" "WRITE_EV \<noteq> 0"
    using c(1) by (auto simp: event_masks)
  obtain k where "ctl (io_kernel m) (if fc_events ?c AND NOT WRITE_EV \<noteq> 0 then CtlMod else CtlDel) fd
      (EPOLLET OR (fc_events ?c AND NOT WRITE_EV)) a = (0, k)"
    "reg k fd = entry_of a (fc_events ?c AND NOT WRITE_EV)"
    by (rule remove_write [OF laws w])
  then show ?thesis
    using trigger_write [OF c(1) c(3)] un
    by (simp add: ready_at_def Let_def r c(2) trigger_if_def trigger_at_def put_context_def
        write_done_def)
qed

lemma timer_first:
  assumes laws: "epoll_laws ctl reg" "willing ctl reg" and w: "write_waiter reg a sch f fd m"
  shows "\<exists>m'. do_io_timeout ctl fd WRITE_EV 0 m = Inr (ETIMEDOUT, m') \<and>
    write_done reg a sch f fd m m'"
proof -
  let ?c = "io_heap m a"
  have c: "fc_events ?c \<in> {4, 5}" "cancel_lookup fd m = Some a"
    "fc_write ?c = \<lparr>ec_scheduler = Some sch, ec_fiber = Some f, ec_callback = None\<rparr>"
    using w by (auto simp: write_waiter_def)
  have g: "\<not> guard_unregistered (fc_events ?c) WRITE_EV"
    using c(1) by (auto simp: guard_unregistered_def event_masks)
  obtain k where "ctl (io_kernel m) (if fc_events ?c AND NOT WRITE_EV \<noteq> 0 then CtlMod else CtlDel) fd
      (EPOLLET OR (fc_events ?c AND NOT WRITE_EV)) a = (0, k)"
    "reg k fd = entry_of a (fc_events ?c AND NOT WRITE_EV)"
    by (rule remove_write [OF laws w])
  then show ?thesis
    using trigger_write [OF c(1) c(3)] g
    by (simp add: do_io_timeout_def cancelEvent_def c(2) cancelEvent_at_def Let_def trigger_at_def
        put_context_def write_done_def)
qed

text \<open>The timer fires though the event came: nothing to cancel, or an assertion that fails.\<close>

lemma timer_late:
  assumes laws: "epoll_laws ctl reg" "willing ctl reg" and w: "write_waiter reg a sch f fd m"
    and d: "write_done reg a sch f fd m m1"
  shows "if fc_events (io_heap m a) = WRITE_EV
    then \<exists>k. do_io_timeout ctl fd WRITE_EV 0 m1 = Inr (ETIMEDOUT, m1\<lparr>io_kernel := k\<rparr>)
    else do_io_timeout ctl fd WRITE_EV 0 m1 = Inl AssertFail"
proof -
  have look: "cancel_lookup fd m1 = Some a"
    using w d unfolding write_done_def write_waiter_def cancel_lookup_def by metis
  consider "fc_events (io_heap m a) = 4" "fc_events (io_heap m1 a) = 0" "reg (io_kernel m1) fd = None"
    | "fc_events (io_heap m a) = 5" "fc_events (io_heap m1 a) = 1" "reg (io_kernel m1) fd \<noteq> None"
    using w d by (auto simp: write_done_def write_waiter_def entry_of_def event_masks)
  then show ?thesis
  proof cases
    case 1
    obtain r k where k: "ctl (io_kernel m1) CtlDel fd EPOLLET a = (r, k)" by fastforce
    have "r \<noteq> 0" using epoll_set [OF laws(1), of "io_kernel m1" CtlDel fd 0 a k] k 1(3) by auto
    then have "do_io_timeout ctl fd WRITE_EV 0 m1 = Inr (ETIMEDOUT, m1\<lparr>io_kernel := k\<rparr>)"
      using 1(1,2) look k
      by (simp add: do_io_timeout_def cancelEvent_def cancelEvent_at_def Let_def
          guard_unregistered_def event_masks)
    then show ?thesis using 1(1) by (auto simp: event_masks)
  next
    case 2
    obtain k where "ctl (io_kernel m1) CtlMod fd (EPOLLET OR 1) a = (0, k)"
      using laws(2) 2(3) unfolding willing_def by (metis ctl_op.distinct(1) prod.collapse)
    then show ?thesis
      using 2(1,2) look
      by (simp add: do_io_timeout_def cancelEvent_def cancelEvent_at_def Let_def trigger_at_def
          triggerEvent_def guard_unregistered_def event_masks)
  qed
qed

text \<open>A fiber waits to write with a timeout. When the timer fires first, the fiber is scheduled
  once, the call fails with \<open>ETIMEDOUT\<close>, and the event that comes later schedules nothing. When
  the event comes first the fiber is scheduled once, too; but a timer that fires before the fiber
  is resumed calls \<open>cancelEvent\<close> for an event that is gone: the call fails with \<open>ETIMEDOUT\<close> though
  the socket is writable, and when another fiber waits to read the same descriptor an assertion
  fails, which ends the program.\<close>

theorem write_timeout_races:
  assumes laws: "epoll_laws ctl reg" "willing ctl reg" and w: "write_waiter reg a sch f fd m"
  shows "(\<exists>m1. do_io_timeout ctl fd WRITE_EV 0 m = Inr (ETIMEDOUT, m1) \<and>
      io_scheduled m1 = io_scheduled m @ [(sch, TaskFiber f)] \<and>
      ready_at ctl a EPOLLOUT m1 = Inr m1) \<and>
    (\<exists>m1. ready_at ctl a EPOLLOUT m = Inr m1 \<and>
      io_scheduled m1 = io_scheduled m @ [(sch, TaskFiber f)] \<and>
      (if fc_events (io_heap m a) = WRITE_EV
       then \<exists>k. do_io_timeout ctl fd WRITE_EV 0 m1 = Inr (ETIMEDOUT, m1\<lparr>io_kernel := k\<rparr>) \<and>
         do_io_resume (-1) i ETIMEDOUT (m1\<lparr>io_kernel := k\<rparr>) = Inr (TimerFired, m1\<lparr>io_kernel := k\<rparr>)
       else do_io_timeout ctl fd WRITE_EV 0 m1 = Inl AssertFail))"
proof (intro conjI)
  have quiet: "ready_at ctl a EPOLLOUT m1 = Inr m1" if "write_done reg a sch f fd m m1" for m1
    using that
    by (simp add: ready_at_def Let_def real_events_def write_done_def event_masks and.assoc)
  show "\<exists>m1. do_io_timeout ctl fd WRITE_EV 0 m = Inr (ETIMEDOUT, m1) \<and>
      io_scheduled m1 = io_scheduled m @ [(sch, TaskFiber f)] \<and> ready_at ctl a EPOLLOUT m1 = Inr m1"
    using timer_first [OF laws w] quiet by (auto simp: write_done_def)
  obtain m1 where m1: "ready_at ctl a EPOLLOUT m = Inr m1" "write_done reg a sch f fd m m1"
    using write_event_first [OF laws w] by blast
  show "\<exists>m1. ready_at ctl a EPOLLOUT m = Inr m1 \<and>
      io_scheduled m1 = io_scheduled m @ [(sch, TaskFiber f)] \<and>
      (if fc_events (io_heap m a) = WRITE_EV
       then \<exists>k. do_io_timeout ctl fd WRITE_EV 0 m1 = Inr (ETIMEDOUT, m1\<lparr>io_kernel := k\<rparr>) \<and>
         do_io_resume (-1) i ETIMEDOUT (m1\<lparr>io_kernel := k\<rparr>) = Inr (TimerFired, m1\<lparr>io_kernel := k\<rparr>)
       else do_io_timeout ctl fd WRITE_EV 0 m1 = Inl AssertFail)"
    using m1 timer_late [OF laws w m1(2)]
    by (auto simp: write_done_def do_io_resume_def stop_timer_def ETIMEDOUT_def)
qed

theorem write_timeout_races_witness:
  "\<exists>m0 m1 :: (nat, int \<Rightarrow> (u32 \<times> nat) option) io_manager.
     ready_at list_ctl 5 EPOLLOUT m0 = Inr m1 \<and>
     do_io_timeout list_ctl 5 WRITE_EV 0 m1 = Inl AssertFail"
proof -
  let ?m = "new_io_manager 1 0 (\<lambda>_. Some (EPOLLET OR 5, 5))
    :: (nat, int \<Rightarrow> (u32 \<times> nat) option) io_manager"
  let ?m0 = "put_context 5 \<lparr>fc_fd = 5,
      fc_read = \<lparr>ec_scheduler = Some 1, ec_fiber = Some 8, ec_callback = None\<rparr>,
      fc_write = \<lparr>ec_scheduler = Some 1, ec_fiber = Some 9, ec_callback = None\<rparr>,
      fc_events = 5\<rparr> ?m"
  have "write_waiter (\<lambda>k. k) 5 1 9 5 ?m0"
    by (simp add: write_waiter_def cancel_lookup_def put_context_def)
  moreover have "epoll_laws list_ctl (\<lambda>k. k)" "willing list_ctl (\<lambda>k. k)"
    unfolding epoll_laws_def willing_def by (auto simp: list_ctl_def split: ctl_op.split)
  moreover have "fc_events (io_heap ?m0 5) \<noteq> WRITE_EV" by (simp add: put_context_def event_masks)
  ultimately show ?thesis
    using write_timeout_races [of list_ctl "\<lambda>k. k" 5 1 9 5 ?m0] by auto
qed

section \<open>Times\<close>

text \<open>The times of the hooked sleeps: \<open>sleep\<close> multiplies in 32 bits, so that it sleeps
  \<open>seconds * 1000\<close> milliseconds modulo \<open>2 ^ 32\<close>: as long as asked only below 4294968 seconds;
  \<open>usleep\<close> cuts to milliseconds and never wraps; \<open>nanosleep\<close> cuts to a signed 32 bit number:
  2147484 seconds become a time of more than two hundred million years.\<close>

theorem sleep_wraps:
  "unat (sleep_ms s) = unat s * 1000 mod 2 ^ 32 \<and>
   unat (usleep_ms u) = unat u div 1000 \<and>
   unat (nanosleep_ms 2147484 0) = 2 ^ 64 - 2147483296"
proof (intro conjI)
  have "unat u div 1000 \<le> unat u" by (rule div_le_dividend)
  then have small: "unat u div 1000 < 4294967296"
    using unsigned_less [of u, where 'a = nat] by simp
  have "unat (ucast w :: u64) = unat w" for w :: u32
    using unsigned_less [of w, where 'a = nat] by (simp add: unsigned_ucast_eq take_bit_nat_eq_self_iff)
  then show "unat (sleep_ms s) = unat s * 1000 mod 2 ^ 32" "unat (usleep_ms u) = unat u div 1000"
    using small by (simp_all add: sleep_ms_def usleep_ms_def unat_word_ariths unat_div)
  show "unat (nanosleep_ms 2147484 0) = 2 ^ 64 - 2147483296"
    by (simp add: nanosleep_ms_def)
qed

end
