(* ===== verification/LogFormat.thy ===== *)
theory LogFormat
  imports TextOut
begin

text \<open>
  Levels, events and the formatter of \<open>src/Log.cpp\<close>. \<open>LogFormatter::init\<close> walks over the pattern by
  an index; here the part of the pattern behind the index is the argument. \<open>strftime\<close> with
  \<open>localtime_r\<close> is an argument: what it writes for a format and a time.
\<close>

section \<open>Levels\<close>

datatype log_level = L_UNKNOWN | L_DEBUG | L_INFO | L_WARN | L_ERROR | L_FATAL

fun level_num :: "log_level \<Rightarrow> nat" where
  "level_num L_UNKNOWN = 0"
| "level_num L_DEBUG = 1"
| "level_num L_INFO = 2"
| "level_num L_WARN = 3"
| "level_num L_ERROR = 4"
| "level_num L_FATAL = 5"

lemma level_num_inj: "level_num a = level_num b \<longleftrightarrow> a = b"
  by (cases a; cases b) simp_all

instantiation log_level :: linorder
begin

definition less_eq_log_level :: "log_level \<Rightarrow> log_level \<Rightarrow> bool" where
  "less_eq_log_level a b \<longleftrightarrow> level_num a \<le> level_num b"

definition less_log_level :: "log_level \<Rightarrow> log_level \<Rightarrow> bool" where
  "less_log_level a b \<longleftrightarrow> level_num a < level_num b"

instance
  by standard (auto simp: less_eq_log_level_def less_log_level_def level_num_inj)

end

fun LevelToString :: "log_level \<Rightarrow> bytes" where
  "LevelToString L_DEBUG = str ''DEBUG''"
| "LevelToString L_INFO = str ''INFO''"
| "LevelToString L_WARN = str ''WARN''"
| "LevelToString L_ERROR = str ''ERROR''"
| "LevelToString L_FATAL = str ''FATAL''"
| "LevelToString L_UNKNOWN = str ''UNKOWN''"

definition FromString :: "bytes \<Rightarrow> log_level" where
  "FromString s =
     (if s = str ''debug'' then L_DEBUG
      else if s = str ''info'' then L_INFO
      else if s = str ''warn'' then L_WARN
      else if s = str ''error'' then L_ERROR
      else if s = str ''fatal'' then L_FATAL
      else if s = str ''DEBUG'' then L_DEBUG
      else if s = str ''INFO'' then L_INFO
      else if s = str ''WARN'' then L_WARN
      else if s = str ''ERROR'' then L_ERROR
      else if s = str ''FATAL'' then L_FATAL
      else L_UNKNOWN)"

lemma FromString_LevelToString [simp]: "FromString (LevelToString l) = l"
  by (cases l) (simp_all add: FromString_def str_def)

section \<open>Events\<close>

record log_event =
  le_file :: bytes
  le_line :: "32 word"
  le_elapse :: u32
  le_thread :: u32
  le_fiber :: u32
  le_time :: u64
  le_content :: bytes
  le_logger :: bytes
  le_level :: log_level
  le_threadName :: bytes

text \<open>\<open>LogEvent::format\<close> with the result of \<open>vasprintf\<close>, \<open>None\<close> when it fails.\<close>

definition event_format :: "bytes option \<Rightarrow> log_event \<Rightarrow> log_event" where
  "event_format printed e =
     (case printed of None \<Rightarrow> e | Some s \<Rightarrow> e\<lparr>le_content := le_content e @ s\<rparr>)"

section \<open>Items of a format\<close>

datatype format_item =
    MessageItem | LevelItem | ElapseItem | LogNameItem | ThreadIdItem | FiberIdItem | ThreadNameItem
  | GetLineItem | StringItem bytes | TabItem | DateItem bytes | FilenameItem | LineNumberItem

fun item_format ::
  "(bytes \<Rightarrow> u64 \<Rightarrow> bytes) \<Rightarrow> log_level \<Rightarrow> log_event \<Rightarrow> format_item \<Rightarrow> bytes" where
  "item_format strftime level e MessageItem = le_content e"
| "item_format strftime level e LevelItem = LevelToString level"
| "item_format strftime level e ElapseItem = decimal (unat (le_elapse e))"
| "item_format strftime level e LogNameItem = le_logger e"
| "item_format strftime level e ThreadIdItem = decimal (unat (le_thread e))"
| "item_format strftime level e FiberIdItem = decimal (unat (le_fiber e))"
| "item_format strftime level e ThreadNameItem = le_threadName e"
| "item_format strftime level e GetLineItem = endl"
| "item_format strftime level e (StringItem s) = s"
| "item_format strftime level e TabItem = tab"
| "item_format strftime level e (DateItem f) = strftime f (le_time e)"
| "item_format strftime level e FilenameItem = le_file e"
| "item_format strftime level e LineNumberItem = signed_decimal (le_line e)"

definition default_date :: bytes where
  "default_date = str ''%Y-%m-%d %H:%M:%S''"

definition new_date_item :: "bytes \<Rightarrow> format_item" where
  "new_date_item fmt = DateItem (if fmt = [] then default_date else fmt)"

text \<open>The table \<open>s_format_items\<close>.\<close>

definition s_format_items :: "bytes \<Rightarrow> (bytes \<Rightarrow> format_item) option" where
  "s_format_items = map_of
     [(str ''m'', \<lambda>fmt. MessageItem), (str ''p'', \<lambda>fmt. LevelItem), (str ''r'', \<lambda>fmt. ElapseItem),
      (str ''c'', \<lambda>fmt. LogNameItem), (str ''t'', \<lambda>fmt. ThreadIdItem), (str ''n'', \<lambda>fmt. GetLineItem),
      (str ''d'', new_date_item), (str ''f'', \<lambda>fmt. FilenameItem), (str ''l'', \<lambda>fmt. LineNumberItem),
      (str ''T'', \<lambda>fmt. TabItem), (str ''F'', \<lambda>fmt. FiberIdItem), (str ''N'', \<lambda>fmt. ThreadNameItem)]"

section \<open>Reading a pattern\<close>

definition c_isalpha :: "u8 \<Rightarrow> bool" where
  "c_isalpha c \<longleftrightarrow> (0x41 \<le> c \<and> c \<le> 0x5A) \<or> (0x61 \<le> c \<and> c \<le> 0x7A)"

abbreviation percent :: u8 where "percent \<equiv> 0x25"
abbreviation lbrace :: u8 where "lbrace \<equiv> 0x7B"
abbreviation rbrace :: u8 where "rbrace \<equiv> 0x7D"

text \<open>
  The inner loop with \<open>fmt_status\<close> 1: the format up to the closing brace and the rest of the pattern;
  \<open>None\<close> when the pattern ends, with \<open>fmt_status\<close> still 1.
\<close>

fun scan_fmt :: "bytes \<Rightarrow> bytes \<Rightarrow> (bytes \<times> bytes) option" where
  "scan_fmt fmt [] = None"
| "scan_fmt fmt (c # cs) = (if c = rbrace then Some (fmt, cs) else scan_fmt (fmt @ [c]) cs)"

text \<open>
  The inner loop with \<open>fmt_status\<close> 0. \<open>seen\<close> is the part of the pattern between the percent sign and
  \<open>n\<close>; the result holds \<open>str\<close>, \<open>fmt\<close> and the pattern from the final \<open>n\<close> on.
\<close>

fun scan_item :: "bytes \<Rightarrow> bytes \<Rightarrow> (bytes \<times> bytes \<times> bytes) option" where
  "scan_item seen [] = Some (seen, [], [])"
| "scan_item seen (c # cs) =
     (if \<not> c_isalpha c \<and> c \<noteq> lbrace \<and> c \<noteq> rbrace then Some (seen, [], c # cs)
      else if c = lbrace then
        (case scan_fmt [] cs of None \<Rightarrow> None | Some (fmt, rest) \<Rightarrow> Some (seen, fmt, rest))
      else scan_item (seen @ [c]) cs)"

lemma scan_fmt_length: "scan_fmt fmt cs = Some (f, rest) \<Longrightarrow> length rest < length cs"
  by (induction fmt cs rule: scan_fmt.induct) (fastforce split: if_split_asm)+

lemma scan_item_length: "scan_item seen cs = Some (s, f, rest) \<Longrightarrow> length rest \<le> length cs"
proof (induction seen cs rule: scan_item.induct)
  case (2 seen c cs)
  then show ?case
    using scan_fmt_length [of "[]" cs f rest]
    by (auto split: if_split_asm option.splits)
qed simp

text \<open>The entries of \<open>vec\<close>.\<close>

datatype pattern_part = Literal bytes | Directive bytes bytes

definition flush :: "bytes \<Rightarrow> pattern_part list" where
  "flush nstr = (if nstr \<noteq> [] then [Literal nstr] else [])"

text \<open>The outer loop, with \<open>nstr\<close>: the entries of \<open>vec\<close> and whether there was an error.\<close>

function parse_pattern :: "bytes \<Rightarrow> bytes \<Rightarrow> pattern_part list \<times> bool" where
  "parse_pattern nstr [] = (flush nstr, False)"
| "parse_pattern nstr (c # cs) =
     (if c \<noteq> percent then parse_pattern (nstr @ [c]) cs
      else if cs \<noteq> [] \<and> hd cs = percent then parse_pattern (nstr @ [percent]) cs
      else
        case scan_item [] cs of
          Some (s, fmt, rest) \<Rightarrow>
            (let (parts, err) = parse_pattern [] rest in (flush nstr @ Directive s fmt # parts, err))
        | None \<Rightarrow>
            (let (parts, err) = parse_pattern nstr cs
             in (Literal (str ''<<pattern_error>>'') # parts, True)))"
  by pat_completeness auto
termination
  by (relation "measure (\<lambda>(nstr, cs). length cs)") (auto dest: scan_item_length)

fun part_item :: "pattern_part \<Rightarrow> format_item \<times> bool" where
  "part_item (Literal s) = (StringItem s, False)"
| "part_item (Directive s fmt) =
     (case s_format_items s of
        None \<Rightarrow> (StringItem (str ''<< Error_format %'' @ s @ str ''>>''), True)
      | Some creator \<Rightarrow> (creator fmt, False))"

section \<open>The formatter\<close>

record formatter =
  lf_pattern :: bytes
  lf_items :: "format_item list"
  lf_error :: bool

definition new_formatter :: "bytes \<Rightarrow> formatter" where
  "new_formatter pattern =
     (let (parts, err) = parse_pattern [] pattern;
          items = map part_item parts
      in \<lparr>lf_pattern = pattern, lf_items = map fst items,
          lf_error = (err \<or> list_ex snd items)\<rparr>)"

definition formatter_format ::
  "(bytes \<Rightarrow> u64 \<Rightarrow> bytes) \<Rightarrow> log_level \<Rightarrow> log_event \<Rightarrow> formatter \<Rightarrow> bytes" where
  "formatter_format strftime level e f = concat (map (item_format strftime level e) (lf_items f))"

end
