(* ===== verification/LogFormatProps.thy ===== *)
theory LogFormatProps
  imports LogFormat
begin

text \<open>
  Patterns of log formats: every pattern written from pieces is read as these pieces, and the escape
  of the percent sign does not work.
\<close>

section \<open>Patterns written from pieces\<close>

datatype piece = PText bytes | PItem u8 | PFormat u8 bytes

fun print_piece :: "piece \<Rightarrow> bytes" where
  "print_piece (PText t) = t"
| "print_piece (PItem c) = [percent, c]"
| "print_piece (PFormat c f) = percent # c # lbrace # f @ [rbrace]"

definition print_pieces :: "piece list \<Rightarrow> bytes" where
  "print_pieces ps = concat (map print_piece ps)"

text \<open>A text that does not go on with the name or the format of the item before it.\<close>

fun plain_start :: "bytes \<Rightarrow> bool" where
  "plain_start [] = True"
| "plain_start (c # cs) = (\<not> c_isalpha c \<and> c \<noteq> lbrace \<and> c \<noteq> rbrace)"

fun pieces_ok :: "piece list \<Rightarrow> bool" where
  "pieces_ok [] = True"
| "pieces_ok (PText t # ps) =
     (t \<noteq> [] \<and> percent \<notin> set t \<and> (case ps of PText u # qs \<Rightarrow> False | _ \<Rightarrow> True) \<and> pieces_ok ps)"
| "pieces_ok (PItem c # ps) =
     (s_format_items [c] \<noteq> None \<and> (case ps of PText u # qs \<Rightarrow> plain_start u | _ \<Rightarrow> True) \<and> pieces_ok ps)"
| "pieces_ok (PFormat c f # ps) = (s_format_items [c] \<noteq> None \<and> rbrace \<notin> set f \<and> pieces_ok ps)"

fun piece_item :: "piece \<Rightarrow> format_item" where
  "piece_item (PText t) = StringItem t"
| "piece_item (PItem c) = the (s_format_items [c]) []"
| "piece_item (PFormat c f) = the (s_format_items [c]) f"

fun piece_part :: "piece \<Rightarrow> pattern_part" where
  "piece_part (PText t) = Literal t"
| "piece_part (PItem c) = Directive [c] []"
| "piece_part (PFormat c f) = Directive [c] f"

section \<open>Reading them\<close>

lemma known_alpha: "s_format_items [c] \<noteq> None \<Longrightarrow> c_isalpha c"
  by (auto simp: s_format_items_def str_def c_isalpha_def split: if_split_asm)

lemma alpha_neq: "c_isalpha c \<Longrightarrow> c \<noteq> percent \<and> c \<noteq> lbrace \<and> c \<noteq> rbrace"
  by (auto simp: c_isalpha_def)

lemma no_empty_item [simp]: "s_format_items [] = None"
  by (simp add: s_format_items_def str_def)

lemma scan_fmt_closed: "rbrace \<notin> set f \<Longrightarrow> scan_fmt fmt (f @ rbrace # rest) = Some (fmt @ f, rest)"
  by (induction f arbitrary: fmt) auto

lemma scan_item_plain: "plain_start rest \<Longrightarrow> scan_item seen rest = Some (seen, [], rest)"
  by (cases rest) auto

lemma scan_item_name:
  "c_isalpha c \<Longrightarrow> plain_start rest \<Longrightarrow> scan_item [] (c # rest) = Some ([c], [], rest)"
  using alpha_neq [of c] by (simp add: scan_item_plain)

lemma scan_item_format:
  "c_isalpha c \<Longrightarrow> rbrace \<notin> set f \<Longrightarrow>
   scan_item [] (c # lbrace # f @ rbrace # rest) = Some ([c], f, rest)"
  using alpha_neq [of c] by (simp add: scan_fmt_closed [of f "[]"])

lemma parse_text: "percent \<notin> set t \<Longrightarrow> parse_pattern nstr (t @ cs) = parse_pattern (nstr @ t) cs"
  by (induction t arbitrary: nstr) auto

lemma parse_item:
  assumes "c_isalpha c" and "scan_item [] (c # cs) = Some (s, f, rest)"
    and "parse_pattern [] rest = (parts, err)"
  shows "parse_pattern nstr (percent # c # cs) = (flush nstr @ Directive s f # parts, err)"
  using assms alpha_neq [of c] by simp

lemma print_pieces_simps [simp]:
  "print_pieces [] = []" "print_pieces (p # ps) = print_piece p @ print_pieces ps"
  by (simp_all add: print_pieces_def)

lemma plain_after_item:
  assumes "pieces_ok ps" and "case ps of PText u # qs \<Rightarrow> plain_start u | _ \<Rightarrow> True"
  shows "plain_start (print_pieces ps)"
proof (cases ps)
  case (Cons p qs)
  then show ?thesis
  proof (cases p)
    case (PText t)
    with assms Cons show ?thesis by (cases t) auto
  qed (auto simp: c_isalpha_def)
qed simp

lemma parse_pieces:
  assumes "pieces_ok ps" and "nstr = [] \<or> (case ps of PText u # qs \<Rightarrow> False | _ \<Rightarrow> True)"
  shows "parse_pattern nstr (print_pieces ps) = (flush nstr @ map piece_part ps, False)"
  using assms
proof (induction ps arbitrary: nstr)
  case (Cons p ps)
  show ?case
  proof (cases p)
    case (PText t)
    then have t: "t \<noteq> []" "percent \<notin> set t" "case ps of PText u # qs \<Rightarrow> False | _ \<Rightarrow> True"
      "pieces_ok ps" "nstr = []"
      using Cons.prems by auto
    show ?thesis using Cons.IH [OF t(4), of t] t(1,2,3,5) PText by (simp add: parse_text flush_def)
  next
    case (PItem c)
    then have ok: "pieces_ok ps" and c: "c_isalpha c"
      and next_piece: "case ps of PText u # qs \<Rightarrow> plain_start u | _ \<Rightarrow> True"
      using Cons.prems known_alpha [of c] by auto
    have rest: "parse_pattern [] (print_pieces ps) = (map piece_part ps, False)"
      using Cons.IH [OF ok, of "[]"] by (simp add: flush_def)
    show ?thesis
      using parse_item [OF c scan_item_name [OF c plain_after_item [OF ok next_piece]] rest] PItem
      by simp
  next
    case (PFormat c f)
    then have ok: "pieces_ok ps" and c: "c_isalpha c" and f: "rbrace \<notin> set f"
      using Cons.prems known_alpha [of c] by auto
    have rest: "parse_pattern [] (print_pieces ps) = (map piece_part ps, False)"
      using Cons.IH [OF ok, of "[]"] by (simp add: flush_def)
    show ?thesis
      using parse_item [OF c scan_item_format [OF c f] rest] PFormat by simp
  qed
qed (simp add: flush_def)

lemma part_items:
  "pieces_ok ps \<Longrightarrow> map part_item (map piece_part ps) = map (\<lambda>p. (piece_item p, False)) ps"
  by (induction ps rule: pieces_ok.induct) auto

text \<open>C32: a pattern written from texts without a percent sign, items and items with a format without a
  closing brace (no two texts in a row, no text
  behind an item that begins like the rest of its name) is read without error as exactly these
  pieces, so that a line is the concatenation of what they stand for. The comment above \<open>init\<close>
  documents \<open>%%\<close> for a percent sign in a text; \<open>percent_escape_broken\<close> shows that it is
  misread, so such texts are left out.\<close>

theorem pattern_roundtrip:
  assumes "pieces_ok ps"
  shows "new_formatter (print_pieces ps) =
      \<lparr>lf_pattern = print_pieces ps, lf_items = map piece_item ps, lf_error = False\<rparr> \<and>
    formatter_format strftime level e (new_formatter (print_pieces ps)) =
      concat (map (\<lambda>p. item_format strftime level e (piece_item p)) ps)"
proof -
  have "parse_pattern [] (print_pieces ps) = (map piece_part ps, False)"
    using parse_pieces [OF assms, of "[]"] by (simp add: flush_def)
  then have "new_formatter (print_pieces ps) =
      \<lparr>lf_pattern = print_pieces ps, lf_items = map piece_item ps, lf_error = False\<rparr>"
    using part_items [OF assms] by (simp add: new_formatter_def comp_def list_ex_iff)
  then show ?thesis by (simp add: formatter_format_def comp_def)
qed

theorem pattern_roundtrip_witness:
  "new_formatter (str ''%d{%H:%M}%T[%p] %m%n'') =
   \<lparr>lf_pattern = str ''%d{%H:%M}%T[%p] %m%n'',
    lf_items = [DateItem (str ''%H:%M''), TabItem, StringItem (str ''[''), LevelItem,
                StringItem (str ''] ''), MessageItem, GetLineItem],
    lf_error = False\<rparr>"
proof -
  let ?ps = "[PFormat 0x64 (str ''%H:%M''), PItem 0x54, PText (str ''[''), PItem 0x70,
    PText (str ''] ''), PItem 0x6D, PItem 0x6E]"
  have ok: "pieces_ok ?ps"
    by (simp add: str_def s_format_items_def c_isalpha_def)
  have "print_pieces ?ps = str ''%d{%H:%M}%T[%p] %m%n''" by (simp add: str_def)
  moreover have "map piece_item ?ps = [DateItem (str ''%H:%M''), TabItem, StringItem (str ''[''),
      LevelItem, StringItem (str ''] ''), MessageItem, GetLineItem]"
    by (simp add: str_def s_format_items_def new_date_item_def)
  ultimately show ?thesis using pattern_roundtrip [OF ok] by metis
qed

section \<open>The escape of the percent sign\<close>

lemma parse_escape:
  assumes "percent \<notin> set t"
  shows "parse_pattern [] (t @ percent # percent # u) = parse_pattern (t @ [percent]) (percent # u)"
  using assms by (simp add: parse_text)

text \<open>Two percent signs do not stand for one: the second is read again as the start of an item. So
  a pattern in which they come at the end or before a character that is no letter has an error, and
  before an item's letter they give a percent sign and that item.\<close>

theorem percent_escape_broken:
  assumes t: "percent \<notin> set t"
  shows "(plain_start u \<and> (u = [] \<or> hd u \<noteq> percent) \<longrightarrow>
      lf_error (new_formatter (t @ percent # percent # u))) \<and>
    (s_format_items [c] = Some item \<and> plain_start u \<longrightarrow>
      lf_items (new_formatter (t @ percent # percent # c # u)) =
        StringItem (t @ [percent]) # item [] # lf_items (new_formatter u))"
proof (intro conjI impI)
  obtain parts err where p: "parse_pattern [] u = (parts, err)" by fastforce
  show "lf_error (new_formatter (t @ percent # percent # u))"
    if u: "plain_start u \<and> (u = [] \<or> hd u \<noteq> percent)"
  proof -
    have "\<not> (u \<noteq> [] \<and> hd u = percent)" using u by auto
    then have "parse_pattern [] (t @ percent # percent # u) =
        (Literal (t @ [percent]) # Directive [] [] # parts, err)"
      using u p scan_item_plain [of u "[]"]
      by (simp only: parse_escape [OF t] parse_pattern.simps) (simp add: flush_def)
    then show ?thesis by (simp add: new_formatter_def)
  qed
  show "lf_items (new_formatter (t @ percent # percent # c # u)) =
      StringItem (t @ [percent]) # item [] # lf_items (new_formatter u)"
    if c: "s_format_items [c] = Some item \<and> plain_start u"
  proof -
    have alpha: "c_isalpha c" using c known_alpha [of c] by simp
    have "parse_pattern [] (t @ percent # percent # c # u) =
        (Literal (t @ [percent]) # Directive [c] [] # parts, err)"
      using parse_item [OF alpha scan_item_name [OF alpha] p, of "t @ [percent]"] c
      by (simp add: parse_escape [OF t] flush_def del: parse_pattern.simps)
    then show ?thesis using c p by (simp add: new_formatter_def)
  qed
qed

theorem percent_escape_broken_witness:
  "lf_error (new_formatter (str ''100%%''))"
proof -
  have "percent \<notin> set (str ''100'')" by (simp add: str_def)
  from percent_escape_broken [OF this, of "[]"] show ?thesis by (simp add: str_def)
qed

end
