(* ===== verification/Logger.thy ===== *)
theory Logger
  imports LogFormat
begin

text \<open>
  Appenders, loggers and their manager (\<open>src/Log.cpp\<close>, \<open>src/Log.h\<close>). Loggers and appenders are shared
  by pointers: each has an address in a store. A formatter never changes once it is made, so that
  the pointer to it is the formatter itself. The text of the time in a file name is an argument.
  \<open>ls_out\<close> is what was written, with the address of the appender.
\<close>

section \<open>Data\<close>

text \<open>\<open>ap_file\<close> is \<open>None\<close> for a \<open>StdoutAppender\<close> and the file name of a \<open>FileAppender\<close>.\<close>

record appender =
  ap_file :: "bytes option"
  ap_level :: log_level
  ap_hasFormatter :: bool
  ap_formatter :: "formatter option"
  ap_timeasname :: bool

record logger =
  lg_name :: bytes
  lg_level :: log_level
  lg_appenders :: "nat list"
  lg_formatter :: "formatter option"
  lg_root :: "nat option"

record log_system =
  ls_loggers :: "nat \<Rightarrow> logger"
  ls_next_logger :: nat
  ls_appenders :: "nat \<Rightarrow> appender"
  ls_next_appender :: nat
  ls_names :: "bytes \<Rightarrow> nat option"
  ls_root :: nat
  ls_out :: "(nat \<times> bytes) list"

abbreviation put_logger :: "nat \<Rightarrow> logger \<Rightarrow> log_system \<Rightarrow> log_system" where
  "put_logger l lg s \<equiv> s\<lparr>ls_loggers := (ls_loggers s)(l := lg)\<rparr>"

abbreviation put_appender :: "nat \<Rightarrow> appender \<Rightarrow> log_system \<Rightarrow> log_system" where
  "put_appender a ap s \<equiv> s\<lparr>ls_appenders := (ls_appenders s)(a := ap)\<rparr>"

section \<open>Appenders\<close>

definition StdoutAppender_new :: appender where
  "StdoutAppender_new =
     \<lparr>ap_file = None, ap_level = L_DEBUG, ap_hasFormatter = False, ap_formatter = None,
      ap_timeasname = True\<rparr>"

text \<open>\<open>resetFileName\<close>: \<open>find\<close> gives -1 when there is no dot, and \<open>insert\<close> at that place throws.\<close>

definition resetFileName :: "bytes \<Rightarrow> bytes \<Rightarrow> bytes res" where
  "resetFileName now_text filename =
     (let pos = length (takeWhile (\<lambda>c. c \<noteq> 0x2E) filename)
      in if pos = length filename then Inl OutOfRange
         else Inr (take pos filename @ 0x2D # now_text @ drop pos filename))"

definition appender_reopen :: "bytes \<Rightarrow> appender \<Rightarrow> appender res" where
  "appender_reopen now_text ap =
     (case ap_file ap of
        None \<Rightarrow> Inr ap
      | Some f \<Rightarrow>
          if ap_timeasname ap then
            bindE (resetFileName now_text f) (\<lambda>f'. Inr (ap\<lparr>ap_file := Some f'\<rparr>))
          else Inr ap)"

definition FileAppender_new :: "bytes \<Rightarrow> bytes \<Rightarrow> bool \<Rightarrow> appender res" where
  "FileAppender_new now_text filename v =
     appender_reopen now_text
       \<lparr>ap_file = Some filename, ap_level = L_DEBUG, ap_hasFormatter = False, ap_formatter = None,
        ap_timeasname = v\<rparr>"

definition appender_setFormatter :: "formatter option \<Rightarrow> appender \<Rightarrow> appender" where
  "appender_setFormatter f ap = ap\<lparr>ap_formatter := f, ap_hasFormatter := (f \<noteq> None)\<rparr>"

definition appender_log ::
  "(bytes \<Rightarrow> u64 \<Rightarrow> bytes) \<Rightarrow> log_level \<Rightarrow> log_event \<Rightarrow> nat \<Rightarrow> log_system \<Rightarrow> log_system res" where
  "appender_log strftime level e a s =
     (if ap_level (ls_appenders s a) \<le> level then
        case ap_formatter (ls_appenders s a) of
          None \<Rightarrow> Inl NullDeref
        | Some f \<Rightarrow> Inr (s\<lparr>ls_out := ls_out s @ [(a, formatter_format strftime level e f)]\<rparr>)
      else Inr s)"

section \<open>Loggers\<close>

definition default_pattern :: bytes where
  "default_pattern = str ''%d{%Y-%m-%d %H:%M:%S}%T%t%T%N%T%F%T[%p]%T[%c]%T%f: %l%T%m%n''"

definition new_logger :: "bytes \<Rightarrow> logger" where
  "new_logger name =
     \<lparr>lg_name = name, lg_level = L_DEBUG, lg_appenders = [],
      lg_formatter = Some (new_formatter default_pattern), lg_root = None\<rparr>"

fun appenders_log ::
  "(bytes \<Rightarrow> u64 \<Rightarrow> bytes) \<Rightarrow> log_level \<Rightarrow> log_event \<Rightarrow> nat list \<Rightarrow> log_system \<Rightarrow> log_system res" where
  "appenders_log strftime level e [] s = Inr s"
| "appenders_log strftime level e (a # as) s =
     bindE (appender_log strftime level e a s) (appenders_log strftime level e as)"

text \<open>
  \<open>Logger::log\<close>. It calls itself on \<open>_root\<close>, at most as often as the first argument says; \<open>None\<close> means
  more often.
\<close>

fun logger_log ::
  "nat \<Rightarrow> (bytes \<Rightarrow> u64 \<Rightarrow> bytes) \<Rightarrow> log_level \<Rightarrow> log_event \<Rightarrow> nat \<Rightarrow> log_system
   \<Rightarrow> log_system res option" where
  "logger_log 0 strftime level e l s = None"
| "logger_log (Suc n) strftime level e l s =
     (let lg = ls_loggers s l in
      if lg_level lg \<le> level then
        if lg_appenders lg \<noteq> [] then Some (appenders_log strftime level e (lg_appenders lg) s)
        else
          case lg_root lg of
            None \<Rightarrow> Some (Inr s)
          | Some r \<Rightarrow> logger_log n strftime level e r s
      else Some (Inr s))"

definition addAppender :: "nat \<Rightarrow> nat \<Rightarrow> log_system \<Rightarrow> log_system" where
  "addAppender l a s =
     (let ap = ls_appenders s a; lg = ls_loggers s l;
          s1 = (if ap_formatter ap = None
                then put_appender a (ap\<lparr>ap_formatter := lg_formatter lg\<rparr>) s else s)
      in put_logger l (lg\<lparr>lg_appenders := lg_appenders lg @ [a]\<rparr>) s1)"

definition delAppender :: "nat \<Rightarrow> nat \<Rightarrow> log_system \<Rightarrow> log_system" where
  "delAppender l a s =
     put_logger l ((ls_loggers s l)\<lparr>lg_appenders := remove1 a (lg_appenders (ls_loggers s l))\<rparr>) s"

definition clearAppenders :: "nat \<Rightarrow> log_system \<Rightarrow> log_system" where
  "clearAppenders l s = put_logger l ((ls_loggers s l)\<lparr>lg_appenders := []\<rparr>) s"

definition logger_setLevel :: "log_level \<Rightarrow> nat \<Rightarrow> log_system \<Rightarrow> log_system" where
  "logger_setLevel v l s = put_logger l ((ls_loggers s l)\<lparr>lg_level := v\<rparr>) s"

definition inherit_formatter :: "formatter option \<Rightarrow> nat \<Rightarrow> log_system \<Rightarrow> log_system" where
  "inherit_formatter f a s =
     (let ap = ls_appenders s a
      in if ap_hasFormatter ap then s else put_appender a (ap\<lparr>ap_formatter := f\<rparr>) s)"

definition logger_setFormatter :: "formatter option \<Rightarrow> nat \<Rightarrow> log_system \<Rightarrow> log_system" where
  "logger_setFormatter f l s =
     fold (inherit_formatter f) (lg_appenders (ls_loggers s l))
       (put_logger l ((ls_loggers s l)\<lparr>lg_formatter := f\<rparr>) s)"

definition logger_setPattern :: "bytes \<Rightarrow> nat \<Rightarrow> log_system \<Rightarrow> log_system" where
  "logger_setPattern v l s =
     (let f = new_formatter v in if lf_error f then s else logger_setFormatter (Some f) l s)"

section \<open>The manager\<close>

definition getLogger :: "bytes \<Rightarrow> log_system \<Rightarrow> nat \<times> log_system" where
  "getLogger name s =
     (case ls_names s name of
        Some l \<Rightarrow> (l, s)
      | None \<Rightarrow>
          let l = ls_next_logger s
          in (l, put_logger l ((new_logger name)\<lparr>lg_root := Some (ls_root s)\<rparr>)
                (s\<lparr>ls_next_logger := l + 1, ls_names := (ls_names s)(name \<mapsto> l)\<rparr>)))"

definition alloc_appender :: "appender \<Rightarrow> log_system \<Rightarrow> nat \<times> log_system" where
  "alloc_appender ap s =
     (ls_next_appender s,
      put_appender (ls_next_appender s) ap (s\<lparr>ls_next_appender := ls_next_appender s + 1\<rparr>))"

definition new_log_manager :: log_system where
  "new_log_manager =
     addAppender 0 0
       \<lparr>ls_loggers = (\<lambda>_. new_logger (str ''root'')), ls_next_logger = 1,
        ls_appenders = (\<lambda>_. StdoutAppender_new), ls_next_appender = 1,
        ls_names = [str ''root'' \<mapsto> 0], ls_root = 0, ls_out = []\<rparr>"

text \<open>The macros \<open>ROUTN_LOG_LEVEL\<close>: an event is made, and logged when the wrapper dies, only when the
  logger's level allows it.\<close>

definition log_macro ::
  "nat \<Rightarrow> (bytes \<Rightarrow> u64 \<Rightarrow> bytes) \<Rightarrow> log_event \<Rightarrow> nat \<Rightarrow> log_system \<Rightarrow> log_system res option" where
  "log_macro n strftime e l s =
     (if lg_level (ls_loggers s l) \<le> le_level e then logger_log n strftime (le_level e) e l s
      else Some (Inr s))"

end
