(* ===== verification/LogConfig.thy ===== *)
theory LogConfig
  imports Logger
begin

text \<open>
  The configuration of the loggers (\<open>src/Log.cpp\<close>): the definitions, how they are read from and
  written to YAML nodes, and the listener that applies a new set of them. A \<open>std::set\<close> of definitions
  is the list of its elements in their order. A YAML node is a value of the type \<open>'y\<close> with the
  operations of the library that the code uses.
\<close>

section \<open>Definitions\<close>

record appender_define =
  ad_type :: int
  ad_level :: log_level
  ad_formatter :: bytes
  ad_file :: bytes
  ad_timeasname :: bool

record log_define =
  ld_name :: bytes
  ld_level :: log_level
  ld_formatter :: bytes
  ld_appenders :: "appender_define list"

definition new_appender_define :: appender_define where
  "new_appender_define =
     \<lparr>ad_type = 0, ad_level = L_UNKNOWN, ad_formatter = [], ad_file = [], ad_timeasname = False\<rparr>"

section \<open>YAML\<close>

text \<open>
  \<open>yf n k\<close> is \<open>n[k]\<close> when it is defined, \<open>yelems\<close> are the elements of a sequence, \<open>ystr\<close> and \<open>ybool\<close>
  are \<open>as<std::string>\<close> and \<open>as<bool>\<close>; \<open>ymap\<close>, \<open>yseq\<close> and \<open>yscalar\<close> build nodes.
\<close>

record 'y yaml =
  yf :: "'y \<Rightarrow> bytes \<Rightarrow> 'y option"
  yelems :: "'y \<Rightarrow> 'y list"
  ystr :: "'y \<Rightarrow> bytes res"
  ybool :: "'y \<Rightarrow> bool res"
  ymap :: "(bytes \<times> 'y) list \<Rightarrow> 'y"
  yseq :: "'y list \<Rightarrow> 'y"
  yscalar :: "bytes \<Rightarrow> 'y"

definition field_or :: "'y yaml \<Rightarrow> 'y \<Rightarrow> string \<Rightarrow> bytes \<Rightarrow> bytes res" where
  "field_or Y n k v = (case yf Y n (str k) of None \<Rightarrow> Inr v | Some x \<Rightarrow> ystr Y x)"

text \<open>One turn of the loop over \<open>n["appenders"]\<close>; \<open>None\<close> is \<open>continue\<close>.\<close>

definition read_appender :: "'y yaml \<Rightarrow> 'y \<Rightarrow> appender_define option res" where
  "read_appender Y a =
     (case yf Y a (str ''type'') of
        None \<Rightarrow> Inr None
      | Some t \<Rightarrow>
          bindE (ystr Y t) (\<lambda>type.
            if type = str ''FileAppender'' then
              (case yf Y a (str ''file'') of
                 None \<Rightarrow> Inr None
               | Some f \<Rightarrow>
                   bindE (ystr Y f) (\<lambda>file.
                   bindE (field_or Y a ''formatter'' []) (\<lambda>fmt.
                   bindE (case yf Y a (str ''timeasname'') of None \<Rightarrow> Inr False | Some b \<Rightarrow> ybool Y b)
                     (\<lambda>timeasname.
                     Inr (Some (new_appender_define
                       \<lparr>ad_type := 1, ad_file := file, ad_formatter := fmt,
                        ad_timeasname := timeasname\<rparr>))))))
            else if type = str ''StdoutAppender'' then
              bindE (field_or Y a ''formatter'' []) (\<lambda>fmt.
                Inr (Some (new_appender_define\<lparr>ad_type := 2, ad_formatter := fmt\<rparr>)))
            else Inr None))"

fun read_appenders :: "'y yaml \<Rightarrow> 'y list \<Rightarrow> appender_define list res" where
  "read_appenders Y [] = Inr []"
| "read_appenders Y (a # as) =
     bindE (read_appender Y a) (\<lambda>d.
     bindE (read_appenders Y as) (\<lambda>ds. Inr (case d of None \<Rightarrow> ds | Some x \<Rightarrow> x # ds)))"

definition read_define :: "'y yaml \<Rightarrow> 'y \<Rightarrow> log_define res" where
  "read_define Y n =
     (case yf Y n (str ''name'') of
        None \<Rightarrow> Inl Thrown
      | Some x \<Rightarrow>
          bindE (ystr Y x) (\<lambda>name.
          bindE (field_or Y n ''level'' []) (\<lambda>level.
          bindE (field_or Y n ''formatter'' []) (\<lambda>fmt.
          bindE (case yf Y n (str ''appenders'') of None \<Rightarrow> Inr [] | Some as \<Rightarrow> read_appenders Y (yelems Y as))
            (\<lambda>appenders.
            Inr \<lparr>ld_name = name, ld_level = FromString level, ld_formatter = fmt,
                 ld_appenders = appenders\<rparr>)))))"

definition opt_field :: "'y yaml \<Rightarrow> bool \<Rightarrow> string \<Rightarrow> bytes \<Rightarrow> (bytes \<times> 'y) list" where
  "opt_field Y present k v = (if present then [(str k, yscalar Y v)] else [])"

definition write_appender :: "'y yaml \<Rightarrow> appender_define \<Rightarrow> 'y" where
  "write_appender Y a =
     ymap Y
       (opt_field Y (ad_type a = 1 \<or> ad_type a = 2) ''type''
          (if ad_type a = 1 then str ''FileAppender'' else str ''StdoutAppender'') @
        opt_field Y (ad_type a = 1) ''file'' (ad_file a) @
        opt_field Y (ad_level a \<noteq> L_UNKNOWN) ''level'' (LevelToString (ad_level a)) @
        opt_field Y (ad_formatter a \<noteq> []) ''formatter'' (ad_formatter a))"

definition write_define :: "'y yaml \<Rightarrow> log_define \<Rightarrow> 'y" where
  "write_define Y d =
     ymap Y
       (opt_field Y True ''name'' (ld_name d) @
        opt_field Y (ld_level d \<noteq> L_UNKNOWN) ''level'' (LevelToString (ld_level d)) @
        opt_field Y (ld_formatter d \<noteq> []) ''formatter'' (ld_formatter d) @
        (if ld_appenders d = [] then []
         else [(str ''appenders'', yseq Y (map (write_appender Y) (ld_appenders d)))]))"

section \<open>The listener\<close>

definition make_appender :: "bytes \<Rightarrow> appender_define \<Rightarrow> appender res" where
  "make_appender now_text a =
     bindE (if ad_type a = 1 then FileAppender_new now_text (ad_file a) (ad_timeasname a)
            else if ad_type a = 2 then Inr StdoutAppender_new
            else Inl NullDeref)
       (\<lambda>ap.
         let ap1 = ap\<lparr>ap_level := ad_level a\<rparr>;
             fmt = new_formatter (ad_formatter a)
         in Inr (if ad_formatter a \<noteq> [] \<and> \<not> lf_error fmt
                 then appender_setFormatter (Some fmt) ap1 else ap1))"

fun add_appenders :: "bytes \<Rightarrow> nat \<Rightarrow> appender_define list \<Rightarrow> log_system \<Rightarrow> log_system res" where
  "add_appenders now_text l [] s = Inr s"
| "add_appenders now_text l (a # as) s =
     bindE (make_appender now_text a) (\<lambda>ap.
       let (addr, s1) = alloc_appender ap s
       in add_appenders now_text l as (addAppender l addr s1))"

definition apply_define :: "bytes \<Rightarrow> log_define \<Rightarrow> log_system \<Rightarrow> log_system res" where
  "apply_define now_text i s =
     (let (l, s1) = getLogger (ld_name i) s;
          s2 = logger_setLevel (ld_level i) l s1;
          s3 = (if ld_formatter i \<noteq> [] then logger_setPattern (ld_formatter i) l s2 else s2)
      in add_appenders now_text l (ld_appenders i) (clearAppenders l s3))"

definition find_define :: "log_define \<Rightarrow> log_define list \<Rightarrow> log_define option" where
  "find_define i ds = List.find (\<lambda>d. ld_name d = ld_name i) ds"

text \<open>The two loops of the listener.\<close>

fun apply_new :: "bytes \<Rightarrow> log_define list \<Rightarrow> log_define list \<Rightarrow> log_system \<Rightarrow> log_system res" where
  "apply_new now_text old [] s = Inr s"
| "apply_new now_text old (i # is) s =
     (if find_define i old = Some i then apply_new now_text old is s
      else bindE (apply_define now_text i s) (apply_new now_text old is))"

fun remove_old :: "log_define list \<Rightarrow> log_define list \<Rightarrow> log_system \<Rightarrow> log_system" where
  "remove_old new [] s = s"
| "remove_old new (i # is) s =
     (if find_define i new = None then
        let (l, s1) = getLogger (ld_name i) s
        in remove_old new is (clearAppenders l (logger_setLevel L_UNKNOWN l s1))
      else remove_old new is s)"

definition log_listener ::
  "bytes \<Rightarrow> log_define list \<Rightarrow> log_define list \<Rightarrow> log_system \<Rightarrow> log_system res" where
  "log_listener now_text old new s =
     bindE (apply_new now_text old new s) (\<lambda>s1. Inr (remove_old new old s1))"

end
