(* ===== verification/LogConfigProps.thy ===== *)
theory LogConfigProps
  imports LogConfig
begin

text \<open>
  What the configuration of the loggers promises: after any changes each logger of the latest
  definitions writes to the appenders of its definition, in their formats. The two directions of
  the conversion to YAML agree only in part, and a file name without a dot stops the change.
\<close>

section \<open>Well-formed systems\<close>

definition log_ok :: "log_system \<Rightarrow> bool" where
  "log_ok s \<longleftrightarrow>
     (\<forall>name l. ls_names s name = Some l \<longrightarrow> l < ls_next_logger s \<and> lg_name (ls_loggers s l) = name) \<and>
     (\<forall>l < ls_next_logger s. lg_formatter (ls_loggers s l) \<noteq> None \<and>
        (\<forall>a \<in> set (lg_appenders (ls_loggers s l)). a < ls_next_appender s)) \<and>
     (\<forall>l < ls_next_logger s. \<forall>l' < ls_next_logger s. l \<noteq> l' \<longrightarrow>
        set (lg_appenders (ls_loggers s l)) \<inter> set (lg_appenders (ls_loggers s l')) = {}) \<and>
     ls_root s < ls_next_logger s \<and> ls_names s (str ''root'') = Some (ls_root s) \<and>
     (\<forall>l < ls_next_logger s. lg_root (ls_loggers s l) = (if l = ls_root s then None else Some (ls_root s)))"

text \<open>A change of the logger \<open>l\<close> that leaves the other loggers and their appenders as they are.\<close>

definition only :: "nat \<Rightarrow> log_system \<Rightarrow> log_system \<Rightarrow> bool" where
  "only l s s' \<longleftrightarrow>
     log_ok s' \<and> ls_next_logger s' = ls_next_logger s \<and> ls_names s' = ls_names s \<and>
     ls_root s' = ls_root s \<and> ls_out s' = ls_out s \<and> ls_next_appender s \<le> ls_next_appender s' \<and>
     (\<forall>l' < ls_next_logger s. l' \<noteq> l \<longrightarrow>
        ls_loggers s' l' = ls_loggers s l' \<and>
        (\<forall>a \<in> set (lg_appenders (ls_loggers s l')). ls_appenders s' a = ls_appenders s a))"

lemma only_refl: "log_ok s \<Longrightarrow> only l s s"
  by (simp add: only_def)

lemma only_trans: "only l s s1 \<Longrightarrow> only l s1 s2 \<Longrightarrow> only l s s2"
  by (simp add: only_def)

lemma setLevel_only:
  "log_ok s \<Longrightarrow> l < ls_next_logger s \<Longrightarrow> only l s (logger_setLevel v l s)"
  by (simp add: only_def log_ok_def logger_setLevel_def)

lemma clearAppenders_only:
  "log_ok s \<Longrightarrow> l < ls_next_logger s \<Longrightarrow> only l s (clearAppenders l s)"
  by (simp add: only_def log_ok_def clearAppenders_def)

definition inherits :: "formatter option \<Rightarrow> nat set \<Rightarrow> (nat \<Rightarrow> appender) \<Rightarrow> nat \<Rightarrow> appender" where
  "inherits f A aps a =
     (if a \<in> A \<and> \<not> ap_hasFormatter (aps a) then (aps a)\<lparr>ap_formatter := f\<rparr> else aps a)"

lemma inherit_alt: "inherit_formatter f a s = s\<lparr>ls_appenders := inherits f {a} (ls_appenders s)\<rparr>"
  by (cases s) (auto simp: inherit_formatter_def inherits_def Let_def fun_eq_iff)

lemma inherits_twice: "inherits f A (inherits f B aps) = inherits f (A \<union> B) aps"
  by (auto simp: inherits_def fun_eq_iff)

lemma fold_inherit:
  "fold (inherit_formatter f) as s = s\<lparr>ls_appenders := inherits f (set as) (ls_appenders s)\<rparr>"
proof (induction as arbitrary: s)
  case Nil
  have "inherits f {} (ls_appenders s) = ls_appenders s" by (simp add: inherits_def fun_eq_iff)
  then show ?case by simp
qed (simp add: inherit_alt inherits_twice)

lemma setFormatter_only:
  assumes "log_ok s" "l < ls_next_logger s" "f \<noteq> None"
  shows "only l s (logger_setFormatter f l s)"
proof -
  have "\<forall>l' < ls_next_logger s. l' \<noteq> l \<longrightarrow>
      (\<forall>a \<in> set (lg_appenders (ls_loggers s l')). a \<notin> set (lg_appenders (ls_loggers s l)))"
    using assms(1,2) unfolding log_ok_def by blast
  then show ?thesis
    using assms by (auto simp: only_def log_ok_def logger_setFormatter_def fold_inherit inherits_def)
qed

lemma setPattern_only:
  "log_ok s \<Longrightarrow> l < ls_next_logger s \<Longrightarrow> only l s (logger_setPattern v l s)"
  by (simp add: logger_setPattern_def Let_def setFormatter_only only_refl)

text \<open>A new appender is added to a logger.\<close>

definition added_appender :: "nat \<Rightarrow> appender \<Rightarrow> log_system \<Rightarrow> log_system" where
  "added_appender l ap s = (let (addr, s1) = alloc_appender ap s in addAppender l addr s1)"

definition with_default :: "formatter option \<Rightarrow> appender \<Rightarrow> appender" where
  "with_default f ap = (if ap_formatter ap = None then ap\<lparr>ap_formatter := f\<rparr> else ap)"

lemma added_appender_alt:
  "added_appender l ap s =
   s\<lparr>ls_loggers := (ls_loggers s)(l := (ls_loggers s l)
        \<lparr>lg_appenders := lg_appenders (ls_loggers s l) @ [ls_next_appender s]\<rparr>),
     ls_appenders := (ls_appenders s)(ls_next_appender s :=
        with_default (lg_formatter (ls_loggers s l)) ap),
     ls_next_appender := ls_next_appender s + 1\<rparr>"
  by (cases s) (simp add: added_appender_def alloc_appender_def addAppender_def Let_def with_default_def)

lemma added_appender_only:
  assumes "log_ok s" "l < ls_next_logger s"
  shows "only l s (added_appender l ap s)"
proof -
  have fresh: "\<forall>l' < ls_next_logger s. ls_next_appender s \<notin> set (lg_appenders (ls_loggers s l'))"
    using assms(1) by (auto simp: log_ok_def)
  have below: "a < Suc (ls_next_appender s)"
    if "l' < ls_next_logger s" "a \<in> set (lg_appenders (ls_loggers s l'))" for l' a
    using assms(1) that by (simp add: log_ok_def less_SucI)
  show ?thesis
    using assms fresh below by (auto simp: only_def log_ok_def added_appender_alt)
qed

section \<open>What a definition asks for\<close>

definition appender_matches ::
  "log_system \<Rightarrow> formatter option \<Rightarrow> nat \<Rightarrow> appender_define \<Rightarrow> bool" where
  "appender_matches s f a ad \<longleftrightarrow>
     (\<exists>now_text ap. make_appender now_text ad = Inr ap \<and> ls_appenders s a = with_default f ap)"

definition configured_at :: "log_system \<Rightarrow> log_define \<Rightarrow> nat \<Rightarrow> bool" where
  "configured_at s d l \<longleftrightarrow>
     lg_level (ls_loggers s l) = ld_level d \<and>
     list_all2 (appender_matches s (lg_formatter (ls_loggers s l)))
       (lg_appenders (ls_loggers s l)) (ld_appenders d) \<and>
     (ld_formatter d \<noteq> [] \<and> \<not> lf_error (new_formatter (ld_formatter d)) \<longrightarrow>
      lg_formatter (ls_loggers s l) = Some (new_formatter (ld_formatter d)))"

definition configured :: "log_system \<Rightarrow> log_define \<Rightarrow> bool" where
  "configured s d \<longleftrightarrow> (\<exists>l. ls_names s (ld_name d) = Some l \<and> configured_at s d l)"

lemma only_configured:
  assumes o: "only l s s'" and ok: "log_ok s" and c: "configured s d"
    and l: "ls_names s (ld_name d) \<noteq> Some l"
  shows "configured s' d"
proof -
  obtain l' where l': "ls_names s (ld_name d) = Some l'" "configured_at s d l'"
    using c by (auto simp: configured_def)
  then have "l' \<noteq> l" "l' < ls_next_logger s" using l ok by (auto simp: log_ok_def)
  then have same: "ls_loggers s' l' = ls_loggers s l'"
    "\<forall>a \<in> set (lg_appenders (ls_loggers s l')). ls_appenders s' a = ls_appenders s a"
    "ls_names s' = ls_names s"
    using o by (auto simp: only_def)
  have "list_all2 (appender_matches s' (lg_formatter (ls_loggers s l')))
      (lg_appenders (ls_loggers s l')) (ld_appenders d)"
    by (rule list.rel_mono_strong [of "appender_matches s (lg_formatter (ls_loggers s l'))"])
      (use l'(2) same(2) in \<open>auto simp: configured_at_def appender_matches_def\<close>)
  then show ?thesis
    using l' same by (auto simp: configured_def configured_at_def)
qed

lemma added_appender_matches:
  assumes m: "list_all2 (appender_matches s (lg_formatter (ls_loggers s l)))
      (lg_appenders (ls_loggers s l)) ads"
    and ok: "log_ok s" "l < ls_next_logger s" and mk: "make_appender now_text ad = Inr ap"
  shows "list_all2 (appender_matches (added_appender l ap s)
        (lg_formatter (ls_loggers (added_appender l ap s) l)))
      (lg_appenders (ls_loggers (added_appender l ap s) l)) (ads @ [ad])"
proof -
  have "\<forall>a \<in> set (lg_appenders (ls_loggers s l)). a \<noteq> ls_next_appender s"
    using ok by (auto simp: log_ok_def)
  then have "list_all2 (appender_matches (added_appender l ap s) (lg_formatter (ls_loggers s l)))
      (lg_appenders (ls_loggers s l)) ads"
    by (intro list.rel_mono_strong [OF m]) (auto simp: appender_matches_def added_appender_alt)
  moreover have "appender_matches (added_appender l ap s) (lg_formatter (ls_loggers s l))
      (ls_next_appender s) ad"
    unfolding appender_matches_def using mk by (intro exI conjI) (simp_all add: added_appender_alt)
  ultimately have "list_all2 (appender_matches (added_appender l ap s) (lg_formatter (ls_loggers s l)))
      (lg_appenders (ls_loggers s l) @ [ls_next_appender s]) (ads @ [ad])"
    by (intro list_all2_appendI) simp_all
  then show ?thesis by (simp add: added_appender_alt)
qed

lemma add_appenders_ok:
  assumes "add_appenders now_text l ads s = Inr s'" and "log_ok s" "l < ls_next_logger s"
    and "list_all2 (appender_matches s (lg_formatter (ls_loggers s l)))
      (lg_appenders (ls_loggers s l)) done"
  shows "only l s s' \<and> lg_level (ls_loggers s' l) = lg_level (ls_loggers s l) \<and>
    lg_formatter (ls_loggers s' l) = lg_formatter (ls_loggers s l) \<and>
    list_all2 (appender_matches s' (lg_formatter (ls_loggers s' l)))
      (lg_appenders (ls_loggers s' l)) (done @ ads)"
  using assms
proof (induction ads arbitrary: s "done")
  case (Cons ad ads)
  then obtain ap where mk: "make_appender now_text ad = Inr ap"
    and rest: "add_appenders now_text l ads (added_appender l ap s) = Inr s'"
    by (auto simp: bindE_Inr_iff added_appender_def alloc_appender_def Let_def)
  note o = added_appender_only [OF Cons.prems(2,3), of ap]
  then have ok1: "log_ok (added_appender l ap s)" "l < ls_next_logger (added_appender l ap s)"
    using Cons.prems(3) by (simp_all add: only_def)
  have "lg_level (ls_loggers (added_appender l ap s) l) = lg_level (ls_loggers s l)"
    "lg_formatter (ls_loggers (added_appender l ap s) l) = lg_formatter (ls_loggers s l)"
    by (simp_all add: added_appender_alt)
  then show ?case
    using Cons.IH [OF rest ok1 added_appender_matches [OF Cons.prems(4,2,3) mk]] only_trans [OF o]
    by auto
qed (simp add: only_refl)

section \<open>Applying definitions\<close>

definition named :: "bytes \<Rightarrow> nat \<Rightarrow> log_system \<Rightarrow> log_system \<Rightarrow> bool" where
  "named name l s s' \<longleftrightarrow>
     log_ok s' \<and> l < ls_next_logger s' \<and> ls_names s' name = Some l \<and>
     ls_out s' = ls_out s \<and> ls_root s' = ls_root s \<and>
     (\<forall>d. ld_name d \<noteq> name \<longrightarrow> configured s d \<longrightarrow> configured s' d)"

lemma getLogger_named:
  assumes ok: "log_ok s" and g: "getLogger name s = (l, s1)"
  shows "named name l s s1"
proof (cases "ls_names s name")
  case (Some l0)
  then have e: "l = l0" "s1 = s" using g by (simp_all add: getLogger_def)
  show ?thesis unfolding e using ok Some by (auto simp: named_def log_ok_def)
next
  case None
  then have l: "l = ls_next_logger s" and s1: "s1 = put_logger l
      ((new_logger name)\<lparr>lg_root := Some (ls_root s)\<rparr>)
      (s\<lparr>ls_next_logger := l + 1, ls_names := (ls_names s)(name \<mapsto> l)\<rparr>)"
    using g by (auto simp: getLogger_def Let_def)
  have ok1: "log_ok s1"
    using ok None unfolding s1 log_ok_def l by (auto simp: new_logger_def less_Suc_eq)
  have "configured s1 d" if c: "configured s d" for d
  proof -
    obtain l' where l': "ls_names s (ld_name d) = Some l'" "configured_at s d l'"
      using c by (auto simp: configured_def)
    then have "l' < ls_next_logger s" "ld_name d \<noteq> name" using ok None by (auto simp: log_ok_def)
    moreover have "appender_matches s1 = appender_matches s"
      by (simp add: s1 appender_matches_def fun_eq_iff)
    ultimately show ?thesis
      using l' by (auto simp: configured_def configured_at_def s1 l)
  qed
  then show ?thesis using ok1 by (simp add: named_def s1 l)
qed

lemma named_only:
  assumes n: "named name l s s1" and o: "only l s1 s2" and ok: "log_ok s"
  shows "named name l s s2"
proof -
  have "configured s2 d" if "ld_name d \<noteq> name" "configured s1 d" for d
  proof -
    have "ls_names s1 (ld_name d) \<noteq> Some l"
      using n that(1) unfolding named_def log_ok_def by metis
    then show ?thesis using only_configured [OF o _ that(2)] n by (simp add: named_def)
  qed
  then show ?thesis using n o by (auto simp: named_def only_def)
qed

lemma setPattern_effect:
  "v \<noteq> [] \<and> \<not> lf_error (new_formatter v) \<Longrightarrow>
   lg_formatter (ls_loggers (logger_setPattern v l s) l) = Some (new_formatter v)"
  "lg_level (ls_loggers (logger_setPattern v l s) l) = lg_level (ls_loggers s l)"
  by (simp_all add: logger_setPattern_def Let_def logger_setFormatter_def fold_inherit)

lemma apply_define_ok:
  assumes ok: "log_ok s" and a: "apply_define now_text i s = Inr s'"
  shows "log_ok s' \<and> configured s' i \<and> ls_root s' = ls_root s \<and> ls_out s' = ls_out s \<and>
    (\<forall>d. ld_name d \<noteq> ld_name i \<longrightarrow> configured s d \<longrightarrow> configured s' d)"
proof -
  obtain l s1 where g: "getLogger (ld_name i) s = (l, s1)" by fastforce
  note n1 = getLogger_named [OF ok g]
  define s2 where "s2 = logger_setLevel (ld_level i) l s1"
  define s3 where "s3 = (if ld_formatter i \<noteq> [] then logger_setPattern (ld_formatter i) l s2 else s2)"
  define s4 where "s4 = clearAppenders l s3"
  have adds: "add_appenders now_text l (ld_appenders i) s4 = Inr s'"
    using a g unfolding s4_def s3_def s2_def by (simp only: apply_define_def Let_def prod.case)
  have o12: "only l s1 s2" unfolding s2_def by (rule setLevel_only) (use n1 in \<open>simp_all add: named_def\<close>)
  have "log_ok s2" "l < ls_next_logger s2" using o12 n1 by (simp_all add: only_def named_def)
  then have o23: "only l s2 s3" by (simp add: s3_def only_refl setPattern_only)
  have o34: "only l s3 s4"
    unfolding s4_def by (rule clearAppenders_only) (use o12 o23 n1 in \<open>simp_all add: only_def named_def\<close>)
  have o14: "only l s1 s4" by (rule only_trans [OF only_trans [OF o12 o23] o34])
  have lg4: "lg_level (ls_loggers s4 l) = ld_level i" "lg_appenders (ls_loggers s4 l) = []"
    "ld_formatter i \<noteq> [] \<and> \<not> lf_error (new_formatter (ld_formatter i)) \<longrightarrow>
     lg_formatter (ls_loggers s4 l) = Some (new_formatter (ld_formatter i))"
    by (auto simp: s4_def clearAppenders_def s3_def setPattern_effect s2_def logger_setLevel_def)
  have ok4: "log_ok s4" "l < ls_next_logger s4" using o14 n1 by (simp_all add: only_def named_def)
  have end_ok: "only l s4 s' \<and> lg_level (ls_loggers s' l) = lg_level (ls_loggers s4 l) \<and>
    lg_formatter (ls_loggers s' l) = lg_formatter (ls_loggers s4 l) \<and>
    list_all2 (appender_matches s' (lg_formatter (ls_loggers s' l)))
      (lg_appenders (ls_loggers s' l)) ([] @ ld_appenders i)"
    by (rule add_appenders_ok [OF adds ok4]) (simp add: lg4)
  note n' = named_only [OF n1 only_trans [OF o14 conjunct1 [OF end_ok]] ok]
  then show ?thesis
    using end_ok lg4 by (auto simp: named_def configured_def configured_at_def)
qed

lemma find_define_None: "find_define j ds = None \<longleftrightarrow> ld_name j \<notin> ld_name ` set ds"
  by (induction ds) (auto simp: find_define_def image_iff)

lemma apply_new_ok:
  assumes "apply_new now_text old is s = Inr s'" "log_ok s" "distinct (map ld_name is)"
    and "\<forall>d. find_define d old = Some d \<longrightarrow> d \<in> set is \<longrightarrow> configured s d"
  shows "log_ok s' \<and> (\<forall>d \<in> set is. configured s' d) \<and> ls_root s' = ls_root s \<and> ls_out s' = ls_out s \<and>
    (\<forall>d. ld_name d \<notin> ld_name ` set is \<longrightarrow> configured s d \<longrightarrow> configured s' d)"
  using assms
proof (induction "is" arbitrary: s)
  case (Cons i "is")
  obtain s1 where step: "log_ok s1" "configured s1 i" "ls_root s1 = ls_root s" "ls_out s1 = ls_out s"
    "\<forall>d. ld_name d \<noteq> ld_name i \<longrightarrow> configured s d \<longrightarrow> configured s1 d"
    and rest: "apply_new now_text old is s1 = Inr s'"
  proof (cases "find_define i old = Some i")
    case True
    then show ?thesis using that [of s] Cons.prems by simp
  next
    case False
    then obtain s1 where "apply_define now_text i s = Inr s1" "apply_new now_text old is s1 = Inr s'"
      using Cons.prems(1) by (auto simp: bindE_Inr_iff)
    then show ?thesis using that [of s1] apply_define_ok [OF Cons.prems(2)] by auto
  qed
  have names: "\<forall>d \<in> set is. ld_name d \<noteq> ld_name i" "distinct (map ld_name is)"
    using Cons.prems(3) by (auto simp: rev_image_eqI)
  have "\<forall>d. find_define d old = Some d \<longrightarrow> d \<in> set is \<longrightarrow> configured s1 d"
    using Cons.prems(4) step(5) names(1) by simp
  note later = Cons.IH [OF rest step(1) names(2) this]
  have "ld_name i \<notin> ld_name ` set is" using names(1) by (auto simp: image_iff)
  then have "configured s' i" using later step(2) by blast
  then show ?case using later step by (auto simp: image_iff)
qed simp

text \<open>One turn of the loop over the old definitions.\<close>

definition blank_define :: "bytes \<Rightarrow> log_define" where
  "blank_define name = \<lparr>ld_name = name, ld_level = L_UNKNOWN, ld_formatter = [], ld_appenders = []\<rparr>"

definition remove_logger :: "bytes \<Rightarrow> log_system \<Rightarrow> log_system" where
  "remove_logger name s =
     (let (l, s1) = getLogger name s in clearAppenders l (logger_setLevel L_UNKNOWN l s1))"

lemma remove_old_step:
  "remove_old new (i # is) s =
   remove_old new is (if find_define i new = None then remove_logger (ld_name i) s else s)"
  by (simp add: remove_logger_def split: prod.split)

lemma remove_logger_ok:
  assumes "log_ok s"
  shows "log_ok (remove_logger name s) \<and> configured (remove_logger name s) (blank_define name) \<and>
    ls_root (remove_logger name s) = ls_root s \<and> ls_out (remove_logger name s) = ls_out s \<and>
    (\<forall>d. ld_name d \<noteq> name \<longrightarrow> configured s d \<longrightarrow> configured (remove_logger name s) d)"
proof -
  obtain l s1 where g: "getLogger name s = (l, s1)" by fastforce
  note n1 = getLogger_named [OF assms g]
  have o1: "only l s1 (logger_setLevel L_UNKNOWN l s1)"
    by (rule setLevel_only) (use n1 in \<open>simp_all add: named_def\<close>)
  have o2: "only l (logger_setLevel L_UNKNOWN l s1) (clearAppenders l (logger_setLevel L_UNKNOWN l s1))"
    by (rule clearAppenders_only) (use o1 n1 in \<open>simp_all add: only_def named_def\<close>)
  have s': "remove_logger name s = clearAppenders l (logger_setLevel L_UNKNOWN l s1)"
    by (simp add: remove_logger_def g)
  have "configured_at (remove_logger name s) (blank_define name) l"
    by (simp add: s' configured_at_def blank_define_def clearAppenders_def logger_setLevel_def)
  then show ?thesis
    using named_only [OF n1 only_trans [OF o1 o2] assms]
    by (auto simp: s' named_def configured_def blank_define_def)
qed

lemma remove_old_ok:
  assumes "log_ok s" and "\<forall>d \<in> set new. configured s d"
  shows "log_ok (remove_old new old s) \<and> (\<forall>d \<in> set new. configured (remove_old new old s) d) \<and>
    ls_root (remove_old new old s) = ls_root s \<and> ls_out (remove_old new old s) = ls_out s"
  using assms
proof (induction old arbitrary: s)
  case (Cons i old)
  define s1 where "s1 = (if find_define i new = None then remove_logger (ld_name i) s else s)"
  then have step: "remove_old new (i # old) s = remove_old new old s1"
    by (simp only: remove_old_step)
  have "log_ok s1 \<and> (\<forall>d \<in> set new. configured s1 d) \<and> ls_root s1 = ls_root s \<and> ls_out s1 = ls_out s"
    using Cons.prems remove_logger_ok [OF Cons.prems(1), of "ld_name i"]
    unfolding s1_def by (auto simp: find_define_None image_iff)
  then show ?case using Cons.IH [of s1] by (simp add: step del: remove_old.simps)
qed simp

lemma remove_old_keeps:
  assumes "log_ok s" and "configured s (blank_define name)"
  shows "configured (remove_old new old s) (blank_define name)"
  using assms
proof (induction old arbitrary: s)
  case (Cons i old)
  define s1 where "s1 = (if find_define i new = None then remove_logger (ld_name i) s else s)"
  then have step: "remove_old new (i # old) s = remove_old new old s1"
    by (simp only: remove_old_step)
  have "log_ok s1 \<and> configured s1 (blank_define name)"
    using Cons.prems remove_logger_ok [OF Cons.prems(1), of "ld_name i"]
    unfolding s1_def by (cases "ld_name i = name") (auto simp: blank_define_def)
  then show ?case using Cons.IH [of s1] by (simp add: step del: remove_old.simps)
qed simp

lemma remove_old_blank:
  assumes "log_ok s" and "i \<in> set old" "find_define i new = None"
  shows "configured (remove_old new old s) (blank_define (ld_name i))"
  using assms(1,2)
proof (induction old arbitrary: s)
  case (Cons j old)
  define s1 where "s1 = (if find_define j new = None then remove_logger (ld_name j) s else s)"
  then have step: "remove_old new (j # old) s = remove_old new old s1"
    by (simp only: remove_old_step)
  have ok: "log_ok s1" using Cons.prems(1) remove_logger_ok [OF Cons.prems(1)] by (simp add: s1_def)
  show ?case
  proof (cases "j = i")
    case True
    then have "configured s1 (blank_define (ld_name i))"
      using remove_logger_ok [OF Cons.prems(1), of "ld_name i"] assms(3) by (simp add: s1_def)
    then show ?thesis unfolding step by (rule remove_old_keeps [OF ok])
  next
    case False
    then show ?thesis using Cons ok by (simp add: step del: remove_old.simps)
  qed
qed simp

section \<open>Runs of changes\<close>

text \<open>The values of the variable \<open>logs\<close> one after the other, each with the time of the change.\<close>

fun run_configs ::
  "(bytes \<times> log_define list) list \<Rightarrow> log_define list \<Rightarrow> log_system
   \<Rightarrow> (log_define list \<times> log_system) res" where
  "run_configs [] ds s = Inr (ds, s)"
| "run_configs ((now_text, new) # rest) ds s =
     bindE (log_listener now_text ds new s) (run_configs rest new)"

lemma run_configs_ok:
  assumes "run_configs changes ds s = Inr (ds', s')" "log_ok s" "\<forall>d \<in> set ds. configured s d"
    and "\<forall>c \<in> set changes. distinct (map ld_name (snd c))" "distinct (map ld_name ds)"
  shows "log_ok s' \<and> (\<forall>d \<in> set ds'. configured s' d) \<and> ls_root s' = ls_root s \<and> ls_out s' = ls_out s"
  using assms
proof (induction changes arbitrary: ds s)
  case (Cons c changes)
  obtain now_text new where c: "c = (now_text, new)" by fastforce
  obtain s1 where a: "apply_new now_text ds new s = Inr s1"
    and rest: "run_configs changes new (remove_old new ds s1) = Inr (ds', s')"
    using Cons.prems(1) by (auto simp: c bindE_Inr_iff log_listener_def)
  have new: "distinct (map ld_name new)" using Cons.prems(4) by (simp add: c)
  have "\<forall>d. find_define d ds = Some d \<longrightarrow> d \<in> set new \<longrightarrow> configured s d"
    using Cons.prems(3) by (auto simp: find_define_def find_Some_iff)
  note s1 = apply_new_ok [OF a Cons.prems(2) new this]
  then have "log_ok s1" "\<forall>d \<in> set new. configured s1 d" by simp_all
  note s2 = remove_old_ok [OF this, of ds]
  have ok2: "log_ok (remove_old new ds s1)" "\<forall>d \<in> set new. configured (remove_old new ds s1) d"
    using s2 by simp_all
  have "\<forall>c \<in> set changes. distinct (map ld_name (snd c))" using Cons.prems(4) by simp
  from Cons.IH [OF rest ok2 this new] show ?case using s1 s2 by simp
qed simp

lemma new_log_manager_ok: "log_ok new_log_manager"
  by (auto simp: log_ok_def new_log_manager_def addAppender_def Let_def new_logger_def split: if_splits)

section \<open>What a configured logger writes\<close>

definition define_formatter :: "formatter \<Rightarrow> appender_define \<Rightarrow> formatter" where
  "define_formatter f ad =
     (let own = new_formatter (ad_formatter ad)
      in if ad_formatter ad \<noteq> [] \<and> \<not> lf_error own then own else f)"

lemma FileAppender_new_fields:
  "FileAppender_new now_text file v = Inr ap \<Longrightarrow> ap_formatter ap = None"
  by (auto simp: FileAppender_new_def appender_reopen_def bindE_Inr_iff split: if_splits)

text \<open>
  Where an appender of a definition writes: \<open>None\<close> is the standard output, and a file has the name
  of the definition, with a time before its first dot if that is asked for.
\<close>

definition destination :: "bytes \<Rightarrow> appender_define \<Rightarrow> bytes option" where
  "destination now_text ad =
     (if ad_type ad = 2 then None
      else if ad_timeasname ad then
        Some (takeWhile (\<lambda>c. c \<noteq> 0x2E) (ad_file ad) @ str ''-'' @ now_text @ dropWhile (\<lambda>c. c \<noteq> 0x2E) (ad_file ad))
      else Some (ad_file ad))"

lemma FileAppender_new_file:
  "FileAppender_new now_text file v = Inr ap \<Longrightarrow> ad_type ad = 1 \<Longrightarrow> ad_file ad = file \<Longrightarrow> ad_timeasname ad = v \<Longrightarrow>
   ap_file ap = destination now_text ad"
  by (auto simp: FileAppender_new_def appender_reopen_def bindE_Inr_iff resetFileName_def destination_def Let_def
      str_def takeWhile_eq_take [symmetric] dropWhile_eq_drop [symmetric] split: if_splits)

lemma make_appender_fields:
  assumes "make_appender now_text ad = Inr ap"
  shows "ap_level (with_default (Some f) ap) = ad_level ad \<and>
    ap_formatter (with_default (Some f) ap) = Some (define_formatter f ad) \<and>
    ap_file (with_default (Some f) ap) = destination now_text ad"
proof -
  obtain ap0 where base: "(if ad_type ad = 1 then FileAppender_new now_text (ad_file ad) (ad_timeasname ad)
       else if ad_type ad = 2 then Inr StdoutAppender_new else Inl NullDeref) = Inr ap0"
    and ap: "ap = (if ad_formatter ad \<noteq> [] \<and> \<not> lf_error (new_formatter (ad_formatter ad))
      then appender_setFormatter (Some (new_formatter (ad_formatter ad))) (ap0\<lparr>ap_level := ad_level ad\<rparr>)
      else ap0\<lparr>ap_level := ad_level ad\<rparr>)"
    using assms unfolding make_appender_def bindE_Inr_iff Let_def by blast
  have ap0: "ap_formatter ap0 = None"
    using base FileAppender_new_fields [of now_text "ad_file ad" "ad_timeasname ad" ap0]
    by (auto simp: StdoutAppender_new_def split: if_split_asm)
  have "ap_file ap0 = destination now_text ad"
    using base FileAppender_new_file [of now_text "ad_file ad" "ad_timeasname ad" ap0 ad]
    by (auto simp: StdoutAppender_new_def destination_def split: if_split_asm)
  then show ?thesis
    using ap0 by (auto simp: ap with_default_def define_formatter_def appender_setFormatter_def Let_def)
qed

text \<open>One line written: its text and where it went.\<close>

definition line_matches ::
  "(bytes \<Rightarrow> u64 \<Rightarrow> bytes) \<Rightarrow> log_level \<Rightarrow> log_event \<Rightarrow> formatter \<Rightarrow> log_system \<Rightarrow> nat \<times> bytes \<Rightarrow> appender_define \<Rightarrow> bool" where
  "line_matches strftime level e f s line ad \<longleftrightarrow>
     snd line = formatter_format strftime level e (define_formatter f ad) \<and>
     (\<exists>now_text. ap_file (ls_appenders s (fst line)) = destination now_text ad)"

lemma appenders_log_writes:
  assumes "list_all2 (appender_matches s (Some f)) as ads"
  shows "\<exists>outs. appenders_log strftime level e as (s\<lparr>ls_out := out\<rparr>) = Inr (s\<lparr>ls_out := out @ outs\<rparr>) \<and>
    list_all2 (line_matches strftime level e f s) outs (filter (\<lambda>ad. ad_level ad \<le> level) ads)"
  using assms
proof (induction arbitrary: out rule: list_all2_induct)
  case (Cons a as ad ads)
  from Cons.hyps(1) obtain now_text ap where mk: "make_appender now_text ad = Inr ap"
    and ap: "ls_appenders s a = with_default (Some f) ap"
    unfolding appender_matches_def by blast
  have f: "ap_level (ls_appenders s a) = ad_level ad"
    "ap_formatter (ls_appenders s a) = Some (define_formatter f ad)"
    "ap_file (ls_appenders s a) = destination now_text ad"
    using make_appender_fields [OF mk, of f] by (simp_all add: ap)
  show ?case
  proof (cases "ad_level ad \<le> level")
    case True
    let ?line = "(a, formatter_format strftime level e (define_formatter f ad))"
    obtain outs where "appenders_log strftime level e as (s\<lparr>ls_out := out @ [?line]\<rparr>) =
        Inr (s\<lparr>ls_out := (out @ [?line]) @ outs\<rparr>)"
      "list_all2 (line_matches strftime level e f s) outs (filter (\<lambda>ad. ad_level ad \<le> level) ads)"
      using Cons.IH by blast
    moreover have "line_matches strftime level e f s ?line ad" using f(3) by (auto simp: line_matches_def)
    ultimately show ?thesis
      using True f by (intro exI [of _ "?line # outs"]) (simp add: appender_log_def)
  next
    case False
    then show ?thesis using Cons.IH [of out] f by (simp add: appender_log_def)
  qed
qed simp

text \<open>C17: after any changes of the configuration, a logger of the latest definitions drops the events
  below its level and writes each other event once to every appender of its definition whose level
  allows it, in the order of the definition, to the place the definition names (the standard output,
  or the file), and in the appender's own format, or in the logger's format when it has none or an
  invalid one. A logger whose definition has no appenders hands the event to the root logger, and
  the root logger without appenders drops it.\<close>

theorem configured_logging:
  assumes run: "run_configs changes [] new_log_manager = Inr (ds, s)"
    and sets: "\<forall>c \<in> set changes. distinct (map ld_name (snd c))"
    and d: "d \<in> set ds"
  shows "\<exists>l f. ls_names s (ld_name d) = Some l \<and>
    (ld_formatter d \<noteq> [] \<and> \<not> lf_error (new_formatter (ld_formatter d)) \<longrightarrow>
     f = new_formatter (ld_formatter d)) \<and>
    (level < ld_level d \<longrightarrow> logger_log (Suc n) strftime level e l s = Some (Inr s)) \<and>
    (ld_level d \<le> level \<and> ld_appenders d \<noteq> [] \<longrightarrow>
     (\<exists>s'. logger_log (Suc n) strftime level e l s = Some (Inr s') \<and>
       list_all2 (line_matches strftime level e f s') (ls_out s')
         (filter (\<lambda>ad. ad_level ad \<le> level) (ld_appenders d)))) \<and>
    (ld_level d \<le> level \<and> ld_appenders d = [] \<longrightarrow>
     logger_log (Suc n) strftime level e l s =
       (if ld_name d = str ''root'' then Some (Inr s) else logger_log n strftime level e (ls_root s) s))"
proof -
  have ok: "log_ok s" "configured s d" "ls_out s = []"
    using run_configs_ok [OF run new_log_manager_ok _ sets] d
    by (simp_all add: new_log_manager_def addAppender_def Let_def)
  then obtain l where l: "ls_names s (ld_name d) = Some l" and c: "configured_at s d l"
    by (auto simp: configured_def)
  let ?lg = "ls_loggers s l"
  have "lg_formatter ?lg \<noteq> None" using ok(1) l by (auto simp: log_ok_def)
  then obtain f where f: "lg_formatter ?lg = Some f" by blast
  have m: "list_all2 (appender_matches s (Some f)) (lg_appenders ?lg) (ld_appenders d)"
    and level: "lg_level ?lg = ld_level d"
    using c f by (simp_all add: configured_at_def)
  have same: "s\<lparr>ls_out := []\<rparr> = s" using ok(3) by (cases s) simp
  obtain outs where outs: "appenders_log strftime level e (lg_appenders ?lg) s = Inr (s\<lparr>ls_out := outs\<rparr>)"
    "list_all2 (line_matches strftime level e f s) outs (filter (\<lambda>ad. ad_level ad \<le> level) (ld_appenders d))"
    using appenders_log_writes [OF m, of strftime level e "[]"] unfolding same by auto
  have lines: "line_matches strftime level e f (s\<lparr>ls_out := outs\<rparr>) = line_matches strftime level e f s"
    by (simp add: line_matches_def fun_eq_iff)
  have "ld_level d \<le> level \<and> ld_appenders d \<noteq> [] \<longrightarrow>
      logger_log (Suc n) strftime level e l s = Some (Inr (s\<lparr>ls_out := outs\<rparr>))"
    using outs(1) level m by (auto simp: Let_def)
  moreover have "level < ld_level d \<longrightarrow> logger_log (Suc n) strftime level e l s = Some (Inr s)"
    using level by (auto simp: Let_def)
  moreover have "ld_formatter d \<noteq> [] \<and> \<not> lf_error (new_formatter (ld_formatter d)) \<longrightarrow>
     f = new_formatter (ld_formatter d)"
    using c f by (auto simp: configured_at_def)
  moreover have "l = ls_root s \<longleftrightarrow> ld_name d = str ''root''" "lg_root ?lg = (if l = ls_root s then None else Some (ls_root s))"
    using ok(1) l unfolding log_ok_def by (metis option.inject, metis)
  then have "ld_level d \<le> level \<and> ld_appenders d = [] \<longrightarrow> logger_log (Suc n) strftime level e l s =
       (if ld_name d = str ''root'' then Some (Inr s) else logger_log n strftime level e (ls_root s) s)"
    using level m by auto
  ultimately show ?thesis
    using l outs(2) lines by (intro exI [of _ l] exI [of _ f]) auto
qed

theorem configured_logging_witness:
  "\<forall>e. let d = \<lparr>ld_name = str ''app'', ld_level = L_WARN, ld_formatter = str ''%m'',
       ld_appenders = [new_appender_define\<lparr>ad_type := 1, ad_file := str ''a.log''\<rparr>]\<rparr>
   in \<exists>s l s' a. run_configs [([], [d])] [] new_log_manager = Inr ([d], s) \<and>
     ls_names s (str ''app'') = Some l \<and>
     logger_log 1 (\<lambda>f t. []) L_ERROR e l s = Some (Inr s') \<and> ls_out s' = [(a, le_content e)] \<and>
     ap_file (ls_appenders s' a) = Some (str ''a.log'')"
proof
  fix e :: log_event
  let ?d = "\<lparr>ld_name = str ''app'', ld_level = L_WARN, ld_formatter = str ''%m'',
       ld_appenders = [new_appender_define\<lparr>ad_type := 1, ad_file := str ''a.log''\<rparr>]\<rparr>"
  have f: "new_formatter (str ''%m'') =
      \<lparr>lf_pattern = str ''%m'', lf_items = [MessageItem], lf_error = False\<rparr>"
    by (simp add: new_formatter_def str_def c_isalpha_def flush_def s_format_items_def)
  obtain l0 s0 where g: "getLogger (str ''app'') new_log_manager = (l0, s0)" by fastforce
  have "\<exists>s. apply_define [] ?d new_log_manager = Inr s"
    by (simp add: apply_define_def make_appender_def new_appender_define_def Let_def g
        alloc_appender_def FileAppender_new_def appender_reopen_def)
  then obtain s where run: "run_configs [([], [?d])] [] new_log_manager = Inr ([?d], s)"
    by (auto simp: log_listener_def find_define_def)
  have L: "L_WARN \<le> L_ERROR" "L_UNKNOWN \<le> L_ERROR" by (simp_all add: less_eq_log_level_def)
  from configured_logging [OF run, of ?d L_ERROR 0 "\<lambda>f t. []" e] f L
  obtain l s' where l: "ls_names s (str ''app'') = Some l"
    "logger_log 1 (\<lambda>f t. []) L_ERROR e l s = Some (Inr s')"
    "list_all2 (line_matches (\<lambda>f t. []) L_ERROR e (new_formatter (str ''%m'')) s') (ls_out s')
       [new_appender_define\<lparr>ad_type := 1, ad_file := str ''a.log''\<rparr>]"
    by (auto simp: new_appender_define_def str_def One_nat_def simp del: logger_log.simps)
  then obtain a where "ls_out s' = [(a, le_content e)]" "ap_file (ls_appenders s' a) = Some (str ''a.log'')"
    using f by (auto simp: list_all2_Cons2 line_matches_def destination_def new_appender_define_def
        define_formatter_def formatter_format_def)
  with run l show "let d = \<lparr>ld_name = str ''app'', ld_level = L_WARN, ld_formatter = str ''%m'',
       ld_appenders = [new_appender_define\<lparr>ad_type := 1, ad_file := str ''a.log''\<rparr>]\<rparr>
   in \<exists>s l s' a. run_configs [([], [d])] [] new_log_manager = Inr ([d], s) \<and>
     ls_names s (str ''app'') = Some l \<and>
     logger_log 1 (\<lambda>f t. []) L_ERROR e l s = Some (Inr s') \<and> ls_out s' = [(a, le_content e)] \<and>
     ap_file (ls_appenders s' a) = Some (str ''a.log'')"
    unfolding Let_def by (intro exI [of _ s] exI [of _ l] exI [of _ s'] exI [of _ a] conjI) assumption+
qed

section \<open>Loggers that are removed\<close>

text \<open>A logger whose definition is removed is not silenced: it stays in the manager at the lowest
  level without appenders, so that it hands every event, whatever its level, to the root logger.\<close>

theorem removed_logger_passes_on:
  assumes ok: "log_ok s" "\<forall>d \<in> set old. configured s d" "distinct (map ld_name new)"
    and change: "log_listener now_text old new s = Inr s'"
    and d: "d \<in> set old" "ld_name d \<notin> ld_name ` set new"
  shows "\<exists>l. ls_names s' (ld_name d) = Some l \<and>
    logger_log (Suc n) strftime level e l s' =
      (case lg_root (ls_loggers s' l) of
         None \<Rightarrow> Some (Inr s') | Some r \<Rightarrow> logger_log n strftime level e r s')"
proof -
  obtain s1 where a: "apply_new now_text old new s = Inr s1" and s': "s' = remove_old new old s1"
    using change by (auto simp: log_listener_def bindE_Inr_iff)
  have "\<forall>d. find_define d old = Some d \<longrightarrow> d \<in> set new \<longrightarrow> configured s d"
    using ok(2) by (auto simp: find_define_def find_Some_iff)
  then have "log_ok s1" using apply_new_ok [OF a ok(1) ok(3)] by simp
  then have "configured s' (blank_define (ld_name d))"
    unfolding s' by (rule remove_old_blank [OF _ d(1)]) (simp add: find_define_None d(2))
  then obtain l where "ls_names s' (ld_name d) = Some l" "lg_level (ls_loggers s' l) = L_UNKNOWN"
    "lg_appenders (ls_loggers s' l) = []"
    by (auto simp: configured_def configured_at_def blank_define_def)
  moreover have "L_UNKNOWN \<le> level" by (simp add: less_eq_log_level_def)
  ultimately show ?thesis by (intro exI [of _ l]) simp
qed

text \<open>A change that only removes definitions cannot fail.\<close>

theorem removed_logger_passes_on_witness:
  "let d = \<lparr>ld_name = str ''app'', ld_level = L_WARN, ld_formatter = [], ld_appenders = []\<rparr>
   in \<exists>s s' l. run_configs [([], [d])] [] new_log_manager = Inr ([d], s) \<and>
     log_listener [] [d] [] s = Inr s' \<and> ls_names s' (str ''app'') = Some l \<and>
     logger_log 2 (\<lambda>f t. []) L_DEBUG e l s' =
       (case lg_root (ls_loggers s' l) of
          None \<Rightarrow> Some (Inr s') | Some r \<Rightarrow> logger_log 1 (\<lambda>f t. []) L_DEBUG e r s')"
proof -
  let ?d = "\<lparr>ld_name = str ''app'', ld_level = L_WARN, ld_formatter = [], ld_appenders = []\<rparr>"
  have "\<exists>s. apply_define [] ?d new_log_manager = Inr s"
    by (simp add: apply_define_def split: prod.split)
  then obtain s where run: "run_configs [([], [?d])] [] new_log_manager = Inr ([?d], s)"
    by (auto simp: log_listener_def find_define_def)
  have ok: "log_ok s" "\<forall>d \<in> set [?d]. configured s d"
    using run_configs_ok [OF run new_log_manager_ok] by simp_all
  obtain s' where change: "log_listener [] [?d] [] s = Inr s'" by (simp add: log_listener_def)
  from removed_logger_passes_on [OF ok _ change, of ?d 1 "\<lambda>f t. []" L_DEBUG e]
  show ?thesis unfolding Let_def using run change by (auto simp: numeral_2_eq_2)
qed

section \<open>A file name without a dot\<close>

text \<open>An appender that is to have the time in its file name, with a file name without a dot, throws:
  the change of the configuration stops there, and the definitions behind it are not applied.\<close>

theorem dotless_file_stops_change:
  assumes "ld_appenders i = a # as" "ad_type a = 1" "ad_timeasname a" "0x2E \<notin> set (ad_file a)"
    and "find_define i old \<noteq> Some i"
  shows "log_listener now_text old (i # new) s = Inl OutOfRange"
proof -
  have all: "takeWhile (\<lambda>c. c \<noteq> 0x2E) (ad_file a) = ad_file a"
    using assms(4) by (auto simp: takeWhile_eq_all_conv)
  have "resetFileName now_text (ad_file a) = Inl OutOfRange"
    unfolding resetFileName_def all by simp
  then have "make_appender now_text a = Inl OutOfRange"
    using assms(2,3) by (simp add: make_appender_def FileAppender_new_def appender_reopen_def)
  then have "apply_define now_text i s = Inl OutOfRange"
    using assms(1) by (simp add: apply_define_def Let_def split: prod.split)
  then show ?thesis using assms(5) by (simp add: log_listener_def)
qed

theorem dotless_file_stops_change_witness:
  "log_listener [] [] [\<lparr>ld_name = str ''app'', ld_level = L_WARN, ld_formatter = [],
      ld_appenders = [new_appender_define\<lparr>ad_type := 1, ad_file := str ''log'', ad_timeasname := True\<rparr>]\<rparr>]
     new_log_manager = Inl OutOfRange"
  by (rule dotless_file_stops_change [where as = "[]" and
      a = "new_appender_define\<lparr>ad_type := 1, ad_file := str ''log'', ad_timeasname := True\<rparr>"]) (simp_all add: find_define_def str_def new_appender_define_def)

section \<open>Definitions and YAML\<close>

text \<open>What the library documents of nodes that the code builds.\<close>

definition yaml_laws :: "'y yaml \<Rightarrow> bool" where
  "yaml_laws Y \<longleftrightarrow>
     (\<forall>kvs k. distinct (map fst kvs) \<longrightarrow> yf Y (ymap Y kvs) k = map_of kvs k) \<and>
     (\<forall>ns. yelems Y (yseq Y ns) = ns) \<and> (\<forall>v. ystr Y (yscalar Y v) = Inr v)"

definition read_back :: "appender_define \<Rightarrow> appender_define" where
  "read_back a = a\<lparr>ad_level := L_UNKNOWN, ad_timeasname := False\<rparr>"

lemma str_keys [simp]:
  "str a = str b \<longleftrightarrow> map of_char a = (map of_char b :: bytes)"
  by (simp add: str_def)

lemma read_write_appender:
  assumes Y: "yaml_laws Y" and a: "ad_type a = 1 \<or> ad_type a = 2 \<and> ad_file a = []"
  shows "read_appender Y (write_appender Y a) = Inr (Some (read_back a))"
proof -
  let ?kvs = "opt_field Y (ad_type a = 1 \<or> ad_type a = 2) ''type''
          (if ad_type a = 1 then str ''FileAppender'' else str ''StdoutAppender'') @
        opt_field Y (ad_type a = 1) ''file'' (ad_file a) @
        opt_field Y (ad_level a \<noteq> L_UNKNOWN) ''level'' (LevelToString (ad_level a)) @
        opt_field Y (ad_formatter a \<noteq> []) ''formatter'' (ad_formatter a)"
  have "distinct (map fst ?kvs)" by (simp add: opt_field_def str_def)
  then have f: "yf Y (write_appender Y a) k = map_of ?kvs k" for k
    using Y unfolding yaml_laws_def write_appender_def by blast
  have s: "ystr Y (yscalar Y v) = Inr v" for v using Y by (simp add: yaml_laws_def)
  have fmt: "field_or Y (write_appender Y a) ''formatter'' [] = Inr (ad_formatter a)"
    by (auto simp: field_or_def f opt_field_def s str_def)
  have "read_back a = \<lparr>ad_type = ad_type a, ad_level = L_UNKNOWN, ad_formatter = ad_formatter a,
      ad_file = ad_file a, ad_timeasname = False\<rparr>"
    by (cases a) (simp add: read_back_def)
  then show ?thesis
    using a by (auto simp: read_appender_def f opt_field_def s str_def fmt new_appender_define_def)
qed

lemma read_write_appenders:
  assumes "yaml_laws Y" "\<forall>a \<in> set as. ad_type a = 1 \<or> ad_type a = 2 \<and> ad_file a = []"
  shows "read_appenders Y (map (write_appender Y) as) = Inr (map read_back as)"
  using assms(2) by (induction as) (simp_all add: read_write_appender [OF assms(1)])

text \<open>A definition of a logger that is written to YAML and read again is the same but for the
  levels and the \<open>timeasname\<close> of its appenders, which are lost: the former are not read, the latter is
  not written.\<close>

theorem log_define_roundtrip:
  assumes Y: "yaml_laws Y"
    and as: "\<forall>a \<in> set (ld_appenders d). ad_type a = 1 \<or> ad_type a = 2 \<and> ad_file a = []"
  shows "read_define Y (write_define Y d) =
    Inr (d\<lparr>ld_appenders := map (\<lambda>a. a\<lparr>ad_level := L_UNKNOWN, ad_timeasname := False\<rparr>) (ld_appenders d)\<rparr>)"
proof -
  let ?kvs = "opt_field Y True ''name'' (ld_name d) @
        opt_field Y (ld_level d \<noteq> L_UNKNOWN) ''level'' (LevelToString (ld_level d)) @
        opt_field Y (ld_formatter d \<noteq> []) ''formatter'' (ld_formatter d) @
        (if ld_appenders d = [] then []
         else [(str ''appenders'', yseq Y (map (write_appender Y) (ld_appenders d)))])"
  have "distinct (map fst ?kvs)" by (simp add: opt_field_def str_def)
  then have f: "yf Y (write_define Y d) k = map_of ?kvs k" for k
    using Y unfolding yaml_laws_def write_define_def by blast
  have s: "ystr Y (yscalar Y v) = Inr v" "yelems Y (yseq Y ns) = ns" for v ns
    using Y by (simp_all add: yaml_laws_def)
  have unknown: "FromString [] = L_UNKNOWN" by (simp add: FromString_def str_def)
  have "map (\<lambda>a. a\<lparr>ad_level := L_UNKNOWN, ad_timeasname := False\<rparr>) (ld_appenders d) =
      map read_back (ld_appenders d)"
    by (simp add: read_back_def)
  moreover have "d\<lparr>ld_appenders := as\<rparr> =
      \<lparr>ld_name = ld_name d, ld_level = ld_level d, ld_formatter = ld_formatter d, ld_appenders = as\<rparr>" for as
    by (cases d) simp
  moreover have "field_or Y (write_define Y d) ''level'' [] =
      Inr (if ld_level d \<noteq> L_UNKNOWN then LevelToString (ld_level d) else [])"
    "field_or Y (write_define Y d) ''formatter'' [] = Inr (ld_formatter d)"
    by (auto simp: field_or_def f opt_field_def s str_def)
  ultimately show ?thesis
    using read_write_appenders [OF Y as]
    by (auto simp: read_define_def f opt_field_def s str_def unknown)
qed

datatype ytree = YScalar bytes | YSeq "ytree list" | YMap "(bytes \<times> ytree) list"

theorem log_define_roundtrip_witness:
  "\<exists>Y :: ytree yaml.
     let d = \<lparr>ld_name = str ''app'', ld_level = L_WARN, ld_formatter = str ''%m'',
         ld_appenders = [new_appender_define\<lparr>ad_type := 2, ad_level := L_FATAL\<rparr>]\<rparr>
     in read_define Y (write_define Y d) = Inr (d\<lparr>ld_appenders := [new_appender_define\<lparr>ad_type := 2\<rparr>]\<rparr>)"
proof -
  let ?Y = "\<lparr>yf = (\<lambda>n k. case n of YMap kvs \<Rightarrow> map_of kvs k | _ \<Rightarrow> None),
    yelems = (\<lambda>n. case n of YSeq ns \<Rightarrow> ns | _ \<Rightarrow> []),
    ystr = (\<lambda>n. case n of YScalar v \<Rightarrow> Inr v | _ \<Rightarrow> Inl Thrown), ybool = (\<lambda>n. Inl Thrown),
    ymap = YMap, yseq = YSeq, yscalar = YScalar\<rparr>"
  let ?d = "\<lparr>ld_name = str ''app'', ld_level = L_WARN, ld_formatter = str ''%m'',
      ld_appenders = [new_appender_define\<lparr>ad_type := 2, ad_level := L_FATAL\<rparr>]\<rparr>"
  have Y: "yaml_laws ?Y" by (simp add: yaml_laws_def)
  have "\<forall>a \<in> set (ld_appenders ?d). ad_type a = 1 \<or> ad_type a = 2 \<and> ad_file a = []"
    by (simp add: new_appender_define_def)
  from log_define_roundtrip [OF Y this] show ?thesis
    by (intro exI [of _ ?Y]) (simp add: new_appender_define_def)
qed

end
