(* ===== verification/Config.thy ===== *)
theory Config
  imports UtilText StdMap
begin

text \<open>
  Configuration variables (\<open>src/Config.h\<close>) and the loading of YAML trees (\<open>src/Config.cpp\<close>). \<open>'v\<close> is the
  type of the values, \<open>'s\<close> the state of the program that the listeners work on. The conversions
  from and to strings are arguments, and so is the text of a YAML node that is not a scalar.
\<close>

section \<open>Variables\<close>

text \<open>
  A listener gets the old and the new value and changes the state; it returns (\<open>True\<close>) or throws.
  \<open>cv_type\<close> stands for the type argument of the template.
\<close>

type_synonym ('v, 's) on_change = "'v \<Rightarrow> 'v \<Rightarrow> 's \<Rightarrow> bool \<times> 's"

record ('v, 's) config_var =
  cv_name :: bytes
  cv_description :: bytes
  cv_type :: nat
  cv_val :: 'v
  cv_callbacks :: "(u64, ('v, 's) on_change) std_map"

definition new_config_var :: "bytes \<Rightarrow> nat \<Rightarrow> 'v \<Rightarrow> bytes \<Rightarrow> ('v, 's) config_var" where
  "new_config_var name ty default_value des =
     \<lparr>cv_name = ToLower name, cv_description = des, cv_type = ty, cv_val = default_value,
      cv_callbacks = []\<rparr>"

definition cv_toString :: "('v \<Rightarrow> bytes res) \<Rightarrow> ('v, 's) config_var \<Rightarrow> bytes" where
  "cv_toString to_str c = (case to_str (cv_val c) of Inl e \<Rightarrow> [] | Inr s \<Rightarrow> s)"

text \<open>The loop over the listeners; it ends with the first that throws.\<close>

fun call_listeners ::
  "(u64, ('v, 's) on_change) std_map \<Rightarrow> 'v \<Rightarrow> 'v \<Rightarrow> 's \<Rightarrow> bool \<times> 's" where
  "call_listeners [] old new s = (True, s)"
| "call_listeners ((k, cb) # cbs) old new s =
     (let (returned, s1) = cb old new s
      in if returned then call_listeners cbs old new s1 else (False, s1))"

text \<open>
  \<open>setValue\<close> in its two parts. Under the reader lock: it returns early, a listener throws, or it goes
  on to the second part, under the writer lock.
\<close>

datatype notified = SameValue | ListenerThrew | GoStore

definition setValue_notify :: "'v \<Rightarrow> ('v, 's) config_var \<Rightarrow> 's \<Rightarrow> notified \<times> 's" where
  "setValue_notify v c s =
     (if v = cv_val c then (SameValue, s)
      else
        let (returned, s1) = call_listeners (cv_callbacks c) (cv_val c) v s
        in (if returned then GoStore else ListenerThrew, s1))"

definition setValue_store :: "'v \<Rightarrow> ('v, 's) config_var \<Rightarrow> ('v, 's) config_var" where
  "setValue_store v c = c\<lparr>cv_val := v\<rparr>"

text \<open>The whole call: whether it returned, the variable and the state.\<close>

definition setValue :: "'v \<Rightarrow> ('v, 's) config_var \<Rightarrow> 's \<Rightarrow> bool \<times> ('v, 's) config_var \<times> 's" where
  "setValue v c s =
     (let (r, s1) = setValue_notify v c s
      in (r \<noteq> ListenerThrew, if r = GoStore then setValue_store v c else c, s1))"

text \<open>\<open>fromString\<close> catches every exception; its result is always false.\<close>

definition cv_fromString ::
  "(bytes \<Rightarrow> 'v res) \<Rightarrow> bytes \<Rightarrow> ('v, 's) config_var \<Rightarrow> 's \<Rightarrow> bool \<times> ('v, 's) config_var \<times> 's" where
  "cv_fromString from_str val c s =
     (case from_str val of
        Inl e \<Rightarrow> (False, c, s)
      | Inr v \<Rightarrow> (False, snd (setValue v c s)))"

text \<open>\<open>fun_id\<close> is the static counter.\<close>

definition addListener ::
  "('v, 's) on_change \<Rightarrow> u64 \<Rightarrow> ('v, 's) config_var \<Rightarrow> u64 \<times> u64 \<times> ('v, 's) config_var" where
  "addListener cb fun_id c =
     (let fun_id1 = fun_id + 1
      in (fun_id1, fun_id1, c\<lparr>cv_callbacks := map_put fun_id1 cb (cv_callbacks c)\<rparr>))"

definition delListener :: "u64 \<Rightarrow> ('v, 's) config_var \<Rightarrow> ('v, 's) config_var" where
  "delListener key c = c\<lparr>cv_callbacks := map_erase key (cv_callbacks c)\<rparr>"

definition getListener :: "u64 \<Rightarrow> ('v, 's) config_var \<Rightarrow> ('v, 's) on_change option" where
  "getListener key c = map_of (cv_callbacks c) key"

section \<open>The registry\<close>

definition name_chars :: bytes where
  "name_chars = map of_char ''abcdefghikjlmnopqrstuvwxyz._012345678''"

definition valid_name :: "bytes \<Rightarrow> bool" where
  "valid_name name \<longleftrightarrow> find_first_not_of name_chars name = None"

type_synonym ('v, 's) registry = "bytes \<Rightarrow> ('v, 's) config_var option"

definition Lookup :: "nat \<Rightarrow> bytes \<Rightarrow> ('v, 's) registry \<Rightarrow> ('v, 's) config_var option" where
  "Lookup ty name ds =
     (case ds name of None \<Rightarrow> None | Some c \<Rightarrow> if cv_type c = ty then Some c else None)"

definition Lookup_default ::
  "nat \<Rightarrow> bytes \<Rightarrow> 'v \<Rightarrow> bytes \<Rightarrow> ('v, 's) registry
   \<Rightarrow> (('v, 's) config_var option \<times> ('v, 's) registry) res" where
  "Lookup_default ty name default_val des ds =
     (case ds name of
        Some c \<Rightarrow> Inr (if cv_type c = ty then Some c else None, ds)
      | None \<Rightarrow>
          if \<not> valid_name name then Inl Thrown
          else
            let v = new_config_var name ty default_val des
            in Inr (Some v, ds(name \<mapsto> v)))"

definition LookupBase :: "bytes \<Rightarrow> ('v, 's) registry \<Rightarrow> ('v, 's) config_var option" where
  "LookupBase name ds = ds name"

section \<open>Loading a tree\<close>

text \<open>What the code sees of a node: a scalar, a map with the keys as scalars, or neither.\<close>

datatype ynode = NScalar bytes | NMap "(bytes \<times> ynode) list" | NOther bytes

fun ListAllMember :: "bytes \<Rightarrow> ynode \<Rightarrow> (bytes \<times> ynode) list" where
  "ListAllMember prefix node =
     (if \<not> valid_name prefix then []
      else (prefix, node) #
        (case node of
           NMap kvs \<Rightarrow>
             concat (map (\<lambda>(k, n). ListAllMember (if prefix = [] then k else prefix @ 0x2E # k) n) kvs)
         | _ \<Rightarrow> []))"

declare ListAllMember.simps [simp del]

text \<open>
  One turn of the loop of \<open>LoadFromYaml\<close>. \<open>parse ty\<close> is the conversion of the type \<open>ty\<close>, and \<open>emit\<close> the
  text of a node.
\<close>

definition load_one ::
  "(nat \<Rightarrow> bytes \<Rightarrow> 'v res) \<Rightarrow> (ynode \<Rightarrow> bytes) \<Rightarrow> bytes \<times> ynode
   \<Rightarrow> ('v, 's) registry \<times> 's \<Rightarrow> ('v, 's) registry \<times> 's" where
  "load_one parse emit i ds_s =
     (let key = fst i; (ds, s) = ds_s
      in if key = [] then (ds, s)
         else
           let key1 = ToLower key
           in case LookupBase key1 ds of
                None \<Rightarrow> (ds, s)
              | Some c \<Rightarrow>
                  let text = (case snd i of NScalar t \<Rightarrow> t | n \<Rightarrow> emit n);
                      (r, c1, s1) = cv_fromString (parse (cv_type c)) text c s
                  in (ds(key1 \<mapsto> c1), s1))"

definition LoadFromYaml ::
  "(nat \<Rightarrow> bytes \<Rightarrow> 'v res) \<Rightarrow> (ynode \<Rightarrow> bytes) \<Rightarrow> ynode
   \<Rightarrow> ('v, 's) registry \<times> 's \<Rightarrow> ('v, 's) registry \<times> 's" where
  "LoadFromYaml parse emit root = fold (load_one parse emit) (ListAllMember [] root)"

text \<open>
  \<open>LoadFromConfDir\<close> over the files that \<open>ListAllFile\<close> found, each with its modification time and its
  tree, \<open>None\<close> when \<open>YAML::LoadFile\<close> throws. \<open>seen\<close> is \<open>s_file2modifytime\<close>, in which a file that is
  not there counts as 0.
\<close>

definition load_file ::
  "(nat \<Rightarrow> bytes \<Rightarrow> 'v res) \<Rightarrow> (ynode \<Rightarrow> bytes) \<Rightarrow> bytes \<times> u64 \<times> ynode option
   \<Rightarrow> (bytes \<Rightarrow> u64) \<times> ('v, 's) registry \<times> 's \<Rightarrow> (bytes \<Rightarrow> u64) \<times> ('v, 's) registry \<times> 's" where
  "load_file parse emit f st =
     (let (i, mtime, tree) = f; (seen, ds_s) = st
      in if seen i = mtime then (seen, ds_s)
         else
           (seen(i := mtime),
            case tree of None \<Rightarrow> ds_s | Some root \<Rightarrow> LoadFromYaml parse emit root ds_s))"

definition LoadFromConfDir ::
  "(nat \<Rightarrow> bytes \<Rightarrow> 'v res) \<Rightarrow> (ynode \<Rightarrow> bytes) \<Rightarrow> (bytes \<times> u64 \<times> ynode option) list
   \<Rightarrow> (bytes \<Rightarrow> u64) \<times> ('v, 's) registry \<times> 's \<Rightarrow> (bytes \<Rightarrow> u64) \<times> ('v, 's) registry \<times> 's" where
  "LoadFromConfDir parse emit files = fold (load_file parse emit) files"

end
