(* ===== verification/ConfigCast.thy ===== *)
theory ConfigCast
  imports StdMap
begin

text \<open>
  The conversions of \<open>src/Config.h\<close> between containers and YAML text. A node is a value of the type
  \<open>'y\<close> with the operations of the library that the code uses; the conversions of the elements are
  arguments. A \<open>std::vector\<close> and a \<open>std::list\<close> are lists, a \<open>std::set\<close> and a \<open>std::map\<close> are sorted
  lists, and the unordered containers are a set and a map, with the order of their iteration as an
  argument where the code depends on it.
\<close>

record 'y yaml_io =
  y_load :: "bytes \<Rightarrow> 'y res"
  y_emit :: "'y \<Rightarrow> bytes"
  y_elems :: "'y \<Rightarrow> 'y list"
  y_seq :: "'y list \<Rightarrow> 'y"
  y_entries :: "'y \<Rightarrow> (bytes \<times> 'y) list"
  y_map :: "(bytes \<times> 'y) list \<Rightarrow> 'y"

section \<open>Sequences\<close>

text \<open>The loop over \<open>node[i]\<close>: \<open>ins\<close> puts a converted element into the container.\<close>

fun read_elems ::
  "'y yaml_io \<Rightarrow> (bytes \<Rightarrow> 'a res) \<Rightarrow> ('a \<Rightarrow> 'c \<Rightarrow> 'c) \<Rightarrow> 'y list \<Rightarrow> 'c \<Rightarrow> 'c res" where
  "read_elems Y from ins [] c = Inr c"
| "read_elems Y from ins (n # ns) c =
     bindE (from (y_emit Y n)) (\<lambda>x. read_elems Y from ins ns (ins x c))"

definition vector_from_string :: "'y yaml_io \<Rightarrow> (bytes \<Rightarrow> 'a res) \<Rightarrow> bytes \<Rightarrow> 'a list res" where
  "vector_from_string Y from v =
     bindE (y_load Y v) (\<lambda>node. read_elems Y from (\<lambda>x c. c @ [x]) (y_elems Y node) [])"

definition list_from_string :: "'y yaml_io \<Rightarrow> (bytes \<Rightarrow> 'a res) \<Rightarrow> bytes \<Rightarrow> 'a list res" where
  "list_from_string Y from v =
     bindE (y_load Y v) (\<lambda>node. read_elems Y from (\<lambda>x c. c @ [x]) (y_elems Y node) [])"

text \<open>A set sorted by \<open>operator<\<close>; \<open>emplace\<close> keeps an element that is equivalent to the new one.\<close>

fun emplace_elem :: "('a \<Rightarrow> 'a \<Rightarrow> bool) \<Rightarrow> 'a \<Rightarrow> 'a list \<Rightarrow> 'a list" where
  "emplace_elem lt x [] = [x]"
| "emplace_elem lt x (y # ys) =
     (if lt x y then x # y # ys else if lt y x then y # emplace_elem lt x ys else y # ys)"

definition set_from_string ::
  "'y yaml_io \<Rightarrow> ('a \<Rightarrow> 'a \<Rightarrow> bool) \<Rightarrow> (bytes \<Rightarrow> 'a res) \<Rightarrow> bytes \<Rightarrow> 'a list res" where
  "set_from_string Y lt from v =
     bindE (y_load Y v) (\<lambda>node. read_elems Y from (emplace_elem lt) (y_elems Y node) [])"

definition unordered_set_from_string :: "'y yaml_io \<Rightarrow> (bytes \<Rightarrow> 'a res) \<Rightarrow> bytes \<Rightarrow> 'a set res" where
  "unordered_set_from_string Y from v =
     bindE (y_load Y v) (\<lambda>node. read_elems Y from insert (y_elems Y node) {})"

text \<open>The other direction: each element is converted, loaded and pushed back.\<close>

fun write_elems :: "'y yaml_io \<Rightarrow> ('a \<Rightarrow> bytes res) \<Rightarrow> 'a list \<Rightarrow> 'y list res" where
  "write_elems Y to [] = Inr []"
| "write_elems Y to (x # xs) =
     bindE (to x) (\<lambda>t. bindE (y_load Y t) (\<lambda>n. bindE (write_elems Y to xs) (\<lambda>ns. Inr (n # ns))))"

definition vector_to_string :: "'y yaml_io \<Rightarrow> ('a \<Rightarrow> bytes res) \<Rightarrow> 'a list \<Rightarrow> bytes res" where
  "vector_to_string Y to v = bindE (write_elems Y to v) (\<lambda>ns. Inr (y_emit Y (y_seq Y ns)))"

definition list_to_string :: "'y yaml_io \<Rightarrow> ('a \<Rightarrow> bytes res) \<Rightarrow> 'a list \<Rightarrow> bytes res" where
  "list_to_string Y to v = bindE (write_elems Y to v) (\<lambda>ns. Inr (y_emit Y (y_seq Y ns)))"

definition set_to_string :: "'y yaml_io \<Rightarrow> ('a \<Rightarrow> bytes res) \<Rightarrow> 'a list \<Rightarrow> bytes res" where
  "set_to_string Y to v = bindE (write_elems Y to v) (\<lambda>ns. Inr (y_emit Y (y_seq Y ns)))"

definition unordered_set_to_string ::
  "'y yaml_io \<Rightarrow> ('a set \<Rightarrow> 'a list) \<Rightarrow> ('a \<Rightarrow> bytes res) \<Rightarrow> 'a set \<Rightarrow> bytes res" where
  "unordered_set_to_string Y order to v =
     bindE (write_elems Y to (order v)) (\<lambda>ns. Inr (y_emit Y (y_seq Y ns)))"

section \<open>Maps\<close>

text \<open>\<open>emplace\<close> of a pair keeps the value of a key that is there.\<close>

fun read_entries ::
  "'y yaml_io \<Rightarrow> (bytes \<Rightarrow> 'a res) \<Rightarrow> (bytes \<Rightarrow> 'a \<Rightarrow> 'c \<Rightarrow> 'c) \<Rightarrow> (bytes \<times> 'y) list \<Rightarrow> 'c \<Rightarrow> 'c res" where
  "read_entries Y from ins [] c = Inr c"
| "read_entries Y from ins ((k, n) # kvs) c =
     bindE (from (y_emit Y n)) (\<lambda>x. read_entries Y from ins kvs (ins k x c))"

definition map_from_string ::
  "'y yaml_io \<Rightarrow> (bytes \<Rightarrow> 'a res) \<Rightarrow> bytes \<Rightarrow> (bytes, 'a) std_map res" where
  "map_from_string Y from v =
     bindE (y_load Y v) (\<lambda>node. read_entries Y from map_insert (y_entries Y node) [])"

definition unordered_map_from_string ::
  "'y yaml_io \<Rightarrow> (bytes \<Rightarrow> 'a res) \<Rightarrow> bytes \<Rightarrow> (bytes \<Rightarrow> 'a option) res" where
  "unordered_map_from_string Y from v =
     bindE (y_load Y v) (\<lambda>node.
       read_entries Y from (\<lambda>k x m. if m k = None then m(k \<mapsto> x) else m) (y_entries Y node) (\<lambda>_. None))"

fun write_entries ::
  "'y yaml_io \<Rightarrow> ('a \<Rightarrow> bytes res) \<Rightarrow> (bytes \<times> 'a) list \<Rightarrow> (bytes \<times> 'y) list res" where
  "write_entries Y to [] = Inr []"
| "write_entries Y to ((k, x) # kvs) =
     bindE (to x) (\<lambda>t. bindE (y_load Y t) (\<lambda>n.
       bindE (write_entries Y to kvs) (\<lambda>ns. Inr ((k, n) # ns))))"

definition map_to_string ::
  "'y yaml_io \<Rightarrow> ('a \<Rightarrow> bytes res) \<Rightarrow> (bytes, 'a) std_map \<Rightarrow> bytes res" where
  "map_to_string Y to v = bindE (write_entries Y to v) (\<lambda>kvs. Inr (y_emit Y (y_map Y kvs)))"

definition unordered_map_to_string ::
  "'y yaml_io \<Rightarrow> ((bytes \<Rightarrow> 'a option) \<Rightarrow> (bytes \<times> 'a) list) \<Rightarrow> ('a \<Rightarrow> bytes res)
   \<Rightarrow> (bytes \<Rightarrow> 'a option) \<Rightarrow> bytes res" where
  "unordered_map_to_string Y order to v =
     bindE (write_entries Y to (order v)) (\<lambda>kvs. Inr (y_emit Y (y_map Y kvs)))"

end
