(* ===== verification/ConfigProps.thy ===== *)
theory ConfigProps
  imports Config ConfigCast TextOut
begin

text \<open>
  What configuration variables promise: a listener that follows a variable has its value as long as
  the calls of \<open>setValue\<close> do not overlap; loading a tree gives a variable the last value that can
  be read; a container that is written is read back. And where they fail: overlapping calls, names
  with a nine.
\<close>

section \<open>Listeners\<close>

fun set_values :: "'v list \<Rightarrow> ('v, 's) config_var \<times> 's \<Rightarrow> ('v, 's) config_var \<times> 's" where
  "set_values [] cs = cs"
| "set_values (v # vs) (c, s) = set_values vs (snd (setValue v c s))"

text \<open>A listener that carries a relation between the value and the state from the old value to the
  new one, when it returns, and does no harm when it throws.\<close>

definition follows :: "('v \<Rightarrow> 's \<Rightarrow> bool) \<Rightarrow> ('v, 's) on_change \<Rightarrow> bool" where
  "follows R cb \<longleftrightarrow> (\<forall>old new s. R old s \<longrightarrow>
     (if fst (cb old new s) then R new (snd (cb old new s)) else R old (snd (cb old new s))))"

lemma setValue_follows:
  assumes "cv_callbacks c = [(k, cb)]" "follows R cb" "R (cv_val c) s"
    and "snd (setValue v c s) = (c', s')"
  shows "R (cv_val c') s' \<and> cv_callbacks c' = cv_callbacks c"
proof -
  have "if fst (cb (cv_val c) v s) then R v (snd (cb (cv_val c) v s))
      else R (cv_val c) (snd (cb (cv_val c) v s))"
    using assms(2,3) by (simp add: follows_def)
  then show ?thesis
    using assms(1,3,4)
    by (auto simp: setValue_def setValue_notify_def setValue_store_def Let_def
        split: prod.splits if_split_asm)
qed

lemma set_values_follows:
  assumes "cv_callbacks c = [(k, cb)]" "follows R cb" "R (cv_val c) s"
    and "set_values vs (c, s) = (c', s')"
  shows "R (cv_val c') s'"
  using assms
proof (induction vs arbitrary: c s)
  case (Cons v vs)
  obtain c1 s1 where step: "snd (setValue v c s) = (c1, s1)" by fastforce
  have "set_values vs (c1, s1) = (c', s')" using Cons.prems(4) step by simp
  with setValue_follows [OF Cons.prems(1-3) step] Cons.prems(1,2) show ?case
    using Cons.IH [of c1 s1] by simp
qed simp

text \<open>As long as calls of \<open>setValue\<close> do not overlap, whatever values a variable is given one after the
  other and whichever of them its listener refuses by an exception, the relation that the listener
  keeps between the value and its own state holds for the value that the variable has.\<close>

theorem listener_follows_value:
  assumes "cv_callbacks c = [(k, cb)]" and "R (cv_val c) s"
    and "\<And>old new s. R old s \<Longrightarrow> fst (cb old new s) \<Longrightarrow> R new (snd (cb old new s))"
    and "\<And>old new s. R old s \<Longrightarrow> \<not> fst (cb old new s) \<Longrightarrow> R old (snd (cb old new s))"
    and "set_values vs (c, s) = (c', s')"
  shows "R (cv_val c') s'"
  by (rule set_values_follows [of c k cb R s vs]) (use assms in \<open>auto simp: follows_def\<close>)

theorem listener_follows_value_witness:
  "let c = snd (snd (addListener (\<lambda>old new s. (new \<noteq> 7, if new \<noteq> 7 then new else s)) 0
             (new_config_var [] 0 1 []))) :: (nat, nat) config_var
   in cv_val (fst (set_values [2, 7, 5, 7] (c, 1))) = snd (set_values [2, 7, 5, 7] (c, 1))"
proof -
  let ?cb = "\<lambda>old new s :: nat. (new \<noteq> 7, if new \<noteq> 7 then new else s)"
  let ?c = "snd (snd (addListener ?cb 0 (new_config_var [] 0 1 []))) :: (nat, nat) config_var"
  obtain c' s' where run: "set_values [2, 7, 5, 7] (?c, 1) = (c', s')" by fastforce
  have "cv_val c' = s'"
    by (rule listener_follows_value [of ?c 1 ?cb "\<lambda>v s. v = s" 1, OF _ _ _ _ run])
      (auto simp: addListener_def new_config_var_def)
  then show ?thesis using run by (simp add: Let_def)
qed

text \<open>Two overlapping calls: each tells the listeners under the reader lock, which both may hold, and
  stores its value later. The variable may end with one value and its listeners with the other,
  and both were told the same old value.\<close>

theorem overlapping_setValue:
  assumes "cv_callbacks c = [(k, \<lambda>old new s. (True, s @ [(old, new)]))]"
    and "a \<noteq> cv_val c" "b \<noteq> cv_val c"
  shows "\<exists>s1 s2. setValue_notify a c s = (GoStore, s1) \<and> setValue_notify b c s1 = (GoStore, s2) \<and>
    s2 = s @ [(cv_val c, a), (cv_val c, b)] \<and>
    cv_val (setValue_store a (setValue_store b c)) = a"
  using assms by (simp add: setValue_notify_def setValue_store_def Let_def)

theorem overlapping_setValue_witness:
  "\<exists>(c :: (nat, (nat \<times> nat) list) config_var) s1 s2. cv_val c = 1 \<and>
     setValue_notify 2 c [] = (GoStore, s1) \<and> setValue_notify 3 c s1 = (GoStore, s2) \<and>
     s2 = [(1, 2), (1, 3)] \<and> cv_val (setValue_store 2 (setValue_store 3 c)) = 2"
proof -
  let ?c = "snd (snd (addListener (\<lambda>old new s. (True, s @ [(old, new)])) 0
      (new_config_var [] 0 1 []))) :: (nat, (nat \<times> nat) list) config_var"
  have "cv_callbacks ?c = [(1, \<lambda>old new s. (True, s @ [(old, new)]))]" "cv_val ?c = 1"
    by (simp_all add: addListener_def new_config_var_def)
  from overlapping_setValue [OF this(1), of 2 3 "[]"] this(2) show ?thesis by auto
qed

section \<open>Loading a tree\<close>

lemma valid_name_iff: "valid_name name \<longleftrightarrow> set name \<subseteq> set name_chars"
proof -
  have "length (takeWhile P xs) < length xs \<longleftrightarrow> \<not> list_all P xs" for P and xs :: bytes
    by (induction xs) auto
  then show ?thesis
    by (auto simp: valid_name_def find_first_not_of_def Let_def list_all_iff)
qed

lemma name_chars_lower: "c \<in> set name_chars \<Longrightarrow> c_tolower c = c"
  by (auto simp: name_chars_def c_tolower_def)

lemma valid_name_lower: "valid_name name \<Longrightarrow> ToLower name = name"
  using name_chars_lower by (auto simp: valid_name_iff ToLower_def intro!: map_idI)

lemma listed_names_valid: "i \<in> set (ListAllMember prefix node) \<Longrightarrow> valid_name (fst i)"
proof (induction prefix node rule: ListAllMember.induct)
  case (1 prefix node)
  show ?case
  proof (cases "valid_name prefix")
    case True
    from 1(2) [unfolded ListAllMember.simps [of prefix node]] True
    show ?thesis using 1(1) True by (auto split: ynode.splits)
  next
    case False
    with 1(2) show ?thesis by (simp add: ListAllMember.simps [of prefix node])
  qed
qed

definition node_text :: "(ynode \<Rightarrow> bytes) \<Rightarrow> ynode \<Rightarrow> bytes" where
  "node_text emit n = (case n of NScalar t \<Rightarrow> t | m \<Rightarrow> emit m)"

text \<open>The last of some texts that can be read, or the old value.\<close>

definition last_readable :: "(bytes \<Rightarrow> 'v res) \<Rightarrow> bytes list \<Rightarrow> 'v \<Rightarrow> 'v" where
  "last_readable parse ts v = fold (\<lambda>t v. case parse t of Inl e \<Rightarrow> v | Inr v' \<Rightarrow> v') ts v"

definition never_throws :: "('v, 's) config_var \<Rightarrow> bool" where
  "never_throws c \<longleftrightarrow> (\<forall>p \<in> set (cv_callbacks c). \<forall>old new s. fst (snd p old new s))"

lemma call_listeners_return:
  "\<forall>p \<in> set cbs. \<forall>old new s. fst (snd p old new s) \<Longrightarrow> fst (call_listeners cbs old new s)"
  by (induction cbs arbitrary: s) (auto simp: Let_def split: prod.splits, metis fst_conv)

lemma fromString_value:
  assumes "never_throws c" and "snd (cv_fromString from_str t c s) = (c', s')"
  shows "c' = c\<lparr>cv_val := (case from_str t of Inl e \<Rightarrow> cv_val c | Inr v \<Rightarrow> v)\<rparr>"
proof (cases "from_str t")
  case (Inr v)
  have "fst (call_listeners (cv_callbacks c) (cv_val c) v s)"
    using assms(1) by (intro call_listeners_return) (simp add: never_throws_def)
  then show ?thesis
    using assms(2) Inr
    by (auto simp: cv_fromString_def setValue_def setValue_notify_def setValue_store_def Let_def
        split: prod.splits if_split_asm)
qed (use assms in \<open>simp add: cv_fromString_def\<close>)

lemma load_all:
  assumes "ds name = Some c" "never_throws c" "name \<noteq> []" "\<forall>i \<in> set is. valid_name (fst i)"
    and "fold (load_one parse emit) is (ds, s) = (ds', s')"
  shows "ds' name = Some (c\<lparr>cv_val := last_readable (parse (cv_type c))
      (map (\<lambda>i. node_text emit (snd i)) (filter (\<lambda>i. fst i = name) is)) (cv_val c)\<rparr>)"
  using assms
proof (induction "is" arbitrary: ds s c)
  case (Cons i "is")
  obtain ds1 s1 where step: "load_one parse emit i (ds, s) = (ds1, s1)" by fastforce
  have lower: "ToLower (fst i) = fst i" using Cons.prems(4) by (simp add: valid_name_lower)
  let ?v = "case parse (cv_type c) (node_text emit (snd i)) of Inl e \<Rightarrow> cv_val c | Inr v \<Rightarrow> v"
  let ?c = "if fst i = name then c\<lparr>cv_val := ?v\<rparr> else c"
  have ds1: "ds1 name = Some ?c"
  proof (cases "fst i = name")
    case True
    obtain r c1 s2 where f: "cv_fromString (parse (cv_type c)) (node_text emit (snd i)) c s = (r, c1, s2)"
      by (metis prod_cases3)
    then have "c1 = c\<lparr>cv_val := ?v\<rparr>"
      using fromString_value [OF Cons.prems(2), of "parse (cv_type c)" "node_text emit (snd i)" s c1 s2]
      by simp
    then show ?thesis
      using step f True lower Cons.prems(1,3)
      by (auto simp: load_one_def LookupBase_def Let_def node_text_def)
  next
    case False
    then show ?thesis
      using step lower Cons.prems(1)
      by (auto simp: load_one_def LookupBase_def Let_def split: if_split_asm option.splits prod.splits)
  qed
  have rest: "fold (load_one parse emit) is (ds1, s1) = (ds', s')" using Cons.prems(5) step by simp
  have "never_throws ?c" using Cons.prems(2) by (simp add: never_throws_def)
  from Cons.IH [OF ds1 this Cons.prems(3) _ rest] Cons.prems(4)
  show ?case by (auto simp: last_readable_def)
qed (simp add: last_readable_def)

section \<open>The nodes of a tree\<close>

text \<open>
  A position in a tree is the list of the indices of the entries that lead to it. \<open>node_at\<close> gives
  the keys on the way and the node there. In the order of the document a node comes before those
  below it, and what is below an entry before the next entry: the lexicographic order of positions.
\<close>

fun node_at :: "ynode \<Rightarrow> nat list \<Rightarrow> (bytes list \<times> ynode) option" where
  "node_at n [] = Some ([], n)"
| "node_at (NMap kvs) (i # p) =
     (if i < length kvs then map_option (\<lambda>(ks, m). (fst (kvs ! i) # ks, m)) (node_at (snd (kvs ! i)) p) else None)"
| "node_at _ (i # p) = None"

fun before :: "nat list \<Rightarrow> nat list \<Rightarrow> bool" where
  "before p [] \<longleftrightarrow> False"
| "before [] (j # q) \<longleftrightarrow> True"
| "before (i # p) (j # q) \<longleftrightarrow> i < j \<or> i = j \<and> before p q"

text \<open>The keys joined by dots; empty keys at the root add nothing.\<close>

fun dotted :: "bytes list \<Rightarrow> bytes" where
  "dotted [] = []"
| "dotted [k] = k"
| "dotted (k # ks) = k @ str ''.'' @ dotted ks"

definition node_name :: "bytes list \<Rightarrow> bytes" where
  "node_name ks = dotted (dropWhile (\<lambda>k. k = []) ks)"

text \<open>All nodes with their positions and keys, in the order of the document.\<close>

type_synonym placed = "nat list \<times> bytes list \<times> ynode"

definition below :: "nat \<Rightarrow> bytes \<Rightarrow> placed list \<Rightarrow> placed list" where
  "below i k l = map (\<lambda>x. (i # fst x, k # fst (snd x), snd (snd x))) l"

fun document :: "ynode \<Rightarrow> placed list" where
  "document n = ([], [], n) #
     (case n of
        NMap kvs \<Rightarrow>
          concat (map (\<lambda>(i, k, l). below i k l) (enumerate 0 (map (\<lambda>(k, m). (k, document m)) kvs)))
      | _ \<Rightarrow> [])"

declare document.simps [simp del]

fun blocks :: "nat \<Rightarrow> (bytes \<times> ynode) list \<Rightarrow> placed list" where
  "blocks j [] = []"
| "blocks j ((k, m) # kvs) = below j k (document m) @ blocks (Suc j) kvs"

lemma document_NMap: "document (NMap kvs) = ([], [], NMap kvs) # blocks 0 kvs"
proof -
  have "concat (map (\<lambda>(i, k, l). below i k l) (enumerate j (map (\<lambda>(k, m). (k, document m)) kvs))) = blocks j kvs" for j
    by (induction j kvs rule: blocks.induct) auto
  then show ?thesis by (simp add: document.simps [of "NMap kvs"])
qed

lemma document_leaf: "document (NScalar t) = [([], [], NScalar t)]" "document (NOther t) = [([], [], NOther t)]"
  by (simp_all add: document.simps)

lemma ex_Suc: "(\<exists>i. P i) \<longleftrightarrow> P 0 \<or> (\<exists>i. P (Suc i))"
  by (metis not0_implies_Suc)

lemma in_blocks:
  "(p, ks, x) \<in> set (blocks j kvs) \<longleftrightarrow>
     (\<exists>i q ks'. i < length kvs \<and> p = (j + i) # q \<and> ks = fst (kvs ! i) # ks' \<and> (q, ks', x) \<in> set (document (snd (kvs ! i))))"
proof (induction j kvs rule: blocks.induct)
  case (2 j k m kvs)
  have "(\<exists>i q ks'. i < length ((k, m) # kvs) \<and> p = (j + i) # q \<and> ks = fst (((k, m) # kvs) ! i) # ks' \<and>
        (q, ks', x) \<in> set (document (snd (((k, m) # kvs) ! i)))) \<longleftrightarrow>
      (\<exists>q ks'. p = j # q \<and> ks = k # ks' \<and> (q, ks', x) \<in> set (document m)) \<or>
      (\<exists>i q ks'. i < length kvs \<and> p = (Suc j + i) # q \<and> ks = fst (kvs ! i) # ks' \<and>
        (q, ks', x) \<in> set (document (snd (kvs ! i))))" (is "(\<exists>i. ?P i) \<longleftrightarrow> ?Q \<or> (\<exists>i. ?R i)")
  proof -
    have "(\<exists>i. ?P i) \<longleftrightarrow> ?P 0 \<or> (\<exists>i. ?P (Suc i))" by (rule ex_Suc)
    then show ?thesis by simp
  qed
  moreover have "(p, ks, x) \<in> set (below j k (document m)) \<longleftrightarrow>
      (\<exists>q ks'. p = j # q \<and> ks = k # ks' \<and> (q, ks', x) \<in> set (document m))"
    by (force simp: below_def)
  ultimately show ?case using 2 by simp
qed simp

lemma document_at: "(p, ks, x) \<in> set (document n) \<longleftrightarrow> node_at n p = Some (ks, x)"
proof (induction n arbitrary: p ks x)
  case (NMap kvs)
  show ?case
  proof (cases p)
    case (Cons i q)
    have ih: "(q, ks, x) \<in> set (document (snd (kvs ! i))) \<longleftrightarrow> node_at (snd (kvs ! i)) q = Some (ks, x)"
      if "i < length kvs" for ks x
      using NMap.IH [of "kvs ! i" "snd (kvs ! i)"] that by (simp add: snds.intros)
    then show ?thesis by (auto simp: document_NMap in_blocks Cons)
  qed (auto simp: document_NMap in_blocks)
next
  case (NScalar t)
  show ?case by (cases p) (auto simp: document_leaf)
next
  case (NOther t)
  show ?case by (cases p) (auto simp: document_leaf)
qed

lemma sorted_blocks:
  "(\<And>k m. (k, m) \<in> set kvs \<Longrightarrow> sorted_wrt before (map fst (document m))) \<Longrightarrow>
   sorted_wrt before (map fst (blocks j kvs))"
proof (induction j kvs rule: blocks.induct)
  case (2 j k m kvs)
  have "sorted_wrt before (map fst (document m))" using "2.prems" [of k m] by simp
  then have "sorted_wrt before (map fst (below j k (document m)))" by (simp add: below_def sorted_wrt_map)
  moreover have "before (fst x) (fst y)" if "x \<in> set (below j k (document m))" "y \<in> set (blocks (Suc j) kvs)" for x y
    using that by (cases y) (auto simp: below_def in_blocks)
  moreover have "sorted_wrt before (map fst (blocks (Suc j) kvs))"
    by (rule "2.IH") (use "2.prems" in auto)
  ultimately show ?case by (auto simp: sorted_wrt_append)
qed simp

lemma document_sorted: "sorted_wrt before (map fst (document n))"
proof (induction n)
  case (NMap kvs)
  have "sorted_wrt before (map fst (document m))" if "(k, m) \<in> set kvs" for k m
    using NMap.IH [of "(k, m)" m] that by (simp add: snds.intros)
  then have "sorted_wrt before (map fst (blocks 0 kvs))" by (rule sorted_blocks)
  then show ?case by (auto simp: document_NMap in_blocks)
qed (simp_all add: document_leaf)

text \<open>The prefix with which \<open>ListAllMember\<close> reaches a node.\<close>

definition extend :: "bytes \<Rightarrow> bytes list \<Rightarrow> bytes" where
  "extend prefix ks = foldl (\<lambda>p k. if p = [] then k else p @ 0x2E # k) prefix ks"

lemma extend_simps [simp]:
  "extend p [] = p" "extend p (k # ks) = extend (if p = [] then k else p @ 0x2E # k) ks"
  by (simp_all add: extend_def)

lemma extend_longer: "p \<noteq> [] \<Longrightarrow> extend p ks = p @ concat (map (\<lambda>k. 0x2E # k) ks)"
  by (induction ks arbitrary: p) auto

lemma dotted_concat: "dotted (k # ks) = k @ concat (map (\<lambda>k. 0x2E # k) ks)"
  by (induction ks arbitrary: k) (simp_all add: str_def)

lemma extend_name: "extend [] ks = node_name ks"
proof (induction ks)
  case (Cons k ks)
  then show ?case
    by (cases "k = []") (simp_all add: node_name_def extend_longer dotted_concat)
qed (simp add: node_name_def)

lemma extend_subset: "set p \<subseteq> set (extend p ks)"
  by (induction ks arbitrary: p) force+

lemma extend_invalid: "\<not> valid_name p \<Longrightarrow> \<not> valid_name (extend p ks)"
  using extend_subset [of p ks] by (auto simp: valid_name_iff)

definition listed :: "bytes \<Rightarrow> placed list \<Rightarrow> (bytes \<times> ynode) list" where
  "listed prefix l = map (\<lambda>x. (extend prefix (fst (snd x)), snd (snd x)))
     (filter (\<lambda>x. valid_name (extend prefix (fst (snd x)))) l)"

lemma listed_below: "listed prefix (below i k l) = listed (if prefix = [] then k else prefix @ 0x2E # k) l"
  by (simp add: listed_def below_def filter_map o_def)

lemma listed_append: "listed prefix (l @ l') = listed prefix l @ listed prefix l'"
  by (simp add: listed_def)

lemma listed_document: "ListAllMember prefix n = listed prefix (document n)"
proof (induction prefix n rule: ListAllMember.induct)
  case (1 prefix n)
  show ?case
  proof (cases "valid_name prefix")
    case False
    then show ?thesis
      by (simp add: ListAllMember.simps [of prefix n] listed_def filter_empty_conv extend_invalid)
  next
    case True
    show ?thesis
    proof (cases n)
      case (NMap kvs)
      let ?pre = "\<lambda>k. if prefix = [] then k else prefix @ 0x2E # k"
      have "ListAllMember (?pre k) m = listed (?pre k) (document m)" if "(k, m) \<in> set kvs" for k m
        using 1 [of kvs "(k, m)" k m] True NMap that by simp
      then have "concat (map (\<lambda>(k, m). ListAllMember (?pre k) m) kvs) = listed prefix (blocks j kvs)" for j
        by (induction j kvs rule: blocks.induct) (auto simp: listed_append listed_below, simp_all add: listed_def)
      moreover have "listed prefix (([], [], n) # l) = (prefix, n) # listed prefix l" for l
        using True by (simp add: listed_def)
      ultimately show ?thesis
        using True NMap by (simp add: ListAllMember.simps [of prefix "NMap kvs"] document_NMap)
    qed (use True in \<open>simp_all add: ListAllMember.simps [of prefix "NScalar t" for t]
          ListAllMember.simps [of prefix "NOther t" for t] document_leaf listed_def\<close>)
  qed
qed

text \<open>The last of a sorted list of positions that can be read.\<close>

lemma last_readable_sorted:
  assumes "sorted_wrt before (map fst (ps :: (nat list \<times> bytes) list))"
  shows "(\<exists>p t v. (p, t) \<in> set ps \<and> parse t = Inr v \<and> last_readable parse (map snd ps) w = v \<and>
        (\<forall>q t' v'. (q, t') \<in> set ps \<longrightarrow> parse t' = Inr v' \<longrightarrow> q = p \<or> before q p)) \<or>
      (\<forall>(p, t) \<in> set ps. \<exists>e. parse t = Inl e) \<and> last_readable parse (map snd ps) w = w"
  using assms
proof (induction ps rule: rev_induct)
  case (snoc x ps)
  obtain p t where x: "x = (p, t)" by force
  have less: "\<forall>y \<in> set ps. before (fst y) p" and sorted: "sorted_wrt before (map fst ps)"
    using snoc.prems by (auto simp: x sorted_wrt_append)
  show ?case
  proof (cases "parse t")
    case (Inr v)
    then have "last_readable parse (map snd (ps @ [x])) w = v" by (simp add: x last_readable_def)
    then show ?thesis using Inr less by (intro disjI1 exI [of _ p] exI [of _ t]) (auto simp: x)
  next
    case (Inl e)
    then have "last_readable parse (map snd (ps @ [x])) w = last_readable parse (map snd ps) w"
      by (simp add: x last_readable_def)
    with snoc.IH [OF sorted] show ?thesis
    proof (elim disjE exE conjE)
      fix p' t' v
      assume "(p', t') \<in> set ps" "parse t' = Inr v" "last_readable parse (map snd ps) w = v"
        "\<forall>q t' v'. (q, t') \<in> set ps \<longrightarrow> parse t' = Inr v' \<longrightarrow> q = p' \<or> before q p'"
        "last_readable parse (map snd (ps @ [x])) w = last_readable parse (map snd ps) w"
      then show ?thesis
        using Inl by (intro disjI1 exI [of _ p'] exI [of _ t'] exI [of _ v]) (auto simp: x)
    qed (use Inl in \<open>auto simp: x\<close>)
  qed
qed (simp add: last_readable_def)

text \<open>The nodes with a name from which a value can be read.\<close>

definition readable_at :: "(bytes \<Rightarrow> 'v res) \<Rightarrow> (ynode \<Rightarrow> bytes) \<Rightarrow> ynode \<Rightarrow> bytes \<Rightarrow> nat list \<Rightarrow> 'v \<Rightarrow> bool" where
  "readable_at parse emit root name p v \<longleftrightarrow>
     (\<exists>ks n. node_at root p = Some (ks, n) \<and> node_name ks = name \<and> parse (node_text emit n) = Inr v)"

text \<open>C33: loading a tree gives a variable the value at the last node of the document whose name, the
  keys that lead to it joined by dots, is the variable's and whose text its conversion can read;
  without such a node, and when the variable's name has a character that names cannot have, it
  keeps its value. (The variable's listeners do not throw.)\<close>

theorem load_last_wins:
  assumes "ds name = Some c" "never_throws c" "name \<noteq> []"
    and "LoadFromYaml parse emit root (ds, s) = (ds', s')"
  shows "\<exists>v. ds' name = Some (c\<lparr>cv_val := v\<rparr>) \<and>
    (if valid_name name \<and> (\<exists>p x. readable_at (parse (cv_type c)) emit root name p x)
     then \<exists>p. readable_at (parse (cv_type c)) emit root name p v \<and>
       (\<forall>q x. readable_at (parse (cv_type c)) emit root name q x \<longrightarrow> q = p \<or> before q p)
     else v = cv_val c)"
proof -
  let ?parse = "parse (cv_type c)"
  define ps where "ps = map (\<lambda>x. (fst x, node_text emit (snd (snd x))))
      (filter (\<lambda>x. valid_name name \<and> node_name (fst (snd x)) = name) (document root))"
  have texts: "map (\<lambda>i. node_text emit (snd i)) (filter (\<lambda>i. fst i = name) (ListAllMember [] root)) = map snd ps"
    unfolding ps_def listed_document listed_def extend_name
    by (auto simp: filter_map o_def intro!: filter_cong arg_cong [where f = "map _"])
  have val: "ds' name = Some (c\<lparr>cv_val := last_readable ?parse (map snd ps) (cv_val c)\<rparr>)"
    using load_all [of ds name c "ListAllMember [] root" parse emit s ds' s'] assms listed_names_valid texts
    unfolding LoadFromYaml_def by metis
  have mem: "(p, t) \<in> set ps \<longleftrightarrow>
      valid_name name \<and> (\<exists>ks n. node_at root p = Some (ks, n) \<and> node_name ks = name \<and> t = node_text emit n)" for p t
    unfolding ps_def by (force simp flip: document_at)
  have "map fst ps = map fst (filter (\<lambda>x. valid_name name \<and> node_name (fst (snd x)) = name) (document root))"
    by (simp add: ps_def)
  then have "sorted_wrt before (map fst ps)"
    using document_sorted [of root] by (simp add: sorted_wrt_map sorted_wrt_filter)
  note last = last_readable_sorted [OF this, of ?parse "cv_val c"]
  let ?R = "readable_at ?parse emit root name" and ?w = "last_readable ?parse (map snd ps) (cv_val c)"
  have R: "valid_name name \<and> ?R p x \<longleftrightarrow> (\<exists>t. (p, t) \<in> set ps \<and> ?parse t = Inr x)" for p x
    unfolding mem readable_at_def by auto
  have "if valid_name name \<and> (\<exists>p x. ?R p x)
     then \<exists>p. ?R p ?w \<and> (\<forall>q x. ?R q x \<longrightarrow> q = p \<or> before q p) else ?w = cv_val c"
    using last
  proof (elim disjE exE conjE)
    fix p t v
    assume a: "(p, t) \<in> set ps" "?parse t = Inr v" "?w = v"
      "\<forall>q t' v'. (q, t') \<in> set ps \<longrightarrow> ?parse t' = Inr v' \<longrightarrow> q = p \<or> before q p"
    then have v: "valid_name name" "?R p v" using R by blast+
    moreover have "\<forall>q x. ?R q x \<longrightarrow> q = p \<or> before q p" using R a(4) v(1) by blast
    ultimately show ?thesis using a(3) by auto
  next
    assume "\<forall>(p, t) \<in> set ps. \<exists>e. ?parse t = Inl e" "?w = cv_val c"
    moreover from this have "\<not> (valid_name name \<and> ?R p x)" for p x using R by fastforce
    ultimately show ?thesis by auto
  qed
  then show ?thesis using val by blast
qed

theorem load_last_wins_witness:
  "let root = NMap [(str ''tcp'', NMap [(str ''port'', NScalar (str ''80'')), (str ''x'', NOther []),
         (str ''port'', NScalar (str ''81''))]), (str ''tcp_port'', NScalar (str ''82''))];
       c = new_config_var (str ''tcp.port'') 0 [] [] :: (bytes, unit) config_var;
       ds = [str ''tcp.port'' \<mapsto> c]
   in fst (LoadFromYaml (\<lambda>ty t. Inr t) (\<lambda>n. []) root (ds, ())) (str ''tcp.port'') =
     Some (c\<lparr>cv_val := str ''81''\<rparr>)"
proof -
  let ?root = "NMap [(str ''tcp'', NMap [(str ''port'', NScalar (str ''80'')), (str ''x'', NOther []),
         (str ''port'', NScalar (str ''81''))]), (str ''tcp_port'', NScalar (str ''82''))]"
  let ?c = "new_config_var (str ''tcp.port'') 0 [] [] :: (bytes, unit) config_var"
  let ?ds = "[str ''tcp.port'' \<mapsto> ?c]" and ?name = "str ''tcp.port''"
  let ?load = "LoadFromYaml (\<lambda>ty t. Inr t) (\<lambda>n. []) ?root (?ds, ())"
  have run: "?load = (fst ?load, snd ?load)" by (rule prod.collapse [symmetric])
  have at: "readable_at (\<lambda>t. Inr t) (\<lambda>n. []) ?root ?name p x \<longleftrightarrow>
      p = [0, 0] \<and> x = str ''80'' \<or> p = [0, 2] \<and> x = str ''81''" for p x
  proof -
    have "node_name [] \<noteq> ?name" "node_name [str ''tcp''] \<noteq> ?name" "node_name [str ''tcp_port''] \<noteq> ?name"
      "node_name [str ''tcp'', str ''x''] \<noteq> ?name" "node_name [str ''tcp'', str ''port''] = ?name"
      by (simp_all add: node_name_def str_def)
    then have "[y \<leftarrow> document ?root. node_name (fst (snd y)) = ?name] =
        [([0, 0], [str ''tcp'', str ''port''], NScalar (str ''80'')), ([0, 2], [str ''tcp'', str ''port''], NScalar (str ''81''))]"
      by (simp only: document_NMap document_leaf below_def blocks.simps list.map append.simps filter.simps fst_conv snd_conv
          if_True if_False refl One_nat_def numeral_2_eq_2)
    moreover have "readable_at (\<lambda>t. Inr t) (\<lambda>n. []) ?root ?name p x \<longleftrightarrow>
        (\<exists>y \<in> set [y \<leftarrow> document ?root. node_name (fst (snd y)) = ?name]. fst y = p \<and> node_text (\<lambda>n. []) (snd (snd y)) = x)"
      unfolding readable_at_def document_at [symmetric] by force
    ultimately show ?thesis by (auto simp: node_text_def)
  qed
  have valid: "valid_name ?name" by (simp add: valid_name_iff str_def name_chars_def)
  have "?ds ?name = Some ?c" "never_throws ?c" "?name \<noteq> []"
    by (simp_all add: never_throws_def new_config_var_def str_def)
  from load_last_wins [OF this run] obtain v where v: "fst ?load ?name = Some (?c\<lparr>cv_val := v\<rparr>)"
    and last: "if valid_name ?name \<and> (\<exists>p x. readable_at (\<lambda>t. Inr t) (\<lambda>n. []) ?root ?name p x)
     then \<exists>p. readable_at (\<lambda>t. Inr t) (\<lambda>n. []) ?root ?name p v \<and>
       (\<forall>q x. readable_at (\<lambda>t. Inr t) (\<lambda>n. []) ?root ?name q x \<longrightarrow> q = p \<or> before q p)
     else v = cv_val ?c" by blast
  have "\<exists>p x. readable_at (\<lambda>t. Inr t) (\<lambda>n. []) ?root ?name p x" unfolding at by blast
  with last valid obtain p where p: "p = [0, 0] \<and> v = str ''80'' \<or> p = [0, 2] \<and> v = str ''81''"
    "\<forall>q x. readable_at (\<lambda>t. Inr t) (\<lambda>n. []) ?root ?name q x \<longrightarrow> q = p \<or> before q p"
    unfolding at by (metis (no_types, lifting))
  from p(2) have "[0, 2] = p \<or> before [0, 2] p" unfolding at by blast
  with p(1) have "v = str ''81''" by auto
  with v show ?thesis unfolding Let_def by simp
qed

text \<open>The alphabet of names has every letter and digit but the nine: a name with a nine is refused
  where a variable is made, and while loading a tree the node under such a key is skipped with
  everything below it.\<close>

theorem names_with_nine_refused:
  assumes "0x39 \<in> set name"
  shows "(ds name = None \<longrightarrow> Lookup_default ty name v des ds = Inl Thrown) \<and>
    ListAllMember name node = []"
proof -
  have "\<not> valid_name name"
    using assms by (auto simp: valid_name_iff name_chars_def)
  then show ?thesis by (simp add: Lookup_default_def ListAllMember.simps [of name])
qed

theorem names_with_nine_refused_witness:
  "Lookup_default 0 (str ''port9'') (0 :: nat) [] (\<lambda>_. None :: (nat, unit) config_var option) = Inl Thrown"
  using names_with_nine_refused [of "str ''port9''" "\<lambda>_. None :: (nat, unit) config_var option" 0 0 "[]"]
  by (simp add: str_def)

section \<open>Containers\<close>

definition yaml_io_laws :: "'y yaml_io \<Rightarrow> bool" where
  "yaml_io_laws Y \<longleftrightarrow>
     (\<forall>n. y_load Y (y_emit Y n) = Inr n) \<and> (\<forall>ns. y_elems Y (y_seq Y ns) = ns) \<and>
     (\<forall>kvs. distinct (map fst kvs) \<longrightarrow> y_entries Y (y_map Y kvs) = kvs)"

definition converts :: "'y yaml_io \<Rightarrow> ('a \<Rightarrow> bytes res) \<Rightarrow> (bytes \<Rightarrow> 'a res) \<Rightarrow> bool" where
  "converts Y to from \<longleftrightarrow>
     (\<forall>x. \<exists>t n. to x = Inr t \<and> y_load Y t = Inr n \<and> from (y_emit Y n) = Inr x)"

lemma write_elems_ok:
  assumes "converts Y to from"
  shows "\<exists>ns. write_elems Y to xs = Inr ns \<and>
    (\<forall>ins c. read_elems Y from ins ns c = Inr (fold ins xs c))"
proof (induction xs)
  case (Cons x xs)
  obtain t n where x: "to x = Inr t" "y_load Y t = Inr n" "from (y_emit Y n) = Inr x"
    using assms unfolding converts_def by blast
  then show ?case using Cons by auto
qed simp

lemma write_entries_ok:
  assumes "converts Y to from"
  shows "\<exists>ns. write_entries Y to kvs = Inr ns \<and> map fst ns = map fst kvs \<and>
    (\<forall>ins c. read_entries Y from ins ns c = Inr (fold (\<lambda>(k, x). ins k x) kvs c))"
proof (induction kvs)
  case (Cons p kvs)
  obtain k x where p: "p = (k, x)" by fastforce
  obtain t n where x: "to x = Inr t" "y_load Y t = Inr n" "from (y_emit Y n) = Inr x"
    using assms unfolding converts_def by blast
  then show ?case using Cons p by auto
qed simp

lemma fold_push_back: "fold (\<lambda>x c. c @ [x]) xs c = c @ xs"
  by (induction xs arbitrary: c) auto

lemma emplace_elem_last:
  assumes "asymp lt" "\<forall>y \<in> set ys. lt y x"
  shows "emplace_elem lt x ys = ys @ [x]"
  using assms(2) by (induction ys) (use assms(1) in \<open>auto dest: asympD\<close>)

lemma fold_emplace:
  assumes "asymp lt" "sorted_wrt lt (ys @ xs)"
  shows "fold (emplace_elem lt) xs ys = ys @ xs"
  using assms(2)
proof (induction xs arbitrary: ys)
  case (Cons x xs)
  then have "emplace_elem lt x ys = ys @ [x]"
    by (intro emplace_elem_last [OF assms(1)]) (simp add: sorted_wrt_append)
  then show ?case using Cons.IH [of "ys @ [x]"] Cons.prems by simp
qed simp

lemma map_insert_last:
  "\<forall>p \<in> set m. fst p < k \<Longrightarrow> map_insert k v m = m @ [(k, v)]"
proof -
  assume less: "\<forall>p \<in> set m. fst p < k"
  then have "map_get k m = None" by (auto simp: map_of_eq_None_iff)
  moreover have "map_put k v m = m @ [(k, v)]" using less by (induction m) auto
  ultimately show ?thesis by (simp add: map_insert_def)
qed

lemma fold_map_insert:
  "sorted_map (m @ kvs) \<Longrightarrow> fold (\<lambda>(k, x). map_insert k x) kvs m = m @ kvs"
proof (induction kvs arbitrary: m)
  case (Cons p kvs)
  obtain k x where p: "p = (k, x)" by fastforce
  have "map_insert k x m = m @ [(k, x)]"
    using Cons.prems p by (intro map_insert_last) (auto simp: sorted_map_def sorted_wrt_append)
  then show ?case using Cons.IH [of "m @ [(k, x)]"] Cons.prems p by simp
qed simp

text \<open>A vector, a set and a map that are written as YAML are read back as they were, when the
  elements are and the library reads what it wrote.\<close>

theorem container_roundtrip:
  fixes v :: "'b list" and m :: "(bytes, 'b) std_map"
  assumes Y: "yaml_io_laws Y" and conv: "converts Y to from"
  shows "bindE (vector_to_string Y to v) (vector_from_string Y from) = Inr v \<and>
    (asymp lt \<and> sorted_wrt lt v \<longrightarrow>
     bindE (set_to_string Y to v) (set_from_string Y lt from) = Inr v) \<and>
    (sorted_map m \<longrightarrow> bindE (map_to_string Y to m) (map_from_string Y from) = Inr m)"
proof (intro conjI impI)
  have y: "y_load Y (y_emit Y n) = Inr n" "y_elems Y (y_seq Y ns) = ns" for n ns
    using Y by (simp_all add: yaml_io_laws_def)
  obtain ns where ns: "write_elems Y to v = Inr ns"
    "\<And>ins (c :: 'b list). read_elems Y from ins ns c = Inr (fold ins v c)"
    using write_elems_ok [OF conv] by blast
  show "bindE (vector_to_string Y to v) (vector_from_string Y from) = Inr v"
    by (simp add: vector_to_string_def vector_from_string_def ns y fold_push_back)
  show "bindE (set_to_string Y to v) (set_from_string Y lt from) = Inr v"
    if lt: "asymp lt \<and> sorted_wrt lt v"
    using fold_emplace [of lt "[]" v] lt
    by (simp add: set_to_string_def set_from_string_def ns y)
  obtain kvs where kvs: "write_entries Y to m = Inr kvs" "map fst kvs = map fst m"
    "\<And>ins (c :: (bytes, 'b) std_map). read_entries Y from ins kvs c = Inr (fold (\<lambda>(k, x). ins k x) m c)"
    using write_entries_ok [OF conv] by blast
  show "bindE (map_to_string Y to m) (map_from_string Y from) = Inr m" if m: "sorted_map m"
  proof -
    have "distinct (map fst kvs)" using sorted_map_distinct [OF m] kvs(2) by simp
    then have "y_entries Y (y_map Y kvs) = kvs" using Y by (simp add: yaml_io_laws_def)
    then show ?thesis
      using fold_map_insert [of "[]" m] m
      by (simp add: map_to_string_def map_from_string_def kvs y)
  qed
qed

text \<open>A concrete notation: a byte \<open>b\<close> of an element is \<open>1 b\<close>, and \<open>0\<close> ends an element.\<close>

definition pack :: "bytes list \<Rightarrow> bytes" where
  "pack ns = concat (map (\<lambda>n. concat (map (\<lambda>b. [1, b]) n) @ [0]) ns)"

fun unpack :: "bytes \<Rightarrow> bytes \<Rightarrow> bytes list" where
  "unpack n (c # cs) =
     (if c = 0 then n # unpack [] cs else case cs of [] \<Rightarrow> [] | b # bs \<Rightarrow> unpack (n @ [b]) bs)"
| "unpack n [] = []"

fun pairs :: "bytes list \<Rightarrow> (bytes \<times> bytes) list" where
  "pairs (k # v # xs) = (k, v) # pairs xs"
| "pairs xs = []"

lemma unpack_elem: "unpack n (concat (map (\<lambda>b. [1, b]) m) @ 0 # rest) = (n @ m) # unpack [] rest"
  by (induction m arbitrary: n) auto

lemma unpack_pack: "unpack [] (pack ns) = ns"
  by (induction ns) (simp_all add: pack_def unpack_elem)

lemma pairs_concat: "pairs (concat (map (\<lambda>(k, v). [k, v]) kvs)) = kvs"
  by (induction kvs) auto

theorem container_roundtrip_witness:
  "\<exists>Y :: bytes yaml_io. bindE (set_to_string Y Inr [[1], [1, 2]]) (set_from_string Y (<) Inr) =
     Inr [[1], [1, 2 :: u8]]"
proof -
  let ?Y = "\<lparr>y_load = Inr, y_emit = (\<lambda>n. n), y_elems = unpack [], y_seq = pack,
    y_entries = (\<lambda>n. pairs (unpack [] n)), y_map = (\<lambda>kvs. pack (concat (map (\<lambda>(k, v). [k, v]) kvs)))\<rparr>"
  have "yaml_io_laws ?Y" "converts ?Y Inr Inr"
    by (simp_all add: yaml_io_laws_def converts_def unpack_pack pairs_concat)
  moreover have "asymp ((<) :: bytes \<Rightarrow> bytes \<Rightarrow> bool)" by (rule asympI) simp
  moreover have "sorted_wrt (<) [[1], [1, 2 :: u8]]" by simp
  ultimately show ?thesis using container_roundtrip [of ?Y Inr Inr] by blast
qed

end
