(* ===== verification/Env.thy ===== *)
theory Env
  imports TextOut
begin

text \<open>
  Arguments and help texts of the program (\<open>src/Env.cpp\<close>). The name of the executable is what
  \<open>readlink\<close> gave; the process environment is an argument of \<open>getEnv\<close>.
\<close>

section \<open>State\<close>

record env =
  ev_args :: "bytes \<Rightarrow> bytes option"
  ev_helps :: "(bytes \<times> bytes) list"
  ev_program :: bytes
  ev_exe :: bytes
  ev_cwd :: bytes

definition new_env :: env where
  "new_env = \<lparr>ev_args = (\<lambda>_. None), ev_helps = [], ev_program = [], ev_exe = [], ev_cwd = []\<rparr>"

definition env_add :: "bytes \<Rightarrow> bytes \<Rightarrow> env \<Rightarrow> env" where
  "env_add key v e = e\<lparr>ev_args := (ev_args e)(key \<mapsto> v)\<rparr>"

definition env_hasKey :: "bytes \<Rightarrow> env \<Rightarrow> bool" where
  "env_hasKey key e \<longleftrightarrow> ev_args e key \<noteq> None"

definition env_del :: "bytes \<Rightarrow> env \<Rightarrow> env" where
  "env_del key e = e\<lparr>ev_args := (ev_args e)(key := None)\<rparr>"

definition env_get :: "bytes \<Rightarrow> bytes \<Rightarrow> env \<Rightarrow> bytes" where
  "env_get key default_val e = (case ev_args e key of Some v \<Rightarrow> v | None \<Rightarrow> default_val)"

section \<open>The command line\<close>

text \<open>
  The loop over \<open>argv[1]\<close>, \<open>argv[2]\<close>, ... with \<open>now_key\<close>: whether it returned before its end, and the
  state.
\<close>

fun env_args_loop :: "bytes option \<Rightarrow> bytes list \<Rightarrow> env \<Rightarrow> bool \<times> env" where
  "env_args_loop now_key [] e =
     (True, case now_key of None \<Rightarrow> e | Some k \<Rightarrow> env_add k [] e)"
| "env_args_loop now_key (a # as) e =
     (if a \<noteq> [] \<and> hd a = 0x2D then
        if length a > 1 then
          env_args_loop (Some (tl a)) as (case now_key of None \<Rightarrow> e | Some k \<Rightarrow> env_add k [] e)
        else (False, e)
      else
        case now_key of
          Some k \<Rightarrow> env_args_loop None as (env_add k a e)
        | None \<Rightarrow> (False, e))"

text \<open>\<open>find_last_of("/")\<close>; without a slash \<open>substr(0, npos)\<close> is the whole name.\<close>

definition dir_of :: "bytes \<Rightarrow> bytes" where
  "dir_of exe =
     (if 0x2F \<in> set exe then rev (tl (dropWhile (\<lambda>c. c \<noteq> 0x2F) (rev exe))) else exe)"

definition env_init :: "bytes \<Rightarrow> bytes list \<Rightarrow> env \<Rightarrow> bool \<times> env" where
  "env_init exe argv e =
     env_args_loop None (tl argv)
       (e\<lparr>ev_exe := exe, ev_cwd := dir_of exe @ [0x2F], ev_program := hd argv\<rparr>)"

section \<open>Help\<close>

definition removeHelp :: "bytes \<Rightarrow> env \<Rightarrow> env" where
  "removeHelp key e = e\<lparr>ev_helps := filter (\<lambda>h. fst h \<noteq> key) (ev_helps e)\<rparr>"

definition addHelpInfo :: "bytes \<Rightarrow> bytes \<Rightarrow> env \<Rightarrow> env" where
  "addHelpInfo key desc e =
     (let e1 = removeHelp key e in e1\<lparr>ev_helps := ev_helps e1 @ [(key, desc)]\<rparr>)"

text \<open>\<open>red\<close> and \<open>none\<close> are the colour macros; \<open>setw(5)\<close> pads the hyphen.\<close>

definition printHelp :: "bytes \<Rightarrow> bytes \<Rightarrow> env \<Rightarrow> bytes" where
  "printHelp red none e =
     red @ str ''Usage: '' @ ev_program e @ str '' [options]'' @ none @ endl @
     concat (map (\<lambda>h. str ''    -'' @ fst h @ str '' : '' @ snd h @ endl) (ev_helps e))"

section \<open>Environment and paths\<close>

definition getEnv :: "(bytes \<Rightarrow> bytes option) \<Rightarrow> bytes \<Rightarrow> bytes \<Rightarrow> bytes" where
  "getEnv environ key default_val = (case environ key of None \<Rightarrow> default_val | Some v \<Rightarrow> v)"

definition getAbsolutePath :: "bytes \<Rightarrow> env \<Rightarrow> bytes" where
  "getAbsolutePath path e =
     (if path = [] then str ''/'' else if hd path = 0x2F then path else ev_cwd e @ path)"

definition getConfigPath :: "env \<Rightarrow> bytes" where
  "getConfigPath e = getAbsolutePath (env_get (str ''c'') (str ''conf'') e) e"

section \<open>What the command line gives\<close>

text \<open>An option of a command line: a name, and a value that does not start with a hyphen, or none.\<close>

type_synonym cl_option = "bytes \<times> bytes option"

definition option_ok :: "cl_option \<Rightarrow> bool" where
  "option_ok p \<longleftrightarrow> fst p \<noteq> [] \<and> (\<forall>v. snd p = Some v \<longrightarrow> v = [] \<or> hd v \<noteq> 0x2D)"

definition option_words :: "cl_option \<Rightarrow> bytes list" where
  "option_words p = (0x2D # fst p) # (case snd p of None \<Rightarrow> [] | Some v \<Rightarrow> [v])"

definition option_value :: "cl_option \<Rightarrow> bytes" where
  "option_value p = (case snd p of None \<Rightarrow> [] | Some v \<Rightarrow> v)"

definition add_options :: "cl_option list \<Rightarrow> env \<Rightarrow> env" where
  "add_options ps e = fold (\<lambda>p. env_add (fst p) (option_value p)) ps e"

lemma args_loop_options:
  assumes "\<forall>p \<in> set ps. option_ok p"
  shows "env_args_loop now_key (concat (map option_words ps)) e =
    (True, add_options ps (case now_key of None \<Rightarrow> e | Some k \<Rightarrow> env_add k [] e))"
  using assms
proof (induction ps arbitrary: now_key e)
  case (Cons p ps)
  obtain name v where p: "p = (name, v)" by fastforce
  let ?e = "case now_key of None \<Rightarrow> e | Some k \<Rightarrow> env_add k [] e"
  have name: "name \<noteq> []" using Cons.prems p by (auto simp: option_ok_def)
  show ?case
  proof (cases v)
    case None
    then show ?thesis
      using name p Cons.IH [of "Some name" ?e] Cons.prems
      by (simp add: option_words_def add_options_def option_value_def)
  next
    case (Some x)
    then have "\<not> (x \<noteq> [] \<and> hd x = 0x2D)" using Cons.prems p by (auto simp: option_ok_def)
    then show ?thesis
      using name p Some Cons.IH [of None "env_add name x ?e"] Cons.prems
      by (auto simp: option_words_def add_options_def option_value_def)
  qed
qed (simp add: add_options_def)

lemma add_options_get:
  "ev_args (add_options ps e) key =
   (case filter (\<lambda>p. fst p = key) ps of [] \<Rightarrow> ev_args e key | qs \<Rightarrow> Some (option_value (last qs)))"
  by (induction ps arbitrary: e) (auto simp: add_options_def env_add_def split: list.splits)

text \<open>A command line of options, each a hyphen with a name and possibly a value that does not start
  with a hyphen, is accepted, and \<open>get\<close> gives the value of the last option with the name (nothing
  for one without a value), or else the default.\<close>

theorem command_line_options:
  assumes "\<forall>p \<in> set ps. option_ok p"
    and "env_init exe (program # concat (map option_words ps)) new_env = (ok, e)"
  shows "ok \<and> env_get key default_val e =
    (case filter (\<lambda>p. fst p = key) ps of [] \<Rightarrow> default_val | qs \<Rightarrow> option_value (last qs))"
proof -
  have "ok" "e = add_options ps (new_env\<lparr>ev_exe := exe, ev_cwd := dir_of exe @ [0x2F],
      ev_program := program\<rparr>)"
    using assms(2) args_loop_options [OF assms(1), of None] by (simp_all add: env_init_def)
  then show ?thesis
    by (simp add: env_get_def add_options_get new_env_def split: list.split)
qed

theorem command_line_options_witness:
  "env_get (str ''c'') [] (snd (env_init (str ''/a/b'') [str ''b'', str ''-c'', str ''x'', str ''-d''] new_env)) =
   str ''x''"
proof -
  let ?ps = "[(str ''c'', Some (str ''x'')), (str ''d'', None)] :: cl_option list"
  have ok: "\<forall>p \<in> set ?ps. option_ok p" by (simp add: option_ok_def str_def)
  have words: "str ''b'' # concat (map option_words ?ps) =
      [str ''b'', str ''-c'', str ''x'', str ''-d'']"
    by (simp add: option_words_def str_def)
  let ?r = "env_init (str ''/a/b'') (str ''b'' # concat (map option_words ?ps)) new_env"
  have "?r = (fst ?r, snd ?r)" by simp
  from command_line_options [OF ok this, of "str ''c''" "[]"] show ?thesis
    unfolding words by (simp add: option_value_def str_def)
qed

end
