(* ===== verification/Address.thy ===== *)
theory Address
  imports EndianWords TextOut
begin

text \<open>
  Socket addresses (\<open>src/Address.cpp\<close>). The structures of the system are records of their fields; their
  images in memory are lists of bytes, on the little-endian host. \<open>getaddrinfo\<close>, \<open>getifaddrs\<close> and
  \<open>inet_pton\<close> are arguments: what they return.
\<close>

unbundle bit_operations_syntax

section \<open>Structures\<close>

definition AF_UNSPEC :: u16 where "AF_UNSPEC = 0"
definition AF_UNIX :: u16 where "AF_UNIX = 1"
definition AF_INET :: u16 where "AF_INET = 2"
definition AF_INET6 :: u16 where "AF_INET6 = 10"

lemmas families = AF_UNSPEC_def AF_UNIX_def AF_INET_def AF_INET6_def

record sockaddr_in =
  sin_family :: u16
  sin_port :: u16
  s_addr :: u32
  sin_zero :: bytes

record sockaddr_in6 =
  sin6_family :: u16
  sin6_port :: u16
  sin6_flowinfo :: u32
  s6_addr :: bytes
  sin6_scope_id :: u32

record sockaddr_un =
  sun_family :: u16
  sun_path :: bytes

record sockaddr_any =
  sa_family :: u16
  sa_data :: bytes

datatype address =
    IPv4Address sockaddr_in | IPv6Address sockaddr_in6
  | UnixAddress sockaddr_un u32 | UnknownAddress sockaddr_any

fun getAddr :: "address \<Rightarrow> bytes" where
  "getAddr (IPv4Address a) =
     le_bytes 2 (sin_family a) @ le_bytes 2 (sin_port a) @ le_bytes 4 (s_addr a) @ sin_zero a"
| "getAddr (IPv6Address a) =
     le_bytes 2 (sin6_family a) @ le_bytes 2 (sin6_port a) @ le_bytes 4 (sin6_flowinfo a) @
     s6_addr a @ le_bytes 4 (sin6_scope_id a)"
| "getAddr (UnixAddress a n) = le_bytes 2 (sun_family a) @ sun_path a"
| "getAddr (UnknownAddress a) = le_bytes 2 (sa_family a) @ sa_data a"

fun getAddrLen :: "address \<Rightarrow> nat" where
  "getAddrLen (IPv4Address a) = 16"
| "getAddrLen (IPv6Address a) = 28"
| "getAddrLen (UnixAddress a n) = unat n"
| "getAddrLen (UnknownAddress a) = 16"

fun getFamily :: "address \<Rightarrow> u16" where
  "getFamily (IPv4Address a) = sin_family a"
| "getFamily (IPv6Address a) = sin6_family a"
| "getFamily (UnixAddress a n) = sun_family a"
| "getFamily (UnknownAddress a) = sa_family a"

section \<open>Comparing\<close>

fun memcmp :: "bytes \<Rightarrow> bytes \<Rightarrow> int" where
  "memcmp (a # as) (b # bs) = (if a < b then -1 else if b < a then 1 else memcmp as bs)"
| "memcmp as bs = 0"

definition address_less :: "address \<Rightarrow> address \<Rightarrow> bool" where
  "address_less a b =
     (let minlen = min (getAddrLen a) (getAddrLen b);
          r = memcmp (take minlen (getAddr a)) (take minlen (getAddr b))
      in if r < 0 then True
         else if r > 0 then False
         else if getAddrLen a < getAddrLen b then True
         else True)"

definition address_eq :: "address \<Rightarrow> address \<Rightarrow> bool" where
  "address_eq a b \<longleftrightarrow>
     getAddrLen a = getAddrLen b \<and>
     memcmp (take (getAddrLen a) (getAddr a)) (take (getAddrLen a) (getAddr b)) = 0"

definition address_neq :: "address \<Rightarrow> address \<Rightarrow> bool" where
  "address_neq a b \<longleftrightarrow> \<not> address_eq a b"

section \<open>Masks\<close>

text \<open>
  \<open>CreateMask\<close> for a type of \<open>n\<close> bits. The shift and the subtraction are done with \<open>int\<close>: a shift by
  32 or more is undefined, and so is \<open>(1 << 31) - 1\<close>.
\<close>

definition CreateMask :: "nat \<Rightarrow> nat \<Rightarrow> 'a::len word res" where
  "CreateMask n bits =
     (if n < bits \<or> 31 \<le> n - bits then Inl ArithUB else Inr (of_nat (2 ^ (n - bits) - 1)))"

function count_loop :: "'a::len word \<Rightarrow> u32 \<Rightarrow> u32" where
  "count_loop v r = (if v = 0 then r else count_loop (v AND (v - 1)) (r + 1))"
  by pat_completeness auto
termination
proof (relation "measure (\<lambda>(v, r). unat v)")
  fix v :: "'a::len word" and r :: u32
  assume v: "v \<noteq> 0"
  have "v AND (v - 1) \<le> v - 1" by (rule word_and_le1)
  also have "v - 1 < v"
  proof -
    have "unat v \<noteq> 0" using v by (simp add: unat_eq_zero)
    then show ?thesis using v by (simp add: word_less_nat_alt unat_minus_one)
  qed
  finally show "((v AND (v - 1), r + 1), v, r) \<in> measure (\<lambda>(v, r). unat v)"
    by (simp add: word_less_nat_alt)
qed simp

declare count_loop.simps [simp del]

definition CountBytes :: "'a::len word \<Rightarrow> u32" where
  "CountBytes v = count_loop v 0"

section \<open>IPv4\<close>

definition new_IPv4Address :: "u32 \<Rightarrow> u16 \<Rightarrow> sockaddr_in" where
  "new_IPv4Address addr port =
     \<lparr>sin_family = AF_INET, sin_port = byteswapOnLittleEndian 2 port,
      s_addr = byteswapOnLittleEndian 4 addr, sin_zero = replicate 8 0\<rparr>"

definition IPv4_insert :: "sockaddr_in \<Rightarrow> bytes" where
  "IPv4_insert a =
     (let addr = byteswapOnLittleEndian 4 (s_addr a)
      in decimal (unat (drop_bit 24 addr AND 0xff)) @ str ''.'' @
         decimal (unat (drop_bit 16 addr AND 0xff)) @ str ''.'' @
         decimal (unat (drop_bit 8 addr AND 0xff)) @ str ''.'' @
         decimal (unat (addr AND 0xff)) @ str '':'' @
         decimal (unat (byteswapOnLittleEndian 2 (sin_port a))))"

text \<open>\<open>None\<close> is a null pointer.\<close>

definition IPv4_broadcastAddress :: "u32 \<Rightarrow> sockaddr_in \<Rightarrow> sockaddr_in option res" where
  "IPv4_broadcastAddress prefix_len a =
     (if prefix_len > 32 then Inr None
      else bindE (CreateMask 32 (unat prefix_len)) (\<lambda>mask_bits.
        Inr (Some (a\<lparr>s_addr := s_addr a OR byteswapOnLittleEndian 4 mask_bits\<rparr>))))"

definition IPv4_networkAddress :: "u32 \<Rightarrow> sockaddr_in \<Rightarrow> sockaddr_in option res" where
  "IPv4_networkAddress prefix_len a =
     (if prefix_len > 32 then Inr None
      else bindE (CreateMask 32 (unat prefix_len)) (\<lambda>mask_bits.
        Inr (Some (a\<lparr>s_addr := s_addr a AND byteswapOnLittleEndian 4 mask_bits\<rparr>))))"

definition IPv4_subnetMask :: "u32 \<Rightarrow> sockaddr_in res" where
  "IPv4_subnetMask prefix_len =
     bindE (CreateMask 32 (unat prefix_len)) (\<lambda>mask_bits.
       Inr \<lparr>sin_family = AF_INET, sin_port = 0, s_addr = NOT (byteswapOnLittleEndian 4 mask_bits),
            sin_zero = replicate 8 0\<rparr>)"

text \<open>\<open>byteswapOnLittleEndian<uint32_t>(port)\<close> is assigned to a field of 16 bits.\<close>

definition IPv4_Create :: "(bytes \<Rightarrow> u32 option) \<Rightarrow> bytes \<Rightarrow> u16 \<Rightarrow> sockaddr_in option" where
  "IPv4_Create inet_pton addr port =
     (let ret = (new_IPv4Address 0 0)\<lparr>sin_port := ucast (byteswapOnLittleEndian 4 (ucast port :: u32))\<rparr>
      in case inet_pton addr of None \<Rightarrow> None | Some s \<Rightarrow> Some (ret\<lparr>s_addr := s\<rparr>))"

definition IPv4_getPort :: "sockaddr_in \<Rightarrow> u32" where
  "IPv4_getPort a = ucast (byteswapOnLittleEndian 2 (sin_port a))"

definition IPv4_setPort :: "u16 \<Rightarrow> sockaddr_in \<Rightarrow> sockaddr_in" where
  "IPv4_setPort v a = a\<lparr>sin_port := byteswapOnLittleEndian 2 v\<rparr>"

section \<open>IPv6\<close>

definition new_IPv6Address :: "bytes \<Rightarrow> u16 \<Rightarrow> sockaddr_in6" where
  "new_IPv6Address addr port =
     \<lparr>sin6_family = AF_INET6, sin6_port = byteswapOnLittleEndian 2 port, sin6_flowinfo = 0,
      s6_addr = addr, sin6_scope_id = 0\<rparr>"

definition IPv6_Create :: "(bytes \<Rightarrow> bytes option) \<Rightarrow> bytes \<Rightarrow> u16 \<Rightarrow> sockaddr_in6 option" where
  "IPv6_Create inet_pton addr port =
     (let ret = (new_IPv6Address (replicate 16 0) 0)
            \<lparr>sin6_port := ucast (byteswapOnLittleEndian 4 (ucast port :: u32))\<rparr>
      in case inet_pton addr of None \<Rightarrow> None | Some s \<Rightarrow> Some (ret\<lparr>s6_addr := s\<rparr>))"

text \<open>The group \<open>i\<close> as \<open>addr[i]\<close> reads it from memory.\<close>

definition group :: "bytes \<Rightarrow> nat \<Rightarrow> u16" where
  "group addr i = le_word (take 2 (drop (2 * i) addr))"

text \<open>The loop from the index \<open>i\<close> on, with \<open>used_zeros\<close>: the text and the final \<open>used_zeros\<close>.\<close>

function IPv6_groups :: "bytes \<Rightarrow> nat \<Rightarrow> bool \<Rightarrow> bytes \<times> bool" where
  "IPv6_groups addr i used_zeros =
     (if 8 \<le> i then ([], used_zeros)
      else if group addr i = 0 \<and> \<not> used_zeros then IPv6_groups addr (i + 1) used_zeros
      else
        let gap = (i \<noteq> 0 \<and> group addr (i - 1) = 0 \<and> \<not> used_zeros);
            (rest, used) = IPv6_groups addr (i + 1) (used_zeros \<or> gap)
        in ((if gap then str '':'' else []) @ (if i \<noteq> 0 then str '':'' else []) @
            decimal (unat (byteswapOnLittleEndian 2 (group addr i))) @ rest, used))"
  by pat_completeness auto
termination by (relation "measure (\<lambda>(addr, i, u). 8 - i)") auto

declare IPv6_groups.simps [simp del]

definition IPv6_insert :: "sockaddr_in6 \<Rightarrow> bytes" where
  "IPv6_insert a =
     (let (text, used_zeros) = IPv6_groups (s6_addr a) 0 False
      in str ''['' @ text @ (if \<not> used_zeros \<and> group (s6_addr a) 7 = 0 then str ''::'' else []) @
         str '']:'' @ decimal (unat (byteswapOnLittleEndian 2 (sin6_port a))))"

text \<open>The byte at \<open>prefix_len / 8\<close> is changed by \<open>f\<close> with the mask, and the bytes behind it are set.\<close>

definition IPv6_masked :: "(u8 \<Rightarrow> u8 \<Rightarrow> u8) \<Rightarrow> u8 \<Rightarrow> u32 \<Rightarrow> bytes \<Rightarrow> bytes res" where
  "IPv6_masked f fill prefix_len addr =
     (let k = unat prefix_len div 8
      in if length addr \<le> k then Inl BadIndex
         else bindE (CreateMask 8 (unat prefix_len mod 8)) (\<lambda>mask_bits.
           Inr (take k addr @ f (addr ! k) mask_bits # replicate (length addr - (k + 1)) fill)))"

definition IPv6_broadcastAddress :: "u32 \<Rightarrow> sockaddr_in6 \<Rightarrow> sockaddr_in6 res" where
  "IPv6_broadcastAddress prefix_len a =
     bindE (IPv6_masked (\<lambda>b m. b OR m) 0xff prefix_len (s6_addr a)) (\<lambda>bs. Inr (a\<lparr>s6_addr := bs\<rparr>))"

definition IPv6_networkAddress :: "u32 \<Rightarrow> sockaddr_in6 \<Rightarrow> sockaddr_in6 res" where
  "IPv6_networkAddress prefix_len a =
     bindE (IPv6_masked (\<lambda>b m. b AND m) 0 prefix_len (s6_addr a)) (\<lambda>bs. Inr (a\<lparr>s6_addr := bs\<rparr>))"

definition IPv6_subnetMask :: "u32 \<Rightarrow> sockaddr_in6 res" where
  "IPv6_subnetMask prefix_len =
     (let k = unat prefix_len div 8
      in if 16 \<le> k then Inl BadIndex
         else bindE (CreateMask 8 (unat prefix_len mod 8)) (\<lambda>mask_bits.
           Inr ((new_IPv6Address (replicate k 0xff @ NOT mask_bits # replicate (15 - k) 0) 0))))"

definition IPv6_getPort :: "sockaddr_in6 \<Rightarrow> u32" where
  "IPv6_getPort a = ucast (byteswapOnLittleEndian 2 (sin6_port a))"

definition IPv6_setPort :: "u16 \<Rightarrow> sockaddr_in6 \<Rightarrow> sockaddr_in6" where
  "IPv6_setPort v a = a\<lparr>sin6_port := byteswapOnLittleEndian 2 v\<rparr>"

section \<open>Local and unknown addresses\<close>

text \<open>\<open>sun_path\<close> has 108 bytes, behind 2 bytes of the family.\<close>

definition new_UnixAddress :: address where
  "new_UnixAddress = UnixAddress \<lparr>sun_family = AF_UNIX, sun_path = replicate 108 0\<rparr> (2 + 107)"

definition UnixAddress_path :: "bytes \<Rightarrow> address res" where
  "UnixAddress_path path =
     (let len = (if path \<noteq> [] \<and> hd path = 0 then length path else length path + 1)
      in if len > 108 then Inl Thrown
         else Inr (UnixAddress
           \<lparr>sun_family = AF_UNIX, sun_path = take len (path @ [0]) @ replicate (108 - len) 0\<rparr>
           (of_nat (len + 2))))"

definition setAddrLen :: "u32 \<Rightarrow> address \<Rightarrow> address" where
  "setAddrLen v a = (case a of UnixAddress u n \<Rightarrow> UnixAddress u v | b \<Rightarrow> b)"

definition c_string :: "bytes \<Rightarrow> bytes res" where
  "c_string bs = (if 0 \<in> set bs then Inr (takeWhile (\<lambda>c. c \<noteq> 0) bs) else Inl BadIndex)"

definition Unix_insert :: "sockaddr_un \<Rightarrow> u32 \<Rightarrow> bytes res" where
  "Unix_insert a n =
     (if n > 2 \<and> sun_path a ! 0 = 0
      then Inr (str [CHR 0x5C, CHR ''0''] @ take (unat n - 3) (tl (sun_path a)))
      else c_string (sun_path a))"

definition Unknown_insert :: "sockaddr_any \<Rightarrow> bytes res" where
  "Unknown_insert a =
     bindE (c_string (sa_data a)) (\<lambda>d.
       Inr (str ''[UnknownAddress family = '' @ decimal (unat (sa_family a)) @ str '' data = '' @ d))"

fun address_toString :: "address \<Rightarrow> bytes res" where
  "address_toString (IPv4Address a) = Inr (IPv4_insert a)"
| "address_toString (IPv6Address a) = Inr (IPv6_insert a)"
| "address_toString (UnixAddress a n) = Unix_insert a n"
| "address_toString (UnknownAddress a) = Unknown_insert a"

section \<open>Looking up\<close>

text \<open>
  \<open>Create\<close> takes the family of the structure as the variant: \<open>sockaddr\<close> is what the pointer shows.
\<close>

fun address_Create :: "address option \<Rightarrow> address option" where
  "address_Create None = None"
| "address_Create (Some (IPv4Address a)) = Some (IPv4Address a)"
| "address_Create (Some (IPv6Address a)) = Some (IPv6Address a)"
| "address_Create (Some (UnixAddress a n)) =
     Some (UnknownAddress \<lparr>sa_family = sun_family a, sa_data = take 14 (sun_path a)\<rparr>)"
| "address_Create (Some (UnknownAddress a)) = Some (UnknownAddress a)"

text \<open>The node and the service that \<open>Lookup\<close> takes out of \<open>host\<close>.\<close>

fun after :: "u8 \<Rightarrow> bytes \<Rightarrow> bytes option" where
  "after c [] = None"
| "after c (x # xs) = (if x = c then Some xs else after c xs)"

definition before :: "u8 \<Rightarrow> bytes \<Rightarrow> bytes" where
  "before c xs = takeWhile (\<lambda>x. x \<noteq> c) xs"

definition lookup_ipv6 :: "bytes \<Rightarrow> bytes \<times> bytes option" where
  "lookup_ipv6 host =
     (if host \<noteq> [] \<and> hd host = 0x5B then
        case after 0x5D (tl host) of
          None \<Rightarrow> ([], None)
        | Some rest \<Rightarrow>
            (before 0x5D (tl host),
             if rest \<noteq> [] \<and> hd rest = 0x3A then Some (tl rest) else None)
      else ([], None))"

definition lookup_split :: "bytes \<Rightarrow> bytes \<times> bytes option" where
  "lookup_split host =
     (let (node, service) = lookup_ipv6 host;
          (node1, service1) =
            (if node = [] then
               case after 0x3A host of
                 None \<Rightarrow> ([], None)
               | Some rest \<Rightarrow>
                   if 0x3A \<notin> set rest then (before 0x3A host, Some rest)
                   else ([], Some (0x3A # rest))
             else (node, service))
      in (if node1 = [] then host else node1, service1))"

text \<open>\<open>getaddrinfo node service\<close> is \<open>None\<close> when it fails, and else the addresses in their order.\<close>

definition address_Lookup ::
  "(bytes \<Rightarrow> bytes option \<Rightarrow> address option list option) \<Rightarrow> bytes \<Rightarrow> address option list
   \<Rightarrow> bool \<times> address option list" where
  "address_Lookup getaddrinfo host result =
     (case getaddrinfo (fst (lookup_split host)) (snd (lookup_split host)) of
        None \<Rightarrow> (False, result)
      | Some rs \<Rightarrow> (True, result @ map address_Create rs))"

definition LookupAny ::
  "(bytes \<Rightarrow> bytes option \<Rightarrow> address option list option) \<Rightarrow> bytes \<Rightarrow> address option res" where
  "LookupAny getaddrinfo host =
     (case address_Lookup getaddrinfo host [] of
        (False, result) \<Rightarrow> Inr None
      | (True, []) \<Rightarrow> Inl BadIndex
      | (True, r # rs) \<Rightarrow> Inr r)"

fun is_ip :: "address option \<Rightarrow> bool" where
  "is_ip (Some (IPv4Address a)) = True"
| "is_ip (Some (IPv6Address a)) = True"
| "is_ip other = False"

definition LookupAnyIPAddress ::
  "(bytes \<Rightarrow> bytes option \<Rightarrow> address option list option) \<Rightarrow> bytes \<Rightarrow> address option" where
  "LookupAnyIPAddress getaddrinfo host =
     (case address_Lookup getaddrinfo host [] of
        (False, result) \<Rightarrow> None
      | (True, result) \<Rightarrow> (case find is_ip result of None \<Rightarrow> None | Some r \<Rightarrow> r))"

definition address_setPort :: "u16 \<Rightarrow> address \<Rightarrow> address" where
  "address_setPort v a =
     (case a of
        IPv4Address x \<Rightarrow> IPv4Address (IPv4_setPort v x)
      | IPv6Address x \<Rightarrow> IPv6Address (IPv6_setPort v x)
      | b \<Rightarrow> b)"

definition IPAddress_Create :: "(bytes \<Rightarrow> address list option) \<Rightarrow> bytes \<Rightarrow> u16 \<Rightarrow> address option res" where
  "IPAddress_Create getaddrinfo addr port =
     (case getaddrinfo addr of
        None \<Rightarrow> Inr None
      | Some [] \<Rightarrow> Inl NullDeref
      | Some (r # rs) \<Rightarrow>
          Inr (if is_ip (address_Create (Some r)) then Some (address_setPort port r) else None))"

section \<open>Interfaces\<close>

text \<open>
  The list of \<open>getifaddrs\<close>: the name, the address and the mask, each of which may be a null pointer;
  a mask is of the family of its address. Addresses of other families are left out of the result.
\<close>

definition prefix_of :: "address \<Rightarrow> address option \<Rightarrow> u32 option res" where
  "prefix_of a netmask =
     (case a of
        IPv4Address x \<Rightarrow>
          (case netmask of
             Some (IPv4Address m) \<Rightarrow> Inr (Some (CountBytes (s_addr m))) | _ \<Rightarrow> Inl NullDeref)
      | IPv6Address x \<Rightarrow>
          (case netmask of
             Some (IPv6Address m) \<Rightarrow> Inr (Some (sum_list (map CountBytes (s6_addr m))))
           | _ \<Rightarrow> Inl NullDeref)
      | _ \<Rightarrow> Inr None)"

fun interface_loop ::
  "u16 \<Rightarrow> (bytes \<times> address option \<times> address option) list
   \<Rightarrow> (bytes \<times> address \<times> u32) list res" where
  "interface_loop family [] = Inr []"
| "interface_loop family ((name, None, netmask) # ifs) =
     Inl NullDeref"
| "interface_loop family ((name, Some a, netmask) # ifs) =
     (if family \<noteq> AF_UNSPEC \<and> family \<noteq> getFamily a then interface_loop family ifs
      else
        bindE (prefix_of a netmask) (\<lambda>p.
        bindE (interface_loop family ifs) (\<lambda>rs.
          Inr (case p of None \<Rightarrow> rs | Some n \<Rightarrow> (name, a, n) # rs))))"

definition GetInterfaceAddress ::
  "(bytes \<times> address option \<times> address option) list option \<Rightarrow> bytes \<Rightarrow> u16
   \<Rightarrow> (bool \<times> (address \<times> u32) list) res" where
  "GetInterfaceAddress getifaddrs iface family =
     (if iface = [] \<or> iface = str ''*'' then
        Inr (True,
          (if family = AF_INET \<or> family = AF_UNSPEC
           then [(IPv4Address (new_IPv4Address 0 0), 0)] else []) @
          (if family = AF_INET6 \<or> family = AF_UNSPEC
           then [(IPv6Address (new_IPv6Address (replicate 16 0) 0), 0)] else []))
      else
        case getifaddrs of
          None \<Rightarrow> Inr (False, [])
        | Some ifs \<Rightarrow>
            bindE (interface_loop family ifs) (\<lambda>rs.
              Inr (True, map snd (filter (\<lambda>r. fst r = iface) rs))))"

end
