(* ===== verification/AddressProps.thy ===== *)
theory AddressProps
  imports Address
begin

text \<open>
  What addresses promise: masks and prefix lengths agree, the text of an IPv4 address determines it.
  And where the code fails: the order is not strict, the network address keeps the wrong part, a
  created address loses its port, plain IPv6 hosts are not looked up.
\<close>

section \<open>Counting bits\<close>

definition ones :: "'a::semiring_bits \<Rightarrow> nat" where
  "ones x = card {i. bit x i}"

lemma finite_bits_nat: "finite {i. bit (n :: nat) i}"
proof -
  have "{i. bit n i} \<subseteq> {..n}"
  proof
    fix i assume "i \<in> {i. bit n i}"
    then have "2 ^ i \<le> n" by (intro leI notI) (simp add: bit_iff_odd)
    moreover have "i < 2 ^ i" by (rule less_exp)
    ultimately have "i \<le> n" by linarith
    then show "i \<in> {..n}" by simp
  qed
  then show ?thesis by (rule finite_subset) simp
qed

lemma ones_rec: "ones (n :: nat) = n mod 2 + ones (n div 2)"
proof -
  have "{i. bit n i} = (if odd n then {0} else {}) \<union> Suc ` {i. bit (n div 2) i}"
  proof (rule set_eqI)
    fix i show "i \<in> {i. bit n i} \<longleftrightarrow> i \<in> (if odd n then {0} else {}) \<union> Suc ` {i. bit (n div 2) i}"
      by (cases i) (auto simp: bit_0 bit_Suc)
  qed
  moreover have "card ((if odd n then {0} else {}) \<union> Suc ` {i. bit (n div 2) i}) =
      card (if odd n then {0 :: nat} else {}) + card (Suc ` {i. bit (n div 2) i})"
    by (rule card_Un_disjoint) (auto simp: finite_bits_nat)
  ultimately show ?thesis
    by (simp add: ones_def card_image mod_2_eq_odd)
qed

lemma ones_double: "ones (2 * n) = ones (n :: nat)"
  using ones_rec [of "2 * n"] by simp

text \<open>Clearing the lowest bit.\<close>

lemma ones_clear: "0 < n \<Longrightarrow> ones (n AND (n - 1)) + 1 = ones (n :: nat)"
proof (induction n rule: less_induct)
  case (less n)
  show ?case
  proof (cases "odd n")
    case True
    then have "n AND (n - 1) = 2 * (n div 2)"
      by (subst and_rec) (auto elim!: oddE)
    then have "ones (n AND (n - 1)) = ones (n div 2)" by (simp only: ones_double)
    then show ?thesis using True ones_rec [of n] by (simp add: odd_iff_mod_2_eq_one)
  next
    case False
    then obtain m where m: "n = 2 * m" by (auto elim: evenE)
    then have "0 < m" "m < n" "(n - 1) div 2 = m - 1" using less.prems by auto
    then have "n AND (n - 1) = 2 * (m AND (m - 1))" "ones (m AND (m - 1)) + 1 = ones m"
      using less.IH [of m] m by (subst and_rec, auto)
    then show ?thesis using m by (simp add: ones_double)
  qed
qed

lemma ones_unat: "ones (unat w) = ones (w :: 'a::len word)"
  by (simp add: ones_def bit_unsigned_iff)

lemma count_loop_ones: "count_loop (w :: 'a::len word) r = r + of_nat (ones w)"
proof (induction w r rule: count_loop.induct)
  case (1 w r)
  show ?case
  proof (cases "w = 0")
    case True
    then show ?thesis by (subst count_loop.simps) (simp add: ones_def)
  next
    case False
    have "unat (w AND (w - 1)) = unat w AND (unat w - 1)"
      using False by (simp add: unsigned_and_eq unat_minus_one)
    moreover have "0 < unat w" using False by (simp add: unat_gt_0)
    ultimately have "ones w = ones (w AND (w - 1)) + 1"
      using ones_clear [of "unat w"] by (simp flip: ones_unat)
    then show ?thesis using False 1 [OF False] by (subst count_loop.simps) simp
  qed
qed

lemma CountBytes_ones: "CountBytes w = of_nat (ones w)"
  by (simp add: CountBytes_def count_loop_ones)

section \<open>Masks and prefix lengths\<close>

lemma CreateMask_ok:
  assumes "bits \<le> n" "n - bits < 31"
  shows "CreateMask n bits = Inr (mask (n - bits) :: 'a::len word)"
proof -
  have "of_nat (2 ^ (n - bits) - 1) = (mask (n - bits) :: 'a word)"
    by (simp add: of_nat_diff mask_eq_exp_minus_1)
  then show ?thesis using assms by (simp add: CreateMask_def)
qed

lemma ones_mask: "n \<le> LENGTH('a) \<Longrightarrow> ones (NOT (mask n) :: 'a::len word) = LENGTH('a) - n"
proof -
  assume n: "n \<le> LENGTH('a)"
  have "{i. bit (NOT (mask n) :: 'a word) i} = {n..<LENGTH('a)}"
    by (auto simp: bit_not_iff bit_mask_iff)
  then show ?thesis by (simp add: ones_def)
qed

text \<open>A byte swap moves the bits.\<close>

definition swap_bit :: "nat \<Rightarrow> nat" where
  "swap_bit i = 8 * (3 - i div 8) + i mod 8"

lemma swap_bit_facts: "i < 32 \<Longrightarrow> swap_bit i < 32 \<and> swap_bit (swap_bit i) = i"
proof -
  assume "i < 32"
  then have q: "i div 8 \<le> 3" by simp
  have "swap_bit i div 8 = 3 - i div 8" "swap_bit i mod 8 = i mod 8"
    by (simp_all add: swap_bit_def)
  then have "swap_bit (swap_bit i) = 8 * (i div 8) + i mod 8"
    using q by (simp add: swap_bit_def [of "swap_bit i"])
  moreover have "8 * (3 - i div 8) + i mod 8 < 32"
    using q mod_less_divisor [of 8 i] by linarith
  ultimately show ?thesis by (simp add: swap_bit_def [of i])
qed

lemma bit_swap4:
  "bit (byteswapOnLittleEndian 4 (w :: u32)) i \<longleftrightarrow> i < 32 \<and> bit w (swap_bit i)"
proof (cases "i < 32")
  case True
  then have "i div 8 < 4" by (simp add: less_mult_imp_div_less)
  then have "bit (rev (le_bytes 4 w) ! (i div 8)) (i mod 8) \<longleftrightarrow> bit w (swap_bit i)"
    by (simp add: rev_nth bit_le_bytes swap_bit_def)
  then show ?thesis
    using True by (simp add: byteswapOnLittleEndian_def byteswap_def bit_le_word)
qed (simp add: byteswapOnLittleEndian_def byteswap_def bit_le_word)

lemma ones_swapped_mask:
  assumes "n \<le> 32"
  shows "ones (NOT (byteswapOnLittleEndian 4 (mask n :: u32))) = 32 - n"
proof -
  let ?A = "{i. bit (NOT (byteswapOnLittleEndian 4 (mask n :: u32))) i}"
  have "?A = {i. i < 32 \<and> n \<le> swap_bit i}"
    by (auto simp: bit_not_iff bit_swap4 bit_mask_iff dest: swap_bit_facts)
  moreover have "bij_betw swap_bit {i. i < 32 \<and> n \<le> swap_bit i} {n..<32}"
    by (rule bij_betw_byWitness [where f' = swap_bit]) (auto simp: swap_bit_facts)
  ultimately have "card ?A = card {n..<32}" by (simp add: bij_betw_same_card)
  then show ?thesis by (simp add: ones_def)
qed

lemma CountBytes_bytes: "CountBytes (0 :: u8) = 0" "CountBytes (0xff :: u8) = 8"
proof -
  show "CountBytes (0 :: u8) = 0" by (simp add: CountBytes_ones ones_def)
  show "CountBytes (0xff :: u8) = 8" by (simp add: CountBytes_def count_loop.simps)
qed

text \<open>The prefix length that the interfaces report is the one the mask was made of: \<open>CountBytes\<close> of
  the mask that \<open>subnetMask\<close> makes is the prefix length, for IPv4 from 2 to 32 and for IPv6 below
  128; the shorter IPv4 prefixes make the arithmetic of the mask undefined, and an IPv6 prefix of
  128 or more writes behind the address.\<close>

theorem subnet_mask_roundtrip:
  "(2 \<le> p \<and> p \<le> 32 \<longrightarrow>
      (\<exists>m. IPv4_subnetMask p = Inr m \<and>
         prefix_of (IPv4Address a) (Some (IPv4Address m)) = Inr (Some p))) \<and>
   (p < 128 \<longrightarrow>
      (\<exists>m. IPv6_subnetMask p = Inr m \<and>
         prefix_of (IPv6Address b) (Some (IPv6Address m)) = Inr (Some p))) \<and>
   (p < 2 \<longrightarrow> IPv4_subnetMask p = Inl ArithUB) \<and>
   (128 \<le> p \<longrightarrow> IPv6_subnetMask p = Inl BadIndex)"
proof (intro conjI impI)
  let ?n = "unat p"
  show "\<exists>m. IPv4_subnetMask p = Inr m \<and> prefix_of (IPv4Address a) (Some (IPv4Address m)) = Inr (Some p)"
    if "2 \<le> p \<and> p \<le> 32"
  proof -
    have n: "2 \<le> ?n" "?n \<le> 32" using that by (simp_all add: word_le_nat_alt)
    then have "CreateMask 32 ?n = Inr (mask (32 - ?n) :: u32)" by (intro CreateMask_ok) auto
    moreover have "CountBytes (NOT (byteswapOnLittleEndian 4 (mask (32 - ?n) :: u32))) = p"
      using n ones_swapped_mask [of "32 - ?n"] by (simp add: CountBytes_ones)
    ultimately show ?thesis by (simp add: IPv4_subnetMask_def prefix_of_def)
  qed
  show "\<exists>m. IPv6_subnetMask p = Inr m \<and> prefix_of (IPv6Address b) (Some (IPv6Address m)) = Inr (Some p)"
    if "p < 128"
  proof -
    have n: "?n < 128" using that by (simp add: word_less_nat_alt)
    let ?k = "?n div 8" and ?r = "?n mod 8"
    have r: "?r < 8" by simp
    then have "CreateMask 8 ?r = Inr (mask (8 - ?r) :: u8)" by (intro CreateMask_ok) auto
    moreover have "ones (NOT (mask (8 - ?r)) :: u8) = ?r" using r by (subst ones_mask) auto
    moreover have "sum_list (replicate j c) = of_nat j * c" for j and c :: u32
      by (induction j) (simp_all add: algebra_simps)
    moreover have "of_nat ?k * 8 + of_nat ?r = p"
    proof -
      have "of_nat (?k * 8 + ?r) = p" by simp
      then show ?thesis by (simp only: of_nat_add of_nat_mult of_nat_numeral)
    qed
    moreover have "?k < 16" using n by simp
    ultimately show ?thesis
      by (simp add: IPv6_subnetMask_def prefix_of_def new_IPv6Address_def CountBytes_bytes Let_def)
        (simp add: CountBytes_ones)
  qed
  show "IPv4_subnetMask p = Inl ArithUB" if "p < 2"
    using that by (simp add: IPv4_subnetMask_def CreateMask_def word_less_nat_alt)
  show "IPv6_subnetMask p = Inl BadIndex" if "128 \<le> p"
    using that by (simp add: IPv6_subnetMask_def word_le_nat_alt Let_def less_eq_div_iff_mult_less_eq)
qed

theorem subnet_mask_roundtrip_witness:
  "IPv4_subnetMask 1 = Inl ArithUB \<and>
   (\<exists>m. IPv4_subnetMask 24 = Inr m \<and> 
      prefix_of (IPv4Address (new_IPv4Address 0 0)) (Some (IPv4Address m)) = Inr (Some 24))"
  using subnet_mask_roundtrip [of 24 "new_IPv4Address 0 0" "new_IPv6Address [] 0"]
    subnet_mask_roundtrip [of 1 "new_IPv4Address 0 0" "new_IPv6Address [] 0"] by simp

text \<open>\<open>networkAddress\<close> keeps the host part of an IPv4 address instead of its network part: its result
  has no bit in common with the subnet mask, while the broadcast address is the network part with
  all host bits set.\<close>

theorem network_address_is_host_part:
  assumes "2 \<le> p" "p \<le> 32"
  shows "\<exists>net bc m. IPv4_networkAddress p a = Inr (Some net) \<and>
    IPv4_broadcastAddress p a = Inr (Some bc) \<and> IPv4_subnetMask p = Inr m \<and>
    s_addr net AND s_addr m = 0 \<and> s_addr a = (s_addr a AND s_addr m) OR s_addr net \<and>
    s_addr bc = (s_addr a AND s_addr m) OR NOT (s_addr m)"
proof -
  have "2 \<le> unat p" "unat p \<le> 32" using assms by (simp_all add: word_le_nat_alt)
  then have mask: "CreateMask 32 (unat p) = Inr (mask (32 - unat p) :: u32)"
    by (intro CreateMask_ok) auto
  let ?k = "byteswapOnLittleEndian 4 (mask (32 - unat p) :: u32)"
  have bits: "(s_addr a AND ?k) AND NOT ?k = 0" "s_addr a = (s_addr a AND NOT ?k) OR (s_addr a AND ?k)"
    "s_addr a OR ?k = (s_addr a AND NOT ?k) OR NOT (NOT ?k)"
    by (rule bit_word_eqI, auto simp: bit_simps)+
  show ?thesis
    using assms mask bits
    by (simp add: IPv4_networkAddress_def IPv4_broadcastAddress_def IPv4_subnetMask_def not_less [symmetric])
qed

theorem network_address_is_host_part_witness:
  "\<exists>net m. IPv4_networkAddress 24 (new_IPv4Address 0xC0A80105 80) = Inr (Some net) \<and>
     IPv4_subnetMask 24 = Inr m \<and> s_addr net AND s_addr m = 0"
  using network_address_is_host_part [of 24 "new_IPv4Address 0xC0A80105 80"] by auto

section \<open>Ports\<close>

text \<open>An IPv4 or IPv6 address made by \<open>Create\<close> from a text has port 0, whatever port was asked for:
  the port is swapped as a number of 32 bits, and its low half is kept.\<close>

theorem created_address_loses_port:
  "(IPv4_Create inet_pton addr port = Some a \<longrightarrow> IPv4_getPort a = 0) \<and>
   (IPv6_Create inet_pton6 addr port = Some b \<longrightarrow> IPv6_getPort b = 0)"
proof -
  have "ucast (byteswapOnLittleEndian 4 (ucast port :: u32)) = (0 :: u16)"
  proof (rule bit_word_eqI)
    fix i assume i: "i < LENGTH(16)"
    have "i div 8 \<le> 1" using i by simp
    then have "16 \<le> swap_bit i" unfolding swap_bit_def by linarith
    then have "\<not> bit (ucast port :: u32) (swap_bit i)"
      by (auto simp: bit_ucast_iff dest: bit_imp_le_length)
    then show "bit (ucast (byteswapOnLittleEndian 4 (ucast port :: u32)) :: u16) i \<longleftrightarrow> bit (0 :: u16) i"
      by (simp add: bit_ucast_iff bit_swap4)
  qed
  moreover have "byteswapOnLittleEndian 2 (0 :: u16) = 0"
    by (rule bit_word_eqI)
      (auto simp: byteswapOnLittleEndian_def byteswap_def bit_le_word rev_nth bit_le_bytes less_mult_imp_div_less)
  ultimately show ?thesis
    by (auto simp: IPv4_Create_def IPv6_Create_def IPv4_getPort_def IPv6_getPort_def Let_def
        split: option.splits)
qed

theorem created_address_loses_port_witness:
  "\<exists>a. IPv4_Create (\<lambda>_. Some 0) (str ''0.0.0.0'') 80 = Some a \<and> IPv4_getPort a = 0"
proof -
  obtain a where a: "IPv4_Create (\<lambda>_. Some 0) (str ''0.0.0.0'') 80 = Some a"
    by (simp add: IPv4_Create_def)
  then show ?thesis
    using created_address_loses_port [of "\<lambda>_. Some 0" "str ''0.0.0.0''" 80 a "\<lambda>_. None" undefined] by blast
qed

section \<open>The order\<close>

text \<open>An address as the code makes them: its length does not go behind its image.\<close>

definition addr_ok :: "address \<Rightarrow> bool" where
  "addr_ok a \<longleftrightarrow> getAddrLen a \<le> length (getAddr a)"

lemma memcmp_zero: "length as = length bs \<Longrightarrow> memcmp as bs = 0 \<longleftrightarrow> as = bs"
  by (induction as bs rule: memcmp.induct) auto

lemma memcmp_swap: "memcmp bs as = - memcmp as bs"
  by (induction as bs rule: memcmp.induct) auto

text \<open>The order of addresses is not a strict order: an address comes before itself, and so do two
  addresses of which one is a prefix of the other, each before the other; but equality is equality
  of length and bytes.\<close>

theorem address_order_not_strict:
  assumes "addr_ok a" "addr_ok b"
  shows "address_less a a \<and>
    (address_less a b \<and> address_less b a \<longleftrightarrow>
     (let n = min (getAddrLen a) (getAddrLen b) in take n (getAddr a) = take n (getAddr b))) \<and>
    (address_eq a b \<longleftrightarrow>
     getAddrLen a = getAddrLen b \<and> take (getAddrLen a) (getAddr a) = take (getAddrLen a) (getAddr b))"
proof -
  let ?n = "min (getAddrLen a) (getAddrLen b)"
  have zero: "memcmp (take ?n (getAddr a)) (take ?n (getAddr b)) = 0 \<longleftrightarrow>
      take ?n (getAddr a) = take ?n (getAddr b)"
    by (rule memcmp_zero) (use assms in \<open>auto simp: addr_ok_def\<close>)
  have "memcmp (take (getAddrLen a) (getAddr a)) (take (getAddrLen a) (getAddr b)) = 0 \<longleftrightarrow>
      take (getAddrLen a) (getAddr a) = take (getAddrLen a) (getAddr b)"
    if "getAddrLen a = getAddrLen b"
    by (rule memcmp_zero) (use assms that in \<open>auto simp: addr_ok_def\<close>)
  moreover have "memcmp as as = 0" for as by (simp add: memcmp_zero)
  ultimately show ?thesis
    using zero memcmp_swap [of "take ?n (getAddr b)" "take ?n (getAddr a)"]
    by (auto simp: address_less_def address_eq_def Let_def min.commute)
qed

theorem address_order_not_strict_witness:
  "address_less (IPv4Address (new_IPv4Address 1 80)) (IPv4Address (new_IPv4Address 1 80))"
proof -
  have "addr_ok (IPv4Address (new_IPv4Address 1 80))"
    by (simp add: addr_ok_def new_IPv4Address_def)
  then show ?thesis using address_order_not_strict by blast
qed

section \<open>Texts\<close>

lemma decimal_digits: "c \<in> set (decimal n) \<Longrightarrow> 0x30 \<le> c \<and> c \<le> 0x39"
proof (induction n rule: decimal.induct)
  case (1 n)
  have digit: "0x30 \<le> (of_nat (48 + d) :: u8) \<and> (of_nat (48 + d) :: u8) \<le> 0x39" if "d < 10" for d
    using unat_digit [OF that] that by (simp add: word_le_nat_alt del: of_nat_add)
  show ?case
  proof (cases "n < 10")
    case True
    then show ?thesis
      using 1(2) digit [of n] by (subst (asm) decimal.simps) (simp del: of_nat_add)
  next
    case False
    then show ?thesis
      using 1 digit [of "n mod 10"] by (subst (asm) (2) decimal.simps) (auto simp del: of_nat_add)
  qed
qed

lemma decimal_inj: "decimal m = decimal n \<longleftrightarrow> m = n"
  by (metis decimal_value_decimal)

lemma split_at:
  assumes "c \<notin> set xs" "c \<notin> set ys"
  shows "xs @ c # us = ys @ c # vs \<longleftrightarrow> xs = ys \<and> us = vs"
  using assms
proof (induction xs arbitrary: ys)
  case (Cons x xs)
  then show ?case by (cases ys) auto
next
  case Nil
  then show ?case by (cases ys) auto
qed

lemma split_decimal:
  assumes "\<not> (0x30 \<le> c \<and> c \<le> 0x39)"
  shows "decimal m @ c # us = decimal n @ c # vs \<longleftrightarrow> m = n \<and> us = vs"
  using assms decimal_digits by (subst split_at) (auto simp: decimal_inj)

lemma swap4_inj: "byteswapOnLittleEndian 4 (x :: u32) = byteswapOnLittleEndian 4 y \<longleftrightarrow> x = y"
proof
  assume e: "byteswapOnLittleEndian 4 x = byteswapOnLittleEndian 4 y"
  show "x = y"
  proof (rule bit_word_eqI)
    fix i assume "i < LENGTH(32)"
    then show "bit x i \<longleftrightarrow> bit y i"
      using arg_cong [OF e, of "\<lambda>w. bit w (swap_bit i)"] swap_bit_facts [of i] by (simp add: bit_swap4)
  qed
qed simp

lemma bytes_of_u32:
  assumes "drop_bit 24 x AND 0xff = drop_bit 24 y AND 0xff"
    "drop_bit 16 x AND 0xff = drop_bit 16 y AND 0xff"
    "drop_bit 8 x AND 0xff = drop_bit 8 y AND 0xff" "x AND 0xff = y AND (0xff :: u32)"
  shows "x = y"
proof (rule bit_word_eqI)
  have ff: "bit (0xff :: u32) i \<longleftrightarrow> i < 8" for i
    using bit_mask_iff [of 8 i, where 'a = "32 word"] by (auto simp: mask_eq_exp_minus_1)
  fix i assume "i < LENGTH(32)"
  then consider "i < 8" | "8 \<le> i" "i < 16" | "16 \<le> i" "i < 24" | "24 \<le> i" "i < 32" by fastforce
  then show "bit x i \<longleftrightarrow> bit y i"
  proof cases
    case 1
    then show ?thesis
      using arg_cong [OF assms(4), of "\<lambda>w. bit w i"] ff [of i] by (simp add: bit_and_iff)
  next
    case 2
    then have "i - 8 < 8" by linarith
    then show ?thesis
      using 2 arg_cong [OF assms(3), of "\<lambda>w. bit w (i - 8)"] ff [of "i - 8"]
      by (auto simp add: bit_and_iff bit_drop_bit_eq)
  next
    case 3
    then have "i - 16 < 8" by linarith
    then show ?thesis
      using 3 arg_cong [OF assms(2), of "\<lambda>w. bit w (i - 16)"] ff [of "i - 16"]
      by (auto simp add: bit_and_iff bit_drop_bit_eq)
  next
    case 4
    then have "i - 24 < 8" by linarith
    then show ?thesis
      using 4 arg_cong [OF assms(1), of "\<lambda>w. bit w (i - 24)"] ff [of "i - 24"]
      by (auto simp add: bit_and_iff bit_drop_bit_eq)
  qed
qed

text \<open>The text of an IPv4 address determines its address and its port.\<close>

theorem ipv4_text_unique:
  "IPv4_insert a = IPv4_insert b \<longleftrightarrow>
   s_addr a = s_addr b \<and>
   byteswapOnLittleEndian 2 (sin_port a) = byteswapOnLittleEndian 2 (sin_port b)"
proof
  assume e: "IPv4_insert a = IPv4_insert b"
  let ?x = "byteswapOnLittleEndian 4 (s_addr a)" and ?y = "byteswapOnLittleEndian 4 (s_addr b)"
  have "unat (drop_bit 24 ?x AND 0xff) = unat (drop_bit 24 ?y AND 0xff)"
    "unat (drop_bit 16 ?x AND 0xff) = unat (drop_bit 16 ?y AND 0xff)"
    "unat (drop_bit 8 ?x AND 0xff) = unat (drop_bit 8 ?y AND 0xff)"
    "unat (?x AND 0xff) = unat (?y AND 0xff)"
    "unat (byteswapOnLittleEndian 2 (sin_port a)) = unat (byteswapOnLittleEndian 2 (sin_port b))"
    using e by (simp_all add: IPv4_insert_def Let_def str_def split_decimal decimal_inj)
  then have "?x = ?y \<and> byteswapOnLittleEndian 2 (sin_port a) = byteswapOnLittleEndian 2 (sin_port b)"
    using bytes_of_u32 [of ?x ?y] by (simp only: word_unat_eq_iff [symmetric])
  then show "s_addr a = s_addr b \<and>
      byteswapOnLittleEndian 2 (sin_port a) = byteswapOnLittleEndian 2 (sin_port b)"
    by (simp add: swap4_inj)
qed (simp add: IPv4_insert_def)

section \<open>Hosts\<close>

lemma after_Some: "c \<notin> set xs \<Longrightarrow> after c (xs @ c # ys) = Some ys"
  by (induction xs) auto

lemma before_eq: "c \<notin> set xs \<Longrightarrow> before c (xs @ c # ys) = xs"
  by (induction xs) (auto simp: before_def)

text \<open>\<open>Lookup\<close> takes a node with a service and a bracketed IPv6 address with or without one apart,
  but from an IPv6 address without brackets it takes a service that begins with a colon, which no
  service is, so that the look-up fails.\<close>

theorem lookup_of_hosts:
  assumes "0x3A \<notin> set node" "node \<noteq> []" "hd node \<noteq> 0x5B" "0x3A \<notin> set service"
    and "0x5D \<notin> set v6" "v6 \<noteq> []" "0x3A \<in> set rest"
  shows "lookup_split (node @ 0x3A # service) = (node, Some service) \<and>
    lookup_split (0x5B # v6 @ [0x5D]) = (v6, None) \<and>
    lookup_split (0x5B # v6 @ 0x5D # 0x3A # service) = (v6, Some service) \<and>
    lookup_split (node @ 0x3A # rest) = (node @ 0x3A # rest, Some (0x3A # rest))"
  using assms by (simp add: lookup_split_def lookup_ipv6_def after_Some before_eq)

theorem lookup_of_hosts_witness:
  "lookup_split (str ''fe80::1'') = (str ''fe80::1'', Some (str ''::1''))"
proof -
  have "lookup_split (str ''fe80'' @ 0x3A # str '':1'') =
      (str ''fe80'' @ 0x3A # str '':1'', Some (0x3A # str '':1''))"
    using lookup_of_hosts [of "str ''fe80''" "[]" "str ''1''" "str '':1''"] by (simp add: str_def)
  then show ?thesis by (simp add: str_def)
qed

end
