(* ===== verification/Ragel.thy ===== *)
theory Ragel
  imports Prelude
begin

text \<open>
  The goto code that Ragel writes (\<open>-G2\<close>), as the parsers of the repository contain it: a number \<open>cs\<close> of
  the state, for each state the tests of the character at \<open>p\<close>, and transitions that run actions and go on
  in another state. A state is the tree of its tests, so that what holds of its transitions can be checked
  by evaluation: \<open>reach\<close> lists the transitions that the characters of an interval can take, and a class of
  states that is closed under such a list carries a run through any text of these characters.
\<close>

section \<open>States\<close>

text \<open>
  The statements of a state as the generated code nests them, each ending in a \<open>goto\<close>: \<open>switch ((*p))\<close>
  with what follows it, and the comparisons with their two branches. \<open>Widen\<close> is the code that computes
  \<open>_widec\<close>, the character tested from there on.
\<close>

datatype 'a test =
    Goto 'a
  | Switch "(int \<times> 'a) list" "'a test"
  | IfEq int "'a test" "'a test"
  | IfLess int "'a test" "'a test"
  | IfGreater int "'a test" "'a test"
  | IfGeq int "'a test" "'a test"
  | IfIn int int "'a test" "'a test"
  | Widen "'a test"

fun decide :: "(int \<Rightarrow> int) \<Rightarrow> 'a test \<Rightarrow> int \<Rightarrow> 'a" where
  "decide w (Goto a) c = a"
| "decide w (Switch cases t) c = (case map_of cases c of Some a \<Rightarrow> a | None \<Rightarrow> decide w t c)"
| "decide w (IfEq n t e) c = (if c = n then decide w t c else decide w e c)"
| "decide w (IfLess n t e) c = (if c < n then decide w t c else decide w e c)"
| "decide w (IfGreater n t e) c = (if c > n then decide w t c else decide w e c)"
| "decide w (IfGeq n t e) c = (if c \<ge> n then decide w t c else decide w e c)"
| "decide w (IfIn a b t e) c = (if a \<le> c \<and> c \<le> b then decide w t c else decide w e c)"
| "decide w (Widen t) c = decide w t (w c)"

text \<open>The actions of a transition and its target; \<open>st0\<close> is the error state.\<close>

type_synonym 'a move = "'a list \<times> int"
type_synonym 'a table = "(int \<times> 'a move test) list"

abbreviation to :: "int \<Rightarrow> 'a move" where "to cs \<equiv> ([], cs)"

definition switch_cs :: "(int \<Rightarrow> int) \<Rightarrow> 'a table \<Rightarrow> int \<Rightarrow> int \<Rightarrow> 'a move option" where
  "switch_cs w tab cs c = map_option (\<lambda>t. decide w t c) (map_of tab cs)"

section \<open>Runs\<close>

text \<open>
  What a machine adds to its table: the effect of an action at a position, whether the actions end in
  \<open>fbreak\<close>, and the widening.
\<close>

record ('a, 's) machine =
  m_table :: "'a table"
  m_wide :: "int \<Rightarrow> int"
  m_exec :: "'a \<Rightarrow> nat \<Rightarrow> 's \<Rightarrow> 's res"
  m_stops :: "'a list \<Rightarrow> bool"

fun run_acts :: "('a \<Rightarrow> nat \<Rightarrow> 's \<Rightarrow> 's res) \<Rightarrow> 'a list \<Rightarrow> nat \<Rightarrow> 's \<Rightarrow> 's res" where
  "run_acts exec [] p s = Inr s"
| "run_acts exec (a # as) p s = bindE (exec a p s) (run_acts exec as p)"

text \<open>
  From \<open>p\<close> with the characters up to \<open>pe\<close>: \<open>cs\<close>, \<open>p\<close> and the state when the code is left. A state without
  a \<open>case\<close> leaves at once, \<open>st0\<close> leaves \<open>p\<close> where it is, and \<open>fbreak\<close> leaves behind the character. A \<open>char\<close> is
  signed.
\<close>

fun run :: "('a, 's) machine \<Rightarrow> int \<Rightarrow> nat \<Rightarrow> bytes \<Rightarrow> 's \<Rightarrow> (int \<times> nat \<times> 's) res" where
  "run M cs p [] s = Inr (cs, p, s)"
| "run M cs p (b # bs) s =
     (case switch_cs (m_wide M) (m_table M) cs (sint b) of
        None \<Rightarrow> Inr (cs, p, s)
      | Some (as, cs') \<Rightarrow>
          bindE (run_acts (m_exec M) as p s) (\<lambda>s.
            if cs' = 0 then Inr (0, p, s)
            else if m_stops M as then Inr (cs', Suc p, s)
            else run M cs' (Suc p) bs s))"

section \<open>What a table can do\<close>

fun leaves :: "'a test \<Rightarrow> 'a list" where
  "leaves (Goto a) = [a]"
| "leaves (Switch cases t) = map snd cases @ leaves t"
| "leaves (IfEq n t e) = leaves t @ leaves e"
| "leaves (IfLess n t e) = leaves t @ leaves e"
| "leaves (IfGreater n t e) = leaves t @ leaves e"
| "leaves (IfGeq n t e) = leaves t @ leaves e"
| "leaves (IfIn a b t e) = leaves t @ leaves e"
| "leaves (Widen t) = leaves t"

lemma decide_leaves: "decide w t c \<in> set (leaves t)"
  by (induction t arbitrary: c) (auto split: option.splits dest!: map_of_SomeD intro: rev_image_eqI)

text \<open>An interval without the characters \<open>ns\<close>, as intervals.\<close>

fun gaps :: "int list \<Rightarrow> int \<Rightarrow> int \<Rightarrow> (int \<times> int) list" where
  "gaps [] lo hi = [(lo, hi)]"
| "gaps (n # ns) lo hi =
     (if lo \<le> n \<and> n \<le> hi then
        (if lo < n then gaps ns lo (n - 1) else []) @ (if n < hi then gaps ns (n + 1) hi else [])
      else gaps ns lo hi)"

lemma gaps_cover:
  "lo \<le> c \<Longrightarrow> c \<le> hi \<Longrightarrow> c \<notin> set ns \<Longrightarrow> \<exists>(l, h) \<in> set (gaps ns lo hi). l \<le> c \<and> c \<le> h"
proof (induction ns lo hi rule: gaps.induct)
  case (2 n ns lo hi)
  then show ?case
    by (cases "c < n") auto
qed auto

text \<open>The transitions for characters in an interval, where the characters \<open>ws\<close> may be widened.\<close>

fun reach :: "int list \<Rightarrow> 'a test \<Rightarrow> int \<Rightarrow> int \<Rightarrow> 'a list" where
  "reach ws (Goto a) lo hi = [a]"
| "reach ws (Switch cases t) lo hi =
     map snd (filter (\<lambda>x. lo \<le> fst x \<and> fst x \<le> hi) cases) @
     concat (map (\<lambda>x. reach ws t (fst x) (snd x)) (gaps (map fst cases) lo hi))"
| "reach ws (IfEq n t e) lo hi =
     (if lo \<le> n \<and> n \<le> hi then reach ws t n n else []) @
     (if lo = n \<and> hi = n then [] else reach ws e lo hi)"
| "reach ws (IfLess n t e) lo hi =
     (if lo < n then reach ws t lo (min hi (n - 1)) else []) @
     (if n \<le> hi then reach ws e (max lo n) hi else [])"
| "reach ws (IfGreater n t e) lo hi =
     (if n < hi then reach ws t (max lo (n + 1)) hi else []) @
     (if lo \<le> n then reach ws e lo (min hi n) else [])"
| "reach ws (IfGeq n t e) lo hi =
     (if n \<le> hi then reach ws t (max lo n) hi else []) @
     (if lo < n then reach ws e lo (min hi (n - 1)) else [])"
| "reach ws (IfIn a b t e) lo hi =
     (if a \<le> hi \<and> lo \<le> b then reach ws t (max lo a) (min hi b) else []) @
     (if lo < a then reach ws e lo (min hi (a - 1)) else []) @
     (if b < hi then reach ws e (max lo (b + 1)) hi else [])"
| "reach ws (Widen t) lo hi =
     (if list_all (\<lambda>c. c < lo \<or> hi < c) ws then reach ws t lo hi else leaves t)"

lemma decide_reach:
  assumes w: "\<And>c. c \<notin> set ws \<Longrightarrow> w c = c"
  shows "lo \<le> c \<Longrightarrow> c \<le> hi \<Longrightarrow> decide w t c \<in> set (reach ws t lo hi)"
proof (induction t arbitrary: c lo hi)
  case (Switch cases t)
  show ?case
  proof (cases "map_of cases c")
    case None
    then have "c \<notin> set (map fst cases)"
      by (simp add: map_of_eq_None_iff)
    then obtain l h where g: "(l, h) \<in> set (gaps (map fst cases) lo hi)" "l \<le> c" "c \<le> h"
      using gaps_cover Switch.prems by blast
    then have "decide w t c \<in> set (reach ws t l h)"
      by (intro Switch.IH)
    with g(1) show ?thesis
      using None by force
  next
    case (Some a)
    then show ?thesis
      using Switch.prems by (auto dest!: map_of_SomeD intro!: image_eqI)
  qed
next
  case (Widen t)
  show ?case
  proof (cases "list_all (\<lambda>c. c < lo \<or> hi < c) ws")
    case True
    then have "c \<notin> set ws"
      using Widen.prems by (fastforce simp: list_all_iff)
    then show ?thesis
      using Widen w True by simp
  next
    case False
    then show ?thesis
      by (auto simp: decide_leaves)
  qed
qed auto

text \<open>
  From any state of \<open>S\<close>, any character of the intervals \<open>rs\<close> runs exactly the actions \<open>as\<close> and leads into
  \<open>S'\<close>.
\<close>

definition in_ranges :: "(int \<times> int) list \<Rightarrow> u8 \<Rightarrow> bool" where
  "in_ranges rs b \<longleftrightarrow> (\<exists>(lo, hi) \<in> set rs. lo \<le> sint b \<and> sint b \<le> hi)"

lemma sint_neq: "b \<noteq> word_of_int n \<Longrightarrow> sint (b :: u8) \<noteq> n"
  by auto

definition row_all :: "int list \<Rightarrow> (int \<times> int) list \<Rightarrow> ('a \<Rightarrow> bool) \<Rightarrow> 'a test \<Rightarrow> bool" where
  "row_all ws rs P t \<longleftrightarrow> list_all (\<lambda>r. list_all P (reach ws t (fst r) (snd r))) rs"

lemma row_allD:
  assumes "row_all ws rs P t" and "in_ranges rs b" and "\<And>c. c \<notin> set ws \<Longrightarrow> w c = c"
  shows "P (decide w t (sint b))"
proof -
  from assms(2) obtain lo hi where r: "(lo, hi) \<in> set rs" "lo \<le> sint b" "sint b \<le> hi"
    by (auto simp: in_ranges_def)
  then have "decide w t (sint b) \<in> set (reach ws t lo hi)"
    using assms(3) by (intro decide_reach)
  with assms(1) r(1) show ?thesis
    by (auto simp: row_all_def list_all_iff)
qed

text \<open>The states of a table are numbered from 1; the numbers of a class are checked against its length.\<close>

definition numbered :: "'a table \<Rightarrow> bool" where
  "numbered tab \<longleftrightarrow> map fst tab = [1..int (length tab)]"

lemma numbered_row:
  assumes "numbered tab" and "1 \<le> cs" and "cs \<le> int (length tab)"
  obtains t where "map_of tab cs = Some t" and "(cs, t) \<in> set tab"
proof -
  have "cs \<in> set (map fst tab)"
    using assms by (simp add: numbered_def)
  then obtain t where "map_of tab cs = Some t"
    by (metis list.set_map map_of_eq_None_iff not_None_eq)
  then show ?thesis
    using that map_of_SomeD by metis
qed

lemma switch_row:
  assumes "numbered tab" and "(cs, t) \<in> set tab"
  shows "switch_cs w tab cs c = Some (decide w t c)"
proof -
  have "distinct (map fst tab)"
    using assms(1) by (simp add: numbered_def)
  then have "map_of tab cs = Some t"
    using assms(2) by simp
  then show ?thesis by (simp add: switch_cs_def)
qed

definition moves_to ::
  "int list \<Rightarrow> 'a table \<Rightarrow> int list \<Rightarrow> (int \<times> int) list \<Rightarrow> 'a list \<Rightarrow> int list \<Rightarrow> bool" where
  "moves_to ws tab S rs as S' \<longleftrightarrow>
     list_all (\<lambda>cs. 1 \<le> cs \<and> cs \<le> int (length tab)) S \<and>
     list_all (\<lambda>x. if fst x \<in> set S then row_all ws rs (\<lambda>m. fst m = as \<and> snd m \<in> set S') (snd x) else True) tab"

text \<open>What every row satisfies for the characters of the intervals, and for all characters.\<close>

lemma table_allD:
  assumes "list_all (\<lambda>x. row_all ws rs (P (fst x)) (snd x)) tab" and "switch_cs w tab cs (sint b) = Some m"
    and "in_ranges rs b" and "\<And>c. c \<notin> set ws \<Longrightarrow> w c = c"
  shows "P cs m"
proof -
  from assms(2) obtain t where t: "(cs, t) \<in> set tab" "m = decide w t (sint b)"
    by (auto simp: switch_cs_def dest: map_of_SomeD)
  with assms(1) have "row_all ws rs (P cs) t"
    by (auto simp: list_all_iff)
  then show ?thesis
    unfolding t(2) by (rule row_allD) (use assms(3,4) in auto)
qed

lemma table_leavesD:
  assumes "list_all (\<lambda>x. list_all (P (fst x)) (leaves (snd x))) tab" and "switch_cs w tab cs c = Some m"
  shows "P cs m"
proof -
  from assms(2) obtain t where "(cs, t) \<in> set tab" "m = decide w t c"
    by (auto simp: switch_cs_def dest: map_of_SomeD)
  then show ?thesis
    using assms(1) decide_leaves [of w t c] by (fastforce simp: list_all_iff)
qed

text \<open>A machine whose table is numbered and whose widening concerns the characters \<open>ws\<close> only.\<close>

definition regular :: "int list \<Rightarrow> ('a, 's) machine \<Rightarrow> bool" where
  "regular ws M \<longleftrightarrow> numbered (m_table M) \<and> (\<forall>c. c \<notin> set ws \<longrightarrow> m_wide M c = c) \<and> \<not> m_stops M []"

lemma moves_toD:
  assumes M: "regular ws M"
    and S: "moves_to ws (m_table M) S rs as S'" "cs \<in> set S" and b: "in_ranges rs b"
  shows "\<exists>cs' \<in> set S'. switch_cs (m_wide M) (m_table M) cs (sint b) = Some (as, cs')"
proof -
  obtain t where t: "map_of (m_table M) cs = Some t" "(cs, t) \<in> set (m_table M)"
    using M S numbered_row [of "m_table M" cs] by (auto simp: regular_def moves_to_def list_all_iff)
  with S have "row_all ws rs (\<lambda>m. fst m = as \<and> snd m \<in> set S') t"
    by (auto simp: moves_to_def list_all_iff)
  then have "fst (decide (m_wide M) t (sint b)) = as \<and> snd (decide (m_wide M) t (sint b)) \<in> set S'"
    by (rule row_allD) (use M b in \<open>auto simp: regular_def\<close>)
  then show ?thesis
    by (auto simp: switch_cs_def t prod_eq_iff intro: bexI [where x = "snd (decide (m_wide M) t (sint b))"])
qed

lemma run_move:
  assumes "regular ws M" and "moves_to ws (m_table M) S rs as S'" and "cs \<in> set S" and "in_ranges rs b"
    and "0 \<notin> set S'" and "\<not> m_stops M as"
  shows "\<exists>cs' \<in> set S'. run M cs p (b # bs) s =
    bindE (run_acts (m_exec M) as p s) (\<lambda>s. run M cs' (Suc p) bs s)"
proof -
  obtain cs' where cs': "cs' \<in> set S'" "switch_cs (m_wide M) (m_table M) cs (sint b) = Some (as, cs')"
    using moves_toD [OF assms(1-4)] by blast
  then have "cs' \<noteq> 0" using assms(5) by metis
  with cs' assms(6) show ?thesis
    by (auto intro!: bexI [of _ cs'])
qed

lemma run_through:
  assumes M: "regular ws M" and S: "moves_to ws (m_table M) S rs [] S" and "0 \<notin> set S"
  shows "cs \<in> set S \<Longrightarrow> \<forall>b \<in> set bs. in_ranges rs b \<Longrightarrow>
    \<exists>cs' \<in> set S. run M cs p (bs @ rest) s = run M cs' (p + length bs) rest s"
proof (induction bs arbitrary: cs p)
  case (Cons b bs)
  then obtain cs' where cs': "cs' \<in> set S" "run M cs p (b # bs @ rest) s = run M cs' (Suc p) (bs @ rest) s"
    using run_move [OF M S Cons.prems(1) _ assms(3), of b p "bs @ rest" s] M
    by (auto simp: regular_def)
  with Cons.IH [OF cs'(1), of "Suc p"] Cons.prems(2) show ?case
    by auto
qed auto

text \<open>A chain of states, one for each character.\<close>

definition chain_moves :: "int list \<Rightarrow> 'a table \<Rightarrow> int list \<Rightarrow> (int \<times> int) list \<Rightarrow> bool" where
  "chain_moves ws tab ss rs \<longleftrightarrow>
     list_all (\<lambda>(a, b). moves_to ws tab [a] rs [] [b] \<and> b \<noteq> 0) (zip (butlast ss) (tl ss))"

lemma run_chain:
  assumes M: "regular ws M" and S: "chain_moves ws (m_table M) ss rs"
  shows "\<forall>b \<in> set bs. in_ranges rs b \<Longrightarrow> i + length bs < length ss \<Longrightarrow>
    run M (ss ! i) p (bs @ rest) s = run M (ss ! (i + length bs)) (p + length bs) rest s"
proof (induction bs arbitrary: i p)
  case (Cons b bs)
  have "(ss ! i, ss ! Suc i) \<in> set (zip (butlast ss) (tl ss))"
    using Cons.prems(2) by (auto simp: set_zip nth_butlast nth_tl intro!: exI [of _ i])
  then have "moves_to ws (m_table M) [ss ! i] rs [] [ss ! Suc i]" "ss ! Suc i \<noteq> 0"
    using S by (auto simp: chain_moves_def list_all_iff)
  then have "run M (ss ! i) p (b # bs @ rest) s = run M (ss ! Suc i) (Suc p) (bs @ rest) s"
    using run_move [OF M, of "[ss ! i]" rs "[]" "[ss ! Suc i]" "ss ! i" b p "bs @ rest" s] Cons.prems(1) M
    by (auto simp: regular_def)
  then show ?case
    using Cons.IH [of "Suc i" "Suc p"] Cons.prems by simp
qed simp

text \<open>
  Texts of the characters of \<open>rs\<close> and of escapes \<open>%XX\<close>, which lead through two states of their own and back.
\<close>

definition hex_ranges :: "(int \<times> int) list" where
  "hex_ranges = [(0x30, 0x39), (0x41, 0x46), (0x61, 0x66)]"

fun escaped_text :: "(int \<times> int) list \<Rightarrow> bytes \<Rightarrow> bool" where
  "escaped_text rs [] = True"
| "escaped_text rs (b # bs) =
     (if b = 0x25 then
        (case bs of
           x # y # bs' \<Rightarrow> in_ranges hex_ranges x \<and> in_ranges hex_ranges y \<and> escaped_text rs bs'
         | _ \<Rightarrow> False)
      else in_ranges rs b \<and> escaped_text rs bs)"

definition escapes :: "int list \<Rightarrow> 'a table \<Rightarrow> int list \<Rightarrow> (int \<times> int) list \<Rightarrow> int \<Rightarrow> int \<Rightarrow> bool" where
  "escapes ws tab S rs e1 e2 \<longleftrightarrow>
     moves_to ws tab S rs [] S \<and> moves_to ws tab S [(0x25, 0x25)] [] [e1] \<and>
     moves_to ws tab [e1] hex_ranges [] [e2] \<and> moves_to ws tab [e2] hex_ranges [] S \<and>
     S \<noteq> [] \<and> 0 \<notin> set S \<and> e1 \<noteq> 0 \<and> e2 \<noteq> 0"

lemma run_escape:
  assumes M: "regular ws M"
    and e: "moves_to ws (m_table M) [e1] hex_ranges [] [e2]" "moves_to ws (m_table M) [e2] hex_ranges [] S"
      "e2 \<noteq> 0" "0 \<notin> set S"
    and x: "in_ranges hex_ranges x" and y: "in_ranges hex_ranges y"
  shows "\<exists>cs' \<in> set S. run M e1 p (x # y # rest) s = run M cs' (Suc (Suc p)) rest s"
proof -
  have no: "\<not> m_stops M []" using M by (simp add: regular_def)
  have "run M e1 p (x # y # rest) s = run M e2 (Suc p) (y # rest) s"
    using run_move [OF M e(1) _ x _ no, of e1 p "y # rest" s] e(3) by auto
  moreover obtain cs' where "cs' \<in> set S" "run M e2 (Suc p) (y # rest) s = run M cs' (Suc (Suc p)) rest s"
    using run_move [OF M e(2) _ y e(4) no, of e2 "Suc p" rest s] by auto
  ultimately show ?thesis by auto
qed

lemma escaped_text_cases:
  assumes "escaped_text rs bs"
  obtains "bs = []"
  | b bs' where "bs = b # bs'" "in_ranges rs b" "escaped_text rs bs'"
  | x y bs' where "bs = 0x25 # x # y # bs'" "in_ranges hex_ranges x" "in_ranges hex_ranges y"
      "escaped_text rs bs'"
  using assms by (cases bs) (auto split: if_splits list.splits)

lemma run_escaped:
  assumes M: "regular ws M" and S: "escapes ws (m_table M) S rs e1 e2"
  shows "cs \<in> set S \<Longrightarrow> escaped_text rs bs \<Longrightarrow>
    \<exists>cs' \<in> set S. run M cs p (bs @ rest) s = run M cs' (p + length bs) rest s"
proof (induction bs arbitrary: cs p rule: length_induct)
  case (1 bs)
  note S = S [unfolded escapes_def]
  have no: "\<not> m_stops M []" using M by (simp add: regular_def)
  from 1(3) show ?case
  proof (cases rule: escaped_text_cases)
    case 1
    then show ?thesis using \<open>cs \<in> set S\<close> by auto
  next
    case (2 b bs')
    then obtain cs1 where cs1: "cs1 \<in> set S"
      "run M cs p (b # bs' @ rest) s = run M cs1 (Suc p) (bs' @ rest) s"
      using run_move [OF M _ 1(2) _ _ no, of rs S b p "bs' @ rest" s] S by auto
    then show ?thesis
      using 1(1) [rule_format, of bs' cs1 "Suc p"] 2 by auto
  next
    case (3 x y bs')
    have "run M cs p (0x25 # x # y # bs' @ rest) s = run M e1 (Suc p) (x # y # bs' @ rest) s"
      using run_move [OF M _ 1(2) _ _ no, of "[(0x25, 0x25)]" "[e1]" "0x25" p "x # y # bs' @ rest" s] S
      by (auto simp: in_ranges_def)
    moreover obtain cs1 where cs1: "cs1 \<in> set S"
      "run M e1 (Suc p) (x # y # bs' @ rest) s = run M cs1 (Suc (Suc (Suc p))) (bs' @ rest) s"
      using run_escape [OF M, of e1 e2 S x y "Suc p" "bs' @ rest" s] S 3 by auto
    ultimately show ?thesis
      using 1(1) [rule_format, of bs' cs1 "Suc (Suc (Suc p))"] 3 by auto
  qed
qed

text \<open>A text of this kind that is entered from another state, where its first character runs \<open>as\<close>.\<close>

definition enters ::
  "int list \<Rightarrow> 'a table \<Rightarrow> int \<Rightarrow> (int \<times> int) list \<Rightarrow> 'a list \<Rightarrow> int list \<Rightarrow> int \<Rightarrow> int \<Rightarrow> bool" where
  "enters ws tab cs rs as S e1 e2 \<longleftrightarrow>
     moves_to ws tab [cs] rs as S \<and> moves_to ws tab [cs] [(0x25, 0x25)] as [e1] \<and> escapes ws tab S rs e1 e2"

lemma run_enter:
  assumes M: "regular ws M" and S: "enters ws (m_table M) cs rs as S e1 e2" and no: "\<not> m_stops M as"
    and bs: "escaped_text rs bs" "bs \<noteq> []"
  shows "\<exists>cs' \<in> set S. run M cs p (bs @ rest) s =
    bindE (run_acts (m_exec M) as p s) (\<lambda>s. run M cs' (p + length bs) rest s)"
proof -
  note S = S [unfolded enters_def]
  note e = S [THEN conjunct2, THEN conjunct2, unfolded escapes_def]
  show ?thesis
  proof (cases "run_acts (m_exec M) as p s")
    case fail: (Inl err)
    obtain b bs' where bs': "bs = b # bs'" using bs(2) by (cases bs) auto
    have "in_ranges rs b \<or> b = 0x25"
      using bs(1) bs' by (auto split: if_splits)
    then have "run M cs p (b # bs' @ rest) s = Inl err"
      using run_move [OF M, of "[cs]" rs as S cs b p "bs' @ rest" s] S e no fail
        run_move [OF M, of "[cs]" "[(0x25, 0x25)]" as "[e1]" cs b p "bs' @ rest" s]
      by (auto simp: in_ranges_def)
    moreover have "S \<noteq> []" using e by simp
    ultimately show ?thesis using fail bs' by (cases S) auto
  next
    case done1: (Inr s1)
    from bs(1) show ?thesis
    proof (cases rule: escaped_text_cases)
      case 1
      then show ?thesis using bs(2) by simp
    next
      case (2 b bs')
      then obtain cs1 where cs1: "cs1 \<in> set S"
        "run M cs p (b # bs' @ rest) s = run M cs1 (Suc p) (bs' @ rest) s1"
        using run_move [OF M, of "[cs]" rs as S cs b p "bs' @ rest" s] S e no done1 by auto
      then show ?thesis
        using run_escaped [OF M, of S rs e1 e2 cs1 bs' "Suc p" rest s1] S 2 done1 by auto
    next
      case (3 x y bs')
      have "run M cs p (0x25 # x # y # bs' @ rest) s = run M e1 (Suc p) (x # y # bs' @ rest) s1"
        using run_move [OF M, of "[cs]" "[(0x25, 0x25)]" as "[e1]" cs "0x25" p "x # y # bs' @ rest" s] S e no done1
        by (auto simp: in_ranges_def)
      moreover obtain cs1 where cs1: "cs1 \<in> set S"
        "run M e1 (Suc p) (x # y # bs' @ rest) s1 = run M cs1 (Suc (Suc (Suc p))) (bs' @ rest) s1"
        using run_escape [OF M, of e1 e2 S x y "Suc p" "bs' @ rest" s1] e 3 by auto
      ultimately show ?thesis
        using run_escaped [OF M, of S rs e1 e2 cs1 bs' "Suc (Suc (Suc p))" rest s1] S 3 done1 by auto
    qed
  qed
qed

section \<open>Invariants\<close>

text \<open>
  What holds of a state, of the characters read and of the variables at every step, and what is known
  when an action fails.
\<close>

locale machine_invariant =
  fixes M :: "('a, 's) machine"
    and ok :: "int \<Rightarrow> bytes \<Rightarrow> 's \<Rightarrow> bool"
    and fails :: "cpp_error \<Rightarrow> bytes \<Rightarrow> u8 \<Rightarrow> bool"
  assumes step: "ok cs rd s \<Longrightarrow> switch_cs (m_wide M) (m_table M) cs (sint b) = Some (as, cs') \<Longrightarrow>
      run_acts (m_exec M) as (length rd) s = Inr s' \<Longrightarrow> cs' \<noteq> 0 \<Longrightarrow> ok cs' (rd @ [b]) s'"
    and failing: "ok cs rd s \<Longrightarrow> switch_cs (m_wide M) (m_table M) cs (sint b) = Some (as, cs') \<Longrightarrow>
      run_acts (m_exec M) as (length rd) s = Inl e \<Longrightarrow> fails e rd b"
begin

lemma run_ok:
  "ok cs rd s \<Longrightarrow> run M cs (length rd) bs s = Inr (cs', p', s') \<Longrightarrow> cs' \<noteq> 0 \<Longrightarrow>
   \<exists>n \<le> length bs. p' = length rd + n \<and> ok cs' (rd @ take n bs) s'"
proof (induction bs arbitrary: cs rd s)
  case (Cons b bs)
  show ?case
  proof (cases "switch_cs (m_wide M) (m_table M) cs (sint b)")
    case None
    then show ?thesis using Cons.prems by (intro exI [of _ 0]) simp
  next
    case (Some m)
    obtain as cs1 where m: "m = (as, cs1)" by (cases m)
    obtain s1 where s1: "run_acts (m_exec M) as (length rd) s = Inr s1"
      using Cons.prems(2) Some m by (cases "run_acts (m_exec M) as (length rd) s") auto
    have "cs1 \<noteq> 0"
      using Cons.prems(2,3) Some m s1 by (auto split: if_splits)
    then have ok1: "ok cs1 (rd @ [b]) s1"
      using step Cons.prems(1) Some m s1 by blast
    show ?thesis
    proof (cases "m_stops M as")
      case True
      then show ?thesis
        using Cons.prems(2) Some m s1 \<open>cs1 \<noteq> 0\<close> ok1 by (intro exI [of _ 1]) auto
    next
      case False
      then have "run M cs1 (length (rd @ [b])) bs s1 = Inr (cs', p', s')"
        using Cons.prems(2) Some m s1 \<open>cs1 \<noteq> 0\<close> by simp
      then obtain n where "n \<le> length bs" "p' = length (rd @ [b]) + n" "ok cs' ((rd @ [b]) @ take n bs) s'"
        using Cons.IH [OF ok1] Cons.prems(3) by blast
      then show ?thesis by (intro exI [of _ "Suc n"]) simp
    qed
  qed
qed (auto intro: exI [of _ 0])

lemma run_fails:
  "ok cs rd s \<Longrightarrow> run M cs (length rd) bs s = Inl e \<Longrightarrow>
   \<exists>n < length bs. fails e (rd @ take n bs) (bs ! n)"
proof (induction bs arbitrary: cs rd s)
  case (Cons b bs)
  then obtain as cs1 where m: "switch_cs (m_wide M) (m_table M) cs (sint b) = Some (as, cs1)"
    by (auto split: option.splits)
  show ?case
  proof (cases "run_acts (m_exec M) as (length rd) s")
    case (Inl e')
    then have "fails e rd b"
      using failing [OF Cons.prems(1) m Inl] Cons.prems(2) m by simp
    then show ?thesis by (intro exI [of _ 0]) simp
  next
    case (Inr s1)
    then have cs1: "cs1 \<noteq> 0" and "run M cs1 (length (rd @ [b])) bs s1 = Inl e"
      using Cons.prems(2) m by (auto split: if_splits)
    then obtain n where "n < length bs" "fails e ((rd @ [b]) @ take n bs) (bs ! n)"
      using Cons.IH [OF step [OF Cons.prems(1) m Inr cs1]] by blast
    then show ?thesis by (intro exI [of _ "Suc n"]) simp
  qed
qed simp

end

text \<open>
  With no actions on the way to the error state, the invariant also describes the variables of a run that
  ends there.
\<close>

locale total_invariant = machine_invariant +
  assumes error_plain: "switch_cs (m_wide M) (m_table M) cs c = Some (as, 0) \<Longrightarrow> as = []"
begin

lemma run_left:
  "ok cs rd s \<Longrightarrow> run M cs (length rd) bs s = Inr (cs', p', s') \<Longrightarrow>
   \<exists>n cs1. n \<le> length bs \<and> p' = length rd + n \<and> ok cs1 (rd @ take n bs) s' \<and>
     (cs' = 0 \<and> n < length bs \<or> cs' = cs1)"
proof (induction bs arbitrary: cs rd s)
  case (Cons b bs)
  show ?case
  proof (cases "switch_cs (m_wide M) (m_table M) cs (sint b)")
    case None
    then show ?thesis using Cons.prems by (intro exI [of _ 0] exI [of _ cs]) (simp add: run.simps)
  next
    case (Some m)
    obtain as cs1 where m: "m = (as, cs1)" by (cases m)
    obtain s1 where s1: "run_acts (m_exec M) as (length rd) s = Inr s1"
      using Cons.prems(2) Some m by (cases "run_acts (m_exec M) as (length rd) s") (auto simp: run.simps)
    show ?thesis
    proof (cases "cs1 = 0")
      case True
      then have "as = []"
        using error_plain [of cs "sint b" as] Some m by simp
      then have "s1 = s" "cs' = 0" "p' = length rd" "s' = s1"
        using s1 True Some m Cons.prems(2) by (auto simp: run.simps)
      then show ?thesis
        using Cons.prems(1) by (intro exI [of _ 0] exI [of _ cs]) auto
    next
      case False
      then have ok1: "ok cs1 (rd @ [b]) s1"
        using step Cons.prems(1) Some m s1 by blast
      show ?thesis
      proof (cases "m_stops M as")
        case True
        then show ?thesis
          using Cons.prems(2) Some m s1 False ok1 by (intro exI [of _ 1] exI [of _ cs1]) (auto simp: run.simps)
      next
        case noend: False
        then have "run M cs1 (length (rd @ [b])) bs s1 = Inr (cs', p', s')"
          using Cons.prems(2) Some m s1 False by (simp add: run.simps)
        from Cons.IH [OF ok1 this] obtain n cs2 where "n \<le> length bs" "p' = length (rd @ [b]) + n"
          "ok cs2 ((rd @ [b]) @ take n bs) s'" "cs' = 0 \<and> n < length bs \<or> cs' = cs2" by blast
        then show ?thesis by (intro exI [of _ "Suc n"] exI [of _ cs2]) auto
      qed
    qed
  qed
qed auto

end

declare run.simps(2) [simp del]

text \<open>What only a stopping transition changes is kept by a run that does not end with one.\<close>

lemma run_keeps:
  assumes keeps: "\<And>as p s s'. \<not> m_stops M as \<Longrightarrow> run_acts (m_exec M) as p s = Inr s' \<Longrightarrow> f s' = f s"
  shows "run M cs p bs s = Inr (cs', p', s') \<Longrightarrow>
    f s' = f s \<or> (\<exists>cs0 c as. switch_cs (m_wide M) (m_table M) cs0 c = Some (as, cs') \<and> m_stops M as)"
proof (induction bs arbitrary: cs p s)
  case (Cons b bs)
  show ?case
  proof (cases "switch_cs (m_wide M) (m_table M) cs (sint b)")
    case None
    then show ?thesis using Cons.prems by (simp add: run.simps)
  next
    case (Some m)
    obtain as cs1 where m: "m = (as, cs1)" by (cases m)
    obtain s1 where s1: "run_acts (m_exec M) as p s = Inr s1"
      using Cons.prems Some m by (cases "run_acts (m_exec M) as p s") (auto simp: run.simps)
    show ?thesis
    proof (cases "m_stops M as")
      case True
      then show ?thesis using Cons.prems Some m s1 by (auto simp: run.simps split: if_splits)
    next
      case False
      then show ?thesis
        using Cons Some m s1 keeps [OF False s1] by (auto simp: run.simps split: if_splits)
    qed
  qed
qed simp

end
