(* ===== verification/UriStates.thy ===== *)
theory UriStates
  imports Ragel
begin

text \<open>
  States and transitions of the state machine of \<open>Uri::Create\<close> (\<open>src/Uri.rl.cpp\<close>,
  which \<open>ragel\<close> wrote from \<open>Uri.rl\<close>), one definition for each \<open>case\<close>
  and each label \<open>tr\<close> of the code: first the transitions, then the states with their tests as
  the code nests them. The names of the actions are those of the grammar.
\<close>

datatype uri_action =
    Marku | Markh | Save_scheme | Save_port | Save_userinfo | Save_host | Save_path | Save_query | Save_fragment

section \<open>Transitions\<close>

definition uri_tr467 :: "uri_action move" where
  "uri_tr467 = ([Marku, Save_query], 453)"

definition uri_tr469 :: "uri_action move" where
  "uri_tr469 = ([Save_query], 453)"

definition uri_tr474 :: "uri_action move" where
  "uri_tr474 = ([Markh, Save_host], 453)"

definition uri_tr485 :: "uri_action move" where
  "uri_tr485 = ([Save_host], 453)"

definition uri_tr489 :: "uri_action move" where
  "uri_tr489 = ([Markh, Save_port], 453)"

definition uri_tr493 :: "uri_action move" where
  "uri_tr493 = ([Save_port], 453)"

definition uri_tr548 :: "uri_action move" where
  "uri_tr548 = ([Markh, Save_host, Save_path], 453)"

definition uri_tr559 :: "uri_action move" where
  "uri_tr559 = ([Save_host, Markh, Save_path], 453)"

definition uri_tr563 :: "uri_action move" where
  "uri_tr563 = ([Save_path], 453)"

definition uri_tr566 :: "uri_action move" where
  "uri_tr566 = ([Markh, Save_port, Save_path], 453)"

definition uri_tr570 :: "uri_action move" where
  "uri_tr570 = ([Save_port, Markh, Save_path], 453)"

definition uri_tr462 :: "uri_action move" where
  "uri_tr462 = ([Marku], 454)"

definition uri_tr463 :: "uri_action move" where
  "uri_tr463 = ([Marku], 1)"

definition uri_tr476 :: "uri_action move" where
  "uri_tr476 = ([Markh, Save_host], 455)"

definition uri_tr486 :: "uri_action move" where
  "uri_tr486 = ([Save_host], 455)"

definition uri_tr490 :: "uri_action move" where
  "uri_tr490 = ([Markh, Save_port], 455)"

definition uri_tr494 :: "uri_action move" where
  "uri_tr494 = ([Save_port], 455)"

definition uri_tr482 :: "uri_action move" where
  "uri_tr482 = ([Markh, Save_host], 456)"

definition uri_tr488 :: "uri_action move" where
  "uri_tr488 = ([Save_host], 456)"

definition uri_tr492 :: "uri_action move" where
  "uri_tr492 = ([Markh, Save_port], 456)"

definition uri_tr496 :: "uri_action move" where
  "uri_tr496 = ([Save_port], 456)"

definition uri_tr556 :: "uri_action move" where
  "uri_tr556 = ([Markh, Save_host, Save_path], 456)"

definition uri_tr562 :: "uri_action move" where
  "uri_tr562 = ([Save_host, Markh, Save_path], 456)"

definition uri_tr565 :: "uri_action move" where
  "uri_tr565 = ([Save_path], 456)"

definition uri_tr569 :: "uri_action move" where
  "uri_tr569 = ([Markh, Save_port, Save_path], 456)"

definition uri_tr573 :: "uri_action move" where
  "uri_tr573 = ([Save_port, Markh, Save_path], 456)"

definition uri_tr466 :: "uri_action move" where
  "uri_tr466 = ([Marku], 457)"

definition uri_tr468 :: "uri_action move" where
  "uri_tr468 = ([Marku], 7)"

definition uri_tr472 :: "uri_action move" where
  "uri_tr472 = ([Markh], 9)"

definition uri_tr507 :: "uri_action move" where
  "uri_tr507 = ([Markh, Save_host], 461)"

definition uri_tr487 :: "uri_action move" where
  "uri_tr487 = ([Save_host], 461)"

definition uri_tr491 :: "uri_action move" where
  "uri_tr491 = ([Markh], 462)"

definition uri_tr473 :: "uri_action move" where
  "uri_tr473 = ([Markh], 467)"

definition uri_tr475 :: "uri_action move" where
  "uri_tr475 = ([Markh], 31)"

definition uri_tr481 :: "uri_action move" where
  "uri_tr481 = ([Markh, Save_host], 468)"

definition uri_tr499 :: "uri_action move" where
  "uri_tr499 = ([Save_host], 468)"

definition uri_tr38 :: "uri_action move" where
  "uri_tr38 = ([Save_userinfo], 469)"

definition uri_tr483 :: "uri_action move" where
  "uri_tr483 = ([Markh, Save_userinfo], 469)"

definition uri_tr501 :: "uri_action move" where
  "uri_tr501 = ([Markh], 470)"

definition uri_tr502 :: "uri_action move" where
  "uri_tr502 = ([Markh], 36)"

definition uri_tr503 :: "uri_action move" where
  "uri_tr503 = ([Markh], 471)"

definition uri_tr504 :: "uri_action move" where
  "uri_tr504 = ([Markh], 485)"

definition uri_tr506 :: "uri_action move" where
  "uri_tr506 = ([Markh], 486)"

definition uri_tr505 :: "uri_action move" where
  "uri_tr505 = ([Markh], 487)"

definition uri_tr484 :: "uri_action move" where
  "uri_tr484 = ([Markh], 38)"

definition uri_tr500 :: "uri_action move" where
  "uri_tr500 = ([Markh], 489)"

definition uri_tr477 :: "uri_action move" where
  "uri_tr477 = ([Markh], 490)"

definition uri_tr478 :: "uri_action move" where
  "uri_tr478 = ([Markh], 504)"

definition uri_tr480 :: "uri_action move" where
  "uri_tr480 = ([Markh], 505)"

definition uri_tr479 :: "uri_action move" where
  "uri_tr479 = ([Markh], 506)"

definition uri_tr461 :: "uri_action move" where
  "uri_tr461 = ([Marku], 508)"

definition uri_tr543 :: "uri_action move" where
  "uri_tr543 = ([Save_scheme], 509)"

definition uri_tr546 :: "uri_action move" where
  "uri_tr546 = ([Markh], 229)"

definition uri_tr550 :: "uri_action move" where
  "uri_tr550 = ([Markh, Save_host], 513)"

definition uri_tr567 :: "uri_action move" where
  "uri_tr567 = ([Markh, Save_port], 513)"

definition uri_tr560 :: "uri_action move" where
  "uri_tr560 = ([Save_host, Markh], 513)"

definition uri_tr571 :: "uri_action move" where
  "uri_tr571 = ([Save_port, Markh], 513)"

definition uri_tr584 :: "uri_action move" where
  "uri_tr584 = ([Markh, Save_host], 514)"

definition uri_tr561 :: "uri_action move" where
  "uri_tr561 = ([Save_host], 514)"

definition uri_tr568 :: "uri_action move" where
  "uri_tr568 = ([Markh], 515)"

definition uri_tr547 :: "uri_action move" where
  "uri_tr547 = ([Markh], 520)"

definition uri_tr549 :: "uri_action move" where
  "uri_tr549 = ([Markh], 253)"

definition uri_tr555 :: "uri_action move" where
  "uri_tr555 = ([Markh, Save_host], 521)"

definition uri_tr576 :: "uri_action move" where
  "uri_tr576 = ([Save_host], 521)"

definition uri_tr263 :: "uri_action move" where
  "uri_tr263 = ([Save_userinfo], 522)"

definition uri_tr557 :: "uri_action move" where
  "uri_tr557 = ([Markh, Save_userinfo], 522)"

definition uri_tr578 :: "uri_action move" where
  "uri_tr578 = ([Markh], 523)"

definition uri_tr579 :: "uri_action move" where
  "uri_tr579 = ([Markh], 258)"

definition uri_tr580 :: "uri_action move" where
  "uri_tr580 = ([Markh], 524)"

definition uri_tr581 :: "uri_action move" where
  "uri_tr581 = ([Markh], 538)"

definition uri_tr583 :: "uri_action move" where
  "uri_tr583 = ([Markh], 539)"

definition uri_tr582 :: "uri_action move" where
  "uri_tr582 = ([Markh], 540)"

definition uri_tr558 :: "uri_action move" where
  "uri_tr558 = ([Markh], 260)"

definition uri_tr577 :: "uri_action move" where
  "uri_tr577 = ([Markh], 542)"

definition uri_tr551 :: "uri_action move" where
  "uri_tr551 = ([Markh], 543)"

definition uri_tr552 :: "uri_action move" where
  "uri_tr552 = ([Markh], 557)"

definition uri_tr554 :: "uri_action move" where
  "uri_tr554 = ([Markh], 558)"

definition uri_tr553 :: "uri_action move" where
  "uri_tr553 = ([Markh], 559)"

section \<open>States\<close>

definition uri_st451 :: "uri_action move test" where
  "uri_st451 = Switch [(34, to 0), (35, to 453), (37, to 3), (47, to 458), (58, to 0), (60, to 0), (62, to 0),
    (63, to 456), (96, to 0), (127, to 0)] (IfLess 91 (IfGreater 32 (IfIn 65 90 (Goto uri_tr461) (Goto (to
    452))) (IfGeq 0 (Goto (to 0)) (Goto (to 452)))) (IfGreater 94 (IfGreater 122 (IfIn 123 125 (Goto (to 0))
    (Goto (to 452))) (IfGeq 97 (Goto uri_tr461) (Goto (to 452)))) (Goto (to 0))))"

definition uri_st452 :: "uri_action move test" where
  "uri_st452 = Switch [(34, to 0), (35, to 453), (37, to 3), (47, to 455), (58, to 0), (60, to 0), (62, to 0),
    (63, to 456), (96, to 0), (127, to 0)] (IfLess 91 (IfIn 0 32 (Goto (to 0)) (Goto (to 452))) (IfGreater 94
    (IfIn 123 125 (Goto (to 0)) (Goto (to 452))) (Goto (to 0))))"

definition uri_st453 :: "uri_action move test" where
  "uri_st453 = Switch [(37, uri_tr463), (60, to 0), (62, to 0), (96, to 0), (127, to 0)] (IfLess 34 (IfIn 0 32
    (Goto (to 0)) (Goto uri_tr462)) (IfGreater 35 (IfGreater 94 (IfIn 123 125 (Goto (to 0)) (Goto uri_tr462))
    (IfGeq 91 (Goto (to 0)) (Goto uri_tr462))) (Goto (to 0))))"

definition uri_st454 :: "uri_action move test" where
  "uri_st454 = Switch [(37, to 1), (60, to 0), (62, to 0), (96, to 0), (127, to 0)] (IfLess 34 (IfIn 0 32
    (Goto (to 0)) (Goto (to 454))) (IfGreater 35 (IfGreater 94 (IfIn 123 125 (Goto (to 0)) (Goto (to 454)))
    (IfGeq 91 (Goto (to 0)) (Goto (to 454)))) (Goto (to 0))))"

definition uri_st1 :: "uri_action move test" where
  "uri_st1 = IfLess 65 (IfIn 48 57 (Goto (to 2)) (Goto (to 0))) (IfGreater 70 (IfIn 97 102 (Goto (to 2)) (Goto
    (to 0))) (Goto (to 2)))"

definition uri_st2 :: "uri_action move test" where
  "uri_st2 = IfLess 65 (IfIn 48 57 (Goto (to 454)) (Goto (to 0))) (IfGreater 70 (IfIn 97 102 (Goto (to 454))
    (Goto (to 0))) (Goto (to 454)))"

definition uri_st3 :: "uri_action move test" where
  "uri_st3 = IfLess 65 (IfIn 48 57 (Goto (to 4)) (Goto (to 0))) (IfGreater 70 (IfIn 97 102 (Goto (to 4)) (Goto
    (to 0))) (Goto (to 4)))"

definition uri_st4 :: "uri_action move test" where
  "uri_st4 = IfLess 65 (IfIn 48 57 (Goto (to 452)) (Goto (to 0))) (IfGreater 70 (IfIn 97 102 (Goto (to 452))
    (Goto (to 0))) (Goto (to 452)))"

definition uri_st455 :: "uri_action move test" where
  "uri_st455 = Switch [(34, to 0), (35, to 453), (37, to 5), (60, to 0), (62, to 0), (63, to 456), (96, to 0),
    (127, to 0)] (IfLess 91 (IfIn 0 32 (Goto (to 0)) (Goto (to 455))) (IfGreater 94 (IfIn 123 125 (Goto (to 0))
    (Goto (to 455))) (Goto (to 0))))"

definition uri_st5 :: "uri_action move test" where
  "uri_st5 = IfLess 65 (IfIn 48 57 (Goto (to 6)) (Goto (to 0))) (IfGreater 70 (IfIn 97 102 (Goto (to 6)) (Goto
    (to 0))) (Goto (to 6)))"

definition uri_st6 :: "uri_action move test" where
  "uri_st6 = IfLess 65 (IfIn 48 57 (Goto (to 455)) (Goto (to 0))) (IfGreater 70 (IfIn 97 102 (Goto (to 455))
    (Goto (to 0))) (Goto (to 455)))"

definition uri_st456 :: "uri_action move test" where
  "uri_st456 = Switch [(34, to 0), (35, uri_tr467), (37, uri_tr468), (60, to 0), (62, to 0), (96, to 0), (127,
    to 0)] (IfLess 91 (IfIn 0 32 (Goto (to 0)) (Goto uri_tr466)) (IfGreater 94 (IfIn 123 125 (Goto (to 0)) (Goto
    uri_tr466)) (Goto (to 0))))"

definition uri_st457 :: "uri_action move test" where
  "uri_st457 = Switch [(34, to 0), (35, uri_tr469), (37, to 7), (60, to 0), (62, to 0), (96, to 0), (127, to
    0)] (IfLess 91 (IfIn 0 32 (Goto (to 0)) (Goto (to 457))) (IfGreater 94 (IfIn 123 125 (Goto (to 0)) (Goto (to
    457))) (Goto (to 0))))"

definition uri_st7 :: "uri_action move test" where
  "uri_st7 = IfLess 65 (IfIn 48 57 (Goto (to 8)) (Goto (to 0))) (IfGreater 70 (IfIn 97 102 (Goto (to 8)) (Goto
    (to 0))) (Goto (to 8)))"

definition uri_st8 :: "uri_action move test" where
  "uri_st8 = IfLess 65 (IfIn 48 57 (Goto (to 457)) (Goto (to 0))) (IfGreater 70 (IfIn 97 102 (Goto (to 457))
    (Goto (to 0))) (Goto (to 457)))"

definition uri_st458 :: "uri_action move test" where
  "uri_st458 = Switch [(34, to 0), (35, to 453), (37, to 5), (47, to 459), (60, to 0), (62, to 0), (63, to
    456), (96, to 0), (127, to 0)] (IfLess 91 (IfIn 0 32 (Goto (to 0)) (Goto (to 455))) (IfGreater 94 (IfIn 123
    125 (Goto (to 0)) (Goto (to 455))) (Goto (to 0))))"

definition uri_st459 :: "uri_action move test" where
  "uri_st459 = Switch [(2, uri_tr472), (33, uri_tr473), (35, uri_tr474), (37, uri_tr475), (47, uri_tr476),
    (48, uri_tr477), (49, uri_tr478), (50, uri_tr479), (58, uri_tr481), (59, uri_tr473), (61, uri_tr473), (63,
    uri_tr482), (64, uri_tr483), (91, uri_tr484), (95, uri_tr473), (126, uri_tr473)] (IfLess 51 (IfIn 36 46
    (Goto uri_tr473) (Goto (to 0))) (IfGreater 57 (IfGreater 90 (IfIn 97 122 (Goto uri_tr473) (Goto (to 0)))
    (IfGeq 65 (Goto uri_tr473) (Goto (to 0)))) (Goto uri_tr480)))"

definition uri_st9 :: "uri_action move test" where
  "uri_st9 = IfIn 48 52 (Goto (to 10)) (Goto (to 0))"

definition uri_st10 :: "uri_action move test" where
  "uri_st10 = IfIn 48 57 (Goto (to 11)) (Goto (to 0))"

definition uri_st11 :: "uri_action move test" where
  "uri_st11 = IfEq 46 (Goto (to 12)) (Goto (to 0))"

definition uri_st12 :: "uri_action move test" where
  "uri_st12 = Switch [(2, to 13), (48, to 15), (49, to 27), (50, to 29)] (IfIn 51 57 (Goto (to 28)) (Goto (to
    0)))"

definition uri_st13 :: "uri_action move test" where
  "uri_st13 = IfIn 48 52 (Goto (to 14)) (Goto (to 0))"

definition uri_st14 :: "uri_action move test" where
  "uri_st14 = IfIn 48 57 (Goto (to 15)) (Goto (to 0))"

definition uri_st15 :: "uri_action move test" where
  "uri_st15 = IfEq 46 (Goto (to 16)) (Goto (to 0))"

definition uri_st16 :: "uri_action move test" where
  "uri_st16 = Switch [(2, to 17), (48, to 19), (49, to 23), (50, to 25)] (IfIn 51 57 (Goto (to 24)) (Goto (to
    0)))"

definition uri_st17 :: "uri_action move test" where
  "uri_st17 = IfIn 48 52 (Goto (to 18)) (Goto (to 0))"

definition uri_st18 :: "uri_action move test" where
  "uri_st18 = IfIn 48 57 (Goto (to 19)) (Goto (to 0))"

definition uri_st19 :: "uri_action move test" where
  "uri_st19 = IfEq 46 (Goto (to 20)) (Goto (to 0))"

definition uri_st20 :: "uri_action move test" where
  "uri_st20 = Switch [(2, to 21), (48, to 460), (49, to 463), (50, to 465)] (IfIn 51 57 (Goto (to 464)) (Goto
    (to 0)))"

definition uri_st21 :: "uri_action move test" where
  "uri_st21 = IfIn 48 52 (Goto (to 22)) (Goto (to 0))"

definition uri_st22 :: "uri_action move test" where
  "uri_st22 = IfIn 48 57 (Goto (to 460)) (Goto (to 0))"

definition uri_st460 :: "uri_action move test" where
  "uri_st460 = Switch [(35, uri_tr485), (47, uri_tr486), (58, uri_tr487), (63, uri_tr488)] (Goto (to 0))"

definition uri_st461 :: "uri_action move test" where
  "uri_st461 = Switch [(35, uri_tr489), (47, uri_tr490), (63, uri_tr492)] (IfIn 48 57 (Goto uri_tr491) (Goto
    (to 0)))"

definition uri_st462 :: "uri_action move test" where
  "uri_st462 = Switch [(35, uri_tr493), (47, uri_tr494), (63, uri_tr496)] (IfIn 48 57 (Goto (to 462)) (Goto
    (to 0)))"

definition uri_st463 :: "uri_action move test" where
  "uri_st463 = Switch [(35, uri_tr485), (47, uri_tr486), (58, uri_tr487), (63, uri_tr488)] (IfIn 48 57 (Goto
    (to 464)) (Goto (to 0)))"

definition uri_st464 :: "uri_action move test" where
  "uri_st464 = Switch [(35, uri_tr485), (47, uri_tr486), (58, uri_tr487), (63, uri_tr488)] (IfIn 48 57 (Goto
    (to 460)) (Goto (to 0)))"

definition uri_st465 :: "uri_action move test" where
  "uri_st465 = Switch [(35, uri_tr485), (47, uri_tr486), (53, to 466), (58, uri_tr487), (63, uri_tr488)] (IfIn
    48 57 (Goto (to 460)) (Goto (to 0)))"

definition uri_st466 :: "uri_action move test" where
  "uri_st466 = Switch [(35, uri_tr485), (47, uri_tr486), (58, uri_tr487), (63, uri_tr488)] (IfIn 48 53 (Goto
    (to 460)) (Goto (to 0)))"

definition uri_st23 :: "uri_action move test" where
  "uri_st23 = IfEq 46 (Goto (to 20)) (IfIn 48 57 (Goto (to 24)) (Goto (to 0)))"

definition uri_st24 :: "uri_action move test" where
  "uri_st24 = IfEq 46 (Goto (to 20)) (IfIn 48 57 (Goto (to 19)) (Goto (to 0)))"

definition uri_st25 :: "uri_action move test" where
  "uri_st25 = Switch [(46, to 20), (53, to 26)] (IfIn 48 57 (Goto (to 19)) (Goto (to 0)))"

definition uri_st26 :: "uri_action move test" where
  "uri_st26 = IfEq 46 (Goto (to 20)) (IfIn 48 53 (Goto (to 19)) (Goto (to 0)))"

definition uri_st27 :: "uri_action move test" where
  "uri_st27 = IfEq 46 (Goto (to 16)) (IfIn 48 57 (Goto (to 28)) (Goto (to 0)))"

definition uri_st28 :: "uri_action move test" where
  "uri_st28 = IfEq 46 (Goto (to 16)) (IfIn 48 57 (Goto (to 15)) (Goto (to 0)))"

definition uri_st29 :: "uri_action move test" where
  "uri_st29 = Switch [(46, to 16), (53, to 30)] (IfIn 48 57 (Goto (to 15)) (Goto (to 0)))"

definition uri_st30 :: "uri_action move test" where
  "uri_st30 = IfEq 46 (Goto (to 16)) (IfIn 48 53 (Goto (to 15)) (Goto (to 0)))"

definition uri_st467 :: "uri_action move test" where
  "uri_st467 = Switch [(33, to 467), (35, uri_tr485), (37, to 31), (47, uri_tr486), (58, uri_tr499), (61, to
    467), (63, uri_tr488), (64, uri_tr38), (95, to 467), (126, to 467)] (IfLess 65 (IfIn 36 59 (Goto (to 467))
    (Goto (to 0))) (IfGreater 90 (IfIn 97 122 (Goto (to 467)) (Goto (to 0))) (Goto (to 467))))"

definition uri_st31 :: "uri_action move test" where
  "uri_st31 = IfLess 65 (IfIn 48 57 (Goto (to 32)) (Goto (to 0))) (IfGreater 70 (IfIn 97 102 (Goto (to 32))
    (Goto (to 0))) (Goto (to 32)))"

definition uri_st32 :: "uri_action move test" where
  "uri_st32 = IfLess 65 (IfIn 48 57 (Goto (to 467)) (Goto (to 0))) (IfGreater 70 (IfIn 97 102 (Goto (to 467))
    (Goto (to 0))) (Goto (to 467)))"

definition uri_st468 :: "uri_action move test" where
  "uri_st468 = Switch [(33, to 33), (35, uri_tr489), (37, to 34), (47, uri_tr490), (61, to 33), (63,
    uri_tr492), (64, uri_tr38), (95, to 33), (126, to 33)] (IfLess 58 (IfGreater 46 (IfIn 48 57 (Goto uri_tr500)
    (Goto (to 0))) (IfGeq 36 (Goto (to 33)) (Goto (to 0)))) (IfGreater 59 (IfGreater 90 (IfIn 97 122 (Goto (to
    33)) (Goto (to 0))) (IfGeq 65 (Goto (to 33)) (Goto (to 0)))) (Goto (to 33))))"

definition uri_st33 :: "uri_action move test" where
  "uri_st33 = Switch [(33, to 33), (37, to 34), (61, to 33), (64, uri_tr38), (95, to 33), (126, to 33)]
    (IfLess 48 (IfIn 36 46 (Goto (to 33)) (Goto (to 0))) (IfGreater 59 (IfGreater 90 (IfIn 97 122 (Goto (to 33))
    (Goto (to 0))) (IfGeq 65 (Goto (to 33)) (Goto (to 0)))) (Goto (to 33))))"

definition uri_st34 :: "uri_action move test" where
  "uri_st34 = IfLess 65 (IfIn 48 57 (Goto (to 35)) (Goto (to 0))) (IfGreater 70 (IfIn 97 102 (Goto (to 35))
    (Goto (to 0))) (Goto (to 35)))"

definition uri_st35 :: "uri_action move test" where
  "uri_st35 = IfLess 65 (IfIn 48 57 (Goto (to 33)) (Goto (to 0))) (IfGreater 70 (IfIn 97 102 (Goto (to 33))
    (Goto (to 0))) (Goto (to 33)))"

definition uri_st469 :: "uri_action move test" where
  "uri_st469 = Switch [(2, uri_tr472), (33, uri_tr501), (35, uri_tr474), (37, uri_tr502), (47, uri_tr476),
    (48, uri_tr503), (49, uri_tr504), (50, uri_tr505), (58, uri_tr507), (59, uri_tr501), (61, uri_tr501), (63,
    uri_tr482), (91, uri_tr484), (95, uri_tr501), (126, uri_tr501)] (IfLess 51 (IfIn 36 46 (Goto uri_tr501)
    (Goto (to 0))) (IfGreater 57 (IfGreater 90 (IfIn 97 122 (Goto uri_tr501) (Goto (to 0))) (IfGeq 65 (Goto
    uri_tr501) (Goto (to 0)))) (Goto uri_tr506)))"

definition uri_st470 :: "uri_action move test" where
  "uri_st470 = Switch [(33, to 470), (35, uri_tr485), (37, to 36), (47, uri_tr486), (58, uri_tr487), (61, to
    470), (63, uri_tr488), (95, to 470), (126, to 470)] (IfLess 65 (IfIn 36 59 (Goto (to 470)) (Goto (to 0)))
    (IfGreater 90 (IfIn 97 122 (Goto (to 470)) (Goto (to 0))) (Goto (to 470))))"

definition uri_st36 :: "uri_action move test" where
  "uri_st36 = IfLess 65 (IfIn 48 57 (Goto (to 37)) (Goto (to 0))) (IfGreater 70 (IfIn 97 102 (Goto (to 37))
    (Goto (to 0))) (Goto (to 37)))"

definition uri_st37 :: "uri_action move test" where
  "uri_st37 = IfLess 65 (IfIn 48 57 (Goto (to 470)) (Goto (to 0))) (IfGreater 70 (IfIn 97 102 (Goto (to 470))
    (Goto (to 0))) (Goto (to 470)))"

definition uri_st471 :: "uri_action move test" where
  "uri_st471 = Switch [(33, to 470), (35, uri_tr485), (37, to 36), (46, to 472), (47, uri_tr486), (58,
    uri_tr487), (61, to 470), (63, uri_tr488), (95, to 470), (126, to 470)] (IfLess 65 (IfIn 36 59 (Goto (to
    470)) (Goto (to 0))) (IfGreater 90 (IfIn 97 122 (Goto (to 470)) (Goto (to 0))) (Goto (to 470))))"

definition uri_st472 :: "uri_action move test" where
  "uri_st472 = Switch [(2, to 13), (33, to 470), (35, uri_tr485), (37, to 36), (47, uri_tr486), (48, to 473),
    (49, to 481), (50, to 483), (58, uri_tr487), (59, to 470), (61, to 470), (63, uri_tr488), (95, to 470),
    (126, to 470)] (IfLess 51 (IfIn 36 46 (Goto (to 470)) (Goto (to 0))) (IfGreater 57 (IfGreater 90 (IfIn 97
    122 (Goto (to 470)) (Goto (to 0))) (IfGeq 65 (Goto (to 470)) (Goto (to 0)))) (Goto (to 482))))"

definition uri_st473 :: "uri_action move test" where
  "uri_st473 = Switch [(33, to 470), (35, uri_tr485), (37, to 36), (46, to 474), (47, uri_tr486), (58,
    uri_tr487), (61, to 470), (63, uri_tr488), (95, to 470), (126, to 470)] (IfLess 65 (IfIn 36 59 (Goto (to
    470)) (Goto (to 0))) (IfGreater 90 (IfIn 97 122 (Goto (to 470)) (Goto (to 0))) (Goto (to 470))))"

definition uri_st474 :: "uri_action move test" where
  "uri_st474 = Switch [(2, to 17), (33, to 470), (35, uri_tr485), (37, to 36), (47, uri_tr486), (48, to 475),
    (49, to 477), (50, to 479), (58, uri_tr487), (59, to 470), (61, to 470), (63, uri_tr488), (95, to 470),
    (126, to 470)] (IfLess 51 (IfIn 36 46 (Goto (to 470)) (Goto (to 0))) (IfGreater 57 (IfGreater 90 (IfIn 97
    122 (Goto (to 470)) (Goto (to 0))) (IfGeq 65 (Goto (to 470)) (Goto (to 0)))) (Goto (to 478))))"

definition uri_st475 :: "uri_action move test" where
  "uri_st475 = Switch [(33, to 470), (35, uri_tr485), (37, to 36), (46, to 476), (47, uri_tr486), (58,
    uri_tr487), (61, to 470), (63, uri_tr488), (95, to 470), (126, to 470)] (IfLess 65 (IfIn 36 59 (Goto (to
    470)) (Goto (to 0))) (IfGreater 90 (IfIn 97 122 (Goto (to 470)) (Goto (to 0))) (Goto (to 470))))"

definition uri_st476 :: "uri_action move test" where
  "uri_st476 = Switch [(2, to 21), (33, to 470), (35, uri_tr485), (37, to 36), (47, uri_tr486), (58,
    uri_tr487), (61, to 470), (63, uri_tr488), (95, to 470), (126, to 470)] (IfLess 65 (IfIn 36 59 (Goto (to
    470)) (Goto (to 0))) (IfGreater 90 (IfIn 97 122 (Goto (to 470)) (Goto (to 0))) (Goto (to 470))))"

definition uri_st477 :: "uri_action move test" where
  "uri_st477 = Switch [(33, to 470), (35, uri_tr485), (37, to 36), (46, to 476), (47, uri_tr486), (58,
    uri_tr487), (59, to 470), (61, to 470), (63, uri_tr488), (95, to 470), (126, to 470)] (IfLess 48 (IfIn 36 45
    (Goto (to 470)) (Goto (to 0))) (IfGreater 57 (IfGreater 90 (IfIn 97 122 (Goto (to 470)) (Goto (to 0)))
    (IfGeq 65 (Goto (to 470)) (Goto (to 0)))) (Goto (to 478))))"

definition uri_st478 :: "uri_action move test" where
  "uri_st478 = Switch [(33, to 470), (35, uri_tr485), (37, to 36), (46, to 476), (47, uri_tr486), (58,
    uri_tr487), (59, to 470), (61, to 470), (63, uri_tr488), (95, to 470), (126, to 470)] (IfLess 48 (IfIn 36 45
    (Goto (to 470)) (Goto (to 0))) (IfGreater 57 (IfGreater 90 (IfIn 97 122 (Goto (to 470)) (Goto (to 0)))
    (IfGeq 65 (Goto (to 470)) (Goto (to 0)))) (Goto (to 475))))"

definition uri_st479 :: "uri_action move test" where
  "uri_st479 = Switch [(33, to 470), (35, uri_tr485), (37, to 36), (46, to 476), (47, uri_tr486), (53, to
    480), (58, uri_tr487), (59, to 470), (61, to 470), (63, uri_tr488), (95, to 470), (126, to 470)] (IfLess 48
    (IfIn 36 45 (Goto (to 470)) (Goto (to 0))) (IfGreater 57 (IfGreater 90 (IfIn 97 122 (Goto (to 470)) (Goto
    (to 0))) (IfGeq 65 (Goto (to 470)) (Goto (to 0)))) (Goto (to 475))))"

definition uri_st480 :: "uri_action move test" where
  "uri_st480 = Switch [(33, to 470), (35, uri_tr485), (37, to 36), (46, to 476), (47, uri_tr486), (58,
    uri_tr487), (61, to 470), (63, uri_tr488), (95, to 470), (126, to 470)] (IfLess 54 (IfGreater 45 (IfIn 48 53
    (Goto (to 475)) (Goto (to 0))) (IfGeq 36 (Goto (to 470)) (Goto (to 0)))) (IfGreater 59 (IfGreater 90 (IfIn
    97 122 (Goto (to 470)) (Goto (to 0))) (IfGeq 65 (Goto (to 470)) (Goto (to 0)))) (Goto (to 470))))"

definition uri_st481 :: "uri_action move test" where
  "uri_st481 = Switch [(33, to 470), (35, uri_tr485), (37, to 36), (46, to 474), (47, uri_tr486), (58,
    uri_tr487), (59, to 470), (61, to 470), (63, uri_tr488), (95, to 470), (126, to 470)] (IfLess 48 (IfIn 36 45
    (Goto (to 470)) (Goto (to 0))) (IfGreater 57 (IfGreater 90 (IfIn 97 122 (Goto (to 470)) (Goto (to 0)))
    (IfGeq 65 (Goto (to 470)) (Goto (to 0)))) (Goto (to 482))))"

definition uri_st482 :: "uri_action move test" where
  "uri_st482 = Switch [(33, to 470), (35, uri_tr485), (37, to 36), (46, to 474), (47, uri_tr486), (58,
    uri_tr487), (59, to 470), (61, to 470), (63, uri_tr488), (95, to 470), (126, to 470)] (IfLess 48 (IfIn 36 45
    (Goto (to 470)) (Goto (to 0))) (IfGreater 57 (IfGreater 90 (IfIn 97 122 (Goto (to 470)) (Goto (to 0)))
    (IfGeq 65 (Goto (to 470)) (Goto (to 0)))) (Goto (to 473))))"

definition uri_st483 :: "uri_action move test" where
  "uri_st483 = Switch [(33, to 470), (35, uri_tr485), (37, to 36), (46, to 474), (47, uri_tr486), (53, to
    484), (58, uri_tr487), (59, to 470), (61, to 470), (63, uri_tr488), (95, to 470), (126, to 470)] (IfLess 48
    (IfIn 36 45 (Goto (to 470)) (Goto (to 0))) (IfGreater 57 (IfGreater 90 (IfIn 97 122 (Goto (to 470)) (Goto
    (to 0))) (IfGeq 65 (Goto (to 470)) (Goto (to 0)))) (Goto (to 473))))"

definition uri_st484 :: "uri_action move test" where
  "uri_st484 = Switch [(33, to 470), (35, uri_tr485), (37, to 36), (46, to 474), (47, uri_tr486), (58,
    uri_tr487), (61, to 470), (63, uri_tr488), (95, to 470), (126, to 470)] (IfLess 54 (IfGreater 45 (IfIn 48 53
    (Goto (to 473)) (Goto (to 0))) (IfGeq 36 (Goto (to 470)) (Goto (to 0)))) (IfGreater 59 (IfGreater 90 (IfIn
    97 122 (Goto (to 470)) (Goto (to 0))) (IfGeq 65 (Goto (to 470)) (Goto (to 0)))) (Goto (to 470))))"

definition uri_st485 :: "uri_action move test" where
  "uri_st485 = Switch [(33, to 470), (35, uri_tr485), (37, to 36), (46, to 472), (47, uri_tr486), (58,
    uri_tr487), (59, to 470), (61, to 470), (63, uri_tr488), (95, to 470), (126, to 470)] (IfLess 48 (IfIn 36 45
    (Goto (to 470)) (Goto (to 0))) (IfGreater 57 (IfGreater 90 (IfIn 97 122 (Goto (to 470)) (Goto (to 0)))
    (IfGeq 65 (Goto (to 470)) (Goto (to 0)))) (Goto (to 486))))"

definition uri_st486 :: "uri_action move test" where
  "uri_st486 = Switch [(33, to 470), (35, uri_tr485), (37, to 36), (46, to 472), (47, uri_tr486), (58,
    uri_tr487), (59, to 470), (61, to 470), (63, uri_tr488), (95, to 470), (126, to 470)] (IfLess 48 (IfIn 36 45
    (Goto (to 470)) (Goto (to 0))) (IfGreater 57 (IfGreater 90 (IfIn 97 122 (Goto (to 470)) (Goto (to 0)))
    (IfGeq 65 (Goto (to 470)) (Goto (to 0)))) (Goto (to 471))))"

definition uri_st487 :: "uri_action move test" where
  "uri_st487 = Switch [(33, to 470), (35, uri_tr485), (37, to 36), (46, to 472), (47, uri_tr486), (53, to
    488), (58, uri_tr487), (59, to 470), (61, to 470), (63, uri_tr488), (95, to 470), (126, to 470)] (IfLess 48
    (IfIn 36 45 (Goto (to 470)) (Goto (to 0))) (IfGreater 57 (IfGreater 90 (IfIn 97 122 (Goto (to 470)) (Goto
    (to 0))) (IfGeq 65 (Goto (to 470)) (Goto (to 0)))) (Goto (to 471))))"

definition uri_st488 :: "uri_action move test" where
  "uri_st488 = Switch [(33, to 470), (35, uri_tr485), (37, to 36), (46, to 472), (47, uri_tr486), (58,
    uri_tr487), (61, to 470), (63, uri_tr488), (95, to 470), (126, to 470)] (IfLess 54 (IfGreater 45 (IfIn 48 53
    (Goto (to 471)) (Goto (to 0))) (IfGeq 36 (Goto (to 470)) (Goto (to 0)))) (IfGreater 59 (IfGreater 90 (IfIn
    97 122 (Goto (to 470)) (Goto (to 0))) (IfGeq 65 (Goto (to 470)) (Goto (to 0)))) (Goto (to 470))))"

definition uri_st38 :: "uri_action move test" where
  "uri_st38 = Switch [(58, to 146), (118, to 225)] (IfLess 65 (IfIn 48 57 (Goto (to 39)) (Goto (to 0)))
    (IfGreater 70 (IfIn 97 102 (Goto (to 39)) (Goto (to 0))) (Goto (to 39))))"

definition uri_st39 :: "uri_action move test" where
  "uri_st39 = IfEq 58 (Goto (to 43)) (IfLess 65 (IfIn 48 57 (Goto (to 40)) (Goto (to 0))) (IfGreater 70 (IfIn
    97 102 (Goto (to 40)) (Goto (to 0))) (Goto (to 40))))"

definition uri_st40 :: "uri_action move test" where
  "uri_st40 = IfEq 58 (Goto (to 43)) (IfLess 65 (IfIn 48 57 (Goto (to 41)) (Goto (to 0))) (IfGreater 70 (IfIn
    97 102 (Goto (to 41)) (Goto (to 0))) (Goto (to 41))))"

definition uri_st41 :: "uri_action move test" where
  "uri_st41 = IfEq 58 (Goto (to 43)) (IfLess 65 (IfIn 48 57 (Goto (to 42)) (Goto (to 0))) (IfGreater 70 (IfIn
    97 102 (Goto (to 42)) (Goto (to 0))) (Goto (to 42))))"

definition uri_st42 :: "uri_action move test" where
  "uri_st42 = IfEq 58 (Goto (to 43)) (Goto (to 0))"

definition uri_st43 :: "uri_action move test" where
  "uri_st43 = IfEq 58 (Goto (to 141)) (IfLess 65 (IfIn 48 57 (Goto (to 44)) (Goto (to 0))) (IfGreater 70 (IfIn
    97 102 (Goto (to 44)) (Goto (to 0))) (Goto (to 44))))"

definition uri_st44 :: "uri_action move test" where
  "uri_st44 = IfEq 58 (Goto (to 48)) (IfLess 65 (IfIn 48 57 (Goto (to 45)) (Goto (to 0))) (IfGreater 70 (IfIn
    97 102 (Goto (to 45)) (Goto (to 0))) (Goto (to 45))))"

definition uri_st45 :: "uri_action move test" where
  "uri_st45 = IfEq 58 (Goto (to 48)) (IfLess 65 (IfIn 48 57 (Goto (to 46)) (Goto (to 0))) (IfGreater 70 (IfIn
    97 102 (Goto (to 46)) (Goto (to 0))) (Goto (to 46))))"

definition uri_st46 :: "uri_action move test" where
  "uri_st46 = IfEq 58 (Goto (to 48)) (IfLess 65 (IfIn 48 57 (Goto (to 47)) (Goto (to 0))) (IfGreater 70 (IfIn
    97 102 (Goto (to 47)) (Goto (to 0))) (Goto (to 47))))"

definition uri_st47 :: "uri_action move test" where
  "uri_st47 = IfEq 58 (Goto (to 48)) (Goto (to 0))"

definition uri_st48 :: "uri_action move test" where
  "uri_st48 = IfEq 58 (Goto (to 136)) (IfLess 65 (IfIn 48 57 (Goto (to 49)) (Goto (to 0))) (IfGreater 70 (IfIn
    97 102 (Goto (to 49)) (Goto (to 0))) (Goto (to 49))))"

definition uri_st49 :: "uri_action move test" where
  "uri_st49 = IfEq 58 (Goto (to 53)) (IfLess 65 (IfIn 48 57 (Goto (to 50)) (Goto (to 0))) (IfGreater 70 (IfIn
    97 102 (Goto (to 50)) (Goto (to 0))) (Goto (to 50))))"

definition uri_st50 :: "uri_action move test" where
  "uri_st50 = IfEq 58 (Goto (to 53)) (IfLess 65 (IfIn 48 57 (Goto (to 51)) (Goto (to 0))) (IfGreater 70 (IfIn
    97 102 (Goto (to 51)) (Goto (to 0))) (Goto (to 51))))"

definition uri_st51 :: "uri_action move test" where
  "uri_st51 = IfEq 58 (Goto (to 53)) (IfLess 65 (IfIn 48 57 (Goto (to 52)) (Goto (to 0))) (IfGreater 70 (IfIn
    97 102 (Goto (to 52)) (Goto (to 0))) (Goto (to 52))))"

definition uri_st52 :: "uri_action move test" where
  "uri_st52 = IfEq 58 (Goto (to 53)) (Goto (to 0))"

definition uri_st53 :: "uri_action move test" where
  "uri_st53 = IfEq 58 (Goto (to 131)) (IfLess 65 (IfIn 48 57 (Goto (to 54)) (Goto (to 0))) (IfGreater 70 (IfIn
    97 102 (Goto (to 54)) (Goto (to 0))) (Goto (to 54))))"

definition uri_st54 :: "uri_action move test" where
  "uri_st54 = IfEq 58 (Goto (to 58)) (IfLess 65 (IfIn 48 57 (Goto (to 55)) (Goto (to 0))) (IfGreater 70 (IfIn
    97 102 (Goto (to 55)) (Goto (to 0))) (Goto (to 55))))"

definition uri_st55 :: "uri_action move test" where
  "uri_st55 = IfEq 58 (Goto (to 58)) (IfLess 65 (IfIn 48 57 (Goto (to 56)) (Goto (to 0))) (IfGreater 70 (IfIn
    97 102 (Goto (to 56)) (Goto (to 0))) (Goto (to 56))))"

definition uri_st56 :: "uri_action move test" where
  "uri_st56 = IfEq 58 (Goto (to 58)) (IfLess 65 (IfIn 48 57 (Goto (to 57)) (Goto (to 0))) (IfGreater 70 (IfIn
    97 102 (Goto (to 57)) (Goto (to 0))) (Goto (to 57))))"

definition uri_st57 :: "uri_action move test" where
  "uri_st57 = IfEq 58 (Goto (to 58)) (Goto (to 0))"

definition uri_st58 :: "uri_action move test" where
  "uri_st58 = IfEq 58 (Goto (to 126)) (IfLess 65 (IfIn 48 57 (Goto (to 59)) (Goto (to 0))) (IfGreater 70 (IfIn
    97 102 (Goto (to 59)) (Goto (to 0))) (Goto (to 59))))"

definition uri_st59 :: "uri_action move test" where
  "uri_st59 = IfEq 58 (Goto (to 63)) (IfLess 65 (IfIn 48 57 (Goto (to 60)) (Goto (to 0))) (IfGreater 70 (IfIn
    97 102 (Goto (to 60)) (Goto (to 0))) (Goto (to 60))))"

definition uri_st60 :: "uri_action move test" where
  "uri_st60 = IfEq 58 (Goto (to 63)) (IfLess 65 (IfIn 48 57 (Goto (to 61)) (Goto (to 0))) (IfGreater 70 (IfIn
    97 102 (Goto (to 61)) (Goto (to 0))) (Goto (to 61))))"

definition uri_st61 :: "uri_action move test" where
  "uri_st61 = IfEq 58 (Goto (to 63)) (IfLess 65 (IfIn 48 57 (Goto (to 62)) (Goto (to 0))) (IfGreater 70 (IfIn
    97 102 (Goto (to 62)) (Goto (to 0))) (Goto (to 62))))"

definition uri_st62 :: "uri_action move test" where
  "uri_st62 = IfEq 58 (Goto (to 63)) (Goto (to 0))"

definition uri_st63 :: "uri_action move test" where
  "uri_st63 = IfEq 58 (Goto (to 113)) (IfLess 65 (IfIn 48 57 (Goto (to 64)) (Goto (to 0))) (IfGreater 70 (IfIn
    97 102 (Goto (to 64)) (Goto (to 0))) (Goto (to 64))))"

definition uri_st64 :: "uri_action move test" where
  "uri_st64 = IfEq 58 (Goto (to 68)) (IfLess 65 (IfIn 48 57 (Goto (to 65)) (Goto (to 0))) (IfGreater 70 (IfIn
    97 102 (Goto (to 65)) (Goto (to 0))) (Goto (to 65))))"

definition uri_st65 :: "uri_action move test" where
  "uri_st65 = IfEq 58 (Goto (to 68)) (IfLess 65 (IfIn 48 57 (Goto (to 66)) (Goto (to 0))) (IfGreater 70 (IfIn
    97 102 (Goto (to 66)) (Goto (to 0))) (Goto (to 66))))"

definition uri_st66 :: "uri_action move test" where
  "uri_st66 = IfEq 58 (Goto (to 68)) (IfLess 65 (IfIn 48 57 (Goto (to 67)) (Goto (to 0))) (IfGreater 70 (IfIn
    97 102 (Goto (to 67)) (Goto (to 0))) (Goto (to 67))))"

definition uri_st67 :: "uri_action move test" where
  "uri_st67 = IfEq 58 (Goto (to 68)) (Goto (to 0))"

definition uri_st68 :: "uri_action move test" where
  "uri_st68 = Switch [(2, to 69), (48, to 96), (49, to 104), (50, to 107), (58, to 111)] (IfLess 65 (IfIn 51
    57 (Goto (to 110)) (Goto (to 0))) (IfGreater 70 (IfIn 97 102 (Goto (to 112)) (Goto (to 0))) (Goto (to
    112))))"

definition uri_st69 :: "uri_action move test" where
  "uri_st69 = IfIn 48 52 (Goto (to 70)) (Goto (to 0))"

definition uri_st70 :: "uri_action move test" where
  "uri_st70 = IfIn 48 57 (Goto (to 71)) (Goto (to 0))"

definition uri_st71 :: "uri_action move test" where
  "uri_st71 = IfEq 46 (Goto (to 72)) (Goto (to 0))"

definition uri_st72 :: "uri_action move test" where
  "uri_st72 = Switch [(2, to 73), (48, to 75), (49, to 92), (50, to 94)] (IfIn 51 57 (Goto (to 93)) (Goto (to
    0)))"

definition uri_st73 :: "uri_action move test" where
  "uri_st73 = IfIn 48 52 (Goto (to 74)) (Goto (to 0))"

definition uri_st74 :: "uri_action move test" where
  "uri_st74 = IfIn 48 57 (Goto (to 75)) (Goto (to 0))"

definition uri_st75 :: "uri_action move test" where
  "uri_st75 = IfEq 46 (Goto (to 76)) (Goto (to 0))"

definition uri_st76 :: "uri_action move test" where
  "uri_st76 = Switch [(2, to 77), (48, to 79), (49, to 88), (50, to 90)] (IfIn 51 57 (Goto (to 89)) (Goto (to
    0)))"

definition uri_st77 :: "uri_action move test" where
  "uri_st77 = IfIn 48 52 (Goto (to 78)) (Goto (to 0))"

definition uri_st78 :: "uri_action move test" where
  "uri_st78 = IfIn 48 57 (Goto (to 79)) (Goto (to 0))"

definition uri_st79 :: "uri_action move test" where
  "uri_st79 = IfEq 46 (Goto (to 80)) (Goto (to 0))"

definition uri_st80 :: "uri_action move test" where
  "uri_st80 = Switch [(2, to 81), (48, to 83), (49, to 84), (50, to 86)] (IfIn 51 57 (Goto (to 85)) (Goto (to
    0)))"

definition uri_st81 :: "uri_action move test" where
  "uri_st81 = IfIn 48 52 (Goto (to 82)) (Goto (to 0))"

definition uri_st82 :: "uri_action move test" where
  "uri_st82 = IfIn 48 57 (Goto (to 83)) (Goto (to 0))"

definition uri_st83 :: "uri_action move test" where
  "uri_st83 = IfEq 93 (Goto (to 460)) (Goto (to 0))"

definition uri_st84 :: "uri_action move test" where
  "uri_st84 = IfEq 93 (Goto (to 460)) (IfIn 48 57 (Goto (to 85)) (Goto (to 0)))"

definition uri_st85 :: "uri_action move test" where
  "uri_st85 = IfEq 93 (Goto (to 460)) (IfIn 48 57 (Goto (to 83)) (Goto (to 0)))"

definition uri_st86 :: "uri_action move test" where
  "uri_st86 = Switch [(53, to 87), (93, to 460)] (IfIn 48 57 (Goto (to 83)) (Goto (to 0)))"

definition uri_st87 :: "uri_action move test" where
  "uri_st87 = IfEq 93 (Goto (to 460)) (IfIn 48 53 (Goto (to 83)) (Goto (to 0)))"

definition uri_st88 :: "uri_action move test" where
  "uri_st88 = IfEq 46 (Goto (to 80)) (IfIn 48 57 (Goto (to 89)) (Goto (to 0)))"

definition uri_st89 :: "uri_action move test" where
  "uri_st89 = IfEq 46 (Goto (to 80)) (IfIn 48 57 (Goto (to 79)) (Goto (to 0)))"

definition uri_st90 :: "uri_action move test" where
  "uri_st90 = Switch [(46, to 80), (53, to 91)] (IfIn 48 57 (Goto (to 79)) (Goto (to 0)))"

definition uri_st91 :: "uri_action move test" where
  "uri_st91 = IfEq 46 (Goto (to 80)) (IfIn 48 53 (Goto (to 79)) (Goto (to 0)))"

definition uri_st92 :: "uri_action move test" where
  "uri_st92 = IfEq 46 (Goto (to 76)) (IfIn 48 57 (Goto (to 93)) (Goto (to 0)))"

definition uri_st93 :: "uri_action move test" where
  "uri_st93 = IfEq 46 (Goto (to 76)) (IfIn 48 57 (Goto (to 75)) (Goto (to 0)))"

definition uri_st94 :: "uri_action move test" where
  "uri_st94 = Switch [(46, to 76), (53, to 95)] (IfIn 48 57 (Goto (to 75)) (Goto (to 0)))"

definition uri_st95 :: "uri_action move test" where
  "uri_st95 = IfEq 46 (Goto (to 76)) (IfIn 48 53 (Goto (to 75)) (Goto (to 0)))"

definition uri_st96 :: "uri_action move test" where
  "uri_st96 = Switch [(46, to 72), (58, to 100)] (IfLess 65 (IfIn 48 57 (Goto (to 97)) (Goto (to 0)))
    (IfGreater 70 (IfIn 97 102 (Goto (to 97)) (Goto (to 0))) (Goto (to 97))))"

definition uri_st97 :: "uri_action move test" where
  "uri_st97 = IfEq 58 (Goto (to 100)) (IfLess 65 (IfIn 48 57 (Goto (to 98)) (Goto (to 0))) (IfGreater 70 (IfIn
    97 102 (Goto (to 98)) (Goto (to 0))) (Goto (to 98))))"

definition uri_st98 :: "uri_action move test" where
  "uri_st98 = IfEq 58 (Goto (to 100)) (IfLess 65 (IfIn 48 57 (Goto (to 99)) (Goto (to 0))) (IfGreater 70 (IfIn
    97 102 (Goto (to 99)) (Goto (to 0))) (Goto (to 99))))"

definition uri_st99 :: "uri_action move test" where
  "uri_st99 = IfEq 58 (Goto (to 100)) (Goto (to 0))"

definition uri_st100 :: "uri_action move test" where
  "uri_st100 = IfEq 58 (Goto (to 83)) (IfLess 65 (IfIn 48 57 (Goto (to 101)) (Goto (to 0))) (IfGreater 70
    (IfIn 97 102 (Goto (to 101)) (Goto (to 0))) (Goto (to 101))))"

definition uri_st101 :: "uri_action move test" where
  "uri_st101 = IfEq 93 (Goto (to 460)) (IfLess 65 (IfIn 48 57 (Goto (to 102)) (Goto (to 0))) (IfGreater 70
    (IfIn 97 102 (Goto (to 102)) (Goto (to 0))) (Goto (to 102))))"

definition uri_st102 :: "uri_action move test" where
  "uri_st102 = IfEq 93 (Goto (to 460)) (IfLess 65 (IfIn 48 57 (Goto (to 103)) (Goto (to 0))) (IfGreater 70
    (IfIn 97 102 (Goto (to 103)) (Goto (to 0))) (Goto (to 103))))"

definition uri_st103 :: "uri_action move test" where
  "uri_st103 = IfEq 93 (Goto (to 460)) (IfLess 65 (IfIn 48 57 (Goto (to 83)) (Goto (to 0))) (IfGreater 70
    (IfIn 97 102 (Goto (to 83)) (Goto (to 0))) (Goto (to 83))))"

definition uri_st104 :: "uri_action move test" where
  "uri_st104 = Switch [(46, to 72), (58, to 100)] (IfLess 65 (IfIn 48 57 (Goto (to 105)) (Goto (to 0)))
    (IfGreater 70 (IfIn 97 102 (Goto (to 97)) (Goto (to 0))) (Goto (to 97))))"

definition uri_st105 :: "uri_action move test" where
  "uri_st105 = Switch [(46, to 72), (58, to 100)] (IfLess 65 (IfIn 48 57 (Goto (to 106)) (Goto (to 0)))
    (IfGreater 70 (IfIn 97 102 (Goto (to 98)) (Goto (to 0))) (Goto (to 98))))"

definition uri_st106 :: "uri_action move test" where
  "uri_st106 = Switch [(46, to 72), (58, to 100)] (IfLess 65 (IfIn 48 57 (Goto (to 99)) (Goto (to 0)))
    (IfGreater 70 (IfIn 97 102 (Goto (to 99)) (Goto (to 0))) (Goto (to 99))))"

definition uri_st107 :: "uri_action move test" where
  "uri_st107 = Switch [(46, to 72), (53, to 109), (58, to 100)] (IfLess 65 (IfIn 48 57 (Goto (to 108)) (Goto
    (to 0))) (IfGreater 70 (IfIn 97 102 (Goto (to 97)) (Goto (to 0))) (Goto (to 97))))"

definition uri_st108 :: "uri_action move test" where
  "uri_st108 = Switch [(46, to 72), (58, to 100)] (IfLess 65 (IfIn 48 57 (Goto (to 98)) (Goto (to 0)))
    (IfGreater 70 (IfIn 97 102 (Goto (to 98)) (Goto (to 0))) (Goto (to 98))))"

definition uri_st109 :: "uri_action move test" where
  "uri_st109 = Switch [(46, to 72), (58, to 100)] (IfLess 54 (IfIn 48 53 (Goto (to 106)) (Goto (to 0)))
    (IfGreater 57 (IfGreater 70 (IfIn 97 102 (Goto (to 98)) (Goto (to 0))) (IfGeq 65 (Goto (to 98)) (Goto (to
    0)))) (Goto (to 98))))"

definition uri_st110 :: "uri_action move test" where
  "uri_st110 = Switch [(46, to 72), (58, to 100)] (IfLess 65 (IfIn 48 57 (Goto (to 108)) (Goto (to 0)))
    (IfGreater 70 (IfIn 97 102 (Goto (to 97)) (Goto (to 0))) (Goto (to 97))))"

definition uri_st111 :: "uri_action move test" where
  "uri_st111 = IfLess 65 (IfIn 48 57 (Goto (to 101)) (Goto (to 0))) (IfGreater 70 (IfIn 97 102 (Goto (to 101))
    (Goto (to 0))) (Goto (to 101)))"

definition uri_st112 :: "uri_action move test" where
  "uri_st112 = IfEq 58 (Goto (to 100)) (IfLess 65 (IfIn 48 57 (Goto (to 97)) (Goto (to 0))) (IfGreater 70
    (IfIn 97 102 (Goto (to 97)) (Goto (to 0))) (Goto (to 97))))"

definition uri_st113 :: "uri_action move test" where
  "uri_st113 = Switch [(2, to 69), (48, to 114), (49, to 118), (50, to 121)] (IfLess 65 (IfIn 51 57 (Goto (to
    124)) (Goto (to 0))) (IfGreater 70 (IfIn 97 102 (Goto (to 125)) (Goto (to 0))) (Goto (to 125))))"

definition uri_st114 :: "uri_action move test" where
  "uri_st114 = Switch [(46, to 72), (58, to 111)] (IfLess 65 (IfIn 48 57 (Goto (to 115)) (Goto (to 0)))
    (IfGreater 70 (IfIn 97 102 (Goto (to 115)) (Goto (to 0))) (Goto (to 115))))"

definition uri_st115 :: "uri_action move test" where
  "uri_st115 = IfEq 58 (Goto (to 111)) (IfLess 65 (IfIn 48 57 (Goto (to 116)) (Goto (to 0))) (IfGreater 70
    (IfIn 97 102 (Goto (to 116)) (Goto (to 0))) (Goto (to 116))))"

definition uri_st116 :: "uri_action move test" where
  "uri_st116 = IfEq 58 (Goto (to 111)) (IfLess 65 (IfIn 48 57 (Goto (to 117)) (Goto (to 0))) (IfGreater 70
    (IfIn 97 102 (Goto (to 117)) (Goto (to 0))) (Goto (to 117))))"

definition uri_st117 :: "uri_action move test" where
  "uri_st117 = IfEq 58 (Goto (to 111)) (Goto (to 0))"

definition uri_st118 :: "uri_action move test" where
  "uri_st118 = Switch [(46, to 72), (58, to 111)] (IfLess 65 (IfIn 48 57 (Goto (to 119)) (Goto (to 0)))
    (IfGreater 70 (IfIn 97 102 (Goto (to 115)) (Goto (to 0))) (Goto (to 115))))"

definition uri_st119 :: "uri_action move test" where
  "uri_st119 = Switch [(46, to 72), (58, to 111)] (IfLess 65 (IfIn 48 57 (Goto (to 120)) (Goto (to 0)))
    (IfGreater 70 (IfIn 97 102 (Goto (to 116)) (Goto (to 0))) (Goto (to 116))))"

definition uri_st120 :: "uri_action move test" where
  "uri_st120 = Switch [(46, to 72), (58, to 111)] (IfLess 65 (IfIn 48 57 (Goto (to 117)) (Goto (to 0)))
    (IfGreater 70 (IfIn 97 102 (Goto (to 117)) (Goto (to 0))) (Goto (to 117))))"

definition uri_st121 :: "uri_action move test" where
  "uri_st121 = Switch [(46, to 72), (53, to 123), (58, to 111)] (IfLess 65 (IfIn 48 57 (Goto (to 122)) (Goto
    (to 0))) (IfGreater 70 (IfIn 97 102 (Goto (to 115)) (Goto (to 0))) (Goto (to 115))))"

definition uri_st122 :: "uri_action move test" where
  "uri_st122 = Switch [(46, to 72), (58, to 111)] (IfLess 65 (IfIn 48 57 (Goto (to 116)) (Goto (to 0)))
    (IfGreater 70 (IfIn 97 102 (Goto (to 116)) (Goto (to 0))) (Goto (to 116))))"

definition uri_st123 :: "uri_action move test" where
  "uri_st123 = Switch [(46, to 72), (58, to 111)] (IfLess 54 (IfIn 48 53 (Goto (to 120)) (Goto (to 0)))
    (IfGreater 57 (IfGreater 70 (IfIn 97 102 (Goto (to 116)) (Goto (to 0))) (IfGeq 65 (Goto (to 116)) (Goto (to
    0)))) (Goto (to 116))))"

definition uri_st124 :: "uri_action move test" where
  "uri_st124 = Switch [(46, to 72), (58, to 111)] (IfLess 65 (IfIn 48 57 (Goto (to 122)) (Goto (to 0)))
    (IfGreater 70 (IfIn 97 102 (Goto (to 115)) (Goto (to 0))) (Goto (to 115))))"

definition uri_st125 :: "uri_action move test" where
  "uri_st125 = IfEq 58 (Goto (to 111)) (IfLess 65 (IfIn 48 57 (Goto (to 115)) (Goto (to 0))) (IfGreater 70
    (IfIn 97 102 (Goto (to 115)) (Goto (to 0))) (Goto (to 115))))"

definition uri_st126 :: "uri_action move test" where
  "uri_st126 = IfLess 65 (IfIn 48 57 (Goto (to 127)) (Goto (to 0))) (IfGreater 70 (IfIn 97 102 (Goto (to 127))
    (Goto (to 0))) (Goto (to 127)))"

definition uri_st127 :: "uri_action move test" where
  "uri_st127 = IfEq 58 (Goto (to 113)) (IfLess 65 (IfIn 48 57 (Goto (to 128)) (Goto (to 0))) (IfGreater 70
    (IfIn 97 102 (Goto (to 128)) (Goto (to 0))) (Goto (to 128))))"

definition uri_st128 :: "uri_action move test" where
  "uri_st128 = IfEq 58 (Goto (to 113)) (IfLess 65 (IfIn 48 57 (Goto (to 129)) (Goto (to 0))) (IfGreater 70
    (IfIn 97 102 (Goto (to 129)) (Goto (to 0))) (Goto (to 129))))"

definition uri_st129 :: "uri_action move test" where
  "uri_st129 = IfEq 58 (Goto (to 113)) (IfLess 65 (IfIn 48 57 (Goto (to 130)) (Goto (to 0))) (IfGreater 70
    (IfIn 97 102 (Goto (to 130)) (Goto (to 0))) (Goto (to 130))))"

definition uri_st130 :: "uri_action move test" where
  "uri_st130 = IfEq 58 (Goto (to 113)) (Goto (to 0))"

definition uri_st131 :: "uri_action move test" where
  "uri_st131 = IfLess 65 (IfIn 48 57 (Goto (to 132)) (Goto (to 0))) (IfGreater 70 (IfIn 97 102 (Goto (to 132))
    (Goto (to 0))) (Goto (to 132)))"

definition uri_st132 :: "uri_action move test" where
  "uri_st132 = IfEq 58 (Goto (to 126)) (IfLess 65 (IfIn 48 57 (Goto (to 133)) (Goto (to 0))) (IfGreater 70
    (IfIn 97 102 (Goto (to 133)) (Goto (to 0))) (Goto (to 133))))"

definition uri_st133 :: "uri_action move test" where
  "uri_st133 = IfEq 58 (Goto (to 126)) (IfLess 65 (IfIn 48 57 (Goto (to 134)) (Goto (to 0))) (IfGreater 70
    (IfIn 97 102 (Goto (to 134)) (Goto (to 0))) (Goto (to 134))))"

definition uri_st134 :: "uri_action move test" where
  "uri_st134 = IfEq 58 (Goto (to 126)) (IfLess 65 (IfIn 48 57 (Goto (to 135)) (Goto (to 0))) (IfGreater 70
    (IfIn 97 102 (Goto (to 135)) (Goto (to 0))) (Goto (to 135))))"

definition uri_st135 :: "uri_action move test" where
  "uri_st135 = IfEq 58 (Goto (to 126)) (Goto (to 0))"

definition uri_st136 :: "uri_action move test" where
  "uri_st136 = IfLess 65 (IfIn 48 57 (Goto (to 137)) (Goto (to 0))) (IfGreater 70 (IfIn 97 102 (Goto (to 137))
    (Goto (to 0))) (Goto (to 137)))"

definition uri_st137 :: "uri_action move test" where
  "uri_st137 = IfEq 58 (Goto (to 131)) (IfLess 65 (IfIn 48 57 (Goto (to 138)) (Goto (to 0))) (IfGreater 70
    (IfIn 97 102 (Goto (to 138)) (Goto (to 0))) (Goto (to 138))))"

definition uri_st138 :: "uri_action move test" where
  "uri_st138 = IfEq 58 (Goto (to 131)) (IfLess 65 (IfIn 48 57 (Goto (to 139)) (Goto (to 0))) (IfGreater 70
    (IfIn 97 102 (Goto (to 139)) (Goto (to 0))) (Goto (to 139))))"

definition uri_st139 :: "uri_action move test" where
  "uri_st139 = IfEq 58 (Goto (to 131)) (IfLess 65 (IfIn 48 57 (Goto (to 140)) (Goto (to 0))) (IfGreater 70
    (IfIn 97 102 (Goto (to 140)) (Goto (to 0))) (Goto (to 140))))"

definition uri_st140 :: "uri_action move test" where
  "uri_st140 = IfEq 58 (Goto (to 131)) (Goto (to 0))"

definition uri_st141 :: "uri_action move test" where
  "uri_st141 = IfLess 65 (IfIn 48 57 (Goto (to 142)) (Goto (to 0))) (IfGreater 70 (IfIn 97 102 (Goto (to 142))
    (Goto (to 0))) (Goto (to 142)))"

definition uri_st142 :: "uri_action move test" where
  "uri_st142 = IfEq 58 (Goto (to 136)) (IfLess 65 (IfIn 48 57 (Goto (to 143)) (Goto (to 0))) (IfGreater 70
    (IfIn 97 102 (Goto (to 143)) (Goto (to 0))) (Goto (to 143))))"

definition uri_st143 :: "uri_action move test" where
  "uri_st143 = IfEq 58 (Goto (to 136)) (IfLess 65 (IfIn 48 57 (Goto (to 144)) (Goto (to 0))) (IfGreater 70
    (IfIn 97 102 (Goto (to 144)) (Goto (to 0))) (Goto (to 144))))"

definition uri_st144 :: "uri_action move test" where
  "uri_st144 = IfEq 58 (Goto (to 136)) (IfLess 65 (IfIn 48 57 (Goto (to 145)) (Goto (to 0))) (IfGreater 70
    (IfIn 97 102 (Goto (to 145)) (Goto (to 0))) (Goto (to 145))))"

definition uri_st145 :: "uri_action move test" where
  "uri_st145 = IfEq 58 (Goto (to 136)) (Goto (to 0))"

definition uri_st146 :: "uri_action move test" where
  "uri_st146 = IfEq 58 (Goto (to 147)) (Goto (to 0))"

definition uri_st147 :: "uri_action move test" where
  "uri_st147 = Switch [(2, to 69), (48, to 148), (49, to 217), (50, to 220), (93, to 460)] (IfLess 65 (IfIn 51
    57 (Goto (to 223)) (Goto (to 0))) (IfGreater 70 (IfIn 97 102 (Goto (to 224)) (Goto (to 0))) (Goto (to
    224))))"

definition uri_st148 :: "uri_action move test" where
  "uri_st148 = Switch [(46, to 72), (58, to 152), (93, to 460)] (IfLess 65 (IfIn 48 57 (Goto (to 149)) (Goto
    (to 0))) (IfGreater 70 (IfIn 97 102 (Goto (to 149)) (Goto (to 0))) (Goto (to 149))))"

definition uri_st149 :: "uri_action move test" where
  "uri_st149 = Switch [(58, to 152), (93, to 460)] (IfLess 65 (IfIn 48 57 (Goto (to 150)) (Goto (to 0)))
    (IfGreater 70 (IfIn 97 102 (Goto (to 150)) (Goto (to 0))) (Goto (to 150))))"

definition uri_st150 :: "uri_action move test" where
  "uri_st150 = Switch [(58, to 152), (93, to 460)] (IfLess 65 (IfIn 48 57 (Goto (to 151)) (Goto (to 0)))
    (IfGreater 70 (IfIn 97 102 (Goto (to 151)) (Goto (to 0))) (Goto (to 151))))"

definition uri_st151 :: "uri_action move test" where
  "uri_st151 = Switch [(58, to 152), (93, to 460)] (Goto (to 0))"

definition uri_st152 :: "uri_action move test" where
  "uri_st152 = Switch [(2, to 69), (48, to 153), (49, to 209), (50, to 212)] (IfLess 65 (IfIn 51 57 (Goto (to
    215)) (Goto (to 0))) (IfGreater 70 (IfIn 97 102 (Goto (to 216)) (Goto (to 0))) (Goto (to 216))))"

definition uri_st153 :: "uri_action move test" where
  "uri_st153 = Switch [(46, to 72), (58, to 157), (93, to 460)] (IfLess 65 (IfIn 48 57 (Goto (to 154)) (Goto
    (to 0))) (IfGreater 70 (IfIn 97 102 (Goto (to 154)) (Goto (to 0))) (Goto (to 154))))"

definition uri_st154 :: "uri_action move test" where
  "uri_st154 = Switch [(58, to 157), (93, to 460)] (IfLess 65 (IfIn 48 57 (Goto (to 155)) (Goto (to 0)))
    (IfGreater 70 (IfIn 97 102 (Goto (to 155)) (Goto (to 0))) (Goto (to 155))))"

definition uri_st155 :: "uri_action move test" where
  "uri_st155 = Switch [(58, to 157), (93, to 460)] (IfLess 65 (IfIn 48 57 (Goto (to 156)) (Goto (to 0)))
    (IfGreater 70 (IfIn 97 102 (Goto (to 156)) (Goto (to 0))) (Goto (to 156))))"

definition uri_st156 :: "uri_action move test" where
  "uri_st156 = Switch [(58, to 157), (93, to 460)] (Goto (to 0))"

definition uri_st157 :: "uri_action move test" where
  "uri_st157 = Switch [(2, to 69), (48, to 158), (49, to 201), (50, to 204)] (IfLess 65 (IfIn 51 57 (Goto (to
    207)) (Goto (to 0))) (IfGreater 70 (IfIn 97 102 (Goto (to 208)) (Goto (to 0))) (Goto (to 208))))"

definition uri_st158 :: "uri_action move test" where
  "uri_st158 = Switch [(46, to 72), (58, to 162), (93, to 460)] (IfLess 65 (IfIn 48 57 (Goto (to 159)) (Goto
    (to 0))) (IfGreater 70 (IfIn 97 102 (Goto (to 159)) (Goto (to 0))) (Goto (to 159))))"

definition uri_st159 :: "uri_action move test" where
  "uri_st159 = Switch [(58, to 162), (93, to 460)] (IfLess 65 (IfIn 48 57 (Goto (to 160)) (Goto (to 0)))
    (IfGreater 70 (IfIn 97 102 (Goto (to 160)) (Goto (to 0))) (Goto (to 160))))"

definition uri_st160 :: "uri_action move test" where
  "uri_st160 = Switch [(58, to 162), (93, to 460)] (IfLess 65 (IfIn 48 57 (Goto (to 161)) (Goto (to 0)))
    (IfGreater 70 (IfIn 97 102 (Goto (to 161)) (Goto (to 0))) (Goto (to 161))))"

definition uri_st161 :: "uri_action move test" where
  "uri_st161 = Switch [(58, to 162), (93, to 460)] (Goto (to 0))"

definition uri_st162 :: "uri_action move test" where
  "uri_st162 = Switch [(2, to 69), (48, to 163), (49, to 193), (50, to 196)] (IfLess 65 (IfIn 51 57 (Goto (to
    199)) (Goto (to 0))) (IfGreater 70 (IfIn 97 102 (Goto (to 200)) (Goto (to 0))) (Goto (to 200))))"

definition uri_st163 :: "uri_action move test" where
  "uri_st163 = Switch [(46, to 72), (58, to 167), (93, to 460)] (IfLess 65 (IfIn 48 57 (Goto (to 164)) (Goto
    (to 0))) (IfGreater 70 (IfIn 97 102 (Goto (to 164)) (Goto (to 0))) (Goto (to 164))))"

definition uri_st164 :: "uri_action move test" where
  "uri_st164 = Switch [(58, to 167), (93, to 460)] (IfLess 65 (IfIn 48 57 (Goto (to 165)) (Goto (to 0)))
    (IfGreater 70 (IfIn 97 102 (Goto (to 165)) (Goto (to 0))) (Goto (to 165))))"

definition uri_st165 :: "uri_action move test" where
  "uri_st165 = Switch [(58, to 167), (93, to 460)] (IfLess 65 (IfIn 48 57 (Goto (to 166)) (Goto (to 0)))
    (IfGreater 70 (IfIn 97 102 (Goto (to 166)) (Goto (to 0))) (Goto (to 166))))"

definition uri_st166 :: "uri_action move test" where
  "uri_st166 = Switch [(58, to 167), (93, to 460)] (Goto (to 0))"

definition uri_st167 :: "uri_action move test" where
  "uri_st167 = Switch [(2, to 69), (48, to 168), (49, to 185), (50, to 188)] (IfLess 65 (IfIn 51 57 (Goto (to
    191)) (Goto (to 0))) (IfGreater 70 (IfIn 97 102 (Goto (to 192)) (Goto (to 0))) (Goto (to 192))))"

definition uri_st168 :: "uri_action move test" where
  "uri_st168 = Switch [(46, to 72), (58, to 172), (93, to 460)] (IfLess 65 (IfIn 48 57 (Goto (to 169)) (Goto
    (to 0))) (IfGreater 70 (IfIn 97 102 (Goto (to 169)) (Goto (to 0))) (Goto (to 169))))"

definition uri_st169 :: "uri_action move test" where
  "uri_st169 = Switch [(58, to 172), (93, to 460)] (IfLess 65 (IfIn 48 57 (Goto (to 170)) (Goto (to 0)))
    (IfGreater 70 (IfIn 97 102 (Goto (to 170)) (Goto (to 0))) (Goto (to 170))))"

definition uri_st170 :: "uri_action move test" where
  "uri_st170 = Switch [(58, to 172), (93, to 460)] (IfLess 65 (IfIn 48 57 (Goto (to 171)) (Goto (to 0)))
    (IfGreater 70 (IfIn 97 102 (Goto (to 171)) (Goto (to 0))) (Goto (to 171))))"

definition uri_st171 :: "uri_action move test" where
  "uri_st171 = Switch [(58, to 172), (93, to 460)] (Goto (to 0))"

definition uri_st172 :: "uri_action move test" where
  "uri_st172 = Switch [(2, to 69), (48, to 173), (49, to 177), (50, to 180)] (IfLess 65 (IfIn 51 57 (Goto (to
    183)) (Goto (to 0))) (IfGreater 70 (IfIn 97 102 (Goto (to 184)) (Goto (to 0))) (Goto (to 184))))"

definition uri_st173 :: "uri_action move test" where
  "uri_st173 = Switch [(46, to 72), (58, to 111), (93, to 460)] (IfLess 65 (IfIn 48 57 (Goto (to 174)) (Goto
    (to 0))) (IfGreater 70 (IfIn 97 102 (Goto (to 174)) (Goto (to 0))) (Goto (to 174))))"

definition uri_st174 :: "uri_action move test" where
  "uri_st174 = Switch [(58, to 111), (93, to 460)] (IfLess 65 (IfIn 48 57 (Goto (to 175)) (Goto (to 0)))
    (IfGreater 70 (IfIn 97 102 (Goto (to 175)) (Goto (to 0))) (Goto (to 175))))"

definition uri_st175 :: "uri_action move test" where
  "uri_st175 = Switch [(58, to 111), (93, to 460)] (IfLess 65 (IfIn 48 57 (Goto (to 176)) (Goto (to 0)))
    (IfGreater 70 (IfIn 97 102 (Goto (to 176)) (Goto (to 0))) (Goto (to 176))))"

definition uri_st176 :: "uri_action move test" where
  "uri_st176 = Switch [(58, to 111), (93, to 460)] (Goto (to 0))"

definition uri_st177 :: "uri_action move test" where
  "uri_st177 = Switch [(46, to 72), (58, to 111), (93, to 460)] (IfLess 65 (IfIn 48 57 (Goto (to 178)) (Goto
    (to 0))) (IfGreater 70 (IfIn 97 102 (Goto (to 174)) (Goto (to 0))) (Goto (to 174))))"

definition uri_st178 :: "uri_action move test" where
  "uri_st178 = Switch [(46, to 72), (58, to 111), (93, to 460)] (IfLess 65 (IfIn 48 57 (Goto (to 179)) (Goto
    (to 0))) (IfGreater 70 (IfIn 97 102 (Goto (to 175)) (Goto (to 0))) (Goto (to 175))))"

definition uri_st179 :: "uri_action move test" where
  "uri_st179 = Switch [(46, to 72), (58, to 111), (93, to 460)] (IfLess 65 (IfIn 48 57 (Goto (to 176)) (Goto
    (to 0))) (IfGreater 70 (IfIn 97 102 (Goto (to 176)) (Goto (to 0))) (Goto (to 176))))"

definition uri_st180 :: "uri_action move test" where
  "uri_st180 = Switch [(46, to 72), (53, to 182), (58, to 111), (93, to 460)] (IfLess 65 (IfIn 48 57 (Goto (to
    181)) (Goto (to 0))) (IfGreater 70 (IfIn 97 102 (Goto (to 174)) (Goto (to 0))) (Goto (to 174))))"

definition uri_st181 :: "uri_action move test" where
  "uri_st181 = Switch [(46, to 72), (58, to 111), (93, to 460)] (IfLess 65 (IfIn 48 57 (Goto (to 175)) (Goto
    (to 0))) (IfGreater 70 (IfIn 97 102 (Goto (to 175)) (Goto (to 0))) (Goto (to 175))))"

definition uri_st182 :: "uri_action move test" where
  "uri_st182 = Switch [(46, to 72), (58, to 111), (93, to 460)] (IfLess 54 (IfIn 48 53 (Goto (to 179)) (Goto
    (to 0))) (IfGreater 57 (IfGreater 70 (IfIn 97 102 (Goto (to 175)) (Goto (to 0))) (IfGeq 65 (Goto (to 175))
    (Goto (to 0)))) (Goto (to 175))))"

definition uri_st183 :: "uri_action move test" where
  "uri_st183 = Switch [(46, to 72), (58, to 111), (93, to 460)] (IfLess 65 (IfIn 48 57 (Goto (to 181)) (Goto
    (to 0))) (IfGreater 70 (IfIn 97 102 (Goto (to 174)) (Goto (to 0))) (Goto (to 174))))"

definition uri_st184 :: "uri_action move test" where
  "uri_st184 = Switch [(58, to 111), (93, to 460)] (IfLess 65 (IfIn 48 57 (Goto (to 174)) (Goto (to 0)))
    (IfGreater 70 (IfIn 97 102 (Goto (to 174)) (Goto (to 0))) (Goto (to 174))))"

definition uri_st185 :: "uri_action move test" where
  "uri_st185 = Switch [(46, to 72), (58, to 172), (93, to 460)] (IfLess 65 (IfIn 48 57 (Goto (to 186)) (Goto
    (to 0))) (IfGreater 70 (IfIn 97 102 (Goto (to 169)) (Goto (to 0))) (Goto (to 169))))"

definition uri_st186 :: "uri_action move test" where
  "uri_st186 = Switch [(46, to 72), (58, to 172), (93, to 460)] (IfLess 65 (IfIn 48 57 (Goto (to 187)) (Goto
    (to 0))) (IfGreater 70 (IfIn 97 102 (Goto (to 170)) (Goto (to 0))) (Goto (to 170))))"

definition uri_st187 :: "uri_action move test" where
  "uri_st187 = Switch [(46, to 72), (58, to 172), (93, to 460)] (IfLess 65 (IfIn 48 57 (Goto (to 171)) (Goto
    (to 0))) (IfGreater 70 (IfIn 97 102 (Goto (to 171)) (Goto (to 0))) (Goto (to 171))))"

definition uri_st188 :: "uri_action move test" where
  "uri_st188 = Switch [(46, to 72), (53, to 190), (58, to 172), (93, to 460)] (IfLess 65 (IfIn 48 57 (Goto (to
    189)) (Goto (to 0))) (IfGreater 70 (IfIn 97 102 (Goto (to 169)) (Goto (to 0))) (Goto (to 169))))"

definition uri_st189 :: "uri_action move test" where
  "uri_st189 = Switch [(46, to 72), (58, to 172), (93, to 460)] (IfLess 65 (IfIn 48 57 (Goto (to 170)) (Goto
    (to 0))) (IfGreater 70 (IfIn 97 102 (Goto (to 170)) (Goto (to 0))) (Goto (to 170))))"

definition uri_st190 :: "uri_action move test" where
  "uri_st190 = Switch [(46, to 72), (58, to 172), (93, to 460)] (IfLess 54 (IfIn 48 53 (Goto (to 187)) (Goto
    (to 0))) (IfGreater 57 (IfGreater 70 (IfIn 97 102 (Goto (to 170)) (Goto (to 0))) (IfGeq 65 (Goto (to 170))
    (Goto (to 0)))) (Goto (to 170))))"

definition uri_st191 :: "uri_action move test" where
  "uri_st191 = Switch [(46, to 72), (58, to 172), (93, to 460)] (IfLess 65 (IfIn 48 57 (Goto (to 189)) (Goto
    (to 0))) (IfGreater 70 (IfIn 97 102 (Goto (to 169)) (Goto (to 0))) (Goto (to 169))))"

definition uri_st192 :: "uri_action move test" where
  "uri_st192 = Switch [(58, to 172), (93, to 460)] (IfLess 65 (IfIn 48 57 (Goto (to 169)) (Goto (to 0)))
    (IfGreater 70 (IfIn 97 102 (Goto (to 169)) (Goto (to 0))) (Goto (to 169))))"

definition uri_st193 :: "uri_action move test" where
  "uri_st193 = Switch [(46, to 72), (58, to 167), (93, to 460)] (IfLess 65 (IfIn 48 57 (Goto (to 194)) (Goto
    (to 0))) (IfGreater 70 (IfIn 97 102 (Goto (to 164)) (Goto (to 0))) (Goto (to 164))))"

definition uri_st194 :: "uri_action move test" where
  "uri_st194 = Switch [(46, to 72), (58, to 167), (93, to 460)] (IfLess 65 (IfIn 48 57 (Goto (to 195)) (Goto
    (to 0))) (IfGreater 70 (IfIn 97 102 (Goto (to 165)) (Goto (to 0))) (Goto (to 165))))"

definition uri_st195 :: "uri_action move test" where
  "uri_st195 = Switch [(46, to 72), (58, to 167), (93, to 460)] (IfLess 65 (IfIn 48 57 (Goto (to 166)) (Goto
    (to 0))) (IfGreater 70 (IfIn 97 102 (Goto (to 166)) (Goto (to 0))) (Goto (to 166))))"

definition uri_st196 :: "uri_action move test" where
  "uri_st196 = Switch [(46, to 72), (53, to 198), (58, to 167), (93, to 460)] (IfLess 65 (IfIn 48 57 (Goto (to
    197)) (Goto (to 0))) (IfGreater 70 (IfIn 97 102 (Goto (to 164)) (Goto (to 0))) (Goto (to 164))))"

definition uri_st197 :: "uri_action move test" where
  "uri_st197 = Switch [(46, to 72), (58, to 167), (93, to 460)] (IfLess 65 (IfIn 48 57 (Goto (to 165)) (Goto
    (to 0))) (IfGreater 70 (IfIn 97 102 (Goto (to 165)) (Goto (to 0))) (Goto (to 165))))"

definition uri_st198 :: "uri_action move test" where
  "uri_st198 = Switch [(46, to 72), (58, to 167), (93, to 460)] (IfLess 54 (IfIn 48 53 (Goto (to 195)) (Goto
    (to 0))) (IfGreater 57 (IfGreater 70 (IfIn 97 102 (Goto (to 165)) (Goto (to 0))) (IfGeq 65 (Goto (to 165))
    (Goto (to 0)))) (Goto (to 165))))"

definition uri_st199 :: "uri_action move test" where
  "uri_st199 = Switch [(46, to 72), (58, to 167), (93, to 460)] (IfLess 65 (IfIn 48 57 (Goto (to 197)) (Goto
    (to 0))) (IfGreater 70 (IfIn 97 102 (Goto (to 164)) (Goto (to 0))) (Goto (to 164))))"

definition uri_st200 :: "uri_action move test" where
  "uri_st200 = Switch [(58, to 167), (93, to 460)] (IfLess 65 (IfIn 48 57 (Goto (to 164)) (Goto (to 0)))
    (IfGreater 70 (IfIn 97 102 (Goto (to 164)) (Goto (to 0))) (Goto (to 164))))"

definition uri_st201 :: "uri_action move test" where
  "uri_st201 = Switch [(46, to 72), (58, to 162), (93, to 460)] (IfLess 65 (IfIn 48 57 (Goto (to 202)) (Goto
    (to 0))) (IfGreater 70 (IfIn 97 102 (Goto (to 159)) (Goto (to 0))) (Goto (to 159))))"

definition uri_st202 :: "uri_action move test" where
  "uri_st202 = Switch [(46, to 72), (58, to 162), (93, to 460)] (IfLess 65 (IfIn 48 57 (Goto (to 203)) (Goto
    (to 0))) (IfGreater 70 (IfIn 97 102 (Goto (to 160)) (Goto (to 0))) (Goto (to 160))))"

definition uri_st203 :: "uri_action move test" where
  "uri_st203 = Switch [(46, to 72), (58, to 162), (93, to 460)] (IfLess 65 (IfIn 48 57 (Goto (to 161)) (Goto
    (to 0))) (IfGreater 70 (IfIn 97 102 (Goto (to 161)) (Goto (to 0))) (Goto (to 161))))"

definition uri_st204 :: "uri_action move test" where
  "uri_st204 = Switch [(46, to 72), (53, to 206), (58, to 162), (93, to 460)] (IfLess 65 (IfIn 48 57 (Goto (to
    205)) (Goto (to 0))) (IfGreater 70 (IfIn 97 102 (Goto (to 159)) (Goto (to 0))) (Goto (to 159))))"

definition uri_st205 :: "uri_action move test" where
  "uri_st205 = Switch [(46, to 72), (58, to 162), (93, to 460)] (IfLess 65 (IfIn 48 57 (Goto (to 160)) (Goto
    (to 0))) (IfGreater 70 (IfIn 97 102 (Goto (to 160)) (Goto (to 0))) (Goto (to 160))))"

definition uri_st206 :: "uri_action move test" where
  "uri_st206 = Switch [(46, to 72), (58, to 162), (93, to 460)] (IfLess 54 (IfIn 48 53 (Goto (to 203)) (Goto
    (to 0))) (IfGreater 57 (IfGreater 70 (IfIn 97 102 (Goto (to 160)) (Goto (to 0))) (IfGeq 65 (Goto (to 160))
    (Goto (to 0)))) (Goto (to 160))))"

definition uri_st207 :: "uri_action move test" where
  "uri_st207 = Switch [(46, to 72), (58, to 162), (93, to 460)] (IfLess 65 (IfIn 48 57 (Goto (to 205)) (Goto
    (to 0))) (IfGreater 70 (IfIn 97 102 (Goto (to 159)) (Goto (to 0))) (Goto (to 159))))"

definition uri_st208 :: "uri_action move test" where
  "uri_st208 = Switch [(58, to 162), (93, to 460)] (IfLess 65 (IfIn 48 57 (Goto (to 159)) (Goto (to 0)))
    (IfGreater 70 (IfIn 97 102 (Goto (to 159)) (Goto (to 0))) (Goto (to 159))))"

definition uri_st209 :: "uri_action move test" where
  "uri_st209 = Switch [(46, to 72), (58, to 157), (93, to 460)] (IfLess 65 (IfIn 48 57 (Goto (to 210)) (Goto
    (to 0))) (IfGreater 70 (IfIn 97 102 (Goto (to 154)) (Goto (to 0))) (Goto (to 154))))"

definition uri_st210 :: "uri_action move test" where
  "uri_st210 = Switch [(46, to 72), (58, to 157), (93, to 460)] (IfLess 65 (IfIn 48 57 (Goto (to 211)) (Goto
    (to 0))) (IfGreater 70 (IfIn 97 102 (Goto (to 155)) (Goto (to 0))) (Goto (to 155))))"

definition uri_st211 :: "uri_action move test" where
  "uri_st211 = Switch [(46, to 72), (58, to 157), (93, to 460)] (IfLess 65 (IfIn 48 57 (Goto (to 156)) (Goto
    (to 0))) (IfGreater 70 (IfIn 97 102 (Goto (to 156)) (Goto (to 0))) (Goto (to 156))))"

definition uri_st212 :: "uri_action move test" where
  "uri_st212 = Switch [(46, to 72), (53, to 214), (58, to 157), (93, to 460)] (IfLess 65 (IfIn 48 57 (Goto (to
    213)) (Goto (to 0))) (IfGreater 70 (IfIn 97 102 (Goto (to 154)) (Goto (to 0))) (Goto (to 154))))"

definition uri_st213 :: "uri_action move test" where
  "uri_st213 = Switch [(46, to 72), (58, to 157), (93, to 460)] (IfLess 65 (IfIn 48 57 (Goto (to 155)) (Goto
    (to 0))) (IfGreater 70 (IfIn 97 102 (Goto (to 155)) (Goto (to 0))) (Goto (to 155))))"

definition uri_st214 :: "uri_action move test" where
  "uri_st214 = Switch [(46, to 72), (58, to 157), (93, to 460)] (IfLess 54 (IfIn 48 53 (Goto (to 211)) (Goto
    (to 0))) (IfGreater 57 (IfGreater 70 (IfIn 97 102 (Goto (to 155)) (Goto (to 0))) (IfGeq 65 (Goto (to 155))
    (Goto (to 0)))) (Goto (to 155))))"

definition uri_st215 :: "uri_action move test" where
  "uri_st215 = Switch [(46, to 72), (58, to 157), (93, to 460)] (IfLess 65 (IfIn 48 57 (Goto (to 213)) (Goto
    (to 0))) (IfGreater 70 (IfIn 97 102 (Goto (to 154)) (Goto (to 0))) (Goto (to 154))))"

definition uri_st216 :: "uri_action move test" where
  "uri_st216 = Switch [(58, to 157), (93, to 460)] (IfLess 65 (IfIn 48 57 (Goto (to 154)) (Goto (to 0)))
    (IfGreater 70 (IfIn 97 102 (Goto (to 154)) (Goto (to 0))) (Goto (to 154))))"

definition uri_st217 :: "uri_action move test" where
  "uri_st217 = Switch [(46, to 72), (58, to 152), (93, to 460)] (IfLess 65 (IfIn 48 57 (Goto (to 218)) (Goto
    (to 0))) (IfGreater 70 (IfIn 97 102 (Goto (to 149)) (Goto (to 0))) (Goto (to 149))))"

definition uri_st218 :: "uri_action move test" where
  "uri_st218 = Switch [(46, to 72), (58, to 152), (93, to 460)] (IfLess 65 (IfIn 48 57 (Goto (to 219)) (Goto
    (to 0))) (IfGreater 70 (IfIn 97 102 (Goto (to 150)) (Goto (to 0))) (Goto (to 150))))"

definition uri_st219 :: "uri_action move test" where
  "uri_st219 = Switch [(46, to 72), (58, to 152), (93, to 460)] (IfLess 65 (IfIn 48 57 (Goto (to 151)) (Goto
    (to 0))) (IfGreater 70 (IfIn 97 102 (Goto (to 151)) (Goto (to 0))) (Goto (to 151))))"

definition uri_st220 :: "uri_action move test" where
  "uri_st220 = Switch [(46, to 72), (53, to 222), (58, to 152), (93, to 460)] (IfLess 65 (IfIn 48 57 (Goto (to
    221)) (Goto (to 0))) (IfGreater 70 (IfIn 97 102 (Goto (to 149)) (Goto (to 0))) (Goto (to 149))))"

definition uri_st221 :: "uri_action move test" where
  "uri_st221 = Switch [(46, to 72), (58, to 152), (93, to 460)] (IfLess 65 (IfIn 48 57 (Goto (to 150)) (Goto
    (to 0))) (IfGreater 70 (IfIn 97 102 (Goto (to 150)) (Goto (to 0))) (Goto (to 150))))"

definition uri_st222 :: "uri_action move test" where
  "uri_st222 = Switch [(46, to 72), (58, to 152), (93, to 460)] (IfLess 54 (IfIn 48 53 (Goto (to 219)) (Goto
    (to 0))) (IfGreater 57 (IfGreater 70 (IfIn 97 102 (Goto (to 150)) (Goto (to 0))) (IfGeq 65 (Goto (to 150))
    (Goto (to 0)))) (Goto (to 150))))"

definition uri_st223 :: "uri_action move test" where
  "uri_st223 = Switch [(46, to 72), (58, to 152), (93, to 460)] (IfLess 65 (IfIn 48 57 (Goto (to 221)) (Goto
    (to 0))) (IfGreater 70 (IfIn 97 102 (Goto (to 149)) (Goto (to 0))) (Goto (to 149))))"

definition uri_st224 :: "uri_action move test" where
  "uri_st224 = Switch [(58, to 152), (93, to 460)] (IfLess 65 (IfIn 48 57 (Goto (to 149)) (Goto (to 0)))
    (IfGreater 70 (IfIn 97 102 (Goto (to 149)) (Goto (to 0))) (Goto (to 149))))"

definition uri_st225 :: "uri_action move test" where
  "uri_st225 = IfLess 65 (IfIn 48 57 (Goto (to 226)) (Goto (to 0))) (IfGreater 70 (IfIn 97 102 (Goto (to 226))
    (Goto (to 0))) (Goto (to 226)))"

definition uri_st226 :: "uri_action move test" where
  "uri_st226 = IfEq 46 (Goto (to 227)) (IfLess 65 (IfIn 48 57 (Goto (to 226)) (Goto (to 0))) (IfGreater 70
    (IfIn 97 102 (Goto (to 226)) (Goto (to 0))) (Goto (to 226))))"

definition uri_st227 :: "uri_action move test" where
  "uri_st227 = Switch [(33, to 228), (36, to 228), (61, to 228), (95, to 228), (126, to 228)] (IfLess 48 (IfIn
    38 46 (Goto (to 228)) (Goto (to 0))) (IfGreater 59 (IfGreater 90 (IfIn 97 122 (Goto (to 228)) (Goto (to 0)))
    (IfGeq 65 (Goto (to 228)) (Goto (to 0)))) (Goto (to 228))))"

definition uri_st228 :: "uri_action move test" where
  "uri_st228 = Switch [(33, to 228), (36, to 228), (61, to 228), (93, to 460), (95, to 228), (126, to 228)]
    (IfLess 48 (IfIn 38 46 (Goto (to 228)) (Goto (to 0))) (IfGreater 59 (IfGreater 90 (IfIn 97 122 (Goto (to
    228)) (Goto (to 0))) (IfGeq 65 (Goto (to 228)) (Goto (to 0)))) (Goto (to 228))))"

definition uri_st489 :: "uri_action move test" where
  "uri_st489 = Switch [(33, to 33), (35, uri_tr493), (37, to 34), (47, uri_tr494), (61, to 33), (63,
    uri_tr496), (64, uri_tr38), (95, to 33), (126, to 33)] (IfLess 58 (IfGreater 46 (IfIn 48 57 (Goto (to 489))
    (Goto (to 0))) (IfGeq 36 (Goto (to 33)) (Goto (to 0)))) (IfGreater 59 (IfGreater 90 (IfIn 97 122 (Goto (to
    33)) (Goto (to 0))) (IfGeq 65 (Goto (to 33)) (Goto (to 0)))) (Goto (to 33))))"

definition uri_st490 :: "uri_action move test" where
  "uri_st490 = Switch [(33, to 467), (35, uri_tr485), (37, to 31), (46, to 491), (47, uri_tr486), (58,
    uri_tr499), (61, to 467), (63, uri_tr488), (64, uri_tr38), (95, to 467), (126, to 467)] (IfLess 65 (IfIn 36
    59 (Goto (to 467)) (Goto (to 0))) (IfGreater 90 (IfIn 97 122 (Goto (to 467)) (Goto (to 0))) (Goto (to
    467))))"

definition uri_st491 :: "uri_action move test" where
  "uri_st491 = Switch [(2, to 13), (33, to 467), (35, uri_tr485), (37, to 31), (47, uri_tr486), (48, to 492),
    (49, to 500), (50, to 502), (58, uri_tr499), (59, to 467), (61, to 467), (63, uri_tr488), (64, uri_tr38),
    (95, to 467), (126, to 467)] (IfLess 51 (IfIn 36 46 (Goto (to 467)) (Goto (to 0))) (IfGreater 57 (IfGreater
    90 (IfIn 97 122 (Goto (to 467)) (Goto (to 0))) (IfGeq 65 (Goto (to 467)) (Goto (to 0)))) (Goto (to 501))))"

definition uri_st492 :: "uri_action move test" where
  "uri_st492 = Switch [(33, to 467), (35, uri_tr485), (37, to 31), (46, to 493), (47, uri_tr486), (58,
    uri_tr499), (61, to 467), (63, uri_tr488), (64, uri_tr38), (95, to 467), (126, to 467)] (IfLess 65 (IfIn 36
    59 (Goto (to 467)) (Goto (to 0))) (IfGreater 90 (IfIn 97 122 (Goto (to 467)) (Goto (to 0))) (Goto (to
    467))))"

definition uri_st493 :: "uri_action move test" where
  "uri_st493 = Switch [(2, to 17), (33, to 467), (35, uri_tr485), (37, to 31), (47, uri_tr486), (48, to 494),
    (49, to 496), (50, to 498), (58, uri_tr499), (59, to 467), (61, to 467), (63, uri_tr488), (64, uri_tr38),
    (95, to 467), (126, to 467)] (IfLess 51 (IfIn 36 46 (Goto (to 467)) (Goto (to 0))) (IfGreater 57 (IfGreater
    90 (IfIn 97 122 (Goto (to 467)) (Goto (to 0))) (IfGeq 65 (Goto (to 467)) (Goto (to 0)))) (Goto (to 497))))"

definition uri_st494 :: "uri_action move test" where
  "uri_st494 = Switch [(33, to 467), (35, uri_tr485), (37, to 31), (46, to 495), (47, uri_tr486), (58,
    uri_tr499), (61, to 467), (63, uri_tr488), (64, uri_tr38), (95, to 467), (126, to 467)] (IfLess 65 (IfIn 36
    59 (Goto (to 467)) (Goto (to 0))) (IfGreater 90 (IfIn 97 122 (Goto (to 467)) (Goto (to 0))) (Goto (to
    467))))"

definition uri_st495 :: "uri_action move test" where
  "uri_st495 = Switch [(2, to 21), (33, to 467), (35, uri_tr485), (37, to 31), (47, uri_tr486), (58,
    uri_tr499), (61, to 467), (63, uri_tr488), (64, uri_tr38), (95, to 467), (126, to 467)] (IfLess 65 (IfIn 36
    59 (Goto (to 467)) (Goto (to 0))) (IfGreater 90 (IfIn 97 122 (Goto (to 467)) (Goto (to 0))) (Goto (to
    467))))"

definition uri_st496 :: "uri_action move test" where
  "uri_st496 = Switch [(33, to 467), (35, uri_tr485), (37, to 31), (46, to 495), (47, uri_tr486), (58,
    uri_tr499), (59, to 467), (61, to 467), (63, uri_tr488), (64, uri_tr38), (95, to 467), (126, to 467)]
    (IfLess 48 (IfIn 36 45 (Goto (to 467)) (Goto (to 0))) (IfGreater 57 (IfGreater 90 (IfIn 97 122 (Goto (to
    467)) (Goto (to 0))) (IfGeq 65 (Goto (to 467)) (Goto (to 0)))) (Goto (to 497))))"

definition uri_st497 :: "uri_action move test" where
  "uri_st497 = Switch [(33, to 467), (35, uri_tr485), (37, to 31), (46, to 495), (47, uri_tr486), (58,
    uri_tr499), (59, to 467), (61, to 467), (63, uri_tr488), (64, uri_tr38), (95, to 467), (126, to 467)]
    (IfLess 48 (IfIn 36 45 (Goto (to 467)) (Goto (to 0))) (IfGreater 57 (IfGreater 90 (IfIn 97 122 (Goto (to
    467)) (Goto (to 0))) (IfGeq 65 (Goto (to 467)) (Goto (to 0)))) (Goto (to 494))))"

definition uri_st498 :: "uri_action move test" where
  "uri_st498 = Switch [(33, to 467), (35, uri_tr485), (37, to 31), (46, to 495), (47, uri_tr486), (53, to
    499), (58, uri_tr499), (59, to 467), (61, to 467), (63, uri_tr488), (64, uri_tr38), (95, to 467), (126, to
    467)] (IfLess 48 (IfIn 36 45 (Goto (to 467)) (Goto (to 0))) (IfGreater 57 (IfGreater 90 (IfIn 97 122 (Goto
    (to 467)) (Goto (to 0))) (IfGeq 65 (Goto (to 467)) (Goto (to 0)))) (Goto (to 494))))"

definition uri_st499 :: "uri_action move test" where
  "uri_st499 = Switch [(33, to 467), (35, uri_tr485), (37, to 31), (46, to 495), (47, uri_tr486), (58,
    uri_tr499), (61, to 467), (63, uri_tr488), (64, uri_tr38), (95, to 467), (126, to 467)] (IfLess 54
    (IfGreater 45 (IfIn 48 53 (Goto (to 494)) (Goto (to 0))) (IfGeq 36 (Goto (to 467)) (Goto (to 0))))
    (IfGreater 59 (IfGreater 90 (IfIn 97 122 (Goto (to 467)) (Goto (to 0))) (IfGeq 65 (Goto (to 467)) (Goto (to
    0)))) (Goto (to 467))))"

definition uri_st500 :: "uri_action move test" where
  "uri_st500 = Switch [(33, to 467), (35, uri_tr485), (37, to 31), (46, to 493), (47, uri_tr486), (58,
    uri_tr499), (59, to 467), (61, to 467), (63, uri_tr488), (64, uri_tr38), (95, to 467), (126, to 467)]
    (IfLess 48 (IfIn 36 45 (Goto (to 467)) (Goto (to 0))) (IfGreater 57 (IfGreater 90 (IfIn 97 122 (Goto (to
    467)) (Goto (to 0))) (IfGeq 65 (Goto (to 467)) (Goto (to 0)))) (Goto (to 501))))"

definition uri_st501 :: "uri_action move test" where
  "uri_st501 = Switch [(33, to 467), (35, uri_tr485), (37, to 31), (46, to 493), (47, uri_tr486), (58,
    uri_tr499), (59, to 467), (61, to 467), (63, uri_tr488), (64, uri_tr38), (95, to 467), (126, to 467)]
    (IfLess 48 (IfIn 36 45 (Goto (to 467)) (Goto (to 0))) (IfGreater 57 (IfGreater 90 (IfIn 97 122 (Goto (to
    467)) (Goto (to 0))) (IfGeq 65 (Goto (to 467)) (Goto (to 0)))) (Goto (to 492))))"

definition uri_st502 :: "uri_action move test" where
  "uri_st502 = Switch [(33, to 467), (35, uri_tr485), (37, to 31), (46, to 493), (47, uri_tr486), (53, to
    503), (58, uri_tr499), (59, to 467), (61, to 467), (63, uri_tr488), (64, uri_tr38), (95, to 467), (126, to
    467)] (IfLess 48 (IfIn 36 45 (Goto (to 467)) (Goto (to 0))) (IfGreater 57 (IfGreater 90 (IfIn 97 122 (Goto
    (to 467)) (Goto (to 0))) (IfGeq 65 (Goto (to 467)) (Goto (to 0)))) (Goto (to 492))))"

definition uri_st503 :: "uri_action move test" where
  "uri_st503 = Switch [(33, to 467), (35, uri_tr485), (37, to 31), (46, to 493), (47, uri_tr486), (58,
    uri_tr499), (61, to 467), (63, uri_tr488), (64, uri_tr38), (95, to 467), (126, to 467)] (IfLess 54
    (IfGreater 45 (IfIn 48 53 (Goto (to 492)) (Goto (to 0))) (IfGeq 36 (Goto (to 467)) (Goto (to 0))))
    (IfGreater 59 (IfGreater 90 (IfIn 97 122 (Goto (to 467)) (Goto (to 0))) (IfGeq 65 (Goto (to 467)) (Goto (to
    0)))) (Goto (to 467))))"

definition uri_st504 :: "uri_action move test" where
  "uri_st504 = Switch [(33, to 467), (35, uri_tr485), (37, to 31), (46, to 491), (47, uri_tr486), (58,
    uri_tr499), (59, to 467), (61, to 467), (63, uri_tr488), (64, uri_tr38), (95, to 467), (126, to 467)]
    (IfLess 48 (IfIn 36 45 (Goto (to 467)) (Goto (to 0))) (IfGreater 57 (IfGreater 90 (IfIn 97 122 (Goto (to
    467)) (Goto (to 0))) (IfGeq 65 (Goto (to 467)) (Goto (to 0)))) (Goto (to 505))))"

definition uri_st505 :: "uri_action move test" where
  "uri_st505 = Switch [(33, to 467), (35, uri_tr485), (37, to 31), (46, to 491), (47, uri_tr486), (58,
    uri_tr499), (59, to 467), (61, to 467), (63, uri_tr488), (64, uri_tr38), (95, to 467), (126, to 467)]
    (IfLess 48 (IfIn 36 45 (Goto (to 467)) (Goto (to 0))) (IfGreater 57 (IfGreater 90 (IfIn 97 122 (Goto (to
    467)) (Goto (to 0))) (IfGeq 65 (Goto (to 467)) (Goto (to 0)))) (Goto (to 490))))"

definition uri_st506 :: "uri_action move test" where
  "uri_st506 = Switch [(33, to 467), (35, uri_tr485), (37, to 31), (46, to 491), (47, uri_tr486), (53, to
    507), (58, uri_tr499), (59, to 467), (61, to 467), (63, uri_tr488), (64, uri_tr38), (95, to 467), (126, to
    467)] (IfLess 48 (IfIn 36 45 (Goto (to 467)) (Goto (to 0))) (IfGreater 57 (IfGreater 90 (IfIn 97 122 (Goto
    (to 467)) (Goto (to 0))) (IfGeq 65 (Goto (to 467)) (Goto (to 0)))) (Goto (to 490))))"

definition uri_st507 :: "uri_action move test" where
  "uri_st507 = Switch [(33, to 467), (35, uri_tr485), (37, to 31), (46, to 491), (47, uri_tr486), (58,
    uri_tr499), (61, to 467), (63, uri_tr488), (64, uri_tr38), (95, to 467), (126, to 467)] (IfLess 54
    (IfGreater 45 (IfIn 48 53 (Goto (to 490)) (Goto (to 0))) (IfGeq 36 (Goto (to 467)) (Goto (to 0))))
    (IfGreater 59 (IfGreater 90 (IfIn 97 122 (Goto (to 467)) (Goto (to 0))) (IfGeq 65 (Goto (to 467)) (Goto (to
    0)))) (Goto (to 467))))"

definition uri_st508 :: "uri_action move test" where
  "uri_st508 = Switch [(34, to 0), (35, to 453), (37, to 3), (43, to 508), (47, to 455), (58, uri_tr543), (60,
    to 0), (62, to 0), (63, to 456), (96, to 0), (127, to 0)] (IfLess 65 (IfGreater 32 (IfIn 45 57 (Goto (to
    508)) (Goto (to 452))) (IfGeq 0 (Goto (to 0)) (Goto (to 452)))) (IfGreater 90 (IfLess 97 (IfIn 91 94 (Goto
    (to 0)) (Goto (to 452))) (IfGreater 122 (IfIn 123 125 (Goto (to 0)) (Goto (to 452))) (Goto (to 508)))) (Goto
    (to 508))))"

definition uri_st509 :: "uri_action move test" where
  "uri_st509 = Switch [(34, to 0), (35, to 453), (37, to 5), (47, to 510), (60, to 0), (62, to 0), (63, to
    456), (96, to 0), (127, to 0)] (IfLess 91 (IfIn 0 32 (Goto (to 0)) (Goto (to 455))) (IfGreater 94 (IfIn 123
    125 (Goto (to 0)) (Goto (to 455))) (Goto (to 0))))"

definition uri_st510 :: "uri_action move test" where
  "uri_st510 = Switch [(34, to 0), (35, to 453), (37, to 5), (47, to 511), (60, to 0), (62, to 0), (63, to
    456), (96, to 0), (127, to 0)] (IfLess 91 (IfIn 0 32 (Goto (to 0)) (Goto (to 455))) (IfGreater 94 (IfIn 123
    125 (Goto (to 0)) (Goto (to 455))) (Goto (to 0))))"

definition uri_st511 :: "uri_action move test" where
  "uri_st511 = Switch [(2, uri_tr546), (33, uri_tr547), (35, uri_tr548), (37, uri_tr549), (47, uri_tr550),
    (48, uri_tr551), (49, uri_tr552), (50, uri_tr553), (58, uri_tr555), (59, uri_tr547), (61, uri_tr547), (63,
    uri_tr556), (64, uri_tr557), (91, uri_tr558), (95, uri_tr547), (126, uri_tr547)] (IfLess 51 (IfIn 36 46
    (Goto uri_tr547) (Goto (to 0))) (IfGreater 57 (IfGreater 90 (IfIn 97 122 (Goto uri_tr547) (Goto (to 0)))
    (IfGeq 65 (Goto uri_tr547) (Goto (to 0)))) (Goto uri_tr554)))"

definition uri_st229 :: "uri_action move test" where
  "uri_st229 = IfIn 48 52 (Goto (to 230)) (Goto (to 0))"

definition uri_st230 :: "uri_action move test" where
  "uri_st230 = IfIn 48 57 (Goto (to 231)) (Goto (to 0))"

definition uri_st231 :: "uri_action move test" where
  "uri_st231 = IfEq 46 (Goto (to 232)) (Goto (to 0))"

definition uri_st232 :: "uri_action move test" where
  "uri_st232 = Switch [(2, to 233), (48, to 235), (49, to 249), (50, to 251)] (IfIn 51 57 (Goto (to 250))
    (Goto (to 0)))"

definition uri_st233 :: "uri_action move test" where
  "uri_st233 = IfIn 48 52 (Goto (to 234)) (Goto (to 0))"

definition uri_st234 :: "uri_action move test" where
  "uri_st234 = IfIn 48 57 (Goto (to 235)) (Goto (to 0))"

definition uri_st235 :: "uri_action move test" where
  "uri_st235 = IfEq 46 (Goto (to 236)) (Goto (to 0))"

definition uri_st236 :: "uri_action move test" where
  "uri_st236 = Switch [(2, to 237), (48, to 239), (49, to 245), (50, to 247)] (IfIn 51 57 (Goto (to 246))
    (Goto (to 0)))"

definition uri_st237 :: "uri_action move test" where
  "uri_st237 = IfIn 48 52 (Goto (to 238)) (Goto (to 0))"

definition uri_st238 :: "uri_action move test" where
  "uri_st238 = IfIn 48 57 (Goto (to 239)) (Goto (to 0))"

definition uri_st239 :: "uri_action move test" where
  "uri_st239 = IfEq 46 (Goto (to 240)) (Goto (to 0))"

definition uri_st240 :: "uri_action move test" where
  "uri_st240 = Switch [(2, to 241), (48, to 512), (49, to 516), (50, to 518)] (IfIn 51 57 (Goto (to 517))
    (Goto (to 0)))"

definition uri_st241 :: "uri_action move test" where
  "uri_st241 = IfIn 48 52 (Goto (to 242)) (Goto (to 0))"

definition uri_st242 :: "uri_action move test" where
  "uri_st242 = IfIn 48 57 (Goto (to 512)) (Goto (to 0))"

definition uri_st512 :: "uri_action move test" where
  "uri_st512 = Switch [(35, uri_tr559), (47, uri_tr560), (58, uri_tr561), (63, uri_tr562)] (Goto (to 0))"

definition uri_st513 :: "uri_action move test" where
  "uri_st513 = Switch [(34, to 0), (35, uri_tr563), (37, to 243), (60, to 0), (62, to 0), (63, uri_tr565),
    (96, to 0), (127, to 0)] (IfLess 91 (IfIn 0 32 (Goto (to 0)) (Goto (to 513))) (IfGreater 94 (IfIn 123 125
    (Goto (to 0)) (Goto (to 513))) (Goto (to 0))))"

definition uri_st243 :: "uri_action move test" where
  "uri_st243 = IfLess 65 (IfIn 48 57 (Goto (to 244)) (Goto (to 0))) (IfGreater 70 (IfIn 97 102 (Goto (to 244))
    (Goto (to 0))) (Goto (to 244)))"

definition uri_st244 :: "uri_action move test" where
  "uri_st244 = IfLess 65 (IfIn 48 57 (Goto (to 513)) (Goto (to 0))) (IfGreater 70 (IfIn 97 102 (Goto (to 513))
    (Goto (to 0))) (Goto (to 513)))"

definition uri_st514 :: "uri_action move test" where
  "uri_st514 = Switch [(35, uri_tr566), (47, uri_tr567), (63, uri_tr569)] (IfIn 48 57 (Goto uri_tr568) (Goto
    (to 0)))"

definition uri_st515 :: "uri_action move test" where
  "uri_st515 = Switch [(35, uri_tr570), (47, uri_tr571), (63, uri_tr573)] (IfIn 48 57 (Goto (to 515)) (Goto
    (to 0)))"

definition uri_st516 :: "uri_action move test" where
  "uri_st516 = Switch [(35, uri_tr559), (47, uri_tr560), (58, uri_tr561), (63, uri_tr562)] (IfIn 48 57 (Goto
    (to 517)) (Goto (to 0)))"

definition uri_st517 :: "uri_action move test" where
  "uri_st517 = Switch [(35, uri_tr559), (47, uri_tr560), (58, uri_tr561), (63, uri_tr562)] (IfIn 48 57 (Goto
    (to 512)) (Goto (to 0)))"

definition uri_st518 :: "uri_action move test" where
  "uri_st518 = Switch [(35, uri_tr559), (47, uri_tr560), (53, to 519), (58, uri_tr561), (63, uri_tr562)] (IfIn
    48 57 (Goto (to 512)) (Goto (to 0)))"

definition uri_st519 :: "uri_action move test" where
  "uri_st519 = Switch [(35, uri_tr559), (47, uri_tr560), (58, uri_tr561), (63, uri_tr562)] (IfIn 48 53 (Goto
    (to 512)) (Goto (to 0)))"

definition uri_st245 :: "uri_action move test" where
  "uri_st245 = IfEq 46 (Goto (to 240)) (IfIn 48 57 (Goto (to 246)) (Goto (to 0)))"

definition uri_st246 :: "uri_action move test" where
  "uri_st246 = IfEq 46 (Goto (to 240)) (IfIn 48 57 (Goto (to 239)) (Goto (to 0)))"

definition uri_st247 :: "uri_action move test" where
  "uri_st247 = Switch [(46, to 240), (53, to 248)] (IfIn 48 57 (Goto (to 239)) (Goto (to 0)))"

definition uri_st248 :: "uri_action move test" where
  "uri_st248 = IfEq 46 (Goto (to 240)) (IfIn 48 53 (Goto (to 239)) (Goto (to 0)))"

definition uri_st249 :: "uri_action move test" where
  "uri_st249 = IfEq 46 (Goto (to 236)) (IfIn 48 57 (Goto (to 250)) (Goto (to 0)))"

definition uri_st250 :: "uri_action move test" where
  "uri_st250 = IfEq 46 (Goto (to 236)) (IfIn 48 57 (Goto (to 235)) (Goto (to 0)))"

definition uri_st251 :: "uri_action move test" where
  "uri_st251 = Switch [(46, to 236), (53, to 252)] (IfIn 48 57 (Goto (to 235)) (Goto (to 0)))"

definition uri_st252 :: "uri_action move test" where
  "uri_st252 = IfEq 46 (Goto (to 236)) (IfIn 48 53 (Goto (to 235)) (Goto (to 0)))"

definition uri_st520 :: "uri_action move test" where
  "uri_st520 = Switch [(33, to 520), (35, uri_tr559), (37, to 253), (47, uri_tr560), (58, uri_tr576), (61, to
    520), (63, uri_tr562), (64, uri_tr263), (95, to 520), (126, to 520)] (IfLess 65 (IfIn 36 59 (Goto (to 520))
    (Goto (to 0))) (IfGreater 90 (IfIn 97 122 (Goto (to 520)) (Goto (to 0))) (Goto (to 520))))"

definition uri_st253 :: "uri_action move test" where
  "uri_st253 = IfLess 65 (IfIn 48 57 (Goto (to 254)) (Goto (to 0))) (IfGreater 70 (IfIn 97 102 (Goto (to 254))
    (Goto (to 0))) (Goto (to 254)))"

definition uri_st254 :: "uri_action move test" where
  "uri_st254 = IfLess 65 (IfIn 48 57 (Goto (to 520)) (Goto (to 0))) (IfGreater 70 (IfIn 97 102 (Goto (to 520))
    (Goto (to 0))) (Goto (to 520)))"

definition uri_st521 :: "uri_action move test" where
  "uri_st521 = Switch [(33, to 255), (35, uri_tr566), (37, to 256), (47, uri_tr567), (61, to 255), (63,
    uri_tr569), (64, uri_tr263), (95, to 255), (126, to 255)] (IfLess 58 (IfGreater 46 (IfIn 48 57 (Goto
    uri_tr577) (Goto (to 0))) (IfGeq 36 (Goto (to 255)) (Goto (to 0)))) (IfGreater 59 (IfGreater 90 (IfIn 97 122
    (Goto (to 255)) (Goto (to 0))) (IfGeq 65 (Goto (to 255)) (Goto (to 0)))) (Goto (to 255))))"

definition uri_st255 :: "uri_action move test" where
  "uri_st255 = Switch [(33, to 255), (37, to 256), (61, to 255), (64, uri_tr263), (95, to 255), (126, to 255)]
    (IfLess 48 (IfIn 36 46 (Goto (to 255)) (Goto (to 0))) (IfGreater 59 (IfGreater 90 (IfIn 97 122 (Goto (to
    255)) (Goto (to 0))) (IfGeq 65 (Goto (to 255)) (Goto (to 0)))) (Goto (to 255))))"

definition uri_st256 :: "uri_action move test" where
  "uri_st256 = IfLess 65 (IfIn 48 57 (Goto (to 257)) (Goto (to 0))) (IfGreater 70 (IfIn 97 102 (Goto (to 257))
    (Goto (to 0))) (Goto (to 257)))"

definition uri_st257 :: "uri_action move test" where
  "uri_st257 = IfLess 65 (IfIn 48 57 (Goto (to 255)) (Goto (to 0))) (IfGreater 70 (IfIn 97 102 (Goto (to 255))
    (Goto (to 0))) (Goto (to 255)))"

definition uri_st522 :: "uri_action move test" where
  "uri_st522 = Switch [(2, uri_tr546), (33, uri_tr578), (35, uri_tr548), (37, uri_tr579), (47, uri_tr550),
    (48, uri_tr580), (49, uri_tr581), (50, uri_tr582), (58, uri_tr584), (59, uri_tr578), (61, uri_tr578), (63,
    uri_tr556), (91, uri_tr558), (95, uri_tr578), (126, uri_tr578)] (IfLess 51 (IfIn 36 46 (Goto uri_tr578)
    (Goto (to 0))) (IfGreater 57 (IfGreater 90 (IfIn 97 122 (Goto uri_tr578) (Goto (to 0))) (IfGeq 65 (Goto
    uri_tr578) (Goto (to 0)))) (Goto uri_tr583)))"

definition uri_st523 :: "uri_action move test" where
  "uri_st523 = Switch [(33, to 523), (35, uri_tr559), (37, to 258), (47, uri_tr560), (58, uri_tr561), (61, to
    523), (63, uri_tr562), (95, to 523), (126, to 523)] (IfLess 65 (IfIn 36 59 (Goto (to 523)) (Goto (to 0)))
    (IfGreater 90 (IfIn 97 122 (Goto (to 523)) (Goto (to 0))) (Goto (to 523))))"

definition uri_st258 :: "uri_action move test" where
  "uri_st258 = IfLess 65 (IfIn 48 57 (Goto (to 259)) (Goto (to 0))) (IfGreater 70 (IfIn 97 102 (Goto (to 259))
    (Goto (to 0))) (Goto (to 259)))"

definition uri_st259 :: "uri_action move test" where
  "uri_st259 = IfLess 65 (IfIn 48 57 (Goto (to 523)) (Goto (to 0))) (IfGreater 70 (IfIn 97 102 (Goto (to 523))
    (Goto (to 0))) (Goto (to 523)))"

definition uri_st524 :: "uri_action move test" where
  "uri_st524 = Switch [(33, to 523), (35, uri_tr559), (37, to 258), (46, to 525), (47, uri_tr560), (58,
    uri_tr561), (61, to 523), (63, uri_tr562), (95, to 523), (126, to 523)] (IfLess 65 (IfIn 36 59 (Goto (to
    523)) (Goto (to 0))) (IfGreater 90 (IfIn 97 122 (Goto (to 523)) (Goto (to 0))) (Goto (to 523))))"

definition uri_st525 :: "uri_action move test" where
  "uri_st525 = Switch [(2, to 233), (33, to 523), (35, uri_tr559), (37, to 258), (47, uri_tr560), (48, to
    526), (49, to 534), (50, to 536), (58, uri_tr561), (59, to 523), (61, to 523), (63, uri_tr562), (95, to
    523), (126, to 523)] (IfLess 51 (IfIn 36 46 (Goto (to 523)) (Goto (to 0))) (IfGreater 57 (IfGreater 90 (IfIn
    97 122 (Goto (to 523)) (Goto (to 0))) (IfGeq 65 (Goto (to 523)) (Goto (to 0)))) (Goto (to 535))))"

definition uri_st526 :: "uri_action move test" where
  "uri_st526 = Switch [(33, to 523), (35, uri_tr559), (37, to 258), (46, to 527), (47, uri_tr560), (58,
    uri_tr561), (61, to 523), (63, uri_tr562), (95, to 523), (126, to 523)] (IfLess 65 (IfIn 36 59 (Goto (to
    523)) (Goto (to 0))) (IfGreater 90 (IfIn 97 122 (Goto (to 523)) (Goto (to 0))) (Goto (to 523))))"

definition uri_st527 :: "uri_action move test" where
  "uri_st527 = Switch [(2, to 237), (33, to 523), (35, uri_tr559), (37, to 258), (47, uri_tr560), (48, to
    528), (49, to 530), (50, to 532), (58, uri_tr561), (59, to 523), (61, to 523), (63, uri_tr562), (95, to
    523), (126, to 523)] (IfLess 51 (IfIn 36 46 (Goto (to 523)) (Goto (to 0))) (IfGreater 57 (IfGreater 90 (IfIn
    97 122 (Goto (to 523)) (Goto (to 0))) (IfGeq 65 (Goto (to 523)) (Goto (to 0)))) (Goto (to 531))))"

definition uri_st528 :: "uri_action move test" where
  "uri_st528 = Switch [(33, to 523), (35, uri_tr559), (37, to 258), (46, to 529), (47, uri_tr560), (58,
    uri_tr561), (61, to 523), (63, uri_tr562), (95, to 523), (126, to 523)] (IfLess 65 (IfIn 36 59 (Goto (to
    523)) (Goto (to 0))) (IfGreater 90 (IfIn 97 122 (Goto (to 523)) (Goto (to 0))) (Goto (to 523))))"

definition uri_st529 :: "uri_action move test" where
  "uri_st529 = Switch [(2, to 241), (33, to 523), (35, uri_tr559), (37, to 258), (47, uri_tr560), (58,
    uri_tr561), (61, to 523), (63, uri_tr562), (95, to 523), (126, to 523)] (IfLess 65 (IfIn 36 59 (Goto (to
    523)) (Goto (to 0))) (IfGreater 90 (IfIn 97 122 (Goto (to 523)) (Goto (to 0))) (Goto (to 523))))"

definition uri_st530 :: "uri_action move test" where
  "uri_st530 = Switch [(33, to 523), (35, uri_tr559), (37, to 258), (46, to 529), (47, uri_tr560), (58,
    uri_tr561), (59, to 523), (61, to 523), (63, uri_tr562), (95, to 523), (126, to 523)] (IfLess 48 (IfIn 36 45
    (Goto (to 523)) (Goto (to 0))) (IfGreater 57 (IfGreater 90 (IfIn 97 122 (Goto (to 523)) (Goto (to 0)))
    (IfGeq 65 (Goto (to 523)) (Goto (to 0)))) (Goto (to 531))))"

definition uri_st531 :: "uri_action move test" where
  "uri_st531 = Switch [(33, to 523), (35, uri_tr559), (37, to 258), (46, to 529), (47, uri_tr560), (58,
    uri_tr561), (59, to 523), (61, to 523), (63, uri_tr562), (95, to 523), (126, to 523)] (IfLess 48 (IfIn 36 45
    (Goto (to 523)) (Goto (to 0))) (IfGreater 57 (IfGreater 90 (IfIn 97 122 (Goto (to 523)) (Goto (to 0)))
    (IfGeq 65 (Goto (to 523)) (Goto (to 0)))) (Goto (to 528))))"

definition uri_st532 :: "uri_action move test" where
  "uri_st532 = Switch [(33, to 523), (35, uri_tr559), (37, to 258), (46, to 529), (47, uri_tr560), (53, to
    533), (58, uri_tr561), (59, to 523), (61, to 523), (63, uri_tr562), (95, to 523), (126, to 523)] (IfLess 48
    (IfIn 36 45 (Goto (to 523)) (Goto (to 0))) (IfGreater 57 (IfGreater 90 (IfIn 97 122 (Goto (to 523)) (Goto
    (to 0))) (IfGeq 65 (Goto (to 523)) (Goto (to 0)))) (Goto (to 528))))"

definition uri_st533 :: "uri_action move test" where
  "uri_st533 = Switch [(33, to 523), (35, uri_tr559), (37, to 258), (46, to 529), (47, uri_tr560), (58,
    uri_tr561), (61, to 523), (63, uri_tr562), (95, to 523), (126, to 523)] (IfLess 54 (IfGreater 45 (IfIn 48 53
    (Goto (to 528)) (Goto (to 0))) (IfGeq 36 (Goto (to 523)) (Goto (to 0)))) (IfGreater 59 (IfGreater 90 (IfIn
    97 122 (Goto (to 523)) (Goto (to 0))) (IfGeq 65 (Goto (to 523)) (Goto (to 0)))) (Goto (to 523))))"

definition uri_st534 :: "uri_action move test" where
  "uri_st534 = Switch [(33, to 523), (35, uri_tr559), (37, to 258), (46, to 527), (47, uri_tr560), (58,
    uri_tr561), (59, to 523), (61, to 523), (63, uri_tr562), (95, to 523), (126, to 523)] (IfLess 48 (IfIn 36 45
    (Goto (to 523)) (Goto (to 0))) (IfGreater 57 (IfGreater 90 (IfIn 97 122 (Goto (to 523)) (Goto (to 0)))
    (IfGeq 65 (Goto (to 523)) (Goto (to 0)))) (Goto (to 535))))"

definition uri_st535 :: "uri_action move test" where
  "uri_st535 = Switch [(33, to 523), (35, uri_tr559), (37, to 258), (46, to 527), (47, uri_tr560), (58,
    uri_tr561), (59, to 523), (61, to 523), (63, uri_tr562), (95, to 523), (126, to 523)] (IfLess 48 (IfIn 36 45
    (Goto (to 523)) (Goto (to 0))) (IfGreater 57 (IfGreater 90 (IfIn 97 122 (Goto (to 523)) (Goto (to 0)))
    (IfGeq 65 (Goto (to 523)) (Goto (to 0)))) (Goto (to 526))))"

definition uri_st536 :: "uri_action move test" where
  "uri_st536 = Switch [(33, to 523), (35, uri_tr559), (37, to 258), (46, to 527), (47, uri_tr560), (53, to
    537), (58, uri_tr561), (59, to 523), (61, to 523), (63, uri_tr562), (95, to 523), (126, to 523)] (IfLess 48
    (IfIn 36 45 (Goto (to 523)) (Goto (to 0))) (IfGreater 57 (IfGreater 90 (IfIn 97 122 (Goto (to 523)) (Goto
    (to 0))) (IfGeq 65 (Goto (to 523)) (Goto (to 0)))) (Goto (to 526))))"

definition uri_st537 :: "uri_action move test" where
  "uri_st537 = Switch [(33, to 523), (35, uri_tr559), (37, to 258), (46, to 527), (47, uri_tr560), (58,
    uri_tr561), (61, to 523), (63, uri_tr562), (95, to 523), (126, to 523)] (IfLess 54 (IfGreater 45 (IfIn 48 53
    (Goto (to 526)) (Goto (to 0))) (IfGeq 36 (Goto (to 523)) (Goto (to 0)))) (IfGreater 59 (IfGreater 90 (IfIn
    97 122 (Goto (to 523)) (Goto (to 0))) (IfGeq 65 (Goto (to 523)) (Goto (to 0)))) (Goto (to 523))))"

definition uri_st538 :: "uri_action move test" where
  "uri_st538 = Switch [(33, to 523), (35, uri_tr559), (37, to 258), (46, to 525), (47, uri_tr560), (58,
    uri_tr561), (59, to 523), (61, to 523), (63, uri_tr562), (95, to 523), (126, to 523)] (IfLess 48 (IfIn 36 45
    (Goto (to 523)) (Goto (to 0))) (IfGreater 57 (IfGreater 90 (IfIn 97 122 (Goto (to 523)) (Goto (to 0)))
    (IfGeq 65 (Goto (to 523)) (Goto (to 0)))) (Goto (to 539))))"

definition uri_st539 :: "uri_action move test" where
  "uri_st539 = Switch [(33, to 523), (35, uri_tr559), (37, to 258), (46, to 525), (47, uri_tr560), (58,
    uri_tr561), (59, to 523), (61, to 523), (63, uri_tr562), (95, to 523), (126, to 523)] (IfLess 48 (IfIn 36 45
    (Goto (to 523)) (Goto (to 0))) (IfGreater 57 (IfGreater 90 (IfIn 97 122 (Goto (to 523)) (Goto (to 0)))
    (IfGeq 65 (Goto (to 523)) (Goto (to 0)))) (Goto (to 524))))"

definition uri_st540 :: "uri_action move test" where
  "uri_st540 = Switch [(33, to 523), (35, uri_tr559), (37, to 258), (46, to 525), (47, uri_tr560), (53, to
    541), (58, uri_tr561), (59, to 523), (61, to 523), (63, uri_tr562), (95, to 523), (126, to 523)] (IfLess 48
    (IfIn 36 45 (Goto (to 523)) (Goto (to 0))) (IfGreater 57 (IfGreater 90 (IfIn 97 122 (Goto (to 523)) (Goto
    (to 0))) (IfGeq 65 (Goto (to 523)) (Goto (to 0)))) (Goto (to 524))))"

definition uri_st541 :: "uri_action move test" where
  "uri_st541 = Switch [(33, to 523), (35, uri_tr559), (37, to 258), (46, to 525), (47, uri_tr560), (58,
    uri_tr561), (61, to 523), (63, uri_tr562), (95, to 523), (126, to 523)] (IfLess 54 (IfGreater 45 (IfIn 48 53
    (Goto (to 524)) (Goto (to 0))) (IfGeq 36 (Goto (to 523)) (Goto (to 0)))) (IfGreater 59 (IfGreater 90 (IfIn
    97 122 (Goto (to 523)) (Goto (to 0))) (IfGeq 65 (Goto (to 523)) (Goto (to 0)))) (Goto (to 523))))"

definition uri_st260 :: "uri_action move test" where
  "uri_st260 = Switch [(58, to 368), (118, to 447)] (IfLess 65 (IfIn 48 57 (Goto (to 261)) (Goto (to 0)))
    (IfGreater 70 (IfIn 97 102 (Goto (to 261)) (Goto (to 0))) (Goto (to 261))))"

definition uri_st261 :: "uri_action move test" where
  "uri_st261 = IfEq 58 (Goto (to 265)) (IfLess 65 (IfIn 48 57 (Goto (to 262)) (Goto (to 0))) (IfGreater 70
    (IfIn 97 102 (Goto (to 262)) (Goto (to 0))) (Goto (to 262))))"

definition uri_st262 :: "uri_action move test" where
  "uri_st262 = IfEq 58 (Goto (to 265)) (IfLess 65 (IfIn 48 57 (Goto (to 263)) (Goto (to 0))) (IfGreater 70
    (IfIn 97 102 (Goto (to 263)) (Goto (to 0))) (Goto (to 263))))"

definition uri_st263 :: "uri_action move test" where
  "uri_st263 = IfEq 58 (Goto (to 265)) (IfLess 65 (IfIn 48 57 (Goto (to 264)) (Goto (to 0))) (IfGreater 70
    (IfIn 97 102 (Goto (to 264)) (Goto (to 0))) (Goto (to 264))))"

definition uri_st264 :: "uri_action move test" where
  "uri_st264 = IfEq 58 (Goto (to 265)) (Goto (to 0))"

definition uri_st265 :: "uri_action move test" where
  "uri_st265 = IfEq 58 (Goto (to 363)) (IfLess 65 (IfIn 48 57 (Goto (to 266)) (Goto (to 0))) (IfGreater 70
    (IfIn 97 102 (Goto (to 266)) (Goto (to 0))) (Goto (to 266))))"

definition uri_st266 :: "uri_action move test" where
  "uri_st266 = IfEq 58 (Goto (to 270)) (IfLess 65 (IfIn 48 57 (Goto (to 267)) (Goto (to 0))) (IfGreater 70
    (IfIn 97 102 (Goto (to 267)) (Goto (to 0))) (Goto (to 267))))"

definition uri_st267 :: "uri_action move test" where
  "uri_st267 = IfEq 58 (Goto (to 270)) (IfLess 65 (IfIn 48 57 (Goto (to 268)) (Goto (to 0))) (IfGreater 70
    (IfIn 97 102 (Goto (to 268)) (Goto (to 0))) (Goto (to 268))))"

definition uri_st268 :: "uri_action move test" where
  "uri_st268 = IfEq 58 (Goto (to 270)) (IfLess 65 (IfIn 48 57 (Goto (to 269)) (Goto (to 0))) (IfGreater 70
    (IfIn 97 102 (Goto (to 269)) (Goto (to 0))) (Goto (to 269))))"

definition uri_st269 :: "uri_action move test" where
  "uri_st269 = IfEq 58 (Goto (to 270)) (Goto (to 0))"

definition uri_st270 :: "uri_action move test" where
  "uri_st270 = IfEq 58 (Goto (to 358)) (IfLess 65 (IfIn 48 57 (Goto (to 271)) (Goto (to 0))) (IfGreater 70
    (IfIn 97 102 (Goto (to 271)) (Goto (to 0))) (Goto (to 271))))"

definition uri_st271 :: "uri_action move test" where
  "uri_st271 = IfEq 58 (Goto (to 275)) (IfLess 65 (IfIn 48 57 (Goto (to 272)) (Goto (to 0))) (IfGreater 70
    (IfIn 97 102 (Goto (to 272)) (Goto (to 0))) (Goto (to 272))))"

definition uri_st272 :: "uri_action move test" where
  "uri_st272 = IfEq 58 (Goto (to 275)) (IfLess 65 (IfIn 48 57 (Goto (to 273)) (Goto (to 0))) (IfGreater 70
    (IfIn 97 102 (Goto (to 273)) (Goto (to 0))) (Goto (to 273))))"

definition uri_st273 :: "uri_action move test" where
  "uri_st273 = IfEq 58 (Goto (to 275)) (IfLess 65 (IfIn 48 57 (Goto (to 274)) (Goto (to 0))) (IfGreater 70
    (IfIn 97 102 (Goto (to 274)) (Goto (to 0))) (Goto (to 274))))"

definition uri_st274 :: "uri_action move test" where
  "uri_st274 = IfEq 58 (Goto (to 275)) (Goto (to 0))"

definition uri_st275 :: "uri_action move test" where
  "uri_st275 = IfEq 58 (Goto (to 353)) (IfLess 65 (IfIn 48 57 (Goto (to 276)) (Goto (to 0))) (IfGreater 70
    (IfIn 97 102 (Goto (to 276)) (Goto (to 0))) (Goto (to 276))))"

definition uri_st276 :: "uri_action move test" where
  "uri_st276 = IfEq 58 (Goto (to 280)) (IfLess 65 (IfIn 48 57 (Goto (to 277)) (Goto (to 0))) (IfGreater 70
    (IfIn 97 102 (Goto (to 277)) (Goto (to 0))) (Goto (to 277))))"

definition uri_st277 :: "uri_action move test" where
  "uri_st277 = IfEq 58 (Goto (to 280)) (IfLess 65 (IfIn 48 57 (Goto (to 278)) (Goto (to 0))) (IfGreater 70
    (IfIn 97 102 (Goto (to 278)) (Goto (to 0))) (Goto (to 278))))"

definition uri_st278 :: "uri_action move test" where
  "uri_st278 = IfEq 58 (Goto (to 280)) (IfLess 65 (IfIn 48 57 (Goto (to 279)) (Goto (to 0))) (IfGreater 70
    (IfIn 97 102 (Goto (to 279)) (Goto (to 0))) (Goto (to 279))))"

definition uri_st279 :: "uri_action move test" where
  "uri_st279 = IfEq 58 (Goto (to 280)) (Goto (to 0))"

definition uri_st280 :: "uri_action move test" where
  "uri_st280 = IfEq 58 (Goto (to 348)) (IfLess 65 (IfIn 48 57 (Goto (to 281)) (Goto (to 0))) (IfGreater 70
    (IfIn 97 102 (Goto (to 281)) (Goto (to 0))) (Goto (to 281))))"

definition uri_st281 :: "uri_action move test" where
  "uri_st281 = IfEq 58 (Goto (to 285)) (IfLess 65 (IfIn 48 57 (Goto (to 282)) (Goto (to 0))) (IfGreater 70
    (IfIn 97 102 (Goto (to 282)) (Goto (to 0))) (Goto (to 282))))"

definition uri_st282 :: "uri_action move test" where
  "uri_st282 = IfEq 58 (Goto (to 285)) (IfLess 65 (IfIn 48 57 (Goto (to 283)) (Goto (to 0))) (IfGreater 70
    (IfIn 97 102 (Goto (to 283)) (Goto (to 0))) (Goto (to 283))))"

definition uri_st283 :: "uri_action move test" where
  "uri_st283 = IfEq 58 (Goto (to 285)) (IfLess 65 (IfIn 48 57 (Goto (to 284)) (Goto (to 0))) (IfGreater 70
    (IfIn 97 102 (Goto (to 284)) (Goto (to 0))) (Goto (to 284))))"

definition uri_st284 :: "uri_action move test" where
  "uri_st284 = IfEq 58 (Goto (to 285)) (Goto (to 0))"

definition uri_st285 :: "uri_action move test" where
  "uri_st285 = IfEq 58 (Goto (to 335)) (IfLess 65 (IfIn 48 57 (Goto (to 286)) (Goto (to 0))) (IfGreater 70
    (IfIn 97 102 (Goto (to 286)) (Goto (to 0))) (Goto (to 286))))"

definition uri_st286 :: "uri_action move test" where
  "uri_st286 = IfEq 58 (Goto (to 290)) (IfLess 65 (IfIn 48 57 (Goto (to 287)) (Goto (to 0))) (IfGreater 70
    (IfIn 97 102 (Goto (to 287)) (Goto (to 0))) (Goto (to 287))))"

definition uri_st287 :: "uri_action move test" where
  "uri_st287 = IfEq 58 (Goto (to 290)) (IfLess 65 (IfIn 48 57 (Goto (to 288)) (Goto (to 0))) (IfGreater 70
    (IfIn 97 102 (Goto (to 288)) (Goto (to 0))) (Goto (to 288))))"

definition uri_st288 :: "uri_action move test" where
  "uri_st288 = IfEq 58 (Goto (to 290)) (IfLess 65 (IfIn 48 57 (Goto (to 289)) (Goto (to 0))) (IfGreater 70
    (IfIn 97 102 (Goto (to 289)) (Goto (to 0))) (Goto (to 289))))"

definition uri_st289 :: "uri_action move test" where
  "uri_st289 = IfEq 58 (Goto (to 290)) (Goto (to 0))"

definition uri_st290 :: "uri_action move test" where
  "uri_st290 = Switch [(2, to 291), (48, to 318), (49, to 326), (50, to 329), (58, to 333)] (IfLess 65 (IfIn
    51 57 (Goto (to 332)) (Goto (to 0))) (IfGreater 70 (IfIn 97 102 (Goto (to 334)) (Goto (to 0))) (Goto (to
    334))))"

definition uri_st291 :: "uri_action move test" where
  "uri_st291 = IfIn 48 52 (Goto (to 292)) (Goto (to 0))"

definition uri_st292 :: "uri_action move test" where
  "uri_st292 = IfIn 48 57 (Goto (to 293)) (Goto (to 0))"

definition uri_st293 :: "uri_action move test" where
  "uri_st293 = IfEq 46 (Goto (to 294)) (Goto (to 0))"

definition uri_st294 :: "uri_action move test" where
  "uri_st294 = Switch [(2, to 295), (48, to 297), (49, to 314), (50, to 316)] (IfIn 51 57 (Goto (to 315))
    (Goto (to 0)))"

definition uri_st295 :: "uri_action move test" where
  "uri_st295 = IfIn 48 52 (Goto (to 296)) (Goto (to 0))"

definition uri_st296 :: "uri_action move test" where
  "uri_st296 = IfIn 48 57 (Goto (to 297)) (Goto (to 0))"

definition uri_st297 :: "uri_action move test" where
  "uri_st297 = IfEq 46 (Goto (to 298)) (Goto (to 0))"

definition uri_st298 :: "uri_action move test" where
  "uri_st298 = Switch [(2, to 299), (48, to 301), (49, to 310), (50, to 312)] (IfIn 51 57 (Goto (to 311))
    (Goto (to 0)))"

definition uri_st299 :: "uri_action move test" where
  "uri_st299 = IfIn 48 52 (Goto (to 300)) (Goto (to 0))"

definition uri_st300 :: "uri_action move test" where
  "uri_st300 = IfIn 48 57 (Goto (to 301)) (Goto (to 0))"

definition uri_st301 :: "uri_action move test" where
  "uri_st301 = IfEq 46 (Goto (to 302)) (Goto (to 0))"

definition uri_st302 :: "uri_action move test" where
  "uri_st302 = Switch [(2, to 303), (48, to 305), (49, to 306), (50, to 308)] (IfIn 51 57 (Goto (to 307))
    (Goto (to 0)))"

definition uri_st303 :: "uri_action move test" where
  "uri_st303 = IfIn 48 52 (Goto (to 304)) (Goto (to 0))"

definition uri_st304 :: "uri_action move test" where
  "uri_st304 = IfIn 48 57 (Goto (to 305)) (Goto (to 0))"

definition uri_st305 :: "uri_action move test" where
  "uri_st305 = IfEq 93 (Goto (to 512)) (Goto (to 0))"

definition uri_st306 :: "uri_action move test" where
  "uri_st306 = IfEq 93 (Goto (to 512)) (IfIn 48 57 (Goto (to 307)) (Goto (to 0)))"

definition uri_st307 :: "uri_action move test" where
  "uri_st307 = IfEq 93 (Goto (to 512)) (IfIn 48 57 (Goto (to 305)) (Goto (to 0)))"

definition uri_st308 :: "uri_action move test" where
  "uri_st308 = Switch [(53, to 309), (93, to 512)] (IfIn 48 57 (Goto (to 305)) (Goto (to 0)))"

definition uri_st309 :: "uri_action move test" where
  "uri_st309 = IfEq 93 (Goto (to 512)) (IfIn 48 53 (Goto (to 305)) (Goto (to 0)))"

definition uri_st310 :: "uri_action move test" where
  "uri_st310 = IfEq 46 (Goto (to 302)) (IfIn 48 57 (Goto (to 311)) (Goto (to 0)))"

definition uri_st311 :: "uri_action move test" where
  "uri_st311 = IfEq 46 (Goto (to 302)) (IfIn 48 57 (Goto (to 301)) (Goto (to 0)))"

definition uri_st312 :: "uri_action move test" where
  "uri_st312 = Switch [(46, to 302), (53, to 313)] (IfIn 48 57 (Goto (to 301)) (Goto (to 0)))"

definition uri_st313 :: "uri_action move test" where
  "uri_st313 = IfEq 46 (Goto (to 302)) (IfIn 48 53 (Goto (to 301)) (Goto (to 0)))"

definition uri_st314 :: "uri_action move test" where
  "uri_st314 = IfEq 46 (Goto (to 298)) (IfIn 48 57 (Goto (to 315)) (Goto (to 0)))"

definition uri_st315 :: "uri_action move test" where
  "uri_st315 = IfEq 46 (Goto (to 298)) (IfIn 48 57 (Goto (to 297)) (Goto (to 0)))"

definition uri_st316 :: "uri_action move test" where
  "uri_st316 = Switch [(46, to 298), (53, to 317)] (IfIn 48 57 (Goto (to 297)) (Goto (to 0)))"

definition uri_st317 :: "uri_action move test" where
  "uri_st317 = IfEq 46 (Goto (to 298)) (IfIn 48 53 (Goto (to 297)) (Goto (to 0)))"

definition uri_st318 :: "uri_action move test" where
  "uri_st318 = Switch [(46, to 294), (58, to 322)] (IfLess 65 (IfIn 48 57 (Goto (to 319)) (Goto (to 0)))
    (IfGreater 70 (IfIn 97 102 (Goto (to 319)) (Goto (to 0))) (Goto (to 319))))"

definition uri_st319 :: "uri_action move test" where
  "uri_st319 = IfEq 58 (Goto (to 322)) (IfLess 65 (IfIn 48 57 (Goto (to 320)) (Goto (to 0))) (IfGreater 70
    (IfIn 97 102 (Goto (to 320)) (Goto (to 0))) (Goto (to 320))))"

definition uri_st320 :: "uri_action move test" where
  "uri_st320 = IfEq 58 (Goto (to 322)) (IfLess 65 (IfIn 48 57 (Goto (to 321)) (Goto (to 0))) (IfGreater 70
    (IfIn 97 102 (Goto (to 321)) (Goto (to 0))) (Goto (to 321))))"

definition uri_st321 :: "uri_action move test" where
  "uri_st321 = IfEq 58 (Goto (to 322)) (Goto (to 0))"

definition uri_st322 :: "uri_action move test" where
  "uri_st322 = IfEq 58 (Goto (to 305)) (IfLess 65 (IfIn 48 57 (Goto (to 323)) (Goto (to 0))) (IfGreater 70
    (IfIn 97 102 (Goto (to 323)) (Goto (to 0))) (Goto (to 323))))"

definition uri_st323 :: "uri_action move test" where
  "uri_st323 = IfEq 93 (Goto (to 512)) (IfLess 65 (IfIn 48 57 (Goto (to 324)) (Goto (to 0))) (IfGreater 70
    (IfIn 97 102 (Goto (to 324)) (Goto (to 0))) (Goto (to 324))))"

definition uri_st324 :: "uri_action move test" where
  "uri_st324 = IfEq 93 (Goto (to 512)) (IfLess 65 (IfIn 48 57 (Goto (to 325)) (Goto (to 0))) (IfGreater 70
    (IfIn 97 102 (Goto (to 325)) (Goto (to 0))) (Goto (to 325))))"

definition uri_st325 :: "uri_action move test" where
  "uri_st325 = IfEq 93 (Goto (to 512)) (IfLess 65 (IfIn 48 57 (Goto (to 305)) (Goto (to 0))) (IfGreater 70
    (IfIn 97 102 (Goto (to 305)) (Goto (to 0))) (Goto (to 305))))"

definition uri_st326 :: "uri_action move test" where
  "uri_st326 = Switch [(46, to 294), (58, to 322)] (IfLess 65 (IfIn 48 57 (Goto (to 327)) (Goto (to 0)))
    (IfGreater 70 (IfIn 97 102 (Goto (to 319)) (Goto (to 0))) (Goto (to 319))))"

definition uri_st327 :: "uri_action move test" where
  "uri_st327 = Switch [(46, to 294), (58, to 322)] (IfLess 65 (IfIn 48 57 (Goto (to 328)) (Goto (to 0)))
    (IfGreater 70 (IfIn 97 102 (Goto (to 320)) (Goto (to 0))) (Goto (to 320))))"

definition uri_st328 :: "uri_action move test" where
  "uri_st328 = Switch [(46, to 294), (58, to 322)] (IfLess 65 (IfIn 48 57 (Goto (to 321)) (Goto (to 0)))
    (IfGreater 70 (IfIn 97 102 (Goto (to 321)) (Goto (to 0))) (Goto (to 321))))"

definition uri_st329 :: "uri_action move test" where
  "uri_st329 = Switch [(46, to 294), (53, to 331), (58, to 322)] (IfLess 65 (IfIn 48 57 (Goto (to 330)) (Goto
    (to 0))) (IfGreater 70 (IfIn 97 102 (Goto (to 319)) (Goto (to 0))) (Goto (to 319))))"

definition uri_st330 :: "uri_action move test" where
  "uri_st330 = Switch [(46, to 294), (58, to 322)] (IfLess 65 (IfIn 48 57 (Goto (to 320)) (Goto (to 0)))
    (IfGreater 70 (IfIn 97 102 (Goto (to 320)) (Goto (to 0))) (Goto (to 320))))"

definition uri_st331 :: "uri_action move test" where
  "uri_st331 = Switch [(46, to 294), (58, to 322)] (IfLess 54 (IfIn 48 53 (Goto (to 328)) (Goto (to 0)))
    (IfGreater 57 (IfGreater 70 (IfIn 97 102 (Goto (to 320)) (Goto (to 0))) (IfGeq 65 (Goto (to 320)) (Goto (to
    0)))) (Goto (to 320))))"

definition uri_st332 :: "uri_action move test" where
  "uri_st332 = Switch [(46, to 294), (58, to 322)] (IfLess 65 (IfIn 48 57 (Goto (to 330)) (Goto (to 0)))
    (IfGreater 70 (IfIn 97 102 (Goto (to 319)) (Goto (to 0))) (Goto (to 319))))"

definition uri_st333 :: "uri_action move test" where
  "uri_st333 = IfLess 65 (IfIn 48 57 (Goto (to 323)) (Goto (to 0))) (IfGreater 70 (IfIn 97 102 (Goto (to 323))
    (Goto (to 0))) (Goto (to 323)))"

definition uri_st334 :: "uri_action move test" where
  "uri_st334 = IfEq 58 (Goto (to 322)) (IfLess 65 (IfIn 48 57 (Goto (to 319)) (Goto (to 0))) (IfGreater 70
    (IfIn 97 102 (Goto (to 319)) (Goto (to 0))) (Goto (to 319))))"

definition uri_st335 :: "uri_action move test" where
  "uri_st335 = Switch [(2, to 291), (48, to 336), (49, to 340), (50, to 343)] (IfLess 65 (IfIn 51 57 (Goto (to
    346)) (Goto (to 0))) (IfGreater 70 (IfIn 97 102 (Goto (to 347)) (Goto (to 0))) (Goto (to 347))))"

definition uri_st336 :: "uri_action move test" where
  "uri_st336 = Switch [(46, to 294), (58, to 333)] (IfLess 65 (IfIn 48 57 (Goto (to 337)) (Goto (to 0)))
    (IfGreater 70 (IfIn 97 102 (Goto (to 337)) (Goto (to 0))) (Goto (to 337))))"

definition uri_st337 :: "uri_action move test" where
  "uri_st337 = IfEq 58 (Goto (to 333)) (IfLess 65 (IfIn 48 57 (Goto (to 338)) (Goto (to 0))) (IfGreater 70
    (IfIn 97 102 (Goto (to 338)) (Goto (to 0))) (Goto (to 338))))"

definition uri_st338 :: "uri_action move test" where
  "uri_st338 = IfEq 58 (Goto (to 333)) (IfLess 65 (IfIn 48 57 (Goto (to 339)) (Goto (to 0))) (IfGreater 70
    (IfIn 97 102 (Goto (to 339)) (Goto (to 0))) (Goto (to 339))))"

definition uri_st339 :: "uri_action move test" where
  "uri_st339 = IfEq 58 (Goto (to 333)) (Goto (to 0))"

definition uri_st340 :: "uri_action move test" where
  "uri_st340 = Switch [(46, to 294), (58, to 333)] (IfLess 65 (IfIn 48 57 (Goto (to 341)) (Goto (to 0)))
    (IfGreater 70 (IfIn 97 102 (Goto (to 337)) (Goto (to 0))) (Goto (to 337))))"

definition uri_st341 :: "uri_action move test" where
  "uri_st341 = Switch [(46, to 294), (58, to 333)] (IfLess 65 (IfIn 48 57 (Goto (to 342)) (Goto (to 0)))
    (IfGreater 70 (IfIn 97 102 (Goto (to 338)) (Goto (to 0))) (Goto (to 338))))"

definition uri_st342 :: "uri_action move test" where
  "uri_st342 = Switch [(46, to 294), (58, to 333)] (IfLess 65 (IfIn 48 57 (Goto (to 339)) (Goto (to 0)))
    (IfGreater 70 (IfIn 97 102 (Goto (to 339)) (Goto (to 0))) (Goto (to 339))))"

definition uri_st343 :: "uri_action move test" where
  "uri_st343 = Switch [(46, to 294), (53, to 345), (58, to 333)] (IfLess 65 (IfIn 48 57 (Goto (to 344)) (Goto
    (to 0))) (IfGreater 70 (IfIn 97 102 (Goto (to 337)) (Goto (to 0))) (Goto (to 337))))"

definition uri_st344 :: "uri_action move test" where
  "uri_st344 = Switch [(46, to 294), (58, to 333)] (IfLess 65 (IfIn 48 57 (Goto (to 338)) (Goto (to 0)))
    (IfGreater 70 (IfIn 97 102 (Goto (to 338)) (Goto (to 0))) (Goto (to 338))))"

definition uri_st345 :: "uri_action move test" where
  "uri_st345 = Switch [(46, to 294), (58, to 333)] (IfLess 54 (IfIn 48 53 (Goto (to 342)) (Goto (to 0)))
    (IfGreater 57 (IfGreater 70 (IfIn 97 102 (Goto (to 338)) (Goto (to 0))) (IfGeq 65 (Goto (to 338)) (Goto (to
    0)))) (Goto (to 338))))"

definition uri_st346 :: "uri_action move test" where
  "uri_st346 = Switch [(46, to 294), (58, to 333)] (IfLess 65 (IfIn 48 57 (Goto (to 344)) (Goto (to 0)))
    (IfGreater 70 (IfIn 97 102 (Goto (to 337)) (Goto (to 0))) (Goto (to 337))))"

definition uri_st347 :: "uri_action move test" where
  "uri_st347 = IfEq 58 (Goto (to 333)) (IfLess 65 (IfIn 48 57 (Goto (to 337)) (Goto (to 0))) (IfGreater 70
    (IfIn 97 102 (Goto (to 337)) (Goto (to 0))) (Goto (to 337))))"

definition uri_st348 :: "uri_action move test" where
  "uri_st348 = IfLess 65 (IfIn 48 57 (Goto (to 349)) (Goto (to 0))) (IfGreater 70 (IfIn 97 102 (Goto (to 349))
    (Goto (to 0))) (Goto (to 349)))"

definition uri_st349 :: "uri_action move test" where
  "uri_st349 = IfEq 58 (Goto (to 335)) (IfLess 65 (IfIn 48 57 (Goto (to 350)) (Goto (to 0))) (IfGreater 70
    (IfIn 97 102 (Goto (to 350)) (Goto (to 0))) (Goto (to 350))))"

definition uri_st350 :: "uri_action move test" where
  "uri_st350 = IfEq 58 (Goto (to 335)) (IfLess 65 (IfIn 48 57 (Goto (to 351)) (Goto (to 0))) (IfGreater 70
    (IfIn 97 102 (Goto (to 351)) (Goto (to 0))) (Goto (to 351))))"

definition uri_st351 :: "uri_action move test" where
  "uri_st351 = IfEq 58 (Goto (to 335)) (IfLess 65 (IfIn 48 57 (Goto (to 352)) (Goto (to 0))) (IfGreater 70
    (IfIn 97 102 (Goto (to 352)) (Goto (to 0))) (Goto (to 352))))"

definition uri_st352 :: "uri_action move test" where
  "uri_st352 = IfEq 58 (Goto (to 335)) (Goto (to 0))"

definition uri_st353 :: "uri_action move test" where
  "uri_st353 = IfLess 65 (IfIn 48 57 (Goto (to 354)) (Goto (to 0))) (IfGreater 70 (IfIn 97 102 (Goto (to 354))
    (Goto (to 0))) (Goto (to 354)))"

definition uri_st354 :: "uri_action move test" where
  "uri_st354 = IfEq 58 (Goto (to 348)) (IfLess 65 (IfIn 48 57 (Goto (to 355)) (Goto (to 0))) (IfGreater 70
    (IfIn 97 102 (Goto (to 355)) (Goto (to 0))) (Goto (to 355))))"

definition uri_st355 :: "uri_action move test" where
  "uri_st355 = IfEq 58 (Goto (to 348)) (IfLess 65 (IfIn 48 57 (Goto (to 356)) (Goto (to 0))) (IfGreater 70
    (IfIn 97 102 (Goto (to 356)) (Goto (to 0))) (Goto (to 356))))"

definition uri_st356 :: "uri_action move test" where
  "uri_st356 = IfEq 58 (Goto (to 348)) (IfLess 65 (IfIn 48 57 (Goto (to 357)) (Goto (to 0))) (IfGreater 70
    (IfIn 97 102 (Goto (to 357)) (Goto (to 0))) (Goto (to 357))))"

definition uri_st357 :: "uri_action move test" where
  "uri_st357 = IfEq 58 (Goto (to 348)) (Goto (to 0))"

definition uri_st358 :: "uri_action move test" where
  "uri_st358 = IfLess 65 (IfIn 48 57 (Goto (to 359)) (Goto (to 0))) (IfGreater 70 (IfIn 97 102 (Goto (to 359))
    (Goto (to 0))) (Goto (to 359)))"

definition uri_st359 :: "uri_action move test" where
  "uri_st359 = IfEq 58 (Goto (to 353)) (IfLess 65 (IfIn 48 57 (Goto (to 360)) (Goto (to 0))) (IfGreater 70
    (IfIn 97 102 (Goto (to 360)) (Goto (to 0))) (Goto (to 360))))"

definition uri_st360 :: "uri_action move test" where
  "uri_st360 = IfEq 58 (Goto (to 353)) (IfLess 65 (IfIn 48 57 (Goto (to 361)) (Goto (to 0))) (IfGreater 70
    (IfIn 97 102 (Goto (to 361)) (Goto (to 0))) (Goto (to 361))))"

definition uri_st361 :: "uri_action move test" where
  "uri_st361 = IfEq 58 (Goto (to 353)) (IfLess 65 (IfIn 48 57 (Goto (to 362)) (Goto (to 0))) (IfGreater 70
    (IfIn 97 102 (Goto (to 362)) (Goto (to 0))) (Goto (to 362))))"

definition uri_st362 :: "uri_action move test" where
  "uri_st362 = IfEq 58 (Goto (to 353)) (Goto (to 0))"

definition uri_st363 :: "uri_action move test" where
  "uri_st363 = IfLess 65 (IfIn 48 57 (Goto (to 364)) (Goto (to 0))) (IfGreater 70 (IfIn 97 102 (Goto (to 364))
    (Goto (to 0))) (Goto (to 364)))"

definition uri_st364 :: "uri_action move test" where
  "uri_st364 = IfEq 58 (Goto (to 358)) (IfLess 65 (IfIn 48 57 (Goto (to 365)) (Goto (to 0))) (IfGreater 70
    (IfIn 97 102 (Goto (to 365)) (Goto (to 0))) (Goto (to 365))))"

definition uri_st365 :: "uri_action move test" where
  "uri_st365 = IfEq 58 (Goto (to 358)) (IfLess 65 (IfIn 48 57 (Goto (to 366)) (Goto (to 0))) (IfGreater 70
    (IfIn 97 102 (Goto (to 366)) (Goto (to 0))) (Goto (to 366))))"

definition uri_st366 :: "uri_action move test" where
  "uri_st366 = IfEq 58 (Goto (to 358)) (IfLess 65 (IfIn 48 57 (Goto (to 367)) (Goto (to 0))) (IfGreater 70
    (IfIn 97 102 (Goto (to 367)) (Goto (to 0))) (Goto (to 367))))"

definition uri_st367 :: "uri_action move test" where
  "uri_st367 = IfEq 58 (Goto (to 358)) (Goto (to 0))"

definition uri_st368 :: "uri_action move test" where
  "uri_st368 = IfEq 58 (Goto (to 369)) (Goto (to 0))"

definition uri_st369 :: "uri_action move test" where
  "uri_st369 = Switch [(2, to 291), (48, to 370), (49, to 439), (50, to 442), (93, to 512)] (IfLess 65 (IfIn
    51 57 (Goto (to 445)) (Goto (to 0))) (IfGreater 70 (IfIn 97 102 (Goto (to 446)) (Goto (to 0))) (Goto (to
    446))))"

definition uri_st370 :: "uri_action move test" where
  "uri_st370 = Switch [(46, to 294), (58, to 374), (93, to 512)] (IfLess 65 (IfIn 48 57 (Goto (to 371)) (Goto
    (to 0))) (IfGreater 70 (IfIn 97 102 (Goto (to 371)) (Goto (to 0))) (Goto (to 371))))"

definition uri_st371 :: "uri_action move test" where
  "uri_st371 = Switch [(58, to 374), (93, to 512)] (IfLess 65 (IfIn 48 57 (Goto (to 372)) (Goto (to 0)))
    (IfGreater 70 (IfIn 97 102 (Goto (to 372)) (Goto (to 0))) (Goto (to 372))))"

definition uri_st372 :: "uri_action move test" where
  "uri_st372 = Switch [(58, to 374), (93, to 512)] (IfLess 65 (IfIn 48 57 (Goto (to 373)) (Goto (to 0)))
    (IfGreater 70 (IfIn 97 102 (Goto (to 373)) (Goto (to 0))) (Goto (to 373))))"

definition uri_st373 :: "uri_action move test" where
  "uri_st373 = Switch [(58, to 374), (93, to 512)] (Goto (to 0))"

definition uri_st374 :: "uri_action move test" where
  "uri_st374 = Switch [(2, to 291), (48, to 375), (49, to 431), (50, to 434)] (IfLess 65 (IfIn 51 57 (Goto (to
    437)) (Goto (to 0))) (IfGreater 70 (IfIn 97 102 (Goto (to 438)) (Goto (to 0))) (Goto (to 438))))"

definition uri_st375 :: "uri_action move test" where
  "uri_st375 = Switch [(46, to 294), (58, to 379), (93, to 512)] (IfLess 65 (IfIn 48 57 (Goto (to 376)) (Goto
    (to 0))) (IfGreater 70 (IfIn 97 102 (Goto (to 376)) (Goto (to 0))) (Goto (to 376))))"

definition uri_st376 :: "uri_action move test" where
  "uri_st376 = Switch [(58, to 379), (93, to 512)] (IfLess 65 (IfIn 48 57 (Goto (to 377)) (Goto (to 0)))
    (IfGreater 70 (IfIn 97 102 (Goto (to 377)) (Goto (to 0))) (Goto (to 377))))"

definition uri_st377 :: "uri_action move test" where
  "uri_st377 = Switch [(58, to 379), (93, to 512)] (IfLess 65 (IfIn 48 57 (Goto (to 378)) (Goto (to 0)))
    (IfGreater 70 (IfIn 97 102 (Goto (to 378)) (Goto (to 0))) (Goto (to 378))))"

definition uri_st378 :: "uri_action move test" where
  "uri_st378 = Switch [(58, to 379), (93, to 512)] (Goto (to 0))"

definition uri_st379 :: "uri_action move test" where
  "uri_st379 = Switch [(2, to 291), (48, to 380), (49, to 423), (50, to 426)] (IfLess 65 (IfIn 51 57 (Goto (to
    429)) (Goto (to 0))) (IfGreater 70 (IfIn 97 102 (Goto (to 430)) (Goto (to 0))) (Goto (to 430))))"

definition uri_st380 :: "uri_action move test" where
  "uri_st380 = Switch [(46, to 294), (58, to 384), (93, to 512)] (IfLess 65 (IfIn 48 57 (Goto (to 381)) (Goto
    (to 0))) (IfGreater 70 (IfIn 97 102 (Goto (to 381)) (Goto (to 0))) (Goto (to 381))))"

definition uri_st381 :: "uri_action move test" where
  "uri_st381 = Switch [(58, to 384), (93, to 512)] (IfLess 65 (IfIn 48 57 (Goto (to 382)) (Goto (to 0)))
    (IfGreater 70 (IfIn 97 102 (Goto (to 382)) (Goto (to 0))) (Goto (to 382))))"

definition uri_st382 :: "uri_action move test" where
  "uri_st382 = Switch [(58, to 384), (93, to 512)] (IfLess 65 (IfIn 48 57 (Goto (to 383)) (Goto (to 0)))
    (IfGreater 70 (IfIn 97 102 (Goto (to 383)) (Goto (to 0))) (Goto (to 383))))"

definition uri_st383 :: "uri_action move test" where
  "uri_st383 = Switch [(58, to 384), (93, to 512)] (Goto (to 0))"

definition uri_st384 :: "uri_action move test" where
  "uri_st384 = Switch [(2, to 291), (48, to 385), (49, to 415), (50, to 418)] (IfLess 65 (IfIn 51 57 (Goto (to
    421)) (Goto (to 0))) (IfGreater 70 (IfIn 97 102 (Goto (to 422)) (Goto (to 0))) (Goto (to 422))))"

definition uri_st385 :: "uri_action move test" where
  "uri_st385 = Switch [(46, to 294), (58, to 389), (93, to 512)] (IfLess 65 (IfIn 48 57 (Goto (to 386)) (Goto
    (to 0))) (IfGreater 70 (IfIn 97 102 (Goto (to 386)) (Goto (to 0))) (Goto (to 386))))"

definition uri_st386 :: "uri_action move test" where
  "uri_st386 = Switch [(58, to 389), (93, to 512)] (IfLess 65 (IfIn 48 57 (Goto (to 387)) (Goto (to 0)))
    (IfGreater 70 (IfIn 97 102 (Goto (to 387)) (Goto (to 0))) (Goto (to 387))))"

definition uri_st387 :: "uri_action move test" where
  "uri_st387 = Switch [(58, to 389), (93, to 512)] (IfLess 65 (IfIn 48 57 (Goto (to 388)) (Goto (to 0)))
    (IfGreater 70 (IfIn 97 102 (Goto (to 388)) (Goto (to 0))) (Goto (to 388))))"

definition uri_st388 :: "uri_action move test" where
  "uri_st388 = Switch [(58, to 389), (93, to 512)] (Goto (to 0))"

definition uri_st389 :: "uri_action move test" where
  "uri_st389 = Switch [(2, to 291), (48, to 390), (49, to 407), (50, to 410)] (IfLess 65 (IfIn 51 57 (Goto (to
    413)) (Goto (to 0))) (IfGreater 70 (IfIn 97 102 (Goto (to 414)) (Goto (to 0))) (Goto (to 414))))"

definition uri_st390 :: "uri_action move test" where
  "uri_st390 = Switch [(46, to 294), (58, to 394), (93, to 512)] (IfLess 65 (IfIn 48 57 (Goto (to 391)) (Goto
    (to 0))) (IfGreater 70 (IfIn 97 102 (Goto (to 391)) (Goto (to 0))) (Goto (to 391))))"

definition uri_st391 :: "uri_action move test" where
  "uri_st391 = Switch [(58, to 394), (93, to 512)] (IfLess 65 (IfIn 48 57 (Goto (to 392)) (Goto (to 0)))
    (IfGreater 70 (IfIn 97 102 (Goto (to 392)) (Goto (to 0))) (Goto (to 392))))"

definition uri_st392 :: "uri_action move test" where
  "uri_st392 = Switch [(58, to 394), (93, to 512)] (IfLess 65 (IfIn 48 57 (Goto (to 393)) (Goto (to 0)))
    (IfGreater 70 (IfIn 97 102 (Goto (to 393)) (Goto (to 0))) (Goto (to 393))))"

definition uri_st393 :: "uri_action move test" where
  "uri_st393 = Switch [(58, to 394), (93, to 512)] (Goto (to 0))"

definition uri_st394 :: "uri_action move test" where
  "uri_st394 = Switch [(2, to 291), (48, to 395), (49, to 399), (50, to 402)] (IfLess 65 (IfIn 51 57 (Goto (to
    405)) (Goto (to 0))) (IfGreater 70 (IfIn 97 102 (Goto (to 406)) (Goto (to 0))) (Goto (to 406))))"

definition uri_st395 :: "uri_action move test" where
  "uri_st395 = Switch [(46, to 294), (58, to 333), (93, to 512)] (IfLess 65 (IfIn 48 57 (Goto (to 396)) (Goto
    (to 0))) (IfGreater 70 (IfIn 97 102 (Goto (to 396)) (Goto (to 0))) (Goto (to 396))))"

definition uri_st396 :: "uri_action move test" where
  "uri_st396 = Switch [(58, to 333), (93, to 512)] (IfLess 65 (IfIn 48 57 (Goto (to 397)) (Goto (to 0)))
    (IfGreater 70 (IfIn 97 102 (Goto (to 397)) (Goto (to 0))) (Goto (to 397))))"

definition uri_st397 :: "uri_action move test" where
  "uri_st397 = Switch [(58, to 333), (93, to 512)] (IfLess 65 (IfIn 48 57 (Goto (to 398)) (Goto (to 0)))
    (IfGreater 70 (IfIn 97 102 (Goto (to 398)) (Goto (to 0))) (Goto (to 398))))"

definition uri_st398 :: "uri_action move test" where
  "uri_st398 = Switch [(58, to 333), (93, to 512)] (Goto (to 0))"

definition uri_st399 :: "uri_action move test" where
  "uri_st399 = Switch [(46, to 294), (58, to 333), (93, to 512)] (IfLess 65 (IfIn 48 57 (Goto (to 400)) (Goto
    (to 0))) (IfGreater 70 (IfIn 97 102 (Goto (to 396)) (Goto (to 0))) (Goto (to 396))))"

definition uri_st400 :: "uri_action move test" where
  "uri_st400 = Switch [(46, to 294), (58, to 333), (93, to 512)] (IfLess 65 (IfIn 48 57 (Goto (to 401)) (Goto
    (to 0))) (IfGreater 70 (IfIn 97 102 (Goto (to 397)) (Goto (to 0))) (Goto (to 397))))"

definition uri_st401 :: "uri_action move test" where
  "uri_st401 = Switch [(46, to 294), (58, to 333), (93, to 512)] (IfLess 65 (IfIn 48 57 (Goto (to 398)) (Goto
    (to 0))) (IfGreater 70 (IfIn 97 102 (Goto (to 398)) (Goto (to 0))) (Goto (to 398))))"

definition uri_st402 :: "uri_action move test" where
  "uri_st402 = Switch [(46, to 294), (53, to 404), (58, to 333), (93, to 512)] (IfLess 65 (IfIn 48 57 (Goto
    (to 403)) (Goto (to 0))) (IfGreater 70 (IfIn 97 102 (Goto (to 396)) (Goto (to 0))) (Goto (to 396))))"

definition uri_st403 :: "uri_action move test" where
  "uri_st403 = Switch [(46, to 294), (58, to 333), (93, to 512)] (IfLess 65 (IfIn 48 57 (Goto (to 397)) (Goto
    (to 0))) (IfGreater 70 (IfIn 97 102 (Goto (to 397)) (Goto (to 0))) (Goto (to 397))))"

definition uri_st404 :: "uri_action move test" where
  "uri_st404 = Switch [(46, to 294), (58, to 333), (93, to 512)] (IfLess 54 (IfIn 48 53 (Goto (to 401)) (Goto
    (to 0))) (IfGreater 57 (IfGreater 70 (IfIn 97 102 (Goto (to 397)) (Goto (to 0))) (IfGeq 65 (Goto (to 397))
    (Goto (to 0)))) (Goto (to 397))))"

definition uri_st405 :: "uri_action move test" where
  "uri_st405 = Switch [(46, to 294), (58, to 333), (93, to 512)] (IfLess 65 (IfIn 48 57 (Goto (to 403)) (Goto
    (to 0))) (IfGreater 70 (IfIn 97 102 (Goto (to 396)) (Goto (to 0))) (Goto (to 396))))"

definition uri_st406 :: "uri_action move test" where
  "uri_st406 = Switch [(58, to 333), (93, to 512)] (IfLess 65 (IfIn 48 57 (Goto (to 396)) (Goto (to 0)))
    (IfGreater 70 (IfIn 97 102 (Goto (to 396)) (Goto (to 0))) (Goto (to 396))))"

definition uri_st407 :: "uri_action move test" where
  "uri_st407 = Switch [(46, to 294), (58, to 394), (93, to 512)] (IfLess 65 (IfIn 48 57 (Goto (to 408)) (Goto
    (to 0))) (IfGreater 70 (IfIn 97 102 (Goto (to 391)) (Goto (to 0))) (Goto (to 391))))"

definition uri_st408 :: "uri_action move test" where
  "uri_st408 = Switch [(46, to 294), (58, to 394), (93, to 512)] (IfLess 65 (IfIn 48 57 (Goto (to 409)) (Goto
    (to 0))) (IfGreater 70 (IfIn 97 102 (Goto (to 392)) (Goto (to 0))) (Goto (to 392))))"

definition uri_st409 :: "uri_action move test" where
  "uri_st409 = Switch [(46, to 294), (58, to 394), (93, to 512)] (IfLess 65 (IfIn 48 57 (Goto (to 393)) (Goto
    (to 0))) (IfGreater 70 (IfIn 97 102 (Goto (to 393)) (Goto (to 0))) (Goto (to 393))))"

definition uri_st410 :: "uri_action move test" where
  "uri_st410 = Switch [(46, to 294), (53, to 412), (58, to 394), (93, to 512)] (IfLess 65 (IfIn 48 57 (Goto
    (to 411)) (Goto (to 0))) (IfGreater 70 (IfIn 97 102 (Goto (to 391)) (Goto (to 0))) (Goto (to 391))))"

definition uri_st411 :: "uri_action move test" where
  "uri_st411 = Switch [(46, to 294), (58, to 394), (93, to 512)] (IfLess 65 (IfIn 48 57 (Goto (to 392)) (Goto
    (to 0))) (IfGreater 70 (IfIn 97 102 (Goto (to 392)) (Goto (to 0))) (Goto (to 392))))"

definition uri_st412 :: "uri_action move test" where
  "uri_st412 = Switch [(46, to 294), (58, to 394), (93, to 512)] (IfLess 54 (IfIn 48 53 (Goto (to 409)) (Goto
    (to 0))) (IfGreater 57 (IfGreater 70 (IfIn 97 102 (Goto (to 392)) (Goto (to 0))) (IfGeq 65 (Goto (to 392))
    (Goto (to 0)))) (Goto (to 392))))"

definition uri_st413 :: "uri_action move test" where
  "uri_st413 = Switch [(46, to 294), (58, to 394), (93, to 512)] (IfLess 65 (IfIn 48 57 (Goto (to 411)) (Goto
    (to 0))) (IfGreater 70 (IfIn 97 102 (Goto (to 391)) (Goto (to 0))) (Goto (to 391))))"

definition uri_st414 :: "uri_action move test" where
  "uri_st414 = Switch [(58, to 394), (93, to 512)] (IfLess 65 (IfIn 48 57 (Goto (to 391)) (Goto (to 0)))
    (IfGreater 70 (IfIn 97 102 (Goto (to 391)) (Goto (to 0))) (Goto (to 391))))"

definition uri_st415 :: "uri_action move test" where
  "uri_st415 = Switch [(46, to 294), (58, to 389), (93, to 512)] (IfLess 65 (IfIn 48 57 (Goto (to 416)) (Goto
    (to 0))) (IfGreater 70 (IfIn 97 102 (Goto (to 386)) (Goto (to 0))) (Goto (to 386))))"

definition uri_st416 :: "uri_action move test" where
  "uri_st416 = Switch [(46, to 294), (58, to 389), (93, to 512)] (IfLess 65 (IfIn 48 57 (Goto (to 417)) (Goto
    (to 0))) (IfGreater 70 (IfIn 97 102 (Goto (to 387)) (Goto (to 0))) (Goto (to 387))))"

definition uri_st417 :: "uri_action move test" where
  "uri_st417 = Switch [(46, to 294), (58, to 389), (93, to 512)] (IfLess 65 (IfIn 48 57 (Goto (to 388)) (Goto
    (to 0))) (IfGreater 70 (IfIn 97 102 (Goto (to 388)) (Goto (to 0))) (Goto (to 388))))"

definition uri_st418 :: "uri_action move test" where
  "uri_st418 = Switch [(46, to 294), (53, to 420), (58, to 389), (93, to 512)] (IfLess 65 (IfIn 48 57 (Goto
    (to 419)) (Goto (to 0))) (IfGreater 70 (IfIn 97 102 (Goto (to 386)) (Goto (to 0))) (Goto (to 386))))"

definition uri_st419 :: "uri_action move test" where
  "uri_st419 = Switch [(46, to 294), (58, to 389), (93, to 512)] (IfLess 65 (IfIn 48 57 (Goto (to 387)) (Goto
    (to 0))) (IfGreater 70 (IfIn 97 102 (Goto (to 387)) (Goto (to 0))) (Goto (to 387))))"

definition uri_st420 :: "uri_action move test" where
  "uri_st420 = Switch [(46, to 294), (58, to 389), (93, to 512)] (IfLess 54 (IfIn 48 53 (Goto (to 417)) (Goto
    (to 0))) (IfGreater 57 (IfGreater 70 (IfIn 97 102 (Goto (to 387)) (Goto (to 0))) (IfGeq 65 (Goto (to 387))
    (Goto (to 0)))) (Goto (to 387))))"

definition uri_st421 :: "uri_action move test" where
  "uri_st421 = Switch [(46, to 294), (58, to 389), (93, to 512)] (IfLess 65 (IfIn 48 57 (Goto (to 419)) (Goto
    (to 0))) (IfGreater 70 (IfIn 97 102 (Goto (to 386)) (Goto (to 0))) (Goto (to 386))))"

definition uri_st422 :: "uri_action move test" where
  "uri_st422 = Switch [(58, to 389), (93, to 512)] (IfLess 65 (IfIn 48 57 (Goto (to 386)) (Goto (to 0)))
    (IfGreater 70 (IfIn 97 102 (Goto (to 386)) (Goto (to 0))) (Goto (to 386))))"

definition uri_st423 :: "uri_action move test" where
  "uri_st423 = Switch [(46, to 294), (58, to 384), (93, to 512)] (IfLess 65 (IfIn 48 57 (Goto (to 424)) (Goto
    (to 0))) (IfGreater 70 (IfIn 97 102 (Goto (to 381)) (Goto (to 0))) (Goto (to 381))))"

definition uri_st424 :: "uri_action move test" where
  "uri_st424 = Switch [(46, to 294), (58, to 384), (93, to 512)] (IfLess 65 (IfIn 48 57 (Goto (to 425)) (Goto
    (to 0))) (IfGreater 70 (IfIn 97 102 (Goto (to 382)) (Goto (to 0))) (Goto (to 382))))"

definition uri_st425 :: "uri_action move test" where
  "uri_st425 = Switch [(46, to 294), (58, to 384), (93, to 512)] (IfLess 65 (IfIn 48 57 (Goto (to 383)) (Goto
    (to 0))) (IfGreater 70 (IfIn 97 102 (Goto (to 383)) (Goto (to 0))) (Goto (to 383))))"

definition uri_st426 :: "uri_action move test" where
  "uri_st426 = Switch [(46, to 294), (53, to 428), (58, to 384), (93, to 512)] (IfLess 65 (IfIn 48 57 (Goto
    (to 427)) (Goto (to 0))) (IfGreater 70 (IfIn 97 102 (Goto (to 381)) (Goto (to 0))) (Goto (to 381))))"

definition uri_st427 :: "uri_action move test" where
  "uri_st427 = Switch [(46, to 294), (58, to 384), (93, to 512)] (IfLess 65 (IfIn 48 57 (Goto (to 382)) (Goto
    (to 0))) (IfGreater 70 (IfIn 97 102 (Goto (to 382)) (Goto (to 0))) (Goto (to 382))))"

definition uri_st428 :: "uri_action move test" where
  "uri_st428 = Switch [(46, to 294), (58, to 384), (93, to 512)] (IfLess 54 (IfIn 48 53 (Goto (to 425)) (Goto
    (to 0))) (IfGreater 57 (IfGreater 70 (IfIn 97 102 (Goto (to 382)) (Goto (to 0))) (IfGeq 65 (Goto (to 382))
    (Goto (to 0)))) (Goto (to 382))))"

definition uri_st429 :: "uri_action move test" where
  "uri_st429 = Switch [(46, to 294), (58, to 384), (93, to 512)] (IfLess 65 (IfIn 48 57 (Goto (to 427)) (Goto
    (to 0))) (IfGreater 70 (IfIn 97 102 (Goto (to 381)) (Goto (to 0))) (Goto (to 381))))"

definition uri_st430 :: "uri_action move test" where
  "uri_st430 = Switch [(58, to 384), (93, to 512)] (IfLess 65 (IfIn 48 57 (Goto (to 381)) (Goto (to 0)))
    (IfGreater 70 (IfIn 97 102 (Goto (to 381)) (Goto (to 0))) (Goto (to 381))))"

definition uri_st431 :: "uri_action move test" where
  "uri_st431 = Switch [(46, to 294), (58, to 379), (93, to 512)] (IfLess 65 (IfIn 48 57 (Goto (to 432)) (Goto
    (to 0))) (IfGreater 70 (IfIn 97 102 (Goto (to 376)) (Goto (to 0))) (Goto (to 376))))"

definition uri_st432 :: "uri_action move test" where
  "uri_st432 = Switch [(46, to 294), (58, to 379), (93, to 512)] (IfLess 65 (IfIn 48 57 (Goto (to 433)) (Goto
    (to 0))) (IfGreater 70 (IfIn 97 102 (Goto (to 377)) (Goto (to 0))) (Goto (to 377))))"

definition uri_st433 :: "uri_action move test" where
  "uri_st433 = Switch [(46, to 294), (58, to 379), (93, to 512)] (IfLess 65 (IfIn 48 57 (Goto (to 378)) (Goto
    (to 0))) (IfGreater 70 (IfIn 97 102 (Goto (to 378)) (Goto (to 0))) (Goto (to 378))))"

definition uri_st434 :: "uri_action move test" where
  "uri_st434 = Switch [(46, to 294), (53, to 436), (58, to 379), (93, to 512)] (IfLess 65 (IfIn 48 57 (Goto
    (to 435)) (Goto (to 0))) (IfGreater 70 (IfIn 97 102 (Goto (to 376)) (Goto (to 0))) (Goto (to 376))))"

definition uri_st435 :: "uri_action move test" where
  "uri_st435 = Switch [(46, to 294), (58, to 379), (93, to 512)] (IfLess 65 (IfIn 48 57 (Goto (to 377)) (Goto
    (to 0))) (IfGreater 70 (IfIn 97 102 (Goto (to 377)) (Goto (to 0))) (Goto (to 377))))"

definition uri_st436 :: "uri_action move test" where
  "uri_st436 = Switch [(46, to 294), (58, to 379), (93, to 512)] (IfLess 54 (IfIn 48 53 (Goto (to 433)) (Goto
    (to 0))) (IfGreater 57 (IfGreater 70 (IfIn 97 102 (Goto (to 377)) (Goto (to 0))) (IfGeq 65 (Goto (to 377))
    (Goto (to 0)))) (Goto (to 377))))"

definition uri_st437 :: "uri_action move test" where
  "uri_st437 = Switch [(46, to 294), (58, to 379), (93, to 512)] (IfLess 65 (IfIn 48 57 (Goto (to 435)) (Goto
    (to 0))) (IfGreater 70 (IfIn 97 102 (Goto (to 376)) (Goto (to 0))) (Goto (to 376))))"

definition uri_st438 :: "uri_action move test" where
  "uri_st438 = Switch [(58, to 379), (93, to 512)] (IfLess 65 (IfIn 48 57 (Goto (to 376)) (Goto (to 0)))
    (IfGreater 70 (IfIn 97 102 (Goto (to 376)) (Goto (to 0))) (Goto (to 376))))"

definition uri_st439 :: "uri_action move test" where
  "uri_st439 = Switch [(46, to 294), (58, to 374), (93, to 512)] (IfLess 65 (IfIn 48 57 (Goto (to 440)) (Goto
    (to 0))) (IfGreater 70 (IfIn 97 102 (Goto (to 371)) (Goto (to 0))) (Goto (to 371))))"

definition uri_st440 :: "uri_action move test" where
  "uri_st440 = Switch [(46, to 294), (58, to 374), (93, to 512)] (IfLess 65 (IfIn 48 57 (Goto (to 441)) (Goto
    (to 0))) (IfGreater 70 (IfIn 97 102 (Goto (to 372)) (Goto (to 0))) (Goto (to 372))))"

definition uri_st441 :: "uri_action move test" where
  "uri_st441 = Switch [(46, to 294), (58, to 374), (93, to 512)] (IfLess 65 (IfIn 48 57 (Goto (to 373)) (Goto
    (to 0))) (IfGreater 70 (IfIn 97 102 (Goto (to 373)) (Goto (to 0))) (Goto (to 373))))"

definition uri_st442 :: "uri_action move test" where
  "uri_st442 = Switch [(46, to 294), (53, to 444), (58, to 374), (93, to 512)] (IfLess 65 (IfIn 48 57 (Goto
    (to 443)) (Goto (to 0))) (IfGreater 70 (IfIn 97 102 (Goto (to 371)) (Goto (to 0))) (Goto (to 371))))"

definition uri_st443 :: "uri_action move test" where
  "uri_st443 = Switch [(46, to 294), (58, to 374), (93, to 512)] (IfLess 65 (IfIn 48 57 (Goto (to 372)) (Goto
    (to 0))) (IfGreater 70 (IfIn 97 102 (Goto (to 372)) (Goto (to 0))) (Goto (to 372))))"

definition uri_st444 :: "uri_action move test" where
  "uri_st444 = Switch [(46, to 294), (58, to 374), (93, to 512)] (IfLess 54 (IfIn 48 53 (Goto (to 441)) (Goto
    (to 0))) (IfGreater 57 (IfGreater 70 (IfIn 97 102 (Goto (to 372)) (Goto (to 0))) (IfGeq 65 (Goto (to 372))
    (Goto (to 0)))) (Goto (to 372))))"

definition uri_st445 :: "uri_action move test" where
  "uri_st445 = Switch [(46, to 294), (58, to 374), (93, to 512)] (IfLess 65 (IfIn 48 57 (Goto (to 443)) (Goto
    (to 0))) (IfGreater 70 (IfIn 97 102 (Goto (to 371)) (Goto (to 0))) (Goto (to 371))))"

definition uri_st446 :: "uri_action move test" where
  "uri_st446 = Switch [(58, to 374), (93, to 512)] (IfLess 65 (IfIn 48 57 (Goto (to 371)) (Goto (to 0)))
    (IfGreater 70 (IfIn 97 102 (Goto (to 371)) (Goto (to 0))) (Goto (to 371))))"

definition uri_st447 :: "uri_action move test" where
  "uri_st447 = IfLess 65 (IfIn 48 57 (Goto (to 448)) (Goto (to 0))) (IfGreater 70 (IfIn 97 102 (Goto (to 448))
    (Goto (to 0))) (Goto (to 448)))"

definition uri_st448 :: "uri_action move test" where
  "uri_st448 = IfEq 46 (Goto (to 449)) (IfLess 65 (IfIn 48 57 (Goto (to 448)) (Goto (to 0))) (IfGreater 70
    (IfIn 97 102 (Goto (to 448)) (Goto (to 0))) (Goto (to 448))))"

definition uri_st449 :: "uri_action move test" where
  "uri_st449 = Switch [(33, to 450), (36, to 450), (61, to 450), (95, to 450), (126, to 450)] (IfLess 48 (IfIn
    38 46 (Goto (to 450)) (Goto (to 0))) (IfGreater 59 (IfGreater 90 (IfIn 97 122 (Goto (to 450)) (Goto (to 0)))
    (IfGeq 65 (Goto (to 450)) (Goto (to 0)))) (Goto (to 450))))"

definition uri_st450 :: "uri_action move test" where
  "uri_st450 = Switch [(33, to 450), (36, to 450), (61, to 450), (93, to 512), (95, to 450), (126, to 450)]
    (IfLess 48 (IfIn 38 46 (Goto (to 450)) (Goto (to 0))) (IfGreater 59 (IfGreater 90 (IfIn 97 122 (Goto (to
    450)) (Goto (to 0))) (IfGeq 65 (Goto (to 450)) (Goto (to 0)))) (Goto (to 450))))"

definition uri_st542 :: "uri_action move test" where
  "uri_st542 = Switch [(33, to 255), (35, uri_tr570), (37, to 256), (47, uri_tr571), (61, to 255), (63,
    uri_tr573), (64, uri_tr263), (95, to 255), (126, to 255)] (IfLess 58 (IfGreater 46 (IfIn 48 57 (Goto (to
    542)) (Goto (to 0))) (IfGeq 36 (Goto (to 255)) (Goto (to 0)))) (IfGreater 59 (IfGreater 90 (IfIn 97 122
    (Goto (to 255)) (Goto (to 0))) (IfGeq 65 (Goto (to 255)) (Goto (to 0)))) (Goto (to 255))))"

definition uri_st543 :: "uri_action move test" where
  "uri_st543 = Switch [(33, to 520), (35, uri_tr559), (37, to 253), (46, to 544), (47, uri_tr560), (58,
    uri_tr576), (61, to 520), (63, uri_tr562), (64, uri_tr263), (95, to 520), (126, to 520)] (IfLess 65 (IfIn 36
    59 (Goto (to 520)) (Goto (to 0))) (IfGreater 90 (IfIn 97 122 (Goto (to 520)) (Goto (to 0))) (Goto (to
    520))))"

definition uri_st544 :: "uri_action move test" where
  "uri_st544 = Switch [(2, to 233), (33, to 520), (35, uri_tr559), (37, to 253), (47, uri_tr560), (48, to
    545), (49, to 553), (50, to 555), (58, uri_tr576), (59, to 520), (61, to 520), (63, uri_tr562), (64,
    uri_tr263), (95, to 520), (126, to 520)] (IfLess 51 (IfIn 36 46 (Goto (to 520)) (Goto (to 0))) (IfGreater 57
    (IfGreater 90 (IfIn 97 122 (Goto (to 520)) (Goto (to 0))) (IfGeq 65 (Goto (to 520)) (Goto (to 0)))) (Goto
    (to 554))))"

definition uri_st545 :: "uri_action move test" where
  "uri_st545 = Switch [(33, to 520), (35, uri_tr559), (37, to 253), (46, to 546), (47, uri_tr560), (58,
    uri_tr576), (61, to 520), (63, uri_tr562), (64, uri_tr263), (95, to 520), (126, to 520)] (IfLess 65 (IfIn 36
    59 (Goto (to 520)) (Goto (to 0))) (IfGreater 90 (IfIn 97 122 (Goto (to 520)) (Goto (to 0))) (Goto (to
    520))))"

definition uri_st546 :: "uri_action move test" where
  "uri_st546 = Switch [(2, to 237), (33, to 520), (35, uri_tr559), (37, to 253), (47, uri_tr560), (48, to
    547), (49, to 549), (50, to 551), (58, uri_tr576), (59, to 520), (61, to 520), (63, uri_tr562), (64,
    uri_tr263), (95, to 520), (126, to 520)] (IfLess 51 (IfIn 36 46 (Goto (to 520)) (Goto (to 0))) (IfGreater 57
    (IfGreater 90 (IfIn 97 122 (Goto (to 520)) (Goto (to 0))) (IfGeq 65 (Goto (to 520)) (Goto (to 0)))) (Goto
    (to 550))))"

definition uri_st547 :: "uri_action move test" where
  "uri_st547 = Switch [(33, to 520), (35, uri_tr559), (37, to 253), (46, to 548), (47, uri_tr560), (58,
    uri_tr576), (61, to 520), (63, uri_tr562), (64, uri_tr263), (95, to 520), (126, to 520)] (IfLess 65 (IfIn 36
    59 (Goto (to 520)) (Goto (to 0))) (IfGreater 90 (IfIn 97 122 (Goto (to 520)) (Goto (to 0))) (Goto (to
    520))))"

definition uri_st548 :: "uri_action move test" where
  "uri_st548 = Switch [(2, to 241), (33, to 520), (35, uri_tr559), (37, to 253), (47, uri_tr560), (58,
    uri_tr576), (61, to 520), (63, uri_tr562), (64, uri_tr263), (95, to 520), (126, to 520)] (IfLess 65 (IfIn 36
    59 (Goto (to 520)) (Goto (to 0))) (IfGreater 90 (IfIn 97 122 (Goto (to 520)) (Goto (to 0))) (Goto (to
    520))))"

definition uri_st549 :: "uri_action move test" where
  "uri_st549 = Switch [(33, to 520), (35, uri_tr559), (37, to 253), (46, to 548), (47, uri_tr560), (58,
    uri_tr576), (59, to 520), (61, to 520), (63, uri_tr562), (64, uri_tr263), (95, to 520), (126, to 520)]
    (IfLess 48 (IfIn 36 45 (Goto (to 520)) (Goto (to 0))) (IfGreater 57 (IfGreater 90 (IfIn 97 122 (Goto (to
    520)) (Goto (to 0))) (IfGeq 65 (Goto (to 520)) (Goto (to 0)))) (Goto (to 550))))"

definition uri_st550 :: "uri_action move test" where
  "uri_st550 = Switch [(33, to 520), (35, uri_tr559), (37, to 253), (46, to 548), (47, uri_tr560), (58,
    uri_tr576), (59, to 520), (61, to 520), (63, uri_tr562), (64, uri_tr263), (95, to 520), (126, to 520)]
    (IfLess 48 (IfIn 36 45 (Goto (to 520)) (Goto (to 0))) (IfGreater 57 (IfGreater 90 (IfIn 97 122 (Goto (to
    520)) (Goto (to 0))) (IfGeq 65 (Goto (to 520)) (Goto (to 0)))) (Goto (to 547))))"

definition uri_st551 :: "uri_action move test" where
  "uri_st551 = Switch [(33, to 520), (35, uri_tr559), (37, to 253), (46, to 548), (47, uri_tr560), (53, to
    552), (58, uri_tr576), (59, to 520), (61, to 520), (63, uri_tr562), (64, uri_tr263), (95, to 520), (126, to
    520)] (IfLess 48 (IfIn 36 45 (Goto (to 520)) (Goto (to 0))) (IfGreater 57 (IfGreater 90 (IfIn 97 122 (Goto
    (to 520)) (Goto (to 0))) (IfGeq 65 (Goto (to 520)) (Goto (to 0)))) (Goto (to 547))))"

definition uri_st552 :: "uri_action move test" where
  "uri_st552 = Switch [(33, to 520), (35, uri_tr559), (37, to 253), (46, to 548), (47, uri_tr560), (58,
    uri_tr576), (61, to 520), (63, uri_tr562), (64, uri_tr263), (95, to 520), (126, to 520)] (IfLess 54
    (IfGreater 45 (IfIn 48 53 (Goto (to 547)) (Goto (to 0))) (IfGeq 36 (Goto (to 520)) (Goto (to 0))))
    (IfGreater 59 (IfGreater 90 (IfIn 97 122 (Goto (to 520)) (Goto (to 0))) (IfGeq 65 (Goto (to 520)) (Goto (to
    0)))) (Goto (to 520))))"

definition uri_st553 :: "uri_action move test" where
  "uri_st553 = Switch [(33, to 520), (35, uri_tr559), (37, to 253), (46, to 546), (47, uri_tr560), (58,
    uri_tr576), (59, to 520), (61, to 520), (63, uri_tr562), (64, uri_tr263), (95, to 520), (126, to 520)]
    (IfLess 48 (IfIn 36 45 (Goto (to 520)) (Goto (to 0))) (IfGreater 57 (IfGreater 90 (IfIn 97 122 (Goto (to
    520)) (Goto (to 0))) (IfGeq 65 (Goto (to 520)) (Goto (to 0)))) (Goto (to 554))))"

definition uri_st554 :: "uri_action move test" where
  "uri_st554 = Switch [(33, to 520), (35, uri_tr559), (37, to 253), (46, to 546), (47, uri_tr560), (58,
    uri_tr576), (59, to 520), (61, to 520), (63, uri_tr562), (64, uri_tr263), (95, to 520), (126, to 520)]
    (IfLess 48 (IfIn 36 45 (Goto (to 520)) (Goto (to 0))) (IfGreater 57 (IfGreater 90 (IfIn 97 122 (Goto (to
    520)) (Goto (to 0))) (IfGeq 65 (Goto (to 520)) (Goto (to 0)))) (Goto (to 545))))"

definition uri_st555 :: "uri_action move test" where
  "uri_st555 = Switch [(33, to 520), (35, uri_tr559), (37, to 253), (46, to 546), (47, uri_tr560), (53, to
    556), (58, uri_tr576), (59, to 520), (61, to 520), (63, uri_tr562), (64, uri_tr263), (95, to 520), (126, to
    520)] (IfLess 48 (IfIn 36 45 (Goto (to 520)) (Goto (to 0))) (IfGreater 57 (IfGreater 90 (IfIn 97 122 (Goto
    (to 520)) (Goto (to 0))) (IfGeq 65 (Goto (to 520)) (Goto (to 0)))) (Goto (to 545))))"

definition uri_st556 :: "uri_action move test" where
  "uri_st556 = Switch [(33, to 520), (35, uri_tr559), (37, to 253), (46, to 546), (47, uri_tr560), (58,
    uri_tr576), (61, to 520), (63, uri_tr562), (64, uri_tr263), (95, to 520), (126, to 520)] (IfLess 54
    (IfGreater 45 (IfIn 48 53 (Goto (to 545)) (Goto (to 0))) (IfGeq 36 (Goto (to 520)) (Goto (to 0))))
    (IfGreater 59 (IfGreater 90 (IfIn 97 122 (Goto (to 520)) (Goto (to 0))) (IfGeq 65 (Goto (to 520)) (Goto (to
    0)))) (Goto (to 520))))"

definition uri_st557 :: "uri_action move test" where
  "uri_st557 = Switch [(33, to 520), (35, uri_tr559), (37, to 253), (46, to 544), (47, uri_tr560), (58,
    uri_tr576), (59, to 520), (61, to 520), (63, uri_tr562), (64, uri_tr263), (95, to 520), (126, to 520)]
    (IfLess 48 (IfIn 36 45 (Goto (to 520)) (Goto (to 0))) (IfGreater 57 (IfGreater 90 (IfIn 97 122 (Goto (to
    520)) (Goto (to 0))) (IfGeq 65 (Goto (to 520)) (Goto (to 0)))) (Goto (to 558))))"

definition uri_st558 :: "uri_action move test" where
  "uri_st558 = Switch [(33, to 520), (35, uri_tr559), (37, to 253), (46, to 544), (47, uri_tr560), (58,
    uri_tr576), (59, to 520), (61, to 520), (63, uri_tr562), (64, uri_tr263), (95, to 520), (126, to 520)]
    (IfLess 48 (IfIn 36 45 (Goto (to 520)) (Goto (to 0))) (IfGreater 57 (IfGreater 90 (IfIn 97 122 (Goto (to
    520)) (Goto (to 0))) (IfGeq 65 (Goto (to 520)) (Goto (to 0)))) (Goto (to 543))))"

definition uri_st559 :: "uri_action move test" where
  "uri_st559 = Switch [(33, to 520), (35, uri_tr559), (37, to 253), (46, to 544), (47, uri_tr560), (53, to
    560), (58, uri_tr576), (59, to 520), (61, to 520), (63, uri_tr562), (64, uri_tr263), (95, to 520), (126, to
    520)] (IfLess 48 (IfIn 36 45 (Goto (to 520)) (Goto (to 0))) (IfGreater 57 (IfGreater 90 (IfIn 97 122 (Goto
    (to 520)) (Goto (to 0))) (IfGeq 65 (Goto (to 520)) (Goto (to 0)))) (Goto (to 543))))"

definition uri_st560 :: "uri_action move test" where
  "uri_st560 = Switch [(33, to 520), (35, uri_tr559), (37, to 253), (46, to 544), (47, uri_tr560), (58,
    uri_tr576), (61, to 520), (63, uri_tr562), (64, uri_tr263), (95, to 520), (126, to 520)] (IfLess 54
    (IfGreater 45 (IfIn 48 53 (Goto (to 543)) (Goto (to 0))) (IfGeq 36 (Goto (to 520)) (Goto (to 0))))
    (IfGreater 59 (IfGreater 90 (IfIn 97 122 (Goto (to 520)) (Goto (to 0))) (IfGeq 65 (Goto (to 520)) (Goto (to
    0)))) (Goto (to 520))))"

section \<open>The switch\<close>

lemmas uri_tr_defs =
  uri_tr467_def uri_tr469_def uri_tr474_def uri_tr485_def uri_tr489_def uri_tr493_def uri_tr548_def
  uri_tr559_def uri_tr563_def uri_tr566_def uri_tr570_def uri_tr462_def uri_tr463_def uri_tr476_def
  uri_tr486_def uri_tr490_def uri_tr494_def uri_tr482_def uri_tr488_def uri_tr492_def uri_tr496_def
  uri_tr556_def uri_tr562_def uri_tr565_def uri_tr569_def uri_tr573_def uri_tr466_def uri_tr468_def
  uri_tr472_def uri_tr507_def uri_tr487_def uri_tr491_def uri_tr473_def uri_tr475_def uri_tr481_def
  uri_tr499_def uri_tr38_def uri_tr483_def uri_tr501_def uri_tr502_def uri_tr503_def uri_tr504_def uri_tr506_def
  uri_tr505_def uri_tr484_def uri_tr500_def uri_tr477_def uri_tr478_def uri_tr480_def uri_tr479_def
  uri_tr461_def uri_tr543_def uri_tr546_def uri_tr550_def uri_tr567_def uri_tr560_def uri_tr571_def
  uri_tr584_def uri_tr561_def uri_tr568_def uri_tr547_def uri_tr549_def uri_tr555_def uri_tr576_def
  uri_tr263_def uri_tr557_def uri_tr578_def uri_tr579_def uri_tr580_def uri_tr581_def uri_tr583_def
  uri_tr582_def uri_tr558_def uri_tr577_def uri_tr551_def uri_tr552_def uri_tr554_def uri_tr553_def

lemmas uri_st_defs =
  uri_st451_def uri_st452_def uri_st453_def uri_st454_def uri_st1_def uri_st2_def uri_st3_def uri_st4_def
  uri_st455_def uri_st5_def uri_st6_def uri_st456_def uri_st457_def uri_st7_def uri_st8_def uri_st458_def
  uri_st459_def uri_st9_def uri_st10_def uri_st11_def uri_st12_def uri_st13_def uri_st14_def uri_st15_def
  uri_st16_def uri_st17_def uri_st18_def uri_st19_def uri_st20_def uri_st21_def uri_st22_def uri_st460_def
  uri_st461_def uri_st462_def uri_st463_def uri_st464_def uri_st465_def uri_st466_def uri_st23_def uri_st24_def
  uri_st25_def uri_st26_def uri_st27_def uri_st28_def uri_st29_def uri_st30_def uri_st467_def uri_st31_def
  uri_st32_def uri_st468_def uri_st33_def uri_st34_def uri_st35_def uri_st469_def uri_st470_def uri_st36_def
  uri_st37_def uri_st471_def uri_st472_def uri_st473_def uri_st474_def uri_st475_def uri_st476_def uri_st477_def
  uri_st478_def uri_st479_def uri_st480_def uri_st481_def uri_st482_def uri_st483_def uri_st484_def
  uri_st485_def uri_st486_def uri_st487_def uri_st488_def uri_st38_def uri_st39_def uri_st40_def uri_st41_def
  uri_st42_def uri_st43_def uri_st44_def uri_st45_def uri_st46_def uri_st47_def uri_st48_def uri_st49_def
  uri_st50_def uri_st51_def uri_st52_def uri_st53_def uri_st54_def uri_st55_def uri_st56_def uri_st57_def
  uri_st58_def uri_st59_def uri_st60_def uri_st61_def uri_st62_def uri_st63_def uri_st64_def uri_st65_def
  uri_st66_def uri_st67_def uri_st68_def uri_st69_def uri_st70_def uri_st71_def uri_st72_def uri_st73_def
  uri_st74_def uri_st75_def uri_st76_def uri_st77_def uri_st78_def uri_st79_def uri_st80_def uri_st81_def
  uri_st82_def uri_st83_def uri_st84_def uri_st85_def uri_st86_def uri_st87_def uri_st88_def uri_st89_def
  uri_st90_def uri_st91_def uri_st92_def uri_st93_def uri_st94_def uri_st95_def uri_st96_def uri_st97_def
  uri_st98_def uri_st99_def uri_st100_def uri_st101_def uri_st102_def uri_st103_def uri_st104_def uri_st105_def
  uri_st106_def uri_st107_def uri_st108_def uri_st109_def uri_st110_def uri_st111_def uri_st112_def
  uri_st113_def uri_st114_def uri_st115_def uri_st116_def uri_st117_def uri_st118_def uri_st119_def
  uri_st120_def uri_st121_def uri_st122_def uri_st123_def uri_st124_def uri_st125_def uri_st126_def
  uri_st127_def uri_st128_def uri_st129_def uri_st130_def uri_st131_def uri_st132_def uri_st133_def
  uri_st134_def uri_st135_def uri_st136_def uri_st137_def uri_st138_def uri_st139_def uri_st140_def
  uri_st141_def uri_st142_def uri_st143_def uri_st144_def uri_st145_def uri_st146_def uri_st147_def
  uri_st148_def uri_st149_def uri_st150_def uri_st151_def uri_st152_def uri_st153_def uri_st154_def
  uri_st155_def uri_st156_def uri_st157_def uri_st158_def uri_st159_def uri_st160_def uri_st161_def
  uri_st162_def uri_st163_def uri_st164_def uri_st165_def uri_st166_def uri_st167_def uri_st168_def
  uri_st169_def uri_st170_def uri_st171_def uri_st172_def uri_st173_def uri_st174_def uri_st175_def
  uri_st176_def uri_st177_def uri_st178_def uri_st179_def uri_st180_def uri_st181_def uri_st182_def
  uri_st183_def uri_st184_def uri_st185_def uri_st186_def uri_st187_def uri_st188_def uri_st189_def
  uri_st190_def uri_st191_def uri_st192_def uri_st193_def uri_st194_def uri_st195_def uri_st196_def
  uri_st197_def uri_st198_def uri_st199_def uri_st200_def uri_st201_def uri_st202_def uri_st203_def
  uri_st204_def uri_st205_def uri_st206_def uri_st207_def uri_st208_def uri_st209_def uri_st210_def
  uri_st211_def uri_st212_def uri_st213_def uri_st214_def uri_st215_def uri_st216_def uri_st217_def
  uri_st218_def uri_st219_def uri_st220_def uri_st221_def uri_st222_def uri_st223_def uri_st224_def
  uri_st225_def uri_st226_def uri_st227_def uri_st228_def uri_st489_def uri_st490_def uri_st491_def
  uri_st492_def uri_st493_def uri_st494_def uri_st495_def uri_st496_def uri_st497_def uri_st498_def
  uri_st499_def uri_st500_def uri_st501_def uri_st502_def uri_st503_def uri_st504_def uri_st505_def
  uri_st506_def uri_st507_def uri_st508_def uri_st509_def uri_st510_def uri_st511_def uri_st229_def
  uri_st230_def uri_st231_def uri_st232_def uri_st233_def uri_st234_def uri_st235_def uri_st236_def
  uri_st237_def uri_st238_def uri_st239_def uri_st240_def uri_st241_def uri_st242_def uri_st512_def
  uri_st513_def uri_st243_def uri_st244_def uri_st514_def uri_st515_def uri_st516_def uri_st517_def
  uri_st518_def uri_st519_def uri_st245_def uri_st246_def uri_st247_def uri_st248_def uri_st249_def
  uri_st250_def uri_st251_def uri_st252_def uri_st520_def uri_st253_def uri_st254_def uri_st521_def
  uri_st255_def uri_st256_def uri_st257_def uri_st522_def uri_st523_def uri_st258_def uri_st259_def
  uri_st524_def uri_st525_def uri_st526_def uri_st527_def uri_st528_def uri_st529_def uri_st530_def
  uri_st531_def uri_st532_def uri_st533_def uri_st534_def uri_st535_def uri_st536_def uri_st537_def
  uri_st538_def uri_st539_def uri_st540_def uri_st541_def uri_st260_def uri_st261_def uri_st262_def
  uri_st263_def uri_st264_def uri_st265_def uri_st266_def uri_st267_def uri_st268_def uri_st269_def
  uri_st270_def uri_st271_def uri_st272_def uri_st273_def uri_st274_def uri_st275_def uri_st276_def
  uri_st277_def uri_st278_def uri_st279_def uri_st280_def uri_st281_def uri_st282_def uri_st283_def
  uri_st284_def uri_st285_def uri_st286_def uri_st287_def uri_st288_def uri_st289_def uri_st290_def
  uri_st291_def uri_st292_def uri_st293_def uri_st294_def uri_st295_def uri_st296_def uri_st297_def
  uri_st298_def uri_st299_def uri_st300_def uri_st301_def uri_st302_def uri_st303_def uri_st304_def
  uri_st305_def uri_st306_def uri_st307_def uri_st308_def uri_st309_def uri_st310_def uri_st311_def
  uri_st312_def uri_st313_def uri_st314_def uri_st315_def uri_st316_def uri_st317_def uri_st318_def
  uri_st319_def uri_st320_def uri_st321_def uri_st322_def uri_st323_def uri_st324_def uri_st325_def
  uri_st326_def uri_st327_def uri_st328_def uri_st329_def uri_st330_def uri_st331_def uri_st332_def
  uri_st333_def uri_st334_def uri_st335_def uri_st336_def uri_st337_def uri_st338_def uri_st339_def
  uri_st340_def uri_st341_def uri_st342_def uri_st343_def uri_st344_def uri_st345_def uri_st346_def
  uri_st347_def uri_st348_def uri_st349_def uri_st350_def uri_st351_def uri_st352_def uri_st353_def
  uri_st354_def uri_st355_def uri_st356_def uri_st357_def uri_st358_def uri_st359_def uri_st360_def
  uri_st361_def uri_st362_def uri_st363_def uri_st364_def uri_st365_def uri_st366_def uri_st367_def
  uri_st368_def uri_st369_def uri_st370_def uri_st371_def uri_st372_def uri_st373_def uri_st374_def
  uri_st375_def uri_st376_def uri_st377_def uri_st378_def uri_st379_def uri_st380_def uri_st381_def
  uri_st382_def uri_st383_def uri_st384_def uri_st385_def uri_st386_def uri_st387_def uri_st388_def
  uri_st389_def uri_st390_def uri_st391_def uri_st392_def uri_st393_def uri_st394_def uri_st395_def
  uri_st396_def uri_st397_def uri_st398_def uri_st399_def uri_st400_def uri_st401_def uri_st402_def
  uri_st403_def uri_st404_def uri_st405_def uri_st406_def uri_st407_def uri_st408_def uri_st409_def
  uri_st410_def uri_st411_def uri_st412_def uri_st413_def uri_st414_def uri_st415_def uri_st416_def
  uri_st417_def uri_st418_def uri_st419_def uri_st420_def uri_st421_def uri_st422_def uri_st423_def
  uri_st424_def uri_st425_def uri_st426_def uri_st427_def uri_st428_def uri_st429_def uri_st430_def
  uri_st431_def uri_st432_def uri_st433_def uri_st434_def uri_st435_def uri_st436_def uri_st437_def
  uri_st438_def uri_st439_def uri_st440_def uri_st441_def uri_st442_def uri_st443_def uri_st444_def
  uri_st445_def uri_st446_def uri_st447_def uri_st448_def uri_st449_def uri_st450_def uri_st542_def
  uri_st543_def uri_st544_def uri_st545_def uri_st546_def uri_st547_def uri_st548_def uri_st549_def
  uri_st550_def uri_st551_def uri_st552_def uri_st553_def uri_st554_def uri_st555_def uri_st556_def
  uri_st557_def uri_st558_def uri_st559_def uri_st560_def

definition uri_table :: "uri_action table" where
  "uri_table = [(1, uri_st1), (2, uri_st2), (3, uri_st3), (4, uri_st4), (5, uri_st5), (6, uri_st6), (7,
    uri_st7), (8, uri_st8), (9, uri_st9), (10, uri_st10), (11, uri_st11), (12, uri_st12), (13, uri_st13), (14,
    uri_st14), (15, uri_st15), (16, uri_st16), (17, uri_st17), (18, uri_st18), (19, uri_st19), (20, uri_st20),
    (21, uri_st21), (22, uri_st22), (23, uri_st23), (24, uri_st24), (25, uri_st25), (26, uri_st26), (27,
    uri_st27), (28, uri_st28), (29, uri_st29), (30, uri_st30), (31, uri_st31), (32, uri_st32), (33, uri_st33),
    (34, uri_st34), (35, uri_st35), (36, uri_st36), (37, uri_st37), (38, uri_st38), (39, uri_st39), (40,
    uri_st40), (41, uri_st41), (42, uri_st42), (43, uri_st43), (44, uri_st44), (45, uri_st45), (46, uri_st46),
    (47, uri_st47), (48, uri_st48), (49, uri_st49), (50, uri_st50), (51, uri_st51), (52, uri_st52), (53,
    uri_st53), (54, uri_st54), (55, uri_st55), (56, uri_st56), (57, uri_st57), (58, uri_st58), (59, uri_st59),
    (60, uri_st60), (61, uri_st61), (62, uri_st62), (63, uri_st63), (64, uri_st64), (65, uri_st65), (66,
    uri_st66), (67, uri_st67), (68, uri_st68), (69, uri_st69), (70, uri_st70), (71, uri_st71), (72, uri_st72),
    (73, uri_st73), (74, uri_st74), (75, uri_st75), (76, uri_st76), (77, uri_st77), (78, uri_st78), (79,
    uri_st79), (80, uri_st80), (81, uri_st81), (82, uri_st82), (83, uri_st83), (84, uri_st84), (85, uri_st85),
    (86, uri_st86), (87, uri_st87), (88, uri_st88), (89, uri_st89), (90, uri_st90), (91, uri_st91), (92,
    uri_st92), (93, uri_st93), (94, uri_st94), (95, uri_st95), (96, uri_st96), (97, uri_st97), (98, uri_st98),
    (99, uri_st99), (100, uri_st100), (101, uri_st101), (102, uri_st102), (103, uri_st103), (104, uri_st104),
    (105, uri_st105), (106, uri_st106), (107, uri_st107), (108, uri_st108), (109, uri_st109), (110, uri_st110),
    (111, uri_st111), (112, uri_st112), (113, uri_st113), (114, uri_st114), (115, uri_st115), (116, uri_st116),
    (117, uri_st117), (118, uri_st118), (119, uri_st119), (120, uri_st120), (121, uri_st121), (122, uri_st122),
    (123, uri_st123), (124, uri_st124), (125, uri_st125), (126, uri_st126), (127, uri_st127), (128, uri_st128),
    (129, uri_st129), (130, uri_st130), (131, uri_st131), (132, uri_st132), (133, uri_st133), (134, uri_st134),
    (135, uri_st135), (136, uri_st136), (137, uri_st137), (138, uri_st138), (139, uri_st139), (140, uri_st140),
    (141, uri_st141), (142, uri_st142), (143, uri_st143), (144, uri_st144), (145, uri_st145), (146, uri_st146),
    (147, uri_st147), (148, uri_st148), (149, uri_st149), (150, uri_st150), (151, uri_st151), (152, uri_st152),
    (153, uri_st153), (154, uri_st154), (155, uri_st155), (156, uri_st156), (157, uri_st157), (158, uri_st158),
    (159, uri_st159), (160, uri_st160), (161, uri_st161), (162, uri_st162), (163, uri_st163), (164, uri_st164),
    (165, uri_st165), (166, uri_st166), (167, uri_st167), (168, uri_st168), (169, uri_st169), (170, uri_st170),
    (171, uri_st171), (172, uri_st172), (173, uri_st173), (174, uri_st174), (175, uri_st175), (176, uri_st176),
    (177, uri_st177), (178, uri_st178), (179, uri_st179), (180, uri_st180), (181, uri_st181), (182, uri_st182),
    (183, uri_st183), (184, uri_st184), (185, uri_st185), (186, uri_st186), (187, uri_st187), (188, uri_st188),
    (189, uri_st189), (190, uri_st190), (191, uri_st191), (192, uri_st192), (193, uri_st193), (194, uri_st194),
    (195, uri_st195), (196, uri_st196), (197, uri_st197), (198, uri_st198), (199, uri_st199), (200, uri_st200),
    (201, uri_st201), (202, uri_st202), (203, uri_st203), (204, uri_st204), (205, uri_st205), (206, uri_st206),
    (207, uri_st207), (208, uri_st208), (209, uri_st209), (210, uri_st210), (211, uri_st211), (212, uri_st212),
    (213, uri_st213), (214, uri_st214), (215, uri_st215), (216, uri_st216), (217, uri_st217), (218, uri_st218),
    (219, uri_st219), (220, uri_st220), (221, uri_st221), (222, uri_st222), (223, uri_st223), (224, uri_st224),
    (225, uri_st225), (226, uri_st226), (227, uri_st227), (228, uri_st228), (229, uri_st229), (230, uri_st230),
    (231, uri_st231), (232, uri_st232), (233, uri_st233), (234, uri_st234), (235, uri_st235), (236, uri_st236),
    (237, uri_st237), (238, uri_st238), (239, uri_st239), (240, uri_st240), (241, uri_st241), (242, uri_st242),
    (243, uri_st243), (244, uri_st244), (245, uri_st245), (246, uri_st246), (247, uri_st247), (248, uri_st248),
    (249, uri_st249), (250, uri_st250), (251, uri_st251), (252, uri_st252), (253, uri_st253), (254, uri_st254),
    (255, uri_st255), (256, uri_st256), (257, uri_st257), (258, uri_st258), (259, uri_st259), (260, uri_st260),
    (261, uri_st261), (262, uri_st262), (263, uri_st263), (264, uri_st264), (265, uri_st265), (266, uri_st266),
    (267, uri_st267), (268, uri_st268), (269, uri_st269), (270, uri_st270), (271, uri_st271), (272, uri_st272),
    (273, uri_st273), (274, uri_st274), (275, uri_st275), (276, uri_st276), (277, uri_st277), (278, uri_st278),
    (279, uri_st279), (280, uri_st280), (281, uri_st281), (282, uri_st282), (283, uri_st283), (284, uri_st284),
    (285, uri_st285), (286, uri_st286), (287, uri_st287), (288, uri_st288), (289, uri_st289), (290, uri_st290),
    (291, uri_st291), (292, uri_st292), (293, uri_st293), (294, uri_st294), (295, uri_st295), (296, uri_st296),
    (297, uri_st297), (298, uri_st298), (299, uri_st299), (300, uri_st300), (301, uri_st301), (302, uri_st302),
    (303, uri_st303), (304, uri_st304), (305, uri_st305), (306, uri_st306), (307, uri_st307), (308, uri_st308),
    (309, uri_st309), (310, uri_st310), (311, uri_st311), (312, uri_st312), (313, uri_st313), (314, uri_st314),
    (315, uri_st315), (316, uri_st316), (317, uri_st317), (318, uri_st318), (319, uri_st319), (320, uri_st320),
    (321, uri_st321), (322, uri_st322), (323, uri_st323), (324, uri_st324), (325, uri_st325), (326, uri_st326),
    (327, uri_st327), (328, uri_st328), (329, uri_st329), (330, uri_st330), (331, uri_st331), (332, uri_st332),
    (333, uri_st333), (334, uri_st334), (335, uri_st335), (336, uri_st336), (337, uri_st337), (338, uri_st338),
    (339, uri_st339), (340, uri_st340), (341, uri_st341), (342, uri_st342), (343, uri_st343), (344, uri_st344),
    (345, uri_st345), (346, uri_st346), (347, uri_st347), (348, uri_st348), (349, uri_st349), (350, uri_st350),
    (351, uri_st351), (352, uri_st352), (353, uri_st353), (354, uri_st354), (355, uri_st355), (356, uri_st356),
    (357, uri_st357), (358, uri_st358), (359, uri_st359), (360, uri_st360), (361, uri_st361), (362, uri_st362),
    (363, uri_st363), (364, uri_st364), (365, uri_st365), (366, uri_st366), (367, uri_st367), (368, uri_st368),
    (369, uri_st369), (370, uri_st370), (371, uri_st371), (372, uri_st372), (373, uri_st373), (374, uri_st374),
    (375, uri_st375), (376, uri_st376), (377, uri_st377), (378, uri_st378), (379, uri_st379), (380, uri_st380),
    (381, uri_st381), (382, uri_st382), (383, uri_st383), (384, uri_st384), (385, uri_st385), (386, uri_st386),
    (387, uri_st387), (388, uri_st388), (389, uri_st389), (390, uri_st390), (391, uri_st391), (392, uri_st392),
    (393, uri_st393), (394, uri_st394), (395, uri_st395), (396, uri_st396), (397, uri_st397), (398, uri_st398),
    (399, uri_st399), (400, uri_st400), (401, uri_st401), (402, uri_st402), (403, uri_st403), (404, uri_st404),
    (405, uri_st405), (406, uri_st406), (407, uri_st407), (408, uri_st408), (409, uri_st409), (410, uri_st410),
    (411, uri_st411), (412, uri_st412), (413, uri_st413), (414, uri_st414), (415, uri_st415), (416, uri_st416),
    (417, uri_st417), (418, uri_st418), (419, uri_st419), (420, uri_st420), (421, uri_st421), (422, uri_st422),
    (423, uri_st423), (424, uri_st424), (425, uri_st425), (426, uri_st426), (427, uri_st427), (428, uri_st428),
    (429, uri_st429), (430, uri_st430), (431, uri_st431), (432, uri_st432), (433, uri_st433), (434, uri_st434),
    (435, uri_st435), (436, uri_st436), (437, uri_st437), (438, uri_st438), (439, uri_st439), (440, uri_st440),
    (441, uri_st441), (442, uri_st442), (443, uri_st443), (444, uri_st444), (445, uri_st445), (446, uri_st446),
    (447, uri_st447), (448, uri_st448), (449, uri_st449), (450, uri_st450), (451, uri_st451), (452, uri_st452),
    (453, uri_st453), (454, uri_st454), (455, uri_st455), (456, uri_st456), (457, uri_st457), (458, uri_st458),
    (459, uri_st459), (460, uri_st460), (461, uri_st461), (462, uri_st462), (463, uri_st463), (464, uri_st464),
    (465, uri_st465), (466, uri_st466), (467, uri_st467), (468, uri_st468), (469, uri_st469), (470, uri_st470),
    (471, uri_st471), (472, uri_st472), (473, uri_st473), (474, uri_st474), (475, uri_st475), (476, uri_st476),
    (477, uri_st477), (478, uri_st478), (479, uri_st479), (480, uri_st480), (481, uri_st481), (482, uri_st482),
    (483, uri_st483), (484, uri_st484), (485, uri_st485), (486, uri_st486), (487, uri_st487), (488, uri_st488),
    (489, uri_st489), (490, uri_st490), (491, uri_st491), (492, uri_st492), (493, uri_st493), (494, uri_st494),
    (495, uri_st495), (496, uri_st496), (497, uri_st497), (498, uri_st498), (499, uri_st499), (500, uri_st500),
    (501, uri_st501), (502, uri_st502), (503, uri_st503), (504, uri_st504), (505, uri_st505), (506, uri_st506),
    (507, uri_st507), (508, uri_st508), (509, uri_st509), (510, uri_st510), (511, uri_st511), (512, uri_st512),
    (513, uri_st513), (514, uri_st514), (515, uri_st515), (516, uri_st516), (517, uri_st517), (518, uri_st518),
    (519, uri_st519), (520, uri_st520), (521, uri_st521), (522, uri_st522), (523, uri_st523), (524, uri_st524),
    (525, uri_st525), (526, uri_st526), (527, uri_st527), (528, uri_st528), (529, uri_st529), (530, uri_st530),
    (531, uri_st531), (532, uri_st532), (533, uri_st533), (534, uri_st534), (535, uri_st535), (536, uri_st536),
    (537, uri_st537), (538, uri_st538), (539, uri_st539), (540, uri_st540), (541, uri_st541), (542, uri_st542),
    (543, uri_st543), (544, uri_st544), (545, uri_st545), (546, uri_st546), (547, uri_st547), (548, uri_st548),
    (549, uri_st549), (550, uri_st550), (551, uri_st551), (552, uri_st552), (553, uri_st553), (554, uri_st554),
    (555, uri_st555), (556, uri_st556), (557, uri_st557), (558, uri_st558), (559, uri_st559), (560, uri_st560)]"

end
