(* ===== verification/CText.thy ===== *)
theory CText
  imports TextOut Ragel
begin

text \<open>
  Functions of the C library on text: \<open>isspace\<close>, \<open>strtol\<close>, \<open>atoi\<close>. A text is what stands before the
  terminating zero, or goes on behind the number that is read.
\<close>

definition isspace :: "u8 \<Rightarrow> bool" where
  "isspace c \<longleftrightarrow> c = 0x20 \<or> (9 \<le> c \<and> c \<le> 13)"

definition digit_value :: "u8 \<Rightarrow> nat option" where
  "digit_value c =
     (if 0x30 \<le> c \<and> c \<le> 0x39 then Some (unat c - 0x30)
      else if 0x41 \<le> c \<and> c \<le> 0x5A then Some (unat c - 0x41 + 10)
      else if 0x61 \<le> c \<and> c \<le> 0x7A then Some (unat c - 0x61 + 10)
      else None)"

text \<open>The value of the longest prefix of digits.\<close>

fun digits_value :: "nat \<Rightarrow> nat \<Rightarrow> bytes \<Rightarrow> nat" where
  "digits_value base acc [] = acc"
| "digits_value base acc (c # cs) =
     (case digit_value c of
        Some d \<Rightarrow> if d < base then digits_value base (base * acc + d) cs else acc
      | None \<Rightarrow> acc)"

definition is_digit_of :: "nat \<Rightarrow> u8 \<Rightarrow> bool" where
  "is_digit_of base c \<longleftrightarrow> (case digit_value c of Some d \<Rightarrow> d < base | None \<Rightarrow> False)"

definition skip_0x :: "bytes \<Rightarrow> bytes" where
  "skip_0x s =
     (case s of
        a # b # c # s' \<Rightarrow> if a = 0x30 \<and> (b = 0x78 \<or> b = 0x58) \<and> is_digit_of 16 c then c # s' else s
      | _ \<Rightarrow> s)"

text \<open>\<open>strtol(s, NULL, base)\<close>; a value outside \<open>long\<close> becomes its nearest bound.\<close>

definition strtol :: "nat \<Rightarrow> bytes \<Rightarrow> int" where
  "strtol base s =
     (let s = dropWhile isspace s;
          neg = (s \<noteq> [] \<and> hd s = 0x2D);
          s = (if s \<noteq> [] \<and> (hd s = 0x2D \<or> hd s = 0x2B) then tl s else s);
          s = (if base = 16 then skip_0x s else s);
          n = int (digits_value base 0 s)
      in max (- (2 ^ 63)) (min (2 ^ 63 - 1) (if neg then - n else n)))"

text \<open>\<open>atoi\<close> of a number outside \<open>int\<close> is undefined.\<close>

definition atoi :: "bytes \<Rightarrow> 32 word res" where
  "atoi s =
     (let n = strtol 10 s in if - (2 ^ 31) \<le> n \<and> n < 2 ^ 31 then Inr (of_int n) else Inl ArithUB)"

section \<open>Numbers that were printed\<close>

lemma digit_facts:
  assumes "d < 10"
  shows "digit_value (of_nat (48 + d)) = Some d" and "\<not> isspace (of_nat (48 + d))"
    and "of_nat (48 + d) \<noteq> (0x2D :: u8)" and "of_nat (48 + d) \<noteq> (0x2B :: u8)"
proof -
  have "d \<in> {0, 1, 2, 3, 4, 5, 6, 7, 8, 9}" using assms by auto
  then show "digit_value (of_nat (48 + d)) = Some d" "\<not> isspace (of_nat (48 + d))"
    "of_nat (48 + d) \<noteq> (0x2D :: u8)" "of_nat (48 + d) \<noteq> (0x2B :: u8)"
    by (auto simp: digit_value_def isspace_def)
qed

lemma digits_value_decimal:
  "digits_value 10 0 (decimal n @ rest) = digits_value 10 n rest"
proof (induction n arbitrary: rest rule: decimal.induct)
  case (1 n)
  show ?case
  proof (cases "n < 10")
    case True
    then show ?thesis
      by (subst decimal.simps) (simp add: digit_facts del: of_nat_add)
  next
    case False
    then show ?thesis
      using 1 by (subst decimal.simps) (simp add: digit_facts del: of_nat_add)
  qed
qed

lemma decimal_hd: "\<exists>d < 10. \<exists>r. decimal n = of_nat (48 + d) # r"
proof (induction n rule: decimal.induct)
  case (1 n)
  show ?case
  proof (cases "n < 10")
    case True
    then show ?thesis by (subst decimal.simps) auto
  next
    case False
    then obtain d r where "d < 10" "decimal (n div 10) = of_nat (48 + d) # r"
      using 1 by blast
    with False show ?thesis
      by (subst decimal.simps) (auto intro!: exI [of _ d])
  qed
qed

lemma strtol_decimal:
  assumes "int n < 2 ^ 63" and "rest = [] \<or> \<not> is_digit_of 10 (hd rest)"
  shows "strtol 10 (decimal n @ rest) = int n"
proof -
  obtain d r where d: "d < 10" "decimal n = of_nat (48 + d) # r"
    using decimal_hd by blast
  have "digits_value 10 n rest = n"
    using assms(2) by (cases rest) (auto simp: is_digit_of_def split: option.splits)
  then have "digits_value 10 0 (of_nat (48 + d) # r @ rest) = n"
    using digits_value_decimal [of n rest] d(2) by (simp del: digits_value.simps of_nat_add)
  then show ?thesis
    using assms(1) digit_facts [OF d(1)]
    by (simp add: strtol_def d(2) Let_def del: digits_value.simps of_nat_add)
qed

lemma atoi_decimal:
  assumes "int n < 2 ^ 31" and "rest = [] \<or> \<not> is_digit_of 10 (hd rest)"
  shows "atoi (decimal n @ rest) = Inr (of_nat n)"
  using assms strtol_decimal [of n rest] by (simp add: atoi_def)

lemma decimal_chars: "b \<in> set (decimal n) \<Longrightarrow> in_ranges [(0x30, 0x39)] b"
proof (induction n rule: decimal.induct)
  case (1 n)
  have digit: "in_ranges [(0x30, 0x39)] (of_nat (48 + d))" if "d < 10" for d
  proof -
    have "d \<in> {0, 1, 2, 3, 4, 5, 6, 7, 8, 9}" using that by auto
    then show ?thesis by (auto simp: in_ranges_def)
  qed
  show ?case
  proof (cases "n < 10")
    case True
    then show ?thesis
      using 1(2) digit [of n] by (subst (asm) decimal.simps) (simp del: of_nat_add)
  next
    case False
    then show ?thesis
      using 1 digit [of "n mod 10"] by (subst (asm) decimal.simps) (auto simp del: of_nat_add)
  qed
qed

end
