(* ===== verification/Uri.thy ===== *)
theory Uri
  imports UriStates CText Address
begin

text \<open>
  URIs (\<open>src/Uri.rl.cpp\<close>, \<open>src/Uri.h\<close>): the actions of the state machine, \<open>Create\<close>, the getters and the
  printing.
\<close>

section \<open>State\<close>

record uri =
  u_scheme :: bytes
  u_userinfo :: bytes
  u_host :: bytes
  u_path :: bytes
  u_query :: bytes
  u_fragment :: bytes
  u_port :: "32 word"

definition new_Uri :: uri where
  "new_Uri = \<lparr>u_scheme = [], u_userinfo = [], u_host = [], u_path = [], u_query = [], u_fragment = [], u_port = 0\<rparr>"

section \<open>Create\<close>

text \<open>The local variables: the object and \<open>mark\<close>, a position or \<open>NULL\<close>.\<close>

record uri_run =
  ur_uri :: uri
  ur_mark :: "nat option"

text \<open>\<open>std::string(mark, p - mark)\<close>, which throws for \<open>NULL\<close>.\<close>

definition marked :: "bytes \<Rightarrow> nat \<Rightarrow> uri_run \<Rightarrow> bytes res" where
  "marked text p r =
     (case ur_mark r of None \<Rightarrow> Inl Thrown | Some m \<Rightarrow> Inr (take (p - m) (drop m text)))"

definition unmark :: "uri_run \<Rightarrow> uri_run" where
  "unmark r = r\<lparr>ur_mark := None\<rparr>"

text \<open>The actions of the grammar; \<open>text\<close> is the string that \<open>p\<close> and \<open>mark\<close> point into.\<close>

fun uri_exec :: "bytes \<Rightarrow> uri_action \<Rightarrow> nat \<Rightarrow> uri_run \<Rightarrow> uri_run res" where
  "uri_exec text Marku p r = Inr (r\<lparr>ur_mark := Some p\<rparr>)"
| "uri_exec text Markh p r = Inr (r\<lparr>ur_mark := Some p\<rparr>)"
| "uri_exec text Save_scheme p r =
     bindE (marked text p r) (\<lambda>v. Inr (unmark (r\<lparr>ur_uri := (ur_uri r)\<lparr>u_scheme := v\<rparr>\<rparr>)))"
| "uri_exec text Save_port p r =
     (if ur_mark r = Some p then Inr (unmark r)
      else
        case ur_mark r of
          None \<Rightarrow> Inl NullDeref
        | Some m \<Rightarrow>
            bindE (atoi (drop m text)) (\<lambda>v. Inr (unmark (r\<lparr>ur_uri := (ur_uri r)\<lparr>u_port := v\<rparr>\<rparr>))))"
| "uri_exec text Save_userinfo p r =
     (if ur_mark r = None then Inr r
      else bindE (marked text p r) (\<lambda>v. Inr (unmark (r\<lparr>ur_uri := (ur_uri r)\<lparr>u_userinfo := v\<rparr>\<rparr>))))"
| "uri_exec text Save_host p r =
     (if ur_mark r = None then Inr r
      else bindE (marked text p r) (\<lambda>v. Inr (r\<lparr>ur_uri := (ur_uri r)\<lparr>u_host := v\<rparr>\<rparr>)))"
| "uri_exec text Save_path p r =
     bindE (marked text p r) (\<lambda>v. Inr (unmark (r\<lparr>ur_uri := (ur_uri r)\<lparr>u_path := v\<rparr>\<rparr>)))"
| "uri_exec text Save_query p r =
     bindE (marked text p r) (\<lambda>v. Inr (unmark (r\<lparr>ur_uri := (ur_uri r)\<lparr>u_query := v\<rparr>\<rparr>)))"
| "uri_exec text Save_fragment p r =
     bindE (marked text p r) (\<lambda>v. Inr (unmark (r\<lparr>ur_uri := (ur_uri r)\<lparr>u_fragment := v\<rparr>\<rparr>)))"

definition uri_machine :: "bytes \<Rightarrow> (uri_action, uri_run) machine" where
  "uri_machine text =
     \<lparr>m_table = uri_table, m_wide = (\<lambda>c. c), m_exec = uri_exec text, m_stops = (\<lambda>_. False)\<rparr>"

text \<open>The actions at the end of the string.\<close>

definition uri_eof :: "int \<Rightarrow> uri_action list" where
  "uri_eof cs =
     (if cs \<in> set [462, 489] then [Save_port]
      else if cs \<in> set [460, 463, 464, 465, 466, 467, 470, 471, 472, 473, 474, 475, 476, 477, 478, 479,
        480, 481, 482, 483, 484, 485, 486, 487, 488, 490, 491, 492, 493, 494, 495, 496, 497, 498, 499, 500, 501,
        502, 503, 504, 505, 506, 507] then [Save_host]
      else if cs \<in> set [513] then [Save_path]
      else if cs \<in> set [457] then [Save_query]
      else if cs \<in> set [454] then [Save_fragment]
      else if cs \<in> set [456] then [Marku, Save_query]
      else if cs \<in> set [453] then [Marku, Save_fragment]
      else if cs \<in> set [461, 468] then [Markh, Save_port]
      else if cs \<in> set [459, 469] then [Markh, Save_host]
      else if cs \<in> set [514, 521] then [Markh, Save_port, Save_path]
      else if cs \<in> set [511, 522] then [Markh, Save_host, Save_path]
      else if cs \<in> set [515, 542] then [Save_port, Markh, Save_path]
      else if cs \<in> set [512, 516, 517, 518, 519, 520, 523, 524, 525, 526, 527, 528, 529, 530, 531, 532,
        533, 534, 535, 536, 537, 538, 539, 540, 541, 543, 544, 545, 546, 547, 548, 549, 550, 551, 552, 553, 554,
        555, 556, 557, 558, 559, 560] then [Save_host, Markh, Save_path]
      else [])"

text \<open>The pointer that is returned, null for a text that is not accepted.\<close>

definition Uri_Create :: "bytes \<Rightarrow> uri option res" where
  "Uri_Create text =
     bindE (run (uri_machine text) 451 0 text \<lparr>ur_uri = new_Uri, ur_mark = None\<rparr>) (\<lambda>(cs, p, r).
     bindE (if cs \<noteq> 0 \<and> p = length text then run_acts (uri_exec text) (uri_eof cs) p r else Inr r) (\<lambda>r.
     Inr (if cs = 0 then None else if 451 \<le> cs then Some (ur_uri r) else None)))"

section \<open>Getters\<close>

definition uri_isDefaultPort :: "uri \<Rightarrow> bool" where
  "uri_isDefaultPort u =
     (if u_port u = 0 then True
      else if u_scheme u = str ''http'' \<or> u_scheme u = str ''ws'' then u_port u = 80
      else if u_scheme u = str ''https'' \<or> u_scheme u = str ''wss'' then u_port u = 443
      else False)"

definition uri_getPath :: "uri \<Rightarrow> bytes" where
  "uri_getPath u = (if u_path u = [] then str ''/'' else u_path u)"

definition uri_getPort :: "uri \<Rightarrow> 32 word" where
  "uri_getPort u =
     (if u_port u \<noteq> 0 then u_port u
      else if u_scheme u = str ''http'' \<or> u_scheme u = str ''ws'' then 80
      else if u_scheme u = str ''https'' \<or> u_scheme u = str ''wss'' then 443
      else u_port u)"

section \<open>Printing\<close>

definition uri_toString :: "uri \<Rightarrow> bytes" where
  "uri_toString u =
     u_scheme u @ str ''://'' @
     u_userinfo u @ (if u_userinfo u = [] then [] else str ''@'') @
     u_host u @ (if uri_isDefaultPort u then [] else str '':'' @ signed_decimal (u_port u)) @
     uri_getPath u @
     (if u_query u = [] then [] else str ''?'') @ u_query u @
     (if u_fragment u = [] then [] else str ''#'') @ u_fragment u"

text \<open>\<open>setPort\<close> takes a \<open>uint16_t\<close>.\<close>

definition uri_createAddress ::
  "(bytes \<Rightarrow> bytes option \<Rightarrow> address option list option) \<Rightarrow> uri \<Rightarrow> address option" where
  "uri_createAddress getaddrinfo u =
     map_option (address_setPort (ucast (uri_getPort u))) (LookupAnyIPAddress getaddrinfo (u_host u))"

end
