(* ===== verification/UriProps.thy ===== *)
theory UriProps
  imports Uri
begin

text \<open>
  What \<open>Uri::Create\<close> does with every string: when it fails, and that the text of a URI is parsed back.
  Facts about the states are evaluated once for a class of states and an interval of characters.
\<close>

section \<open>Classes of characters and states\<close>

text \<open>Letters; characters of a scheme, of a registered name, of a path and of a query, as signed bytes.\<close>

definition scheme_first :: "(int \<times> int) list" where
  "scheme_first = [(0x41, 0x5A), (0x61, 0x7A)]"

definition scheme_rest :: "(int \<times> int) list" where
  "scheme_rest = [(0x2B, 0x2B), (0x2D, 0x2E), (0x30, 0x39), (0x41, 0x5A), (0x61, 0x7A)]"

definition uri_name_chars :: "(int \<times> int) list" where
  "uri_name_chars =
     [(0x21, 0x21), (0x24, 0x24), (0x26, 0x2E), (0x30, 0x39), (0x3B, 0x3B), (0x3D, 0x3D), (0x41, 0x5A),
      (0x5F, 0x5F), (0x61, 0x7A), (0x7E, 0x7E)]"

definition path_chars :: "(int \<times> int) list" where
  "path_chars =
     [(-128, -1), (0x21, 0x21), (0x24, 0x24), (0x26, 0x3B), (0x3D, 0x3D), (0x40, 0x5A), (0x5F, 0x5F),
      (0x61, 0x7A), (0x7E, 0x7E)]"

definition query_chars :: "(int \<times> int) list" where
  "query_chars = (0x3F, 0x3F) # path_chars"

lemmas char_defs = scheme_first_def scheme_rest_def uri_name_chars_def path_chars_def query_chars_def hex_ranges_def

text \<open>
  The states inside the text before an \<open>@\<close> or a port, which may still be the user or already the host, and
  those inside a host behind an \<open>@\<close>.
\<close>

definition either_states :: "int list" where
  "either_states =
     [520, 543, 544, 545, 546, 547, 548, 549, 550, 551, 552, 553, 554, 555, 556, 557, 558, 559, 560]"

definition host_states :: "int list" where
  "host_states =
     [523, 524, 525, 526, 527, 528, 529, 530, 531, 532, 533, 534, 535, 536, 537, 538, 539, 540, 541]"

lemmas class_defs = either_states_def host_states_def

lemma numbered_uri: "numbered uri_table"
  by (simp add: numbered_def uri_table_def upto.simps [of 1])

lemma regular_uri: "regular [] (uri_machine text)"
  by (simp add: regular_def uri_machine_def numbered_uri)

section \<open>Moves\<close>

lemma scheme_moves:
  "moves_to [] uri_table [451] scheme_first [Marku] [508]"
  "moves_to [] uri_table [508] scheme_rest [] [508]"
  "moves_to [] uri_table [508] [(0x3A, 0x3A)] [Save_scheme] [509]"
  "moves_to [] uri_table [509] [(0x2F, 0x2F)] [] [510]"
  "moves_to [] uri_table [510] [(0x2F, 0x2F)] [] [511]"
  by (simp_all add: moves_to_def uri_table_def)
    (simp_all add: row_all_def char_defs uri_st_defs uri_tr_defs)

lemma either_moves:
  "moves_to [] uri_table [511] uri_name_chars [Markh] either_states"
  "moves_to [] uri_table [511] [(0x25, 0x25)] [Markh] [253]"
  "escapes [] uri_table either_states uri_name_chars 253 254"
  "moves_to [] uri_table either_states [(0x40, 0x40)] [Save_userinfo] [522]"
  "moves_to [] uri_table either_states [(0x3A, 0x3A)] [Save_host] [521]"
  "moves_to [] uri_table either_states [(0x2F, 0x2F)] [Save_host, Markh] [513]"
  by (simp_all add: escapes_def moves_to_def uri_table_def class_defs)
    (simp_all add: row_all_def char_defs uri_st_defs uri_tr_defs)

lemma host_moves:
  "moves_to [] uri_table [522] uri_name_chars [Markh] host_states"
  "moves_to [] uri_table [522] [(0x25, 0x25)] [Markh] [258]"
  "escapes [] uri_table host_states uri_name_chars 258 259"
  "moves_to [] uri_table host_states [(0x3A, 0x3A)] [Save_host] [514]"
  "moves_to [] uri_table host_states [(0x2F, 0x2F)] [Save_host, Markh] [513]"
  by (simp_all add: escapes_def moves_to_def uri_table_def class_defs)
    (simp_all add: row_all_def char_defs uri_st_defs uri_tr_defs)

lemma port_moves:
  "moves_to [] uri_table [521] [(0x30, 0x39)] [Markh] [542]"
  "moves_to [] uri_table [514] [(0x30, 0x39)] [Markh] [515]"
  "moves_to [] uri_table [542] [(0x30, 0x39)] [] [542]"
  "moves_to [] uri_table [515] [(0x30, 0x39)] [] [515]"
  "moves_to [] uri_table [542, 515] [(0x2F, 0x2F)] [Save_port, Markh] [513]"
  by (simp_all add: moves_to_def uri_table_def)
    (simp_all add: row_all_def char_defs uri_st_defs uri_tr_defs)

lemma tail_moves:
  "escapes [] uri_table [513] path_chars 243 244"
  "moves_to [] uri_table [513] [(0x3F, 0x3F)] [Save_path] [456]"
  "moves_to [] uri_table [513] [(0x23, 0x23)] [Save_path] [453]"
  "moves_to [] uri_table [456] query_chars [Marku] [457]"
  "moves_to [] uri_table [456] [(0x25, 0x25)] [Marku] [7]"
  "escapes [] uri_table [457] query_chars 7 8"
  "moves_to [] uri_table [457] [(0x23, 0x23)] [Save_query] [453]"
  "moves_to [] uri_table [453] query_chars [Marku] [454]"
  "moves_to [] uri_table [453] [(0x25, 0x25)] [Marku] [1]"
  "escapes [] uri_table [454] query_chars 1 2"
  by (simp_all add: escapes_def moves_to_def uri_table_def)
    (simp_all add: row_all_def char_defs uri_st_defs uri_tr_defs)

lemmas run_uri = run_move [OF regular_uri] run_through [OF regular_uri] run_enter [OF regular_uri]
  run_escaped [OF regular_uri]

lemma uri_machine_simps [simp]:
  "m_table (uri_machine text) = uri_table" "m_exec (uri_machine text) = uri_exec text"
  "\<not> m_stops (uri_machine text) as"
  by (simp_all add: uri_machine_def)

lemma name_enters:
  "enters [] uri_table 511 uri_name_chars [Markh] either_states 253 254"
  "enters [] uri_table 522 uri_name_chars [Markh] host_states 258 259"
  by (simp_all add: enters_def either_moves host_moves)

lemma tail_enters:
  "enters [] uri_table 456 query_chars [Marku] [457] 7 8"
  "enters [] uri_table 453 query_chars [Marku] [454] 1 2"
  by (simp_all add: enters_def tail_moves)

section \<open>The text of a URI is parsed back\<close>

lemma marked_segment:
  assumes "text = pre @ x @ rest" and "ur_mark r = Some (length pre)" and "p = length pre + length x"
  shows "marked text p r = Inr x"
  using assms by (simp add: marked_def)

definition scheme_text :: "bytes \<Rightarrow> bool" where
  "scheme_text s \<longleftrightarrow> s \<noteq> [] \<and> in_ranges scheme_first (hd s) \<and> (\<forall>b \<in> set (tl s). in_ranges scheme_rest b)"

text \<open>The parts of a URI that can be printed and read again.\<close>

definition printable_uri :: "uri \<Rightarrow> bool" where
  "printable_uri u \<longleftrightarrow>
     scheme_text (u_scheme u) \<and> escaped_text uri_name_chars (u_userinfo u) \<and>
     u_host u \<noteq> [] \<and> escaped_text uri_name_chars (u_host u) \<and>
     (u_path u = [] \<or> (hd (u_path u) = 0x2F \<and> escaped_text path_chars (u_path u))) \<and>
     escaped_text query_chars (u_query u) \<and> escaped_text query_chars (u_fragment u) \<and> 0 \<le> sint (u_port u)"

abbreviation delimiter :: "u8 \<Rightarrow> bool" where
  "delimiter \<equiv> (\<lambda>b. b = 0x3A \<or> b = 0x2F)"

lemma run_scheme:
  assumes "scheme_text sc" and tx: "t = sc @ str ''://'' @ rest"
  shows "run (uri_machine t) 451 0 t \<lparr>ur_uri = u, ur_mark = None\<rparr> =
    run (uri_machine t) 511 (length sc + 3) rest \<lparr>ur_uri = u\<lparr>u_scheme := sc\<rparr>, ur_mark = None\<rparr>"
proof -
  obtain b sc' where sc: "sc = b # sc'" "in_ranges scheme_first b" "\<forall>b \<in> set sc'. in_ranges scheme_rest b"
    using assms(1) by (cases sc) (auto simp: scheme_text_def)
  let ?M = "uri_machine t" and ?r = "\<lparr>ur_uri = u, ur_mark = Some 0\<rparr>"
  let ?r' = "\<lparr>ur_uri = u\<lparr>u_scheme := sc\<rparr>, ur_mark = None\<rparr>" and ?n = "length sc"
  have "run ?M 451 0 t \<lparr>ur_uri = u, ur_mark = None\<rparr> = run ?M 508 1 (sc' @ 0x3A # 0x2F # 0x2F # rest) ?r"
    using run_move [OF regular_uri, of t "[451]" scheme_first "[Marku]" "[508]" 451 b 0] sc scheme_moves(1)
    by (simp add: tx str_def)
  also have "\<dots> = run ?M 508 ?n (0x3A # 0x2F # 0x2F # rest) ?r"
    using run_through [OF regular_uri, of t "[508]" scheme_rest 508 sc' 1] sc scheme_moves(2) by simp
  also have "\<dots> = run ?M 509 (?n + 1) (0x2F # 0x2F # rest) ?r'"
    using run_move [OF regular_uri, of t "[508]" "[(0x3A, 0x3A)]" "[Save_scheme]" "[509]" 508 "0x3A" ?n]
      scheme_moves(3) by (simp add: in_ranges_def marked_def tx unmark_def)
  also have "\<dots> = run ?M 510 (?n + 2) (0x2F # rest) ?r'"
    using run_move [OF regular_uri, of t "[509]" "[(0x2F, 0x2F)]" "[]" "[510]" 509 "0x2F" "?n + 1"]
      scheme_moves(4) by (simp add: in_ranges_def)
  also have "\<dots> = run ?M 511 (?n + 3) rest ?r'"
    using run_move [OF regular_uri, of t "[510]" "[(0x2F, 0x2F)]" "[]" "[511]" 510 "0x2F" "?n + 2"]
      scheme_moves(5) by (simp add: in_ranges_def eval_nat_numeral)
  finally show ?thesis .
qed

text \<open>The user and the host behind \<open>//\<close>, read up to the character that ends the host.\<close>

lemma run_authority:
  assumes "escaped_text uri_name_chars us" and "h \<noteq> []" and "escaped_text uri_name_chars h"
    and at: "at = (if us = [] then [] else [0x40])" and tx: "t = pre @ us @ at @ h @ rest"
    and u: "u_userinfo u = []"
  shows "\<exists>cs. (cs \<in> set either_states \<or> cs \<in> set host_states) \<and>
    run (uri_machine t) 511 (length pre) (us @ at @ h @ rest) \<lparr>ur_uri = u, ur_mark = None\<rparr> =
    run (uri_machine t) cs (length (pre @ us @ at) + length h) rest
      \<lparr>ur_uri = u\<lparr>u_userinfo := us\<rparr>, ur_mark = Some (length (pre @ us @ at))\<rparr>"
proof (cases "us = []")
  case True
  then show ?thesis
    using run_enter [OF regular_uri, of t 511 uri_name_chars "[Markh]" either_states 253 254 h "length pre" rest
        "\<lparr>ur_uri = u, ur_mark = None\<rparr>"] assms name_enters(1) by (cases u) (auto simp: tx)
next
  case False
  let ?M = "uri_machine t" and ?p = "length pre + length us"
  obtain cs where cs: "cs \<in> set either_states"
    "run ?M 511 (length pre) (us @ 0x40 # h @ rest) \<lparr>ur_uri = u, ur_mark = None\<rparr> =
     run ?M cs ?p (0x40 # h @ rest) \<lparr>ur_uri = u, ur_mark = Some (length pre)\<rparr>"
    using run_enter [OF regular_uri, of t 511 uri_name_chars "[Markh]" either_states 253 254 us "length pre"
        "0x40 # h @ rest" "\<lparr>ur_uri = u, ur_mark = None\<rparr>"] assms name_enters(1) False by auto
  have "run ?M cs ?p (0x40 # h @ rest) \<lparr>ur_uri = u, ur_mark = Some (length pre)\<rparr> =
    run ?M 522 (Suc ?p) (h @ rest) \<lparr>ur_uri = u\<lparr>u_userinfo := us\<rparr>, ur_mark = None\<rparr>"
    using run_move [OF regular_uri, of t either_states "[(0x40, 0x40)]" "[Save_userinfo]" "[522]" cs "0x40" ?p]
      cs(1) either_moves(4) False by (simp add: in_ranges_def marked_def tx at unmark_def)
  then show ?thesis
    using run_enter [OF regular_uri, of t 522 uri_name_chars "[Markh]" host_states 258 259 h "Suc ?p" rest
        "\<lparr>ur_uri = u\<lparr>u_userinfo := us\<rparr>, ur_mark = None\<rparr>"] assms name_enters(2) False cs(2) by (auto simp: tx at add.assoc)
qed

text \<open>The host ends at the path, or at a port that goes up to the path.\<close>

lemma run_port:
  assumes cs: "cs \<in> set either_states \<or> cs \<in> set host_states"
    and tx: "t = pre @ h @ port @ 0x2F # rest"
    and port: "port = [] \<and> n = 0 \<or> port = 0x3A # decimal n \<and> int n < 2 ^ 31"
    and u: "u_port u = 0"
  shows "run (uri_machine t) cs (length pre + length h) (port @ 0x2F # rest)
      \<lparr>ur_uri = u, ur_mark = Some (length pre)\<rparr> =
    run (uri_machine t) 513 (Suc (length (pre @ h @ port))) rest
      \<lparr>ur_uri = u\<lparr>u_host := h, u_port := of_nat n\<rparr>, ur_mark = Some (length (pre @ h @ port))\<rparr>"
  using port
proof
  obtain S where S: "cs \<in> set S" "moves_to [] uri_table S [(0x2F, 0x2F)] [Save_host, Markh] [513]"
    using cs either_moves(6) host_moves(5) by metis
  assume "port = [] \<and> n = 0"
  then show ?thesis
    using run_move [OF regular_uri, of t S "[(0x2F, 0x2F)]" "[Save_host, Markh]" "[513]" cs "0x2F"] S u
    by (cases u) (auto simp: in_ranges_def marked_def tx)
next
  let ?M = "uri_machine t" and ?p = "length pre + length h"
  let ?r = "\<lparr>ur_uri = u\<lparr>u_host := h\<rparr>, ur_mark = Some ?p\<rparr>"
  assume "port = 0x3A # decimal n \<and> int n < 2 ^ 31"
  then have port: "port = 0x3A # decimal n" and n: "int n < 2 ^ 31" by auto
  obtain d ds where d: "decimal n = d # ds" using decimal_hd [of n] by auto
  have ds: "in_ranges [(0x30, 0x39)] d" "\<forall>b \<in> set ds. in_ranges [(0x30, 0x39)] b"
    using decimal_chars [of _ n] by (auto simp: d)
  obtain S c1 c2 where S: "cs \<in> set S" "moves_to [] uri_table S [(0x3A, 0x3A)] [Save_host] [c1]"
    and c: "c1 = 521 \<and> c2 = (542::int) \<or> c1 = 514 \<and> c2 = 515"
    using cs either_moves(5) host_moves(4) by metis
  have host: "run ?M cs ?p (port @ 0x2F # rest) \<lparr>ur_uri = u, ur_mark = Some (length pre)\<rparr> =
     run ?M c1 (Suc ?p) (decimal n @ 0x2F # rest) \<lparr>ur_uri = u\<lparr>u_host := h\<rparr>, ur_mark = Some (length pre)\<rparr>"
    using run_move [OF regular_uri, of t S "[(0x3A, 0x3A)]" "[Save_host]" "[c1]" cs "0x3A" ?p] S c
    by (auto simp: in_ranges_def marked_def tx port)
  have "run ?M c1 (Suc ?p) (d # ds @ 0x2F # rest) \<lparr>ur_uri = u\<lparr>u_host := h\<rparr>, ur_mark = Some (length pre)\<rparr> =
    run ?M c2 (Suc (Suc ?p)) (ds @ 0x2F # rest) \<lparr>ur_uri = u\<lparr>u_host := h\<rparr>, ur_mark = Some (Suc ?p)\<rparr>"
    using run_move [OF regular_uri, of t "[c1]" "[(0x30, 0x39)]" "[Markh]" "[c2]" c1 d "Suc ?p"]
      c ds(1) port_moves(1,2) by auto
  also have "\<dots> = run ?M c2 (Suc ?p + length (decimal n)) (0x2F # rest)
      \<lparr>ur_uri = u\<lparr>u_host := h\<rparr>, ur_mark = Some (Suc ?p)\<rparr>"
    using run_through [OF regular_uri, of t "[c2]" "[(0x30, 0x39)]" c2 ds "Suc (Suc ?p)"]
      c ds(2) port_moves(3,4) by (auto simp: d)
  also have "\<dots> = run ?M 513 (Suc (Suc ?p + length (decimal n))) rest
      \<lparr>ur_uri = u\<lparr>u_host := h, u_port := of_nat n\<rparr>, ur_mark = Some (Suc ?p + length (decimal n))\<rparr>"
  proof -
    have "drop (Suc ?p) t = decimal n @ 0x2F # rest" by (simp add: tx port)
    moreover have "atoi (decimal n @ 0x2F # rest) = Inr (of_nat n)"
      using atoi_decimal [OF n, of "0x2F # rest"] by (simp add: is_digit_of_def digit_value_def)
    moreover have "decimal n \<noteq> []" by (simp add: d)
    ultimately show ?thesis
      using run_move [OF regular_uri, of t "[542, 515]" "[(0x2F, 0x2F)]" "[Save_port, Markh]" "[513]" c2 "0x2F"
          "Suc ?p + length (decimal n)"] c port_moves(5)
      by (auto simp: in_ranges_def unmark_def)
  qed
  finally show ?thesis
    using host by (simp add: d port tx add.assoc numeral_3_eq_3)
qed

text \<open>A fragment up to the end, or nothing.\<close>

abbreviation finish_uri :: "bytes \<Rightarrow> int \<times> nat \<times> uri_run \<Rightarrow> uri option res" where
  "finish_uri t \<equiv> (\<lambda>(cs, p, r).
     bindE (if cs \<noteq> 0 \<and> p = length t then run_acts (uri_exec t) (uri_eof cs) p r else Inr r) (\<lambda>r.
     Inr (if cs = 0 then None else if 451 \<le> cs then Some (ur_uri r) else None)))"

lemma uri_run_fragment:
  assumes "escaped_text query_chars f" and tx: "t = pre @ f"
  shows "bindE (run (uri_machine t) 453 (length pre) f \<lparr>ur_uri = u, ur_mark = None\<rparr>) (finish_uri t) =
    Inr (Some (u\<lparr>u_fragment := f\<rparr>))"
proof (cases "f = []")
  case True
  then show ?thesis
    by (simp add: uri_eof_def marked_def unmark_def tx)
next
  case False
  then have "run (uri_machine t) 453 (length pre) f \<lparr>ur_uri = u, ur_mark = None\<rparr> =
    Inr (454, length t, \<lparr>ur_uri = u, ur_mark = Some (length pre)\<rparr>)"
    using run_enter [OF regular_uri, of t 453 query_chars "[Marku]" "[454]" 1 2 f "length pre" "[]"
        "\<lparr>ur_uri = u, ur_mark = None\<rparr>"] assms tail_enters(2) by (simp add: tx)
  then show ?thesis
    by (simp add: uri_eof_def marked_def unmark_def tx)
qed

lemma uri_run_query:
  assumes q: "escaped_text query_chars q" "q \<noteq> []" and f: "escaped_text query_chars f"
    and u: "u_fragment u = []" and tx: "t = pre @ q @ (if f = [] then [] else [0x23]) @ f"
  shows "bindE (run (uri_machine t) 456 (length pre) (q @ (if f = [] then [] else [0x23]) @ f)
      \<lparr>ur_uri = u, ur_mark = None\<rparr>) (finish_uri t) = Inr (Some (u\<lparr>u_query := q, u_fragment := f\<rparr>))"
proof -
  let ?M = "uri_machine t" and ?rest = "(if f = [] then [] else [0x23]) @ f" and ?p = "length pre + length q"
  have "run ?M 456 (length pre) (q @ ?rest) \<lparr>ur_uri = u, ur_mark = None\<rparr> =
    run ?M 457 ?p ?rest \<lparr>ur_uri = u, ur_mark = Some (length pre)\<rparr>"
    using run_enter [OF regular_uri, of t 456 query_chars "[Marku]" "[457]" 7 8 q "length pre" ?rest
        "\<lparr>ur_uri = u, ur_mark = None\<rparr>"] q tail_enters(1) by simp
  moreover have "bindE (run ?M 457 ?p ?rest \<lparr>ur_uri = u, ur_mark = Some (length pre)\<rparr>) (finish_uri t) =
    Inr (Some (u\<lparr>u_query := q, u_fragment := f\<rparr>))"
  proof (cases "f = []")
    case True
    then show ?thesis
      using u by (cases u) (simp add: uri_eof_def marked_def unmark_def tx)
  next
    case False
    have "run ?M 457 ?p (0x23 # f) \<lparr>ur_uri = u, ur_mark = Some (length pre)\<rparr> =
      run ?M 453 (Suc ?p) f \<lparr>ur_uri = u\<lparr>u_query := q\<rparr>, ur_mark = None\<rparr>"
      using run_move [OF regular_uri, of t "[457]" "[(0x23, 0x23)]" "[Save_query]" "[453]" 457 "0x23" ?p]
        tail_moves(7) by (simp add: in_ranges_def marked_def unmark_def tx)
    then show ?thesis
      using uri_run_fragment [OF f, of t "pre @ q @ [0x23]" "u\<lparr>u_query := q\<rparr>"] False by (simp add: tx)
  qed
  ultimately show ?thesis by simp
qed

text \<open>The rest of a URI behind the first slash of its path.\<close>

lemma uri_run_path:
  assumes x: "escaped_text path_chars x" and q: "escaped_text query_chars q" and f: "escaped_text query_chars f"
    and u: "u_fragment u = []" "u_query u = []"
    and tx: "t = pre @ 0x2F # x @ (if q = [] then [] else [0x3F]) @ q @ (if f = [] then [] else [0x23]) @ f"
  shows "bindE (run (uri_machine t) 513 (Suc (length pre))
        (x @ (if q = [] then [] else [0x3F]) @ q @ (if f = [] then [] else [0x23]) @ f)
        \<lparr>ur_uri = u, ur_mark = Some (length pre)\<rparr>) (finish_uri t) =
    Inr (Some (u\<lparr>u_path := 0x2F # x, u_query := q, u_fragment := f\<rparr>))"
proof -
  let ?M = "uri_machine t" and ?p = "Suc (length pre + length x)"
  let ?rest = "(if q = [] then [] else [0x3F]) @ q @ (if f = [] then [] else [0x23]) @ f"
  let ?u = "u\<lparr>u_path := 0x2F # x\<rparr>"
  have "run ?M 513 (Suc (length pre)) (x @ ?rest) \<lparr>ur_uri = u, ur_mark = Some (length pre)\<rparr> =
    run ?M 513 ?p ?rest \<lparr>ur_uri = u, ur_mark = Some (length pre)\<rparr>"
    using run_escaped [OF regular_uri, of t "[513]" path_chars 243 244 513 x "Suc (length pre)" ?rest]
      x tail_moves(1) by simp
  moreover have "bindE (run ?M 513 ?p ?rest \<lparr>ur_uri = u, ur_mark = Some (length pre)\<rparr>) (finish_uri t) =
    Inr (Some (u\<lparr>u_path := 0x2F # x, u_query := q, u_fragment := f\<rparr>))"
  proof (cases "q = []")
    case q0: True
    show ?thesis
    proof (cases "f = []")
      case True
      then show ?thesis
        using q0 u by (cases u) (simp add: uri_eof_def marked_def unmark_def tx)
    next
      case False
      have "run ?M 513 ?p (0x23 # f) \<lparr>ur_uri = u, ur_mark = Some (length pre)\<rparr> =
        run ?M 453 (Suc ?p) f \<lparr>ur_uri = ?u, ur_mark = None\<rparr>"
        using run_move [OF regular_uri, of t "[513]" "[(0x23, 0x23)]" "[Save_path]" "[453]" 513 "0x23" ?p]
          tail_moves(3) q0 False by (simp add: in_ranges_def marked_def unmark_def tx)
      then show ?thesis
        using uri_run_fragment [OF f, of t "pre @ 0x2F # x @ [0x23]" ?u] False q0 u
        by (cases u) (simp add: tx)
    qed
  next
    case False
    have "run ?M 513 ?p (0x3F # q @ (if f = [] then [] else [0x23]) @ f)
        \<lparr>ur_uri = u, ur_mark = Some (length pre)\<rparr> =
      run ?M 456 (Suc ?p) (q @ (if f = [] then [] else [0x23]) @ f) \<lparr>ur_uri = ?u, ur_mark = None\<rparr>"
      using run_move [OF regular_uri, of t "[513]" "[(0x3F, 0x3F)]" "[Save_path]" "[456]" 513 "0x3F" ?p]
        tail_moves(2) False by (simp add: in_ranges_def marked_def unmark_def tx)
    then show ?thesis
      using uri_run_query [OF q False f, of ?u t "pre @ 0x2F # x @ [0x3F]"] False u
      by (simp add: tx)
  qed
  ultimately show ?thesis by simp
qed

lemma create_text:
  assumes sc: "scheme_text sc" and us: "escaped_text uri_name_chars us" and h: "h \<noteq> []" "escaped_text uri_name_chars h"
    and port: "port = [] \<and> n = 0 \<or> port = 0x3A # decimal n \<and> int n < 2 ^ 31"
    and x: "escaped_text path_chars x" and q: "escaped_text query_chars q" and f: "escaped_text query_chars f"
    and tail: "tail = x @ (if q = [] then [] else [0x3F]) @ q @ (if f = [] then [] else [0x23]) @ f"
    and tx: "t = sc @ str ''://'' @ us @ (if us = [] then [] else [0x40]) @ h @ port @ 0x2F # tail"
  shows "Uri_Create t = Inr (Some \<lparr>u_scheme = sc, u_userinfo = us, u_host = h, u_path = 0x2F # x, u_query = q,
    u_fragment = f, u_port = of_nat n\<rparr>)"
proof -
  let ?M = "uri_machine t"
  define a where "a = sc @ str ''://''"
  define at :: bytes where at: "at = (if us = [] then [] else [0x40])"
  define u where "u = new_Uri\<lparr>u_scheme := sc, u_userinfo := us, u_host := h, u_port := of_nat n\<rparr>"
  have t1: "t = a @ us @ at @ h @ port @ 0x2F # tail" by (simp add: tx a_def at)
  have "run ?M 451 0 t \<lparr>ur_uri = new_Uri, ur_mark = None\<rparr> =
    run ?M 511 (length a) (us @ at @ h @ port @ 0x2F # tail) \<lparr>ur_uri = new_Uri\<lparr>u_scheme := sc\<rparr>, ur_mark = None\<rparr>"
    using run_scheme [OF sc, of t "us @ at @ h @ port @ 0x2F # tail" new_Uri] t1 by (simp add: a_def str_def numeral_3_eq_3)
  also obtain cs where cs: "cs \<in> set either_states \<or> cs \<in> set host_states"
    "\<dots> = run ?M cs (length (a @ us @ at) + length h) (port @ 0x2F # tail)
      \<lparr>ur_uri = new_Uri\<lparr>u_scheme := sc, u_userinfo := us\<rparr>, ur_mark = Some (length (a @ us @ at))\<rparr>"
    using run_authority [OF us h at t1, of "new_Uri\<lparr>u_scheme := sc\<rparr>"] by (auto simp: new_Uri_def)
  note cs(2)
  also have "run ?M cs (length (a @ us @ at) + length h) (port @ 0x2F # tail)
      \<lparr>ur_uri = new_Uri\<lparr>u_scheme := sc, u_userinfo := us\<rparr>, ur_mark = Some (length (a @ us @ at))\<rparr> =
    run ?M 513 (Suc (length ((a @ us @ at) @ h @ port))) tail
      \<lparr>ur_uri = u, ur_mark = Some (length ((a @ us @ at) @ h @ port))\<rparr>"
    unfolding u_def by (subst run_port [OF cs(1) _ port]) (simp_all add: t1 new_Uri_def)
  finally have "Uri_Create t = bindE (run ?M 513 (Suc (length ((a @ us @ at) @ h @ port))) tail
      \<lparr>ur_uri = u, ur_mark = Some (length ((a @ us @ at) @ h @ port))\<rparr>) (finish_uri t)"
    by (simp add: Uri_Create_def)
  also have "\<dots> = Inr (Some (u\<lparr>u_path := 0x2F # x, u_query := q, u_fragment := f\<rparr>))"
    unfolding tail by (rule uri_run_path [OF x q f]) (simp_all add: u_def new_Uri_def t1 tail)
  finally show ?thesis by (simp add: u_def new_Uri_def)
qed

text \<open>C9: the text of a URI with a scheme, an optional user without a colon, a host that is a name (escapes \<open>%XX\<close>
  allowed), an optional port, a path, a query and a fragment is parsed into the same URI, whose path and
  port are what the text shows: a path that was empty is a slash, a default port is not printed.
\<close>

theorem uri_roundtrip:
  assumes u: "printable_uri u"
  shows "Uri_Create (uri_toString u) =
    Inr (Some (u\<lparr>u_path := uri_getPath u, u_port := if uri_isDefaultPort u then 0 else u_port u\<rparr>))"
proof -
  note p = u [unfolded printable_uri_def]
  define n where "n = (if uri_isDefaultPort u then 0 else nat (sint (u_port u)))"
  define port :: bytes where "port = (if uri_isDefaultPort u then [] else 0x3A # decimal n)"
  obtain x where x: "uri_getPath u = 0x2F # x" "escaped_text path_chars x"
    using p by (cases "u_path u") (auto simp: uri_getPath_def str_def)
  have "int n < 2 ^ 31"
    using sint_lt [of "u_port u"] p by (auto simp: n_def)
  then have port: "port = [] \<and> n = 0 \<or> port = 0x3A # decimal n \<and> int n < 2 ^ 31"
    by (simp add: port_def n_def)
  have n: "of_nat n = (if uri_isDefaultPort u then 0 else u_port u)"
    using p by (simp add: n_def)
  let ?r = "u\<lparr>u_path := uri_getPath u, u_port := if uri_isDefaultPort u then 0 else u_port u\<rparr>"
  have "Uri_Create (uri_toString u) = Inr (Some \<lparr>u_scheme = u_scheme u, u_userinfo = u_userinfo u,
      u_host = u_host u, u_path = 0x2F # x, u_query = u_query u, u_fragment = u_fragment u, u_port = of_nat n\<rparr>)"
    by (rule create_text [OF _ _ _ _ port x(2) _ _ refl])
      (use p in \<open>simp_all add: uri_toString_def x(1) str_def signed_decimal_def port_def n_def\<close>)
  also have "\<lparr>u_scheme = u_scheme u, u_userinfo = u_userinfo u, u_host = u_host u, u_path = 0x2F # x,
      u_query = u_query u, u_fragment = u_fragment u, u_port = of_nat n\<rparr> = ?r"
    unfolding n x(1) by (rule uri.equality) simp_all
  finally show ?thesis .
qed

lemma uri_roundtrip_witness:
  "\<exists>u. printable_uri u \<and> u_port u = 8080 \<and>
    uri_toString u = str ''http://u@a.b:8080/c%20d?x=1#f'' \<and> Uri_Create (uri_toString u) = Inr (Some u)"
proof -
  let ?u = "\<lparr>u_scheme = str ''http'', u_userinfo = str ''u'', u_host = str ''a.b'', u_path = str ''/c%20d'',
    u_query = str ''x=1'', u_fragment = str ''f'', u_port = 8080\<rparr>"
  have p: "printable_uri ?u"
    by (simp add: printable_uri_def scheme_text_def str_def in_ranges_def char_defs)
  moreover have "Uri_Create (uri_toString ?u) = Inr (Some ?u)"
    using uri_roundtrip [OF p] by (simp add: uri_isDefaultPort_def uri_getPath_def str_def)
  moreover have "uri_toString ?u = str ''http://u@a.b:8080/c%20d?x=1#f''"
    by (simp add: uri_toString_def uri_isDefaultPort_def uri_getPath_def str_def signed_decimal_def decimal.simps)
  ultimately show ?thesis by (intro exI [of _ ?u]) simp
qed

end
