(* ===== verification/UriSafety.thy ===== *)
theory UriSafety
  imports UriProps
begin

text \<open>
  When \<open>Uri::Create\<close> fails instead of returning a pointer. The state machine keeps \<open>mark\<close> null in some
  states; which actions can meet it there is checked once over the whole table, and invariants of the run
  relate the states around a port and a path to the characters read.
\<close>

section \<open>A check of every transition\<close>

text \<open>States that can be reached with a null \<open>mark\<close>; states behind \<open>//\<close> of an absolute URI.\<close>

definition unmarked_state :: "int \<Rightarrow> bool" where
  "unmarked_state cs \<longleftrightarrow>
     3 \<le> cs \<and> cs \<le> 6 \<or> cs \<in> set [243, 244, 451, 452, 453, 455, 456, 458, 459, 469, 509, 510, 511, 513, 522]"

definition slashed_state :: "int \<Rightarrow> bool" where
  "slashed_state cs \<longleftrightarrow> 229 \<le> cs \<and> cs \<le> 450 \<or> 511 \<le> cs"

text \<open>The states behind the colon of a port, inside a port, and inside the path.\<close>

definition colon_states :: "int list" where "colon_states = [461, 468, 514, 521]"
definition port_states :: "int list" where "port_states = [462, 489, 515, 542]"
definition path_states :: "int list" where "path_states = [243, 244, 513]"

fun mark_after :: "bool \<Rightarrow> uri_action \<Rightarrow> bool" where
  "mark_after k Marku = True"
| "mark_after k Markh = True"
| "mark_after k Save_host = k"
| "mark_after k a = False"

fun marks_after :: "bool \<Rightarrow> uri_action list \<Rightarrow> bool" where
  "marks_after k [] = k"
| "marks_after k (a # as) = marks_after (mark_after k a) as"

text \<open>A string is built from a null \<open>mark\<close>.\<close>

fun misuse :: "bool \<Rightarrow> uri_action list \<Rightarrow> bool" where
  "misuse k [] = False"
| "misuse k (a # as) =
     (\<not> k \<and> (a = Save_scheme \<or> a = Save_path \<or> a = Save_query \<or> a = Save_fragment) \<or> misuse (mark_after k a) as)"

text \<open>A port is saved where \<open>mark\<close> has just been set to \<open>p\<close>, or first and at most once.\<close>

definition port_use :: "int \<Rightarrow> uri_action list \<Rightarrow> bool" where
  "port_use cs as \<longleftrightarrow>
     Save_port \<notin> set as \<or>
     take 2 as = [Markh, Save_port] \<and> Save_port \<notin> set (drop 2 as) \<or>
     take 1 as = [Save_port] \<and> Save_port \<notin> set (drop 1 as) \<and> cs \<in> set port_states"

definition marks_ok :: "int \<Rightarrow> uri_action move \<Rightarrow> bool" where
  "marks_ok cs m \<longleftrightarrow>
     (snd m = 0 \<or> unmarked_state (snd m) \<or> marks_after (\<not> unmarked_state cs) (fst m)) \<and>
     (misuse (\<not> unmarked_state cs) (fst m) \<longrightarrow>
        (cs = 514 \<or> cs = 521) \<and> fst m = [Markh, Save_port, Save_path] \<or> cs = 513 \<and> fst m = [Save_path]) \<and>
     port_use cs (fst m)"

definition targets_ok :: "int \<Rightarrow> uri_action move \<Rightarrow> bool" where
  "targets_ok cs m \<longleftrightarrow>
     (snd m \<in> set path_states \<longrightarrow>
        cs \<in> set path_states \<and> fst m = [] \<or> marks_after False (fst m) \<or>
        (cs = 514 \<or> cs = 521) \<and> fst m = [Markh, Save_port]) \<and>
     (snd m \<in> set port_states \<longrightarrow>
        cs \<in> set port_states \<and> fst m = [] \<or> cs \<in> set colon_states \<and> fst m = [Markh]) \<and>
     (snd m = 510 \<longrightarrow> cs = 509) \<and>
     (slashed_state (snd m) \<longrightarrow> slashed_state cs \<or> cs = 510 \<and> snd m = 511)"

lemmas check_defs = marks_ok_def targets_ok_def unmarked_state_def slashed_state_def port_use_def
  colon_states_def port_states_def path_states_def

lemma all_marks_ok: "list_all (\<lambda>x. list_all (marks_ok (fst x)) (leaves (snd x))) uri_table"
  by (simp add: uri_table_def) (simp add: uri_st_defs uri_tr_defs check_defs)

lemma all_targets_ok: "list_all (\<lambda>x. list_all (targets_ok (fst x)) (leaves (snd x))) uri_table"
  by (simp add: uri_table_def) (simp add: uri_st_defs uri_tr_defs check_defs)

text \<open>Only a colon leads to the states behind one, only a slash to the states behind one.\<close>

lemma colon_only:
  "list_all (\<lambda>x. row_all [] [(-128, 0x39), (0x3B, 127)] (\<lambda>m. snd m \<notin> set (509 # colon_states)) (snd x)) uri_table"
  by (simp add: uri_table_def) (simp add: row_all_def uri_st_defs uri_tr_defs check_defs)

lemma slash_only:
  "list_all (\<lambda>x. row_all [] [(-128, 0x2E), (0x30, 127)] (\<lambda>m. snd m \<notin> set [510, 511]) (snd x)) uri_table"
  by (simp add: uri_table_def) (simp add: row_all_def uri_st_defs uri_tr_defs check_defs)

lemma empty_port_chars:
  "list_all (\<lambda>x. row_all [] [(-128, 0x22), (0x24, 0x2E), (0x30, 0x3E), (0x40, 127)]
     (\<lambda>m. take 2 (fst m) \<noteq> [Markh, Save_port]) (snd x)) uri_table"
  by (simp add: uri_table_def) (simp add: row_all_def uri_st_defs uri_tr_defs check_defs)

section \<open>What the actions do to the mark\<close>

lemma mark_after_mono: "mark_after k a \<Longrightarrow> mark_after True a"
  by (cases a) auto

lemma marks_after_mono: "marks_after k as \<Longrightarrow> marks_after True as"
proof (induction as arbitrary: k)
  case (Cons a as)
  show ?case
  proof (cases "mark_after True a = mark_after k a")
    case True
    then show ?thesis using Cons.prems by simp
  next
    case False
    then have "mark_after True a" using mark_after_mono [of k a] by auto
    then show ?thesis using Cons by auto
  qed
qed simp

lemma misuse_anti: "misuse k as \<Longrightarrow> misuse False as"
proof (induction as arbitrary: k)
  case (Cons a as)
  have "mark_after k a = mark_after False a \<or> \<not> mark_after False a"
    using mark_after_mono by (cases k) auto
  then show ?case using Cons by auto
qed simp

lemma run_acts_mark:
  "run_acts (uri_exec t) as p r = Inr r' \<Longrightarrow> (ur_mark r' \<noteq> None) = marks_after (ur_mark r \<noteq> None) as"
proof (induction as arbitrary: r)
  case (Cons a as)
  then obtain r1 where r1: "uri_exec t a p r = Inr r1" "run_acts (uri_exec t) as p r1 = Inr r'"
    by (auto simp: bindE_Inr_iff)
  have "(ur_mark r1 \<noteq> None) = mark_after (ur_mark r \<noteq> None) a"
    using r1(1) by (cases a) (auto simp: bindE_Inr_iff unmark_def marked_def split: if_splits option.splits)
  with Cons.IH [OF r1(2)] show ?case by simp
qed simp

lemma run_acts_no_port:
  "Save_port \<notin> set as \<Longrightarrow> run_acts (uri_exec t) as p r = Inl e \<Longrightarrow>
   e = Thrown \<and> misuse (ur_mark r \<noteq> None) as"
proof (induction as arbitrary: r)
  case (Cons a as)
  show ?case
  proof (cases "uri_exec t a p r")
    case (Inl e')
    then show ?thesis
      using Cons.prems
      by (cases a) (auto simp: bindE_Inl_iff marked_def split: if_splits option.splits)
  next
    case (Inr r1)
    then have mark: "(ur_mark r1 \<noteq> None) = mark_after (ur_mark r \<noteq> None) a"
      using run_acts_mark [of t "[a]" p r r1] by simp
    have "e = Thrown \<and> misuse (ur_mark r1 \<noteq> None) as"
      using Cons.IH [of r1] Cons.prems Inr by simp
    then show ?thesis
      unfolding mark by simp
  qed
qed simp

text \<open>An action list fails by a misuse of the mark or because a number does not fit.\<close>

lemma uri_acts_fail:
  assumes use: "port_use cs as" and fail: "run_acts (uri_exec t) as p r = Inl e"
    and port: "cs \<in> set port_states \<Longrightarrow> ur_mark r \<noteq> None"
  shows "e = Thrown \<and> misuse (ur_mark r \<noteq> None) as \<or>
    e = ArithUB \<and> cs \<in> set port_states \<and> (\<exists>m. ur_mark r = Some m \<and> atoi (drop m t) = Inl ArithUB)"
proof -
  consider "Save_port \<notin> set as"
    | as' where "as = Markh # Save_port # as'" "Save_port \<notin> set as'"
    | as' where "as = Save_port # as'" "Save_port \<notin> set as'" "cs \<in> set port_states"
    using use by (cases as; cases "tl as") (auto simp: port_use_def numeral_2_eq_2)
  then show ?thesis
  proof cases
    case 1
    then show ?thesis using run_acts_no_port fail by blast
  next
    case (2 as')
    then have "run_acts (uri_exec t) as' p (unmark (r\<lparr>ur_mark := Some p\<rparr>)) = Inl e"
      using fail by simp
    with run_acts_no_port [OF 2(2) this] show ?thesis
      by (simp add: 2(1) unmark_def)
  next
    case (3 as')
    obtain m where m: "ur_mark r = Some m" using port [OF 3(3)] by auto
    show ?thesis
    proof (cases "uri_exec t Save_port p r")
      case (Inl e')
      then show ?thesis
        using fail 3 m by (auto simp: bindE_Inl_iff atoi_def Let_def split: if_splits)
    next
      case (Inr r1)
      then have "ur_mark r1 = None" "run_acts (uri_exec t) as' p r1 = Inl e"
        using fail 3(1) m by (auto simp: bindE_Inr_iff unmark_def split: if_splits)
      with run_acts_no_port [OF 3(2) this(2)] show ?thesis
        by (simp add: 3(1))
    qed
  qed
qed

section \<open>The invariant of a run\<close>

text \<open>
  An empty port: behind \<open>://\<close>, a colon that is followed by the end, a slash, a question mark or a hash.
\<close>

definition empty_port :: "bytes \<Rightarrow> bool" where
  "empty_port t \<longleftrightarrow> (\<exists>a b c. t = a @ str ''://'' @ b @ str '':'' @ c \<and> (c = [] \<or> hd c \<in> set (str ''/?#'')))"

definition closed_empty_port :: "bytes \<Rightarrow> bool" where
  "closed_empty_port t \<longleftrightarrow>
     (\<exists>a b d c. t = a @ str ''://'' @ b @ str '':'' @ d # c \<and> d \<in> set (str ''/?#''))"

text \<open>A number behind a colon that does not fit an \<open>int\<close>.\<close>

definition big_port_at :: "nat \<Rightarrow> bytes \<Rightarrow> bool" where
  "big_port_at m t \<longleftrightarrow> 0 < m \<and> m \<le> length t \<and> t ! (m - 1) = 0x3A \<and> atoi (drop m t) = Inl ArithUB"

lemma closed_empty_port_append: "closed_empty_port t \<Longrightarrow> closed_empty_port (t @ u)"
  unfolding closed_empty_port_def by (metis append.assoc append_Cons)

lemma closed_is_empty_port: "closed_empty_port t \<Longrightarrow> empty_port t"
  unfolding closed_empty_port_def empty_port_def by (metis list.sel(1))

definition uri_ok :: "int \<Rightarrow> bytes \<Rightarrow> uri_run \<Rightarrow> bool" where
  "uri_ok cs rd r \<longleftrightarrow>
     (ur_mark r = None \<longrightarrow> unmarked_state cs) \<and>
     (cs \<in> set (509 # colon_states) \<longrightarrow> (\<exists>a. rd = a @ [0x3A])) \<and>
     (cs = 510 \<longrightarrow> (\<exists>a. rd = a @ [0x3A, 0x2F])) \<and>
     (slashed_state cs \<longrightarrow> (\<exists>a b. rd = a @ str ''://'' @ b)) \<and>
     (cs \<in> set path_states \<and> ur_mark r = None \<longrightarrow> closed_empty_port rd) \<and>
     (cs \<in> set port_states \<longrightarrow>
        (\<exists>m. ur_mark r = Some m \<and> 0 < m \<and> m \<le> length rd \<and> rd ! (m - 1) = 0x3A))"

lemma uri_moves:
  assumes m: "switch_cs (m_wide (uri_machine t)) (m_table (uri_machine t)) cs (sint b) = Some (as, cs')"
  shows "marks_ok cs (as, cs')" "targets_ok cs (as, cs')"
    and "cs' \<in> set (509 # colon_states) \<Longrightarrow> b = 0x3A"
    and "cs' = 510 \<or> cs' = 511 \<Longrightarrow> b = 0x2F"
    and "take 2 as = [Markh, Save_port] \<Longrightarrow> b \<in> set (str ''/?#'')"
proof -
  note m = m [simplified]
  show "marks_ok cs (as, cs')"
    by (rule table_leavesD [OF all_marks_ok m])
  show "targets_ok cs (as, cs')"
    by (rule table_leavesD [OF all_targets_ok m])
  have w: "c \<notin> set [] \<Longrightarrow> m_wide (uri_machine t) c = c" for c
    by (simp add: uri_machine_def)
  have range: "- 128 \<le> sint b" "sint b \<le> 127"
    using sint_ge [of b] sint_lt [of b] by simp_all
  note neq = sint_neq [of b]
  show "b = 0x3A" if "cs' \<in> set (509 # colon_states)"
  proof (rule ccontr)
    assume "b \<noteq> 0x3A"
    then have "in_ranges [(-128, 0x39), (0x3B, 127)] b"
      using range neq [where n = "0x3A"] by (simp add: in_ranges_def) linarith
    then show False
      using table_allD [where P = "\<lambda>_ m. snd m \<notin> set (509 # colon_states)", OF colon_only m _ w] that by simp
  qed
  show "b = 0x2F" if "cs' = 510 \<or> cs' = 511"
  proof (rule ccontr)
    assume "b \<noteq> 0x2F"
    then have "in_ranges [(-128, 0x2E), (0x30, 127)] b"
      using range neq [where n = "0x2F"] by (simp add: in_ranges_def) linarith
    then show False
      using table_allD [where P = "\<lambda>_ m. snd m \<notin> set [510, 511]", OF slash_only m _ w] that by simp
  qed
  show "b \<in> set (str ''/?#'')" if "take 2 as = [Markh, Save_port]"
  proof (rule ccontr)
    assume "b \<notin> set (str ''/?#'')"
    then have "in_ranges [(-128, 0x22), (0x24, 0x2E), (0x30, 0x3E), (0x40, 127)] b"
      using range neq [where n = "0x2F"] neq [where n = "0x23"] neq [where n = "0x3F"]
      by (simp add: in_ranges_def str_def) linarith
    then show False
      using table_allD [where P = "\<lambda>_ m. take 2 (fst m) \<noteq> [Markh, Save_port]", OF empty_port_chars m _ w] that
      by simp
  qed
qed

text \<open>A step that fails, from a state of the invariant.\<close>

definition uri_fails :: "bytes \<Rightarrow> cpp_error \<Rightarrow> bytes \<Rightarrow> u8 \<Rightarrow> bool" where
  "uri_fails t e rd b \<longleftrightarrow>
     e = Thrown \<and> closed_empty_port (rd @ [b]) \<or>
     e = ArithUB \<and> (\<exists>m. 0 < m \<and> m \<le> length rd \<and> rd ! (m - 1) = 0x3A \<and> atoi (drop m t) = Inl ArithUB)"

lemma colon_behind_slashes:
  assumes "rd = a @ str ''://'' @ b" and "rd = c @ [0x3A]"
  shows "\<exists>d. rd = a @ str ''://'' @ d @ str '':''"
proof (cases b rule: rev_cases)
  case Nil
  then have "last rd = 0x2F" using assms(1) by (simp add: str_def)
  then show ?thesis using assms(2) by simp
next
  case (snoc d x)
  then have "x = 0x3A" using assms by simp
  then show ?thesis using assms(1) snoc by (auto simp: str_def)
qed

text \<open>At a state behind the colon of a port of an absolute URI.\<close>

lemma empty_port_closed:
  assumes ok: "uri_ok cs rd r" and cs: "cs = 514 \<or> cs = 521" and d: "d \<in> set (str ''/?#'')"
  shows "closed_empty_port (rd @ [d])"
proof -
  have "slashed_state cs" "cs \<in> set (509 # colon_states)"
    using cs by (auto simp: slashed_state_def colon_states_def)
  then obtain a b c where "rd = a @ str ''://'' @ b" "rd = c @ [0x3A]"
    using ok unfolding uri_ok_def by blast
  then obtain b' where "rd = a @ str ''://'' @ b' @ str '':''"
    using colon_behind_slashes by blast
  with d show ?thesis
    unfolding closed_empty_port_def by (intro exI [of _ a] exI [of _ b'] exI [of _ d] exI [of _ "[]"]) simp
qed

lemma uri_ok_step:
  assumes ok: "uri_ok cs rd r"
    and m: "switch_cs (m_wide (uri_machine t)) (m_table (uri_machine t)) cs (sint b) = Some (as, cs')"
    and run: "run_acts (m_exec (uri_machine t)) as (length rd) r = Inr r'" and cs': "cs' \<noteq> 0"
  shows "uri_ok cs' (rd @ [b]) r'"
proof -
  note moves = uri_moves [OF m]
  have marks: "(ur_mark r' \<noteq> None) = marks_after (ur_mark r \<noteq> None) as"
    using run_acts_mark run by simp
  note targets = moves(2) [unfolded targets_ok_def, simplified]
  have 1: "unmarked_state cs'" if "ur_mark r' = None"
  proof (rule ccontr)
    assume *: "\<not> unmarked_state cs'"
    then have k: "marks_after (\<not> unmarked_state cs) as"
      using moves(1) cs' by (simp add: marks_ok_def)
    have "unmarked_state cs \<or> ur_mark r \<noteq> None"
      using ok by (auto simp: uri_ok_def)
    then have "marks_after (ur_mark r \<noteq> None) as"
      using k marks_after_mono [of "\<not> unmarked_state cs" as] by (cases "ur_mark r = None") auto
    then show False using marks that by simp
  qed
  have 2: "\<exists>a. rd @ [b] = a @ [0x3A]" if "cs' \<in> set (509 # colon_states)"
    using moves(3) [OF that] by simp
  have 3: "\<exists>a. rd @ [b] = a @ [0x3A, 0x2F]" if "cs' = 510"
    using moves(4) targets that ok by (auto simp: uri_ok_def)
  have 4: "\<exists>a c. rd @ [b] = a @ str ''://'' @ c" if "slashed_state cs'"
  proof (cases "slashed_state cs")
    case True
    then obtain a c where "rd = a @ str ''://'' @ c"
      using ok unfolding uri_ok_def by blast
    then have "rd @ [b] = a @ str ''://'' @ (c @ [b])" by simp
    then show ?thesis by blast
  next
    case False
    then have "cs = 510" "cs' = 511" using targets that by auto
    moreover then obtain a where "rd = a @ [0x3A, 0x2F]" using ok unfolding uri_ok_def by blast
    ultimately have "rd @ [b] = a @ str ''://'' @ []"
      using moves(4) by (simp add: str_def)
    then show ?thesis by blast
  qed
  have 5: "closed_empty_port (rd @ [b])" if path: "cs' \<in> set path_states" and none: "ur_mark r' = None"
  proof -
    consider "cs \<in> set path_states" "as = []" | "marks_after False as"
      | "cs = 514 \<or> cs = 521" "as = [Markh, Save_port]"
      using targets path by auto
    then show ?thesis
    proof cases
      case 1
      then show ?thesis
        using ok run none closed_empty_port_append by (auto simp: uri_ok_def)
    next
      case 2
      then have "marks_after (ur_mark r \<noteq> None) as"
        using marks_after_mono [of False as] by (cases "ur_mark r = None") auto
      then show ?thesis using marks none by simp
    next
      case 3
      then show ?thesis
        using empty_port_closed [OF ok 3(1)] moves(5) by (simp add: numeral_2_eq_2)
    qed
  qed
  have 6: "\<exists>n. ur_mark r' = Some n \<and> 0 < n \<and> n \<le> length (rd @ [b]) \<and> (rd @ [b]) ! (n - 1) = 0x3A"
    if port: "cs' \<in> set port_states"
  proof -
    consider "cs \<in> set port_states" "as = []" | "cs \<in> set colon_states" "as = [Markh]"
      using targets port by auto
    then show ?thesis
    proof cases
      case 1
      then obtain n where "ur_mark r = Some n" "0 < n" "n \<le> length rd" "rd ! (n - 1) = 0x3A"
        using ok by (auto simp: uri_ok_def)
      then show ?thesis using 1 run by (auto simp: nth_append)
    next
      case 2
      then obtain a where "rd = a @ [0x3A]" using ok by (auto simp: uri_ok_def)
      then show ?thesis using 2 run by (auto simp: nth_append)
    qed
  qed
  show ?thesis
    unfolding uri_ok_def using 1 2 3 4 5 6 by blast
qed

lemma uri_fails_step:
  assumes ok: "uri_ok cs rd r"
    and m: "switch_cs (m_wide (uri_machine t)) (m_table (uri_machine t)) cs (sint b) = Some (as, cs')"
    and run: "run_acts (m_exec (uri_machine t)) as (length rd) r = Inl e"
  shows "uri_fails t e rd b"
proof -
  note moves = uri_moves [OF m]
  have marked: "ur_mark r \<noteq> None" if "cs \<in> set port_states"
    using ok that by (auto simp: uri_ok_def)
  have use: "port_use cs as"
    using moves(1) by (simp add: marks_ok_def)
  from uri_acts_fail [OF use run [simplified] marked] show ?thesis
  proof
    assume fail: "e = Thrown \<and> misuse (ur_mark r \<noteq> None) as"
    have "misuse (\<not> unmarked_state cs) as"
      using fail misuse_anti [of "ur_mark r \<noteq> None" as] ok
      by (cases "unmarked_state cs") (auto simp: uri_ok_def)
    then consider "cs = 514 \<or> cs = 521" "as = [Markh, Save_port, Save_path]" | "cs = 513" "as = [Save_path]"
      using moves(1) by (auto simp: marks_ok_def)
    then have "closed_empty_port (rd @ [b])"
    proof cases
      case 1
      then show ?thesis
        using empty_port_closed [OF ok 1(1)] moves(5) by (simp add: numeral_2_eq_2)
    next
      case 2
      then have "ur_mark r = None" using fail by auto
      then show ?thesis
        using ok 2(1) closed_empty_port_append by (auto simp: uri_ok_def path_states_def)
    qed
    then show ?thesis
      using fail by (simp add: uri_fails_def)
  next
    assume "e = ArithUB \<and> cs \<in> set port_states \<and> (\<exists>m. ur_mark r = Some m \<and> atoi (drop m t) = Inl ArithUB)"
    moreover then obtain m where "ur_mark r = Some m" "0 < m" "m \<le> length rd" "rd ! (m - 1) = 0x3A"
      using ok unfolding uri_ok_def by blast
    ultimately show ?thesis
      unfolding uri_fails_def by auto
  qed
qed

interpretation uri_runs: machine_invariant "uri_machine t" uri_ok "uri_fails t" for t
  by unfold_locales (rule uri_ok_step uri_fails_step; assumption)+

section \<open>Failures\<close>

text \<open>The same check for the actions at the end of the text; each case of \<open>uri_eof\<close> gives one goal.\<close>

definition eof_ok :: "int \<Rightarrow> uri_action list \<Rightarrow> bool" where
  "eof_ok cs as \<longleftrightarrow>
     port_use cs as \<and>
     (misuse (\<not> unmarked_state cs) as \<longrightarrow> cs = 514 \<or> cs = 521 \<or> cs = 513 \<and> as = [Save_path]) \<and>
     (Save_path \<in> set as \<longrightarrow> slashed_state cs)"

lemma if_member:
  "list_all (\<lambda>c. P c x) L \<Longrightarrow> P cs y \<Longrightarrow> P cs (if cs \<in> set L then x else y)"
  by (auto simp: list_all_iff)

lemma eof_ok: "eof_ok cs (uri_eof cs)"
  unfolding uri_eof_def
  by (intro if_member [where P = eof_ok]) (simp_all add: eof_ok_def check_defs)

text \<open>C13: \<open>Create\<close> returns a pointer for every string, accepted or not, with two exceptions, both at a port. It
  throws \<open>std::logic_error\<close> only if the port of an absolute URI is empty, as in \<open>http://host:\<close> or
  \<open>http://host:/path\<close>, where \<open>save_path\<close> builds a string from the null \<open>mark\<close>; and it calls \<open>atoi\<close> outside its
  domain only if the digits behind a colon do not fit an \<open>int\<close>.
\<close>

theorem uri_create_fails_at_ports:
  assumes "Uri_Create t = Inl e"
  shows "e = Thrown \<and> empty_port t \<or> e = ArithUB \<and> (\<exists>m. big_port_at m t)"
proof -
  let ?r = "\<lparr>ur_uri = new_Uri, ur_mark = None\<rparr>"
  have start: "uri_ok 451 [] ?r"
    by (simp add: uri_ok_def check_defs)
  consider "run (uri_machine t) 451 0 t ?r = Inl e"
    | cs p r where "run (uri_machine t) 451 0 t ?r = Inr (cs, p, r)" "cs \<noteq> 0" "p = length t"
        "run_acts (uri_exec t) (uri_eof cs) p r = Inl e"
    using assms by (auto simp: Uri_Create_def bindE_Inl_iff split: if_splits)
  then show ?thesis
  proof cases
    case 1
    then obtain n where n: "n < length t" "uri_fails t e (take n t) (t ! n)"
      using uri_runs.run_fails [OF start, of t t e] by auto
    have t: "t = (take n t @ [t ! n]) @ drop (Suc n) t"
      using n(1) by (simp add: id_take_nth_drop [symmetric])
    show ?thesis
    proof (cases "e = Thrown")
      case True
      then have "closed_empty_port (take n t @ [t ! n])"
        using n(2) by (simp add: uri_fails_def)
      then have "closed_empty_port t"
        using closed_empty_port_append t by metis
      then show ?thesis
        using True closed_is_empty_port by blast
    next
      case False
      then obtain m where "0 < m" "m \<le> n" "take n t ! (m - 1) = 0x3A" "atoi (drop m t) = Inl ArithUB" "e = ArithUB"
        using n by (auto simp: uri_fails_def)
      then have "big_port_at m t"
        using n(1) by (simp add: big_port_at_def)
      then show ?thesis using \<open>e = ArithUB\<close> by blast
    qed
  next
    case (2 cs p r)
    then obtain n where "n \<le> length t" "p = n" "uri_ok cs (take n t) r"
      using uri_runs.run_ok [OF start, of t t cs p r] by auto
    then have ok: "uri_ok cs t r" using 2(3) by simp
    have marked: "ur_mark r \<noteq> None" if "cs \<in> set port_states"
      using ok that by (auto simp: uri_ok_def)
    from uri_acts_fail [OF eof_ok [unfolded eof_ok_def, THEN conjunct1] 2(4) marked] show ?thesis
    proof
      assume fail: "e = Thrown \<and> misuse (ur_mark r \<noteq> None) (uri_eof cs)"
      have "misuse (\<not> unmarked_state cs) (uri_eof cs)"
        using fail misuse_anti [of "ur_mark r \<noteq> None" "uri_eof cs"] ok
        by (cases "unmarked_state cs") (auto simp: uri_ok_def)
      then consider "cs = 513" "uri_eof cs = [Save_path]" | "cs = 514 \<or> cs = 521"
        using eof_ok [of cs] unfolding eof_ok_def by blast
      then have "empty_port t"
      proof cases
        case 1
        then have "ur_mark r = None"
          using fail by auto
        then show ?thesis
          using ok 1 closed_is_empty_port by (auto simp: uri_ok_def path_states_def)
      next
        case 2
        then have "slashed_state cs" "cs \<in> set (509 # colon_states)"
          by (auto simp: slashed_state_def colon_states_def)
        then obtain a b c where "t = a @ str ''://'' @ b" "t = c @ [0x3A]"
          using ok unfolding uri_ok_def by blast
        then obtain d where "t = a @ str ''://'' @ d @ str '':''"
          using colon_behind_slashes by blast
        then show ?thesis
          unfolding empty_port_def by (intro exI [of _ a] exI [of _ d] exI [of _ "[]"]) simp
      qed
      then show ?thesis using fail by simp
    next
      assume "e = ArithUB \<and> cs \<in> set port_states \<and> (\<exists>m. ur_mark r = Some m \<and> atoi (drop m t) = Inl ArithUB)"
      then obtain m where "e = ArithUB" "big_port_at m t"
        using ok unfolding uri_ok_def big_port_at_def by (metis option.inject)
      then show ?thesis by blast
    qed
  qed
qed

section \<open>An empty port\<close>

lemma limit_moves:
  "moves_to [] uri_table [514, 521] [(0x2F, 0x2F)] [Markh, Save_port] [513]"
  "moves_to [] uri_table [542] [(0x40, 0x40)] [Save_userinfo] [522]"
  by (simp_all add: moves_to_def uri_table_def)
    (simp_all add: row_all_def uri_st_defs uri_tr_defs)

text \<open>
  A URI whose port is empty makes \<open>Create\<close> throw instead of returning null or the URI without a port, at
  the end of the text and before a path.
\<close>

theorem empty_port_throws:
  assumes sc: "scheme_text sc" and us: "escaped_text uri_name_chars us" and h: "h \<noteq> []" "escaped_text uri_name_chars h"
    and c: "c = [] \<or> c = 0x2F # x \<and> escaped_text path_chars x"
  shows "Uri_Create (sc @ str ''://'' @ us @ (if us = [] then [] else str ''@'') @ h @ str '':'' @ c) = Inl Thrown"
proof -
  define at :: bytes where at: "at = (if us = [] then [] else [0x40])"
  define a where "a = sc @ str ''://''"
  define t where t: "t = a @ us @ at @ h @ 0x3A # c"
  let ?M = "uri_machine t"
  let ?p = "length (a @ us @ at)"
  let ?u = "new_Uri\<lparr>u_scheme := sc, u_userinfo := us\<rparr>"
  have "run ?M 451 0 t \<lparr>ur_uri = new_Uri, ur_mark = None\<rparr> =
    run ?M 511 (length a) (us @ at @ h @ 0x3A # c) \<lparr>ur_uri = new_Uri\<lparr>u_scheme := sc\<rparr>, ur_mark = None\<rparr>"
    using run_scheme [OF sc, of t "us @ at @ h @ 0x3A # c" new_Uri] t by (simp add: a_def str_def numeral_3_eq_3)
  also obtain cs where cs: "cs \<in> set either_states \<or> cs \<in> set host_states"
    "\<dots> = run ?M cs (?p + length h) (0x3A # c) \<lparr>ur_uri = ?u, ur_mark = Some ?p\<rparr>"
    using run_authority [OF us h at t, of "new_Uri\<lparr>u_scheme := sc\<rparr>"] by (auto simp: new_Uri_def)
  note cs(2)
  finally have begun: "run ?M 451 0 t \<lparr>ur_uri = new_Uri, ur_mark = None\<rparr> =
    run ?M cs (?p + length h) (0x3A # c) \<lparr>ur_uri = ?u, ur_mark = Some ?p\<rparr>" .
  obtain S c1 where S: "cs \<in> set S" "moves_to [] uri_table S [(0x3A, 0x3A)] [Save_host] [c1]"
    and c1: "c1 = 521 \<or> c1 = 514"
    using cs(1) either_moves(5) host_moves(4) by metis
  let ?r = "\<lparr>ur_uri = ?u\<lparr>u_host := h\<rparr>, ur_mark = Some ?p\<rparr>"
  have "run ?M cs (?p + length h) (0x3A # c) \<lparr>ur_uri = ?u, ur_mark = Some ?p\<rparr> = run ?M c1 (Suc (?p + length h)) c ?r"
    using run_move [OF regular_uri, of t S "[(0x3A, 0x3A)]" "[Save_host]" "[c1]" cs "0x3A" "?p + length h"] S c1
    by (auto simp: in_ranges_def marked_def t add.assoc)
  with begun have start: "Uri_Create t = bindE (run ?M c1 (Suc (?p + length h)) c ?r) (finish_uri t)"
    by (simp add: Uri_Create_def)
  have "bindE (run ?M c1 (Suc (?p + length h)) c ?r) (finish_uri t) = Inl Thrown"
    using c
  proof
    assume "c = []"
    then show ?thesis
      using c1 by (auto simp: uri_eof_def marked_def unmark_def t add.assoc)
  next
    assume "c = 0x2F # x \<and> escaped_text path_chars x"
    then have c: "c = 0x2F # x" and x: "escaped_text path_chars x" by auto
    have "run ?M c1 (Suc (?p + length h)) c ?r =
      run ?M 513 (Suc (Suc (?p + length h))) x (?r\<lparr>ur_mark := None\<rparr>)"
      using run_move [OF regular_uri, of t "[514, 521]" "[(0x2F, 0x2F)]" "[Markh, Save_port]" "[513]" c1 "0x2F"
          "Suc (?p + length h)" x ?r] c1 limit_moves(1) c by (auto simp: in_ranges_def unmark_def)
    also have "\<dots> = Inr (513, length t, ?r\<lparr>ur_mark := None\<rparr>)"
      using run_escaped [OF regular_uri, of t "[513]" path_chars 243 244 513 x "Suc (Suc (?p + length h))" "[]"]
        x tail_moves(1) by (simp add: t c add.assoc)
    finally show ?thesis
      by (simp add: uri_eof_def marked_def)
  qed
  moreover have "sc @ str ''://'' @ us @ (if us = [] then [] else str ''@'') @ h @ str '':'' @ c = t"
    by (simp add: t a_def at str_def)
  ultimately show ?thesis
    using start by (simp only:)
qed

lemma empty_port_examples:
  "Uri_Create (str ''http://h:'') = Inl Thrown" "Uri_Create (str ''http://h:/a'') = Inl Thrown"
  using empty_port_throws [of "str ''http''" "[]" "str ''h''" "[]" "[]"]
    empty_port_throws [of "str ''http''" "[]" "str ''h''" "str ''/a''" "str ''a''"]
  by (simp_all add: str_def scheme_text_def in_ranges_def char_defs)

lemma uri_create_fails_at_ports_witness:
  "Uri_Create (str ''http://h:'') = Inl Thrown \<and> empty_port (str ''http://h:'')"
  using uri_create_fails_at_ports [OF empty_port_examples(1)] empty_port_examples(1) by simp

section \<open>A path without an authority\<close>

lemma path_saved_behind_slashes:
  "list_all (\<lambda>x. list_all (\<lambda>m. Save_path \<in> set (fst m) \<longrightarrow> slashed_state (fst x)) (leaves (snd x))) uri_table"
  by (simp add: uri_table_def) (simp add: uri_st_defs uri_tr_defs check_defs)

lemma run_acts_path:
  "run_acts (uri_exec t) as p r = Inr r' \<Longrightarrow> Save_path \<notin> set as \<Longrightarrow> u_path (ur_uri r') = u_path (ur_uri r)"
proof (induction as arbitrary: r)
  case (Cons a as)
  then obtain r1 where r1: "uri_exec t a p r = Inr r1" "run_acts (uri_exec t) as p r1 = Inr r'"
    by (auto simp: bindE_Inr_iff)
  have "u_path (ur_uri r1) = u_path (ur_uri r)"
    using r1(1) Cons.prems(2)
    by (cases a) (auto simp: bindE_Inr_iff unmark_def split: if_splits option.splits)
  with Cons.IH [OF r1(2)] Cons.prems(2) show ?case by simp
qed simp

definition path_ok :: "int \<Rightarrow> bytes \<Rightarrow> uri_run \<Rightarrow> bool" where
  "path_ok cs rd r \<longleftrightarrow>
     uri_ok cs rd r \<and> (u_path (ur_uri r) \<noteq> [] \<longrightarrow> (\<exists>a b. rd = a @ str ''://'' @ b))"

lemma path_ok_step:
  assumes ok: "path_ok cs rd r"
    and m: "switch_cs (m_wide (uri_machine t)) (m_table (uri_machine t)) cs (sint b) = Some (as, cs')"
    and run: "run_acts (m_exec (uri_machine t)) as (length rd) r = Inr r'" and cs': "cs' \<noteq> 0"
  shows "path_ok cs' (rd @ [b]) r'"
proof -
  have "Save_path \<in> set as \<longrightarrow> slashed_state cs"
    using table_leavesD [OF path_saved_behind_slashes m [simplified]] by simp
  then have "\<exists>a b. rd = a @ str ''://'' @ b" if "u_path (ur_uri r') \<noteq> []"
    using ok run run_acts_path [of t as "length rd" r r'] that
    by (cases "Save_path \<in> set as") (auto simp: path_ok_def uri_ok_def)
  then have "\<exists>a c. rd @ [b] = a @ str ''://'' @ c" if "u_path (ur_uri r') \<noteq> []"
    using that by (metis append.assoc)
  then show ?thesis
    using uri_ok_step [OF _ m run cs'] ok by (auto simp: path_ok_def)
qed

interpretation path_runs: machine_invariant "uri_machine t" path_ok "\<lambda>_ _ _. True" for t
  by unfold_locales (rule path_ok_step TrueI; assumption)+

text \<open>
  A reference without an authority (\<open>/a/b\<close>, \<open>a/b?x\<close>, \<open>http:/a\<close>) is accepted, but its path is not stored:
  only a text that contains \<open>://\<close> gives a URI with a path, every other URI answers \<open>getPath\<close> with the root.
\<close>

theorem path_needs_authority:
  assumes "Uri_Create t = Inr (Some u)" and "\<nexists>a b. t = a @ str ''://'' @ b"
  shows "uri_getPath u = str ''/''"
proof -
  let ?r = "\<lparr>ur_uri = new_Uri, ur_mark = None\<rparr>"
  have start: "path_ok 451 [] ?r"
    by (simp add: path_ok_def uri_ok_def check_defs new_Uri_def)
  obtain x where x: "run (uri_machine t) 451 0 t ?r = Inr x" "finish_uri t x = Inr (Some u)"
    using assms(1) unfolding Uri_Create_def bindE_Inr_iff by blast
  obtain cs p r where "x = (cs, p, r)" by (cases x)
  with x have run: "run (uri_machine t) 451 0 t ?r = Inr (cs, p, r)" "finish_uri t (cs, p, r) = Inr (Some u)"
    by auto
  then have cs: "cs \<noteq> 0" by (cases "cs = 0") auto
  obtain r' where u: "u = ur_uri r'"
    and r': "p = length t \<and> run_acts (uri_exec t) (uri_eof cs) p r = Inr r' \<or> r' = r"
    using run(2) cs by (cases "p = length t") (auto simp: bindE_Inr_iff split: if_splits)
  obtain n where n: "n \<le> length t" "p = n" "path_ok cs (take n t) r"
    using path_runs.run_ok [OF start, of t t cs p r] run(1) cs by auto
  have path: "u_path (ur_uri r) = []"
  proof (rule ccontr)
    assume "u_path (ur_uri r) \<noteq> []"
    then obtain a b where "take n t = a @ str ''://'' @ b"
      using n(3) by (auto simp: path_ok_def)
    then have "t = a @ str ''://'' @ (b @ drop n t)"
      by (metis append.assoc append_take_drop_id)
    then show False using assms(2) by blast
  qed
  show ?thesis
  proof (cases "Save_path \<in> set (uri_eof cs) \<and> p = length t")
    case True
    then have "slashed_state cs"
      using eof_ok [of cs] by (simp add: eof_ok_def)
    then show ?thesis
      using n True assms(2) by (auto simp: path_ok_def uri_ok_def)
  next
    case False
    then have "u_path u = []"
      using r' u path run_acts_path [of t "uri_eof cs" p r r'] by auto
    then show ?thesis by (simp add: uri_getPath_def)
  qed
qed

lemma relative_moves:
  "moves_to [] uri_table [451] [(0x2F, 0x2F)] [] [458]"
  "moves_to [] uri_table [458] [(0x61, 0x61)] [] [455]"
  by (simp_all add: moves_to_def uri_table_def)
    (simp_all add: row_all_def uri_st_defs uri_tr_defs)

lemma relative_example: "Uri_Create [0x2F, 0x61] = Inr (Some new_Uri)"
proof -
  let ?M = "uri_machine [0x2F, 0x61]" and ?r = "\<lparr>ur_uri = new_Uri, ur_mark = None\<rparr>"
  have "run ?M 451 0 [0x2F, 0x61] ?r = run ?M 458 1 [0x61] ?r"
    using run_move [OF regular_uri, of _ "[451]" "[(0x2F, 0x2F)]" "[]" "[458]" 451 "0x2F" 0 "[0x61]" ?r]
      relative_moves(1) by (simp add: in_ranges_def)
  also have "\<dots> = Inr (455, 2, ?r)"
    using run_move [OF regular_uri, of _ "[458]" "[(0x61, 0x61)]" "[]" "[455]" 458 "0x61" 1 "[]" ?r]
      relative_moves(2) by (simp add: in_ranges_def numeral_2_eq_2)
  finally show ?thesis
    by (simp add: Uri_Create_def uri_eof_def)
qed

lemma path_needs_authority_witness:
  "Uri_Create (str ''/a'') = Inr (Some new_Uri) \<and> uri_getPath new_Uri = str ''/''"
proof -
  have "\<nexists>a b. [0x2F, 0x61] = a @ str ''://'' @ b"
  proof
    assume "\<exists>a b. [0x2F, 0x61] = a @ str ''://'' @ b"
    then obtain a b where "[0x2F, 0x61] = a @ str ''://'' @ b" by blast
    then have "length [0x2F, 0x61 :: u8] = length (a @ str ''://'' @ b)" by metis
    then show False by (simp add: str_def)
  qed
  from path_needs_authority [OF relative_example this] show ?thesis
    using relative_example by (simp add: str_def)
qed

end
