(* ===== verification/HttpStates.thy ===== *)
theory HttpStates
  imports Ragel
begin

text \<open>
  States and transitions of the state machine of the request parser
  (\<open>src/http/http11_parser.rl.cpp\<close>), one definition for each \<open>case\<close> and each label
  \<open>tr\<close> of the code: first the transitions, then the states with their tests as the code nests
  them. The names of the actions are those of the grammar.
\<close>

datatype http_action =
    Mark | Start_field | Write_field | Start_value | Write_value | Request_method | Request_uri | Fragment |
    Start_query | Query_string | Http_version | Request_path | Done | Xml | Json

section \<open>Transitions\<close>

definition http_tr0 :: "http_action move" where
  "http_tr0 = ([Mark], 2)"

definition http_tr4 :: "http_action move" where
  "http_tr4 = ([Request_method], 3)"

definition http_tr6 :: "http_action move" where
  "http_tr6 = ([Mark, Request_path, Request_uri], 4)"

definition http_tr37 :: "http_action move" where
  "http_tr37 = ([Request_path, Request_uri], 4)"

definition http_tr43 :: "http_action move" where
  "http_tr43 = ([Mark, Fragment], 4)"

definition http_tr46 :: "http_action move" where
  "http_tr46 = ([Fragment], 4)"

definition http_tr53 :: "http_action move" where
  "http_tr53 = ([Start_query, Query_string, Request_uri], 4)"

definition http_tr57 :: "http_action move" where
  "http_tr57 = ([Query_string, Request_uri], 4)"

definition http_tr13 :: "http_action move" where
  "http_tr13 = ([Mark], 5)"

definition http_tr21 :: "http_action move" where
  "http_tr21 = ([Http_version], 13)"

definition http_tr30 :: "http_action move" where
  "http_tr30 = ([Start_value, Write_value], 13)"

definition http_tr33 :: "http_action move" where
  "http_tr33 = ([Write_value], 13)"

definition http_tr23 :: "http_action move" where
  "http_tr23 = ([Start_field], 14)"

definition http_tr27 :: "http_action move" where
  "http_tr27 = ([Write_field], 15)"

definition http_tr29 :: "http_action move" where
  "http_tr29 = ([Start_value], 15)"

definition http_tr28 :: "http_action move" where
  "http_tr28 = ([Start_value], 16)"

definition http_tr22 :: "http_action move" where
  "http_tr22 = ([Http_version], 17)"

definition http_tr31 :: "http_action move" where
  "http_tr31 = ([Start_value, Write_value], 17)"

definition http_tr34 :: "http_action move" where
  "http_tr34 = ([Write_value], 17)"

definition http_tr24 :: "http_action move" where
  "http_tr24 = ([Start_field, Done], 348)"

definition http_tr36 :: "http_action move" where
  "http_tr36 = ([Done], 348)"

definition http_tr25 :: "http_action move" where
  "http_tr25 = ([Start_field], 18)"

definition http_tr7 :: "http_action move" where
  "http_tr7 = ([Mark], 19)"

definition http_tr8 :: "http_action move" where
  "http_tr8 = ([Mark, Request_path, Request_uri], 20)"

definition http_tr39 :: "http_action move" where
  "http_tr39 = ([Request_path, Request_uri], 20)"

definition http_tr55 :: "http_action move" where
  "http_tr55 = ([Start_query, Query_string, Request_uri], 20)"

definition http_tr59 :: "http_action move" where
  "http_tr59 = ([Query_string, Request_uri], 20)"

definition http_tr44 :: "http_action move" where
  "http_tr44 = ([Mark], 21)"

definition http_tr45 :: "http_action move" where
  "http_tr45 = ([Mark], 22)"

definition http_tr9 :: "http_action move" where
  "http_tr9 = ([Mark], 24)"

definition http_tr203 :: "http_action move" where
  "http_tr203 = ([Mark], 26)"

definition http_tr204 :: "http_action move" where
  "http_tr204 = ([Mark], 27)"

definition http_tr11 :: "http_action move" where
  "http_tr11 = ([Mark, Request_path], 29)"

definition http_tr42 :: "http_action move" where
  "http_tr42 = ([Request_path], 29)"

definition http_tr54 :: "http_action move" where
  "http_tr54 = ([Start_query], 30)"

definition http_tr56 :: "http_action move" where
  "http_tr56 = ([Start_query], 31)"

definition http_tr10 :: "http_action move" where
  "http_tr10 = ([Mark], 33)"

definition http_tr12 :: "http_action move" where
  "http_tr12 = ([Mark], 173)"

definition http_tr2 :: "http_action move" where
  "http_tr2 = ([Mark], 194)"

definition http_tr224 :: "http_action move" where
  "http_tr224 = ([Request_path], 196)"

definition http_tr227 :: "http_action move" where
  "http_tr227 = ([Xml, Done], 349)"

definition http_tr235 :: "http_action move" where
  "http_tr235 = ([Json, Done], 349)"

definition http_tr3 :: "http_action move" where
  "http_tr3 = ([Mark], 198)"

definition http_tr228 :: "http_action move" where
  "http_tr228 = ([Request_path], 199)"

definition http_tr232 :: "http_action move" where
  "http_tr232 = ([Mark], 200)"

section \<open>States\<close>

definition http_st1 :: "http_action move test" where
  "http_st1 = Switch [(60, http_tr2), (64, http_tr3)] (IfGreater 57 (IfIn 65 90 (Goto http_tr0) (Goto (to 0)))
    (IfGeq 48 (Goto http_tr0) (Goto (to 0))))"

definition http_st2 :: "http_action move test" where
  "http_st2 = IfEq 32 (Goto http_tr4) (IfGreater 57 (IfIn 65 90 (Goto (to 175)) (Goto (to 0))) (IfGeq 48 (Goto
    (to 175)) (Goto (to 0))))"

definition http_st3 :: "http_action move test" where
  "http_st3 = Widen (Switch [(32, http_tr6), (33, http_tr7), (35, http_tr8), (37, http_tr9), (47, http_tr10),
    (59, http_tr7), (61, http_tr7), (63, http_tr11), (64, http_tr7), (95, http_tr7), (126, http_tr7), (606,
    http_tr7), (635, http_tr7), (637, http_tr7)] (IfLess 65 (IfIn 36 57 (Goto http_tr7) (Goto (to 0)))
    (IfGreater 90 (IfIn 97 122 (Goto http_tr12) (Goto (to 0))) (Goto http_tr12))))"

definition http_st4 :: "http_action move test" where
  "http_st4 = IfEq 72 (Goto http_tr13) (Goto (to 0))"

definition http_st5 :: "http_action move test" where
  "http_st5 = IfEq 84 (Goto (to 6)) (Goto (to 0))"

definition http_st6 :: "http_action move test" where
  "http_st6 = IfEq 84 (Goto (to 7)) (Goto (to 0))"

definition http_st7 :: "http_action move test" where
  "http_st7 = IfEq 80 (Goto (to 8)) (Goto (to 0))"

definition http_st8 :: "http_action move test" where
  "http_st8 = IfEq 47 (Goto (to 9)) (Goto (to 0))"

definition http_st9 :: "http_action move test" where
  "http_st9 = IfEq 49 (Goto (to 10)) (Goto (to 0))"

definition http_st10 :: "http_action move test" where
  "http_st10 = IfEq 46 (Goto (to 11)) (Goto (to 0))"

definition http_st11 :: "http_action move test" where
  "http_st11 = IfIn 48 49 (Goto (to 12)) (Goto (to 0))"

definition http_st12 :: "http_action move test" where
  "http_st12 = Switch [(10, http_tr21), (13, http_tr22)] (Goto (to 0))"

definition http_st13 :: "http_action move test" where
  "http_st13 = Switch [(10, http_tr24), (13, http_tr25), (33, http_tr23), (124, http_tr23), (126, http_tr23)]
    (IfLess 42 (IfLess 11 (IfIn 1 8 (Goto http_tr23) (Goto (to 0))) (IfGreater 31 (IfIn 35 39 (Goto http_tr23)
    (Goto (to 0))) (Goto http_tr23))) (IfGreater 43 (IfLess 48 (IfIn 45 46 (Goto http_tr23) (Goto (to 0)))
    (IfGreater 57 (IfGreater 90 (IfIn 94 122 (Goto http_tr23) (Goto (to 0))) (IfGeq 65 (Goto http_tr23) (Goto
    (to 0)))) (Goto http_tr23))) (Goto http_tr23)))"

definition http_st14 :: "http_action move test" where
  "http_st14 = Switch [(33, to 14), (58, http_tr27), (124, to 14), (126, to 14)] (IfLess 42 (IfLess 10 (IfIn 1
    8 (Goto (to 14)) (Goto (to 0))) (IfGreater 31 (IfIn 35 39 (Goto (to 14)) (Goto (to 0))) (Goto (to 14))))
    (IfGreater 43 (IfLess 48 (IfIn 45 46 (Goto (to 14)) (Goto (to 0))) (IfGreater 57 (IfGreater 90 (IfIn 94 122
    (Goto (to 14)) (Goto (to 0))) (IfGeq 65 (Goto (to 14)) (Goto (to 0)))) (Goto (to 14)))) (Goto (to 14))))"

definition http_st15 :: "http_action move test" where
  "http_st15 = Switch [(0, to 0), (9, http_tr29), (10, http_tr30), (13, http_tr31), (32, http_tr29), (127, to
    0)] (Goto http_tr28)"

definition http_st16 :: "http_action move test" where
  "http_st16 = Switch [(0, to 0), (10, http_tr33), (13, http_tr34), (127, to 0)] (Goto (to 16))"

definition http_st17 :: "http_action move test" where
  "http_st17 = IfEq 10 (Goto (to 13)) (Goto (to 0))"

definition http_st348 :: "http_action move test" where
  "http_st348 = Switch [(33, to 14), (58, http_tr27), (124, to 14), (126, to 14)] (IfLess 42 (IfLess 10 (IfIn
    1 8 (Goto (to 14)) (Goto (to 0))) (IfGreater 31 (IfIn 35 39 (Goto (to 14)) (Goto (to 0))) (Goto (to 14))))
    (IfGreater 43 (IfLess 48 (IfIn 45 46 (Goto (to 14)) (Goto (to 0))) (IfGreater 57 (IfGreater 90 (IfIn 94 122
    (Goto (to 14)) (Goto (to 0))) (IfGeq 65 (Goto (to 14)) (Goto (to 0)))) (Goto (to 14)))) (Goto (to 14))))"

definition http_st18 :: "http_action move test" where
  "http_st18 = Switch [(10, http_tr36), (33, to 14), (58, http_tr27), (124, to 14), (126, to 14)] (IfLess 42
    (IfLess 11 (IfIn 1 8 (Goto (to 14)) (Goto (to 0))) (IfGreater 31 (IfIn 35 39 (Goto (to 14)) (Goto (to 0)))
    (Goto (to 14)))) (IfGreater 43 (IfLess 48 (IfIn 45 46 (Goto (to 14)) (Goto (to 0))) (IfGreater 57 (IfGreater
    90 (IfIn 94 122 (Goto (to 14)) (Goto (to 0))) (IfGeq 65 (Goto (to 14)) (Goto (to 0)))) (Goto (to 14))))
    (Goto (to 14))))"

definition http_st19 :: "http_action move test" where
  "http_st19 = Widen (Switch [(32, http_tr37), (33, to 19), (35, http_tr39), (37, to 24), (47, to 26), (59, to
    19), (61, to 19), (63, http_tr42), (95, to 19), (126, to 19), (606, to 19), (635, to 19), (637, to 19)]
    (IfLess 64 (IfIn 36 57 (Goto (to 19)) (Goto (to 0))) (IfGreater 90 (IfIn 97 122 (Goto (to 19)) (Goto (to
    0))) (Goto (to 19)))))"

definition http_st20 :: "http_action move test" where
  "http_st20 = Widen (Switch [(32, http_tr43), (33, http_tr44), (37, http_tr45), (61, http_tr44), (95,
    http_tr44), (126, http_tr44), (606, http_tr44), (635, http_tr44), (637, http_tr44)] (IfLess 63 (IfIn 36 59
    (Goto http_tr44) (Goto (to 0))) (IfGreater 90 (IfIn 97 122 (Goto http_tr44) (Goto (to 0))) (Goto
    http_tr44))))"

definition http_st21 :: "http_action move test" where
  "http_st21 = Widen (Switch [(32, http_tr46), (33, to 21), (37, to 22), (61, to 21), (95, to 21), (126, to
    21), (606, to 21), (635, to 21), (637, to 21)] (IfLess 63 (IfIn 36 59 (Goto (to 21)) (Goto (to 0)))
    (IfGreater 90 (IfIn 97 122 (Goto (to 21)) (Goto (to 0))) (Goto (to 21)))))"

definition http_st22 :: "http_action move test" where
  "http_st22 = IfLess 65 (IfIn 48 57 (Goto (to 23)) (Goto (to 0))) (IfGreater 70 (IfIn 97 102 (Goto (to 23))
    (Goto (to 0))) (Goto (to 23)))"

definition http_st23 :: "http_action move test" where
  "http_st23 = IfLess 65 (IfIn 48 57 (Goto (to 21)) (Goto (to 0))) (IfGreater 70 (IfIn 97 102 (Goto (to 21))
    (Goto (to 0))) (Goto (to 21)))"

definition http_st24 :: "http_action move test" where
  "http_st24 = IfLess 65 (IfIn 48 57 (Goto (to 25)) (Goto (to 0))) (IfGreater 70 (IfIn 97 102 (Goto (to 25))
    (Goto (to 0))) (Goto (to 25)))"

definition http_st25 :: "http_action move test" where
  "http_st25 = IfLess 65 (IfIn 48 57 (Goto (to 19)) (Goto (to 0))) (IfGreater 70 (IfIn 97 102 (Goto (to 19))
    (Goto (to 0))) (Goto (to 19)))"

definition http_st26 :: "http_action move test" where
  "http_st26 = Widen (Switch [(32, http_tr37), (33, to 26), (35, http_tr39), (37, to 27), (61, to 26), (63,
    http_tr42), (95, to 26), (126, to 26), (606, to 26), (635, to 26), (637, to 26)] (IfLess 64 (IfIn 36 59
    (Goto (to 26)) (Goto (to 0))) (IfGreater 90 (IfIn 97 122 (Goto (to 26)) (Goto (to 0))) (Goto (to 26)))))"

definition http_st27 :: "http_action move test" where
  "http_st27 = IfLess 65 (IfIn 48 57 (Goto (to 28)) (Goto (to 0))) (IfGreater 70 (IfIn 97 102 (Goto (to 28))
    (Goto (to 0))) (Goto (to 28)))"

definition http_st28 :: "http_action move test" where
  "http_st28 = IfLess 65 (IfIn 48 57 (Goto (to 26)) (Goto (to 0))) (IfGreater 70 (IfIn 97 102 (Goto (to 26))
    (Goto (to 0))) (Goto (to 26)))"

definition http_st29 :: "http_action move test" where
  "http_st29 = Widen (Switch [(32, http_tr53), (33, http_tr54), (35, http_tr55), (37, http_tr56), (61,
    http_tr54), (95, http_tr54), (126, http_tr54), (606, http_tr54), (635, http_tr54), (637, http_tr54)] (IfLess
    63 (IfIn 36 59 (Goto http_tr54) (Goto (to 0))) (IfGreater 90 (IfIn 97 122 (Goto http_tr54) (Goto (to 0)))
    (Goto http_tr54))))"

definition http_st30 :: "http_action move test" where
  "http_st30 = Widen (Switch [(32, http_tr57), (33, to 30), (35, http_tr59), (37, to 31), (61, to 30), (95, to
    30), (126, to 30), (606, to 30), (635, to 30), (637, to 30)] (IfLess 63 (IfIn 36 59 (Goto (to 30)) (Goto (to
    0))) (IfGreater 90 (IfIn 97 122 (Goto (to 30)) (Goto (to 0))) (Goto (to 30)))))"

definition http_st31 :: "http_action move test" where
  "http_st31 = IfLess 65 (IfIn 48 57 (Goto (to 32)) (Goto (to 0))) (IfGreater 70 (IfIn 97 102 (Goto (to 32))
    (Goto (to 0))) (Goto (to 32)))"

definition http_st32 :: "http_action move test" where
  "http_st32 = IfLess 65 (IfIn 48 57 (Goto (to 30)) (Goto (to 0))) (IfGreater 70 (IfIn 97 102 (Goto (to 30))
    (Goto (to 0))) (Goto (to 30)))"

definition http_st33 :: "http_action move test" where
  "http_st33 = Widen (Switch [(32, http_tr37), (33, to 26), (35, http_tr39), (37, to 27), (47, to 34), (61, to
    26), (63, http_tr42), (95, to 26), (126, to 26), (606, to 26), (635, to 26), (637, to 26)] (IfLess 64 (IfIn
    36 59 (Goto (to 26)) (Goto (to 0))) (IfGreater 90 (IfIn 97 122 (Goto (to 26)) (Goto (to 0))) (Goto (to
    26)))))"

definition http_st34 :: "http_action move test" where
  "http_st34 = Widen (Switch [(32, http_tr37), (33, to 35), (35, http_tr39), (37, to 36), (47, to 26), (58, to
    38), (61, to 35), (63, http_tr42), (64, to 42), (91, to 47), (95, to 35), (126, to 35), (606, to 35), (635,
    to 35), (637, to 35)] (IfLess 65 (IfIn 36 59 (Goto (to 35)) (Goto (to 0))) (IfGreater 90 (IfIn 97 122 (Goto
    (to 35)) (Goto (to 0))) (Goto (to 35)))))"

definition http_st35 :: "http_action move test" where
  "http_st35 = Widen (Switch [(32, http_tr37), (33, to 35), (35, http_tr39), (37, to 36), (47, to 26), (58, to
    38), (61, to 35), (63, http_tr42), (64, to 42), (95, to 35), (126, to 35), (606, to 35), (635, to 35), (637,
    to 35)] (IfLess 65 (IfIn 36 59 (Goto (to 35)) (Goto (to 0))) (IfGreater 90 (IfIn 97 122 (Goto (to 35)) (Goto
    (to 0))) (Goto (to 35)))))"

definition http_st36 :: "http_action move test" where
  "http_st36 = IfLess 65 (IfIn 48 57 (Goto (to 37)) (Goto (to 0))) (IfGreater 70 (IfIn 97 102 (Goto (to 37))
    (Goto (to 0))) (Goto (to 37)))"

definition http_st37 :: "http_action move test" where
  "http_st37 = IfLess 65 (IfIn 48 57 (Goto (to 35)) (Goto (to 0))) (IfGreater 70 (IfIn 97 102 (Goto (to 35))
    (Goto (to 0))) (Goto (to 35)))"

definition http_st38 :: "http_action move test" where
  "http_st38 = Widen (Switch [(32, http_tr37), (33, to 39), (35, http_tr39), (37, to 40), (47, to 26), (61, to
    39), (63, http_tr42), (64, to 42), (95, to 39), (126, to 39), (606, to 39), (635, to 39), (637, to 39)]
    (IfLess 58 (IfGreater 46 (IfIn 48 57 (Goto (to 38)) (Goto (to 0))) (IfGeq 36 (Goto (to 39)) (Goto (to 0))))
    (IfGreater 59 (IfGreater 90 (IfIn 97 122 (Goto (to 39)) (Goto (to 0))) (IfGeq 65 (Goto (to 39)) (Goto (to
    0)))) (Goto (to 39)))))"

definition http_st39 :: "http_action move test" where
  "http_st39 = Widen (Switch [(33, to 39), (37, to 40), (61, to 39), (64, to 42), (95, to 39), (126, to 39),
    (606, to 39), (635, to 39), (637, to 39)] (IfLess 48 (IfIn 36 46 (Goto (to 39)) (Goto (to 0))) (IfGreater 59
    (IfGreater 90 (IfIn 97 122 (Goto (to 39)) (Goto (to 0))) (IfGeq 65 (Goto (to 39)) (Goto (to 0)))) (Goto (to
    39)))))"

definition http_st40 :: "http_action move test" where
  "http_st40 = IfLess 65 (IfIn 48 57 (Goto (to 41)) (Goto (to 0))) (IfGreater 70 (IfIn 97 102 (Goto (to 41))
    (Goto (to 0))) (Goto (to 41)))"

definition http_st41 :: "http_action move test" where
  "http_st41 = IfLess 65 (IfIn 48 57 (Goto (to 39)) (Goto (to 0))) (IfGreater 70 (IfIn 97 102 (Goto (to 39))
    (Goto (to 0))) (Goto (to 39)))"

definition http_st42 :: "http_action move test" where
  "http_st42 = Widen (Switch [(32, http_tr37), (33, to 43), (35, http_tr39), (37, to 44), (47, to 26), (58, to
    46), (61, to 43), (63, http_tr42), (91, to 47), (95, to 43), (126, to 43), (606, to 43), (635, to 43), (637,
    to 43)] (IfLess 65 (IfIn 36 59 (Goto (to 43)) (Goto (to 0))) (IfGreater 90 (IfIn 97 122 (Goto (to 43)) (Goto
    (to 0))) (Goto (to 43)))))"

definition http_st43 :: "http_action move test" where
  "http_st43 = Widen (Switch [(32, http_tr37), (33, to 43), (35, http_tr39), (37, to 44), (47, to 26), (58, to
    46), (61, to 43), (63, http_tr42), (95, to 43), (126, to 43), (606, to 43), (635, to 43), (637, to 43)]
    (IfLess 65 (IfIn 36 59 (Goto (to 43)) (Goto (to 0))) (IfGreater 90 (IfIn 97 122 (Goto (to 43)) (Goto (to
    0))) (Goto (to 43)))))"

definition http_st44 :: "http_action move test" where
  "http_st44 = IfLess 65 (IfIn 48 57 (Goto (to 45)) (Goto (to 0))) (IfGreater 70 (IfIn 97 102 (Goto (to 45))
    (Goto (to 0))) (Goto (to 45)))"

definition http_st45 :: "http_action move test" where
  "http_st45 = IfLess 65 (IfIn 48 57 (Goto (to 43)) (Goto (to 0))) (IfGreater 70 (IfIn 97 102 (Goto (to 43))
    (Goto (to 0))) (Goto (to 43)))"

definition http_st46 :: "http_action move test" where
  "http_st46 = Switch [(32, http_tr37), (35, http_tr39), (47, to 26), (63, http_tr42)] (IfIn 48 57 (Goto (to
    46)) (Goto (to 0)))"

definition http_st47 :: "http_action move test" where
  "http_st47 = Switch [(6, to 48), (58, to 167), (118, to 169)] (IfLess 65 (IfIn 48 57 (Goto (to 91)) (Goto
    (to 0))) (IfGreater 70 (IfIn 97 102 (Goto (to 91)) (Goto (to 0))) (Goto (to 91))))"

definition http_st48 :: "http_action move test" where
  "http_st48 = IfLess 65 (IfIn 48 57 (Goto (to 49)) (Goto (to 0))) (IfGreater 70 (IfIn 97 102 (Goto (to 49))
    (Goto (to 0))) (Goto (to 49)))"

definition http_st49 :: "http_action move test" where
  "http_st49 = IfEq 58 (Goto (to 53)) (IfLess 65 (IfIn 48 57 (Goto (to 50)) (Goto (to 0))) (IfGreater 70 (IfIn
    97 102 (Goto (to 50)) (Goto (to 0))) (Goto (to 50))))"

definition http_st50 :: "http_action move test" where
  "http_st50 = IfEq 58 (Goto (to 53)) (IfLess 65 (IfIn 48 57 (Goto (to 51)) (Goto (to 0))) (IfGreater 70 (IfIn
    97 102 (Goto (to 51)) (Goto (to 0))) (Goto (to 51))))"

definition http_st51 :: "http_action move test" where
  "http_st51 = IfEq 58 (Goto (to 53)) (IfLess 65 (IfIn 48 57 (Goto (to 52)) (Goto (to 0))) (IfGreater 70 (IfIn
    97 102 (Goto (to 52)) (Goto (to 0))) (Goto (to 52))))"

definition http_st52 :: "http_action move test" where
  "http_st52 = IfEq 58 (Goto (to 53)) (Goto (to 0))"

definition http_st53 :: "http_action move test" where
  "http_st53 = Switch [(49, to 84), (50, to 87)] (IfLess 65 (IfIn 48 57 (Goto (to 54)) (Goto (to 0)))
    (IfGreater 70 (IfIn 97 102 (Goto (to 90)) (Goto (to 0))) (Goto (to 90))))"

definition http_st54 :: "http_action move test" where
  "http_st54 = Switch [(46, to 55), (58, to 80)] (IfLess 65 (IfIn 48 57 (Goto (to 77)) (Goto (to 0)))
    (IfGreater 70 (IfIn 97 102 (Goto (to 77)) (Goto (to 0))) (Goto (to 77))))"

definition http_st55 :: "http_action move test" where
  "http_st55 = Switch [(49, to 72), (50, to 74)] (IfIn 48 57 (Goto (to 56)) (Goto (to 0)))"

definition http_st56 :: "http_action move test" where
  "http_st56 = IfEq 46 (Goto (to 57)) (Goto (to 0))"

definition http_st57 :: "http_action move test" where
  "http_st57 = Switch [(49, to 67), (50, to 69)] (IfIn 48 57 (Goto (to 58)) (Goto (to 0)))"

definition http_st58 :: "http_action move test" where
  "http_st58 = IfEq 46 (Goto (to 59)) (Goto (to 0))"

definition http_st59 :: "http_action move test" where
  "http_st59 = Switch [(49, to 62), (50, to 64)] (IfIn 48 57 (Goto (to 60)) (Goto (to 0)))"

definition http_st60 :: "http_action move test" where
  "http_st60 = IfEq 93 (Goto (to 61)) (Goto (to 0))"

definition http_st61 :: "http_action move test" where
  "http_st61 = Switch [(32, http_tr37), (35, http_tr39), (47, to 26), (58, to 46), (63, http_tr42)] (Goto (to
    0))"

definition http_st62 :: "http_action move test" where
  "http_st62 = IfEq 93 (Goto (to 61)) (IfIn 48 57 (Goto (to 63)) (Goto (to 0)))"

definition http_st63 :: "http_action move test" where
  "http_st63 = IfEq 93 (Goto (to 61)) (IfIn 48 57 (Goto (to 60)) (Goto (to 0)))"

definition http_st64 :: "http_action move test" where
  "http_st64 = Switch [(48, to 65), (53, to 66), (93, to 61)] (Goto (to 0))"

definition http_st65 :: "http_action move test" where
  "http_st65 = IfIn 48 57 (Goto (to 60)) (Goto (to 0))"

definition http_st66 :: "http_action move test" where
  "http_st66 = IfEq 48 (Goto (to 60)) (Goto (to 0))"

definition http_st67 :: "http_action move test" where
  "http_st67 = IfEq 46 (Goto (to 59)) (IfIn 48 57 (Goto (to 68)) (Goto (to 0)))"

definition http_st68 :: "http_action move test" where
  "http_st68 = IfEq 46 (Goto (to 59)) (IfIn 48 57 (Goto (to 58)) (Goto (to 0)))"

definition http_st69 :: "http_action move test" where
  "http_st69 = Switch [(46, to 59), (48, to 70), (53, to 71)] (Goto (to 0))"

definition http_st70 :: "http_action move test" where
  "http_st70 = IfIn 48 57 (Goto (to 58)) (Goto (to 0))"

definition http_st71 :: "http_action move test" where
  "http_st71 = IfEq 48 (Goto (to 58)) (Goto (to 0))"

definition http_st72 :: "http_action move test" where
  "http_st72 = IfEq 46 (Goto (to 57)) (IfIn 48 57 (Goto (to 73)) (Goto (to 0)))"

definition http_st73 :: "http_action move test" where
  "http_st73 = IfEq 46 (Goto (to 57)) (IfIn 48 57 (Goto (to 56)) (Goto (to 0)))"

definition http_st74 :: "http_action move test" where
  "http_st74 = Switch [(46, to 57), (48, to 75), (53, to 76)] (Goto (to 0))"

definition http_st75 :: "http_action move test" where
  "http_st75 = IfIn 48 57 (Goto (to 56)) (Goto (to 0))"

definition http_st76 :: "http_action move test" where
  "http_st76 = IfEq 48 (Goto (to 56)) (Goto (to 0))"

definition http_st77 :: "http_action move test" where
  "http_st77 = IfEq 58 (Goto (to 80)) (IfLess 65 (IfIn 48 57 (Goto (to 78)) (Goto (to 0))) (IfGreater 70 (IfIn
    97 102 (Goto (to 78)) (Goto (to 0))) (Goto (to 78))))"

definition http_st78 :: "http_action move test" where
  "http_st78 = IfEq 58 (Goto (to 80)) (IfLess 65 (IfIn 48 57 (Goto (to 79)) (Goto (to 0))) (IfGreater 70 (IfIn
    97 102 (Goto (to 79)) (Goto (to 0))) (Goto (to 79))))"

definition http_st79 :: "http_action move test" where
  "http_st79 = IfEq 58 (Goto (to 80)) (Goto (to 0))"

definition http_st80 :: "http_action move test" where
  "http_st80 = IfLess 65 (IfIn 48 57 (Goto (to 81)) (Goto (to 0))) (IfGreater 70 (IfIn 97 102 (Goto (to 81))
    (Goto (to 0))) (Goto (to 81)))"

definition http_st81 :: "http_action move test" where
  "http_st81 = IfEq 93 (Goto (to 61)) (IfLess 65 (IfIn 48 57 (Goto (to 82)) (Goto (to 0))) (IfGreater 70 (IfIn
    97 102 (Goto (to 82)) (Goto (to 0))) (Goto (to 82))))"

definition http_st82 :: "http_action move test" where
  "http_st82 = IfEq 93 (Goto (to 61)) (IfLess 65 (IfIn 48 57 (Goto (to 83)) (Goto (to 0))) (IfGreater 70 (IfIn
    97 102 (Goto (to 83)) (Goto (to 0))) (Goto (to 83))))"

definition http_st83 :: "http_action move test" where
  "http_st83 = IfEq 93 (Goto (to 61)) (IfLess 65 (IfIn 48 57 (Goto (to 60)) (Goto (to 0))) (IfGreater 70 (IfIn
    97 102 (Goto (to 60)) (Goto (to 0))) (Goto (to 60))))"

definition http_st84 :: "http_action move test" where
  "http_st84 = Switch [(46, to 55), (58, to 80)] (IfLess 65 (IfIn 48 57 (Goto (to 85)) (Goto (to 0)))
    (IfGreater 70 (IfIn 97 102 (Goto (to 77)) (Goto (to 0))) (Goto (to 77))))"

definition http_st85 :: "http_action move test" where
  "http_st85 = Switch [(46, to 55), (58, to 80)] (IfLess 65 (IfIn 48 57 (Goto (to 86)) (Goto (to 0)))
    (IfGreater 70 (IfIn 97 102 (Goto (to 78)) (Goto (to 0))) (Goto (to 78))))"

definition http_st86 :: "http_action move test" where
  "http_st86 = Switch [(46, to 55), (58, to 80)] (IfLess 65 (IfIn 48 57 (Goto (to 79)) (Goto (to 0)))
    (IfGreater 70 (IfIn 97 102 (Goto (to 79)) (Goto (to 0))) (Goto (to 79))))"

definition http_st87 :: "http_action move test" where
  "http_st87 = Switch [(46, to 55), (48, to 88), (53, to 89), (58, to 80)] (IfLess 65 (IfIn 49 57 (Goto (to
    77)) (Goto (to 0))) (IfGreater 70 (IfIn 97 102 (Goto (to 77)) (Goto (to 0))) (Goto (to 77))))"

definition http_st88 :: "http_action move test" where
  "http_st88 = IfEq 58 (Goto (to 80)) (IfLess 65 (IfIn 48 57 (Goto (to 86)) (Goto (to 0))) (IfGreater 70 (IfIn
    97 102 (Goto (to 78)) (Goto (to 0))) (Goto (to 78))))"

definition http_st89 :: "http_action move test" where
  "http_st89 = Switch [(48, to 86), (58, to 80)] (IfLess 65 (IfIn 49 57 (Goto (to 78)) (Goto (to 0)))
    (IfGreater 70 (IfIn 97 102 (Goto (to 78)) (Goto (to 0))) (Goto (to 78))))"

definition http_st90 :: "http_action move test" where
  "http_st90 = IfEq 58 (Goto (to 80)) (IfLess 65 (IfIn 48 57 (Goto (to 77)) (Goto (to 0))) (IfGreater 70 (IfIn
    97 102 (Goto (to 77)) (Goto (to 0))) (Goto (to 77))))"

definition http_st91 :: "http_action move test" where
  "http_st91 = IfEq 58 (Goto (to 95)) (IfLess 65 (IfIn 48 57 (Goto (to 92)) (Goto (to 0))) (IfGreater 70 (IfIn
    97 102 (Goto (to 92)) (Goto (to 0))) (Goto (to 92))))"

definition http_st92 :: "http_action move test" where
  "http_st92 = IfEq 58 (Goto (to 95)) (IfLess 65 (IfIn 48 57 (Goto (to 93)) (Goto (to 0))) (IfGreater 70 (IfIn
    97 102 (Goto (to 93)) (Goto (to 0))) (Goto (to 93))))"

definition http_st93 :: "http_action move test" where
  "http_st93 = IfEq 58 (Goto (to 95)) (IfLess 65 (IfIn 48 57 (Goto (to 94)) (Goto (to 0))) (IfGreater 70 (IfIn
    97 102 (Goto (to 94)) (Goto (to 0))) (Goto (to 94))))"

definition http_st94 :: "http_action move test" where
  "http_st94 = IfEq 58 (Goto (to 95)) (Goto (to 0))"

definition http_st95 :: "http_action move test" where
  "http_st95 = IfEq 58 (Goto (to 166)) (IfLess 65 (IfIn 48 57 (Goto (to 96)) (Goto (to 0))) (IfGreater 70
    (IfIn 97 102 (Goto (to 96)) (Goto (to 0))) (Goto (to 96))))"

definition http_st96 :: "http_action move test" where
  "http_st96 = IfEq 58 (Goto (to 100)) (IfLess 65 (IfIn 48 57 (Goto (to 97)) (Goto (to 0))) (IfGreater 70
    (IfIn 97 102 (Goto (to 97)) (Goto (to 0))) (Goto (to 97))))"

definition http_st97 :: "http_action move test" where
  "http_st97 = IfEq 58 (Goto (to 100)) (IfLess 65 (IfIn 48 57 (Goto (to 98)) (Goto (to 0))) (IfGreater 70
    (IfIn 97 102 (Goto (to 98)) (Goto (to 0))) (Goto (to 98))))"

definition http_st98 :: "http_action move test" where
  "http_st98 = IfEq 58 (Goto (to 100)) (IfLess 65 (IfIn 48 57 (Goto (to 99)) (Goto (to 0))) (IfGreater 70
    (IfIn 97 102 (Goto (to 99)) (Goto (to 0))) (Goto (to 99))))"

definition http_st99 :: "http_action move test" where
  "http_st99 = IfEq 58 (Goto (to 100)) (Goto (to 0))"

definition http_st100 :: "http_action move test" where
  "http_st100 = IfEq 58 (Goto (to 165)) (IfLess 65 (IfIn 48 57 (Goto (to 101)) (Goto (to 0))) (IfGreater 70
    (IfIn 97 102 (Goto (to 101)) (Goto (to 0))) (Goto (to 101))))"

definition http_st101 :: "http_action move test" where
  "http_st101 = IfEq 58 (Goto (to 105)) (IfLess 65 (IfIn 48 57 (Goto (to 102)) (Goto (to 0))) (IfGreater 70
    (IfIn 97 102 (Goto (to 102)) (Goto (to 0))) (Goto (to 102))))"

definition http_st102 :: "http_action move test" where
  "http_st102 = IfEq 58 (Goto (to 105)) (IfLess 65 (IfIn 48 57 (Goto (to 103)) (Goto (to 0))) (IfGreater 70
    (IfIn 97 102 (Goto (to 103)) (Goto (to 0))) (Goto (to 103))))"

definition http_st103 :: "http_action move test" where
  "http_st103 = IfEq 58 (Goto (to 105)) (IfLess 65 (IfIn 48 57 (Goto (to 104)) (Goto (to 0))) (IfGreater 70
    (IfIn 97 102 (Goto (to 104)) (Goto (to 0))) (Goto (to 104))))"

definition http_st104 :: "http_action move test" where
  "http_st104 = IfEq 58 (Goto (to 105)) (Goto (to 0))"

definition http_st105 :: "http_action move test" where
  "http_st105 = IfEq 58 (Goto (to 164)) (IfLess 65 (IfIn 48 57 (Goto (to 106)) (Goto (to 0))) (IfGreater 70
    (IfIn 97 102 (Goto (to 106)) (Goto (to 0))) (Goto (to 106))))"

definition http_st106 :: "http_action move test" where
  "http_st106 = IfEq 58 (Goto (to 110)) (IfLess 65 (IfIn 48 57 (Goto (to 107)) (Goto (to 0))) (IfGreater 70
    (IfIn 97 102 (Goto (to 107)) (Goto (to 0))) (Goto (to 107))))"

definition http_st107 :: "http_action move test" where
  "http_st107 = IfEq 58 (Goto (to 110)) (IfLess 65 (IfIn 48 57 (Goto (to 108)) (Goto (to 0))) (IfGreater 70
    (IfIn 97 102 (Goto (to 108)) (Goto (to 0))) (Goto (to 108))))"

definition http_st108 :: "http_action move test" where
  "http_st108 = IfEq 58 (Goto (to 110)) (IfLess 65 (IfIn 48 57 (Goto (to 109)) (Goto (to 0))) (IfGreater 70
    (IfIn 97 102 (Goto (to 109)) (Goto (to 0))) (Goto (to 109))))"

definition http_st109 :: "http_action move test" where
  "http_st109 = IfEq 58 (Goto (to 110)) (Goto (to 0))"

definition http_st110 :: "http_action move test" where
  "http_st110 = IfEq 58 (Goto (to 163)) (IfLess 65 (IfIn 48 57 (Goto (to 111)) (Goto (to 0))) (IfGreater 70
    (IfIn 97 102 (Goto (to 111)) (Goto (to 0))) (Goto (to 111))))"

definition http_st111 :: "http_action move test" where
  "http_st111 = IfEq 58 (Goto (to 115)) (IfLess 65 (IfIn 48 57 (Goto (to 112)) (Goto (to 0))) (IfGreater 70
    (IfIn 97 102 (Goto (to 112)) (Goto (to 0))) (Goto (to 112))))"

definition http_st112 :: "http_action move test" where
  "http_st112 = IfEq 58 (Goto (to 115)) (IfLess 65 (IfIn 48 57 (Goto (to 113)) (Goto (to 0))) (IfGreater 70
    (IfIn 97 102 (Goto (to 113)) (Goto (to 0))) (Goto (to 113))))"

definition http_st113 :: "http_action move test" where
  "http_st113 = IfEq 58 (Goto (to 115)) (IfLess 65 (IfIn 48 57 (Goto (to 114)) (Goto (to 0))) (IfGreater 70
    (IfIn 97 102 (Goto (to 114)) (Goto (to 0))) (Goto (to 114))))"

definition http_st114 :: "http_action move test" where
  "http_st114 = IfEq 58 (Goto (to 115)) (Goto (to 0))"

definition http_st115 :: "http_action move test" where
  "http_st115 = IfEq 58 (Goto (to 151)) (IfLess 65 (IfIn 48 57 (Goto (to 116)) (Goto (to 0))) (IfGreater 70
    (IfIn 97 102 (Goto (to 116)) (Goto (to 0))) (Goto (to 116))))"

definition http_st116 :: "http_action move test" where
  "http_st116 = IfEq 58 (Goto (to 120)) (IfLess 65 (IfIn 48 57 (Goto (to 117)) (Goto (to 0))) (IfGreater 70
    (IfIn 97 102 (Goto (to 117)) (Goto (to 0))) (Goto (to 117))))"

definition http_st117 :: "http_action move test" where
  "http_st117 = IfEq 58 (Goto (to 120)) (IfLess 65 (IfIn 48 57 (Goto (to 118)) (Goto (to 0))) (IfGreater 70
    (IfIn 97 102 (Goto (to 118)) (Goto (to 0))) (Goto (to 118))))"

definition http_st118 :: "http_action move test" where
  "http_st118 = IfEq 58 (Goto (to 120)) (IfLess 65 (IfIn 48 57 (Goto (to 119)) (Goto (to 0))) (IfGreater 70
    (IfIn 97 102 (Goto (to 119)) (Goto (to 0))) (Goto (to 119))))"

definition http_st119 :: "http_action move test" where
  "http_st119 = IfEq 58 (Goto (to 120)) (Goto (to 0))"

definition http_st120 :: "http_action move test" where
  "http_st120 = IfEq 58 (Goto (to 150)) (IfLess 65 (IfIn 48 57 (Goto (to 121)) (Goto (to 0))) (IfGreater 70
    (IfIn 97 102 (Goto (to 121)) (Goto (to 0))) (Goto (to 121))))"

definition http_st121 :: "http_action move test" where
  "http_st121 = IfEq 58 (Goto (to 125)) (IfLess 65 (IfIn 48 57 (Goto (to 122)) (Goto (to 0))) (IfGreater 70
    (IfIn 97 102 (Goto (to 122)) (Goto (to 0))) (Goto (to 122))))"

definition http_st122 :: "http_action move test" where
  "http_st122 = IfEq 58 (Goto (to 125)) (IfLess 65 (IfIn 48 57 (Goto (to 123)) (Goto (to 0))) (IfGreater 70
    (IfIn 97 102 (Goto (to 123)) (Goto (to 0))) (Goto (to 123))))"

definition http_st123 :: "http_action move test" where
  "http_st123 = IfEq 58 (Goto (to 125)) (IfLess 65 (IfIn 48 57 (Goto (to 124)) (Goto (to 0))) (IfGreater 70
    (IfIn 97 102 (Goto (to 124)) (Goto (to 0))) (Goto (to 124))))"

definition http_st124 :: "http_action move test" where
  "http_st124 = IfEq 58 (Goto (to 125)) (Goto (to 0))"

definition http_st125 :: "http_action move test" where
  "http_st125 = IfEq 58 (Goto (to 126)) (IfLess 65 (IfIn 48 57 (Goto (to 121)) (Goto (to 0))) (IfGreater 70
    (IfIn 97 102 (Goto (to 121)) (Goto (to 0))) (Goto (to 121))))"

definition http_st126 :: "http_action move test" where
  "http_st126 = Switch [(49, to 143), (50, to 146), (93, to 61)] (IfLess 48 (IfIn 2 3 (Goto (to 48)) (Goto (to
    0))) (IfGreater 57 (IfGreater 70 (IfIn 97 102 (Goto (to 149)) (Goto (to 0))) (IfGeq 65 (Goto (to 149)) (Goto
    (to 0)))) (Goto (to 127))))"

definition http_st127 :: "http_action move test" where
  "http_st127 = Switch [(46, to 55), (58, to 131), (93, to 61)] (IfLess 65 (IfIn 48 57 (Goto (to 128)) (Goto
    (to 0))) (IfGreater 70 (IfIn 97 102 (Goto (to 128)) (Goto (to 0))) (Goto (to 128))))"

definition http_st128 :: "http_action move test" where
  "http_st128 = Switch [(58, to 131), (93, to 61)] (IfLess 65 (IfIn 48 57 (Goto (to 129)) (Goto (to 0)))
    (IfGreater 70 (IfIn 97 102 (Goto (to 129)) (Goto (to 0))) (Goto (to 129))))"

definition http_st129 :: "http_action move test" where
  "http_st129 = Switch [(58, to 131), (93, to 61)] (IfLess 65 (IfIn 48 57 (Goto (to 130)) (Goto (to 0)))
    (IfGreater 70 (IfIn 97 102 (Goto (to 130)) (Goto (to 0))) (Goto (to 130))))"

definition http_st130 :: "http_action move test" where
  "http_st130 = Switch [(58, to 131), (93, to 61)] (Goto (to 0))"

definition http_st131 :: "http_action move test" where
  "http_st131 = Switch [(49, to 136), (50, to 139)] (IfLess 65 (IfIn 48 57 (Goto (to 132)) (Goto (to 0)))
    (IfGreater 70 (IfIn 97 102 (Goto (to 142)) (Goto (to 0))) (Goto (to 142))))"

definition http_st132 :: "http_action move test" where
  "http_st132 = Switch [(46, to 55), (58, to 80), (93, to 61)] (IfLess 65 (IfIn 48 57 (Goto (to 133)) (Goto
    (to 0))) (IfGreater 70 (IfIn 97 102 (Goto (to 133)) (Goto (to 0))) (Goto (to 133))))"

definition http_st133 :: "http_action move test" where
  "http_st133 = Switch [(58, to 80), (93, to 61)] (IfLess 65 (IfIn 48 57 (Goto (to 134)) (Goto (to 0)))
    (IfGreater 70 (IfIn 97 102 (Goto (to 134)) (Goto (to 0))) (Goto (to 134))))"

definition http_st134 :: "http_action move test" where
  "http_st134 = Switch [(58, to 80), (93, to 61)] (IfLess 65 (IfIn 48 57 (Goto (to 135)) (Goto (to 0)))
    (IfGreater 70 (IfIn 97 102 (Goto (to 135)) (Goto (to 0))) (Goto (to 135))))"

definition http_st135 :: "http_action move test" where
  "http_st135 = Switch [(58, to 80), (93, to 61)] (Goto (to 0))"

definition http_st136 :: "http_action move test" where
  "http_st136 = Switch [(46, to 55), (58, to 80), (93, to 61)] (IfLess 65 (IfIn 48 57 (Goto (to 137)) (Goto
    (to 0))) (IfGreater 70 (IfIn 97 102 (Goto (to 133)) (Goto (to 0))) (Goto (to 133))))"

definition http_st137 :: "http_action move test" where
  "http_st137 = Switch [(46, to 55), (58, to 80), (93, to 61)] (IfLess 65 (IfIn 48 57 (Goto (to 138)) (Goto
    (to 0))) (IfGreater 70 (IfIn 97 102 (Goto (to 134)) (Goto (to 0))) (Goto (to 134))))"

definition http_st138 :: "http_action move test" where
  "http_st138 = Switch [(46, to 55), (58, to 80), (93, to 61)] (IfLess 65 (IfIn 48 57 (Goto (to 135)) (Goto
    (to 0))) (IfGreater 70 (IfIn 97 102 (Goto (to 135)) (Goto (to 0))) (Goto (to 135))))"

definition http_st139 :: "http_action move test" where
  "http_st139 = Switch [(46, to 55), (48, to 140), (53, to 141), (58, to 80), (93, to 61)] (IfLess 65 (IfIn 49
    57 (Goto (to 133)) (Goto (to 0))) (IfGreater 70 (IfIn 97 102 (Goto (to 133)) (Goto (to 0))) (Goto (to
    133))))"

definition http_st140 :: "http_action move test" where
  "http_st140 = Switch [(58, to 80), (93, to 61)] (IfLess 65 (IfIn 48 57 (Goto (to 138)) (Goto (to 0)))
    (IfGreater 70 (IfIn 97 102 (Goto (to 134)) (Goto (to 0))) (Goto (to 134))))"

definition http_st141 :: "http_action move test" where
  "http_st141 = Switch [(48, to 138), (58, to 80), (93, to 61)] (IfLess 65 (IfIn 49 57 (Goto (to 134)) (Goto
    (to 0))) (IfGreater 70 (IfIn 97 102 (Goto (to 134)) (Goto (to 0))) (Goto (to 134))))"

definition http_st142 :: "http_action move test" where
  "http_st142 = Switch [(58, to 80), (93, to 61)] (IfLess 65 (IfIn 48 57 (Goto (to 133)) (Goto (to 0)))
    (IfGreater 70 (IfIn 97 102 (Goto (to 133)) (Goto (to 0))) (Goto (to 133))))"

definition http_st143 :: "http_action move test" where
  "http_st143 = Switch [(46, to 55), (58, to 131), (93, to 61)] (IfLess 65 (IfIn 48 57 (Goto (to 144)) (Goto
    (to 0))) (IfGreater 70 (IfIn 97 102 (Goto (to 128)) (Goto (to 0))) (Goto (to 128))))"

definition http_st144 :: "http_action move test" where
  "http_st144 = Switch [(46, to 55), (58, to 131), (93, to 61)] (IfLess 65 (IfIn 48 57 (Goto (to 145)) (Goto
    (to 0))) (IfGreater 70 (IfIn 97 102 (Goto (to 129)) (Goto (to 0))) (Goto (to 129))))"

definition http_st145 :: "http_action move test" where
  "http_st145 = Switch [(46, to 55), (58, to 131), (93, to 61)] (IfLess 65 (IfIn 48 57 (Goto (to 130)) (Goto
    (to 0))) (IfGreater 70 (IfIn 97 102 (Goto (to 130)) (Goto (to 0))) (Goto (to 130))))"

definition http_st146 :: "http_action move test" where
  "http_st146 = Switch [(46, to 55), (48, to 147), (53, to 148), (58, to 131), (93, to 61)] (IfLess 65 (IfIn
    49 57 (Goto (to 128)) (Goto (to 0))) (IfGreater 70 (IfIn 97 102 (Goto (to 128)) (Goto (to 0))) (Goto (to
    128))))"

definition http_st147 :: "http_action move test" where
  "http_st147 = Switch [(58, to 131), (93, to 61)] (IfLess 65 (IfIn 48 57 (Goto (to 145)) (Goto (to 0)))
    (IfGreater 70 (IfIn 97 102 (Goto (to 129)) (Goto (to 0))) (Goto (to 129))))"

definition http_st148 :: "http_action move test" where
  "http_st148 = Switch [(48, to 145), (58, to 131), (93, to 61)] (IfLess 65 (IfIn 49 57 (Goto (to 129)) (Goto
    (to 0))) (IfGreater 70 (IfIn 97 102 (Goto (to 129)) (Goto (to 0))) (Goto (to 129))))"

definition http_st149 :: "http_action move test" where
  "http_st149 = Switch [(58, to 131), (93, to 61)] (IfLess 65 (IfIn 48 57 (Goto (to 128)) (Goto (to 0)))
    (IfGreater 70 (IfIn 97 102 (Goto (to 128)) (Goto (to 0))) (Goto (to 128))))"

definition http_st150 :: "http_action move test" where
  "http_st150 = Switch [(49, to 143), (50, to 146)] (IfLess 48 (IfIn 2 3 (Goto (to 48)) (Goto (to 0)))
    (IfGreater 57 (IfGreater 70 (IfIn 97 102 (Goto (to 149)) (Goto (to 0))) (IfGeq 65 (Goto (to 149)) (Goto (to
    0)))) (Goto (to 127))))"

definition http_st151 :: "http_action move test" where
  "http_st151 = Switch [(49, to 156), (50, to 159)] (IfLess 48 (IfIn 2 3 (Goto (to 48)) (Goto (to 0)))
    (IfGreater 57 (IfGreater 70 (IfIn 97 102 (Goto (to 162)) (Goto (to 0))) (IfGeq 65 (Goto (to 162)) (Goto (to
    0)))) (Goto (to 152))))"

definition http_st152 :: "http_action move test" where
  "http_st152 = Switch [(46, to 55), (58, to 131)] (IfLess 65 (IfIn 48 57 (Goto (to 153)) (Goto (to 0)))
    (IfGreater 70 (IfIn 97 102 (Goto (to 153)) (Goto (to 0))) (Goto (to 153))))"

definition http_st153 :: "http_action move test" where
  "http_st153 = IfEq 58 (Goto (to 131)) (IfLess 65 (IfIn 48 57 (Goto (to 154)) (Goto (to 0))) (IfGreater 70
    (IfIn 97 102 (Goto (to 154)) (Goto (to 0))) (Goto (to 154))))"

definition http_st154 :: "http_action move test" where
  "http_st154 = IfEq 58 (Goto (to 131)) (IfLess 65 (IfIn 48 57 (Goto (to 155)) (Goto (to 0))) (IfGreater 70
    (IfIn 97 102 (Goto (to 155)) (Goto (to 0))) (Goto (to 155))))"

definition http_st155 :: "http_action move test" where
  "http_st155 = IfEq 58 (Goto (to 131)) (Goto (to 0))"

definition http_st156 :: "http_action move test" where
  "http_st156 = Switch [(46, to 55), (58, to 131)] (IfLess 65 (IfIn 48 57 (Goto (to 157)) (Goto (to 0)))
    (IfGreater 70 (IfIn 97 102 (Goto (to 153)) (Goto (to 0))) (Goto (to 153))))"

definition http_st157 :: "http_action move test" where
  "http_st157 = Switch [(46, to 55), (58, to 131)] (IfLess 65 (IfIn 48 57 (Goto (to 158)) (Goto (to 0)))
    (IfGreater 70 (IfIn 97 102 (Goto (to 154)) (Goto (to 0))) (Goto (to 154))))"

definition http_st158 :: "http_action move test" where
  "http_st158 = Switch [(46, to 55), (58, to 131)] (IfLess 65 (IfIn 48 57 (Goto (to 155)) (Goto (to 0)))
    (IfGreater 70 (IfIn 97 102 (Goto (to 155)) (Goto (to 0))) (Goto (to 155))))"

definition http_st159 :: "http_action move test" where
  "http_st159 = Switch [(46, to 55), (48, to 160), (53, to 161), (58, to 131)] (IfLess 65 (IfIn 49 57 (Goto
    (to 153)) (Goto (to 0))) (IfGreater 70 (IfIn 97 102 (Goto (to 153)) (Goto (to 0))) (Goto (to 153))))"

definition http_st160 :: "http_action move test" where
  "http_st160 = IfEq 58 (Goto (to 131)) (IfLess 65 (IfIn 48 57 (Goto (to 158)) (Goto (to 0))) (IfGreater 70
    (IfIn 97 102 (Goto (to 154)) (Goto (to 0))) (Goto (to 154))))"

definition http_st161 :: "http_action move test" where
  "http_st161 = Switch [(48, to 158), (58, to 131)] (IfLess 65 (IfIn 49 57 (Goto (to 154)) (Goto (to 0)))
    (IfGreater 70 (IfIn 97 102 (Goto (to 154)) (Goto (to 0))) (Goto (to 154))))"

definition http_st162 :: "http_action move test" where
  "http_st162 = IfEq 58 (Goto (to 131)) (IfLess 65 (IfIn 48 57 (Goto (to 153)) (Goto (to 0))) (IfGreater 70
    (IfIn 97 102 (Goto (to 153)) (Goto (to 0))) (Goto (to 153))))"

definition http_st163 :: "http_action move test" where
  "http_st163 = IfLess 48 (IfIn 2 3 (Goto (to 48)) (Goto (to 0))) (IfGreater 57 (IfGreater 70 (IfIn 97 102
    (Goto (to 49)) (Goto (to 0))) (IfGeq 65 (Goto (to 49)) (Goto (to 0)))) (Goto (to 49)))"

definition http_st164 :: "http_action move test" where
  "http_st164 = IfIn 2 3 (Goto (to 48)) (Goto (to 0))"

definition http_st165 :: "http_action move test" where
  "http_st165 = IfEq 3 (Goto (to 48)) (Goto (to 0))"

definition http_st166 :: "http_action move test" where
  "http_st166 = IfEq 4 (Goto (to 48)) (Goto (to 0))"

definition http_st167 :: "http_action move test" where
  "http_st167 = IfEq 58 (Goto (to 168)) (Goto (to 0))"

definition http_st168 :: "http_action move test" where
  "http_st168 = Switch [(49, to 143), (50, to 146), (93, to 61)] (IfLess 48 (IfIn 2 5 (Goto (to 48)) (Goto (to
    0))) (IfGreater 57 (IfGreater 70 (IfIn 97 102 (Goto (to 149)) (Goto (to 0))) (IfGeq 65 (Goto (to 149)) (Goto
    (to 0)))) (Goto (to 127))))"

definition http_st169 :: "http_action move test" where
  "http_st169 = IfLess 65 (IfIn 48 57 (Goto (to 170)) (Goto (to 0))) (IfGreater 70 (IfIn 97 102 (Goto (to
    170)) (Goto (to 0))) (Goto (to 170)))"

definition http_st170 :: "http_action move test" where
  "http_st170 = IfEq 46 (Goto (to 171)) (IfLess 65 (IfIn 48 57 (Goto (to 170)) (Goto (to 0))) (IfGreater 70
    (IfIn 97 102 (Goto (to 170)) (Goto (to 0))) (Goto (to 170))))"

definition http_st171 :: "http_action move test" where
  "http_st171 = Widen (Switch [(33, to 172), (36, to 172), (61, to 172), (95, to 172), (126, to 172), (606, to
    172), (635, to 172), (637, to 172)] (IfLess 48 (IfIn 38 46 (Goto (to 172)) (Goto (to 0))) (IfGreater 59
    (IfGreater 90 (IfIn 97 122 (Goto (to 172)) (Goto (to 0))) (IfGeq 65 (Goto (to 172)) (Goto (to 0)))) (Goto
    (to 172)))))"

definition http_st172 :: "http_action move test" where
  "http_st172 = Widen (Switch [(33, to 172), (36, to 172), (61, to 172), (93, to 61), (95, to 172), (126, to
    172), (606, to 172), (635, to 172), (637, to 172)] (IfLess 48 (IfIn 38 46 (Goto (to 172)) (Goto (to 0)))
    (IfGreater 59 (IfGreater 90 (IfIn 97 122 (Goto (to 172)) (Goto (to 0))) (IfGeq 65 (Goto (to 172)) (Goto (to
    0)))) (Goto (to 172)))))"

definition http_st173 :: "http_action move test" where
  "http_st173 = Widen (Switch [(32, http_tr37), (33, to 19), (35, http_tr39), (37, to 24), (43, to 173), (47,
    to 26), (58, to 174), (59, to 19), (61, to 19), (63, http_tr42), (64, to 19), (95, to 19), (126, to 19),
    (606, to 19), (635, to 19), (637, to 19)] (IfLess 45 (IfIn 36 44 (Goto (to 19)) (Goto (to 0))) (IfGreater 57
    (IfGreater 90 (IfIn 97 122 (Goto (to 173)) (Goto (to 0))) (IfGeq 65 (Goto (to 173)) (Goto (to 0)))) (Goto
    (to 173)))))"

definition http_st174 :: "http_action move test" where
  "http_st174 = Widen (Switch [(32, http_tr6), (33, http_tr203), (35, http_tr8), (37, http_tr204), (47,
    http_tr10), (61, http_tr203), (63, http_tr11), (95, http_tr203), (126, http_tr203), (606, http_tr203), (635,
    http_tr203), (637, http_tr203)] (IfLess 64 (IfIn 36 59 (Goto http_tr203) (Goto (to 0))) (IfGreater 90 (IfIn
    97 122 (Goto http_tr203) (Goto (to 0))) (Goto http_tr203))))"

definition http_st175 :: "http_action move test" where
  "http_st175 = IfEq 32 (Goto http_tr4) (IfGreater 57 (IfIn 65 90 (Goto (to 176)) (Goto (to 0))) (IfGeq 48
    (Goto (to 176)) (Goto (to 0))))"

definition http_st176 :: "http_action move test" where
  "http_st176 = IfEq 32 (Goto http_tr4) (IfGreater 57 (IfIn 65 90 (Goto (to 177)) (Goto (to 0))) (IfGeq 48
    (Goto (to 177)) (Goto (to 0))))"

definition http_st177 :: "http_action move test" where
  "http_st177 = IfEq 32 (Goto http_tr4) (IfGreater 57 (IfIn 65 90 (Goto (to 178)) (Goto (to 0))) (IfGeq 48
    (Goto (to 178)) (Goto (to 0))))"

definition http_st178 :: "http_action move test" where
  "http_st178 = IfEq 32 (Goto http_tr4) (IfGreater 57 (IfIn 65 90 (Goto (to 179)) (Goto (to 0))) (IfGeq 48
    (Goto (to 179)) (Goto (to 0))))"

definition http_st179 :: "http_action move test" where
  "http_st179 = IfEq 32 (Goto http_tr4) (IfGreater 57 (IfIn 65 90 (Goto (to 180)) (Goto (to 0))) (IfGeq 48
    (Goto (to 180)) (Goto (to 0))))"

definition http_st180 :: "http_action move test" where
  "http_st180 = IfEq 32 (Goto http_tr4) (IfGreater 57 (IfIn 65 90 (Goto (to 181)) (Goto (to 0))) (IfGeq 48
    (Goto (to 181)) (Goto (to 0))))"

definition http_st181 :: "http_action move test" where
  "http_st181 = IfEq 32 (Goto http_tr4) (IfGreater 57 (IfIn 65 90 (Goto (to 182)) (Goto (to 0))) (IfGeq 48
    (Goto (to 182)) (Goto (to 0))))"

definition http_st182 :: "http_action move test" where
  "http_st182 = IfEq 32 (Goto http_tr4) (IfGreater 57 (IfIn 65 90 (Goto (to 183)) (Goto (to 0))) (IfGeq 48
    (Goto (to 183)) (Goto (to 0))))"

definition http_st183 :: "http_action move test" where
  "http_st183 = IfEq 32 (Goto http_tr4) (IfGreater 57 (IfIn 65 90 (Goto (to 184)) (Goto (to 0))) (IfGeq 48
    (Goto (to 184)) (Goto (to 0))))"

definition http_st184 :: "http_action move test" where
  "http_st184 = IfEq 32 (Goto http_tr4) (IfGreater 57 (IfIn 65 90 (Goto (to 185)) (Goto (to 0))) (IfGeq 48
    (Goto (to 185)) (Goto (to 0))))"

definition http_st185 :: "http_action move test" where
  "http_st185 = IfEq 32 (Goto http_tr4) (IfGreater 57 (IfIn 65 90 (Goto (to 186)) (Goto (to 0))) (IfGeq 48
    (Goto (to 186)) (Goto (to 0))))"

definition http_st186 :: "http_action move test" where
  "http_st186 = IfEq 32 (Goto http_tr4) (IfGreater 57 (IfIn 65 90 (Goto (to 187)) (Goto (to 0))) (IfGeq 48
    (Goto (to 187)) (Goto (to 0))))"

definition http_st187 :: "http_action move test" where
  "http_st187 = IfEq 32 (Goto http_tr4) (IfGreater 57 (IfIn 65 90 (Goto (to 188)) (Goto (to 0))) (IfGeq 48
    (Goto (to 188)) (Goto (to 0))))"

definition http_st188 :: "http_action move test" where
  "http_st188 = IfEq 32 (Goto http_tr4) (IfGreater 57 (IfIn 65 90 (Goto (to 189)) (Goto (to 0))) (IfGeq 48
    (Goto (to 189)) (Goto (to 0))))"

definition http_st189 :: "http_action move test" where
  "http_st189 = IfEq 32 (Goto http_tr4) (IfGreater 57 (IfIn 65 90 (Goto (to 190)) (Goto (to 0))) (IfGeq 48
    (Goto (to 190)) (Goto (to 0))))"

definition http_st190 :: "http_action move test" where
  "http_st190 = IfEq 32 (Goto http_tr4) (IfGreater 57 (IfIn 65 90 (Goto (to 191)) (Goto (to 0))) (IfGeq 48
    (Goto (to 191)) (Goto (to 0))))"

definition http_st191 :: "http_action move test" where
  "http_st191 = IfEq 32 (Goto http_tr4) (IfGreater 57 (IfIn 65 90 (Goto (to 192)) (Goto (to 0))) (IfGeq 48
    (Goto (to 192)) (Goto (to 0))))"

definition http_st192 :: "http_action move test" where
  "http_st192 = IfEq 32 (Goto http_tr4) (IfGreater 57 (IfIn 65 90 (Goto (to 193)) (Goto (to 0))) (IfGeq 48
    (Goto (to 193)) (Goto (to 0))))"

definition http_st193 :: "http_action move test" where
  "http_st193 = IfEq 32 (Goto http_tr4) (Goto (to 0))"

definition http_st194 :: "http_action move test" where
  "http_st194 = IfLess 48 (IfIn 45 46 (Goto (to 195)) (Goto (to 0))) (IfGreater 57 (IfGreater 90 (IfIn 97 122
    (Goto (to 195)) (Goto (to 0))) (IfGeq 65 (Goto (to 195)) (Goto (to 0)))) (Goto (to 195)))"

definition http_st195 :: "http_action move test" where
  "http_st195 = Switch [(32, http_tr224), (47, http_tr224), (62, http_tr224)] (IfLess 45 (IfIn 9 13 (Goto
    http_tr224) (Goto (to 0))) (IfGreater 57 (IfGreater 90 (IfIn 97 122 (Goto (to 195)) (Goto (to 0))) (IfGeq 65
    (Goto (to 195)) (Goto (to 0)))) (Goto (to 195))))"

definition http_st196 :: "http_action move test" where
  "http_st196 = IfEq 62 (Goto (to 197)) (Goto (to 196))"

definition http_st197 :: "http_action move test" where
  "http_st197 = Switch [(0, http_tr227), (62, to 197)] (Goto (to 196))"

definition http_st349 :: "http_action move test" where
  "http_st349 = Goto (to 0)"

definition http_st198 :: "http_action move test" where
  "http_st198 = Widen (Switch [(32, http_tr228), (33, to 202), (37, to 203), (47, to 208), (59, to 202), (61,
    to 202), (95, to 202), (126, to 202), (606, to 202), (635, to 202), (637, to 202)] (IfLess 64 (IfIn 36 57
    (Goto (to 202)) (Goto (to 0))) (IfGreater 90 (IfIn 97 122 (Goto (to 202)) (Goto (to 0))) (Goto (to 202)))))"

definition http_st199 :: "http_action move test" where
  "http_st199 = IfEq 123 (Goto http_tr232) (Goto (to 0))"

definition http_st200 :: "http_action move test" where
  "http_st200 = IfEq 125 (Goto (to 201)) (Goto (to 200))"

definition http_st201 :: "http_action move test" where
  "http_st201 = Switch [(0, http_tr235), (125, to 201)] (Goto (to 200))"

definition http_st202 :: "http_action move test" where
  "http_st202 = Widen (Switch [(32, http_tr228), (33, to 202), (37, to 203), (47, to 205), (59, to 202), (61,
    to 202), (95, to 202), (126, to 202), (606, to 202), (635, to 202), (637, to 202)] (IfLess 64 (IfIn 36 57
    (Goto (to 202)) (Goto (to 0))) (IfGreater 90 (IfIn 97 122 (Goto (to 202)) (Goto (to 0))) (Goto (to 202)))))"

definition http_st203 :: "http_action move test" where
  "http_st203 = IfLess 65 (IfIn 48 57 (Goto (to 204)) (Goto (to 0))) (IfGreater 70 (IfIn 97 102 (Goto (to
    204)) (Goto (to 0))) (Goto (to 204)))"

definition http_st204 :: "http_action move test" where
  "http_st204 = IfLess 65 (IfIn 48 57 (Goto (to 202)) (Goto (to 0))) (IfGreater 70 (IfIn 97 102 (Goto (to
    202)) (Goto (to 0))) (Goto (to 202)))"

definition http_st205 :: "http_action move test" where
  "http_st205 = Widen (Switch [(32, http_tr228), (33, to 205), (37, to 206), (61, to 205), (95, to 205), (126,
    to 205), (606, to 205), (635, to 205), (637, to 205)] (IfLess 64 (IfIn 36 59 (Goto (to 205)) (Goto (to 0)))
    (IfGreater 90 (IfIn 97 122 (Goto (to 205)) (Goto (to 0))) (Goto (to 205)))))"

definition http_st206 :: "http_action move test" where
  "http_st206 = IfLess 65 (IfIn 48 57 (Goto (to 207)) (Goto (to 0))) (IfGreater 70 (IfIn 97 102 (Goto (to
    207)) (Goto (to 0))) (Goto (to 207)))"

definition http_st207 :: "http_action move test" where
  "http_st207 = IfLess 65 (IfIn 48 57 (Goto (to 205)) (Goto (to 0))) (IfGreater 70 (IfIn 97 102 (Goto (to
    205)) (Goto (to 0))) (Goto (to 205)))"

definition http_st208 :: "http_action move test" where
  "http_st208 = Widen (Switch [(32, http_tr228), (33, to 205), (37, to 206), (47, to 209), (61, to 205), (95,
    to 205), (126, to 205), (606, to 205), (635, to 205), (637, to 205)] (IfLess 64 (IfIn 36 59 (Goto (to 205))
    (Goto (to 0))) (IfGreater 90 (IfIn 97 122 (Goto (to 205)) (Goto (to 0))) (Goto (to 205)))))"

definition http_st209 :: "http_action move test" where
  "http_st209 = Widen (Switch [(32, http_tr228), (33, to 210), (37, to 211), (47, to 205), (58, to 213), (61,
    to 210), (64, to 217), (91, to 222), (95, to 210), (126, to 210), (606, to 210), (635, to 210), (637, to
    210)] (IfLess 65 (IfIn 36 59 (Goto (to 210)) (Goto (to 0))) (IfGreater 90 (IfIn 97 122 (Goto (to 210)) (Goto
    (to 0))) (Goto (to 210)))))"

definition http_st210 :: "http_action move test" where
  "http_st210 = Widen (Switch [(32, http_tr228), (33, to 210), (37, to 211), (47, to 205), (58, to 213), (61,
    to 210), (64, to 217), (95, to 210), (126, to 210), (606, to 210), (635, to 210), (637, to 210)] (IfLess 65
    (IfIn 36 59 (Goto (to 210)) (Goto (to 0))) (IfGreater 90 (IfIn 97 122 (Goto (to 210)) (Goto (to 0))) (Goto
    (to 210)))))"

definition http_st211 :: "http_action move test" where
  "http_st211 = IfLess 65 (IfIn 48 57 (Goto (to 212)) (Goto (to 0))) (IfGreater 70 (IfIn 97 102 (Goto (to
    212)) (Goto (to 0))) (Goto (to 212)))"

definition http_st212 :: "http_action move test" where
  "http_st212 = IfLess 65 (IfIn 48 57 (Goto (to 210)) (Goto (to 0))) (IfGreater 70 (IfIn 97 102 (Goto (to
    210)) (Goto (to 0))) (Goto (to 210)))"

definition http_st213 :: "http_action move test" where
  "http_st213 = Widen (Switch [(32, http_tr228), (33, to 214), (37, to 215), (47, to 205), (61, to 214), (64,
    to 217), (95, to 214), (126, to 214), (606, to 214), (635, to 214), (637, to 214)] (IfLess 58 (IfGreater 46
    (IfIn 48 57 (Goto (to 213)) (Goto (to 0))) (IfGeq 36 (Goto (to 214)) (Goto (to 0)))) (IfGreater 59
    (IfGreater 90 (IfIn 97 122 (Goto (to 214)) (Goto (to 0))) (IfGeq 65 (Goto (to 214)) (Goto (to 0)))) (Goto
    (to 214)))))"

definition http_st214 :: "http_action move test" where
  "http_st214 = Widen (Switch [(33, to 214), (37, to 215), (61, to 214), (64, to 217), (95, to 214), (126, to
    214), (606, to 214), (635, to 214), (637, to 214)] (IfLess 48 (IfIn 36 46 (Goto (to 214)) (Goto (to 0)))
    (IfGreater 59 (IfGreater 90 (IfIn 97 122 (Goto (to 214)) (Goto (to 0))) (IfGeq 65 (Goto (to 214)) (Goto (to
    0)))) (Goto (to 214)))))"

definition http_st215 :: "http_action move test" where
  "http_st215 = IfLess 65 (IfIn 48 57 (Goto (to 216)) (Goto (to 0))) (IfGreater 70 (IfIn 97 102 (Goto (to
    216)) (Goto (to 0))) (Goto (to 216)))"

definition http_st216 :: "http_action move test" where
  "http_st216 = IfLess 65 (IfIn 48 57 (Goto (to 214)) (Goto (to 0))) (IfGreater 70 (IfIn 97 102 (Goto (to
    214)) (Goto (to 0))) (Goto (to 214)))"

definition http_st217 :: "http_action move test" where
  "http_st217 = Widen (Switch [(32, http_tr228), (33, to 218), (37, to 219), (47, to 205), (58, to 221), (61,
    to 218), (91, to 222), (95, to 218), (126, to 218), (606, to 218), (635, to 218), (637, to 218)] (IfLess 65
    (IfIn 36 59 (Goto (to 218)) (Goto (to 0))) (IfGreater 90 (IfIn 97 122 (Goto (to 218)) (Goto (to 0))) (Goto
    (to 218)))))"

definition http_st218 :: "http_action move test" where
  "http_st218 = Widen (Switch [(32, http_tr228), (33, to 218), (37, to 219), (47, to 205), (58, to 221), (61,
    to 218), (95, to 218), (126, to 218), (606, to 218), (635, to 218), (637, to 218)] (IfLess 65 (IfIn 36 59
    (Goto (to 218)) (Goto (to 0))) (IfGreater 90 (IfIn 97 122 (Goto (to 218)) (Goto (to 0))) (Goto (to 218)))))"

definition http_st219 :: "http_action move test" where
  "http_st219 = IfLess 65 (IfIn 48 57 (Goto (to 220)) (Goto (to 0))) (IfGreater 70 (IfIn 97 102 (Goto (to
    220)) (Goto (to 0))) (Goto (to 220)))"

definition http_st220 :: "http_action move test" where
  "http_st220 = IfLess 65 (IfIn 48 57 (Goto (to 218)) (Goto (to 0))) (IfGreater 70 (IfIn 97 102 (Goto (to
    218)) (Goto (to 0))) (Goto (to 218)))"

definition http_st221 :: "http_action move test" where
  "http_st221 = Switch [(32, http_tr228), (47, to 205)] (IfIn 48 57 (Goto (to 221)) (Goto (to 0)))"

definition http_st222 :: "http_action move test" where
  "http_st222 = Switch [(6, to 223), (58, to 342), (118, to 344)] (IfLess 65 (IfIn 48 57 (Goto (to 266)) (Goto
    (to 0))) (IfGreater 70 (IfIn 97 102 (Goto (to 266)) (Goto (to 0))) (Goto (to 266))))"

definition http_st223 :: "http_action move test" where
  "http_st223 = IfLess 65 (IfIn 48 57 (Goto (to 224)) (Goto (to 0))) (IfGreater 70 (IfIn 97 102 (Goto (to
    224)) (Goto (to 0))) (Goto (to 224)))"

definition http_st224 :: "http_action move test" where
  "http_st224 = IfEq 58 (Goto (to 228)) (IfLess 65 (IfIn 48 57 (Goto (to 225)) (Goto (to 0))) (IfGreater 70
    (IfIn 97 102 (Goto (to 225)) (Goto (to 0))) (Goto (to 225))))"

definition http_st225 :: "http_action move test" where
  "http_st225 = IfEq 58 (Goto (to 228)) (IfLess 65 (IfIn 48 57 (Goto (to 226)) (Goto (to 0))) (IfGreater 70
    (IfIn 97 102 (Goto (to 226)) (Goto (to 0))) (Goto (to 226))))"

definition http_st226 :: "http_action move test" where
  "http_st226 = IfEq 58 (Goto (to 228)) (IfLess 65 (IfIn 48 57 (Goto (to 227)) (Goto (to 0))) (IfGreater 70
    (IfIn 97 102 (Goto (to 227)) (Goto (to 0))) (Goto (to 227))))"

definition http_st227 :: "http_action move test" where
  "http_st227 = IfEq 58 (Goto (to 228)) (Goto (to 0))"

definition http_st228 :: "http_action move test" where
  "http_st228 = Switch [(49, to 259), (50, to 262)] (IfLess 65 (IfIn 48 57 (Goto (to 229)) (Goto (to 0)))
    (IfGreater 70 (IfIn 97 102 (Goto (to 265)) (Goto (to 0))) (Goto (to 265))))"

definition http_st229 :: "http_action move test" where
  "http_st229 = Switch [(46, to 230), (58, to 255)] (IfLess 65 (IfIn 48 57 (Goto (to 252)) (Goto (to 0)))
    (IfGreater 70 (IfIn 97 102 (Goto (to 252)) (Goto (to 0))) (Goto (to 252))))"

definition http_st230 :: "http_action move test" where
  "http_st230 = Switch [(49, to 247), (50, to 249)] (IfIn 48 57 (Goto (to 231)) (Goto (to 0)))"

definition http_st231 :: "http_action move test" where
  "http_st231 = IfEq 46 (Goto (to 232)) (Goto (to 0))"

definition http_st232 :: "http_action move test" where
  "http_st232 = Switch [(49, to 242), (50, to 244)] (IfIn 48 57 (Goto (to 233)) (Goto (to 0)))"

definition http_st233 :: "http_action move test" where
  "http_st233 = IfEq 46 (Goto (to 234)) (Goto (to 0))"

definition http_st234 :: "http_action move test" where
  "http_st234 = Switch [(49, to 237), (50, to 239)] (IfIn 48 57 (Goto (to 235)) (Goto (to 0)))"

definition http_st235 :: "http_action move test" where
  "http_st235 = IfEq 93 (Goto (to 236)) (Goto (to 0))"

definition http_st236 :: "http_action move test" where
  "http_st236 = Switch [(32, http_tr228), (47, to 205), (58, to 221)] (Goto (to 0))"

definition http_st237 :: "http_action move test" where
  "http_st237 = IfEq 93 (Goto (to 236)) (IfIn 48 57 (Goto (to 238)) (Goto (to 0)))"

definition http_st238 :: "http_action move test" where
  "http_st238 = IfEq 93 (Goto (to 236)) (IfIn 48 57 (Goto (to 235)) (Goto (to 0)))"

definition http_st239 :: "http_action move test" where
  "http_st239 = Switch [(48, to 240), (53, to 241), (93, to 236)] (Goto (to 0))"

definition http_st240 :: "http_action move test" where
  "http_st240 = IfIn 48 57 (Goto (to 235)) (Goto (to 0))"

definition http_st241 :: "http_action move test" where
  "http_st241 = IfEq 48 (Goto (to 235)) (Goto (to 0))"

definition http_st242 :: "http_action move test" where
  "http_st242 = IfEq 46 (Goto (to 234)) (IfIn 48 57 (Goto (to 243)) (Goto (to 0)))"

definition http_st243 :: "http_action move test" where
  "http_st243 = IfEq 46 (Goto (to 234)) (IfIn 48 57 (Goto (to 233)) (Goto (to 0)))"

definition http_st244 :: "http_action move test" where
  "http_st244 = Switch [(46, to 234), (48, to 245), (53, to 246)] (Goto (to 0))"

definition http_st245 :: "http_action move test" where
  "http_st245 = IfIn 48 57 (Goto (to 233)) (Goto (to 0))"

definition http_st246 :: "http_action move test" where
  "http_st246 = IfEq 48 (Goto (to 233)) (Goto (to 0))"

definition http_st247 :: "http_action move test" where
  "http_st247 = IfEq 46 (Goto (to 232)) (IfIn 48 57 (Goto (to 248)) (Goto (to 0)))"

definition http_st248 :: "http_action move test" where
  "http_st248 = IfEq 46 (Goto (to 232)) (IfIn 48 57 (Goto (to 231)) (Goto (to 0)))"

definition http_st249 :: "http_action move test" where
  "http_st249 = Switch [(46, to 232), (48, to 250), (53, to 251)] (Goto (to 0))"

definition http_st250 :: "http_action move test" where
  "http_st250 = IfIn 48 57 (Goto (to 231)) (Goto (to 0))"

definition http_st251 :: "http_action move test" where
  "http_st251 = IfEq 48 (Goto (to 231)) (Goto (to 0))"

definition http_st252 :: "http_action move test" where
  "http_st252 = IfEq 58 (Goto (to 255)) (IfLess 65 (IfIn 48 57 (Goto (to 253)) (Goto (to 0))) (IfGreater 70
    (IfIn 97 102 (Goto (to 253)) (Goto (to 0))) (Goto (to 253))))"

definition http_st253 :: "http_action move test" where
  "http_st253 = IfEq 58 (Goto (to 255)) (IfLess 65 (IfIn 48 57 (Goto (to 254)) (Goto (to 0))) (IfGreater 70
    (IfIn 97 102 (Goto (to 254)) (Goto (to 0))) (Goto (to 254))))"

definition http_st254 :: "http_action move test" where
  "http_st254 = IfEq 58 (Goto (to 255)) (Goto (to 0))"

definition http_st255 :: "http_action move test" where
  "http_st255 = IfLess 65 (IfIn 48 57 (Goto (to 256)) (Goto (to 0))) (IfGreater 70 (IfIn 97 102 (Goto (to
    256)) (Goto (to 0))) (Goto (to 256)))"

definition http_st256 :: "http_action move test" where
  "http_st256 = IfEq 93 (Goto (to 236)) (IfLess 65 (IfIn 48 57 (Goto (to 257)) (Goto (to 0))) (IfGreater 70
    (IfIn 97 102 (Goto (to 257)) (Goto (to 0))) (Goto (to 257))))"

definition http_st257 :: "http_action move test" where
  "http_st257 = IfEq 93 (Goto (to 236)) (IfLess 65 (IfIn 48 57 (Goto (to 258)) (Goto (to 0))) (IfGreater 70
    (IfIn 97 102 (Goto (to 258)) (Goto (to 0))) (Goto (to 258))))"

definition http_st258 :: "http_action move test" where
  "http_st258 = IfEq 93 (Goto (to 236)) (IfLess 65 (IfIn 48 57 (Goto (to 235)) (Goto (to 0))) (IfGreater 70
    (IfIn 97 102 (Goto (to 235)) (Goto (to 0))) (Goto (to 235))))"

definition http_st259 :: "http_action move test" where
  "http_st259 = Switch [(46, to 230), (58, to 255)] (IfLess 65 (IfIn 48 57 (Goto (to 260)) (Goto (to 0)))
    (IfGreater 70 (IfIn 97 102 (Goto (to 252)) (Goto (to 0))) (Goto (to 252))))"

definition http_st260 :: "http_action move test" where
  "http_st260 = Switch [(46, to 230), (58, to 255)] (IfLess 65 (IfIn 48 57 (Goto (to 261)) (Goto (to 0)))
    (IfGreater 70 (IfIn 97 102 (Goto (to 253)) (Goto (to 0))) (Goto (to 253))))"

definition http_st261 :: "http_action move test" where
  "http_st261 = Switch [(46, to 230), (58, to 255)] (IfLess 65 (IfIn 48 57 (Goto (to 254)) (Goto (to 0)))
    (IfGreater 70 (IfIn 97 102 (Goto (to 254)) (Goto (to 0))) (Goto (to 254))))"

definition http_st262 :: "http_action move test" where
  "http_st262 = Switch [(46, to 230), (48, to 263), (53, to 264), (58, to 255)] (IfLess 65 (IfIn 49 57 (Goto
    (to 252)) (Goto (to 0))) (IfGreater 70 (IfIn 97 102 (Goto (to 252)) (Goto (to 0))) (Goto (to 252))))"

definition http_st263 :: "http_action move test" where
  "http_st263 = IfEq 58 (Goto (to 255)) (IfLess 65 (IfIn 48 57 (Goto (to 261)) (Goto (to 0))) (IfGreater 70
    (IfIn 97 102 (Goto (to 253)) (Goto (to 0))) (Goto (to 253))))"

definition http_st264 :: "http_action move test" where
  "http_st264 = Switch [(48, to 261), (58, to 255)] (IfLess 65 (IfIn 49 57 (Goto (to 253)) (Goto (to 0)))
    (IfGreater 70 (IfIn 97 102 (Goto (to 253)) (Goto (to 0))) (Goto (to 253))))"

definition http_st265 :: "http_action move test" where
  "http_st265 = IfEq 58 (Goto (to 255)) (IfLess 65 (IfIn 48 57 (Goto (to 252)) (Goto (to 0))) (IfGreater 70
    (IfIn 97 102 (Goto (to 252)) (Goto (to 0))) (Goto (to 252))))"

definition http_st266 :: "http_action move test" where
  "http_st266 = IfEq 58 (Goto (to 270)) (IfLess 65 (IfIn 48 57 (Goto (to 267)) (Goto (to 0))) (IfGreater 70
    (IfIn 97 102 (Goto (to 267)) (Goto (to 0))) (Goto (to 267))))"

definition http_st267 :: "http_action move test" where
  "http_st267 = IfEq 58 (Goto (to 270)) (IfLess 65 (IfIn 48 57 (Goto (to 268)) (Goto (to 0))) (IfGreater 70
    (IfIn 97 102 (Goto (to 268)) (Goto (to 0))) (Goto (to 268))))"

definition http_st268 :: "http_action move test" where
  "http_st268 = IfEq 58 (Goto (to 270)) (IfLess 65 (IfIn 48 57 (Goto (to 269)) (Goto (to 0))) (IfGreater 70
    (IfIn 97 102 (Goto (to 269)) (Goto (to 0))) (Goto (to 269))))"

definition http_st269 :: "http_action move test" where
  "http_st269 = IfEq 58 (Goto (to 270)) (Goto (to 0))"

definition http_st270 :: "http_action move test" where
  "http_st270 = IfEq 58 (Goto (to 341)) (IfLess 65 (IfIn 48 57 (Goto (to 271)) (Goto (to 0))) (IfGreater 70
    (IfIn 97 102 (Goto (to 271)) (Goto (to 0))) (Goto (to 271))))"

definition http_st271 :: "http_action move test" where
  "http_st271 = IfEq 58 (Goto (to 275)) (IfLess 65 (IfIn 48 57 (Goto (to 272)) (Goto (to 0))) (IfGreater 70
    (IfIn 97 102 (Goto (to 272)) (Goto (to 0))) (Goto (to 272))))"

definition http_st272 :: "http_action move test" where
  "http_st272 = IfEq 58 (Goto (to 275)) (IfLess 65 (IfIn 48 57 (Goto (to 273)) (Goto (to 0))) (IfGreater 70
    (IfIn 97 102 (Goto (to 273)) (Goto (to 0))) (Goto (to 273))))"

definition http_st273 :: "http_action move test" where
  "http_st273 = IfEq 58 (Goto (to 275)) (IfLess 65 (IfIn 48 57 (Goto (to 274)) (Goto (to 0))) (IfGreater 70
    (IfIn 97 102 (Goto (to 274)) (Goto (to 0))) (Goto (to 274))))"

definition http_st274 :: "http_action move test" where
  "http_st274 = IfEq 58 (Goto (to 275)) (Goto (to 0))"

definition http_st275 :: "http_action move test" where
  "http_st275 = IfEq 58 (Goto (to 340)) (IfLess 65 (IfIn 48 57 (Goto (to 276)) (Goto (to 0))) (IfGreater 70
    (IfIn 97 102 (Goto (to 276)) (Goto (to 0))) (Goto (to 276))))"

definition http_st276 :: "http_action move test" where
  "http_st276 = IfEq 58 (Goto (to 280)) (IfLess 65 (IfIn 48 57 (Goto (to 277)) (Goto (to 0))) (IfGreater 70
    (IfIn 97 102 (Goto (to 277)) (Goto (to 0))) (Goto (to 277))))"

definition http_st277 :: "http_action move test" where
  "http_st277 = IfEq 58 (Goto (to 280)) (IfLess 65 (IfIn 48 57 (Goto (to 278)) (Goto (to 0))) (IfGreater 70
    (IfIn 97 102 (Goto (to 278)) (Goto (to 0))) (Goto (to 278))))"

definition http_st278 :: "http_action move test" where
  "http_st278 = IfEq 58 (Goto (to 280)) (IfLess 65 (IfIn 48 57 (Goto (to 279)) (Goto (to 0))) (IfGreater 70
    (IfIn 97 102 (Goto (to 279)) (Goto (to 0))) (Goto (to 279))))"

definition http_st279 :: "http_action move test" where
  "http_st279 = IfEq 58 (Goto (to 280)) (Goto (to 0))"

definition http_st280 :: "http_action move test" where
  "http_st280 = IfEq 58 (Goto (to 339)) (IfLess 65 (IfIn 48 57 (Goto (to 281)) (Goto (to 0))) (IfGreater 70
    (IfIn 97 102 (Goto (to 281)) (Goto (to 0))) (Goto (to 281))))"

definition http_st281 :: "http_action move test" where
  "http_st281 = IfEq 58 (Goto (to 285)) (IfLess 65 (IfIn 48 57 (Goto (to 282)) (Goto (to 0))) (IfGreater 70
    (IfIn 97 102 (Goto (to 282)) (Goto (to 0))) (Goto (to 282))))"

definition http_st282 :: "http_action move test" where
  "http_st282 = IfEq 58 (Goto (to 285)) (IfLess 65 (IfIn 48 57 (Goto (to 283)) (Goto (to 0))) (IfGreater 70
    (IfIn 97 102 (Goto (to 283)) (Goto (to 0))) (Goto (to 283))))"

definition http_st283 :: "http_action move test" where
  "http_st283 = IfEq 58 (Goto (to 285)) (IfLess 65 (IfIn 48 57 (Goto (to 284)) (Goto (to 0))) (IfGreater 70
    (IfIn 97 102 (Goto (to 284)) (Goto (to 0))) (Goto (to 284))))"

definition http_st284 :: "http_action move test" where
  "http_st284 = IfEq 58 (Goto (to 285)) (Goto (to 0))"

definition http_st285 :: "http_action move test" where
  "http_st285 = IfEq 58 (Goto (to 338)) (IfLess 65 (IfIn 48 57 (Goto (to 286)) (Goto (to 0))) (IfGreater 70
    (IfIn 97 102 (Goto (to 286)) (Goto (to 0))) (Goto (to 286))))"

definition http_st286 :: "http_action move test" where
  "http_st286 = IfEq 58 (Goto (to 290)) (IfLess 65 (IfIn 48 57 (Goto (to 287)) (Goto (to 0))) (IfGreater 70
    (IfIn 97 102 (Goto (to 287)) (Goto (to 0))) (Goto (to 287))))"

definition http_st287 :: "http_action move test" where
  "http_st287 = IfEq 58 (Goto (to 290)) (IfLess 65 (IfIn 48 57 (Goto (to 288)) (Goto (to 0))) (IfGreater 70
    (IfIn 97 102 (Goto (to 288)) (Goto (to 0))) (Goto (to 288))))"

definition http_st288 :: "http_action move test" where
  "http_st288 = IfEq 58 (Goto (to 290)) (IfLess 65 (IfIn 48 57 (Goto (to 289)) (Goto (to 0))) (IfGreater 70
    (IfIn 97 102 (Goto (to 289)) (Goto (to 0))) (Goto (to 289))))"

definition http_st289 :: "http_action move test" where
  "http_st289 = IfEq 58 (Goto (to 290)) (Goto (to 0))"

definition http_st290 :: "http_action move test" where
  "http_st290 = IfEq 58 (Goto (to 326)) (IfLess 65 (IfIn 48 57 (Goto (to 291)) (Goto (to 0))) (IfGreater 70
    (IfIn 97 102 (Goto (to 291)) (Goto (to 0))) (Goto (to 291))))"

definition http_st291 :: "http_action move test" where
  "http_st291 = IfEq 58 (Goto (to 295)) (IfLess 65 (IfIn 48 57 (Goto (to 292)) (Goto (to 0))) (IfGreater 70
    (IfIn 97 102 (Goto (to 292)) (Goto (to 0))) (Goto (to 292))))"

definition http_st292 :: "http_action move test" where
  "http_st292 = IfEq 58 (Goto (to 295)) (IfLess 65 (IfIn 48 57 (Goto (to 293)) (Goto (to 0))) (IfGreater 70
    (IfIn 97 102 (Goto (to 293)) (Goto (to 0))) (Goto (to 293))))"

definition http_st293 :: "http_action move test" where
  "http_st293 = IfEq 58 (Goto (to 295)) (IfLess 65 (IfIn 48 57 (Goto (to 294)) (Goto (to 0))) (IfGreater 70
    (IfIn 97 102 (Goto (to 294)) (Goto (to 0))) (Goto (to 294))))"

definition http_st294 :: "http_action move test" where
  "http_st294 = IfEq 58 (Goto (to 295)) (Goto (to 0))"

definition http_st295 :: "http_action move test" where
  "http_st295 = IfEq 58 (Goto (to 325)) (IfLess 65 (IfIn 48 57 (Goto (to 296)) (Goto (to 0))) (IfGreater 70
    (IfIn 97 102 (Goto (to 296)) (Goto (to 0))) (Goto (to 296))))"

definition http_st296 :: "http_action move test" where
  "http_st296 = IfEq 58 (Goto (to 300)) (IfLess 65 (IfIn 48 57 (Goto (to 297)) (Goto (to 0))) (IfGreater 70
    (IfIn 97 102 (Goto (to 297)) (Goto (to 0))) (Goto (to 297))))"

definition http_st297 :: "http_action move test" where
  "http_st297 = IfEq 58 (Goto (to 300)) (IfLess 65 (IfIn 48 57 (Goto (to 298)) (Goto (to 0))) (IfGreater 70
    (IfIn 97 102 (Goto (to 298)) (Goto (to 0))) (Goto (to 298))))"

definition http_st298 :: "http_action move test" where
  "http_st298 = IfEq 58 (Goto (to 300)) (IfLess 65 (IfIn 48 57 (Goto (to 299)) (Goto (to 0))) (IfGreater 70
    (IfIn 97 102 (Goto (to 299)) (Goto (to 0))) (Goto (to 299))))"

definition http_st299 :: "http_action move test" where
  "http_st299 = IfEq 58 (Goto (to 300)) (Goto (to 0))"

definition http_st300 :: "http_action move test" where
  "http_st300 = IfEq 58 (Goto (to 301)) (IfLess 65 (IfIn 48 57 (Goto (to 296)) (Goto (to 0))) (IfGreater 70
    (IfIn 97 102 (Goto (to 296)) (Goto (to 0))) (Goto (to 296))))"

definition http_st301 :: "http_action move test" where
  "http_st301 = Switch [(49, to 318), (50, to 321), (93, to 236)] (IfLess 48 (IfIn 2 3 (Goto (to 223)) (Goto
    (to 0))) (IfGreater 57 (IfGreater 70 (IfIn 97 102 (Goto (to 324)) (Goto (to 0))) (IfGeq 65 (Goto (to 324))
    (Goto (to 0)))) (Goto (to 302))))"

definition http_st302 :: "http_action move test" where
  "http_st302 = Switch [(46, to 230), (58, to 306), (93, to 236)] (IfLess 65 (IfIn 48 57 (Goto (to 303)) (Goto
    (to 0))) (IfGreater 70 (IfIn 97 102 (Goto (to 303)) (Goto (to 0))) (Goto (to 303))))"

definition http_st303 :: "http_action move test" where
  "http_st303 = Switch [(58, to 306), (93, to 236)] (IfLess 65 (IfIn 48 57 (Goto (to 304)) (Goto (to 0)))
    (IfGreater 70 (IfIn 97 102 (Goto (to 304)) (Goto (to 0))) (Goto (to 304))))"

definition http_st304 :: "http_action move test" where
  "http_st304 = Switch [(58, to 306), (93, to 236)] (IfLess 65 (IfIn 48 57 (Goto (to 305)) (Goto (to 0)))
    (IfGreater 70 (IfIn 97 102 (Goto (to 305)) (Goto (to 0))) (Goto (to 305))))"

definition http_st305 :: "http_action move test" where
  "http_st305 = Switch [(58, to 306), (93, to 236)] (Goto (to 0))"

definition http_st306 :: "http_action move test" where
  "http_st306 = Switch [(49, to 311), (50, to 314)] (IfLess 65 (IfIn 48 57 (Goto (to 307)) (Goto (to 0)))
    (IfGreater 70 (IfIn 97 102 (Goto (to 317)) (Goto (to 0))) (Goto (to 317))))"

definition http_st307 :: "http_action move test" where
  "http_st307 = Switch [(46, to 230), (58, to 255), (93, to 236)] (IfLess 65 (IfIn 48 57 (Goto (to 308)) (Goto
    (to 0))) (IfGreater 70 (IfIn 97 102 (Goto (to 308)) (Goto (to 0))) (Goto (to 308))))"

definition http_st308 :: "http_action move test" where
  "http_st308 = Switch [(58, to 255), (93, to 236)] (IfLess 65 (IfIn 48 57 (Goto (to 309)) (Goto (to 0)))
    (IfGreater 70 (IfIn 97 102 (Goto (to 309)) (Goto (to 0))) (Goto (to 309))))"

definition http_st309 :: "http_action move test" where
  "http_st309 = Switch [(58, to 255), (93, to 236)] (IfLess 65 (IfIn 48 57 (Goto (to 310)) (Goto (to 0)))
    (IfGreater 70 (IfIn 97 102 (Goto (to 310)) (Goto (to 0))) (Goto (to 310))))"

definition http_st310 :: "http_action move test" where
  "http_st310 = Switch [(58, to 255), (93, to 236)] (Goto (to 0))"

definition http_st311 :: "http_action move test" where
  "http_st311 = Switch [(46, to 230), (58, to 255), (93, to 236)] (IfLess 65 (IfIn 48 57 (Goto (to 312)) (Goto
    (to 0))) (IfGreater 70 (IfIn 97 102 (Goto (to 308)) (Goto (to 0))) (Goto (to 308))))"

definition http_st312 :: "http_action move test" where
  "http_st312 = Switch [(46, to 230), (58, to 255), (93, to 236)] (IfLess 65 (IfIn 48 57 (Goto (to 313)) (Goto
    (to 0))) (IfGreater 70 (IfIn 97 102 (Goto (to 309)) (Goto (to 0))) (Goto (to 309))))"

definition http_st313 :: "http_action move test" where
  "http_st313 = Switch [(46, to 230), (58, to 255), (93, to 236)] (IfLess 65 (IfIn 48 57 (Goto (to 310)) (Goto
    (to 0))) (IfGreater 70 (IfIn 97 102 (Goto (to 310)) (Goto (to 0))) (Goto (to 310))))"

definition http_st314 :: "http_action move test" where
  "http_st314 = Switch [(46, to 230), (48, to 315), (53, to 316), (58, to 255), (93, to 236)] (IfLess 65 (IfIn
    49 57 (Goto (to 308)) (Goto (to 0))) (IfGreater 70 (IfIn 97 102 (Goto (to 308)) (Goto (to 0))) (Goto (to
    308))))"

definition http_st315 :: "http_action move test" where
  "http_st315 = Switch [(58, to 255), (93, to 236)] (IfLess 65 (IfIn 48 57 (Goto (to 313)) (Goto (to 0)))
    (IfGreater 70 (IfIn 97 102 (Goto (to 309)) (Goto (to 0))) (Goto (to 309))))"

definition http_st316 :: "http_action move test" where
  "http_st316 = Switch [(48, to 313), (58, to 255), (93, to 236)] (IfLess 65 (IfIn 49 57 (Goto (to 309)) (Goto
    (to 0))) (IfGreater 70 (IfIn 97 102 (Goto (to 309)) (Goto (to 0))) (Goto (to 309))))"

definition http_st317 :: "http_action move test" where
  "http_st317 = Switch [(58, to 255), (93, to 236)] (IfLess 65 (IfIn 48 57 (Goto (to 308)) (Goto (to 0)))
    (IfGreater 70 (IfIn 97 102 (Goto (to 308)) (Goto (to 0))) (Goto (to 308))))"

definition http_st318 :: "http_action move test" where
  "http_st318 = Switch [(46, to 230), (58, to 306), (93, to 236)] (IfLess 65 (IfIn 48 57 (Goto (to 319)) (Goto
    (to 0))) (IfGreater 70 (IfIn 97 102 (Goto (to 303)) (Goto (to 0))) (Goto (to 303))))"

definition http_st319 :: "http_action move test" where
  "http_st319 = Switch [(46, to 230), (58, to 306), (93, to 236)] (IfLess 65 (IfIn 48 57 (Goto (to 320)) (Goto
    (to 0))) (IfGreater 70 (IfIn 97 102 (Goto (to 304)) (Goto (to 0))) (Goto (to 304))))"

definition http_st320 :: "http_action move test" where
  "http_st320 = Switch [(46, to 230), (58, to 306), (93, to 236)] (IfLess 65 (IfIn 48 57 (Goto (to 305)) (Goto
    (to 0))) (IfGreater 70 (IfIn 97 102 (Goto (to 305)) (Goto (to 0))) (Goto (to 305))))"

definition http_st321 :: "http_action move test" where
  "http_st321 = Switch [(46, to 230), (48, to 322), (53, to 323), (58, to 306), (93, to 236)] (IfLess 65 (IfIn
    49 57 (Goto (to 303)) (Goto (to 0))) (IfGreater 70 (IfIn 97 102 (Goto (to 303)) (Goto (to 0))) (Goto (to
    303))))"

definition http_st322 :: "http_action move test" where
  "http_st322 = Switch [(58, to 306), (93, to 236)] (IfLess 65 (IfIn 48 57 (Goto (to 320)) (Goto (to 0)))
    (IfGreater 70 (IfIn 97 102 (Goto (to 304)) (Goto (to 0))) (Goto (to 304))))"

definition http_st323 :: "http_action move test" where
  "http_st323 = Switch [(48, to 320), (58, to 306), (93, to 236)] (IfLess 65 (IfIn 49 57 (Goto (to 304)) (Goto
    (to 0))) (IfGreater 70 (IfIn 97 102 (Goto (to 304)) (Goto (to 0))) (Goto (to 304))))"

definition http_st324 :: "http_action move test" where
  "http_st324 = Switch [(58, to 306), (93, to 236)] (IfLess 65 (IfIn 48 57 (Goto (to 303)) (Goto (to 0)))
    (IfGreater 70 (IfIn 97 102 (Goto (to 303)) (Goto (to 0))) (Goto (to 303))))"

definition http_st325 :: "http_action move test" where
  "http_st325 = Switch [(49, to 318), (50, to 321)] (IfLess 48 (IfIn 2 3 (Goto (to 223)) (Goto (to 0)))
    (IfGreater 57 (IfGreater 70 (IfIn 97 102 (Goto (to 324)) (Goto (to 0))) (IfGeq 65 (Goto (to 324)) (Goto (to
    0)))) (Goto (to 302))))"

definition http_st326 :: "http_action move test" where
  "http_st326 = Switch [(49, to 331), (50, to 334)] (IfLess 48 (IfIn 2 3 (Goto (to 223)) (Goto (to 0)))
    (IfGreater 57 (IfGreater 70 (IfIn 97 102 (Goto (to 337)) (Goto (to 0))) (IfGeq 65 (Goto (to 337)) (Goto (to
    0)))) (Goto (to 327))))"

definition http_st327 :: "http_action move test" where
  "http_st327 = Switch [(46, to 230), (58, to 306)] (IfLess 65 (IfIn 48 57 (Goto (to 328)) (Goto (to 0)))
    (IfGreater 70 (IfIn 97 102 (Goto (to 328)) (Goto (to 0))) (Goto (to 328))))"

definition http_st328 :: "http_action move test" where
  "http_st328 = IfEq 58 (Goto (to 306)) (IfLess 65 (IfIn 48 57 (Goto (to 329)) (Goto (to 0))) (IfGreater 70
    (IfIn 97 102 (Goto (to 329)) (Goto (to 0))) (Goto (to 329))))"

definition http_st329 :: "http_action move test" where
  "http_st329 = IfEq 58 (Goto (to 306)) (IfLess 65 (IfIn 48 57 (Goto (to 330)) (Goto (to 0))) (IfGreater 70
    (IfIn 97 102 (Goto (to 330)) (Goto (to 0))) (Goto (to 330))))"

definition http_st330 :: "http_action move test" where
  "http_st330 = IfEq 58 (Goto (to 306)) (Goto (to 0))"

definition http_st331 :: "http_action move test" where
  "http_st331 = Switch [(46, to 230), (58, to 306)] (IfLess 65 (IfIn 48 57 (Goto (to 332)) (Goto (to 0)))
    (IfGreater 70 (IfIn 97 102 (Goto (to 328)) (Goto (to 0))) (Goto (to 328))))"

definition http_st332 :: "http_action move test" where
  "http_st332 = Switch [(46, to 230), (58, to 306)] (IfLess 65 (IfIn 48 57 (Goto (to 333)) (Goto (to 0)))
    (IfGreater 70 (IfIn 97 102 (Goto (to 329)) (Goto (to 0))) (Goto (to 329))))"

definition http_st333 :: "http_action move test" where
  "http_st333 = Switch [(46, to 230), (58, to 306)] (IfLess 65 (IfIn 48 57 (Goto (to 330)) (Goto (to 0)))
    (IfGreater 70 (IfIn 97 102 (Goto (to 330)) (Goto (to 0))) (Goto (to 330))))"

definition http_st334 :: "http_action move test" where
  "http_st334 = Switch [(46, to 230), (48, to 335), (53, to 336), (58, to 306)] (IfLess 65 (IfIn 49 57 (Goto
    (to 328)) (Goto (to 0))) (IfGreater 70 (IfIn 97 102 (Goto (to 328)) (Goto (to 0))) (Goto (to 328))))"

definition http_st335 :: "http_action move test" where
  "http_st335 = IfEq 58 (Goto (to 306)) (IfLess 65 (IfIn 48 57 (Goto (to 333)) (Goto (to 0))) (IfGreater 70
    (IfIn 97 102 (Goto (to 329)) (Goto (to 0))) (Goto (to 329))))"

definition http_st336 :: "http_action move test" where
  "http_st336 = Switch [(48, to 333), (58, to 306)] (IfLess 65 (IfIn 49 57 (Goto (to 329)) (Goto (to 0)))
    (IfGreater 70 (IfIn 97 102 (Goto (to 329)) (Goto (to 0))) (Goto (to 329))))"

definition http_st337 :: "http_action move test" where
  "http_st337 = IfEq 58 (Goto (to 306)) (IfLess 65 (IfIn 48 57 (Goto (to 328)) (Goto (to 0))) (IfGreater 70
    (IfIn 97 102 (Goto (to 328)) (Goto (to 0))) (Goto (to 328))))"

definition http_st338 :: "http_action move test" where
  "http_st338 = IfLess 48 (IfIn 2 3 (Goto (to 223)) (Goto (to 0))) (IfGreater 57 (IfGreater 70 (IfIn 97 102
    (Goto (to 224)) (Goto (to 0))) (IfGeq 65 (Goto (to 224)) (Goto (to 0)))) (Goto (to 224)))"

definition http_st339 :: "http_action move test" where
  "http_st339 = IfIn 2 3 (Goto (to 223)) (Goto (to 0))"

definition http_st340 :: "http_action move test" where
  "http_st340 = IfEq 3 (Goto (to 223)) (Goto (to 0))"

definition http_st341 :: "http_action move test" where
  "http_st341 = IfEq 4 (Goto (to 223)) (Goto (to 0))"

definition http_st342 :: "http_action move test" where
  "http_st342 = IfEq 58 (Goto (to 343)) (Goto (to 0))"

definition http_st343 :: "http_action move test" where
  "http_st343 = Switch [(49, to 318), (50, to 321), (93, to 236)] (IfLess 48 (IfIn 2 5 (Goto (to 223)) (Goto
    (to 0))) (IfGreater 57 (IfGreater 70 (IfIn 97 102 (Goto (to 324)) (Goto (to 0))) (IfGeq 65 (Goto (to 324))
    (Goto (to 0)))) (Goto (to 302))))"

definition http_st344 :: "http_action move test" where
  "http_st344 = IfLess 65 (IfIn 48 57 (Goto (to 345)) (Goto (to 0))) (IfGreater 70 (IfIn 97 102 (Goto (to
    345)) (Goto (to 0))) (Goto (to 345)))"

definition http_st345 :: "http_action move test" where
  "http_st345 = IfEq 46 (Goto (to 346)) (IfLess 65 (IfIn 48 57 (Goto (to 345)) (Goto (to 0))) (IfGreater 70
    (IfIn 97 102 (Goto (to 345)) (Goto (to 0))) (Goto (to 345))))"

definition http_st346 :: "http_action move test" where
  "http_st346 = Widen (Switch [(33, to 347), (36, to 347), (61, to 347), (95, to 347), (126, to 347), (606, to
    347), (635, to 347), (637, to 347)] (IfLess 48 (IfIn 38 46 (Goto (to 347)) (Goto (to 0))) (IfGreater 59
    (IfGreater 90 (IfIn 97 122 (Goto (to 347)) (Goto (to 0))) (IfGeq 65 (Goto (to 347)) (Goto (to 0)))) (Goto
    (to 347)))))"

definition http_st347 :: "http_action move test" where
  "http_st347 = Widen (Switch [(33, to 347), (36, to 347), (61, to 347), (93, to 236), (95, to 347), (126, to
    347), (606, to 347), (635, to 347), (637, to 347)] (IfLess 48 (IfIn 38 46 (Goto (to 347)) (Goto (to 0)))
    (IfGreater 59 (IfGreater 90 (IfIn 97 122 (Goto (to 347)) (Goto (to 0))) (IfGeq 65 (Goto (to 347)) (Goto (to
    0)))) (Goto (to 347)))))"

section \<open>The switch\<close>

lemmas http_tr_defs =
  http_tr0_def http_tr4_def http_tr6_def http_tr37_def http_tr43_def http_tr46_def http_tr53_def http_tr57_def
  http_tr13_def http_tr21_def http_tr30_def http_tr33_def http_tr23_def http_tr27_def http_tr29_def
  http_tr28_def http_tr22_def http_tr31_def http_tr34_def http_tr24_def http_tr36_def http_tr25_def http_tr7_def
  http_tr8_def http_tr39_def http_tr55_def http_tr59_def http_tr44_def http_tr45_def http_tr9_def http_tr203_def
  http_tr204_def http_tr11_def http_tr42_def http_tr54_def http_tr56_def http_tr10_def http_tr12_def
  http_tr2_def http_tr224_def http_tr227_def http_tr235_def http_tr3_def http_tr228_def http_tr232_def

lemmas http_st_defs =
  http_st1_def http_st2_def http_st3_def http_st4_def http_st5_def http_st6_def http_st7_def http_st8_def
  http_st9_def http_st10_def http_st11_def http_st12_def http_st13_def http_st14_def http_st15_def http_st16_def
  http_st17_def http_st348_def http_st18_def http_st19_def http_st20_def http_st21_def http_st22_def
  http_st23_def http_st24_def http_st25_def http_st26_def http_st27_def http_st28_def http_st29_def
  http_st30_def http_st31_def http_st32_def http_st33_def http_st34_def http_st35_def http_st36_def
  http_st37_def http_st38_def http_st39_def http_st40_def http_st41_def http_st42_def http_st43_def
  http_st44_def http_st45_def http_st46_def http_st47_def http_st48_def http_st49_def http_st50_def
  http_st51_def http_st52_def http_st53_def http_st54_def http_st55_def http_st56_def http_st57_def
  http_st58_def http_st59_def http_st60_def http_st61_def http_st62_def http_st63_def http_st64_def
  http_st65_def http_st66_def http_st67_def http_st68_def http_st69_def http_st70_def http_st71_def
  http_st72_def http_st73_def http_st74_def http_st75_def http_st76_def http_st77_def http_st78_def
  http_st79_def http_st80_def http_st81_def http_st82_def http_st83_def http_st84_def http_st85_def
  http_st86_def http_st87_def http_st88_def http_st89_def http_st90_def http_st91_def http_st92_def
  http_st93_def http_st94_def http_st95_def http_st96_def http_st97_def http_st98_def http_st99_def
  http_st100_def http_st101_def http_st102_def http_st103_def http_st104_def http_st105_def http_st106_def
  http_st107_def http_st108_def http_st109_def http_st110_def http_st111_def http_st112_def http_st113_def
  http_st114_def http_st115_def http_st116_def http_st117_def http_st118_def http_st119_def http_st120_def
  http_st121_def http_st122_def http_st123_def http_st124_def http_st125_def http_st126_def http_st127_def
  http_st128_def http_st129_def http_st130_def http_st131_def http_st132_def http_st133_def http_st134_def
  http_st135_def http_st136_def http_st137_def http_st138_def http_st139_def http_st140_def http_st141_def
  http_st142_def http_st143_def http_st144_def http_st145_def http_st146_def http_st147_def http_st148_def
  http_st149_def http_st150_def http_st151_def http_st152_def http_st153_def http_st154_def http_st155_def
  http_st156_def http_st157_def http_st158_def http_st159_def http_st160_def http_st161_def http_st162_def
  http_st163_def http_st164_def http_st165_def http_st166_def http_st167_def http_st168_def http_st169_def
  http_st170_def http_st171_def http_st172_def http_st173_def http_st174_def http_st175_def http_st176_def
  http_st177_def http_st178_def http_st179_def http_st180_def http_st181_def http_st182_def http_st183_def
  http_st184_def http_st185_def http_st186_def http_st187_def http_st188_def http_st189_def http_st190_def
  http_st191_def http_st192_def http_st193_def http_st194_def http_st195_def http_st196_def http_st197_def
  http_st349_def http_st198_def http_st199_def http_st200_def http_st201_def http_st202_def http_st203_def
  http_st204_def http_st205_def http_st206_def http_st207_def http_st208_def http_st209_def http_st210_def
  http_st211_def http_st212_def http_st213_def http_st214_def http_st215_def http_st216_def http_st217_def
  http_st218_def http_st219_def http_st220_def http_st221_def http_st222_def http_st223_def http_st224_def
  http_st225_def http_st226_def http_st227_def http_st228_def http_st229_def http_st230_def http_st231_def
  http_st232_def http_st233_def http_st234_def http_st235_def http_st236_def http_st237_def http_st238_def
  http_st239_def http_st240_def http_st241_def http_st242_def http_st243_def http_st244_def http_st245_def
  http_st246_def http_st247_def http_st248_def http_st249_def http_st250_def http_st251_def http_st252_def
  http_st253_def http_st254_def http_st255_def http_st256_def http_st257_def http_st258_def http_st259_def
  http_st260_def http_st261_def http_st262_def http_st263_def http_st264_def http_st265_def http_st266_def
  http_st267_def http_st268_def http_st269_def http_st270_def http_st271_def http_st272_def http_st273_def
  http_st274_def http_st275_def http_st276_def http_st277_def http_st278_def http_st279_def http_st280_def
  http_st281_def http_st282_def http_st283_def http_st284_def http_st285_def http_st286_def http_st287_def
  http_st288_def http_st289_def http_st290_def http_st291_def http_st292_def http_st293_def http_st294_def
  http_st295_def http_st296_def http_st297_def http_st298_def http_st299_def http_st300_def http_st301_def
  http_st302_def http_st303_def http_st304_def http_st305_def http_st306_def http_st307_def http_st308_def
  http_st309_def http_st310_def http_st311_def http_st312_def http_st313_def http_st314_def http_st315_def
  http_st316_def http_st317_def http_st318_def http_st319_def http_st320_def http_st321_def http_st322_def
  http_st323_def http_st324_def http_st325_def http_st326_def http_st327_def http_st328_def http_st329_def
  http_st330_def http_st331_def http_st332_def http_st333_def http_st334_def http_st335_def http_st336_def
  http_st337_def http_st338_def http_st339_def http_st340_def http_st341_def http_st342_def http_st343_def
  http_st344_def http_st345_def http_st346_def http_st347_def

definition http_table :: "http_action table" where
  "http_table = [(1, http_st1), (2, http_st2), (3, http_st3), (4, http_st4), (5, http_st5), (6, http_st6), (7,
    http_st7), (8, http_st8), (9, http_st9), (10, http_st10), (11, http_st11), (12, http_st12), (13, http_st13),
    (14, http_st14), (15, http_st15), (16, http_st16), (17, http_st17), (18, http_st18), (19, http_st19), (20,
    http_st20), (21, http_st21), (22, http_st22), (23, http_st23), (24, http_st24), (25, http_st25), (26,
    http_st26), (27, http_st27), (28, http_st28), (29, http_st29), (30, http_st30), (31, http_st31), (32,
    http_st32), (33, http_st33), (34, http_st34), (35, http_st35), (36, http_st36), (37, http_st37), (38,
    http_st38), (39, http_st39), (40, http_st40), (41, http_st41), (42, http_st42), (43, http_st43), (44,
    http_st44), (45, http_st45), (46, http_st46), (47, http_st47), (48, http_st48), (49, http_st49), (50,
    http_st50), (51, http_st51), (52, http_st52), (53, http_st53), (54, http_st54), (55, http_st55), (56,
    http_st56), (57, http_st57), (58, http_st58), (59, http_st59), (60, http_st60), (61, http_st61), (62,
    http_st62), (63, http_st63), (64, http_st64), (65, http_st65), (66, http_st66), (67, http_st67), (68,
    http_st68), (69, http_st69), (70, http_st70), (71, http_st71), (72, http_st72), (73, http_st73), (74,
    http_st74), (75, http_st75), (76, http_st76), (77, http_st77), (78, http_st78), (79, http_st79), (80,
    http_st80), (81, http_st81), (82, http_st82), (83, http_st83), (84, http_st84), (85, http_st85), (86,
    http_st86), (87, http_st87), (88, http_st88), (89, http_st89), (90, http_st90), (91, http_st91), (92,
    http_st92), (93, http_st93), (94, http_st94), (95, http_st95), (96, http_st96), (97, http_st97), (98,
    http_st98), (99, http_st99), (100, http_st100), (101, http_st101), (102, http_st102), (103, http_st103),
    (104, http_st104), (105, http_st105), (106, http_st106), (107, http_st107), (108, http_st108), (109,
    http_st109), (110, http_st110), (111, http_st111), (112, http_st112), (113, http_st113), (114, http_st114),
    (115, http_st115), (116, http_st116), (117, http_st117), (118, http_st118), (119, http_st119), (120,
    http_st120), (121, http_st121), (122, http_st122), (123, http_st123), (124, http_st124), (125, http_st125),
    (126, http_st126), (127, http_st127), (128, http_st128), (129, http_st129), (130, http_st130), (131,
    http_st131), (132, http_st132), (133, http_st133), (134, http_st134), (135, http_st135), (136, http_st136),
    (137, http_st137), (138, http_st138), (139, http_st139), (140, http_st140), (141, http_st141), (142,
    http_st142), (143, http_st143), (144, http_st144), (145, http_st145), (146, http_st146), (147, http_st147),
    (148, http_st148), (149, http_st149), (150, http_st150), (151, http_st151), (152, http_st152), (153,
    http_st153), (154, http_st154), (155, http_st155), (156, http_st156), (157, http_st157), (158, http_st158),
    (159, http_st159), (160, http_st160), (161, http_st161), (162, http_st162), (163, http_st163), (164,
    http_st164), (165, http_st165), (166, http_st166), (167, http_st167), (168, http_st168), (169, http_st169),
    (170, http_st170), (171, http_st171), (172, http_st172), (173, http_st173), (174, http_st174), (175,
    http_st175), (176, http_st176), (177, http_st177), (178, http_st178), (179, http_st179), (180, http_st180),
    (181, http_st181), (182, http_st182), (183, http_st183), (184, http_st184), (185, http_st185), (186,
    http_st186), (187, http_st187), (188, http_st188), (189, http_st189), (190, http_st190), (191, http_st191),
    (192, http_st192), (193, http_st193), (194, http_st194), (195, http_st195), (196, http_st196), (197,
    http_st197), (198, http_st198), (199, http_st199), (200, http_st200), (201, http_st201), (202, http_st202),
    (203, http_st203), (204, http_st204), (205, http_st205), (206, http_st206), (207, http_st207), (208,
    http_st208), (209, http_st209), (210, http_st210), (211, http_st211), (212, http_st212), (213, http_st213),
    (214, http_st214), (215, http_st215), (216, http_st216), (217, http_st217), (218, http_st218), (219,
    http_st219), (220, http_st220), (221, http_st221), (222, http_st222), (223, http_st223), (224, http_st224),
    (225, http_st225), (226, http_st226), (227, http_st227), (228, http_st228), (229, http_st229), (230,
    http_st230), (231, http_st231), (232, http_st232), (233, http_st233), (234, http_st234), (235, http_st235),
    (236, http_st236), (237, http_st237), (238, http_st238), (239, http_st239), (240, http_st240), (241,
    http_st241), (242, http_st242), (243, http_st243), (244, http_st244), (245, http_st245), (246, http_st246),
    (247, http_st247), (248, http_st248), (249, http_st249), (250, http_st250), (251, http_st251), (252,
    http_st252), (253, http_st253), (254, http_st254), (255, http_st255), (256, http_st256), (257, http_st257),
    (258, http_st258), (259, http_st259), (260, http_st260), (261, http_st261), (262, http_st262), (263,
    http_st263), (264, http_st264), (265, http_st265), (266, http_st266), (267, http_st267), (268, http_st268),
    (269, http_st269), (270, http_st270), (271, http_st271), (272, http_st272), (273, http_st273), (274,
    http_st274), (275, http_st275), (276, http_st276), (277, http_st277), (278, http_st278), (279, http_st279),
    (280, http_st280), (281, http_st281), (282, http_st282), (283, http_st283), (284, http_st284), (285,
    http_st285), (286, http_st286), (287, http_st287), (288, http_st288), (289, http_st289), (290, http_st290),
    (291, http_st291), (292, http_st292), (293, http_st293), (294, http_st294), (295, http_st295), (296,
    http_st296), (297, http_st297), (298, http_st298), (299, http_st299), (300, http_st300), (301, http_st301),
    (302, http_st302), (303, http_st303), (304, http_st304), (305, http_st305), (306, http_st306), (307,
    http_st307), (308, http_st308), (309, http_st309), (310, http_st310), (311, http_st311), (312, http_st312),
    (313, http_st313), (314, http_st314), (315, http_st315), (316, http_st316), (317, http_st317), (318,
    http_st318), (319, http_st319), (320, http_st320), (321, http_st321), (322, http_st322), (323, http_st323),
    (324, http_st324), (325, http_st325), (326, http_st326), (327, http_st327), (328, http_st328), (329,
    http_st329), (330, http_st330), (331, http_st331), (332, http_st332), (333, http_st333), (334, http_st334),
    (335, http_st335), (336, http_st336), (337, http_st337), (338, http_st338), (339, http_st339), (340,
    http_st340), (341, http_st341), (342, http_st342), (343, http_st343), (344, http_st344), (345, http_st345),
    (346, http_st346), (347, http_st347), (348, http_st348), (349, http_st349)]"

end
