(* ===== verification/RequestParser.thy ===== *)
theory RequestParser
  imports HttpStates HttpServe
begin

text \<open>
  The request parser: \<open>src/http/http11_parser.rl.cpp\<close> around its state machine, with the callbacks that
  \<open>src/http/Parser.cpp\<close> installs.
\<close>

section \<open>State\<close>

text \<open>
  The fields of \<open>struct http_parser\<close>; \<open>http_parser_init\<close> does not write \<open>query_start\<close> and \<open>uri_relaxed\<close>, so
  what they hold is an argument.
\<close>

record http_parser =
  ph_cs :: int
  ph_body_start :: nat
  ph_content_len :: int
  ph_nread :: nat
  ph_mark :: nat
  ph_field_start :: nat
  ph_field_len :: nat
  ph_query_start :: nat
  ph_xml_sent :: bool
  ph_json_sent :: bool
  ph_uri_relaxed :: bool

definition http_parser_init :: "nat \<Rightarrow> bool \<Rightarrow> http_parser" where
  "http_parser_init query_start uri_relaxed =
     \<lparr>ph_cs = 1, ph_body_start = 0, ph_content_len = 0, ph_nread = 0, ph_mark = 0, ph_field_start = 0,
      ph_field_len = 0, ph_query_start = query_start, ph_xml_sent = False, ph_json_sent = False,
      ph_uri_relaxed = uri_relaxed\<rparr>"

text \<open>The parser with the object that the callbacks fill.\<close>

type_synonym request_state = "http_parser \<times> request_build"

section \<open>Actions\<close>

text \<open>
  \<open>std::string(PTR_TO(F), LEN(F, p))\<close>: a negative length is a huge \<open>size_t\<close>, for which the constructor throws.
\<close>

definition slice :: "bytes \<Rightarrow> nat \<Rightarrow> nat \<Rightarrow> bytes res" where
  "slice buf from p = (if from \<le> p then Inr (take (p - from) (drop from buf)) else Inl Thrown)"

definition on_build :: "(request_build \<Rightarrow> request_build) \<Rightarrow> request_state \<Rightarrow> request_state" where
  "on_build f s = (fst s, f (snd s))"

definition on_parser :: "(http_parser \<Rightarrow> http_parser) \<Rightarrow> request_state \<Rightarrow> request_state" where
  "on_parser f s = (f (fst s), snd s)"

text \<open>\<open>request_uri\<close> and \<open>header_done\<close> do nothing; the length is a parameter of the version alone.\<close>

fun http_exec :: "bytes \<Rightarrow> http_action \<Rightarrow> nat \<Rightarrow> request_state \<Rightarrow> request_state res" where
  "http_exec buf Mark p s = Inr (on_parser (\<lambda>h. h\<lparr>ph_mark := p\<rparr>) s)"
| "http_exec buf Start_field p s = Inr (on_parser (\<lambda>h. h\<lparr>ph_field_start := p\<rparr>) s)"
| "http_exec buf Write_field p s = Inr (on_parser (\<lambda>h. h\<lparr>ph_field_len := p - ph_field_start h\<rparr>) s)"
| "http_exec buf Start_value p s = Inr (on_parser (\<lambda>h. h\<lparr>ph_mark := p\<rparr>) s)"
| "http_exec buf Write_value p s =
     bindE (slice buf (ph_mark (fst s)) p) (\<lambda>v.
       Inr (on_build (on_request_http_field
              (take (ph_field_len (fst s)) (drop (ph_field_start (fst s)) buf)) v) s))"
| "http_exec buf Request_method p s = Inr (on_build (on_request_method (drop (ph_mark (fst s)) buf)) s)"
| "http_exec buf Request_uri p s = Inr s"
| "http_exec buf Fragment p s =
     bindE (slice buf (ph_mark (fst s)) p) (\<lambda>v. Inr (on_build (on_request_fragment v) s))"
| "http_exec buf Start_query p s = Inr (on_parser (\<lambda>h. h\<lparr>ph_query_start := p\<rparr>) s)"
| "http_exec buf Query_string p s =
     bindE (slice buf (ph_query_start (fst s)) p) (\<lambda>v. Inr (on_build (on_request_query v) s))"
| "http_exec buf Http_version p s =
     Inr (on_build (on_request_version (drop (ph_mark (fst s)) buf) (p - ph_mark (fst s))) s)"
| "http_exec buf Request_path p s =
     bindE (slice buf (ph_mark (fst s)) p) (\<lambda>v. Inr (on_build (on_request_path v) s))"
| "http_exec buf Done p s =
     Inr (on_parser (\<lambda>h.
       if ph_xml_sent h \<or> ph_json_sent h
       then h\<lparr>ph_body_start := ph_mark h, ph_content_len := int p - int (ph_mark h) + 1\<rparr>
       else h\<lparr>ph_body_start := p + 1\<rparr>) s)"
| "http_exec buf Xml p s = Inr (on_parser (\<lambda>h. h\<lparr>ph_xml_sent := True\<rparr>) s)"
| "http_exec buf Json p s = Inr (on_parser (\<lambda>h. h\<lparr>ph_json_sent := True\<rparr>) s)"

text \<open>The characters \<open>^\<close>, \<open>{\<close> and \<open>}\<close> are tested apart, by whether the parser is relaxed.\<close>

definition widen_http :: "bool \<Rightarrow> int \<Rightarrow> int" where
  "widen_http relaxed c =
     (if c \<in> set [94, 123, 125] then 128 + (c - - 128) + (if relaxed then 256 else 0) else c)"

definition http_machine :: "bool \<Rightarrow> bytes \<Rightarrow> (http_action, request_state) machine" where
  "http_machine relaxed buf =
     \<lparr>m_table = http_table, m_wide = widen_http relaxed, m_exec = http_exec buf,
      m_stops = (\<lambda>as. Done \<in> set as)\<rparr>"

section \<open>Execute\<close>

definition restarted :: "http_parser \<Rightarrow> http_parser" where
  "restarted h = h\<lparr>ph_nread := 0, ph_mark := 0, ph_field_len := 0, ph_field_start := 0\<rparr>"

text \<open>
  What \<open>execute\<close> returns, the number of characters read, and the state. The errors are those of the
  callbacks and the assertions at its end.
\<close>

definition http_parser_execute :: "bytes \<Rightarrow> request_state \<Rightarrow> (nat \<times> request_state) res" where
  "http_parser_execute buf s =
     (if buf = [] then Inr (0, s)
      else
        let h = restarted (fst s); len = length buf in
        bindE (run (http_machine (ph_uri_relaxed h) buf) (ph_cs h) 0 buf (h, snd s)) (\<lambda>(cs, p, h', b).
          let h' = h'\<lparr>ph_cs := (if ph_cs h \<noteq> 0 then cs else ph_cs h), ph_nread := p\<rparr> in
          if p \<le> len \<and> ph_body_start h' \<le> len \<and> ph_mark h' < len \<and> ph_field_len h' \<le> len
             \<and> ph_field_start h' < len
          then Inr (p, h', b)
          else Inl AssertFail))"

definition http_parser_has_error :: "http_parser \<Rightarrow> bool" where
  "http_parser_has_error h \<longleftrightarrow> ph_cs h = 0"

definition http_parser_is_finished :: "http_parser \<Rightarrow> bool" where
  "http_parser_is_finished h \<longleftrightarrow> 348 \<le> ph_cs h"

definition http_parser_finish :: "http_parser \<Rightarrow> int" where
  "http_parser_finish h =
     (if http_parser_has_error h then - 1 else if http_parser_is_finished h then 1 else 0)"

text \<open>
  The parser as the session uses it.
\<close>

definition HttpRequestParser :: "nat \<Rightarrow> bool \<Rightarrow> request_state request_parser" where
  "HttpRequestParser query_start uri_relaxed =
     \<lparr>rp_init = (http_parser_init query_start uri_relaxed, new_request_build),
      rp_execute = http_parser_execute,
      rp_finished = (\<lambda>s. http_parser_finish (fst s) \<noteq> 0),
      rp_has_error = (\<lambda>s. http_parser_has_error (fst s)),
      rp_build = snd\<rparr>"

end
