(* ===== verification/RequestParserProps.thy ===== *)
theory RequestParserProps
  imports RequestParser HttpMessageProps
begin

text \<open>
  The request parser reads back the head of a request as \<open>HttpRequest::dump\<close> prints it.
\<close>

section \<open>Classes of characters and moves\<close>

definition method_chars :: "(int \<times> int) list" where
  "method_chars = [(0x30, 0x39), (0x41, 0x5A)]"

definition segment_chars :: "(int \<times> int) list" where
  "segment_chars =
     [(0x21, 0x21), (0x24, 0x24), (0x26, 0x2E), (0x30, 0x3B), (0x3D, 0x3D), (0x40, 0x5A), (0x5F, 0x5F),
      (0x61, 0x7A), (0x7E, 0x7E)]"

definition target_chars :: "(int \<times> int) list" where
  "target_chars = (0x2F, 0x2F) # segment_chars"

definition rest_chars :: "(int \<times> int) list" where
  "rest_chars = (0x3F, 0x3F) # target_chars"

definition token_chars :: "(int \<times> int) list" where
  "token_chars =
     [(0x21, 0x21), (0x23, 0x27), (0x2A, 0x2B), (0x2D, 0x2E), (0x30, 0x39), (0x41, 0x5A), (0x5E, 0x7A),
      (0x7C, 0x7C), (0x7E, 0x7E)]"

definition value_first :: "(int \<times> int) list" where
  "value_first = [(-128, -1), (0x21, 0x7E)]"

definition value_chars :: "(int \<times> int) list" where
  "value_chars = [(-128, -1), (0x20, 0x7E)]"

lemmas http_char_defs = method_chars_def segment_chars_def target_chars_def rest_chars_def token_chars_def
  value_first_def value_chars_def hex_ranges_def

abbreviation wide_chars :: "int list" where "wide_chars \<equiv> [94, 123, 125]"

lemma regular_http: "regular wide_chars (http_machine relaxed buf)"
  by (simp add: regular_def http_machine_def widen_http_def numbered_def http_table_def upto.simps [of 1])

lemma http_machine_simps [simp]:
  "m_table (http_machine relaxed buf) = http_table" "m_exec (http_machine relaxed buf) = http_exec buf"
  "m_stops (http_machine relaxed buf) as \<longleftrightarrow> Done \<in> set as"
  by (simp_all add: http_machine_def)

definition method_states :: "int list" where
  "method_states =
     [2, 175, 176, 177, 178, 179, 180, 181, 182, 183, 184, 185, 186, 187, 188, 189, 190, 191, 192, 193]"

lemma method_moves:
  "moves_to wide_chars http_table [1] method_chars [Mark] [2]"
  "moves_to wide_chars http_table method_states [(0x20, 0x20)] [Request_method] [3]"
  by (simp_all add: moves_to_def http_table_def method_states_def)
    (simp_all add: row_all_def http_char_defs http_st_defs http_tr_defs)

lemma method_chain: "chain_moves wide_chars http_table method_states method_chars"
  by (simp add: chain_moves_def method_states_def moves_to_def http_table_def)
    (simp add: row_all_def http_char_defs http_st_defs http_tr_defs)

lemma target_moves:
  "moves_to wide_chars http_table [3] [(0x2F, 0x2F)] [Mark] [33]"
  "moves_to wide_chars http_table [33] segment_chars [] [26]"
  "moves_to wide_chars http_table [33] [(0x25, 0x25)] [] [27]"
  "escapes wide_chars http_table [26] target_chars 27 28"
  "moves_to wide_chars http_table [26, 33] [(0x20, 0x20)] [Request_path, Request_uri] [4]"
  "moves_to wide_chars http_table [26, 33] [(0x3F, 0x3F)] [Request_path] [29]"
  "moves_to wide_chars http_table [26, 33] [(0x23, 0x23)] [Request_path, Request_uri] [20]"
  "moves_to wide_chars http_table [29] rest_chars [Start_query] [30]"
  "moves_to wide_chars http_table [29] [(0x25, 0x25)] [Start_query] [31]"
  "escapes wide_chars http_table [30] rest_chars 31 32"
  "moves_to wide_chars http_table [30] [(0x20, 0x20)] [Query_string, Request_uri] [4]"
  "moves_to wide_chars http_table [30] [(0x23, 0x23)] [Query_string, Request_uri] [20]"
  "moves_to wide_chars http_table [20] rest_chars [Mark] [21]"
  "moves_to wide_chars http_table [20] [(0x25, 0x25)] [Mark] [22]"
  "escapes wide_chars http_table [21] rest_chars 22 23"
  "moves_to wide_chars http_table [21] [(0x20, 0x20)] [Fragment] [4]"
  by (simp_all add: escapes_def moves_to_def http_table_def)
    (simp_all add: row_all_def http_char_defs http_st_defs http_tr_defs)

lemma version_moves:
  "moves_to wide_chars http_table [4] [(0x48, 0x48)] [Mark] [5]"
  "chain_moves wide_chars http_table [5, 6, 7] [(0x54, 0x54)]"
  "moves_to wide_chars http_table [7] [(0x50, 0x50)] [] [8]"
  "moves_to wide_chars http_table [8] [(0x2F, 0x2F)] [] [9]"
  "moves_to wide_chars http_table [9] [(0x31, 0x31)] [] [10]"
  "moves_to wide_chars http_table [10] [(0x2E, 0x2E)] [] [11]"
  "moves_to wide_chars http_table [11] [(0x30, 0x31)] [] [12]"
  "moves_to wide_chars http_table [12] [(0x0D, 0x0D)] [Http_version] [17]"
  "moves_to wide_chars http_table [17] [(0x0A, 0x0A)] [] [13]"
  by (simp_all add: chain_moves_def moves_to_def http_table_def)
    (simp_all add: row_all_def http_st_defs http_tr_defs)

lemma header_moves:
  "moves_to wide_chars http_table [13] token_chars [Start_field] [14]"
  "moves_to wide_chars http_table [14] token_chars [] [14]"
  "moves_to wide_chars http_table [14] [(0x3A, 0x3A)] [Write_field] [15]"
  "moves_to wide_chars http_table [15] [(0x20, 0x20)] [Start_value] [15]"
  "moves_to wide_chars http_table [15] value_first [Start_value] [16]"
  "moves_to wide_chars http_table [16] value_chars [] [16]"
  "moves_to wide_chars http_table [15] [(0x0D, 0x0D)] [Start_value, Write_value] [17]"
  "moves_to wide_chars http_table [16] [(0x0D, 0x0D)] [Write_value] [17]"
  "moves_to wide_chars http_table [13] [(0x0D, 0x0D)] [Start_field] [18]"
  "moves_to wide_chars http_table [18] [(0x0A, 0x0A)] [Done] [348]"
  by (simp_all add: moves_to_def http_table_def)
    (simp_all add: row_all_def http_char_defs http_st_defs http_tr_defs)

end
