(* ===== verification/RequestParserSafety.thy ===== *)
theory RequestParserSafety
  imports RequestParserProps
begin

text \<open>
  When \<open>http_parser_execute\<close> fails: its positions stay inside the buffer, so that its assertions hold, and
  the one pointer it keeps from call to call is the start of the query.
\<close>

section \<open>Positions\<close>

definition query_states :: "int list" where "query_states = [30, 31, 32]"

text \<open>No position is behind \<open>p\<close>.\<close>

definition positions_upto :: "nat \<Rightarrow> http_parser \<Rightarrow> bool" where
  "positions_upto p h \<longleftrightarrow>
     ph_mark h \<le> p \<and> ph_field_start h \<le> p \<and> ph_field_len h \<le> p \<and> ph_body_start h \<le> Suc p"

lemma http_exec_positions:
  "http_exec buf a p s = Inr s' \<Longrightarrow> positions_upto p (fst s) \<Longrightarrow> positions_upto p (fst s')"
  by (cases a) (auto simp: positions_upto_def on_parser_def on_build_def bindE_Inr_iff slice_def split: if_splits)

lemma run_acts_positions:
  "run_acts (http_exec buf) as p s = Inr s' \<Longrightarrow> positions_upto p (fst s) \<Longrightarrow> positions_upto p (fst s')"
  by (induction as arbitrary: s) (auto simp: bindE_Inr_iff dest: http_exec_positions)

text \<open>The start of the query moves only to \<open>p\<close>.\<close>

lemma http_exec_query:
  "http_exec buf a p s = Inr s' \<Longrightarrow>
   ph_query_start (fst s') = (if a = Start_query then p else ph_query_start (fst s))"
  by (cases a) (auto simp: on_parser_def on_build_def bindE_Inr_iff slice_def split: if_splits)

lemma run_acts_query:
  "run_acts (http_exec buf) as p s = Inr s' \<Longrightarrow>
   ph_query_start (fst s') = (if Start_query \<in> set as then p else ph_query_start (fst s))"
  by (induction as arbitrary: s) (auto simp: bindE_Inr_iff dest: http_exec_query split: if_splits)

text \<open>The start of the body is written when the head is read.\<close>

lemma http_exec_body:
  "http_exec buf a p s = Inr s' \<Longrightarrow> a \<noteq> Done \<Longrightarrow> ph_body_start (fst s') = ph_body_start (fst s)"
  by (cases a) (auto simp: on_parser_def on_build_def bindE_Inr_iff)

lemma run_acts_body:
  "run_acts (http_exec buf) as p s = Inr s' \<Longrightarrow> Done \<notin> set as \<Longrightarrow> ph_body_start (fst s') = ph_body_start (fst s)"
  by (induction as arbitrary: s) (auto simp: bindE_Inr_iff dest: http_exec_body)

lemma http_exec_fails:
  "http_exec buf a p s = Inl e \<Longrightarrow> positions_upto p (fst s) \<Longrightarrow>
   e = Thrown \<and> a = Query_string \<and> p < ph_query_start (fst s)"
  by (cases a) (auto simp: positions_upto_def bindE_Inl_iff slice_def split: if_splits)

lemma run_acts_fails:
  assumes "run_acts (http_exec buf) as p s = Inl e" and "positions_upto p (fst s)"
    and "Query_string \<in> set as \<Longrightarrow> as = [Start_query, Query_string, Request_uri] \<or> as = [Query_string, Request_uri]"
  shows "e = Thrown \<and> as = [Query_string, Request_uri] \<and> p < ph_query_start (fst s)"
proof (cases "Query_string \<in> set as")
  case True
  with assms show ?thesis
    by (auto simp: on_parser_def bindE_Inl_iff slice_def split: if_splits)
next
  case False
  then show ?thesis
    using assms(1,2)
  proof (induction as arbitrary: s)
    case (Cons a as)
    then obtain s1 where "http_exec buf a p s = Inr s1" "run_acts (http_exec buf) as p s1 = Inl e"
      using http_exec_fails [of buf a p s e] by (auto simp: bindE_Inl_iff)
    with Cons.IH [of s1] Cons.prems http_exec_positions [of buf a p s s1] show ?case
      by auto
  qed simp
qed

section \<open>Every transition\<close>

definition query_ok :: "int \<Rightarrow> http_action move \<Rightarrow> bool" where
  "query_ok cs m \<longleftrightarrow>
     (Query_string \<in> set (fst m) \<longrightarrow>
        fst m = [Start_query, Query_string, Request_uri] \<or> cs = 30 \<and> fst m = [Query_string, Request_uri]) \<and>
     (snd m \<in> set query_states \<longrightarrow> cs \<in> set query_states \<and> fst m = [] \<or> fst m = [Start_query]) \<and>
     (Done \<in> set (fst m) \<longrightarrow> 348 \<le> snd m) \<and> (snd m = 0 \<longrightarrow> fst m = [])"

lemma all_query_ok: "list_all (\<lambda>x. list_all (query_ok (fst x)) (leaves (snd x))) http_table"
  by (simp add: http_table_def) (simp add: http_st_defs http_tr_defs query_ok_def query_states_def)

text \<open>\<open>stale\<close>: the call began inside a query that began in an earlier buffer.\<close>

definition http_ok :: "bool \<Rightarrow> int \<Rightarrow> bytes \<Rightarrow> request_state \<Rightarrow> bool" where
  "http_ok stale cs rd s \<longleftrightarrow>
     ph_mark (fst s) \<le> length rd - 1 \<and> ph_field_start (fst s) \<le> length rd - 1 \<and>
     ph_field_len (fst s) \<le> length rd \<and> ph_body_start (fst s) \<le> length rd \<and>
     (cs \<in> set query_states \<longrightarrow> ph_query_start (fst s) \<le> length rd \<or> stale)"

lemma http_ok_positions: "http_ok stale cs rd s \<Longrightarrow> positions_upto (length rd) (fst s)"
  by (auto simp: http_ok_def positions_upto_def)

lemma http_ok_step:
  assumes ok: "http_ok stale cs rd s"
    and m: "switch_cs (m_wide (http_machine rx buf)) (m_table (http_machine rx buf)) cs (sint b) = Some (as, cs')"
    and run: "run_acts (m_exec (http_machine rx buf)) as (length rd) s = Inr s'"
  shows "http_ok stale cs' (rd @ [b]) s'"
proof -
  have q: "query_ok cs (as, cs')"
    by (rule table_leavesD [OF all_query_ok m [simplified]])
  note pos = run_acts_positions [OF run [simplified] http_ok_positions [OF ok]]
  have "ph_query_start (fst s') \<le> Suc (length rd) \<or> stale" if "cs' \<in> set query_states"
    using q run_acts_query [OF run [simplified]] ok that by (auto simp: query_ok_def http_ok_def)
  then show ?thesis
    using pos by (simp add: http_ok_def positions_upto_def)
qed

lemma http_fails_step:
  assumes ok: "http_ok stale cs rd s"
    and m: "switch_cs (m_wide (http_machine rx buf)) (m_table (http_machine rx buf)) cs (sint b) = Some (as, cs')"
    and run: "run_acts (m_exec (http_machine rx buf)) as (length rd) s = Inl e"
  shows "e = Thrown \<and> stale"
proof -
  have q: "query_ok cs (as, cs')"
    by (rule table_leavesD [OF all_query_ok m [simplified]])
  have "e = Thrown \<and> as = [Query_string, Request_uri] \<and> length rd < ph_query_start (fst s)"
    using run_acts_fails [OF run [simplified] http_ok_positions [OF ok]] q by (auto simp: query_ok_def)
  then show ?thesis
    using ok q by (auto simp: query_ok_def http_ok_def query_states_def)
qed

interpretation http_runs: total_invariant "http_machine rx buf" "http_ok stale" "\<lambda>e _ _. e = Thrown \<and> stale"
  for rx buf stale
proof unfold_locales
  fix cs c as
  assume "switch_cs (m_wide (http_machine rx buf)) (m_table (http_machine rx buf)) cs c = Some (as, 0)"
  from table_leavesD [OF all_query_ok this [simplified]] show "as = []"
    by (simp add: query_ok_def)
qed (rule http_ok_step http_fails_step; assumption)+

text \<open>\<open>execute\<close> returns what the machine returns; its assertions hold.\<close>

lemma execute_returns:
  assumes "run (http_machine (ph_uri_relaxed (fst s)) buf) (ph_cs (fst s)) 0 buf (restarted (fst s), snd s) =
      Inr (cs, p, h, b)"
    and "buf \<noteq> []" "ph_body_start (fst s) = 0" "ph_cs (fst s) \<noteq> 0"
  shows "http_parser_execute buf s = Inr (p, h\<lparr>ph_cs := cs, ph_nread := p\<rparr>, b) \<and>
    (0 < cs \<and> cs < 348 \<longrightarrow> ph_body_start h = 0)"
proof -
  have "http_ok True (ph_cs (fst s)) [] (restarted (fst s), snd s)"
    using assms(3) by (auto simp: http_ok_def restarted_def)
  moreover have "run (http_machine (ph_uri_relaxed (fst s)) buf) (ph_cs (fst s)) (length []) buf
      (restarted (fst s), snd s) = Inr (cs, p, h, b)"
    using assms(1) by simp
  ultimately obtain n cs1 where ok: "n \<le> length buf" "p = n" "http_ok True cs1 (take n buf) (h, b)"
    using http_runs.run_left [of True "ph_cs (fst s)" "[]" "(restarted (fst s), snd s)"] by force
  then have "p \<le> length buf \<and> ph_body_start h \<le> length buf \<and> ph_mark h < length buf \<and>
      ph_field_len h \<le> length buf \<and> ph_field_start h < length buf"
    using assms(2) by (cases buf) (auto simp: http_ok_def)
  moreover have "0 < cs \<and> cs < 348 \<longrightarrow> ph_body_start h = 0"
  proof -
    have "ph_body_start h = ph_body_start (fst s) \<or> (\<exists>cs0 c as.
        switch_cs (m_wide (http_machine (ph_uri_relaxed (fst s)) buf)) http_table cs0 c = Some (as, cs) \<and> Done \<in> set as)"
      using run_keeps [of "http_machine (ph_uri_relaxed (fst s)) buf" "\<lambda>s. ph_body_start (fst s)", OF _ assms(1)]
        run_acts_body by (auto simp: restarted_def)
    then show ?thesis
      using assms(3) table_leavesD [OF all_query_ok] by (fastforce simp: query_ok_def)
  qed
  ultimately show ?thesis
    using assms by (simp add: http_parser_execute_def Let_def restarted_def)
qed

text \<open>C18: from a parser that has not finished a message, \<open>execute\<close> keeps its positions inside the buffer, so that
  none of its assertions fails, and fails only if the previous buffer ended inside the query of the
  request: the start of the query is not reset, so the callback may build a string of a negative length.
\<close>

theorem request_parser_fails_inside_query:
  assumes "http_parser_execute buf s = Inl e" and "ph_body_start (fst s) = 0"
  shows "e = Thrown \<and> ph_cs (fst s) \<in> set query_states \<and> 0 < ph_query_start (fst s)"
proof -
  let ?h = "restarted (fst s)"
  let ?M = "http_machine (ph_uri_relaxed ?h) buf"
  define stale where "stale \<longleftrightarrow> ph_cs (fst s) \<in> set query_states \<and> 0 < ph_query_start (fst s)"
  have ok: "http_ok stale (ph_cs ?h) [] (?h, snd s)"
    using assms(2) by (auto simp: http_ok_def restarted_def stale_def)
  have buf: "buf \<noteq> []"
    using assms(1) by (auto simp: http_parser_execute_def)
  show ?thesis
  proof (cases "run ?M (ph_cs ?h) 0 buf (?h, snd s)")
    case (Inl e')
    then have "run ?M (ph_cs ?h) (length []) buf (?h, snd s) = Inl e'" by simp
    from http_runs.run_fails [OF ok this] have "e' = Thrown" "stale" by auto
    then show ?thesis
      using assms(1) buf Inl by (simp add: http_parser_execute_def Let_def stale_def)
  next
    case (Inr r)
    obtain cs p h b where r: "r = (cs, p, h, b)" by (cases r)
    then have "run ?M (ph_cs ?h) (length []) buf (?h, snd s) = Inr (cs, p, h, b)" using Inr by simp
    from http_runs.run_left [OF ok this] obtain n cs1
      where "n \<le> length buf" "p = n" "http_ok stale cs1 (take n buf) (h, b)" by auto
    then have "p \<le> length buf \<and> ph_body_start h \<le> length buf \<and> ph_mark h < length buf \<and>
        ph_field_len h \<le> length buf \<and> ph_field_start h < length buf"
      using buf by (cases buf) (auto simp: http_ok_def)
    then show ?thesis
      using assms(1) buf Inr r by (simp add: http_parser_execute_def Let_def)
  qed
qed

end
