(* ===== verification/RequestRoundtrip.thy ===== *)
theory RequestRoundtrip
  imports RequestParserSafety HttpServeProps CText
begin

text \<open>
  The head of a request that \<open>HttpRequest::dump\<close> prints is parsed into the same request: first the parts of
  a head, each as a run of the machine from one state to another, then whole heads.
\<close>

section \<open>The parts of a head\<close>

text \<open>
  One step of the machine, with a state of which only the object under construction is followed: the
  positions of the parser are described where an action uses them.
\<close>

lemmas http_move = run_move [OF regular_http]

lemma slice_at: "slice (pre @ x @ rest) (length pre) (length pre + length x) = Inr x"
  by (simp add: slice_def)

lemma run_method:
  assumes m: "\<forall>b \<in> set m. in_ranges method_chars b" "m \<noteq> []" "length m \<le> 20"
    and tx: "buf = m @ 0x20 # rest"
  shows "\<exists>h'. run (http_machine rx buf) 1 0 buf (h, b) =
    run (http_machine rx buf) 3 (Suc (length m)) rest (h', on_request_method buf b)"
proof -
  let ?M = "http_machine rx buf" and ?s = "(h\<lparr>ph_mark := 0\<rparr>, b)"
  obtain c m' where c: "m = c # m'" using m(2) by (cases m) auto
  have i: "length m' < length method_states" using m(3) by (simp add: c method_states_def)
  let ?cs = "method_states ! length m'"
  have "run ?M 1 0 buf (h, b) = run ?M 2 1 (m' @ 0x20 # rest) ?s"
    using http_move [of rx buf "[1]" method_chars "[Mark]" "[2]" 1 c 0 "m' @ 0x20 # rest" "(h, b)"] m(1) method_moves(1)
    by (simp add: tx c on_parser_def)
  also have "\<dots> = run ?M ?cs (length m) (0x20 # rest) ?s"
    using run_chain [OF regular_http, of rx buf method_states method_chars m' 0 1 "0x20 # rest" ?s] m(1) i method_chain
    by (simp add: c method_states_def)
  also have "\<exists>h'. \<dots> = run ?M 3 (Suc (length m)) rest (h', on_request_method buf b)"
    using http_move [of rx buf method_states "[(0x20, 0x20)]" "[Request_method]" "[3]" ?cs "0x20" "length m" rest ?s]
      method_moves(2) i by (auto simp: in_ranges_def on_build_def)
  finally show ?thesis .
qed

text \<open>A path is a slash and characters of its segments; a second slash would begin an authority.\<close>

definition path_text :: "bytes \<Rightarrow> bool" where
  "path_text x \<longleftrightarrow> (\<exists>y. x = 0x2F # y \<and> escaped_text target_chars y \<and> (y = [] \<or> hd y \<noteq> 0x2F))"

lemma segment_target: "in_ranges target_chars b \<Longrightarrow> b \<noteq> 0x2F \<Longrightarrow> in_ranges segment_chars b"
  using sint_neq [of b "0x2F"] by (auto simp: in_ranges_def target_chars_def)

text \<open>The character behind a path and the state it leads to.\<close>

definition target_ends :: "(u8 \<times> int) list" where
  "target_ends = [(0x20, 4), (0x3F, 29), (0x23, 20)]"

lemma run_path:
  assumes x: "path_text x" and d: "(d, cs') \<in> set target_ends" and tx: "buf = pre @ x @ d # rest"
  shows "\<exists>h'. run (http_machine rx buf) 3 (length pre) (x @ d # rest) (h, b) =
    run (http_machine rx buf) cs' (Suc (length pre + length x)) rest (h', on_request_path x b)"
proof -
  let ?M = "http_machine rx buf" and ?s = "(h\<lparr>ph_mark := length pre\<rparr>, b)" and ?p = "length pre + length x"
  obtain y where y: "x = 0x2F # y" "escaped_text target_chars y" "y = [] \<or> hd y \<noteq> 0x2F"
    using x by (auto simp: path_text_def)
  have "run ?M 3 (length pre) (x @ d # rest) (h, b) = run ?M 33 (Suc (length pre)) (y @ d # rest) ?s"
    using http_move [of rx buf "[3]" "[(0x2F, 0x2F)]" "[Mark]" "[33]" 3 "0x2F" "length pre" "y @ d # rest" "(h, b)"]
      target_moves(1) by (simp add: y(1) in_ranges_def on_parser_def)
  also obtain cs where cs: "cs = 26 \<or> cs = 33"
    "run ?M 33 (Suc (length pre)) (y @ d # rest) ?s = run ?M cs ?p (d # rest) ?s"
  proof (cases "y = []")
    case True
    then show ?thesis using that [of 33] by (simp add: y(1))
  next
    case False
    have "\<exists>cs \<in> set [26]. run ?M 33 (Suc (length pre)) (y @ d # rest) ?s =
      run ?M cs (Suc (length pre) + length y) (d # rest) ?s"
      using y(2)
    proof (cases rule: escaped_text_cases)
      case 1
      then show ?thesis using False by simp
    next
      case (2 c y')
      then have "in_ranges segment_chars c" using y(3) segment_target by simp
      then have "run ?M 33 (Suc (length pre)) (c # y' @ d # rest) ?s = run ?M 26 (Suc (Suc (length pre))) (y' @ d # rest) ?s"
        using http_move [of rx buf "[33]" segment_chars "[]" "[26]" 33 c "Suc (length pre)" "y' @ d # rest" ?s]
          target_moves(2) by simp
      then show ?thesis
        using run_escaped [OF regular_http, of rx buf "[26]" target_chars 27 28 26 y' "Suc (Suc (length pre))" "d # rest" ?s]
          target_moves(4) 2 by simp
    next
      case (3 u v y')
      have "run ?M 33 (Suc (length pre)) (0x25 # u # v # y' @ d # rest) ?s =
        run ?M 27 (Suc (Suc (length pre))) (u # v # y' @ d # rest) ?s"
        using http_move [of rx buf "[33]" "[(0x25, 0x25)]" "[]" "[27]" 33 "0x25" "Suc (length pre)" "u # v # y' @ d # rest" ?s]
          target_moves(3) by (simp add: in_ranges_def)
      also have "\<dots> = run ?M 26 (Suc (Suc (Suc (Suc (length pre))))) (y' @ d # rest) ?s"
        using run_escape [OF regular_http, of rx buf 27 28 "[26]" u v "Suc (Suc (length pre))" "y' @ d # rest" ?s]
          target_moves(4) 3 by (simp add: escapes_def)
      finally show ?thesis
        using run_escaped [OF regular_http, of rx buf "[26]" target_chars 27 28 26 y' "Suc (Suc (Suc (Suc (length pre))))"
            "d # rest" ?s] target_moves(4) 3 by simp
    qed
    then show ?thesis using that [of 26] by (simp add: y(1))
  qed
  note cs(2)
  also have "\<exists>h'. run ?M cs ?p (d # rest) ?s = run ?M cs' (Suc ?p) rest (h', on_request_path x b)"
  proof -
    obtain as where as: "as = [Request_path] \<or> as = [Request_path, Request_uri]"
      "moves_to wide_chars http_table [26, 33] [(sint d, sint d)] as [cs']"
    proof -
      have "moves_to wide_chars http_table [26, 33] [(sint d, sint d)] [Request_path] [cs'] \<or>
        moves_to wide_chars http_table [26, 33] [(sint d, sint d)] [Request_path, Request_uri] [cs']"
        using d target_moves(5-7) by (auto simp: target_ends_def)
      then show ?thesis using that by blast
    qed
    have "cs' \<noteq> 0" using d by (auto simp: target_ends_def)
    then show ?thesis
      using http_move [of rx buf "[26, 33]" "[(sint d, sint d)]" as "[cs']" cs d ?p rest ?s] as cs(1)
        slice_at [of pre x "d # rest"] by (auto simp: in_ranges_def on_build_def tx)
  qed
  finally show ?thesis .
qed

text \<open>A query and a fragment, each up to the character behind it.\<close>

lemma run_query:
  assumes x: "escaped_text rest_chars x" "x \<noteq> []" and d: "d = 0x20 \<and> cs' = 4 \<or> d = 0x23 \<and> cs' = 20"
    and tx: "buf = pre @ x @ d # rest"
  shows "\<exists>h'. run (http_machine rx buf) 29 (length pre) (x @ d # rest) (h, b) =
    run (http_machine rx buf) cs' (Suc (length pre + length x)) rest (h', on_request_query x b)"
proof -
  let ?M = "http_machine rx buf" and ?s = "(h\<lparr>ph_query_start := length pre\<rparr>, b)" and ?p = "length pre + length x"
  have "run ?M 29 (length pre) (x @ d # rest) (h, b) = run ?M 30 ?p (d # rest) ?s"
    using run_enter [OF regular_http, of rx buf 29 rest_chars "[Start_query]" "[30]" 31 32 x "length pre" "d # rest" "(h, b)"]
      x target_moves(8-10) by (simp add: enters_def on_parser_def)
  also have "\<dots> = run ?M cs' (Suc ?p) rest (h\<lparr>ph_query_start := length pre\<rparr>, on_request_query x b)"
    using http_move [of rx buf "[30]" "[(sint d, sint d)]" "[Query_string, Request_uri]" "[cs']" 30 d ?p rest ?s]
      target_moves(11,12) d slice_at [of pre x "d # rest"] by (auto simp: in_ranges_def on_build_def tx)
  finally show ?thesis by blast
qed

lemma run_fragment:
  assumes x: "escaped_text rest_chars x" "x \<noteq> []" and tx: "buf = pre @ x @ 0x20 # rest"
  shows "\<exists>h'. run (http_machine rx buf) 20 (length pre) (x @ 0x20 # rest) (h, b) =
    run (http_machine rx buf) 4 (Suc (length pre + length x)) rest (h', on_request_fragment x b)"
proof -
  let ?M = "http_machine rx buf" and ?s = "(h\<lparr>ph_mark := length pre\<rparr>, b)" and ?p = "length pre + length x"
  have "run ?M 20 (length pre) (x @ 0x20 # rest) (h, b) = run ?M 21 ?p (0x20 # rest) ?s"
    using run_enter [OF regular_http, of rx buf 20 rest_chars "[Mark]" "[21]" 22 23 x "length pre" "0x20 # rest" "(h, b)"]
      x target_moves(13-15) by (simp add: enters_def on_parser_def)
  also have "\<dots> = run ?M 4 (Suc ?p) rest (h\<lparr>ph_mark := length pre\<rparr>, on_request_fragment x b)"
    using http_move [of rx buf "[21]" "[(0x20, 0x20)]" "[Fragment]" "[4]" 21 "0x20" ?p rest ?s]
      target_moves(16) slice_at [of pre x "0x20 # rest"] by (simp add: in_ranges_def on_build_def tx)
  finally show ?thesis by blast
qed

text \<open>The version and the end of the request line; \<open>v\<close> is the last digit.\<close>

lemma run_version:
  assumes v: "v = 0x30 \<or> v = 0x31" and tx: "buf = pre @ str ''HTTP/1.'' @ v # crlf @ rest"
  shows "\<exists>h'. run (http_machine rx buf) 4 (length pre) (str ''HTTP/1.'' @ v # crlf @ rest) (h, b) =
    run (http_machine rx buf) 13 (length pre + 10) rest
      (h', b\<lparr>rb_data := (rb_data b)\<lparr>hr_version := if v = 0x31 then 0x11 else 0x10\<rparr>\<rparr>)"
proof -
  let ?M = "http_machine rx buf" and ?s = "(h\<lparr>ph_mark := length pre\<rparr>, b)" and ?p = "length pre"
  let ?s' = "(h\<lparr>ph_mark := length pre\<rparr>, on_request_version (drop ?p buf) 8 b)"
  have "run ?M 4 ?p (0x48 # 0x54 # 0x54 # 0x50 # 0x2F # 0x31 # 0x2E # v # 13 # 10 # rest) (h, b) =
    run ?M 5 (Suc ?p) (0x54 # 0x54 # 0x50 # 0x2F # 0x31 # 0x2E # v # 13 # 10 # rest) ?s"
    using http_move [of rx buf "[4]" "[(0x48, 0x48)]" "[Mark]" "[5]" 4 "0x48" ?p _ "(h, b)"] version_moves(1)
    by (simp add: in_ranges_def on_parser_def)
  also have "\<dots> = run ?M 7 (?p + 3) (0x50 # 0x2F # 0x31 # 0x2E # v # 13 # 10 # rest) ?s"
    using run_chain [OF regular_http, of rx buf "[5, 6, 7]" "[(0x54, 0x54)]" "[0x54, 0x54]" 0 "Suc ?p"]
      version_moves(2) by (simp add: in_ranges_def numeral_3_eq_3)
  also have "\<dots> = run ?M 8 (?p + 4) (0x2F # 0x31 # 0x2E # v # 13 # 10 # rest) ?s"
    using http_move [of rx buf "[7]" "[(0x50, 0x50)]" "[]" "[8]" 7 "0x50" "?p + 3" _ ?s] version_moves(3)
    by (simp add: in_ranges_def add.commute)
  also have "\<dots> = run ?M 9 (?p + 5) (0x31 # 0x2E # v # 13 # 10 # rest) ?s"
    using http_move [of rx buf "[8]" "[(0x2F, 0x2F)]" "[]" "[9]" 8 "0x2F" "?p + 4" _ ?s] version_moves(4)
    by (simp add: in_ranges_def add.commute)
  also have "\<dots> = run ?M 10 (?p + 6) (0x2E # v # 13 # 10 # rest) ?s"
    using http_move [of rx buf "[9]" "[(0x31, 0x31)]" "[]" "[10]" 9 "0x31" "?p + 5" _ ?s] version_moves(5)
    by (simp add: in_ranges_def add.commute)
  also have "\<dots> = run ?M 11 (?p + 7) (v # 13 # 10 # rest) ?s"
    using http_move [of rx buf "[10]" "[(0x2E, 0x2E)]" "[]" "[11]" 10 "0x2E" "?p + 6" _ ?s] version_moves(6)
    by (simp add: in_ranges_def add.commute)
  also have "\<dots> = run ?M 12 (?p + 8) (13 # 10 # rest) ?s"
    using http_move [of rx buf "[11]" "[(0x30, 0x31)]" "[]" "[12]" 11 v "?p + 7" _ ?s] version_moves(7) v
    by (auto simp: in_ranges_def add.commute)
  also have "\<dots> = run ?M 17 (?p + 9) (10 # rest) ?s'"
    using http_move [of rx buf "[12]" "[(0x0D, 0x0D)]" "[Http_version]" "[17]" 12 13 "?p + 8" "10 # rest" ?s]
      version_moves(8) by (simp add: in_ranges_def add.commute on_build_def)
  also have "\<dots> = run ?M 13 (?p + 10) rest ?s'"
    using http_move [of rx buf "[17]" "[(0x0A, 0x0A)]" "[]" "[13]" 17 10 "?p + 9" rest ?s'] version_moves(9)
    by (simp add: in_ranges_def add.commute)
  finally show ?thesis
    using v by (auto simp: tx str_def on_request_version_def strncmp_eq_def c_str_def)
qed

text \<open>A header line, as the dump prints it: no control characters, and no blank behind the colon.\<close>

definition header_text :: "bytes \<times> bytes \<Rightarrow> bool" where
  "header_text kv \<longleftrightarrow>
     fst kv \<noteq> [] \<and> (\<forall>c \<in> set (fst kv). in_ranges token_chars c) \<and>
     (snd kv = [] \<or> in_ranges value_first (hd (snd kv))) \<and> (\<forall>c \<in> set (snd kv). in_ranges value_chars c)"

lemma run_field_name:
  assumes k: "k \<noteq> []" "\<forall>c \<in> set k. in_ranges token_chars c"
  shows "run (http_machine rx buf) 13 p (k @ 0x3A # rest) (h, b) =
    run (http_machine rx buf) 15 (Suc (p + length k)) rest
      (h\<lparr>ph_field_start := p, ph_field_len := length k\<rparr>, b)"
proof -
  let ?M = "http_machine rx buf" and ?s = "(h\<lparr>ph_field_start := p\<rparr>, b)"
  obtain c k' where c: "k = c # k'" using k(1) by (cases k) auto
  have "run ?M 13 p (k @ 0x3A # rest) (h, b) = run ?M 14 (Suc p) (k' @ 0x3A # rest) ?s"
    using http_move [of rx buf "[13]" token_chars "[Start_field]" "[14]" 13 c p "k' @ 0x3A # rest" "(h, b)"] k(2)
      header_moves(1) by (simp add: c on_parser_def)
  also have "\<dots> = run ?M 14 (p + length k) (0x3A # rest) ?s"
    using run_through [OF regular_http, of rx buf "[14]" token_chars 14 k' "Suc p" "0x3A # rest" ?s] k(2)
      header_moves(2) by (simp add: c)
  also have "\<dots> = run ?M 15 (Suc (p + length k)) rest (h\<lparr>ph_field_start := p, ph_field_len := length k\<rparr>, b)"
    using http_move [of rx buf "[14]" "[(0x3A, 0x3A)]" "[Write_field]" "[15]" 14 "0x3A" "p + length k" rest ?s]
      header_moves(3) by (simp add: in_ranges_def on_parser_def)
  finally show ?thesis .
qed

text \<open>The value of a header from its first character; the name was marked before.\<close>

lemma run_field_value:
  assumes v: "v = [] \<or> in_ranges value_first (hd v)" "\<forall>c \<in> set v. in_ranges value_chars c"
    and tx: "buf = pre @ v @ crlf @ rest"
  shows "\<exists>h'. run (http_machine rx buf) 15 (length pre) (v @ crlf @ rest) (h, b) =
    run (http_machine rx buf) 13 (length pre + length v + 2) rest
      (h', on_request_http_field (take (ph_field_len h) (drop (ph_field_start h) buf)) v b)"
proof -
  let ?M = "http_machine rx buf" and ?p = "length pre + length v" and ?s = "(h\<lparr>ph_mark := length pre\<rparr>, b)"
  let ?s' = "(h\<lparr>ph_mark := length pre\<rparr>,
    on_request_http_field (take (ph_field_len h) (drop (ph_field_start h) buf)) v b)"
  have "run ?M 15 (length pre) (v @ 13 # 10 # rest) (h, b) = run ?M 17 (Suc ?p) (10 # rest) ?s'"
  proof (cases v)
    case Nil
    then show ?thesis
      using http_move [of rx buf "[15]" "[(0x0D, 0x0D)]" "[Start_value, Write_value]" "[17]" 15 13 "length pre" "10 # rest" "(h, b)"]
        header_moves(7) by (simp add: in_ranges_def on_parser_def on_build_def slice_def)
  next
    case (Cons c v')
    have "run ?M 15 (length pre) (v @ 13 # 10 # rest) (h, b) = run ?M 16 (Suc (length pre)) (v' @ 13 # 10 # rest) ?s"
      using http_move [of rx buf "[15]" value_first "[Start_value]" "[16]" 15 c "length pre" "v' @ 13 # 10 # rest" "(h, b)"]
        v(1) header_moves(5) by (simp add: Cons on_parser_def)
    also have "\<dots> = run ?M 16 ?p (13 # 10 # rest) ?s"
      using run_through [OF regular_http, of rx buf "[16]" value_chars 16 v' "Suc (length pre)" "13 # 10 # rest" ?s]
        v(2) header_moves(6) by (simp add: Cons)
    also have "\<dots> = run ?M 17 (Suc ?p) (10 # rest) ?s'"
      using http_move [of rx buf "[16]" "[(0x0D, 0x0D)]" "[Write_value]" "[17]" 16 13 ?p "10 # rest" ?s]
        header_moves(8) slice_at [of pre v "crlf @ rest"] by (simp add: in_ranges_def on_build_def tx)
    finally show ?thesis .
  qed
  also have "run ?M 17 (Suc ?p) (10 # rest) ?s' = run ?M 13 (?p + 2) rest ?s'"
    using http_move [of rx buf "[17]" "[(0x0A, 0x0A)]" "[]" "[13]" 17 10 "Suc ?p" rest ?s'] version_moves(9)
    by (simp add: in_ranges_def)
  finally show ?thesis by auto
qed

lemma run_header:
  assumes kv: "header_text kv" and tx: "buf = pre @ fst kv @ 0x3A # snd kv @ crlf @ rest"
  shows "\<exists>h'. run (http_machine rx buf) 13 (length pre) (fst kv @ 0x3A # snd kv @ crlf @ rest) (h, b) =
    run (http_machine rx buf) 13 (length (pre @ fst kv @ 0x3A # snd kv @ crlf)) rest
      (h', b\<lparr>rb_data := req_setHeader (fst kv) (snd kv) (rb_data b)\<rparr>)"
proof -
  note k = kv [unfolded header_text_def]
  have "take (length (fst kv)) (drop (length pre) buf) = fst kv" by (simp add: tx)
  then show ?thesis
    using run_field_name [of "fst kv" rx buf "length pre" "snd kv @ crlf @ rest" h b] k
      run_field_value [of "snd kv" buf "pre @ fst kv @ [0x3A]" rest rx
        "h\<lparr>ph_field_start := length pre, ph_field_len := length (fst kv)\<rparr>" b]
    by (auto simp: tx on_request_http_field_def add.assoc)
qed

section \<open>Whole heads\<close>

definition header_lines :: "bytes ci_map \<Rightarrow> bytes" where
  "header_lines hs = concat (map (\<lambda>(k, v). k @ str '':'' @ v @ crlf) hs)"

definition set_headers :: "bytes ci_map \<Rightarrow> http_request \<Rightarrow> http_request" where
  "set_headers hs r = fold (\<lambda>(k, v). req_setHeader k v) hs r"

lemma run_headers:
  "\<forall>kv \<in> set hs. header_text kv \<Longrightarrow> buf = pre @ header_lines hs @ rest \<Longrightarrow>
   \<exists>h'. run (http_machine rx buf) 13 (length pre) (header_lines hs @ rest) (h, b) =
     run (http_machine rx buf) 13 (length (pre @ header_lines hs)) rest
       (h', b\<lparr>rb_data := set_headers hs (rb_data b)\<rparr>)"
proof (induction hs arbitrary: pre h b)
  case Nil
  then show ?case by (auto simp: header_lines_def set_headers_def)
next
  case (Cons kv hs)
  obtain k v where kv: "kv = (k, v)" by (cases kv)
  let ?l = "k @ 0x3A # v @ crlf" and ?b = "b\<lparr>rb_data := req_setHeader k v (rb_data b)\<rparr>"
  have lines: "header_lines (kv # hs) @ rest = k @ 0x3A # v @ crlf @ (header_lines hs @ rest)"
    by (simp add: header_lines_def kv str_def)
  obtain h1 where h1: "run (http_machine rx buf) 13 (length pre) (k @ 0x3A # v @ crlf @ (header_lines hs @ rest)) (h, b) =
      run (http_machine rx buf) 13 (length (pre @ ?l)) (header_lines hs @ rest) (h1, ?b)"
    using run_header [of "(k, v)" buf pre "header_lines hs @ rest" rx h b] Cons.prems kv lines by auto
  obtain h2 where "run (http_machine rx buf) 13 (length (pre @ ?l)) (header_lines hs @ rest) (h1, ?b) =
      run (http_machine rx buf) 13 (length ((pre @ ?l) @ header_lines hs)) rest
        (h2, ?b\<lparr>rb_data := set_headers hs (rb_data ?b)\<rparr>)"
    using Cons.IH [of "pre @ ?l" h1 ?b] Cons.prems lines by auto
  then have "run (http_machine rx buf) 13 (length pre) (header_lines (kv # hs) @ rest) (h, b) =
      run (http_machine rx buf) 13 (length (pre @ header_lines (kv # hs))) rest
        (h2, b\<lparr>rb_data := set_headers (kv # hs) (rb_data b)\<rparr>)"
    using h1 by (simp add: lines kv set_headers_def) (simp add: header_lines_def str_def)
  then show ?case by blast
qed

text \<open>The line of the length, which \<open>dump\<close> prints with a blank, and the empty line.\<close>

lemma run_length_line:
  assumes tx: "buf = pre @ str ''content-length: '' @ decimal n @ crlf @ rest"
  shows "\<exists>h'. run (http_machine rx buf) 13 (length pre) (str ''content-length: '' @ decimal n @ crlf @ rest) (h, b) =
    run (http_machine rx buf) 13 (length (pre @ str ''content-length: '' @ decimal n @ crlf)) rest
      (h', b\<lparr>rb_data := req_setHeader (str ''content-length'') (decimal n) (rb_data b)\<rparr>)"
proof -
  let ?M = "http_machine rx buf" and ?k = "str ''content-length''"
  let ?pre = "pre @ ?k @ [0x3A]"
  let ?h = "h\<lparr>ph_field_start := length pre, ph_field_len := length ?k\<rparr>"
  have line: "str ''content-length: '' = ?k @ [0x3A, 0x20]" by (simp add: str_def)
  have k: "?k \<noteq> []" "\<forall>c \<in> set ?k. in_ranges token_chars c"
    by (simp_all add: str_def in_ranges_def token_chars_def)
  have digit: "in_ranges value_first c" "in_ranges value_chars c" if "c \<in> set (decimal n)" for c
  proof -
    have "0x30 \<le> sint c \<and> sint c \<le> 0x39"
      using decimal_chars [OF that] by (simp add: in_ranges_def)
    then show "in_ranges value_first c" "in_ranges value_chars c"
      by (auto simp: in_ranges_def value_first_def value_chars_def)
  qed
  obtain d ds where d: "decimal n = d # ds" using decimal_hd [of n] by auto
  have name: "run ?M 13 (length pre) (?k @ 0x3A # 0x20 # decimal n @ crlf @ rest) (h, b) =
    run ?M 15 (length ?pre) (0x20 # decimal n @ crlf @ rest) (?h, b)"
    using run_field_name [OF k, of rx buf "length pre" "0x20 # decimal n @ crlf @ rest" h b] by simp
  have blank: "run ?M 15 (length ?pre) (0x20 # decimal n @ crlf @ rest) (?h, b) =
    run ?M 15 (length (?pre @ [0x20])) (decimal n @ crlf @ rest) (?h\<lparr>ph_mark := length ?pre\<rparr>, b)"
    using http_move [of rx buf "[15]" "[(0x20, 0x20)]" "[Start_value]" "[15]" 15 "0x20" "length ?pre" _ "(?h, b)"]
      header_moves(4) by (simp add: in_ranges_def on_parser_def)
  have "buf = (?pre @ [0x20]) @ decimal n @ crlf @ rest" "take (length ?k) (drop (length pre) buf) = ?k"
    by (simp_all add: tx line)
  then obtain h' where
    "run ?M 15 (length (?pre @ [0x20])) (decimal n @ crlf @ rest) (?h\<lparr>ph_mark := length ?pre\<rparr>, b) =
      run ?M 13 (length (?pre @ [0x20]) + length (decimal n) + 2) rest
        (h', b\<lparr>rb_data := req_setHeader ?k (decimal n) (rb_data b)\<rparr>)"
    using run_field_value [of "decimal n" buf "?pre @ [0x20]" rest rx "?h\<lparr>ph_mark := length ?pre\<rparr>" b] digit d
    by (auto simp: on_request_http_field_def str_def)
  with name blank have "run ?M 13 (length pre) (?k @ 0x3A # 0x20 # decimal n @ crlf @ rest) (h, b) =
      run ?M 13 (length (?pre @ [0x20]) + length (decimal n) + 2) rest
        (h', b\<lparr>rb_data := req_setHeader ?k (decimal n) (rb_data b)\<rparr>)"
    by metis
  then show ?thesis by (auto simp: line add.assoc)
qed

lemma run_empty_line:
  "\<exists>h'. run (http_machine rx buf) 13 p (crlf @ rest) (h, b) = Inr (348, p + 2, h', b)"
proof -
  let ?M = "http_machine rx buf" and ?s = "(h\<lparr>ph_field_start := p\<rparr>, b)"
  have "run ?M 13 p (13 # 10 # rest) (h, b) = run ?M 18 (Suc p) (10 # rest) ?s"
    using http_move [of rx buf "[13]" "[(0x0D, 0x0D)]" "[Start_field]" "[18]" 13 13 p "10 # rest" "(h, b)"]
      header_moves(9) by (simp add: in_ranges_def on_parser_def)
  moreover obtain cs where "switch_cs (m_wide ?M) (m_table ?M) 18 (sint (10 :: u8)) = Some ([Done], cs)" "cs = 348"
    using moves_toD [OF regular_http, of rx buf "[18]" "[(0x0A, 0x0A)]" "[Done]" "[348]" 18 10] header_moves(10)
    by (auto simp: in_ranges_def)
  ultimately show ?thesis
    by (auto simp: run.simps on_parser_def)
qed

text \<open>Headers in the order of their map give the map back.\<close>

lemma ci_put_last: "ci_ok (m @ [(k, v)]) \<Longrightarrow> ci_put k v m = m @ [(k, v)]"
proof (induction m)
  case (Cons p m)
  then have "CaseInsensitiveLess (fst p) k" "ci_ok (m @ [(k, v)])"
    by (auto simp: ci_ok_def folded_def CaseInsensitiveLess_def sorted_map_def)
  then show ?case using Cons.IH by (cases p) (auto simp: CaseInsensitiveLess_def)
qed simp

lemma ci_ok_append: "ci_ok (m @ n) \<Longrightarrow> ci_ok m"
  by (auto simp: ci_ok_def folded_def sorted_map_def sorted_wrt_append)

lemma set_headers_all:
  "ci_ok (m @ hs) \<Longrightarrow> hr_headers r = m \<Longrightarrow> set_headers hs r = r\<lparr>hr_headers := m @ hs\<rparr>"
proof (induction hs arbitrary: m r)
  case (Cons kv hs)
  obtain k v where kv: "kv = (k, v)" by (cases kv)
  have "ci_ok (m @ [(k, v)])" using Cons.prems(1) ci_ok_append [of "m @ [(k, v)]" hs] by (simp add: kv)
  then have "hr_headers (req_setHeader k v r) = m @ [(k, v)]"
    using Cons.prems(2) by (simp add: req_setHeader_def ci_put_last)
  then show ?case
    using Cons.IH [of "m @ [(k, v)]" "req_setHeader k v r"] Cons.prems(1)
    by (simp add: kv set_headers_def req_setHeader_def)
qed (simp add: set_headers_def)

section \<open>The head of a request\<close>

definition target_text :: "bytes \<Rightarrow> bytes \<Rightarrow> bytes \<Rightarrow> bytes" where
  "target_text x q f = x @ (if q = [] then [] else 0x3F # q) @ (if f = [] then [] else 0x23 # f)"

lemma run_fragment_part:
  assumes "escaped_text rest_chars f" "f \<noteq> []" "buf = pre @ f @ 0x20 # rest"
  obtains h' where "run (http_machine rx buf) 20 (length pre) (f @ 0x20 # rest) (h, b) =
    run (http_machine rx buf) 4 (length (pre @ f) + 1) rest (h', on_request_fragment f b)"
  using run_fragment [OF assms, of rx h b] that by auto

lemma no_query:
  "hr_query d = [] \<Longrightarrow> hr_fragment d = [] \<Longrightarrow> d\<lparr>hr_path := x, hr_query := [], hr_fragment := f\<rparr> = d\<lparr>hr_path := x, hr_fragment := f\<rparr>"
  "hr_fragment d = [] \<Longrightarrow> d\<lparr>hr_path := x, hr_query := q, hr_fragment := []\<rparr> = d\<lparr>hr_path := x, hr_query := q\<rparr>"
  "hr_fragment d = [] \<Longrightarrow> d\<lparr>hr_path := x, hr_fragment := []\<rparr> = d\<lparr>hr_path := x\<rparr>"
  by (cases d; simp)+

lemma run_target:
  assumes x: "path_text x" "escaped_text rest_chars q" "escaped_text rest_chars f"
    and tx: "buf = pre @ target_text x q f @ 0x20 # rest"
    and b: "hr_query (rb_data b) = []" "hr_fragment (rb_data b) = []"
  shows "\<exists>h'. run (http_machine rx buf) 3 (length pre) (target_text x q f @ 0x20 # rest) (h, b) =
    run (http_machine rx buf) 4 (length pre + length (target_text x q f) + 1) rest
      (h', b\<lparr>rb_data := (rb_data b)\<lparr>hr_path := x, hr_query := q, hr_fragment := f\<rparr>\<rparr>)"
proof -
  let ?M = "http_machine rx buf"
  have ends: "(0x20, 4) \<in> set target_ends" "(0x3F, 29) \<in> set target_ends" "(0x23, 20) \<in> set target_ends"
    by (simp_all add: target_ends_def)
  note defs = on_request_path_def on_request_query_def on_request_fragment_def target_text_def no_query
  show ?thesis
  proof (cases "q = []")
    case q: True
    show ?thesis
    proof (cases "f = []")
      case True
      then show ?thesis
        using run_path [OF x(1) ends(1), of buf pre rest rx h b] b q tx by (auto simp: defs)
    next
      case False
      obtain h1 where h1: "run ?M 3 (length pre) (x @ 0x23 # f @ 0x20 # rest) (h, b) =
          run ?M 20 (length (pre @ x @ [0x23])) (f @ 0x20 # rest) (h1, on_request_path x b)"
        using run_path [OF x(1) ends(3), of buf pre "f @ 0x20 # rest" rx h b] q False tx by (auto simp: defs)
      then show ?thesis
        using run_fragment_part [OF x(3) False, of buf "pre @ x @ [0x23]" rest rx h1 "on_request_path x b"] b q False tx
        by (auto simp: defs add.assoc)
    qed
  next
    case q: False
    obtain h1 where h1: "run ?M 3 (length pre) (target_text x q f @ 0x20 # rest) (h, b) =
        run ?M 29 (length (pre @ x @ [0x3F])) (q @ (if f = [] then [] else 0x23 # f) @ 0x20 # rest) (h1, on_request_path x b)"
      using run_path [OF x(1) ends(2), of buf pre "q @ (if f = [] then [] else 0x23 # f) @ 0x20 # rest" rx h b] q tx
      by (auto simp: target_text_def)
    show ?thesis
    proof (cases "f = []")
      case True
      then show ?thesis
        using h1 run_query [OF x(2) q, of "0x20" 4 buf "pre @ x @ [0x3F]" rest rx h1 "on_request_path x b"] b q tx
        by (auto simp: defs add.assoc)
    next
      case False
      obtain h2 where h2: "run ?M 29 (length (pre @ x @ [0x3F])) (q @ 0x23 # f @ 0x20 # rest) (h1, on_request_path x b) =
          run ?M 20 (length (pre @ x @ [0x3F] @ q @ [0x23])) (f @ 0x20 # rest) (h2, on_request_query q (on_request_path x b))"
        using run_query [OF x(2) q, of "0x23" 20 buf "pre @ x @ [0x3F]" "f @ 0x20 # rest" rx h1 "on_request_path x b"]
          q False tx by (auto simp: defs add.assoc)
      show ?thesis
        using h1 h2 run_fragment_part [OF x(3) False, of buf "pre @ x @ [0x3F] @ q @ [0x23]" rest rx h2
            "on_request_query q (on_request_path x b)"] b q False tx
        by (auto simp: defs add.assoc)
    qed
  qed
qed

text \<open>
  The requests whose head is in the grammar of the parser. A header of the length would be overwritten by
  the one that is printed for the body.
\<close>

definition printable_request :: "http_request \<Rightarrow> bool" where
  "printable_request r \<longleftrightarrow>
     hr_method r \<noteq> INVALID_METHOD \<and> hr_method r \<noteq> MSEARCH \<and> hr_version r \<in> {0x10, 0x11} \<and>
     path_text (hr_path r) \<and> escaped_text rest_chars (hr_query r) \<and> escaped_text rest_chars (hr_fragment r) \<and>
     ci_ok (hr_headers r) \<and> (\<forall>kv \<in> set (hr_headers r). header_text kv) \<and>
     ci_get (str ''content-length'') (hr_headers r) = None"

text \<open>What \<open>dump\<close> prints before the body, and the request the parser makes of it.\<close>

definition req_head :: "http_request \<Rightarrow> bytes" where
  "req_head r =
     HttpMethodToString (hr_method r) @ 0x20 # target_text (hr_path r) (hr_query r) (hr_fragment r) @ 0x20 #
     str ''HTTP/1.'' @ (if hr_version r = 0x11 then 0x31 else 0x30) # crlf @ header_lines (hr_headers r) @
     (if hr_body r = [] then [] else str ''content-length: '' @ decimal (length (hr_body r)) @ crlf) @ crlf"

definition parsed_request :: "http_request \<Rightarrow> http_request" where
  "parsed_request r =
     (new_HttpRequest (hr_version r) True)
       \<lparr>hr_method := hr_method r, hr_path := hr_path r, hr_query := hr_query r, hr_fragment := hr_fragment r,
        hr_headers :=
          (if hr_body r = [] then hr_headers r
           else ci_put (str ''content-length'') (decimal (length (hr_body r))) (hr_headers r))\<rparr>"

lemma version_texts: "version_text 0x10 = [0x31, 0x2E, 0x30]" "version_text 0x11 = [0x31, 0x2E, 0x31]"
  by code_simp+

text \<open>A text in two parts whose second part lies in the body.\<close>

lemma cut_in_body:
  assumes "head @ body = first @ missing" "length missing \<le> length body"
  shows "\<exists>data. first = head @ data \<and> body = data @ missing"
  using assms by (auto simp: append_eq_append_conv2)

lemma req_dump_head: "hr_version r \<in> {0x10, 0x11} \<Longrightarrow> req_dump r = req_head r @ hr_body r"
  by (auto simp: req_dump_def req_head_def target_text_def header_lines_def version_texts body_text_def str_def)

lemma method_texts:
  "list_all (\<lambda>p. fst p = MSEARCH \<or> snd p \<noteq> [] \<and> length (snd p) \<le> 20 \<and>
     list_all (in_ranges method_chars) (str (snd p))) method_table"
  by code_simp

lemma method_text:
  assumes "m \<noteq> INVALID_METHOD" "m \<noteq> MSEARCH"
  shows "HttpMethodToString m \<noteq> []" "length (HttpMethodToString m) \<le> 20"
    "\<forall>b \<in> set (HttpMethodToString m). in_ranges method_chars b"
proof -
  obtain s where s: "(m, s) \<in> set method_table" using in_method_table [OF assms(1)] by blast
  then have "HttpMethodToString m = str s"
    using method_names by (auto simp: HttpMethodToString_def list_all_iff)
  then show "HttpMethodToString m \<noteq> []" "length (HttpMethodToString m) \<le> 20"
    "\<forall>b \<in> set (HttpMethodToString m). in_ranges method_chars b"
    using s method_texts assms(2) by (auto simp: list_all_iff str_def)
qed

lemma run_length_part:
  assumes "buf = pre @ (if n = 0 then [] else str ''content-length: '' @ decimal n @ crlf) @ crlf @ rest"
  shows "\<exists>h'. run (http_machine rx buf) 13 (length pre)
      ((if n = 0 then [] else str ''content-length: '' @ decimal n @ crlf) @ crlf @ rest) (h, b) =
    Inr (348, length buf - length rest, h',
      if n = 0 then b else b\<lparr>rb_data := req_setHeader (str ''content-length'') (decimal n) (rb_data b)\<rparr>)"
proof (cases "n = 0")
  case True
  then show ?thesis using run_empty_line [of rx buf "length pre" rest h b] assms by simp
next
  case False
  define l where "l = str ''content-length: '' @ decimal n @ crlf"
  let ?b = "b\<lparr>rb_data := req_setHeader (str ''content-length'') (decimal n) (rb_data b)\<rparr>"
  have buf: "buf = pre @ l @ crlf @ rest" using assms False by (simp add: l_def)
  obtain h1 where h1: "run (http_machine rx buf) 13 (length pre) (l @ crlf @ rest) (h, b) =
      run (http_machine rx buf) 13 (length (pre @ l)) (crlf @ rest) (h1, ?b)"
    using run_length_line [of buf pre n "crlf @ rest" rx h b] buf by (auto simp: l_def)
  obtain h2 where "run (http_machine rx buf) 13 (length (pre @ l)) (crlf @ rest) (h1, ?b) =
      Inr (348, length (pre @ l) + 2, h2, ?b)"
    using run_empty_line by blast
  moreover have "length (pre @ l) + 2 = length buf - length rest" by (simp add: buf)
  ultimately have "run (http_machine rx buf) 13 (length pre) (l @ crlf @ rest) (h, b) =
      Inr (348, length buf - length rest, h2, ?b)"
    using h1 by simp
  then show ?thesis using False by (auto simp: l_def)
qed

text \<open>
  The parts of a head: the target is behind the method, the version line behind the target, then the headers
  and the line of the length.
\<close>

definition version_line :: "http_request \<Rightarrow> bytes" where
  "version_line r = str ''HTTP/1.'' @ (if hr_version r = 0x11 then 0x31 else 0x30) # crlf"

definition length_line :: "http_request \<Rightarrow> bytes" where
  "length_line r = (if hr_body r = [] then [] else str ''content-length: '' @ decimal (length (hr_body r)) @ crlf)"

lemma req_head_parts:
  "req_head r = HttpMethodToString (hr_method r) @ 0x20 # target_text (hr_path r) (hr_query r) (hr_fragment r) @ 0x20 #
     version_line r @ header_lines (hr_headers r) @ length_line r @ crlf"
  by (simp add: req_head_def version_line_def length_line_def)

text \<open>What is built before the headers.\<close>

definition built_target :: "http_request \<Rightarrow> request_build" where
  "built_target r =
     new_request_build\<lparr>rb_data := (new_HttpRequest 0x11 True)
       \<lparr>hr_method := hr_method r, hr_path := hr_path r, hr_query := hr_query r, hr_fragment := hr_fragment r\<rparr>\<rparr>"

lemma run_method_of:
  assumes r: "printable_request r" and tx: "buf = HttpMethodToString (hr_method r) @ 0x20 # rest"
  shows "\<exists>h'. run (http_machine rx buf) 1 0 buf (h, new_request_build) =
    run (http_machine rx buf) 3 (length (HttpMethodToString (hr_method r) @ [0x20])) rest
      (h', new_request_build\<lparr>rb_data := (new_HttpRequest 0x11 True)\<lparr>hr_method := hr_method r\<rparr>\<rparr>)"
proof -
  note r = r [unfolded printable_request_def]
  have "CharsToHttpMethod buf = hr_method r"
    using methods_roundtrip [of "hr_method r"] r by (auto simp: tx)
  then show ?thesis
    using run_method [of "HttpMethodToString (hr_method r)" buf rest rx h new_request_build]
      method_text [of "hr_method r"] r
    by (auto simp: tx on_request_method_def new_request_build_def)
qed

text \<open>From the version to the first header.\<close>

lemma run_version_line:
  assumes r: "printable_request r" and tx: "buf = pre @ version_line r @ rest"
  shows "\<exists>h'. run (http_machine rx buf) 4 (length pre) (version_line r @ rest) (h, b) =
    run (http_machine rx buf) 13 (length (pre @ version_line r)) rest
      (h', b\<lparr>rb_data := (rb_data b)\<lparr>hr_version := hr_version r\<rparr>\<rparr>)"
proof -
  define v :: u8 where "v = (if hr_version r = 0x11 then 0x31 else 0x30)"
  have v: "v = 0x30 \<or> v = 0x31" and tx': "buf = pre @ str ''HTTP/1.'' @ v # crlf @ rest"
    by (simp_all add: v_def tx version_line_def)
  have len: "length (pre @ version_line r) = length pre + 10" by (simp add: version_line_def str_def)
  have ver: "(if v = 0x31 then 0x11 else 0x10) = hr_version r"
    using r by (auto simp: v_def printable_request_def)
  have line: "version_line r @ rest = str ''HTTP/1.'' @ v # crlf @ rest"
    by (simp add: version_line_def v_def)
  show ?thesis
    using run_version [OF v tx', of rx h b] unfolding len ver line by blast
qed

text \<open>Headers \<open>hs\<close> behind those already built, the length and the empty line.\<close>

definition with_length :: "http_request \<Rightarrow> bytes ci_map \<Rightarrow> bytes ci_map" where
  "with_length r hs =
     (if hr_body r = [] then hs else ci_put (str ''content-length'') (decimal (length (hr_body r))) hs)"

lemma run_header_part:
  assumes hs: "\<forall>kv \<in> set hs. header_text kv" "ci_ok (hr_headers (rb_data b) @ hs)"
    and tx: "buf = pre @ header_lines hs @ length_line r @ crlf @ rest"
  shows "\<exists>h'. run (http_machine rx buf) 13 (length pre) (header_lines hs @ length_line r @ crlf @ rest) (h, b) =
    Inr (348, length buf - length rest, h',
      b\<lparr>rb_data := (rb_data b)\<lparr>hr_headers := with_length r (hr_headers (rb_data b) @ hs)\<rparr>\<rparr>)"
proof -
  let ?b = "b\<lparr>rb_data := (rb_data b)\<lparr>hr_headers := hr_headers (rb_data b) @ hs\<rparr>\<rparr>"
  obtain h1 where h1: "run (http_machine rx buf) 13 (length pre) (header_lines hs @ length_line r @ crlf @ rest) (h, b) =
      run (http_machine rx buf) 13 (length (pre @ header_lines hs)) (length_line r @ crlf @ rest) (h1, ?b)"
    using run_headers [OF hs(1) tx, of rx h b] set_headers_all [OF hs(2) refl] by auto
  have line: "length_line r =
      (if length (hr_body r) = 0 then [] else str ''content-length: '' @ decimal (length (hr_body r)) @ crlf)"
    by (simp add: length_line_def)
  have "buf = (pre @ header_lines hs) @
      (if length (hr_body r) = 0 then [] else str ''content-length: '' @ decimal (length (hr_body r)) @ crlf) @ crlf @ rest"
    using tx line by simp
  from run_length_part [OF this, of rx h1 ?b] obtain h2 where
    "run (http_machine rx buf) 13 (length (pre @ header_lines hs)) (length_line r @ crlf @ rest) (h1, ?b) =
      Inr (348, length buf - length rest, h2,
        if hr_body r = [] then ?b
        else ?b\<lparr>rb_data := req_setHeader (str ''content-length'') (decimal (length (hr_body r))) (rb_data ?b)\<rparr>)"
    unfolding line [symmetric] by auto
  then show ?thesis
    using h1 by (auto simp: with_length_def req_setHeader_def)
qed

lemma run_after_target:
  assumes r: "printable_request r" and b: "hr_headers (rb_data b) = []"
    and tx: "buf = pre @ version_line r @ header_lines (hr_headers r) @ length_line r @ crlf @ rest"
  shows "\<exists>h'. run (http_machine rx buf) 4 (length pre)
      (version_line r @ header_lines (hr_headers r) @ length_line r @ crlf @ rest) (h, b) =
    Inr (348, length buf - length rest, h',
      b\<lparr>rb_data := (rb_data b)\<lparr>hr_version := hr_version r, hr_headers := with_length r (hr_headers r)\<rparr>\<rparr>)"
proof -
  let ?b = "b\<lparr>rb_data := (rb_data b)\<lparr>hr_version := hr_version r\<rparr>\<rparr>"
  obtain h1 where h1: "run (http_machine rx buf) 4 (length pre)
        (version_line r @ header_lines (hr_headers r) @ length_line r @ crlf @ rest) (h, b) =
      run (http_machine rx buf) 13 (length (pre @ version_line r))
        (header_lines (hr_headers r) @ length_line r @ crlf @ rest) (h1, ?b)"
    using run_version_line [OF r tx, of rx h b] by blast
  have "buf = (pre @ version_line r) @ header_lines (hr_headers r) @ length_line r @ crlf @ rest"
    using tx by simp
  moreover have "\<forall>kv \<in> set (hr_headers r). header_text kv" "ci_ok (hr_headers (rb_data ?b) @ hr_headers r)"
    using r b by (auto simp: printable_request_def)
  ultimately show ?thesis
    using run_header_part [of "hr_headers r" ?b buf "pre @ version_line r" r rest rx h1] h1 b by auto
qed

text \<open>The run over a whole head.\<close>

lemma run_head:
  assumes r: "printable_request r"
  shows "\<exists>h'. run (http_machine rx (req_head r @ data)) 1 0 (req_head r @ data) (h, new_request_build) =
    Inr (348, length (req_head r), h', new_request_build\<lparr>rb_data := parsed_request r\<rparr>)"
proof -
  define t where "t = target_text (hr_path r) (hr_query r) (hr_fragment r)"
  define m where "m = HttpMethodToString (hr_method r) @ [0x20]"
  define tail where "tail = version_line r @ header_lines (hr_headers r) @ length_line r @ crlf @ data"
  define buf where "buf = req_head r @ data"
  have buf: "buf = m @ t @ 0x20 # tail"
    by (simp add: buf_def req_head_parts m_def t_def tail_def)
  let ?M = "http_machine rx buf"
  obtain h1 b1 where s1: "run ?M 1 0 buf (h, new_request_build) = run ?M 3 (length m) (t @ 0x20 # tail) (h1, b1)"
    and b1: "b1 = new_request_build\<lparr>rb_data := (new_HttpRequest 0x11 True)\<lparr>hr_method := hr_method r\<rparr>\<rparr>"
    using run_method_of [OF r, of buf "t @ 0x20 # tail" rx h] by (auto simp: buf m_def)
  obtain h2 where s2: "run ?M 3 (length m) (t @ 0x20 # tail) (h1, b1) =
      run ?M 4 (length (m @ t @ [0x20])) tail (h2, built_target r)"
    using run_target [of "hr_path r" "hr_query r" "hr_fragment r" buf m tail b1 rx h1] r
    by (auto simp: buf t_def b1 printable_request_def built_target_def new_HttpRequest_def)
  have "buf = (m @ t @ [0x20]) @ version_line r @ header_lines (hr_headers r) @ length_line r @ crlf @ data"
    by (simp add: buf tail_def)
  moreover have "hr_headers (rb_data (built_target r)) = []"
    by (simp add: built_target_def new_HttpRequest_def)
  ultimately obtain h3 where "run ?M 4 (length (m @ t @ [0x20])) tail (h2, built_target r) =
      Inr (348, length buf - length data, h3, (built_target r)\<lparr>rb_data := (rb_data (built_target r))
        \<lparr>hr_version := hr_version r, hr_headers := with_length r (hr_headers r)\<rparr>\<rparr>)"
    using run_after_target [OF r, of "built_target r" buf "m @ t @ [0x20]" data rx h2] unfolding tail_def by blast
  moreover have "length buf - length data = length (req_head r)"
    by (simp add: buf_def)
  moreover have "(built_target r)\<lparr>rb_data := (rb_data (built_target r))
        \<lparr>hr_version := hr_version r, hr_headers := with_length r (hr_headers r)\<rparr>\<rparr> =
      new_request_build\<lparr>rb_data := parsed_request r\<rparr>"
    by (simp add: built_target_def parsed_request_def with_length_def new_HttpRequest_def)
  ultimately show ?thesis
    using s1 s2 by (auto simp: buf_def [symmetric])
qed

end
