(* ===== verification/HttpEndToEnd.thy ===== *)
theory HttpEndToEnd
  imports RequestRoundtrip
begin

text \<open>
  A request from \<open>HttpRequest::dump\<close> to \<open>HttpSession::recvRequest\<close>, with the parser of the repository: in one
  read it arrives as it was sent; what is lost when its head arrives in two.
\<close>

section \<open>One read\<close>

lemma new_parser [simp]:
  "ph_cs (http_parser_init qs rx) = 1" "ph_uri_relaxed (http_parser_init qs rx) = rx"
  "ph_body_start (http_parser_init qs rx) = 0" "ph_query_start (http_parser_init qs rx) = qs"
  by (simp_all add: http_parser_init_def)

lemma http_parser_fields [simp]:
  "rp_init (HttpRequestParser qs rx) = (http_parser_init qs rx, new_request_build)"
  "rp_execute (HttpRequestParser qs rx) = http_parser_execute"
  "rp_finished (HttpRequestParser qs rx) s \<longleftrightarrow> ph_cs (fst s) = 0 \<or> 348 \<le> ph_cs (fst s)"
  "rp_has_error (HttpRequestParser qs rx) s \<longleftrightarrow> ph_cs (fst s) = 0"
  "rp_build (HttpRequestParser qs rx) s = snd s"
  by (simp_all add: HttpRequestParser_def http_parser_finish_def http_parser_has_error_def http_parser_is_finished_def)

lemma parsed_head:
  assumes "printable_request r"
  shows "parses_head (HttpRequestParser qs rx) (req_head r) (parsed_request r)"
  unfolding parses_head_def
proof
  fix data
  let ?s = "(http_parser_init qs rx, new_request_build)"
  obtain h where h: "run (http_machine rx (req_head r @ data)) 1 0 (req_head r @ data)
      (restarted (http_parser_init qs rx), new_request_build) =
    Inr (348, length (req_head r), h, new_request_build\<lparr>rb_data := parsed_request r\<rparr>)"
    using run_head [OF assms] by blast
  have "req_head r @ data \<noteq> []" by (simp add: req_head_def)
  then have "http_parser_execute (req_head r @ data) ?s =
      Inr (length (req_head r), h\<lparr>ph_cs := 348, ph_nread := length (req_head r)\<rparr>,
        new_request_build\<lparr>rb_data := parsed_request r\<rparr>)"
    using execute_returns [of ?s "req_head r @ data" 348 "length (req_head r)" h] h by simp
  then show "case rp_execute (HttpRequestParser qs rx) (req_head r @ data) (rp_init (HttpRequestParser qs rx)) of
      Inl e \<Rightarrow> False | Inr (n, p) \<Rightarrow> n = length (req_head r) \<and> rp_finished (HttpRequestParser qs rx) p \<and>
        \<not> rp_hasError (HttpRequestParser qs rx) p \<and> rb_data (rp_build (HttpRequestParser qs rx) p) = parsed_request r"
    by (simp add: rp_hasError_def new_request_build_def)
qed

text \<open>The length that the session reads from the header; \<open>cast\<close> reads the decimal numbers of a \<open>uint64_t\<close>.\<close>

lemma parsed_length:
  assumes "printable_request r" "\<And>n. n < 2 ^ 64 \<Longrightarrow> cast (decimal n) = Some (of_nat n)" "length (hr_body r) < 2 ^ 63"
  shows "sint (rp_getContentLength cast (parsed_request r)) = int (length (hr_body r))"
proof (cases "hr_body r = []")
  case True
  then show ?thesis
    using assms(1) by (simp add: parsed_request_def rp_getContentLength_def printable_request_def)
next
  case False
  have "length (hr_body r) < 2 ^ 64" using assms(3) by simp
  then have "rp_getContentLength cast (parsed_request r) = of_nat (length (hr_body r))"
    using False assms(2) by (simp add: parsed_request_def rp_getContentLength_def)
  moreover have "sint (of_nat (length (hr_body r)) :: u64) = int (length (hr_body r))"
    using assms(3) by (simp add: signed_of_nat signed_take_bit_int_eq_self)
  ultimately show ?thesis by simp
qed

text \<open>The request as it is received.\<close>

definition received_request :: "http_request \<Rightarrow> http_request" where
  "received_request r = req_init ((parsed_request r)\<lparr>hr_body := hr_body r\<rparr>)"


section \<open>Two reads\<close>

text \<open>What stands before the target, and the run up to the headers.\<close>

definition head_upto_headers :: "http_request \<Rightarrow> bytes" where
  "head_upto_headers r =
     HttpMethodToString (hr_method r) @ 0x20 # target_text (hr_path r) (hr_query r) (hr_fragment r) @ 0x20 # version_line r"

definition built_line :: "http_request \<Rightarrow> request_build" where
  "built_line r = (built_target r)\<lparr>rb_data := (rb_data (built_target r))\<lparr>hr_version := hr_version r\<rparr>\<rparr>"

lemma run_upto_headers:
  assumes r: "printable_request r" and tx: "buf = head_upto_headers r @ rest"
  shows "\<exists>h'. run (http_machine rx buf) 1 0 buf (h, new_request_build) =
    run (http_machine rx buf) 13 (length (head_upto_headers r)) rest (h', built_line r)"
proof -
  define t where "t = target_text (hr_path r) (hr_query r) (hr_fragment r)"
  define m where "m = HttpMethodToString (hr_method r) @ [0x20]"
  have buf: "buf = m @ t @ 0x20 # version_line r @ rest"
    by (simp add: tx head_upto_headers_def m_def t_def)
  let ?M = "http_machine rx buf"
  obtain h1 b1 where s1: "run ?M 1 0 buf (h, new_request_build) = run ?M 3 (length m) (t @ 0x20 # version_line r @ rest) (h1, b1)"
    and b1: "b1 = new_request_build\<lparr>rb_data := (new_HttpRequest 0x11 True)\<lparr>hr_method := hr_method r\<rparr>\<rparr>"
    using run_method_of [OF r, of buf "t @ 0x20 # version_line r @ rest" rx h] by (auto simp: buf m_def)
  obtain h2 where s2: "run ?M 3 (length m) (t @ 0x20 # version_line r @ rest) (h1, b1) =
      run ?M 4 (length (m @ t @ [0x20])) (version_line r @ rest) (h2, built_target r)"
    using run_target [of "hr_path r" "hr_query r" "hr_fragment r" buf m "version_line r @ rest" b1 rx h1] r
    by (auto simp: buf t_def b1 printable_request_def built_target_def new_HttpRequest_def)
  have "buf = (m @ t @ [0x20]) @ version_line r @ rest"
    by (simp add: buf)
  from run_version_line [OF r this, of rx h2 "built_target r"] obtain h3 where
    "run ?M 4 (length (m @ t @ [0x20])) (version_line r @ rest) (h2, built_target r) =
      run ?M 13 (length ((m @ t @ [0x20]) @ version_line r)) rest (h3, built_line r)"
    unfolding built_line_def by blast
  moreover have upto: "head_upto_headers r = (m @ t @ [0x20]) @ version_line r"
    by (simp add: m_def t_def head_upto_headers_def)
  ultimately show ?thesis using s1 s2 unfolding upto by auto
qed

text \<open>A first read that ends inside the value of a header.\<close>

lemma run_value_begun:
  assumes k: "k \<noteq> []" "\<forall>c \<in> set k. in_ranges token_chars c"
    and v: "v \<noteq> []" "in_ranges value_first (hd v)" "\<forall>c \<in> set v. in_ranges value_chars c"
  shows "\<exists>h'. run (http_machine rx buf) 13 p (k @ 0x3A # v) (h, b) = Inr (16, p + length (k @ 0x3A # v), h', b)"
proof -
  let ?M = "http_machine rx buf" and ?p = "Suc (p + length k)"
  let ?h = "h\<lparr>ph_field_start := p, ph_field_len := length k\<rparr>" and ?s = "(h\<lparr>ph_field_start := p, ph_field_len := length k, ph_mark := ?p\<rparr>, b)"
  obtain c v' where c: "v = c # v'" using v(1) by (cases v) auto
  have "run ?M 13 p (k @ 0x3A # v) (h, b) = run ?M 15 ?p (c # v') (?h, b)"
    using run_field_name [OF k, of rx buf p v h b] by (simp add: c)
  also have "\<dots> = run ?M 16 (Suc ?p) v' ?s"
    using http_move [of rx buf "[15]" value_first "[Start_value]" "[16]" 15 c ?p v' "(?h, b)"] v(2) header_moves(5)
    by (simp add: c on_parser_def)
  also have "\<dots> = Inr (16, Suc ?p + length v', ?s)"
    using run_through [OF regular_http, of rx buf "[16]" value_chars 16 v' "Suc ?p" "[]" ?s] v(3) header_moves(6)
    by (simp add: c)
  finally show ?thesis by (simp add: c)
qed

text \<open>The second read: the value goes on, the name has length 0 and the field is not stored.\<close>

lemma run_value_rest:
  assumes v: "\<forall>c \<in> set v. in_ranges value_chars c" and h: "ph_mark h = 0" "ph_field_len h = 0"
    and tx: "buf = v @ crlf @ rest"
  shows "run (http_machine rx buf) 16 0 buf (h, b) = run (http_machine rx buf) 13 (length (v @ crlf)) rest (h, b)"
proof -
  let ?M = "http_machine rx buf" and ?p = "length v"
  have "run ?M 16 0 (v @ 13 # 10 # rest) (h, b) = run ?M 16 ?p (13 # 10 # rest) (h, b)"
    using run_through [OF regular_http, of rx buf "[16]" value_chars 16 v 0 "13 # 10 # rest" "(h, b)"] v header_moves(6)
    by simp
  also have "\<dots> = run ?M 17 (Suc ?p) (10 # rest) (h, b)"
    using http_move [of rx buf "[16]" "[(0x0D, 0x0D)]" "[Write_value]" "[17]" 16 13 ?p "10 # rest" "(h, b)"]
      header_moves(8) h slice_at [of "[]" v "crlf @ rest"]
    by (simp add: in_ranges_def on_build_def tx on_request_http_field_def)
  also have "\<dots> = run ?M 13 (Suc (Suc ?p)) rest (h, b)"
    using http_move [of rx buf "[17]" "[(0x0A, 0x0A)]" "[]" "[13]" 17 10 "Suc ?p" rest "(h, b)"] version_moves(9)
    by (simp add: in_ranges_def)
  finally show ?thesis by (simp add: tx)
qed

text \<open>A call of \<open>execute\<close> that reads its whole buffer and goes on, and one that finishes a head.\<close>

lemma recv_head_more:
  assumes "ho_recv ops buff_size s = (int (length buf), buf, s1)" "buf \<noteq> []" "0 < buff_size"
    and "http_parser_execute buf p = Inr (length buf, h, b)" "0 < ph_cs h" "ph_cs h < 348" "rb_error b = 0"
  shows "recv_head ops (HttpRequestParser qs rx) buff_size [] p s =
    recv_head ops (HttpRequestParser qs rx) buff_size [] (h, b) s1"
proof -
  have "\<not> int (length buf) \<le> 0" using assms(2) by (cases buf) auto
  then show ?thesis
    using assms by (subst recv_head.simps) (simp add: rp_hasError_def)
qed

lemma recv_head_done:
  assumes "ho_recv ops buff_size s = (int (length buf), buf, s1)" "buf \<noteq> []" "0 < buff_size"
    and "http_parser_execute buf p = Inr (length buf, h, b)" "348 \<le> ph_cs h" "rb_error b = 0"
  shows "recv_head ops (HttpRequestParser qs rx) buff_size [] p s = Some (Inr (Some ((h, b), []), s1))"
proof -
  have "\<not> int (length buf) \<le> 0" using assms(2) by (cases buf) auto
  then show ?thesis
    using assms by (subst recv_head.simps) (simp add: rp_hasError_def)
qed

text \<open>C24: the name of a header is forgotten between two reads: when the head of a request arrives in two parts and
  the cut is inside the value of a header, the request is received without that header.\<close>

theorem split_header_lost:
  assumes r: "printable_request r" "hr_headers r = hs1 @ (k, v1 @ v2) # hs2" "v1 \<noteq> []" "hr_body r = []"
    and "0 < buff_size"
    and first: "ho_recv ops buff_size s = (int (length a), a, s1)"
      "a = head_upto_headers r @ header_lines hs1 @ k @ 0x3A # v1"
    and second: "ho_recv ops buff_size s1 = (int (length c), c, s2)" "c = v2 @ crlf @ header_lines hs2 @ crlf"
  shows "a @ c = req_head r \<and>
    recvRequest ops (HttpRequestParser qs rx) cast buff_size s =
      Some (Inr (Some (req_init ((parsed_request r)\<lparr>hr_headers := hs1 @ hs2\<rparr>)), s2))"
proof -
  let ?b1 = "(built_line r)\<lparr>rb_data := (rb_data (built_line r))\<lparr>hr_headers := hs1\<rparr>\<rparr>"
  let ?b2 = "(built_line r)\<lparr>rb_data := (rb_data (built_line r))\<lparr>hr_headers := hs1 @ hs2\<rparr>\<rparr>"
  note ok = r(1) [unfolded printable_request_def r(2)]
  have hs: "\<forall>kv \<in> set hs1. header_text kv" "\<forall>kv \<in> set hs2. header_text kv" "header_text (k, v1 @ v2)"
    using ok by auto
  have built: "hr_headers (rb_data (built_line r)) = []" "rb_error (built_line r) = 0"
    by (simp_all add: built_line_def built_target_def new_request_build_def new_HttpRequest_def)
  have ci: "ci_ok ([] @ hs1)" "ci_ok (hs1 @ hs2)"
    using ok ci_ok_append [of hs1 "(k, v1 @ v2) # hs2"]
    by (auto simp: ci_ok_def folded_def sorted_map_def sorted_wrt_append)
  obtain h1 where "run (http_machine rx a) 1 0 a (restarted (http_parser_init qs rx), new_request_build) =
      Inr (16, length a, h1, ?b1)"
  proof -
    obtain g1 where g1: "run (http_machine rx a) 1 0 a (restarted (http_parser_init qs rx), new_request_build) =
        run (http_machine rx a) 13 (length (head_upto_headers r)) (header_lines hs1 @ k @ 0x3A # v1) (g1, built_line r)"
      using run_upto_headers [OF r(1) first(2)] by blast
    obtain g2 where g2: "run (http_machine rx a) 13 (length (head_upto_headers r)) (header_lines hs1 @ k @ 0x3A # v1) (g1, built_line r) =
        run (http_machine rx a) 13 (length (head_upto_headers r @ header_lines hs1)) (k @ 0x3A # v1) (g2, ?b1)"
      using run_headers [OF hs(1) first(2), of rx g1 "built_line r"] set_headers_all [OF ci(1) built(1)] by auto
    have "k \<noteq> []" "\<forall>c \<in> set k. in_ranges token_chars c" "in_ranges value_first (hd v1)" "\<forall>c \<in> set v1. in_ranges value_chars c"
      using hs(3) r(3) by (auto simp: header_text_def)
    then obtain g3 where "run (http_machine rx a) 13 (length (head_upto_headers r @ header_lines hs1)) (k @ 0x3A # v1) (g2, ?b1) =
        Inr (16, length (head_upto_headers r @ header_lines hs1) + length (k @ 0x3A # v1), g3, ?b1)"
      using run_value_begun r(3) by blast
    then show ?thesis using that g1 g2 by (simp add: first(2) add.assoc)
  qed
  then have e1: "http_parser_execute a (http_parser_init qs rx, new_request_build) =
        Inr (length a, h1\<lparr>ph_cs := 16, ph_nread := length a\<rparr>, ?b1)" "ph_body_start h1 = 0"
    using execute_returns [of "(http_parser_init qs rx, new_request_build)" a 16 "length a" h1 ?b1] first(2) by simp_all
  let ?h1 = "h1\<lparr>ph_cs := 16, ph_nread := length a\<rparr>"
  obtain h2 where "run (http_machine (ph_uri_relaxed h1) c) 16 0 c (restarted ?h1, ?b1) = Inr (348, length c, h2, ?b2)"
  proof -
    let ?M = "http_machine (ph_uri_relaxed h1) c"
    have tx: "c = (v2 @ crlf) @ header_lines hs2 @ length_line r @ crlf @ []"
      using r(4) by (simp add: second(2) length_line_def)
    have "\<forall>c \<in> set v2. in_ranges value_chars c"
      using hs(3) by (auto simp: header_text_def)
    then have "run ?M 16 0 c (restarted ?h1, ?b1) =
        run ?M 13 (length (v2 @ crlf)) (header_lines hs2 @ length_line r @ crlf @ []) (restarted ?h1, ?b1)"
      using run_value_rest [of v2 "restarted ?h1" c "header_lines hs2 @ length_line r @ crlf @ []"] tx
      by (simp add: restarted_def)
    moreover have "ci_ok (hr_headers (rb_data ?b1) @ hs2)" using ci(2) by simp
    note run_header_part [OF hs(2) this tx, of "ph_uri_relaxed h1" "restarted ?h1"]
    ultimately show ?thesis
      using that r(4) by (auto simp: with_length_def)
  qed
  then have e2: "http_parser_execute c (?h1, ?b1) = Inr (length c, h2\<lparr>ph_cs := 348, ph_nread := length c\<rparr>, ?b2)"
    using execute_returns [of "(?h1, ?b1)" c 348 "length c" h2 ?b2] second(2) e1(2) by simp
  have whole: "a @ c = req_head r"
    using r(2,4) by (simp add: first(2) second(2) req_head_parts head_upto_headers_def length_line_def header_lines_def str_def)
  have "a \<noteq> []" "c \<noteq> []" by (simp_all add: first(2) second(2))
  then have "recv_head ops (HttpRequestParser qs rx) buff_size [] (rp_init (HttpRequestParser qs rx)) s =
      Some (Inr (Some ((h2\<lparr>ph_cs := 348, ph_nread := length c\<rparr>, ?b2), []), s2))"
    using recv_head_more [OF first(1) _ assms(5) e1(1)] recv_head_done [OF second(1) _ assms(5) e2] built by simp
  moreover have "rb_data ?b2 = (parsed_request r)\<lparr>hr_headers := hs1 @ hs2\<rparr>"
    using r(4) by (simp add: built_line_def built_target_def parsed_request_def new_request_build_def new_HttpRequest_def)
  moreover have "ci_get (str ''content-length'') (hs1 @ hs2) = None"
    using ok by (auto simp: ci_get_folded folded_def map_add_def split: option.splits if_splits)
  ultimately show ?thesis
    using whole by (simp add: recvRequest_def Let_def rp_getContentLength_def recv_body_def)
qed

text \<open>
  A cut inside the query: its start is a position in the first buffer and is used in the second. If less of
  the query is left than stood before it the callback throws, else the query begins too late.
\<close>

lemma run_query_begun:
  assumes r: "printable_request r" and q: "escaped_text rest_chars q" "q \<noteq> []"
    and tx: "buf = HttpMethodToString (hr_method r) @ 0x20 # hr_path r @ 0x3F # q"
  shows "\<exists>h'. run (http_machine rx buf) 1 0 buf (h, new_request_build) =
    Inr (30, length buf, h'\<lparr>ph_query_start := length buf - length q\<rparr>,
      new_request_build\<lparr>rb_data := (new_HttpRequest 0x11 True)\<lparr>hr_method := hr_method r, hr_path := hr_path r\<rparr>\<rparr>)"
proof -
  let ?M = "http_machine rx buf" and ?m = "HttpMethodToString (hr_method r) @ [0x20]"
  let ?b = "new_request_build\<lparr>rb_data := (new_HttpRequest 0x11 True)\<lparr>hr_method := hr_method r, hr_path := hr_path r\<rparr>\<rparr>"
  obtain h1 b1 where s1: "run ?M 1 0 buf (h, new_request_build) = run ?M 3 (length ?m) (hr_path r @ 0x3F # q) (h1, b1)"
    and b1: "b1 = new_request_build\<lparr>rb_data := (new_HttpRequest 0x11 True)\<lparr>hr_method := hr_method r\<rparr>\<rparr>"
    using run_method_of [OF r tx, of rx h] by auto
  have "path_text (hr_path r)" using r by (simp add: printable_request_def)
  then obtain h2 where s2: "run ?M 3 (length ?m) (hr_path r @ 0x3F # q) (h1, b1) =
      run ?M 29 (Suc (length ?m + length (hr_path r))) q (h2, ?b)"
    using run_path [of "hr_path r" "0x3F" 29 buf ?m q rx h1 b1] tx
    by (auto simp: target_ends_def on_request_path_def b1)
  have "run ?M 29 (Suc (length ?m + length (hr_path r))) (q @ []) (h2, ?b) =
      run ?M 30 (Suc (length ?m + length (hr_path r)) + length q) []
        (h2\<lparr>ph_query_start := Suc (length ?m + length (hr_path r))\<rparr>, ?b)"
    using run_enter [OF regular_http, of rx buf 29 rest_chars "[Start_query]" "[30]" 31 32 q
        "Suc (length ?m + length (hr_path r))" "[]" "(h2, ?b)"]
      q target_moves(8-10) by (simp add: enters_def on_parser_def)
  moreover have "length buf - length q = Suc (length ?m + length (hr_path r))"
    "length buf = Suc (length ?m + length (hr_path r)) + length q" by (simp_all add: tx)
  ultimately show ?thesis
    using s1 s2 by auto
qed

lemma run_query_rest:
  assumes q: "escaped_text rest_chars q" and tx: "buf = q @ 0x20 # rest"
  shows "run (http_machine rx buf) 30 0 buf (h, b) =
    (if length q < ph_query_start h then Inl Thrown
     else run (http_machine rx buf) 4 (Suc (length q)) rest (h, on_request_query (drop (ph_query_start h) q) b))"
proof -
  let ?M = "http_machine rx buf"
  have "run ?M 30 0 (q @ 0x20 # rest) (h, b) = run ?M 30 (length q) (0x20 # rest) (h, b)"
    using run_escaped [OF regular_http, of rx buf "[30]" rest_chars 31 32 30 q 0 "0x20 # rest" "(h, b)"] q
      target_moves(10) by simp
  also have "\<dots> = bindE (run_acts (http_exec buf) [Query_string, Request_uri] (length q) (h, b))
      (\<lambda>s. run ?M 4 (Suc (length q)) rest s)"
    using http_move [of rx buf "[30]" "[(0x20, 0x20)]" "[Query_string, Request_uri]" "[4]" 30 "0x20" "length q" rest "(h, b)"]
      target_moves(11) by (simp add: in_ranges_def)
  finally show ?thesis
    by (auto simp: tx slice_def on_build_def)
qed

lemma split_query:
  assumes r: "printable_request r" "hr_fragment r = []" "hr_body r = []" "hr_query r = q1 @ q2"
    and q: "escaped_text rest_chars q1" "q1 \<noteq> []" "escaped_text rest_chars q2"
    and a: "a = HttpMethodToString (hr_method r) @ 0x20 # hr_path r @ 0x3F # q1"
    and c: "c = q2 @ 0x20 # version_line r @ header_lines (hr_headers r) @ crlf"
    and n: "n = length (HttpMethodToString (hr_method r)) + length (hr_path r) + 2"
  shows "a @ c = req_head r \<and>
    (\<exists>p1. http_parser_execute a (http_parser_init qs rx, new_request_build) = Inr (length a, p1) \<and>
       ph_body_start (fst p1) = 0 \<and>
       (if length q2 < n then http_parser_execute c p1 = Inl Thrown
        else \<exists>p2. http_parser_execute c p1 = Inr (length c, p2) \<and>
          rb_data (snd p2) = (parsed_request r)\<lparr>hr_query := drop n q2\<rparr>))"
proof -
  let ?b = "new_request_build\<lparr>rb_data := (new_HttpRequest 0x11 True)\<lparr>hr_method := hr_method r, hr_path := hr_path r\<rparr>\<rparr>"
  have len: "length a - length q1 = n" by (simp add: a n)
  obtain h1 where "run (http_machine rx a) 1 0 a (restarted (http_parser_init qs rx), new_request_build) =
      Inr (30, length a, h1\<lparr>ph_query_start := n\<rparr>, ?b)"
    using run_query_begun [OF r(1) q(1,2) a] len by auto
  then have e1: "http_parser_execute a (http_parser_init qs rx, new_request_build) =
        Inr (length a, h1\<lparr>ph_query_start := n, ph_cs := 30, ph_nread := length a\<rparr>, ?b)" "ph_body_start h1 = 0"
    using execute_returns [of "(http_parser_init qs rx, new_request_build)" a 30 "length a" "h1\<lparr>ph_query_start := n\<rparr>" ?b] a
    by simp_all
  let ?h = "h1\<lparr>ph_query_start := n, ph_cs := 30, ph_nread := length a\<rparr>" and ?M = "http_machine (ph_uri_relaxed h1) c"
  note rest = run_query_rest [OF q(3) c, of "ph_uri_relaxed h1" "restarted ?h" ?b]
  have whole: "a @ c = req_head r"
    using r q(2) by (simp add: a c req_head_parts target_text_def length_line_def)
  have "if length q2 < n then http_parser_execute c (?h, ?b) = Inl Thrown
      else \<exists>p2. http_parser_execute c (?h, ?b) = Inr (length c, p2) \<and>
        rb_data (snd p2) = (parsed_request r)\<lparr>hr_query := drop n q2\<rparr>"
  proof (cases "length q2 < n")
    case True
    then show ?thesis
      using rest c by (simp add: http_parser_execute_def Let_def restarted_def)
  next
    case False
    let ?b' = "on_request_query (drop n q2) ?b"
    have tx: "c = (q2 @ [0x20]) @ version_line r @ header_lines (hr_headers r) @ length_line r @ crlf @ []"
      using r(3) by (simp add: c length_line_def)
    have "hr_headers (rb_data ?b') = []"
      by (simp add: on_request_query_def new_HttpRequest_def)
    from run_after_target [OF r(1) this tx, of "ph_uri_relaxed h1" "restarted ?h"] obtain h2 where
      "run ?M 30 0 c (restarted ?h, ?b) = Inr (348, length c, h2,
        ?b'\<lparr>rb_data := (rb_data ?b')\<lparr>hr_version := hr_version r, hr_headers := with_length r (hr_headers r)\<rparr>\<rparr>)"
      using rest False r(3) by (auto simp: restarted_def length_line_def)
    then have "http_parser_execute c (?h, ?b) = Inr (length c, h2\<lparr>ph_cs := 348, ph_nread := length c\<rparr>,
        ?b'\<lparr>rb_data := (rb_data ?b')\<lparr>hr_version := hr_version r, hr_headers := with_length r (hr_headers r)\<rparr>\<rparr>)"
      using execute_returns [of "(?h, ?b)" c 348 "length c" h2] c e1(2) by simp
    then show ?thesis
      using False r(2) by (simp add: on_request_query_def parsed_request_def new_HttpRequest_def with_length_def)
  qed
  then show ?thesis
    using whole e1 by auto
qed

section \<open>An example\<close>

text \<open>A request with a query, a header and a body, and one whose query is cut.\<close>

definition sample_post :: "bytes \<Rightarrow> http_request" where
  "sample_post body =
     (new_HttpRequest 0x11 True)
       \<lparr>hr_method := POST, hr_path := str ''/ab'', hr_query := str ''x=1'', hr_headers := [(str ''a'', str ''b c'')],
        hr_body := body\<rparr>"

lemma sample_texts:
  "path_text (str ''/ab'')" "escaped_text rest_chars (str ''x=1'')" "escaped_text rest_chars (str ''x='')"
  "escaped_text rest_chars (str ''1'')" "escaped_text rest_chars []"
  "header_text (str ''a'', str ''b c'')"
  by (simp_all add: path_text_def str_def in_ranges_def http_char_defs header_text_def)

lemma sample_printable: "printable_request (sample_post body)"
proof -
  have "ci_get (str ''content-length'') [(str ''a'', str ''b c'')] = None" by code_simp
  then show ?thesis
    using sample_texts by (simp add: printable_request_def sample_post_def new_HttpRequest_def ci_ok_def sorted_map_def)
qed


theorem split_header_lost_witness:
  "recvRequest chunk_ops (HttpRequestParser 0 False) (\<lambda>v. Some (of_nat (decimal_value 0 v))) 4096
     [head_upto_headers (sample_post []) @ str ''a:b'', str '' c'' @ crlf @ crlf] =
   Some (Inr (Some (req_init ((parsed_request (sample_post []))\<lparr>hr_headers := []\<rparr>)), []))"
  using split_header_lost [OF sample_printable, of "[]" "[]" "str ''a''" "str ''b''" "str '' c''" "[]" 4096 chunk_ops
      "[head_upto_headers (sample_post []) @ str ''a:b'', str '' c'' @ crlf @ crlf]"
      "head_upto_headers (sample_post []) @ str ''a:b''" "[str '' c'' @ crlf @ crlf]" "str '' c'' @ crlf @ crlf" "[]"]
  by (simp add: sample_post_def chunk_ops_def header_lines_def str_def)

text \<open>The second half of a query that is cut behind its first two characters.\<close>

theorem request_parser_fails_inside_query_witness:
  "\<exists>p. http_parser_execute (str ''POST /ab?x='') (http_parser_init 0 False, new_request_build) = Inr (11, p) \<and>
     http_parser_execute (str ''1 '' @ version_line (sample_post []) @ str ''a:b c'' @ crlf @ crlf) p = Inl Thrown \<and>
     ph_cs (fst p) \<in> set query_states \<and> 0 < ph_query_start (fst p)"
proof -
  let ?a = "str ''POST /ab?x=''" and ?c = "str ''1 '' @ version_line (sample_post []) @ str ''a:b c'' @ crlf @ crlf"
  have "?a @ ?c = req_head (sample_post []) \<and>
    (\<exists>p1. http_parser_execute ?a (http_parser_init 0 False, new_request_build) = Inr (length ?a, p1) \<and>
       ph_body_start (fst p1) = 0 \<and>
       (if length (str ''1'') < 9 then http_parser_execute ?c p1 = Inl Thrown
        else \<exists>p2. http_parser_execute ?c p1 = Inr (length ?c, p2) \<and>
          rb_data (snd p2) = (parsed_request (sample_post []))\<lparr>hr_query := drop 9 (str ''1'')\<rparr>))"
    by (rule split_query [OF sample_printable, of "[]" "str ''x=''" "str ''1''" ?a ?c 9 0 False])
      (simp_all add: sample_texts, simp_all add: sample_post_def new_HttpRequest_def HttpMethodToString_def
        method_table_def header_lines_def str_def)
  then obtain p where "http_parser_execute ?a (http_parser_init 0 False, new_request_build) = Inr (11, p)"
    "ph_body_start (fst p) = 0" "http_parser_execute ?c p = Inl Thrown"
    by (auto simp: str_def)
  then show ?thesis
    using request_parser_fails_inside_query [of ?c p Thrown] by auto
qed

end
