(* ===== verification/ClientStates.thy ===== *)
theory ClientStates
  imports Ragel
begin

text \<open>
  States and transitions of the state machine of the response parser
  (\<open>src/http/httpclient_parser.rl.cpp\<close>), one definition for each \<open>case\<close> and each
  label \<open>tr\<close> of the code: first the transitions, then the states with their tests as the code
  nests them. The names of the actions are those of the grammar.
\<close>

datatype client_action =
    Mark | Start_field | Write_field | Start_value | Write_content_len | Write_connection_close | Write_value |
    Reason_phrase | Status_code | Http_version | Chunk_size | Trans_chunked | Done

section \<open>Transitions\<close>

definition client_tr0 :: "client_action move" where
  "client_tr0 = ([Mark], 2)"

definition client_tr3 :: "client_action move" where
  "client_tr3 = ([Chunk_size, Done], 120)"

definition client_tr7 :: "client_action move" where
  "client_tr7 = ([Done], 120)"

definition client_tr9 :: "client_action move" where
  "client_tr9 = ([Write_field, Start_value, Write_value, Done], 120)"

definition client_tr15 :: "client_action move" where
  "client_tr15 = ([Write_value, Done], 120)"

definition client_tr74 :: "client_action move" where
  "client_tr74 = ([Write_connection_close, Done], 120)"

definition client_tr4 :: "client_action move" where
  "client_tr4 = ([Chunk_size], 3)"

definition client_tr10 :: "client_action move" where
  "client_tr10 = ([Write_field, Start_value, Write_value], 3)"

definition client_tr16 :: "client_action move" where
  "client_tr16 = ([Write_value], 3)"

definition client_tr75 :: "client_action move" where
  "client_tr75 = ([Write_connection_close], 3)"

definition client_tr6 :: "client_action move" where
  "client_tr6 = ([Chunk_size], 4)"

definition client_tr12 :: "client_action move" where
  "client_tr12 = ([Write_field, Start_value, Write_value], 4)"

definition client_tr18 :: "client_action move" where
  "client_tr18 = ([Write_value], 4)"

definition client_tr8 :: "client_action move" where
  "client_tr8 = ([Start_field], 5)"

definition client_tr13 :: "client_action move" where
  "client_tr13 = ([Write_field, Start_value], 6)"

definition client_tr14 :: "client_action move" where
  "client_tr14 = ([Start_value], 7)"

definition client_tr2 :: "client_action move" where
  "client_tr2 = ([Mark], 8)"

definition client_tr26 :: "client_action move" where
  "client_tr26 = ([Http_version], 16)"

definition client_tr27 :: "client_action move" where
  "client_tr27 = ([Mark], 17)"

definition client_tr28 :: "client_action move" where
  "client_tr28 = ([Status_code], 18)"

definition client_tr30 :: "client_action move" where
  "client_tr30 = ([Mark], 19)"

definition client_tr45 :: "client_action move" where
  "client_tr45 = ([Write_value], 20)"

definition client_tr32 :: "client_action move" where
  "client_tr32 = ([Reason_phrase], 20)"

definition client_tr42 :: "client_action move" where
  "client_tr42 = ([Start_value, Write_value], 20)"

definition client_tr111 :: "client_action move" where
  "client_tr111 = ([Write_value, Trans_chunked], 20)"

definition client_tr113 :: "client_action move" where
  "client_tr113 = ([Trans_chunked], 20)"

definition client_tr158 :: "client_action move" where
  "client_tr158 = ([Write_content_len, Write_value], 20)"

definition client_tr35 :: "client_action move" where
  "client_tr35 = ([Start_field], 21)"

definition client_tr76 :: "client_action move" where
  "client_tr76 = ([Write_connection_close, Start_field], 21)"

definition client_tr41 :: "client_action move" where
  "client_tr41 = ([Start_value], 22)"

definition client_tr39 :: "client_action move" where
  "client_tr39 = ([Write_field], 22)"

definition client_tr40 :: "client_action move" where
  "client_tr40 = ([Start_value], 23)"

definition client_tr46 :: "client_action move" where
  "client_tr46 = ([Write_value], 24)"

definition client_tr33 :: "client_action move" where
  "client_tr33 = ([Reason_phrase], 24)"

definition client_tr43 :: "client_action move" where
  "client_tr43 = ([Start_value, Write_value], 24)"

definition client_tr159 :: "client_action move" where
  "client_tr159 = ([Write_content_len, Write_value], 24)"

definition client_tr36 :: "client_action move" where
  "client_tr36 = ([Start_field], 25)"

definition client_tr77 :: "client_action move" where
  "client_tr77 = ([Write_connection_close, Start_field], 25)"

definition client_tr59 :: "client_action move" where
  "client_tr59 = ([Start_value], 35)"

definition client_tr58 :: "client_action move" where
  "client_tr58 = ([Write_field], 35)"

definition client_tr60 :: "client_action move" where
  "client_tr60 = ([Start_value, Write_value], 36)"

definition client_tr136 :: "client_action move" where
  "client_tr136 = ([Write_value], 43)"

definition client_tr37 :: "client_action move" where
  "client_tr37 = ([Start_field], 44)"

definition client_tr78 :: "client_action move" where
  "client_tr78 = ([Write_connection_close, Start_field], 44)"

definition client_tr96 :: "client_action move" where
  "client_tr96 = ([Start_value], 61)"

definition client_tr95 :: "client_action move" where
  "client_tr95 = ([Write_field], 61)"

definition client_tr97 :: "client_action move" where
  "client_tr97 = ([Start_value, Write_value], 62)"

definition client_tr104 :: "client_action move" where
  "client_tr104 = ([Start_value], 64)"

definition client_tr112 :: "client_action move" where
  "client_tr112 = ([Write_value], 71)"

definition client_tr101 :: "client_action move" where
  "client_tr101 = ([Done], 121)"

definition client_tr103 :: "client_action move" where
  "client_tr103 = ([Start_value, Start_field], 73)"

definition client_tr98 :: "client_action move" where
  "client_tr98 = ([Start_value, Write_value], 80)"

definition client_tr99 :: "client_action move" where
  "client_tr99 = ([Start_value], 81)"

definition client_tr137 :: "client_action move" where
  "client_tr137 = ([Write_value], 88)"

definition client_tr64 :: "client_action move" where
  "client_tr64 = ([Done], 122)"

definition client_tr66 :: "client_action move" where
  "client_tr66 = ([Start_field], 90)"

definition client_tr61 :: "client_action move" where
  "client_tr61 = ([Start_value, Write_value], 95)"

definition client_tr62 :: "client_action move" where
  "client_tr62 = ([Start_value], 96)"

definition client_tr149 :: "client_action move" where
  "client_tr149 = ([Start_value], 112)"

definition client_tr148 :: "client_action move" where
  "client_tr148 = ([Write_field], 112)"

definition client_tr150 :: "client_action move" where
  "client_tr150 = ([Start_value, Write_value], 113)"

definition client_tr157 :: "client_action move" where
  "client_tr157 = ([Start_value], 115)"

definition client_tr154 :: "client_action move" where
  "client_tr154 = ([Done], 123)"

definition client_tr156 :: "client_action move" where
  "client_tr156 = ([Start_value, Start_field], 117)"

definition client_tr151 :: "client_action move" where
  "client_tr151 = ([Start_value, Write_value], 118)"

definition client_tr152 :: "client_action move" where
  "client_tr152 = ([Start_value], 119)"

section \<open>States\<close>

definition client_st1 :: "client_action move test" where
  "client_st1 = IfEq 72 (Goto client_tr2) (IfLess 65 (IfIn 48 57 (Goto client_tr0) (Goto (to 0))) (IfGreater
    70 (IfIn 97 102 (Goto client_tr0) (Goto (to 0))) (Goto client_tr0)))"

definition client_st2 :: "client_action move test" where
  "client_st2 = Switch [(10, client_tr3), (13, client_tr4), (59, client_tr6)] (IfLess 65 (IfIn 48 57 (Goto (to
    2)) (Goto (to 0))) (IfGreater 70 (IfIn 97 102 (Goto (to 2)) (Goto (to 0))) (Goto (to 2))))"

definition client_st120 :: "client_action move test" where
  "client_st120 = Goto (to 0)"

definition client_st3 :: "client_action move test" where
  "client_st3 = IfEq 10 (Goto client_tr7) (Goto (to 0))"

definition client_st4 :: "client_action move test" where
  "client_st4 = Switch [(33, client_tr8), (124, client_tr8), (126, client_tr8)] (IfLess 45 (IfGreater 39 (IfIn
    42 43 (Goto client_tr8) (Goto (to 0))) (IfGeq 35 (Goto client_tr8) (Goto (to 0)))) (IfGreater 46 (IfLess 65
    (IfIn 48 57 (Goto client_tr8) (Goto (to 0))) (IfGreater 90 (IfIn 94 122 (Goto client_tr8) (Goto (to 0)))
    (Goto client_tr8))) (Goto client_tr8)))"

definition client_st5 :: "client_action move test" where
  "client_st5 = Switch [(10, client_tr9), (13, client_tr10), (33, to 5), (59, client_tr12), (61, client_tr13),
    (124, to 5), (126, to 5)] (IfLess 45 (IfGreater 39 (IfIn 42 43 (Goto (to 5)) (Goto (to 0))) (IfGeq 35 (Goto
    (to 5)) (Goto (to 0)))) (IfGreater 46 (IfLess 65 (IfIn 48 57 (Goto (to 5)) (Goto (to 0))) (IfGreater 90
    (IfIn 94 122 (Goto (to 5)) (Goto (to 0))) (Goto (to 5)))) (Goto (to 5))))"

definition client_st6 :: "client_action move test" where
  "client_st6 = Switch [(33, client_tr14), (124, client_tr14), (126, client_tr14)] (IfLess 45 (IfGreater 39
    (IfIn 42 43 (Goto client_tr14) (Goto (to 0))) (IfGeq 35 (Goto client_tr14) (Goto (to 0)))) (IfGreater 46
    (IfLess 65 (IfIn 48 57 (Goto client_tr14) (Goto (to 0))) (IfGreater 90 (IfIn 94 122 (Goto client_tr14) (Goto
    (to 0))) (Goto client_tr14))) (Goto client_tr14)))"

definition client_st7 :: "client_action move test" where
  "client_st7 = Switch [(10, client_tr15), (13, client_tr16), (33, to 7), (59, client_tr18), (124, to 7),
    (126, to 7)] (IfLess 45 (IfGreater 39 (IfIn 42 43 (Goto (to 7)) (Goto (to 0))) (IfGeq 35 (Goto (to 7)) (Goto
    (to 0)))) (IfGreater 46 (IfLess 65 (IfIn 48 57 (Goto (to 7)) (Goto (to 0))) (IfGreater 90 (IfIn 94 122 (Goto
    (to 7)) (Goto (to 0))) (Goto (to 7)))) (Goto (to 7))))"

definition client_st8 :: "client_action move test" where
  "client_st8 = IfEq 84 (Goto (to 9)) (Goto (to 0))"

definition client_st9 :: "client_action move test" where
  "client_st9 = IfEq 84 (Goto (to 10)) (Goto (to 0))"

definition client_st10 :: "client_action move test" where
  "client_st10 = IfEq 80 (Goto (to 11)) (Goto (to 0))"

definition client_st11 :: "client_action move test" where
  "client_st11 = IfEq 47 (Goto (to 12)) (Goto (to 0))"

definition client_st12 :: "client_action move test" where
  "client_st12 = IfIn 48 57 (Goto (to 13)) (Goto (to 0))"

definition client_st13 :: "client_action move test" where
  "client_st13 = IfEq 46 (Goto (to 14)) (IfIn 48 57 (Goto (to 13)) (Goto (to 0)))"

definition client_st14 :: "client_action move test" where
  "client_st14 = IfIn 48 57 (Goto (to 15)) (Goto (to 0))"

definition client_st15 :: "client_action move test" where
  "client_st15 = IfEq 32 (Goto client_tr26) (IfIn 48 57 (Goto (to 15)) (Goto (to 0)))"

definition client_st16 :: "client_action move test" where
  "client_st16 = IfIn 48 57 (Goto client_tr27) (Goto (to 0))"

definition client_st17 :: "client_action move test" where
  "client_st17 = IfEq 32 (Goto client_tr28) (IfIn 48 57 (Goto (to 17)) (Goto (to 0)))"

definition client_st18 :: "client_action move test" where
  "client_st18 = IfEq 10 (Goto (to 0)) (Goto client_tr30)"

definition client_st19 :: "client_action move test" where
  "client_st19 = Switch [(10, client_tr32), (13, client_tr33)] (Goto (to 19))"

definition client_st20 :: "client_action move test" where
  "client_st20 = Switch [(10, client_tr7), (13, to 3), (33, client_tr35), (67, client_tr36), (84,
    client_tr37), (99, client_tr36), (116, client_tr37), (124, client_tr35), (126, client_tr35)] (IfLess 45
    (IfGreater 39 (IfIn 42 43 (Goto client_tr35) (Goto (to 0))) (IfGeq 35 (Goto client_tr35) (Goto (to 0))))
    (IfGreater 46 (IfLess 65 (IfIn 48 57 (Goto client_tr35) (Goto (to 0))) (IfGreater 90 (IfIn 94 122 (Goto
    client_tr35) (Goto (to 0))) (Goto client_tr35))) (Goto client_tr35)))"

definition client_st21 :: "client_action move test" where
  "client_st21 = Switch [(33, to 21), (58, client_tr39), (124, to 21), (126, to 21)] (IfLess 45 (IfGreater 39
    (IfIn 42 43 (Goto (to 21)) (Goto (to 0))) (IfGeq 35 (Goto (to 21)) (Goto (to 0)))) (IfGreater 46 (IfLess 65
    (IfIn 48 57 (Goto (to 21)) (Goto (to 0))) (IfGreater 90 (IfIn 94 122 (Goto (to 21)) (Goto (to 0))) (Goto (to
    21)))) (Goto (to 21))))"

definition client_st22 :: "client_action move test" where
  "client_st22 = Switch [(10, client_tr42), (13, client_tr43), (32, client_tr41)] (IfIn 9 12 (Goto
    client_tr41) (Goto client_tr40))"

definition client_st23 :: "client_action move test" where
  "client_st23 = Switch [(10, client_tr45), (13, client_tr46)] (Goto (to 23))"

definition client_st24 :: "client_action move test" where
  "client_st24 = IfEq 10 (Goto (to 20)) (Goto (to 0))"

definition client_st25 :: "client_action move test" where
  "client_st25 = Switch [(33, to 21), (58, client_tr39), (79, to 26), (111, to 26), (124, to 21), (126, to
    21)] (IfLess 45 (IfGreater 39 (IfIn 42 43 (Goto (to 21)) (Goto (to 0))) (IfGeq 35 (Goto (to 21)) (Goto (to
    0)))) (IfGreater 46 (IfLess 65 (IfIn 48 57 (Goto (to 21)) (Goto (to 0))) (IfGreater 90 (IfIn 94 122 (Goto
    (to 21)) (Goto (to 0))) (Goto (to 21)))) (Goto (to 21))))"

definition client_st26 :: "client_action move test" where
  "client_st26 = Switch [(33, to 21), (58, client_tr39), (78, to 27), (110, to 27), (124, to 21), (126, to
    21)] (IfLess 45 (IfGreater 39 (IfIn 42 43 (Goto (to 21)) (Goto (to 0))) (IfGeq 35 (Goto (to 21)) (Goto (to
    0)))) (IfGreater 46 (IfLess 65 (IfIn 48 57 (Goto (to 21)) (Goto (to 0))) (IfGreater 90 (IfIn 94 122 (Goto
    (to 21)) (Goto (to 0))) (Goto (to 21)))) (Goto (to 21))))"

definition client_st27 :: "client_action move test" where
  "client_st27 = Switch [(33, to 21), (58, client_tr39), (78, to 28), (84, to 101), (110, to 28), (116, to
    101), (124, to 21), (126, to 21)] (IfLess 45 (IfGreater 39 (IfIn 42 43 (Goto (to 21)) (Goto (to 0))) (IfGeq
    35 (Goto (to 21)) (Goto (to 0)))) (IfGreater 46 (IfLess 65 (IfIn 48 57 (Goto (to 21)) (Goto (to 0)))
    (IfGreater 90 (IfIn 94 122 (Goto (to 21)) (Goto (to 0))) (Goto (to 21)))) (Goto (to 21))))"

definition client_st28 :: "client_action move test" where
  "client_st28 = Switch [(33, to 21), (58, client_tr39), (69, to 29), (101, to 29), (124, to 21), (126, to
    21)] (IfLess 45 (IfGreater 39 (IfIn 42 43 (Goto (to 21)) (Goto (to 0))) (IfGeq 35 (Goto (to 21)) (Goto (to
    0)))) (IfGreater 46 (IfLess 65 (IfIn 48 57 (Goto (to 21)) (Goto (to 0))) (IfGreater 90 (IfIn 94 122 (Goto
    (to 21)) (Goto (to 0))) (Goto (to 21)))) (Goto (to 21))))"

definition client_st29 :: "client_action move test" where
  "client_st29 = Switch [(33, to 21), (58, client_tr39), (67, to 30), (99, to 30), (124, to 21), (126, to 21)]
    (IfLess 45 (IfGreater 39 (IfIn 42 43 (Goto (to 21)) (Goto (to 0))) (IfGeq 35 (Goto (to 21)) (Goto (to 0))))
    (IfGreater 46 (IfLess 65 (IfIn 48 57 (Goto (to 21)) (Goto (to 0))) (IfGreater 90 (IfIn 94 122 (Goto (to 21))
    (Goto (to 0))) (Goto (to 21)))) (Goto (to 21))))"

definition client_st30 :: "client_action move test" where
  "client_st30 = Switch [(33, to 21), (58, client_tr39), (84, to 31), (116, to 31), (124, to 21), (126, to
    21)] (IfLess 45 (IfGreater 39 (IfIn 42 43 (Goto (to 21)) (Goto (to 0))) (IfGeq 35 (Goto (to 21)) (Goto (to
    0)))) (IfGreater 46 (IfLess 65 (IfIn 48 57 (Goto (to 21)) (Goto (to 0))) (IfGreater 90 (IfIn 94 122 (Goto
    (to 21)) (Goto (to 0))) (Goto (to 21)))) (Goto (to 21))))"

definition client_st31 :: "client_action move test" where
  "client_st31 = Switch [(33, to 21), (58, client_tr39), (73, to 32), (105, to 32), (124, to 21), (126, to
    21)] (IfLess 45 (IfGreater 39 (IfIn 42 43 (Goto (to 21)) (Goto (to 0))) (IfGeq 35 (Goto (to 21)) (Goto (to
    0)))) (IfGreater 46 (IfLess 65 (IfIn 48 57 (Goto (to 21)) (Goto (to 0))) (IfGreater 90 (IfIn 94 122 (Goto
    (to 21)) (Goto (to 0))) (Goto (to 21)))) (Goto (to 21))))"

definition client_st32 :: "client_action move test" where
  "client_st32 = Switch [(33, to 21), (58, client_tr39), (79, to 33), (111, to 33), (124, to 21), (126, to
    21)] (IfLess 45 (IfGreater 39 (IfIn 42 43 (Goto (to 21)) (Goto (to 0))) (IfGeq 35 (Goto (to 21)) (Goto (to
    0)))) (IfGreater 46 (IfLess 65 (IfIn 48 57 (Goto (to 21)) (Goto (to 0))) (IfGreater 90 (IfIn 94 122 (Goto
    (to 21)) (Goto (to 0))) (Goto (to 21)))) (Goto (to 21))))"

definition client_st33 :: "client_action move test" where
  "client_st33 = Switch [(33, to 21), (58, client_tr39), (78, to 34), (110, to 34), (124, to 21), (126, to
    21)] (IfLess 45 (IfGreater 39 (IfIn 42 43 (Goto (to 21)) (Goto (to 0))) (IfGeq 35 (Goto (to 21)) (Goto (to
    0)))) (IfGreater 46 (IfLess 65 (IfIn 48 57 (Goto (to 21)) (Goto (to 0))) (IfGreater 90 (IfIn 94 122 (Goto
    (to 21)) (Goto (to 0))) (Goto (to 21)))) (Goto (to 21))))"

definition client_st34 :: "client_action move test" where
  "client_st34 = Switch [(33, to 21), (58, client_tr58), (124, to 21), (126, to 21)] (IfLess 45 (IfGreater 39
    (IfIn 42 43 (Goto (to 21)) (Goto (to 0))) (IfGeq 35 (Goto (to 21)) (Goto (to 0)))) (IfGreater 46 (IfLess 65
    (IfIn 48 57 (Goto (to 21)) (Goto (to 0))) (IfGreater 90 (IfIn 94 122 (Goto (to 21)) (Goto (to 0))) (Goto (to
    21)))) (Goto (to 21))))"

definition client_st35 :: "client_action move test" where
  "client_st35 = Switch [(10, client_tr60), (13, client_tr61), (32, client_tr59), (67, client_tr62), (99,
    client_tr62)] (IfIn 9 12 (Goto client_tr59) (Goto client_tr40))"

definition client_st36 :: "client_action move test" where
  "client_st36 = Switch [(10, client_tr64), (13, to 89), (32, to 37), (33, client_tr35), (67, client_tr66),
    (84, client_tr37), (99, client_tr66), (116, client_tr37), (124, client_tr35), (126, client_tr35)] (IfLess 45
    (IfLess 35 (IfIn 9 12 (Goto (to 37)) (Goto (to 0))) (IfGreater 39 (IfIn 42 43 (Goto client_tr35) (Goto (to
    0))) (Goto client_tr35))) (IfGreater 46 (IfLess 65 (IfIn 48 57 (Goto client_tr35) (Goto (to 0))) (IfGreater
    90 (IfIn 94 122 (Goto client_tr35) (Goto (to 0))) (Goto client_tr35))) (Goto client_tr35)))"

definition client_st37 :: "client_action move test" where
  "client_st37 = Switch [(32, to 37), (67, to 38), (99, to 38)] (IfIn 9 13 (Goto (to 37)) (Goto (to 0)))"

definition client_st38 :: "client_action move test" where
  "client_st38 = Switch [(76, to 39), (108, to 39)] (Goto (to 0))"

definition client_st39 :: "client_action move test" where
  "client_st39 = Switch [(79, to 40), (111, to 40)] (Goto (to 0))"

definition client_st40 :: "client_action move test" where
  "client_st40 = Switch [(83, to 41), (115, to 41)] (Goto (to 0))"

definition client_st41 :: "client_action move test" where
  "client_st41 = Switch [(69, to 42), (101, to 42)] (Goto (to 0))"

definition client_st42 :: "client_action move test" where
  "client_st42 = Switch [(10, to 43), (13, to 88)] (Goto (to 0))"

definition client_st43 :: "client_action move test" where
  "client_st43 = Switch [(10, client_tr74), (13, client_tr75), (33, client_tr76), (67, client_tr77), (84,
    client_tr78), (99, client_tr77), (116, client_tr78), (124, client_tr76), (126, client_tr76)] (IfLess 45
    (IfGreater 39 (IfIn 42 43 (Goto client_tr76) (Goto (to 0))) (IfGeq 35 (Goto client_tr76) (Goto (to 0))))
    (IfGreater 46 (IfLess 65 (IfIn 48 57 (Goto client_tr76) (Goto (to 0))) (IfGreater 90 (IfIn 94 122 (Goto
    client_tr76) (Goto (to 0))) (Goto client_tr76))) (Goto client_tr76)))"

definition client_st44 :: "client_action move test" where
  "client_st44 = Switch [(33, to 21), (58, client_tr39), (82, to 45), (114, to 45), (124, to 21), (126, to
    21)] (IfLess 45 (IfGreater 39 (IfIn 42 43 (Goto (to 21)) (Goto (to 0))) (IfGeq 35 (Goto (to 21)) (Goto (to
    0)))) (IfGreater 46 (IfLess 65 (IfIn 48 57 (Goto (to 21)) (Goto (to 0))) (IfGreater 90 (IfIn 94 122 (Goto
    (to 21)) (Goto (to 0))) (Goto (to 21)))) (Goto (to 21))))"

definition client_st45 :: "client_action move test" where
  "client_st45 = Switch [(33, to 21), (58, client_tr39), (65, to 46), (97, to 46), (124, to 21), (126, to 21)]
    (IfLess 45 (IfGreater 39 (IfIn 42 43 (Goto (to 21)) (Goto (to 0))) (IfGeq 35 (Goto (to 21)) (Goto (to 0))))
    (IfGreater 46 (IfLess 66 (IfIn 48 57 (Goto (to 21)) (Goto (to 0))) (IfGreater 90 (IfIn 94 122 (Goto (to 21))
    (Goto (to 0))) (Goto (to 21)))) (Goto (to 21))))"

definition client_st46 :: "client_action move test" where
  "client_st46 = Switch [(33, to 21), (58, client_tr39), (78, to 47), (110, to 47), (124, to 21), (126, to
    21)] (IfLess 45 (IfGreater 39 (IfIn 42 43 (Goto (to 21)) (Goto (to 0))) (IfGeq 35 (Goto (to 21)) (Goto (to
    0)))) (IfGreater 46 (IfLess 65 (IfIn 48 57 (Goto (to 21)) (Goto (to 0))) (IfGreater 90 (IfIn 94 122 (Goto
    (to 21)) (Goto (to 0))) (Goto (to 21)))) (Goto (to 21))))"

definition client_st47 :: "client_action move test" where
  "client_st47 = Switch [(33, to 21), (58, client_tr39), (83, to 48), (115, to 48), (124, to 21), (126, to
    21)] (IfLess 45 (IfGreater 39 (IfIn 42 43 (Goto (to 21)) (Goto (to 0))) (IfGeq 35 (Goto (to 21)) (Goto (to
    0)))) (IfGreater 46 (IfLess 65 (IfIn 48 57 (Goto (to 21)) (Goto (to 0))) (IfGreater 90 (IfIn 94 122 (Goto
    (to 21)) (Goto (to 0))) (Goto (to 21)))) (Goto (to 21))))"

definition client_st48 :: "client_action move test" where
  "client_st48 = Switch [(33, to 21), (58, client_tr39), (70, to 49), (102, to 49), (124, to 21), (126, to
    21)] (IfLess 45 (IfGreater 39 (IfIn 42 43 (Goto (to 21)) (Goto (to 0))) (IfGeq 35 (Goto (to 21)) (Goto (to
    0)))) (IfGreater 46 (IfLess 65 (IfIn 48 57 (Goto (to 21)) (Goto (to 0))) (IfGreater 90 (IfIn 94 122 (Goto
    (to 21)) (Goto (to 0))) (Goto (to 21)))) (Goto (to 21))))"

definition client_st49 :: "client_action move test" where
  "client_st49 = Switch [(33, to 21), (58, client_tr39), (69, to 50), (101, to 50), (124, to 21), (126, to
    21)] (IfLess 45 (IfGreater 39 (IfIn 42 43 (Goto (to 21)) (Goto (to 0))) (IfGeq 35 (Goto (to 21)) (Goto (to
    0)))) (IfGreater 46 (IfLess 65 (IfIn 48 57 (Goto (to 21)) (Goto (to 0))) (IfGreater 90 (IfIn 94 122 (Goto
    (to 21)) (Goto (to 0))) (Goto (to 21)))) (Goto (to 21))))"

definition client_st50 :: "client_action move test" where
  "client_st50 = Switch [(33, to 21), (58, client_tr39), (82, to 51), (114, to 51), (124, to 21), (126, to
    21)] (IfLess 45 (IfGreater 39 (IfIn 42 43 (Goto (to 21)) (Goto (to 0))) (IfGeq 35 (Goto (to 21)) (Goto (to
    0)))) (IfGreater 46 (IfLess 65 (IfIn 48 57 (Goto (to 21)) (Goto (to 0))) (IfGreater 90 (IfIn 94 122 (Goto
    (to 21)) (Goto (to 0))) (Goto (to 21)))) (Goto (to 21))))"

definition client_st51 :: "client_action move test" where
  "client_st51 = Switch [(33, to 21), (45, to 52), (46, to 21), (58, client_tr39), (124, to 21), (126, to 21)]
    (IfLess 48 (IfGreater 39 (IfIn 42 43 (Goto (to 21)) (Goto (to 0))) (IfGeq 35 (Goto (to 21)) (Goto (to 0))))
    (IfGreater 57 (IfGreater 90 (IfIn 94 122 (Goto (to 21)) (Goto (to 0))) (IfGeq 65 (Goto (to 21)) (Goto (to
    0)))) (Goto (to 21))))"

definition client_st52 :: "client_action move test" where
  "client_st52 = Switch [(33, to 21), (58, client_tr39), (69, to 53), (101, to 53), (124, to 21), (126, to
    21)] (IfLess 45 (IfGreater 39 (IfIn 42 43 (Goto (to 21)) (Goto (to 0))) (IfGeq 35 (Goto (to 21)) (Goto (to
    0)))) (IfGreater 46 (IfLess 65 (IfIn 48 57 (Goto (to 21)) (Goto (to 0))) (IfGreater 90 (IfIn 94 122 (Goto
    (to 21)) (Goto (to 0))) (Goto (to 21)))) (Goto (to 21))))"

definition client_st53 :: "client_action move test" where
  "client_st53 = Switch [(33, to 21), (58, client_tr39), (78, to 54), (110, to 54), (124, to 21), (126, to
    21)] (IfLess 45 (IfGreater 39 (IfIn 42 43 (Goto (to 21)) (Goto (to 0))) (IfGeq 35 (Goto (to 21)) (Goto (to
    0)))) (IfGreater 46 (IfLess 65 (IfIn 48 57 (Goto (to 21)) (Goto (to 0))) (IfGreater 90 (IfIn 94 122 (Goto
    (to 21)) (Goto (to 0))) (Goto (to 21)))) (Goto (to 21))))"

definition client_st54 :: "client_action move test" where
  "client_st54 = Switch [(33, to 21), (58, client_tr39), (67, to 55), (99, to 55), (124, to 21), (126, to 21)]
    (IfLess 45 (IfGreater 39 (IfIn 42 43 (Goto (to 21)) (Goto (to 0))) (IfGeq 35 (Goto (to 21)) (Goto (to 0))))
    (IfGreater 46 (IfLess 65 (IfIn 48 57 (Goto (to 21)) (Goto (to 0))) (IfGreater 90 (IfIn 94 122 (Goto (to 21))
    (Goto (to 0))) (Goto (to 21)))) (Goto (to 21))))"

definition client_st55 :: "client_action move test" where
  "client_st55 = Switch [(33, to 21), (58, client_tr39), (79, to 56), (111, to 56), (124, to 21), (126, to
    21)] (IfLess 45 (IfGreater 39 (IfIn 42 43 (Goto (to 21)) (Goto (to 0))) (IfGeq 35 (Goto (to 21)) (Goto (to
    0)))) (IfGreater 46 (IfLess 65 (IfIn 48 57 (Goto (to 21)) (Goto (to 0))) (IfGreater 90 (IfIn 94 122 (Goto
    (to 21)) (Goto (to 0))) (Goto (to 21)))) (Goto (to 21))))"

definition client_st56 :: "client_action move test" where
  "client_st56 = Switch [(33, to 21), (58, client_tr39), (68, to 57), (100, to 57), (124, to 21), (126, to
    21)] (IfLess 45 (IfGreater 39 (IfIn 42 43 (Goto (to 21)) (Goto (to 0))) (IfGeq 35 (Goto (to 21)) (Goto (to
    0)))) (IfGreater 46 (IfLess 65 (IfIn 48 57 (Goto (to 21)) (Goto (to 0))) (IfGreater 90 (IfIn 94 122 (Goto
    (to 21)) (Goto (to 0))) (Goto (to 21)))) (Goto (to 21))))"

definition client_st57 :: "client_action move test" where
  "client_st57 = Switch [(33, to 21), (58, client_tr39), (73, to 58), (105, to 58), (124, to 21), (126, to
    21)] (IfLess 45 (IfGreater 39 (IfIn 42 43 (Goto (to 21)) (Goto (to 0))) (IfGeq 35 (Goto (to 21)) (Goto (to
    0)))) (IfGreater 46 (IfLess 65 (IfIn 48 57 (Goto (to 21)) (Goto (to 0))) (IfGreater 90 (IfIn 94 122 (Goto
    (to 21)) (Goto (to 0))) (Goto (to 21)))) (Goto (to 21))))"

definition client_st58 :: "client_action move test" where
  "client_st58 = Switch [(33, to 21), (58, client_tr39), (78, to 59), (110, to 59), (124, to 21), (126, to
    21)] (IfLess 45 (IfGreater 39 (IfIn 42 43 (Goto (to 21)) (Goto (to 0))) (IfGeq 35 (Goto (to 21)) (Goto (to
    0)))) (IfGreater 46 (IfLess 65 (IfIn 48 57 (Goto (to 21)) (Goto (to 0))) (IfGreater 90 (IfIn 94 122 (Goto
    (to 21)) (Goto (to 0))) (Goto (to 21)))) (Goto (to 21))))"

definition client_st59 :: "client_action move test" where
  "client_st59 = Switch [(33, to 21), (58, client_tr39), (71, to 60), (103, to 60), (124, to 21), (126, to
    21)] (IfLess 45 (IfGreater 39 (IfIn 42 43 (Goto (to 21)) (Goto (to 0))) (IfGeq 35 (Goto (to 21)) (Goto (to
    0)))) (IfGreater 46 (IfLess 65 (IfIn 48 57 (Goto (to 21)) (Goto (to 0))) (IfGreater 90 (IfIn 94 122 (Goto
    (to 21)) (Goto (to 0))) (Goto (to 21)))) (Goto (to 21))))"

definition client_st60 :: "client_action move test" where
  "client_st60 = Switch [(33, to 21), (58, client_tr95), (124, to 21), (126, to 21)] (IfLess 45 (IfGreater 39
    (IfIn 42 43 (Goto (to 21)) (Goto (to 0))) (IfGeq 35 (Goto (to 21)) (Goto (to 0)))) (IfGreater 46 (IfLess 65
    (IfIn 48 57 (Goto (to 21)) (Goto (to 0))) (IfGreater 90 (IfIn 94 122 (Goto (to 21)) (Goto (to 0))) (Goto (to
    21)))) (Goto (to 21))))"

definition client_st61 :: "client_action move test" where
  "client_st61 = Switch [(10, client_tr97), (13, client_tr98), (32, client_tr96), (67, client_tr99), (99,
    client_tr99)] (IfIn 9 12 (Goto client_tr96) (Goto client_tr40))"

definition client_st62 :: "client_action move test" where
  "client_st62 = Switch [(10, client_tr101), (13, to 72), (32, to 63), (33, client_tr35), (67, client_tr103),
    (84, client_tr37), (99, client_tr103), (116, client_tr37), (124, client_tr35), (126, client_tr35)] (IfLess
    45 (IfLess 35 (IfIn 9 12 (Goto (to 63)) (Goto (to 0))) (IfGreater 39 (IfIn 42 43 (Goto client_tr35) (Goto
    (to 0))) (Goto client_tr35))) (IfGreater 46 (IfLess 65 (IfIn 48 57 (Goto client_tr35) (Goto (to 0)))
    (IfGreater 90 (IfIn 94 122 (Goto client_tr35) (Goto (to 0))) (Goto client_tr35))) (Goto client_tr35)))"

definition client_st63 :: "client_action move test" where
  "client_st63 = Switch [(32, to 63), (67, client_tr104), (99, client_tr104)] (IfIn 9 13 (Goto (to 63)) (Goto
    (to 0)))"

definition client_st64 :: "client_action move test" where
  "client_st64 = Switch [(72, to 65), (104, to 65)] (Goto (to 0))"

definition client_st65 :: "client_action move test" where
  "client_st65 = Switch [(85, to 66), (117, to 66)] (Goto (to 0))"

definition client_st66 :: "client_action move test" where
  "client_st66 = Switch [(78, to 67), (110, to 67)] (Goto (to 0))"

definition client_st67 :: "client_action move test" where
  "client_st67 = Switch [(75, to 68), (107, to 68)] (Goto (to 0))"

definition client_st68 :: "client_action move test" where
  "client_st68 = Switch [(69, to 69), (101, to 69)] (Goto (to 0))"

definition client_st69 :: "client_action move test" where
  "client_st69 = Switch [(68, to 70), (100, to 70)] (Goto (to 0))"

definition client_st70 :: "client_action move test" where
  "client_st70 = Switch [(10, client_tr111), (13, client_tr112)] (Goto (to 0))"

definition client_st71 :: "client_action move test" where
  "client_st71 = IfEq 10 (Goto client_tr113) (Goto (to 0))"

definition client_st121 :: "client_action move test" where
  "client_st121 = Switch [(32, to 63), (67, client_tr104), (99, client_tr104)] (IfIn 9 13 (Goto (to 63)) (Goto
    (to 0)))"

definition client_st72 :: "client_action move test" where
  "client_st72 = Switch [(10, client_tr101), (32, to 63), (67, client_tr104), (99, client_tr104)] (IfIn 9 13
    (Goto (to 63)) (Goto (to 0)))"

definition client_st73 :: "client_action move test" where
  "client_st73 = Switch [(33, to 21), (58, client_tr39), (72, to 74), (79, to 26), (104, to 74), (111, to 26),
    (124, to 21), (126, to 21)] (IfLess 45 (IfGreater 39 (IfIn 42 43 (Goto (to 21)) (Goto (to 0))) (IfGeq 35
    (Goto (to 21)) (Goto (to 0)))) (IfGreater 46 (IfLess 65 (IfIn 48 57 (Goto (to 21)) (Goto (to 0))) (IfGreater
    90 (IfIn 94 122 (Goto (to 21)) (Goto (to 0))) (Goto (to 21)))) (Goto (to 21))))"

definition client_st74 :: "client_action move test" where
  "client_st74 = Switch [(33, to 21), (58, client_tr39), (85, to 75), (117, to 75), (124, to 21), (126, to
    21)] (IfLess 45 (IfGreater 39 (IfIn 42 43 (Goto (to 21)) (Goto (to 0))) (IfGeq 35 (Goto (to 21)) (Goto (to
    0)))) (IfGreater 46 (IfLess 65 (IfIn 48 57 (Goto (to 21)) (Goto (to 0))) (IfGreater 90 (IfIn 94 122 (Goto
    (to 21)) (Goto (to 0))) (Goto (to 21)))) (Goto (to 21))))"

definition client_st75 :: "client_action move test" where
  "client_st75 = Switch [(33, to 21), (58, client_tr39), (78, to 76), (110, to 76), (124, to 21), (126, to
    21)] (IfLess 45 (IfGreater 39 (IfIn 42 43 (Goto (to 21)) (Goto (to 0))) (IfGeq 35 (Goto (to 21)) (Goto (to
    0)))) (IfGreater 46 (IfLess 65 (IfIn 48 57 (Goto (to 21)) (Goto (to 0))) (IfGreater 90 (IfIn 94 122 (Goto
    (to 21)) (Goto (to 0))) (Goto (to 21)))) (Goto (to 21))))"

definition client_st76 :: "client_action move test" where
  "client_st76 = Switch [(33, to 21), (58, client_tr39), (75, to 77), (107, to 77), (124, to 21), (126, to
    21)] (IfLess 45 (IfGreater 39 (IfIn 42 43 (Goto (to 21)) (Goto (to 0))) (IfGeq 35 (Goto (to 21)) (Goto (to
    0)))) (IfGreater 46 (IfLess 65 (IfIn 48 57 (Goto (to 21)) (Goto (to 0))) (IfGreater 90 (IfIn 94 122 (Goto
    (to 21)) (Goto (to 0))) (Goto (to 21)))) (Goto (to 21))))"

definition client_st77 :: "client_action move test" where
  "client_st77 = Switch [(33, to 21), (58, client_tr39), (69, to 78), (101, to 78), (124, to 21), (126, to
    21)] (IfLess 45 (IfGreater 39 (IfIn 42 43 (Goto (to 21)) (Goto (to 0))) (IfGeq 35 (Goto (to 21)) (Goto (to
    0)))) (IfGreater 46 (IfLess 65 (IfIn 48 57 (Goto (to 21)) (Goto (to 0))) (IfGreater 90 (IfIn 94 122 (Goto
    (to 21)) (Goto (to 0))) (Goto (to 21)))) (Goto (to 21))))"

definition client_st78 :: "client_action move test" where
  "client_st78 = Switch [(33, to 21), (58, client_tr39), (68, to 79), (100, to 79), (124, to 21), (126, to
    21)] (IfLess 45 (IfGreater 39 (IfIn 42 43 (Goto (to 21)) (Goto (to 0))) (IfGeq 35 (Goto (to 21)) (Goto (to
    0)))) (IfGreater 46 (IfLess 65 (IfIn 48 57 (Goto (to 21)) (Goto (to 0))) (IfGreater 90 (IfIn 94 122 (Goto
    (to 21)) (Goto (to 0))) (Goto (to 21)))) (Goto (to 21))))"

definition client_st79 :: "client_action move test" where
  "client_st79 = Switch [(10, client_tr111), (13, client_tr112), (33, to 21), (58, client_tr39), (124, to 21),
    (126, to 21)] (IfLess 45 (IfGreater 39 (IfIn 42 43 (Goto (to 21)) (Goto (to 0))) (IfGeq 35 (Goto (to 21))
    (Goto (to 0)))) (IfGreater 46 (IfLess 65 (IfIn 48 57 (Goto (to 21)) (Goto (to 0))) (IfGreater 90 (IfIn 94
    122 (Goto (to 21)) (Goto (to 0))) (Goto (to 21)))) (Goto (to 21))))"

definition client_st80 :: "client_action move test" where
  "client_st80 = Switch [(10, to 62), (32, to 63), (67, client_tr104), (99, client_tr104)] (IfIn 9 13 (Goto
    (to 63)) (Goto (to 0)))"

definition client_st81 :: "client_action move test" where
  "client_st81 = Switch [(10, client_tr45), (13, client_tr46), (72, to 82), (104, to 82)] (Goto (to 23))"

definition client_st82 :: "client_action move test" where
  "client_st82 = Switch [(10, client_tr45), (13, client_tr46), (85, to 83), (117, to 83)] (Goto (to 23))"

definition client_st83 :: "client_action move test" where
  "client_st83 = Switch [(10, client_tr45), (13, client_tr46), (78, to 84), (110, to 84)] (Goto (to 23))"

definition client_st84 :: "client_action move test" where
  "client_st84 = Switch [(10, client_tr45), (13, client_tr46), (75, to 85), (107, to 85)] (Goto (to 23))"

definition client_st85 :: "client_action move test" where
  "client_st85 = Switch [(10, client_tr45), (13, client_tr46), (69, to 86), (101, to 86)] (Goto (to 23))"

definition client_st86 :: "client_action move test" where
  "client_st86 = Switch [(10, client_tr45), (13, client_tr46), (68, to 87), (100, to 87)] (Goto (to 23))"

definition client_st87 :: "client_action move test" where
  "client_st87 = Switch [(10, client_tr111), (13, client_tr112)] (Goto (to 23))"

definition client_st88 :: "client_action move test" where
  "client_st88 = IfEq 10 (Goto (to 43)) (Goto (to 0))"

definition client_st122 :: "client_action move test" where
  "client_st122 = Switch [(32, to 37), (67, to 38), (99, to 38)] (IfIn 9 13 (Goto (to 37)) (Goto (to 0)))"

definition client_st89 :: "client_action move test" where
  "client_st89 = Switch [(10, client_tr64), (32, to 37), (67, to 38), (99, to 38)] (IfIn 9 13 (Goto (to 37))
    (Goto (to 0)))"

definition client_st90 :: "client_action move test" where
  "client_st90 = Switch [(33, to 21), (58, client_tr39), (76, to 91), (79, to 26), (108, to 91), (111, to 26),
    (124, to 21), (126, to 21)] (IfLess 45 (IfGreater 39 (IfIn 42 43 (Goto (to 21)) (Goto (to 0))) (IfGeq 35
    (Goto (to 21)) (Goto (to 0)))) (IfGreater 46 (IfLess 65 (IfIn 48 57 (Goto (to 21)) (Goto (to 0))) (IfGreater
    90 (IfIn 94 122 (Goto (to 21)) (Goto (to 0))) (Goto (to 21)))) (Goto (to 21))))"

definition client_st91 :: "client_action move test" where
  "client_st91 = Switch [(33, to 21), (58, client_tr39), (79, to 92), (111, to 92), (124, to 21), (126, to
    21)] (IfLess 45 (IfGreater 39 (IfIn 42 43 (Goto (to 21)) (Goto (to 0))) (IfGeq 35 (Goto (to 21)) (Goto (to
    0)))) (IfGreater 46 (IfLess 65 (IfIn 48 57 (Goto (to 21)) (Goto (to 0))) (IfGreater 90 (IfIn 94 122 (Goto
    (to 21)) (Goto (to 0))) (Goto (to 21)))) (Goto (to 21))))"

definition client_st92 :: "client_action move test" where
  "client_st92 = Switch [(33, to 21), (58, client_tr39), (83, to 93), (115, to 93), (124, to 21), (126, to
    21)] (IfLess 45 (IfGreater 39 (IfIn 42 43 (Goto (to 21)) (Goto (to 0))) (IfGeq 35 (Goto (to 21)) (Goto (to
    0)))) (IfGreater 46 (IfLess 65 (IfIn 48 57 (Goto (to 21)) (Goto (to 0))) (IfGreater 90 (IfIn 94 122 (Goto
    (to 21)) (Goto (to 0))) (Goto (to 21)))) (Goto (to 21))))"

definition client_st93 :: "client_action move test" where
  "client_st93 = Switch [(33, to 21), (58, client_tr39), (69, to 94), (101, to 94), (124, to 21), (126, to
    21)] (IfLess 45 (IfGreater 39 (IfIn 42 43 (Goto (to 21)) (Goto (to 0))) (IfGeq 35 (Goto (to 21)) (Goto (to
    0)))) (IfGreater 46 (IfLess 65 (IfIn 48 57 (Goto (to 21)) (Goto (to 0))) (IfGreater 90 (IfIn 94 122 (Goto
    (to 21)) (Goto (to 0))) (Goto (to 21)))) (Goto (to 21))))"

definition client_st94 :: "client_action move test" where
  "client_st94 = Switch [(10, to 43), (13, to 88), (33, to 21), (58, client_tr39), (124, to 21), (126, to 21)]
    (IfLess 45 (IfGreater 39 (IfIn 42 43 (Goto (to 21)) (Goto (to 0))) (IfGeq 35 (Goto (to 21)) (Goto (to 0))))
    (IfGreater 46 (IfLess 65 (IfIn 48 57 (Goto (to 21)) (Goto (to 0))) (IfGreater 90 (IfIn 94 122 (Goto (to 21))
    (Goto (to 0))) (Goto (to 21)))) (Goto (to 21))))"

definition client_st95 :: "client_action move test" where
  "client_st95 = Switch [(10, to 36), (32, to 37), (67, to 38), (99, to 38)] (IfIn 9 13 (Goto (to 37)) (Goto
    (to 0)))"

definition client_st96 :: "client_action move test" where
  "client_st96 = Switch [(10, client_tr45), (13, client_tr46), (76, to 97), (108, to 97)] (Goto (to 23))"

definition client_st97 :: "client_action move test" where
  "client_st97 = Switch [(10, client_tr45), (13, client_tr46), (79, to 98), (111, to 98)] (Goto (to 23))"

definition client_st98 :: "client_action move test" where
  "client_st98 = Switch [(10, client_tr45), (13, client_tr46), (83, to 99), (115, to 99)] (Goto (to 23))"

definition client_st99 :: "client_action move test" where
  "client_st99 = Switch [(10, client_tr45), (13, client_tr46), (69, to 100), (101, to 100)] (Goto (to 23))"

definition client_st100 :: "client_action move test" where
  "client_st100 = Switch [(10, client_tr136), (13, client_tr137)] (Goto (to 23))"

definition client_st101 :: "client_action move test" where
  "client_st101 = Switch [(33, to 21), (58, client_tr39), (69, to 102), (101, to 102), (124, to 21), (126, to
    21)] (IfLess 45 (IfGreater 39 (IfIn 42 43 (Goto (to 21)) (Goto (to 0))) (IfGeq 35 (Goto (to 21)) (Goto (to
    0)))) (IfGreater 46 (IfLess 65 (IfIn 48 57 (Goto (to 21)) (Goto (to 0))) (IfGreater 90 (IfIn 94 122 (Goto
    (to 21)) (Goto (to 0))) (Goto (to 21)))) (Goto (to 21))))"

definition client_st102 :: "client_action move test" where
  "client_st102 = Switch [(33, to 21), (58, client_tr39), (78, to 103), (110, to 103), (124, to 21), (126, to
    21)] (IfLess 45 (IfGreater 39 (IfIn 42 43 (Goto (to 21)) (Goto (to 0))) (IfGeq 35 (Goto (to 21)) (Goto (to
    0)))) (IfGreater 46 (IfLess 65 (IfIn 48 57 (Goto (to 21)) (Goto (to 0))) (IfGreater 90 (IfIn 94 122 (Goto
    (to 21)) (Goto (to 0))) (Goto (to 21)))) (Goto (to 21))))"

definition client_st103 :: "client_action move test" where
  "client_st103 = Switch [(33, to 21), (58, client_tr39), (84, to 104), (116, to 104), (124, to 21), (126, to
    21)] (IfLess 45 (IfGreater 39 (IfIn 42 43 (Goto (to 21)) (Goto (to 0))) (IfGeq 35 (Goto (to 21)) (Goto (to
    0)))) (IfGreater 46 (IfLess 65 (IfIn 48 57 (Goto (to 21)) (Goto (to 0))) (IfGreater 90 (IfIn 94 122 (Goto
    (to 21)) (Goto (to 0))) (Goto (to 21)))) (Goto (to 21))))"

definition client_st104 :: "client_action move test" where
  "client_st104 = Switch [(33, to 21), (45, to 105), (46, to 21), (58, client_tr39), (124, to 21), (126, to
    21)] (IfLess 48 (IfGreater 39 (IfIn 42 43 (Goto (to 21)) (Goto (to 0))) (IfGeq 35 (Goto (to 21)) (Goto (to
    0)))) (IfGreater 57 (IfGreater 90 (IfIn 94 122 (Goto (to 21)) (Goto (to 0))) (IfGeq 65 (Goto (to 21)) (Goto
    (to 0)))) (Goto (to 21))))"

definition client_st105 :: "client_action move test" where
  "client_st105 = Switch [(33, to 21), (58, client_tr39), (76, to 106), (108, to 106), (124, to 21), (126, to
    21)] (IfLess 45 (IfGreater 39 (IfIn 42 43 (Goto (to 21)) (Goto (to 0))) (IfGeq 35 (Goto (to 21)) (Goto (to
    0)))) (IfGreater 46 (IfLess 65 (IfIn 48 57 (Goto (to 21)) (Goto (to 0))) (IfGreater 90 (IfIn 94 122 (Goto
    (to 21)) (Goto (to 0))) (Goto (to 21)))) (Goto (to 21))))"

definition client_st106 :: "client_action move test" where
  "client_st106 = Switch [(33, to 21), (58, client_tr39), (69, to 107), (101, to 107), (124, to 21), (126, to
    21)] (IfLess 45 (IfGreater 39 (IfIn 42 43 (Goto (to 21)) (Goto (to 0))) (IfGeq 35 (Goto (to 21)) (Goto (to
    0)))) (IfGreater 46 (IfLess 65 (IfIn 48 57 (Goto (to 21)) (Goto (to 0))) (IfGreater 90 (IfIn 94 122 (Goto
    (to 21)) (Goto (to 0))) (Goto (to 21)))) (Goto (to 21))))"

definition client_st107 :: "client_action move test" where
  "client_st107 = Switch [(33, to 21), (58, client_tr39), (78, to 108), (110, to 108), (124, to 21), (126, to
    21)] (IfLess 45 (IfGreater 39 (IfIn 42 43 (Goto (to 21)) (Goto (to 0))) (IfGeq 35 (Goto (to 21)) (Goto (to
    0)))) (IfGreater 46 (IfLess 65 (IfIn 48 57 (Goto (to 21)) (Goto (to 0))) (IfGreater 90 (IfIn 94 122 (Goto
    (to 21)) (Goto (to 0))) (Goto (to 21)))) (Goto (to 21))))"

definition client_st108 :: "client_action move test" where
  "client_st108 = Switch [(33, to 21), (58, client_tr39), (71, to 109), (103, to 109), (124, to 21), (126, to
    21)] (IfLess 45 (IfGreater 39 (IfIn 42 43 (Goto (to 21)) (Goto (to 0))) (IfGeq 35 (Goto (to 21)) (Goto (to
    0)))) (IfGreater 46 (IfLess 65 (IfIn 48 57 (Goto (to 21)) (Goto (to 0))) (IfGreater 90 (IfIn 94 122 (Goto
    (to 21)) (Goto (to 0))) (Goto (to 21)))) (Goto (to 21))))"

definition client_st109 :: "client_action move test" where
  "client_st109 = Switch [(33, to 21), (58, client_tr39), (84, to 110), (116, to 110), (124, to 21), (126, to
    21)] (IfLess 45 (IfGreater 39 (IfIn 42 43 (Goto (to 21)) (Goto (to 0))) (IfGeq 35 (Goto (to 21)) (Goto (to
    0)))) (IfGreater 46 (IfLess 65 (IfIn 48 57 (Goto (to 21)) (Goto (to 0))) (IfGreater 90 (IfIn 94 122 (Goto
    (to 21)) (Goto (to 0))) (Goto (to 21)))) (Goto (to 21))))"

definition client_st110 :: "client_action move test" where
  "client_st110 = Switch [(33, to 21), (58, client_tr39), (72, to 111), (104, to 111), (124, to 21), (126, to
    21)] (IfLess 45 (IfGreater 39 (IfIn 42 43 (Goto (to 21)) (Goto (to 0))) (IfGeq 35 (Goto (to 21)) (Goto (to
    0)))) (IfGreater 46 (IfLess 65 (IfIn 48 57 (Goto (to 21)) (Goto (to 0))) (IfGreater 90 (IfIn 94 122 (Goto
    (to 21)) (Goto (to 0))) (Goto (to 21)))) (Goto (to 21))))"

definition client_st111 :: "client_action move test" where
  "client_st111 = Switch [(33, to 21), (58, client_tr148), (124, to 21), (126, to 21)] (IfLess 45 (IfGreater
    39 (IfIn 42 43 (Goto (to 21)) (Goto (to 0))) (IfGeq 35 (Goto (to 21)) (Goto (to 0)))) (IfGreater 46 (IfLess
    65 (IfIn 48 57 (Goto (to 21)) (Goto (to 0))) (IfGreater 90 (IfIn 94 122 (Goto (to 21)) (Goto (to 0))) (Goto
    (to 21)))) (Goto (to 21))))"

definition client_st112 :: "client_action move test" where
  "client_st112 = Switch [(10, client_tr150), (13, client_tr151), (32, client_tr149)] (IfGreater 12 (IfIn 48
    57 (Goto client_tr152) (Goto client_tr40)) (IfGeq 9 (Goto client_tr149) (Goto client_tr40)))"

definition client_st113 :: "client_action move test" where
  "client_st113 = Switch [(10, client_tr154), (13, to 116), (32, to 114), (33, client_tr35), (67,
    client_tr36), (84, client_tr37), (99, client_tr36), (116, client_tr37), (124, client_tr35), (126,
    client_tr35)] (IfLess 45 (IfLess 35 (IfIn 9 12 (Goto (to 114)) (Goto (to 0))) (IfGreater 39 (IfIn 42 43
    (Goto client_tr35) (Goto (to 0))) (Goto client_tr35))) (IfGreater 46 (IfLess 65 (IfIn 48 57 (Goto
    client_tr156) (Goto (to 0))) (IfGreater 90 (IfIn 94 122 (Goto client_tr35) (Goto (to 0))) (Goto
    client_tr35))) (Goto client_tr35)))"

definition client_st114 :: "client_action move test" where
  "client_st114 = IfEq 32 (Goto (to 114)) (IfGreater 13 (IfIn 48 57 (Goto client_tr157) (Goto (to 0))) (IfGeq
    9 (Goto (to 114)) (Goto (to 0))))"

definition client_st115 :: "client_action move test" where
  "client_st115 = Switch [(10, client_tr158), (13, client_tr159)] (IfIn 48 57 (Goto (to 115)) (Goto (to 0)))"

definition client_st123 :: "client_action move test" where
  "client_st123 = IfEq 32 (Goto (to 114)) (IfGreater 13 (IfIn 48 57 (Goto client_tr157) (Goto (to 0))) (IfGeq
    9 (Goto (to 114)) (Goto (to 0))))"

definition client_st116 :: "client_action move test" where
  "client_st116 = Switch [(10, client_tr154), (32, to 114)] (IfGreater 13 (IfIn 48 57 (Goto client_tr157)
    (Goto (to 0))) (IfGeq 9 (Goto (to 114)) (Goto (to 0))))"

definition client_st117 :: "client_action move test" where
  "client_st117 = Switch [(10, client_tr158), (13, client_tr159), (33, to 21), (58, client_tr39), (124, to
    21), (126, to 21)] (IfLess 45 (IfGreater 39 (IfIn 42 43 (Goto (to 21)) (Goto (to 0))) (IfGeq 35 (Goto (to
    21)) (Goto (to 0)))) (IfGreater 46 (IfLess 65 (IfIn 48 57 (Goto (to 117)) (Goto (to 0))) (IfGreater 90 (IfIn
    94 122 (Goto (to 21)) (Goto (to 0))) (Goto (to 21)))) (Goto (to 21))))"

definition client_st118 :: "client_action move test" where
  "client_st118 = Switch [(10, to 113), (32, to 114)] (IfGreater 13 (IfIn 48 57 (Goto client_tr157) (Goto (to
    0))) (IfGeq 9 (Goto (to 114)) (Goto (to 0))))"

definition client_st119 :: "client_action move test" where
  "client_st119 = Switch [(10, client_tr158), (13, client_tr159)] (IfIn 48 57 (Goto (to 119)) (Goto (to 23)))"

section \<open>The switch\<close>

lemmas client_tr_defs =
  client_tr0_def client_tr3_def client_tr7_def client_tr9_def client_tr15_def client_tr74_def client_tr4_def
  client_tr10_def client_tr16_def client_tr75_def client_tr6_def client_tr12_def client_tr18_def client_tr8_def
  client_tr13_def client_tr14_def client_tr2_def client_tr26_def client_tr27_def client_tr28_def client_tr30_def
  client_tr45_def client_tr32_def client_tr42_def client_tr111_def client_tr113_def client_tr158_def
  client_tr35_def client_tr76_def client_tr41_def client_tr39_def client_tr40_def client_tr46_def
  client_tr33_def client_tr43_def client_tr159_def client_tr36_def client_tr77_def client_tr59_def
  client_tr58_def client_tr60_def client_tr136_def client_tr37_def client_tr78_def client_tr96_def
  client_tr95_def client_tr97_def client_tr104_def client_tr112_def client_tr101_def client_tr103_def
  client_tr98_def client_tr99_def client_tr137_def client_tr64_def client_tr66_def client_tr61_def
  client_tr62_def client_tr149_def client_tr148_def client_tr150_def client_tr157_def client_tr154_def
  client_tr156_def client_tr151_def client_tr152_def

lemmas client_st_defs =
  client_st1_def client_st2_def client_st120_def client_st3_def client_st4_def client_st5_def client_st6_def
  client_st7_def client_st8_def client_st9_def client_st10_def client_st11_def client_st12_def client_st13_def
  client_st14_def client_st15_def client_st16_def client_st17_def client_st18_def client_st19_def
  client_st20_def client_st21_def client_st22_def client_st23_def client_st24_def client_st25_def
  client_st26_def client_st27_def client_st28_def client_st29_def client_st30_def client_st31_def
  client_st32_def client_st33_def client_st34_def client_st35_def client_st36_def client_st37_def
  client_st38_def client_st39_def client_st40_def client_st41_def client_st42_def client_st43_def
  client_st44_def client_st45_def client_st46_def client_st47_def client_st48_def client_st49_def
  client_st50_def client_st51_def client_st52_def client_st53_def client_st54_def client_st55_def
  client_st56_def client_st57_def client_st58_def client_st59_def client_st60_def client_st61_def
  client_st62_def client_st63_def client_st64_def client_st65_def client_st66_def client_st67_def
  client_st68_def client_st69_def client_st70_def client_st71_def client_st121_def client_st72_def
  client_st73_def client_st74_def client_st75_def client_st76_def client_st77_def client_st78_def
  client_st79_def client_st80_def client_st81_def client_st82_def client_st83_def client_st84_def
  client_st85_def client_st86_def client_st87_def client_st88_def client_st122_def client_st89_def
  client_st90_def client_st91_def client_st92_def client_st93_def client_st94_def client_st95_def
  client_st96_def client_st97_def client_st98_def client_st99_def client_st100_def client_st101_def
  client_st102_def client_st103_def client_st104_def client_st105_def client_st106_def client_st107_def
  client_st108_def client_st109_def client_st110_def client_st111_def client_st112_def client_st113_def
  client_st114_def client_st115_def client_st123_def client_st116_def client_st117_def client_st118_def
  client_st119_def

definition client_table :: "client_action table" where
  "client_table = [(1, client_st1), (2, client_st2), (3, client_st3), (4, client_st4), (5, client_st5), (6,
    client_st6), (7, client_st7), (8, client_st8), (9, client_st9), (10, client_st10), (11, client_st11), (12,
    client_st12), (13, client_st13), (14, client_st14), (15, client_st15), (16, client_st16), (17, client_st17),
    (18, client_st18), (19, client_st19), (20, client_st20), (21, client_st21), (22, client_st22), (23,
    client_st23), (24, client_st24), (25, client_st25), (26, client_st26), (27, client_st27), (28, client_st28),
    (29, client_st29), (30, client_st30), (31, client_st31), (32, client_st32), (33, client_st33), (34,
    client_st34), (35, client_st35), (36, client_st36), (37, client_st37), (38, client_st38), (39, client_st39),
    (40, client_st40), (41, client_st41), (42, client_st42), (43, client_st43), (44, client_st44), (45,
    client_st45), (46, client_st46), (47, client_st47), (48, client_st48), (49, client_st49), (50, client_st50),
    (51, client_st51), (52, client_st52), (53, client_st53), (54, client_st54), (55, client_st55), (56,
    client_st56), (57, client_st57), (58, client_st58), (59, client_st59), (60, client_st60), (61, client_st61),
    (62, client_st62), (63, client_st63), (64, client_st64), (65, client_st65), (66, client_st66), (67,
    client_st67), (68, client_st68), (69, client_st69), (70, client_st70), (71, client_st71), (72, client_st72),
    (73, client_st73), (74, client_st74), (75, client_st75), (76, client_st76), (77, client_st77), (78,
    client_st78), (79, client_st79), (80, client_st80), (81, client_st81), (82, client_st82), (83, client_st83),
    (84, client_st84), (85, client_st85), (86, client_st86), (87, client_st87), (88, client_st88), (89,
    client_st89), (90, client_st90), (91, client_st91), (92, client_st92), (93, client_st93), (94, client_st94),
    (95, client_st95), (96, client_st96), (97, client_st97), (98, client_st98), (99, client_st99), (100,
    client_st100), (101, client_st101), (102, client_st102), (103, client_st103), (104, client_st104), (105,
    client_st105), (106, client_st106), (107, client_st107), (108, client_st108), (109, client_st109), (110,
    client_st110), (111, client_st111), (112, client_st112), (113, client_st113), (114, client_st114), (115,
    client_st115), (116, client_st116), (117, client_st117), (118, client_st118), (119, client_st119), (120,
    client_st120), (121, client_st121), (122, client_st122), (123, client_st123)]"

end
