(* ===== verification/ResponseParser.thy ===== *)
theory ResponseParser
  imports ClientStates HttpServe CText
begin

text \<open>
  The response parser: \<open>src/http/httpclient_parser.rl.cpp\<close> around its state machine, with the callbacks that
  \<open>src/http/Parser.cpp\<close> installs.
\<close>

section \<open>State\<close>

text \<open>
  The fields of \<open>struct httpclient_parser\<close>; the numbers \<open>content_len\<close> and \<open>status\<close> are \<open>int\<close>, the flags are
  compared with zero only.
\<close>

record client_parser =
  cp_cs :: int
  cp_body_start :: nat
  cp_content_len :: "32 word"
  cp_status :: "32 word"
  cp_chunked :: bool
  cp_chunks_done :: bool
  cp_close :: bool
  cp_nread :: nat
  cp_mark :: nat
  cp_field_start :: nat
  cp_field_len :: nat

text \<open>The field \<open>status\<close> stays as it is.\<close>

definition httpclient_parser_init :: "client_parser \<Rightarrow> client_parser" where
  "httpclient_parser_init h =
     h\<lparr>cp_cs := 1, cp_body_start := 0, cp_content_len := -1, cp_chunked := False, cp_chunks_done := False,
       cp_mark := 0, cp_nread := 0, cp_field_len := 0, cp_field_start := 0, cp_close := False\<rparr>"

section \<open>Callbacks\<close>

text \<open>The response under construction and \<open>_error\<close>.\<close>

record response_build =
  sb_data :: http_response
  sb_error :: int

definition new_response_build :: response_build where
  "new_response_build = \<lparr>sb_data = new_HttpResponse 0x11 True, sb_error = 0\<rparr>"

definition on_response_reason :: "bytes \<Rightarrow> response_build \<Rightarrow> response_build" where
  "on_response_reason t b = b\<lparr>sb_data := (sb_data b)\<lparr>hp_reason := t\<rparr>\<rparr>"

text \<open>\<open>buf\<close> goes on to the end of the buffer. The status is kept as the \<open>uint32_t\<close> that is printed.\<close>

definition on_response_status :: "bytes \<Rightarrow> response_build \<Rightarrow> response_build res" where
  "on_response_status buf b =
     bindE (atoi buf) (\<lambda>n. Inr (b\<lparr>sb_data := (sb_data b)\<lparr>hp_status := unat n\<rparr>\<rparr>))"

definition on_response_version :: "bytes \<Rightarrow> nat \<Rightarrow> response_build \<Rightarrow> response_build" where
  "on_response_version buf n b =
     (if strncmp_eq buf (str ''HTTP/1.1'') n then b\<lparr>sb_data := (sb_data b)\<lparr>hp_version := 0x11\<rparr>\<rparr>
      else if strncmp_eq buf (str ''HTTP/1.0'') n then b\<lparr>sb_data := (sb_data b)\<lparr>hp_version := 0x10\<rparr>\<rparr>
      else b\<lparr>sb_error := 1001\<rparr>)"

definition on_response_http_field :: "bytes \<Rightarrow> bytes \<Rightarrow> response_build \<Rightarrow> response_build" where
  "on_response_http_field field val b =
     (if length field = 0 then b else b\<lparr>sb_data := rsp_setHeader field val (sb_data b)\<rparr>)"

section \<open>Actions\<close>

type_synonym response_state = "client_parser \<times> response_build"

definition on_answer :: "(response_build \<Rightarrow> response_build) \<Rightarrow> response_state \<Rightarrow> response_state" where
  "on_answer f s = (fst s, f (snd s))"

definition on_client :: "(client_parser \<Rightarrow> client_parser) \<Rightarrow> response_state \<Rightarrow> response_state" where
  "on_client f s = (f (fst s), snd s)"

text \<open>
  The positions that a callback gets lie in the buffer, in order, since \<open>execute\<close> sets all of them to its
  start; the text between two of them is what stands there. \<open>chunk_size\<close>, \<open>last_chunk\<close> and \<open>header_done\<close> do
  nothing.
\<close>

definition between :: "bytes \<Rightarrow> nat \<Rightarrow> nat \<Rightarrow> bytes" where
  "between buf from p = take (p - from) (drop from buf)"

fun client_exec :: "bytes \<Rightarrow> client_action \<Rightarrow> nat \<Rightarrow> response_state \<Rightarrow> response_state res" where
  "client_exec buf Mark p s = Inr (on_client (\<lambda>h. h\<lparr>cp_mark := p\<rparr>) s)"
| "client_exec buf Start_field p s = Inr (on_client (\<lambda>h. h\<lparr>cp_field_start := p\<rparr>) s)"
| "client_exec buf Write_field p s = Inr (on_client (\<lambda>h. h\<lparr>cp_field_len := p - cp_field_start h\<rparr>) s)"
| "client_exec buf Start_value p s = Inr (on_client (\<lambda>h. h\<lparr>cp_mark := p\<rparr>) s)"
| "client_exec buf Write_content_len p s =
     Inr (on_client (\<lambda>h. h\<lparr>cp_content_len := of_int (strtol 10 (drop (cp_mark h) buf))\<rparr>) s)"
| "client_exec buf Write_connection_close p s = Inr (on_client (\<lambda>h. h\<lparr>cp_close := True\<rparr>) s)"
| "client_exec buf Write_value p s =
     Inr (on_answer (on_response_http_field
       (take (cp_field_len (fst s)) (drop (cp_field_start (fst s)) buf)) (between buf (cp_mark (fst s)) p)) s)"
| "client_exec buf Reason_phrase p s =
     Inr (on_answer (on_response_reason (between buf (cp_mark (fst s)) p)) s)"
| "client_exec buf Status_code p s =
     (let h = (fst s)\<lparr>cp_status := of_int (strtol 10 (drop (cp_mark (fst s)) buf))\<rparr>
      in bindE (on_response_status (drop (cp_mark h) buf) (snd s)) (\<lambda>b. Inr (h, b)))"
| "client_exec buf Http_version p s =
     Inr (on_answer (on_response_version (drop (cp_mark (fst s)) buf) (p - cp_mark (fst s))) s)"
| "client_exec buf Chunk_size p s =
     Inr (on_client (\<lambda>h.
       let n = of_int (strtol 16 (drop (cp_mark h) buf))
       in h\<lparr>cp_chunked := True, cp_content_len := n, cp_chunks_done := sint n \<le> 0\<rparr>) s)"
| "client_exec buf Trans_chunked p s = Inr (on_client (\<lambda>h. h\<lparr>cp_chunked := True\<rparr>) s)"
| "client_exec buf Done p s = Inr (on_client (\<lambda>h. h\<lparr>cp_body_start := p + 1\<rparr>) s)"

definition client_machine :: "bytes \<Rightarrow> (client_action, response_state) machine" where
  "client_machine buf =
     \<lparr>m_table = client_table, m_wide = (\<lambda>c. c), m_exec = client_exec buf, m_stops = (\<lambda>as. Done \<in> set as)\<rparr>"

section \<open>Execute\<close>

definition client_restarted :: "client_parser \<Rightarrow> client_parser" where
  "client_restarted h = h\<lparr>cp_nread := 0, cp_mark := 0, cp_field_len := 0, cp_field_start := 0\<rparr>"

text \<open>
  A call from the start of the buffer, which the caller has ended with a zero. \<open>None\<close> is the result \<open>-1\<close> of a
  failed \<open>check\<close>.
\<close>

definition httpclient_parser_execute :: "bytes \<Rightarrow> response_state \<Rightarrow> (nat option \<times> response_state) res" where
  "httpclient_parser_execute buf s =
     (let h = client_restarted (fst s); len = length buf in
      bindE (run (client_machine buf) (cp_cs h) 0 buf (h, snd s)) (\<lambda>(cs, p, h', b).
        let h' = h'\<lparr>cp_cs := cs, cp_nread := cp_nread h' + p\<rparr> in
        if \<not> (p \<le> len \<and> cp_nread h' \<le> len \<and> cp_body_start h' \<le> len) then Inl AssertFail
        else if cp_mark h' < len \<and> cp_field_len h' \<le> len \<and> cp_field_start h' < len
        then Inr (Some (cp_nread h'), h', b)
        else Inr (None, h', b)))"

definition httpclient_parser_has_error :: "client_parser \<Rightarrow> bool" where
  "httpclient_parser_has_error h \<longleftrightarrow> cp_cs h = 0"

definition httpclient_parser_is_finished :: "client_parser \<Rightarrow> bool" where
  "httpclient_parser_is_finished h \<longleftrightarrow> cp_cs h = 120"

definition httpclient_parser_finish :: "client_parser \<Rightarrow> int" where
  "httpclient_parser_finish h =
     (if httpclient_parser_has_error h then - 1 else if httpclient_parser_is_finished h then 1 else 0)"

section \<open>The class\<close>

text \<open>\<open>junk\<close> is the memory of the struct.\<close>

definition HttpResponseParser :: "client_parser \<Rightarrow> response_state" where
  "HttpResponseParser junk = (httpclient_parser_init junk, new_response_build)"

text \<open>
  What \<open>execute\<close> returns, and what is left at the start of the buffer. After a failed check the move reads
  and writes outside of it.
\<close>

definition rsp_execute :: "bool \<Rightarrow> bytes \<Rightarrow> response_state \<Rightarrow> (bytes \<times> response_state) res" where
  "rsp_execute chunk buf s =
     bindE (httpclient_parser_execute buf (if chunk then on_client httpclient_parser_init s else s)) (\<lambda>(n, s).
       case n of None \<Rightarrow> Inl BadIndex | Some n \<Rightarrow> Inr (drop n buf, s))"

definition rsp_isFinished :: "response_state \<Rightarrow> bool" where
  "rsp_isFinished s \<longleftrightarrow> httpclient_parser_finish (fst s) \<noteq> 0"

definition rsp_hasError :: "response_state \<Rightarrow> bool" where
  "rsp_hasError s \<longleftrightarrow> sb_error (snd s) \<noteq> 0 \<or> httpclient_parser_has_error (fst s)"

definition rsp_getContentLength :: "(bytes \<Rightarrow> u64 option) \<Rightarrow> response_state \<Rightarrow> u64" where
  "rsp_getContentLength cast s =
     (case ci_get (str ''content-length'') (hp_headers (sb_data (snd s))) of
        None \<Rightarrow> 0 | Some v \<Rightarrow> (case cast v of None \<Rightarrow> 0 | Some n \<Rightarrow> n))"

text \<open>The sizes of the configuration; those of responses are never read.\<close>

record http_sizes =
  s_http_request_buffer_size :: u64
  s_http_request_max_body_size :: u64
  s_http_response_buffer_size :: u64
  s_http_response_max_body_size :: u64

definition GetHttpRequestBufferSize :: "http_sizes \<Rightarrow> u64" where
  "GetHttpRequestBufferSize z = s_http_request_buffer_size z"

definition GetHttpRequestBodySize :: "http_sizes \<Rightarrow> u64" where
  "GetHttpRequestBodySize z = s_http_request_max_body_size z"

definition GetHttpResponseBufferSize :: "http_sizes \<Rightarrow> u64" where
  "GetHttpResponseBufferSize z = s_http_request_buffer_size z"

definition GetHttpResponseBodySize :: "http_sizes \<Rightarrow> u64" where
  "GetHttpResponseBodySize z = s_http_request_max_body_size z"

end
