(* ===== verification/ResponseParserSafety.thy ===== *)
theory ResponseParserSafety
  imports ResponseParser
begin

text \<open>
  The response parser keeps its positions inside the buffer: its assertions and checks hold, and it fails
  only for a status that is no \<open>int\<close>.
\<close>

lemma client_exec_other:
  "client_exec buf a p s = Inr s' \<Longrightarrow> cp_nread (fst s') = cp_nread (fst s) \<and>
     (a \<noteq> Done \<longrightarrow> cp_body_start (fst s') = cp_body_start (fst s))"
  by (cases a) (auto simp: on_client_def on_answer_def bindE_Inr_iff Let_def)

definition client_ok :: "int \<Rightarrow> bytes \<Rightarrow> response_state \<Rightarrow> bool" where
  "client_ok cs rd s \<longleftrightarrow>
     cp_nread (fst s) = 0 \<and> cp_mark (fst s) \<le> length rd - 1 \<and> cp_field_start (fst s) \<le> length rd - 1 \<and>
     cp_field_len (fst s) \<le> length rd \<and> cp_body_start (fst s) \<le> length rd"

text \<open>No position is behind \<open>p\<close>.\<close>

definition client_upto :: "nat \<Rightarrow> client_parser \<Rightarrow> bool" where
  "client_upto p h \<longleftrightarrow>
     cp_nread h = 0 \<and> cp_mark h \<le> p \<and> cp_field_start h \<le> p \<and> cp_field_len h \<le> p \<and> cp_body_start h \<le> Suc p"

lemma client_exec_upto:
  "client_exec buf a p s = Inr s' \<Longrightarrow> client_upto p (fst s) \<Longrightarrow> client_upto p (fst s')"
  by (cases a) (auto simp: client_upto_def on_client_def on_answer_def bindE_Inr_iff Let_def)

lemma client_acts_upto:
  "run_acts (client_exec buf) as p s = Inr s' \<Longrightarrow> client_upto p (fst s) \<Longrightarrow> client_upto p (fst s')"
  by (induction as arbitrary: s) (auto simp: bindE_Inr_iff dest: client_exec_upto)

lemma client_exec_fails: "client_exec buf a p s = Inl e \<Longrightarrow> e = ArithUB"
  by (cases a) (auto simp: on_response_status_def atoi_def bindE_Inl_iff Let_def split: if_splits)

lemma client_acts_fails: "run_acts (client_exec buf) as p s = Inl e \<Longrightarrow> e = ArithUB"
  by (induction as arbitrary: s) (auto simp: bindE_Inl_iff dest: client_exec_fails)

lemma client_errors_plain:
  "list_all (\<lambda>x. list_all (\<lambda>m. snd m = 0 \<longrightarrow> fst m = []) (leaves (snd x))) client_table"
  by (simp add: client_table_def) (simp add: client_st_defs client_tr_defs)

interpretation client_runs: total_invariant "client_machine buf" client_ok "\<lambda>e _ _. e = ArithUB" for buf
proof unfold_locales
  fix cs rd s b as cs' s'
  assume ok: "client_ok cs rd s" and run: "run_acts (m_exec (client_machine buf)) as (length rd) s = Inr s'"
  have "client_upto (length rd) (fst s)"
    using ok by (auto simp: client_ok_def client_upto_def)
  with run have "client_upto (length rd) (fst s')"
    by (auto simp: client_machine_def intro: client_acts_upto)
  then show "client_ok cs' (rd @ [b]) s'"
    by (auto simp: client_ok_def client_upto_def)
next
  fix cs rd s b as cs' e
  assume "run_acts (m_exec (client_machine buf)) as (length rd) s = Inl e"
  then show "e = ArithUB"
    by (auto simp: client_machine_def intro: client_acts_fails)
next
  fix cs c as
  assume "switch_cs (m_wide (client_machine buf)) (m_table (client_machine buf)) cs c = Some (as, 0)"
  from table_leavesD [OF _ this, of "\<lambda>_ m. snd m = 0 \<longrightarrow> fst m = []"] client_errors_plain show "as = []"
    by (simp add: client_machine_def)
qed

lemma run_client:
  assumes "run (client_machine buf) cs 0 buf (client_restarted h, b) = Inr (cs', p, h', b')" and "cp_body_start h = 0"
  shows "p \<le> length buf \<and> cp_nread h' = 0 \<and> cp_body_start h' \<le> length buf \<and> cp_field_len h' \<le> length buf \<and>
    (buf \<noteq> [] \<longrightarrow> cp_mark h' < length buf \<and> cp_field_start h' < length buf)"
proof -
  have ok: "client_ok cs [] (client_restarted h, b)"
    using assms(2) by (simp add: client_ok_def client_restarted_def)
  have "run (client_machine buf) cs (length []) buf (client_restarted h, b) = Inr (cs', p, h', b')"
    using assms(1) by simp
  from client_runs.run_left [OF ok this] obtain n cs1 where "n \<le> length buf" "p = n" "client_ok cs1 (take n buf) (h', b')"
    by auto
  then show ?thesis
    by (cases buf) (auto simp: client_ok_def)
qed

lemma client_execute_returns:
  assumes "run (client_machine buf) (cp_cs (fst s)) 0 buf (client_restarted (fst s), snd s) = Inr (cs, p, h, b)"
    and "buf \<noteq> []" "cp_body_start (fst s) = 0"
  shows "httpclient_parser_execute buf s = Inr (Some p, h\<lparr>cp_cs := cs, cp_nread := p\<rparr>, b)"
  using run_client [OF assms(1,3)] assms(1,2)
  by (simp add: httpclient_parser_execute_def Let_def client_restarted_def)

text \<open>C19: on a buffer that is not empty \<open>execute\<close> reads at most the buffer, and neither an assertion nor a check at
  its end fails; the conversion of a status that does not fit an \<open>int\<close> is undefined. The chunk lines are always
  read from a parser in its initial state.
\<close>

theorem response_parser_checks_hold:
  assumes "buf \<noteq> []" "chunk \<or> cp_body_start (fst s) = 0"
  shows "case rsp_execute chunk buf s of
      Inl e \<Rightarrow> e = ArithUB
    | Inr (left, _) \<Rightarrow> \<exists>n \<le> length buf. left = drop n buf"
proof -
  define s1 where "s1 = (if chunk then on_client httpclient_parser_init s else s)"
  have s1: "cp_body_start (fst s1) = 0"
    using assms(2) by (auto simp: s1_def on_client_def httpclient_parser_init_def)
  show ?thesis
  proof (cases "run (client_machine buf) (cp_cs (fst s1)) 0 buf (client_restarted (fst s1), snd s1)")
    case (Inl e)
    have "client_ok (cp_cs (fst s1)) [] (client_restarted (fst s1), snd s1)"
      using s1 by (simp add: client_ok_def client_restarted_def)
    moreover have "run (client_machine buf) (cp_cs (fst s1)) (length []) buf (client_restarted (fst s1), snd s1) = Inl e"
      using Inl by simp
    ultimately have "e = ArithUB"
      using client_runs.run_fails by blast
    then show ?thesis
      using Inl by (simp add: rsp_execute_def s1_def httpclient_parser_execute_def Let_def client_restarted_def)
  next
    case (Inr r)
    obtain cs p h b where r: "r = (cs, p, h, b)" by (cases r)
    have run: "run (client_machine buf) (cp_cs (fst s1)) 0 buf (client_restarted (fst s1), snd s1) = Inr (cs, p, h, b)"
      using Inr r by simp
    have "p \<le> length buf"
      using run_client [OF run s1] by simp
    then show ?thesis
      using client_execute_returns [OF run assms(1) s1] by (auto simp: rsp_execute_def s1_def)
  qed
qed

end
