(* ===== verification/ResponseRoundtrip.thy ===== *)
theory ResponseRoundtrip
  imports RequestRoundtrip ResponseParser ResponseParserSafety
begin

text \<open>
  The head of a response that \<open>HttpResponse::dump\<close> prints is read back by the response parser: the classes of
  characters and the moves of the machine, the header lines, the status line, and whole heads.
\<close>

section \<open>Classes of characters and moves\<close>

definition reason_chars :: "(int \<times> int) list" where
  "reason_chars = [(-128, 9), (11, 12), (14, 127)]"

text \<open>The first character of a value is no blank.\<close>

definition body_first :: "(int \<times> int) list" where
  "body_first = [(-128, 8), (14, 31), (33, 127)]"

text \<open>States inside a name: of any name, of a name with C, of \<open>Transfer-Encoding\<close>.\<close>

definition c_name_states :: "int list" where
  "c_name_states =
     [25, 26, 27, 28, 29, 30, 31, 32, 33, 34, 101, 102, 103, 104, 105, 106, 107, 108, 109, 110, 111, 21]"

definition te_letters :: "int list" where
  "te_letters = [114, 97, 110, 115, 102, 101, 114, 45, 101, 110, 99, 111, 100, 105, 110, 103]"

definition te_states :: "int list" where
  "te_states = [44, 45, 46, 47, 48, 49, 50, 51, 52, 53, 54, 55, 56, 57, 58, 59]"

text \<open>States inside a value that is no coding, and its ends.\<close>

definition value_states :: "int list" where
  "value_states = [23, 96, 97, 98, 99, 100]"

definition line_states :: "int list" where
  "line_states = [20, 43]"

lemmas client_char_defs = http_char_defs reason_chars_def body_first_def

lemma regular_client: "regular [] (client_machine buf)"
  by (simp add: regular_def client_machine_def numbered_def client_table_def upto.simps [of 1])

lemma client_machine_simps [simp]:
  "m_table (client_machine buf) = client_table" "m_exec (client_machine buf) = client_exec buf"
  "m_wide (client_machine buf) = (\<lambda>c. c)" "m_stops (client_machine buf) as \<longleftrightarrow> Done \<in> set as"
  by (simp_all add: client_machine_def)

lemmas client_move = run_move [OF regular_client]

lemma status_moves:
  "moves_to [] client_table [1] [(0x48, 0x48)] [Mark] [8]"
  "moves_to [] client_table [8] [(0x54, 0x54)] [] [9]"
  "moves_to [] client_table [9] [(0x54, 0x54)] [] [10]"
  "moves_to [] client_table [10] [(0x50, 0x50)] [] [11]"
  "moves_to [] client_table [11] [(0x2F, 0x2F)] [] [12]"
  "moves_to [] client_table [12] [(0x31, 0x31)] [] [13]"
  "moves_to [] client_table [13] [(0x2E, 0x2E)] [] [14]"
  "moves_to [] client_table [14] [(0x30, 0x31)] [] [15]"
  "moves_to [] client_table [15] [(0x20, 0x20)] [Http_version] [16]"
  "moves_to [] client_table [16] [(0x30, 0x39)] [Mark] [17]"
  "moves_to [] client_table [17] [(0x30, 0x39)] [] [17]"
  "moves_to [] client_table [17] [(0x20, 0x20)] [Status_code] [18]"
  "moves_to [] client_table [18] reason_chars [Mark] [19]"
  "moves_to [] client_table [19] reason_chars [] [19]"
  "moves_to [] client_table [19] [(0x0D, 0x0D)] [Reason_phrase] [24]"
  "moves_to [] client_table [24] [(0x0A, 0x0A)] [] [20]"
  by (simp_all add: moves_to_def client_table_def)
    (simp_all add: row_all_def client_char_defs client_st_defs client_tr_defs)

text \<open>Names.\<close>

fun without :: "int \<Rightarrow> (int \<times> int) list \<Rightarrow> (int \<times> int) list" where
  "without l [] = []"
| "without l ((a, b) # rs) =
     (if a \<le> l \<and> l \<le> b then (if a < l then [(a, l - 1)] else []) @ (if l < b then [(l + 1, b)] else [])
      else [(a, b)]) @ without l rs"

lemma in_ranges_append: "in_ranges (rs @ rs') b \<longleftrightarrow> in_ranges rs b \<or> in_ranges rs' b"
  by (auto simp: in_ranges_def)

lemma in_without: "in_ranges rs b \<Longrightarrow> sint b \<noteq> l \<Longrightarrow> in_ranges (without l rs) b"
proof (induction rs)
  case (Cons r rs)
  obtain x y where r: "r = (x, y)" by (cases r)
  show ?case
  proof (cases "x \<le> sint b \<and> sint b \<le> y")
    case True
    then show ?thesis
      using Cons.prems(2) by (cases "sint b < l") (auto simp: r in_ranges_append in_ranges_def)
  next
    case False
    then show ?thesis
      using Cons by (auto simp: r in_ranges_append) (auto simp: in_ranges_def)
  qed
qed (simp add: in_ranges_def)

definition letter :: "int \<Rightarrow> (int \<times> int) list" where
  "letter l = (if l = 45 then [(45, 45)] else [(l, l), (l - 32, l - 32)])"

definition other_chars :: "int \<Rightarrow> (int \<times> int) list" where
  "other_chars l = (if l = 45 then without 45 token_chars else without (l - 32) (without l token_chars))"

lemma letter_or_other: "in_ranges token_chars b \<Longrightarrow> in_ranges (letter l) b \<or> in_ranges (other_chars l) b"
proof (cases "sint b = l \<or> l \<noteq> 45 \<and> sint b = l - 32")
  case True
  then show ?thesis by (auto simp: letter_def in_ranges_def)
next
  case False
  then show "in_ranges token_chars b \<Longrightarrow> ?thesis" by (auto simp: other_chars_def in_without)
qed

lemmas client_name_defs = letter_def other_chars_def c_name_states_def te_states_def te_letters_def

definition plain_first :: "(int \<times> int) list" where
  "plain_first = without 67 (without 99 (without 84 (without 116 token_chars)))"

lemma name_moves:
  "moves_to [] client_table [20] plain_first [Start_field] [21]"
  "moves_to [] client_table [20] (letter 99) [Start_field] [25]"
  "moves_to [] client_table [20] (letter 116) [Start_field] [44]"
  "moves_to [] client_table [43] plain_first [Write_connection_close, Start_field] [21]"
  "moves_to [] client_table [43] (letter 99) [Write_connection_close, Start_field] [25]"
  "moves_to [] client_table [43] (letter 116) [Write_connection_close, Start_field] [44]"
  "moves_to [] client_table [21] token_chars [] [21]"
  "moves_to [] client_table c_name_states token_chars [] c_name_states"
  "moves_to [] client_table (c_name_states @ te_states) [(0x3A, 0x3A)] [Write_field] [22, 35, 112]"
  "moves_to [] client_table [60] token_chars [] [21]"
  "moves_to [] client_table [60] [(0x3A, 0x3A)] [Write_field] [61]"
  by (simp_all add: moves_to_def client_table_def client_name_defs plain_first_def)
    (simp_all add: row_all_def client_char_defs client_name_defs plain_first_def client_st_defs client_tr_defs)

lemma te_moves:
  "list_all (\<lambda>(i, l). moves_to [] client_table [44 + i] (letter l) [] [45 + i] \<and>
     moves_to [] client_table [44 + i] (other_chars l) [] [21]) (zip [0..15] te_letters)"
  by (simp add: te_letters_def upto.simps moves_to_def client_table_def)
    (simp add: row_all_def client_char_defs client_name_defs client_st_defs client_tr_defs)

text \<open>Values and ends of lines.\<close>

lemma value_moves:
  "moves_to [] client_table [22, 35, 112] [(0x20, 0x20)] [Start_value] [22, 35, 112]"
  "moves_to [] client_table [22, 35, 112] body_first [Start_value] (119 # value_states)"
  "moves_to [] client_table (119 # value_states) reason_chars [] (119 # value_states)"
  "moves_to [] client_table value_states [(0x0D, 0x0D)] [Write_value] [24, 88]"
  "moves_to [] client_table [119] [(0x0D, 0x0D)] [Write_content_len, Write_value] [24]"
  "moves_to [] client_table [24, 88] [(0x0A, 0x0A)] [] line_states"
  "moves_to [] client_table [20] [(0x0D, 0x0D)] [] [3]"
  "moves_to [] client_table [43] [(0x0D, 0x0D)] [Write_connection_close] [3]"
  "moves_to [] client_table [3] [(0x0A, 0x0A)] [Done] [120]"
  by (simp_all add: moves_to_def client_table_def value_states_def line_states_def)
    (simp_all add: row_all_def client_char_defs client_st_defs client_tr_defs)

section \<open>Lines of a head\<close>

lemma fold_case_tokens:
  "\<forall>b \<in> set k. in_ranges token_chars b \<Longrightarrow> fold_case k = map c_tolower k"
proof -
  assume "\<forall>b \<in> set k. in_ranges token_chars b"
  then have "\<forall>b \<in> set k. b \<noteq> 0" by (auto simp: in_ranges_def token_chars_def)
  then have "c_str k = k" unfolding c_str_def by (intro takeWhile_eq_all_conv [THEN iffD2]) auto
  then show ?thesis by (simp add: fold_case_def ToLower_def)
qed

text \<open>The letters behind a T: either all of them are those of \<open>transfer-encoding\<close> or the state is another one.\<close>

lemma letter_bytes: "in_ranges (letter l) b \<Longrightarrow> b = of_int l \<or> l \<noteq> 45 \<and> b = of_int (l - 32)"
proof -
  assume l: "in_ranges (letter l) b"
  have b: "b = of_int x" if "sint b = x" for x
    unfolding that [symmetric] by simp
  have "sint b = l \<or> l \<noteq> 45 \<and> sint b = l - 32"
    using l by (auto simp: letter_def in_ranges_def split: if_splits)
  then show ?thesis using b by blast
qed

lemma te_letter_cases: "l \<in> set te_letters \<Longrightarrow> in_ranges (letter l) b \<Longrightarrow> c_tolower b = of_int l"
  using letter_bytes [of l b] by (auto simp: te_letters_def c_tolower_def)

lemma run_te:
  "n \<le> 16 \<Longrightarrow> \<forall>b \<in> set bs. in_ranges token_chars b \<Longrightarrow>
   \<exists>cs. run (client_machine buf) (44 + int n) p (bs @ rest) s = run (client_machine buf) cs (p + length bs) rest s \<and>
     (cs = 21 \<or> n + length bs \<le> 16 \<and> cs = 44 + int (n + length bs) \<and>
        map c_tolower bs = map of_int (take (length bs) (drop n te_letters)))"
proof (induction bs arbitrary: n p)
  case (Cons b bs)
  let ?M = "client_machine buf"
  have through: "run ?M 21 (Suc p) (bs @ rest) s = run ?M 21 (p + length (b # bs)) rest s"
    using run_through [OF regular_client, of buf "[21]" token_chars 21 bs "Suc p" rest s] Cons.prems(2) name_moves(7)
    by simp
  show ?case
  proof (cases "n = 16")
    case True
    then have "run ?M (44 + int n) p (b # bs @ rest) s = run ?M 21 (Suc p) (bs @ rest) s"
      using client_move [of buf "[60]" token_chars "[]" "[21]" 60 b p "bs @ rest" s] name_moves(10) Cons.prems(2) by simp
    then show ?thesis using through by auto
  next
    case False
    let ?l = "te_letters ! n"
    have n: "n < length (zip [0..15] te_letters)" using False Cons.prems(1) by (simp add: te_letters_def)
    have "zip [0..15] te_letters ! n = (int n, ?l)" using n by simp
    then have moves: "moves_to [] client_table [44 + int n] (letter ?l) [] [45 + int n]"
      "moves_to [] client_table [44 + int n] (other_chars ?l) [] [21]"
      using te_moves n unfolding list_all_length by auto
    have "in_ranges (letter ?l) b \<or> in_ranges (other_chars ?l) b"
      using letter_or_other Cons.prems(2) by simp
    then show ?thesis
    proof
      assume b: "in_ranges (other_chars ?l) b"
      then have "run ?M (44 + int n) p (b # bs @ rest) s = run ?M 21 (Suc p) (bs @ rest) s"
        using client_move [of buf "[44 + int n]" "other_chars ?l" "[]" "[21]" "44 + int n" b p "bs @ rest" s] moves(2) by simp
      then show ?thesis using through by auto
    next
      assume b: "in_ranges (letter ?l) b"
      then have step: "run ?M (44 + int n) p (b # bs @ rest) s = run ?M (44 + int (Suc n)) (Suc p) (bs @ rest) s"
        using client_move [of buf "[44 + int n]" "letter ?l" "[]" "[45 + int n]" "44 + int n" b p "bs @ rest" s] moves(1)
        by (simp add: add.commute add.left_commute)
      have "drop n te_letters = ?l # drop (Suc n) te_letters"
        using n by (simp add: Cons_nth_drop_Suc)
      moreover have "c_tolower b = of_int ?l"
        using te_letter_cases [OF _ b] n by simp
      ultimately show ?thesis
        using Cons.IH [of "Suc n" "Suc p"] Cons.prems step False by auto
    qed
  qed
qed auto

section \<open>Header lines\<close>

text \<open>
  A header line as the dump prints it, which is not the one of a coding: its value has a first character that
  is no blank, since an empty value of some names leaves the machine in a state that does not finish a head.
\<close>

definition field_text :: "bytes \<times> bytes \<Rightarrow> bool" where
  "field_text kv \<longleftrightarrow>
     fst kv \<noteq> [] \<and> (\<forall>c \<in> set (fst kv). in_ranges token_chars c) \<and> fold_case (fst kv) \<noteq> str ''transfer-encoding'' \<and>
     snd kv \<noteq> [] \<and> in_ranges body_first (hd (snd kv)) \<and> (\<forall>c \<in> set (snd kv). in_ranges reason_chars c)"

definition name_states :: "int list" where
  "name_states = c_name_states @ te_states"

lemma first_char_cases:
  assumes "in_ranges token_chars b"
  shows "in_ranges (letter 99) b \<or> in_ranges (letter 116) b \<or> in_ranges plain_first b"
proof (cases "sint b \<in> {67, 99, 84, 116}")
  case True
  then show ?thesis by (auto simp: letter_def in_ranges_def)
next
  case False
  then show ?thesis using assms by (simp add: plain_first_def in_without)
qed

text \<open>The first character of a name, from the start of a line.\<close>

lemma run_first:
  assumes cs: "cs \<in> set line_states" and b: "in_ranges token_chars b"
  shows "\<exists>h'. cp_field_start h' = p \<and> cp_chunked h' = cp_chunked h \<and>
    (\<exists>cs'. run (client_machine buf) cs p (b # rest) (h, d) = run (client_machine buf) cs' (Suc p) rest (h', d) \<and>
       (cs' = 21 \<or> cs' = 25 \<or> cs' = 44 \<and> c_tolower b = 116))"
proof -
  have t: "c_tolower b = 116" if "in_ranges (letter 116) b"
    using letter_bytes [OF that] by (auto simp: c_tolower_def)
  obtain as cs' where as: "as = [Start_field] \<or> as = [Write_connection_close, Start_field]"
    and run: "run (client_machine buf) cs p (b # rest) (h, d) =
        bindE (run_acts (client_exec buf) as p (h, d)) (\<lambda>s. run (client_machine buf) cs' (Suc p) rest s)"
    and cs': "cs' = 21 \<or> cs' = 25 \<or> cs' = 44 \<and> c_tolower b = 116"
    using first_char_cases [OF b] cs name_moves(1-6) t
      client_move [of buf "[20]" plain_first "[Start_field]" "[21]" 20 b p rest "(h, d)"]
      client_move [of buf "[20]" "letter 99" "[Start_field]" "[25]" 20 b p rest "(h, d)"]
      client_move [of buf "[20]" "letter 116" "[Start_field]" "[44]" 20 b p rest "(h, d)"]
      client_move [of buf "[43]" plain_first "[Write_connection_close, Start_field]" "[21]" 43 b p rest "(h, d)"]
      client_move [of buf "[43]" "letter 99" "[Write_connection_close, Start_field]" "[25]" 43 b p rest "(h, d)"]
      client_move [of buf "[43]" "letter 116" "[Write_connection_close, Start_field]" "[44]" 43 b p rest "(h, d)"]
    by (auto simp: line_states_def simp del: run_acts.simps)
  let ?h = "(if as = [Start_field] then h else h\<lparr>cp_close := True\<rparr>)\<lparr>cp_field_start := p\<rparr>"
  have "run (client_machine buf) cs p (b # rest) (h, d) = run (client_machine buf) cs' (Suc p) rest (?h, d)"
    using as run by (auto simp: on_client_def)
  moreover have "cp_field_start ?h = p" "cp_chunked ?h = cp_chunked h" by simp_all
  ultimately show ?thesis using cs' by blast
qed

text \<open>A whole name, from the start of its line to its last character.\<close>

lemma run_name:
  assumes cs: "cs \<in> set line_states" and k: "k \<noteq> []" "\<forall>c \<in> set k. in_ranges token_chars c"
    and te: "fold_case k \<noteq> str ''transfer-encoding''"
  shows "\<exists>h'. cp_field_start h' = p \<and> cp_chunked h' = cp_chunked h \<and>
    (\<exists>cs' \<in> set name_states. run (client_machine buf) cs p (k @ rest) (h, d) =
       run (client_machine buf) cs' (p + length k) rest (h', d))"
proof -
  let ?M = "client_machine buf"
  obtain c k' where c: "k = c # k'" using k(1) by (cases k) auto
  obtain h' cs1 where h': "cp_field_start h' = p" "cp_chunked h' = cp_chunked h"
    and first: "run ?M cs p (c # k' @ rest) (h, d) = run ?M cs1 (Suc p) (k' @ rest) (h', d)"
    and cs1: "cs1 = 21 \<or> cs1 = 25 \<or> cs1 = 44 \<and> c_tolower c = 116"
    using run_first [OF cs, of c p h buf "k' @ rest" d] k(2) by (auto simp: c)
  have k': "\<forall>c \<in> set k'. in_ranges token_chars c" using k(2) by (simp add: c)
  have "\<exists>cs' \<in> set name_states. run ?M cs1 (Suc p) (k' @ rest) (h', d) = run ?M cs' (Suc p + length k') rest (h', d)"
  proof (cases "cs1 = 44")
    case True
    from run_te [of 0 k' buf "Suc p" rest "(h', d)"] k' obtain cs2 where
      cs2: "run ?M 44 (Suc p) (k' @ rest) (h', d) = run ?M cs2 (Suc p + length k') rest (h', d)"
      "cs2 = 21 \<or> length k' \<le> 16 \<and> cs2 = 44 + int (length k') \<and> map c_tolower k' = map of_int (take (length k') te_letters)"
      by auto
    have "cs2 \<in> set name_states"
    proof (cases "cs2 = 21")
      case False
      have "length k' \<noteq> 16"
      proof
        assume len: "length k' = 16"
        then have "map c_tolower k' = map of_int te_letters"
          using cs2(2) False by (simp add: te_letters_def)
        moreover have "c_tolower c = 116" using cs1 True by simp
        ultimately have "fold_case k = str ''transfer-encoding''"
          using fold_case_tokens [OF k(2)] by (simp add: c te_letters_def str_def)
        then show False using te by simp
      qed
      then have "length k' < 16"
        using cs2(2) False by linarith
      have te: "te_states = map (\<lambda>n. 44 + int n) [0..<16]"
        by (simp add: te_states_def upt_rec)
      have "cs2 \<in> set te_states"
        unfolding te using \<open>length k' < 16\<close> cs2(2) False by auto
      then show ?thesis by (simp add: name_states_def)
    qed (simp add: name_states_def c_name_states_def)
    then show ?thesis using cs2(1) True by blast
  next
    case False
    then have "cs1 \<in> set c_name_states" using cs1 by (auto simp: c_name_states_def)
    from run_through [OF regular_client, of buf c_name_states token_chars cs1 k' "Suc p" rest "(h', d)"] this k' name_moves(8)
    show ?thesis by (auto simp: name_states_def c_name_states_def)
  qed
  then show ?thesis using h' first by (auto simp: c)
qed

text \<open>The blank and the value, up to the end of the line; the name was marked before.\<close>

lemma run_value:
  assumes cs: "cs \<in> set [22, 35, 112]"
    and v: "v \<noteq> []" "in_ranges body_first (hd v)" "\<forall>c \<in> set v. in_ranges reason_chars c"
    and tx: "buf = pre @ 0x20 # v @ crlf @ rest"
  shows "\<exists>h'. cp_chunked h' = cp_chunked h \<and>
    (\<exists>cs' \<in> set line_states. run (client_machine buf) cs (length pre) (0x20 # v @ crlf @ rest) (h, d) =
       run (client_machine buf) cs' (length pre + length v + 3) rest
         (h', on_response_http_field (take (cp_field_len h) (drop (cp_field_start h) buf)) v d))"
proof -
  let ?M = "client_machine buf" and ?p = "Suc (length pre)"
  let ?d = "on_response_http_field (take (cp_field_len h) (drop (cp_field_start h) buf)) v d"
  obtain c v' where c: "v = c # v'" using v(1) by (cases v) auto
  obtain cs1 where cs1: "cs1 \<in> set [22, 35, 112]"
    "run ?M cs (length pre) (0x20 # v @ crlf @ rest) (h, d) = run ?M cs1 ?p (c # v' @ crlf @ rest) (h\<lparr>cp_mark := length pre\<rparr>, d)"
    using client_move [of buf "[22, 35, 112]" "[(0x20, 0x20)]" "[Start_value]" "[22, 35, 112]" cs "0x20" "length pre" "v @ crlf @ rest" "(h, d)"]
      cs value_moves(1) by (auto simp: in_ranges_def on_client_def c)
  let ?s = "(h\<lparr>cp_mark := ?p\<rparr>, d)"
  obtain cs2 where cs2: "cs2 \<in> set (119 # value_states)"
    "run ?M cs1 ?p (c # v' @ crlf @ rest) (h\<lparr>cp_mark := length pre\<rparr>, d) = run ?M cs2 (Suc ?p) (v' @ crlf @ rest) ?s"
    using client_move [of buf "[22, 35, 112]" body_first "[Start_value]" "119 # value_states" cs1 c ?p "v' @ crlf @ rest"
        "(h\<lparr>cp_mark := length pre\<rparr>, d)"] cs1(1) v(2) value_moves(2)
    by (fastforce simp: c on_client_def value_states_def)
  obtain cs3 where cs3: "cs3 \<in> set (119 # value_states)"
    "run ?M cs2 (Suc ?p) (v' @ crlf @ rest) ?s = run ?M cs3 (Suc ?p + length v') (13 # 10 # rest) ?s"
    using run_through [OF regular_client, of buf "119 # value_states" reason_chars cs2 v' "Suc ?p" "crlf @ rest" ?s]
      cs2(1) v(3) value_moves(3) by (fastforce simp: c value_states_def)
  have val: "between buf ?p (Suc ?p + length v') = v"
    by (simp add: between_def tx c)
  obtain h4 cs4 where cs4: "cs4 \<in> set [24, 88]" "cp_chunked h4 = cp_chunked h"
    "run ?M cs3 (Suc ?p + length v') (13 # 10 # rest) ?s = run ?M cs4 (Suc (Suc ?p + length v')) (10 # rest) (h4, ?d)"
  proof (cases "cs3 = 119")
    case True
    then show ?thesis
      using client_move [of buf "[119]" "[(0x0D, 0x0D)]" "[Write_content_len, Write_value]" "[24]" 119 13 "Suc ?p + length v'"
          "10 # rest" ?s] value_moves(5) val
      by (intro that [of 24 "h\<lparr>cp_mark := ?p, cp_content_len := of_int (strtol 10 (drop ?p buf))\<rparr>"])
        (simp_all add: in_ranges_def on_client_def on_answer_def)
  next
    case False
    then show ?thesis
      using client_move [of buf value_states "[(0x0D, 0x0D)]" "[Write_value]" "[24, 88]" cs3 13 "Suc ?p + length v'"
          "10 # rest" ?s] value_moves(4) val cs3(1) that [of _ "h\<lparr>cp_mark := ?p\<rparr>"]
      by (auto simp: in_ranges_def on_answer_def)
  qed
  obtain cs5 where "cs5 \<in> set line_states"
    "run ?M cs4 (Suc (Suc ?p + length v')) (10 # rest) (h4, ?d) = run ?M cs5 (Suc (Suc (Suc ?p + length v'))) rest (h4, ?d)"
    using client_move [of buf "[24, 88]" "[(0x0A, 0x0A)]" "[]" line_states cs4 10 "Suc (Suc ?p + length v')" rest "(h4, ?d)"]
      cs4(1) value_moves(6) by (auto simp: in_ranges_def line_states_def)
  moreover have "Suc (Suc (Suc ?p + length v')) = length pre + length v + 3"
    by (simp add: c)
  ultimately show ?thesis
    using cs1(2) cs2(2) cs3(2) cs4(2,3) by metis
qed

lemma run_line:
  assumes cs: "cs \<in> set line_states" and kv: "field_text (k, v)"
    and tx: "buf = pre @ k @ 0x3A # 0x20 # v @ crlf @ rest"
  shows "\<exists>h'. cp_chunked h' = cp_chunked h \<and>
    (\<exists>cs' \<in> set line_states. run (client_machine buf) cs (length pre) (k @ 0x3A # 0x20 # v @ crlf @ rest) (h, d) =
       run (client_machine buf) cs' (length (pre @ k @ 0x3A # 0x20 # v @ crlf)) rest
         (h', d\<lparr>sb_data := rsp_setHeader k v (sb_data d)\<rparr>))"
proof -
  let ?M = "client_machine buf" and ?p = "length pre + length k"
  note kv = kv [unfolded field_text_def, simplified]
  obtain h1 cs1 where h1: "cp_field_start h1 = length pre" "cp_chunked h1 = cp_chunked h" "cs1 \<in> set name_states"
    "run ?M cs (length pre) (k @ 0x3A # 0x20 # v @ crlf @ rest) (h, d) = run ?M cs1 ?p (0x3A # 0x20 # v @ crlf @ rest) (h1, d)"
    using run_name [OF cs, of k "length pre" h buf "0x3A # 0x20 # v @ crlf @ rest" d] kv by auto
  let ?h = "h1\<lparr>cp_field_len := length k\<rparr>"
  obtain cs2 where cs2: "cs2 \<in> set [22, 35, 112]"
    "run ?M cs1 ?p (0x3A # 0x20 # v @ crlf @ rest) (h1, d) = run ?M cs2 (length (pre @ k @ [0x3A])) (0x20 # v @ crlf @ rest) (?h, d)"
    using client_move [of buf name_states "[(0x3A, 0x3A)]" "[Write_field]" "[22, 35, 112]" cs1 "0x3A" ?p
        "0x20 # v @ crlf @ rest" "(h1, d)"] h1(1,3) name_moves(9)
    by (auto simp: in_ranges_def on_client_def name_states_def [symmetric])
  obtain h3 cs3 where cs3: "cs3 \<in> set line_states" "cp_chunked h3 = cp_chunked ?h"
    "run ?M cs2 (length (pre @ k @ [0x3A])) (0x20 # v @ crlf @ rest) (?h, d) =
       run ?M cs3 (length (pre @ k @ [0x3A]) + length v + 3) rest
         (h3, on_response_http_field (take (cp_field_len ?h) (drop (cp_field_start ?h) buf)) v d)"
    using run_value [OF cs2(1), of v buf "pre @ k @ [0x3A]" rest ?h d] kv tx by auto
  have "take (cp_field_len ?h) (drop (cp_field_start ?h) buf) = k"
    by (simp add: h1(1) tx)
  then have "on_response_http_field (take (cp_field_len ?h) (drop (cp_field_start ?h) buf)) v d =
      d\<lparr>sb_data := rsp_setHeader k v (sb_data d)\<rparr>"
    using kv by (simp add: on_response_http_field_def)
  moreover have "length (pre @ k @ [0x3A]) + length v + 3 = length (pre @ k @ 0x3A # 0x20 # v @ crlf)"
    by simp
  ultimately have "run ?M cs (length pre) (k @ 0x3A # 0x20 # v @ crlf @ rest) (h, d) =
      run ?M cs3 (length (pre @ k @ 0x3A # 0x20 # v @ crlf)) rest (h3, d\<lparr>sb_data := rsp_setHeader k v (sb_data d)\<rparr>)"
    using h1(4) cs2(2) cs3(3) by metis
  then show ?thesis
    using cs3(1,2) h1(2) by auto
qed

definition field_lines :: "bytes ci_map \<Rightarrow> bytes" where
  "field_lines hs = concat (map (\<lambda>(k, v). k @ str '': '' @ v @ crlf) hs)"

definition set_fields :: "bytes ci_map \<Rightarrow> http_response \<Rightarrow> http_response" where
  "set_fields hs r = fold (\<lambda>(k, v). rsp_setHeader k v) hs r"

lemma run_lines:
  "cs \<in> set line_states \<Longrightarrow> \<forall>kv \<in> set hs. field_text kv \<Longrightarrow> buf = pre @ field_lines hs @ rest \<Longrightarrow>
   \<exists>h'. cp_chunked h' = cp_chunked h \<and>
    (\<exists>cs' \<in> set line_states. run (client_machine buf) cs (length pre) (field_lines hs @ rest) (h, d) =
       run (client_machine buf) cs' (length (pre @ field_lines hs)) rest (h', d\<lparr>sb_data := set_fields hs (sb_data d)\<rparr>))"
proof (induction hs arbitrary: cs pre h d)
  case Nil
  then show ?case by (auto simp: field_lines_def set_fields_def)
next
  case (Cons kv hs)
  obtain k v where kv: "kv = (k, v)" by (cases kv)
  let ?l = "k @ 0x3A # 0x20 # v @ crlf" and ?d = "d\<lparr>sb_data := rsp_setHeader k v (sb_data d)\<rparr>"
  have lines: "field_lines (kv # hs) @ rest = k @ 0x3A # 0x20 # v @ crlf @ (field_lines hs @ rest)"
    by (simp add: field_lines_def kv str_def)
  obtain h1 cs1 where h1: "cp_chunked h1 = cp_chunked h" "cs1 \<in> set line_states"
    "run (client_machine buf) cs (length pre) (k @ 0x3A # 0x20 # v @ crlf @ (field_lines hs @ rest)) (h, d) =
      run (client_machine buf) cs1 (length (pre @ ?l)) (field_lines hs @ rest) (h1, ?d)"
    using run_line [OF Cons.prems(1), of k v buf pre "field_lines hs @ rest" h d] Cons.prems kv lines by auto
  obtain h2 cs2 where h2: "cp_chunked h2 = cp_chunked h1" "cs2 \<in> set line_states"
    "run (client_machine buf) cs1 (length (pre @ ?l)) (field_lines hs @ rest) (h1, ?d) =
      run (client_machine buf) cs2 (length ((pre @ ?l) @ field_lines hs)) rest
        (h2, ?d\<lparr>sb_data := set_fields hs (sb_data ?d)\<rparr>)"
    using Cons.IH [OF h1(2), of "pre @ ?l" h1 ?d] Cons.prems lines by auto
  have "(pre @ ?l) @ field_lines hs = pre @ field_lines (kv # hs)"
    by (simp add: field_lines_def kv str_def)
  moreover have "?d\<lparr>sb_data := set_fields hs (sb_data ?d)\<rparr> = d\<lparr>sb_data := set_fields (kv # hs) (sb_data d)\<rparr>"
    by (simp add: set_fields_def kv)
  ultimately have "run (client_machine buf) cs (length pre) (field_lines (kv # hs) @ rest) (h, d) =
      run (client_machine buf) cs2 (length (pre @ field_lines (kv # hs))) rest
        (h2, d\<lparr>sb_data := set_fields (kv # hs) (sb_data d)\<rparr>)"
    using h1(3) h2(3) by (simp only: lines)
  then show ?case using h1(1) h2(1,2) by auto
qed

text \<open>The empty line.\<close>

lemma run_end:
  assumes "cs \<in> set line_states"
  shows "\<exists>h'. cp_chunked h' = cp_chunked h \<and>
    run (client_machine buf) cs p (crlf @ rest) (h, d) = Inr (120, p + 2, h', d)"
proof -
  let ?M = "client_machine buf"
  obtain h1 where h1: "cp_chunked h1 = cp_chunked h" "run ?M cs p (13 # 10 # rest) (h, d) = run ?M 3 (Suc p) (10 # rest) (h1, d)"
  proof (cases "cs = 20")
    case True
    then show ?thesis
      using client_move [of buf "[20]" "[(0x0D, 0x0D)]" "[]" "[3]" 20 13 p "10 # rest" "(h, d)"] value_moves(7) that [of h]
      by (simp add: in_ranges_def)
  next
    case False
    then show ?thesis
      using client_move [of buf "[43]" "[(0x0D, 0x0D)]" "[Write_connection_close]" "[3]" 43 13 p "10 # rest" "(h, d)"]
        value_moves(8) that [of "h\<lparr>cp_close := True\<rparr>"] assms
      by (simp add: in_ranges_def line_states_def on_client_def)
  qed
  obtain cs' where cs': "switch_cs (m_wide ?M) (m_table ?M) 3 (sint (10 :: u8)) = Some ([Done], cs')" "cs' = 120"
    using moves_toD [OF regular_client, of buf "[3]" "[(0x0A, 0x0A)]" "[Done]" "[120]" 3 10] value_moves(9)
    by (auto simp: in_ranges_def)
  then have "run ?M 3 (Suc p) (10 # rest) (h1, d) = Inr (120, Suc (Suc p), h1\<lparr>cp_body_start := Suc (Suc p)\<rparr>, d)"
    by (simp add: run.simps on_client_def)
  then show ?thesis using h1 by auto
qed

section \<open>The status line\<close>

text \<open>A text of characters that keep the machine in one state.\<close>

lemma run_version_part:
  assumes v: "v = 0x30 \<or> v = 0x31" and tx: "buf = str ''HTTP/1.'' @ v # 0x20 # rest"
  shows "run (client_machine buf) 1 0 buf (h, d) =
    run (client_machine buf) 16 9 rest
      (h\<lparr>cp_mark := 0\<rparr>, d\<lparr>sb_data := (sb_data d)\<lparr>hp_version := if v = 0x31 then 0x11 else 0x10\<rparr>\<rparr>)"
proof -
  let ?M = "client_machine buf" and ?s = "(h\<lparr>cp_mark := 0\<rparr>, d)"
  have "run ?M 1 0 (0x48 # 0x54 # 0x54 # 0x50 # 0x2F # 0x31 # 0x2E # v # 0x20 # rest) (h, d) =
    run ?M 8 1 (0x54 # 0x54 # 0x50 # 0x2F # 0x31 # 0x2E # v # 0x20 # rest) ?s"
    using client_move [of buf "[1]" "[(0x48, 0x48)]" "[Mark]" "[8]" 1 "0x48" 0 _ "(h, d)"] status_moves(1)
    by (simp add: in_ranges_def on_client_def)
  also have "\<dots> = run ?M 9 2 (0x54 # 0x50 # 0x2F # 0x31 # 0x2E # v # 0x20 # rest) ?s"
    using client_move [of buf "[8]" "[(0x54, 0x54)]" "[]" "[9]" 8 "0x54" 1 _ ?s] status_moves(2)
    by (simp add: in_ranges_def numeral_2_eq_2)
  also have "\<dots> = run ?M 10 3 (0x50 # 0x2F # 0x31 # 0x2E # v # 0x20 # rest) ?s"
    using client_move [of buf "[9]" "[(0x54, 0x54)]" "[]" "[10]" 9 "0x54" 2 _ ?s] status_moves(3)
    by (simp add: in_ranges_def numeral_3_eq_3)
  also have "\<dots> = run ?M 11 4 (0x2F # 0x31 # 0x2E # v # 0x20 # rest) ?s"
    using client_move [of buf "[10]" "[(0x50, 0x50)]" "[]" "[11]" 10 "0x50" 3 _ ?s] status_moves(4)
    by (simp add: in_ranges_def)
  also have "\<dots> = run ?M 12 5 (0x31 # 0x2E # v # 0x20 # rest) ?s"
    using client_move [of buf "[11]" "[(0x2F, 0x2F)]" "[]" "[12]" 11 "0x2F" 4 _ ?s] status_moves(5)
    by (simp add: in_ranges_def)
  also have "\<dots> = run ?M 13 6 (0x2E # v # 0x20 # rest) ?s"
    using client_move [of buf "[12]" "[(0x31, 0x31)]" "[]" "[13]" 12 "0x31" 5 _ ?s] status_moves(6)
    by (simp add: in_ranges_def)
  also have "\<dots> = run ?M 14 7 (v # 0x20 # rest) ?s"
    using client_move [of buf "[13]" "[(0x2E, 0x2E)]" "[]" "[14]" 13 "0x2E" 6 _ ?s] status_moves(7)
    by (simp add: in_ranges_def)
  also have "\<dots> = run ?M 15 8 (0x20 # rest) ?s"
    using client_move [of buf "[14]" "[(0x30, 0x31)]" "[]" "[15]" 14 v 7 _ ?s] status_moves(8) v
    by (auto simp: in_ranges_def)
  also have "\<dots> = run ?M 16 9 rest (h\<lparr>cp_mark := 0\<rparr>, on_response_version buf 8 d)"
    using client_move [of buf "[15]" "[(0x20, 0x20)]" "[Http_version]" "[16]" 15 "0x20" 8 rest ?s] status_moves(9)
    by (simp add: in_ranges_def on_answer_def)
  finally show ?thesis
    using v by (auto simp: tx str_def on_response_version_def strncmp_eq_def c_str_def)
qed

lemma run_status_part:
  assumes n: "int n < 2 ^ 31" and tx: "buf = pre @ decimal n @ 0x20 # rest"
  shows "\<exists>h'. cp_chunked h' = cp_chunked h \<and>
    run (client_machine buf) 16 (length pre) (decimal n @ 0x20 # rest) (h, d) =
      run (client_machine buf) 18 (length pre + length (decimal n) + 1) rest
        (h', d\<lparr>sb_data := (sb_data d)\<lparr>hp_status := n\<rparr>\<rparr>)"
proof -
  let ?M = "client_machine buf" and ?s = "(h\<lparr>cp_mark := length pre\<rparr>, d)" and ?p = "length pre + length (decimal n)"
  obtain c ds where c: "decimal n = c # ds" using decimal_hd [of n] by auto
  have digits: "\<forall>b \<in> set (decimal n). in_ranges [(0x30, 0x39)] b"
    using decimal_chars by blast
  have "run ?M 16 (length pre) (c # ds @ 0x20 # rest) (h, d) = run ?M 17 (Suc (length pre)) (ds @ 0x20 # rest) ?s"
    using client_move [of buf "[16]" "[(0x30, 0x39)]" "[Mark]" "[17]" 16 c "length pre" _ "(h, d)"] status_moves(10) digits
    by (simp add: on_client_def c)
  also have "\<dots> = run ?M 17 ?p (0x20 # rest) ?s"
    using run_through [OF regular_client, of buf "[17]" "[(0x30, 0x39)]" 17 ds "Suc (length pre)" "0x20 # rest" ?s]
      status_moves(11) digits by (simp add: c)
  also have "\<dots> = run ?M 18 (Suc ?p) rest
      (h\<lparr>cp_mark := length pre, cp_status := of_int (strtol 10 (decimal n @ 0x20 # rest))\<rparr>,
       d\<lparr>sb_data := (sb_data d)\<lparr>hp_status := n\<rparr>\<rparr>)"
  proof -
    have "atoi (decimal n @ 0x20 # rest) = Inr (of_nat n)"
      using atoi_decimal [of n "0x20 # rest"] n by (simp add: is_digit_of_def digit_value_def)
    moreover have "unat (of_nat n :: 32 word) = n"
      using n by (simp add: unat_of_nat)
    ultimately show ?thesis
      using client_move [of buf "[17]" "[(0x20, 0x20)]" "[Status_code]" "[18]" 17 "0x20" ?p rest ?s] status_moves(12)
      by (simp add: in_ranges_def tx on_response_status_def Let_def)
  qed
  finally show ?thesis
    by (intro exI [of _ "h\<lparr>cp_mark := length pre, cp_status := of_int (strtol 10 (decimal n @ 0x20 # rest))\<rparr>"])
      (simp add: c)
qed

lemma run_reason_part:
  assumes t: "t \<noteq> []" "\<forall>c \<in> set t. in_ranges reason_chars c" and tx: "buf = pre @ t @ crlf @ rest"
  shows "run (client_machine buf) 18 (length pre) (t @ crlf @ rest) (h, d) =
    run (client_machine buf) 20 (length (pre @ t @ crlf)) rest
      (h\<lparr>cp_mark := length pre\<rparr>, d\<lparr>sb_data := (sb_data d)\<lparr>hp_reason := t\<rparr>\<rparr>)"
proof -
  let ?M = "client_machine buf" and ?s = "(h\<lparr>cp_mark := length pre\<rparr>, d)" and ?p = "length pre + length t"
  let ?s' = "(h\<lparr>cp_mark := length pre\<rparr>, on_response_reason t d)"
  obtain c t' where c: "t = c # t'" using t(1) by (cases t) auto
  have "run ?M 18 (length pre) (c # t' @ 13 # 10 # rest) (h, d) = run ?M 19 (Suc (length pre)) (t' @ 13 # 10 # rest) ?s"
    using client_move [of buf "[18]" reason_chars "[Mark]" "[19]" 18 c "length pre" _ "(h, d)"] status_moves(13) t(2)
    by (simp add: on_client_def c)
  also have "\<dots> = run ?M 19 ?p (13 # 10 # rest) ?s"
    using run_through [OF regular_client, of buf "[19]" reason_chars 19 t' "Suc (length pre)" "13 # 10 # rest" ?s]
      status_moves(14) t(2) by (simp add: c)
  also have "\<dots> = run ?M 24 (Suc ?p) (10 # rest) ?s'"
    using client_move [of buf "[19]" "[(0x0D, 0x0D)]" "[Reason_phrase]" "[24]" 19 13 ?p "10 # rest" ?s] status_moves(15)
    by (simp add: in_ranges_def on_answer_def between_def tx)
  also have "\<dots> = run ?M 20 (Suc (Suc ?p)) rest ?s'"
    using client_move [of buf "[24]" "[(0x0A, 0x0A)]" "[]" "[20]" 24 10 "Suc ?p" rest ?s'] status_moves(16)
    by (simp add: in_ranges_def)
  finally show ?thesis by (simp add: c on_response_reason_def)
qed

section \<open>Whole heads\<close>

definition reason_text :: "http_response \<Rightarrow> bytes" where
  "reason_text r = (if hp_reason r = [] then HttpStatusToString (hp_status r) else hp_reason r)"

text \<open>The headers that are printed, with the one of the length.\<close>

definition printed_headers :: "http_response \<Rightarrow> bytes ci_map" where
  "printed_headers r =
     hp_headers r @ (if hp_body r = [] then [] else [(str ''content-length'', decimal (length (hp_body r)))])"

definition printable_response :: "http_response \<Rightarrow> bool" where
  "printable_response r \<longleftrightarrow>
     hp_version r \<in> {0x10, 0x11} \<and> int (hp_status r) < 2 ^ 31 \<and>
     reason_text r \<noteq> [] \<and> (\<forall>c \<in> set (reason_text r). in_ranges reason_chars c) \<and>
     ci_ok (hp_headers r) \<and> (\<forall>kv \<in> set (hp_headers r). field_text kv) \<and>
     ci_get (str ''content-length'') (hp_headers r) = None"

definition status_line :: "http_response \<Rightarrow> bytes" where
  "status_line r =
     str ''HTTP/1.'' @ (if hp_version r = 0x11 then 0x31 else 0x30) # 0x20 # decimal (hp_status r) @ 0x20 # reason_text r @ crlf"

definition rsp_head :: "http_response \<Rightarrow> bytes" where
  "rsp_head r = status_line r @ field_lines (printed_headers r) @ crlf"

definition parsed_response :: "http_response \<Rightarrow> http_response" where
  "parsed_response r =
     (new_HttpResponse (hp_version r) True)
       \<lparr>hp_status := hp_status r, hp_reason := reason_text r,
        hp_headers :=
          (if hp_body r = [] then hp_headers r
           else ci_put (str ''content-length'') (decimal (length (hp_body r))) (hp_headers r))\<rparr>"

lemma response_versions: "version_text 0x10 = [0x31, 0x2E, 0x30]" "version_text 0x11 = [0x31, 0x2E, 0x31]"
  by code_simp+

lemma rsp_dump_head: "hp_version r \<in> {0x10, 0x11} \<Longrightarrow> rsp_dump r = rsp_head r @ hp_body r"
  by (auto simp: rsp_dump_def rsp_head_def status_line_def reason_text_def printed_headers_def field_lines_def
      response_versions body_text_def str_def)

lemma set_fields_all:
  "ci_ok (m @ hs) \<Longrightarrow> hp_headers r = m \<Longrightarrow> set_fields hs r = r\<lparr>hp_headers := m @ hs\<rparr>"
proof (induction hs arbitrary: m r)
  case (Cons kv hs)
  obtain k v where kv: "kv = (k, v)" by (cases kv)
  have "ci_ok (m @ [(k, v)])" using Cons.prems(1) ci_ok_append [of "m @ [(k, v)]" hs] by (simp add: kv)
  then have "hp_headers (rsp_setHeader k v r) = m @ [(k, v)]"
    using Cons.prems(2) by (simp add: rsp_setHeader_def ci_put_last)
  then show ?case
    using Cons.IH [of "m @ [(k, v)]" "rsp_setHeader k v r"] Cons.prems(1)
    by (simp add: kv set_fields_def rsp_setHeader_def)
qed (simp add: set_fields_def)

lemma length_field: "field_text (str ''content-length'', decimal n)"
proof -
  have digit: "in_ranges body_first c \<and> in_ranges reason_chars c" if "c \<in> set (decimal n)" for c
    using decimal_chars [OF that] by (auto simp: in_ranges_def body_first_def reason_chars_def)
  moreover obtain d ds where "decimal n = d # ds" using decimal_hd [of n] by auto
  moreover have "fold_case (str ''content-length'') \<noteq> str ''transfer-encoding''" by code_simp
  moreover have "\<forall>c \<in> set (str ''content-length''). in_ranges token_chars c"
    by (simp add: str_def in_ranges_def token_chars_def)
  ultimately show ?thesis by (simp add: field_text_def str_def)
qed

lemma run_status_line:
  assumes r: "printable_response r" and tx: "buf = status_line r @ rest"
  shows "\<exists>h'. cp_chunked h' = cp_chunked h \<and>
    run (client_machine buf) 1 0 buf (h, d) =
      run (client_machine buf) 20 (length (status_line r)) rest
        (h', d\<lparr>sb_data := (sb_data d)\<lparr>hp_version := hp_version r, hp_status := hp_status r, hp_reason := reason_text r\<rparr>\<rparr>)"
proof -
  note r = r [unfolded printable_response_def]
  let ?M = "client_machine buf"
  define v :: u8 where "v = (if hp_version r = 0x11 then 0x31 else 0x30)"
  define tail where "tail = reason_text r @ crlf @ rest"
  let ?pre = "str ''HTTP/1.'' @ [v, 0x20]"
  have v: "v = 0x30 \<or> v = 0x31" "(if v = 0x31 then 0x11 else 0x10) = hp_version r"
    using r by (auto simp: v_def)
  have buf: "buf = str ''HTTP/1.'' @ v # 0x20 # decimal (hp_status r) @ 0x20 # tail"
    by (simp add: tx status_line_def v_def tail_def)
  define d1 where "d1 = d\<lparr>sb_data := (sb_data d)\<lparr>hp_version := hp_version r\<rparr>\<rparr>"
  define d2 where "d2 = d1\<lparr>sb_data := (sb_data d1)\<lparr>hp_status := hp_status r\<rparr>\<rparr>"
  have len: "length ?pre = 9" by (simp add: str_def)
  have s1: "run ?M 1 0 buf (h, d) = run ?M 16 (length ?pre) (decimal (hp_status r) @ 0x20 # tail) (h\<lparr>cp_mark := 0\<rparr>, d1)"
    unfolding len d1_def using run_version_part [OF v(1) buf, of h d] v(2) by simp
  have buf2: "buf = ?pre @ decimal (hp_status r) @ 0x20 # tail" by (simp add: buf)
  obtain h2 where h2: "cp_chunked h2 = cp_chunked h"
    and s2: "run ?M 16 (length ?pre) (decimal (hp_status r) @ 0x20 # tail) (h\<lparr>cp_mark := 0\<rparr>, d1) =
      run ?M 18 (length ?pre + length (decimal (hp_status r)) + 1) tail (h2, d2)"
    using run_status_part [OF _ buf2, of "h\<lparr>cp_mark := 0\<rparr>" d1] r by (auto simp: d2_def)
  let ?pre2 = "?pre @ decimal (hp_status r) @ [0x20]"
  have buf3: "buf = ?pre2 @ reason_text r @ crlf @ rest" by (simp add: buf tail_def)
  have s3: "run ?M 18 (length ?pre2) tail (h2, d2) =
      run ?M 20 (length (?pre2 @ reason_text r @ crlf)) rest
        (h2\<lparr>cp_mark := length ?pre2\<rparr>, d2\<lparr>sb_data := (sb_data d2)\<lparr>hp_reason := reason_text r\<rparr>\<rparr>)"
    using run_reason_part [OF _ _ buf3, of h2 d2] r by (simp add: tail_def)
  have "?pre2 @ reason_text r @ crlf = status_line r"
    by (simp add: status_line_def v_def)
  moreover have "length ?pre + length (decimal (hp_status r)) + 1 = length ?pre2" by simp
  moreover have "d2\<lparr>sb_data := (sb_data d2)\<lparr>hp_reason := reason_text r\<rparr>\<rparr> =
      d\<lparr>sb_data := (sb_data d)\<lparr>hp_version := hp_version r, hp_status := hp_status r, hp_reason := reason_text r\<rparr>\<rparr>"
    by (simp add: d2_def d1_def)
  ultimately have "run ?M 1 0 buf (h, d) = run ?M 20 (length (status_line r)) rest (h2\<lparr>cp_mark := length ?pre2\<rparr>,
      d\<lparr>sb_data := (sb_data d)\<lparr>hp_version := hp_version r, hp_status := hp_status r, hp_reason := reason_text r\<rparr>\<rparr>)"
    using s1 s2 s3 by metis
  then show ?thesis using h2 by (intro exI [of _ "h2\<lparr>cp_mark := length ?pre2\<rparr>"]) simp
qed

lemma run_response_head:
  assumes r: "printable_response r"
  shows "\<exists>h'. cp_chunked h' = cp_chunked h \<and>
    run (client_machine (rsp_head r @ data)) 1 0 (rsp_head r @ data) (h, new_response_build) =
      Inr (120, length (rsp_head r), h', new_response_build\<lparr>sb_data := parsed_response r\<rparr>)"
proof -
  define buf where "buf = rsp_head r @ data"
  let ?M = "client_machine buf" and ?hs = "printed_headers r"
  let ?d = "new_response_build\<lparr>sb_data := (new_HttpResponse 0x11 True)
    \<lparr>hp_version := hp_version r, hp_status := hp_status r, hp_reason := reason_text r\<rparr>\<rparr>"
  have buf: "buf = status_line r @ field_lines ?hs @ crlf @ data"
    by (simp add: buf_def rsp_head_def)
  obtain h1 where h1: "cp_chunked h1 = cp_chunked h"
    "run ?M 1 0 buf (h, new_response_build) = run ?M 20 (length (status_line r)) (field_lines ?hs @ crlf @ data) (h1, ?d)"
    using run_status_line [OF r buf, of h new_response_build] by (auto simp: new_response_build_def)
  have "\<forall>kv \<in> set ?hs. field_text kv"
    using r length_field by (auto simp: printed_headers_def printable_response_def)
  then obtain h2 cs2 where h2: "cp_chunked h2 = cp_chunked h1" "cs2 \<in> set line_states"
    "run ?M 20 (length (status_line r)) (field_lines ?hs @ crlf @ data) (h1, ?d) =
      run ?M cs2 (length (status_line r @ field_lines ?hs)) (crlf @ data) (h2, ?d\<lparr>sb_data := set_fields ?hs (sb_data ?d)\<rparr>)"
    using run_lines [of 20 ?hs buf "status_line r" "crlf @ data" h1 ?d] buf by (auto simp: line_states_def)
  obtain h3 where h3: "cp_chunked h3 = cp_chunked h2"
    "run ?M cs2 (length (status_line r @ field_lines ?hs)) (crlf @ data) (h2, ?d\<lparr>sb_data := set_fields ?hs (sb_data ?d)\<rparr>) =
      Inr (120, length (status_line r @ field_lines ?hs) + 2, h3, ?d\<lparr>sb_data := set_fields ?hs (sb_data ?d)\<rparr>)"
    using run_end [OF h2(2)] by blast
  have "set_fields ?hs (sb_data ?d) = parsed_response r"
  proof -
    have "set_fields (hp_headers r) (sb_data ?d) = (sb_data ?d)\<lparr>hp_headers := hp_headers r\<rparr>"
      using set_fields_all [of "[]" "hp_headers r" "sb_data ?d"] r by (simp add: printable_response_def new_HttpResponse_def)
    moreover have "set_fields ?hs (sb_data ?d) =
        (if hp_body r = [] then set_fields (hp_headers r) (sb_data ?d)
         else rsp_setHeader (str ''content-length'') (decimal (length (hp_body r))) (set_fields (hp_headers r) (sb_data ?d)))"
      by (simp add: printed_headers_def set_fields_def)
    ultimately show ?thesis
      by (simp add: parsed_response_def rsp_setHeader_def new_HttpResponse_def)
  qed
  then have "?d\<lparr>sb_data := set_fields ?hs (sb_data ?d)\<rparr> = new_response_build\<lparr>sb_data := parsed_response r\<rparr>"
    by simp
  moreover have "length (status_line r @ field_lines ?hs) + 2 = length (rsp_head r)"
    by (simp add: rsp_head_def)
  ultimately have "run ?M 1 0 buf (h, new_response_build) =
      Inr (120, length (rsp_head r), h3, new_response_build\<lparr>sb_data := parsed_response r\<rparr>)"
    using h1(2) h2(3) h3(2) by metis
  then show ?thesis
    using h1(1) h2(1) h3(1) by (auto simp: buf_def)
qed

end
