(* ===== verification/HttpConnection.thy ===== *)
theory HttpConnection
  imports ResponseParser Uri
begin

text \<open>
  The client's side of HTTP, \<open>src/http/HttpConnection.cpp\<close>: receiving a response, sending requests, and the
  pool of connections. The stream is the one of the sessions; decompression, the clock, the lookup of a host
  and the sockets are parameters.
\<close>

section \<open>Receiving a response\<close>

text \<open>
  The head. \<open>data\<close> is what the buffer holds up to \<open>offset\<close>; the result is the parser and what is left behind the
  head, or \<open>None\<close> for a null pointer.
\<close>

partial_function (option) recv_response_head ::
  "('s, 'x) http_ops_scheme \<Rightarrow> nat \<Rightarrow> bytes \<Rightarrow> response_state \<Rightarrow> 's \<Rightarrow>
   ((response_state \<times> bytes) option \<times> 's) res option" where
  "recv_response_head ops buff_size data st s =
     (let (len, bs, s) = ho_recv ops (buff_size - length data) s in
      if len \<le> 0 then Some (Inr (None, so_close ops s))
      else
        case rsp_execute False (data @ bs) st of
          Inl e \<Rightarrow> Some (Inl e)
        | Inr (data, st) \<Rightarrow>
            if rsp_hasError st then Some (Inr (None, so_close ops s))
            else if length data = buff_size then Some (Inr (None, so_close ops s))
            else if rsp_isFinished st then Some (Inr (Some (st, data), s))
            else recv_response_head ops buff_size data st s)"

text \<open>The line of a chunk's size.\<close>

partial_function (option) recv_chunk_size ::
  "('s, 'x) http_ops_scheme \<Rightarrow> nat \<Rightarrow> bool \<Rightarrow> bytes \<Rightarrow> response_state \<Rightarrow> 's \<Rightarrow>
   ((response_state \<times> bytes) option \<times> 's) res option" where
  "recv_chunk_size ops buff_size begin data st s =
     (let (ret, bs, s) = (if \<not> begin \<or> data = [] then ho_recv ops (buff_size - length data) s else (1, [], s)) in
      if ret \<le> 0 then Some (Inr (None, so_close ops s))
      else
        case rsp_execute True (data @ bs) st of
          Inl e \<Rightarrow> Some (Inl e)
        | Inr (data, st) \<Rightarrow>
            if rsp_hasError st then Some (Inr (None, so_close ops s))
            else if length data = buff_size then Some (Inr (None, so_close ops s))
            else if rsp_isFinished st then Some (Inr (Some (st, data), s))
            else recv_chunk_size ops buff_size False data st s)"

text \<open>The loop \<open>while (left > 0)\<close>; when the stream ends the connection stays open.\<close>

partial_function (option) recv_chunk_rest ::
  "('s, 'x) http_ops_scheme \<Rightarrow> nat \<Rightarrow> int \<Rightarrow> bytes \<Rightarrow> 's \<Rightarrow> (bytes option \<times> 's) option" where
  "recv_chunk_rest ops buff_size left body s =
     (if left \<le> 0 then Some (Some body, s)
      else
        let (ret, bs, s) = ho_recv ops (nat (if left > int buff_size then int buff_size else left)) s in
        if ret \<le> 0 then Some (None, s)
        else recv_chunk_rest ops buff_size (left - ret) (body @ bs) s)"

text \<open>
  \<open>body.append(data, n)\<close> and \<open>body.resize(n)\<close>: a negative number is a huge \<open>size_t\<close>.
\<close>

definition append_n :: "bytes \<Rightarrow> bytes \<Rightarrow> int \<Rightarrow> bytes res" where
  "append_n body data n = (if n < 0 then Inl Thrown else Inr (body @ take (nat n) data))"

definition resize_by_2 :: "bytes \<Rightarrow> bytes res" where
  "resize_by_2 body = (if length body < 2 then Inl Thrown else Inr (take (length body - 2) body))"

text \<open>The data of a chunk of \<open>n\<close> bytes; the result is the body, what is left in the buffer and the stream.\<close>

definition recv_chunk_data ::
  "('s, 'x) http_ops_scheme \<Rightarrow> nat \<Rightarrow> int \<Rightarrow> bytes \<Rightarrow> bytes \<Rightarrow> 's \<Rightarrow> ((bytes \<times> bytes) option \<times> 's) res option" where
  "recv_chunk_data ops buff_size n body data s =
     (if n + 2 \<ge> 2 ^ 31 then Some (Inl ArithUB)
      else if n + 2 \<le> int (length data) then
        Some (bindE (append_n body data n) (\<lambda>body. Inr (Some (body, drop (nat (n + 2)) data), s)))
      else
        Option.bind (recv_chunk_rest ops buff_size (n + 2) (body @ data) s) (\<lambda>(body, s).
          case body of
            None \<Rightarrow> Some (Inr (None, s))
          | Some body \<Rightarrow> Some (bindE (resize_by_2 body) (\<lambda>body. Inr (Some (body, []), s)))))"

partial_function (option) recv_chunks ::
  "('s, 'x) http_ops_scheme \<Rightarrow> nat \<Rightarrow> bytes \<Rightarrow> bytes \<Rightarrow> response_state \<Rightarrow> 's \<Rightarrow>
   ((response_state \<times> bytes) option \<times> 's) res option" where
  "recv_chunks ops buff_size body data st s =
     Option.bind (recv_chunk_size ops buff_size True data st s) (\<lambda>r.
       case r of
         Inl e \<Rightarrow> Some (Inl e)
       | Inr (None, s) \<Rightarrow> Some (Inr (None, s))
       | Inr (Some (st, data), s) \<Rightarrow>
           Option.bind (recv_chunk_data ops buff_size (sint (cp_content_len (fst st))) body data s) (\<lambda>r.
             case r of
               Inl e \<Rightarrow> Some (Inl e)
             | Inr (None, s) \<Rightarrow> Some (Inr (None, s))
             | Inr (Some (body, data), s) \<Rightarrow>
                 if cp_chunks_done (fst st) then Some (Inr (Some (st, body), s))
                 else recv_chunks ops buff_size body data st s))"

text \<open>The body of an announced length. It is stored in a variable of the inner block.\<close>

definition recv_length_body ::
  "('s, 'x) http_ops_scheme \<Rightarrow> int \<Rightarrow> bytes \<Rightarrow> http_response \<Rightarrow> 's \<Rightarrow> (http_response option \<times> 's) option" where
  "recv_length_body ops n data r s =
     (if n \<le> 0 then Some (Some r, s)
      else
        let body = (if n \<ge> int (length data) then data else take (nat n) data);
            left = n - int (length data)
        in if left > 0 then
             Option.bind (so_read ops (of_int left) s) (\<lambda>(len, bs, s).
               Some (if len \<le> 0 then (None, so_close ops s) else (Some (r\<lparr>hp_body := body @ bs\<rparr>), s)))
           else Some (Some (r\<lparr>hp_body := body\<rparr>), s))"

text \<open>\<open>inflate\<close> is what the stream of \<open>ZLIBStream\<close> makes of the body, for gzip and for deflate.\<close>

definition decode_body :: "(bool \<Rightarrow> bytes \<Rightarrow> bytes) \<Rightarrow> bytes \<Rightarrow> http_response \<Rightarrow> http_response" where
  "decode_body inflate body r =
     (if body = [] then r
      else
        let content_encoding = rsp_getHeader (str ''content-encoding'') [] r;
            body = (if strcasecmp_eq content_encoding (str ''gzip'') then inflate True body
                    else if strcasecmp_eq content_encoding (str ''deflate'') then inflate False body
                    else body)
        in r\<lparr>hp_body := body\<rparr>)"

definition recvResponse ::
  "('s, 'x) http_ops_scheme \<Rightarrow> (bool \<Rightarrow> bytes \<Rightarrow> bytes) \<Rightarrow> (bytes \<Rightarrow> u64 option) \<Rightarrow> client_parser \<Rightarrow> nat \<Rightarrow> 's \<Rightarrow>
   (http_response option \<times> 's) res option" where
  "recvResponse ops inflate cast junk buff_size s =
     Option.bind (recv_response_head ops buff_size [] (HttpResponseParser junk) s) (\<lambda>r.
       case r of
         Inl e \<Rightarrow> Some (Inl e)
       | Inr (None, s) \<Rightarrow> Some (Inr (None, s))
       | Inr (Some (st, data), s) \<Rightarrow>
           if cp_chunked (fst st) then
             Option.bind (recv_chunks ops buff_size [] data st s) (\<lambda>r.
               case r of
                 Inl e \<Rightarrow> Some (Inl e)
               | Inr (None, s) \<Rightarrow> Some (Inr (None, s))
               | Inr (Some (st, body), s) \<Rightarrow>
                   Some (Inr (Some (decode_body inflate body ((sb_data (snd st))\<lparr>hp_body := body\<rparr>)), s)))
           else
             Option.bind (recv_length_body ops (sint (rsp_getContentLength cast st)) data (sb_data (snd st)) s) (\<lambda>r.
               Some (Inr r)))"

section \<open>Requests\<close>

definition sendRequest :: "('s, 'x) stream_ops_scheme \<Rightarrow> http_request \<Rightarrow> 's \<Rightarrow> (int \<times> 's) option" where
  "sendRequest ops req s = so_write ops (req_dump req) s"

datatype http_error =
    OK | INVALID_URL | INVALID_HOST | CONNECT_FAIL | SEND_CLOSE_BY_REMOTE | SEND_SOCKET_ERROR | TIMEOUT
  | CREATE_SOCKET_ERROR | POOL_GET_CONNECTION

record http_result =
  hres_result :: http_error
  hres_response :: "http_response option"
  hres_error :: bytes

definition fails :: "http_error \<Rightarrow> bytes \<Rightarrow> http_result" where
  "fails e t = \<lparr>hres_result = e, hres_response = None, hres_error = t\<rparr>"

text \<open>
  The loop over the headers of a caller, a \<open>std::map\<close>: a connection header only chooses whether the
  connection is kept, a host header counts if it is not empty.
\<close>

fun add_headers :: "(bytes, bytes) std_map \<Rightarrow> bool \<times> http_request \<Rightarrow> bool \<times> http_request" where
  "add_headers [] a = a"
| "add_headers ((k, v) # hs) (has_host, req) =
     (if strcasecmp_eq k (str ''connection'') then
        add_headers hs (has_host, if strcasecmp_eq v (str ''keep-alive'') then req\<lparr>hr_close := False\<rparr> else req)
      else
        add_headers hs
          (if \<not> has_host \<and> strcasecmp_eq k (str ''host'') then v \<noteq> [] else has_host, req_setHeader k v req))"

definition with_host :: "bytes \<Rightarrow> bool \<times> http_request \<Rightarrow> http_request" where
  "with_host host a = (if fst a then snd a else req_setHeader (str ''Host'') host (snd a))"

definition uri_request ::
  "http_method \<Rightarrow> uri \<Rightarrow> (bytes, bytes) std_map \<Rightarrow> bytes \<Rightarrow> http_request" where
  "uri_request method u headers body =
     (with_host (u_host u) (add_headers headers (False,
        (new_HttpRequest 0x11 True)
          \<lparr>hr_path := uri_getPath u, hr_query := u_query u, hr_fragment := u_fragment u, hr_method := method,
           hr_close := False\<rparr>)))\<lparr>hr_body := body\<rparr>"

text \<open>
  What the client uses of the system: \<open>getaddrinfo\<close>, sockets over the stream \<open>'s\<close> and their peers, and
  the text of \<open>errno\<close>.
\<close>

record 's client_env =
  ce_getaddrinfo :: "bytes \<Rightarrow> bytes option \<Rightarrow> address option list option"
  ce_CreateTCP :: "bool \<Rightarrow> address \<Rightarrow> 's option"
  ce_connect :: "address \<Rightarrow> u64 \<Rightarrow> 's \<Rightarrow> 's option"
  ce_setRecvTimeout :: "u64 \<Rightarrow> 's \<Rightarrow> 's"
  ce_getRemoteAddress :: "'s \<Rightarrow> address"
  ce_errno_text :: bytes
  ce_inflate :: "bool \<Rightarrow> bytes \<Rightarrow> bytes"
  ce_cast :: "bytes \<Rightarrow> u64 option"
  ce_junk :: client_parser

text \<open>Sending on a connected socket and waiting for the response. The result is with the stream as it is then.\<close>

definition DoRequest_sock ::
  "('s, 'x) http_ops_scheme \<Rightarrow> 's client_env \<Rightarrow> nat \<Rightarrow> http_request \<Rightarrow> 's \<Rightarrow> u64 \<Rightarrow> (http_result \<times> 's) res option" where
  "DoRequest_sock ops env buff_size req sock timeout_ms =
     Option.bind (sendRequest ops req (ce_setRecvTimeout env timeout_ms sock)) (\<lambda>(rt, s).
       if rt = 0 then
         Some (bindE (address_toString (ce_getRemoteAddress env s)) (\<lambda>t.
           Inr (fails SEND_CLOSE_BY_REMOTE (str ''send request closed by peer: '' @ t), s)))
       else if rt < 0 then
         Some (Inr (fails SEND_SOCKET_ERROR (str ''send request socket error errno='' @ ce_errno_text env), s))
       else
         Option.bind (recvResponse ops (ce_inflate env) (ce_cast env) (ce_junk env) buff_size s) (\<lambda>r.
           Some (bindE r (\<lambda>(rsp, s).
             case rsp of
               None \<Rightarrow>
                 bindE (address_toString (ce_getRemoteAddress env s)) (\<lambda>t.
                   Inr (fails TIMEOUT (str ''recv response timeout: '' @ t @ str '' timeout_ms:''
                     @ decimal (unat timeout_ms)), s))
             | Some rsp \<Rightarrow> Inr (\<lparr>hres_result = OK, hres_response = Some rsp, hres_error = str ''ok''\<rparr>, s)))))"

text \<open>\<open>ts1\<close> and \<open>ts2\<close> are the clock before and after connecting; the wait is taken off the timeout.\<close>

definition DoRequest_addr ::
  "('s, 'x) http_ops_scheme \<Rightarrow> 's client_env \<Rightarrow> nat \<Rightarrow> u64 \<Rightarrow> u64 \<Rightarrow> http_request \<Rightarrow> address \<Rightarrow> bool \<Rightarrow> u64 \<Rightarrow>
   http_result res option" where
  "DoRequest_addr ops env buff_size ts1 ts2 req addr ssl timeout_ms =
     (case ce_CreateTCP env ssl addr of
        None \<Rightarrow>
          Some (bindE (address_toString addr) (\<lambda>t.
            Inr (fails CREATE_SOCKET_ERROR (str ''create socket fail: '' @ t @ str '' errno='' @ ce_errno_text env))))
      | Some sock \<Rightarrow>
          (case ce_connect env addr timeout_ms sock of
             None \<Rightarrow>
                 Some (bindE (address_toString addr) (\<lambda>t. Inr (fails CONNECT_FAIL (str ''connect fail: '' @ t))))
           | Some sock \<Rightarrow>
               Option.bind (DoRequest_sock ops env buff_size req sock (timeout_ms - (ts2 - ts1))) (\<lambda>r.
                 Some (bindE r (\<lambda>(r, s). Inr r)))))"

definition DoRequest_base ::
  "('s, 'x) http_ops_scheme \<Rightarrow> 's client_env \<Rightarrow> nat \<Rightarrow> u64 \<Rightarrow> u64 \<Rightarrow> http_request \<Rightarrow> uri \<Rightarrow> u64 \<Rightarrow>
   http_result res option" where
  "DoRequest_base ops env buff_size ts1 ts2 req u timeout_ms =
     (let is_ssl = (u_scheme u = str ''https'') in
      case uri_createAddress (ce_getaddrinfo env) u of
        None \<Rightarrow> Some (Inr (fails INVALID_HOST (str ''invalid host: '' @ u_host u)))
      | Some addr \<Rightarrow> DoRequest_addr ops env buff_size ts1 ts2 req addr is_ssl timeout_ms)"

definition DoRequest_fun ::
  "('s, 'x) http_ops_scheme \<Rightarrow> 's client_env \<Rightarrow> nat \<Rightarrow> u64 \<Rightarrow> u64 \<Rightarrow> http_method \<Rightarrow> uri \<Rightarrow> u64 \<Rightarrow>
   (bytes, bytes) std_map \<Rightarrow> bytes \<Rightarrow> http_result res option" where
  "DoRequest_fun ops env buff_size ts1 ts2 method u timeout_ms headers body =
     DoRequest_base ops env buff_size ts1 ts2 (uri_request method u headers body) u timeout_ms"

definition DoRequest ::
  "('s, 'x) http_ops_scheme \<Rightarrow> 's client_env \<Rightarrow> nat \<Rightarrow> u64 \<Rightarrow> u64 \<Rightarrow> http_method \<Rightarrow> bytes \<Rightarrow> u64 \<Rightarrow>
   (bytes, bytes) std_map \<Rightarrow> bytes \<Rightarrow> http_result res option" where
  "DoRequest ops env buff_size ts1 ts2 method url timeout_ms headers body =
     (case Uri_Create url of
        Inl e \<Rightarrow> Some (Inl e)
      | Inr None \<Rightarrow> Some (Inr (fails INVALID_URL (str ''invalid url: '' @ url)))
      | Inr (Some u) \<Rightarrow> DoRequest_fun ops env buff_size ts1 ts2 method u timeout_ms headers body)"

definition DoGet ::
  "('s, 'x) http_ops_scheme \<Rightarrow> 's client_env \<Rightarrow> nat \<Rightarrow> u64 \<Rightarrow> u64 \<Rightarrow> bytes \<Rightarrow> u64 \<Rightarrow>
   (bytes, bytes) std_map \<Rightarrow> bytes \<Rightarrow> http_result res option" where
  "DoGet ops env buff_size ts1 ts2 url timeout_ms headers body =
     DoRequest ops env buff_size ts1 ts2 GET url timeout_ms headers body"

definition DoPost ::
  "('s, 'x) http_ops_scheme \<Rightarrow> 's client_env \<Rightarrow> nat \<Rightarrow> u64 \<Rightarrow> u64 \<Rightarrow> bytes \<Rightarrow> u64 \<Rightarrow>
   (bytes, bytes) std_map \<Rightarrow> bytes \<Rightarrow> http_result res option" where
  "DoPost ops env buff_size ts1 ts2 url timeout_ms headers body =
     DoRequest ops env buff_size ts1 ts2 POST url timeout_ms headers body"

section \<open>The pool\<close>

record 's pooled =
  pc_stream :: 's
  pc_create_time :: u64
  pc_request_count :: u64

record 's pool =
  pl_host :: bytes
  pl_vhost :: bytes
  pl_port :: u32
  pl_maxSize :: u32
  pl_maxAliveTime :: u32
  pl_maxRequest :: u32
  pl_conns :: "'s pooled list"
  pl_total :: "32 word"

definition HttpConnectionPool :: "bytes \<Rightarrow> bytes \<Rightarrow> u32 \<Rightarrow> u32 \<Rightarrow> u32 \<Rightarrow> u32 \<Rightarrow> 's pool" where
  "HttpConnectionPool host vhost port max_size alive_time max_request =
     \<lparr>pl_host = host, pl_vhost = vhost, pl_port = port, pl_maxSize = max_size, pl_maxAliveTime = alive_time,
      pl_maxRequest = max_request, pl_conns = [], pl_total = 0\<rparr>"

text \<open>The loop over the idle connections: how many are deleted, the one that is taken, the others.\<close>

fun take_idle ::
  "('s \<Rightarrow> bool) \<Rightarrow> u64 \<Rightarrow> u32 \<Rightarrow> 's pooled list \<Rightarrow> nat \<times> 's pooled option \<times> 's pooled list" where
  "take_idle connected now alive [] = (0, None, [])"
| "take_idle connected now alive (c # cs) =
     (if \<not> connected (pc_stream c) \<or> pc_create_time c + ucast alive > now
      then let (n, r) = take_idle connected now alive cs in (Suc n, r)
      else (0, Some c, cs))"

text \<open>
  A new connection. When the host is not found the message asks the null pointer for its text.
\<close>

definition new_connection :: "'s client_env \<Rightarrow> (address \<Rightarrow> 's \<Rightarrow> 's option) \<Rightarrow> 's pool \<Rightarrow> 's pooled option res" where
  "new_connection env connect q =
     (case LookupAnyIPAddress (ce_getaddrinfo env) (pl_host q) of
        None \<Rightarrow> Inl NullDeref
      | Some addr \<Rightarrow>
          let addr = address_setPort (ucast (pl_port q)) addr in
          case ce_CreateTCP env False addr of
            None \<Rightarrow> Inr None
          | Some sock \<Rightarrow>
              Inr (map_option (\<lambda>s. \<lparr>pc_stream = s, pc_create_time = 0, pc_request_count = 0\<rparr>) (connect addr sock)))"

definition getConnection ::
  "'s client_env \<Rightarrow> (address \<Rightarrow> 's \<Rightarrow> 's option) \<Rightarrow> ('s \<Rightarrow> bool) \<Rightarrow> u64 \<Rightarrow> 's pool \<Rightarrow> ('s pooled option \<times> 's pool) res" where
  "getConnection env connect connected now q =
     (let (n, c, cs) = take_idle connected now (pl_maxAliveTime q) (pl_conns q);
          q = q\<lparr>pl_conns := cs, pl_total := pl_total q - of_nat n\<rparr>
      in case c of
           Some c \<Rightarrow> Inr (Some c, q)
         | None \<Rightarrow>
             bindE (new_connection env connect q) (\<lambda>c. case c of
               None \<Rightarrow> Inr (None, q)
             | Some c \<Rightarrow> Inr (Some c, q\<lparr>pl_total := pl_total q + 1\<rparr>)))"

definition ReleasePtr :: "('s \<Rightarrow> bool) \<Rightarrow> u64 \<Rightarrow> 's pooled \<Rightarrow> 's pool \<Rightarrow> 's pool" where
  "ReleasePtr connected now c q =
     (let c = c\<lparr>pc_request_count := pc_request_count c + 1\<rparr> in
      if \<not> connected (pc_stream c) \<or> pc_create_time c + ucast (pl_maxAliveTime q) \<ge> now
         \<or> pc_request_count c \<ge> ucast (pl_maxRequest q)
      then q\<lparr>pl_total := pl_total q - 1\<rparr>
      else q\<lparr>pl_conns := pl_conns q @ [c]\<rparr>)"

text \<open>The requests of the pool; a target with a query and a fragment is put into the path.\<close>

definition pool_request ::
  "'s pool \<Rightarrow> http_method \<Rightarrow> bytes \<Rightarrow> (bytes, bytes) std_map \<Rightarrow> bytes \<Rightarrow> http_request" where
  "pool_request q method url headers body =
     (with_host (if pl_vhost q = [] then pl_host q else pl_vhost q) (add_headers headers (False,
        (new_HttpRequest 0x11 True)\<lparr>hr_path := url, hr_method := method\<rparr>)))\<lparr>hr_body := body\<rparr>"

definition uri_target :: "uri \<Rightarrow> bytes" where
  "uri_target u =
     uri_getPath u @ (if u_query u = [] then [] else str ''?'') @ u_query u
       @ (if u_fragment u = [] then [] else str ''#'') @ u_fragment u"

text \<open>
  A request through the pool. \<open>t1\<close> is the clock when a connection is looked for and \<open>t2\<close> when it is given
  back, at the end of the function; a connection's socket is never null.
\<close>

definition pool_doRequest ::
  "('s, 'x) http_ops_scheme \<Rightarrow> 's client_env \<Rightarrow> (address \<Rightarrow> 's \<Rightarrow> 's option) \<Rightarrow> ('s \<Rightarrow> bool) \<Rightarrow> nat \<Rightarrow> u64 \<Rightarrow> u64 \<Rightarrow>
   http_request \<Rightarrow> u64 \<Rightarrow> 's pool \<Rightarrow> (http_result \<times> 's pool) res option" where
  "pool_doRequest ops env connect connected buff_size t1 t2 req timeout_ms q =
     (case getConnection env connect connected t1 q of
        Inl e \<Rightarrow> Some (Inl e)
      | Inr (None, q) \<Rightarrow>
          Some (Inr (fails POOL_GET_CONNECTION (str ''pool host: '' @ pl_host q @ str '' port: ''
            @ decimal (unat (pl_port q))), q))
      | Inr (Some c, q) \<Rightarrow>
          Option.bind (DoRequest_sock ops env buff_size req (pc_stream c) timeout_ms) (\<lambda>r.
            Some (bindE r (\<lambda>(r, s). Inr (r, ReleasePtr connected t2 (c\<lparr>pc_stream := s\<rparr>) q)))))"

definition pool_doRequest_url ::
  "('s, 'x) http_ops_scheme \<Rightarrow> 's client_env \<Rightarrow> (address \<Rightarrow> 's \<Rightarrow> 's option) \<Rightarrow> ('s \<Rightarrow> bool) \<Rightarrow> nat \<Rightarrow> u64 \<Rightarrow> u64 \<Rightarrow>
   http_method \<Rightarrow> bytes \<Rightarrow> u64 \<Rightarrow> (bytes, bytes) std_map \<Rightarrow> bytes \<Rightarrow> 's pool \<Rightarrow> (http_result \<times> 's pool) res option" where
  "pool_doRequest_url ops env connect connected buff_size t1 t2 method url timeout_ms headers body q =
     pool_doRequest ops env connect connected buff_size t1 t2 (pool_request q method url headers body) timeout_ms q"

definition pool_doRequest_uri ::
  "('s, 'x) http_ops_scheme \<Rightarrow> 's client_env \<Rightarrow> (address \<Rightarrow> 's \<Rightarrow> 's option) \<Rightarrow> ('s \<Rightarrow> bool) \<Rightarrow> nat \<Rightarrow> u64 \<Rightarrow> u64 \<Rightarrow>
   http_method \<Rightarrow> uri \<Rightarrow> u64 \<Rightarrow> (bytes, bytes) std_map \<Rightarrow> bytes \<Rightarrow> 's pool \<Rightarrow> (http_result \<times> 's pool) res option" where
  "pool_doRequest_uri ops env connect connected buff_size t1 t2 method u timeout_ms headers body q =
     pool_doRequest_url ops env connect connected buff_size t1 t2 method (uri_target u) timeout_ms headers body q"

end
