(* ===== verification/HttpClientProps.thy ===== *)
theory HttpClientProps
  imports ResponseRoundtrip HttpConnection
begin

text \<open>
  What the client receives: a response with a length and a chunked response, read back when they arrive with
  the first read; and the chunks that are not read back: a size that is cut between two reads, a chunk of which
  only a part is in the buffer, a size that does not fit.
\<close>

section \<open>A response with a length\<close>

lemma new_response_parser [simp]:
  "cp_cs (httpclient_parser_init h) = 1" "cp_chunked (httpclient_parser_init h) = False"
  "cp_body_start (httpclient_parser_init h) = 0"
  by (simp_all add: httpclient_parser_init_def)

lemma rsp_flags [simp]:
  "rsp_isFinished s \<longleftrightarrow> cp_cs (fst s) = 0 \<or> cp_cs (fst s) = 120"
  "rsp_hasError s \<longleftrightarrow> sb_error (snd s) \<noteq> 0 \<or> cp_cs (fst s) = 0"
  by (simp_all add: rsp_isFinished_def rsp_hasError_def httpclient_parser_finish_def httpclient_parser_has_error_def
      httpclient_parser_is_finished_def)

lemma execute_head:
  assumes "run (client_machine (head @ data)) 1 0 (head @ data) (client_restarted (httpclient_parser_init junk), new_response_build) =
      Inr (120, length head, h, b)" and "head \<noteq> []"
  shows "rsp_execute False (head @ data) (HttpResponseParser junk) =
    Inr (data, h\<lparr>cp_cs := 120, cp_nread := length head\<rparr>, b)"
  using client_execute_returns [of "head @ data" "HttpResponseParser junk" 120 "length head" h b] assms
  by (simp add: rsp_execute_def HttpResponseParser_def)

lemma recv_response_head_whole:
  assumes "rsp_execute False (head @ data) st = Inr (data, st')" "cp_cs (fst st') = 120" "sb_error (snd st') = 0"
    and "ho_recv ops buff_size s = (int (length (head @ data)), head @ data, s1)" "head \<noteq> []" "length data < buff_size"
  shows "recv_response_head ops buff_size [] st s = Some (Inr (Some (st', data), s1))"
proof -
  have "\<not> int (length (head @ data)) \<le> 0" using assms(5) by (cases head) auto
  then show ?thesis
    using assms by (subst recv_response_head.simps) (simp add: Let_def del: length_append)
qed

lemma response_length:
  assumes "printable_response r" "\<And>n. n < 2 ^ 64 \<Longrightarrow> cast (decimal n) = Some (of_nat n)" "length (hp_body r) < 2 ^ 63"
    and "sb_data (snd st) = parsed_response r"
  shows "sint (rsp_getContentLength cast st) = int (length (hp_body r))"
proof (cases "hp_body r = []")
  case True
  then show ?thesis
    using assms(1,4) by (simp add: parsed_response_def rsp_getContentLength_def printable_response_def)
next
  case False
  have "length (hp_body r) < 2 ^ 64" using assms(3) by simp
  then have "rsp_getContentLength cast st = of_nat (length (hp_body r))"
    using False assms(2,4) by (simp add: parsed_response_def rsp_getContentLength_def)
  moreover have "sint (of_nat (length (hp_body r)) :: u64) = int (length (hp_body r))"
    using assms(3) by (simp add: signed_of_nat signed_take_bit_int_eq_self)
  ultimately show ?thesis by simp
qed


section \<open>Lines of chunks\<close>

text \<open>A size in hexadecimal digits, and the text of chunks up to the last one.\<close>

fun hexadecimal :: "nat \<Rightarrow> bytes" where
  "hexadecimal n = (if n < 16 then [hexdigits ! n] else hexadecimal (n div 16) @ [hexdigits ! (n mod 16)])"

declare hexadecimal.simps [simp del]

definition chunk_text :: "bytes \<Rightarrow> bytes" where
  "chunk_text c = hexadecimal (length c) @ crlf @ c @ crlf"

definition hex_chars :: "(int \<times> int) list" where
  "hex_chars = [(48, 57), (65, 70), (97, 102)]"

lemma chunk_moves:
  "moves_to [] client_table [1] [(48, 57), (65, 70), (97, 102)] [Mark] [2]"
  "moves_to [] client_table [2] hex_chars [] [2]"
  "moves_to [] client_table [2] [(0x0D, 0x0D)] [Chunk_size] [3]"
  by (simp_all add: moves_to_def client_table_def)
    (simp_all add: row_all_def hex_chars_def client_st_defs client_tr_defs)

definition hex_bytes :: bytes where
  "hex_bytes = [48, 49, 50, 51, 52, 53, 54, 55, 56, 57, 65, 66, 67, 68, 69, 70, 97, 98, 99, 100, 101, 102]"

lemma hex_cases: "in_ranges hex_chars c \<Longrightarrow> c \<in> set hex_bytes"
proof -
  assume c: "in_ranges hex_chars c"
  have "sint c \<in> {48..57} \<union> ({65..70} \<union> {97..102})"
    using c by (auto simp: in_ranges_def hex_chars_def)
  then have "sint c \<in> set ([48..57] @ [65..70] @ [97..102])"
    by (simp only: set_append set_upto)
  then obtain x where x: "x \<in> set ([48..57] @ [65..70] @ [97..102])" "sint c = x" by blast
  have "c = of_int x"
    unfolding x(2) [symmetric] by simp
  then show ?thesis
    using x(1) by (auto simp: hex_bytes_def upto.simps)
qed

lemma hex_facts:
  assumes "in_ranges hex_chars c"
  shows "\<exists>d < 16. digit_value c = Some d" "\<not> isspace c" "c \<notin> {0x2D, 0x2B, 0x78, 0x58}"
proof -
  have "list_all (\<lambda>c. (case digit_value c of Some d \<Rightarrow> d < 16 | None \<Rightarrow> False) \<and> \<not> isspace c \<and>
      c \<notin> {0x2D, 0x2B, 0x78, 0x58}) hex_bytes"
    by (simp add: hex_bytes_def digit_value_def isspace_def)
  then show "\<exists>d < 16. digit_value c = Some d" "\<not> isspace c" "c \<notin> {0x2D, 0x2B, 0x78, 0x58}"
    using hex_cases [OF assms] by (auto simp: list_all_iff split: option.splits)
qed

lemma digits_value_hex:
  "\<forall>c \<in> set ds. in_ranges hex_chars c \<Longrightarrow> rest = [] \<or> \<not> is_digit_of 16 (hd rest) \<Longrightarrow>
   digits_value 16 acc (ds @ rest) = digits_value 16 acc ds"
proof (induction ds arbitrary: acc)
  case Nil
  then show ?case by (cases rest) (auto simp: is_digit_of_def split: option.splits)
next
  case (Cons c ds)
  then show ?case using hex_facts(1) [of c] by auto
qed

lemma strtol_hex:
  assumes ds: "ds \<noteq> []" "\<forall>c \<in> set ds. in_ranges hex_chars c" and small: "digits_value 16 0 ds < 2 ^ 63"
  shows "strtol 16 (ds @ crlf @ rest) = int (digits_value 16 0 ds)"
proof -
  obtain c ds' where c: "ds = c # ds'" using ds(1) by (cases ds) auto
  note hex = hex_facts [of c]
  have "skip_0x (ds @ crlf @ rest) = ds @ crlf @ rest"
    using ds(2) hex_facts(3) by (cases ds') (auto simp: c skip_0x_def split: list.split)
  moreover have "digits_value 16 0 (ds @ crlf @ rest) = digits_value 16 0 ds"
    using digits_value_hex [of ds "crlf @ rest" 0] ds(2) by (simp add: is_digit_of_def digit_value_def)
  ultimately show ?thesis
    using hex ds(2) small by (simp add: strtol_def Let_def c del: digits_value.simps)
qed

lemma hexdigit_nth: "d < 16 \<Longrightarrow> in_ranges hex_chars (hexdigits ! d) \<and> digit_value (hexdigits ! d) = Some d"
proof -
  have "list_all (\<lambda>d. in_ranges hex_chars (hexdigits ! d) \<and> digit_value (hexdigits ! d) = Some d) [0..<16]"
    by (simp add: upt_rec hexdigits_def digit_value_def in_ranges_def hex_chars_def)
  then show "d < 16 \<Longrightarrow> ?thesis" by (auto simp: list_all_iff)
qed

lemma hexadecimal_chars: "c \<in> set (hexadecimal n) \<Longrightarrow> in_ranges hex_chars c"
proof (induction n rule: hexadecimal.induct)
  case (1 n)
  then show ?case
    using hexdigit_nth [of n] hexdigit_nth [of "n mod 16"]
    by (subst (asm) (2) hexadecimal.simps) (auto split: if_splits)
qed

lemma hexadecimal_not_Nil: "hexadecimal n \<noteq> []"
  by (subst hexadecimal.simps) simp

lemma digits_value_append:
  "\<forall>c \<in> set xs. in_ranges hex_chars c \<Longrightarrow> digits_value 16 acc (xs @ ys) = digits_value 16 (digits_value 16 acc xs) ys"
proof (induction xs arbitrary: acc)
  case (Cons c xs)
  then show ?case using hex_facts(1) [of c] by auto
qed simp

lemma hexadecimal_value: "digits_value 16 0 (hexadecimal n) = n"
proof (induction n rule: hexadecimal.induct)
  case (1 n)
  show ?case
  proof (cases "n < 16")
    case True
    then show ?thesis using hexdigit_nth [of n] by (subst hexadecimal.simps) simp
  next
    case False
    have "\<forall>c \<in> set (hexadecimal (n div 16)). in_ranges hex_chars c"
      using hexadecimal_chars by blast
    then show ?thesis
      using False 1 digits_value_append [of "hexadecimal (n div 16)" 0] hexdigit_nth [of "n mod 16"]
      by (subst hexadecimal.simps) simp
  qed
qed

text \<open>A line with a size, from the parser's initial state.\<close>

lemma run_size:
  assumes ds: "ds \<noteq> []" "\<forall>c \<in> set ds. in_ranges hex_chars c" "digits_value 16 0 ds < 2 ^ 63" and tx: "buf = ds @ crlf @ rest"
  shows "\<exists>h'. run (client_machine buf) 1 0 buf (h, d) = Inr (120, length ds + 2, h', d) \<and>
    cp_content_len h' = of_nat (digits_value 16 0 ds) \<and>
    cp_chunks_done h' = (sint (of_nat (digits_value 16 0 ds) :: 32 word) \<le> 0)"
proof -
  let ?M = "client_machine buf" and ?s = "(h\<lparr>cp_mark := 0\<rparr>, d)"
  let ?n = "of_nat (digits_value 16 0 ds) :: 32 word"
  let ?h = "h\<lparr>cp_mark := 0, cp_chunked := True, cp_content_len := ?n, cp_chunks_done := sint ?n \<le> 0\<rparr>"
  obtain c ds' where c: "ds = c # ds'" using ds(1) by (cases ds) auto
  have size: "of_int (strtol 16 (ds @ crlf @ rest)) = ?n"
    using strtol_hex [OF ds, of rest] by simp
  have "run ?M 1 0 (c # ds' @ 13 # 10 # rest) (h, d) = run ?M 2 1 (ds' @ 13 # 10 # rest) ?s"
    using client_move [of buf "[1]" hex_chars "[Mark]" "[2]" 1 c 0 _ "(h, d)"] chunk_moves(1) ds(2)
    by (simp add: on_client_def c hex_chars_def)
  also have "\<dots> = run ?M 2 (length ds) (13 # 10 # rest) ?s"
    using run_through [OF regular_client, of buf "[2]" hex_chars 2 ds' 1 "13 # 10 # rest" ?s] chunk_moves(2) ds(2)
    by (simp add: c)
  also have "\<dots> = run ?M 3 (Suc (length ds)) (10 # rest) (?h, d)"
    using client_move [of buf "[2]" "[(0x0D, 0x0D)]" "[Chunk_size]" "[3]" 2 13 "length ds" "10 # rest" ?s] chunk_moves(3) size
    by (simp add: in_ranges_def on_client_def Let_def tx)
  also obtain cs' where cs': "switch_cs (m_wide ?M) (m_table ?M) 3 (sint (10 :: u8)) = Some ([Done], cs')" "cs' = 120"
    using moves_toD [OF regular_client, of buf "[3]" "[(0x0A, 0x0A)]" "[Done]" "[120]" 3 10] value_moves(9)
    by (auto simp: in_ranges_def)
  then have "run ?M 3 (Suc (length ds)) (10 # rest) (?h, d) =
      Inr (120, Suc (Suc (length ds)), ?h\<lparr>cp_body_start := Suc (Suc (length ds))\<rparr>, d)"
    by (simp add: run.simps on_client_def)
  finally show ?thesis
    by (intro exI [of _ "?h\<lparr>cp_body_start := Suc (Suc (length ds))\<rparr>"]) (simp add: c tx)
qed

lemma execute_size:
  assumes "ds \<noteq> []" "\<forall>c \<in> set ds. in_ranges hex_chars c" "digits_value 16 0 ds < 2 ^ 63"
  shows "\<exists>h. rsp_execute True (ds @ crlf @ rest) st = Inr (rest, h, snd st) \<and> cp_cs h = 120 \<and>
    cp_content_len h = of_nat (digits_value 16 0 ds) \<and>
    cp_chunks_done h = (sint (of_nat (digits_value 16 0 ds) :: 32 word) \<le> 0)"
proof -
  let ?buf = "ds @ crlf @ rest" and ?st = "on_client httpclient_parser_init st"
  obtain h where h: "run (client_machine ?buf) 1 0 ?buf (client_restarted (fst ?st), snd ?st) = Inr (120, length ds + 2, h, snd ?st)"
    "cp_content_len h = of_nat (digits_value 16 0 ds)"
    "cp_chunks_done h = (sint (of_nat (digits_value 16 0 ds) :: 32 word) \<le> 0)"
    using run_size [OF assms refl] by blast
  have "httpclient_parser_execute ?buf ?st = Inr (Some (length ds + 2), h\<lparr>cp_cs := 120, cp_nread := length ds + 2\<rparr>, snd ?st)"
    using client_execute_returns [of ?buf ?st 120 "length ds + 2" h "snd ?st"] h(1) by (simp add: on_client_def)
  then show ?thesis
    using h(2,3) by (simp add: rsp_execute_def) (simp add: on_client_def)
qed

section \<open>Chunks in the buffer\<close>

lemma recv_chunk_size_there:
  assumes ds: "ds \<noteq> []" "\<forall>c \<in> set ds. in_ranges hex_chars c" "digits_value 16 0 ds < 2 ^ 63"
    and "sb_error (snd st) = 0" "length rest \<noteq> buff_size"
  shows "\<exists>h. recv_chunk_size ops buff_size True (ds @ crlf @ rest) st s = Some (Inr (Some ((h, snd st), rest), s)) \<and>
    cp_content_len h = of_nat (digits_value 16 0 ds) \<and>
    cp_chunks_done h = (sint (of_nat (digits_value 16 0 ds) :: 32 word) \<le> 0)"
proof -
  obtain h where "rsp_execute True (ds @ crlf @ rest) st = Inr (rest, h, snd st)" "cp_cs h = 120"
    "cp_content_len h = of_nat (digits_value 16 0 ds)"
    "cp_chunks_done h = (sint (of_nat (digits_value 16 0 ds) :: 32 word) \<le> 0)"
    using execute_size [OF ds] by blast
  then show ?thesis
    using assms(4,5) by (subst recv_chunk_size.simps) simp
qed

lemma word_length: "n < 2 ^ 31 \<Longrightarrow> sint (of_nat n :: 32 word) = int n"
  by (simp add: signed_of_nat signed_take_bit_int_eq_self)

definition last_chunk_text :: bytes where
  "last_chunk_text = str ''0'' @ crlf @ crlf"

lemma recv_chunks_there:
  "\<forall>c \<in> set cs. c \<noteq> [] \<and> length c < 2 ^ 31 - 2 \<Longrightarrow> sb_error (snd st) = 0 \<Longrightarrow>
   length (concat (map chunk_text cs) @ last_chunk_text @ behind) < buff_size \<Longrightarrow>
   \<exists>h. recv_chunks ops buff_size body (concat (map chunk_text cs) @ last_chunk_text @ behind) st s =
     Some (Inr (Some ((h, snd st), body @ concat cs), s))"
proof (induction cs arbitrary: body st)
  case Nil
  let ?rest = "crlf @ behind"
  have "\<forall>c \<in> set (str ''0''). in_ranges hex_chars c" "digits_value 16 0 (str ''0'') = 0"
    by (simp_all add: str_def in_ranges_def hex_chars_def digit_value_def)
  moreover have "length ?rest \<noteq> buff_size" using Nil.prems(3) by (simp add: last_chunk_text_def)
  ultimately obtain h where h: "recv_chunk_size ops buff_size True (str ''0'' @ crlf @ ?rest) st s =
      Some (Inr (Some ((h, snd st), ?rest), s))" "cp_content_len h = 0" "cp_chunks_done h"
    using recv_chunk_size_there [of "str ''0''" st ?rest buff_size ops s] Nil.prems(2) by (auto simp: str_def)
  then show ?case
    by (subst recv_chunks.simps) (simp add: last_chunk_text_def recv_chunk_data_def append_n_def)
next
  case (Cons c cs)
  let ?tail = "concat (map chunk_text cs) @ last_chunk_text @ behind"
  let ?rest = "c @ crlf @ ?tail" and ?n = "length c"
  have c: "c \<noteq> []" "?n < 2 ^ 31 - 2" using Cons.prems(1) by auto
  have buf: "concat (map chunk_text (c # cs)) @ last_chunk_text @ behind = hexadecimal ?n @ crlf @ ?rest"
    by (simp add: chunk_text_def)
  have "hexadecimal ?n \<noteq> []" "\<forall>c \<in> set (hexadecimal ?n). in_ranges hex_chars c" "digits_value 16 0 (hexadecimal ?n) = ?n"
    using hexadecimal_not_Nil hexadecimal_chars hexadecimal_value by blast+
  moreover have "length ?rest \<noteq> buff_size" "?n < 2 ^ 63"
    using Cons.prems(3) c(2) unfolding buf by simp_all
  ultimately obtain h where h: "recv_chunk_size ops buff_size True (hexadecimal ?n @ crlf @ ?rest) st s =
      Some (Inr (Some ((h, snd st), ?rest), s))" "cp_content_len h = of_nat ?n"
    "cp_chunks_done h = (sint (of_nat ?n :: 32 word) \<le> 0)"
    using recv_chunk_size_there [of "hexadecimal ?n" st ?rest buff_size ops s] Cons.prems(2) by metis
  have n: "sint (cp_content_len h) = int ?n" "\<not> cp_chunks_done h"
    using h(2,3) word_length [of ?n] c by simp_all
  have "recv_chunk_data ops buff_size (int ?n) body ?rest s = Some (Inr (Some (body @ c, ?tail), s))"
    using c(2) by (simp add: recv_chunk_data_def append_n_def nat_add_distrib)
  moreover obtain h' where "recv_chunks ops buff_size (body @ c) ?tail (h, snd st) s =
      Some (Inr (Some ((h', snd st), (body @ c) @ concat cs), s))"
  proof -
    have "length ?tail < buff_size" using Cons.prems(3) unfolding buf by simp
    then show ?thesis
      using that Cons.IH [of "(h, snd st)" "body @ c"] Cons.prems(1,2) by auto
  qed
  ultimately show ?case
    using h(1) n unfolding buf by (subst recv_chunks.simps) simp
qed

section \<open>The line of the coding\<close>

text \<open>A spelled word: each byte leads to the next state.\<close>

fun spells :: "int \<Rightarrow> (u8 \<times> int) list \<Rightarrow> bool" where
  "spells cs [] = True"
| "spells cs ((b, cs') # r) = (moves_to [] client_table [cs] [(sint b, sint b)] [] [cs'] \<and> cs' \<noteq> 0 \<and> spells cs' r)"

lemma run_spells:
  "spells cs r \<Longrightarrow>
   run (client_machine buf) cs p (map fst r @ rest) s =
     run (client_machine buf) (last (cs # map snd r)) (p + length r) rest s"
proof (induction r arbitrary: cs p)
  case (Cons x r)
  obtain b cs' where x: "x = (b, cs')" by (cases x)
  have "run (client_machine buf) cs p (b # map fst r @ rest) s = run (client_machine buf) cs' (Suc p) (map fst r @ rest) s"
    using client_move [of buf "[cs]" "[(sint b, sint b)]" "[]" "[cs']" cs b p "map fst r @ rest" s] Cons.prems
    by (simp add: x in_ranges_def)
  then show ?case using Cons.IH [of cs' "Suc p"] Cons.prems by (simp add: x)
qed simp

definition te_rest :: "(u8 \<times> int) list" where
  "te_rest = zip (str ''ransfer-Encoding'') [45, 46, 47, 48, 49, 50, 51, 52, 53, 54, 55, 56, 57, 58, 59, 60]"

definition chunked_rest :: "(u8 \<times> int) list" where
  "chunked_rest = zip (str ''hunked'') [82, 83, 84, 85, 86, 87]"

lemma te_spells: "spells 44 te_rest" "spells 81 chunked_rest"
  by (simp_all add: te_rest_def chunked_rest_def str_def moves_to_def client_table_def)
    (simp_all add: row_all_def client_st_defs client_tr_defs)

lemma te_value_moves:
  "moves_to [] client_table [61] [(0x20, 0x20)] [Start_value] [61]"
  "moves_to [] client_table [61] [(0x63, 0x63)] [Start_value] [81]"
  "moves_to [] client_table [87] [(0x0D, 0x0D)] [Write_value] [71]"
  "moves_to [] client_table [71] [(0x0A, 0x0A)] [Trans_chunked] [20]"
  by (simp_all add: moves_to_def client_table_def)
    (simp_all add: row_all_def client_st_defs client_tr_defs)

definition te_line :: bytes where
  "te_line = str ''Transfer-Encoding: chunked'' @ crlf"

lemma run_te_line:
  assumes cs: "cs \<in> set line_states" and tx: "buf = pre @ te_line @ rest"
  shows "\<exists>h'. cp_chunked h' \<and> run (client_machine buf) cs (length pre) (te_line @ rest) (h, d) =
    run (client_machine buf) 20 (length (pre @ te_line)) rest
      (h', d\<lparr>sb_data := rsp_setHeader (str ''Transfer-Encoding'') (str ''chunked'') (sb_data d)\<rparr>)"
proof -
  let ?M = "client_machine buf" and ?p = "length pre"
  let ?v = "0x20 # 0x63 # map fst chunked_rest @ crlf @ rest"
  have line: "te_line @ rest = 0x54 # map fst te_rest @ 0x3A # ?v"
    by (simp add: te_line_def te_rest_def chunked_rest_def str_def)
  have lens: "length te_rest = 16" "length chunked_rest = 6"
    by (simp_all add: te_rest_def chunked_rest_def str_def)
  have lasts: "last (44 # map snd te_rest) = 60" "last (81 # map snd chunked_rest) = 87"
    by (simp_all add: te_rest_def chunked_rest_def str_def)
  obtain h1 where h1: "cp_field_start h1 = ?p"
    "run ?M cs ?p (0x54 # map fst te_rest @ 0x3A # ?v) (h, d) = run ?M 44 (Suc ?p) (map fst te_rest @ 0x3A # ?v) (h1, d)"
  proof (cases "cs = 20")
    case True
    then show ?thesis
      using client_move [of buf "[20]" "letter 116" "[Start_field]" "[44]" 20 "0x54" ?p "map fst te_rest @ 0x3A # ?v" "(h, d)"]
        name_moves(3) that [of "h\<lparr>cp_field_start := ?p\<rparr>"]
      by (simp add: in_ranges_def letter_def on_client_def)
  next
    case False
    then show ?thesis
      using client_move [of buf "[43]" "letter 116" "[Write_connection_close, Start_field]" "[44]" 43 "0x54" ?p
          "map fst te_rest @ 0x3A # ?v" "(h, d)"] name_moves(6) that [of "h\<lparr>cp_close := True, cp_field_start := ?p\<rparr>"] cs
      by (simp add: in_ranges_def letter_def on_client_def line_states_def)
  qed
  let ?h2 = "h1\<lparr>cp_field_len := 17\<rparr>" and ?h3 = "h1\<lparr>cp_field_len := 17, cp_mark := ?p + 18\<rparr>"
    and ?h4 = "h1\<lparr>cp_field_len := 17, cp_mark := ?p + 19\<rparr>"
  have s2: "run ?M 44 (Suc ?p) (map fst te_rest @ 0x3A # ?v) (h1, d) = run ?M 60 (?p + 17) (0x3A # ?v) (h1, d)"
    using run_spells [OF te_spells(1), of buf "Suc ?p" "0x3A # ?v" "(h1, d)"] lasts(1) lens(1) by (simp add: add.commute)
  have s3: "run ?M 60 (?p + 17) (0x3A # ?v) (h1, d) = run ?M 61 (?p + 18) ?v (?h2, d)"
    using client_move [of buf "[60]" "[(0x3A, 0x3A)]" "[Write_field]" "[61]" 60 "0x3A" "?p + 17" ?v "(h1, d)"] name_moves(11) h1(1)
    by (simp add: in_ranges_def on_client_def add.commute)
  have s4: "run ?M 61 (?p + 18) ?v (?h2, d) = run ?M 61 (?p + 19) (0x63 # map fst chunked_rest @ crlf @ rest) (?h3, d)"
    using client_move [of buf "[61]" "[(0x20, 0x20)]" "[Start_value]" "[61]" 61 "0x20" "?p + 18"
        "0x63 # map fst chunked_rest @ crlf @ rest" "(?h2, d)"] te_value_moves(1)
    by (simp add: in_ranges_def on_client_def add.commute)
  have s5: "run ?M 61 (?p + 19) (0x63 # map fst chunked_rest @ crlf @ rest) (?h3, d) =
      run ?M 81 (?p + 20) (map fst chunked_rest @ crlf @ rest) (?h4, d)"
    using client_move [of buf "[61]" "[(0x63, 0x63)]" "[Start_value]" "[81]" 61 "0x63" "?p + 19"
        "map fst chunked_rest @ crlf @ rest" "(?h3, d)"] te_value_moves(2)
    by (simp add: in_ranges_def on_client_def add.commute)
  have s6: "run ?M 81 (?p + 20) (map fst chunked_rest @ crlf @ rest) (?h4, d) = run ?M 87 (?p + 26) (13 # 10 # rest) (?h4, d)"
    using run_spells [OF te_spells(2), of buf "?p + 20" "crlf @ rest" "(?h4, d)"] lasts(2) lens(2) by (simp add: add.commute)
  have parts: "take 17 (drop ?p buf) = str ''Transfer-Encoding''" "between buf (?p + 19) (?p + 26) = str ''chunked''"
    by (simp_all add: tx te_line_def between_def str_def)
  let ?d = "d\<lparr>sb_data := rsp_setHeader (str ''Transfer-Encoding'') (str ''chunked'') (sb_data d)\<rparr>"
  have s7: "run ?M 87 (?p + 26) (13 # 10 # rest) (?h4, d) = run ?M 71 (?p + 27) (10 # rest) (?h4, ?d)"
    using client_move [of buf "[87]" "[(0x0D, 0x0D)]" "[Write_value]" "[71]" 87 13 "?p + 26" "10 # rest" "(?h4, d)"]
      te_value_moves(3) h1(1) parts
    by (simp add: in_ranges_def on_answer_def on_response_http_field_def str_def add.commute)
  have s8: "run ?M 71 (?p + 27) (10 # rest) (?h4, ?d) = run ?M 20 (?p + 28) rest (?h4\<lparr>cp_chunked := True\<rparr>, ?d)"
    using client_move [of buf "[71]" "[(0x0A, 0x0A)]" "[Trans_chunked]" "[20]" 71 10 "?p + 27" rest "(?h4, ?d)"]
      te_value_moves(4) by (simp add: in_ranges_def on_client_def add.commute)
  have "length (pre @ te_line) = ?p + 28" by (simp add: te_line_def str_def)
  then show ?thesis
    unfolding line using h1(2) s2 s3 s4 s5 s6 s7 s8 by (intro exI [of _ "?h4\<lparr>cp_chunked := True\<rparr>"]) simp
qed

section \<open>A chunked response\<close>

text \<open>A response whose headers are \<open>hs1\<close>, the coding, and \<open>hs2\<close>.\<close>

definition chunked_response :: "http_response \<Rightarrow> bytes ci_map \<Rightarrow> bytes ci_map \<Rightarrow> bool" where
  "chunked_response r hs1 hs2 \<longleftrightarrow>
     hp_headers r = hs1 @ (str ''Transfer-Encoding'', str ''chunked'') # hs2 \<and> hp_body r = [] \<and>
     ci_ok (hp_headers r) \<and> printable_response (r\<lparr>hp_headers := hs1 @ hs2\<rparr>)"

lemma set_fields_append: "set_fields (hs1 @ hs2) r = set_fields hs2 (set_fields hs1 r)"
  by (simp add: set_fields_def)

lemma run_chunked_head:
  assumes r: "chunked_response r hs1 hs2"
  shows "\<exists>h'. cp_chunked h' \<and>
    run (client_machine (rsp_head r @ data)) 1 0 (rsp_head r @ data) (h, new_response_build) =
      Inr (120, length (rsp_head r), h', new_response_build\<lparr>sb_data := parsed_response r\<rparr>)"
proof -
  note r = r [unfolded chunked_response_def]
  let ?te = "(str ''Transfer-Encoding'', str ''chunked'')" and ?line = "status_line r"
  define buf where "buf = rsp_head r @ data"
  let ?M = "client_machine buf"
  let ?d = "new_response_build\<lparr>sb_data := (new_HttpResponse 0x11 True)
    \<lparr>hp_version := hp_version r, hp_status := hp_status r, hp_reason := reason_text r\<rparr>\<rparr>"
  have buf: "buf = ?line @ field_lines hs1 @ te_line @ field_lines hs2 @ crlf @ data"
    using r by (simp add: buf_def rsp_head_def printed_headers_def field_lines_def te_line_def str_def)
  have same: "status_line (r\<lparr>hp_headers := hs1 @ hs2\<rparr>) = ?line" "reason_text (r\<lparr>hp_headers := hs1 @ hs2\<rparr>) = reason_text r"
    by (simp_all add: status_line_def reason_text_def)
  have fields: "\<forall>kv \<in> set hs1. field_text kv" "\<forall>kv \<in> set hs2. field_text kv"
    using r by (auto simp: printable_response_def)
  obtain h1 where s1: "run ?M 1 0 buf (h, new_response_build) =
      run ?M 20 (length ?line) (field_lines hs1 @ te_line @ field_lines hs2 @ crlf @ data) (h1, ?d)"
    using run_status_line [of "r\<lparr>hp_headers := hs1 @ hs2\<rparr>" buf _ h new_response_build] r buf same
    by (auto simp: new_response_build_def)
  let ?d1 = "?d\<lparr>sb_data := set_fields hs1 (sb_data ?d)\<rparr>" and ?p1 = "?line @ field_lines hs1"
  obtain h2 cs2 where s2: "cs2 \<in> set line_states"
    "run ?M 20 (length ?line) (field_lines hs1 @ te_line @ field_lines hs2 @ crlf @ data) (h1, ?d) =
      run ?M cs2 (length ?p1) (te_line @ field_lines hs2 @ crlf @ data) (h2, ?d1)"
    using run_lines [OF _ fields(1), of 20 buf ?line "te_line @ field_lines hs2 @ crlf @ data" h1 ?d] buf
    by (auto simp: line_states_def)
  let ?d2 = "?d1\<lparr>sb_data := rsp_setHeader (fst ?te) (snd ?te) (sb_data ?d1)\<rparr>" and ?p2 = "?p1 @ te_line"
  have "buf = ?p1 @ te_line @ field_lines hs2 @ crlf @ data" by (simp add: buf)
  from run_te_line [OF s2(1) this, of h2 ?d1] obtain h3 where s3: "cp_chunked h3"
    "run ?M cs2 (length ?p1) (te_line @ field_lines hs2 @ crlf @ data) (h2, ?d1) =
      run ?M 20 (length ?p2) (field_lines hs2 @ crlf @ data) (h3, ?d2)"
    by auto
  let ?d3 = "?d2\<lparr>sb_data := set_fields hs2 (sb_data ?d2)\<rparr>"
  have "buf = ?p2 @ field_lines hs2 @ crlf @ data" by (simp add: buf)
  from run_lines [OF _ fields(2) this, of 20 h3 ?d2] obtain h4 cs4 where s4: "cs4 \<in> set line_states"
    "cp_chunked h4 = cp_chunked h3"
    "run ?M 20 (length ?p2) (field_lines hs2 @ crlf @ data) (h3, ?d2) =
      run ?M cs4 (length (?p2 @ field_lines hs2)) (crlf @ data) (h4, ?d3)"
    by (auto simp: line_states_def)
  obtain h5 where s5: "cp_chunked h5 = cp_chunked h4"
    "run ?M cs4 (length (?p2 @ field_lines hs2)) (crlf @ data) (h4, ?d3) =
      Inr (120, length (?p2 @ field_lines hs2) + 2, h5, ?d3)"
    using run_end [OF s4(1)] by blast
  have "?d3 = new_response_build\<lparr>sb_data := parsed_response r\<rparr>"
  proof -
    have "set_fields hs2 (rsp_setHeader (fst ?te) (snd ?te) (set_fields hs1 (sb_data ?d))) = set_fields (hp_headers r) (sb_data ?d)"
      using r by (simp add: set_fields_def)
    moreover have ci: "ci_ok ([] @ hp_headers r)" using r by (metis append_Nil)
    have "set_fields (hp_headers r) (sb_data ?d) = (sb_data ?d)\<lparr>hp_headers := hp_headers r\<rparr>"
      using set_fields_all [OF ci, of "sb_data ?d"] by (simp add: new_HttpResponse_def)
    ultimately show ?thesis
      using r by (simp add: parsed_response_def new_HttpResponse_def)
  qed
  moreover have "length (?p2 @ field_lines hs2) + 2 = length (rsp_head r)"
    using r by (simp add: rsp_head_def printed_headers_def field_lines_def te_line_def str_def)
  ultimately have "run ?M 1 0 buf (h, new_response_build) =
      Inr (120, length (rsp_head r), h5, new_response_build\<lparr>sb_data := parsed_response r\<rparr>)"
    using s1 s2(2) s3(2) s4(3) s5(2) by metis
  then show ?thesis
    using s3(1) s4(2) s5(1) by (auto simp: buf_def)
qed

text \<open>C12: a chunked response that arrives with the first read is received with the chunks joined, and decoded by
  its content encoding; what stands behind the last chunk is dropped.\<close>

theorem chunked_received:
  assumes r: "chunked_response r hs1 hs2" and cs: "\<forall>c \<in> set cs. c \<noteq> [] \<and> length c < 2 ^ 31 - 2"
    and x: "x = concat (map chunk_text cs) @ last_chunk_text @ behind" "length x < buff_size"
    and first: "ho_recv ops buff_size s = (int (length (rsp_head r @ x)), rsp_head r @ x, s1)"
  shows "recvResponse ops inflate cast junk buff_size s =
    Some (Inr (Some (decode_body inflate (concat cs) ((parsed_response r)\<lparr>hp_body := concat cs\<rparr>)), s1))"
proof -
  have head: "rsp_head r \<noteq> []" by (simp add: rsp_head_def)
  obtain h where h: "cp_chunked h"
    "run (client_machine (rsp_head r @ x)) 1 0 (rsp_head r @ x) (client_restarted (httpclient_parser_init junk), new_response_build) =
      Inr (120, length (rsp_head r), h, new_response_build\<lparr>sb_data := parsed_response r\<rparr>)"
    using run_chunked_head [OF r] by blast
  let ?st = "(h\<lparr>cp_cs := 120, cp_nread := length (rsp_head r)\<rparr>, new_response_build\<lparr>sb_data := parsed_response r\<rparr>)"
  have received: "recv_response_head ops buff_size [] (HttpResponseParser junk) s = Some (Inr (Some (?st, x), s1))"
    using recv_response_head_whole [OF execute_head [OF h(2) head] _ _ first head x(2)]
    by (simp add: new_response_build_def)
  have "sb_error (snd ?st) = 0" by (simp add: new_response_build_def)
  from recv_chunks_there [OF cs this, of behind buff_size ops "[]" s1] obtain h2 where
    "recv_chunks ops buff_size [] x ?st s1 = Some (Inr (Some ((h2, snd ?st), concat cs), s1))"
    using x by auto
  then show ?thesis
    using received h(1) by (simp add: recvResponse_def)
qed

section \<open>Chunks that are not received\<close>

text \<open>C25: a chunk of which a part came with its size: the length of the part is set to zero before it is taken off
  what is still to be read, so as many bytes behind the chunk become part of the body and are missing in the
  stream; the stream reads like the one of the contract of \<open>recv\<close>, as much as is asked for.\<close>

theorem chunk_cut_overreads:
  assumes "d \<noteq> []" "length d < n + 2" "n + 2 < 2 ^ 31" "n + 2 \<le> buff_size"
    and "ho_recv ops (n + 2) s = (int (n + 2), x, s1)" "length x = n + 2"
    and "d @ x = c @ crlf @ behind" "length c = n"
  shows "recv_chunk_data ops buff_size (int n) body d s =
      Some (Inr (Some (body @ c @ take (length d) (crlf @ behind), []), s1)) \<and>
    length behind = length d"
proof -
  have "recv_chunk_rest ops buff_size (int n + 2) (body @ d) s = Some (Some ((body @ d) @ x), s1)"
  proof -
    have ask: "nat (if int n + 2 > int buff_size then int buff_size else int n + 2) = n + 2"
      using assms(4) by simp
    have "recv_chunk_rest ops buff_size 0 ((body @ d) @ x) s1 = Some (Some ((body @ d) @ x), s1)"
      by (subst recv_chunk_rest.simps) simp
    moreover have "int n + 2 - int (n + 2) = 0" "\<not> int n + 2 \<le> 0" "\<not> int (n + 2) \<le> 0" by simp_all
    ultimately show ?thesis
      by (subst recv_chunk_rest.simps) (simp only: ask assms(5) Let_def prod.case if_False)
  qed
  moreover have "take (length ((body @ d) @ x) - 2) ((body @ d) @ x) = body @ c @ take (length d) (crlf @ behind)"
  proof -
    have "take (length ((body @ d) @ x) - 2) ((body @ d) @ x) = body @ take (n + length d) (d @ x)"
      using assms(6) by (simp add: add.commute)
    then show ?thesis
      unfolding assms(7) using assms(8) by simp
  qed
  moreover have "length behind = length d"
    using arg_cong [OF assms(7), of length] assms(6,8) by simp
  ultimately show ?thesis
    using assms(2,3,6) by (simp add: recv_chunk_data_def resize_by_2_def)
qed

text \<open>The first part of a size: it is read and forgotten.\<close>

lemma execute_part:
  assumes ds: "ds \<noteq> []" "\<forall>c \<in> set ds. in_ranges hex_chars c"
  shows "\<exists>h. rsp_execute True ds st = Inr ([], h, snd st) \<and> cp_cs h = 2"
proof -
  let ?st = "on_client httpclient_parser_init st" and ?M = "client_machine ds"
  let ?h = "client_restarted (fst ?st)"
  obtain c ds' where c: "ds = c # ds'" using ds(1) by (cases ds) auto
  have "run ?M 1 0 (c # ds') (?h, snd ?st) = run ?M 2 1 ds' (?h\<lparr>cp_mark := 0\<rparr>, snd ?st)"
    using client_move [of ds "[1]" hex_chars "[Mark]" "[2]" 1 c 0 ds' "(?h, snd ?st)"] chunk_moves(1) ds(2)
    by (simp add: on_client_def c hex_chars_def)
  also have "\<dots> = Inr (2, length ds, ?h\<lparr>cp_mark := 0\<rparr>, snd ?st)"
    using run_through [OF regular_client, of ds "[2]" hex_chars 2 ds' 1 "[]" "(?h\<lparr>cp_mark := 0\<rparr>, snd ?st)"] chunk_moves(2) ds(2)
    by (simp add: c)
  finally have "run ?M 1 0 ds (?h, snd ?st) = Inr (2, length ds, ?h\<lparr>cp_mark := 0\<rparr>, snd ?st)"
    by (simp add: c)
  then have "httpclient_parser_execute ds ?st = Inr (Some (length ds), ?h\<lparr>cp_mark := 0, cp_cs := 2, cp_nread := length ds\<rparr>, snd ?st)"
    using client_execute_returns [of ds ?st 2 "length ds" "?h\<lparr>cp_mark := 0\<rparr>" "snd ?st"] ds(1) by (simp add: on_client_def)
  then show ?thesis
    by (simp add: rsp_execute_def) (simp add: on_client_def)
qed

text \<open>The size of a chunk whose digits are divided between two reads is the number of the digits in the second:
  the parser begins anew with each read.\<close>

theorem split_chunk_size:
  assumes a: "a \<noteq> []" "\<forall>c \<in> set a. in_ranges hex_chars c"
    and b: "b \<noteq> []" "\<forall>c \<in> set b. in_ranges hex_chars c" "digits_value 16 0 b < 2 ^ 31"
    and "sb_error (snd st) = 0" "length rest \<noteq> buff_size" "0 < buff_size"
    and second: "ho_recv ops buff_size s = (int (length (b @ crlf @ rest)), b @ crlf @ rest, s1)"
  shows "\<exists>h. recv_chunk_size ops buff_size True a st s = Some (Inr (Some ((h, snd st), rest), s1)) \<and>
    cp_content_len h = of_nat (digits_value 16 0 b)"
proof -
  obtain h1 where h1: "rsp_execute True a st = Inr ([], h1, snd st)" "cp_cs h1 = 2"
    using execute_part [OF a] by blast
  have small: "digits_value 16 0 b < 2 ^ 63" using b(3) by simp
  obtain h2 where h2: "rsp_execute True (b @ crlf @ rest) (h1, snd st) = Inr (rest, h2, snd st)" "cp_cs h2 = 120"
    "cp_content_len h2 = of_nat (digits_value 16 0 b)"
    using execute_size [OF b(1,2) small, of rest "(h1, snd st)"] by auto
  have len: "\<not> int (length (b @ crlf @ rest)) \<le> 0" by simp
  have "recv_chunk_size ops buff_size False [] (h1, snd st) s = Some (Inr (Some ((h2, snd st), rest), s1))"
    using second h2 assms(6,7) len by (subst recv_chunk_size.simps) (simp del: length_append)
  then show ?thesis
    using h1 h2(3) a(1) assms(6,8) by (subst recv_chunk_size.simps) simp
qed

text \<open>A chunk whose size is near or above the largest \<open>int\<close> ends the client: the sum with the line's end is not
  defined, or the negative size is a length for which the body throws.\<close>

theorem chunk_size_limits:
  assumes "2 ^ 31 - 2 \<le> n" "n < 2 ^ 32 - 1" "sb_error (snd st) = 0" "length rest \<noteq> buff_size"
  shows "recv_chunks ops buff_size body (hexadecimal n @ crlf @ rest) st s =
    Some (Inl (if n < 2 ^ 31 then ArithUB else Thrown))"
proof -
  have "hexadecimal n \<noteq> []" "\<forall>c \<in> set (hexadecimal n). in_ranges hex_chars c" "digits_value 16 0 (hexadecimal n) = n"
    using hexadecimal_not_Nil hexadecimal_chars hexadecimal_value by blast+
  moreover have "n < 2 ^ 63" using assms(2) by simp
  ultimately obtain h where h: "recv_chunk_size ops buff_size True (hexadecimal n @ crlf @ rest) st s =
      Some (Inr (Some ((h, snd st), rest), s))" "cp_content_len h = of_nat n"
    using recv_chunk_size_there [of "hexadecimal n" st rest buff_size ops s] assms(3,4) by metis
  have "recv_chunk_data ops buff_size (sint (of_nat n :: 32 word)) body rest s =
      Some (Inl (if n < 2 ^ 31 then ArithUB else Thrown))"
  proof (cases "n < 2 ^ 31")
    case True
    then show ?thesis
      using assms(1) word_length [of n] by (simp add: recv_chunk_data_def)
  next
    case False
    have "sint (of_nat n :: 32 word) = int n - 2 ^ 32"
    proof -
      have n: "(of_nat n :: 32 word) = of_int (int n - 2 ^ 32)" by simp
      have "- (2 ^ 31) \<le> int n - 2 ^ 32" "int n - 2 ^ 32 < 2 ^ 31" using False assms(2) by simp_all
      then show ?thesis
        unfolding n by (subst signed_of_int) (simp add: signed_take_bit_int_eq_self)
    qed
    moreover have "int n - 2 ^ 32 + 2 \<le> 0" "\<not> int n - 2 ^ 32 + 2 \<ge> 2 ^ 31" "int n - 2 ^ 32 < 0"
      using assms(2) by simp_all
    ultimately show ?thesis
      using False by (simp add: recv_chunk_data_def append_n_def)
  qed
  then show ?thesis
    using h by (subst recv_chunks.simps) simp
qed

section \<open>Examples\<close>

text \<open>A parser's memory before it is initialised.\<close>

definition sample_memory :: client_parser where
  "sample_memory =
     \<lparr>cp_cs = 0, cp_body_start = 0, cp_content_len = 0, cp_status = 0, cp_chunked = True, cp_chunks_done = True,
      cp_close = True, cp_nread = 0, cp_mark = 0, cp_field_start = 0, cp_field_len = 0\<rparr>"

definition sample_response :: "bytes \<Rightarrow> http_response" where
  "sample_response body =
     (new_HttpResponse 0x11 True)\<lparr>hp_headers := [(str ''a'', str ''b c'')], hp_body := body\<rparr>"

lemma sample_field: "field_text (str ''a'', str ''b c'')"
proof -
  have "fold_case (str ''a'') \<noteq> str ''transfer-encoding''" by code_simp
  then show ?thesis
    by (simp add: field_text_def str_def in_ranges_def client_char_defs)
qed

lemma sample_reason: "HttpStatusToString 200 = str ''OK''"
  by code_simp

lemma sample_response_printable: "printable_response (sample_response body)"
proof -
  have "ci_get (str ''content-length'') [(str ''a'', str ''b c'')] = None" by code_simp
  then show ?thesis
    using sample_field
    by (simp add: printable_response_def sample_response_def new_HttpResponse_def reason_text_def sample_reason ci_ok_def
        sorted_map_def) (simp add: str_def in_ranges_def reason_chars_def)
qed


lemma sample_chunked:
  "chunked_response ((sample_response [])\<lparr>hp_headers := [(str ''a'', str ''b c''), (str ''Transfer-Encoding'', str ''chunked'')]\<rparr>)
     [(str ''a'', str ''b c'')] []"
proof -
  have "fold_case (str ''a'') < fold_case (str ''Transfer-Encoding'')" by code_simp
  then show ?thesis
    using sample_response_printable [of "[]"]
    by (simp add: chunked_response_def sample_response_def new_HttpResponse_def ci_ok_def sorted_map_def)
qed

theorem chunked_received_witness:
  "\<exists>r. recvResponse chunk_ops (\<lambda>_ b. b) (\<lambda>_. None) sample_memory 4096
     [rsp_head ((sample_response [])\<lparr>hp_headers := [(str ''a'', str ''b c''), (str ''Transfer-Encoding'', str ''chunked'')]\<rparr>)
        @ chunk_text [1, 2] @ chunk_text [3] @ last_chunk_text @ []] =
     Some (Inr (Some (r\<lparr>hp_body := [1, 2, 3]\<rparr>), []))"
proof -
  have hex: "hexadecimal (Suc 0) = [0x31]" "hexadecimal 2 = [0x32]"
    by (simp_all add: hexadecimal.simps hexdigits_def)
  have len: "length (concat (map chunk_text [[1, 2], [3]]) @ last_chunk_text @ []) < 4096"
    by (simp add: chunk_text_def last_chunk_text_def str_def hex numeral_2_eq_2 [symmetric])
  have "\<forall>c \<in> set [[1, 2], [3 :: u8]]. c \<noteq> [] \<and> length c < 2 ^ 31 - 2" by simp
  from chunked_received [OF sample_chunked this refl len, of chunk_ops _ "[]" "\<lambda>_ b. b" "\<lambda>_. None" sample_memory] show ?thesis
    by (auto simp: chunk_ops_def decode_body_def Let_def)
qed

theorem chunk_cut_overreads_witness:
  "recv_chunk_data chunk_ops 4096 3 [] [65] [[66, 67, 13, 10, 48]] = Some (Inr (Some ([65, 66, 67, 13], []), []))"
  using chunk_cut_overreads [of "[65]" 3 4096 chunk_ops "[[66, 67, 13, 10, 48]]" "[66, 67, 13, 10, 48]" "[]" "[65, 66, 67]"
      "[48]" "[]"]
  by (simp add: chunk_ops_def)

theorem split_chunk_size_witness:
  "\<exists>h. recv_chunk_size chunk_ops 4096 True (str ''1'') (sample_memory, new_response_build) [str ''0'' @ crlf @ [7]] =
      Some (Inr (Some ((h, new_response_build), [7]), [])) \<and> cp_content_len h = 0"
  using split_chunk_size [of "str ''1''" "str ''0''" "(sample_memory, new_response_build)" "[7]" 4096 chunk_ops "[str ''0'' @ crlf @ [7]]" "[]"]
  by (simp add: chunk_ops_def str_def in_ranges_def hex_chars_def digit_value_def new_response_build_def)

theorem chunk_size_limits_witness:
  "recv_chunks chunk_ops 4096 [] (hexadecimal (2 ^ 31) @ crlf @ [7]) (sample_memory, new_response_build) [] = Some (Inl Thrown)"
  using chunk_size_limits [of "2 ^ 31" "(sample_memory, new_response_build)" "[7]" 4096 chunk_ops "[]" "[]"]
  by (simp add: new_response_build_def)

theorem response_parser_checks_hold_witness:
  "case rsp_execute True (str ''5'' @ crlf) (sample_memory, new_response_build) of
     Inl e \<Rightarrow> e = ArithUB | Inr (left, _) \<Rightarrow> \<exists>n \<le> length (str ''5'' @ crlf). left = drop n (str ''5'' @ crlf)"
  by (rule response_parser_checks_hold) (simp_all add: str_def)

end
