(* ===== verification/HttpPool.thy ===== *)
theory HttpPool
  imports HttpConnection
begin

text \<open>
  The pool of connections over any sequence of \<open>getConnection\<close> and \<open>ReleasePtr\<close>: how many connections it
  counts, and when an idle connection is used again.
\<close>

section \<open>Runs of a pool\<close>

text \<open>
  A state is the pool with the connections that are in use. Between two steps the peers may close or keep the
  connections, so that \<open>connected\<close> is another one in each step; the stream of a connection in use may change.
\<close>

inductive pool_step :: "'s pool \<times> 's pooled list \<Rightarrow> 's pool \<times> 's pooled list \<Rightarrow> bool" where
  taken: "getConnection env connect connected now q = Inr (Some c, q') \<Longrightarrow> pool_step (q, out) (q', c # out)"
| not_taken: "getConnection env connect connected now q = Inr (None, q') \<Longrightarrow> pool_step (q, out) (q', out)"
| released: "pool_step (q, xs @ c # ys) (ReleasePtr connected now (c\<lparr>pc_stream := s\<rparr>) q, xs @ ys)"

inductive_cases pool_stepE: "pool_step (q, out) (q', out')"

text \<open>What holds of a connection in use and of an idle one.\<close>

definition used_ok :: "'s pool \<Rightarrow> 's pooled \<Rightarrow> bool" where
  "used_ok q c \<longleftrightarrow> pc_create_time c = 0 \<and> (pc_request_count c = 0 \<or> pc_request_count c < ucast (pl_maxRequest q))"

definition idle_ok :: "'s pool \<Rightarrow> 's pooled \<Rightarrow> bool" where
  "idle_ok q c \<longleftrightarrow> pc_create_time c = 0 \<and> 0 < pc_request_count c \<and> pc_request_count c < ucast (pl_maxRequest q)"

definition pool_ok :: "'s pool \<times> 's pooled list \<Rightarrow> bool" where
  "pool_ok = (\<lambda>(q, out). pl_total q = of_nat (length (pl_conns q) + length out) \<and>
     list_all (idle_ok q) (pl_conns q) \<and> list_all (used_ok q) out)"

lemma take_idle_parts:
  "take_idle connected now alive cs = (n, c, r) \<Longrightarrow>
   \<exists>gone. length gone = n \<and> cs = gone @ (case c of None \<Rightarrow> [] | Some c \<Rightarrow> [c]) @ r \<and> (c = None \<longrightarrow> r = [])"
proof (induction cs arbitrary: n c r)
  case (Cons x cs)
  show ?case
  proof (cases "\<not> connected (pc_stream x) \<or> pc_create_time x + ucast alive > now")
    case True
    obtain n1 c1 r1 where t: "take_idle connected now alive cs = (n1, c1, r1)"
      by (cases "take_idle connected now alive cs")
    with Cons.IH obtain gone where "length gone = n1" "cs = gone @ (case c1 of None \<Rightarrow> [] | Some c \<Rightarrow> [c]) @ r1"
      "c1 = None \<longrightarrow> r1 = []" by blast
    then show ?thesis
      using Cons.prems True t by (intro exI [of _ "x # gone"]) auto
  next
    case False
    then show ?thesis using Cons.prems by (intro exI [of _ "[]"]) auto
  qed
qed auto

lemma getConnection_cases:
  assumes "getConnection env connect connected now q = Inr (c, q')"
  obtains gone c0 r where
    "pl_conns q = gone @ (case c0 of None \<Rightarrow> [] | Some c \<Rightarrow> [c]) @ r" "pl_conns q' = r"
    "pl_maxRequest q' = pl_maxRequest q"
    "c0 \<noteq> None \<and> c = c0 \<and> pl_total q' = pl_total q - of_nat (length gone) \<or>
     c0 = None \<and> r = [] \<and> (c = None \<and> pl_total q' = pl_total q - of_nat (length gone) \<or>
       (\<exists>s. c = Some \<lparr>pc_stream = s, pc_create_time = 0, pc_request_count = 0\<rparr>) \<and>
       pl_total q' = pl_total q - of_nat (length gone) + 1)"
proof -
  obtain n c0 r where t: "take_idle connected now (pl_maxAliveTime q) (pl_conns q) = (n, c0, r)"
    by (cases "take_idle connected now (pl_maxAliveTime q) (pl_conns q)")
  with take_idle_parts obtain gone where gone: "length gone = n"
    "pl_conns q = gone @ (case c0 of None \<Rightarrow> [] | Some c \<Rightarrow> [c]) @ r" "c0 = None \<longrightarrow> r = []" by blast
  show ?thesis
    by (rule that [OF gone(2)])
      (use assms t gone in \<open>auto simp: getConnection_def Let_def bindE_Inr_iff new_connection_def
        split: option.splits\<close>)
qed

lemma count_below: "k = 0 \<or> k < ucast m \<Longrightarrow> 0 < k + 1 \<and> (\<not> k + 1 \<ge> ucast m \<longrightarrow> k + 1 < ucast (m :: u32))"
  for k :: u64
proof -
  assume k: "k = 0 \<or> k < ucast m"
  have "unat m < 2 ^ 32" using unsigned_less [of m, where ?'a = nat] by simp
  then have "unat (ucast m :: u64) < 2 ^ 32" by (simp add: unsigned_ucast_eq take_bit_eq_mod)
  then have "unat k < 2 ^ 32" using k by (auto simp: word_less_nat_alt)
  then have "unat (k + 1) = Suc (unat k)" by (simp add: unat_word_ariths(1))
  then have "0 < k + 1" by (simp add: word_less_nat_alt)
  then show ?thesis by (simp add: not_le)
qed

lemma pool_step_ok: "pool_step x y \<Longrightarrow> pool_ok x \<Longrightarrow> pool_ok y"
proof (induction rule: pool_step.induct)
  case (taken env connect connected now q c q' out)
  from taken(1) show ?case
    by (rule getConnection_cases)
      (use taken(2) in \<open>auto simp: pool_ok_def list_all_iff idle_ok_def used_ok_def\<close>)
next
  case (not_taken env connect connected now q q' out)
  from not_taken(1) show ?case
    by (rule getConnection_cases)
      (use not_taken(2) in \<open>auto simp: pool_ok_def list_all_iff idle_ok_def used_ok_def\<close>)
next
  case (released q xs c ys connected now s)
  then have "pc_request_count c = 0 \<or> pc_request_count c < ucast (pl_maxRequest q)"
    by (auto simp: pool_ok_def used_ok_def)
  from count_below [OF this] released show ?case
    by (auto simp: pool_ok_def ReleasePtr_def Let_def list_all_iff idle_ok_def used_ok_def)
qed

lemma pool_reach_ok:
  assumes "pool_step\<^sup>*\<^sup>* (HttpConnectionPool host vhost port max_size alive_time max_request, []) (q, out)"
  shows "pool_ok (q, out)"
  using assms
proof (induction rule: rtranclp_induct)
  case base
  then show ?case by (simp add: pool_ok_def HttpConnectionPool_def)
next
  case (step y z)
  then show ?case using pool_step_ok by blast
qed

text \<open>C23: whatever is taken and given back, \<open>_total\<close> is the number of connections, idle and in use; every idle one
  has served a request and fewer than \<open>_maxRequest\<close>; and the time of creation of each is 0.\<close>

theorem pool_counts:
  assumes "pool_step\<^sup>*\<^sup>* (HttpConnectionPool host vhost port max_size alive_time max_request, []) (q, out)"
  shows "pl_total q = of_nat (length (pl_conns q) + length out) \<and>
    (\<forall>c \<in> set (pl_conns q). 0 < pc_request_count c \<and> pc_request_count c < ucast (pl_maxRequest q)) \<and>
    (\<forall>c \<in> set (pl_conns q @ out). pc_create_time c = 0)"
proof -
  show ?thesis
    using pool_reach_ok [OF assms] by (auto simp: pool_ok_def list_all_iff idle_ok_def used_ok_def)
qed

section \<open>Ages\<close>

text \<open>The pool without ages: closed connections go, the first open one is taken.\<close>

definition take_open :: "('s \<Rightarrow> bool) \<Rightarrow> 's pooled list \<Rightarrow> nat \<times> 's pooled option \<times> 's pooled list" where
  "take_open connected cs =
     (let gone = takeWhile (\<lambda>c. \<not> connected (pc_stream c)) cs in
      case drop (length gone) cs of [] \<Rightarrow> (length gone, None, []) | c # r \<Rightarrow> (length gone, Some c, r))"

lemma take_idle_open:
  "\<forall>c \<in> set cs. pc_create_time c = 0 \<Longrightarrow> ucast alive \<le> now \<Longrightarrow> take_idle connected now alive cs = take_open connected cs"
  by (induction cs) (auto simp: take_open_def Let_def split: list.splits)

lemma take_idle_young:
  "\<forall>c \<in> set cs. pc_create_time c = 0 \<Longrightarrow> now < ucast alive \<Longrightarrow> take_idle connected now alive cs = (length cs, None, [])"
  by (induction cs) auto

text \<open>C36: no connection of a pool ever expires, since none knows when it was made: once the clock is past the maximal
  age, counted from its zero, the first open idle connection is used again however old it is and a connection
  that is given back is kept; before, every idle connection is deleted and none is kept.\<close>

theorem pool_never_expires:
  assumes "pool_step\<^sup>*\<^sup>* (HttpConnectionPool host vhost port max_size alive_time max_request, []) (q, out)"
    and "c \<in> set out"
  shows "take_idle connected now (pl_maxAliveTime q) (pl_conns q) =
      (if ucast (pl_maxAliveTime q) \<le> now then take_open connected (pl_conns q) else (length (pl_conns q), None, [])) \<and>
    pl_conns (ReleasePtr connected now c q) =
      (if ucast (pl_maxAliveTime q) < now \<and> connected (pc_stream c) \<and> pc_request_count c + 1 < ucast (pl_maxRequest q)
       then pl_conns q @ [c\<lparr>pc_request_count := pc_request_count c + 1\<rparr>] else pl_conns q)"
proof -
  have ages: "\<forall>c \<in> set (pl_conns q). pc_create_time c = 0" "pc_create_time c = 0"
    using pool_reach_ok [OF assms(1)] assms(2) by (auto simp: pool_ok_def list_all_iff idle_ok_def used_ok_def)
  then show ?thesis
    using take_idle_open [OF ages(1)] take_idle_young [OF ages(1)]
    by (auto simp: ReleasePtr_def Let_def)
qed

text \<open>A pool that has given one connection.\<close>

definition sample_env :: "nat client_env" where
  "sample_env =
     \<lparr>ce_getaddrinfo = (\<lambda>_ _. Some [Some (IPv4Address (new_IPv4Address 0x7F000001 0))]), ce_CreateTCP = (\<lambda>_ _. Some 7),
      ce_connect = (\<lambda>_ _. Some), ce_setRecvTimeout = (\<lambda>_ s. s),
      ce_getRemoteAddress = (\<lambda>_. IPv4Address (new_IPv4Address 0x7F000001 0)), ce_errno_text = [],
      ce_inflate = (\<lambda>_ b. b), ce_cast = (\<lambda>_. None), ce_junk = undefined\<rparr>"

definition sample_conn :: "nat pooled" where
  "sample_conn = \<lparr>pc_stream = 7, pc_create_time = 0, pc_request_count = 0\<rparr>"

lemma sample_pool_run:
  "pool_step\<^sup>*\<^sup>* (HttpConnectionPool (str ''h'') [] 80 2 1000 5, []) ((HttpConnectionPool (str ''h'') [] 80 2 1000 5)\<lparr>pl_total := 1\<rparr>, [sample_conn])"
proof -
  let ?q = "HttpConnectionPool (str ''h'') [] 80 2 1000 5 :: nat pool"
  have "getConnection sample_env (\<lambda>_. Some) (\<lambda>_. True) 2000 ?q = Inr (Some sample_conn, ?q\<lparr>pl_total := 1\<rparr>)"
    by (simp add: getConnection_def HttpConnectionPool_def new_connection_def sample_env_def sample_conn_def Let_def
        LookupAnyIPAddress_def address_Lookup_def)
  from pool_step.taken [OF this, of "[]"] show ?thesis by blast
qed

theorem pool_counts_witness:
  "pl_total ((HttpConnectionPool (str ''h'') [] 80 2 1000 5 :: nat pool)\<lparr>pl_total := 1\<rparr>) = 1"
  using pool_counts [OF sample_pool_run] by (simp add: HttpConnectionPool_def)

theorem pool_never_expires_witness:
  "pl_conns (ReleasePtr (\<lambda>_. True) 2000 sample_conn ((HttpConnectionPool (str ''h'') [] 80 2 1000 5)\<lparr>pl_total := 1\<rparr>)) =
     [sample_conn\<lparr>pc_request_count := 1\<rparr>]"
  using pool_never_expires [OF sample_pool_run, of sample_conn "\<lambda>_. True" 2000]
  by (simp add: HttpConnectionPool_def sample_conn_def)

end
