(* ===== verification/Spec2Isabelle.thy ===== *)
theory Spec2Isabelle
  imports RockRoundtrip TimedCache Timers UtilCodec NameServerProps RpcProps LoadBalanceProps NsClientProps
    HttpMessageProps HttpServeProps WebSocketProps IoKernel SchedulerRuns HookProps
    LogFormatProps LogConfigProps ConfigProps Env AddressProps UriSafety HttpEndToEnd HttpClientProps HttpPool
begin

text \<open>
  A verification library for routn, the C++ network framework under \<open>src/\<close>: a coroutine scheduler over
  \<open>epoll\<close>, buffers and streams, an RPC protocol (Rock) with service discovery and load balancing, a
  name server, HTTP and WebSocket servers, an HTTP client with its pool of connections, timers and caches.

  \<^bold>\<open>How the parts work together.\<close> A socket stream moves bytes with the fixed-size loops of \<open>Stream\<close>. The
  Rock protocol serialises a message into a \<open>ByteArray\<close>, may compress it, and frames it with a header;
  a \<open>RockStream\<close> sends such messages from a queue in one fiber and reads answers in another, and a
  request waits in a third until its answer, its timer or the loss of the connection resumes it. The name
  server is a handler of such requests; its client keeps a copy of the server's tables and hands them to
  a load balancer, which chooses the connection of the next request and counts how it ends. The HTTP
  session reads a request with the state machine of its parser, a table of servlets answers it, and a WebSocket
  session goes on with frames on the same stream. The HTTP client parses a URL, takes a connection from its pool
  or makes one, prints the request and reads the response with the state machine of the other parser, once for
  the head and again for the size of every chunk. Under all of them fibers run on the worker threads of a
  scheduler: a hooked system call that would block adds an event to the IO manager and yields, and the
  \<open>epoll\<close> loop, the idle fiber of every worker, puts the fiber back into the scheduler's queue. Named
  configuration variables, read from YAML, set up the loggers, and the loggers format what they are given.

  \<^bold>\<open>Theories, in the order of the code.\<close>
  \<^item> \<^verbatim>\<open>Prelude\<close>: machine integers, \<open>cpp_error\<close> and the result type of fallible code, arithmetic and lists;
    \<^verbatim>\<open>StdSet\<close>, \<^verbatim>\<open>StdMap\<close>, \<^verbatim>\<open>CiMap\<close>: the ordered containers of the standard library, with the contract of a
    comparator as the locale \<open>strict_comparator\<close>; \<^verbatim>\<open>TextOut\<close>: what is printed.
  \<^item> \<^verbatim>\<open>ByteArray\<close> (\<open>src/ByteArray.cpp\<close>: the node chain, the cursor, \<open>read\<close>, \<open>write\<close>, \<open>setPosition\<close>, \<open>clear\<close>),
    \<^verbatim>\<open>ByteArraySpec\<close> (the chain refines a file with a cursor), \<^verbatim>\<open>EndianWords\<close> (\<open>src/Endian.h\<close>),
    \<^verbatim>\<open>ByteChannel\<close> (the contract of a reader and a writer of bytes), \<^verbatim>\<open>ByteArrayCodec\<close> (the typed reads and
    writes), \<^verbatim>\<open>CodecRoundtrip\<close> (what is written is read back, and where it is not), \<^verbatim>\<open>ByteArrayIO\<close>
    (iovecs, files, dumps).
  \<^item> \<^verbatim>\<open>StreamIO\<close> (\<open>src/streams/Stream.cpp\<close>, \<open>SocketStream.cpp\<close>: the fixed-size loops, over any \<open>recv\<close> and
    \<open>send\<close>), \<^verbatim>\<open>Protocol\<close> and \<^verbatim>\<open>RockRoundtrip\<close> (\<open>src/Protocol.h\<close>, \<open>src/rpc/RockProtocol.cpp\<close>).
  \<^item> \<^verbatim>\<open>FiberSem\<close> (\<open>src/FiberSync.cpp\<close>), \<^verbatim>\<open>RockRpc\<close> (\<open>src/streams/AsyncSocketStream.cpp\<close>,
    \<open>src/rpc/RockStream.cpp\<close>), \<^verbatim>\<open>RpcProps\<close> (every interleaving of the fibers as an inductive relation).
  \<^item> \<^verbatim>\<open>NsProtocol\<close>, \<^verbatim>\<open>NameServer\<close>, \<^verbatim>\<open>NameServerProps\<close> (\<open>src/ns/NameServerProtocol.cpp\<close>,
    \<open>NameServerModule.cpp\<close>), \<^verbatim>\<open>NsClient\<close>, \<^verbatim>\<open>NsClientProps\<close> (\<open>src/ns/NameServerClient.cpp\<close>, against the server).
  \<^item> \<^verbatim>\<open>LoadStats\<close>, \<^verbatim>\<open>LoadBalance\<close>, \<^verbatim>\<open>LoadBalanceProps\<close> (\<open>src/streams/LoadBalance.cpp\<close> and the request of
    \<open>RockSDLoadBalance\<close>).
  \<^item> \<^verbatim>\<open>Timers\<close> (\<open>src/Timer.cpp\<close>); \<^verbatim>\<open>LruCache\<close>, \<^verbatim>\<open>HashLru\<close>, \<^verbatim>\<open>TimedCache\<close> (\<open>src/ds/\<close>).
  \<^item> \<^verbatim>\<open>UtilText\<close>, \<^verbatim>\<open>UtilTextProps\<close>, \<^verbatim>\<open>UtilCodec\<close> (\<open>src/Util.cpp\<close>: URL escapes, base64, trimming, splitting,
    replacing).
  \<^item> \<^verbatim>\<open>HttpMessage\<close>, \<^verbatim>\<open>HttpMessageProps\<close> (\<open>src/http/HTTP.cpp\<close>), \<^verbatim>\<open>HttpServe\<close>, \<^verbatim>\<open>HttpServeProps\<close>
    (\<open>HttpSession.cpp\<close>, \<open>Parser.cpp\<close>, \<open>HttpServlet.cpp\<close>, \<open>HttpServer.cpp\<close>, \<open>WSServer.cpp\<close>), \<^verbatim>\<open>WebSocket\<close>,
    \<^verbatim>\<open>WebSocketProps\<close> (\<open>WSSession.cpp\<close>, \<open>WSConnection.cpp\<close>).
  \<^item> \<^verbatim>\<open>Ragel\<close> (how the code that Ragel writes runs: states, tests, transitions with their actions),
    \<^verbatim>\<open>CText\<close> (\<open>atoi\<close>, \<open>strtol\<close>); \<^verbatim>\<open>UriStates\<close>, \<^verbatim>\<open>Uri\<close>, \<^verbatim>\<open>UriProps\<close>, \<^verbatim>\<open>UriSafety\<close> (\<open>src/Uri.rl.cpp\<close>);
    \<^verbatim>\<open>HttpStates\<close>, \<^verbatim>\<open>RequestParser\<close>, \<^verbatim>\<open>RequestParserProps\<close>, \<^verbatim>\<open>RequestParserSafety\<close>, \<^verbatim>\<open>RequestRoundtrip\<close>,
    \<^verbatim>\<open>HttpEndToEnd\<close> (\<open>http11_parser.rl.cpp\<close> with the callbacks of \<open>Parser.cpp\<close>, then the session with this
    parser); \<^verbatim>\<open>ClientStates\<close>, \<^verbatim>\<open>ResponseParser\<close>, \<^verbatim>\<open>ResponseParserSafety\<close>, \<^verbatim>\<open>ResponseRoundtrip\<close>
    (\<open>httpclient_parser.rl.cpp\<close>); \<^verbatim>\<open>HttpConnection\<close>, \<^verbatim>\<open>HttpClientProps\<close>, \<^verbatim>\<open>HttpPool\<close>
    (\<open>HttpConnection.cpp\<close>: receiving a response, requests, the pool).
  \<^item> \<^verbatim>\<open>IoManager\<close>, \<^verbatim>\<open>IoManagerProps\<close>, \<^verbatim>\<open>IoKernel\<close> (\<open>src/IoManager.cpp\<close>: the events of a descriptor and the
    \<open>epoll\<close> loop, then the same operations beside a model of what the kernel has been told);
    \<^verbatim>\<open>Fibers\<close>, \<^verbatim>\<open>Scheduler\<close>, \<^verbatim>\<open>SchedulerProps\<close>, \<^verbatim>\<open>SchedulerRuns\<close> (\<open>src/Fiber.cpp\<close>, \<open>src/Scheduler.cpp\<close>:
    the states of a fiber, the queue, \<open>run\<close> and the runs of several workers as an inductive relation).
  \<^item> \<^verbatim>\<open>FdManager\<close>, \<^verbatim>\<open>Hook\<close>, \<^verbatim>\<open>HookProps\<close> (\<open>src/FdManager.cpp\<close>, \<open>src/Hook.cpp\<close>: the calls as the program
    sees them).
  \<^item> \<^verbatim>\<open>LogFormat\<close>, \<^verbatim>\<open>LogFormatProps\<close>, \<^verbatim>\<open>Logger\<close>, \<^verbatim>\<open>LogConfig\<close>, \<^verbatim>\<open>LogConfigProps\<close> (\<open>src/Log.cpp\<close>),
    \<^verbatim>\<open>Config\<close>, \<^verbatim>\<open>ConfigCast\<close>, \<^verbatim>\<open>ConfigProps\<close> (\<open>src/Config.cpp\<close>, \<open>src/Config.h\<close>), \<^verbatim>\<open>Env\<close> (\<open>src/Env.cpp\<close>),
    \<^verbatim>\<open>Address\<close>, \<^verbatim>\<open>AddressProps\<close> (\<open>src/Address.cpp\<close>).

  \<^bold>\<open>How the code is translated.\<close> A class is a record of its fields and a method a function that returns the
  object changed; what a method passes to other components (a send, a scheduled fiber, a timer) is a
  result, or an effect recorded in the state. Integers keep their width. Undefined behaviour, a failed
  assertion and an exception are values of \<open>cpp_error\<close>. Loops that need not end are partial functions
  into \<open>option\<close>, \<open>None\<close> being a loop that does not end; the others have a termination proof, so no fuel
  is used. A lock makes an operation atomic; where fibers interleave, the steps between two locked
  regions are separate and the properties quantify over their sequences. Code outside the repository is
  an argument: the calls of the operating system, zlib, protobuf, floating-point products, the clock,
  \<open>rand\<close>, \<open>strftime\<close>, \<open>getaddrinfo\<close>, \<open>inet_pton\<close>. A system call that fails or not is an
  argument of the operation (\<open>ctl\<close> of the IO manager); what a property needs of it is a named hypothesis
  (\<open>epoll_laws\<close>, \<open>fcntl_laws\<close>). Thread-local variables are maps from threads. A YAML document is a type of
  nodes with the operations the code uses; a listener of a variable may return or throw.

  \<^bold>\<open>State machines.\<close> The three parsers that Ragel wrote are translated from the generated code: each label
  \<open>st\<close> with its \<open>switch\<close> and tests is a definition, each label \<open>tr\<close> the actions it runs and the state it goes
  to, and a table gives the number of each state, which \<open>cs\<close> keeps. The names end in the number of the
  label in the code. Characters are signed. What a lemma needs of the machine is a property of the table that
  is computed by rewriting, state by state and class of characters by class of characters. The
  fields that \<open>http_parser_init\<close> leaves as they were in memory (\<open>uri_relaxed\<close>, \<open>query_start\<close>) are
  arguments, and the rest of a client parser is an arbitrary record. The offset of \<open>execute\<close> is 0, as in every
  call. A length that is too large for a string throws; that memory runs out is not modelled.

  \<^bold>\<open>What the lemmas show.\<close> Invariants of the containers and tables, kept by every operation; refinement of
  short specifications (a file, a list of pairs by recency, a set of registrations, a log, a map of folded
  names); round trips of the codecs, messages, frames, log patterns and subnet masks; what happens on every
  error path; for the scheduler, the invariants of every run of its workers and the runs that break them;
  for the hooks, that a blocking call returns what the last try returned; for the parsers, that on any bytes
  no assertion fails and no position leaves the buffer, what a text that makes them fail otherwise must contain, and
  that what the code prints for a URI, a request or a response is parsed into the same one; for the pool,
  that its counter is exact. Several
  properties state where the code departs from its intent: their texts say so.

  \<^bold>\<open>Locales.\<close> \<open>strict_comparator\<close> (ordered containers), the byte channel of \<^verbatim>\<open>ByteChannel\<close>, \<open>progressing_io\<close>
  (transfers), \<open>item_chooser\<close> (balancers), \<open>keyed_store\<close> (caches split by the hash of the key),
  \<open>healthy_stream\<close> (frames over a stream), \<open>machine_invariant\<close> and \<open>total_invariant\<close> (what every transition
  of a state machine keeps holds after a run); each is interpreted
  on the definitions of the model that provide it.

  \<^bold>\<open>Not modelled.\<close> Plain wrappers of system calls (sockets, threads, locks, context switches), processes,
  modules and daemons, the clients of Redis, SQLite, MySQL and ZooKeeper, the generator of database classes,
  floating-point weights, and text that is only printed for people. The generated code of
  protobuf and vendored libraries are parameters.
\<close>

end
